(* ===== verification/Femu_Prelude.thy ===== *)
theory Femu_Prelude
  imports Main "HOL-Library.Word" "HOL-Library.Multiset"
begin

text \<open>
  Shared vocabulary of the development: the C integer types as words, C truth values and
  conversions, the list lemmas the array models use, and the collections of rewrite rules
  that the component theories add their definitions to.
\<close>

unbundle bit_operations_syntax

subsection \<open>Machine integers\<close>

type_synonym u8 = "8 word"
type_synonym u16 = "16 word"
type_synonym u32 = "32 word"
type_synonym u64 = "64 word"

text \<open>Conversions of the C code between widths; \<open>int\<close> is 32 bits wide on the target.\<close>

abbreviation u64_of_u32 :: "u32 \<Rightarrow> u64" where "u64_of_u32 x \<equiv> ucast x"
abbreviation u64_of_u16 :: "u16 \<Rightarrow> u64" where "u64_of_u16 x \<equiv> ucast x"
abbreviation u32_of_u64 :: "u64 \<Rightarrow> u32" where "u32_of_u64 x \<equiv> ucast x"

definition c_int_of_u64 :: "u64 \<Rightarrow> int" where
  "c_int_of_u64 w = sint (ucast w :: u32)"

definition u64_of_c_int :: "int \<Rightarrow> u64" where
  "u64_of_c_int i = word_of_int i"

definition c_int_range :: "int \<Rightarrow> bool" where
  "c_int_range i \<longleftrightarrow> - (2 ^ 31) \<le> i \<and> i < 2 ^ 31"

lemma unat_ucast_up:
  fixes w :: "'a::len word"
  assumes "LENGTH('a) \<le> LENGTH('b::len)"
  shows "unat (ucast w :: 'b word) = unat w"
proof -
  have "unat w < 2 ^ LENGTH('a)" by simp
  also have "(2::nat) ^ LENGTH('a) \<le> 2 ^ LENGTH('b)" using assms by simp
  finally show ?thesis by (simp add: unsigned_ucast_eq take_bit_nat_eq_self)
qed

lemma unat_ucast_less:
  fixes w :: "'a::len word"
  assumes "unat w < 2 ^ LENGTH('b::len)"
  shows "unat (ucast w :: 'b word) = unat w"
  using assms by (simp add: unsigned_ucast_eq take_bit_nat_eq_self)

lemma unat_min: "unat (min a b) = min (unat a) (unat b)"
  by (auto simp: min_def word_le_nat_alt)

lemma unat_sub_le: "b \<le> a \<Longrightarrow> unat (a - b) = unat a - unat b"
  by (rule unat_sub)

lemma sint_u32_of_int: "c_int_range i \<Longrightarrow> sint (word_of_int i :: u32) = i"
  by (simp add: c_int_range_def sint_sbintrunc' signed_take_bit_int_eq_self)

lemma ucast_u32_of_int: "(ucast (word_of_int i :: u64) :: u32) = word_of_int i"
  by (rule bit_word_eqI) (simp add: bit_simps)

lemma c_int_u64_roundtrip [simp]: "c_int_range i \<Longrightarrow> c_int_of_u64 (u64_of_c_int i) = i"
  by (simp add: c_int_of_u64_def u64_of_c_int_def ucast_u32_of_int sint_u32_of_int)

lemma u64_c_int_roundtrip:
  assumes "v < 2 ^ 31"
  shows "u64_of_c_int (c_int_of_u64 v) = v"
proof -
  have n: "uint v < 2 ^ 31"
    using assms by (simp add: word_less_def)
  have "uint (ucast v :: u32) = uint v"
    using n by (simp add: unsigned_ucast_eq take_bit_int_eq_self)
  then have "sint (ucast v :: u32) = uint v"
    using n by (simp add: sint_uint signed_take_bit_int_eq_self_iff order_trans [OF _ uint_ge_0])
  then show ?thesis
    by (simp add: c_int_of_u64_def u64_of_c_int_def)
qed

text \<open>A nonnegative \<open>int\<close> keeps its order as an \<open>unsigned long long\<close>.\<close>

lemma u64_of_c_int_less:
  assumes "0 \<le> a" "0 \<le> b" "c_int_range a" "c_int_range b"
  shows "u64_of_c_int a < u64_of_c_int b \<longleftrightarrow> a < b"
  using assms
  by (simp add: u64_of_c_int_def c_int_range_def word_less_def uint_word_of_int)

subsection \<open>Arrays as lists\<close>

lemma nth_list_update_if:
  "i < length xs \<Longrightarrow> xs[i := x] ! j = (if j = i then x else xs ! j)"
  by (auto simp: nth_list_update)

lemma nth_list_update_total:
  "xs[i := x] ! j = (if i = j \<and> i < length xs then x else xs ! j)"
  by (cases "i < length xs") (auto simp: nth_list_update list_update_beyond)

lemma mset_swap_update:
  assumes "i < length xs" "j < length xs"
  shows "mset (xs[i := xs ! j, j := xs ! i]) = mset xs"
  using assms by (simp add: mset_swap)

text \<open>The elements of an array slice, for arrays used from index 1.\<close>

definition arr_slice :: "'a list \<Rightarrow> nat \<Rightarrow> nat \<Rightarrow> 'a list" where
  "arr_slice xs a b = take (b - a) (drop a xs)"

lemma length_arr_slice [simp]: "b \<le> length xs \<Longrightarrow> length (arr_slice xs a b) = b - a"
  by (simp add: arr_slice_def)

lemma nth_arr_slice [simp]:
  "b \<le> length xs \<Longrightarrow> i < b - a \<Longrightarrow> arr_slice xs a b ! i = xs ! (a + i)"
  by (simp add: arr_slice_def)

lemma set_arr_slice:
  assumes "b \<le> length xs"
  shows "set (arr_slice xs a b) = {xs ! i | i. a \<le> i \<and> i < b}"
proof (intro set_eqI iffI)
  fix x
  assume "x \<in> set (arr_slice xs a b)"
  then obtain i where "i < b - a" "x = xs ! (a + i)"
    using assms by (auto simp: in_set_conv_nth)
  then show "x \<in> {xs ! i | i. a \<le> i \<and> i < b}"
    by (auto intro!: exI [of _ "a + i"])
next
  fix x
  assume "x \<in> {xs ! i | i. a \<le> i \<and> i < b}"
  then obtain i where "a \<le> i" "i < b" "x = xs ! i" by auto
  then show "x \<in> set (arr_slice xs a b)"
    using assms by (auto simp: in_set_conv_nth intro!: exI [of _ "i - a"])
qed

lemma arr_slice_Suc:
  assumes "a \<le> b" "b < length xs"
  shows "arr_slice xs a (Suc b) = arr_slice xs a b @ [xs ! b]"
  using assms by (simp add: arr_slice_def Suc_diff_le take_Suc_conv_app_nth)

lemma arr_slice_update_outside [simp]:
  "i < a \<or> b \<le> i \<Longrightarrow> arr_slice (xs[i := x]) a b = arr_slice xs a b"
  by (auto simp: arr_slice_def list_eq_iff_nth_eq)

lemma arr_slice_update_inside:
  "a \<le> i \<Longrightarrow> i < b \<Longrightarrow> b \<le> length xs \<Longrightarrow>
   arr_slice (xs[i := x]) a b = (arr_slice xs a b)[i - a := x]"
  by (auto simp: nth_list_update intro!: nth_equalityI)

lemma mset_arr_slice_swap:
  assumes "a \<le> i" "i < b" "a \<le> j" "j < b" "b \<le> length xs"
  shows "mset (arr_slice (xs[i := xs ! j, j := xs ! i]) a b) = mset (arr_slice xs a b)"
proof -
  have "arr_slice (xs[i := xs ! j, j := xs ! i]) a b =
        (arr_slice xs a b)[i - a := arr_slice xs a b ! (j - a), j - a := arr_slice xs a b ! (i - a)]"
    using assms by (simp add: arr_slice_update_inside)
  also have "mset \<dots> = mset (arr_slice xs a b)"
    using assms by (intro mset_swap) simp_all
  finally show ?thesis .
qed

lemma distinct_arr_slice_nth:
  assumes "distinct (arr_slice xs a b)" "b \<le> length xs" "a \<le> i" "i < b" "a \<le> j" "j < b"
  shows "xs ! i = xs ! j \<longleftrightarrow> i = j"
  using assms nth_eq_iff_index_eq [of "arr_slice xs a b" "i - a" "j - a"] by auto

lemma distinct_mset_eq: "mset xs = mset ys \<Longrightarrow> distinct xs \<longleftrightarrow> distinct ys"
  by (metis mset_eq_imp_distinct_iff)

subsection \<open>Collections\<close>

named_theorems nvme_status \<open>the NVMe status codes and bit constants as numerals\<close>
named_theorems bitfield \<open>the bit-field accessors of nvme.h\<close>

subsection \<open>Overwriting a stretch of a list\<close>

text \<open>The elements of \<open>xs\<close> from \<open>off\<close> on replaced by \<open>bs\<close>.\<close>

definition overwrite :: "'a list \<Rightarrow> nat \<Rightarrow> 'a list \<Rightarrow> 'a list" where
  "overwrite xs off bs = take off xs @ bs @ drop (off + length bs) xs"

lemma length_overwrite [simp]: "off + length bs \<le> length xs \<Longrightarrow> length (overwrite xs off bs) = length xs"
  by (simp add: overwrite_def)

lemma overwrite_Nil [simp]: "overwrite xs off [] = xs"
  by (simp add: overwrite_def)

lemma overwrite_append:
  "off + length bs + length cs \<le> length xs \<Longrightarrow>
   overwrite (overwrite xs off bs) (off + length bs) cs = overwrite xs off (bs @ cs)"
proof -
  assume fits: "off + length bs + length cs \<le> length xs"
  then have "take (off + length bs) (overwrite xs off bs) = take off xs @ bs"
    by (simp add: overwrite_def)
  moreover have "drop (off + length bs + length cs) (overwrite xs off bs) = drop (off + length bs + length cs) xs"
    using fits by (simp add: overwrite_def ac_simps)
  ultimately show ?thesis
    by (simp only: overwrite_def [of "overwrite xs off bs"]) (simp add: overwrite_def ac_simps)
qed

lemma take_drop_overwrite:
  "off + length bs \<le> length xs \<Longrightarrow> take (length bs) (drop off (overwrite xs off bs)) = bs"
  by (simp add: overwrite_def)

lemma nth_overwrite:
  assumes "off + length bs \<le> length xs" "j < length xs"
  shows "overwrite xs off bs ! j = (if off \<le> j \<and> j < off + length bs then bs ! (j - off) else xs ! j)"
  using assms by (auto simp: overwrite_def nth_append)

subsection \<open>Remainders by powers of two\<close>

lemma unat_and_mask:
  fixes x :: "'a::len word"
  shows "unat (x AND (2 ^ k - 1)) = unat x mod 2 ^ k"
proof -
  have "unat (x AND (2 ^ k - 1)) = unat (take_bit k x)" by (simp only: take_bit_eq_mask mask_eq_exp_minus_1)
  also have "\<dots> = take_bit k (unat x)" by (rule unsigned_take_bit_eq)
  finally show ?thesis by (simp only: take_bit_eq_mod)
qed

lemma unat_push_bit_less:
  fixes x :: "'a::len word"
  assumes "unat x * 2 ^ k < 2 ^ LENGTH('a)"
  shows "unat (push_bit k x) = unat x * 2 ^ k"
proof -
  have "unat (push_bit k x) = take_bit LENGTH('a) (push_bit k (unat x))" by (rule unsigned_push_bit_eq)
  then show ?thesis using assms by (simp add: push_bit_eq_mult [of k "unat x"] take_bit_nat_eq_self)
qed

lemma unat_plus_mod:
  fixes x y :: "'a::len word"
  assumes "k \<le> LENGTH('a)"
  shows "unat (x + y) mod 2 ^ k = (unat x + unat y) mod 2 ^ k"
  using assms by (simp add: unat_word_ariths mod_mod_cancel le_imp_power_dvd)

lemma and_not_mask_push:
  fixes n :: "'a::len word"
  shows "n AND NOT (mask k) = push_bit k (drop_bit k n)"
  by (rule bit_word_eqI) (auto simp: bit_simps)

lemma unat_and_not_3:
  fixes n :: u32
  shows "unat (n AND NOT 3) + unat (n AND 3) = unat n" "unat (n AND 3) < 4" "4 dvd unat (n AND NOT 3)"
proof -
  have m: "(3 :: u32) = mask 2" by (simp add: mask_eq_exp_minus_1)
  have e: "unat (n AND 3) = unat n mod 4" using unat_and_mask [of n 2] by simp
  then show "unat (n AND 3) < 4" by simp
  have q: "unat (drop_bit 2 n) = unat n div 4"
    using unat_drop_bit_eq [of 2 n] by (simp add: drop_bit_eq_div [of 2 "unat n"])
  have "unat n < 2 ^ 32" using unsigned_less [of n] by simp
  then have d: "unat (n AND NOT 3) = unat n div 4 * 4"
    unfolding m and_not_mask_push using q unat_push_bit_less [of "drop_bit 2 n" 2] by simp
  then show "4 dvd unat (n AND NOT 3)" by simp
  show "unat (n AND NOT 3) + unat (n AND 3) = unat n" using d e by simp
qed

text \<open>Numbers written with two digits in a mixed base.\<close>

lemma two_digits_less: "a < m \<Longrightarrow> b < n \<Longrightarrow> a * n + b < m * (n :: nat)"
proof -
  assume "a < m" "b < n"
  then have "a * n + b < Suc a * n" by simp
  also have "\<dots> \<le> m * n" using \<open>a < m\<close> by (intro mult_le_mono1) simp
  finally show ?thesis .
qed

lemma two_digits_eq: "b < n \<Longrightarrow> b' < n \<Longrightarrow> a * n + b = a' * n + b' \<longleftrightarrow> a = a' \<and> b = (b' :: nat)"
  by (metis add.commute div_mult_self3 mod_less mod_mult_self3 add_right_imp_eq div_less plus_nat.add_0
      bot_nat_0.not_eq_extremum less_nat_zero_code)

end
