(* ===== verification/Nvme_Types.thy ===== *)
theory Nvme_Types
  imports Femu_Prelude
begin

text \<open>
  The data of \<open>femu/nvme.h\<close> that the controller code works on: the enumerations with their codes,
  the register bit fields, and the command, queue, namespace and request structures as records.
  A field keeps its C name behind a prefix for its structure; reserved fields are left out.  The
  commands a handler casts \<open>NvmeCmd\<close> to are views computed from its dwords (little endian).
\<close>

subsection \<open>Status codes and opcodes\<close>

datatype (plugins only: code size) NvmeStatusCodes =
    NVME_SUCCESS
  | NVME_INVALID_OPCODE
  | NVME_INVALID_FIELD
  | NVME_CID_CONFLICT
  | NVME_DATA_TRAS_ERROR
  | NVME_POWER_LOSS_ABORT
  | NVME_INTERNAL_DEV_ERROR
  | NVME_CMD_ABORT_REQ
  | NVME_CMD_ABORT_SQ_DEL
  | NVME_CMD_ABORT_FAILED_FUSE
  | NVME_CMD_ABORT_MISSING_FUSE
  | NVME_INVALID_NSID
  | NVME_CMD_SEQ_ERROR
  | NVME_INVALID_CMD_SET
  | NVME_LBA_RANGE
  | NVME_CAP_EXCEEDED
  | NVME_NS_NOT_READY
  | NVME_NS_RESV_CONFLICT
  | NVME_INVALID_CQID
  | NVME_INVALID_QID
  | NVME_MAX_QSIZE_EXCEEDED
  | NVME_ACL_EXCEEDED
  | NVME_RESERVED
  | NVME_AER_LIMIT_EXCEEDED
  | NVME_INVALID_FW_SLOT
  | NVME_INVALID_FW_IMAGE
  | NVME_INVALID_IRQ_VECTOR
  | NVME_INVALID_LOG_ID
  | NVME_INVALID_FORMAT
  | NVME_FW_REQ_RESET
  | NVME_INVALID_QUEUE_DEL
  | NVME_FID_NOT_SAVEABLE
  | NVME_FID_NOT_NSID_SPEC
  | NVME_FW_REQ_SUSYSTEM_RESET
  | NVME_CONFLICTING_ATTRS
  | NVME_INVALID_PROT_INFO
  | NVME_WRITE_TO_RO
  | NVME_ZONE_BOUNDARY_ERROR
  | NVME_ZONE_FULL
  | NVME_ZONE_READ_ONLY
  | NVME_ZONE_OFFLINE
  | NVME_ZONE_INVALID_WRITE
  | NVME_ZONE_TOO_MANY_ACTIVE
  | NVME_ZONE_TOO_MANY_OPEN
  | NVME_ZONE_INVAL_TRANSITION
  | NVME_INVALID_MEMORY_ADDRESS
  | NVME_WRITE_FAULT
  | NVME_UNRECOVERED_READ
  | NVME_E2E_GUARD_ERROR
  | NVME_E2E_APP_ERROR
  | NVME_E2E_REF_ERROR
  | NVME_CMP_FAILURE
  | NVME_ACCESS_DENIED
  | NVME_DULB
  | NVME_MORE
  | NVME_DNR
  | NVME_NO_COMPLETE

primrec sc :: "NvmeStatusCodes \<Rightarrow> u16" where
    "sc NVME_SUCCESS = 0"
  | "sc NVME_INVALID_OPCODE = 1"
  | "sc NVME_INVALID_FIELD = 2"
  | "sc NVME_CID_CONFLICT = 3"
  | "sc NVME_DATA_TRAS_ERROR = 4"
  | "sc NVME_POWER_LOSS_ABORT = 5"
  | "sc NVME_INTERNAL_DEV_ERROR = 6"
  | "sc NVME_CMD_ABORT_REQ = 7"
  | "sc NVME_CMD_ABORT_SQ_DEL = 8"
  | "sc NVME_CMD_ABORT_FAILED_FUSE = 9"
  | "sc NVME_CMD_ABORT_MISSING_FUSE = 0xa"
  | "sc NVME_INVALID_NSID = 0xb"
  | "sc NVME_CMD_SEQ_ERROR = 0xc"
  | "sc NVME_INVALID_CMD_SET = 0x2c"
  | "sc NVME_LBA_RANGE = 0x80"
  | "sc NVME_CAP_EXCEEDED = 0x81"
  | "sc NVME_NS_NOT_READY = 0x82"
  | "sc NVME_NS_RESV_CONFLICT = 0x83"
  | "sc NVME_INVALID_CQID = 0x100"
  | "sc NVME_INVALID_QID = 0x101"
  | "sc NVME_MAX_QSIZE_EXCEEDED = 0x102"
  | "sc NVME_ACL_EXCEEDED = 0x103"
  | "sc NVME_RESERVED = 0x104"
  | "sc NVME_AER_LIMIT_EXCEEDED = 0x105"
  | "sc NVME_INVALID_FW_SLOT = 0x106"
  | "sc NVME_INVALID_FW_IMAGE = 0x107"
  | "sc NVME_INVALID_IRQ_VECTOR = 0x108"
  | "sc NVME_INVALID_LOG_ID = 0x109"
  | "sc NVME_INVALID_FORMAT = 0x10a"
  | "sc NVME_FW_REQ_RESET = 0x10b"
  | "sc NVME_INVALID_QUEUE_DEL = 0x10c"
  | "sc NVME_FID_NOT_SAVEABLE = 0x10d"
  | "sc NVME_FID_NOT_NSID_SPEC = 0x10f"
  | "sc NVME_FW_REQ_SUSYSTEM_RESET = 0x110"
  | "sc NVME_CONFLICTING_ATTRS = 0x180"
  | "sc NVME_INVALID_PROT_INFO = 0x181"
  | "sc NVME_WRITE_TO_RO = 0x182"
  | "sc NVME_ZONE_BOUNDARY_ERROR = 0x1b8"
  | "sc NVME_ZONE_FULL = 0x1b9"
  | "sc NVME_ZONE_READ_ONLY = 0x1ba"
  | "sc NVME_ZONE_OFFLINE = 0x1bb"
  | "sc NVME_ZONE_INVALID_WRITE = 0x1bc"
  | "sc NVME_ZONE_TOO_MANY_ACTIVE = 0x1bd"
  | "sc NVME_ZONE_TOO_MANY_OPEN = 0x1be"
  | "sc NVME_ZONE_INVAL_TRANSITION = 0x1bf"
  | "sc NVME_INVALID_MEMORY_ADDRESS = 0x1c0"
  | "sc NVME_WRITE_FAULT = 0x280"
  | "sc NVME_UNRECOVERED_READ = 0x281"
  | "sc NVME_E2E_GUARD_ERROR = 0x282"
  | "sc NVME_E2E_APP_ERROR = 0x283"
  | "sc NVME_E2E_REF_ERROR = 0x284"
  | "sc NVME_CMP_FAILURE = 0x285"
  | "sc NVME_ACCESS_DENIED = 0x286"
  | "sc NVME_DULB = 0x287"
  | "sc NVME_MORE = 0x2000"
  | "sc NVME_DNR = 0x4000"
  | "sc NVME_NO_COMPLETE = 0xffff"

abbreviation dnr :: "NvmeStatusCodes \<Rightarrow> u16" where
  "dnr s \<equiv> sc s OR sc NVME_DNR"

datatype (plugins only: code size) NvmeAdminCommands =
    NVME_ADM_CMD_DELETE_SQ
  | NVME_ADM_CMD_CREATE_SQ
  | NVME_ADM_CMD_GET_LOG_PAGE
  | NVME_ADM_CMD_DELETE_CQ
  | NVME_ADM_CMD_CREATE_CQ
  | NVME_ADM_CMD_IDENTIFY
  | NVME_ADM_CMD_ABORT
  | NVME_ADM_CMD_SET_FEATURES
  | NVME_ADM_CMD_GET_FEATURES
  | NVME_ADM_CMD_ASYNC_EV_REQ
  | NVME_ADM_CMD_ACTIVATE_FW
  | NVME_ADM_CMD_DOWNLOAD_FW
  | NVME_ADM_CMD_FORMAT_NVM
  | NVME_ADM_CMD_SECURITY_SEND
  | NVME_ADM_CMD_SECURITY_RECV
  | NVME_ADM_CMD_SET_DB_MEMORY
  | NVME_ADM_CMD_FEMU_DEBUG
  | NVME_ADM_CMD_FEMU_FLIP

primrec adm_opcode :: "NvmeAdminCommands \<Rightarrow> u8" where
    "adm_opcode NVME_ADM_CMD_DELETE_SQ = 0"
  | "adm_opcode NVME_ADM_CMD_CREATE_SQ = 1"
  | "adm_opcode NVME_ADM_CMD_GET_LOG_PAGE = 2"
  | "adm_opcode NVME_ADM_CMD_DELETE_CQ = 4"
  | "adm_opcode NVME_ADM_CMD_CREATE_CQ = 5"
  | "adm_opcode NVME_ADM_CMD_IDENTIFY = 6"
  | "adm_opcode NVME_ADM_CMD_ABORT = 8"
  | "adm_opcode NVME_ADM_CMD_SET_FEATURES = 9"
  | "adm_opcode NVME_ADM_CMD_GET_FEATURES = 0xa"
  | "adm_opcode NVME_ADM_CMD_ASYNC_EV_REQ = 0xc"
  | "adm_opcode NVME_ADM_CMD_ACTIVATE_FW = 0x10"
  | "adm_opcode NVME_ADM_CMD_DOWNLOAD_FW = 0x11"
  | "adm_opcode NVME_ADM_CMD_FORMAT_NVM = 0x80"
  | "adm_opcode NVME_ADM_CMD_SECURITY_SEND = 0x81"
  | "adm_opcode NVME_ADM_CMD_SECURITY_RECV = 0x82"
  | "adm_opcode NVME_ADM_CMD_SET_DB_MEMORY = 0x7c"
  | "adm_opcode NVME_ADM_CMD_FEMU_DEBUG = 0xee"
  | "adm_opcode NVME_ADM_CMD_FEMU_FLIP = 0xef"

datatype (plugins only: code size) NvmeIoCommands =
    NVME_CMD_FLUSH
  | NVME_CMD_WRITE
  | NVME_CMD_READ
  | NVME_CMD_WRITE_UNCOR
  | NVME_CMD_COMPARE
  | NVME_CMD_WRITE_ZEROES
  | NVME_CMD_DSM
  | NVME_CMD_ZONE_MGMT_SEND
  | NVME_CMD_ZONE_MGMT_RECV
  | NVME_CMD_ZONE_APPEND
  | NVME_CMD_OC_ERASE
  | NVME_CMD_OC_WRITE
  | NVME_CMD_OC_READ

primrec io_opcode :: "NvmeIoCommands \<Rightarrow> u8" where
    "io_opcode NVME_CMD_FLUSH = 0"
  | "io_opcode NVME_CMD_WRITE = 1"
  | "io_opcode NVME_CMD_READ = 2"
  | "io_opcode NVME_CMD_WRITE_UNCOR = 4"
  | "io_opcode NVME_CMD_COMPARE = 5"
  | "io_opcode NVME_CMD_WRITE_ZEROES = 8"
  | "io_opcode NVME_CMD_DSM = 9"
  | "io_opcode NVME_CMD_ZONE_MGMT_SEND = 0x79"
  | "io_opcode NVME_CMD_ZONE_MGMT_RECV = 0x7a"
  | "io_opcode NVME_CMD_ZONE_APPEND = 0x7d"
  | "io_opcode NVME_CMD_OC_ERASE = 0x90"
  | "io_opcode NVME_CMD_OC_WRITE = 0x91"
  | "io_opcode NVME_CMD_OC_READ = 0x92"

datatype (plugins only: code size) NvmeIdCns =
    NVME_ID_CNS_NS
  | NVME_ID_CNS_CTRL
  | NVME_ID_CNS_NS_ACTIVE_LIST
  | NVME_ID_CNS_NS_DESCR_LIST
  | NVME_ID_CNS_CS_NS
  | NVME_ID_CNS_CS_CTRL
  | NVME_ID_CNS_CS_NS_ACTIVE_LIST
  | NVME_ID_CNS_NS_PRESENT_LIST
  | NVME_ID_CNS_NS_PRESENT
  | NVME_ID_CNS_CS_NS_PRESENT_LIST
  | NVME_ID_CNS_CS_NS_PRESENT
  | NVME_ID_CNS_IO_COMMAND_SET

primrec cns_code :: "NvmeIdCns \<Rightarrow> u32" where
    "cns_code NVME_ID_CNS_NS = 0"
  | "cns_code NVME_ID_CNS_CTRL = 1"
  | "cns_code NVME_ID_CNS_NS_ACTIVE_LIST = 2"
  | "cns_code NVME_ID_CNS_NS_DESCR_LIST = 3"
  | "cns_code NVME_ID_CNS_CS_NS = 5"
  | "cns_code NVME_ID_CNS_CS_CTRL = 6"
  | "cns_code NVME_ID_CNS_CS_NS_ACTIVE_LIST = 7"
  | "cns_code NVME_ID_CNS_NS_PRESENT_LIST = 0x10"
  | "cns_code NVME_ID_CNS_NS_PRESENT = 0x11"
  | "cns_code NVME_ID_CNS_CS_NS_PRESENT_LIST = 0x1a"
  | "cns_code NVME_ID_CNS_CS_NS_PRESENT = 0x1b"
  | "cns_code NVME_ID_CNS_IO_COMMAND_SET = 0x1c"

datatype (plugins only: code size) NvmeFeatureIds =
    NVME_ARBITRATION
  | NVME_POWER_MANAGEMENT
  | NVME_LBA_RANGE_TYPE
  | NVME_TEMPERATURE_THRESHOLD
  | NVME_ERROR_RECOVERY
  | NVME_VOLATILE_WRITE_CACHE
  | NVME_NUMBER_OF_QUEUES
  | NVME_INTERRUPT_COALESCING
  | NVME_INTERRUPT_VECTOR_CONF
  | NVME_WRITE_ATOMICITY
  | NVME_ASYNCHRONOUS_EVENT_CONF
  | NVME_TIMESTAMP
  | NVME_SOFTWARE_PROGRESS_MARKER
  | NVME_FID_MAX

primrec feature_id :: "NvmeFeatureIds \<Rightarrow> u32" where
    "feature_id NVME_ARBITRATION = 1"
  | "feature_id NVME_POWER_MANAGEMENT = 2"
  | "feature_id NVME_LBA_RANGE_TYPE = 3"
  | "feature_id NVME_TEMPERATURE_THRESHOLD = 4"
  | "feature_id NVME_ERROR_RECOVERY = 5"
  | "feature_id NVME_VOLATILE_WRITE_CACHE = 6"
  | "feature_id NVME_NUMBER_OF_QUEUES = 7"
  | "feature_id NVME_INTERRUPT_COALESCING = 8"
  | "feature_id NVME_INTERRUPT_VECTOR_CONF = 9"
  | "feature_id NVME_WRITE_ATOMICITY = 0xa"
  | "feature_id NVME_ASYNCHRONOUS_EVENT_CONF = 0xb"
  | "feature_id NVME_TIMESTAMP = 0xe"
  | "feature_id NVME_SOFTWARE_PROGRESS_MARKER = 0x80"
  | "feature_id NVME_FID_MAX = 0x100"

datatype (plugins only: code size) LogIdentifier =
    NVME_LOG_ERROR_INFO
  | NVME_LOG_SMART_INFO
  | NVME_LOG_FW_SLOT_INFO
  | NVME_LOG_CMD_EFFECTS

primrec log_id :: "LogIdentifier \<Rightarrow> u16" where
    "log_id NVME_LOG_ERROR_INFO = 1"
  | "log_id NVME_LOG_SMART_INFO = 2"
  | "log_id NVME_LOG_FW_SLOT_INFO = 3"
  | "log_id NVME_LOG_CMD_EFFECTS = 5"

datatype (plugins only: code size) NvmeCmdEffects =
    NVME_CMD_EFF_CSUPP
  | NVME_CMD_EFF_LBCC
  | NVME_CMD_EFF_NCC
  | NVME_CMD_EFF_NIC
  | NVME_CMD_EFF_CCC
  | NVME_CMD_EFF_CSE_MASK
  | NVME_CMD_EFF_UUID_SEL

primrec cmd_eff :: "NvmeCmdEffects \<Rightarrow> u32" where
    "cmd_eff NVME_CMD_EFF_CSUPP = 1"
  | "cmd_eff NVME_CMD_EFF_LBCC = 2"
  | "cmd_eff NVME_CMD_EFF_NCC = 4"
  | "cmd_eff NVME_CMD_EFF_NIC = 8"
  | "cmd_eff NVME_CMD_EFF_CCC = 0x10"
  | "cmd_eff NVME_CMD_EFF_CSE_MASK = 0x30000"
  | "cmd_eff NVME_CMD_EFF_UUID_SEL = 0x80000"

datatype (plugins only: code size) NvmeCsi =
    NVME_CSI_NVM
  | NVME_CSI_ZONED

primrec csi_code :: "NvmeCsi \<Rightarrow> u8" where
    "csi_code NVME_CSI_NVM = 0"
  | "csi_code NVME_CSI_ZONED = 2"

datatype (plugins only: code size) NvmeAsyncEventRequest =
    NVME_AER_TYPE_ERROR
  | NVME_AER_TYPE_SMART
  | NVME_AER_TYPE_IO_SPECIFIC
  | NVME_AER_TYPE_VENDOR_SPECIFIC
  | NVME_AER_INFO_ERR_INVALID_SQ
  | NVME_AER_INFO_ERR_INVALID_DB
  | NVME_AER_INFO_ERR_DIAG_FAIL
  | NVME_AER_INFO_ERR_PERS_INTERNAL_ERR
  | NVME_AER_INFO_ERR_TRANS_INTERNAL_ERR
  | NVME_AER_INFO_ERR_FW_IMG_LOAD_ERR
  | NVME_AER_INFO_SMART_RELIABILITY
  | NVME_AER_INFO_SMART_TEMP_THRESH
  | NVME_AER_INFO_SMART_SPARE_THRESH

primrec aer_code :: "NvmeAsyncEventRequest \<Rightarrow> u8" where
    "aer_code NVME_AER_TYPE_ERROR = 0"
  | "aer_code NVME_AER_TYPE_SMART = 1"
  | "aer_code NVME_AER_TYPE_IO_SPECIFIC = 6"
  | "aer_code NVME_AER_TYPE_VENDOR_SPECIFIC = 7"
  | "aer_code NVME_AER_INFO_ERR_INVALID_SQ = 0"
  | "aer_code NVME_AER_INFO_ERR_INVALID_DB = 1"
  | "aer_code NVME_AER_INFO_ERR_DIAG_FAIL = 2"
  | "aer_code NVME_AER_INFO_ERR_PERS_INTERNAL_ERR = 3"
  | "aer_code NVME_AER_INFO_ERR_TRANS_INTERNAL_ERR = 4"
  | "aer_code NVME_AER_INFO_ERR_FW_IMG_LOAD_ERR = 5"
  | "aer_code NVME_AER_INFO_SMART_RELIABILITY = 0"
  | "aer_code NVME_AER_INFO_SMART_TEMP_THRESH = 1"
  | "aer_code NVME_AER_INFO_SMART_SPARE_THRESH = 2"

datatype (plugins only: code size) NvmeSmartWarn =
    NVME_SMART_SPARE
  | NVME_SMART_TEMPERATURE
  | NVME_SMART_RELIABILITY
  | NVME_SMART_MEDIA_READ_ONLY
  | NVME_SMART_FAILED_VOLATILE_MEDIA

primrec smart_warn :: "NvmeSmartWarn \<Rightarrow> u8" where
    "smart_warn NVME_SMART_SPARE = 1"
  | "smart_warn NVME_SMART_TEMPERATURE = 2"
  | "smart_warn NVME_SMART_RELIABILITY = 4"
  | "smart_warn NVME_SMART_MEDIA_READ_ONLY = 8"
  | "smart_warn NVME_SMART_FAILED_VOLATILE_MEDIA = 0x10"

datatype (plugins only: code size) NvmeIdCtrlOacs =
    NVME_OACS_SECURITY
  | NVME_OACS_FORMAT
  | NVME_OACS_FW
  | NVME_OACS_Oc12DEV
  | NVME_OACS_DBBUF

primrec oacs_bit :: "NvmeIdCtrlOacs \<Rightarrow> u16" where
    "oacs_bit NVME_OACS_SECURITY = 1"
  | "oacs_bit NVME_OACS_FORMAT = 2"
  | "oacs_bit NVME_OACS_FW = 4"
  | "oacs_bit NVME_OACS_Oc12DEV = 8"
  | "oacs_bit NVME_OACS_DBBUF = 0x100"

datatype (plugins only: code size) NvmeIdCtrlOncs =
    NVME_ONCS_COMPARE
  | NVME_ONCS_WRITE_UNCORR
  | NVME_ONCS_DSM
  | NVME_ONCS_WRITE_ZEROS
  | NVME_ONCS_FEATURES
  | NVME_ONCS_RESRVATIONS

primrec oncs_bit :: "NvmeIdCtrlOncs \<Rightarrow> u16" where
    "oncs_bit NVME_ONCS_COMPARE = 1"
  | "oncs_bit NVME_ONCS_WRITE_UNCORR = 2"
  | "oncs_bit NVME_ONCS_DSM = 4"
  | "oncs_bit NVME_ONCS_WRITE_ZEROS = 8"
  | "oncs_bit NVME_ONCS_FEATURES = 0x10"
  | "oncs_bit NVME_ONCS_RESRVATIONS = 0x20"

datatype (plugins only: code size) FemuMode =
    FEMU_OCSSD_MODE
  | FEMU_BBSSD_MODE
  | FEMU_NOSSD_MODE
  | FEMU_ZNSSD_MODE
  | FEMU_SMARTSSD_MODE
  | FEMU_KVSSD_MODE

primrec femu_mode_code :: "FemuMode \<Rightarrow> u8" where
    "femu_mode_code FEMU_OCSSD_MODE = 0"
  | "femu_mode_code FEMU_BBSSD_MODE = 1"
  | "femu_mode_code FEMU_NOSSD_MODE = 2"
  | "femu_mode_code FEMU_ZNSSD_MODE = 3"
  | "femu_mode_code FEMU_SMARTSSD_MODE = 4"
  | "femu_mode_code FEMU_KVSSD_MODE = 5"

subsection \<open>Register bit fields\<close>

datatype (plugins only: code size) NvmeCapShift =
    CAP_MQES_SHIFT
  | CAP_CQR_SHIFT
  | CAP_AMS_SHIFT
  | CAP_TO_SHIFT
  | CAP_DSTRD_SHIFT
  | CAP_NSSRS_SHIFT
  | CAP_CSS_SHIFT
  | CAP_OC_SHIFT
  | CAP_MPSMIN_SHIFT
  | CAP_MPSMAX_SHIFT

primrec cap_shift :: "NvmeCapShift \<Rightarrow> nat" where
    "cap_shift CAP_MQES_SHIFT = 0"
  | "cap_shift CAP_CQR_SHIFT = 0x10"
  | "cap_shift CAP_AMS_SHIFT = 0x11"
  | "cap_shift CAP_TO_SHIFT = 0x18"
  | "cap_shift CAP_DSTRD_SHIFT = 0x20"
  | "cap_shift CAP_NSSRS_SHIFT = 0x21"
  | "cap_shift CAP_CSS_SHIFT = 0x25"
  | "cap_shift CAP_OC_SHIFT = 0x2c"
  | "cap_shift CAP_MPSMIN_SHIFT = 0x30"
  | "cap_shift CAP_MPSMAX_SHIFT = 0x34"

datatype (plugins only: code size) NvmeCapMask =
    CAP_MQES_MASK
  | CAP_CQR_MASK
  | CAP_AMS_MASK
  | CAP_TO_MASK
  | CAP_DSTRD_MASK
  | CAP_NSSRS_MASK
  | CAP_CSS_MASK
  | CAP_OC_MASK
  | CAP_MPSMIN_MASK
  | CAP_MPSMAX_MASK

primrec cap_mask :: "NvmeCapMask \<Rightarrow> u64" where
    "cap_mask CAP_MQES_MASK = 0xffff"
  | "cap_mask CAP_CQR_MASK = 1"
  | "cap_mask CAP_AMS_MASK = 3"
  | "cap_mask CAP_TO_MASK = 0xff"
  | "cap_mask CAP_DSTRD_MASK = 0xf"
  | "cap_mask CAP_NSSRS_MASK = 1"
  | "cap_mask CAP_CSS_MASK = 0xff"
  | "cap_mask CAP_OC_MASK = 1"
  | "cap_mask CAP_MPSMIN_MASK = 0xf"
  | "cap_mask CAP_MPSMAX_MASK = 0xf"

definition NVME_CAP_MQES :: "u64 \<Rightarrow> u64" where
  "NVME_CAP_MQES cap = drop_bit (cap_shift CAP_MQES_SHIFT) cap AND cap_mask CAP_MQES_MASK"

definition NVME_CAP_CQR :: "u64 \<Rightarrow> u64" where
  "NVME_CAP_CQR cap = drop_bit (cap_shift CAP_CQR_SHIFT) cap AND cap_mask CAP_CQR_MASK"

definition NVME_CAP_AMS :: "u64 \<Rightarrow> u64" where
  "NVME_CAP_AMS cap = drop_bit (cap_shift CAP_AMS_SHIFT) cap AND cap_mask CAP_AMS_MASK"

definition NVME_CAP_TO :: "u64 \<Rightarrow> u64" where
  "NVME_CAP_TO cap = drop_bit (cap_shift CAP_TO_SHIFT) cap AND cap_mask CAP_TO_MASK"

definition NVME_CAP_DSTRD :: "u64 \<Rightarrow> u64" where
  "NVME_CAP_DSTRD cap = drop_bit (cap_shift CAP_DSTRD_SHIFT) cap AND cap_mask CAP_DSTRD_MASK"

definition NVME_CAP_NSSRS :: "u64 \<Rightarrow> u64" where
  "NVME_CAP_NSSRS cap = drop_bit (cap_shift CAP_NSSRS_SHIFT) cap AND cap_mask CAP_NSSRS_MASK"

definition NVME_CAP_CSS :: "u64 \<Rightarrow> u64" where
  "NVME_CAP_CSS cap = drop_bit (cap_shift CAP_CSS_SHIFT) cap AND cap_mask CAP_CSS_MASK"

definition NVME_CAP_MPSMIN :: "u64 \<Rightarrow> u64" where
  "NVME_CAP_MPSMIN cap = drop_bit (cap_shift CAP_MPSMIN_SHIFT) cap AND cap_mask CAP_MPSMIN_MASK"

definition NVME_CAP_MPSMAX :: "u64 \<Rightarrow> u64" where
  "NVME_CAP_MPSMAX cap = drop_bit (cap_shift CAP_MPSMAX_SHIFT) cap AND cap_mask CAP_MPSMAX_MASK"

definition NVME_CAP_SET_MQES :: "u64 \<Rightarrow> u64 \<Rightarrow> u64" where
  "NVME_CAP_SET_MQES cap val = cap OR push_bit (cap_shift CAP_MQES_SHIFT) (val AND cap_mask CAP_MQES_MASK)"

definition NVME_CAP_SET_CQR :: "u64 \<Rightarrow> u64 \<Rightarrow> u64" where
  "NVME_CAP_SET_CQR cap val = cap OR push_bit (cap_shift CAP_CQR_SHIFT) (val AND cap_mask CAP_CQR_MASK)"

definition NVME_CAP_SET_AMS :: "u64 \<Rightarrow> u64 \<Rightarrow> u64" where
  "NVME_CAP_SET_AMS cap val = cap OR push_bit (cap_shift CAP_AMS_SHIFT) (val AND cap_mask CAP_AMS_MASK)"

definition NVME_CAP_SET_TO :: "u64 \<Rightarrow> u64 \<Rightarrow> u64" where
  "NVME_CAP_SET_TO cap val = cap OR push_bit (cap_shift CAP_TO_SHIFT) (val AND cap_mask CAP_TO_MASK)"

definition NVME_CAP_SET_DSTRD :: "u64 \<Rightarrow> u64 \<Rightarrow> u64" where
  "NVME_CAP_SET_DSTRD cap val = cap OR push_bit (cap_shift CAP_DSTRD_SHIFT) (val AND cap_mask CAP_DSTRD_MASK)"

definition NVME_CAP_SET_NSSRS :: "u64 \<Rightarrow> u64 \<Rightarrow> u64" where
  "NVME_CAP_SET_NSSRS cap val = cap OR push_bit (cap_shift CAP_NSSRS_SHIFT) (val AND cap_mask CAP_NSSRS_MASK)"

definition NVME_CAP_SET_CSS :: "u64 \<Rightarrow> u64 \<Rightarrow> u64" where
  "NVME_CAP_SET_CSS cap val = cap OR push_bit (cap_shift CAP_CSS_SHIFT) (val AND cap_mask CAP_CSS_MASK)"

definition NVME_CAP_SET_OC :: "u64 \<Rightarrow> u64 \<Rightarrow> u64" where
  "NVME_CAP_SET_OC cap val = cap OR push_bit (cap_shift CAP_OC_SHIFT) (val AND cap_mask CAP_OC_MASK)"

definition NVME_CAP_SET_MPSMIN :: "u64 \<Rightarrow> u64 \<Rightarrow> u64" where
  "NVME_CAP_SET_MPSMIN cap val = cap OR push_bit (cap_shift CAP_MPSMIN_SHIFT) (val AND cap_mask CAP_MPSMIN_MASK)"

definition NVME_CAP_SET_MPSMAX :: "u64 \<Rightarrow> u64 \<Rightarrow> u64" where
  "NVME_CAP_SET_MPSMAX cap val = cap OR push_bit (cap_shift CAP_MPSMAX_SHIFT) (val AND cap_mask CAP_MPSMAX_MASK)"

datatype (plugins only: code size) NvmeCapCss =
    NVME_CAP_CSS_NVM
  | NVME_CAP_CSS_CSI_SUPP
  | NVME_CAP_CSS_ADMIN_ONLY

primrec cap_css :: "NvmeCapCss \<Rightarrow> u64" where
    "cap_css NVME_CAP_CSS_NVM = 1"
  | "cap_css NVME_CAP_CSS_CSI_SUPP = 0x40"
  | "cap_css NVME_CAP_CSS_ADMIN_ONLY = 0x80"

datatype (plugins only: code size) NvmeCcShift =
    CC_EN_SHIFT
  | CC_CSS_SHIFT
  | CC_MPS_SHIFT
  | CC_AMS_SHIFT
  | CC_SHN_SHIFT
  | CC_IOSQES_SHIFT
  | CC_IOCQES_SHIFT

primrec cc_shift :: "NvmeCcShift \<Rightarrow> nat" where
    "cc_shift CC_EN_SHIFT = 0"
  | "cc_shift CC_CSS_SHIFT = 4"
  | "cc_shift CC_MPS_SHIFT = 7"
  | "cc_shift CC_AMS_SHIFT = 0xb"
  | "cc_shift CC_SHN_SHIFT = 0xe"
  | "cc_shift CC_IOSQES_SHIFT = 0x10"
  | "cc_shift CC_IOCQES_SHIFT = 0x14"

datatype (plugins only: code size) NvmeCcMask =
    CC_EN_MASK
  | CC_CSS_MASK
  | CC_MPS_MASK
  | CC_AMS_MASK
  | CC_SHN_MASK
  | CC_IOSQES_MASK
  | CC_IOCQES_MASK

primrec cc_mask :: "NvmeCcMask \<Rightarrow> u32" where
    "cc_mask CC_EN_MASK = 1"
  | "cc_mask CC_CSS_MASK = 7"
  | "cc_mask CC_MPS_MASK = 0xf"
  | "cc_mask CC_AMS_MASK = 7"
  | "cc_mask CC_SHN_MASK = 3"
  | "cc_mask CC_IOSQES_MASK = 0xf"
  | "cc_mask CC_IOCQES_MASK = 0xf"

definition NVME_CC_EN :: "u32 \<Rightarrow> u32" where
  "NVME_CC_EN cc = drop_bit (cc_shift CC_EN_SHIFT) cc AND cc_mask CC_EN_MASK"

definition NVME_CC_CSS :: "u32 \<Rightarrow> u32" where
  "NVME_CC_CSS cc = drop_bit (cc_shift CC_CSS_SHIFT) cc AND cc_mask CC_CSS_MASK"

definition NVME_CC_MPS :: "u32 \<Rightarrow> u32" where
  "NVME_CC_MPS cc = drop_bit (cc_shift CC_MPS_SHIFT) cc AND cc_mask CC_MPS_MASK"

definition NVME_CC_AMS :: "u32 \<Rightarrow> u32" where
  "NVME_CC_AMS cc = drop_bit (cc_shift CC_AMS_SHIFT) cc AND cc_mask CC_AMS_MASK"

definition NVME_CC_SHN :: "u32 \<Rightarrow> u32" where
  "NVME_CC_SHN cc = drop_bit (cc_shift CC_SHN_SHIFT) cc AND cc_mask CC_SHN_MASK"

definition NVME_CC_IOSQES :: "u32 \<Rightarrow> u32" where
  "NVME_CC_IOSQES cc = drop_bit (cc_shift CC_IOSQES_SHIFT) cc AND cc_mask CC_IOSQES_MASK"

definition NVME_CC_IOCQES :: "u32 \<Rightarrow> u32" where
  "NVME_CC_IOCQES cc = drop_bit (cc_shift CC_IOCQES_SHIFT) cc AND cc_mask CC_IOCQES_MASK"

datatype (plugins only: code size) NvmeCcCss =
    NVME_CC_CSS_NVM
  | NVME_CC_CSS_CSI
  | NVME_CC_CSS_ADMIN_ONLY

primrec cc_css :: "NvmeCcCss \<Rightarrow> u32" where
    "cc_css NVME_CC_CSS_NVM = 0"
  | "cc_css NVME_CC_CSS_CSI = 6"
  | "cc_css NVME_CC_CSS_ADMIN_ONLY = 7"

datatype (plugins only: code size) NvmeCstsShift =
    CSTS_RDY_SHIFT
  | CSTS_CFS_SHIFT
  | CSTS_SHST_SHIFT
  | CSTS_NSSRO_SHIFT

primrec csts_shift :: "NvmeCstsShift \<Rightarrow> nat" where
    "csts_shift CSTS_RDY_SHIFT = 0"
  | "csts_shift CSTS_CFS_SHIFT = 1"
  | "csts_shift CSTS_SHST_SHIFT = 2"
  | "csts_shift CSTS_NSSRO_SHIFT = 4"

datatype (plugins only: code size) NvmeCstsMask =
    CSTS_RDY_MASK
  | CSTS_CFS_MASK
  | CSTS_SHST_MASK
  | CSTS_NSSRO_MASK

primrec csts_mask :: "NvmeCstsMask \<Rightarrow> u32" where
    "csts_mask CSTS_RDY_MASK = 1"
  | "csts_mask CSTS_CFS_MASK = 1"
  | "csts_mask CSTS_SHST_MASK = 3"
  | "csts_mask CSTS_NSSRO_MASK = 1"

datatype (plugins only: code size) NvmeCsts =
    NVME_CSTS_READY
  | NVME_CSTS_FAILED
  | NVME_CSTS_SHST_NORMAL
  | NVME_CSTS_SHST_PROGRESS
  | NVME_CSTS_SHST_COMPLETE
  | NVME_CSTS_NSSRO

primrec csts_bit :: "NvmeCsts \<Rightarrow> u32" where
    "csts_bit NVME_CSTS_READY = 1"
  | "csts_bit NVME_CSTS_FAILED = 2"
  | "csts_bit NVME_CSTS_SHST_NORMAL = 0"
  | "csts_bit NVME_CSTS_SHST_PROGRESS = 4"
  | "csts_bit NVME_CSTS_SHST_COMPLETE = 8"
  | "csts_bit NVME_CSTS_NSSRO = 0x10"

definition NVME_CSTS_F_RDY :: "u32 \<Rightarrow> u32" where
  "NVME_CSTS_F_RDY csts = drop_bit (csts_shift CSTS_RDY_SHIFT) csts AND csts_mask CSTS_RDY_MASK"

definition NVME_CSTS_F_CFS :: "u32 \<Rightarrow> u32" where
  "NVME_CSTS_F_CFS csts = drop_bit (csts_shift CSTS_CFS_SHIFT) csts AND csts_mask CSTS_CFS_MASK"

definition NVME_CSTS_F_SHST :: "u32 \<Rightarrow> u32" where
  "NVME_CSTS_F_SHST csts = drop_bit (csts_shift CSTS_SHST_SHIFT) csts AND csts_mask CSTS_SHST_MASK"

definition NVME_CSTS_F_NSSRO :: "u32 \<Rightarrow> u32" where
  "NVME_CSTS_F_NSSRO csts = drop_bit (csts_shift CSTS_NSSRO_SHIFT) csts AND csts_mask CSTS_NSSRO_MASK"

datatype (plugins only: code size) NvmeAqaShift =
    AQA_ASQS_SHIFT
  | AQA_ACQS_SHIFT

primrec aqa_shift :: "NvmeAqaShift \<Rightarrow> nat" where
    "aqa_shift AQA_ASQS_SHIFT = 0"
  | "aqa_shift AQA_ACQS_SHIFT = 0x10"

datatype (plugins only: code size) NvmeAqaMask =
    AQA_ASQS_MASK
  | AQA_ACQS_MASK

primrec aqa_mask :: "NvmeAqaMask \<Rightarrow> u32" where
    "aqa_mask AQA_ASQS_MASK = 0xfff"
  | "aqa_mask AQA_ACQS_MASK = 0xfff"

definition NVME_AQA_ASQS :: "u32 \<Rightarrow> u32" where
  "NVME_AQA_ASQS aqa = drop_bit (aqa_shift AQA_ASQS_SHIFT) aqa AND aqa_mask AQA_ASQS_MASK"

definition NVME_AQA_ACQS :: "u32 \<Rightarrow> u32" where
  "NVME_AQA_ACQS aqa = drop_bit (aqa_shift AQA_ACQS_SHIFT) aqa AND aqa_mask AQA_ACQS_MASK"

definition NVME_CQ_FLAGS_PC :: "u16 \<Rightarrow> u16" where "NVME_CQ_FLAGS_PC f = f AND 1"
definition NVME_CQ_FLAGS_IEN :: "u16 \<Rightarrow> u16" where "NVME_CQ_FLAGS_IEN f = drop_bit 1 f AND 1"
definition NVME_SQ_FLAGS_PC :: "u16 \<Rightarrow> u16" where "NVME_SQ_FLAGS_PC f = f AND 1"
definition NVME_SQ_FLAGS_QPRIO :: "u16 \<Rightarrow> u16" where "NVME_SQ_FLAGS_QPRIO f = drop_bit 1 f AND 3"
definition NVME_ID_NS_FLBAS_INDEX :: "u8 \<Rightarrow> u8" where "NVME_ID_NS_FLBAS_INDEX flbas = flbas AND 0xf"
definition NVME_ID_NS_FLBAS_EXTENDED :: "u8 \<Rightarrow> u8" where
  "NVME_ID_NS_FLBAS_EXTENDED flbas = drop_bit 4 flbas AND 1"
definition NVME_ID_NS_DPC_TYPE_MASK :: u8 where "NVME_ID_NS_DPC_TYPE_MASK = 7"
definition NVME_ERR_REC_DULBE :: "u32 \<Rightarrow> u32" where "NVME_ERR_REC_DULBE err_rec = err_rec AND 0x10000"
definition NVME_NSID_BROADCAST :: u32 where "NVME_NSID_BROADCAST = 0xffffffff"


subsection \<open>Registers, commands and completions\<close>

record NvmeBar =
  bar_cap :: u64
  bar_vs :: u32
  bar_intms :: u32
  bar_intmc :: u32
  bar_cc :: u32
  bar_csts :: u32
  bar_nssrc :: u32
  bar_aqa :: u32
  bar_asq :: u64
  bar_acq :: u64
  bar_cmbloc :: u32
  bar_cmbsz :: u32

record NvmeCmd =
  cmd_opcode :: u8
  cmd_fuse :: "2 word"
  cmd_psdt :: "2 word"
  cmd_cid :: u16
  cmd_nsid :: u32
  cmd_res2 :: u64
  cmd_mptr :: u64
  cmd_prp1 :: u64
  cmd_prp2 :: u64
  cmd_cdw10 :: u32
  cmd_cdw11 :: u32
  cmd_cdw12 :: u32
  cmd_cdw13 :: u32
  cmd_cdw14 :: u32
  cmd_cdw15 :: u32

record NvmeDeleteQ =
  delq_qid :: u16

record NvmeCreateCq =
  ccq_prp1 :: u64
  ccq_cqid :: u16
  ccq_qsize :: u16
  ccq_cq_flags :: u16
  ccq_irq_vector :: u16

record NvmeCreateSq =
  csq_prp1 :: u64
  csq_sqid :: u16
  csq_qsize :: u16
  csq_sq_flags :: u16
  csq_cqid :: u16

record NvmeIdentify =
  idn_nsid :: u32
  idn_prp1 :: u64
  idn_prp2 :: u64
  idn_cns :: u32
  idn_nvmsetid :: u16
  idn_csi :: u8

record NvmeRwCmd =
  rw_opcode :: u8
  rw_flags :: u8
  rw_cid :: u16
  rw_nsid :: u32
  rw_mptr :: u64
  rw_prp1 :: u64
  rw_prp2 :: u64
  rw_slba :: u64
  rw_nlb :: u16
  rw_control :: u16
  rw_dsmgmt :: u32
  rw_reftag :: u32
  rw_apptag :: u16
  rw_appmask :: u16

record NvmeDsmCmd =
  dsm_nsid :: u32
  dsm_prp1 :: u64
  dsm_prp2 :: u64
  dsm_nr :: u32
  dsm_attributes :: u32

record NvmeDsmRange =
  dsmr_cattr :: u32
  dsmr_nlb :: u32
  dsmr_slba :: u64

record NvmeAerResult =
  aer_event_type :: u8
  aer_event_info :: u8
  aer_log_page :: u8

record NvmeCqe =
  cqe_res64 :: u64
  cqe_sq_head :: u16
  cqe_sq_id :: u16
  cqe_cid :: u16
  cqe_status :: u16

text \<open>The other view of the union: \<open>n.result\<close> is the low dword of \<open>res64\<close>.\<close>

definition cqe_result :: "NvmeCqe \<Rightarrow> u32" where
  "cqe_result c = ucast (cqe_res64 c)"

definition set_cqe_result :: "u32 \<Rightarrow> NvmeCqe \<Rightarrow> NvmeCqe" where
  "set_cqe_result r c = c\<lparr>cqe_res64 := (cqe_res64 c AND NOT (mask 32)) OR ucast r\<rparr>"


record NvmeErrorLog =
  el_error_count :: u64
  el_sqid :: u16
  el_cid :: u16
  el_status_field :: u16
  el_param_error_location :: u16
  el_lba :: u64
  el_nsid :: u32

record NvmeFeatureVal =
  feat_arbitration :: u32
  feat_power_mgmt :: u32
  feat_temp_thresh :: u32
  feat_err_rec :: u32
  feat_volatile_wc :: u32
  feat_num_io_queues :: u32
  feat_int_coalescing :: u32
  feat_int_vector_config :: "u32 list"
  feat_write_atomicity :: u32
  feat_async_config :: u32
  feat_sw_prog_marker :: u32

record NvmeRangeType =
  rt_type :: u8
  rt_attributes :: u8
  rt_slba :: u64
  rt_nlb :: u64
  rt_guid :: "u8 list"

record NvmeLBAF =
  lbaf_ms :: u16
  lbaf_lbads :: u8
  lbaf_rp :: u8

record NvmeIdNs =
  idns_nsze :: u64
  idns_ncap :: u64
  idns_nuse :: u64
  idns_nsfeat :: u8
  idns_nlbaf :: u8
  idns_flbas :: u8
  idns_mc :: u8
  idns_dpc :: u8
  idns_dps :: u8
  idns_nmic :: u8
  idns_rescap :: u8
  idns_fpi :: u8
  idns_dlfeat :: u8
  idns_nawun :: u16
  idns_nawupf :: u16
  idns_nacwu :: u16
  idns_nabsn :: u16
  idns_nabo :: u16
  idns_nabspf :: u16
  idns_noiob :: u16
  idns_nvmcap :: "u8 list"
  idns_npwg :: u16
  idns_npwa :: u16
  idns_npdg :: u16
  idns_npda :: u16
  idns_nows :: u16
  idns_nguid :: "u8 list"
  idns_eui64 :: u64
  idns_lbaf :: "NvmeLBAF list"
  idns_vs :: u8 \<comment> \<open>the first byte of the vendor-specific area\<close>

record NvmeParams =
  par_num_namespaces :: u32
  par_num_queues :: u32
  par_max_q_ents :: u32
  par_max_sqes :: u8
  par_max_cqes :: u8
  par_db_stride :: u8
  par_aerl :: u8
  par_acl :: u8
  par_elpe :: u8
  par_mdts :: u8
  par_cqr :: u8
  par_vwc :: u8
  par_dpc :: u8
  par_dps :: u8
  par_intc :: u8
  par_intc_thresh :: u8
  par_intc_time :: u8
  par_extended :: u8
  par_mpsmin :: u8
  par_mpsmax :: u8
  par_ms :: u8
  par_ms_max :: u8
  par_mc :: u8
  par_vid :: u16
  par_did :: u16
  par_dlfeat :: u8
  par_cmb_size_mb :: u32
  par_dialect :: u8
  par_oacs :: u16
  par_oncs :: u16

text \<open>The casts of a command to the structure of its opcode.\<close>

definition lo16 :: "u32 \<Rightarrow> u16" where "lo16 w = ucast w"
definition hi16 :: "u32 \<Rightarrow> u16" where "hi16 w = ucast (drop_bit 16 w)"
definition qword :: "u32 \<Rightarrow> u32 \<Rightarrow> u64" where "qword lo hi = ucast lo OR push_bit 32 (ucast hi)"

definition rw_of_cmd :: "NvmeCmd \<Rightarrow> NvmeRwCmd" where
  "rw_of_cmd c =
     \<lparr>rw_opcode = cmd_opcode c,
      rw_flags = ucast (cmd_fuse c) OR push_bit 6 (ucast (cmd_psdt c)),
      rw_cid = cmd_cid c, rw_nsid = cmd_nsid c, rw_mptr = cmd_mptr c,
      rw_prp1 = cmd_prp1 c, rw_prp2 = cmd_prp2 c, rw_slba = qword (cmd_cdw10 c) (cmd_cdw11 c),
      rw_nlb = lo16 (cmd_cdw12 c), rw_control = hi16 (cmd_cdw12 c), rw_dsmgmt = cmd_cdw13 c,
      rw_reftag = cmd_cdw14 c, rw_apptag = lo16 (cmd_cdw15 c), rw_appmask = hi16 (cmd_cdw15 c)\<rparr>"

definition dsm_of_cmd :: "NvmeCmd \<Rightarrow> NvmeDsmCmd" where
  "dsm_of_cmd c =
     \<lparr>dsm_nsid = cmd_nsid c, dsm_prp1 = cmd_prp1 c, dsm_prp2 = cmd_prp2 c,
      dsm_nr = cmd_cdw10 c, dsm_attributes = cmd_cdw11 c\<rparr>"

definition delq_of_cmd :: "NvmeCmd \<Rightarrow> NvmeDeleteQ" where
  "delq_of_cmd c = \<lparr>delq_qid = lo16 (cmd_cdw10 c)\<rparr>"

definition ccq_of_cmd :: "NvmeCmd \<Rightarrow> NvmeCreateCq" where
  "ccq_of_cmd c =
     \<lparr>ccq_prp1 = cmd_prp1 c, ccq_cqid = lo16 (cmd_cdw10 c), ccq_qsize = hi16 (cmd_cdw10 c),
      ccq_cq_flags = lo16 (cmd_cdw11 c), ccq_irq_vector = hi16 (cmd_cdw11 c)\<rparr>"

definition csq_of_cmd :: "NvmeCmd \<Rightarrow> NvmeCreateSq" where
  "csq_of_cmd c =
     \<lparr>csq_prp1 = cmd_prp1 c, csq_sqid = lo16 (cmd_cdw10 c), csq_qsize = hi16 (cmd_cdw10 c),
      csq_sq_flags = lo16 (cmd_cdw11 c), csq_cqid = hi16 (cmd_cdw11 c)\<rparr>"

definition idn_of_cmd :: "NvmeCmd \<Rightarrow> NvmeIdentify" where
  "idn_of_cmd c =
     \<lparr>idn_nsid = cmd_nsid c, idn_prp1 = cmd_prp1 c, idn_prp2 = cmd_prp2 c, idn_cns = cmd_cdw10 c,
      idn_nvmsetid = lo16 (cmd_cdw11 c), idn_csi = ucast (drop_bit 24 (cmd_cdw11 c))\<rparr>"


text \<open>A request.  Pointers to its queues are queue ids; times are 64-bit words.\<close>

record NvmeRequest =
  req_sq :: nat
  req_status :: u16
  req_slba :: u64
  req_is_write :: u16
  req_nlb :: u16
  req_ctrl :: u16
  req_meta_size :: u64
  req_mptr :: u64
  req_cmd :: NvmeCmd
  req_cqe :: NvmeCqe
  req_cmd_opcode :: u8
  req_qsg :: "(u64 \<times> u64) list"
  req_stime :: u64
  req_reqlat :: u64
  req_gcrt :: u64
  req_expire_time :: u64
  req_predef :: u64
  req_pos :: nat


end
