(* ===== verification/Dma.thy ===== *)
theory Dma
  imports Nvme_Types
begin

text \<open>
  Data transfer: \<open>femu/dma.c\<close> (addressing of host and controller memory, translation of PRP lists
  to scatter-gather lists), the scatter-gather routines of \<open>qemu-compat/wrapper-qemu.c\<close> it uses,
  and the DRAM backend of \<open>femu/backend/dram.c\<close>.  Host memory, reached over the PCI interface
  outside the repository, is a function from addresses to bytes; a transfer of the simulator
  always succeeds.  \<open>None\<close> stands for \<open>abort()\<close>, a failed \<open>assert\<close> or an access outside a buffer.
\<close>

subsection \<open>Memory\<close>

type_synonym host_mem = "u64 \<Rightarrow> u8"

definition pci_dma_read :: "host_mem \<Rightarrow> u64 \<Rightarrow> nat \<Rightarrow> u8 list" where
  "pci_dma_read h addr len = map (\<lambda>i. h (addr + of_nat i)) [0..<len]"

primrec pci_dma_write :: "host_mem \<Rightarrow> u64 \<Rightarrow> u8 list \<Rightarrow> host_mem" where
  "pci_dma_write h addr [] = h"
| "pci_dma_write h addr (b # bs) = pci_dma_write (h(addr := b)) (addr + 1) bs"

text \<open>The part of the controller that the transfer code reads: page geometry and the controller
  memory buffer with its place in the address space.\<close>

record dma_ctx =
  dma_page_size :: u16
  dma_page_bits :: u16
  dma_max_prp_ents :: u16
  dma_cmbsz :: u32
  ctrl_mem_addr :: u64
  ctrl_mem_size :: u64
  dma_cmbuf :: "u8 list"

definition in_cmb :: "dma_ctx \<Rightarrow> u64 \<Rightarrow> bool" where
  "in_cmb n addr \<longleftrightarrow>
     dma_cmbsz n \<noteq> 0 \<and> ctrl_mem_addr n \<le> addr \<and> addr < ctrl_mem_addr n + ctrl_mem_size n"

definition nvme_addr_read :: "dma_ctx \<Rightarrow> host_mem \<Rightarrow> u64 \<Rightarrow> nat \<Rightarrow> u8 list" where
  "nvme_addr_read n h addr size' =
     (if in_cmb n addr then take size' (drop (unat (addr - ctrl_mem_addr n)) (dma_cmbuf n))
      else pci_dma_read h addr size')"

definition nvme_addr_write :: "dma_ctx \<Rightarrow> host_mem \<Rightarrow> u64 \<Rightarrow> u8 list \<Rightarrow> dma_ctx \<times> host_mem" where
  "nvme_addr_write n h addr buf =
     (if in_cmb n addr
      then (n\<lparr>dma_cmbuf := overwrite (dma_cmbuf n) (unat (addr - ctrl_mem_addr n)) buf\<rparr>, h)
      else (n, pci_dma_write h addr buf))"

text \<open>A little-endian 64-bit value, and the entries of a PRP list.\<close>

definition le64_of_bytes :: "u8 list \<Rightarrow> u64" where
  "le64_of_bytes bs = foldr (\<lambda>b acc. push_bit 8 acc OR ucast b) (take 8 bs) 0"

primrec le64s_of_bytes :: "nat \<Rightarrow> u8 list \<Rightarrow> u64 list" where
  "le64s_of_bytes 0 bs = []"
| "le64s_of_bytes (Suc k) bs = le64_of_bytes bs # le64s_of_bytes k (drop 8 bs)"

lemma length_le64s [simp]: "length (le64s_of_bytes k bs) = k"
  by (induction k arbitrary: bs) auto

subsection \<open>PRP translation\<close>

type_synonym sg_list = "(u64 \<times> u64) list"

definition prp_nents :: "dma_ctx \<Rightarrow> u32 \<Rightarrow> u32" where
  "prp_nents n len = drop_bit (unat (dma_page_bits n)) (len + ucast (dma_page_size n) - 1)"

definition fetch_prp_list :: "dma_ctx \<Rightarrow> host_mem \<Rightarrow> u64 \<Rightarrow> u32 \<Rightarrow> u64 list" where
  "fetch_prp_list n h addr len =
     (let k = min (unat (dma_max_prp_ents n)) (unat (prp_nents n len))
      in le64s_of_bytes k (nvme_addr_read n h addr (k * 8)))"

definition bad_prp_ent :: "dma_ctx \<Rightarrow> u64 \<Rightarrow> bool" where
  "bad_prp_ent n ent \<longleftrightarrow> ent = 0 \<or> ent AND (ucast (dma_page_size n) - 1) \<noteq> 0"

text \<open>Where an address goes: into the scatter-gather list, or as an offset into \<open>cmbuf\<close>.\<close>

definition prp_target :: "dma_ctx \<Rightarrow> bool \<Rightarrow> u64 \<Rightarrow> u64" where
  "prp_target n cmb addr = (if cmb then addr - ctrl_mem_addr n else addr)"

text \<open>The \<open>while (len != 0)\<close> loop.  A page size of 0 would not terminate; the division at the start
  of \<open>nvme_map_prp\<close> traps first.\<close>

function map_prp_loop ::
  "dma_ctx \<Rightarrow> host_mem \<Rightarrow> bool \<Rightarrow> u64 list \<Rightarrow> nat \<Rightarrow> u32 \<Rightarrow> sg_list \<Rightarrow> sg_list option" where
  "map_prp_loop n h cmb prp_list i len sg =
     (if len = 0 then Some sg
      else if dma_page_size n = 0 then None
      else
        let ent0 = prp_list ! i;
            refetch = (Suc i = unat (dma_max_prp_ents n) \<and> ucast (dma_page_size n) < len)
        in if refetch \<and> bad_prp_ent n ent0 then None
        else
          let prp_list' = (if refetch then fetch_prp_list n h ent0 len else prp_list);
              i' = (if refetch then 0 else i);
              ent = prp_list' ! i'
          in if bad_prp_ent n ent then None
          else
            let trans_len = min len (ucast (dma_page_size n))
            in map_prp_loop n h cmb prp_list' (i' + 1) (len - trans_len)
                 (sg @ [(prp_target n cmb ent, ucast trans_len)]))"
  by auto

lemma page_trans_less:
  fixes len :: u32 and ps :: u16
  assumes "len \<noteq> 0" "ps \<noteq> 0"
  shows "unat (len - min len (ucast ps)) < unat len"
proof -
  have "unat (ucast ps :: u32) = unat ps" by (rule unat_ucast_up) simp
  then show ?thesis
    using assms by (simp add: unat_sub_le unat_min unat_gt_0)
qed

termination map_prp_loop
  by (relation "measure (\<lambda>(n, h, cmb, pl, i, len, sg). unat len)") (use page_trans_less in auto)

definition nvme_map_prp :: "dma_ctx \<Rightarrow> host_mem \<Rightarrow> u64 \<Rightarrow> u64 \<Rightarrow> u32 \<Rightarrow> u16 \<times> bool \<times> sg_list" where
  "nvme_map_prp n h prp1 prp2 len0 =
     (let page_size = ucast (dma_page_size n) :: u64;
          trans_len = min (ucast len0) (page_size - prp1 mod page_size);
          err = (dnr NVME_INVALID_FIELD, False, [])
      in if prp1 = 0 then err
         else
           let cmb = in_cmb n prp1;
               sg = [(prp_target n cmb prp1, trans_len)];
               len = len0 - ucast trans_len
           in if len = 0 then (sc NVME_SUCCESS, cmb, sg)
              else if prp2 = 0 then (dnr NVME_INVALID_FIELD, cmb, [])
              else if ucast (dma_page_size n) < len then
                (case map_prp_loop n h cmb (fetch_prp_list n h prp2 len) 0 len sg of
                   None \<Rightarrow> (dnr NVME_INVALID_FIELD, cmb, [])
                 | Some sg \<Rightarrow> (sc NVME_SUCCESS, cmb, sg))
              else if prp2 AND (page_size - 1) \<noteq> 0 then (dnr NVME_INVALID_FIELD, cmb, [])
              else (sc NVME_SUCCESS, cmb,
                    sg @ [(prp_target n cmb prp2, if cmb then trans_len else ucast len)]))"

subsection \<open>Transfers between a buffer and guest memory\<close>

text \<open>\<open>dma_buf_read\<close> copies the device buffer to the guest, \<open>dma_buf_write\<close> the guest to the buffer;
  both abort when the list is longer than the buffer.  I/O vectors are stubs that abort.\<close>

primrec dma_buf_read :: "u8 list \<Rightarrow> nat \<Rightarrow> host_mem \<Rightarrow> sg_list \<Rightarrow> host_mem option" where
  "dma_buf_read buf dmalen h [] = Some h"
| "dma_buf_read buf dmalen h (e # sg) =
     (let dmalen = dmalen + unat (snd e)
      in if length buf < dmalen then None
         else dma_buf_read buf dmalen
                (pci_dma_write h (fst e) (take (unat (snd e)) (drop (dmalen - unat (snd e)) buf))) sg)"

primrec dma_buf_write :: "u8 list \<Rightarrow> nat \<Rightarrow> host_mem \<Rightarrow> sg_list \<Rightarrow> u8 list option" where
  "dma_buf_write buf dmalen h [] = Some buf"
| "dma_buf_write buf dmalen h (e # sg) =
     (let dmalen = dmalen + unat (snd e)
      in if length buf < dmalen then None
         else dma_buf_write (overwrite buf (dmalen - unat (snd e)) (pci_dma_read h (fst e) (unat (snd e))))
                dmalen h sg)"

definition dma_write_prp ::
  "dma_ctx \<Rightarrow> host_mem \<Rightarrow> u8 list \<Rightarrow> u64 \<Rightarrow> u64 \<Rightarrow> (u16 \<times> u8 list) option" where
  "dma_write_prp n h buf prp1 prp2 =
     (case nvme_map_prp n h prp1 prp2 (of_nat (length buf)) of
        (status, cmb, sg) \<Rightarrow>
          if status \<noteq> 0 then Some (dnr NVME_INVALID_FIELD, buf)
          else if cmb then None
          else map_option (\<lambda>buf'. (sc NVME_SUCCESS, buf')) (dma_buf_write buf 0 h sg))"

definition dma_read_prp ::
  "dma_ctx \<Rightarrow> host_mem \<Rightarrow> u8 list \<Rightarrow> u64 \<Rightarrow> u64 \<Rightarrow> (u16 \<times> host_mem) option" where
  "dma_read_prp n h buf prp1 prp2 =
     (case nvme_map_prp n h prp1 prp2 (of_nat (length buf)) of
        (status, cmb, sg) \<Rightarrow>
          if status \<noteq> 0 then Some (dnr NVME_INVALID_FIELD, h)
          else if cmb then None
          else map_option (\<lambda>h'. (sc NVME_SUCCESS, h')) (dma_buf_read buf 0 h sg))"

subsection \<open>DRAM backend\<close>

record SsdDramBackend =
  logical_space :: "u8 list"
  be_size :: nat
  be_femu_mode :: u8

definition init_dram_backend :: "u8 \<Rightarrow> nat \<Rightarrow> SsdDramBackend" where
  "init_dram_backend mode nbytes =
     \<lparr>logical_space = replicate nbytes 0, be_size = nbytes, be_femu_mode = mode\<rparr>"

text \<open>One pass of the loop: entry \<open>idx\<close> of the list against the backend at offset \<open>mb_oft\<close>, then
  the next offset.  Each entry is transferred whole.\<close>

primrec backend_rw_loop ::
  "sg_list \<Rightarrow> u64 list \<Rightarrow> bool \<Rightarrow> SsdDramBackend \<Rightarrow> host_mem \<Rightarrow> nat \<Rightarrow> u64 \<Rightarrow> (SsdDramBackend \<times> host_mem) option" where
  "backend_rw_loop [] lbal is_write b h idx mb_oft = Some (b, h)"
| "backend_rw_loop (e # sg) lbal is_write b h idx mb_oft =
     (let cur_addr = fst e; cur_len = unat (snd e); o' = unat mb_oft
      in if be_size b < o' + cur_len then None
         else
           let (b', h') =
                 (if is_write
                  then (b\<lparr>logical_space := overwrite (logical_space b) o' (pci_dma_read h cur_addr cur_len)\<rparr>, h)
                  else (b, pci_dma_write h cur_addr (take cur_len (drop o' (logical_space b)))))
           in if be_femu_mode b = femu_mode_code FEMU_OCSSD_MODE
              then (if sg = [] then Some (b', h')
                    else if length lbal \<le> Suc idx then None
                    else backend_rw_loop sg lbal is_write b' h' (Suc idx) (lbal ! Suc idx))
              else if be_femu_mode b = femu_mode_code FEMU_BBSSD_MODE \<or>
                      be_femu_mode b = femu_mode_code FEMU_NOSSD_MODE \<or>
                      be_femu_mode b = femu_mode_code FEMU_ZNSSD_MODE
              then backend_rw_loop sg lbal is_write b' h' (Suc idx) (mb_oft + snd e)
              else None)"

definition backend_rw ::
  "SsdDramBackend \<Rightarrow> host_mem \<Rightarrow> sg_list \<Rightarrow> u64 list \<Rightarrow> bool \<Rightarrow> (SsdDramBackend \<times> host_mem) option" where
  "backend_rw b h sg lbal is_write = backend_rw_loop sg lbal is_write b h 0 (lbal ! 0)"

declare map_prp_loop.simps [simp del]

subsection \<open>A successful translation describes the whole transfer\<close>

definition sg_bytes :: "sg_list \<Rightarrow> nat" where
  "sg_bytes sg = sum_list (map (\<lambda>e. unat (snd e)) sg)"

lemma sg_bytes_simps [simp]:
  "sg_bytes [] = 0" "sg_bytes (e # sg) = unat (snd e) + sg_bytes sg"
  "sg_bytes (sg @ sg') = sg_bytes sg + sg_bytes sg'"
  by (simp_all add: sg_bytes_def)

definition sg_page_entry :: "dma_ctx \<Rightarrow> bool \<Rightarrow> u64 \<times> u64 \<Rightarrow> bool" where
  "sg_page_entry n cmb e \<longleftrightarrow>
     (\<exists>ent. fst e = prp_target n cmb ent \<and> \<not> bad_prp_ent n ent) \<and> unat (snd e) \<le> unat (dma_page_size n)"

lemma unat_u64_of_u32 [simp]: "unat (ucast (x :: u32) :: u64) = unat x"
  by (rule unat_ucast_up) simp

lemma unat_u32_of_u16 [simp]: "unat (ucast (x :: u16) :: u32) = unat x"
  by (rule unat_ucast_up) simp

lemma unat_u64_of_u16 [simp]: "unat (ucast (x :: u16) :: u64) = unat x"
  by (rule unat_ucast_up) simp

lemma map_prp_loop_covers:
  "map_prp_loop n h cmb pl i len sg = Some sg' \<Longrightarrow>
   \<exists>new. sg' = sg @ new \<and> sg_bytes new = unat len \<and> (\<forall>e \<in> set new. sg_page_entry n cmb e)"
proof (induction n h cmb pl i len sg rule: map_prp_loop.induct)
  case (1 n h cmb pl i len sg)
  show ?case
  proof (cases "len = 0")
    case True
    then show ?thesis using 1(2) by (simp add: map_prp_loop.simps)
  next
    case False
    define re where "re \<longleftrightarrow> Suc i = unat (dma_max_prp_ents n) \<and> ucast (dma_page_size n) < len"
    define pl' where "pl' = (if re then fetch_prp_list n h (pl ! i) len else pl)"
    define i' where "i' = (if re then 0 else i)"
    define tl where "tl = min len (ucast (dma_page_size n))"
    note unf = 1(2) [unfolded map_prp_loop.simps [of n h cmb pl i len sg] Let_def, folded re_def,
        folded pl'_def i'_def tl_def]
    have ps: "dma_page_size n \<noteq> 0" and ok: "\<not> (re \<and> bad_prp_ent n (pl ! i))"
      and good: "\<not> bad_prp_ent n (pl' ! i')"
      using unf False by (auto split: if_splits)
    have rec: "map_prp_loop n h cmb pl' (i' + 1) (len - tl)
        (sg @ [(prp_target n cmb (pl' ! i'), ucast tl)]) = Some sg'"
      using unf False ps ok good by simp
    then obtain new where new: "sg' = (sg @ [(prp_target n cmb (pl' ! i'), ucast tl)]) @ new"
      "sg_bytes new = unat (len - tl)" "\<forall>e \<in> set new. sg_page_entry n cmb e"
      using "1.IH" [OF False ps refl re_def ok pl'_def i'_def refl good tl_def] by blast
    have tl: "unat tl = min (unat len) (unat (dma_page_size n))"
      by (simp add: tl_def unat_min)
    have "tl \<le> len" by (simp add: tl_def)
    then have "sg_bytes ((prp_target n cmb (pl' ! i'), ucast tl) # new) = unat len"
      using new(2) tl by (simp add: unat_sub_le)
    moreover have "sg_page_entry n cmb (prp_target n cmb (pl' ! i'), ucast tl)"
      using good tl by (auto simp: sg_page_entry_def)
    ultimately show ?thesis using new by auto
  qed
qed

lemma map_prp_covers:
  assumes "nvme_map_prp n h prp1 prp2 len = (0, cmb, sg)" "\<not> cmb" "dma_page_size n \<noteq> 0"
  shows "\<exists>e rest. sg = e # rest \<and> fst e = prp1 \<and> prp1 \<noteq> 0 \<and> sg_bytes sg = unat len \<and>
    (\<forall>e \<in> set rest. fst e \<noteq> 0 \<and> fst e AND (ucast (dma_page_size n) - 1) = 0 \<and>
      unat (snd e) \<le> unat (dma_page_size n))"
proof -
  define ps where "ps = (ucast (dma_page_size n) :: u64)"
  define tl where "tl = min (ucast len) (ps - prp1 mod ps)"
  define len' where "len' = len - ucast tl"
  have tlle: "unat tl \<le> unat len"
    by (simp add: tl_def unat_min)
  then have utl: "unat (ucast tl :: u32) = unat tl"
    using order_le_less_trans [OF tlle unsigned_less [of len]] by (intro unat_ucast_less) simp
  have len': "unat len' = unat len - unat tl"
    using tlle utl by (simp add: len'_def unat_sub_le word_le_nat_alt)
  have page: "\<not> bad_prp_ent n x \<Longrightarrow> x \<noteq> 0 \<and> x AND (ucast (dma_page_size n) - 1) = 0" for x
    by (auto simp: bad_prp_ent_def)
  note unf = assms(1) [unfolded nvme_map_prp_def Let_def, folded ps_def, folded tl_def, folded len'_def]
  have p1: "prp1 \<noteq> 0" and cmb: "cmb = in_cmb n prp1"
    using unf by (auto split: if_splits option.splits)
  note unf' = unf [unfolded cmb [symmetric]]
  show ?thesis
  proof (cases "len' = 0")
    case True
    then have "sg = [(prp1, tl)]" using unf' p1 assms(2) by (simp add: prp_target_def)
    then show ?thesis using True len' tlle p1 by simp
  next
    case False
    then have p2: "prp2 \<noteq> 0" using unf' p1 by (auto split: if_splits)
    show ?thesis
    proof (cases "ucast (dma_page_size n) < len'")
      case True
      then have l: "map_prp_loop n h cmb (fetch_prp_list n h prp2 len') 0 len' [(prp1, tl)] = Some sg"
        using unf' p1 p2 False assms(2) by (auto simp: prp_target_def split: option.splits)
      obtain new where "sg = [(prp1, tl)] @ new" "sg_bytes new = unat len'"
        "\<forall>e \<in> set new. sg_page_entry n cmb e"
        using map_prp_loop_covers [OF l] by blast
      then show ?thesis
        using len' tlle p1 assms(2) page by (auto simp: sg_page_entry_def prp_target_def)
    next
      case small: False
      then have al: "prp2 AND (ps - 1) = 0" and sg: "sg = [(prp1, tl), (prp2, ucast len')]"
        using unf' p1 p2 False assms(2) by (auto simp: prp_target_def split: if_splits)
      have "unat len' \<le> unat (dma_page_size n)"
        using small by (simp add: word_less_nat_alt)
      then show ?thesis using sg al p1 p2 len' tlle by (simp add: ps_def)
    qed
  qed
qed

subsection \<open>The backend stores what it is given\<close>

lemma length_pci_dma_read [simp]: "length (pci_dma_read h a k) = k"
  by (simp add: pci_dma_read_def)

definition sg_data :: "host_mem \<Rightarrow> sg_list \<Rightarrow> u8 list" where
  "sg_data h sg = concat (map (\<lambda>e. pci_dma_read h (fst e) (unat (snd e))) sg)"

lemma sg_data_simps [simp]:
  "sg_data h [] = []" "sg_data h (e # sg) = pci_dma_read h (fst e) (unat (snd e)) @ sg_data h sg"
  by (simp_all add: sg_data_def)

lemma length_sg_data [simp]: "length (sg_data h sg) = sg_bytes sg"
  by (induction sg) auto

definition linear_mode :: "SsdDramBackend \<Rightarrow> bool" where
  "linear_mode b \<longleftrightarrow> be_femu_mode b = femu_mode_code FEMU_BBSSD_MODE \<or>
     be_femu_mode b = femu_mode_code FEMU_NOSSD_MODE \<or> be_femu_mode b = femu_mode_code FEMU_ZNSSD_MODE"

definition backend_ok :: "SsdDramBackend \<Rightarrow> bool" where
  "backend_ok b \<longleftrightarrow> length (logical_space b) = be_size b \<and> be_size b < 2 ^ 63 \<and> linear_mode b"

lemma backend_write_loop:
  assumes "backend_ok b" "unat off + sg_bytes sg \<le> be_size b"
  shows "backend_rw_loop sg lbal True b h idx off =
         Some (b\<lparr>logical_space := overwrite (logical_space b) (unat off) (sg_data h sg)\<rparr>, h)"
  using assms
proof (induction sg arbitrary: b idx off)
  case (Cons e sg)
  let ?bs = "pci_dma_read h (fst e) (unat (snd e))"
  let ?b = "b\<lparr>logical_space := overwrite (logical_space b) (unat off) ?bs\<rparr>"
  have fits: "unat off + unat (snd e) < 2 ^ 64"
    using Cons.prems by (simp add: backend_ok_def)
  have off: "unat (off + snd e) = unat off + unat (snd e)"
    using fits by (simp add: unat_word_ariths)
  have "backend_rw_loop sg lbal True ?b h (Suc idx) (off + snd e) =
        Some (?b\<lparr>logical_space := overwrite (logical_space ?b) (unat (off + snd e)) (sg_data h sg)\<rparr>, h)"
    using Cons.prems off by (intro Cons.IH) (simp_all add: backend_ok_def linear_mode_def)
  moreover have "overwrite (logical_space ?b) (unat (off + snd e)) (sg_data h sg) =
        overwrite (logical_space b) (unat off) (sg_data h (e # sg))"
    using Cons.prems off overwrite_append [of "unat off" ?bs "sg_data h sg" "logical_space b"]
    by (simp add: backend_ok_def)
  ultimately show ?case
    using Cons.prems by (auto simp: backend_ok_def linear_mode_def Let_def)
qed simp

lemma backend_read_loop:
  assumes "backend_ok b" "unat off + sg_bytes sg \<le> be_size b"
  shows "\<exists>h'. backend_rw_loop sg lbal False b h idx off = Some (b, h')"
  using assms
proof (induction sg arbitrary: h idx off)
  case (Cons e sg)
  have "unat off + unat (snd e) < 2 ^ 64"
    using Cons.prems by (simp add: backend_ok_def)
  then have off: "unat (off + snd e) = unat off + unat (snd e)"
    by (simp add: unat_word_ariths)
  then show ?case
    using Cons by (auto simp: backend_ok_def linear_mode_def Let_def)
qed simp

lemma pci_dma_write_other:
  "length bs \<le> 2 ^ 64 \<Longrightarrow> (\<And>i. i < length bs \<Longrightarrow> x \<noteq> a + of_nat i) \<Longrightarrow> pci_dma_write h a bs x = h x"
proof (induction bs arbitrary: h a)
  case (Cons b bs)
  have "x \<noteq> a" using Cons.prems(2) [of 0] by simp
  moreover have "x \<noteq> (a + 1) + of_nat i" if "i < length bs" for i
    using Cons.prems(2) [of "Suc i"] that by (simp add: add.assoc)
  ultimately show ?case using Cons by simp
qed simp

lemma pci_dma_write_nth:
  "length bs < 2 ^ 64 \<Longrightarrow> i < length bs \<Longrightarrow> pci_dma_write h a bs (a + of_nat i) = bs ! i"
proof (induction bs arbitrary: h a i)
  case (Cons b bs)
  show ?case
  proof (cases i)
    case 0
    have "a \<noteq> (a + 1) + of_nat j" if "j < length bs" for j
    proof
      assume "a = (a + 1) + of_nat j"
      then have "(of_nat (Suc j) :: u64) = 0" by (simp add: add.assoc)
      then have "2 ^ 64 dvd Suc j" by (simp only: word_of_nat_eq_0_iff) simp
      then show False using that Cons.prems(1) by (auto dest: dvd_imp_le)
    qed
    then show ?thesis using 0 Cons.prems pci_dma_write_other [of bs a "a + 1"] by simp
  next
    case (Suc j)
    then have "j < length bs" "length bs < 2 ^ 64" using Cons.prems by auto
    then show ?thesis using Suc Cons.IH by (simp add: add.assoc [symmetric])
  qed
qed simp

lemma pci_dma_read_write: "length bs < 2 ^ 64 \<Longrightarrow> pci_dma_read (pci_dma_write h a bs) a (length bs) = bs"
  by (intro nth_equalityI) (simp_all add: pci_dma_read_def pci_dma_write_nth)

end
