(* ===== verification/Dma_Props.thy ===== *)
theory Dma_Props
  imports Dma
begin

text \<open>
  Properties of the data transfer layer: what a successful PRP translation covers, that data written
  to the backend is read back, and what the translation does with a second page in controller memory.
\<close>

text \<open>C40: When the translation of a PRP pair to host memory succeeds, the scatter-gather list covers
  exactly the requested length, begins at the first pointer, and every further entry starts at a
  nonzero page boundary and stays inside its page.\<close>

theorem nvme_map_prp_covers_transfer:
  assumes "nvme_map_prp n h prp1 prp2 len = (0, cmb, sg)" "\<not> cmb" "dma_page_size n \<noteq> 0"
  shows "sg_bytes sg = unat len \<and> sg \<noteq> [] \<and> fst (hd sg) = prp1 \<and> prp1 \<noteq> 0 \<and>
    (\<forall>e \<in> set (tl sg). fst e \<noteq> 0 \<and> fst e AND (ucast (dma_page_size n) - 1) = 0 \<and>
       unat (snd e) \<le> unat (dma_page_size n))"
  using map_prp_covers [OF assms] by auto

definition ex_ctx :: dma_ctx where
  "ex_ctx = \<lparr>dma_page_size = 4096, dma_page_bits = 12, dma_max_prp_ents = 512, dma_cmbsz = 0,
     ctrl_mem_addr = 0, ctrl_mem_size = 0, dma_cmbuf = []\<rparr>"

text \<open>A request of 12 KiB at offset \<open>0x10\<close> of a page needs a list of three further pages, which
  \<open>ex_host\<close> has at \<open>0x2000\<close>.\<close>

definition ex_host :: host_mem where
  "ex_host = (\<lambda>a. if a = 0x2001 then 0x50 else if a = 0x2009 then 0x70 else if a = 0x2011 then 0x90 else 0)"

lemma ex_map_prp:
  "nvme_map_prp ex_ctx ex_host 0x1010 0x2000 12288 =
     (0, False, [(0x1010, 4080), (0x5000, 4096), (0x7000, 4096), (0x9000, 16)])"
  by code_simp

theorem nvme_map_prp_covers_transfer_witness:
  "sg_bytes [(0x1010, 4080), (0x5000, 4096), (0x7000, 4096), (0x9000, 16)] = unat (12288 :: u32)"
proof -
  have "dma_page_size ex_ctx \<noteq> 0" by (simp add: ex_ctx_def)
  then show ?thesis using nvme_map_prp_covers_transfer [OF ex_map_prp] by blast
qed

text \<open>What a request writes to the backend is what a later request of the same length reads back
  from the same place: the write replaces exactly the bytes of the range, and the read hands the guest
  these bytes.\<close>

theorem backend_write_read_roundtrip:
  assumes ok: "backend_ok b" and fits: "unat off + sg_bytes sg \<le> be_size b"
    and len: "unat n = sg_bytes sg"
  shows "\<exists>b'. backend_rw b h sg [off] True = Some (b', h) \<and> backend_ok b' \<and>
    take (sg_bytes sg) (drop (unat off) (logical_space b')) = sg_data h sg \<and>
    take (unat off) (logical_space b') = take (unat off) (logical_space b) \<and>
    drop (unat off + sg_bytes sg) (logical_space b') = drop (unat off + sg_bytes sg) (logical_space b) \<and>
    (\<exists>h'. backend_rw b' h [(dst, n)] [off] False = Some (b', h') \<and>
       pci_dma_read h' dst (unat n) = sg_data h sg)"
proof -
  let ?b = "b\<lparr>logical_space := overwrite (logical_space b) (unat off) (sg_data h sg)\<rparr>"
  have l: "unat off + length (sg_data h sg) \<le> length (logical_space b)"
    using ok fits by (simp add: backend_ok_def)
  have w: "backend_rw b h sg [off] True = Some (?b, h)"
    using backend_write_loop [OF ok fits] by (simp add: backend_rw_def)
  have ok': "backend_ok ?b" using ok l by (simp add: backend_ok_def linear_mode_def)
  have d: "take (sg_bytes sg) (drop (unat off) (logical_space ?b)) = sg_data h sg"
    using take_drop_overwrite [OF l] by simp
  have "sg_bytes sg < 2 ^ 64" using fits ok by (simp add: backend_ok_def)
  then have r: "backend_rw ?b h [(dst, n)] [off] False = Some (?b, pci_dma_write h dst (sg_data h sg))"
    "pci_dma_read (pci_dma_write h dst (sg_data h sg)) dst (unat n) = sg_data h sg"
    using ok' fits d len pci_dma_read_write [of "sg_data h sg" h dst]
    by (auto simp: backend_rw_def backend_ok_def linear_mode_def Let_def)
  show ?thesis using w ok' d r l by (auto simp: overwrite_def)
qed

theorem backend_write_read_roundtrip_witness:
  "\<exists>b'. backend_rw (init_dram_backend 1 8) (\<lambda>a. ucast a) [(7, 2), (20, 1)] [3] True = Some (b', \<lambda>a. ucast a) \<and>
     take 3 (drop 3 (logical_space b')) = [7, 8, 20]"
proof -
  have "backend_ok (init_dram_backend 1 8)" by (simp add: backend_ok_def init_dram_backend_def linear_mode_def)
  from backend_write_read_roundtrip [OF this, of 3 "[(7, 2), (20, 1)]" 3 "\<lambda>a. ucast a" 0] show ?thesis
    by (auto simp: init_dram_backend_def pci_dma_read_def upt_rec)
qed

text \<open>For a transfer of two pages to the controller memory buffer, the translation gives the second
  page the length of the first part instead of what is left: the entries then describe more or fewer
  bytes than the command transfers.\<close>

theorem nvme_map_prp_cmb_second_length:
  "nvme_map_prp (ex_ctx\<lparr>dma_cmbsz := 1, ctrl_mem_addr := 0x10000, ctrl_mem_size := 0x4000\<rparr>) h 0x10100 0x11000 4096 =
     (0, True, [(0x100, 3840), (0x1000, 3840)])"
  by code_simp

end
