(* ===== verification/Pqueue.thy ===== *)
theory Pqueue
  imports Femu_Prelude
begin

text \<open>
  The binary-heap priority queue of \<open>femu/lib/pqueue.c\<close>, used by the flash translation layer for
  its victim lines and by the I/O pollers for the completion order of requests.  The nodes of
  the queue are pointers \<open>'e\<close> into a store \<open>'s\<close> that the five callbacks read and write, so the
  back-pointers (\<open>setpos\<close>) the code maintains in the nodes are part of the model.  Slot 0 of the
  array is unused, as in the code.  Sizes are natural numbers; the queue handle is not NULL.
\<close>

subsection \<open>The queue and its operations\<close>

record ('s, 'e) pq_ops =
  cmppri :: "u64 \<Rightarrow> u64 \<Rightarrow> bool"
  getpri :: "'s \<Rightarrow> 'e \<Rightarrow> u64"
  setpri :: "'s \<Rightarrow> 'e \<Rightarrow> u64 \<Rightarrow> 's"
  getpos :: "'s \<Rightarrow> 'e \<Rightarrow> nat"
  setpos :: "'s \<Rightarrow> 'e \<Rightarrow> nat \<Rightarrow> 's"

record ('s, 'e) pqueue =
  q_size :: nat
  q_avail :: nat
  q_step :: nat
  q_ops :: "('s, 'e) pq_ops"
  q_d :: "'e list"

definition left :: "nat \<Rightarrow> nat" where "left i = i * 2"
definition right :: "nat \<Rightarrow> nat" where "right i = i * 2 + 1"
definition parent :: "nat \<Rightarrow> nat" where "parent i = i div 2"

text \<open>The handle and its array are allocated separately; either may fail.  The fresh array is
  uninitialised: its contents are the argument \<open>junk\<close>.\<close>

definition pqueue_init ::
  "bool \<Rightarrow> bool \<Rightarrow> 'e \<Rightarrow> nat \<Rightarrow> ('s, 'e) pq_ops \<Rightarrow> ('s, 'e) pqueue option" where
  "pqueue_init handle_ok array_ok junk n ops =
     (if \<not> handle_ok then None
      else if \<not> array_ok then None
      else Some \<lparr>q_size = 1, q_avail = n + 1, q_step = n + 1, q_ops = ops,
                 q_d = replicate (n + 1) junk\<rparr>)"

definition pqueue_size :: "('s, 'e) pqueue \<Rightarrow> nat" where
  "pqueue_size q = q_size q - 1"

text \<open>The loop of \<open>bubble_up\<close>: the hole at \<open>i\<close> moves towards the root.\<close>

function bubble_up_loop ::
  "('s, 'e) pq_ops \<Rightarrow> 's \<Rightarrow> 'e list \<Rightarrow> nat \<Rightarrow> u64 \<Rightarrow> 's \<times> 'e list \<times> nat" where
  "bubble_up_loop ops s d i moving_pri =
     (if 1 < i \<and> cmppri ops (getpri ops s (d ! parent i)) moving_pri
      then let d' = d[i := d ! parent i]
           in bubble_up_loop ops (setpos ops s (d' ! i) i) d' (parent i) moving_pri
      else (s, d, i))"
  by auto
termination by (relation "measure (\<lambda>(ops, s, d, i, p). i)") (auto simp: parent_def)

definition bubble_up :: "'s \<Rightarrow> ('s, 'e) pqueue \<Rightarrow> nat \<Rightarrow> 's \<times> ('s, 'e) pqueue" where
  "bubble_up s q i =
     (let moving_node = q_d q ! i;
          moving_pri = getpri (q_ops q) s moving_node;
          (s', d', i') = bubble_up_loop (q_ops q) s (q_d q) i moving_pri
      in (setpos (q_ops q) s' moving_node i', q\<lparr>q_d := d'[i' := moving_node]\<rparr>))"

definition maxchild :: "('s, 'e) pq_ops \<Rightarrow> 's \<Rightarrow> 'e list \<Rightarrow> nat \<Rightarrow> nat \<Rightarrow> nat" where
  "maxchild ops s d n i =
     (let child_node = left i
      in if n \<le> child_node then 0
         else if child_node + 1 < n \<and>
                 cmppri ops (getpri ops s (d ! child_node)) (getpri ops s (d ! (child_node + 1)))
         then child_node + 1 else child_node)"

lemma maxchild_less: "0 < maxchild ops s d n i \<Longrightarrow> i < n \<and> n - maxchild ops s d n i < n - i"
  by (auto simp: maxchild_def left_def Let_def split: if_splits)

function percolate_down_loop ::
  "('s, 'e) pq_ops \<Rightarrow> 's \<Rightarrow> 'e list \<Rightarrow> nat \<Rightarrow> nat \<Rightarrow> u64 \<Rightarrow> 's \<times> 'e list \<times> nat" where
  "percolate_down_loop ops s d n i moving_pri =
     (let child_node = maxchild ops s d n i
      in if child_node \<noteq> 0 \<and> cmppri ops moving_pri (getpri ops s (d ! child_node))
         then let d' = d[i := d ! child_node]
              in percolate_down_loop ops (setpos ops s (d' ! i) i) d' n child_node moving_pri
         else (s, d, i))"
  by auto
termination
  by (relation "measure (\<lambda>(ops, s, d, n, i, p). n - i)")
     (auto dest!: maxchild_less)

definition percolate_down :: "'s \<Rightarrow> ('s, 'e) pqueue \<Rightarrow> nat \<Rightarrow> 's \<times> ('s, 'e) pqueue" where
  "percolate_down s q i =
     (let moving_node = q_d q ! i;
          moving_pri = getpri (q_ops q) s moving_node;
          (s', d', i') = percolate_down_loop (q_ops q) s (q_d q) (q_size q) i moving_pri
      in (setpos (q_ops q) s' moving_node i', q\<lparr>q_d := d'[i' := moving_node]\<rparr>))"

text \<open>\<open>realloc_ok\<close> tells whether \<open>realloc\<close> finds memory; the new slots are uninitialised.\<close>

definition pqueue_insert ::
  "bool \<Rightarrow> 'e \<Rightarrow> 's \<Rightarrow> ('s, 'e) pqueue \<Rightarrow> 'e \<Rightarrow> int \<times> 's \<times> ('s, 'e) pqueue" where
  "pqueue_insert realloc_ok junk s q e =
     (if q_avail q \<le> q_size q \<and> \<not> realloc_ok then (1, s, q)
      else
        let newsize = q_size q + q_step q;
            q1 = (if q_avail q \<le> q_size q
                  then q\<lparr>q_d := q_d q @ replicate (newsize - q_avail q) junk, q_avail := newsize\<rparr>
                  else q);
            i = q_size q1;
            q2 = q1\<lparr>q_size := i + 1, q_d := (q_d q1)[i := e]\<rparr>;
            (s', q') = bubble_up s q2 i
        in (0, s', q'))"

definition pqueue_change_priority ::
  "'s \<Rightarrow> ('s, 'e) pqueue \<Rightarrow> u64 \<Rightarrow> 'e \<Rightarrow> 's \<times> ('s, 'e) pqueue" where
  "pqueue_change_priority s q new_pri e =
     (let old_pri = getpri (q_ops q) s e;
          s1 = setpri (q_ops q) s e new_pri;
          posn = getpos (q_ops q) s1 e
      in if cmppri (q_ops q) old_pri new_pri then bubble_up s1 q posn
         else percolate_down s1 q posn)"

definition pqueue_remove :: "'s \<Rightarrow> ('s, 'e) pqueue \<Rightarrow> 'e \<Rightarrow> int \<times> 's \<times> ('s, 'e) pqueue" where
  "pqueue_remove s q e =
     (let posn = getpos (q_ops q) s e;
          n = q_size q - 1;
          q1 = q\<lparr>q_size := n, q_d := (q_d q)[posn := q_d q ! n]\<rparr>;
          (s', q') = (if cmppri (q_ops q) (getpri (q_ops q) s e) (getpri (q_ops q) s (q_d q1 ! posn))
                      then bubble_up s q1 posn else percolate_down s q1 posn)
      in (0, s', q'))"

definition pqueue_pop :: "'s \<Rightarrow> ('s, 'e) pqueue \<Rightarrow> 'e option \<times> 's \<times> ('s, 'e) pqueue" where
  "pqueue_pop s q =
     (if q_size q = 1 then (None, s, q)
      else let head = q_d q ! 1;
               n = q_size q - 1;
               q1 = q\<lparr>q_size := n, q_d := (q_d q)[1 := q_d q ! n]\<rparr>;
               (s', q') = percolate_down s q1 1
           in (Some head, s', q'))"

definition pqueue_peek :: "('s, 'e) pqueue \<Rightarrow> 'e option" where
  "pqueue_peek q = (if q_size q = 1 then None else Some (q_d q ! 1))"

declare conj_cong [fundef_cong]

function subtree_is_valid :: "'s \<Rightarrow> ('s, 'e) pqueue \<Rightarrow> nat \<Rightarrow> bool" where
  "subtree_is_valid s q pos =
     (if pos = 0 then True \<comment> \<open>slot 0 is never visited: \<open>pqueue_is_valid\<close> starts at the root\<close>
      else if left pos < q_size q \<and>
              cmppri (q_ops q) (getpri (q_ops q) s (q_d q ! pos))
                (getpri (q_ops q) s (q_d q ! left pos)) then False
      else if left pos < q_size q \<and> \<not> subtree_is_valid s q (left pos) then False
      else if right pos < q_size q \<and>
              cmppri (q_ops q) (getpri (q_ops q) s (q_d q ! pos))
                (getpri (q_ops q) s (q_d q ! right pos)) then False
      else if right pos < q_size q \<and> \<not> subtree_is_valid s q (right pos) then False
      else True)"
  by auto
termination
  by (relation "measure (\<lambda>(s, q, pos). q_size q - pos)") (auto simp: left_def right_def intro!: diff_less_mono2)

definition pqueue_is_valid :: "'s \<Rightarrow> ('s, 'e) pqueue \<Rightarrow> bool" where
  "pqueue_is_valid s q = subtree_is_valid s q 1"

text \<open>\<open>pqueue_print\<close> pops a copy of the queue whose callbacks write nothing, so that the nodes
  keep their positions; the entries it prints are returned as a list.\<close>

fun pqueue_drain :: "nat \<Rightarrow> 's \<Rightarrow> ('s, 'e) pqueue \<Rightarrow> 'e list" where
  "pqueue_drain 0 s q = []"
| "pqueue_drain (Suc k) s q =
     (case pqueue_pop s q of
        (None, _, _) \<Rightarrow> []
      | (Some e, s', q') \<Rightarrow> e # pqueue_drain k s' q')"

definition pqueue_dup_ops :: "('s, 'e) pq_ops \<Rightarrow> ('s, 'e) pq_ops" where
  "pqueue_dup_ops ops = ops\<lparr>setpri := (\<lambda>s _ _. s), setpos := (\<lambda>s _ _. s)\<rparr>"

definition pqueue_print :: "'s \<Rightarrow> ('s, 'e) pqueue \<Rightarrow> 'e list" where
  "pqueue_print s q =
     pqueue_drain (q_size q) s (q\<lparr>q_ops := pqueue_dup_ops (q_ops q), q_d := take (q_size q) (q_d q)\<rparr>)"

declare bubble_up_loop.simps [simp del] percolate_down_loop.simps [simp del]
  subtree_is_valid.simps [simp del]


subsection \<open>The order interface\<close>

text \<open>What the queue needs of its callbacks to keep the heap order: the comparison is a strict weak
  order and moving a node does not change any priority.  \<open>le s a b\<close>: \<open>a\<close> may stand above \<open>b\<close>.\<close>

locale pq_order =
  fixes ops :: "('s, 'e) pq_ops"
  assumes cmp_asym: "cmppri ops x y \<Longrightarrow> \<not> cmppri ops y x"
    and cmp_trans: "\<not> cmppri ops x y \<Longrightarrow> \<not> cmppri ops y z \<Longrightarrow> \<not> cmppri ops x z"
    and getpri_setpos [simp]: "getpri ops (setpos ops s a n) b = getpri ops s b"
begin

definition le :: "'s \<Rightarrow> 'e \<Rightarrow> 'e \<Rightarrow> bool" where
  "le s a b \<longleftrightarrow> \<not> cmppri ops (getpri ops s a) (getpri ops s b)"

lemma le_refl [simp]: "le s a a"
  using cmp_asym by (auto simp: le_def)

lemma le_trans: "le s a b \<Longrightarrow> le s b c \<Longrightarrow> le s a c"
  unfolding le_def by (rule cmp_trans)

lemma le_linear: "\<not> le s a b \<Longrightarrow> le s b a"
  using cmp_asym by (auto simp: le_def)

lemma le_setpos [simp]: "le (setpos ops s a n) b c = le s b c"
  by (simp add: le_def)

definition heap :: "'s \<Rightarrow> 'e list \<Rightarrow> nat \<Rightarrow> bool" where
  "heap s d n \<longleftrightarrow> (\<forall>j. 2 \<le> j \<and> j < n \<longrightarrow> le s (d ! (j div 2)) (d ! j))"

definition up_inv :: "'s \<Rightarrow> 'e list \<Rightarrow> nat \<Rightarrow> nat \<Rightarrow> bool" where
  "up_inv s V n i \<longleftrightarrow>
     (\<forall>j. 2 \<le> j \<and> j < n \<and> j \<noteq> i \<longrightarrow> le s (V ! (j div 2)) (V ! j)) \<and>
     (\<forall>j. 1 < i \<and> j < n \<and> j div 2 = i \<longrightarrow> le s (V ! (i div 2)) (V ! j))"

definition down_inv :: "'s \<Rightarrow> 'e list \<Rightarrow> nat \<Rightarrow> nat \<Rightarrow> bool" where
  "down_inv s V n i \<longleftrightarrow>
     (\<forall>j. 2 \<le> j \<and> j < n \<and> j div 2 \<noteq> i \<longrightarrow> le s (V ! (j div 2)) (V ! j)) \<and>
     (\<forall>j. 1 < i \<and> j < n \<and> j div 2 = i \<longrightarrow> le s (V ! (i div 2)) (V ! j))"

lemma heap_up_inv_exit:
  "up_inv s V n i \<Longrightarrow> i \<le> 1 \<or> le s (V ! (i div 2)) (V ! i) \<Longrightarrow> heap s V n"
  unfolding up_inv_def heap_def by (metis Suc_1 Suc_n_not_le_n le_trans nat_le_linear One_nat_def Nat.le_trans)

lemma up_inv_step:
  assumes inv: "up_inv s V n i" and i: "1 < i" "i < length V"
    and nle: "\<not> le s (V ! (i div 2)) (V ! i)"
  shows "up_inv s (V[i := V ! (i div 2), i div 2 := V ! i]) n (i div 2)"
proof -
  let ?p = "i div 2" and ?V = "V[i := V ! (i div 2), i div 2 := V ! i]"
  have p: "?p < i" "?p < length V" "1 \<le> ?p" using i by auto
  have nth: "?V ! j = (if j = ?p then V ! i else if j = i then V ! ?p else V ! j)" for j
    using i p by (simp add: nth_list_update_if)
  have lep: "le s (V ! i) (V ! ?p)" using nle by (rule le_linear)
  have ord: "le s (V ! (j div 2)) (V ! j)" if "2 \<le> j" "j < n" "j \<noteq> i" for j
    using inv that by (auto simp: up_inv_def)
  have grand: "le s (V ! ?p) (V ! j)" if "j < n" "j div 2 = i" for j
    using inv i that by (auto simp: up_inv_def)
  have "le s (?V ! (j div 2)) (?V ! j)" if j: "2 \<le> j" "j < n" "j \<noteq> ?p" for j
  proof (cases "j = i")
    case True
    then show ?thesis using lep j p by (simp add: nth)
  next
    case False
    note o = ord [OF j(1,2) False]
    show ?thesis
    proof (cases "j div 2 = ?p")
      case True
      then show ?thesis using False j o le_trans [OF lep] by (simp add: nth)
    next
      case npp: False
      then show ?thesis using False j o grand [of j] by (auto simp: nth)
    qed
  qed
  moreover have "le s (?V ! (?p div 2)) (?V ! j)" if j: "1 < ?p" "j < n" "j div 2 = ?p" for j
  proof -
    have pp: "?p div 2 \<noteq> ?p" "?p div 2 \<noteq> i" using j p by auto
    have up: "le s (V ! (?p div 2)) (V ! ?p)"
      using ord [of ?p] j p by auto
    have jp: "j \<noteq> ?p" using j by auto
    show ?thesis
    proof (cases "j = i")
      case True
      then show ?thesis using pp up jp by (simp add: nth)
    next
      case False
      then have "le s (V ! ?p) (V ! j)" using ord [of j] j by auto
      then show ?thesis using pp jp False le_trans [OF up] by (simp add: nth)
    qed
  qed
  ultimately show ?thesis by (auto simp: up_inv_def)
qed

lemma heap_down_inv_exit:
  assumes inv: "down_inv s V n i"
    and ch: "\<And>j. 2 \<le> j \<Longrightarrow> j < n \<Longrightarrow> j div 2 = i \<Longrightarrow> le s (V ! i) (V ! j)"
  shows "heap s V n"
  unfolding heap_def
proof (intro allI impI)
  fix j
  assume "2 \<le> j \<and> j < n"
  then show "le s (V ! (j div 2)) (V ! j)"
    using inv ch by (cases "j div 2 = i") (auto simp: down_inv_def)
qed

lemma maxchild_0D: "maxchild ops s d n i = 0 \<Longrightarrow> 1 \<le> i \<Longrightarrow> n \<le> i * 2"
  by (auto simp: maxchild_def left_def Let_def split: if_splits)

lemma maxchild_posD:
  assumes "maxchild ops s d n i = c" "c \<noteq> 0" "1 \<le> i"
  shows "c div 2 = i" "i < c" "c < n"
    and "\<And>j. 2 \<le> j \<Longrightarrow> j < n \<Longrightarrow> j div 2 = i \<Longrightarrow> le s (d ! c) (d ! j)"
proof -
  have c: "c = i * 2 \<or> c = i * 2 + 1" and n: "i * 2 < n"
    and c1: "c = i * 2 + 1 \<Longrightarrow> c < n"
    using assms by (auto simp: maxchild_def left_def Let_def split: if_splits)
  then show "c div 2 = i" "i < c" "c < n" using assms(3) by auto
  fix j
  assume j: "2 \<le> j" "j < n" "j div 2 = i"
  then have "j = i * 2 \<or> j = i * 2 + 1" by auto
  moreover have "c = i * 2 + 1 \<Longrightarrow> le s (d ! c) (d ! (i * 2))"
    using assms by (intro le_linear)
      (auto simp: maxchild_def left_def Let_def le_def split: if_splits)
  moreover have "c = i * 2 \<Longrightarrow> i * 2 + 1 < n \<Longrightarrow> le s (d ! c) (d ! (i * 2 + 1))"
    using assms by (auto simp: maxchild_def left_def Let_def le_def split: if_splits)
  ultimately show "le s (d ! c) (d ! j)" using c j by auto
qed

lemma down_inv_step:
  assumes inv: "down_inv s V n i" and c: "c div 2 = i" "i < c" "c < n" and i: "1 \<le> i" "n \<le> length V"
    and least: "\<And>j. 2 \<le> j \<Longrightarrow> j < n \<Longrightarrow> j div 2 = i \<Longrightarrow> le s (V ! c) (V ! j)"
    and nle: "\<not> le s (V ! i) (V ! c)"
  shows "down_inv s (V[i := V ! c, c := V ! i]) n c"
proof -
  let ?V = "V[i := V ! c, c := V ! i]"
  have nth: "?V ! j = (if j = c then V ! i else if j = i then V ! c else V ! j)" for j
    using i c by (simp add: nth_list_update_if)
  have lec: "le s (V ! c) (V ! i)" using nle by (rule le_linear)
  have ord: "le s (V ! (j div 2)) (V ! j)" if "2 \<le> j" "j < n" "j div 2 \<noteq> i" for j
    using inv that by (auto simp: down_inv_def)
  have grand: "le s (V ! (i div 2)) (V ! j)" if "j < n" "j div 2 = i" "1 < i" for j
    using inv that by (auto simp: down_inv_def)
  have "le s (?V ! (j div 2)) (?V ! j)" if j: "2 \<le> j" "j < n" "j div 2 \<noteq> c" for j
  proof (cases "j div 2 = i")
    case True
    then have "j \<noteq> i" using j by auto
    then show ?thesis using True c j lec least [of j] by (auto simp: nth)
  next
    case False
    note o = ord [OF j(1,2) False]
    have jc: "j \<noteq> c" using False c by auto
    show ?thesis
    proof (cases "j = i")
      case True
      then have "1 < i" "i div 2 \<noteq> c" "i div 2 \<noteq> i" using j c by auto
      then show ?thesis using True jc grand [of c] c by (simp add: nth)
    next
      case ji: False
      then show ?thesis using False jc j o by (simp add: nth)
    qed
  qed
  moreover have "le s (?V ! (c div 2)) (?V ! j)" if j: "j < n" "j div 2 = c" for j
  proof -
    have "j \<noteq> c" "j \<noteq> i" "2 \<le> j" "j div 2 \<noteq> i" using j c i by auto
    then show ?thesis using ord [of j] j c by (simp add: nth)
  qed
  ultimately show ?thesis by (auto simp: down_inv_def)
qed

lemma order_setpos [simp]:
  "up_inv (setpos ops s a k) V n i = up_inv s V n i"
  "down_inv (setpos ops s a k) V n i = down_inv s V n i"
  "heap (setpos ops s a k) V n = heap s V n"
  by (simp_all add: up_inv_def down_inv_def heap_def)

lemma heap_cong_pri: "(\<And>b. getpri ops s' b = getpri ops s b) \<Longrightarrow> heap s' V n = heap s V n"
  by (simp add: heap_def le_def)

text \<open>One turn of either loop swaps the hole with its neighbour in the array in which the moving
  node is written back into the hole.\<close>

lemma hole_swap:
  assumes "i \<noteq> j" "i < length d" "j < length d"
  shows "(d[i := d ! j])[j := m] = (let V = d[i := m] in V[i := V ! j, j := V ! i])"
  using assms by (auto simp: Let_def nth_list_update list_update_swap intro!: nth_equalityI)

lemma bubble_up_loop_spec:
  assumes "bubble_up_loop ops s d i (getpri ops s m) = (s', d', i')"
    and "1 \<le> i" "i < n" "n \<le> length d" "up_inv s (d[i := m]) n i"
  shows "1 \<le> i' \<and> i' < n \<and> length d' = length d \<and> (\<forall>b. getpri ops s' b = getpri ops s b) \<and>
         heap s (d'[i' := m]) n \<and>
         mset (arr_slice (d'[i' := m]) 1 n) = mset (arr_slice (d[i := m]) 1 n)"
  using assms
proof (induction i arbitrary: s d rule: less_induct)
  case (less i)
  note step = less.prems(1) [unfolded bubble_up_loop.simps [of ops s d i]]
  let ?V = "d[i := m]" and ?p = "parent i"
  have m: "?V ! i = m" using less.prems by simp
  show ?case
  proof (cases "1 < i \<and> cmppri ops (getpri ops s (d ! ?p)) (getpri ops s m)")
    case True
    then have i: "1 < i" and p: "?p = i div 2" "?p \<noteq> i" "?p < i" "1 \<le> ?p"
      by (auto simp: parent_def)
    let ?d = "d[i := d ! ?p]" and ?s = "setpos ops s (d ! ?p) i"
    have V: "?d[?p := m] = ?V[i := ?V ! ?p, ?p := ?V ! i]"
      using p less.prems hole_swap [of i ?p d m] by (simp add: Let_def)
    have "\<not> le s (?V ! (i div 2)) (?V ! i)"
      using True p m by (simp add: le_def)
    then have inv: "up_inv ?s (?d[?p := m]) n ?p"
      unfolding V using up_inv_step [OF less.prems(5) i] less.prems p(1) by simp
    have "bubble_up_loop ops ?s ?d ?p (getpri ops ?s m) = (s', d', i')"
      using step True less.prems by (simp add: Let_def)
    note IH = less.IH [OF p(3) this p(4) _ _ inv]
    have "mset (arr_slice (?d[?p := m]) 1 n) = mset (arr_slice ?V 1 n)"
      unfolding V using less.prems p by (intro mset_arr_slice_swap) simp_all
    then show ?thesis using IH less.prems p by simp
  next
    case False
    then have eq: "s' = s" "d' = d" "i' = i" using step by (auto split: if_splits)
    have "i \<le> 1 \<or> le s (?V ! (i div 2)) (?V ! i)"
      using False m less.prems by (auto simp: le_def parent_def)
    then show ?thesis
      using heap_up_inv_exit [OF less.prems(5)] less.prems eq by simp
  qed
qed

lemma percolate_down_loop_spec:
  assumes "percolate_down_loop ops s d n i (getpri ops s m) = (s', d', i')"
    and "1 \<le> i" "i \<le> n" "i < length d" "n \<le> length d" "down_inv s (d[i := m]) n i"
  shows "1 \<le> i' \<and> (i < n \<longleftrightarrow> i' < n) \<and> i' \<le> n \<and> i' < length d \<and> length d' = length d \<and>
         (\<forall>b. getpri ops s' b = getpri ops s b) \<and> heap s (d'[i' := m]) n \<and>
         mset (arr_slice (d'[i' := m]) 1 n) = mset (arr_slice (d[i := m]) 1 n)"
  using assms
proof (induction "n - i" arbitrary: s d i rule: less_induct)
  case less
  note step = less.prems(1) [unfolded percolate_down_loop.simps [of ops s d n i]]
  let ?V = "d[i := m]" and ?c = "maxchild ops s d n i"
  have m: "?V ! i = m" using less.prems by simp
  show ?case
  proof (cases "?c \<noteq> 0 \<and> cmppri ops (getpri ops s m) (getpri ops s (d ! ?c))")
    case True
    note c = maxchild_posD [OF refl conjunct1 [OF True] less.prems(2)]
    let ?d = "d[i := d ! ?c]" and ?s = "setpos ops s (d ! ?c) i"
    have V: "?d[?c := m] = ?V[i := ?V ! ?c, ?c := ?V ! i]"
      using c less.prems hole_swap [of i ?c d m] by (simp add: Let_def)
    have nle: "\<not> le s (?V ! i) (?V ! ?c)"
      using True c m by (simp add: le_def)
    have least: "le s (?V ! ?c) (?V ! j)" if "2 \<le> j" "j < n" "j div 2 = i" for j
      using c(4) [OF that] c(2) that less.prems by auto
    have inv: "down_inv ?s (?d[?c := m]) n ?c"
      unfolding V order_setpos
      by (rule down_inv_step [OF less.prems(6) c(1-3) less.prems(2) _ least nle])
        (use less.prems(5) in simp_all)
    have "percolate_down_loop ops ?s ?d n ?c (getpri ops ?s m) = (s', d', i')"
      using step True less.prems by (simp add: Let_def)
    note IH = less.hyps [OF _ this _ _ _ _ inv]
    have "mset (arr_slice (?d[?c := m]) 1 n) = mset (arr_slice ?V 1 n)"
      unfolding V using less.prems c by (intro mset_arr_slice_swap) simp_all
    then show ?thesis using IH less.prems c by simp
  next
    case False
    then have eq: "s' = s" "d' = d" "i' = i" using step by (auto split: if_splits simp: Let_def)
    have "le s (?V ! i) (?V ! j)" if j: "2 \<le> j" "j < n" "j div 2 = i" for j
    proof -
      have "i * 2 < n" using j div_times_less_eq_dividend [of j 2] by linarith
      then have c0: "?c \<noteq> 0" using maxchild_0D [of s d n i] less.prems by linarith
      note c = maxchild_posD [OF refl c0 less.prems(2)]
      have "le s m (d ! ?c)" using False c0 by (simp add: le_def)
      moreover have "i \<noteq> j" using j by auto
      ultimately show ?thesis using m le_trans [OF _ c(4) [OF j]] by simp
    qed
    then show ?thesis
      using heap_down_inv_exit [OF less.prems(6)] less.prems eq by simp
  qed
qed

text \<open>Whatever survives one swap of the hole with a neighbour survives the whole loop.\<close>

lemma bubble_up_loop_rule:
  assumes "bubble_up_loop ops s d i mp = (s', d', i')" "1 \<le> i" "i < n" "n \<le> length d"
    and "P s (d[i := m]) i"
    and step: "\<And>s V i c. P s V i \<Longrightarrow> 1 \<le> i \<Longrightarrow> i < n \<Longrightarrow> 1 \<le> c \<Longrightarrow> c < n \<Longrightarrow> i \<noteq> c \<Longrightarrow> n \<le> length V \<Longrightarrow>
                 P (setpos ops s (V ! c) i) (V[i := V ! c, c := V ! i]) c"
  shows "P s' (d'[i' := m]) i'"
  using assms(1-5)
proof (induction i arbitrary: s d rule: less_induct)
  case (less i)
  note eq = less.prems(1) [unfolded bubble_up_loop.simps [of ops s d i]]
  let ?p = "parent i"
  show ?case
  proof (cases "1 < i \<and> cmppri ops (getpri ops s (d ! ?p)) mp")
    case True
    then have p: "?p \<noteq> i" "?p < i" "1 \<le> ?p" by (auto simp: parent_def)
    let ?d = "d[i := d ! ?p]" and ?s = "setpos ops s (d ! ?p) i"
    have ip: "i \<noteq> ?p" "?p < n" "n \<le> length (d[i := m])" "i < length d" "?p < length d"
      using p less.prems by auto
    have "?d[?p := m] = (d[i := m])[i := d[i := m] ! ?p, ?p := d[i := m] ! i]"
      using hole_swap [OF ip(1,4,5), of m] by (simp add: Let_def)
    then have "P ?s (?d[?p := m]) ?p"
      using step [OF less.prems(5,2,3) p(3) ip(2,1,3)] ip by simp
    moreover have "bubble_up_loop ops ?s ?d ?p mp = (s', d', i')"
      using eq True less.prems by (simp add: Let_def)
    ultimately show ?thesis using less.IH [OF p(2) _ p(3) ip(2)] ip by simp
  next
    case False
    then show ?thesis using less.prems eq by (auto split: if_splits)
  qed
qed

lemma percolate_down_loop_rule:
  assumes "percolate_down_loop ops s d n i mp = (s', d', i')" "1 \<le> i" "n \<le> length d"
    and "P s (d[i := m]) i"
    and step: "\<And>s V i c. P s V i \<Longrightarrow> 1 \<le> i \<Longrightarrow> i < n \<Longrightarrow> 1 \<le> c \<Longrightarrow> c < n \<Longrightarrow> i \<noteq> c \<Longrightarrow> n \<le> length V \<Longrightarrow>
                 P (setpos ops s (V ! c) i) (V[i := V ! c, c := V ! i]) c"
  shows "P s' (d'[i' := m]) i'"
  using assms(1-4)
proof (induction "n - i" arbitrary: s d i rule: less_induct)
  case less
  note eq = less.prems(1) [unfolded percolate_down_loop.simps [of ops s d n i]]
  let ?c = "maxchild ops s d n i"
  show ?case
  proof (cases "?c \<noteq> 0 \<and> cmppri ops mp (getpri ops s (d ! ?c))")
    case True
    note c = maxchild_posD [OF refl conjunct1 [OF True] less.prems(2)]
    have ic: "i < n" "1 \<le> ?c" "i \<noteq> ?c" "n \<le> length (d[i := m])" "n - ?c < n - i"
      using c less.prems by auto
    let ?d = "d[i := d ! ?c]" and ?s = "setpos ops s (d ! ?c) i"
    have "?d[?c := m] = (d[i := m])[i := d[i := m] ! ?c, ?c := d[i := m] ! i]"
      using hole_swap [OF ic(3), of d m] ic c(3) by (simp add: Let_def)
    then have "P ?s (?d[?c := m]) ?c"
      using step [OF less.prems(4,2) ic(1,2) c(3) ic(3,4)] ic by simp
    moreover have "percolate_down_loop ops ?s ?d n ?c mp = (s', d', i')"
      using eq True ic by (simp add: Let_def)
    ultimately show ?thesis using less.hyps [OF ic(5) _ ic(2)] ic by simp
  next
    case False
    then show ?thesis using less.prems eq by (auto split: if_splits simp: Let_def)
  qed
qed

end

subsection \<open>Well-formed queues\<close>

definition pq_elems :: "('s, 'e) pqueue \<Rightarrow> 'e list" where
  "pq_elems q = arr_slice (q_d q) 1 (q_size q)"

definition pq_heap :: "'s \<Rightarrow> ('s, 'e) pqueue \<Rightarrow> bool" where
  "pq_heap s q \<longleftrightarrow>
     (\<forall>j. 2 \<le> j \<and> j < q_size q \<longrightarrow>
        \<not> cmppri (q_ops q) (getpri (q_ops q) s (q_d q ! (j div 2))) (getpri (q_ops q) s (q_d q ! j)))"

definition pq_shape :: "('s, 'e) pqueue \<Rightarrow> bool" where
  "pq_shape q \<longleftrightarrow> 1 \<le> q_size q \<and> q_size q \<le> q_avail q \<and> q_avail q = length (q_d q) \<and> 0 < q_step q"

definition pq_pos :: "'s \<Rightarrow> ('s, 'e) pqueue \<Rightarrow> bool" where
  "pq_pos s q \<longleftrightarrow> distinct (pq_elems q) \<and>
     (\<forall>j. 1 \<le> j \<and> j < q_size q \<longrightarrow> getpos (q_ops q) s (q_d q ! j) = j)"

definition pq_wf :: "('s \<Rightarrow> 'e \<Rightarrow> bool) \<Rightarrow> 's \<Rightarrow> ('s, 'e) pqueue \<Rightarrow> bool" where
  "pq_wf valid s q \<longleftrightarrow>
     pq_shape q \<and> (\<forall>x \<in> set (pq_elems q). valid s x) \<and> pq_pos s q \<and> pq_heap s q"

text \<open>The heap order alone: removing from the root, and the debug operations.\<close>

context pq_order begin

lemma pq_heap_iff: "q_ops q = ops \<Longrightarrow> pq_heap s q = heap s (q_d q) (q_size q)"
  by (simp add: pq_heap_def heap_def le_def)

lemma heap_root: "heap s d n \<Longrightarrow> 1 \<le> j \<Longrightarrow> j < n \<Longrightarrow> le s (d ! 1) (d ! j)"
proof (induction j rule: less_induct)
  case (less j)
  show ?case
  proof (cases "j = 1")
    case False
    then have "le s (d ! 1) (d ! (j div 2))" using less by auto
    moreover have "le s (d ! (j div 2)) (d ! j)" using less False by (auto simp: heap_def)
    ultimately show ?thesis by (rule le_trans)
  qed simp
qed

abbreviation drop_last_into :: "('s, 'e) pqueue \<Rightarrow> nat \<Rightarrow> ('s, 'e) pqueue" where
  "drop_last_into q k \<equiv> q\<lparr>q_size := q_size q - 1, q_d := (q_d q)[k := q_d q ! (q_size q - 1)]\<rparr>"

lemma elems_drop_last:
  assumes k: "1 \<le> k" "k < q_size q" "q_size q \<le> length (q_d q)"
  shows "mset (pq_elems q) = add_mset (q_d q ! k) (mset (pq_elems (drop_last_into q k)))"
proof -
  let ?n = "q_size q - 1" and ?d = "q_d q"
  have split: "pq_elems q = arr_slice ?d 1 ?n @ [?d ! ?n]"
    using k arr_slice_Suc [of 1 ?n ?d] by (simp add: pq_elems_def)
  show ?thesis
  proof (cases "k = ?n")
    case True
    then show ?thesis using split by (simp add: pq_elems_def)
  next
    case False
    then have "pq_elems (drop_last_into q k) = (arr_slice ?d 1 ?n)[k - 1 := ?d ! ?n]"
      using k by (simp add: pq_elems_def arr_slice_update_inside)
    moreover have "arr_slice ?d 1 ?n ! (k - 1) = ?d ! k" "k - 1 < length (arr_slice ?d 1 ?n)"
      using k False by auto
    moreover have "q_d q ! k \<in> set (arr_slice ?d 1 ?n)"
      using calculation(2,3) by (metis nth_mem)
    ultimately show ?thesis
      using split by (simp add: mset_update insert_DiffM del: One_nat_def)
  qed
qed

lemma drop_last_up_inv:
  assumes h: "heap s d n" and k: "1 \<le> k" "k < n - 1" "n \<le> length d" and le: "le s (d ! (n - 1)) (d ! k)"
  shows "up_inv s (d[k := d ! (n - 1)]) (n - 1) k"
proof -
  have ord: "le s (d ! (j div 2)) (d ! j)" if "2 \<le> j" "j < n" for j
    using h that by (auto simp: heap_def)
  have a: "le s (d[k := d ! (n - 1)] ! (j div 2)) (d[k := d ! (n - 1)] ! j)"
    if "2 \<le> j" "j < n - 1" "j \<noteq> k" for j
    using ord [of j] that k le_trans [OF le, of "d ! j"] by (auto simp: nth_list_update_if)
  have b: "le s (d[k := d ! (n - 1)] ! (k div 2)) (d[k := d ! (n - 1)] ! j)"
    if "1 < k" "j < n - 1" "j div 2 = k" for j
  proof -
    have "le s (d ! (k div 2)) (d ! k)" "le s (d ! k) (d ! j)"
      using ord [of k] ord [of j] that k by auto
    moreover have "k div 2 \<noteq> k" "j \<noteq> k" using that k by auto
    ultimately show ?thesis using le_trans k by (simp add: nth_list_update_if)
  qed
  show ?thesis using a b by (auto simp: up_inv_def)
qed

lemma drop_last_down_inv:
  assumes h: "heap s d n" and k: "1 \<le> k" "k < n" "n \<le> length d" and le: "le s (d ! k) (d ! (n - 1))"
  shows "down_inv s (d[k := d ! (n - 1)]) (n - 1) k"
proof -
  have ord: "le s (d ! (j div 2)) (d ! j)" if "2 \<le> j" "j < n" for j
    using h that by (auto simp: heap_def)
  have a: "le s (d[k := d ! (n - 1)] ! (j div 2)) (d[k := d ! (n - 1)] ! j)"
    if "2 \<le> j" "j < n - 1" "j div 2 \<noteq> k" for j
    using ord [of j] that k le_trans [of s "d ! (j div 2)", OF _ le]
    by (auto simp: nth_list_update_if)
  have b: "le s (d[k := d ! (n - 1)] ! (k div 2)) (d[k := d ! (n - 1)] ! j)"
    if "1 < k" "j < n - 1" "j div 2 = k" for j
  proof -
    have "le s (d ! (k div 2)) (d ! k)" "le s (d ! k) (d ! j)"
      using ord [of k] ord [of j] that k by auto
    moreover have "k div 2 \<noteq> k" "j \<noteq> k" using that k by auto
    ultimately show ?thesis using le_trans k by (simp add: nth_list_update_if)
  qed
  show ?thesis using a b by (auto simp: down_inv_def)
qed

lemma pop_heap:
  assumes h: "pq_heap s q" and q: "q_ops q = ops" and sh: "1 \<le> q_size q" "q_size q \<le> length (q_d q)"
    and eq: "pqueue_pop s q = (Some e, s', q')"
  shows "add_mset e (mset (pq_elems q')) = mset (pq_elems q)" "pq_heap s' q'" "q_ops q' = ops"
    "1 \<le> q_size q'" "q_size q' \<le> length (q_d q')" "Suc (q_size q') = q_size q"
    "\<forall>b. getpri ops s' b = getpri ops s b"
    "\<forall>x \<in> set (pq_elems q). le s e x"
proof -
  have n1: "q_size q \<noteq> 1" using eq by (auto simp: pqueue_pop_def)
  then have n: "1 \<le> (1::nat)" "1 < q_size q" "1 < length (q_d q)" using sh by auto
  let ?q = "drop_last_into q 1" and ?n = "q_size q - 1"
  let ?m = "q_d q ! ?n"
  let ?d = "(q_d q)[1 := ?m]"
  have e: "e = q_d q ! 1" and r: "percolate_down s ?q 1 = (s', q')"
    using eq n1 by (auto simp: pqueue_pop_def Let_def split: prod.splits)
  have hq: "heap s (q_d q) (q_size q)" using h q by (simp add: pq_heap_iff)
  have least: "le s (q_d q ! 1) (q_d q ! j)" if "1 \<le> j" "j < q_size q" for j
    using heap_root [OF hq that] .
  have down: "down_inv s ?d ?n 1"
    using least [of ?n] n by (intro drop_last_down_inv [OF hq n(1,2) sh(2)]) simp
  obtain s1 d1 i1 where l: "percolate_down_loop ops s ?d ?n 1 (getpri ops s (?m)) = (s1, d1, i1)"
    by (cases "percolate_down_loop ops s ?d ?n 1 (getpri ops s (?m))") auto
  have V: "?d[1 := ?m] = ?d" by simp
  have dm: "?d ! Suc 0 = ?m" using n by simp
  have "1 \<le> ?n" "1 < length ?d" "?n \<le> length ?d" using n sh by auto
  note sp = percolate_down_loop_spec [OF l n(1) this, unfolded V, OF down]
  have r': "s' = setpos ops s1 (?m) i1" "q' = ?q\<lparr>q_d := d1[i1 := ?m]\<rparr>"
    using r l q dm by (auto simp: percolate_down_def Let_def)
  have "heap s' (d1[i1 := ?m]) ?n = heap s (d1[i1 := ?m]) ?n"
    using sp by (intro heap_cong_pri) (simp add: r')
  then show "pq_heap s' q'" using sp r' q by (simp add: pq_heap_iff)
  have "mset (pq_elems q') = mset (pq_elems ?q)"
    using sp by (simp add: r' pq_elems_def)
  then show "add_mset e (mset (pq_elems q')) = mset (pq_elems q)"
    using elems_drop_last [OF n(1,2) sh(2)] e by simp
  show "q_ops q' = ops" "1 \<le> q_size q'" "Suc (q_size q') = q_size q" "q_size q' \<le> length (q_d q')"
    "\<forall>b. getpri ops s' b = getpri ops s b"
    using r' q n sh sp by auto
  show "\<forall>x \<in> set (pq_elems q). le s e x"
    using least e sh by (auto simp: pq_elems_def set_arr_slice)
qed

lemma pop_None_iff: "pqueue_pop s q = (None, s', q') \<Longrightarrow> q_size q = 1"
  by (auto simp: pqueue_pop_def Let_def split: if_splits prod.splits)

lemma drain_sorted:
  assumes "pq_heap s q" "q_ops q = ops" "1 \<le> q_size q" "q_size q \<le> length (q_d q)" "q_size q \<le> k"
  shows "sorted_wrt (le s) (pqueue_drain k s q) \<and> mset (pqueue_drain k s q) = mset (pq_elems q)"
  using assms
proof (induction k s q rule: pqueue_drain.induct)
  case (2 k s q)
  obtain r s' q' where p: "pqueue_pop s q = (r, s', q')" by (cases "pqueue_pop s q") auto
  show ?case
  proof (cases r)
    case None
    then show ?thesis using p pop_None_iff [of s q s' q'] by (simp add: pq_elems_def arr_slice_def)
  next
    case (Some e)
    note w = pop_heap [OF 2(2-5) p [unfolded Some]]
    have "sorted_wrt (le s') (pqueue_drain k s' q') \<and> mset (pqueue_drain k s' q') = mset (pq_elems q')"
      using "2.IH" p Some w 2(6) by auto
    moreover have "le s' = le s" using w(7) by (auto simp: le_def fun_eq_iff)
    moreover have "set (pqueue_drain k s' q') \<subseteq> set (pq_elems q)"
      using mset_eq_setD [of "pqueue_drain k s' q'" "pq_elems q'"] calculation(1)
        arg_cong [OF w(1), of set_mset] by auto
    ultimately show ?thesis using p Some w(1,8) by auto
  qed
qed simp

lemma subtree_valid_child:
  assumes v: "subtree_is_valid s q p" and q: "q_ops q = ops" and p: "1 \<le> p" "j div 2 = p" "j < q_size q"
  shows "le s (q_d q ! p) (q_d q ! j)" "subtree_is_valid s q j"
proof -
  have "j = left p \<or> j = right p" using p by (auto simp: left_def right_def)
  then show "le s (q_d q ! p) (q_d q ! j)" "subtree_is_valid s q j"
    using v [unfolded subtree_is_valid.simps [of s q p]] p q by (auto simp: le_def split: if_splits)
qed

lemma subtree_valid_all:
  "subtree_is_valid s q 1 \<Longrightarrow> q_ops q = ops \<Longrightarrow> 1 \<le> j \<Longrightarrow> j < q_size q \<Longrightarrow> subtree_is_valid s q j"
proof (induction j rule: less_induct)
  case (less j)
  show ?case
  proof (cases "j = 1")
    case False
    then have "subtree_is_valid s q (j div 2)" "1 \<le> j div 2" using less by auto
    then show ?thesis using subtree_valid_child(2) less.prems by blast
  qed (use less in simp)
qed

lemma heap_subtree_valid:
  "pq_heap s q \<Longrightarrow> q_ops q = ops \<Longrightarrow> 1 \<le> p \<Longrightarrow> subtree_is_valid s q p"
proof (induction "q_size q - p" arbitrary: p rule: less_induct)
  case less
  have ch: "\<not> cmppri ops (getpri ops s (q_d q ! p)) (getpri ops s (q_d q ! j)) \<and> subtree_is_valid s q j"
    if "j = left p \<or> j = right p" "j < q_size q" for j
  proof -
    have "2 \<le> j" "j div 2 = p" "p < j" using that less.prems by (auto simp: left_def right_def)
    then show ?thesis using less that(2) by (auto simp: pq_heap_def)
  qed
  show ?case
    using ch [of "left p"] ch [of "right p"] less.prems
    by (subst subtree_is_valid.simps) auto
qed

lemma valid_iff_heap: "q_ops q = ops \<Longrightarrow> pqueue_is_valid s q \<longleftrightarrow> pq_heap s q"
proof
  assume q: "q_ops q = ops" and v: "pqueue_is_valid s q"
  then have all: "subtree_is_valid s q j" if "1 \<le> j" "j < q_size q" for j
    using subtree_valid_all that by (simp add: pqueue_is_valid_def)
  show "pq_heap s q"
    unfolding pq_heap_iff [OF q] heap_def
  proof (intro allI impI)
    fix j
    assume j: "2 \<le> j \<and> j < q_size q"
    then have "1 \<le> j div 2" "j div 2 < q_size q" by auto
    then show "le s (q_d q ! (j div 2)) (q_d q ! j)"
      using subtree_valid_child(1) [OF all q] j by blast
  qed
qed (simp add: pqueue_is_valid_def heap_subtree_valid)

end

subsection \<open>The node interface\<close>

text \<open>The callbacks of a queue whose nodes record their position and priority: writing a field of
  a valid node is read back, and every other field of every node is unchanged.\<close>

locale pq_node = pq_order ops for ops :: "('s, 'e) pq_ops" +
  fixes valid :: "'s \<Rightarrow> 'e \<Rightarrow> bool" and pri_ok :: "u64 \<Rightarrow> bool"
  assumes getpos_setpos_same: "valid s a \<Longrightarrow> getpos ops (setpos ops s a n) a = n"
    and getpos_setpos_other: "a \<noteq> b \<Longrightarrow> getpos ops (setpos ops s a n) b = getpos ops s b"
    and valid_setpos [simp]: "valid (setpos ops s a n) b = valid s b"
    and getpri_setpri_same: "valid s a \<Longrightarrow> pri_ok v \<Longrightarrow> getpri ops (setpri ops s a v) a = v"
    and getpri_setpri_other: "a \<noteq> b \<Longrightarrow> getpri ops (setpri ops s a v) b = getpri ops s b"
    and getpos_setpri [simp]: "getpos ops (setpri ops s a v) b = getpos ops s b"
    and valid_setpri [simp]: "valid (setpri ops s a v) b = valid s b"
begin

definition pos_inv :: "'s \<Rightarrow> 'e list \<Rightarrow> nat \<Rightarrow> nat \<Rightarrow> bool" where
  "pos_inv s V n i \<longleftrightarrow> distinct (arr_slice V 1 n) \<and> (\<forall>x \<in> set (arr_slice V 1 n). valid s x) \<and>
     (\<forall>j. 1 \<le> j \<and> j < n \<and> j \<noteq> i \<longrightarrow> getpos ops s (V ! j) = j)"

lemma pos_inv_step:
  assumes inv: "pos_inv s V n i" and ic: "1 \<le> i" "i < n" "1 \<le> c" "c < n" "i \<noteq> c" "n \<le> length V"
  shows "pos_inv (setpos ops s (V ! c) i) (V[i := V ! c, c := V ! i]) n c"
proof -
  let ?V = "V[i := V ! c, c := V ! i]"
  have ms: "mset (arr_slice ?V 1 n) = mset (arr_slice V 1 n)"
    using ic by (intro mset_arr_slice_swap)
  have d: "distinct (arr_slice V 1 n)" using inv by (simp add: pos_inv_def)
  have inj: "V ! j = V ! k \<longleftrightarrow> j = k" if "1 \<le> j" "j < n" "1 \<le> k" "k < n" for j k
    by (rule distinct_arr_slice_nth [OF d ic(6) that])
  have "V ! c \<in> set (arr_slice V 1 n)" using ic by (auto simp: set_arr_slice)
  then have vc: "valid s (V ! c)" using inv by (simp add: pos_inv_def)
  have "getpos ops (setpos ops s (V ! c) i) (?V ! j) = j" if j: "1 \<le> j" "j < n" "j \<noteq> c" for j
  proof (cases "j = i")
    case True
    then show ?thesis using ic vc by (simp add: nth_list_update_if getpos_setpos_same)
  next
    case False
    then have "V ! c \<noteq> V ! j" using inj [of c j] ic j by auto
    then show ?thesis using False j ic inv
      by (simp add: nth_list_update_if getpos_setpos_other pos_inv_def)
  qed
  then show ?thesis
    using inv ms distinct_mset_eq [OF ms] mset_eq_setD [OF ms] by (auto simp: pos_inv_def)
qed

text \<open>What an operation leaves alone: priorities, validity, and the positions outside \<open>E\<close>.\<close>

definition framed :: "'s \<Rightarrow> 's \<Rightarrow> 'e set \<Rightarrow> bool" where
  "framed s s' E \<longleftrightarrow> (\<forall>b. getpri ops s' b = getpri ops s b \<and> valid s' b = valid s b \<and>
     (b \<notin> E \<longrightarrow> getpos ops s' b = getpos ops s b))"

definition loop_inv :: "'s \<Rightarrow> 'e list \<Rightarrow> nat \<Rightarrow> 's \<Rightarrow> 'e list \<Rightarrow> nat \<Rightarrow> bool" where
  "loop_inv s0 V0 n s V i \<longleftrightarrow> pos_inv s V n i \<and> framed s0 s (set (arr_slice V 1 n)) \<and>
     set (arr_slice V 1 n) = set (arr_slice V0 1 n)"

lemma loop_inv_start: "pos_inv s V n i \<Longrightarrow> loop_inv s V n s V i"
  by (simp add: loop_inv_def framed_def)

lemma loop_inv_step:
  assumes inv: "loop_inv s0 V0 n s V i"
    and ic: "1 \<le> i" "i < n" "1 \<le> c" "c < n" "i \<noteq> c" "n \<le> length V"
  shows "loop_inv s0 V0 n (setpos ops s (V ! c) i) (V[i := V ! c, c := V ! i]) c"
proof -
  have ms: "set (arr_slice (V[i := V ! c, c := V ! i]) 1 n) = set (arr_slice V 1 n)"
    using ic by (intro mset_eq_setD mset_arr_slice_swap)
  have "V ! c \<in> set (arr_slice V 1 n)" using ic by (auto simp: set_arr_slice)
  then show ?thesis
    using inv pos_inv_step [OF _ ic, of s] ms getpos_setpos_other [of "V ! c" _ s i]
    by (auto simp: loop_inv_def framed_def) metis
qed

text \<open>Writing the moving node's position ends the loop.\<close>

lemma loop_inv_settle:
  assumes inv: "loop_inv s0 V0 n s V i" and m: "valid s0 m" and n: "1 \<le> i" "n \<le> length V"
    and place: "i < n \<and> V ! i = m \<or> n \<le> i \<and> m \<notin> set (arr_slice V0 1 n)"
  shows "pos_inv (setpos ops s m i) V n n" "framed s0 (setpos ops s m i) (insert m (set (arr_slice V0 1 n)))"
proof -
  have p: "pos_inv s V n i" and fr: "framed s0 s (set (arr_slice V0 1 n))"
    and st: "set (arr_slice V 1 n) = set (arr_slice V0 1 n)"
    using inv by (auto simp: loop_inv_def)
  have vm: "valid s m" using fr m by (simp add: framed_def)
  have "getpos ops (setpos ops s m i) (V ! j) = j" if j: "1 \<le> j" "j < n" for j
  proof (cases "V ! j = m")
    case True
    have "V ! j \<in> set (arr_slice V 1 n)" using j n by (auto simp: set_arr_slice)
    then have "i < n \<and> V ! i = m" using True place st by auto
    then have "i = j"
      using True j n p distinct_arr_slice_nth [of V 1 n i j] by (auto simp: pos_inv_def)
    then show ?thesis using True vm by (simp add: getpos_setpos_same)
  next
    case False
    then have "getpos ops (setpos ops s m i) (V ! j) = getpos ops s (V ! j)" 
      by (intro getpos_setpos_other) simp
    moreover have "j \<noteq> i" using False place j by auto
    ultimately show ?thesis using j p by (simp add: pos_inv_def)
  qed
  then show "pos_inv (setpos ops s m i) V n n"
    using p by (simp add: pos_inv_def)
  show "framed s0 (setpos ops s m i) (insert m (set (arr_slice V0 1 n)))"
    using fr getpos_setpos_other by (auto simp: framed_def)
qed

text \<open>The result of a sift on a queue, in terms of the array before it.\<close>

definition sift_ok :: "'s \<Rightarrow> ('s, 'e) pqueue \<Rightarrow> 'e \<Rightarrow> 's \<Rightarrow> ('s, 'e) pqueue \<Rightarrow> bool" where
  "sift_ok s q m s' q' \<longleftrightarrow>
     q_size q' = q_size q \<and> q_avail q' = q_avail q \<and> q_step q' = q_step q \<and> q_ops q' = q_ops q \<and>
     length (q_d q') = length (q_d q) \<and>
     mset (pq_elems q') = mset (pq_elems q) \<and> pq_heap s' q' \<and> pq_pos s' q' \<and>
     framed s s' (insert m (set (pq_elems q)))"

lemma bubble_up_sift:
  assumes q: "q_ops q = ops" and i: "1 \<le> i" "i < q_size q" "q_size q \<le> length (q_d q)"
    and up: "up_inv s (q_d q) (q_size q) i" and pos: "pos_inv s (q_d q) (q_size q) i"
    and eq: "bubble_up s q i = (s', q')"
  shows "sift_ok s q (q_d q ! i) s' q'"
proof -
  let ?m = "q_d q ! i" and ?n = "q_size q"
  obtain s1 d1 i1 where l: "bubble_up_loop ops s (q_d q) i (getpri ops s ?m) = (s1, d1, i1)"
    by (cases "bubble_up_loop ops s (q_d q) i (getpri ops s ?m)") auto
  have r: "s' = setpos ops s1 ?m i1" "q' = q\<lparr>q_d := d1[i1 := ?m]\<rparr>"
    using eq l q by (auto simp: bubble_up_def Let_def)
  have V: "(q_d q)[i := ?m] = q_d q" by simp
  note h = bubble_up_loop_spec [OF l i, unfolded V, OF up]
  have "loop_inv s (q_d q) ?n s1 (d1[i1 := ?m]) i1"
    by (rule bubble_up_loop_rule [OF l i, where P = "loop_inv s (q_d q) ?n"])
      (use pos loop_inv_start loop_inv_step in auto)
  moreover have "valid s ?m" using pos i by (auto simp: pos_inv_def set_arr_slice)
  moreover have "i1 < ?n \<and> d1[i1 := ?m] ! i1 = ?m" "1 \<le> i1" "?n \<le> length (d1[i1 := ?m])"
    using h i by auto
  ultimately have st: "pos_inv s' (d1[i1 := ?m]) ?n ?n"
    "framed s s' (insert ?m (set (arr_slice (q_d q) 1 ?n)))"
    unfolding r(1) using loop_inv_settle [where m = ?m and i = i1] by blast+
  have "heap s' (d1[i1 := ?m]) ?n = heap s (d1[i1 := ?m]) ?n"
    using h by (intro heap_cong_pri) (simp add: r)
  then show ?thesis
    using h st q
    by (simp add: sift_ok_def r pq_heap_iff pq_elems_def pq_pos_def pos_inv_def)
qed

lemma percolate_down_sift:
  assumes q: "q_ops q = ops" and i: "1 \<le> i" "i \<le> q_size q" "i < length (q_d q)" "q_size q \<le> length (q_d q)"
    and down: "down_inv s (q_d q) (q_size q) i" and pos: "pos_inv s (q_d q) (q_size q) i"
    and vm: "valid s (q_d q ! i)"
    and last: "i = q_size q \<Longrightarrow> q_d q ! i \<notin> set (pq_elems q)"
    and eq: "percolate_down s q i = (s', q')"
  shows "sift_ok s q (q_d q ! i) s' q'"
proof -
  let ?m = "q_d q ! i" and ?n = "q_size q"
  obtain s1 d1 i1 where l: "percolate_down_loop ops s (q_d q) ?n i (getpri ops s ?m) = (s1, d1, i1)"
    by (cases "percolate_down_loop ops s (q_d q) ?n i (getpri ops s ?m)") auto
  have r: "s' = setpos ops s1 ?m i1" "q' = q\<lparr>q_d := d1[i1 := ?m]\<rparr>"
    using eq l q by (auto simp: percolate_down_def Let_def)
  have V: "(q_d q)[i := ?m] = q_d q" by simp
  note h = percolate_down_loop_spec [OF l i, unfolded V, OF down]
  have inv: "loop_inv s (q_d q) ?n s1 (d1[i1 := ?m]) i1"
    by (rule percolate_down_loop_rule [OF l i(1,4), where P = "loop_inv s (q_d q) ?n"])
      (use pos loop_inv_start loop_inv_step in auto)
  have "i1 < ?n \<and> d1[i1 := ?m] ! i1 = ?m \<or> ?n \<le> i1 \<and> ?m \<notin> set (arr_slice (q_d q) 1 ?n)"
    using h i last by (cases "i = ?n") (auto simp: pq_elems_def)
  moreover have "1 \<le> i1" "?n \<le> length (d1[i1 := ?m])"
    using h i by auto
  ultimately have st: "pos_inv s' (d1[i1 := ?m]) ?n ?n"
    "framed s s' (insert ?m (set (arr_slice (q_d q) 1 ?n)))"
    unfolding r(1) using inv vm loop_inv_settle [where m = ?m and i = i1] by blast+
  have "heap s' (d1[i1 := ?m]) ?n = heap s (d1[i1 := ?m]) ?n"
    using h by (intro heap_cong_pri) (simp add: r)
  then show ?thesis
    using h st q
    by (simp add: sift_ok_def r pq_heap_iff pq_elems_def pq_pos_def pos_inv_def)
qed

text \<open>The contract of each operation on a well-formed queue.\<close>

lemma wf_pos_inv: "pq_wf valid s q \<Longrightarrow> q_ops q = ops \<Longrightarrow> pos_inv s (q_d q) (q_size q) i"
  by (simp add: pq_wf_def pq_pos_def pos_inv_def pq_elems_def)

lemma sift_ok_wf:
  assumes "sift_ok s q m s' q'" "pq_shape q" "\<forall>x \<in> set (pq_elems q). valid s x"
  shows "pq_wf valid s' q'" "mset (pq_elems q') = mset (pq_elems q)" "q_ops q' = q_ops q"
    "framed s s' (insert m (set (pq_elems q)))"
  using assms mset_eq_setD [of "pq_elems q'" "pq_elems q"]
  by (auto simp: sift_ok_def pq_wf_def pq_shape_def framed_def)

lemma elems_append:
  assumes "1 \<le> q_size q" "q_size q < length (q_d q)"
  shows "pq_elems (q\<lparr>q_size := q_size q + 1, q_d := (q_d q)[q_size q := e]\<rparr>) = pq_elems q @ [e]"
  using assms by (simp add: pq_elems_def arr_slice_Suc)

lemma insert_room:
  assumes wf: "pq_wf valid s q" and q: "q_ops q = ops" and e: "valid s e" "e \<notin> set (pq_elems q)"
    and room: "q_size q < q_avail q"
    and eq: "bubble_up s (q\<lparr>q_size := q_size q + 1, q_d := (q_d q)[q_size q := e]\<rparr>) (q_size q) = (s', q')"
  shows "pq_wf valid s' q'" "mset (pq_elems q') = add_mset e (mset (pq_elems q))" "q_ops q' = ops"
    "framed s s' (insert e (set (pq_elems q)))"
proof -
  let ?n = "q_size q"
  let ?q = "q\<lparr>q_size := ?n + 1, q_d := (q_d q)[?n := e]\<rparr>"
  have n: "1 \<le> ?n" "?n < length (q_d q)" "pq_shape ?q"
    using wf room by (auto simp: pq_wf_def pq_shape_def)
  note el = elems_append [OF n(1,2), of e]
  have "heap s (q_d q) ?n" using wf q by (simp add: pq_wf_def pq_heap_iff)
  then have up: "up_inv s (q_d ?q) (q_size ?q) ?n"
    using n by (auto simp: up_inv_def heap_def nth_list_update_if less_Suc_eq)
  have pos: "pos_inv s (q_d ?q) (q_size ?q) ?n"
    using el e wf q n by (auto simp: pos_inv_def pq_wf_def pq_pos_def pq_elems_def less_Suc_eq)
  have "sift_ok s ?q (q_d ?q ! ?n) s' q'"
    by (rule bubble_up_sift [OF _ n(1) _ _ up pos eq]) (use n q in simp_all)
  then have sf: "sift_ok s ?q e s' q'" using n by simp
  have v: "\<forall>x \<in> set (pq_elems ?q). valid s x"
    using el e wf by (auto simp: pq_wf_def)
  show "pq_wf valid s' q'" "mset (pq_elems q') = add_mset e (mset (pq_elems q))" "q_ops q' = ops"
    "framed s s' (insert e (set (pq_elems q)))"
    using sift_ok_wf [OF sf n(3) v] el q by simp_all
qed

lemma insert_wf:
  assumes wf: "pq_wf valid s q" and q: "q_ops q = ops" and e: "valid s e" "e \<notin> set (pq_elems q)"
    and room: "q_size q < q_avail q \<or> realloc_ok"
    and eq: "pqueue_insert realloc_ok junk s q e = (r, s', q')"
  shows "r = 0" "pq_wf valid s' q'" "mset (pq_elems q') = add_mset e (mset (pq_elems q))" "q_ops q' = ops"
    "framed s s' (insert e (set (pq_elems q)))"
proof -
  define q1 where "q1 = (if q_avail q \<le> q_size q
    then q\<lparr>q_d := q_d q @ replicate (q_size q + q_step q - q_avail q) junk, q_avail := q_size q + q_step q\<rparr>
    else q)"
  have sh: "pq_shape q" using wf by (simp add: pq_wf_def)
  have n: "q_size q1 = q_size q" "q_ops q1 = ops" "q_size q1 < q_avail q1"
    using sh q by (auto simp: q1_def pq_shape_def)
  have nth: "q_d q1 ! j = q_d q ! j" if "j < q_size q" for j
    using sh that by (auto simp: q1_def pq_shape_def nth_append)
  have "pq_elems q1 = pq_elems q"
    using sh by (auto simp: pq_elems_def q1_def pq_shape_def arr_slice_def)
  moreover have "pq_shape q1" using sh by (auto simp: pq_shape_def q1_def)
  moreover have "heap s (q_d q1) (q_size q) = heap s (q_d q) (q_size q)"
    using nth by (auto simp: heap_def)
  ultimately have wf1: "pq_wf valid s q1" "pq_elems q1 = pq_elems q"
    using wf n(1,2) q nth by (auto simp: pq_wf_def pq_pos_def pq_heap_iff)
  have "r = 0" "bubble_up s (q1\<lparr>q_size := q_size q1 + 1, q_d := (q_d q1)[q_size q1 := e]\<rparr>) (q_size q1) = (s', q')"
    using eq room by (auto simp: pqueue_insert_def Let_def q1_def split: if_splits prod.splits)
  with insert_room [OF wf1(1) n(2) e(1) _ n(3)] wf1(2) e(2)
  show "r = 0" "pq_wf valid s' q'" "mset (pq_elems q') = add_mset e (mset (pq_elems q))" "q_ops q' = ops"
    "framed s s' (insert e (set (pq_elems q)))" by simp_all
qed

lemma drop_last_pos_inv:
  assumes wf: "pq_wf valid s q" and q: "q_ops q = ops" and k: "1 \<le> k" "k < q_size q"
  shows "pos_inv s ((q_d q)[k := q_d q ! (q_size q - 1)]) (q_size q - 1) k"
    and "q_d q ! k \<notin> set (pq_elems (drop_last_into q k))"
    and "\<forall>x \<in> set (pq_elems (drop_last_into q k)). valid s x"
proof -
  have n: "q_size q \<le> length (q_d q)" using wf by (simp add: pq_wf_def pq_shape_def)
  note ms = elems_drop_last [OF k n]
  have "distinct (q_d q ! k # pq_elems (drop_last_into q k))"
    using wf distinct_mset_eq [of "pq_elems q" "q_d q ! k # pq_elems (drop_last_into q k)"] ms
    by (simp add: pq_wf_def pq_pos_def)
  moreover have "\<forall>x \<in> set (pq_elems (drop_last_into q k)). valid s x"
    using wf arg_cong [OF ms, of set_mset] by (simp add: pq_wf_def)
  ultimately show "pos_inv s ((q_d q)[k := q_d q ! (q_size q - 1)]) (q_size q - 1) k"
    "q_d q ! k \<notin> set (pq_elems (drop_last_into q k))"
    "\<forall>x \<in> set (pq_elems (drop_last_into q k)). valid s x"
    using wf q by (auto simp: pos_inv_def pq_elems_def pq_wf_def pq_pos_def)
qed

text \<open>Sifting the last node from the slot of the removed node \<open>q_d q ! k\<close>.\<close>

lemma remove_sift:
  assumes wf: "pq_wf valid s q" and q: "q_ops q = ops" and k: "1 \<le> k" "k < q_size q"
    and last: "m = q_d q ! (q_size q - 1)"
    and eq: "(if \<not> le s (q_d q ! k) m then bubble_up s (drop_last_into q k) k
              else percolate_down s (drop_last_into q k) k) = (s', q')"
  shows "pq_wf valid s' q'" "add_mset (q_d q ! k) (mset (pq_elems q')) = mset (pq_elems q)" "q_ops q' = ops"
    "framed s s' (set (pq_elems q))"
proof -
  let ?q = "drop_last_into q k" and ?n = "q_size q - 1"
  have n: "q_size q \<le> length (q_d q)" "pq_shape ?q"
    using wf k by (auto simp: pq_wf_def pq_shape_def)
  have h: "heap s (q_d q) (q_size q)" using wf q by (simp add: pq_wf_def pq_heap_iff)
  have inq: "q_d q ! j \<in> set (pq_elems q)" if "1 \<le> j" "j < q_size q" for j
    using that n by (auto simp: pq_elems_def set_arr_slice)
  have dk: "q_d ?q ! k = m" using k n last by simp
  have "sift_ok s ?q m s' q'"
  proof (cases "le s (q_d q ! k) m")
    case False
    then have kn: "k < ?n" using k last by (cases "k = ?n") auto
    have "sift_ok s ?q (q_d ?q ! k) s' q'"
    proof (rule bubble_up_sift)
      show "up_inv s (q_d ?q) (q_size ?q) k"
        using drop_last_up_inv [OF h k(1) kn n(1) le_linear] False last by simp
      show "pos_inv s (q_d ?q) (q_size ?q) k"
        using drop_last_pos_inv(1) [OF wf q k] by simp
      show "bubble_up s ?q k = (s', q')" using eq False by simp
    qed (use kn k n q in simp_all)
    then show ?thesis using dk by simp
  next
    case True
    have "sift_ok s ?q (q_d ?q ! k) s' q'"
    proof (rule percolate_down_sift)
      show "down_inv s (q_d ?q) (q_size ?q) k"
        using drop_last_down_inv [OF h k n(1)] True last by simp
      show "pos_inv s (q_d ?q) (q_size ?q) k"
        using drop_last_pos_inv(1) [OF wf q k] by simp
      show "valid s (q_d ?q ! k)" using wf inq [of ?n] k dk last by (simp add: pq_wf_def)
      show "q_d ?q ! k \<notin> set (pq_elems ?q)" if "k = q_size ?q"
        using drop_last_pos_inv(2) [OF wf q k] that dk last by simp
      show "percolate_down s ?q k = (s', q')" using eq True by simp
    qed (use k n q in simp_all)
    then show ?thesis using dk by simp
  qed
  note w = sift_ok_wf [OF this n(2) drop_last_pos_inv(3) [OF wf q k]]
  note ms = elems_drop_last [OF k n(1)]
  show "pq_wf valid s' q'" "add_mset (q_d q ! k) (mset (pq_elems q')) = mset (pq_elems q)" "q_ops q' = ops"
    using w(1-3) ms q by simp_all
  have "insert m (set (pq_elems ?q)) \<subseteq> set (pq_elems q)"
    using inq [of ?n] k last arg_cong [OF ms, of set_mset] by auto
  then show "framed s s' (set (pq_elems q))"
    using w(4) by (auto simp: framed_def)
qed

lemma remove_wf:
  assumes wf: "pq_wf valid s q" and q: "q_ops q = ops" and e: "e \<in> set (pq_elems q)"
    and eq: "pqueue_remove s q e = (r, s', q')"
  shows "r = 0" "pq_wf valid s' q'" "add_mset e (mset (pq_elems q')) = mset (pq_elems q)" "q_ops q' = ops"
    "framed s s' (set (pq_elems q))"
proof -
  obtain k where k: "1 \<le> k" "k < q_size q" "q_d q ! k = e"
    using e wf by (auto simp: pq_elems_def set_arr_slice pq_wf_def pq_shape_def)
  then have pos: "getpos ops s e = k" using wf q by (auto simp: pq_wf_def pq_pos_def)
  have kl: "k < length (q_d q)" using k wf by (simp add: pq_wf_def pq_shape_def)
  let ?m = "q_d q ! (q_size q - 1)"
  have "r = 0" and r: "(if \<not> le s (q_d q ! k) ?m then bubble_up s (drop_last_into q k) k
      else percolate_down s (drop_last_into q k) k) = (s', q')"
    using eq q pos k(3) kl by (auto simp: pqueue_remove_def Let_def le_def split: prod.splits if_splits)
  then show "r = 0" "pq_wf valid s' q'" "add_mset e (mset (pq_elems q')) = mset (pq_elems q)"
    "q_ops q' = ops" "framed s s' (set (pq_elems q))"
    using remove_sift [OF wf q k(1,2) refl r] k(3) by simp_all
qed

lemma pop_wf:
  assumes wf: "pq_wf valid s q" and q: "q_ops q = ops" and eq: "pqueue_pop s q = (Some e, s', q')"
  shows "pq_wf valid s' q'" "add_mset e (mset (pq_elems q')) = mset (pq_elems q)" "q_ops q' = ops"
    "framed s s' (set (pq_elems q))" "\<forall>x \<in> set (pq_elems q). le s e x"
proof -
  have n1: "q_size q \<noteq> 1" using eq by (auto simp: pqueue_pop_def)
  then have n: "1 \<le> (1::nat)" "1 < q_size q" "q_size q \<le> length (q_d q)"
    using wf by (auto simp: pq_wf_def pq_shape_def)
  have h: "heap s (q_d q) (q_size q)" using wf q by (simp add: pq_wf_def pq_heap_iff)
  have least: "le s (q_d q ! 1) (q_d q ! j)" if "1 \<le> j" "j < q_size q" for j
    using heap_root [OF h that] .
  have e: "e = q_d q ! 1" and r: "percolate_down s (drop_last_into q 1) 1 = (s', q')"
    using eq n1 by (auto simp: pqueue_pop_def Let_def split: prod.splits)
  have "(if \<not> le s (q_d q ! 1) (q_d q ! (q_size q - 1)) then bubble_up s (drop_last_into q 1) 1
      else percolate_down s (drop_last_into q 1) 1) = (s', q')"
    using r least [of "q_size q - 1"] n by simp
  from remove_sift [OF wf q n(1,2) refl this] e
  show "pq_wf valid s' q'" "add_mset e (mset (pq_elems q')) = mset (pq_elems q)" "q_ops q' = ops"
    "framed s s' (set (pq_elems q))" by simp_all
  show "\<forall>x \<in> set (pq_elems q). le s e x"
    using least e n by (auto simp: pq_elems_def set_arr_slice)
qed

lemma change_priority_wf:
  assumes wf: "pq_wf valid s q" and q: "q_ops q = ops" and e: "e \<in> set (pq_elems q)" and v: "pri_ok v"
    and eq: "pqueue_change_priority s q v e = (s', q')"
  shows "pq_wf valid s' q'" "mset (pq_elems q') = mset (pq_elems q)" "q_ops q' = ops"
    "framed (setpri ops s e v) s' (set (pq_elems q))"
proof -
  let ?s = "setpri ops s e v" and ?n = "q_size q" and ?d = "q_d q"
  obtain k where k: "1 \<le> k" "k < ?n" "?d ! k = e"
    using e wf by (auto simp: pq_elems_def set_arr_slice pq_wf_def pq_shape_def)
  have ve: "valid s e" using e wf by (simp add: pq_wf_def)
  have pos: "getpos ops ?s e = k" using k wf q by (auto simp: pq_wf_def pq_pos_def)
  have n: "?n \<le> length ?d" using wf by (simp add: pq_wf_def pq_shape_def)
  have h: "le s (?d ! (j div 2)) (?d ! j)" if "2 \<le> j" "j < ?n" for j
    using wf q that by (simp add: pq_wf_def pq_heap_iff heap_def)
  have dis: "distinct (arr_slice ?d 1 ?n)" using wf by (simp add: pq_wf_def pq_pos_def pq_elems_def)
  have ne: "?d ! j \<noteq> e" if "1 \<le> j" "j < ?n" "j \<noteq> k" for j
    using distinct_arr_slice_nth [OF dis n that(1,2) k(1,2)] that k(3) by auto
  have pri: "getpri ops ?s (?d ! j) = (if j = k then v else getpri ops s (?d ! j))"
    if "1 \<le> j" "j < ?n" for j
    using that ne [of j] k(3) ve v getpri_setpri_other [of e "?d ! j" s v]
    by (auto simp: getpri_setpri_same)
  have prie: "getpri ops ?s e = v" using ve v by (rule getpri_setpri_same)
  have up: "le ?s (?d ! (k div 2)) (?d ! j)" if "1 < k" "j < ?n" "j div 2 = k" for j
  proof -
    have j2: "2 \<le> j" using that by auto
    have "le s (?d ! (k div 2)) (?d ! k)" using h [of k] that(1) k(2) by simp
    moreover have "le s (?d ! k) (?d ! j)" using h [OF j2 that(2)] that(3) by simp
    ultimately have "le s (?d ! (k div 2)) (?d ! j)" by (rule le_trans)
    moreover have "k div 2 \<noteq> k" "j \<noteq> k" "1 \<le> k div 2" "k div 2 < ?n" "1 \<le> j" using that k by auto
    ultimately show ?thesis using that(2) pri by (simp add: le_def)
  qed
  have far: "le ?s (?d ! (j div 2)) (?d ! j)" if "2 \<le> j" "j < ?n" "j \<noteq> k" "j div 2 \<noteq> k" for j
  proof -
    have "1 \<le> j div 2" "j div 2 < ?n" "1 \<le> j" using that by auto
    then show ?thesis using that pri h [of j] by (simp add: le_def)
  qed
  have pin: "pos_inv ?s ?d ?n k"
    using wf_pos_inv [OF wf q, of k] by (simp add: pos_inv_def)
  have "sift_ok ?s q (?d ! k) s' q'"
  proof (cases "cmppri ops (getpri ops s e) v")
    case True
    have below: "le ?s (?d ! k) (?d ! j)" if "2 \<le> j" "j < ?n" "j div 2 = k" for j
    proof -
      have "j \<noteq> k" "1 \<le> j" using that k by auto
      moreover have "\<not> cmppri ops (getpri ops s e) (getpri ops s (?d ! j))"
        using h [of j] that k by (simp add: le_def)
      ultimately show ?thesis
        using that(2) k pri prie cmp_trans [OF cmp_asym [OF True]] by (simp add: le_def)
    qed
    have "up_inv ?s ?d ?n k"
      unfolding up_inv_def using up far below by metis
    then show ?thesis
      using eq True q pos by (intro bubble_up_sift [OF q k(1,2) n _ pin])
        (simp_all add: pqueue_change_priority_def Let_def)
  next
    case False
    have above: "le ?s (?d ! (k div 2)) (?d ! k)" if "2 \<le> k"
    proof -
      have "k div 2 \<noteq> k" "1 \<le> k div 2" "k div 2 < ?n" using that k by auto
      moreover have "\<not> cmppri ops (getpri ops s (?d ! (k div 2))) (getpri ops s e)"
        using h [of k] that k by (simp add: le_def)
      ultimately show ?thesis
        using k pri prie cmp_trans [OF _ False] by (simp add: le_def)
    qed
    have "down_inv ?s ?d ?n k"
      unfolding down_inv_def using up far above by metis
    then show ?thesis
      using eq False q pos k n ve by (intro percolate_down_sift [OF q k(1) _ _ n _ pin])
        (simp_all add: pqueue_change_priority_def Let_def)
  qed
  moreover have "pq_shape q" "\<forall>x \<in> set (pq_elems q). valid ?s x"
    using wf by (simp_all add: pq_wf_def)
  ultimately show "pq_wf valid s' q'" "mset (pq_elems q') = mset (pq_elems q)" "q_ops q' = ops"
    "framed ?s s' (set (pq_elems q))"
    using sift_ok_wf [of ?s q "?d ! k" s' q'] q k(3) e by (simp_all add: insert_absorb)
qed

end

subsection \<open>What the queue writes\<close>

text \<open>Whatever the position callback preserves, the heap operations preserve.\<close>

lemma bubble_up_loop_store:
  "(\<And>s a n. P s \<Longrightarrow> P (setpos ops s a n)) \<Longrightarrow> P s \<Longrightarrow> P (fst (bubble_up_loop ops s d i v))"
  by (induction ops s d i v rule: bubble_up_loop.induct) (subst bubble_up_loop.simps, simp add: Let_def)

lemma percolate_down_loop_store:
  "(\<And>s a n. P s \<Longrightarrow> P (setpos ops s a n)) \<Longrightarrow> P s \<Longrightarrow> P (fst (percolate_down_loop ops s d n i v))"
  by (induction ops s d n i v rule: percolate_down_loop.induct) (subst percolate_down_loop.simps, simp add: Let_def)

lemma bubble_up_store:
  "(\<And>s a n. P s \<Longrightarrow> P (setpos ops s a n)) \<Longrightarrow> q_ops q = ops \<Longrightarrow> P s \<Longrightarrow> P (fst (bubble_up s q i))"
  by (simp add: bubble_up_def Let_def split_beta bubble_up_loop_store)

lemma percolate_down_store:
  "(\<And>s a n. P s \<Longrightarrow> P (setpos ops s a n)) \<Longrightarrow> q_ops q = ops \<Longrightarrow> P s \<Longrightarrow> P (fst (percolate_down s q i))"
  by (simp add: percolate_down_def Let_def split_beta percolate_down_loop_store)

lemma pqueue_insert_store:
  assumes "\<And>s a n. P s \<Longrightarrow> P (setpos (q_ops q) s a n)" "P s"
  shows "P (fst (snd (pqueue_insert realloc_ok junk s q e)))"
proof -
  have "P (fst (bubble_up s q2 i))" if "q_ops q2 = q_ops q" for q2 i by (rule bubble_up_store [OF assms(1) that assms(2)])
  then show ?thesis using assms(2) by (simp add: pqueue_insert_def Let_def split_beta)
qed

lemma pqueue_pop_store:
  assumes "\<And>s a n. P s \<Longrightarrow> P (setpos (q_ops q) s a n)" "P s"
  shows "P (fst (snd (pqueue_pop s q)))"
proof -
  have "P (fst (percolate_down s q2 i))" if "q_ops q2 = q_ops q" for q2 i
    by (rule percolate_down_store [OF assms(1) that assms(2)])
  then show ?thesis using assms(2) by (simp add: pqueue_pop_def Let_def split_beta)
qed

lemma pqueue_change_priority_store:
  assumes "\<And>s a n. P s \<Longrightarrow> P (setpos (q_ops q) s a n)" "P (setpri (q_ops q) s e v)"
  shows "P (fst (pqueue_change_priority s q v e))"
  using bubble_up_store [OF assms(1) refl assms(2)] percolate_down_store [OF assms(1) refl assms(2)]
  by (simp add: pqueue_change_priority_def Let_def)

end
