(* ===== verification/Ftl.thy ===== *)
theory Ftl
  imports Pqueue Nvme_Types Complex_Main
begin

text \<open>
  The page-level flash translation layer of \<open>femu/bbssd/ftl.c\<close> and \<open>ftl.h\<close>: the flash geometry
  with its page, block and line counters, the mapping and reverse mapping tables, the write
  pointer that stripes pages over channels and LUNs, the free, full and victim line sets, garbage
  collection and the read and write paths.  C \<open>int\<close>s are \<open>int\<close>, times are \<open>u64\<close>; pointers to lines
  are line numbers.  \<open>abort()\<close> is the value \<open>None\<close>, allocation succeeds, and \<open>ftl_assert\<close> is empty as
  in the build.  The clock is the argument \<open>rt\<close>, read once per untimed NAND command.
\<close>

subsection \<open>Physical page addresses\<close>

record ppa =
  g_blk :: "16 word"
  g_pg :: "16 word"
  g_sec :: "8 word"
  g_pl :: "8 word"
  g_lun :: "8 word"
  g_ch :: "7 word"
  g_rsv :: "1 word"

text \<open>The other view of the union: the bit fields as one 64-bit word, and back.\<close>

definition ppa_raw :: "ppa \<Rightarrow> u64" where
  "ppa_raw p =
     ucast (g_blk p) OR push_bit 16 (ucast (g_pg p)) OR push_bit 32 (ucast (g_sec p)) OR
     push_bit 40 (ucast (g_pl p)) OR push_bit 48 (ucast (g_lun p)) OR
     push_bit 56 (ucast (g_ch p)) OR push_bit 63 (ucast (g_rsv p))"

definition ppa_of_raw :: "u64 \<Rightarrow> ppa" where
  "ppa_of_raw w =
     \<lparr>g_blk = ucast w, g_pg = ucast (drop_bit 16 w), g_sec = ucast (drop_bit 32 w),
      g_pl = ucast (drop_bit 40 w), g_lun = ucast (drop_bit 48 w), g_ch = ucast (drop_bit 56 w),
      g_rsv = ucast (drop_bit 63 w)\<rparr>"

definition UNMAPPED_PPA :: u64 where "UNMAPPED_PPA = NOT 0"
definition INVALID_LPN :: u64 where "INVALID_LPN = NOT 0"

subsection \<open>Flash state\<close>

definition NAND_READ :: int where "NAND_READ = 0"
definition NAND_WRITE :: int where "NAND_WRITE = 1"
definition NAND_ERASE :: int where "NAND_ERASE = 2"
definition NAND_READ_LATENCY :: int where "NAND_READ_LATENCY = 40000"
definition NAND_PROG_LATENCY :: int where "NAND_PROG_LATENCY = 200000"
definition NAND_ERASE_LATENCY :: int where "NAND_ERASE_LATENCY = 2000000"
definition USER_IO :: int where "USER_IO = 0"
definition GC_IO :: int where "GC_IO = 1"

datatype sec_status = SEC_FREE | SEC_INVALID | SEC_VALID
datatype pg_status = PG_FREE | PG_INVALID | PG_VALID

record nand_page =
  pg_sec :: "sec_status list"
  pg_nsecs :: int
  pg_status :: pg_status

record nand_block =
  blk_pg :: "nand_page list"
  blk_npgs :: int
  blk_ipc :: int
  blk_vpc :: int
  blk_erase_cnt :: int
  blk_wp :: int

record nand_plane =
  pl_blk :: "nand_block list"
  pl_nblks :: int

record nand_lun =
  lun_pl :: "nand_plane list"
  lun_npls :: int
  next_lun_avail_time :: u64
  lun_busy :: bool
  lun_gc_endtime :: u64

record ssd_channel =
  ch_lun :: "nand_lun list"
  ch_nluns :: int
  next_ch_avail_time :: u64
  ch_busy :: bool
  ch_gc_endtime :: u64

record ssdparams =
  secsz :: int
  secs_per_pg :: int
  pgs_per_blk :: int
  blks_per_pl :: int
  pls_per_lun :: int
  luns_per_ch :: int
  nchs :: int
  pg_rd_lat :: int
  pg_wr_lat :: int
  blk_er_lat :: int
  ch_xfer_lat :: int
  gc_thres_pcent :: rat
  gc_thres_lines :: int
  gc_thres_pcent_high :: rat
  gc_thres_lines_high :: int
  enable_gc_delay :: bool
  secs_per_blk :: int
  secs_per_pl :: int
  secs_per_lun :: int
  secs_per_ch :: int
  tt_secs :: int
  pgs_per_pl :: int
  pgs_per_lun :: int
  pgs_per_ch :: int
  tt_pgs :: int
  blks_per_lun :: int
  blks_per_ch :: int
  tt_blks :: int
  secs_per_line :: int
  pgs_per_line :: int
  blks_per_line :: int
  tt_lines :: int
  pls_per_ch :: int
  tt_pls :: int
  tt_luns :: int

record line =
  line_id :: int
  line_ipc :: int
  line_vpc :: int
  line_pos :: nat

record write_pointer =
  wp_curline :: "nat option"
  wp_ch :: int
  wp_lun :: int
  wp_pg :: int
  wp_blk :: int
  wp_pl :: int

record line_mgmt =
  lm_lines :: "line list"
  free_line_list :: "nat list"
  victim_line_pq :: "(line list, nat) pqueue"
  full_line_list :: "nat list"
  lm_tt_lines :: int
  free_line_cnt :: int
  victim_line_cnt :: int
  full_line_cnt :: int

record nand_cmd =
  nc_type :: int
  nc_cmd :: int
  nc_stime :: u64

text \<open>\<open>clk_reads\<close> counts the readings of the real-time clock so far; it is not in the C structure.\<close>

record ssd =
  ssd_sp :: ssdparams
  ssd_ch :: "ssd_channel list"
  ssd_maptbl :: "ppa list"
  ssd_rmap :: "u64 list"
  ssd_wp :: write_pointer
  ssd_lm :: line_mgmt
  clk_reads :: nat

subsection \<open>Victim lines in the priority queue\<close>

definition victim_line_cmp_pri :: "u64 \<Rightarrow> u64 \<Rightarrow> bool" where
  "victim_line_cmp_pri nxt cur \<longleftrightarrow> nxt > cur"

definition victim_line_get_pri :: "line list \<Rightarrow> nat \<Rightarrow> u64" where
  "victim_line_get_pri ls a = u64_of_c_int (line_vpc (ls ! a))"

definition victim_line_set_pri :: "line list \<Rightarrow> nat \<Rightarrow> u64 \<Rightarrow> line list" where
  "victim_line_set_pri ls a pri = ls[a := (ls ! a)\<lparr>line_vpc := c_int_of_u64 pri\<rparr>]"

definition victim_line_get_pos :: "line list \<Rightarrow> nat \<Rightarrow> nat" where
  "victim_line_get_pos ls a = line_pos (ls ! a)"

definition victim_line_set_pos :: "line list \<Rightarrow> nat \<Rightarrow> nat \<Rightarrow> line list" where
  "victim_line_set_pos ls a pos = ls[a := (ls ! a)\<lparr>line_pos := pos\<rparr>]"

definition victim_ops :: "(line list, nat) pq_ops" where
  "victim_ops = \<lparr>cmppri = victim_line_cmp_pri, getpri = victim_line_get_pri,
     setpri = victim_line_set_pri, getpos = victim_line_get_pos, setpos = victim_line_set_pos\<rparr>"

subsection \<open>Mapping tables\<close>

definition should_gc :: "ssd \<Rightarrow> bool" where
  "should_gc s \<longleftrightarrow> free_line_cnt (ssd_lm s) \<le> gc_thres_lines (ssd_sp s)"

definition should_gc_high :: "ssd \<Rightarrow> bool" where
  "should_gc_high s \<longleftrightarrow> free_line_cnt (ssd_lm s) \<le> gc_thres_lines_high (ssd_sp s)"

definition get_maptbl_ent :: "ssd \<Rightarrow> nat \<Rightarrow> ppa" where
  "get_maptbl_ent s lpn = ssd_maptbl s ! lpn"

definition set_maptbl_ent :: "ssd \<Rightarrow> nat \<Rightarrow> ppa \<Rightarrow> ssd" where
  "set_maptbl_ent s lpn p = s\<lparr>ssd_maptbl := (ssd_maptbl s)[lpn := p]\<rparr>"

definition ppa2pgidx :: "ssd \<Rightarrow> ppa \<Rightarrow> u64" where
  "ppa2pgidx s p =
     (let spp = ssd_sp s in
      u64_of_c_int (uint (g_ch p) * pgs_per_ch spp + uint (g_lun p) * pgs_per_lun spp +
        uint (g_pl p) * pgs_per_pl spp + uint (g_blk p) * pgs_per_blk spp + uint (g_pg p)))"

definition get_rmap_ent :: "ssd \<Rightarrow> ppa \<Rightarrow> u64" where
  "get_rmap_ent s p = ssd_rmap s ! unat (ppa2pgidx s p)"

definition set_rmap_ent :: "ssd \<Rightarrow> u64 \<Rightarrow> ppa \<Rightarrow> ssd" where
  "set_rmap_ent s lpn p = s\<lparr>ssd_rmap := (ssd_rmap s)[unat (ppa2pgidx s p) := lpn]\<rparr>"

definition valid_ppa :: "ssd \<Rightarrow> ppa \<Rightarrow> bool" where
  "valid_ppa s p \<longleftrightarrow>
     (let spp = ssd_sp s in
      uint (g_ch p) < nchs spp \<and> uint (g_lun p) < luns_per_ch spp \<and> uint (g_pl p) < pls_per_lun spp \<and>
      uint (g_blk p) < blks_per_pl spp \<and> uint (g_pg p) < pgs_per_blk spp \<and>
      uint (g_sec p) < secs_per_pg spp)"

definition valid_lpn :: "ssd \<Rightarrow> u64 \<Rightarrow> bool" where
  "valid_lpn s lpn \<longleftrightarrow> lpn < u64_of_c_int (tt_pgs (ssd_sp s))"

definition mapped_ppa :: "ppa \<Rightarrow> bool" where
  "mapped_ppa p \<longleftrightarrow> \<not> ppa_raw p = UNMAPPED_PPA"

subsection \<open>Components of an address\<close>

text \<open>The pointer getters of the code, as a reader and an updater for each level.\<close>

definition get_ch :: "ssd \<Rightarrow> ppa \<Rightarrow> ssd_channel" where
  "get_ch s p = ssd_ch s ! unat (g_ch p)"

definition get_lun :: "ssd \<Rightarrow> ppa \<Rightarrow> nand_lun" where
  "get_lun s p = ch_lun (get_ch s p) ! unat (g_lun p)"

definition get_pl :: "ssd \<Rightarrow> ppa \<Rightarrow> nand_plane" where
  "get_pl s p = lun_pl (get_lun s p) ! unat (g_pl p)"

definition get_blk :: "ssd \<Rightarrow> ppa \<Rightarrow> nand_block" where
  "get_blk s p = pl_blk (get_pl s p) ! unat (g_blk p)"

definition get_pg :: "ssd \<Rightarrow> ppa \<Rightarrow> nand_page" where
  "get_pg s p = blk_pg (get_blk s p) ! unat (g_pg p)"

definition get_line :: "ssd \<Rightarrow> ppa \<Rightarrow> nat" where
  "get_line s p = unat (g_blk p)"

definition upd_ch :: "ssd \<Rightarrow> ppa \<Rightarrow> (ssd_channel \<Rightarrow> ssd_channel) \<Rightarrow> ssd" where
  "upd_ch s p f = s\<lparr>ssd_ch := (ssd_ch s)[unat (g_ch p) := f (get_ch s p)]\<rparr>"

definition upd_lun :: "ssd \<Rightarrow> ppa \<Rightarrow> (nand_lun \<Rightarrow> nand_lun) \<Rightarrow> ssd" where
  "upd_lun s p f = upd_ch s p (\<lambda>c. c\<lparr>ch_lun := (ch_lun c)[unat (g_lun p) := f (get_lun s p)]\<rparr>)"

definition upd_pl :: "ssd \<Rightarrow> ppa \<Rightarrow> (nand_plane \<Rightarrow> nand_plane) \<Rightarrow> ssd" where
  "upd_pl s p f = upd_lun s p (\<lambda>l. l\<lparr>lun_pl := (lun_pl l)[unat (g_pl p) := f (get_pl s p)]\<rparr>)"

definition upd_blk :: "ssd \<Rightarrow> ppa \<Rightarrow> (nand_block \<Rightarrow> nand_block) \<Rightarrow> ssd" where
  "upd_blk s p f = upd_pl s p (\<lambda>l. l\<lparr>pl_blk := (pl_blk l)[unat (g_blk p) := f (get_blk s p)]\<rparr>)"

definition upd_pg :: "ssd \<Rightarrow> ppa \<Rightarrow> (nand_page \<Rightarrow> nand_page) \<Rightarrow> ssd" where
  "upd_pg s p f = upd_blk s p (\<lambda>b. b\<lparr>blk_pg := (blk_pg b)[unat (g_pg p) := f (get_pg s p)]\<rparr>)"

definition upd_lm :: "ssd \<Rightarrow> (line_mgmt \<Rightarrow> line_mgmt) \<Rightarrow> ssd" where
  "upd_lm s f = s\<lparr>ssd_lm := f (ssd_lm s)\<rparr>"

definition upd_line :: "ssd \<Rightarrow> nat \<Rightarrow> (line \<Rightarrow> line) \<Rightarrow> ssd" where
  "upd_line s i f = upd_lm s (\<lambda>lm. lm\<lparr>lm_lines := (lm_lines lm)[i := f (lm_lines lm ! i)]\<rparr>)"

text \<open>The calls of the priority queue: its store is the array of lines.  The queue is created for
  all lines, so an insertion never needs \<open>realloc\<close>.\<close>

definition lm_pq_insert :: "ssd \<Rightarrow> nat \<Rightarrow> ssd" where
  "lm_pq_insert s l = upd_lm s (\<lambda>lm.
     (case pqueue_insert True 0 (lm_lines lm) (victim_line_pq lm) l of
        (_, ls, q) \<Rightarrow> lm\<lparr>lm_lines := ls, victim_line_pq := q\<rparr>))"

definition lm_pq_change_priority :: "ssd \<Rightarrow> u64 \<Rightarrow> nat \<Rightarrow> ssd" where
  "lm_pq_change_priority s pri l = upd_lm s (\<lambda>lm.
     (case pqueue_change_priority (lm_lines lm) (victim_line_pq lm) pri l of
        (ls, q) \<Rightarrow> lm\<lparr>lm_lines := ls, victim_line_pq := q\<rparr>))"

definition lm_pq_pop :: "ssd \<Rightarrow> ssd" where
  "lm_pq_pop s = upd_lm s (\<lambda>lm.
     (case pqueue_pop (lm_lines lm) (victim_line_pq lm) of
        (_, ls, q) \<Rightarrow> lm\<lparr>lm_lines := ls, victim_line_pq := q\<rparr>))"

subsection \<open>Initialisation\<close>

definition ssd_init_params :: "ssdparams" where
  "ssd_init_params =
     (let secs_per_pg' = 8; pgs_per_blk' = 256; blks_per_pl' = 256; pls_per_lun' = 1;
          luns_per_ch' = 8; nchs' = 8;
          secs_per_blk' = secs_per_pg' * pgs_per_blk';
          secs_per_pl' = secs_per_blk' * blks_per_pl';
          secs_per_lun' = secs_per_pl' * pls_per_lun';
          secs_per_ch' = secs_per_lun' * luns_per_ch';
          pgs_per_pl' = pgs_per_blk' * blks_per_pl';
          pgs_per_lun' = pgs_per_pl' * pls_per_lun';
          pgs_per_ch' = pgs_per_lun' * luns_per_ch';
          blks_per_lun' = blks_per_pl' * pls_per_lun';
          blks_per_ch' = blks_per_lun' * luns_per_ch';
          pls_per_ch' = pls_per_lun' * luns_per_ch';
          tt_luns' = luns_per_ch' * nchs';
          blks_per_line' = tt_luns';
          pgs_per_line' = blks_per_line' * pgs_per_blk';
          tt_lines' = blks_per_lun';
          pcent = 3 / 4 :: rat;
          pcent_high = 19 / 20 :: rat
      in \<lparr>secsz = 512, secs_per_pg = secs_per_pg', pgs_per_blk = pgs_per_blk', blks_per_pl = blks_per_pl',
          pls_per_lun = pls_per_lun', luns_per_ch = luns_per_ch', nchs = nchs',
          pg_rd_lat = NAND_READ_LATENCY, pg_wr_lat = NAND_PROG_LATENCY, blk_er_lat = NAND_ERASE_LATENCY,
          ch_xfer_lat = 0,
          gc_thres_pcent = pcent, gc_thres_lines = \<lfloor>(1 - pcent) * of_int tt_lines'\<rfloor>,
          gc_thres_pcent_high = pcent_high,
          gc_thres_lines_high = \<lfloor>(1 - pcent_high) * of_int tt_lines'\<rfloor>,
          enable_gc_delay = True,
          secs_per_blk = secs_per_blk', secs_per_pl = secs_per_pl', secs_per_lun = secs_per_lun',
          secs_per_ch = secs_per_ch', tt_secs = secs_per_ch' * nchs',
          pgs_per_pl = pgs_per_pl', pgs_per_lun = pgs_per_lun', pgs_per_ch = pgs_per_ch',
          tt_pgs = pgs_per_ch' * nchs',
          blks_per_lun = blks_per_lun', blks_per_ch = blks_per_ch', tt_blks = blks_per_ch' * nchs',
          secs_per_line = pgs_per_line' * secs_per_pg', pgs_per_line = pgs_per_line',
          blks_per_line = blks_per_line', tt_lines = tt_lines',
          pls_per_ch = pls_per_ch', tt_pls = pls_per_ch' * nchs', tt_luns = tt_luns'\<rparr>)"

definition ssd_init_nand_page :: "ssdparams \<Rightarrow> nand_page" where
  "ssd_init_nand_page spp =
     \<lparr>pg_sec = replicate (nat (secs_per_pg spp)) SEC_FREE, pg_nsecs = secs_per_pg spp, pg_status = PG_FREE\<rparr>"

definition ssd_init_nand_blk :: "ssdparams \<Rightarrow> nand_block" where
  "ssd_init_nand_blk spp =
     \<lparr>blk_pg = replicate (nat (pgs_per_blk spp)) (ssd_init_nand_page spp), blk_npgs = pgs_per_blk spp,
      blk_ipc = 0, blk_vpc = 0, blk_erase_cnt = 0, blk_wp = 0\<rparr>"

definition ssd_init_nand_plane :: "ssdparams \<Rightarrow> nand_plane" where
  "ssd_init_nand_plane spp =
     \<lparr>pl_blk = replicate (nat (blks_per_pl spp)) (ssd_init_nand_blk spp), pl_nblks = blks_per_pl spp\<rparr>"

definition ssd_init_nand_lun :: "ssdparams \<Rightarrow> nand_lun" where
  "ssd_init_nand_lun spp =
     \<lparr>lun_pl = replicate (nat (pls_per_lun spp)) (ssd_init_nand_plane spp), lun_npls = pls_per_lun spp,
      next_lun_avail_time = 0, lun_busy = False, lun_gc_endtime = 0\<rparr>"

definition ssd_init_ch :: "ssdparams \<Rightarrow> ssd_channel" where
  "ssd_init_ch spp =
     \<lparr>ch_lun = replicate (nat (luns_per_ch spp)) (ssd_init_nand_lun spp), ch_nluns = luns_per_ch spp,
      next_ch_avail_time = 0, ch_busy = False, ch_gc_endtime = 0\<rparr>"

definition ssd_init_maptbl :: "ssdparams \<Rightarrow> ppa list" where
  "ssd_init_maptbl spp = replicate (nat (tt_pgs spp)) (ppa_of_raw UNMAPPED_PPA)"

definition ssd_init_rmap :: "ssdparams \<Rightarrow> u64 list" where
  "ssd_init_rmap spp = replicate (nat (tt_pgs spp)) INVALID_LPN"

definition ssd_init_lines :: "ssdparams \<Rightarrow> line_mgmt" where
  "ssd_init_lines spp =
     (let n = nat (blks_per_pl spp)
      in \<lparr>lm_lines = map (\<lambda>i. \<lparr>line_id = int i, line_ipc = 0, line_vpc = 0, line_pos = 0\<rparr>) [0..<n],
          free_line_list = [0..<n],
          victim_line_pq = the (pqueue_init True True 0 (nat (tt_lines spp)) victim_ops),
          full_line_list = [],
          lm_tt_lines = blks_per_pl spp, free_line_cnt = int n, victim_line_cnt = 0, full_line_cnt = 0\<rparr>)"

definition ssd_init_write_pointer :: "line_mgmt \<Rightarrow> write_pointer \<times> line_mgmt" where
  "ssd_init_write_pointer lm =
     (\<lparr>wp_curline = Some (hd (free_line_list lm)), wp_ch = 0, wp_lun = 0, wp_pg = 0, wp_blk = 0, wp_pl = 0\<rparr>,
      lm\<lparr>free_line_list := tl (free_line_list lm), free_line_cnt := free_line_cnt lm - 1\<rparr>)"

definition ssd_init_with :: "ssdparams \<Rightarrow> ssd" where
  "ssd_init_with spp =
     (case ssd_init_write_pointer (ssd_init_lines spp) of
        (wp, lm) \<Rightarrow>
          \<lparr>ssd_sp = spp, ssd_ch = replicate (nat (nchs spp)) (ssd_init_ch spp),
           ssd_maptbl = ssd_init_maptbl spp, ssd_rmap = ssd_init_rmap spp, ssd_wp = wp, ssd_lm = lm,
           clk_reads = 0\<rparr>)"

definition ssd_init :: ssd where
  "ssd_init = ssd_init_with ssd_init_params"

subsection \<open>Write pointer\<close>

definition get_next_free_line :: "ssd \<Rightarrow> (nat \<times> ssd) option" where
  "get_next_free_line s =
     (case free_line_list (ssd_lm s) of
        [] \<Rightarrow> None
      | l # ls \<Rightarrow>
          Some (l, upd_lm s (\<lambda>lm. lm\<lparr>free_line_list := ls, free_line_cnt := free_line_cnt lm - 1\<rparr>)))"

definition upd_wp :: "ssd \<Rightarrow> (write_pointer \<Rightarrow> write_pointer) \<Rightarrow> ssd" where
  "upd_wp s f = s\<lparr>ssd_wp := f (ssd_wp s)\<rparr>"

text \<open>The line that has just been written to its last page joins the full or the victim lines.\<close>

definition retire_curline :: "ssd \<Rightarrow> nat \<Rightarrow> ssd" where
  "retire_curline s cur =
     (if line_vpc (lm_lines (ssd_lm s) ! cur) = pgs_per_line (ssd_sp s)
      then upd_lm s (\<lambda>lm. lm\<lparr>full_line_list := full_line_list lm @ [cur],
                              full_line_cnt := full_line_cnt lm + 1\<rparr>)
      else upd_lm (lm_pq_insert s cur) (\<lambda>lm. lm\<lparr>victim_line_cnt := victim_line_cnt lm + 1\<rparr>))"

definition ssd_advance_write_pointer :: "ssd \<Rightarrow> ssd option" where
  "ssd_advance_write_pointer s =
     (let spp = ssd_sp s;
          s = upd_wp s (\<lambda>w. w\<lparr>wp_ch := wp_ch w + 1\<rparr>)
      in if wp_ch (ssd_wp s) \<noteq> nchs spp then Some s
      else
     (let s = upd_wp s (\<lambda>w. w\<lparr>wp_ch := 0, wp_lun := wp_lun w + 1\<rparr>)
      in if wp_lun (ssd_wp s) \<noteq> luns_per_ch spp then Some s
      else
     (let s = upd_wp s (\<lambda>w. w\<lparr>wp_lun := 0, wp_pg := wp_pg w + 1\<rparr>)
      in if wp_pg (ssd_wp s) \<noteq> pgs_per_blk spp then Some s
      else
     (let s = upd_wp s (\<lambda>w. w\<lparr>wp_pg := 0\<rparr>);
          s = retire_curline s (the (wp_curline (ssd_wp s)));
          s = upd_wp s (\<lambda>w. w\<lparr>wp_curline := None\<rparr>)
      in case get_next_free_line s of
           None \<Rightarrow> None
         | Some (l, s) \<Rightarrow>
             Some (upd_wp s (\<lambda>w. w\<lparr>wp_curline := Some l,
                                  wp_blk := line_id (lm_lines (ssd_lm s) ! l)\<rparr>))))))"

definition get_new_page :: "ssd \<Rightarrow> ppa" where
  "get_new_page s =
     (let wpp = ssd_wp s
      in (ppa_of_raw 0)\<lparr>g_ch := word_of_int (wp_ch wpp), g_lun := word_of_int (wp_lun wpp),
           g_pg := word_of_int (wp_pg wpp), g_blk := word_of_int (wp_blk wpp),
           g_pl := word_of_int (wp_pl wpp)\<rparr>)"

subsection \<open>NAND timing\<close>

definition ssd_advance_status :: "(nat \<Rightarrow> u64) \<Rightarrow> ssd \<Rightarrow> ppa \<Rightarrow> nand_cmd \<Rightarrow> ssd \<times> u64" where
  "ssd_advance_status rt s0 p ncmd =
     (let c = nc_cmd ncmd;
          cmd_stime = (if nc_stime ncmd = 0 then rt (clk_reads s0) else nc_stime ncmd);
          s = (if nc_stime ncmd = 0 then s0\<lparr>clk_reads := clk_reads s0 + 1\<rparr> else s0);
          spp = ssd_sp s;
          avail = next_lun_avail_time (get_lun s p);
          nand_stime = (if avail < cmd_stime then cmd_stime else avail);
          finish = (\<lambda>lat. let t = nand_stime + u64_of_c_int lat
                     in (upd_lun s p (\<lambda>l. l\<lparr>next_lun_avail_time := t\<rparr>), t - cmd_stime))
      in if c = NAND_READ then finish (pg_rd_lat spp)
         else if c = NAND_WRITE then
           (if nc_type ncmd = USER_IO then finish (pg_wr_lat spp) else finish (pg_wr_lat spp))
         else if c = NAND_ERASE then finish (blk_er_lat spp)
         else (s, 0))"

subsection \<open>Page, block and line status\<close>

definition mark_page_invalid :: "ssd \<Rightarrow> ppa \<Rightarrow> ssd" where
  "mark_page_invalid s p =
     (let s = upd_pg s p (\<lambda>pg. pg\<lparr>pg_status := PG_INVALID\<rparr>);
          s = upd_blk s p (\<lambda>b. b\<lparr>blk_ipc := blk_ipc b + 1\<rparr>);
          s = upd_blk s p (\<lambda>b. b\<lparr>blk_vpc := blk_vpc b - 1\<rparr>);
          l = get_line s p;
          was_full_line = (line_vpc (lm_lines (ssd_lm s) ! l) = pgs_per_line (ssd_sp s));
          s = upd_line s l (\<lambda>ln. ln\<lparr>line_ipc := line_ipc ln + 1\<rparr>);
          s = (if line_pos (lm_lines (ssd_lm s) ! l) \<noteq> 0
               then lm_pq_change_priority s (u64_of_c_int (line_vpc (lm_lines (ssd_lm s) ! l) - 1)) l
               else upd_line s l (\<lambda>ln. ln\<lparr>line_vpc := line_vpc ln - 1\<rparr>))
      in if was_full_line then
           (let s = upd_lm s (\<lambda>lm. lm\<lparr>full_line_list := remove1 l (full_line_list lm),
                                       full_line_cnt := full_line_cnt lm - 1\<rparr>);
                s = lm_pq_insert s l
            in upd_lm s (\<lambda>lm. lm\<lparr>victim_line_cnt := victim_line_cnt lm + 1\<rparr>))
         else s)"

definition mark_page_valid :: "ssd \<Rightarrow> ppa \<Rightarrow> ssd" where
  "mark_page_valid s p =
     (let s = upd_pg s p (\<lambda>pg. pg\<lparr>pg_status := PG_VALID\<rparr>);
          s = upd_blk s p (\<lambda>b. b\<lparr>blk_vpc := blk_vpc b + 1\<rparr>)
      in upd_line s (get_line s p) (\<lambda>ln. ln\<lparr>line_vpc := line_vpc ln + 1\<rparr>))"

definition mark_block_free :: "ssd \<Rightarrow> ppa \<Rightarrow> ssd" where
  "mark_block_free s p =
     (let n = nat (pgs_per_blk (ssd_sp s))
      in upd_blk s p (\<lambda>b. b\<lparr>blk_pg := map (\<lambda>pg. pg\<lparr>pg_status := PG_FREE\<rparr>) (take n (blk_pg b)) @ drop n (blk_pg b),
           blk_ipc := 0, blk_vpc := 0, blk_erase_cnt := blk_erase_cnt b + 1\<rparr>))"

definition mark_line_free :: "ssd \<Rightarrow> ppa \<Rightarrow> ssd" where
  "mark_line_free s p =
     (let l = get_line s p;
          s = upd_line s l (\<lambda>ln. ln\<lparr>line_ipc := 0, line_vpc := 0\<rparr>)
      in upd_lm s (\<lambda>lm. lm\<lparr>free_line_list := free_line_list lm @ [l],
                            free_line_cnt := free_line_cnt lm + 1\<rparr>))"

subsection \<open>Garbage collection\<close>

definition gc_cmd :: "int \<Rightarrow> nand_cmd" where
  "gc_cmd c = \<lparr>nc_type = GC_IO, nc_cmd = c, nc_stime = 0\<rparr>"

definition gc_read_page :: "(nat \<Rightarrow> u64) \<Rightarrow> ssd \<Rightarrow> ppa \<Rightarrow> ssd" where
  "gc_read_page rt s p =
     (if enable_gc_delay (ssd_sp s) then fst (ssd_advance_status rt s p (gc_cmd NAND_READ)) else s)"

definition set_lun_gc_endtime :: "ssd \<Rightarrow> ppa \<Rightarrow> ssd" where
  "set_lun_gc_endtime s p = upd_lun s p (\<lambda>l. l\<lparr>lun_gc_endtime := next_lun_avail_time l\<rparr>)"

definition gc_write_page :: "(nat \<Rightarrow> u64) \<Rightarrow> ssd \<Rightarrow> ppa \<Rightarrow> ssd option" where
  "gc_write_page rt s old_ppa =
     (let lpn = get_rmap_ent s old_ppa;
          new_ppa = get_new_page s;
          s = set_maptbl_ent s (unat lpn) new_ppa;
          s = set_rmap_ent s lpn new_ppa;
          s = mark_page_valid s new_ppa
      in case ssd_advance_write_pointer s of
           None \<Rightarrow> None
         | Some s \<Rightarrow>
             let s = (if enable_gc_delay (ssd_sp s)
                      then fst (ssd_advance_status rt s new_ppa (gc_cmd NAND_WRITE)) else s)
             in Some (set_lun_gc_endtime s new_ppa))"

definition select_victim_line :: "ssd \<Rightarrow> bool \<Rightarrow> nat option \<times> ssd" where
  "select_victim_line s force =
     (case pqueue_peek (victim_line_pq (ssd_lm s)) of
        None \<Rightarrow> (None, s)
      | Some victim_line \<Rightarrow>
          if \<not> force \<and> line_ipc (lm_lines (ssd_lm s) ! victim_line) < pgs_per_line (ssd_sp s) div 8
          then (None, s)
          else
            let s = lm_pq_pop s;
                s = upd_line s victim_line (\<lambda>ln. ln\<lparr>line_pos := 0\<rparr>);
                s = upd_lm s (\<lambda>lm. lm\<lparr>victim_line_cnt := victim_line_cnt lm - 1\<rparr>)
            in (Some victim_line, s))"

text \<open>The page loop of \<open>clean_one_block\<close> from page \<open>pg\<close> with \<open>k\<close> pages to go.\<close>

primrec clean_pages :: "nat \<Rightarrow> (nat \<Rightarrow> u64) \<Rightarrow> ssd \<Rightarrow> ppa \<Rightarrow> nat \<Rightarrow> ssd option" where
  "clean_pages 0 rt s p pg = Some s"
| "clean_pages (Suc k) rt s p pg =
     (let p = p\<lparr>g_pg := of_nat pg\<rparr>
      in if pg_status (get_pg s p) = PG_VALID
         then (case gc_write_page rt (gc_read_page rt s p) p of
                 None \<Rightarrow> None
               | Some s \<Rightarrow> clean_pages k rt s p (Suc pg))
         else clean_pages k rt s p (Suc pg))"

definition clean_one_block :: "(nat \<Rightarrow> u64) \<Rightarrow> ssd \<Rightarrow> ppa \<Rightarrow> ssd option" where
  "clean_one_block rt s p = clean_pages (nat (pgs_per_blk (ssd_sp s))) rt s p 0"

text \<open>The body of the channel and LUN loops of \<open>do_gc\<close>.  The fields \<open>sec\<close> and \<open>rsv\<close> of the local
  \<open>ppa\<close> are never set nor read; they are 0 here.\<close>

definition gc_one_block :: "(nat \<Rightarrow> u64) \<Rightarrow> ssd \<Rightarrow> ppa \<Rightarrow> ssd option" where
  "gc_one_block rt s p =
     (case clean_one_block rt s p of
        None \<Rightarrow> None
      | Some s \<Rightarrow>
          let s = mark_block_free s p;
              s = (if enable_gc_delay (ssd_sp s)
                   then fst (ssd_advance_status rt s p (gc_cmd NAND_ERASE)) else s)
          in Some (set_lun_gc_endtime s p))"

primrec gc_luns :: "nat \<Rightarrow> (nat \<Rightarrow> u64) \<Rightarrow> ssd \<Rightarrow> ppa \<Rightarrow> nat \<Rightarrow> ssd option" where
  "gc_luns 0 rt s p lun = Some s"
| "gc_luns (Suc k) rt s p lun =
     (case gc_one_block rt s (p\<lparr>g_lun := of_nat lun, g_pl := 0\<rparr>) of
        None \<Rightarrow> None
      | Some s \<Rightarrow> gc_luns k rt s p (Suc lun))"

primrec gc_chs :: "nat \<Rightarrow> (nat \<Rightarrow> u64) \<Rightarrow> ssd \<Rightarrow> ppa \<Rightarrow> nat \<Rightarrow> ssd option" where
  "gc_chs 0 rt s p ch = Some s"
| "gc_chs (Suc k) rt s p ch =
     (case gc_luns (nat (luns_per_ch (ssd_sp s))) rt s (p\<lparr>g_ch := of_nat ch\<rparr>) 0 of
        None \<Rightarrow> None
      | Some s \<Rightarrow> gc_chs k rt s p (Suc ch))"

definition do_gc :: "(nat \<Rightarrow> u64) \<Rightarrow> ssd \<Rightarrow> bool \<Rightarrow> (int \<times> ssd) option" where
  "do_gc rt s force =
     (case select_victim_line s force of
        (None, s) \<Rightarrow> Some (- 1, s)
      | (Some victim_line, s) \<Rightarrow>
          let p = (ppa_of_raw 0)\<lparr>g_blk := word_of_int (line_id (lm_lines (ssd_lm s) ! victim_line))\<rparr>
          in (case gc_chs (nat (nchs (ssd_sp s))) rt s p 0 of
                None \<Rightarrow> None
              | Some s \<Rightarrow> Some (0, mark_line_free s p)))"

subsection \<open>Reads and writes\<close>

text \<open>How a read or write can end badly: \<open>abort()\<close>, or an index past the mapping table, which the
  code only reports before it uses it; \<open>Gc_fuel\<close> is the bound of the modelled collection loop.\<close>

datatype ftl_fault = Ftl_abort | Maptbl_out_of_bounds | Gc_fuel

definition lpn_of_lba :: "ssd \<Rightarrow> u64 \<Rightarrow> u64" where
  "lpn_of_lba s lba = lba div u64_of_c_int (secs_per_pg (ssd_sp s))"

function ssd_read_loop ::
  "(nat \<Rightarrow> u64) \<Rightarrow> NvmeRequest \<Rightarrow> ssd \<Rightarrow> nat \<Rightarrow> nat \<Rightarrow> u64 \<Rightarrow> ftl_fault + (ssd \<times> u64)" where
  "ssd_read_loop rt req s lpn end_lpn maxlat =
     (if end_lpn < lpn then Inr (s, maxlat)
      else if length (ssd_maptbl s) \<le> lpn then Inl Maptbl_out_of_bounds
      else
        let p = get_maptbl_ent s lpn
        in if \<not> mapped_ppa p \<or> \<not> valid_ppa s p then ssd_read_loop rt req s (Suc lpn) end_lpn maxlat
           else
             let (s, sublat) = ssd_advance_status rt s p
                   \<lparr>nc_type = USER_IO, nc_cmd = NAND_READ, nc_stime = req_stime req\<rparr>
             in ssd_read_loop rt req s (Suc lpn) end_lpn (if maxlat < sublat then sublat else maxlat))"
  by auto
termination by (relation "measure (\<lambda>(rt, req, s, lpn, e, m). Suc e - lpn)") auto

definition ssd_read :: "(nat \<Rightarrow> u64) \<Rightarrow> ssd \<Rightarrow> NvmeRequest \<Rightarrow> ftl_fault + (ssd \<times> u64)" where
  "ssd_read rt s req =
     (let lba = req_slba req;
          nsecs = ucast (req_nlb req) :: u64;
          start_lpn = lpn_of_lba s lba;
          end_lpn = lpn_of_lba s (lba + nsecs - 1)
      in ssd_read_loop rt req s (unat start_lpn) (unat end_lpn) 0)"

text \<open>\<open>while (should_gc_high(ssd)) ...\<close> with at most \<open>fuel\<close> collections.\<close>

primrec gc_high_loop :: "nat \<Rightarrow> (nat \<Rightarrow> u64) \<Rightarrow> ssd \<Rightarrow> ftl_fault + ssd" where
  "gc_high_loop 0 rt s = (if should_gc_high s then Inl Gc_fuel else Inr s)"
| "gc_high_loop (Suc k) rt s =
     (if should_gc_high s
      then (case do_gc rt s True of
              None \<Rightarrow> Inl Ftl_abort
            | Some (r, s) \<Rightarrow> if r = - 1 then Inr s else gc_high_loop k rt s)
      else Inr s)"

text \<open>The body of the write loop for one logical page.\<close>

definition write_one_page ::
  "(nat \<Rightarrow> u64) \<Rightarrow> NvmeRequest \<Rightarrow> ssd \<Rightarrow> nat \<Rightarrow> (ssd \<times> u64) option" where
  "write_one_page rt req s lpn =
     (let old = get_maptbl_ent s lpn;
          s = (if mapped_ppa old then set_rmap_ent (mark_page_invalid s old) INVALID_LPN old else s);
          new = get_new_page s;
          s = set_maptbl_ent s lpn new;
          s = set_rmap_ent s (of_nat lpn) new;
          s = mark_page_valid s new
      in case ssd_advance_write_pointer s of
           None \<Rightarrow> None
         | Some s \<Rightarrow> Some (ssd_advance_status rt s new
             \<lparr>nc_type = USER_IO, nc_cmd = NAND_WRITE, nc_stime = req_stime req\<rparr>))"

function ssd_write_loop ::
  "(nat \<Rightarrow> u64) \<Rightarrow> NvmeRequest \<Rightarrow> ssd \<Rightarrow> nat \<Rightarrow> nat \<Rightarrow> u64 \<Rightarrow> ftl_fault + (ssd \<times> u64)" where
  "ssd_write_loop rt req s lpn end_lpn maxlat =
     (if end_lpn < lpn then Inr (s, maxlat)
      else if length (ssd_maptbl s) \<le> lpn then Inl Maptbl_out_of_bounds
      else (case write_one_page rt req s lpn of
              None \<Rightarrow> Inl Ftl_abort
            | Some (s, curlat) \<Rightarrow>
                ssd_write_loop rt req s (Suc lpn) end_lpn (if maxlat < curlat then curlat else maxlat)))"
  by auto
termination by (relation "measure (\<lambda>(rt, req, s, lpn, e, m). Suc e - lpn)") auto

definition ssd_write :: "nat \<Rightarrow> (nat \<Rightarrow> u64) \<Rightarrow> ssd \<Rightarrow> NvmeRequest \<Rightarrow> ftl_fault + (ssd \<times> u64)" where
  "ssd_write fuel rt s req =
     (let lba = req_slba req;
          len = ucast (req_nlb req) :: u64;
          start_lpn = lpn_of_lba s lba;
          end_lpn = lpn_of_lba s (lba + len - 1)
      in (case gc_high_loop fuel rt s of
            Inl e \<Rightarrow> Inl e
          | Inr s \<Rightarrow> ssd_write_loop rt req s (unat start_lpn) (unat end_lpn) 0))"

declare ssd_read_loop.simps [simp del] ssd_write_loop.simps [simp del]

subsection \<open>Address views\<close>

lemma bit_ppa_raw:
  "bit (ppa_raw p) n \<longleftrightarrow>
     (if n < 16 then bit (g_blk p) n else if n < 32 then bit (g_pg p) (n - 16)
      else if n < 40 then bit (g_sec p) (n - 32) else if n < 48 then bit (g_pl p) (n - 40)
      else if n < 56 then bit (g_lun p) (n - 48) else if n < 63 then bit (g_ch p) (n - 56)
      else n = 63 \<and> bit (g_rsv p) 0)"
proof (cases "n = 63")
  case False
  then show ?thesis by (auto simp: ppa_raw_def bit_simps dest: bit_imp_le_length)
qed (auto simp: ppa_raw_def bit_simps dest: bit_imp_le_length)

lemma ppa_of_raw_ppa_raw: "ppa_of_raw (ppa_raw p) = p"
  unfolding ppa_of_raw_def
  by (rule ppa.equality) (auto intro!: bit_word_eqI simp: bit_simps bit_ppa_raw)

lemma ppa_raw_ppa_of_raw: "ppa_raw (ppa_of_raw w) = w"
proof (rule bit_word_eqI)
  fix n
  assume "n < LENGTH(64)"
  then have "n = 63 \<or> n < 63" by auto
  then show "bit (ppa_raw (ppa_of_raw w)) n = bit w n"
    by (auto simp: bit_ppa_raw ppa_of_raw_def bit_simps)
qed

lemma mapped_if_rsv_0: "g_rsv p = 0 \<Longrightarrow> mapped_ppa p"
  using bit_ppa_raw [of p 63] by (auto simp: mapped_ppa_def UNMAPPED_PPA_def)

lemma unmapped_entry [simp]: "\<not> mapped_ppa (ppa_of_raw UNMAPPED_PPA)"
  by (simp add: mapped_ppa_def ppa_raw_ppa_of_raw)

lemma get_new_page_mapped [simp]: "mapped_ppa (get_new_page s)"
  by (intro mapped_if_rsv_0) (simp add: get_new_page_def Let_def ppa_of_raw_def)

subsection \<open>The victim queue satisfies the queue contract\<close>

lemma victim_ops_simps [simp]:
  "cmppri victim_ops = victim_line_cmp_pri" "getpri victim_ops = victim_line_get_pri"
  "setpri victim_ops = victim_line_set_pri" "getpos victim_ops = victim_line_get_pos"
  "setpos victim_ops = victim_line_set_pos"
  by (simp_all add: victim_ops_def)

interpretation victim: pq_node victim_ops "\<lambda>ls a. a < length ls" "\<lambda>v. v < 2 ^ 31"
proof unfold_locales
  fix ls :: "line list" and a and v :: u64
  assume "a < length ls" "v < 2 ^ 31"
  then show "getpri victim_ops (setpri victim_ops ls a v) a = v"
    by (simp add: victim_line_get_pri_def victim_line_set_pri_def u64_c_int_roundtrip)
qed (auto simp: victim_line_cmp_pri_def victim_line_get_pri_def victim_line_set_pri_def
      victim_line_get_pos_def victim_line_set_pos_def nth_list_update_total)

end
