(* ===== verification/Ftl_Inv.thy ===== *)
theory Ftl_Inv
  imports Ftl
begin

text \<open>
  The consistency of the flash translation layer: a flat view of the flash array (one status per
  physical page), the agreement of the mapping table, the reverse map and the page states, and the
  bookkeeping of the lines (free, current, full, victim), their page counts and the write pointer.
  Every step of \<open>ssd_write\<close> and of garbage collection is described on this view.
\<close>

subsection \<open>Physical pages and their addresses\<close>

text \<open>A physical page: channel, LUN, block and page in the block.\<close>

type_synonym page = "nat \<times> nat \<times> nat \<times> nat"

abbreviation nC :: "ssdparams \<Rightarrow> nat" where "nC sp \<equiv> nat (nchs sp)"
abbreviation nL :: "ssdparams \<Rightarrow> nat" where "nL sp \<equiv> nat (luns_per_ch sp)"
abbreviation nB :: "ssdparams \<Rightarrow> nat" where "nB sp \<equiv> nat (blks_per_pl sp)"
abbreviation nG :: "ssdparams \<Rightarrow> nat" where "nG sp \<equiv> nat (pgs_per_blk sp)"
abbreviation line_pages :: "ssdparams \<Rightarrow> nat" where "line_pages sp \<equiv> nG sp * nL sp * nC sp"

definition params_ok :: "ssdparams \<Rightarrow> bool" where
  "params_ok sp \<longleftrightarrow>
     0 < nchs sp \<and> nchs sp \<le> 128 \<and> 0 < luns_per_ch sp \<and> luns_per_ch sp \<le> 256 \<and>
     0 < blks_per_pl sp \<and> blks_per_pl sp \<le> 65536 \<and> 0 < pgs_per_blk sp \<and> pgs_per_blk sp \<le> 65536 \<and>
     pls_per_lun sp = 1 \<and> 0 < secs_per_pg sp \<and> secs_per_pg sp < 2 ^ 31 \<and> pgs_per_pl sp = pgs_per_blk sp * blks_per_pl sp \<and>
     pgs_per_lun sp = pgs_per_pl sp \<and> pgs_per_ch sp = pgs_per_lun sp * luns_per_ch sp \<and>
     tt_pgs sp = pgs_per_ch sp * nchs sp \<and> tt_pgs sp < 2 ^ 31 \<and>
     pgs_per_line sp = luns_per_ch sp * nchs sp * pgs_per_blk sp \<and> tt_lines sp = blks_per_pl sp"

definition in_range :: "ssdparams \<Rightarrow> page \<Rightarrow> bool" where
  "in_range sp = (\<lambda>(c, l, b, g). c < nC sp \<and> l < nL sp \<and> b < nB sp \<and> g < nG sp)"

definition page_idx :: "ssdparams \<Rightarrow> page \<Rightarrow> nat" where
  "page_idx sp = (\<lambda>(c, l, b, g). ((c * nL sp + l) * nB sp + b) * nG sp + g)"

text \<open>The place of a page in the order in which its line is written.\<close>

definition stripe_pos :: "ssdparams \<Rightarrow> page \<Rightarrow> nat" where
  "stripe_pos sp = (\<lambda>(c, l, b, g). (g * nL sp + l) * nC sp + c)"

definition page_line :: "page \<Rightarrow> nat" where "page_line = (\<lambda>(c, l, b, g). b)"

definition addr :: "page \<Rightarrow> ppa" where
  "addr = (\<lambda>(c, l, b, g). (ppa_of_raw 0)\<lparr>g_ch := of_nat c, g_lun := of_nat l, g_pg := of_nat g, g_blk := of_nat b\<rparr>)"

lemma params_bounds:
  assumes "params_ok sp"
  shows "nC sp \<le> 128" "nL sp \<le> 256" "nB sp \<le> 65536" "nG sp \<le> 65536" "0 < nC sp" "0 < nL sp" "0 < nB sp" "0 < nG sp"
    "nchs sp = int (nC sp)" "luns_per_ch sp = int (nL sp)" "blks_per_pl sp = int (nB sp)" "pgs_per_blk sp = int (nG sp)"
  using assms unfolding params_ok_def by (simp_all add: nat_le_iff)

lemma nat_tt_pgs:
  assumes "params_ok sp"
  shows "nat (tt_pgs sp) = nC sp * nL sp * nB sp * nG sp" "nat (pgs_per_line sp) = line_pages sp"
    "nat (tt_pgs sp) = nB sp * line_pages sp" "0 < line_pages sp" "nat (tt_pgs sp) < 2 ^ 31"
    "tt_pgs sp = int (nB sp * line_pages sp)" "pgs_per_line sp = int (line_pages sp)"
proof -
  define C L B G where "C = nC sp" and "L = nL sp" and "B = nB sp" and "G = nG sp"
  note D = C_def [symmetric] L_def [symmetric] B_def [symmetric] G_def [symmetric]
  have P: "nchs sp = int C" "luns_per_ch sp = int L" "blks_per_pl sp = int B" "pgs_per_blk sp = int G"
    using assms by (simp_all add: params_ok_def C_def L_def B_def G_def)
  have Q: "tt_pgs sp = pgs_per_blk sp * blks_per_pl sp * luns_per_ch sp * nchs sp"
    "pgs_per_line sp = luns_per_ch sp * nchs sp * pgs_per_blk sp" using assms by (simp_all add: params_ok_def)
  show "0 < line_pages sp" using params_bounds [OF assms] by simp
  have tt: "tt_pgs sp = int (B * (G * L * C))" unfolding Q(1) P by (simp add: ac_simps)
  then show "tt_pgs sp = int (nB sp * line_pages sp)" unfolding D .
  show "nat (tt_pgs sp) = nB sp * line_pages sp" unfolding tt D nat_int ..
  show "nat (tt_pgs sp) = nC sp * nL sp * nB sp * nG sp" unfolding tt D nat_int by (simp add: ac_simps)
  have "tt_pgs sp < 2 ^ 31" using assms unfolding params_ok_def by blast
  then show "nat (tt_pgs sp) < 2 ^ 31" by simp
  have pl: "pgs_per_line sp = int (G * L * C)" unfolding Q(2) P by (simp add: ac_simps)
  then show "pgs_per_line sp = int (line_pages sp)" unfolding D .
  show "nat (pgs_per_line sp) = line_pages sp" unfolding pl D nat_int ..
qed

lemma page_idx_less: "in_range sp x \<Longrightarrow> page_idx sp x < nC sp * nL sp * nB sp * nG sp"
  by (auto simp: in_range_def page_idx_def intro!: two_digits_less)

lemma page_idx_inj: "in_range sp x \<Longrightarrow> in_range sp y \<Longrightarrow> page_idx sp x = page_idx sp y \<longleftrightarrow> x = y"
  by (auto simp: in_range_def page_idx_def two_digits_eq)

lemma stripe_pos_less: "in_range sp x \<Longrightarrow> stripe_pos sp x < line_pages sp"
  by (auto simp: in_range_def stripe_pos_def intro!: two_digits_less)

lemma stripe_pos_inj:
  "in_range sp x \<Longrightarrow> in_range sp y \<Longrightarrow> page_line x = page_line y \<Longrightarrow> stripe_pos sp x = stripe_pos sp y \<longleftrightarrow> x = y"
  by (auto simp: in_range_def stripe_pos_def page_line_def two_digits_eq)

lemma addr_fields:
  assumes "params_ok sp" "in_range sp (c, l, b, g)"
  shows "unat (g_ch (addr (c, l, b, g))) = c" "unat (g_lun (addr (c, l, b, g))) = l" "unat (g_blk (addr (c, l, b, g))) = b"
    "unat (g_pg (addr (c, l, b, g))) = g" "g_pl (addr (c, l, b, g)) = 0" "g_sec (addr (c, l, b, g)) = 0"
    "g_rsv (addr (c, l, b, g)) = 0"
  using assms(2) params_bounds(1-4) [OF assms(1)]
  by (auto simp: addr_def in_range_def ppa_of_raw_def unat_of_nat)

lemma addr_inj:
  assumes "params_ok sp" "in_range sp x" "in_range sp y"
  shows "addr x = addr y \<longleftrightarrow> x = y"
proof -
  obtain c l b g where x: "x = (c, l, b, g)" by (cases x)
  obtain c' l' b' g' where y: "y = (c', l', b', g')" by (cases y)
  show ?thesis
    using addr_fields(1-4) [OF assms(1) assms(2) [unfolded x]] addr_fields(1-4) [OF assms(1) assms(3) [unfolded y]]
    unfolding x y by auto
qed

lemma addr_mapped [simp]: "mapped_ppa (addr x)"
  by (intro mapped_if_rsv_0) (simp add: addr_def ppa_of_raw_def split: prod.split)

lemma get_line_addr: "params_ok sp \<Longrightarrow> in_range sp x \<Longrightarrow> get_line s (addr x) = page_line x"
  by (cases x) (simp add: get_line_def page_line_def addr_fields)

lemma ppa2pgidx_addr:
  assumes "params_ok (ssd_sp s)" "in_range (ssd_sp s) x"
  shows "unat (ppa2pgidx s (addr x)) = page_idx (ssd_sp s) x"
proof -
  let ?sp = "ssd_sp s"
  obtain c l b g where x: "x = (c, l, b, g)" by (cases x)
  note N = nat_tt_pgs [OF assms(1)]
  note A = addr_fields [OF assms(1) assms(2) [unfolded x]]
  define L B G where "L = nL ?sp" and "B = nB ?sp" and "G = nG ?sp"
  have sp: "pgs_per_blk ?sp = int G" "pgs_per_lun ?sp = int (G * B)" "pgs_per_ch ?sp = int (G * B * L)"
    using assms(1) by (simp_all add: params_ok_def L_def B_def G_def)
  have u: "uint (g_ch (addr x)) = int c" "uint (g_lun (addr x)) = int l" "uint (g_blk (addr x)) = int b"
    "uint (g_pg (addr x)) = int g" "uint (g_pl (addr x)) = 0"
    unfolding x by (simp_all only: uint_nat A unat_0 of_nat_0)
  have lt: "page_idx ?sp x < 2 ^ 31" using page_idx_less [OF assms(2)] N(1,5) by linarith
  have "int (page_idx ?sp x) = int c * int (G * B * L) + int l * int (G * B) + int b * int G + int g"
    unfolding x page_idx_def by (simp add: L_def B_def G_def algebra_simps)
  then have "ppa2pgidx s (addr x) = word_of_int (int (page_idx ?sp x))"
    unfolding ppa2pgidx_def Let_def u sp u64_of_c_int_def by (simp only: mult_zero_left add_0_right)
  then have "ppa2pgidx s (addr x) = of_nat (page_idx ?sp x)" by simp
  then show ?thesis using lt by (simp add: unat_of_nat)
qed

subsection \<open>The flash array as a function\<close>

definition blk_at :: "ssd \<Rightarrow> nat \<Rightarrow> nat \<Rightarrow> nat \<Rightarrow> nand_block" where
  "blk_at s c l b = pl_blk (lun_pl (ch_lun (ssd_ch s ! c) ! l) ! 0) ! b"

definition flash :: "ssd \<Rightarrow> page \<Rightarrow> pg_status" where
  "flash s x = (case x of (c, l, b, g) \<Rightarrow>
     if in_range (ssd_sp s) x then pg_status (blk_pg (blk_at s c l b) ! g) else PG_FREE)"

definition flash_shape :: "ssd \<Rightarrow> bool" where
  "flash_shape s \<longleftrightarrow>
     (let sp = ssd_sp s in
      length (ssd_ch s) = nC sp \<and>
      (\<forall>c < nC sp. length (ch_lun (ssd_ch s ! c)) = nL sp \<and>
        (\<forall>l < nL sp. length (lun_pl (ch_lun (ssd_ch s ! c) ! l)) = 1 \<and>
          length (pl_blk (lun_pl (ch_lun (ssd_ch s ! c) ! l) ! 0)) = nB sp \<and>
          (\<forall>b < nB sp. length (blk_pg (blk_at s c l b)) = nG sp))))"

text \<open>The parts of the state that the flash operations leave alone.\<close>

definition same_tables :: "ssd \<Rightarrow> ssd \<Rightarrow> bool" where
  "same_tables s s' \<longleftrightarrow> ssd_sp s' = ssd_sp s \<and> ssd_maptbl s' = ssd_maptbl s \<and> ssd_rmap s' = ssd_rmap s \<and>
     ssd_wp s' = ssd_wp s \<and> ssd_lm s' = ssd_lm s"

lemma upd_blk_spec:
  assumes sp: "params_ok (ssd_sp s)" and sh: "flash_shape s" and x: "in_range (ssd_sp s) (c, l, b, g)"
    and p: "unat (g_ch p) = c" "unat (g_lun p) = l" "unat (g_blk p) = b" "g_pl p = 0"
    and f: "length (blk_pg (f (blk_at s c l b))) = nG (ssd_sp s)"
  shows "flash_shape (upd_blk s p f)" "same_tables s (upd_blk s p f)"
    "\<And>c' l' b'. c' < nC (ssd_sp s) \<Longrightarrow> l' < nL (ssd_sp s) \<Longrightarrow> b' < nB (ssd_sp s) \<Longrightarrow>
       blk_at (upd_blk s p f) c' l' b' = (if c' = c \<and> l' = l \<and> b' = b then f (blk_at s c l b) else blk_at s c' l' b')"
proof -
  let ?sp = "ssd_sp s"
  have r: "c < nC ?sp" "l < nL ?sp" "b < nB ?sp" using x by (auto simp: in_range_def)
  have len: "length (ssd_ch s) = nC ?sp" "length (ch_lun (ssd_ch s ! c)) = nL ?sp" "0 < length (lun_pl (ch_lun (ssd_ch s ! c) ! l))"
    "length (pl_blk (lun_pl (ch_lun (ssd_ch s ! c) ! l) ! 0)) = nB ?sp"
    using sh r by (auto simp: flash_shape_def Let_def)
  have eq: "upd_blk s p f = s\<lparr>ssd_ch := (ssd_ch s)[c := (ssd_ch s ! c)\<lparr>ch_lun := (ch_lun (ssd_ch s ! c))[l :=
      (ch_lun (ssd_ch s ! c) ! l)\<lparr>lun_pl := (lun_pl (ch_lun (ssd_ch s ! c) ! l))[0 :=
        (lun_pl (ch_lun (ssd_ch s ! c) ! l) ! 0)\<lparr>pl_blk := (pl_blk (lun_pl (ch_lun (ssd_ch s ! c) ! l) ! 0))[b :=
          f (blk_at s c l b)]\<rparr>]\<rparr>]\<rparr>]\<rparr>"
    using p by (simp add: upd_blk_def upd_pl_def upd_lun_def upd_ch_def get_blk_def get_pl_def get_lun_def get_ch_def blk_at_def)
  show "same_tables s (upd_blk s p f)" by (simp add: eq same_tables_def)
  show blk: "blk_at (upd_blk s p f) c' l' b' = (if c' = c \<and> l' = l \<and> b' = b then f (blk_at s c l b) else blk_at s c' l' b')"
    if "c' < nC ?sp" "l' < nL ?sp" "b' < nB ?sp" for c' l' b'
    using len r by (auto simp: eq blk_at_def nth_list_update)
  have "length (blk_pg (blk_at (upd_blk s p f) c' l' b')) = nG ?sp"
    if "c' < nC ?sp" "l' < nL ?sp" "b' < nB ?sp" for c' l' b'
    using blk [OF that] f sh that by (auto simp: flash_shape_def Let_def)
  moreover have "ssd_sp (upd_blk s p f) = ?sp" by (simp add: eq)
  moreover have "length (ssd_ch (upd_blk s p f)) = nC ?sp \<and>
      (\<forall>c < nC ?sp. length (ch_lun (ssd_ch (upd_blk s p f) ! c)) = nL ?sp \<and>
        (\<forall>l < nL ?sp. length (lun_pl (ch_lun (ssd_ch (upd_blk s p f) ! c) ! l)) = 1 \<and>
          length (pl_blk (lun_pl (ch_lun (ssd_ch (upd_blk s p f) ! c) ! l) ! 0)) = nB ?sp))"
    using sh len r by (auto simp: eq flash_shape_def Let_def nth_list_update)
  ultimately show "flash_shape (upd_blk s p f)" unfolding flash_shape_def Let_def by auto
qed

text \<open>A change of one block: its pages have the states of the new block.\<close>

lemma flash_upd_blk:
  assumes sp: "params_ok (ssd_sp s)" and sh: "flash_shape s" and x: "in_range (ssd_sp s) (c, l, b, g)"
    and f: "length (blk_pg (f (blk_at s c l b))) = nG (ssd_sp s)"
  shows "flash (upd_blk s (addr (c, l, b, g)) f) = (\<lambda>y. case y of (c', l', b', g') \<Rightarrow>
     if c' = c \<and> l' = l \<and> b' = b \<and> g' < nG (ssd_sp s) then pg_status (blk_pg (f (blk_at s c l b)) ! g') else flash s y)"
proof (rule ext)
  fix y :: page
  obtain c' l' b' g' where y: "y = (c', l', b', g')" by (cases y)
  note A = addr_fields [OF sp x]
  note U = upd_blk_spec [where f = f, OF sp sh x A(1,2,3,5) f]
  have "ssd_sp (upd_blk s (addr (c, l, b, g)) f) = ssd_sp s" using U(2) by (simp add: same_tables_def)
  then show "flash (upd_blk s (addr (c, l, b, g)) f) y = (case y of (c', l', b', g') \<Rightarrow>
     if c' = c \<and> l' = l \<and> b' = b \<and> g' < nG (ssd_sp s) then pg_status (blk_pg (f (blk_at s c l b)) ! g') else flash s y)"
    using x U(3) by (auto simp: y flash_def in_range_def)
qed

text \<open>What a step on the flash array leaves alone, up to a change of page states.\<close>

definition flash_step :: "ssd \<Rightarrow> ssd \<Rightarrow> (page \<Rightarrow> pg_status) \<Rightarrow> bool" where
  "flash_step s s' F \<longleftrightarrow> same_tables s s' \<and> flash s' = F \<and> flash_shape s'"

lemma flash_step_trans: "flash_step s s1 F \<Longrightarrow> flash_step s1 s2 F' \<Longrightarrow> flash_step s s2 F'"
  by (simp add: flash_step_def same_tables_def)

lemma get_blk_addr:
  assumes "params_ok (ssd_sp s)" "in_range (ssd_sp s) (c, l, b, g)"
  shows "get_blk s (addr (c, l, b, g)) = blk_at s c l b"
    "get_pg s (addr (c, l, b, g)) = blk_pg (blk_at s c l b) ! g"
  using addr_fields [OF assms] by (simp_all add: get_pg_def get_blk_def get_pl_def get_lun_def get_ch_def blk_at_def)

lemma pg_status_addr:
  "params_ok (ssd_sp s) \<Longrightarrow> in_range (ssd_sp s) x \<Longrightarrow> pg_status (get_pg s (addr x)) = flash s x"
  by (cases x) (simp add: get_blk_addr flash_def)

lemma upd_pg_step:
  assumes sp: "params_ok (ssd_sp s)" and sh: "flash_shape s" and x: "in_range (ssd_sp s) x"
  shows "flash_step s (upd_pg s (addr x) (\<lambda>pg. pg\<lparr>pg_status := st\<rparr>)) ((flash s)(x := st))"
proof -
  obtain c l b g where e: "x = (c, l, b, g)" by (cases x)
  note A = addr_fields [OF sp x [unfolded e]]
  have r: "c < nC (ssd_sp s)" "l < nL (ssd_sp s)" "b < nB (ssd_sp s)" "g < nG (ssd_sp s)"
    using x by (auto simp: e in_range_def)
  have len: "length (blk_pg (blk_at s c l b)) = nG (ssd_sp s)" using sh r by (simp add: flash_shape_def Let_def)
  let ?f = "\<lambda>bl. bl\<lparr>blk_pg := (blk_pg bl)[g := (blk_pg (blk_at s c l b) ! g)\<lparr>pg_status := st\<rparr>]\<rparr>"
  have eq: "upd_pg s (addr x) (\<lambda>pg. pg\<lparr>pg_status := st\<rparr>) = upd_blk s (addr x) ?f"
    using A(4) get_blk_addr(2) [OF sp x [unfolded e]] by (simp add: upd_pg_def e)
  have f: "length (blk_pg (?f (blk_at s c l b))) = nG (ssd_sp s)" using len by simp
  note U = upd_blk_spec [where f = ?f, OF sp sh x [unfolded e] A(1,2,3,5) f]
  have "flash (upd_blk s (addr x) ?f) = (flash s)(x := st)"
    unfolding e flash_upd_blk [where f = ?f, OF sp sh x [unfolded e] f]
    using r len by (auto simp: fun_eq_iff flash_def in_range_def nth_list_update)
  then show ?thesis using U unfolding eq unfolding e by (simp add: flash_step_def)
qed

lemma upd_blk_counters_step:
  assumes sp: "params_ok (ssd_sp s)" and sh: "flash_shape s" and x: "in_range (ssd_sp s) x"
    and f: "\<And>bl. blk_pg (f bl) = blk_pg bl"
  shows "flash_step s (upd_blk s (addr x) f) (flash s)"
proof -
  obtain c l b g where e: "x = (c, l, b, g)" by (cases x)
  note A = addr_fields [OF sp x [unfolded e]]
  have r: "c < nC (ssd_sp s)" "l < nL (ssd_sp s)" "b < nB (ssd_sp s)" "g < nG (ssd_sp s)"
    using x by (auto simp: e in_range_def)
  have len: "length (blk_pg (f (blk_at s c l b))) = nG (ssd_sp s)" using sh r f by (simp add: flash_shape_def Let_def)
  note U = upd_blk_spec [where f = f, OF sp sh x [unfolded e] A(1,2,3,5) len]
  have "flash (upd_blk s (addr x) f) = flash s"
    unfolding e flash_upd_blk [where f = f, OF sp sh x [unfolded e] len]
    using r f by (auto simp: fun_eq_iff flash_def in_range_def)
  then show ?thesis using U unfolding e by (simp add: flash_step_def)
qed

lemma upd_lun_step:
  assumes sh: "flash_shape s" and f: "\<And>l. lun_pl (f l) = lun_pl l"
  shows "flash_step s (upd_lun s p f) (flash s)"
proof -
  let ?s = "upd_lun s p f"
  have st: "same_tables s ?s" by (simp add: same_tables_def upd_lun_def upd_ch_def)
  have lun: "lun_pl (ch_lun (ssd_ch ?s ! c) ! l) = lun_pl (ch_lun (ssd_ch s ! c) ! l)" for c l
    using f by (auto simp: upd_lun_def upd_ch_def get_lun_def get_ch_def nth_list_update_total)
  have "length (ssd_ch ?s) = length (ssd_ch s)" by (simp add: upd_lun_def upd_ch_def)
  moreover have "length (ch_lun (ssd_ch ?s ! c)) = length (ch_lun (ssd_ch s ! c))" for c
    by (auto simp: upd_lun_def upd_ch_def get_ch_def nth_list_update_total)
  ultimately have "flash_shape ?s" using sh st by (simp add: flash_shape_def Let_def blk_at_def lun same_tables_def)
  moreover have "flash ?s = flash s" using st by (auto simp: fun_eq_iff flash_def blk_at_def lun same_tables_def)
  ultimately show ?thesis using st by (simp add: flash_step_def)
qed

lemma ssd_advance_status_step:
  assumes sh: "flash_shape s"
  shows "flash_step s (fst (ssd_advance_status rt s p ncmd)) (flash s)"
proof -
  define s1 where "s1 = (if nc_stime ncmd = 0 then s\<lparr>clk_reads := clk_reads s + 1\<rparr> else s)"
  have 1: "flash_step s s1 (flash s)"
    using sh by (auto simp: s1_def flash_step_def same_tables_def flash_shape_def Let_def blk_at_def flash_def fun_eq_iff)
  then have sh1: "flash_shape s1" "flash s1 = flash s" by (simp_all add: flash_step_def)
  have "\<exists>t. fst (ssd_advance_status rt s p ncmd) = upd_lun s1 p (\<lambda>l. l\<lparr>next_lun_avail_time := t\<rparr>) \<or>
      fst (ssd_advance_status rt s p ncmd) = s1"
    by (simp add: ssd_advance_status_def Let_def s1_def) blast
  then show ?thesis
    using 1 flash_step_trans [OF 1 upd_lun_step [OF sh1(1), where p = p]] sh1(2) by auto
qed

lemma set_lun_gc_endtime_step: "flash_shape s \<Longrightarrow> flash_step s (set_lun_gc_endtime s p) (flash s)"
  unfolding set_lun_gc_endtime_def by (rule upd_lun_step) simp_all

lemma mark_block_free_step:
  assumes sp: "params_ok (ssd_sp s)" and sh: "flash_shape s" and x: "in_range (ssd_sp s) (c, l, b, g)"
  shows "flash_step s (mark_block_free s (addr (c, l, b, g)))
    (\<lambda>y. if (\<exists>g'. y = (c, l, b, g')) then PG_FREE else flash s y)"
proof -
  note A = addr_fields [OF sp x]
  have r: "c < nC (ssd_sp s)" "l < nL (ssd_sp s)" "b < nB (ssd_sp s)" using x by (auto simp: in_range_def)
  have len: "length (blk_pg (blk_at s c l b)) = nG (ssd_sp s)" using sh r by (simp add: flash_shape_def Let_def)
  let ?n = "nG (ssd_sp s)"
  let ?f = "\<lambda>b. b\<lparr>blk_pg := map (\<lambda>pg. pg\<lparr>pg_status := PG_FREE\<rparr>) (take ?n (blk_pg b)) @ drop ?n (blk_pg b),
           blk_ipc := 0, blk_vpc := 0, blk_erase_cnt := blk_erase_cnt b + 1\<rparr>"
  have f: "length (blk_pg (?f (blk_at s c l b))) = ?n" using len by simp
  note U = upd_blk_spec [where f = ?f, OF sp sh x A(1,2,3,5) f]
  have "flash (upd_blk s (addr (c, l, b, g)) ?f) = (\<lambda>y. if (\<exists>g'. y = (c, l, b, g')) then PG_FREE else flash s y)"
    unfolding flash_upd_blk [where f = ?f, OF sp sh x f]
    using len by (auto simp: fun_eq_iff flash_def in_range_def)
  then show ?thesis using U by (simp add: flash_step_def mark_block_free_def Let_def)
qed

end
