(* ===== verification/Ftl_Lines.thy ===== *)
theory Ftl_Lines
  imports Ftl_Inv
begin

text \<open>
  The lines of the flash translation layer: which set each line is in, its counts of valid and
  invalid pages, its place in the victim queue, and the write pointer.  Each step that programs a
  page, invalidates one, takes a victim or gives a line back keeps this bookkeeping.
\<close>

subsection \<open>The victim queue on the lines\<close>

abbreviation victims :: "line_mgmt \<Rightarrow> nat list" where "victims lm \<equiv> pq_elems (victim_line_pq lm)"

abbreviation line_ix :: "line list \<Rightarrow> nat \<Rightarrow> bool" where "line_ix ls a \<equiv> a < length ls"

text \<open>What the queue never writes.\<close>

definition line_sig :: "line \<Rightarrow> int \<times> int \<times> int" where
  "line_sig l = (line_id l, line_ipc l, line_vpc l)"

abbreviation line_sigs :: "line list \<Rightarrow> (int \<times> int \<times> int) list" where "line_sigs ls \<equiv> map line_sig ls"

lemma line_sigs_nth:
  assumes "line_sigs ls' = line_sigs ls" "b < length ls"
  shows "line_id (ls' ! b) = line_id (ls ! b)" "line_ipc (ls' ! b) = line_ipc (ls ! b)" "line_vpc (ls' ! b) = line_vpc (ls ! b)"
proof -
  have "length ls' = length ls" using assms(1) by (rule map_eq_imp_length_eq)
  then have "line_sig (ls' ! b) = line_sig (ls ! b)" using assms by (metis nth_map)
  then show "line_id (ls' ! b) = line_id (ls ! b)" "line_ipc (ls' ! b) = line_ipc (ls ! b)" "line_vpc (ls' ! b) = line_vpc (ls ! b)"
    by (simp_all add: line_sig_def)
qed

lemma line_sigs_setpos: "line_sigs (victim_line_set_pos ls a n) = line_sigs ls"
  by (rule nth_equalityI) (auto simp: victim_line_set_pos_def line_sig_def nth_list_update_total)

lemma victim_wf_cong:
  assumes wf: "pq_wf line_ix ls q" and q: "q_ops q = victim_ops" and len: "length ls' = length ls"
    and same: "\<And>a. a \<in> set (pq_elems q) \<Longrightarrow> line_vpc (ls' ! a) = line_vpc (ls ! a) \<and> line_pos (ls' ! a) = line_pos (ls ! a)"
  shows "pq_wf line_ix ls' q"
proof -
  have el: "q_d q ! j \<in> set (pq_elems q)" if "1 \<le> j" "j < q_size q" for j
    using that wf by (auto simp: pq_elems_def set_arr_slice pq_wf_def pq_shape_def)
  have pri: "getpri victim_ops ls' (q_d q ! j) = getpri victim_ops ls (q_d q ! j)"
    and pos: "getpos victim_ops ls' (q_d q ! j) = getpos victim_ops ls (q_d q ! j)" if "1 \<le> j" "j < q_size q" for j
    using same [OF el [OF that]] by (simp_all add: victim_line_get_pri_def victim_line_get_pos_def)
  have "1 \<le> j div 2" "j div 2 < q_size q" if "2 \<le> j" "j < q_size q" for j using that by auto
  then show ?thesis
    using wf pri pos len by (auto simp: pq_wf_def pq_heap_def pq_pos_def q simp del: victim_ops_simps)
qed

lemma victim_wf_upd:
  assumes "pq_wf line_ix ls q" "q_ops q = victim_ops" "v \<notin> set (pq_elems q)"
  shows "pq_wf line_ix (ls[v := z]) q"
  using assms(1,2) by (rule victim_wf_cong) (use assms(3) in \<open>auto simp: nth_list_update_total\<close>)

lemma victim_pos_pos:
  assumes wf: "pq_wf line_ix ls q" and q: "q_ops q = victim_ops" and a: "a \<in> set (pq_elems q)"
  shows "line_pos (ls ! a) \<noteq> 0"
proof -
  obtain j where "1 \<le> j" "j < q_size q" "a = q_d q ! j"
    using wf a by (auto simp: pq_elems_def set_arr_slice pq_wf_def pq_shape_def)
  then show ?thesis using wf q by (auto simp: pq_wf_def pq_pos_def victim_line_get_pos_def)
qed

lemma victim_insert:
  assumes wf: "pq_wf line_ix ls q" and q: "q_ops q = victim_ops" and l: "l < length ls" "l \<notin> set (pq_elems q)"
    and eq: "pqueue_insert True 0 ls q l = (r, ls', q')"
  shows "pq_wf line_ix ls' q'" "q_ops q' = victim_ops" "mset (pq_elems q') = add_mset l (mset (pq_elems q))"
    "line_sigs ls' = line_sigs ls" "b \<noteq> l \<Longrightarrow> b \<notin> set (pq_elems q) \<Longrightarrow> line_pos (ls' ! b) = line_pos (ls ! b)"
proof -
  note I = victim.insert_wf [OF wf q l _ eq]
  show "pq_wf line_ix ls' q'" "q_ops q' = victim_ops" "mset (pq_elems q') = add_mset l (mset (pq_elems q))"
    using I by simp_all
  show "line_sigs ls' = line_sigs ls"
    using pqueue_insert_store [where P = "\<lambda>s. line_sigs s = line_sigs ls" and q = q and s = ls and e = l and realloc_ok = True and junk = 0]
    by (simp add: q line_sigs_setpos eq)
  show "b \<noteq> l \<Longrightarrow> b \<notin> set (pq_elems q) \<Longrightarrow> line_pos (ls' ! b) = line_pos (ls ! b)"
    using I(5) by (simp add: victim.framed_def victim_line_get_pos_def)
qed

lemma victim_pop:
  assumes wf: "pq_wf line_ix ls q" and q: "q_ops q = victim_ops"
    and eq: "pqueue_pop ls q = (Some v, ls', q')"
  shows "pq_wf line_ix ls' q'" "q_ops q' = victim_ops" "add_mset v (mset (pq_elems q')) = mset (pq_elems q)"
    "line_sigs ls' = line_sigs ls" "b \<notin> set (pq_elems q) \<Longrightarrow> line_pos (ls' ! b) = line_pos (ls ! b)"
proof -
  note I = victim.pop_wf [OF wf q eq]
  show "pq_wf line_ix ls' q'" "q_ops q' = victim_ops" "add_mset v (mset (pq_elems q')) = mset (pq_elems q)"
    using I by simp_all
  show "line_sigs ls' = line_sigs ls"
    using pqueue_pop_store [where P = "\<lambda>s. line_sigs s = line_sigs ls" and q = q and s = ls]
    by (simp add: q line_sigs_setpos eq)
  show "b \<notin> set (pq_elems q) \<Longrightarrow> line_pos (ls' ! b) = line_pos (ls ! b)"
    using I(4) by (simp add: victim.framed_def victim_line_get_pos_def)
qed

lemma victim_change_priority:
  assumes wf: "pq_wf line_ix ls q" and q: "q_ops q = victim_ops" and l: "l \<in> set (pq_elems q)"
    and v: "0 \<le> v" "v < 2 ^ 31" and eq: "pqueue_change_priority ls q (u64_of_c_int v) l = (ls', q')"
  shows "pq_wf line_ix ls' q'" "q_ops q' = victim_ops" "mset (pq_elems q') = mset (pq_elems q)"
    "line_sigs ls' = line_sigs (ls[l := (ls ! l)\<lparr>line_vpc := v\<rparr>])"
    "b \<notin> set (pq_elems q) \<Longrightarrow> line_pos (ls' ! b) = line_pos (ls ! b)"
proof -
  have p: "u64_of_c_int v < 2 ^ 31"
    using v by (simp add: u64_of_c_int_def word_less_def uint_word_of_int)
  note I = victim.change_priority_wf [OF wf q l p eq]
  show "pq_wf line_ix ls' q'" "q_ops q' = victim_ops" "mset (pq_elems q') = mset (pq_elems q)"
    using I by simp_all
  have set: "victim_line_set_pri ls l (u64_of_c_int v) = ls[l := (ls ! l)\<lparr>line_vpc := v\<rparr>]"
    using v by (simp add: victim_line_set_pri_def c_int_range_def)
  show "line_sigs ls' = line_sigs (ls[l := (ls ! l)\<lparr>line_vpc := v\<rparr>])"
    using pqueue_change_priority_store [where P = "\<lambda>s. line_sigs s = line_sigs (ls[l := (ls ! l)\<lparr>line_vpc := v\<rparr>])"
        and q = q and s = ls and e = l and v = "u64_of_c_int v"]
    by (simp add: q line_sigs_setpos eq set)
  show "b \<notin> set (pq_elems q) \<Longrightarrow> line_pos (ls' ! b) = line_pos (ls ! b)"
    using I(4) set l by (auto simp: victim.framed_def victim_line_get_pos_def nth_list_update_total)
qed

subsection \<open>Counting pages of a line\<close>

definition line_set :: "ssdparams \<Rightarrow> nat \<Rightarrow> page set" where
  "line_set sp b = {x. in_range sp x \<and> page_line x = b}"

definition page_count :: "ssdparams \<Rightarrow> (page \<Rightarrow> pg_status) \<Rightarrow> nat \<Rightarrow> pg_status \<Rightarrow> nat" where
  "page_count sp F b st = card {x \<in> line_set sp b. F x = st}"

lemma finite_line_set [simp]: "finite (line_set sp b)"
proof (rule finite_subset)
  show "line_set sp b \<subseteq> {..<nC sp} \<times> {..<nL sp} \<times> {..<nB sp} \<times> {..<nG sp}"
    by (auto simp: line_set_def in_range_def)
qed simp

lemma page_at_stripe:
  assumes "b < nB sp" "i < line_pages sp"
  shows "(i mod nC sp, i div nC sp mod nL sp, b, i div nC sp div nL sp) \<in> line_set sp b"
    "stripe_pos sp (i mod nC sp, i div nC sp mod nL sp, b, i div nC sp div nL sp) = i"
proof -
  have pos: "0 < c \<and> 0 < l" if "i < g * l * (c :: nat)" for g l c using that by (auto intro!: gr0I)
  have "0 < nC sp" "0 < nL sp" using pos [OF assms(2)] by blast+
  moreover have "i div nC sp div nL sp < nG sp"
    using assms(2) calculation by (simp only: div_less_iff_less_mult)
  ultimately show "(i mod nC sp, i div nC sp mod nL sp, b, i div nC sp div nL sp) \<in> line_set sp b"
    using assms(1) by (simp add: line_set_def in_range_def page_line_def)
  show "stripe_pos sp (i mod nC sp, i div nC sp mod nL sp, b, i div nC sp div nL sp) = i"
    by (simp add: stripe_pos_def)
qed

lemma card_line_stripe:
  assumes "b < nB sp" "n \<le> line_pages sp"
  shows "card {x \<in> line_set sp b. stripe_pos sp x < n} = n"
proof -
  have "bij_betw (stripe_pos sp) {x \<in> line_set sp b. stripe_pos sp x < n} {..<n}"
    unfolding bij_betw_def
  proof
    show "inj_on (stripe_pos sp) {x \<in> line_set sp b. stripe_pos sp x < n}"
      by (auto simp: inj_on_def line_set_def stripe_pos_inj)
    show "stripe_pos sp ` {x \<in> line_set sp b. stripe_pos sp x < n} = {..<n}"
    proof (intro equalityI subsetI)
      fix i assume "i \<in> {..<n}"
      then show "i \<in> stripe_pos sp ` {x \<in> line_set sp b. stripe_pos sp x < n}"
        using page_at_stripe [OF assms(1), of i] assms(2) by (intro image_eqI [of _ _ "(i mod nC sp, i div nC sp mod nL sp, b, i div nC sp div nL sp)"]) auto
    qed auto
  qed
  then show ?thesis by (simp add: bij_betw_same_card)
qed

lemma card_line_set: "b < nB sp \<Longrightarrow> card (line_set sp b) = line_pages sp"
proof -
  assume b: "b < nB sp"
  have "line_set sp b = {x \<in> line_set sp b. stripe_pos sp x < line_pages sp}"
    using stripe_pos_less by (auto simp: line_set_def)
  then show ?thesis using card_line_stripe [OF b order_refl] by metis
qed

lemma page_count_le: "b < nB sp \<Longrightarrow> page_count sp F b st \<le> line_pages sp"
  unfolding page_count_def card_line_set [symmetric] by (intro card_mono) auto

lemma page_count_cong: "(\<And>x. x \<in> line_set sp b \<Longrightarrow> F x = F' x) \<Longrightarrow> page_count sp F b st = page_count sp F' b st"
  unfolding page_count_def by (rule arg_cong [where f = card]) auto

lemma page_count_other: "x \<notin> line_set sp b \<Longrightarrow> page_count sp (F(x := st)) b st' = page_count sp F b st'"
  by (rule page_count_cong) auto

lemma page_count_upd:
  assumes x: "x \<in> line_set sp b" and st: "F x \<noteq> st"
  shows "page_count sp (F(x := st)) b st' =
    (if st' = st then Suc (page_count sp F b st') else if st' = F x then page_count sp F b st' - 1 else page_count sp F b st')"
proof -
  have "{y \<in> line_set sp b. (F(x := st)) y = st'} =
    (if st' = st then insert x {y \<in> line_set sp b. F y = st'} else {y \<in> line_set sp b. F y = st'} - {x})"
    using x by auto
  moreover have "x \<in> {y \<in> line_set sp b. F y = st'} \<longleftrightarrow> st' = F x" using x by auto
  ultimately show ?thesis using st by (auto simp: page_count_def card_Diff_singleton_if)
qed

lemma page_count_pos: "x \<in> line_set sp b \<Longrightarrow> 0 < page_count sp F b (F x)"
proof -
  assume "x \<in> line_set sp b"
  then have "x \<in> {y \<in> line_set sp b. F y = F x}" by simp
  then have "{y \<in> line_set sp b. F y = F x} \<noteq> {}" by blast
  then show ?thesis by (simp add: page_count_def card_gt_0_iff)
qed

lemma page_count_zero: "page_count sp F b st = 0 \<longleftrightarrow> (\<forall>x \<in> line_set sp b. F x \<noteq> st)"
  by (auto simp: page_count_def)

lemma page_count_sum:
  assumes "b < nB sp"
  shows "page_count sp F b PG_FREE + page_count sp F b PG_INVALID + page_count sp F b PG_VALID = line_pages sp"
proof -
  have "line_set sp b = {x \<in> line_set sp b. F x = PG_FREE} \<union> {x \<in> line_set sp b. F x = PG_INVALID} \<union> {x \<in> line_set sp b. F x = PG_VALID}"
    (is "_ = ?U")
  proof (rule set_eqI)
    show "x \<in> line_set sp b \<longleftrightarrow> x \<in> ?U" for x by (cases "F x") simp_all
  qed
  then have "card (line_set sp b) = card ?U" by simp
  also have "\<dots> = card ({x \<in> line_set sp b. F x = PG_FREE} \<union> {x \<in> line_set sp b. F x = PG_INVALID}) + page_count sp F b PG_VALID"
    unfolding page_count_def by (rule card_Un_disjoint) auto
  also have "card ({x \<in> line_set sp b. F x = PG_FREE} \<union> {x \<in> line_set sp b. F x = PG_INVALID}) =
      page_count sp F b PG_FREE + page_count sp F b PG_INVALID"
    unfolding page_count_def by (rule card_Un_disjoint) auto
  finally show ?thesis using card_line_set [OF assms] by simp
qed

subsection \<open>The bookkeeping of the lines\<close>

definition write_pos :: "ssdparams \<Rightarrow> write_pointer \<Rightarrow> nat" where
  "write_pos sp wp = (nat (wp_pg wp) * nL sp + nat (wp_lun wp)) * nC sp + nat (wp_ch wp)"

definition wp_ok :: "ssdparams \<Rightarrow> write_pointer \<Rightarrow> bool" where
  "wp_ok sp wp \<longleftrightarrow> 0 \<le> wp_ch wp \<and> wp_ch wp < nchs sp \<and> 0 \<le> wp_lun wp \<and> wp_lun wp < luns_per_ch sp \<and>
     0 \<le> wp_pg wp \<and> wp_pg wp < pgs_per_blk sp \<and> wp_pl wp = 0"

text \<open>The sets partition the lines; \<open>V\<close> holds the line being collected, if any.\<close>

definition line_sets_ok :: "ssdparams \<Rightarrow> nat \<Rightarrow> line_mgmt \<Rightarrow> nat list \<Rightarrow> bool" where
  "line_sets_ok sp cur lm V \<longleftrightarrow>
     length (lm_lines lm) = nB sp \<and> (\<forall>b < nB sp. line_id (lm_lines lm ! b) = int b) \<and>
     pq_wf line_ix (lm_lines lm) (victim_line_pq lm) \<and> q_ops (victim_line_pq lm) = victim_ops \<and>
     mset (cur # free_line_list lm @ full_line_list lm @ victims lm @ V) = mset [0..<nB sp] \<and>
     free_line_cnt lm = int (length (free_line_list lm)) \<and> full_line_cnt lm = int (length (full_line_list lm)) \<and>
     victim_line_cnt lm = int (length (victims lm)) \<and>
     (\<forall>b < nB sp. b \<notin> set (victims lm) \<longrightarrow> line_pos (lm_lines lm ! b) = 0)"

text \<open>The counters of the lines, and what the pages of each set look like.\<close>

definition line_pages_ok :: "ssdparams \<Rightarrow> (page \<Rightarrow> pg_status) \<Rightarrow> line_mgmt \<Rightarrow> nat list \<Rightarrow> bool" where
  "line_pages_ok sp F lm V \<longleftrightarrow>
     (\<forall>b < nB sp. b \<notin> set V \<longrightarrow> line_vpc (lm_lines lm ! b) = int (page_count sp F b PG_VALID) \<and>
        line_ipc (lm_lines lm ! b) = int (page_count sp F b PG_INVALID)) \<and>
     (\<forall>b \<in> set (free_line_list lm). \<forall>x \<in> line_set sp b. F x = PG_FREE) \<and>
     (\<forall>b \<in> set (full_line_list lm). page_count sp F b PG_VALID = line_pages sp) \<and>
     (\<forall>b \<in> set (victims lm). page_count sp F b PG_VALID < line_pages sp \<and> page_count sp F b PG_FREE = 0)"

definition cur_ok :: "ssdparams \<Rightarrow> (page \<Rightarrow> pg_status) \<Rightarrow> write_pointer \<Rightarrow> nat \<Rightarrow> bool" where
  "cur_ok sp F wp cur \<longleftrightarrow> wp_curline wp = Some cur \<and> wp_blk wp = int cur \<and> wp_ok sp wp \<and>
     (\<forall>x \<in> line_set sp cur. F x = PG_FREE \<longleftrightarrow> write_pos sp wp \<le> stripe_pos sp x)"

definition lines_ok :: "ssdparams \<Rightarrow> (page \<Rightarrow> pg_status) \<Rightarrow> write_pointer \<Rightarrow> line_mgmt \<Rightarrow> nat list \<Rightarrow> bool" where
  "lines_ok sp F wp lm V \<longleftrightarrow>
     (\<exists>cur. line_sets_ok sp cur lm V \<and> cur_ok sp F wp cur) \<and> line_pages_ok sp F lm V"

lemma line_sets_distinct:
  assumes "line_sets_ok sp cur lm V"
  shows "distinct (cur # free_line_list lm @ full_line_list lm @ victims lm @ V)"
    "set (cur # free_line_list lm @ full_line_list lm @ victims lm @ V) = {..<nB sp}"
proof -
  have m: "mset (cur # free_line_list lm @ full_line_list lm @ victims lm @ V) = mset [0..<nB sp]"
    using assms by (simp add: line_sets_ok_def)
  show "distinct (cur # free_line_list lm @ full_line_list lm @ victims lm @ V)"
    unfolding distinct_mset_eq [OF m] by (rule distinct_upt)
  show "set (cur # free_line_list lm @ full_line_list lm @ victims lm @ V) = {..<nB sp}"
    unfolding mset_eq_setD [OF m] set_upt by (rule atLeast0LessThan)
qed

lemma cur_okD: "cur_ok sp F wp cur \<Longrightarrow> x \<in> line_set sp cur \<Longrightarrow> F x = PG_FREE \<longleftrightarrow> write_pos sp wp \<le> stripe_pos sp x"
  unfolding cur_ok_def by blast

text \<open>The page at the write pointer.\<close>

definition next_page :: "write_pointer \<Rightarrow> page" where
  "next_page wp = (nat (wp_ch wp), nat (wp_lun wp), nat (wp_blk wp), nat (wp_pg wp))"

lemma next_page_props:
  assumes "line_sets_ok sp cur lm V" "cur_ok sp F wp cur"
  shows "in_range sp (next_page wp)" "page_line (next_page wp) = cur" "stripe_pos sp (next_page wp) = write_pos sp wp"
    "F (next_page wp) = PG_FREE" "write_pos sp wp < line_pages sp"
proof -
  have cur: "cur < nB sp" using line_sets_distinct(2) [OF assms(1)] by auto
  then show r: "in_range sp (next_page wp)"
    using assms(2) by (auto simp: cur_ok_def wp_ok_def next_page_def in_range_def)
  show l: "page_line (next_page wp) = cur" using assms(2) by (simp add: cur_ok_def next_page_def page_line_def)
  show w: "stripe_pos sp (next_page wp) = write_pos sp wp" by (simp add: next_page_def stripe_pos_def write_pos_def)
  have "next_page wp \<in> line_set sp cur" using r l by (simp add: line_set_def)
  then show "F (next_page wp) = PG_FREE" using cur_okD [OF assms(2)] w by simp
  show "write_pos sp wp < line_pages sp" using stripe_pos_less [OF r] w by simp
qed

lemma get_new_page_addr:
  assumes "cur_ok (ssd_sp s) F (ssd_wp s) cur"
  shows "get_new_page s = addr (next_page (ssd_wp s))"
proof -
  have n: "0 \<le> wp_ch (ssd_wp s)" "0 \<le> wp_lun (ssd_wp s)" "0 \<le> wp_pg (ssd_wp s)" "0 \<le> wp_blk (ssd_wp s)" "wp_pl (ssd_wp s) = 0"
    using assms by (auto simp: cur_ok_def wp_ok_def)
  then have "word_of_int (wp_ch (ssd_wp s)) = (of_nat (nat (wp_ch (ssd_wp s))) :: 7 word)"
    "word_of_int (wp_lun (ssd_wp s)) = (of_nat (nat (wp_lun (ssd_wp s))) :: 8 word)"
    "word_of_int (wp_pg (ssd_wp s)) = (of_nat (nat (wp_pg (ssd_wp s))) :: 16 word)"
    "word_of_int (wp_blk (ssd_wp s)) = (of_nat (nat (wp_blk (ssd_wp s))) :: 16 word)"
    by (simp_all only: of_nat_nat)
  then show ?thesis using n(5) by (simp add: get_new_page_def Let_def addr_def next_page_def ppa_of_raw_def)
qed

text \<open>In the current line the written pages are those before the write pointer.\<close>

lemma cur_counts:
  assumes "line_sets_ok sp cur lm V" "cur_ok sp F wp cur"
  shows "page_count sp F cur PG_VALID + page_count sp F cur PG_INVALID = write_pos sp wp"
proof -
  have cur: "cur < nB sp" using line_sets_distinct(2) [OF assms(1)] by auto
  note N = next_page_props [OF assms]
  have "{x \<in> line_set sp cur. stripe_pos sp x < write_pos sp wp} = line_set sp cur - {x \<in> line_set sp cur. F x = PG_FREE}"
    using cur_okD [OF assms(2)] by fastforce
  then have "write_pos sp wp = card (line_set sp cur - {x \<in> line_set sp cur. F x = PG_FREE})"
    using card_line_stripe [OF cur, of "write_pos sp wp"] N(5) by simp
  also have "\<dots> = line_pages sp - page_count sp F cur PG_FREE"
    unfolding page_count_def card_line_set [OF cur, symmetric] by (rule card_Diff_subset) auto
  finally show ?thesis using page_count_sum [OF cur, of F] by linarith
qed

subsection \<open>Programming the next page\<close>

lemma upd_frames [simp]:
  "ssd_sp (upd_ch s p f) = ssd_sp s" "ssd_maptbl (upd_ch s p f) = ssd_maptbl s" "ssd_rmap (upd_ch s p f) = ssd_rmap s"
  "ssd_wp (upd_ch s p f) = ssd_wp s" "ssd_lm (upd_ch s p f) = ssd_lm s"
  "ssd_sp (upd_lm s g) = ssd_sp s" "ssd_maptbl (upd_lm s g) = ssd_maptbl s" "ssd_rmap (upd_lm s g) = ssd_rmap s"
  "ssd_wp (upd_lm s g) = ssd_wp s" "ssd_lm (upd_lm s g) = g (ssd_lm s)" "ssd_ch (upd_lm s g) = ssd_ch s"
  "ssd_sp (upd_wp s h) = ssd_sp s" "ssd_maptbl (upd_wp s h) = ssd_maptbl s" "ssd_rmap (upd_wp s h) = ssd_rmap s"
  "ssd_wp (upd_wp s h) = h (ssd_wp s)" "ssd_lm (upd_wp s h) = ssd_lm s" "ssd_ch (upd_wp s h) = ssd_ch s"
  by (simp_all add: upd_ch_def upd_lm_def upd_wp_def)

text \<open>Two states with the same flash array, mapping tables and parameters.\<close>

definition same_flash :: "ssd \<Rightarrow> ssd \<Rightarrow> bool" where
  "same_flash s s' \<longleftrightarrow> ssd_sp s' = ssd_sp s \<and> ssd_ch s' = ssd_ch s \<and> ssd_maptbl s' = ssd_maptbl s \<and> ssd_rmap s' = ssd_rmap s"

lemma flash_cong: "ssd_sp s' = ssd_sp s \<Longrightarrow> ssd_ch s' = ssd_ch s \<Longrightarrow> flash s' = flash s \<and> flash_shape s' = flash_shape s"
  by (simp add: flash_def flash_shape_def blk_at_def fun_eq_iff Let_def)

definition free_pages :: "ssdparams \<Rightarrow> write_pointer \<Rightarrow> line_mgmt \<Rightarrow> nat" where
  "free_pages sp wp lm = length (free_line_list lm) * line_pages sp + (line_pages sp - write_pos sp wp)"

lemma write_pos_next:
  assumes "wp_ok sp wp"
  shows "wp_ch wp + 1 \<noteq> nchs sp \<Longrightarrow> wp_ok sp (wp\<lparr>wp_ch := wp_ch wp + 1\<rparr>) \<and>
      write_pos sp (wp\<lparr>wp_ch := wp_ch wp + 1\<rparr>) = Suc (write_pos sp wp)"
    "wp_ch wp + 1 = nchs sp \<Longrightarrow> wp_lun wp + 1 \<noteq> luns_per_ch sp \<Longrightarrow> wp_ok sp (wp\<lparr>wp_ch := 0, wp_lun := wp_lun wp + 1\<rparr>) \<and>
      write_pos sp (wp\<lparr>wp_ch := 0, wp_lun := wp_lun wp + 1\<rparr>) = Suc (write_pos sp wp)"
    "wp_ch wp + 1 = nchs sp \<Longrightarrow> wp_lun wp + 1 = luns_per_ch sp \<Longrightarrow> wp_pg wp + 1 \<noteq> pgs_per_blk sp \<Longrightarrow>
      wp_ok sp (wp\<lparr>wp_ch := 0, wp_lun := 0, wp_pg := wp_pg wp + 1\<rparr>) \<and>
      write_pos sp (wp\<lparr>wp_ch := 0, wp_lun := 0, wp_pg := wp_pg wp + 1\<rparr>) = Suc (write_pos sp wp)"
    "wp_ch wp + 1 = nchs sp \<Longrightarrow> wp_lun wp + 1 = luns_per_ch sp \<Longrightarrow> wp_pg wp + 1 = pgs_per_blk sp \<Longrightarrow>
      Suc (write_pos sp wp) = line_pages sp"
proof -
  have pos: "0 \<le> wp_ch wp" "0 \<le> wp_lun wp" "0 \<le> wp_pg wp" using assms by (simp_all add: wp_ok_def)
  have ch: "nC sp = Suc (nat (wp_ch wp))" if "wp_ch wp + 1 = nchs sp" using that pos by (simp flip: that add: nat_add_distrib)
  have lun: "nL sp = Suc (nat (wp_lun wp))" if "wp_lun wp + 1 = luns_per_ch sp" using that pos by (simp flip: that add: nat_add_distrib)
  have pg: "nG sp = Suc (nat (wp_pg wp))" if "wp_pg wp + 1 = pgs_per_blk sp" using that pos by (simp flip: that add: nat_add_distrib)
  show "wp_ch wp + 1 \<noteq> nchs sp \<Longrightarrow> wp_ok sp (wp\<lparr>wp_ch := wp_ch wp + 1\<rparr>) \<and>
      write_pos sp (wp\<lparr>wp_ch := wp_ch wp + 1\<rparr>) = Suc (write_pos sp wp)"
    using assms by (simp add: wp_ok_def write_pos_def nat_add_distrib)
  show "wp_ch wp + 1 = nchs sp \<Longrightarrow> wp_lun wp + 1 \<noteq> luns_per_ch sp \<Longrightarrow> wp_ok sp (wp\<lparr>wp_ch := 0, wp_lun := wp_lun wp + 1\<rparr>) \<and>
      write_pos sp (wp\<lparr>wp_ch := 0, wp_lun := wp_lun wp + 1\<rparr>) = Suc (write_pos sp wp)"
    using assms ch by (simp add: wp_ok_def write_pos_def nat_add_distrib)
  show "wp_ch wp + 1 = nchs sp \<Longrightarrow> wp_lun wp + 1 = luns_per_ch sp \<Longrightarrow> wp_pg wp + 1 \<noteq> pgs_per_blk sp \<Longrightarrow>
      wp_ok sp (wp\<lparr>wp_ch := 0, wp_lun := 0, wp_pg := wp_pg wp + 1\<rparr>) \<and>
      write_pos sp (wp\<lparr>wp_ch := 0, wp_lun := 0, wp_pg := wp_pg wp + 1\<rparr>) = Suc (write_pos sp wp)"
    using assms ch lun by (simp add: wp_ok_def write_pos_def nat_add_distrib)
  show "wp_ch wp + 1 = nchs sp \<Longrightarrow> wp_lun wp + 1 = luns_per_ch sp \<Longrightarrow> wp_pg wp + 1 = pgs_per_blk sp \<Longrightarrow>
      Suc (write_pos sp wp) = line_pages sp"
    using ch lun pg by (simp add: write_pos_def)
qed

text \<open>The full line leaves the current place: it joins the full lines or the victims.\<close>

lemma retire_curline_ok:
  assumes sets: "line_sets_ok (ssd_sp s) cur (ssd_lm s) V" and pages: "line_pages_ok (ssd_sp s) F (ssd_lm s) V"
    and full: "page_count (ssd_sp s) F cur PG_FREE = 0" and sp: "params_ok (ssd_sp s)"
  defines "lm' \<equiv> ssd_lm (retire_curline s cur)"
  shows "same_flash s (retire_curline s cur)" "ssd_wp (retire_curline s cur) = ssd_wp s"
    "free_line_list lm' = free_line_list (ssd_lm s)" "free_line_cnt lm' = free_line_cnt (ssd_lm s)"
    "line_pages_ok (ssd_sp s) F lm' V"
    "free_line_list lm' = l # ls \<Longrightarrow>
       line_sets_ok (ssd_sp s) l (lm'\<lparr>free_line_list := ls, free_line_cnt := free_line_cnt lm' - 1\<rparr>) V"
proof -
  let ?sp = "ssd_sp s" and ?lm = "ssd_lm s"
  note D = line_sets_distinct [OF sets]
  have cur: "cur < nB ?sp" "cur \<notin> set (victims ?lm)" "cur \<notin> set V" "cur \<notin> set (free_line_list ?lm)" "cur \<notin> set (full_line_list ?lm)"
    using D by auto
  have vpc: "line_vpc (lm_lines ?lm ! cur) = int (page_count ?sp F cur PG_VALID)" using pages cur by (simp add: line_pages_ok_def)
  have ppl: "pgs_per_line ?sp = int (line_pages ?sp)" by (rule nat_tt_pgs(7) [OF sp])
  obtain r ls' q' where ins: "pqueue_insert True 0 (lm_lines ?lm) (victim_line_pq ?lm) cur = (r, ls', q')"
    by (cases "pqueue_insert True 0 (lm_lines ?lm) (victim_line_pq ?lm) cur") auto
  have wf: "pq_wf line_ix (lm_lines ?lm) (victim_line_pq ?lm)" "q_ops (victim_line_pq ?lm) = victim_ops"
    "length (lm_lines ?lm) = nB ?sp" using sets by (simp_all add: line_sets_ok_def)
  have ix: "line_ix (lm_lines ?lm) cur" using wf(3) cur by simp
  note I = victim_insert [OF wf(1,2) ix cur(2) ins]
  have len': "length ls' = length (lm_lines ?lm)" using I(4) wf(3) cur by (metis map_eq_imp_length_eq)
  define isfull where "isfull = (page_count ?sp F cur PG_VALID = line_pages ?sp)"
  have lm': "lm' = (if isfull then ?lm\<lparr>full_line_list := full_line_list ?lm @ [cur], full_line_cnt := full_line_cnt ?lm + 1\<rparr>
      else ?lm\<lparr>lm_lines := ls', victim_line_pq := q', victim_line_cnt := victim_line_cnt ?lm + 1\<rparr>)"
    by (simp add: lm'_def retire_curline_def vpc ppl isfull_def lm_pq_insert_def ins del: of_nat_mult)
  show "same_flash s (retire_curline s cur)" "ssd_wp (retire_curline s cur) = ssd_wp s"
    by (simp_all add: retire_curline_def same_flash_def lm_pq_insert_def)
  show free: "free_line_list lm' = free_line_list ?lm" "free_line_cnt lm' = free_line_cnt ?lm" by (simp_all add: lm')
  show "line_pages_ok ?sp F lm' V"
  proof (cases isfull)
    case True
    then show ?thesis using pages by (auto simp: lm' line_pages_ok_def isfull_def)
  next
    case False
    have sig: "line_vpc (ls' ! b) = line_vpc (lm_lines ?lm ! b)" "line_ipc (ls' ! b) = line_ipc (lm_lines ?lm ! b)" if "b < nB ?sp" for b
      using line_sigs_nth [OF I(4)] that wf(3) cur by auto
    have vs: "set (pq_elems q') = insert cur (set (victims ?lm))" using I(3) by (metis set_mset_mset set_mset_add_mset_insert)
    have "page_count ?sp F cur PG_VALID < line_pages ?sp"
      using False page_count_le [OF cur(1), of F PG_VALID] by (simp add: isfull_def)
    then show ?thesis using pages False sig vs full by (simp add: lm' line_pages_ok_def)
  qed
  show "line_sets_ok ?sp l (lm'\<lparr>free_line_list := ls, free_line_cnt := free_line_cnt lm' - 1\<rparr>) V"
    if l: "free_line_list lm' = l # ls"
  proof (cases isfull)
    case True
    then show ?thesis using sets l free by (simp add: lm' line_sets_ok_def ac_simps add_mset_commute)
  next
    case False
    have mv: "mset (pq_elems q') = add_mset cur (mset (victims ?lm))" by (rule I(3))
    have vs: "set (pq_elems q') = insert cur (set (victims ?lm))" using I(3) by (metis set_mset_mset set_mset_add_mset_insert)
    have "length (pq_elems q') = Suc (length (victims ?lm))" using mv by (metis size_add_mset size_mset)
    moreover have "line_id (ls' ! b) = int b" if "b < nB ?sp" for b
      using line_sigs_nth(1) [OF I(4)] that wf(3) cur sets by (simp add: line_sets_ok_def)
    moreover have "line_pos (ls' ! b) = 0" if "b < nB ?sp" "b \<notin> set (pq_elems q')" for b
      using I(5) [of b] that vs wf(3) cur sets by (simp add: line_sets_ok_def)
    ultimately show ?thesis
      using sets l free False I(1,2) mv len' wf(3) cur by (simp add: lm' line_sets_ok_def ac_simps add_mset_commute)
  qed
qed

lemma same_flashD: "same_flash s s' \<Longrightarrow> flash s' = flash s \<and> flash_shape s' = flash_shape s"
  using flash_cong [of s' s] by (simp add: same_flash_def)

lemma advance_write_pointer_ok:
  fixes s :: ssd
  defines "sp \<equiv> ssd_sp s" and "wp \<equiv> ssd_wp s" and "lm \<equiv> ssd_lm s"
  assumes sp: "params_ok sp" and sets: "line_sets_ok sp cur lm V" and pages: "line_pages_ok sp F lm V"
    and wp: "wp_curline wp = Some cur" "wp_blk wp = int cur" "wp_ok sp wp"
    and written: "\<And>x. x \<in> line_set sp cur \<Longrightarrow> F x = PG_FREE \<longleftrightarrow> Suc (write_pos sp wp) \<le> stripe_pos sp x"
  shows "case ssd_advance_write_pointer s of
     None \<Rightarrow> free_pages sp wp lm = 1
   | Some s' \<Rightarrow> same_flash s s' \<and> lines_ok sp F (ssd_wp s') (ssd_lm s') V \<and>
       Suc (free_pages sp (ssd_wp s') (ssd_lm s')) = free_pages sp wp lm \<and> 0 < free_pages sp (ssd_wp s') (ssd_lm s')"
proof -
  note W = write_pos_next [OF wp(3)]
  have stay: "lines_ok sp F wp' lm V \<and> Suc (free_pages sp wp' lm) = free_pages sp wp lm \<and> 0 < free_pages sp wp' lm"
    if "wp_ok sp wp'" "write_pos sp wp' = Suc (write_pos sp wp)" "wp_curline wp' = Some cur" "wp_blk wp' = int cur" for wp'
  proof -
    have c: "cur_ok sp F wp' cur" unfolding cur_ok_def using that written by simp
    have "write_pos sp wp' < line_pages sp" using next_page_props(5) [OF sets c] .
    moreover from this have "Suc (line_pages sp - write_pos sp wp') = line_pages sp - write_pos sp wp"
      unfolding that(2) by (intro Suc_diff_Suc) simp
    ultimately have "Suc (free_pages sp wp' lm) = free_pages sp wp lm \<and> 0 < free_pages sp wp' lm"
      unfolding free_pages_def by linarith
    then show ?thesis using sets pages c by (auto simp: lines_ok_def)
  qed
  consider "wp_ch wp + 1 \<noteq> nchs sp" | "wp_ch wp + 1 = nchs sp" "wp_lun wp + 1 \<noteq> luns_per_ch sp"
    | "wp_ch wp + 1 = nchs sp" "wp_lun wp + 1 = luns_per_ch sp" "wp_pg wp + 1 \<noteq> pgs_per_blk sp"
    | "wp_ch wp + 1 = nchs sp" "wp_lun wp + 1 = luns_per_ch sp" "wp_pg wp + 1 = pgs_per_blk sp" by blast
  then show ?thesis
  proof cases
    case 1
    then have "ssd_advance_write_pointer s = Some (upd_wp s (\<lambda>w. w\<lparr>wp_ch := wp_ch w + 1\<rparr>))"
      by (simp add: ssd_advance_write_pointer_def Let_def sp_def wp_def)
    then show ?thesis using stay [of "wp\<lparr>wp_ch := wp_ch wp + 1\<rparr>"] W(1) [OF 1] wp
      by (simp add: same_flash_def wp_def lm_def)
  next
    case 2
    then have "ssd_advance_write_pointer s = Some (upd_wp (upd_wp s (\<lambda>w. w\<lparr>wp_ch := wp_ch w + 1\<rparr>)) (\<lambda>w. w\<lparr>wp_ch := 0, wp_lun := wp_lun w + 1\<rparr>))"
      by (simp add: ssd_advance_write_pointer_def Let_def sp_def wp_def)
    then show ?thesis using stay [of "wp\<lparr>wp_ch := 0, wp_lun := wp_lun wp + 1\<rparr>"] W(2) [OF 2] wp
      by (simp add: same_flash_def wp_def lm_def)
  next
    case 3
    then have "\<exists>s'. ssd_advance_write_pointer s = Some s' \<and> same_flash s s' \<and>
        ssd_wp s' = wp\<lparr>wp_ch := 0, wp_lun := 0, wp_pg := wp_pg wp + 1\<rparr> \<and> ssd_lm s' = lm"
      by (simp add: ssd_advance_write_pointer_def Let_def sp_def wp_def lm_def same_flash_def)
    then show ?thesis using stay [of "wp\<lparr>wp_ch := 0, wp_lun := 0, wp_pg := wp_pg wp + 1\<rparr>"] W(3) [OF 3] wp by auto
  next
    case 4
    let ?s0 = "upd_wp s (\<lambda>w. w\<lparr>wp_ch := 0, wp_lun := 0, wp_pg := 0\<rparr>)"
    define s1 where "s1 = retire_curline ?s0 cur"
    have end_line: "Suc (write_pos sp wp) = line_pages sp" by (rule W(4) [OF 4])
    have none_free: "page_count sp F cur PG_FREE = 0"
      unfolding page_count_zero using written stripe_pos_less end_line by (fastforce simp: line_set_def)
    have sp0: "ssd_sp ?s0 = sp" "ssd_lm ?s0 = lm" by (simp_all add: sp_def lm_def)
    note R = retire_curline_ok [where s = ?s0, unfolded sp0, OF sets pages none_free sp, folded s1_def]
    have adv: "ssd_advance_write_pointer s = (case get_next_free_line (upd_wp s1 (\<lambda>w. w\<lparr>wp_curline := None\<rparr>)) of
        None \<Rightarrow> None
      | Some (l, s') \<Rightarrow> Some (upd_wp s' (\<lambda>w. w\<lparr>wp_curline := Some l, wp_blk := line_id (lm_lines (ssd_lm s') ! l)\<rparr>)))"
      using 4 wp(1) by (simp add: ssd_advance_write_pointer_def Let_def sp_def wp_def s1_def upd_wp_def)
    show ?thesis
    proof (cases "free_line_list lm")
      case Nil
      then have "ssd_advance_write_pointer s = None" using R(3) by (simp add: adv get_next_free_line_def)
      then show ?thesis using Nil end_line by (simp add: free_pages_def)
    next
      case (Cons l ls)
      let ?lm1 = "ssd_lm s1" and ?wp1 = "wp\<lparr>wp_ch := 0, wp_lun := 0, wp_pg := 0, wp_curline := Some l, wp_blk := line_id (lm_lines (ssd_lm s1) ! l)\<rparr>"
      let ?lm' = "?lm1\<lparr>free_line_list := ls, free_line_cnt := free_line_cnt ?lm1 - 1\<rparr>"
      have "\<exists>s'. ssd_advance_write_pointer s = Some s' \<and> same_flash s s' \<and> ssd_wp s' = ?wp1 \<and> ssd_lm s' = ?lm'"
        using R(1,2,3) Cons by (simp add: adv get_next_free_line_def same_flash_def sp_def wp_def)
      then obtain s' where s': "ssd_advance_write_pointer s = Some s'" "same_flash s s'" "ssd_wp s' = ?wp1" "ssd_lm s' = ?lm'"
        by blast
      have sets': "line_sets_ok sp l ?lm' V" using R(6) R(3) Cons by simp
      have pages': "line_pages_ok sp F ?lm' V" using R(3,5) Cons by (simp add: line_pages_ok_def)
      have l: "l < nB sp" "l \<in> set (free_line_list lm)" using line_sets_distinct(2) [OF sets'] Cons by auto
      have ok: "wp_ok sp ?wp1" "write_pos sp ?wp1 = 0" using params_bounds(5-8) [OF sp] wp(3)
        by (simp_all add: wp_ok_def write_pos_def)
      have "line_id (lm_lines ?lm1 ! l) = int l" using sets' l(1) by (simp add: line_sets_ok_def)
      moreover have "F x = PG_FREE" if "x \<in> line_set sp l" for x
        using pages l(2) that unfolding line_pages_ok_def by blast
      ultimately have cur': "cur_ok sp F ?wp1 l" unfolding cur_ok_def using ok by simp
      have "lines_ok sp F ?wp1 ?lm' V" using sets' pages' cur' by (auto simp: lines_ok_def)
      moreover have "Suc (free_pages sp ?wp1 ?lm') = free_pages sp wp lm" "0 < free_pages sp ?wp1 ?lm'"
        using ok(2) nat_tt_pgs(4) [OF sp] by (simp_all add: free_pages_def Cons flip: end_line)
      ultimately show ?thesis using s' by simp
    qed
  qed
qed

lemma same_tablesD:
  "same_tables s s' \<Longrightarrow> ssd_sp s' = ssd_sp s \<and> ssd_maptbl s' = ssd_maptbl s \<and> ssd_rmap s' = ssd_rmap s \<and>
     ssd_wp s' = ssd_wp s \<and> ssd_lm s' = ssd_lm s"
  by (simp add: same_tables_def)

lemma mark_page_valid_ok:
  assumes sp: "params_ok (ssd_sp s)" and sh: "flash_shape s" and x: "in_range (ssd_sp s) x"
  defines "s' \<equiv> mark_page_valid s (addr x)" and "ls \<equiv> lm_lines (ssd_lm s)" and "b \<equiv> page_line x"
  shows "ssd_sp s' = ssd_sp s" "ssd_maptbl s' = ssd_maptbl s" "ssd_rmap s' = ssd_rmap s" "ssd_wp s' = ssd_wp s"
    "flash s' = (flash s)(x := PG_VALID)" "flash_shape s'"
    "ssd_lm s' = (ssd_lm s)\<lparr>lm_lines := ls[b := (ls ! b)\<lparr>line_vpc := line_vpc (ls ! b) + 1\<rparr>]\<rparr>"
proof -
  define s1 where "s1 = upd_pg s (addr x) (\<lambda>pg. pg\<lparr>pg_status := PG_VALID\<rparr>)"
  define s2 where "s2 = upd_blk s1 (addr x) (\<lambda>b. b\<lparr>blk_vpc := blk_vpc b + 1\<rparr>)"
  have 1: "flash_step s s1 ((flash s)(x := PG_VALID))" unfolding s1_def by (rule upd_pg_step [OF sp sh x])
  then have sp1: "ssd_sp s1 = ssd_sp s" "flash_shape s1" by (simp_all add: flash_step_def same_tables_def)
  have 2: "flash_step s s2 ((flash s)(x := PG_VALID))"
    using flash_step_trans [OF 1 upd_blk_counters_step [of s1 x "\<lambda>b. b\<lparr>blk_vpc := blk_vpc b + 1\<rparr>"]] sp1 sp x 1
    by (simp add: s2_def flash_step_def)
  have s': "s' = upd_line s2 b (\<lambda>ln. ln\<lparr>line_vpc := line_vpc ln + 1\<rparr>)"
    by (simp add: s'_def mark_page_valid_def Let_def s1_def s2_def b_def get_line_addr [OF sp x])
  have T: "ssd_sp s2 = ssd_sp s" "ssd_maptbl s2 = ssd_maptbl s" "ssd_rmap s2 = ssd_rmap s" "ssd_wp s2 = ssd_wp s" "ssd_lm s2 = ssd_lm s"
    "flash s2 = (flash s)(x := PG_VALID)" "flash_shape s2"
    using 2 by (simp_all add: flash_step_def same_tables_def)
  show "ssd_sp s' = ssd_sp s" "ssd_maptbl s' = ssd_maptbl s" "ssd_rmap s' = ssd_rmap s" "ssd_wp s' = ssd_wp s"
    by (simp_all add: s' upd_line_def T)
  show "ssd_lm s' = (ssd_lm s)\<lparr>lm_lines := ls[b := (ls ! b)\<lparr>line_vpc := line_vpc (ls ! b) + 1\<rparr>]\<rparr>"
    by (simp add: s' upd_line_def T ls_def)
  show "flash s' = (flash s)(x := PG_VALID)" "flash_shape s'"
    using flash_cong [of s' s2] T by (simp_all add: s' upd_line_def)
qed

text \<open>A page of the current line becomes valid and is counted.\<close>

lemma line_pages_ok_program:
  assumes P: "line_pages_ok sp F lm V" and len: "length (lm_lines lm) = nB sp"
    and x: "x \<in> line_set sp cur" "F x = PG_FREE"
    and cur: "cur < nB sp" "cur \<notin> set (victims lm)" "cur \<notin> set V" "cur \<notin> set (free_line_list lm)" "cur \<notin> set (full_line_list lm)"
  defines "lm' \<equiv> lm\<lparr>lm_lines := (lm_lines lm)[cur := (lm_lines lm ! cur)\<lparr>line_vpc := line_vpc (lm_lines lm ! cur) + 1\<rparr>]\<rparr>"
  shows "line_pages_ok sp (F(x := PG_VALID)) lm' V"
proof -
  let ?G = "F(x := PG_VALID)"
  have sets: "free_line_list lm' = free_line_list lm" "full_line_list lm' = full_line_list lm" "victims lm' = victims lm"
    by (simp_all add: lm'_def)
  have cnt: "page_count sp ?G b st = (if b = cur then if st = PG_VALID then Suc (page_count sp F b st)
      else if st = PG_FREE then page_count sp F b st - 1 else page_count sp F b st else page_count sp F b st)" for b st
  proof (cases "b = cur")
    case True
    then show ?thesis using page_count_upd [where F = F, OF x(1), of PG_VALID st] x(2) by auto
  next
    case False
    then have "x \<notin> line_set sp b" using x(1) by (simp add: line_set_def)
    then show ?thesis using False by (simp add: page_count_other)
  qed
  have other: "x' \<noteq> x" if "x' \<in> line_set sp b" "b \<noteq> cur" for x' b using that x(1) by (auto simp: line_set_def)
  show ?thesis
    unfolding line_pages_ok_def sets
  proof (intro conjI allI impI ballI)
    fix b assume b: "b < nB sp" "b \<notin> set V"
    then show "line_vpc (lm_lines lm' ! b) = int (page_count sp ?G b PG_VALID)"
      "line_ipc (lm_lines lm' ! b) = int (page_count sp ?G b PG_INVALID)"
      using P len cur(1,3) by (simp_all add: lm'_def line_pages_ok_def cnt nth_list_update_total)
  next
    fix b x' assume b: "b \<in> set (free_line_list lm)" and x': "x' \<in> line_set sp b"
    then have "b \<noteq> cur" using cur(4) by auto
    then show "?G x' = PG_FREE" using P b x' other [OF x'] unfolding line_pages_ok_def by simp
  next
    fix b assume b: "b \<in> set (full_line_list lm)"
    then have "b \<noteq> cur" using cur(5) by auto
    then show "page_count sp ?G b PG_VALID = line_pages sp" using P b by (simp add: line_pages_ok_def cnt)
  next
    fix b assume b: "b \<in> set (victims lm)"
    then have "b \<noteq> cur" using cur(2) by auto
    then show "page_count sp ?G b PG_VALID < line_pages sp" "page_count sp ?G b PG_FREE = 0"
      using P b by (simp_all add: line_pages_ok_def cnt)
  qed
qed

text \<open>Marking the page at the write pointer valid and advancing the pointer.\<close>

lemma program_page_ok:
  fixes s :: ssd
  defines "sp \<equiv> ssd_sp s" and "x \<equiv> next_page (ssd_wp s)"
  assumes sp: "params_ok sp" and sh: "flash_shape s" and lines: "lines_ok sp (flash s) (ssd_wp s) (ssd_lm s) V"
  shows "get_new_page s = addr x" "in_range sp x" "flash s x = PG_FREE" "page_line x \<notin> set V"
    "0 < free_pages sp (ssd_wp s) (ssd_lm s)"
    "case ssd_advance_write_pointer (mark_page_valid s (addr x)) of
       None \<Rightarrow> free_pages sp (ssd_wp s) (ssd_lm s) = 1
     | Some s' \<Rightarrow> ssd_sp s' = sp \<and> ssd_maptbl s' = ssd_maptbl s \<and> ssd_rmap s' = ssd_rmap s \<and>
         flash s' = (flash s)(x := PG_VALID) \<and> flash_shape s' \<and> lines_ok sp (flash s') (ssd_wp s') (ssd_lm s') V \<and>
         Suc (free_pages sp (ssd_wp s') (ssd_lm s')) = free_pages sp (ssd_wp s) (ssd_lm s) \<and>
         0 < free_pages sp (ssd_wp s') (ssd_lm s')"
proof -
  let ?lm = "ssd_lm s" and ?wp = "ssd_wp s" and ?F = "flash s"
  obtain cur where C: "line_sets_ok sp cur ?lm V" "cur_ok sp ?F ?wp cur" and P: "line_pages_ok sp ?F ?lm V"
    using lines by (auto simp: lines_ok_def)
  note N = next_page_props [OF C, folded x_def]
  note D = line_sets_distinct [OF C(1)]
  have cur: "cur < nB sp" "cur \<notin> set (victims ?lm)" "cur \<notin> set V" "cur \<notin> set (free_line_list ?lm)" "cur \<notin> set (full_line_list ?lm)"
    using D by auto
  show "get_new_page s = addr x" using get_new_page_addr C(2) unfolding sp_def x_def by blast
  show "in_range sp x" "?F x = PG_FREE" using N by simp_all
  show "page_line x \<notin> set V" using N cur by simp
  show "0 < free_pages sp ?wp ?lm" using N(5) by (simp add: free_pages_def)
  let ?s1 = "mark_page_valid s (addr x)" and ?G = "?F(x := PG_VALID)"
  note M = mark_page_valid_ok [OF sp [unfolded sp_def] sh N(1) [unfolded sp_def], folded sp_def, unfolded N(2)]
  have len: "length (lm_lines ?lm) = nB sp" using C(1) by (simp add: line_sets_ok_def)
  have xs: "x \<in> line_set sp cur" using N by (simp add: line_set_def)
  have sets: "line_sets_ok sp cur (ssd_lm ?s1) V"
  proof -
    have "pq_wf line_ix (lm_lines (ssd_lm ?s1)) (victim_line_pq ?lm)"
      unfolding M(7) using victim_wf_upd [OF _ _ cur(2)] C(1) by (simp add: line_sets_ok_def)
    then show ?thesis using C(1) M(7) by (simp add: line_sets_ok_def nth_list_update_total)
  qed
  have pages: "line_pages_ok sp ?G (ssd_lm ?s1) V"
    unfolding M(7) by (rule line_pages_ok_program [OF P len xs N(4) cur])
  have written: "?G x' = PG_FREE \<longleftrightarrow> Suc (write_pos sp ?wp) \<le> stripe_pos sp x'" if "x' \<in> line_set sp cur" for x'
  proof (cases "x' = x")
    case False
    have "stripe_pos sp x' \<noteq> write_pos sp ?wp"
      using stripe_pos_inj [of sp x' x] False that N by (auto simp: line_set_def)
    then show ?thesis using cur_okD [OF C(2) that] False by auto
  qed (use N(3) in simp)
  have wp: "wp_curline ?wp = Some cur" "wp_blk ?wp = int cur" "wp_ok sp ?wp" using C(2) unfolding cur_ok_def by blast+
  have fp: "free_pages sp ?wp (ssd_lm ?s1) = free_pages sp ?wp ?lm" by (simp add: free_pages_def M(7))
  note A = advance_write_pointer_ok [where s = ?s1, unfolded M(1,4) fp, OF sp sets pages wp written]
  have fl: "flash s' = ?G \<and> flash_shape s' = flash_shape ?s1" if "same_flash ?s1 s'" for s'
    using same_flashD [OF that] M(5) by simp
  show "case ssd_advance_write_pointer ?s1 of
       None \<Rightarrow> free_pages sp (ssd_wp s) (ssd_lm s) = 1
     | Some s' \<Rightarrow> ssd_sp s' = sp \<and> ssd_maptbl s' = ssd_maptbl s \<and> ssd_rmap s' = ssd_rmap s \<and>
         flash s' = (flash s)(x := PG_VALID) \<and> flash_shape s' \<and> lines_ok sp (flash s') (ssd_wp s') (ssd_lm s') V \<and>
         Suc (free_pages sp (ssd_wp s') (ssd_lm s')) = free_pages sp (ssd_wp s) (ssd_lm s) \<and>
         0 < free_pages sp (ssd_wp s') (ssd_lm s')"
  proof (cases "ssd_advance_write_pointer ?s1")
    case None
    then show ?thesis using A by simp
  next
    case (Some s')
    then have A': "same_flash ?s1 s'" "lines_ok sp ?G (ssd_wp s') (ssd_lm s') V"
      "Suc (free_pages sp (ssd_wp s') (ssd_lm s')) = free_pages sp ?wp ?lm" "0 < free_pages sp (ssd_wp s') (ssd_lm s')"
      using A by simp_all
    then show ?thesis using Some fl [OF A'(1)] M by (simp add: same_flash_def)
  qed
qed

subsection \<open>Invalidating a page\<close>

text \<open>The line part of \<open>mark_page_invalid\<close>.\<close>

definition invalidate_in_line :: "int \<Rightarrow> line_mgmt \<Rightarrow> nat \<Rightarrow> line_mgmt" where
  "invalidate_in_line ppl lm0 l =
     (let lm = lm0\<lparr>lm_lines := (lm_lines lm0)[l := (lm_lines lm0 ! l)\<lparr>line_ipc := line_ipc (lm_lines lm0 ! l) + 1\<rparr>]\<rparr>;
          lm = (if line_pos (lm_lines lm ! l) \<noteq> 0
                then (case pqueue_change_priority (lm_lines lm) (victim_line_pq lm) (u64_of_c_int (line_vpc (lm_lines lm ! l) - 1)) l of
                        (ls, q) \<Rightarrow> lm\<lparr>lm_lines := ls, victim_line_pq := q\<rparr>)
                else lm\<lparr>lm_lines := (lm_lines lm)[l := (lm_lines lm ! l)\<lparr>line_vpc := line_vpc (lm_lines lm ! l) - 1\<rparr>]\<rparr>)
      in if line_vpc (lm_lines lm0 ! l) = ppl
         then (let lm = lm\<lparr>full_line_list := remove1 l (full_line_list lm), full_line_cnt := full_line_cnt lm - 1\<rparr>
               in (case pqueue_insert True 0 (lm_lines lm) (victim_line_pq lm) l of
                     (_, ls, q) \<Rightarrow> lm\<lparr>lm_lines := ls, victim_line_pq := q, victim_line_cnt := victim_line_cnt lm + 1\<rparr>))
         else lm)"

lemma mark_page_invalid_flash:
  assumes sp: "params_ok (ssd_sp s)" and sh: "flash_shape s" and x: "in_range (ssd_sp s) x"
  defines "s' \<equiv> mark_page_invalid s (addr x)"
  shows "ssd_sp s' = ssd_sp s" "ssd_maptbl s' = ssd_maptbl s" "ssd_rmap s' = ssd_rmap s" "ssd_wp s' = ssd_wp s"
    "flash s' = (flash s)(x := PG_INVALID)" "flash_shape s'"
    "ssd_lm s' = invalidate_in_line (pgs_per_line (ssd_sp s)) (ssd_lm s) (page_line x)"
proof -
  define s1 where "s1 = upd_pg s (addr x) (\<lambda>pg. pg\<lparr>pg_status := PG_INVALID\<rparr>)"
  define s2 where "s2 = upd_blk s1 (addr x) (\<lambda>b. b\<lparr>blk_ipc := blk_ipc b + 1\<rparr>)"
  define s3 where "s3 = upd_blk s2 (addr x) (\<lambda>b. b\<lparr>blk_vpc := blk_vpc b - 1\<rparr>)"
  have 1: "flash_step s s1 ((flash s)(x := PG_INVALID))" unfolding s1_def by (rule upd_pg_step [OF sp sh x])
  have 2: "flash_step s s2 ((flash s)(x := PG_INVALID))"
    using flash_step_trans [OF 1 upd_blk_counters_step [of s1 x "\<lambda>b. b\<lparr>blk_ipc := blk_ipc b + 1\<rparr>"]] sp x 1
    by (simp add: s2_def flash_step_def same_tables_def)
  have 3: "flash_step s s3 ((flash s)(x := PG_INVALID))"
    using flash_step_trans [OF 2 upd_blk_counters_step [of s2 x "\<lambda>b. b\<lparr>blk_vpc := blk_vpc b - 1\<rparr>"]] sp x 2
    by (simp add: s3_def flash_step_def same_tables_def)
  then have T: "ssd_sp s3 = ssd_sp s" "ssd_maptbl s3 = ssd_maptbl s" "ssd_rmap s3 = ssd_rmap s" "ssd_wp s3 = ssd_wp s"
    "ssd_lm s3 = ssd_lm s" "flash s3 = (flash s)(x := PG_INVALID)" "flash_shape s3"
    by (simp_all add: flash_step_def same_tables_def)
  have "\<exists>f. s' = upd_lm s3 f"
    unfolding s'_def mark_page_invalid_def Let_def s1_def [symmetric] s2_def [symmetric] s3_def [symmetric]
      upd_line_def lm_pq_change_priority_def lm_pq_insert_def
    by (auto simp: upd_lm_def intro: exI [of _ "\<lambda>_. ssd_lm s3"] exI [of _ "\<lambda>_. y" for y])
  then obtain f where s': "s' = upd_lm s3 f" ..
  then show "ssd_sp s' = ssd_sp s" "ssd_maptbl s' = ssd_maptbl s" "ssd_rmap s' = ssd_rmap s" "ssd_wp s' = ssd_wp s"
    by (simp_all add: T)
  show "flash s' = (flash s)(x := PG_INVALID)" "flash_shape s'" using flash_cong [of s' s3] T by (simp_all add: s')
  show "ssd_lm s' = invalidate_in_line (pgs_per_line (ssd_sp s)) (ssd_lm s) (page_line x)"
    unfolding s'_def mark_page_invalid_def Let_def s1_def [symmetric] s2_def [symmetric] s3_def [symmetric]
      invalidate_in_line_def get_line_addr [OF sp x]
    by (simp add: upd_line_def lm_pq_change_priority_def lm_pq_insert_def T split: prod.split)
qed

text \<open>The counters after a valid page of line \<open>l\<close> has become invalid.\<close>

lemma line_pages_ok_invalidate:
  assumes P: "line_pages_ok sp F lm V" and x: "x \<in> line_set sp l" "F x = PG_VALID" and l: "l < nB sp" "l \<notin> set V"
    and vpc: "\<And>b. b < nB sp \<Longrightarrow> line_vpc (lm_lines lm' ! b) = line_vpc (lm_lines lm ! b) - (if b = l then 1 else 0)"
    and ipc: "\<And>b. b < nB sp \<Longrightarrow> line_ipc (lm_lines lm' ! b) = line_ipc (lm_lines lm ! b) + (if b = l then 1 else 0)"
    and sets: "free_line_list lm' = free_line_list lm" "set (full_line_list lm') \<subseteq> set (full_line_list lm) - {l}"
      "\<And>b. b \<in> set (victims lm') \<Longrightarrow> b \<in> set (victims lm) \<or> b = l \<and> l \<in> set (full_line_list lm)"
  shows "line_pages_ok sp (F(x := PG_INVALID)) lm' V"
proof -
  let ?G = "F(x := PG_INVALID)"
  have pos: "0 < page_count sp F l PG_VALID" using page_count_pos [where F = F, OF x(1)] x(2) by simp
  have cnt: "page_count sp ?G b st = (if b = l then if st = PG_INVALID then Suc (page_count sp F b st)
      else if st = PG_VALID then page_count sp F b st - 1 else page_count sp F b st else page_count sp F b st)" for b st
  proof (cases "b = l")
    case True
    then show ?thesis using page_count_upd [where F = F, OF x(1), of PG_INVALID st] x(2) by auto
  next
    case False
    then have "x \<notin> line_set sp b" using x(1) by (simp add: line_set_def)
    then show ?thesis using False by (simp add: page_count_other)
  qed
  show ?thesis
    unfolding line_pages_ok_def sets(1)
  proof (intro conjI allI impI ballI)
    fix b assume b: "b < nB sp" "b \<notin> set V"
    then have "line_vpc (lm_lines lm ! b) = int (page_count sp F b PG_VALID)"
      "line_ipc (lm_lines lm ! b) = int (page_count sp F b PG_INVALID)" using P by (simp_all add: line_pages_ok_def)
    then show "line_vpc (lm_lines lm' ! b) = int (page_count sp ?G b PG_VALID)"
      "line_ipc (lm_lines lm' ! b) = int (page_count sp ?G b PG_INVALID)"
      using vpc [OF b(1)] ipc [OF b(1)] pos by (simp_all add: cnt of_nat_diff)
  next
    fix b x' assume b: "b \<in> set (free_line_list lm)" and x': "x' \<in> line_set sp b"
    then have "F x' = PG_FREE" using P unfolding line_pages_ok_def by blast
    then show "?G x' = PG_FREE" using x(2) by auto
  next
    fix b assume b: "b \<in> set (full_line_list lm')"
    then show "page_count sp ?G b PG_VALID = line_pages sp" using P sets(2) by (auto simp: line_pages_ok_def cnt)
  next
    fix b assume b: "b \<in> set (victims lm')"
    have "page_count sp F b PG_VALID \<le> line_pages sp \<and> page_count sp F b PG_FREE = 0"
      "b \<noteq> l \<Longrightarrow> page_count sp F b PG_VALID < line_pages sp"
      using sets(3) [OF b] P page_count_sum [OF l(1), of F] by (auto simp: line_pages_ok_def)
    then show "page_count sp ?G b PG_VALID < line_pages sp" "page_count sp ?G b PG_FREE = 0"
      using pos by (auto simp: cnt)
  qed
qed

lemma invalidate_victim:
  assumes S: "line_sets_ok sp cur lm V" and l: "l \<in> set (victims lm)"
    and vpc: "0 < line_vpc (lm_lines lm ! l)" "line_vpc (lm_lines lm ! l) < ppl" "ppl < 2 ^ 31"
  defines "lm' \<equiv> invalidate_in_line ppl lm l"
  shows "line_sets_ok sp cur lm' V" "free_line_list lm' = free_line_list lm" "full_line_list lm' = full_line_list lm"
    "set (victims lm') = set (victims lm)"
    "b < nB sp \<Longrightarrow> line_vpc (lm_lines lm' ! b) = line_vpc (lm_lines lm ! b) - (if b = l then 1 else 0)"
    "b < nB sp \<Longrightarrow> line_ipc (lm_lines lm' ! b) = line_ipc (lm_lines lm ! b) + (if b = l then 1 else 0)"
proof -
  let ?ls = "lm_lines lm" and ?q = "victim_line_pq lm"
  let ?ls1 = "?ls[l := (?ls ! l)\<lparr>line_ipc := line_ipc (?ls ! l) + 1\<rparr>]"
  have wf: "pq_wf line_ix ?ls ?q" "q_ops ?q = victim_ops" "length ?ls = nB sp" using S by (simp_all add: line_sets_ok_def)
  have lB: "l < nB sp" using line_sets_distinct(2) [OF S] l by auto
  have wf1: "pq_wf line_ix ?ls1 ?q"
    using wf(1,2) by (rule victim_wf_cong) (simp_all add: nth_list_update_total)
  have pos: "line_pos (?ls1 ! l) \<noteq> 0" using victim_pos_pos [OF wf(1,2) l] wf(3) lB by simp
  obtain ls' q' where cp: "pqueue_change_priority ?ls1 ?q (u64_of_c_int (line_vpc (?ls ! l) - 1)) l = (ls', q')"
    by (cases "pqueue_change_priority ?ls1 ?q (u64_of_c_int (line_vpc (?ls ! l) - 1)) l") auto
  have v: "0 \<le> line_vpc (?ls ! l) - 1" "line_vpc (?ls ! l) - 1 < 2 ^ 31" using vpc by auto
  note C = victim_change_priority [OF wf1 wf(2) l v cp]
  have len: "length ls' = nB sp" using C(4) wf(3) by (metis map_eq_imp_length_eq length_list_update)
  have sig: "line_id (ls' ! b) = line_id (?ls ! b)" "line_ipc (ls' ! b) = line_ipc (?ls ! b) + (if b = l then 1 else 0)"
    "line_vpc (ls' ! b) = line_vpc (?ls ! b) - (if b = l then 1 else 0)" if "b < nB sp" for b
    using line_sigs_nth [OF C(4), of b] that wf(3) lB by (auto simp: nth_list_update_total)
  have lm': "lm' = lm\<lparr>lm_lines := ls', victim_line_pq := q'\<rparr>"
    unfolding lm'_def invalidate_in_line_def Let_def using vpc(2) pos wf(3) lB cp by simp
  have vs: "set (pq_elems q') = set (victims lm)" using C(3) by (rule mset_eq_setD)
  have sz: "length (pq_elems q') = length (victims lm)" using C(3) by (metis size_mset)
  have pos': "line_pos (ls' ! b) = 0" if "b < nB sp" "b \<notin> set (victims lm)" for b
    using C(5) [OF that(2)] that S l by (auto simp: line_sets_ok_def nth_list_update_total)
  show "line_sets_ok sp cur lm' V"
    using S C(1,2,3) len sig(1) vs sz pos' by (simp add: lm' line_sets_ok_def)
  show "free_line_list lm' = free_line_list lm" "full_line_list lm' = full_line_list lm" "set (victims lm') = set (victims lm)"
    by (simp_all add: lm' vs)
  show "b < nB sp \<Longrightarrow> line_vpc (lm_lines lm' ! b) = line_vpc (lm_lines lm ! b) - (if b = l then 1 else 0)"
    "b < nB sp \<Longrightarrow> line_ipc (lm_lines lm' ! b) = line_ipc (lm_lines lm ! b) + (if b = l then 1 else 0)"
    using sig by (simp_all add: lm')
qed

lemma invalidate_current:
  assumes S: "line_sets_ok sp cur lm V" and l: "l < nB sp" "l \<notin> set (victims lm)"
    and vpc: "line_vpc (lm_lines lm ! l) \<noteq> ppl"
  defines "lm' \<equiv> invalidate_in_line ppl lm l"
  shows "line_sets_ok sp cur lm' V" "free_line_list lm' = free_line_list lm" "full_line_list lm' = full_line_list lm"
    "set (victims lm') = set (victims lm)"
    "b < nB sp \<Longrightarrow> line_vpc (lm_lines lm' ! b) = line_vpc (lm_lines lm ! b) - (if b = l then 1 else 0)"
    "b < nB sp \<Longrightarrow> line_ipc (lm_lines lm' ! b) = line_ipc (lm_lines lm ! b) + (if b = l then 1 else 0)"
proof -
  let ?ls = "lm_lines lm" and ?q = "victim_line_pq lm"
  let ?ls' = "?ls[l := (?ls ! l)\<lparr>line_ipc := line_ipc (?ls ! l) + 1, line_vpc := line_vpc (?ls ! l) - 1\<rparr>]"
  have wf: "pq_wf line_ix ?ls ?q" "q_ops ?q = victim_ops" "length ?ls = nB sp" using S by (simp_all add: line_sets_ok_def)
  have pos: "line_pos (?ls ! l) = 0" using S l by (simp add: line_sets_ok_def)
  have lm': "lm' = lm\<lparr>lm_lines := ?ls'\<rparr>"
    unfolding lm'_def invalidate_in_line_def Let_def using vpc pos wf(3) l(1) by simp
  have "pq_wf line_ix ?ls' ?q" using victim_wf_upd [OF wf(1,2) l(2)] .
  then show "line_sets_ok sp cur lm' V"
    using S pos by (simp add: lm' line_sets_ok_def nth_list_update_total)
  show "free_line_list lm' = free_line_list lm" "full_line_list lm' = full_line_list lm" "set (victims lm') = set (victims lm)"
    by (simp_all add: lm')
  show "b < nB sp \<Longrightarrow> line_vpc (lm_lines lm' ! b) = line_vpc (lm_lines lm ! b) - (if b = l then 1 else 0)"
    "b < nB sp \<Longrightarrow> line_ipc (lm_lines lm' ! b) = line_ipc (lm_lines lm ! b) + (if b = l then 1 else 0)"
    using wf(3) l(1) by (auto simp: lm' nth_list_update_total)
qed

lemma invalidate_full:
  assumes S: "line_sets_ok sp cur lm V" and l: "l \<in> set (full_line_list lm)"
    and vpc: "line_vpc (lm_lines lm ! l) = ppl"
  defines "lm' \<equiv> invalidate_in_line ppl lm l"
  shows "line_sets_ok sp cur lm' V" "free_line_list lm' = free_line_list lm"
    "set (full_line_list lm') = set (full_line_list lm) - {l}" "set (victims lm') = insert l (set (victims lm))"
    "b < nB sp \<Longrightarrow> line_vpc (lm_lines lm' ! b) = line_vpc (lm_lines lm ! b) - (if b = l then 1 else 0)"
    "b < nB sp \<Longrightarrow> line_ipc (lm_lines lm' ! b) = line_ipc (lm_lines lm ! b) + (if b = l then 1 else 0)"
proof -
  let ?ls = "lm_lines lm" and ?q = "victim_line_pq lm"
  let ?ls1 = "?ls[l := (?ls ! l)\<lparr>line_ipc := line_ipc (?ls ! l) + 1, line_vpc := line_vpc (?ls ! l) - 1\<rparr>]"
  note D = line_sets_distinct [OF S]
  have lB: "l < nB sp" "l \<notin> set (victims lm)" using D l by auto
  have wf: "pq_wf line_ix ?ls ?q" "q_ops ?q = victim_ops" "length ?ls = nB sp" using S by (simp_all add: line_sets_ok_def)
  have pos: "line_pos (?ls ! l) = 0" using S lB by (simp add: line_sets_ok_def)
  have wf1: "pq_wf line_ix ?ls1 ?q" using victim_wf_upd [OF wf(1,2) lB(2)] .
  obtain r ls' q' where ins: "pqueue_insert True 0 ?ls1 ?q l = (r, ls', q')" by (cases "pqueue_insert True 0 ?ls1 ?q l") auto
  have ix: "line_ix ?ls1 l" using lB wf(3) by simp
  note I = victim_insert [OF wf1 wf(2) ix lB(2) ins]
  have lm': "lm' = lm\<lparr>lm_lines := ls', victim_line_pq := q', full_line_list := remove1 l (full_line_list lm),
      full_line_cnt := full_line_cnt lm - 1, victim_line_cnt := victim_line_cnt lm + 1\<rparr>"
    unfolding lm'_def invalidate_in_line_def Let_def using vpc pos wf(3) lB(1) ins by simp
  have len: "length ls' = nB sp" using I(4) wf(3) by (metis map_eq_imp_length_eq length_list_update)
  have sig: "line_id (ls' ! b) = line_id (?ls ! b)" "line_ipc (ls' ! b) = line_ipc (?ls ! b) + (if b = l then 1 else 0)"
    "line_vpc (ls' ! b) = line_vpc (?ls ! b) - (if b = l then 1 else 0)" if "b < nB sp" for b
    using line_sigs_nth [OF I(4), of b] that wf(3) lB by (auto simp: nth_list_update_total)
  have vs: "set (pq_elems q') = insert l (set (victims lm))" using I(3) by (metis set_mset_mset set_mset_add_mset_insert)
  have sz: "length (pq_elems q') = Suc (length (victims lm))" using I(3) by (metis size_mset size_add_mset)
  have pos': "line_pos (ls' ! b) = 0" if "b < nB sp" "b \<noteq> l" "b \<notin> set (victims lm)" for b
    using I(5) [OF that(2,3)] that S by (auto simp: line_sets_ok_def)
  have rm: "mset (full_line_list lm) = add_mset l (mset (remove1 l (full_line_list lm)))" using l by simp
  have m: "mset (cur # free_line_list lm @ remove1 l (full_line_list lm) @ pq_elems q' @ V) =
      mset (cur # free_line_list lm @ full_line_list lm @ victims lm @ V)"
    using I(3) rm by (simp add: ac_simps)
  have flen: "int (length (remove1 l (full_line_list lm))) = int (length (full_line_list lm)) - 1"
    using l length_pos_if_in_set [OF l] by (simp add: length_remove1 of_nat_diff Suc_le_eq)
  show "line_sets_ok sp cur lm' V"
    unfolding line_sets_ok_def lm' using S I(1,2) m len sig(1) vs sz pos' flen
    by (simp add: line_sets_ok_def del: mset.simps mset_append)
  show "free_line_list lm' = free_line_list lm" "set (full_line_list lm') = set (full_line_list lm) - {l}"
    "set (victims lm') = insert l (set (victims lm))"
    using D(1) by (simp_all add: lm' vs)
  show "b < nB sp \<Longrightarrow> line_vpc (lm_lines lm' ! b) = line_vpc (lm_lines lm ! b) - (if b = l then 1 else 0)"
    "b < nB sp \<Longrightarrow> line_ipc (lm_lines lm' ! b) = line_ipc (lm_lines lm ! b) + (if b = l then 1 else 0)"
    using sig by (simp_all add: lm')
qed

text \<open>The whole of \<open>mark_page_invalid\<close>: the lines stay consistent and no free page is used.\<close>

lemma mark_page_invalid_ok:
  fixes s :: ssd
  defines "sp \<equiv> ssd_sp s"
  assumes sp: "params_ok sp" and sh: "flash_shape s" and lines: "lines_ok sp (flash s) (ssd_wp s) (ssd_lm s) V"
    and x: "in_range sp x" "flash s x = PG_VALID" "page_line x \<notin> set V"
  defines "s' \<equiv> mark_page_invalid s (addr x)"
  shows "ssd_sp s' = sp" "ssd_maptbl s' = ssd_maptbl s" "ssd_rmap s' = ssd_rmap s" "ssd_wp s' = ssd_wp s"
    "flash s' = (flash s)(x := PG_INVALID)" "flash_shape s'" "lines_ok sp (flash s') (ssd_wp s') (ssd_lm s') V"
    "free_line_list (ssd_lm s') = free_line_list (ssd_lm s)"
proof -
  let ?lm = "ssd_lm s" and ?F = "flash s" and ?l = "page_line x"
  note M = mark_page_invalid_flash [OF sp [unfolded sp_def] sh x(1) [unfolded sp_def], folded sp_def s'_def]
  show "ssd_sp s' = sp" "ssd_maptbl s' = ssd_maptbl s" "ssd_rmap s' = ssd_rmap s" "ssd_wp s' = ssd_wp s"
    "flash s' = (flash s)(x := PG_INVALID)" "flash_shape s'" by (rule M)+
  obtain cur where S: "line_sets_ok sp cur ?lm V" and C: "cur_ok sp ?F (ssd_wp s) cur" and P: "line_pages_ok sp ?F ?lm V"
    using lines by (auto simp: lines_ok_def)
  note D = line_sets_distinct [OF S]
  have xs: "x \<in> line_set sp ?l" using x(1) by (simp add: line_set_def)
  have lB: "?l < nB sp" using x(1) by (auto simp: in_range_def page_line_def)
  have ppl: "pgs_per_line sp = int (line_pages sp)" by (rule nat_tt_pgs(7) [OF sp])
  have ppl31: "int (line_pages sp) < 2 ^ 31"
  proof -
    have "1 * line_pages sp \<le> nB sp * line_pages sp" using params_bounds(7) [OF sp] by (intro mult_le_mono1) linarith
    then have "line_pages sp < 2 ^ 31" using nat_tt_pgs(3,5) [OF sp] by linarith
    then have "int (line_pages sp) < int (2 ^ 31)" by (simp only: of_nat_less_iff)
    then show ?thesis by simp
  qed
  have vpc: "line_vpc (lm_lines ?lm ! ?l) = int (page_count sp ?F ?l PG_VALID)" using P lB x(3) by (simp add: line_pages_ok_def)
  have pos: "0 < page_count sp ?F ?l PG_VALID" using page_count_pos [where F = ?F, OF xs] x(2) by simp
  have not_free: "?l \<notin> set (free_line_list ?lm)" using P xs x(2) unfolding line_pages_ok_def by fastforce
  let ?lm' = "invalidate_in_line (pgs_per_line sp) ?lm ?l"
  have "?l \<in> set (cur # free_line_list ?lm @ full_line_list ?lm @ victims ?lm @ V)" unfolding D(2) using lB by simp
  then consider "?l = cur" | "?l \<in> set (full_line_list ?lm)" | "?l \<in> set (victims ?lm)" using not_free x(3) by auto
  then have "line_sets_ok sp cur ?lm' V \<and> line_pages_ok sp (?F(x := PG_INVALID)) ?lm' V \<and> free_line_list ?lm' = free_line_list ?lm"
  proof cases
    case 1
    have "page_count sp ?F ?l PG_VALID \<noteq> line_pages sp" using cur_counts [OF S C] next_page_props(5) [OF S C] 1 by auto
    then have ne: "line_vpc (lm_lines ?lm ! ?l) \<noteq> pgs_per_line sp" using vpc ppl by (simp del: of_nat_mult)
    have nf: "?l \<notin> set (full_line_list ?lm)" "?l \<notin> set (victims ?lm)" using D(1) 1 by auto
    note I = invalidate_current [OF S lB nf(2) ne]
    show ?thesis
      using I(1,2) line_pages_ok_invalidate [OF P xs x(2) lB x(3) I(5,6,2)] I(3,4) nf by auto
  next
    case 2
    then have "page_count sp ?F ?l PG_VALID = line_pages sp" using P by (simp add: line_pages_ok_def)
    then have eq: "line_vpc (lm_lines ?lm ! ?l) = pgs_per_line sp" using vpc ppl by (simp del: of_nat_mult)
    note I = invalidate_full [OF S 2 eq]
    show ?thesis
      using I(1,2) line_pages_ok_invalidate [OF P xs x(2) lB x(3) I(5,6,2)] I(3,4) 2 by auto
  next
    case 3
    have nf: "?l \<notin> set (full_line_list ?lm)" using D(1) 3 by auto
    have "page_count sp ?F ?l PG_VALID < line_pages sp" using P 3 by (simp add: line_pages_ok_def)
    then have lt: "line_vpc (lm_lines ?lm ! ?l) < pgs_per_line sp" using vpc ppl by (simp del: of_nat_mult)
    have gt: "0 < line_vpc (lm_lines ?lm ! ?l)" using vpc pos by simp
    note I = invalidate_victim [OF S 3 gt lt ppl31 [folded ppl]]
    show ?thesis
      using I(1,2) line_pages_ok_invalidate [OF P xs x(2) lB x(3) I(5,6,2)] I(3,4) nf by auto
  qed
  moreover have "cur_ok sp (?F(x := PG_INVALID)) (ssd_wp s) cur" using C x(2) unfolding cur_ok_def by auto
  ultimately show "lines_ok sp (flash s') (ssd_wp s') (ssd_lm s') V" "free_line_list (ssd_lm s') = free_line_list ?lm"
    unfolding M lines_ok_def by auto
qed

text \<open>What happens to the pages of the collected line does not concern the lines.\<close>

lemma lines_ok_limbo:
  assumes ok: "lines_ok sp F wp lm V" and F': "\<And>x. page_line x \<notin> set V \<Longrightarrow> F' x = F x"
  shows "lines_ok sp F' wp lm V"
proof -
  obtain cur where S: "line_sets_ok sp cur lm V" and C: "cur_ok sp F wp cur" and P: "line_pages_ok sp F lm V"
    using ok by (auto simp: lines_ok_def)
  note D = line_sets_distinct [OF S]
  have same: "F' x = F x" if "x \<in> line_set sp b" "b \<notin> set V" for x b using that F' by (simp add: line_set_def)
  have cnt: "page_count sp F' b st = page_count sp F b st" if "b \<notin> set V" for b st
    by (rule page_count_cong) (rule same [OF _ that])
  have cV: "cur \<notin> set V" using D(1) by auto
  have "cur_ok sp F' wp cur" using C same [OF _ cV] unfolding cur_ok_def by metis
  moreover have "b \<notin> set V" if "b \<in> set (free_line_list lm) \<or> b \<in> set (full_line_list lm) \<or> b \<in> set (victims lm)" for b
    using D(1) that by auto
  then have "line_pages_ok sp F' lm V"
    using P cnt same unfolding line_pages_ok_def by (metis (no_types, lifting))
  ultimately show ?thesis using S by (auto simp: lines_ok_def)
qed

subsection \<open>Taking a victim and giving its line back\<close>

lemma select_victim_line_ok:
  assumes ok: "lines_ok sp F (ssd_wp s) (ssd_lm s) []" and sel: "select_victim_line s force = (Some v, s')"
  shows "same_flash s s'" "ssd_wp s' = ssd_wp s" "lines_ok sp F (ssd_wp s') (ssd_lm s') [v]"
    "free_line_list (ssd_lm s') = free_line_list (ssd_lm s)" "v < nB sp" "line_id (lm_lines (ssd_lm s') ! v) = int v"
    "page_count sp F v PG_VALID < line_pages sp" "page_count sp F v PG_FREE = 0"
proof -
  let ?lm = "ssd_lm s" and ?ls = "lm_lines (ssd_lm s)" and ?q = "victim_line_pq (ssd_lm s)"
  obtain cur where S: "line_sets_ok sp cur ?lm []" and C: "cur_ok sp F (ssd_wp s) cur" and P: "line_pages_ok sp F ?lm []"
    using ok by (auto simp: lines_ok_def)
  note D = line_sets_distinct [OF S]
  have wf: "pq_wf line_ix ?ls ?q" "q_ops ?q = victim_ops" "length ?ls = nB sp" using S by (simp_all add: line_sets_ok_def)
  obtain e ls' q' where p: "pqueue_pop ?ls ?q = (e, ls', q')" by (cases "pqueue_pop ?ls ?q") auto
  have v: "e = Some v"
    "s' = upd_lm (upd_line (lm_pq_pop s) v (\<lambda>ln. ln\<lparr>line_pos := 0\<rparr>)) (\<lambda>lm. lm\<lparr>victim_line_cnt := victim_line_cnt lm - 1\<rparr>)"
    using sel p by (auto simp: select_victim_line_def pqueue_peek_def pqueue_pop_def Let_def split: if_splits prod.splits)
  note I = victim_pop [OF wf(1,2) p [unfolded v(1)]]
  have vin: "set (victims ?lm) = insert v (set (pq_elems q'))" using I(3) by (metis set_mset_mset set_mset_add_mset_insert)
  have vB: "v < nB sp" using vin D(2) by auto
  have vout: "v \<notin> set (pq_elems q')" using D(1) distinct_mset_eq [of "v # pq_elems q'" "victims ?lm"] I(3) by simp
  have len: "length ls' = nB sp" using I(4) wf(3) by (metis map_eq_imp_length_eq)
  define ls2 where "ls2 = ls'[v := (ls' ! v)\<lparr>line_pos := 0\<rparr>]"
  have lm': "ssd_lm s' = ?lm\<lparr>lm_lines := ls2, victim_line_pq := q', victim_line_cnt := victim_line_cnt ?lm - 1\<rparr>"
    by (simp add: v(2) upd_line_def lm_pq_pop_def p ls2_def)
  show "same_flash s s'" "ssd_wp s' = ssd_wp s"
    by (simp_all add: v(2) same_flash_def upd_line_def lm_pq_pop_def)
  have sig: "line_id (ls2 ! b) = line_id (?ls ! b)" "line_ipc (ls2 ! b) = line_ipc (?ls ! b)" "line_vpc (ls2 ! b) = line_vpc (?ls ! b)"
    if "b < nB sp" for b using line_sigs_nth [OF I(4), of b] that wf(3) by (auto simp: ls2_def nth_list_update_total)
  have sz: "int (length (pq_elems q')) = int (length (victims ?lm)) - 1" using I(3) by (metis size_mset size_add_mset diff_add_cancel of_nat_Suc add_diff_cancel_left')
  have pos: "line_pos (ls2 ! b) = 0" if "b < nB sp" "b \<notin> set (pq_elems q')" for b
    using I(5) [of b] that S vin len by (auto simp: ls2_def line_sets_ok_def nth_list_update_total)
  have wf2: "pq_wf line_ix ls2 q'" and len2: "length ls2 = nB sp"
    using victim_wf_upd [OF I(1,2) vout] len by (simp_all add: ls2_def)
  have m: "mset (cur # free_line_list ?lm @ full_line_list ?lm @ pq_elems q' @ [v]) =
      mset (cur # free_line_list ?lm @ full_line_list ?lm @ victims ?lm @ [])"
    using I(3) by (simp add: ac_simps)
  have "line_sets_ok sp cur (ssd_lm s') [v]"
    unfolding line_sets_ok_def lm' using S I(2) wf2 m len2 sig(1) vin sz pos
    by (simp add: line_sets_ok_def del: mset.simps mset_append)
  moreover have "line_pages_ok sp F (ssd_lm s') [v]"
    using P sig vin by (auto simp: lm' line_pages_ok_def)
  moreover have "ssd_wp s' = ssd_wp s" by (simp add: v(2) upd_line_def lm_pq_pop_def)
  ultimately show "lines_ok sp F (ssd_wp s') (ssd_lm s') [v]" using C unfolding lines_ok_def by auto
  show "free_line_list (ssd_lm s') = free_line_list ?lm" by (simp add: lm')
  show "v < nB sp" by (rule vB)
  show "line_id (lm_lines (ssd_lm s') ! v) = int v" using sig(1) [OF vB] S vB by (simp add: lm' line_sets_ok_def)
  show "page_count sp F v PG_VALID < line_pages sp" "page_count sp F v PG_FREE = 0"
    using P vin by (simp_all add: line_pages_ok_def)
qed

lemma select_victim_line_None:
  "select_victim_line s force = (None, s') \<Longrightarrow> s' = s"
  by (auto simp: select_victim_line_def Let_def split: option.splits if_splits)

lemma select_victim_line_forced:
  assumes "lines_ok sp F (ssd_wp s) (ssd_lm s) []"
  shows "fst (select_victim_line s True) = None \<longleftrightarrow> victims (ssd_lm s) = []"
proof -
  have "pq_shape (victim_line_pq (ssd_lm s))"
    using assms by (auto simp: lines_ok_def line_sets_ok_def pq_wf_def)
  then have "q_size (victim_line_pq (ssd_lm s)) = 1 \<longleftrightarrow> victims (ssd_lm s) = []"
    by (auto simp: pq_shape_def pq_elems_def simp flip: length_0_conv)
  then show ?thesis by (auto simp: select_victim_line_def pqueue_peek_def Let_def)
qed

lemma mark_line_free_ok:
  assumes ok: "lines_ok sp F (ssd_wp s) (ssd_lm s) [v]" and free: "\<And>x. x \<in> line_set sp v \<Longrightarrow> F x = PG_FREE"
    and p: "get_line s p = v"
  defines "s' \<equiv> mark_line_free s p"
  shows "same_flash s s'" "ssd_wp s' = ssd_wp s" "lines_ok sp F (ssd_wp s') (ssd_lm s') []"
    "free_pages sp (ssd_wp s') (ssd_lm s') = free_pages sp (ssd_wp s) (ssd_lm s) + line_pages sp"
proof -
  let ?lm = "ssd_lm s" and ?ls = "lm_lines (ssd_lm s)"
  obtain cur where S: "line_sets_ok sp cur ?lm [v]" and C: "cur_ok sp F (ssd_wp s) cur" and P: "line_pages_ok sp F ?lm [v]"
    using ok by (auto simp: lines_ok_def)
  note D = line_sets_distinct [OF S]
  have v: "v < nB sp" "v \<notin> set (victims ?lm)" using D by auto
  have len: "length ?ls = nB sp" using S by (simp add: line_sets_ok_def)
  let ?ls' = "?ls[v := (?ls ! v)\<lparr>line_ipc := 0, line_vpc := 0\<rparr>]"
  have lm': "ssd_lm s' = ?lm\<lparr>lm_lines := ?ls', free_line_list := free_line_list ?lm @ [v], free_line_cnt := free_line_cnt ?lm + 1\<rparr>"
    by (simp add: s'_def mark_line_free_def Let_def p upd_line_def)
  show "same_flash s s'" "ssd_wp s' = ssd_wp s" by (simp_all add: s'_def mark_line_free_def same_flash_def upd_line_def Let_def)
  have "pq_wf line_ix ?ls' (victim_line_pq ?lm)" using victim_wf_upd [OF _ _ v(2)] S by (simp add: line_sets_ok_def)
  then have "line_sets_ok sp cur (ssd_lm s') []"
    using S len by (simp add: lm' line_sets_ok_def nth_list_update_total ac_simps add_mset_commute)
  moreover have "page_count sp F v st = 0" if "st \<noteq> PG_FREE" for st using free that by (auto simp: page_count_zero)
  then have "line_pages_ok sp F (ssd_lm s') []"
    using P free len by (auto simp: lm' line_pages_ok_def nth_list_update_total)
  moreover have "ssd_wp s' = ssd_wp s" by (simp add: s'_def mark_line_free_def upd_line_def Let_def)
  ultimately show "lines_ok sp F (ssd_wp s') (ssd_lm s') []"
    "free_pages sp (ssd_wp s') (ssd_lm s') = free_pages sp (ssd_wp s) (ssd_lm s) + line_pages sp"
    using C by (auto simp: lines_ok_def free_pages_def lm')
qed

end
