(* ===== verification/Ftl_Gc.thy ===== *)
theory Ftl_Gc
  imports Ftl_Lines
begin

text \<open>
  The mapping tables of the flash translation layer against the page states, garbage collection of a
  line, and the write path: what \<open>do_gc\<close>, the collection loop and \<open>ssd_write\<close> do to the whole state.
\<close>

subsection \<open>The mapping tables\<close>

text \<open>Every mapped logical page sits on a valid page that maps back to it, and every valid page outside
  \<open>Z\<close> (the pages of the collected line that have been copied away) belongs to a logical page.\<close>

definition map_ok :: "ssdparams \<Rightarrow> (page \<Rightarrow> pg_status) \<Rightarrow> ppa list \<Rightarrow> u64 list \<Rightarrow> page set \<Rightarrow> bool" where
  "map_ok sp F mt rm Z \<longleftrightarrow> length mt = nat (tt_pgs sp) \<and> length rm = nat (tt_pgs sp) \<and>
     (\<forall>lpn < length mt. mapped_ppa (mt ! lpn) \<longrightarrow>
        (\<exists>x. in_range sp x \<and> x \<notin> Z \<and> mt ! lpn = addr x \<and> F x = PG_VALID \<and> rm ! page_idx sp x = of_nat lpn)) \<and>
     (\<forall>x. in_range sp x \<longrightarrow> x \<notin> Z \<longrightarrow> F x = PG_VALID \<longrightarrow>
        (\<exists>lpn < length mt. mt ! lpn = addr x \<and> rm ! page_idx sp x = of_nat lpn))"

definition mapped_set :: "ppa list \<Rightarrow> nat set" where
  "mapped_set mt = {lpn. lpn < length mt \<and> mapped_ppa (mt ! lpn)}"

lemma map_ok_mapped:
  assumes "map_ok sp F mt rm Z" "lpn < length mt" "mapped_ppa (mt ! lpn)"
  shows "\<exists>x. in_range sp x \<and> x \<notin> Z \<and> mt ! lpn = addr x \<and> F x = PG_VALID \<and> rm ! page_idx sp x = of_nat lpn"
  using assms unfolding map_ok_def by blast

lemma map_ok_valid:
  assumes "map_ok sp F mt rm Z" "in_range sp x" "x \<notin> Z" "F x = PG_VALID"
  shows "\<exists>lpn < length mt. mt ! lpn = addr x \<and> rm ! page_idx sp x = of_nat lpn"
  using assms unfolding map_ok_def by blast

lemma map_ok_idx: "params_ok sp \<Longrightarrow> map_ok sp F mt rm Z \<Longrightarrow> in_range sp x \<Longrightarrow> page_idx sp x < length rm"
  using page_idx_less [of sp x] nat_tt_pgs(1) [of sp] by (simp add: map_ok_def)

lemma lpn_word_inj:
  assumes "params_ok sp" "map_ok sp F mt rm Z" "a < length mt" "b < length mt"
  shows "(of_nat a :: u64) = of_nat b \<longleftrightarrow> a = b" "unat (of_nat a :: u64) = a"
proof -
  have "length mt < 2 ^ 31" using assms(2) nat_tt_pgs(5) [OF assms(1)] by (simp add: map_ok_def)
  then have "unat (of_nat a :: u64) = a" "unat (of_nat b :: u64) = b" using assms(3,4) by (simp_all add: unat_of_nat)
  then show "(of_nat a :: u64) = of_nat b \<longleftrightarrow> a = b" "unat (of_nat a :: u64) = a" by metis+
qed

text \<open>A page nobody looks at may be exempted; a page that becomes free no longer is.\<close>

lemma map_ok_skip: "map_ok sp F mt rm Z \<Longrightarrow> F y \<noteq> PG_VALID \<Longrightarrow> map_ok sp F mt rm (insert y Z)"
  unfolding map_ok_def by blast

lemma map_ok_free:
  assumes "map_ok sp F mt rm Z" and "\<And>y. y \<in> B \<Longrightarrow> y \<in> Z \<or> F y \<noteq> PG_VALID"
  shows "map_ok sp (\<lambda>y. if y \<in> B then PG_FREE else F y) mt rm (Z - B)"
  unfolding map_ok_def
proof (intro conjI allI impI)
  show "length mt = nat (tt_pgs sp)" "length rm = nat (tt_pgs sp)" using assms(1) by (simp_all add: map_ok_def)
  fix lpn assume "lpn < length mt" "mapped_ppa (mt ! lpn)"
  from map_ok_mapped [OF assms(1) this]
  obtain x where x: "in_range sp x" "x \<notin> Z" "mt ! lpn = addr x" "F x = PG_VALID" "rm ! page_idx sp x = of_nat lpn" by blast
  then have "x \<notin> B" using assms(2) by blast
  then show "\<exists>x. in_range sp x \<and> x \<notin> Z - B \<and> mt ! lpn = addr x \<and> (if x \<in> B then PG_FREE else F x) = PG_VALID \<and>
      rm ! page_idx sp x = of_nat lpn"
    using x by (intro exI [of _ x]) simp
next
  fix x assume "in_range sp x" "x \<notin> Z - B" "(if x \<in> B then PG_FREE else F x) = PG_VALID"
  then show "\<exists>lpn < length mt. mt ! lpn = addr x \<and> rm ! page_idx sp x = of_nat lpn"
    using map_ok_valid [OF assms(1), of x] by (auto split: if_splits)
qed

text \<open>A logical page moves to the free page \<open>x\<close>; its old page \<open>y\<close>, if any, is no longer valid (\<open>F y\<close> has
  been changed, and its reverse entry \<open>rm\<close> may have been) or is exempted.\<close>

lemma map_ok_move:
  assumes sp: "params_ok sp" and M: "map_ok sp F mt rm Z" and lpn: "lpn < length mt" and x: "in_range sp x" "F x = PG_FREE" "x \<notin> Z"
    and F': "F' x = PG_VALID" "\<And>z. z \<noteq> x \<Longrightarrow> z \<notin> Y \<Longrightarrow> F' z = F z" "\<And>z. z \<in> Y \<Longrightarrow> z \<in> Z' \<or> F' z \<noteq> PG_VALID"
    and rm': "length rm' = length rm" "rm' ! page_idx sp x = of_nat lpn"
      "\<And>z. in_range sp z \<Longrightarrow> z \<noteq> x \<Longrightarrow> z \<notin> Y \<Longrightarrow> rm' ! page_idx sp z = rm ! page_idx sp z"
    and Y: "\<And>z. in_range sp z \<Longrightarrow> mt ! lpn = addr z \<longleftrightarrow> z \<in> Y" and Z': "Z \<subseteq> Z'" "Z' \<subseteq> Z \<union> Y"
  shows "map_ok sp F' (mt[lpn := addr x]) rm' Z'" "mapped_set (mt[lpn := addr x]) = insert lpn (mapped_set mt)"
proof -
  have xY: "x \<notin> Y"
  proof
    assume "x \<in> Y"
    then have e: "mt ! lpn = addr x" using Y x(1) by simp
    from map_ok_mapped [OF M lpn] e obtain x' where "in_range sp x'" "addr x = addr x'" "F x' = PG_VALID" by auto
    then show False using x addr_inj [OF sp, of x x'] by auto
  qed
  show "map_ok sp F' (mt[lpn := addr x]) rm' Z'"
    unfolding map_ok_def
  proof (intro conjI allI impI)
    show "length (mt[lpn := addr x]) = nat (tt_pgs sp)" "length rm' = nat (tt_pgs sp)" using M rm'(1) by (simp_all add: map_ok_def)
    fix n assume n: "n < length (mt[lpn := addr x])" and mp: "mapped_ppa (mt[lpn := addr x] ! n)"
    show "\<exists>z. in_range sp z \<and> z \<notin> Z' \<and> mt[lpn := addr x] ! n = addr z \<and> F' z = PG_VALID \<and> rm' ! page_idx sp z = of_nat n"
    proof (cases "n = lpn")
      case True
      then show ?thesis using x F'(1) rm'(2) lpn Z'(2) xY by (intro exI [of _ x]) auto
    next
      case False
      then have "mapped_ppa (mt ! n)" "n < length mt" using mp n by simp_all
      from map_ok_mapped [OF M this(2,1)]
      obtain z where z: "in_range sp z" "z \<notin> Z" "mt ! n = addr z" "F z = PG_VALID" "rm ! page_idx sp z = of_nat n" by blast
      have zY: "z \<notin> Y"
      proof
        assume "z \<in> Y"
        then have e: "mt ! lpn = addr z" using Y z(1) by simp
        from map_ok_mapped [OF M lpn] e obtain x' where "in_range sp x'" "addr z = addr x'" "rm ! page_idx sp x' = of_nat lpn" by auto
        then have "(of_nat n :: u64) = of_nat lpn" using z addr_inj [OF sp, of z x'] by simp
        then show False using False lpn_word_inj(1) [OF sp M \<open>n < length mt\<close> lpn] by simp
      qed
      have zx: "z \<noteq> x" using z x by auto
      then show ?thesis
        using z zY F'(2) [OF zx zY] rm'(3) [OF z(1) zx zY] False Z'(2) by (intro exI [of _ z]) auto
    qed
  next
    fix z assume z: "in_range sp z" "z \<notin> Z'" "F' z = PG_VALID"
    show "\<exists>n < length (mt[lpn := addr x]). mt[lpn := addr x] ! n = addr z \<and> rm' ! page_idx sp z = of_nat n"
    proof (cases "z = x")
      case True
      then show ?thesis using lpn rm'(2) by (intro exI [of _ lpn]) simp
    next
      case False
      have zY: "z \<notin> Y" using z F'(3) by blast
      have "z \<notin> Z" "F z = PG_VALID" using z Z'(1) F'(2) [OF False zY] by auto
      from map_ok_valid [OF M z(1) this]
      obtain n where n: "n < length mt" "mt ! n = addr z" "rm ! page_idx sp z = of_nat n" by blast
      then have "n \<noteq> lpn" using Y [OF z(1)] zY by auto
      then show ?thesis using n rm'(3) [OF z(1) False zY] by (intro exI [of _ n]) simp
    qed
  qed
  show "mapped_set (mt[lpn := addr x]) = insert lpn (mapped_set mt)"
    using lpn by (auto simp: mapped_set_def nth_list_update split: if_splits)
qed

subsection \<open>The whole state\<close>

definition free_of :: "ssd \<Rightarrow> nat" where "free_of s = free_pages (ssd_sp s) (ssd_wp s) (ssd_lm s)"

text \<open>Consistency while the lines \<open>V\<close> are collected, with the pages \<open>Z\<close> copied away.\<close>

definition ssd_inv :: "ssd \<Rightarrow> nat list \<Rightarrow> page set \<Rightarrow> bool" where
  "ssd_inv s V Z \<longleftrightarrow> params_ok (ssd_sp s) \<and> flash_shape s \<and>
     lines_ok (ssd_sp s) (flash s) (ssd_wp s) (ssd_lm s) V \<and>
     map_ok (ssd_sp s) (flash s) (ssd_maptbl s) (ssd_rmap s) Z \<and> (\<forall>z \<in> Z. page_line z \<in> set V)"

definition ftl_ok :: "ssd \<Rightarrow> bool" where
  "ftl_ok s \<longleftrightarrow> ssd_inv s [] {}"

abbreviation lpns :: "ssd \<Rightarrow> nat set" where "lpns s \<equiv> mapped_set (ssd_maptbl s)"

lemma ssd_inv_tables:
  "same_tables s s' \<Longrightarrow> flash s' = flash s \<Longrightarrow> flash_shape s' \<Longrightarrow> ssd_inv s V Z \<Longrightarrow>
     ssd_inv s' V Z \<and> free_of s' = free_of s \<and> lpns s' = lpns s \<and> ssd_sp s' = ssd_sp s"
  by (simp add: ssd_inv_def same_tables_def free_of_def)

lemma ssd_inv_step: "flash_step s s' (flash s) \<Longrightarrow> ssd_inv s V Z \<Longrightarrow>
     ssd_inv s' V Z \<and> free_of s' = free_of s \<and> lpns s' = lpns s \<and> ssd_sp s' = ssd_sp s \<and> flash s' = flash s"
  using ssd_inv_tables [of s s'] unfolding flash_step_def by blast

text \<open>\<open>n\<close> pages have been rewritten, or the free pages do not suffice.\<close>

definition moved :: "ssd \<Rightarrow> nat \<Rightarrow> nat list \<Rightarrow> page set \<Rightarrow> (page \<Rightarrow> pg_status) \<Rightarrow> ssd option \<Rightarrow> bool" where
  "moved s n V Z F r \<longleftrightarrow>
     (case r of
        None \<Rightarrow> free_of s \<le> n
      | Some s' \<Rightarrow> ssd_inv s' V Z \<and> ssd_sp s' = ssd_sp s \<and> free_of s' + n = free_of s \<and> 0 < free_of s' \<and>
          lpns s' = lpns s \<and> (\<forall>x. page_line x \<in> set V \<longrightarrow> flash s' x = F x))"

lemma moved_trans:
  assumes "moved s n V Z F (Some s1)" "moved s1 m V Z' F' r"
  shows "moved s (n + m) V Z' F' r"
  using assms by (cases r) (auto simp: moved_def)

lemma moved_None: "moved s n V Z F None \<Longrightarrow> moved s (n + m) V Z' F' None"
  by (simp add: moved_def)

lemma moved_cong:
  assumes "ssd_sp s0 = ssd_sp s" "free_of s0 = free_of s" "lpns s0 = lpns s"
  shows "moved s0 n V Z F r = moved s n V Z F r"
  unfolding moved_def assms ..

lemma moved_flash: "(\<And>x. page_line x \<in> set V \<Longrightarrow> F x = F' x) \<Longrightarrow> moved s n V Z F r \<Longrightarrow> moved s n V Z F' r"
  by (cases r) (simp_all add: moved_def)

lemma free_of_pos: "ssd_inv s V Z \<Longrightarrow> 0 < free_of s"
  by (auto simp: ssd_inv_def lines_ok_def free_of_def free_pages_def dest: next_page_props(5))

text \<open>Copying one valid page of the victim.\<close>

lemma gc_write_page_ok:
  assumes inv: "ssd_inv s V Z" and y: "in_range (ssd_sp s) y" "page_line y \<in> set V" "y \<notin> Z" "flash s y = PG_VALID"
  shows "moved s 1 V (insert y Z) (flash s) (gc_write_page rt s (addr y))"
proof -
  let ?sp = "ssd_sp s" and ?mt = "ssd_maptbl s" and ?rm = "ssd_rmap s"
  have I: "params_ok ?sp" "flash_shape s" "lines_ok ?sp (flash s) (ssd_wp s) (ssd_lm s) V"
    "map_ok ?sp (flash s) ?mt ?rm Z" "\<And>z. z \<in> Z \<Longrightarrow> page_line z \<in> set V"
    using inv by (auto simp: ssd_inv_def)
  obtain lpn where lpn: "lpn < length ?mt" "?mt ! lpn = addr y" "?rm ! page_idx ?sp y = of_nat lpn"
    using map_ok_valid [OF I(4) y(1,3,4)] by blast
  define x where "x = next_page (ssd_wp s)"
  let ?mt' = "?mt[lpn := addr x]" and ?rm' = "?rm[page_idx ?sp x := of_nat lpn]"
  define s1 where "s1 = s\<lparr>ssd_maptbl := ?mt', ssd_rmap := ?rm'\<rparr>"
  have fl1: "flash s1 = flash s" "flash_shape s1" "ssd_sp s1 = ?sp" "ssd_wp s1 = ssd_wp s" "ssd_lm s1 = ssd_lm s"
    using flash_cong [of s1 s] I(2) by (simp_all add: s1_def)
  note P0 = program_page_ok [OF I(1,2,3), folded x_def]
  note P = program_page_ok [where s = s1, unfolded fl1, OF I(1) fl1(2) I(3), folded x_def]
  have rmap: "get_rmap_ent s (addr y) = of_nat lpn"
    using lpn(3) by (simp add: get_rmap_ent_def ppa2pgidx_addr [OF I(1) y(1)])
  have ix: "unat (ppa2pgidx (s\<lparr>ssd_maptbl := ?mt'\<rparr>) (addr x)) = page_idx ?sp x"
    using ppa2pgidx_addr [of "s\<lparr>ssd_maptbl := ?mt'\<rparr>" x] I(1) P0(2) by simp
  have w: "gc_write_page rt s (addr y) = (case ssd_advance_write_pointer (mark_page_valid s1 (addr x)) of
      None \<Rightarrow> None
    | Some s2 \<Rightarrow> Some (set_lun_gc_endtime (if enable_gc_delay (ssd_sp s2)
        then fst (ssd_advance_status rt s2 (addr x) (gc_cmd NAND_WRITE)) else s2) (addr x)))"
    using lpn_word_inj(2) [OF I(1,4) lpn(1,1)] P0(1)
    by (simp add: gc_write_page_def Let_def rmap set_maptbl_ent_def set_rmap_ent_def ix s1_def split: option.split)
  have xZ: "x \<notin> Z" using I(5) [of x] P0(4) by blast
  have xy: "x \<noteq> y" using P0(3) y(4) by auto
  have Y: "?mt ! lpn = addr z \<longleftrightarrow> z \<in> {y}" if "in_range ?sp z" for z
    using addr_inj [OF I(1) that y(1)] lpn(2) by auto
  have mv: "map_ok ?sp ((flash s)(x := PG_VALID)) ?mt' ?rm' (insert y Z)" "mapped_set ?mt' = insert lpn (mapped_set ?mt)"
    using map_ok_move [OF I(1,4) lpn(1) P0(2,3) xZ, where F' = "(flash s)(x := PG_VALID)" and Y = "{y}" and Z' = "insert y Z"
        and rm' = ?rm'] map_ok_idx [OF I(1,4) P0(2)] Y page_idx_inj [OF P0(2)]
    by (auto simp: nth_list_update)
  have "lpn \<in> mapped_set ?mt" using lpn by (simp add: mapped_set_def)
  then have ms: "mapped_set ?mt' = mapped_set ?mt" using mv(2) by (simp add: insert_absorb)
  show ?thesis
  proof (cases "ssd_advance_write_pointer (mark_page_valid s1 (addr x))")
    case None
    then show ?thesis using P(6) by (simp add: moved_def w free_of_def)
  next
    case (Some s2)
    then have A: "ssd_sp s2 = ?sp" "ssd_maptbl s2 = ?mt'" "ssd_rmap s2 = ?rm'" "flash s2 = (flash s)(x := PG_VALID)" "flash_shape s2"
      "lines_ok ?sp (flash s2) (ssd_wp s2) (ssd_lm s2) V" "Suc (free_of s2) = free_of s" "0 < free_of s2"
      using P(6) by (auto simp: s1_def free_of_def)
    have inv2: "ssd_inv s2 V (insert y Z)" using A I(1,5) mv(1) y(2) by (simp add: ssd_inv_def)
    define s3 where "s3 = (if enable_gc_delay (ssd_sp s2) then fst (ssd_advance_status rt s2 (addr x) (gc_cmd NAND_WRITE)) else s2)"
    have 3: "flash_step s2 s3 (flash s2)" unfolding s3_def using ssd_advance_status_step [OF A(5)] A(5)
      by (simp add: flash_step_def same_tables_def)
    have 4: "flash_step s2 (set_lun_gc_endtime s3 (addr x)) (flash s2)"
      using flash_step_trans [OF 3 set_lun_gc_endtime_step] 3 by (simp add: flash_step_def)
    have "page_line x' \<in> set V \<Longrightarrow> x' \<noteq> x" for x' using P0(4) by auto
    then show ?thesis
      using ssd_inv_step [OF 4 inv2] A(1,2,4,7,8) ms by (auto simp: moved_def w Some s3_def)
  qed
qed

subsection \<open>Cleaning the blocks of the victim\<close>

definition block_set :: "ssdparams \<Rightarrow> nat \<Rightarrow> nat \<Rightarrow> nat \<Rightarrow> page set" where
  "block_set sp c l b = {(c, l, b, g) | g. g < nG sp}"

definition block_valid :: "ssdparams \<Rightarrow> (page \<Rightarrow> pg_status) \<Rightarrow> nat \<Rightarrow> nat \<Rightarrow> nat \<Rightarrow> nat \<Rightarrow> nat" where
  "block_valid sp F c l b g0 = card {g. g0 \<le> g \<and> g < nG sp \<and> F (c, l, b, g) = PG_VALID}"

lemma block_valid_step:
  "g0 < nG sp \<Longrightarrow> block_valid sp F c l b g0 = (if F (c, l, b, g0) = PG_VALID then 1 else 0) + block_valid sp F c l b (Suc g0)"
proof -
  assume g: "g0 < nG sp"
  have "{g. g0 \<le> g \<and> g < nG sp \<and> F (c, l, b, g) = PG_VALID} =
    (if F (c, l, b, g0) = PG_VALID then {g0} else {}) \<union> {g. Suc g0 \<le> g \<and> g < nG sp \<and> F (c, l, b, g) = PG_VALID}"
    using g by (auto simp: Suc_le_eq order_le_less)
  moreover have "finite {g. Suc g0 \<le> g \<and> g < nG sp \<and> F (c, l, b, g) = PG_VALID}" by (rule finite_subset [of _ "{..<nG sp}"]) auto
  ultimately show ?thesis by (auto simp: block_valid_def)
qed

lemma block_valid_cong: "(\<And>g. F (c, l, b, g) = F' (c, l, b, g)) \<Longrightarrow> block_valid sp F c l b g0 = block_valid sp F' c l b g0"
  by (simp add: block_valid_def)

lemma clean_pages_ok:
  assumes "ssd_inv s [v] Z" "Z = {(c, l, v, g) | g. g < pg}" "k + pg = nG (ssd_sp s)" "in_range (ssd_sp s) (c, l, v, 0)"
    and "\<And>g. p\<lparr>g_pg := of_nat g\<rparr> = addr (c, l, v, g)"
  shows "moved s (block_valid (ssd_sp s) (flash s) c l v pg) [v] (block_set (ssd_sp s) c l v) (flash s) (clean_pages k rt s p pg)"
  using assms
proof (induction k arbitrary: s pg Z p)
  case 0
  then have "block_valid (ssd_sp s) (flash s) c l v pg = 0" by (simp add: block_valid_def)
  moreover have "Z = block_set (ssd_sp s) c l v" using 0 by (simp add: block_set_def)
  ultimately show ?case using 0 free_of_pos [OF 0(1)] by (simp add: moved_def)
next
  case (Suc k)
  let ?sp = "ssd_sp s" and ?y = "(c, l, v, pg)"
  have y: "in_range ?sp ?y" "page_line ?y \<in> set [v]" "?y \<notin> Z" "pg < nG ?sp"
    using Suc.prems by (auto simp: in_range_def page_line_def)
  have sp: "params_ok ?sp" using Suc.prems(1) by (simp add: ssd_inv_def)
  have Z': "insert ?y Z = {(c, l, v, g) | g. g < Suc pg}" using Suc.prems(2) by (auto simp: less_Suc_eq)
  have st: "pg_status (get_pg s (addr ?y)) = flash s ?y" by (rule pg_status_addr [OF sp y(1)])
  note p = Suc.prems(5)
  have pq: "p\<lparr>g_pg := of_nat pg\<rparr>\<lparr>g_pg := of_nat g\<rparr> = addr (c, l, v, g)" for g by (rule trans [OF _ p]) simp
  show ?case
  proof (cases "flash s ?y = PG_VALID")
    case False
    have inv: "ssd_inv s [v] (insert ?y Z)"
      using Suc.prems(1) map_ok_skip [where F = "flash s" and y = ?y] False by (auto simp: ssd_inv_def page_line_def)
    have "block_valid ?sp (flash s) c l v pg = block_valid ?sp (flash s) c l v (Suc pg)"
      using block_valid_step [OF y(4)] False by simp
    moreover have "clean_pages (Suc k) rt s p pg = clean_pages k rt s (p\<lparr>g_pg := of_nat pg\<rparr>) (Suc pg)"
      using False st p by simp
    ultimately show ?thesis using Suc.IH [OF inv Z' _ _ pq] Suc.prems(3,4) by simp
  next
    case True
    define s0 where "s0 = gc_read_page rt s (addr ?y)"
    have sh: "flash_shape s" using Suc.prems(1) by (simp add: ssd_inv_def)
    have 0: "flash_step s s0 (flash s)" unfolding s0_def gc_read_page_def
      using ssd_advance_status_step [OF sh] sh by (simp add: flash_step_def same_tables_def)
    note R = ssd_inv_step [OF 0 Suc.prems(1)]
    have mv: "moved s 1 [v] (insert ?y Z) (flash s) (gc_write_page rt s0 (addr ?y))"
      using gc_write_page_ok [of s0 "[v]" Z ?y rt] moved_cong [of s0 s] R y True by simp
    have bv: "block_valid ?sp (flash s) c l v pg = 1 + block_valid ?sp (flash s) c l v (Suc pg)"
      using block_valid_step [OF y(4)] True by simp
    have cl: "clean_pages (Suc k) rt s p pg =
        (case gc_write_page rt s0 (addr ?y) of None \<Rightarrow> None | Some s1 \<Rightarrow> clean_pages k rt s1 (p\<lparr>g_pg := of_nat pg\<rparr>) (Suc pg))"
      using True st p by (simp add: s0_def Let_def split: option.split)
    show ?thesis
    proof (cases "gc_write_page rt s0 (addr ?y)")
      case None
      then show ?thesis using moved_None [of s 1] mv unfolding bv cl by simp
    next
      case (Some s1)
      then have M: "ssd_inv s1 [v] (insert ?y Z)" "ssd_sp s1 = ?sp" "\<And>x. page_line x = v \<Longrightarrow> flash s1 x = flash s x"
        using mv by (simp_all add: moved_def del: split_paired_All)
      have same: "flash s1 (c, l, v, g) = flash s (c, l, v, g)" for g by (rule M(3)) (simp add: page_line_def)
      have "moved s1 (block_valid ?sp (flash s) c l v (Suc pg)) [v] (block_set ?sp c l v) (flash s1) (clean_pages k rt s1 (p\<lparr>g_pg := of_nat pg\<rparr>) (Suc pg))"
        using Suc.IH [OF M(1) Z' _ _ pq] M(2) Suc.prems(3,4) block_valid_cong [of "flash s1" c l v "flash s", OF same] by simp
      then have "moved s1 (block_valid ?sp (flash s) c l v (Suc pg)) [v] (block_set ?sp c l v) (flash s) (clean_pages k rt s1 (p\<lparr>g_pg := of_nat pg\<rparr>) (Suc pg))"
        by (rule moved_flash [rotated]) (simp add: M(3))
      then show ?thesis using moved_trans [OF mv [unfolded Some]] unfolding bv cl Some by simp
    qed
  qed
qed

lemma mem_block_set: "x \<in> block_set sp c l b \<longleftrightarrow> (\<exists>g < nG sp. x = (c, l, b, g))"
  by (auto simp: block_set_def)

lemma gc_one_block_ok:
  assumes inv: "ssd_inv s [v] {}" and x: "in_range (ssd_sp s) (c, l, v, 0)"
  shows "moved s (block_valid (ssd_sp s) (flash s) c l v 0) [v] {}
    (\<lambda>y. if y \<in> block_set (ssd_sp s) c l v then PG_FREE else flash s y) (gc_one_block rt s (addr (c, l, v, 0)))"
proof -
  let ?sp = "ssd_sp s" and ?p = "addr (c, l, v, 0)" and ?B = "block_set (ssd_sp s) c l v"
  let ?n = "block_valid ?sp (flash s) c l v 0"
  have "?p\<lparr>g_pg := of_nat g\<rparr> = addr (c, l, v, g)" for g by (simp add: addr_def)
  then have C: "moved s ?n [v] ?B (flash s) (clean_one_block rt s ?p)"
    unfolding clean_one_block_def using inv x by (intro clean_pages_ok) simp_all
  show ?thesis
  proof (cases "clean_one_block rt s ?p")
    case None
    then show ?thesis using C by (simp add: gc_one_block_def moved_def)
  next
    case (Some s1)
    then have M: "ssd_inv s1 [v] ?B" "ssd_sp s1 = ?sp" "free_of s1 + ?n = free_of s" "0 < free_of s1" "lpns s1 = lpns s"
      "\<And>x. page_line x = v \<Longrightarrow> flash s1 x = flash s x"
      using C by (simp_all add: moved_def del: split_paired_All)
    have I: "params_ok ?sp" "flash_shape s1" "lines_ok ?sp (flash s1) (ssd_wp s1) (ssd_lm s1) [v]"
      "map_ok ?sp (flash s1) (ssd_maptbl s1) (ssd_rmap s1) ?B"
      using M(1) by (simp_all add: ssd_inv_def M(2))
    define s2 where "s2 = mark_block_free s1 ?p"
    let ?F2 = "\<lambda>y. if y \<in> ?B then PG_FREE else flash s1 y"
    have "(\<lambda>y. if \<exists>g'. y = (c, l, v, g') then PG_FREE else flash s1 y) = ?F2"
      using M(2) by (auto simp: fun_eq_iff mem_block_set flash_def in_range_def)
    then have 2: "flash_step s1 s2 ?F2"
      using mark_block_free_step [of s1 c l v 0] I(1,2) M(2) x unfolding s2_def by simp
    have T: "ssd_sp s2 = ?sp" "ssd_maptbl s2 = ssd_maptbl s1" "ssd_rmap s2 = ssd_rmap s1" "ssd_wp s2 = ssd_wp s1" "ssd_lm s2 = ssd_lm s1"
      "flash s2 = ?F2" "flash_shape s2"
      using 2 M(2) by (simp_all add: flash_step_def same_tables_def)
    have lines: "lines_ok ?sp ?F2 (ssd_wp s1) (ssd_lm s1) [v]"
      by (rule lines_ok_limbo [OF I(3)]) (auto simp: mem_block_set page_line_def)
    have "map_ok ?sp ?F2 (ssd_maptbl s1) (ssd_rmap s1) (?B - ?B)" using I(4) by (rule map_ok_free) simp
    then have inv2: "ssd_inv s2 [v] {}" using I(1) T lines by (simp add: ssd_inv_def)
    define s3 where "s3 = (if enable_gc_delay (ssd_sp s2) then fst (ssd_advance_status rt s2 ?p (gc_cmd NAND_ERASE)) else s2)"
    have 3: "flash_step s2 s3 (flash s2)" unfolding s3_def using ssd_advance_status_step [OF T(7)] T(7)
      by (simp add: flash_step_def same_tables_def)
    have 4: "flash_step s2 (set_lun_gc_endtime s3 ?p) (flash s2)"
      using flash_step_trans [OF 3 set_lun_gc_endtime_step] 3 by (simp add: flash_step_def)
    have r: "gc_one_block rt s ?p = Some (set_lun_gc_endtime s3 ?p)"
      by (simp add: gc_one_block_def Some Let_def s2_def s3_def)
    have fr: "free_of s2 = free_of s1" "lpns s2 = lpns s1" using T M(2) by (simp_all add: free_of_def)
    show ?thesis
      unfolding r moved_def option.case
      using ssd_inv_step [OF 4 inv2] fr M T(1,6) by (simp del: split_paired_All)
  qed
qed

definition blocks_set :: "ssdparams \<Rightarrow> nat \<Rightarrow> nat \<Rightarrow> nat \<Rightarrow> page set" where
  "blocks_set sp c lun v = (\<Union>l \<in> {lun..<nL sp}. block_set sp c l v)"

definition chans_set :: "ssdparams \<Rightarrow> nat \<Rightarrow> nat \<Rightarrow> page set" where
  "chans_set sp ch v = (\<Union>c \<in> {ch..<nC sp}. blocks_set sp c 0 v)"

abbreviation erased :: "page set \<Rightarrow> (page \<Rightarrow> pg_status) \<Rightarrow> page \<Rightarrow> pg_status" where
  "erased R F \<equiv> (\<lambda>y. if y \<in> R then PG_FREE else F y)"

text \<open>One part of the victim is cleaned, then the rest.\<close>

lemma moved_then:
  assumes 1: "moved s n [v] {} (erased R1 (flash s)) (Some s1)" and 2: "moved s1 m [v] {} (erased R2 (flash s1)) r"
  shows "moved s (n + m) [v] {} (erased (R1 \<union> R2) (flash s)) r"
proof -
  have "flash s1 x = erased R1 (flash s) x" if "page_line x = v" for x
    using 1 that by (simp add: moved_def del: split_paired_All)
  then have "moved s1 m [v] {} (erased (R1 \<union> R2) (flash s)) r"
    by (intro moved_flash [OF _ 2]) simp
  with 1 show ?thesis by (rule moved_trans)
qed

lemma gc_luns_ok:
  assumes "ssd_inv s [v] {}" "k + lun = nL (ssd_sp s)" "c < nC (ssd_sp s)" "v < nB (ssd_sp s)"
    and p: "\<And>l. p\<lparr>g_lun := of_nat l, g_pl := 0\<rparr> = addr (c, l, v, 0)"
  shows "moved s (\<Sum>l = lun..<nL (ssd_sp s). block_valid (ssd_sp s) (flash s) c l v 0) [v] {}
    (erased (blocks_set (ssd_sp s) c lun v) (flash s)) (gc_luns k rt s p lun)"
  using assms(1-4)
proof (induction k arbitrary: s lun)
  case 0
  then show ?case using free_of_pos [OF 0(1)] by (simp add: moved_def blocks_set_def)
next
  case (Suc k)
  let ?sp = "ssd_sp s" and ?bv = "\<lambda>F l. block_valid (ssd_sp s) F c l v 0"
  have lt: "lun < nL ?sp" using Suc.prems(2) by linarith
  have G: "0 < nG ?sp" using Suc.prems(1) params_bounds(8) by (auto simp: ssd_inv_def)
  have x: "in_range ?sp (c, lun, v, 0)" using lt G Suc.prems by (simp add: in_range_def)
  note B = gc_one_block_ok [OF Suc.prems(1) x, of rt]
  have sum: "(\<Sum>l = lun..<nL ?sp. ?bv F l) = ?bv F lun + (\<Sum>l = Suc lun..<nL ?sp. ?bv F l)" for F
    using lt by (simp add: sum.atLeast_Suc_lessThan)
  have set: "blocks_set ?sp c lun v = block_set ?sp c lun v \<union> blocks_set ?sp c (Suc lun) v"
  proof -
    have "{lun..<nL ?sp} = insert lun {Suc lun..<nL ?sp}" using lt by auto
    then show ?thesis by (simp add: blocks_set_def)
  qed
  show ?case
  proof (cases "gc_one_block rt s (addr (c, lun, v, 0))")
    case None
    then show ?thesis using B moved_None unfolding sum set by (simp add: p)
  next
    case (Some s1)
    then have M: "ssd_inv s1 [v] {}" "ssd_sp s1 = ?sp"
      "\<And>x. page_line x = v \<Longrightarrow> flash s1 x = erased (block_set ?sp c lun v) (flash s) x"
      using B by (simp_all add: moved_def del: split_paired_All)
    have "flash s1 (c, l, v, g) = flash s (c, l, v, g)" if "l \<noteq> lun" for l g
      using that by (subst M(3)) (simp_all add: page_line_def block_set_def)
    then have bv: "?bv (flash s1) l = ?bv (flash s) l" if "l \<noteq> lun" for l using that by (intro block_valid_cong) simp
    have "moved s1 (\<Sum>l = Suc lun..<nL ?sp. ?bv (flash s1) l) [v] {} (erased (blocks_set ?sp c (Suc lun) v) (flash s1)) (gc_luns k rt s1 p (Suc lun))"
      using Suc.IH [OF M(1)] M(2) Suc.prems by simp
    moreover have "(\<Sum>l = Suc lun..<nL ?sp. ?bv (flash s1) l) = (\<Sum>l = Suc lun..<nL ?sp. ?bv (flash s) l)"
      by (intro sum.cong refl bv) simp
    ultimately show ?thesis
      using moved_then [OF B [unfolded Some]] Some unfolding sum set by (simp add: p)
  qed
qed

lemma gc_chs_ok:
  assumes "ssd_inv s [v] {}" "k + ch = nC (ssd_sp s)" "v < nB (ssd_sp s)"
    and p: "\<And>c l. p\<lparr>g_ch := of_nat c\<rparr>\<lparr>g_lun := of_nat l, g_pl := 0\<rparr> = addr (c, l, v, 0)"
  shows "moved s (\<Sum>c = ch..<nC (ssd_sp s). \<Sum>l = 0..<nL (ssd_sp s). block_valid (ssd_sp s) (flash s) c l v 0) [v] {}
    (erased (chans_set (ssd_sp s) ch v) (flash s)) (gc_chs k rt s p ch)"
  using assms(1-3)
proof (induction k arbitrary: s ch)
  case 0
  then show ?case using free_of_pos [OF 0(1)] by (simp add: moved_def chans_set_def)
next
  case (Suc k)
  let ?sp = "ssd_sp s" and ?bv = "\<lambda>F c. \<Sum>l = 0..<nL (ssd_sp s). block_valid (ssd_sp s) F c l v 0"
  have lt: "ch < nC ?sp" using Suc.prems(2) by linarith
  note B = gc_luns_ok [OF Suc.prems(1) _ lt Suc.prems(3), of "nL ?sp" 0 "p\<lparr>g_ch := of_nat ch\<rparr>" rt, simplified add_0_right, OF refl p]
  have sum: "(\<Sum>c = ch..<nC ?sp. ?bv F c) = ?bv F ch + (\<Sum>c = Suc ch..<nC ?sp. ?bv F c)" for F
    using lt by (simp add: sum.atLeast_Suc_lessThan)
  have set: "chans_set ?sp ch v = blocks_set ?sp ch 0 v \<union> chans_set ?sp (Suc ch) v"
  proof -
    have "{ch..<nC ?sp} = insert ch {Suc ch..<nC ?sp}" using lt by auto
    then show ?thesis by (simp add: chans_set_def)
  qed
  show ?case
  proof (cases "gc_luns (nL ?sp) rt s (p\<lparr>g_ch := of_nat ch\<rparr>) 0")
    case None
    then show ?thesis using B moved_None unfolding sum set by simp
  next
    case (Some s1)
    then have M: "ssd_inv s1 [v] {}" "ssd_sp s1 = ?sp"
      "\<And>x. page_line x = v \<Longrightarrow> flash s1 x = erased (blocks_set ?sp ch 0 v) (flash s) x"
      using B by (simp_all add: moved_def del: split_paired_All)
    have "flash s1 (c, l, v, g) = flash s (c, l, v, g)" if "c \<noteq> ch" for c l g
      using that by (subst M(3)) (simp_all add: page_line_def blocks_set_def block_set_def)
    then have bv: "?bv (flash s1) c = ?bv (flash s) c" if "c \<noteq> ch" for c
      using that by (intro sum.cong refl block_valid_cong) simp
    have "moved s1 (\<Sum>c = Suc ch..<nC ?sp. ?bv (flash s1) c) [v] {} (erased (chans_set ?sp (Suc ch) v) (flash s1)) (gc_chs k rt s1 p (Suc ch))"
      using Suc.IH [OF M(1)] M(2) Suc.prems by simp
    moreover have "(\<Sum>c = Suc ch..<nC ?sp. ?bv (flash s1) c) = (\<Sum>c = Suc ch..<nC ?sp. ?bv (flash s) c)"
      by (intro sum.cong refl bv) simp
    ultimately show ?thesis
      using moved_then [OF B [unfolded Some]] Some unfolding sum set by simp
  qed
qed

lemma page_count_blocks:
  assumes "v < nB sp"
  shows "page_count sp F v PG_VALID = (\<Sum>c = 0..<nC sp. \<Sum>l = 0..<nL sp. block_valid sp F c l v 0)"
proof -
  let ?G = "\<lambda>c l. {g. 0 \<le> g \<and> g < nG sp \<and> F (c, l, v, g) = PG_VALID}"
  let ?A = "SIGMA c:{0..<nC sp}. SIGMA l:{0..<nL sp}. ?G c l"
  have fin: "finite (?G c l)" for c l by (rule finite_subset [of _ "{..<nG sp}"]) auto
  have "{x \<in> line_set sp v. F x = PG_VALID} = (\<lambda>(c, l, g). (c, l, v, g)) ` ?A"
    using assms by (auto simp: line_set_def in_range_def page_line_def image_iff)
  then have "page_count sp F v PG_VALID = card ?A"
    unfolding page_count_def by (simp add: card_image inj_on_def)
  also have "\<dots> = (\<Sum>c = 0..<nC sp. card (SIGMA l:{0..<nL sp}. ?G c l))"
    by (intro card_SigmaI ballI finite_SigmaI fin) simp_all
  finally have "page_count sp F v PG_VALID = (\<Sum>c = 0..<nC sp. card (SIGMA l:{0..<nL sp}. ?G c l))" .
  moreover have "card (SIGMA l:{0..<nL sp}. ?G c l) = (\<Sum>l = 0..<nL sp. block_valid sp F c l v 0)" for c
    unfolding block_valid_def by (intro card_SigmaI ballI fin) simp
  ultimately show ?thesis by simp
qed

lemma chans_set_line: "v < nB sp \<Longrightarrow> line_set sp v \<subseteq> chans_set sp 0 v"
  by (auto simp: line_set_def chans_set_def blocks_set_def block_set_def in_range_def page_line_def)

subsection \<open>Garbage collection\<close>

lemma do_gc_ok:
  assumes ok: "ftl_ok s"
  shows "case do_gc rt s force of
     None \<Rightarrow> free_of s < line_pages (ssd_sp s)
   | Some (r, s') \<Rightarrow>
       (r = -1 \<and> s' = s \<and> (force \<longrightarrow> victims (ssd_lm s) = [])) \<or>
       (r = 0 \<and> ftl_ok s' \<and> ssd_sp s' = ssd_sp s \<and> lpns s' = lpns s \<and> free_of s < free_of s' \<and>
        (\<exists>n < line_pages (ssd_sp s). free_of s' + n = free_of s + line_pages (ssd_sp s)))"
proof -
  let ?sp = "ssd_sp s"
  have I: "params_ok ?sp" "flash_shape s" "lines_ok ?sp (flash s) (ssd_wp s) (ssd_lm s) []"
    "map_ok ?sp (flash s) (ssd_maptbl s) (ssd_rmap s) {}"
    using ok by (simp_all add: ftl_ok_def ssd_inv_def)
  obtain vo s1 where sel: "select_victim_line s force = (vo, s1)" by (cases "select_victim_line s force")
  show ?thesis
  proof (cases vo)
    case None
    then have "s1 = s" using sel select_victim_line_None by auto
    moreover have "force \<Longrightarrow> victims (ssd_lm s) = []" using select_victim_line_forced [OF I(3)] sel None by auto
    ultimately show ?thesis using sel None by (simp add: do_gc_def)
  next
    case (Some v)
    note V = select_victim_line_ok [OF I(3) sel [unfolded Some]]
    have T: "ssd_sp s1 = ?sp" "ssd_maptbl s1 = ssd_maptbl s" "ssd_rmap s1 = ssd_rmap s" "flash s1 = flash s" "flash_shape s1"
      using V(1) same_flashD [OF V(1)] I(2) by (simp_all add: same_flash_def)
    have inv1: "ssd_inv s1 [v] {}" using I V(3) by (simp add: ssd_inv_def T)
    have fr1: "free_of s1 = free_of s" "lpns s1 = lpns s" using V T by (simp_all add: free_of_def free_pages_def)
    define p where "p = (ppa_of_raw 0)\<lparr>g_blk := word_of_int (line_id (lm_lines (ssd_lm s1) ! v))\<rparr>"
    have p: "p\<lparr>g_ch := of_nat c\<rparr>\<lparr>g_lun := of_nat l, g_pl := 0\<rparr> = addr (c, l, v, 0)" for c l
      by (simp add: p_def V(6) addr_def ppa_of_raw_def)
    define n where "n = page_count ?sp (flash s) v PG_VALID"
    have G: "moved s1 n [v] {} (erased (chans_set ?sp 0 v) (flash s)) (gc_chs (nC ?sp) rt s1 p 0)"
      using gc_chs_ok [OF inv1 _ _ p, of "nC ?sp" 0 rt, unfolded T(1,4)] V(5) page_count_blocks [OF V(5), of "flash s"] by (simp add: n_def)
    have gc: "do_gc rt s force = (case gc_chs (nC ?sp) rt s1 p 0 of None \<Rightarrow> None | Some s2 \<Rightarrow> Some (0, mark_line_free s2 p))"
      by (simp add: do_gc_def sel Some p_def T Let_def split: option.split)
    show ?thesis
    proof (cases "gc_chs (nC ?sp) rt s1 p 0")
      case None
      then show ?thesis using G V(7) fr1 by (simp add: gc moved_def n_def)
    next
      case (Some s2)
      then have M: "ssd_inv s2 [v] {}" "ssd_sp s2 = ?sp" "free_of s2 + n = free_of s" "0 < free_of s2" "lpns s2 = lpns s"
        "\<And>x. page_line x = v \<Longrightarrow> flash s2 x = erased (chans_set ?sp 0 v) (flash s) x"
        using G fr1 T by (simp_all add: moved_def del: split_paired_All)
      have free: "flash s2 x = PG_FREE" if "x \<in> line_set ?sp v" for x
        using M(6) [of x] that chans_set_line [OF V(5)] by (auto simp: line_set_def)
      have gl: "get_line s2 p = v"
        using V(5,6) params_bounds(3) [OF I(1)] by (simp add: get_line_def p_def unat_of_nat)
      have I2: "lines_ok ?sp (flash s2) (ssd_wp s2) (ssd_lm s2) [v]" "flash_shape s2"
        "map_ok ?sp (flash s2) (ssd_maptbl s2) (ssd_rmap s2) {}" using M(1,2) by (simp_all add: ssd_inv_def)
      let ?s3 = "mark_line_free s2 p"
      note L = mark_line_free_ok [OF I2(1) free gl]
      have T3: "ssd_sp ?s3 = ?sp" "ssd_maptbl ?s3 = ssd_maptbl s2" "ssd_rmap ?s3 = ssd_rmap s2" "flash ?s3 = flash s2" "flash_shape ?s3"
        using L(1) same_flashD [OF L(1)] I2(2) M(2) by (simp_all add: same_flash_def)
      have "ftl_ok ?s3" using I(1) I2 L(3) by (simp add: ftl_ok_def ssd_inv_def T3)
      moreover have "free_of ?s3 + n = free_of s + line_pages ?sp" using L(4) M(2,3) T3(1) by (simp add: free_of_def)
      moreover have "n < line_pages ?sp" using V(7) by (simp add: n_def)
      ultimately show ?thesis using Some M(5) T3 by (auto simp: gc)
    qed
  qed
qed

subsection \<open>The pages there are\<close>

lemma ftl_okD:
  assumes "ftl_ok s"
  shows "params_ok (ssd_sp s)" "flash_shape s" "lines_ok (ssd_sp s) (flash s) (ssd_wp s) (ssd_lm s) []"
    "map_ok (ssd_sp s) (flash s) (ssd_maptbl s) (ssd_rmap s) {}" "length (ssd_maptbl s) = nat (tt_pgs (ssd_sp s))"
proof -
  show "params_ok (ssd_sp s)" "flash_shape s" "lines_ok (ssd_sp s) (flash s) (ssd_wp s) (ssd_lm s) []"
    "map_ok (ssd_sp s) (flash s) (ssd_maptbl s) (ssd_rmap s) {}"
    using assms unfolding ftl_ok_def ssd_inv_def by blast+
  then show "length (ssd_maptbl s) = nat (tt_pgs (ssd_sp s))" by (simp only: map_ok_def)
qed

text \<open>Free, full and current lines and victims make up the device.\<close>

lemma line_census:
  assumes "line_sets_ok sp cur lm []"
  shows "length (free_line_list lm) + length (full_line_list lm) + length (victims lm) + 1 = nB sp"
proof -
  have "mset (cur # free_line_list lm @ full_line_list lm @ victims lm @ []) = mset [0..<nB sp]"
    using assms by (simp add: line_sets_ok_def)
  then have "length (cur # free_line_list lm @ full_line_list lm @ victims lm @ []) = length [0..<nB sp]" by (rule mset_eq_length)
  then show ?thesis by simp
qed

lemma free_of_le:
  assumes "ftl_ok s"
  shows "free_of s \<le> nat (tt_pgs (ssd_sp s))"
proof -
  let ?sp = "ssd_sp s" and ?lm = "ssd_lm s"
  obtain cur where S: "line_sets_ok ?sp cur ?lm []" using ftl_okD(3) [OF assms] by (auto simp: lines_ok_def)
  have "(length (free_line_list ?lm) + 1) * line_pages ?sp \<le> nB ?sp * line_pages ?sp"
    using line_census [OF S] by (intro mult_le_mono1) linarith
  then show ?thesis unfolding nat_tt_pgs(3) [OF ftl_okD(1) [OF assms]] free_of_def free_pages_def
    by (simp only: add_mult_distrib mult_1) linarith
qed

text \<open>The pages of full lines all belong to logical pages.\<close>

lemma full_lines_mapped:
  assumes "ftl_ok s"
  shows "length (full_line_list (ssd_lm s)) * line_pages (ssd_sp s) \<le> card (lpns s)"
proof -
  let ?sp = "ssd_sp s" and ?lm = "ssd_lm s" and ?mt = "ssd_maptbl s" and ?rm = "ssd_rmap s"
  note I = ftl_okD [OF assms]
  obtain cur where S: "line_sets_ok ?sp cur ?lm []" and P: "line_pages_ok ?sp (flash s) ?lm []"
    using I(3) by (auto simp: lines_ok_def)
  let ?V = "\<lambda>b. {x \<in> line_set ?sp b. flash s x = PG_VALID}"
  let ?W = "\<Union>b \<in> set (full_line_list ?lm). ?V b" and ?g = "\<lambda>x. unat (?rm ! page_idx ?sp x)"
  have d: "distinct (full_line_list ?lm)" using line_sets_distinct(1) [OF S] by auto
  have "card ?W = (\<Sum>b \<in> set (full_line_list ?lm). card (?V b))"
    by (intro card_UN_disjoint ballI impI) (auto simp: line_set_def intro: finite_subset [OF _ finite_line_set])
  also have "\<dots> = (\<Sum>b \<in> set (full_line_list ?lm). line_pages ?sp)"
    using P by (intro sum.cong refl) (simp add: line_pages_ok_def page_count_def)
  also have "\<dots> = length (full_line_list ?lm) * line_pages ?sp" using d by (simp add: distinct_card)
  finally have W: "card ?W = length (full_line_list ?lm) * line_pages ?sp" .
  have g: "?g x < length ?mt \<and> ?mt ! ?g x = addr x" if "x \<in> ?W" for x
  proof -
    from that have x: "in_range ?sp x" "x \<notin> {}" "flash s x = PG_VALID" by (auto simp: line_set_def)
    obtain n where n: "n < length ?mt" "?mt ! n = addr x" "?rm ! page_idx ?sp x = of_nat n"
      using map_ok_valid [OF I(4) x] by (elim exE conjE)
    then show ?thesis using lpn_word_inj(2) [OF I(1,4) n(1,1)] by simp
  qed
  have "inj_on ?g ?W"
  proof (rule inj_onI)
    fix x y assume xy: "x \<in> ?W" "y \<in> ?W" "?g x = ?g y"
    have "addr x = addr y" using g [OF xy(1)] g [OF xy(2)] xy(3) by simp
    moreover have "in_range ?sp x" "in_range ?sp y" using xy by (auto simp: line_set_def)
    ultimately show "x = y" using addr_inj [OF I(1)] by blast
  qed
  moreover have "?g ` ?W \<subseteq> lpns s"
  proof (rule image_subsetI)
    fix x assume "x \<in> ?W"
    from g [OF this] show "?g x \<in> lpns s" by (simp add: mapped_set_def)
  qed
  moreover have "finite (lpns s)" by (simp add: mapped_set_def)
  ultimately have "card ?W \<le> card (lpns s)" by (rule card_inj_on_le)
  then show ?thesis using W by simp
qed

text \<open>Without victims, what is neither mapped nor in the current line is free.\<close>

lemma free_without_victims:
  assumes "ftl_ok s" "victims (ssd_lm s) = []"
  shows "nat (tt_pgs (ssd_sp s)) < free_of s + card (lpns s) + line_pages (ssd_sp s)"
proof -
  let ?sp = "ssd_sp s" and ?lm = "ssd_lm s"
  note I = ftl_okD [OF assms(1)]
  obtain cur where S: "line_sets_ok ?sp cur ?lm []" and C: "cur_ok ?sp (flash s) (ssd_wp s) cur"
    using I(3) by (auto simp: lines_ok_def)
  have n: "nB ?sp = length (free_line_list ?lm) + length (full_line_list ?lm) + 1" using line_census [OF S] assms(2) by simp
  have "nat (tt_pgs ?sp) = length (free_line_list ?lm) * line_pages ?sp + length (full_line_list ?lm) * line_pages ?sp + line_pages ?sp"
    unfolding nat_tt_pgs(3) [OF I(1)] n by (simp only: add_mult_distrib mult_1)
  then show ?thesis
    using full_lines_mapped [OF assms(1)] next_page_props(5) [OF S C] unfolding free_of_def free_pages_def by linarith
qed

subsection \<open>Writes\<close>

lemma write_one_page_ok:
  assumes ok: "ftl_ok s" and lpn: "lpn < length (ssd_maptbl s)"
  shows "case write_one_page rt req s lpn of
     None \<Rightarrow> free_of s = 1
   | Some (s', lat) \<Rightarrow> ftl_ok s' \<and> ssd_sp s' = ssd_sp s \<and> lpns s' = insert lpn (lpns s) \<and> Suc (free_of s') = free_of s \<and> 0 < free_of s'"
proof -
  let ?sp = "ssd_sp s" and ?mt = "ssd_maptbl s" and ?rm = "ssd_rmap s"
  note I = ftl_okD [OF ok]
  define s1 where "s1 = (if mapped_ppa (?mt ! lpn)
    then set_rmap_ent (mark_page_invalid s (?mt ! lpn)) INVALID_LPN (?mt ! lpn) else s)"
  have "\<exists>Y. (\<forall>z. in_range ?sp z \<longrightarrow> (?mt ! lpn = addr z \<longleftrightarrow> z \<in> Y)) \<and> ssd_sp s1 = ?sp \<and> ssd_maptbl s1 = ?mt \<and> flash_shape s1 \<and>
      ssd_wp s1 = ssd_wp s \<and> lines_ok ?sp (flash s1) (ssd_wp s1) (ssd_lm s1) [] \<and> free_of s1 = free_of s \<and> length (ssd_rmap s1) = length ?rm \<and>
      (\<forall>z. z \<in> Y \<longrightarrow> flash s1 z = PG_INVALID) \<and> (\<forall>z. z \<notin> Y \<longrightarrow> flash s1 z = flash s z) \<and>
      (\<forall>z. in_range ?sp z \<longrightarrow> z \<notin> Y \<longrightarrow> ssd_rmap s1 ! page_idx ?sp z = ?rm ! page_idx ?sp z)"
  proof (cases "mapped_ppa (?mt ! lpn)")
    case False
    have "?mt ! lpn \<noteq> addr z" for z using False addr_mapped [of z] by metis
    then show ?thesis using I False by (intro exI [of _ "{}"]) (simp add: s1_def del: split_paired_All)
  next
    case True
    from map_ok_mapped [OF I(4) lpn this]
    obtain y where y: "in_range ?sp y" "?mt ! lpn = addr y" "flash s y = PG_VALID" by blast
    note M = mark_page_invalid_ok [OF I(1,2,3) y(1,3)]
    let ?m = "mark_page_invalid s (addr y)"
    have e: "s1 = ?m\<lparr>ssd_rmap := ?rm[page_idx ?sp y := INVALID_LPN]\<rparr>"
      using True y M ppa2pgidx_addr [of ?m y] I(1) by (simp add: s1_def set_rmap_ent_def)
    have fl: "flash s1 = (flash s)(y := PG_INVALID)" "flash_shape s1"
      using flash_cong [of s1 ?m] M(5,6) by (simp_all add: e)
    have "lines_ok ?sp (flash s1) (ssd_wp s1) (ssd_lm s1) []" using M(5,7) by (simp add: fl) (simp add: e)
    moreover have "free_of s1 = free_of s" using M(1,4,8) by (simp add: e free_of_def free_pages_def)
    moreover have "(?mt ! lpn = addr z) = (z \<in> {y})" if "in_range ?sp z" for z using addr_inj [OF I(1) y(1) that] y(2) by auto
    moreover have "ssd_rmap s1 ! page_idx ?sp z = ?rm ! page_idx ?sp z" if "in_range ?sp z" "z \<noteq> y" for z
      using page_idx_inj [OF that(1) y(1)] that(2) by (simp add: e)
    ultimately show ?thesis using fl M(1,2,4) by (intro exI [of _ "{y}"]) (simp add: e del: split_paired_All)
  qed
  then obtain Y where Y: "\<And>z. in_range ?sp z \<Longrightarrow> ?mt ! lpn = addr z \<longleftrightarrow> z \<in> Y" and S1: "ssd_sp s1 = ?sp" "ssd_maptbl s1 = ?mt"
    "flash_shape s1" "lines_ok ?sp (flash s1) (ssd_wp s1) (ssd_lm s1) []" "free_of s1 = free_of s" "length (ssd_rmap s1) = length ?rm"
    and F1: "\<And>z. z \<in> Y \<Longrightarrow> flash s1 z = PG_INVALID" "\<And>z. z \<notin> Y \<Longrightarrow> flash s1 z = flash s z"
    and R1: "\<And>z. in_range ?sp z \<Longrightarrow> z \<notin> Y \<Longrightarrow> ssd_rmap s1 ! page_idx ?sp z = ?rm ! page_idx ?sp z" by blast
  define x where "x = next_page (ssd_wp s1)"
  define s2 where "s2 = s1\<lparr>ssd_maptbl := ?mt[lpn := addr x], ssd_rmap := (ssd_rmap s1)[page_idx ?sp x := of_nat lpn]\<rparr>"
  have T2: "flash s2 = flash s1" "flash_shape s2" "ssd_sp s2 = ?sp" "ssd_wp s2 = ssd_wp s1" "ssd_lm s2 = ssd_lm s1"
    using flash_cong [of s2 s1] S1 by (simp_all add: s2_def)
  note P = program_page_ok [where s = s2, unfolded T2, OF I(1) T2(2) S1(4), folded x_def]
  note P1 = program_page_ok [where s = s1, unfolded S1(1), OF I(1) S1(3,4), folded x_def]
  have xY: "x \<notin> Y" using F1(1) [of x] P(3) by auto
  have xF: "flash s x = PG_FREE" using F1(2) [OF xY] P(3) by simp
  have ix: "page_idx ?sp x < length ?rm" by (rule map_ok_idx [OF I(1,4) P(2)])
  have w: "write_one_page rt req s lpn = (case ssd_advance_write_pointer (mark_page_valid s2 (addr x)) of
      None \<Rightarrow> None
    | Some s3 \<Rightarrow> Some (ssd_advance_status rt s3 (addr x) \<lparr>nc_type = USER_IO, nc_cmd = NAND_WRITE, nc_stime = req_stime req\<rparr>))"
    using P1(1) ppa2pgidx_addr [of "s1\<lparr>ssd_maptbl := ?mt[lpn := addr x]\<rparr>" x] P(2) I(1) S1(1,2)
    unfolding write_one_page_def Let_def get_maptbl_ent_def s1_def [symmetric]
    by (simp add: set_maptbl_ent_def set_rmap_ent_def s2_def split: option.split)
  let ?F' = "(flash s1)(x := PG_VALID)" and ?rm' = "(ssd_rmap s1)[page_idx ?sp x := of_nat lpn]"
  have f: "?F' x = PG_VALID" "\<And>z. z \<noteq> x \<Longrightarrow> z \<notin> Y \<Longrightarrow> ?F' z = flash s z" by (simp_all add: F1(2))
  have fY: "z \<in> {} \<or> ?F' z \<noteq> PG_VALID" if "z \<in> Y" for z
  proof -
    have "z \<noteq> x" using that xY by blast
    then show ?thesis using F1(1) [OF that] by simp
  qed
  have r: "length ?rm' = length ?rm" "?rm' ! page_idx ?sp x = of_nat lpn" using S1(6) ix by simp_all
  have rz: "?rm' ! page_idx ?sp z = ?rm ! page_idx ?sp z" if "in_range ?sp z" "z \<noteq> x" "z \<notin> Y" for z
    using R1 [OF that(1,3)] page_idx_inj [OF P(2) that(1)] that(2) by simp
  note mv = map_ok_move [where F' = ?F', OF I(1,4) lpn P(2) xF empty_iff [THEN iffD1, THEN notI] f fY r rz Y order_refl Un_upper1]
  show ?thesis
  proof (cases "ssd_advance_write_pointer (mark_page_valid s2 (addr x))")
    case None
    then show ?thesis using P(6) S1(1,5) by (simp add: w free_of_def)
  next
    case (Some s3)
    then have A: "ssd_sp s3 = ?sp" "ssd_maptbl s3 = ?mt[lpn := addr x]" "ssd_rmap s3 = (ssd_rmap s1)[page_idx ?sp x := of_nat lpn]"
      "flash s3 = (flash s1)(x := PG_VALID)" "flash_shape s3" "lines_ok ?sp (flash s3) (ssd_wp s3) (ssd_lm s3) []"
      "Suc (free_of s3) = free_of s" "0 < free_of s3"
      using P(6) S1(1,5) by (auto simp: s2_def free_of_def)
    have inv3: "ssd_inv s3 [] {}" using A I(1) mv(1) by (simp add: ssd_inv_def)
    obtain s4 lat where st: "ssd_advance_status rt s3 (addr x)
        \<lparr>nc_type = USER_IO, nc_cmd = NAND_WRITE, nc_stime = req_stime req\<rparr> = (s4, lat)" by (rule prod.exhaust)
    have "flash_step s3 s4 (flash s3)" using ssd_advance_status_step [OF A(5)] st by (metis fst_conv)
    from ssd_inv_step [OF this inv3] show ?thesis
      using A(1,2,7,8) mv(2) by (simp add: w Some st ftl_ok_def)
  qed
qed

text \<open>The write loop: \<open>n\<close> logical pages take \<open>n\<close> free pages.\<close>

lemma ssd_write_loop_ok:
  "ftl_ok s \<Longrightarrow> case ssd_write_loop rt req s lpn end_lpn maxlat of
     Inl e \<Rightarrow> (e = Ftl_abort \<and> free_of s + lpn \<le> Suc end_lpn) \<or> (e = Maptbl_out_of_bounds \<and> length (ssd_maptbl s) \<le> end_lpn)
   | Inr (s', lat) \<Rightarrow> ftl_ok s' \<and> ssd_sp s' = ssd_sp s \<and> lpns s' = lpns s \<union> {lpn..end_lpn} \<and>
       free_of s' + (Suc end_lpn - lpn) = free_of s"
proof (induction rt req s lpn end_lpn maxlat rule: ssd_write_loop.induct)
  case (1 rt req s lpn end_lpn maxlat)
  show ?case
  proof (cases "end_lpn < lpn")
    case True
    then show ?thesis using 1(2) by (subst ssd_write_loop.simps) simp
  next
    case le: False
    show ?thesis
    proof (cases "length (ssd_maptbl s) \<le> lpn")
      case True
      then show ?thesis using le by (subst ssd_write_loop.simps) simp
    next
      case False
      note W = write_one_page_ok [OF 1(2), of lpn rt req]
      show ?thesis
      proof (cases "write_one_page rt req s lpn")
        case None
        then show ?thesis using W le False by (subst ssd_write_loop.simps) simp
      next
        case (Some p)
        obtain s1 lat where p: "p = (s1, lat)" by (cases p)
        have S1: "ftl_ok s1" "ssd_sp s1 = ssd_sp s" "lpns s1 = insert lpn (lpns s)" "Suc (free_of s1) = free_of s"
          using W False Some p by simp_all
        have len: "length (ssd_maptbl s1) = length (ssd_maptbl s)"
          using ftl_okD(5) [OF S1(1)] ftl_okD(5) [OF 1(2)] S1(2) by simp
        define m where "m = (if maxlat < lat then lat else maxlat)"
        have L: "ssd_write_loop rt req s lpn end_lpn maxlat = ssd_write_loop rt req s1 (Suc lpn) end_lpn m"
          using le False Some p by (subst ssd_write_loop.simps) (simp add: m_def)
        have IH: "case ssd_write_loop rt req s1 (Suc lpn) end_lpn m of
            Inl e \<Rightarrow> (e = Ftl_abort \<and> free_of s1 + Suc lpn \<le> Suc end_lpn) \<or> (e = Maptbl_out_of_bounds \<and> length (ssd_maptbl s1) \<le> end_lpn)
          | Inr (s', lat) \<Rightarrow> ftl_ok s' \<and> ssd_sp s' = ssd_sp s1 \<and> lpns s' = lpns s1 \<union> {Suc lpn..end_lpn} \<and>
              free_of s' + (Suc end_lpn - Suc lpn) = free_of s1"
          unfolding m_def by (rule 1(1) [OF le False Some p [symmetric] S1(1)])
        have un: "insert lpn (lpns s) \<union> {Suc lpn..end_lpn} = lpns s \<union> {lpn..end_lpn}" using le by auto
        show ?thesis using IH S1 len le un unfolding L by (auto split: sum.splits)
      qed
    qed
  qed
qed

text \<open>Forced collections: each frees at least one page, so the loop ends.\<close>

lemma gc_high_loop_ok:
  "ftl_ok s \<Longrightarrow> case gc_high_loop k rt s of
     Inl e \<Rightarrow> (e = Ftl_abort \<and> free_of s < line_pages (ssd_sp s)) \<or> (e = Gc_fuel \<and> free_of s + k \<le> nat (tt_pgs (ssd_sp s)))
   | Inr s' \<Rightarrow> ftl_ok s' \<and> ssd_sp s' = ssd_sp s \<and> lpns s' = lpns s \<and> free_of s \<le> free_of s' \<and>
       (should_gc_high s' \<longrightarrow> victims (ssd_lm s') = [])"
proof (induction k arbitrary: s)
  case 0
  then show ?case using free_of_le [OF 0] by simp
next
  case (Suc k)
  note G = do_gc_ok [where rt = rt and force = True, OF Suc.prems]
  show ?case
  proof (cases "should_gc_high s")
    case False
    then show ?thesis using Suc.prems by simp
  next
    case True
    show ?thesis
    proof (cases "do_gc rt s True")
      case None
      then show ?thesis using True G by simp
    next
      case (Some p)
      obtain r s1 where p: "p = (r, s1)" by (cases p)
      show ?thesis
      proof (cases "r = -1")
        case True
        then show ?thesis using G Some p \<open>should_gc_high s\<close> Suc.prems by auto
      next
        case False
        then have S1: "ftl_ok s1" "ssd_sp s1 = ssd_sp s" "lpns s1 = lpns s" "free_of s < free_of s1"
          using G Some p by auto
        show ?thesis using Suc.IH [OF S1(1)] S1 True False Some p by (auto split: sum.splits)
      qed
    qed
  qed
qed

subsection \<open>The initial state\<close>

lemma ssd_init_with_ok:
  assumes sp: "params_ok sp"
  defines "s \<equiv> ssd_init_with sp"
  shows "ftl_ok s" "ssd_sp s = sp" "lpns s = {}" "free_of s = nat (tt_pgs sp)" "victims (ssd_lm s) = []"
proof -
  note B = params_bounds [OF sp]
  let ?n = "nB sp"
  obtain m where m: "?n = Suc m" using B(7) by (cases ?n) auto
  have up: "[0..<?n] = 0 # [Suc 0..<?n]" using m by (simp add: upt_conv_Cons)
  have ms: "mset (0 # [Suc 0..<?n]) = mset [0..<?n]" by (simp only: up)
  define q where "q = the (pqueue_init True True 0 (nat (tt_lines sp)) victim_ops :: (line list, nat) pqueue option)"
  define lines where "lines = map (\<lambda>i. \<lparr>line_id = int i, line_ipc = 0, line_vpc = 0, line_pos = 0\<rparr>) [0..<?n]"
  have q: "pq_elems q = []" "pq_wf line_ix ls q" "q_ops q = victim_ops" for ls
    by (simp_all add: q_def pqueue_init_def pq_elems_def arr_slice_def pq_wf_def pq_shape_def pq_pos_def pq_heap_def)
  have lm: "ssd_lm s = \<lparr>lm_lines = lines, free_line_list = [Suc 0..<?n], victim_line_pq = q, full_line_list = [],
      lm_tt_lines = blks_per_pl sp, free_line_cnt = int ?n - 1, victim_line_cnt = 0, full_line_cnt = 0\<rparr>"
    by (simp add: s_def ssd_init_with_def ssd_init_write_pointer_def ssd_init_lines_def Let_def q_def lines_def up del: upt_Suc)
  have wp: "ssd_wp s = \<lparr>wp_curline = Some 0, wp_ch = 0, wp_lun = 0, wp_pg = 0, wp_blk = 0, wp_pl = 0\<rparr>"
    by (simp add: s_def ssd_init_with_def ssd_init_write_pointer_def ssd_init_lines_def Let_def up del: upt_Suc)
  have T: "ssd_sp s = sp" "ssd_ch s = replicate (nC sp) (ssd_init_ch sp)" "ssd_maptbl s = ssd_init_maptbl sp" "ssd_rmap s = ssd_init_rmap sp"
    by (simp_all add: s_def ssd_init_with_def ssd_init_write_pointer_def)
  then show "ssd_sp s = sp" by simp
  have pls: "nat (pls_per_lun sp) = 1" using sp by (simp add: params_ok_def)
  have blk: "blk_at s c l b = ssd_init_nand_blk sp" if "c < nC sp" "l < nL sp" "b < nB sp" for c l b
    using that by (simp add: blk_at_def T(2) ssd_init_ch_def ssd_init_nand_lun_def ssd_init_nand_plane_def pls)
  have sh: "flash_shape s"
    by (auto simp: flash_shape_def Let_def T(1) blk ssd_init_nand_blk_def)
      (simp_all add: T(2) ssd_init_ch_def ssd_init_nand_lun_def ssd_init_nand_plane_def pls)
  have fl: "flash s x = PG_FREE" for x
    by (cases x) (auto simp: flash_def in_range_def T(1) blk ssd_init_nand_blk_def ssd_init_nand_page_def)
  have cnt: "page_count sp (flash s) b st = 0" if "st \<noteq> PG_FREE" for b st using that fl by (simp add: page_count_zero del: split_paired_All)
  have "line_sets_ok sp 0 (ssd_lm s) []"
    using q m ms by (simp add: line_sets_ok_def lm lines_def del: upt_Suc mset.simps mset_upt)
  moreover have "cur_ok sp (flash s) (ssd_wp s) 0"
    using B by (simp add: cur_ok_def wp wp_ok_def write_pos_def fl)
  moreover have "line_pages_ok sp (flash s) (ssd_lm s) []"
    using q(1) by (simp add: line_pages_ok_def lm lines_def fl cnt)
  ultimately have lines: "lines_ok sp (flash s) (ssd_wp s) (ssd_lm s) []" by (auto simp: lines_ok_def)
  have "map_ok sp (flash s) (ssd_maptbl s) (ssd_rmap s) {}"
    by (simp add: map_ok_def T(3,4) ssd_init_maptbl_def ssd_init_rmap_def fl)
  then show "ftl_ok s" using sp sh lines by (simp add: ftl_ok_def ssd_inv_def T(1))
  show "lpns s = {}" by (simp add: mapped_set_def T(3) ssd_init_maptbl_def)
  show "victims (ssd_lm s) = []" by (simp add: lm q(1))
  have "m * line_pages sp + line_pages sp = ?n * line_pages sp" unfolding m by simp
  then show "free_of s = nat (tt_pgs sp)"
    unfolding nat_tt_pgs(3) [OF sp] using m by (simp add: free_of_def free_pages_def T(1) lm wp write_pos_def)
qed

subsection \<open>Room\<close>

lemma card_lpns_free:
  assumes "ftl_ok s"
  shows "card (lpns s) + free_of s \<le> nat (tt_pgs (ssd_sp s))"
proof -
  let ?sp = "ssd_sp s" and ?lm = "ssd_lm s" and ?mt = "ssd_maptbl s"
  note I = ftl_okD [OF assms]
  obtain cur where S: "line_sets_ok ?sp cur ?lm []" and C: "cur_ok ?sp (flash s) (ssd_wp s) cur" and P: "line_pages_ok ?sp (flash s) ?lm []"
    using I(3) by (auto simp: lines_ok_def)
  note D = line_sets_distinct [OF S]
  have cur: "cur < nB ?sp" using D(2) by auto
  let ?A = "{x \<in> line_set ?sp cur. stripe_pos ?sp x < write_pos ?sp (ssd_wp s)}"
  let ?L = "set (full_line_list ?lm @ victims ?lm)"
  let ?U = "?A \<union> (\<Union>b \<in> ?L. line_set ?sp b)"
  have pick: "\<exists>x. in_range ?sp x \<and> ?mt ! n = addr x \<and> flash s x = PG_VALID" if "n \<in> lpns s" for n
    using map_ok_mapped [OF I(4), of n] that by (auto simp: mapped_set_def simp del: split_paired_Ex)
  then obtain f where f: "\<And>n. n \<in> lpns s \<Longrightarrow> in_range ?sp (f n) \<and> ?mt ! n = addr (f n) \<and> flash s (f n) = PG_VALID" by metis
  have inv: "ssd_rmap s ! page_idx ?sp (f n) = of_nat n \<and> n < length ?mt" if n: "n \<in> lpns s" for n
  proof -
    obtain x where x: "in_range ?sp x" "?mt ! n = addr x" "ssd_rmap s ! page_idx ?sp x = of_nat n"
      using map_ok_mapped [OF I(4), of n] n by (auto simp: mapped_set_def simp del: split_paired_Ex)
    have e: "?mt ! n = addr (f n)" "in_range ?sp (f n)" using f [OF n] by blast+
    have "x = f n" using trans [OF x(2) [symmetric] e(1)] addr_inj [OF I(1) x(1) e(2)] by blast
    then show ?thesis using x(3) n by (simp add: mapped_set_def)
  qed
  have "inj_on f (lpns s)"
  proof (rule inj_onI)
    fix a b assume ab: "a \<in> lpns s" "b \<in> lpns s" "f a = f b"
    then have "(of_nat a :: u64) = of_nat b" using inv by metis
    then show "a = b" using lpn_word_inj(1) [OF I(1,4)] inv ab by blast
  qed
  moreover have "f ` lpns s \<subseteq> ?U"
  proof (rule image_subsetI)
    fix n assume "n \<in> lpns s"
    from f [OF this] have x: "in_range ?sp (f n)" "flash s (f n) = PG_VALID" by simp_all
    let ?b = "page_line (f n)"
    have xs: "f n \<in> line_set ?sp ?b" using x by (simp add: line_set_def)
    have "?b < nB ?sp" using x(1) by (cases "f n") (simp add: in_range_def page_line_def)
    then have "?b \<in> set (cur # free_line_list ?lm @ full_line_list ?lm @ victims ?lm @ [])" unfolding D(2) by simp
    moreover have "?b \<notin> set (free_line_list ?lm)" using P xs x(2) unfolding line_pages_ok_def by fastforce
    ultimately consider "?b = cur" | "?b \<in> ?L" by auto
    then show "f n \<in> ?U"
    proof cases
      case 1
      then show ?thesis using cur_okD [OF C, of "f n"] xs x(2) by simp
    qed (use xs in blast)
  qed
  moreover have "finite ?U" by (auto intro: finite_subset [OF _ finite_line_set])
  ultimately have "card (lpns s) \<le> card ?U" by (intro card_inj_on_le)
  also have "card ?U \<le> card ?A + card (\<Union>b \<in> ?L. line_set ?sp b)" by (rule card_Un_le)
  also have "card (\<Union>b \<in> ?L. line_set ?sp b) \<le> (\<Sum>b \<in> ?L. card (line_set ?sp b))" by (rule card_UN_le) simp
  also have "(\<Sum>b \<in> ?L. card (line_set ?sp b)) = card ?L * line_pages ?sp"
  proof -
    have "card (line_set ?sp b) = line_pages ?sp" if "b \<in> ?L" for b using that D(2) by (intro card_line_set) auto
    then show ?thesis by simp
  qed
  also have "card ?L = length (full_line_list ?lm) + length (victims ?lm)"
    using D(1) distinct_card [of "full_line_list ?lm @ victims ?lm"] by simp
  also have "card ?A = write_pos ?sp (ssd_wp s)"
    using card_line_stripe [OF cur] next_page_props(5) [OF S C] by simp
  finally have le: "card (lpns s) \<le> write_pos ?sp (ssd_wp s) + (length (full_line_list ?lm) + length (victims ?lm)) * line_pages ?sp"
    by simp
  have "nat (tt_pgs ?sp) = length (free_line_list ?lm) * line_pages ?sp +
      (length (full_line_list ?lm) + length (victims ?lm)) * line_pages ?sp + line_pages ?sp"
    unfolding nat_tt_pgs(3) [OF I(1)] line_census [OF S, symmetric] by (simp only: add_mult_distrib mult_1)
  then show ?thesis using le next_page_props(5) [OF S C] unfolding free_of_def free_pages_def by linarith
qed

text \<open>The logical pages of a request.\<close>

definition req_lpns :: "ssd \<Rightarrow> NvmeRequest \<Rightarrow> nat set" where
  "req_lpns s req = {unat (lpn_of_lba s (req_slba req)) .. unat (lpn_of_lba s (req_slba req + ucast (req_nlb req) - 1))}"

lemma ssd_write_ok:
  assumes "ftl_ok s"
  shows "case ssd_write fuel rt s req of
     Inl e \<Rightarrow> e = Gc_fuel \<longrightarrow> free_of s + fuel \<le> nat (tt_pgs (ssd_sp s))
   | Inr (s', lat) \<Rightarrow> ftl_ok s' \<and> ssd_sp s' = ssd_sp s \<and> lpns s' = lpns s \<union> req_lpns s req"
proof -
  note G = gc_high_loop_ok [where k = fuel and rt = rt, OF assms]
  show ?thesis
  proof (cases "gc_high_loop fuel rt s")
    case (Inl e)
    then show ?thesis using G by (auto simp: ssd_write_def Let_def)
  next
    case (Inr s1)
    then have S1: "ftl_ok s1" "ssd_sp s1 = ssd_sp s" "lpns s1 = lpns s" using G by simp_all
    let ?a = "unat (lpn_of_lba s (req_slba req))" and ?b = "unat (lpn_of_lba s (req_slba req + ucast (req_nlb req) - 1))"
    have "ssd_write fuel rt s req = ssd_write_loop rt req s1 ?a ?b 0" by (simp add: ssd_write_def Let_def Inr)
    then show ?thesis using ssd_write_loop_ok [where rt = rt and req = req and lpn = ?a and end_lpn = ?b and maxlat = 0, OF S1(1)] S1
      by (auto simp: req_lpns_def split: sum.splits prod.splits)
  qed
qed

text \<open>With three lines to spare, a request of at most one line succeeds and leaves a line's worth of free pages.\<close>

lemma ssd_write_live:
  assumes ok: "ftl_ok s" and room: "line_pages (ssd_sp s) \<le> free_of s"
    and U: "lpns s \<subseteq> U" "req_lpns s req \<subseteq> U" "U \<subseteq> {..<nat (tt_pgs (ssd_sp s))}"
      "card U + 3 * line_pages (ssd_sp s) \<le> nat (tt_pgs (ssd_sp s))"
    and req: "card (req_lpns s req) \<le> line_pages (ssd_sp s)" and thres: "1 \<le> gc_thres_lines_high (ssd_sp s)"
  shows "\<exists>s' lat. ssd_write (nat (tt_pgs (ssd_sp s))) rt s req = Inr (s', lat) \<and> ftl_ok s' \<and> ssd_sp s' = ssd_sp s \<and>
    lpns s' = lpns s \<union> req_lpns s req \<and> line_pages (ssd_sp s) \<le> free_of s'"
proof -
  let ?sp = "ssd_sp s" and ?fuel = "nat (tt_pgs (ssd_sp s))"
  note I = ftl_okD [OF ok]
  have pos: "0 < free_of s" using nat_tt_pgs(4) [OF I(1)] room by linarith
  have lp: "0 < line_pages ?sp" by (rule nat_tt_pgs(4) [OF I(1)])
  have fU: "finite U" using U(3) by (rule finite_subset) simp
  note G = gc_high_loop_ok [where k = ?fuel and rt = rt, OF ok]
  obtain s1 where s1: "gc_high_loop ?fuel rt s = Inr s1"
  proof (cases "gc_high_loop ?fuel rt s")
    case (Inl e)
    then have "(e = Ftl_abort \<and> free_of s < line_pages ?sp) \<or> (e = Gc_fuel \<and> free_of s + ?fuel \<le> ?fuel)" using G by simp
    then show ?thesis using room pos by linarith
  qed (use that in blast)
  then have S1: "ftl_ok s1" "ssd_sp s1 = ?sp" "lpns s1 = lpns s" "should_gc_high s1 \<longrightarrow> victims (ssd_lm s1) = []"
    using G by simp_all
  note I1 = ftl_okD [OF S1(1)]
  have two: "2 * line_pages ?sp \<le> free_of s1"
  proof (cases "should_gc_high s1")
    case True
    then have "?fuel < free_of s1 + card (lpns s) + line_pages ?sp" using free_without_victims [OF S1(1)] S1(2,3,4) by simp
    moreover have "card (lpns s) \<le> card U" using U(1) fU by (rule card_mono [rotated])
    ultimately show ?thesis using U(4) by linarith
  next
    case False
    obtain cur where "line_sets_ok ?sp cur (ssd_lm s1) []" using I1(3) S1(2) by (auto simp: lines_ok_def)
    then have "free_line_cnt (ssd_lm s1) = int (length (free_line_list (ssd_lm s1)))" by (simp add: line_sets_ok_def)
    then have "2 \<le> length (free_line_list (ssd_lm s1))" using False thres S1(2) by (simp add: should_gc_high_def)
    then have "2 * line_pages ?sp \<le> length (free_line_list (ssd_lm s1)) * line_pages ?sp" by (rule mult_le_mono1)
    then show ?thesis by (simp only: free_of_def free_pages_def S1(2))
  qed
  let ?a = "unat (lpn_of_lba s (req_slba req))" and ?b = "unat (lpn_of_lba s (req_slba req + ucast (req_nlb req) - 1))"
  have w: "ssd_write ?fuel rt s req = ssd_write_loop rt req s1 ?a ?b 0" by (simp add: ssd_write_def Let_def s1)
  have n: "Suc ?b - ?a \<le> line_pages ?sp" using req by (simp add: req_lpns_def)
  have b: "?a \<le> ?b \<Longrightarrow> ?b < length (ssd_maptbl s1)" using U(2,3) I1(5) S1(2) by (auto simp: req_lpns_def subset_iff)
  note L = ssd_write_loop_ok [where rt = rt and req = req and lpn = ?a and end_lpn = ?b and maxlat = 0, OF S1(1)]
  show ?thesis
  proof (cases "ssd_write_loop rt req s1 ?a ?b 0")
    case (Inl e)
    show ?thesis
    proof (cases "?a \<le> ?b")
      case True
      then show ?thesis using L Inl n two lp b by auto
    next
      case False
      then show ?thesis using Inl by (subst (asm) ssd_write_loop.simps) simp
    qed
  next
    case (Inr r)
    obtain s2 lat where r: "r = (s2, lat)" by (cases r)
    have "ftl_ok s2" "ssd_sp s2 = ?sp" "lpns s2 = lpns s \<union> req_lpns s req" "free_of s2 + (Suc ?b - ?a) = free_of s1"
      using L Inr r S1 by (simp_all add: req_lpns_def)
    then show ?thesis using w Inr r n two by auto
  qed
qed

text \<open>Reads change nothing that the mapping depends on.\<close>

lemma ssd_read_loop_ok:
  "ftl_ok s \<Longrightarrow> case ssd_read_loop rt req s lpn end_lpn maxlat of
     Inl e \<Rightarrow> e = Maptbl_out_of_bounds \<and> length (ssd_maptbl s) \<le> end_lpn
   | Inr (s', lat) \<Rightarrow> ftl_ok s' \<and> same_tables s s' \<and> flash s' = flash s"
proof (induction rt req s lpn end_lpn maxlat rule: ssd_read_loop.induct)
  case (1 rt req s lpn end_lpn maxlat)
  let ?p = "get_maptbl_ent s lpn" and ?c = "\<lparr>nc_type = USER_IO, nc_cmd = NAND_READ, nc_stime = req_stime req\<rparr>"
  consider "end_lpn < lpn" | "\<not> end_lpn < lpn" "length (ssd_maptbl s) \<le> lpn"
    | "\<not> end_lpn < lpn" "\<not> length (ssd_maptbl s) \<le> lpn" "\<not> mapped_ppa ?p \<or> \<not> valid_ppa s ?p"
    | "\<not> end_lpn < lpn" "\<not> length (ssd_maptbl s) \<le> lpn" "\<not> (\<not> mapped_ppa ?p \<or> \<not> valid_ppa s ?p)" by blast
  then show ?case
  proof cases
    case 1
    then show ?thesis using "1.prems" by (subst ssd_read_loop.simps) (simp add: same_tables_def)
  next
    case 2
    then show ?thesis by (subst ssd_read_loop.simps) simp
  next
    case 3
    then show ?thesis using "1.IH"(1) [OF 3(1,2) refl 3(3) "1.prems"] by (subst ssd_read_loop.simps) simp
  next
    case 4
    obtain s1 lat where a: "ssd_advance_status rt s ?p ?c = (s1, lat)" by (rule prod.exhaust)
    have st: "flash_step s s1 (flash s)" using ssd_advance_status_step [OF ftl_okD(2) [OF "1.prems"], of rt ?p ?c] a by (metis fst_conv)
    have ok1: "ftl_ok s1" using ssd_inv_step [OF st] "1.prems" by (simp add: ftl_ok_def)
    show ?thesis
      using "1.IH"(2) [OF 4(1,2) refl 4(3) a [symmetric] refl ok1] 4 st a
      by (subst ssd_read_loop.simps) (auto simp: Let_def flash_step_def same_tables_def split: sum.splits)
  qed
qed

lemma valid_ppa_addr:
  assumes "params_ok (ssd_sp s)" "in_range (ssd_sp s) x"
  shows "valid_ppa s (addr x)"
proof -
  obtain c l b g where x: "x = (c, l, b, g)" by (cases x)
  note A = addr_fields [OF assms(1) assms(2) [unfolded x]]
  have "uint (g_ch (addr x)) = int c" "uint (g_lun (addr x)) = int l" "uint (g_blk (addr x)) = int b" "uint (g_pg (addr x)) = int g"
    "uint (g_pl (addr x)) = 0" "uint (g_sec (addr x)) = 0"
    unfolding x by (simp_all only: uint_nat A unat_0 of_nat_0)
  moreover have "int c < nchs (ssd_sp s)" "int l < luns_per_ch (ssd_sp s)" "int b < blks_per_pl (ssd_sp s)" "int g < pgs_per_blk (ssd_sp s)"
    using assms(2) by (auto simp: x in_range_def)
  moreover have "0 < pls_per_lun (ssd_sp s)" "0 < secs_per_pg (ssd_sp s)" using assms(1) by (simp_all add: params_ok_def)
  ultimately show ?thesis by (simp add: valid_ppa_def Let_def)
qed

end
