(* ===== verification/Ftl_Props.thy ===== *)
theory Ftl_Props
  imports Ftl_Gc
begin

text \<open>
  Properties of the flash translation layer and of its priority queue of victim lines.
\<close>

subsection \<open>Addresses\<close>

text \<open>The two views of a physical page address agree: reading the bit fields of the 64-bit word
  that the fields make up gives the fields back, and the other way round.\<close>

theorem ppa_views_agree: "ppa_of_raw (ppa_raw p) = p \<and> ppa_raw (ppa_of_raw w) = w"
  by (simp add: ppa_of_raw_ppa_raw ppa_raw_ppa_of_raw)

subsection \<open>The queue of victim lines\<close>

lemma dup_ops_simps [simp]:
  "cmppri (pqueue_dup_ops ops) = cmppri ops" "getpri (pqueue_dup_ops ops) = getpri ops"
  "setpos (pqueue_dup_ops ops) = (\<lambda>s a n. s)"
  by (simp_all add: pqueue_dup_ops_def)

lemma pq_order_dup:
  assumes "pq_order ops"
  shows "pq_order (pqueue_dup_ops ops)"
proof (rule pq_order.intro)
  show "\<not> cmppri (pqueue_dup_ops ops) y x" if "cmppri (pqueue_dup_ops ops) x y" for x y
    using pq_order.cmp_asym [OF assms] that by simp
  show "\<not> cmppri (pqueue_dup_ops ops) x z"
    if "\<not> cmppri (pqueue_dup_ops ops) x y" "\<not> cmppri (pqueue_dup_ops ops) y z" for x y z
    using pq_order.cmp_trans [OF assms] that by (simp only: dup_ops_simps) blast
qed simp

lemma pqueue_print_sorted:
  assumes o: "pq_order ops" and q: "q_ops q = ops" "pq_shape q" "pq_heap s q"
  shows "sorted_wrt (\<lambda>a b. \<not> cmppri ops (getpri ops s a) (getpri ops s b)) (pqueue_print s q)"
    "mset (pqueue_print s q) = mset (pq_elems q)"
proof -
  let ?dup = "pqueue_dup_ops ops" and ?q = "q\<lparr>q_ops := pqueue_dup_ops (q_ops q), q_d := take (q_size q) (q_d q)\<rparr>"
  note d = pq_order_dup [OF o]
  have le: "pq_order.le ?dup s = (\<lambda>a b. \<not> cmppri ops (getpri ops s a) (getpri ops s b))"
    by (simp add: fun_eq_iff pq_order.le_def [OF d])
  have sz: "1 \<le> q_size q" "q_size q \<le> length (q_d q)" using q(2) by (auto simp: pq_shape_def)
  have "pq_heap s ?q" using q sz by (auto simp: pq_heap_def)
  then have "sorted_wrt (pq_order.le ?dup s) (pqueue_print s q) \<and> mset (pqueue_print s q) = mset (pq_elems ?q)"
    unfolding pqueue_print_def using q sz by (intro pq_order.drain_sorted [OF d]) simp_all
  moreover have "pq_elems ?q = pq_elems q" by (simp add: pq_elems_def arr_slice_def drop_take)
  ultimately show "sorted_wrt (\<lambda>a b. \<not> cmppri ops (getpri ops s a) (getpri ops s b)) (pqueue_print s q)"
    "mset (pqueue_print s q) = mset (pq_elems q)"
    by (simp_all add: le)
qed

definition victims_ok :: "line_mgmt \<Rightarrow> bool" where
  "victims_ok lm \<longleftrightarrow> pq_wf (\<lambda>ls a. a < length ls) (lm_lines lm) (victim_line_pq lm) \<and>
     q_ops (victim_line_pq lm) = victim_ops \<and>
     (\<forall>a \<in> set (pq_elems (victim_line_pq lm)). 0 \<le> line_vpc (lm_lines lm ! a) \<and> line_vpc (lm_lines lm ! a) < 2 ^ 31)"

lemma victim_cmp_vpc:
  assumes "0 \<le> line_vpc (ls ! a)" "line_vpc (ls ! a) < 2 ^ 31" "0 \<le> line_vpc (ls ! b)" "line_vpc (ls ! b) < 2 ^ 31"
  shows "cmppri victim_ops (getpri victim_ops ls a) (getpri victim_ops ls b) \<longleftrightarrow> line_vpc (ls ! b) < line_vpc (ls ! a)"
  using assms by (simp add: victim_line_cmp_pri_def victim_line_get_pri_def u64_of_c_int_less c_int_range_def)

text \<open>C36: Garbage collection chooses well: a victim taken from the queue has the fewest valid pages of
  all the victim lines, exactly that line leaves the queue with its position cleared, and the queue
  stays a well-formed heap whose nodes know their positions.\<close>

theorem select_victim_line_least:
  assumes ok: "victims_ok (ssd_lm s)" and eq: "select_victim_line s force = (Some v, s')"
  shows "v \<in> set (pq_elems (victim_line_pq (ssd_lm s))) \<and>
    (\<forall>x \<in> set (pq_elems (victim_line_pq (ssd_lm s))). line_vpc (lm_lines (ssd_lm s) ! v) \<le> line_vpc (lm_lines (ssd_lm s) ! x)) \<and>
    mset (pq_elems (victim_line_pq (ssd_lm s'))) = mset (pq_elems (victim_line_pq (ssd_lm s))) - {#v#} \<and>
    victim_line_cnt (ssd_lm s') = victim_line_cnt (ssd_lm s) - 1 \<and> line_pos (lm_lines (ssd_lm s') ! v) = 0 \<and>
    pq_wf (\<lambda>ls a. a < length ls) (lm_lines (ssd_lm s')) (victim_line_pq (ssd_lm s'))"
proof -
  let ?lm = "ssd_lm s" and ?q = "victim_line_pq (ssd_lm s)"
  have wf: "pq_wf (\<lambda>ls a. a < length ls) (lm_lines ?lm) ?q" and q: "q_ops ?q = victim_ops"
    using ok by (simp_all add: victims_ok_def)
  obtain e ls' q' where p: "pqueue_pop (lm_lines ?lm) ?q = (e, ls', q')" by (cases "pqueue_pop (lm_lines ?lm) ?q") auto
  have v: "e = Some v"
    "s' = upd_lm (upd_line (lm_pq_pop s) v (\<lambda>ln. ln\<lparr>line_pos := 0\<rparr>)) (\<lambda>lm. lm\<lparr>victim_line_cnt := victim_line_cnt lm - 1\<rparr>)"
    using eq p by (auto simp: select_victim_line_def pqueue_peek_def pqueue_pop_def Let_def split: if_splits prod.splits)
  note w = victim.pop_wf [OF wf q p [unfolded v(1)]]
  have v_in: "v \<in> set (pq_elems ?q)" using w(2) by (metis union_single_eq_member set_mset_mset)
  have "distinct (pq_elems ?q)" using wf by (simp add: pq_wf_def pq_pos_def)
  then have v_out: "v \<notin> set (pq_elems q')"
    using w(2) distinct_mset_eq [of "v # pq_elems q'" "pq_elems ?q"] by simp
  have len: "v < length ls'" using w(4) wf v_in by (auto simp: victim.framed_def pq_wf_def)
  have lm': "victim_line_pq (ssd_lm s') = q'" "lm_lines (ssd_lm s') = ls'[v := (ls' ! v)\<lparr>line_pos := 0\<rparr>]"
    "victim_line_cnt (ssd_lm s') = victim_line_cnt ?lm - 1"
    using v(2) p by (simp_all add: upd_lm_def upd_line_def lm_pq_pop_def)
  have least: "line_vpc (lm_lines ?lm ! v) \<le> line_vpc (lm_lines ?lm ! x)" if "x \<in> set (pq_elems ?q)" for x
    using w(5) that v_in ok victim_cmp_vpc [of "lm_lines ?lm" v x]
    by (auto simp: victim.le_def victims_ok_def simp del: victim_ops_simps)
  show ?thesis
    using v_in least lm' len victim_wf_upd [OF w(1,3) v_out] w(2)
    by (auto simp flip: w(2))
qed

text \<open>The debug print of the victim queue lists exactly the queued lines, by growing number of valid
  pages, although the copy it pops has callbacks that write nothing.\<close>

theorem victim_print_sorted:
  assumes "victims_ok lm"
  shows "sorted (map (\<lambda>a. line_vpc (lm_lines lm ! a)) (pqueue_print (lm_lines lm) (victim_line_pq lm))) \<and>
    mset (pqueue_print (lm_lines lm) (victim_line_pq lm)) = mset (pq_elems (victim_line_pq lm))"
proof -
  let ?p = "pqueue_print (lm_lines lm) (victim_line_pq lm)"
  have "q_ops (victim_line_pq lm) = victim_ops" "pq_shape (victim_line_pq lm)" "pq_heap (lm_lines lm) (victim_line_pq lm)"
    using assms by (simp_all add: victims_ok_def pq_wf_def)
  note P = pqueue_print_sorted [OF victim.pq_order_axioms this]
  have "set ?p = set (pq_elems (victim_line_pq lm))" using mset_eq_setD [OF P(2)] .
  then have "line_vpc (lm_lines lm ! a) \<le> line_vpc (lm_lines lm ! b)"
    if "a \<in> set ?p" "b \<in> set ?p" "\<not> cmppri victim_ops (getpri victim_ops (lm_lines lm) a) (getpri victim_ops (lm_lines lm) b)" for a b
    using that assms victim_cmp_vpc [of "lm_lines lm" a b] by (auto simp: victims_ok_def simp del: victim_ops_simps)
  then have "sorted_wrt (\<lambda>a b. line_vpc (lm_lines lm ! a) \<le> line_vpc (lm_lines lm ! b)) ?p"
    by (intro sorted_wrt_mono_rel [OF _ P(1)]) blast
  then show ?thesis using P(2) by (simp add: sorted_map)
qed

text \<open>The queue check of the code is exact: it accepts the victim queue if and only if no line in
  it has more valid pages than a line below it in the heap.\<close>

theorem victim_check_exact:
  assumes "q_ops q = victim_ops"
  shows "pqueue_is_valid ls q \<longleftrightarrow> pq_heap ls q"
  by (rule victim.valid_iff_heap [OF assms])

text \<open>Inserting a line that is not queued, removing a queued line, and changing the number of valid
  pages of a queued line keep the victim queue well-formed with exactly the expected lines; only the
  position of nodes of the queue changes, besides the new count.\<close>

theorem victim_queue_operations:
  assumes wf: "pq_wf (\<lambda>ls a. a < length ls) ls q" and q: "q_ops q = victim_ops" and l: "l < length ls"
    and v: "0 \<le> v" "v < 2 ^ 31"
  shows "(case pqueue_insert True 0 ls q l of (r, ls', q') \<Rightarrow> l \<in> set (pq_elems q) \<or>
      r = 0 \<and> pq_wf (\<lambda>ls a. a < length ls) ls' q' \<and> mset (pq_elems q') = add_mset l (mset (pq_elems q))) \<and>
    (case pqueue_remove ls q l of (r, ls', q') \<Rightarrow> l \<in> set (pq_elems q) \<longrightarrow>
      r = 0 \<and> pq_wf (\<lambda>ls a. a < length ls) ls' q' \<and> add_mset l (mset (pq_elems q')) = mset (pq_elems q)) \<and>
    (case pqueue_change_priority ls q (u64_of_c_int v) l of (ls', q') \<Rightarrow> l \<in> set (pq_elems q) \<longrightarrow>
        pq_wf (\<lambda>ls a. a < length ls) ls' q' \<and> mset (pq_elems q') = mset (pq_elems q) \<and>
        (\<forall>b. victim_line_get_pri ls' b = (if b = l then u64_of_c_int v else victim_line_get_pri ls b)))"
proof (intro conjI)
  show "case pqueue_insert True 0 ls q l of (r, ls', q') \<Rightarrow> l \<in> set (pq_elems q) \<or>
      r = 0 \<and> pq_wf (\<lambda>ls a. a < length ls) ls' q' \<and> mset (pq_elems q') = add_mset l (mset (pq_elems q))"
    using victim.insert_wf [OF wf q l, where realloc_ok = True and junk = 0] by (auto split: prod.split)
  show "case pqueue_remove ls q l of (r, ls', q') \<Rightarrow> l \<in> set (pq_elems q) \<longrightarrow>
      r = 0 \<and> pq_wf (\<lambda>ls a. a < length ls) ls' q' \<and> add_mset l (mset (pq_elems q')) = mset (pq_elems q)"
    using victim.remove_wf [OF wf q, of l] by (auto split: prod.split)
  have p: "u64_of_c_int v < 2 ^ 31"
    using v by (simp add: u64_of_c_int_def word_less_def uint_word_of_int)
  note C = victim.change_priority_wf [OF wf q _ p, of l]
  show "case pqueue_change_priority ls q (u64_of_c_int v) l of (ls', q') \<Rightarrow> l \<in> set (pq_elems q) \<longrightarrow>
        pq_wf (\<lambda>ls a. a < length ls) ls' q' \<and> mset (pq_elems q') = mset (pq_elems q) \<and>
        (\<forall>b. victim_line_get_pri ls' b = (if b = l then u64_of_c_int v else victim_line_get_pri ls b))"
    using C l p victim.getpri_setpri_same [of l ls "u64_of_c_int v"]
      victim.getpri_setpri_other [where a = l and s = ls and v = "u64_of_c_int v"]
    by (auto simp: victim.framed_def split: prod.split)
qed

subsection \<open>A queue of three victims\<close>

definition ex_lm :: line_mgmt where
  "ex_lm =
     \<lparr>lm_lines = [\<lparr>line_id = 0, line_ipc = 1, line_vpc = 3, line_pos = 2\<rparr>,
        \<lparr>line_id = 1, line_ipc = 3, line_vpc = 1, line_pos = 1\<rparr>, \<lparr>line_id = 2, line_ipc = 2, line_vpc = 2, line_pos = 3\<rparr>,
        \<lparr>line_id = 3, line_ipc = 0, line_vpc = 0, line_pos = 0\<rparr>],
      free_line_list = [3],
      victim_line_pq = \<lparr>q_size = 4, q_avail = 5, q_step = 4, q_ops = victim_ops, q_d = [0, 1, 0, 2, 0]\<rparr>,
      full_line_list = [], lm_tt_lines = 4, free_line_cnt = 1, victim_line_cnt = 3, full_line_cnt = 0\<rparr>"

lemma ex_lm_ok: "victims_ok ex_lm"
proof -
  have le: "Suc 0 \<le> j \<and> j < 4 \<longleftrightarrow> j = Suc 0 \<or> j = 2 \<or> j = (3::nat)" "2 \<le> j \<and> j < 4 \<longleftrightarrow> j = 2 \<or> j = (3::nat)" for j by auto
  have e: "pq_elems (victim_line_pq ex_lm) = [1, 0, 2]" by code_simp
  have "pq_pos (lm_lines ex_lm) (victim_line_pq ex_lm)"
    unfolding pq_pos_def e by (simp add: ex_lm_def le) (auto simp: victim_line_get_pos_def)
  moreover have "pq_heap (lm_lines ex_lm) (victim_line_pq ex_lm)"
    unfolding pq_heap_def by (simp add: ex_lm_def le) (auto simp: victim_line_get_pri_def victim_line_cmp_pri_def u64_of_c_int_def)
  moreover have "pq_shape (victim_line_pq ex_lm)" by (simp add: pq_shape_def ex_lm_def)
  ultimately show ?thesis
    unfolding victims_ok_def pq_wf_def e by (simp add: ex_lm_def)
qed

definition ex_ssd :: ssd where
  "ex_ssd = (ssd_init_with ssd_init_params)\<lparr>ssd_lm := ex_lm\<rparr>"

theorem select_victim_line_least_witness:
  "\<exists>s'. select_victim_line ex_ssd True = (Some 1, s') \<and> mset (pq_elems (victim_line_pq (ssd_lm s'))) = {#0, 2#}"
proof -
  have e: "pq_elems (victim_line_pq ex_lm) = [1, 0, 2]" by code_simp
  obtain s' where s': "select_victim_line ex_ssd True = (Some 1, s')"
    by (simp add: select_victim_line_def ex_ssd_def ex_lm_def pqueue_peek_def)
  have "victims_ok (ssd_lm ex_ssd)" using ex_lm_ok by (simp add: ex_ssd_def)
  from select_victim_line_least [OF this s'] show ?thesis using s' e by (simp add: ex_ssd_def)
qed

theorem victim_print_sorted_witness:
  "sorted (map (\<lambda>a. line_vpc (lm_lines ex_lm ! a)) (pqueue_print (lm_lines ex_lm) (victim_line_pq ex_lm)))"
  using victim_print_sorted [OF ex_lm_ok] by blast

theorem victim_check_exact_witness: "pqueue_is_valid (lm_lines ex_lm) (victim_line_pq ex_lm)"
proof -
  have "q_ops (victim_line_pq ex_lm) = victim_ops" by (simp add: ex_lm_def)
  from victim_check_exact [OF this] show ?thesis using ex_lm_ok by (simp add: victims_ok_def pq_wf_def)
qed

theorem victim_queue_operations_witness:
  "case pqueue_change_priority (lm_lines ex_lm) (victim_line_pq ex_lm) (u64_of_c_int 0) 2 of (ls', q') \<Rightarrow>
     pq_wf (\<lambda>ls a. a < length ls) ls' q' \<and> mset (pq_elems q') = {#1, 0, 2#}"
proof -
  have e: "pq_elems (victim_line_pq ex_lm) = [1, 0, 2]" by code_simp
  have "pq_wf (\<lambda>ls a. a < length ls) (lm_lines ex_lm) (victim_line_pq ex_lm)"
    "q_ops (victim_line_pq ex_lm) = victim_ops" "2 < length (lm_lines ex_lm)"
    using ex_lm_ok by (simp_all add: victims_ok_def ex_lm_def)
  from victim_queue_operations [OF this, of 0] show ?thesis by (auto simp: e)
qed

subsection \<open>The translation layer as a whole\<close>

text \<open>The parameters of \<open>ssd_init_params\<close>, and a small device: six lines of four pages.\<close>

lemma ssd_init_params_ok: "params_ok ssd_init_params"
  by (simp add: params_ok_def ssd_init_params_def Let_def)

definition ex_sp :: ssdparams where
  "ex_sp = ssd_init_params\<lparr>secs_per_pg := 1, pgs_per_blk := 2, blks_per_pl := 6, luns_per_ch := 1, nchs := 2,
     pgs_per_pl := 12, pgs_per_lun := 12, pgs_per_ch := 12, tt_pgs := 24, pgs_per_line := 4, tt_lines := 6,
     gc_thres_lines_high := 1\<rparr>"

lemma ex_sp_ok: "params_ok ex_sp"
  by (simp add: params_ok_def ex_sp_def ssd_init_params_def Let_def)

definition ex_fresh :: ssd where "ex_fresh = ssd_init_with ex_sp"

lemmas ex_fresh_ok = ssd_init_with_ok [OF ex_sp_ok, folded ex_fresh_def]

lemma ex_sp_sizes: "nat (tt_pgs ex_sp) = 24" "line_pages ex_sp = 4" "gc_thres_lines_high ex_sp = 1" "secs_per_pg ex_sp = 1"
  by (simp_all add: ex_sp_def)

definition ex_io :: "u64 \<Rightarrow> u16 \<Rightarrow> NvmeRequest" where
  "ex_io slba n = \<lparr>req_sq = 1, req_status = 0, req_slba = slba, req_is_write = 1, req_nlb = n, req_ctrl = 0,
     req_meta_size = 0, req_mptr = 0, req_cmd = undefined, req_cqe = undefined, req_cmd_opcode = 1, req_qsg = [],
     req_stime = 1, req_reqlat = 0, req_gcrt = 0, req_expire_time = 0, req_predef = 0, req_pos = 0\<rparr>"

lemma ex_io_lpns: "req_lpns ex_fresh (ex_io 3 2) = {3..4}" "req_lpns ex_fresh (ex_io 0 24) = {0..23}"
  by (simp_all add: req_lpns_def lpn_of_lba_def ex_io_def ex_fresh_ok(2) ex_sp_sizes u64_of_c_int_def)

lemma ex_write: "\<exists>s lat. ssd_write 24 (\<lambda>_. 0) ex_fresh (ex_io 3 2) = Inr (s, lat) \<and> ftl_ok s \<and> lpns s = {3..4}"
proof -
  have "{3..4 :: nat} \<subseteq> {..<24}" by auto
  then show ?thesis
    using ssd_write_live [where U = "{3..4}" and req = "ex_io 3 2" and rt = "\<lambda>_. 0", OF ex_fresh_ok(1)]
      ex_fresh_ok ex_io_lpns ex_sp_sizes by auto
qed

text \<open>C8: The device that \<open>ssd_init\<close> builds is consistent: nothing is mapped, every page is free, every line
  is in exactly one set.\<close>

theorem ssd_init_consistent: "ftl_ok ssd_init \<and> lpns ssd_init = {} \<and> free_of ssd_init = nat (tt_pgs (ssd_sp ssd_init))"
  using ssd_init_with_ok [OF ssd_init_params_ok] by (simp add: ssd_init_def)

text \<open>C2: A write keeps the translation layer consistent, whatever collections it triggers: mapping table, reverse
  map, page states, line counters and line sets agree afterwards, and the mapped logical pages are those
  mapped before together with those of the request; no other mapping is lost.\<close>

theorem ssd_write_keeps_consistency:
  assumes "ftl_ok s" and "ssd_write fuel rt s req = Inr (s', lat)"
  shows "ftl_ok s' \<and> ssd_sp s' = ssd_sp s \<and> lpns s' = lpns s \<union> req_lpns s req"
  using ssd_write_ok [where fuel = fuel and rt = rt and req = req, OF assms(1)] assms(2) by simp

theorem ssd_write_keeps_consistency_witness:
  "\<exists>s' lat. ssd_write 24 (\<lambda>_. 0) ex_fresh (ex_io 3 2) = Inr (s', lat) \<and> ftl_ok s' \<and> lpns s' = {3..4}"
proof -
  obtain s' lat where w: "ssd_write 24 (\<lambda>_. 0) ex_fresh (ex_io 3 2) = Inr (s', lat)"
    using ex_write by blast
  from ssd_write_keeps_consistency [OF ex_fresh_ok(1) w] show ?thesis using w ex_fresh_ok(3) ex_io_lpns by auto
qed



text \<open>C3: Garbage collection loses no data: a collection that finds a victim keeps the state consistent and every
  logical page mapped, and gains free pages; without a victim nothing changes; it aborts only when less
  than one line of pages is free.\<close>

theorem do_gc_keeps_data:
  assumes "ftl_ok s"
  shows "case do_gc rt s force of
     None \<Rightarrow> free_of s < line_pages (ssd_sp s)
   | Some (r, s') \<Rightarrow> (r = -1 \<and> s' = s) \<or> (r = 0 \<and> ftl_ok s' \<and> lpns s' = lpns s \<and> free_of s < free_of s')"
  using do_gc_ok [where rt = rt and force = force, OF assms] by (auto split: option.splits prod.splits)

theorem do_gc_keeps_data_witness:
  "case do_gc (\<lambda>_. 0) ssd_init True of
     None \<Rightarrow> free_of ssd_init < line_pages (ssd_sp ssd_init)
   | Some (r, s') \<Rightarrow> (r = -1 \<and> s' = ssd_init) \<or> (r = 0 \<and> ftl_ok s' \<and> lpns s' = lpns ssd_init \<and> free_of ssd_init < free_of s')"
proof -
  have "ftl_ok ssd_init" using ssd_init_with_ok(1) [OF ssd_init_params_ok] by (simp add: ssd_init_def)
  then show ?thesis by (rule do_gc_keeps_data)
qed

text \<open>C4: The loop of forced collections before a write ends: with as many rounds as the device has pages the
  bound is never reached, because every collection gains at least one free page.\<close>

theorem ssd_write_terminates:
  assumes "ftl_ok s"
  shows "ssd_write (nat (tt_pgs (ssd_sp s))) rt s req \<noteq> Inl Gc_fuel"
proof
  assume "ssd_write (nat (tt_pgs (ssd_sp s))) rt s req = Inl Gc_fuel"
  then have "free_of s + nat (tt_pgs (ssd_sp s)) \<le> nat (tt_pgs (ssd_sp s))"
    using ssd_write_ok [where fuel = "nat (tt_pgs (ssd_sp s))" and rt = rt and req = req, OF assms] by simp
  then show False using free_of_pos assms unfolding ftl_ok_def by fastforce
qed

theorem ssd_write_terminates_witness: "ssd_write (nat (tt_pgs (ssd_sp ex_fresh))) (\<lambda>_. 0) ex_fresh (ex_io 3 2) \<noteq> Inl Gc_fuel"
  by (rule ssd_write_terminates [OF ex_fresh_ok(1)])

text \<open>A sequence of write requests.\<close>

primrec ssd_writes :: "nat \<Rightarrow> (nat \<Rightarrow> u64) \<Rightarrow> ssd \<Rightarrow> NvmeRequest list \<Rightarrow> ftl_fault + ssd" where
  "ssd_writes fuel rt s [] = Inr s"
| "ssd_writes fuel rt s (req # reqs) =
     (case ssd_write fuel rt s req of Inl e \<Rightarrow> Inl e | Inr (s, _) \<Rightarrow> ssd_writes fuel rt s reqs)"

lemma req_lpns_sp: "ssd_sp s' = ssd_sp s \<Longrightarrow> req_lpns s' req = req_lpns s req"
  by (simp add: req_lpns_def lpn_of_lba_def)

text \<open>C1: A device with three lines to spare never aborts: if the logical pages in use leave three lines of the
  flash unused, every sequence of writes of at most one line each succeeds, keeps the state
  consistent, and maps exactly the pages written.\<close>

theorem ssd_writes_live:
  assumes "ftl_ok s" "line_pages (ssd_sp s) \<le> free_of s" "lpns s \<subseteq> U" "U \<subseteq> {..<nat (tt_pgs (ssd_sp s))}"
    "card U + 3 * line_pages (ssd_sp s) \<le> nat (tt_pgs (ssd_sp s))" "1 \<le> gc_thres_lines_high (ssd_sp s)"
    "\<forall>req \<in> set reqs. req_lpns s req \<subseteq> U \<and> card (req_lpns s req) \<le> line_pages (ssd_sp s)"
  shows "\<exists>s'. ssd_writes (nat (tt_pgs (ssd_sp s))) rt s reqs = Inr s' \<and> ftl_ok s' \<and>
    lpns s' = lpns s \<union> (\<Union>req \<in> set reqs. req_lpns s req)"
  using assms
proof (induction reqs arbitrary: s)
  case (Cons req reqs)
  have r: "req_lpns s req \<subseteq> U" "card (req_lpns s req) \<le> line_pages (ssd_sp s)" using Cons.prems(7) by simp_all
  obtain s1 lat where w: "ssd_write (nat (tt_pgs (ssd_sp s))) rt s req = Inr (s1, lat)" and S1: "ftl_ok s1" "ssd_sp s1 = ssd_sp s"
    "lpns s1 = lpns s \<union> req_lpns s req" "line_pages (ssd_sp s) \<le> free_of s1"
    using ssd_write_live [where rt = rt, OF Cons.prems(1,2,3) r(1) Cons.prems(4,5) r(2) Cons.prems(6)] by blast
  have "lpns s1 \<subseteq> U" using S1(3) Cons.prems(3) r(1) by simp
  then have "\<exists>s'. ssd_writes (nat (tt_pgs (ssd_sp s))) rt s1 reqs = Inr s' \<and> ftl_ok s' \<and>
      lpns s' = lpns s1 \<union> (\<Union>req \<in> set reqs. req_lpns s req)"
    using Cons.IH [OF S1(1)] S1(2,4) Cons.prems(4-7) req_lpns_sp [OF S1(2)] by simp
  then show ?case using w S1(3) by (simp add: Un_assoc)
qed simp

theorem ssd_writes_live_witness:
  "\<exists>s'. ssd_writes 24 (\<lambda>_. 0) ex_fresh (replicate 100 (ex_io 3 2)) = Inr s' \<and> ftl_ok s' \<and> lpns s' = {3..4}"
proof -
  have "\<exists>s'. ssd_writes (nat (tt_pgs (ssd_sp ex_fresh))) (\<lambda>_. 0) ex_fresh (replicate 100 (ex_io 3 2)) = Inr s' \<and> ftl_ok s' \<and>
    lpns s' = lpns ex_fresh \<union> (\<Union>req \<in> set (replicate 100 (ex_io 3 2)). req_lpns ex_fresh req)"
    by (rule ssd_writes_live [where U = "{3..4}"]) (use ex_fresh_ok ex_io_lpns ex_sp_sizes in auto)
  then show ?thesis by (simp add: ex_fresh_ok(2,3) ex_io_lpns ex_sp_sizes)
qed

text \<open>C6: Without spare lines the emulator dies: a write that would map the last unmapped logical page of the
  device never succeeds, because a consistent state always has a free page.\<close>

theorem ssd_write_all_fails:
  assumes ok: "ftl_ok s" and all: "lpns s \<union> req_lpns s req = {..<nat (tt_pgs (ssd_sp s))}"
  shows "\<exists>e. ssd_write fuel rt s req = Inl e"
proof (cases "ssd_write fuel rt s req")
  case (Inr r)
  obtain s' lat where r: "r = (s', lat)" by (cases r)
  have S: "ftl_ok s'" "ssd_sp s' = ssd_sp s" "lpns s' = {..<nat (tt_pgs (ssd_sp s))}"
    using ssd_write_ok [where fuel = fuel and rt = rt and req = req, OF ok] Inr r all by simp_all
  have "0 < free_of s'" using free_of_pos S(1) unfolding ftl_ok_def by blast
  then show ?thesis using card_lpns_free [OF S(1)] S(2,3) by simp
qed simp

theorem ssd_write_all_fails_witness: "\<exists>e. ssd_write 24 (\<lambda>_. 0) ex_fresh (ex_io 0 24) = Inl e"
proof (rule ssd_write_all_fails [OF ex_fresh_ok(1)])
  show "lpns ex_fresh \<union> req_lpns ex_fresh (ex_io 0 24) = {..<nat (tt_pgs (ssd_sp ex_fresh))}"
    by (auto simp: ex_fresh_ok(2,3) ex_io_lpns ex_sp_sizes)
qed



end
