(* ===== verification/Zns.thy ===== *)
theory Zns
  imports Dma "HOL-Library.Monad_Syntax"
begin

text \<open>
  The zoned namespace of \<open>femu/zns/zns.c\<close> and \<open>zns.h\<close>: zone descriptors, the lists of explicitly
  open, implicitly open, closed and full zones, the open and active resource counters, the zone
  management commands, and zoned reads, writes and appends.  Zones are named by their index in
  \<open>zone_array\<close>; the tail queues are lists of indices.  A failed \<open>assert\<close> is the value \<open>None\<close>.
\<close>

subsection \<open>Zones\<close>

datatype NvmeZoneState =
    NVME_ZONE_STATE_RESERVED
  | NVME_ZONE_STATE_EMPTY
  | NVME_ZONE_STATE_IMPLICITLY_OPEN
  | NVME_ZONE_STATE_EXPLICITLY_OPEN
  | NVME_ZONE_STATE_CLOSED
  | NVME_ZONE_STATE_READ_ONLY
  | NVME_ZONE_STATE_FULL
  | NVME_ZONE_STATE_OFFLINE

primrec zone_state_code :: "NvmeZoneState \<Rightarrow> u8" where
    "zone_state_code NVME_ZONE_STATE_RESERVED = 0x00"
  | "zone_state_code NVME_ZONE_STATE_EMPTY = 0x01"
  | "zone_state_code NVME_ZONE_STATE_IMPLICITLY_OPEN = 0x02"
  | "zone_state_code NVME_ZONE_STATE_EXPLICITLY_OPEN = 0x03"
  | "zone_state_code NVME_ZONE_STATE_CLOSED = 0x04"
  | "zone_state_code NVME_ZONE_STATE_READ_ONLY = 0x0D"
  | "zone_state_code NVME_ZONE_STATE_FULL = 0x0E"
  | "zone_state_code NVME_ZONE_STATE_OFFLINE = 0x0F"

text \<open>The enumeration member of a stored nibble.  Nibbles without a member take the \<open>default\<close>
  branch of every \<open>switch\<close> of the code, as \<open>RESERVED\<close> does.\<close>

definition zone_state_of_code :: "u8 \<Rightarrow> NvmeZoneState" where
  "zone_state_of_code w =
     (if w = 0x01 then NVME_ZONE_STATE_EMPTY
      else if w = 0x02 then NVME_ZONE_STATE_IMPLICITLY_OPEN
      else if w = 0x03 then NVME_ZONE_STATE_EXPLICITLY_OPEN
      else if w = 0x04 then NVME_ZONE_STATE_CLOSED
      else if w = 0x0D then NVME_ZONE_STATE_READ_ONLY
      else if w = 0x0E then NVME_ZONE_STATE_FULL
      else if w = 0x0F then NVME_ZONE_STATE_OFFLINE
      else NVME_ZONE_STATE_RESERVED)"

record NvmeZoneDescr =
  d_zt :: u8
  d_zs :: u8
  d_za :: u8
  d_zcap :: u64
  d_zslba :: u64
  d_wp :: u64

record NvmeZone =
  z_d :: NvmeZoneDescr
  w_ptr :: u64

definition NVME_ZA_ZD_EXT_VALID :: u8 where "NVME_ZA_ZD_EXT_VALID = 0x80"
definition NVME_ZONE_TYPE_SEQ_WRITE :: u8 where "NVME_ZONE_TYPE_SEQ_WRITE = 0x02"

datatype NvmeZoneSendAction =
    NVME_ZONE_ACTION_RSD
  | NVME_ZONE_ACTION_CLOSE
  | NVME_ZONE_ACTION_FINISH
  | NVME_ZONE_ACTION_OPEN
  | NVME_ZONE_ACTION_RESET
  | NVME_ZONE_ACTION_OFFLINE
  | NVME_ZONE_ACTION_SET_ZD_EXT

primrec zone_action :: "NvmeZoneSendAction \<Rightarrow> u8" where
    "zone_action NVME_ZONE_ACTION_RSD = 0x00"
  | "zone_action NVME_ZONE_ACTION_CLOSE = 0x01"
  | "zone_action NVME_ZONE_ACTION_FINISH = 0x02"
  | "zone_action NVME_ZONE_ACTION_OPEN = 0x03"
  | "zone_action NVME_ZONE_ACTION_RESET = 0x04"
  | "zone_action NVME_ZONE_ACTION_OFFLINE = 0x05"
  | "zone_action NVME_ZONE_ACTION_SET_ZD_EXT = 0x10"

record NvmeIdNsZoned =
  idz_zoc :: u16
  idz_ozcs :: u16
  idz_mar :: u32
  idz_mor :: u32
  idz_rrl :: u32
  idz_frl :: u32
  idz_lbafe :: "(u64 \<times> u8) list" \<comment> \<open>\<open>zsze\<close> and \<open>zdes\<close> of each format\<close>

definition zns_get_zone_state :: "NvmeZone \<Rightarrow> NvmeZoneState" where
  "zns_get_zone_state z = zone_state_of_code (drop_bit 4 (d_zs (z_d z)))"

definition zns_set_zone_state :: "NvmeZone \<Rightarrow> NvmeZoneState \<Rightarrow> NvmeZone" where
  "zns_set_zone_state z st = z\<lparr>z_d := (z_d z)\<lparr>d_zs := push_bit 4 (zone_state_code st)\<rparr>\<rparr>"

definition zns_zone_wr_boundary :: "NvmeZone \<Rightarrow> u64" where
  "zns_zone_wr_boundary z = d_zslba (z_d z) + d_zcap (z_d z)"

definition zns_wp_is_valid :: "NvmeZone \<Rightarrow> bool" where
  "zns_wp_is_valid z \<longleftrightarrow>
     (let st = zns_get_zone_state z
      in st \<noteq> NVME_ZONE_STATE_FULL \<and> st \<noteq> NVME_ZONE_STATE_READ_ONLY \<and> st \<noteq> NVME_ZONE_STATE_OFFLINE)"

subsection \<open>The zoned part of the controller and its namespace\<close>

record zns =
  z_zoned :: bool
  cross_zone_read :: bool
  zone_size_bs :: u64
  zone_cap_bs :: bool
  max_active_zones :: u32
  max_open_zones :: u32
  zd_extension_size :: u32
  zone_array :: "NvmeZone list"
  exp_open_zones :: "nat list"
  imp_open_zones :: "nat list"
  closed_zones :: "nat list"
  full_zones :: "nat list"
  num_zones :: u32
  zone_size :: u64
  zone_capacity :: u64
  zone_size_log2 :: u32
  zd_extensions :: "u8 list"
  nr_open_zones :: int
  nr_active_zones :: int
  zasl_bs :: u32
  zasl :: u8
  z_csi :: u8
  id_ns_zoned :: "NvmeIdNsZoned option"
  z_page_size :: u16
  z_mdts :: u8
  z_err_rec :: u32
  zns_size :: u64
  zns_lbads :: u8
  zns_nsze :: u64
  zns_ncap :: u64
  zns_nuse :: u64
  zns_npdg :: u16
  zns_nsfeat :: u8

definition zns_ns_nlbas :: "zns \<Rightarrow> u64" where
  "zns_ns_nlbas n = drop_bit (unat (zns_lbads n)) (zns_size n)"

definition zns_l2b :: "zns \<Rightarrow> u64 \<Rightarrow> u64" where
  "zns_l2b n lba = push_bit (unat (zns_lbads n)) lba"

definition zns_zone_rd_boundary :: "zns \<Rightarrow> NvmeZone \<Rightarrow> u64" where
  "zns_zone_rd_boundary n z = d_zslba (z_d z) + zone_size n"

definition zns_zone_idx :: "zns \<Rightarrow> u64 \<Rightarrow> u32" where
  "zns_zone_idx n slba =
     ucast (if 0 < zone_size_log2 n then drop_bit (unat (zone_size_log2 n)) slba
            else slba div zone_size n)"

definition zns_get_zone_by_slba :: "zns \<Rightarrow> u64 \<Rightarrow> nat option" where
  "zns_get_zone_by_slba n slba =
     (let zone_idx = zns_zone_idx n slba
      in if zone_idx < num_zones n then Some (unat zone_idx) else None)"

definition upd_zone :: "zns \<Rightarrow> nat \<Rightarrow> (NvmeZone \<Rightarrow> NvmeZone) \<Rightarrow> zns" where
  "upd_zone n i f = n\<lparr>zone_array := (zone_array n)[i := f (zone_array n ! i)]\<rparr>"

definition zone_state :: "zns \<Rightarrow> nat \<Rightarrow> NvmeZoneState" where
  "zone_state n i = zns_get_zone_state (zone_array n ! i)"

subsection \<open>Open and active resources\<close>

text \<open>The counters are 32-bit signed, the limits unsigned; \<open>assert\<close> compares them unsigned.\<close>

definition zns_aor_inc_open :: "zns \<Rightarrow> zns option" where
  "zns_aor_inc_open n =
     (if nr_open_zones n < 0 then None
      else if max_open_zones n \<noteq> 0 then
        (let k = nr_open_zones n + 1
         in if (word_of_int k :: u32) \<le> max_open_zones n then Some (n\<lparr>nr_open_zones := k\<rparr>) else None)
      else Some n)"

definition zns_aor_dec_open :: "zns \<Rightarrow> zns option" where
  "zns_aor_dec_open n =
     (if max_open_zones n \<noteq> 0 then
        (if nr_open_zones n \<le> 0 then None else Some (n\<lparr>nr_open_zones := nr_open_zones n - 1\<rparr>))
      else if nr_open_zones n < 0 then None else Some n)"

definition zns_aor_inc_active :: "zns \<Rightarrow> zns option" where
  "zns_aor_inc_active n =
     (if nr_active_zones n < 0 then None
      else if max_active_zones n \<noteq> 0 then
        (let k = nr_active_zones n + 1
         in if (word_of_int k :: u32) \<le> max_active_zones n then Some (n\<lparr>nr_active_zones := k\<rparr>) else None)
      else Some n)"

definition zns_aor_dec_active :: "zns \<Rightarrow> zns option" where
  "zns_aor_dec_active n =
     (if max_active_zones n \<noteq> 0 then
        (if nr_active_zones n \<le> 0 \<or> nr_active_zones n - 1 < nr_open_zones n then None
         else Some (n\<lparr>nr_active_zones := nr_active_zones n - 1\<rparr>))
      else if nr_active_zones n < 0 then None else Some n)"

definition zns_aor_check :: "zns \<Rightarrow> u32 \<Rightarrow> u32 \<Rightarrow> u16" where
  "zns_aor_check n act opn =
     (if max_active_zones n \<noteq> 0 \<and> max_active_zones n < word_of_int (nr_active_zones n) + act
      then dnr NVME_ZONE_TOO_MANY_ACTIVE
      else if max_open_zones n \<noteq> 0 \<and> max_open_zones n < word_of_int (nr_open_zones n) + opn
      then dnr NVME_ZONE_TOO_MANY_OPEN
      else sc NVME_SUCCESS)"

subsection \<open>State assignment\<close>

text \<open>\<open>QTAILQ_IN_USE\<close>: an element's link is set exactly while it is on a queue.\<close>

definition zone_in_use :: "zns \<Rightarrow> nat \<Rightarrow> bool" where
  "zone_in_use n i \<longleftrightarrow> i \<in> set (exp_open_zones n) \<or> i \<in> set (imp_open_zones n) \<or>
     i \<in> set (closed_zones n) \<or> i \<in> set (full_zones n)"

definition zns_assign_zone_state :: "zns \<Rightarrow> nat \<Rightarrow> NvmeZoneState \<Rightarrow> zns" where
  "zns_assign_zone_state n0 i st =
     (let n1 = (if zone_in_use n0 i
                then (case zone_state n0 i of
                        NVME_ZONE_STATE_EXPLICITLY_OPEN \<Rightarrow> n0\<lparr>exp_open_zones := remove1 i (exp_open_zones n0)\<rparr>
                      | NVME_ZONE_STATE_IMPLICITLY_OPEN \<Rightarrow> n0\<lparr>imp_open_zones := remove1 i (imp_open_zones n0)\<rparr>
                      | NVME_ZONE_STATE_CLOSED \<Rightarrow> n0\<lparr>closed_zones := remove1 i (closed_zones n0)\<rparr>
                      | NVME_ZONE_STATE_FULL \<Rightarrow> n0\<lparr>full_zones := remove1 i (full_zones n0)\<rparr>
                      | _ \<Rightarrow> n0)
                else n0);
          n = upd_zone n1 i (\<lambda>z. zns_set_zone_state z st)
      in case st of
           NVME_ZONE_STATE_EXPLICITLY_OPEN \<Rightarrow> n\<lparr>exp_open_zones := exp_open_zones n @ [i]\<rparr>
         | NVME_ZONE_STATE_IMPLICITLY_OPEN \<Rightarrow> n\<lparr>imp_open_zones := imp_open_zones n @ [i]\<rparr>
         | NVME_ZONE_STATE_CLOSED \<Rightarrow> n\<lparr>closed_zones := closed_zones n @ [i]\<rparr>
         | NVME_ZONE_STATE_FULL \<Rightarrow> n\<lparr>full_zones := full_zones n @ [i]\<rparr>
         | NVME_ZONE_STATE_READ_ONLY \<Rightarrow> n
         | _ \<Rightarrow> upd_zone n i (\<lambda>z. z\<lparr>z_d := (z_d z)\<lparr>d_za := 0\<rparr>\<rparr>))"

subsection \<open>Checks before reads and writes\<close>

definition zns_check_zone_state_for_write :: "NvmeZone \<Rightarrow> u16 option" where
  "zns_check_zone_state_for_write z =
     (case zns_get_zone_state z of
        NVME_ZONE_STATE_EMPTY \<Rightarrow> Some (sc NVME_SUCCESS)
      | NVME_ZONE_STATE_IMPLICITLY_OPEN \<Rightarrow> Some (sc NVME_SUCCESS)
      | NVME_ZONE_STATE_EXPLICITLY_OPEN \<Rightarrow> Some (sc NVME_SUCCESS)
      | NVME_ZONE_STATE_CLOSED \<Rightarrow> Some (sc NVME_SUCCESS)
      | NVME_ZONE_STATE_FULL \<Rightarrow> Some (sc NVME_ZONE_FULL)
      | NVME_ZONE_STATE_OFFLINE \<Rightarrow> Some (sc NVME_ZONE_OFFLINE)
      | NVME_ZONE_STATE_READ_ONLY \<Rightarrow> Some (sc NVME_ZONE_READ_ONLY)
      | NVME_ZONE_STATE_RESERVED \<Rightarrow> None)"

text \<open>\<open>n->page_size << k\<close> is an \<open>int\<close>, widened to \<open>size_t\<close> for the comparison.\<close>

definition int_shl :: "u16 \<Rightarrow> u8 \<Rightarrow> u64" where
  "int_shl page_size k = scast (push_bit (unat k) (ucast page_size :: u32))"

definition zns_check_zone_write :: "zns \<Rightarrow> NvmeZone \<Rightarrow> u64 \<Rightarrow> u32 \<Rightarrow> bool \<Rightarrow> u16 option" where
  "zns_check_zone_write n z slba nlb is_append =
     do {
       status \<leftarrow> (if zns_zone_wr_boundary z < slba + ucast nlb then Some (sc NVME_ZONE_BOUNDARY_ERROR)
                  else zns_check_zone_state_for_write z);
       if status \<noteq> sc NVME_SUCCESS then Some status
       else if \<not> zns_wp_is_valid z then None
       else if is_append then
         (let status = (if slba \<noteq> d_zslba (z_d z) then sc NVME_INVALID_FIELD else status)
          in Some (if int_shl (z_page_size n) (zasl n) < zns_l2b n (ucast nlb)
                   then sc NVME_INVALID_FIELD else status))
       else Some (if slba \<noteq> w_ptr z then sc NVME_ZONE_INVALID_WRITE else status)
     }"

definition zns_check_zone_state_for_read :: "NvmeZone \<Rightarrow> u16 option" where
  "zns_check_zone_state_for_read z =
     (case zns_get_zone_state z of
        NVME_ZONE_STATE_OFFLINE \<Rightarrow> Some (sc NVME_ZONE_OFFLINE)
      | NVME_ZONE_STATE_RESERVED \<Rightarrow> None
      | _ \<Rightarrow> Some (sc NVME_SUCCESS))"

text \<open>The \<open>do ... while\<close> loop of a read that crosses zones, from zone \<open>i\<close> on; \<open>None\<close> also stands for
  walking off the end of the zone array.\<close>

function read_across :: "zns \<Rightarrow> u64 \<Rightarrow> nat \<Rightarrow> u16 option" where
  "read_across n end' i =
     (if length (zone_array n) \<le> i then None
      else do {
        status \<leftarrow> zns_check_zone_state_for_read (zone_array n ! i);
        if status \<noteq> sc NVME_SUCCESS then Some status
        else if zns_zone_rd_boundary n (zone_array n ! i) < end' then read_across n end' (Suc i)
        else Some status
      })"
  by auto
termination by (relation "measure (\<lambda>(n, e, i). length (zone_array n) - i)") auto

definition zns_check_zone_read :: "zns \<Rightarrow> u64 \<Rightarrow> u32 \<Rightarrow> u16 option" where
  "zns_check_zone_read n slba nlb =
     do {
       i \<leftarrow> zns_get_zone_by_slba n slba;
       let z = zone_array n ! i;
       let bndry = zns_zone_rd_boundary n z;
       let end' = slba + ucast nlb;
       status \<leftarrow> zns_check_zone_state_for_read z;
       if status \<noteq> sc NVME_SUCCESS then Some status
       else if bndry < end' then
         (if \<not> cross_zone_read n then Some (sc NVME_ZONE_BOUNDARY_ERROR)
          else read_across n end' (Suc i))
       else Some status
     }"

definition zns_check_bounds :: "zns \<Rightarrow> u64 \<Rightarrow> u32 \<Rightarrow> u16" where
  "zns_check_bounds n slba nlb =
     (if NOT 0 - slba < ucast nlb \<or> zns_nsze n < slba + ucast nlb then dnr NVME_LBA_RANGE
      else sc NVME_SUCCESS)"

definition nvme_check_mdts :: "u8 \<Rightarrow> u16 \<Rightarrow> u64 \<Rightarrow> u16" where
  "nvme_check_mdts mdts page_size len =
     (if mdts \<noteq> 0 \<and> int_shl page_size mdts < len then dnr NVME_INVALID_FIELD
      else sc NVME_SUCCESS)"

subsection \<open>Implicit transitions\<close>

definition zns_auto_transition_zone :: "zns \<Rightarrow> zns option" where
  "zns_auto_transition_zone n =
     (if max_open_zones n \<noteq> 0 \<and> (word_of_int (nr_open_zones n) :: u32) = max_open_zones n
      then (case imp_open_zones n of
              [] \<Rightarrow> Some n
            | i # is \<Rightarrow> do {
                n \<leftarrow> zns_aor_dec_open (n\<lparr>imp_open_zones := is\<rparr>);
                Some (zns_assign_zone_state n i NVME_ZONE_STATE_CLOSED)
              })
      else Some n)"

definition zns_auto_open_zone :: "zns \<Rightarrow> nat \<Rightarrow> (u16 \<times> zns) option" where
  "zns_auto_open_zone n i =
     (if zone_state n i = NVME_ZONE_STATE_EMPTY then
        map_option (\<lambda>n. (zns_aor_check n 1 1, n)) (zns_auto_transition_zone n)
      else if zone_state n i = NVME_ZONE_STATE_CLOSED then
        map_option (\<lambda>n. (zns_aor_check n 0 1, n)) (zns_auto_transition_zone n)
      else Some (sc NVME_SUCCESS, n))"

definition zns_advance_zone_wp :: "zns \<Rightarrow> nat \<Rightarrow> u32 \<Rightarrow> (u64 \<times> zns) option" where
  "zns_advance_zone_wp n i nlb =
     (let result = w_ptr (zone_array n ! i);
          n = upd_zone n i (\<lambda>z. z\<lparr>w_ptr := w_ptr z + ucast nlb\<rparr>)
      in if w_ptr (zone_array n ! i) < zns_zone_wr_boundary (zone_array n ! i)
         then (case zone_state n i of
                 NVME_ZONE_STATE_EMPTY \<Rightarrow> do {
                   n \<leftarrow> zns_aor_inc_active n;
                   n \<leftarrow> zns_aor_inc_open n;
                   Some (result, zns_assign_zone_state n i NVME_ZONE_STATE_IMPLICITLY_OPEN)
                 }
               | NVME_ZONE_STATE_CLOSED \<Rightarrow> do {
                   n \<leftarrow> zns_aor_inc_open n;
                   Some (result, zns_assign_zone_state n i NVME_ZONE_STATE_IMPLICITLY_OPEN)
                 }
               | _ \<Rightarrow> Some (result, n))
         else Some (result, n))"

text \<open>The successful branch (\<open>failed\<close> is always false).  \<open>slba\<close> and \<open>nlb\<close> come from the command.\<close>

definition zns_finalize_zoned_write :: "zns \<Rightarrow> u64 \<Rightarrow> u32 \<Rightarrow> zns option" where
  "zns_finalize_zoned_write n slba nlb =
     do {
       i \<leftarrow> zns_get_zone_by_slba n slba;
       let n = upd_zone n i (\<lambda>z. z\<lparr>z_d := (z_d z)\<lparr>d_wp := d_wp (z_d z) + ucast nlb\<rparr>\<rparr>);
       if d_wp (z_d (zone_array n ! i)) = zns_zone_wr_boundary (zone_array n ! i)
       then (let full = (\<lambda>n. Some (zns_assign_zone_state n i NVME_ZONE_STATE_FULL))
             in case zone_state n i of
                  NVME_ZONE_STATE_IMPLICITLY_OPEN \<Rightarrow> zns_aor_dec_open n \<bind> zns_aor_dec_active \<bind> full
                | NVME_ZONE_STATE_EXPLICITLY_OPEN \<Rightarrow> zns_aor_dec_open n \<bind> zns_aor_dec_active \<bind> full
                | NVME_ZONE_STATE_CLOSED \<Rightarrow> zns_aor_dec_active n \<bind> full
                | NVME_ZONE_STATE_EMPTY \<Rightarrow> full n
                | NVME_ZONE_STATE_FULL \<Rightarrow> Some n
                | _ \<Rightarrow> None)
       else Some n
     }"

subsection \<open>Zone management operations\<close>

type_synonym zone_op = "zns \<Rightarrow> nat \<Rightarrow> NvmeZoneState \<Rightarrow> (u16 \<times> zns) option"

definition zns_open_zone :: zone_op where
  "zns_open_zone n i state =
     (let open' = (\<lambda>n. Some (sc NVME_SUCCESS, zns_assign_zone_state n i NVME_ZONE_STATE_EXPLICITLY_OPEN));
          from_closed = (\<lambda>n.
            (let status = zns_aor_check n 0 1
             in if status \<noteq> sc NVME_SUCCESS
                then (if state = NVME_ZONE_STATE_EMPTY
                      then map_option (\<lambda>n. (status, n)) (zns_aor_dec_active n)
                      else Some (status, n))
                else zns_aor_inc_open n \<bind> open'))
      in case state of
           NVME_ZONE_STATE_EMPTY \<Rightarrow>
             (let status = zns_aor_check n 1 0
              in if status \<noteq> sc NVME_SUCCESS then Some (status, n)
                 else zns_aor_inc_active n \<bind> from_closed)
         | NVME_ZONE_STATE_CLOSED \<Rightarrow> from_closed n
         | NVME_ZONE_STATE_IMPLICITLY_OPEN \<Rightarrow> open' n
         | NVME_ZONE_STATE_EXPLICITLY_OPEN \<Rightarrow> Some (sc NVME_SUCCESS, n)
         | _ \<Rightarrow> Some (sc NVME_ZONE_INVAL_TRANSITION, n))"

definition zns_close_zone :: zone_op where
  "zns_close_zone n i state =
     (let close = (\<lambda>n. Some (sc NVME_SUCCESS, zns_assign_zone_state n i NVME_ZONE_STATE_CLOSED))
      in case state of
           NVME_ZONE_STATE_EXPLICITLY_OPEN \<Rightarrow> zns_aor_dec_open n \<bind> close
         | NVME_ZONE_STATE_IMPLICITLY_OPEN \<Rightarrow> zns_aor_dec_open n \<bind> close
         | NVME_ZONE_STATE_CLOSED \<Rightarrow> Some (sc NVME_SUCCESS, n)
         | _ \<Rightarrow> Some (sc NVME_ZONE_INVAL_TRANSITION, n))"

text \<open>Both write pointers moved to the same block.\<close>

definition wps_to :: "(NvmeZone \<Rightarrow> u64) \<Rightarrow> NvmeZone \<Rightarrow> NvmeZone" where
  "wps_to f z = z\<lparr>w_ptr := f z, z_d := (z_d z)\<lparr>d_wp := f z\<rparr>\<rparr>"

definition set_wps :: "zns \<Rightarrow> nat \<Rightarrow> (NvmeZone \<Rightarrow> u64) \<Rightarrow> zns" where
  "set_wps n i f = upd_zone n i (wps_to f)"

definition zns_finish_zone :: zone_op where
  "zns_finish_zone n i state =
     (let finish = (\<lambda>n. Some (sc NVME_SUCCESS,
            zns_assign_zone_state (set_wps n i zns_zone_wr_boundary) i NVME_ZONE_STATE_FULL))
      in case state of
           NVME_ZONE_STATE_EXPLICITLY_OPEN \<Rightarrow> zns_aor_dec_open n \<bind> zns_aor_dec_active \<bind> finish
         | NVME_ZONE_STATE_IMPLICITLY_OPEN \<Rightarrow> zns_aor_dec_open n \<bind> zns_aor_dec_active \<bind> finish
         | NVME_ZONE_STATE_CLOSED \<Rightarrow> zns_aor_dec_active n \<bind> finish
         | NVME_ZONE_STATE_EMPTY \<Rightarrow> finish n
         | NVME_ZONE_STATE_FULL \<Rightarrow> Some (sc NVME_SUCCESS, n)
         | _ \<Rightarrow> Some (sc NVME_ZONE_INVAL_TRANSITION, n))"

definition zns_aio_zone_reset_cb :: "zns \<Rightarrow> nat \<Rightarrow> zns option" where
  "zns_aio_zone_reset_cb n i =
     (let reset = (\<lambda>n. Some (zns_assign_zone_state (set_wps n i (\<lambda>z. d_zslba (z_d z))) i NVME_ZONE_STATE_EMPTY))
      in case zone_state n i of
           NVME_ZONE_STATE_EXPLICITLY_OPEN \<Rightarrow> zns_aor_dec_open n \<bind> zns_aor_dec_active \<bind> reset
         | NVME_ZONE_STATE_IMPLICITLY_OPEN \<Rightarrow> zns_aor_dec_open n \<bind> zns_aor_dec_active \<bind> reset
         | NVME_ZONE_STATE_CLOSED \<Rightarrow> zns_aor_dec_active n \<bind> reset
         | NVME_ZONE_STATE_FULL \<Rightarrow> reset n
         | _ \<Rightarrow> Some n)"

definition zns_reset_zone :: zone_op where
  "zns_reset_zone n i state =
     (let reset = map_option (\<lambda>n. (sc NVME_SUCCESS, n)) (zns_aio_zone_reset_cb n i)
      in case state of
           NVME_ZONE_STATE_EMPTY \<Rightarrow> Some (sc NVME_SUCCESS, n)
         | NVME_ZONE_STATE_EXPLICITLY_OPEN \<Rightarrow> reset
         | NVME_ZONE_STATE_IMPLICITLY_OPEN \<Rightarrow> reset
         | NVME_ZONE_STATE_CLOSED \<Rightarrow> reset
         | NVME_ZONE_STATE_FULL \<Rightarrow> reset
         | _ \<Rightarrow> Some (sc NVME_ZONE_INVAL_TRANSITION, n))"

definition zns_offline_zone :: zone_op where
  "zns_offline_zone n i state =
     (case state of
        NVME_ZONE_STATE_READ_ONLY \<Rightarrow> Some (sc NVME_SUCCESS, zns_assign_zone_state n i NVME_ZONE_STATE_OFFLINE)
      | NVME_ZONE_STATE_OFFLINE \<Rightarrow> Some (sc NVME_SUCCESS, n)
      | _ \<Rightarrow> Some (sc NVME_ZONE_INVAL_TRANSITION, n))"

definition zns_set_zd_ext :: "zns \<Rightarrow> nat \<Rightarrow> (u16 \<times> zns) option" where
  "zns_set_zd_ext n i =
     (if zone_state n i = NVME_ZONE_STATE_EMPTY then
        (let status = zns_aor_check n 1 0
         in if status \<noteq> sc NVME_SUCCESS then Some (status, n)
            else do {
              n \<leftarrow> zns_aor_inc_active n;
              let n = upd_zone n i (\<lambda>z. z\<lparr>z_d := (z_d z)\<lparr>d_za := d_za (z_d z) OR NVME_ZA_ZD_EXT_VALID\<rparr>\<rparr>);
              Some (sc NVME_SUCCESS, zns_assign_zone_state n i NVME_ZONE_STATE_CLOSED)
            })
      else Some (sc NVME_ZONE_INVAL_TRANSITION, n))"

text \<open>The processing mask is a set of bits; 0 selects the zone of the command.\<close>

definition NVME_PROC_CURRENT_ZONE :: nat where "NVME_PROC_CURRENT_ZONE = 0"
definition NVME_PROC_OPENED_ZONES :: nat where "NVME_PROC_OPENED_ZONES = 1"
definition NVME_PROC_CLOSED_ZONES :: nat where "NVME_PROC_CLOSED_ZONES = 2"
definition NVME_PROC_READ_ONLY_ZONES :: nat where "NVME_PROC_READ_ONLY_ZONES = 4"
definition NVME_PROC_FULL_ZONES :: nat where "NVME_PROC_FULL_ZONES = 8"

definition zns_bulk_proc_zone :: "nat \<Rightarrow> zone_op \<Rightarrow> zns \<Rightarrow> nat \<Rightarrow> (u16 \<times> zns) option" where
  "zns_bulk_proc_zone proc_mask op_hndlr n i =
     (let zs = zone_state n i;
          proc_zone =
            (case zs of
               NVME_ZONE_STATE_IMPLICITLY_OPEN \<Rightarrow> proc_mask AND NVME_PROC_OPENED_ZONES \<noteq> 0
             | NVME_ZONE_STATE_EXPLICITLY_OPEN \<Rightarrow> proc_mask AND NVME_PROC_OPENED_ZONES \<noteq> 0
             | NVME_ZONE_STATE_CLOSED \<Rightarrow> proc_mask AND NVME_PROC_CLOSED_ZONES \<noteq> 0
             | NVME_ZONE_STATE_READ_ONLY \<Rightarrow> proc_mask AND NVME_PROC_READ_ONLY_ZONES \<noteq> 0
             | NVME_ZONE_STATE_FULL \<Rightarrow> proc_mask AND NVME_PROC_FULL_ZONES \<noteq> 0
             | _ \<Rightarrow> False)
      in if proc_zone then op_hndlr n i zs else Some (sc NVME_SUCCESS, n))"

definition stops :: "u16 \<Rightarrow> bool" where
  "stops status \<longleftrightarrow> status \<noteq> sc NVME_SUCCESS \<and> status \<noteq> sc NVME_NO_COMPLETE"

text \<open>One \<open>QTAILQ_FOREACH_SAFE\<close> loop over a queue as it is when the loop starts; the handlers move
  only the zone they are given.\<close>

primrec zns_foreach :: "(zns \<Rightarrow> nat \<Rightarrow> (u16 \<times> zns) option) \<Rightarrow> nat list \<Rightarrow> u16 \<times> zns \<Rightarrow> (u16 \<times> zns) option" where
  "zns_foreach f [] r = Some r"
| "zns_foreach f (i # is) r =
     (if stops (fst r) then Some r else f (snd r) i \<bind> zns_foreach f is)"

text \<open>One loop of \<open>zns_do_zone_op\<close>: it runs when its bit is in the mask and no earlier loop has
  jumped to \<open>out\<close>.\<close>

definition zns_proc_queue ::
  "nat \<Rightarrow> zone_op \<Rightarrow> nat \<Rightarrow> (zns \<Rightarrow> nat list) \<Rightarrow> u16 \<times> zns \<Rightarrow> (u16 \<times> zns) option" where
  "zns_proc_queue proc_mask op_hndlr flag q r =
     (if proc_mask AND flag \<noteq> 0 \<and> \<not> stops (fst r)
      then zns_foreach (zns_bulk_proc_zone proc_mask op_hndlr) (q (snd r)) r else Some r)"

definition zns_do_zone_op :: "nat \<Rightarrow> nat \<Rightarrow> zone_op \<Rightarrow> zns \<Rightarrow> (u16 \<times> zns) option" where
  "zns_do_zone_op zone proc_mask op_hndlr n =
     (if proc_mask = 0 then op_hndlr n zone (zone_state n zone)
      else
        zns_proc_queue proc_mask op_hndlr NVME_PROC_CLOSED_ZONES closed_zones (sc NVME_SUCCESS, n)
        \<bind> zns_proc_queue proc_mask op_hndlr NVME_PROC_OPENED_ZONES imp_open_zones
        \<bind> zns_proc_queue proc_mask op_hndlr NVME_PROC_OPENED_ZONES exp_open_zones
        \<bind> zns_proc_queue proc_mask op_hndlr NVME_PROC_FULL_ZONES full_zones
        \<bind> zns_proc_queue proc_mask op_hndlr NVME_PROC_READ_ONLY_ZONES (\<lambda>n. [0..<unat (num_zones n)]))"

subsection \<open>Commands\<close>

text \<open>The device a zoned command works on: the zones, the DMA context, host memory, the backend.\<close>

record zns_dev =
  dev_zns :: zns
  dev_dma :: dma_ctx
  dev_host :: host_mem
  dev_be :: SsdDramBackend

definition zns_get_mgmt_zone_slba_idx :: "zns \<Rightarrow> NvmeCmd \<Rightarrow> (u16 \<times> u64 \<times> u32) option" where
  "zns_get_mgmt_zone_slba_idx n c =
     (if \<not> z_zoned n then Some (dnr NVME_INVALID_OPCODE, 0, 0)
      else
        let slba = qword (cmd_cdw10 c) (cmd_cdw11 c)
        in if zns_nsze n \<le> slba then Some (dnr NVME_LBA_RANGE, 0, 0)
           else let zone_idx = zns_zone_idx n slba
                in if zone_idx < num_zones n then Some (sc NVME_SUCCESS, slba, zone_idx) else None)"

definition with_dnr :: "u16 \<Rightarrow> u16" where
  "with_dnr status = (if status \<noteq> 0 then status OR sc NVME_DNR else status)"

definition send_result :: "zns_dev \<Rightarrow> (u16 \<times> zns) option \<Rightarrow> (u16 \<times> zns_dev) option" where
  "send_result d r = map_option (\<lambda>(status, n). (with_dnr status, d\<lparr>dev_zns := n\<rparr>)) r"

definition zns_zone_mgmt_send :: "zns_dev \<Rightarrow> NvmeCmd \<Rightarrow> (u16 \<times> zns_dev) option" where
  "zns_zone_mgmt_send d cmd =
     (let n = dev_zns d;
          dw13 = cmd_cdw13 cmd;
          action = (ucast (dw13 AND 0xff) :: u8);
          all = (dw13 AND 0x100 \<noteq> 0)
      in do {
        (status, slba, idx) \<leftarrow> (if all then Some (sc NVME_SUCCESS, 0, 0) else zns_get_mgmt_zone_slba_idx n cmd);
        if status \<noteq> 0 then Some (status, d)
        else
          let zone_idx = unat idx
          in if slba \<noteq> d_zslba (z_d (zone_array n ! zone_idx)) then Some (dnr NVME_INVALID_FIELD, d)
          else if action = zone_action NVME_ZONE_ACTION_OPEN then
            send_result d (zns_do_zone_op zone_idx (if all then NVME_PROC_CLOSED_ZONES else NVME_PROC_CURRENT_ZONE)
              zns_open_zone n)
          else if action = zone_action NVME_ZONE_ACTION_CLOSE then
            send_result d (zns_do_zone_op zone_idx (if all then NVME_PROC_OPENED_ZONES else NVME_PROC_CURRENT_ZONE)
              zns_close_zone n)
          else if action = zone_action NVME_ZONE_ACTION_FINISH then
            send_result d (zns_do_zone_op zone_idx
              (if all then NVME_PROC_OPENED_ZONES OR NVME_PROC_CLOSED_ZONES else NVME_PROC_CURRENT_ZONE)
              zns_finish_zone n)
          else if action = zone_action NVME_ZONE_ACTION_RESET then
            map_option (\<lambda>(_, n). (sc NVME_SUCCESS, d\<lparr>dev_zns := n\<rparr>))
              (zns_do_zone_op zone_idx
                (if all then NVME_PROC_OPENED_ZONES OR NVME_PROC_CLOSED_ZONES OR NVME_PROC_FULL_ZONES
                 else NVME_PROC_CURRENT_ZONE) zns_reset_zone n)
          else if action = zone_action NVME_ZONE_ACTION_OFFLINE then
            send_result d (zns_do_zone_op zone_idx (if all then NVME_PROC_READ_ONLY_ZONES else NVME_PROC_CURRENT_ZONE)
              zns_offline_zone n)
          else if action = zone_action NVME_ZONE_ACTION_SET_ZD_EXT then
            (if all \<or> zd_extension_size n = 0 then Some (dnr NVME_INVALID_FIELD, d)
             else
               let sz = unat (zd_extension_size n);
                   old = take sz (drop (zone_idx * sz) (zd_extensions n))
               in do {
                 (status, ext) \<leftarrow> dma_write_prp (dev_dma d) (dev_host d) old (cmd_prp1 cmd) (cmd_prp2 cmd);
                 let n = n\<lparr>zd_extensions := overwrite (zd_extensions n) (zone_idx * sz) ext\<rparr>;
                 if status \<noteq> 0 then Some (status, d\<lparr>dev_zns := n\<rparr>)
                 else send_result (d\<lparr>dev_zns := n\<rparr>) (zns_set_zd_ext n zone_idx)
               })
          else Some (dnr NVME_INVALID_FIELD, d)
      })"

definition zns_zone_matches_filter :: "u32 \<Rightarrow> NvmeZone \<Rightarrow> bool" where
  "zns_zone_matches_filter zafs z =
     (let zs = zns_get_zone_state z
      in if zafs = 0 then True
         else if zafs = 1 then zs = NVME_ZONE_STATE_EMPTY
         else if zafs = 2 then zs = NVME_ZONE_STATE_IMPLICITLY_OPEN
         else if zafs = 3 then zs = NVME_ZONE_STATE_EXPLICITLY_OPEN
         else if zafs = 4 then zs = NVME_ZONE_STATE_CLOSED
         else if zafs = 5 then zs = NVME_ZONE_STATE_FULL
         else if zafs = 6 then zs = NVME_ZONE_STATE_READ_ONLY
         else if zafs = 7 then zs = NVME_ZONE_STATE_OFFLINE
         else False)"

text \<open>The counting loop of a report: it runs over logical blocks up to the capacity of the
  namespace and steps the zone pointer at every turn; \<open>None\<close> is a step past the array.\<close>

function zns_count_zones ::
  "zns \<Rightarrow> u32 \<Rightarrow> bool \<Rightarrow> nat \<Rightarrow> u64 \<Rightarrow> u64 \<Rightarrow> nat \<Rightarrow> nat \<Rightarrow> nat option" where
  "zns_count_zones n zrasf partial max_zones capacity slba i nr =
     (if capacity \<le> slba then Some nr
      else if partial \<and> max_zones \<le> nr then Some nr
      else if length (zone_array n) \<le> i then None
      else zns_count_zones n zrasf partial max_zones capacity (slba + zone_size n) (Suc i)
             (if zns_zone_matches_filter zrasf (zone_array n ! i) then nr + 1 else nr))"
  by auto
termination by (relation "measure (\<lambda>(n, z, p, m, c, s, i, nr). length (zone_array n) - i)") auto

definition le_bytes :: "nat \<Rightarrow> u64 \<Rightarrow> u8 list" where
  "le_bytes k w = map (\<lambda>i. ucast (drop_bit (8 * i) w)) [0..<k]"

definition zns_descr_bytes :: "NvmeZone \<Rightarrow> u8 list" where
  "zns_descr_bytes z =
     [d_zt (z_d z), d_zs (z_d z), d_za (z_d z)] @ replicate 5 0 @ le_bytes 8 (d_zcap (z_d z)) @
     le_bytes 8 (d_zslba (z_d z)) @
     le_bytes 8 (if zns_wp_is_valid z then d_wp (z_d z) else NOT 0) @ replicate 32 0"

definition zns_get_zd_extension :: "zns \<Rightarrow> nat \<Rightarrow> u8 list" where
  "zns_get_zd_extension n i =
     (let sz = unat (zd_extension_size n) in take sz (drop (i * sz) (zd_extensions n)))"

primrec zns_report_entries :: "nat list \<Rightarrow> zns \<Rightarrow> u32 \<Rightarrow> bool \<Rightarrow> nat \<Rightarrow> u8 list" where
  "zns_report_entries [] n zrasf ext max_zones = []"
| "zns_report_entries (i # is) n zrasf ext max_zones =
     (if max_zones = 0 then []
      else if zns_zone_matches_filter zrasf (zone_array n ! i) then
        zns_descr_bytes (zone_array n ! i) @
        (if ext
         then (if d_za (z_d (zone_array n ! i)) AND NVME_ZA_ZD_EXT_VALID \<noteq> 0 then zns_get_zd_extension n i
               else replicate (unat (zd_extension_size n)) 0)
         else []) @
        zns_report_entries is n zrasf ext (max_zones - 1)
      else zns_report_entries is n zrasf ext max_zones)"

definition zns_zone_mgmt_recv :: "zns_dev \<Rightarrow> NvmeCmd \<Rightarrow> (u16 \<times> zns_dev) option" where
  "zns_zone_mgmt_recv d cmd =
     (let n = dev_zns d;
          data_size = push_bit 2 (cmd_cdw12 cmd + 1);
          dw13 = cmd_cdw13 cmd;
          zra = dw13 AND 0xff;
          zrasf = drop_bit 8 dw13 AND 0xff;
          partial = (drop_bit 16 dw13 AND 1 \<noteq> 0);
          inval = Some (dnr NVME_INVALID_FIELD, d)
      in do {
        (status, slba, idx) \<leftarrow> zns_get_mgmt_zone_slba_idx n cmd;
        if status \<noteq> 0 then Some (status, d)
        else if zra \<noteq> 0 \<and> zra \<noteq> 1 then inval
        else if zra = 1 \<and> zd_extension_size n = 0 then inval
        else if 7 < zrasf then inval
        else if data_size < 64 then inval
        else
          let status = nvme_check_mdts (z_mdts n) (z_page_size n) (ucast data_size)
          in if status \<noteq> 0 then Some (status, d)
          else
            let zone_entry_sz = 64 + (if zra = 1 then unat (zd_extension_size n) else 0);
                max_zones = (unat data_size - 64) div zone_entry_sz
            in do {
              nr_zones \<leftarrow> zns_count_zones n zrasf partial max_zones (zns_ns_nlbas n) slba (unat idx) 0;
              let body = le_bytes 8 (of_nat nr_zones) @ replicate 56 0 @
                zns_report_entries [unat idx..<unat (num_zones n)] n zrasf (zra = 1) max_zones;
              let buf = body @ replicate (unat data_size - length body) 0;
              (status, h) \<leftarrow> dma_read_prp (dev_dma d) (dev_host d) buf (cmd_prp1 cmd) (cmd_prp2 cmd);
              Some (status, d\<lparr>dev_host := h\<rparr>)
            }
      })"

definition zns_map_dptr :: "zns_dev \<Rightarrow> u64 \<Rightarrow> NvmeCmd \<Rightarrow> u16 \<times> sg_list" where
  "zns_map_dptr d len cmd =
     (if cmd_psdt cmd = 0
      then (case nvme_map_prp (dev_dma d) (dev_host d) (cmd_prp1 cmd) (cmd_prp2 cmd) (ucast len) of
              (status, cmb, sg) \<Rightarrow> (status, if cmb then [] else sg))
      else (sc NVME_INVALID_FIELD, []))"

definition err_result :: "zns_dev \<Rightarrow> NvmeRequest \<Rightarrow> u16 \<Rightarrow> u16 \<times> NvmeRequest \<times> zns_dev" where
  "err_result d req status = (status OR sc NVME_DNR, req, d)"

definition set_result64 :: "u64 \<Rightarrow> NvmeRequest \<Rightarrow> NvmeRequest" where
  "set_result64 r req = req\<lparr>req_cqe := (req_cqe req)\<lparr>cqe_res64 := r\<rparr>\<rparr>"

text \<open>The steps \<open>zns_do_write\<close> and \<open>zns_write\<close> share after the size check: zone checks, implicit open,
  write pointer advance, data transfer, finalisation.  \<open>wrz\<close> leaves the data transfer out.\<close>

definition zns_write_zone ::
  "zns_dev \<Rightarrow> NvmeRequest \<Rightarrow> bool \<Rightarrow> bool \<Rightarrow> (u16 \<times> NvmeRequest \<times> zns_dev) option" where
  "zns_write_zone d req is_append wrz =
     (let rw = rw_of_cmd (req_cmd req);
          slba = rw_slba rw;
          nlb = ucast (rw_nlb rw) + 1 :: u32;
          data_size = zns_l2b (dev_zns d) (ucast nlb);
          status = zns_check_bounds (dev_zns d) slba nlb
      in if status \<noteq> 0 then Some (err_result d req status)
      else do {
        i \<leftarrow> zns_get_zone_by_slba (dev_zns d) slba;
        status \<leftarrow> zns_check_zone_write (dev_zns d) (zone_array (dev_zns d) ! i) slba nlb is_append;
        if status \<noteq> 0 then Some (err_result d req status)
        else do {
          (status, n) \<leftarrow> zns_auto_open_zone (dev_zns d) i;
          let d = d\<lparr>dev_zns := n\<rparr>;
          if status \<noteq> 0 then Some (err_result d req status)
          else do {
            let slba' = (if is_append then w_ptr (zone_array n ! i) else slba);
            (result, n) \<leftarrow> zns_advance_zone_wp n i nlb;
            let d = d\<lparr>dev_zns := n\<rparr>;
            let req = set_result64 result req;
            let data_offset = zns_l2b n slba';
            if wrz then
              map_option (\<lambda>n. (sc NVME_SUCCESS, req, d\<lparr>dev_zns := n\<rparr>)) (zns_finalize_zoned_write n slba nlb)
            else
              let (status, sg) = zns_map_dptr d data_size (req_cmd req);
                  req = req\<lparr>req_qsg := sg\<rparr>
              in if status \<noteq> 0 then Some (err_result d req status)
                 else do {
                   (be, h) \<leftarrow> backend_rw (dev_be d) (dev_host d) sg [data_offset] (req_is_write req \<noteq> 0);
                   n \<leftarrow> zns_finalize_zoned_write n slba nlb;
                   Some (sc NVME_SUCCESS, req, d\<lparr>dev_zns := n, dev_be := be, dev_host := h\<rparr>)
                 }
          }
        }
      })"

definition zns_do_write ::
  "zns_dev \<Rightarrow> NvmeRequest \<Rightarrow> bool \<Rightarrow> bool \<Rightarrow> (u16 \<times> NvmeRequest \<times> zns_dev) option" where
  "zns_do_write d req is_append wrz =
     (let n = dev_zns d;
          nlb = ucast (rw_nlb (rw_of_cmd (req_cmd req))) + 1 :: u32;
          status = (if wrz then sc NVME_SUCCESS
                    else nvme_check_mdts (z_mdts n) (z_page_size n) (zns_l2b n (ucast nlb)))
      in if status \<noteq> 0 then Some (err_result d req status) else zns_write_zone d req is_append wrz)"

definition zns_zone_append :: "zns_dev \<Rightarrow> NvmeRequest \<Rightarrow> (u16 \<times> NvmeRequest \<times> zns_dev) option" where
  "zns_zone_append d req = zns_do_write d req True False"

definition zns_check_dulbe :: "zns \<Rightarrow> u64 \<Rightarrow> u32 \<Rightarrow> u16" where
  "zns_check_dulbe n slba nlb = sc NVME_SUCCESS"

definition zns_read :: "zns_dev \<Rightarrow> NvmeRequest \<Rightarrow> (u16 \<times> NvmeRequest \<times> zns_dev) option" where
  "zns_read d req0 =
     (let n = dev_zns d;
          rw = rw_of_cmd (req_cmd req0);
          slba = rw_slba rw;
          nlb = ucast (rw_nlb rw) + 1 :: u32;
          data_size = zns_l2b n (ucast nlb);
          req = req0\<lparr>req_is_write := 0\<rparr>;
          status = nvme_check_mdts (z_mdts n) (z_page_size n) data_size
      in if \<not> z_zoned n then None
      else if status \<noteq> 0 then Some (err_result d req status)
      else
        let status = zns_check_bounds n slba nlb
        in if status \<noteq> 0 then Some (err_result d req status)
        else do {
          status \<leftarrow> zns_check_zone_read n slba nlb;
          if status \<noteq> 0 then Some (err_result d req status)
          else
            let (status, sg) = zns_map_dptr d data_size (req_cmd req);
                req = req\<lparr>req_qsg := sg\<rparr>
            in if status \<noteq> 0 then Some (err_result d req status)
               else
                 let status = (if NVME_ERR_REC_DULBE (z_err_rec n) \<noteq> 0 then zns_check_dulbe n slba nlb
                               else sc NVME_SUCCESS)
                 in if status \<noteq> 0 then Some (err_result d req status)
                 else do {
                   (be, h) \<leftarrow> backend_rw (dev_be d) (dev_host d) sg [zns_l2b n slba] (req_is_write req \<noteq> 0);
                   Some (sc NVME_SUCCESS, req, d\<lparr>dev_be := be, dev_host := h\<rparr>)
                 }
        })"

definition zns_write :: "zns_dev \<Rightarrow> NvmeRequest \<Rightarrow> (u16 \<times> NvmeRequest \<times> zns_dev) option" where
  "zns_write d req0 =
     (let n = dev_zns d;
          nlb = ucast (rw_nlb (rw_of_cmd (req_cmd req0))) + 1 :: u32;
          req = req0\<lparr>req_is_write := 1\<rparr>;
          status = nvme_check_mdts (z_mdts n) (z_page_size n) (zns_l2b n (ucast nlb))
      in if \<not> z_zoned n then None
      else if status \<noteq> 0 then Some (err_result d req status)
      else zns_write_zone d req False False)"

definition zns_admin_cmd :: "NvmeCmd \<Rightarrow> u16" where
  "zns_admin_cmd cmd = dnr NVME_INVALID_OPCODE"

definition zns_io_cmd :: "zns_dev \<Rightarrow> NvmeRequest \<Rightarrow> (u16 \<times> NvmeRequest \<times> zns_dev) option" where
  "zns_io_cmd d req =
     (let cmd = req_cmd req; op = cmd_opcode cmd; req0 = req\<lparr>req_status := sc NVME_SUCCESS\<rparr>
      in if op = io_opcode NVME_CMD_READ then zns_read d req
         else if op = io_opcode NVME_CMD_WRITE then zns_write d req
         else if op = io_opcode NVME_CMD_ZONE_MGMT_SEND then
           map_option (\<lambda>(status, d). (status, req0, d)) (zns_zone_mgmt_send d cmd)
         else if op = io_opcode NVME_CMD_ZONE_MGMT_RECV then
           map_option (\<lambda>(status, d). (status, req0, d)) (zns_zone_mgmt_recv d cmd)
         else if op = io_opcode NVME_CMD_ZONE_APPEND then zns_zone_append d req
         else Some (dnr NVME_INVALID_OPCODE, req, d))"

subsection \<open>Initialisation and shutdown\<close>

definition NVME_DEFAULT_ZONE_SIZE :: u64 where "NVME_DEFAULT_ZONE_SIZE = 128 * 1024 * 1024"
definition NVME_DEFAULT_MAX_AZ_SIZE :: u32 where "NVME_DEFAULT_MAX_AZ_SIZE = 128 * 1024"

definition zns_init_zone_cap :: "zns \<Rightarrow> zns" where
  "zns_init_zone_cap n =
     n\<lparr>z_zoned := True, zasl_bs := NVME_DEFAULT_MAX_AZ_SIZE, zone_size_bs := NVME_DEFAULT_ZONE_SIZE,
       zone_cap_bs := False, cross_zone_read := False, max_active_zones := 0, max_open_zones := 0,
       zd_extension_size := 0\<rparr>"

text \<open>\<open>zone_cap_bs\<close> is a \<open>bool\<close> in \<open>FemuCtrl\<close>: a nonzero capacity reads back as 1.\<close>

definition zns_init_zone_geometry :: "zns \<Rightarrow> int \<times> zns" where
  "zns_init_zone_geometry n =
     (let lbasz = push_bit (unat (zns_lbads n)) 1 :: u32;
          zsize = (if zone_size_bs n \<noteq> 0 then zone_size_bs n else NVME_DEFAULT_ZONE_SIZE);
          zcap = (if zone_cap_bs n then 1 else zsize)
      in if zsize < zcap then (- 1, n)
         else if zsize < ucast lbasz then (- 1, n)
         else if zcap < ucast lbasz then (- 1, n)
         else
           let zs = zsize div ucast lbasz;
               n = n\<lparr>zone_size := zs, zone_capacity := zcap div ucast lbasz,
                     num_zones := ucast (zns_size n div ucast lbasz div zs)\<rparr>
           in if num_zones n < max_open_zones n then (- 1, n)
              else if num_zones n < max_active_zones n then (- 1, n)
              else if zd_extension_size n \<noteq> 0 \<and> zd_extension_size n AND 0x3f \<noteq> 0 then (- 1, n)
              else if zd_extension_size n \<noteq> 0 \<and> 0xff < drop_bit 6 (zd_extension_size n) then (- 1, n)
              else (0, n))"

definition is_power_of_2 :: "u64 \<Rightarrow> bool" where
  "is_power_of_2 v \<longleftrightarrow> v \<noteq> 0 \<and> v AND (v - 1) = 0"

text \<open>\<open>63 - clz64(v)\<close> for a nonzero \<open>v\<close>: the position of its highest bit.\<close>

definition highest_bit :: "'a::len word \<Rightarrow> nat" where
  "highest_bit v = fold (\<lambda>i acc. if bit v i then i else acc) [0..<LENGTH('a)] 0"

definition zns_init_zone :: "u64 \<Rightarrow> u64 \<Rightarrow> NvmeZone" where
  "zns_init_zone start cap =
     \<lparr>z_d = \<lparr>d_zt = NVME_ZONE_TYPE_SEQ_WRITE, d_zs = push_bit 4 (zone_state_code NVME_ZONE_STATE_EMPTY),
             d_za = 0, d_zcap = cap, d_zslba = start, d_wp = start\<rparr>, w_ptr = start\<rparr>"

primrec zns_init_zones :: "nat \<Rightarrow> u64 \<Rightarrow> u64 \<Rightarrow> u64 \<Rightarrow> u64 \<Rightarrow> NvmeZone list" where
  "zns_init_zones 0 start zsize capacity cap = []"
| "zns_init_zones (Suc k) start zsize capacity cap =
     (let zsize = (if capacity < start + zsize then capacity - start else zsize)
      in zns_init_zone start cap # zns_init_zones k (start + zsize) zsize capacity cap)"

definition zns_init_zoned_state :: "zns \<Rightarrow> zns" where
  "zns_init_zoned_state n =
     n\<lparr>zone_array := zns_init_zones (unat (num_zones n)) 0 (zone_size n) (ucast (num_zones n) * zone_size n)
         (zone_capacity n),
       zd_extensions := (if zd_extension_size n \<noteq> 0
         then replicate (unat (zd_extension_size n * num_zones n)) 0 else zd_extensions n),
       exp_open_zones := [], imp_open_zones := [], closed_zones := [], full_zones := [],
       zone_size_log2 := (if is_power_of_2 (zone_size n) then of_nat (highest_bit (zone_size n)) else 0)\<rparr>"

definition zns_init_zone_identify :: "zns \<Rightarrow> nat \<Rightarrow> zns" where
  "zns_init_zone_identify n0 lba_index =
     (let n = zns_init_zoned_state n0;
          id_ns_z = \<lparr>idz_zoc = 0, idz_ozcs = (if cross_zone_read n then 1 else 0),
            idz_mar = max_active_zones n - 1, idz_mor = max_open_zones n - 1, idz_rrl = 0, idz_frl = 0,
            idz_lbafe = (replicate 16 (0, 0))[lba_index := (zone_size n, ucast (drop_bit 6 (zd_extension_size n)))]\<rparr>;
          nsze = ucast (num_zones n) * zone_size n
      in n\<lparr>z_csi := csi_code NVME_CSI_ZONED, zns_nsze := nsze, zns_ncap := nsze, zns_nuse := nsze,
           zns_nsfeat := (if zone_size n mod (ucast (zns_npdg n) + 1) \<noteq> 0 then zns_nsfeat n AND NOT 4
                          else zns_nsfeat n),
           id_ns_zoned := Some id_ns_z\<rparr>)"

definition zns_start_ctrl :: "zns \<Rightarrow> (int \<times> zns) option" where
  "zns_start_ctrl n =
     (if z_page_size n \<noteq> 4096 then None
      else if zasl_bs n = 0 then Some (0, n\<lparr>zasl := z_mdts n\<rparr>)
      else if zasl_bs n < ucast (z_page_size n) then Some (- 1, n)
      else Some (0, n\<lparr>zasl := of_nat (highest_bit (zasl_bs n div ucast (z_page_size n)))\<rparr>))"

definition zns_init :: "zns \<Rightarrow> zns" where
  "zns_init n =
     (let n = zns_init_zone_cap n
      in case zns_init_zone_geometry n of
           (r, n) \<Rightarrow> if r \<noteq> 0 then n else zns_init_zone_identify n 0)"

definition zns_clear_zone :: "zns \<Rightarrow> nat \<Rightarrow> zns option" where
  "zns_clear_zone n i =
     (let n = upd_zone n i (\<lambda>z. z\<lparr>w_ptr := d_wp (z_d z)\<rparr>);
          z = zone_array n ! i
      in if d_wp (z_d z) \<noteq> d_zslba (z_d z) \<or> d_za (z_d z) AND NVME_ZA_ZD_EXT_VALID \<noteq> 0
         then
           let n = (if zns_get_zone_state z \<noteq> NVME_ZONE_STATE_CLOSED
                    then upd_zone n i (\<lambda>z. zns_set_zone_state z NVME_ZONE_STATE_CLOSED) else n)
           in map_option (\<lambda>n. n\<lparr>closed_zones := i # closed_zones n\<rparr>) (zns_aor_inc_active n)
         else Some (upd_zone n i (\<lambda>z. zns_set_zone_state z NVME_ZONE_STATE_EMPTY)))"

primrec zns_shutdown_closed :: "nat list \<Rightarrow> zns \<Rightarrow> zns option" where
  "zns_shutdown_closed [] n = Some n"
| "zns_shutdown_closed (i # is) n =
     do {
       n \<leftarrow> zns_aor_dec_active (n\<lparr>closed_zones := remove1 i (closed_zones n)\<rparr>);
       n \<leftarrow> zns_clear_zone n i;
       zns_shutdown_closed is n
     }"

primrec zns_shutdown_imp :: "nat list \<Rightarrow> zns \<Rightarrow> zns option" where
  "zns_shutdown_imp [] n = Some n"
| "zns_shutdown_imp (i # is) n =
     do {
       n \<leftarrow> zns_aor_dec_open (n\<lparr>imp_open_zones := remove1 i (imp_open_zones n)\<rparr>);
       n \<leftarrow> zns_aor_dec_active n;
       n \<leftarrow> zns_clear_zone n i;
       zns_shutdown_imp is n
     }"

primrec zns_shutdown_exp :: "nat list \<Rightarrow> zns \<Rightarrow> zns option" where
  "zns_shutdown_exp [] n = Some n"
| "zns_shutdown_exp (i # is) n =
     do {
       n \<leftarrow> zns_aor_dec_open (n\<lparr>exp_open_zones := remove1 i (exp_open_zones n)\<rparr>);
       n \<leftarrow> zns_aor_dec_active n;
       n \<leftarrow> zns_clear_zone n i;
       zns_shutdown_exp is n
     }"

definition zns_zoned_ns_shutdown :: "zns \<Rightarrow> zns option" where
  "zns_zoned_ns_shutdown n =
     do {
       n \<leftarrow> zns_shutdown_closed (closed_zones n) n;
       n \<leftarrow> zns_shutdown_imp (imp_open_zones n) n;
       n \<leftarrow> zns_shutdown_exp (exp_open_zones n) n;
       if nr_open_zones n = 0 then Some n else None
     }"

definition zns_ns_shutdown :: "zns \<Rightarrow> zns option" where
  "zns_ns_shutdown n = (if z_zoned n then zns_zoned_ns_shutdown n else Some n)"

declare read_across.simps [simp del] zns_count_zones.simps [simp del]

end
