(* ===== verification/Zns_Inv.thy ===== *)
theory Zns_Inv
  imports Zns
begin

text \<open>
  The invariant of the zoned namespace (every queue holds exactly the zones of its state, the resource
  counters count the open and active zones and respect their limits, the write pointers stay inside the
  zones) and its preservation by the zone state operations and by \<open>zns_zone_mgmt_send\<close>; the operations
  are handled once in the locale \<open>zone_operation\<close>, which the five operations of the code interpret.
\<close>

subsection \<open>The invariant of the zones\<close>

definition is_open_state :: "NvmeZoneState \<Rightarrow> bool" where
  "is_open_state st \<longleftrightarrow> st = NVME_ZONE_STATE_IMPLICITLY_OPEN \<or> st = NVME_ZONE_STATE_EXPLICITLY_OPEN"

definition is_active_state :: "NvmeZoneState \<Rightarrow> bool" where
  "is_active_state st \<longleftrightarrow> is_open_state st \<or> st = NVME_ZONE_STATE_CLOSED"

definition zone_count :: "zns \<Rightarrow> (NvmeZoneState \<Rightarrow> bool) \<Rightarrow> int" where
  "zone_count n P = int (card {i. i < length (zone_array n) \<and> P (zone_state n i)})"

text \<open>Every queue holds exactly the zones of its state.\<close>

definition queue_ok :: "zns \<Rightarrow> nat list \<Rightarrow> NvmeZoneState \<Rightarrow> bool" where
  "queue_ok n q st \<longleftrightarrow> distinct q \<and> set q = {i. i < length (zone_array n) \<and> zone_state n i = st}"

definition queues_ok :: "zns \<Rightarrow> bool" where
  "queues_ok n \<longleftrightarrow>
     queue_ok n (exp_open_zones n) NVME_ZONE_STATE_EXPLICITLY_OPEN \<and>
     queue_ok n (imp_open_zones n) NVME_ZONE_STATE_IMPLICITLY_OPEN \<and>
     queue_ok n (closed_zones n) NVME_ZONE_STATE_CLOSED \<and>
     queue_ok n (full_zones n) NVME_ZONE_STATE_FULL"

text \<open>The resource counters stand for \<open>opn\<close> open and \<open>act\<close> active zones; a limit of 0 switches a
  counter off.\<close>

definition aor_ok :: "zns \<Rightarrow> int \<Rightarrow> int \<Rightarrow> bool" where
  "aor_ok n opn act \<longleftrightarrow>
     0 \<le> opn \<and> opn \<le> act \<and> uint (max_open_zones n) < 2 ^ 31 \<and> uint (max_active_zones n) < 2 ^ 31 \<and>
     nr_open_zones n = (if max_open_zones n = 0 then 0 else opn) \<and>
     nr_active_zones n = (if max_active_zones n = 0 then 0 else act) \<and>
     (max_open_zones n \<noteq> 0 \<longrightarrow> opn \<le> uint (max_open_zones n)) \<and>
     (max_active_zones n \<noteq> 0 \<longrightarrow> act \<le> uint (max_active_zones n))"

text \<open>The write pointers of a zone in state \<open>st\<close>: \<open>d.wp\<close> counts finished writes, \<open>w_ptr\<close> started
  ones, and both stay inside the writable part of the zone.  An empty zone may have \<open>w_ptr\<close> at its
  end: a write of the whole zone whose data transfer failed leaves it there.\<close>

definition wp_ok :: "NvmeZone \<Rightarrow> NvmeZoneState \<Rightarrow> bool" where
  "wp_ok z st \<longleftrightarrow>
     (let lo = unat (d_zslba (z_d z)); hi = lo + unat (d_zcap (z_d z)); wp = unat (d_wp (z_d z)); w = unat (w_ptr z)
      in hi < 2 ^ 64 \<and> st \<noteq> NVME_ZONE_STATE_RESERVED \<and>
         (st = NVME_ZONE_STATE_EMPTY \<longrightarrow> wp = lo \<and> (w = lo \<or> w = hi)) \<and>
         (is_active_state st \<longrightarrow> lo \<le> wp \<and> wp \<le> w \<and> w \<le> hi) \<and>
         (st = NVME_ZONE_STATE_FULL \<longrightarrow> wp = hi \<and> w = hi))"

definition wps_ok :: "zns \<Rightarrow> bool" where
  "wps_ok n \<longleftrightarrow> (\<forall>i < length (zone_array n). wp_ok (zone_array n ! i) (zone_state n i))"

definition zns_inv :: "zns \<Rightarrow> bool" where
  "zns_inv n \<longleftrightarrow> length (zone_array n) = unat (num_zones n) \<and> queues_ok n \<and> wps_ok n \<and>
     aor_ok n (zone_count n is_open_state) (zone_count n is_active_state)"

subsection \<open>State codes\<close>

lemma zone_state_of_code_code [simp]: "zone_state_of_code (zone_state_code st) = st"
  by (cases st) (simp_all add: zone_state_of_code_def)

lemma drop_push_zone_state [simp]: "drop_bit 4 (push_bit 4 (zone_state_code st)) = zone_state_code st"
  by (cases st) simp_all

lemma get_set_zone_state [simp]: "zns_get_zone_state (zns_set_zone_state z st) = st"
  by (simp add: zns_get_zone_state_def zns_set_zone_state_def)

lemma zns_get_zone_state_upd [simp]:
  "zns_get_zone_state (z\<lparr>w_ptr := w\<rparr>) = zns_get_zone_state z"
  "d_zs (d) = d_zs (z_d z) \<Longrightarrow> zns_get_zone_state (z\<lparr>z_d := d\<rparr>) = zns_get_zone_state z"
  by (simp_all add: zns_get_zone_state_def)

lemma set_zone_state_simps [simp]:
  "w_ptr (zns_set_zone_state z st) = w_ptr z" "d_wp (z_d (zns_set_zone_state z st)) = d_wp (z_d z)"
  "d_zslba (z_d (zns_set_zone_state z st)) = d_zslba (z_d z)"
  "d_zcap (z_d (zns_set_zone_state z st)) = d_zcap (z_d z)"
  by (simp_all add: zns_set_zone_state_def)

lemma is_state_simps [simp]:
  "is_open_state NVME_ZONE_STATE_IMPLICITLY_OPEN" "is_open_state NVME_ZONE_STATE_EXPLICITLY_OPEN"
  "\<not> is_open_state NVME_ZONE_STATE_EMPTY" "\<not> is_open_state NVME_ZONE_STATE_CLOSED"
  "\<not> is_open_state NVME_ZONE_STATE_FULL" "\<not> is_open_state NVME_ZONE_STATE_READ_ONLY"
  "\<not> is_open_state NVME_ZONE_STATE_OFFLINE" "is_active_state NVME_ZONE_STATE_CLOSED"
  "is_open_state st \<Longrightarrow> is_active_state st"
  "\<not> is_active_state NVME_ZONE_STATE_EMPTY" "\<not> is_active_state NVME_ZONE_STATE_FULL"
  "\<not> is_active_state NVME_ZONE_STATE_READ_ONLY" "\<not> is_active_state NVME_ZONE_STATE_OFFLINE"
  by (auto simp: is_active_state_def is_open_state_def)

subsection \<open>The counters\<close>

lemma word_of_int_le_limit:
  assumes "0 \<le> k" "k < 2 ^ 32"
  shows "(word_of_int k :: u32) \<le> m \<longleftrightarrow> k \<le> uint m" "m < (word_of_int k :: u32) \<longleftrightarrow> uint m < k"
  using assms by (simp_all add: word_le_def word_less_def uint_word_of_int)

lemma aor_inc_open:
  assumes "aor_ok n opn act" "max_open_zones n \<noteq> 0 \<longrightarrow> opn + 1 \<le> uint (max_open_zones n)" "opn + 1 \<le> act"
  shows "\<exists>k. zns_aor_inc_open n = Some (n\<lparr>nr_open_zones := k\<rparr>) \<and> aor_ok (n\<lparr>nr_open_zones := k\<rparr>) (opn + 1) act"
proof (cases "max_open_zones n = 0")
  case True
  then show ?thesis using assms
    by (intro exI [of _ "nr_open_zones n"]) (auto simp: zns_aor_inc_open_def aor_ok_def)
next
  case False
  then have "(word_of_int (opn + 1) :: u32) \<le> max_open_zones n"
    using assms by (subst word_of_int_le_limit) (auto simp: aor_ok_def)
  then show ?thesis using assms False
    by (intro exI [of _ "opn + 1"]) (auto simp: zns_aor_inc_open_def aor_ok_def Let_def)
qed

lemma aor_inc_active:
  assumes "aor_ok n opn act" "max_active_zones n \<noteq> 0 \<longrightarrow> act + 1 \<le> uint (max_active_zones n)"
  shows "\<exists>k. zns_aor_inc_active n = Some (n\<lparr>nr_active_zones := k\<rparr>) \<and>
             aor_ok (n\<lparr>nr_active_zones := k\<rparr>) opn (act + 1)"
proof (cases "max_active_zones n = 0")
  case True
  then show ?thesis using assms
    by (intro exI [of _ "nr_active_zones n"]) (auto simp: zns_aor_inc_active_def aor_ok_def)
next
  case False
  then have "(word_of_int (act + 1) :: u32) \<le> max_active_zones n"
    using assms by (subst word_of_int_le_limit) (auto simp: aor_ok_def)
  then show ?thesis using assms False
    by (intro exI [of _ "act + 1"]) (auto simp: zns_aor_inc_active_def aor_ok_def Let_def)
qed

lemma aor_dec_open:
  assumes "aor_ok n opn act" "1 \<le> opn"
  shows "\<exists>k. zns_aor_dec_open n = Some (n\<lparr>nr_open_zones := k\<rparr>) \<and> aor_ok (n\<lparr>nr_open_zones := k\<rparr>) (opn - 1) act"
  using assms
  by (intro exI [of _ "if max_open_zones n = 0 then nr_open_zones n else opn - 1"])
     (auto simp: zns_aor_dec_open_def aor_ok_def)

lemma aor_dec_active:
  assumes "aor_ok n opn act" "opn \<le> act - 1"
  shows "\<exists>k. zns_aor_dec_active n = Some (n\<lparr>nr_active_zones := k\<rparr>) \<and>
             aor_ok (n\<lparr>nr_active_zones := k\<rparr>) opn (act - 1)"
  using assms
  by (intro exI [of _ "if max_active_zones n = 0 then nr_active_zones n else act - 1"])
     (auto simp: zns_aor_dec_active_def aor_ok_def)

lemma aor_check_ok:
  assumes ok: "aor_ok n opn act" and b: "a \<in> {0, 1}" "b \<in> {0, 1}"
    and z: "zns_aor_check n a b = sc NVME_SUCCESS"
  shows "max_active_zones n \<noteq> 0 \<longrightarrow> act + uint a \<le> uint (max_active_zones n)"
    "max_open_zones n \<noteq> 0 \<longrightarrow> opn + uint b \<le> uint (max_open_zones n)"
proof -
  have add: "word_of_int k + a = (word_of_int (k + uint a) :: u32)" for k a by simp
  have na: "max_active_zones n \<noteq> 0 \<longrightarrow> \<not> max_active_zones n < word_of_int (nr_active_zones n) + a"
    and no: "max_open_zones n \<noteq> 0 \<longrightarrow> \<not> max_open_zones n < word_of_int (nr_open_zones n) + b"
    using z by (auto simp: zns_aor_check_def split: if_splits)
  have r: "0 \<le> uint a" "uint a \<le> 1" "0 \<le> uint b" "uint b \<le> 1" using b by auto
  show "max_active_zones n \<noteq> 0 \<longrightarrow> act + uint a \<le> uint (max_active_zones n)"
    using na ok r unfolding add by (subst (asm) word_of_int_le_limit(2)) (auto simp: aor_ok_def)
  show "max_open_zones n \<noteq> 0 \<longrightarrow> opn + uint b \<le> uint (max_open_zones n)"
    using no ok r unfolding add by (subst (asm) word_of_int_le_limit(2)) (auto simp: aor_ok_def)
qed

subsection \<open>Assigning a state keeps the queues\<close>

lemma zone_state_counters [simp]:
  "zone_state (n\<lparr>nr_open_zones := k\<rparr>) = zone_state n" "zone_state (n\<lparr>nr_active_zones := k\<rparr>) = zone_state n"
  by (simp_all add: zone_state_def fun_eq_iff)

lemma counters_irrelevant [simp]:
  "queues_ok (n\<lparr>nr_open_zones := k\<rparr>) = queues_ok n" "queues_ok (n\<lparr>nr_active_zones := k\<rparr>) = queues_ok n"
  "wps_ok (n\<lparr>nr_open_zones := k\<rparr>) = wps_ok n" "wps_ok (n\<lparr>nr_active_zones := k\<rparr>) = wps_ok n"
  "zone_count (n\<lparr>nr_open_zones := k\<rparr>) = zone_count n" "zone_count (n\<lparr>nr_active_zones := k\<rparr>) = zone_count n"
  by (simp_all add: queues_ok_def queue_ok_def wps_ok_def zone_count_def fun_eq_iff)

lemma upd_zone_simps [simp]:
  "length (zone_array (upd_zone n i f)) = length (zone_array n)"
  "exp_open_zones (upd_zone n i f) = exp_open_zones n" "imp_open_zones (upd_zone n i f) = imp_open_zones n"
  "closed_zones (upd_zone n i f) = closed_zones n" "full_zones (upd_zone n i f) = full_zones n"
  "num_zones (upd_zone n i f) = num_zones n" "nr_open_zones (upd_zone n i f) = nr_open_zones n"
  "nr_active_zones (upd_zone n i f) = nr_active_zones n" "max_open_zones (upd_zone n i f) = max_open_zones n"
  "max_active_zones (upd_zone n i f) = max_active_zones n"
  by (simp_all add: upd_zone_def)

lemma nth_upd_zone:
  "zone_array (upd_zone n i f) ! j =
   (if j = i \<and> i < length (zone_array n) then f (zone_array n ! i) else zone_array n ! j)"
  by (auto simp: upd_zone_def nth_list_update_total)

lemma aor_ok_upd_zone [simp]: "aor_ok (upd_zone n i f) opn act = aor_ok n opn act"
  by (simp add: aor_ok_def)

text \<open>An update that keeps the state of the zone.\<close>

lemma upd_zone_same_state:
  assumes "\<And>z. zns_get_zone_state (f z) = zns_get_zone_state z"
  shows "zone_state (upd_zone n i f) = zone_state n" "queues_ok (upd_zone n i f) = queues_ok n"
    "zone_count (upd_zone n i f) = zone_count n"
proof -
  show s: "zone_state (upd_zone n i f) = zone_state n"
    using assms by (auto simp: zone_state_def nth_upd_zone fun_eq_iff)
  then show "queues_ok (upd_zone n i f) = queues_ok n" "zone_count (upd_zone n i f) = zone_count n"
    by (simp_all add: queues_ok_def queue_ok_def zone_count_def fun_eq_iff)
qed

lemma assign_fields [simp]:
  "length (zone_array (zns_assign_zone_state n i st)) = length (zone_array n)"
  "num_zones (zns_assign_zone_state n i st) = num_zones n"
  "nr_open_zones (zns_assign_zone_state n i st) = nr_open_zones n"
  "nr_active_zones (zns_assign_zone_state n i st) = nr_active_zones n"
  "max_open_zones (zns_assign_zone_state n i st) = max_open_zones n"
  "max_active_zones (zns_assign_zone_state n i st) = max_active_zones n"
  by (auto simp: zns_assign_zone_state_def Let_def upd_zone_def split: NvmeZoneState.split)

lemma aor_ok_assign [simp]: "aor_ok (zns_assign_zone_state n i st) opn act = aor_ok n opn act"
  by (simp add: aor_ok_def)

lemma zone_array_assign_eq:
  assumes "i < length (zone_array n)"
  shows "\<exists>za. zone_array (zns_assign_zone_state n i st) =
    (zone_array n)[i := (let z = zns_set_zone_state (zone_array n ! i) st in z\<lparr>z_d := (z_d z)\<lparr>d_za := za\<rparr>\<rparr>)]"
proof -
  have id: "z\<lparr>z_d := (z_d z)\<lparr>d_za := d_za (z_d z)\<rparr>\<rparr> = z" for z by simp
  show ?thesis
    using assms
    by (intro exI [of _ "if st \<in> {NVME_ZONE_STATE_EXPLICITLY_OPEN, NVME_ZONE_STATE_IMPLICITLY_OPEN,
            NVME_ZONE_STATE_CLOSED, NVME_ZONE_STATE_FULL, NVME_ZONE_STATE_READ_ONLY}
          then d_za (z_d (zns_set_zone_state (zone_array n ! i) st)) else 0"])
      (auto simp: zns_assign_zone_state_def Let_def upd_zone_def split: NvmeZoneState.split)
qed

lemma zone_array_assign:
  assumes "i < length (zone_array n)"
  shows "zone_state (zns_assign_zone_state n i st) j = (if j = i then st else zone_state n j)"
    and "wp_ok (zone_array (zns_assign_zone_state n i st) ! j) st' = wp_ok (zone_array n ! j) st'"
proof -
  obtain za where eq: "zone_array (zns_assign_zone_state n i st) =
    (zone_array n)[i := (let z = zns_set_zone_state (zone_array n ! i) st in z\<lparr>z_d := (z_d z)\<lparr>d_za := za\<rparr>\<rparr>)]"
    using zone_array_assign_eq [OF assms] by blast
  show "zone_state (zns_assign_zone_state n i st) j = (if j = i then st else zone_state n j)"
    "wp_ok (zone_array (zns_assign_zone_state n i st) ! j) st' = wp_ok (zone_array n ! j) st'"
    using assms by (simp_all add: zone_state_def eq nth_list_update_if Let_def wp_ok_def)
qed

lemma card_update_state:
  fixes N :: nat
  assumes "i < N" "\<And>j. g j = (if j = i then st else f j)"
  shows "int (card {j. j < N \<and> P (g j)}) =
    int (card {j. j < N \<and> P (f j)}) - (if P (f i) then 1 else 0) + (if P st then 1 else 0)"
proof -
  let ?R = "{j. j < N \<and> j \<noteq> i \<and> P (f j)}"
  have "{j. j < N \<and> P (g j)} = (if P st then insert i ?R else ?R)"
    "{j. j < N \<and> P (f j)} = (if P (f i) then insert i ?R else ?R)"
    using assms by auto
  then show ?thesis by auto
qed

lemma zone_count_assign:
  assumes "i < length (zone_array n)"
  shows "zone_count (zns_assign_zone_state n i st) P =
    zone_count n P - (if P (zone_state n i) then 1 else 0) + (if P st then 1 else 0)"
  unfolding zone_count_def assign_fields
  by (rule card_update_state [OF assms zone_array_assign(1) [OF assms]])

lemma queues_ok_assign:
  assumes q: "queues_ok n" and i: "i < length (zone_array n)"
  shows "queues_ok (zns_assign_zone_state n i st)"
proof -
  have use: "zone_in_use n i \<longleftrightarrow> zone_state n i \<in> {NVME_ZONE_STATE_EXPLICITLY_OPEN,
      NVME_ZONE_STATE_IMPLICITLY_OPEN, NVME_ZONE_STATE_CLOSED, NVME_ZONE_STATE_FULL}"
    using q i by (auto simp: zone_in_use_def queues_ok_def queue_ok_def)
  let ?n = "zns_assign_zone_state n i st"
  have lists:
    "exp_open_zones ?n = (if zone_state n i = NVME_ZONE_STATE_EXPLICITLY_OPEN then remove1 i (exp_open_zones n)
        else exp_open_zones n) @ (if st = NVME_ZONE_STATE_EXPLICITLY_OPEN then [i] else [])"
    "imp_open_zones ?n = (if zone_state n i = NVME_ZONE_STATE_IMPLICITLY_OPEN then remove1 i (imp_open_zones n)
        else imp_open_zones n) @ (if st = NVME_ZONE_STATE_IMPLICITLY_OPEN then [i] else [])"
    "closed_zones ?n = (if zone_state n i = NVME_ZONE_STATE_CLOSED then remove1 i (closed_zones n)
        else closed_zones n) @ (if st = NVME_ZONE_STATE_CLOSED then [i] else [])"
    "full_zones ?n = (if zone_state n i = NVME_ZONE_STATE_FULL then remove1 i (full_zones n)
        else full_zones n) @ (if st = NVME_ZONE_STATE_FULL then [i] else [])"
    using use by (auto simp: zns_assign_zone_state_def Let_def upd_zone_def split: NvmeZoneState.split)
  have step: "queue_ok ?n ((if zone_state n i = s then remove1 i q else q) @ (if st = s then [i] else [])) s"
    if "queue_ok n q s" for q s
    using that i by (auto simp: queue_ok_def zone_array_assign)
  show ?thesis
    unfolding queues_ok_def lists using q [unfolded queues_ok_def] step by blast
qed

lemma wps_ok_assign:
  assumes "wps_ok n" "i < length (zone_array n)" "wp_ok (zone_array n ! i) st"
  shows "wps_ok (zns_assign_zone_state n i st)"
  using assms by (auto simp: wps_ok_def zone_array_assign)

text \<open>The one rule behind every operation: the counters have been moved ahead of the state.\<close>

lemma zns_inv_assign:
  assumes "length (zone_array n) = unat (num_zones n)" "queues_ok n" "i < length (zone_array n)"
    and "\<And>j. j < length (zone_array n) \<Longrightarrow> j \<noteq> i \<Longrightarrow> wp_ok (zone_array n ! j) (zone_state n j)"
    and "wp_ok (zone_array n ! i) st"
    and "aor_ok n
      (zone_count n is_open_state - (if is_open_state (zone_state n i) then 1 else 0) + (if is_open_state st then 1 else 0))
      (zone_count n is_active_state - (if is_active_state (zone_state n i) then 1 else 0) + (if is_active_state st then 1 else 0))"
  shows "zns_inv (zns_assign_zone_state n i st)"
  using assms queues_ok_assign [of n i st]
  by (auto simp: zns_inv_def wps_ok_def zone_array_assign zone_count_assign)

lemma zone_count_pos:
  assumes "i < length (zone_array n)" "P (zone_state n i)"
  shows "1 \<le> zone_count n P"
proof -
  have "{i. i < length (zone_array n) \<and> P (zone_state n i)} \<noteq> {}" using assms by auto
  then show ?thesis by (simp add: zone_count_def Suc_le_eq card_gt_0_iff flip: of_nat_Suc)
qed

lemma zone_count_closed:
  assumes "i < length (zone_array n)" "zone_state n i = NVME_ZONE_STATE_CLOSED"
  shows "zone_count n is_open_state \<le> zone_count n is_active_state - 1"
proof -
  let ?O = "{i. i < length (zone_array n) \<and> is_open_state (zone_state n i)}"
  let ?A = "{i. i < length (zone_array n) \<and> is_active_state (zone_state n i)}"
  have "?O \<subseteq> ?A" by auto
  moreover have "i \<in> ?A" "i \<notin> ?O" using assms by simp_all
  ultimately have "?O \<subset> ?A" by blast
  then have "card {i. i < length (zone_array n) \<and> is_open_state (zone_state n i)}
    < card {i. i < length (zone_array n) \<and> is_active_state (zone_state n i)}"
    by (intro psubset_card_mono) auto
  then show ?thesis by (simp add: zone_count_def)
qed

lemma zns_invD:
  assumes "zns_inv n"
  shows "length (zone_array n) = unat (num_zones n)" "queues_ok n" "wps_ok n"
    "aor_ok n (zone_count n is_open_state) (zone_count n is_active_state)"
    "\<And>i. i < length (zone_array n) \<Longrightarrow> wp_ok (zone_array n ! i) (zone_state n i)"
  using assms by (auto simp: zns_inv_def wps_ok_def)

lemma wp_ok_mono:
  assumes "wp_ok z st"
  shows "is_active_state st \<Longrightarrow> is_active_state st' \<Longrightarrow> wp_ok z st'"
    "st = NVME_ZONE_STATE_EMPTY \<Longrightarrow> is_active_state st' \<Longrightarrow> wp_ok z st'"
    "st' = NVME_ZONE_STATE_OFFLINE \<or> st' = NVME_ZONE_STATE_READ_ONLY \<Longrightarrow> wp_ok z st'"
  using assms
  by (auto simp: wp_ok_def Let_def is_active_state_def is_open_state_def)

text \<open>The shared shape of the operations: move the counters, then assign the state.\<close>

lemma open_to_full_aor:
  assumes inv: "zns_inv n" and i: "i < length (zone_array n)" and st: "is_open_state (zone_state n i)"
  shows "\<exists>k k'. zns_aor_dec_open n = Some (n\<lparr>nr_open_zones := k\<rparr>) \<and>
    zns_aor_dec_active (n\<lparr>nr_open_zones := k\<rparr>) = Some (n\<lparr>nr_open_zones := k, nr_active_zones := k'\<rparr>) \<and>
    aor_ok (n\<lparr>nr_open_zones := k\<rparr>) (zone_count n is_open_state - 1) (zone_count n is_active_state) \<and>
    aor_ok (n\<lparr>nr_open_zones := k, nr_active_zones := k'\<rparr>)
      (zone_count n is_open_state - 1) (zone_count n is_active_state - 1)"
proof -
  note D = zns_invD [OF inv]
  obtain k where k: "zns_aor_dec_open n = Some (n\<lparr>nr_open_zones := k\<rparr>)"
    "aor_ok (n\<lparr>nr_open_zones := k\<rparr>) (zone_count n is_open_state - 1) (zone_count n is_active_state)"
    using aor_dec_open [OF D(4) zone_count_pos [where P = is_open_state, OF i st]] by blast
  have "zone_count n is_open_state - 1 \<le> zone_count n is_active_state - 1"
    using D(4) by (simp add: aor_ok_def)
  then show ?thesis using k aor_dec_active [OF k(2)] by blast
qed

lemma zns_open_zone_inv:
  assumes inv: "zns_inv n" and i: "i < length (zone_array n)"
  shows "\<exists>status n'. zns_open_zone n i (zone_state n i) = Some (status, n') \<and> zns_inv n'"
proof -
  note D = zns_invD [OF inv]
  let ?o = "zone_count n is_open_state" and ?a = "zone_count n is_active_state"
  note wp = wp_ok_mono [OF D(5) [OF i]]
  have assign: "zns_inv (zns_assign_zone_state m i NVME_ZONE_STATE_EXPLICITLY_OPEN)"
    if "m = n\<lparr>nr_open_zones := k, nr_active_zones := k'\<rparr>" 
      "aor_ok m (?o + (if is_open_state (zone_state n i) then 0 else 1))
         (?a + (if is_active_state (zone_state n i) then 0 else 1))"
      "is_active_state (zone_state n i) \<or> zone_state n i = NVME_ZONE_STATE_EMPTY" for m k k'
    unfolding that(1)
    by (rule zns_inv_assign) (use that i D wp in \<open>auto split: if_splits\<close>)
  show ?thesis
  proof (cases "zone_state n i")
    case NVME_ZONE_STATE_EMPTY
    show ?thesis
    proof (cases "zns_aor_check n 1 0 = sc NVME_SUCCESS")
      case True
      then have lim: "max_active_zones n \<noteq> 0 \<longrightarrow> ?a + 1 \<le> uint (max_active_zones n)"
        using aor_check_ok(1) [OF D(4) _ _ True] by simp
      obtain k' where k': "zns_aor_inc_active n = Some (n\<lparr>nr_active_zones := k'\<rparr>)"
        "aor_ok (n\<lparr>nr_active_zones := k'\<rparr>) ?o (?a + 1)"
        using aor_inc_active [OF D(4) lim] by blast
      let ?n = "n\<lparr>nr_active_zones := k'\<rparr>"
      show ?thesis
      proof (cases "zns_aor_check ?n 0 1 = sc NVME_SUCCESS")
        case ok: True
        have "max_open_zones ?n \<noteq> 0 \<longrightarrow> ?o + 1 \<le> uint (max_open_zones ?n)"
          using aor_check_ok(2) [OF k'(2) _ _ ok] by simp
        moreover have "?o + 1 \<le> ?a + 1" using D(4) by (simp add: aor_ok_def)
        ultimately obtain k where k: "zns_aor_inc_open ?n = Some (?n\<lparr>nr_open_zones := k\<rparr>)"
          "aor_ok (?n\<lparr>nr_open_zones := k\<rparr>) (?o + 1) (?a + 1)"
          using aor_inc_open [OF k'(2)] by blast
        have "zns_inv (zns_assign_zone_state (?n\<lparr>nr_open_zones := k\<rparr>) i NVME_ZONE_STATE_EXPLICITLY_OPEN)"
          by (rule assign [where k = k and k' = k']) (use k(2) NVME_ZONE_STATE_EMPTY in simp_all)
        then show ?thesis
          by (simp add: zns_open_zone_def NVME_ZONE_STATE_EMPTY True k'(1) ok k(1))
      next
        case False
        have "?o \<le> ?a + 1 - 1" using D(4) by (simp add: aor_ok_def)
        then obtain k where k: "zns_aor_dec_active ?n = Some (?n\<lparr>nr_active_zones := k\<rparr>)"
          "aor_ok (?n\<lparr>nr_active_zones := k\<rparr>) ?o ?a"
          using aor_dec_active [OF k'(2)] by auto
        then show ?thesis
          using False inv by (simp add: zns_open_zone_def zns_inv_def NVME_ZONE_STATE_EMPTY True k'(1))
      qed
    qed (use NVME_ZONE_STATE_EMPTY inv in \<open>simp add: zns_open_zone_def\<close>)
  next
    case NVME_ZONE_STATE_CLOSED
    show ?thesis
    proof (cases "zns_aor_check n 0 1 = sc NVME_SUCCESS")
      case ok: True
      have "max_open_zones n \<noteq> 0 \<longrightarrow> ?o + 1 \<le> uint (max_open_zones n)"
        using aor_check_ok(2) [OF D(4) _ _ ok] by simp
      moreover have "?o + 1 \<le> ?a" using zone_count_closed [OF i NVME_ZONE_STATE_CLOSED] by simp
      ultimately obtain k where k: "zns_aor_inc_open n = Some (n\<lparr>nr_open_zones := k\<rparr>)"
        "aor_ok (n\<lparr>nr_open_zones := k\<rparr>) (?o + 1) ?a"
        using aor_inc_open [OF D(4)] by blast
      have "zns_inv (zns_assign_zone_state (n\<lparr>nr_open_zones := k\<rparr>) i NVME_ZONE_STATE_EXPLICITLY_OPEN)"
        by (rule assign [where k = k and k' = "nr_active_zones n"]) (use k(2) NVME_ZONE_STATE_CLOSED in simp_all)
      then show ?thesis
        by (simp add: zns_open_zone_def NVME_ZONE_STATE_CLOSED ok k(1))
    qed (use NVME_ZONE_STATE_CLOSED inv in \<open>simp add: zns_open_zone_def\<close>)
  next
    case NVME_ZONE_STATE_IMPLICITLY_OPEN
    then have "zns_inv (zns_assign_zone_state n i NVME_ZONE_STATE_EXPLICITLY_OPEN)"
      by (intro assign [where k = "nr_open_zones n" and k' = "nr_active_zones n"]) (use D(4) in simp_all)
    then show ?thesis by (simp add: zns_open_zone_def NVME_ZONE_STATE_IMPLICITLY_OPEN)
  qed (use inv in \<open>simp_all add: zns_open_zone_def\<close>)
qed

lemma zns_inv_upd_assign:
  assumes inv: "zns_inv n" and i: "i < length (zone_array n)"
    and m: "m = n\<lparr>nr_open_zones := k, nr_active_zones := k'\<rparr>"
    and same: "\<And>z. zns_get_zone_state (f z) = zns_get_zone_state z"
    and wp: "wp_ok (f (zone_array n ! i)) st"
    and aor: "aor_ok m
      (zone_count n is_open_state - (if is_open_state (zone_state n i) then 1 else 0) + (if is_open_state st then 1 else 0))
      (zone_count n is_active_state - (if is_active_state (zone_state n i) then 1 else 0) + (if is_active_state st then 1 else 0))"
  shows "zns_inv (zns_assign_zone_state (upd_zone m i f) i st)"
proof -
  note D = zns_invD [OF inv] and U = upd_zone_same_state [of f, OF same]
  show ?thesis
  proof (rule zns_inv_assign)
    show "queues_ok (upd_zone m i f)" using D(2) by (simp add: U m)
    show "wp_ok (zone_array (upd_zone m i f) ! i) st" using i wp by (simp add: nth_upd_zone m)
    show "wp_ok (zone_array (upd_zone m i f) ! j) (zone_state (upd_zone m i f) j)"
      if "j < length (zone_array (upd_zone m i f))" "j \<noteq> i" for j
      using that D(5) by (simp add: U m nth_upd_zone)
  qed (use D(1) i aor in \<open>simp_all add: U m\<close>)
qed

lemma get_state_wps [simp]:
  "zns_get_zone_state (z\<lparr>w_ptr := w, z_d := (z_d z)\<lparr>d_wp := v\<rparr>\<rparr>) = zns_get_zone_state z"
  "zns_get_zone_state (z\<lparr>z_d := (z_d z)\<lparr>d_wp := v\<rparr>\<rparr>) = zns_get_zone_state z"
  "zns_get_zone_state (z\<lparr>z_d := (z_d z)\<lparr>d_za := a\<rparr>\<rparr>) = zns_get_zone_state z"
  by (simp_all add: zns_get_zone_state_def)

lemma unat_wr_boundary: "wp_ok z st \<Longrightarrow> unat (zns_zone_wr_boundary z) = unat (d_zslba (z_d z)) + unat (d_zcap (z_d z))"
  by (simp add: wp_ok_def Let_def zns_zone_wr_boundary_def unat_word_ariths)

lemma upd_zone_id [simp]: "upd_zone n i (\<lambda>z. z) = n"
  by (simp add: upd_zone_def)

lemma zns_close_zone_inv:
  assumes inv: "zns_inv n" and i: "i < length (zone_array n)"
  shows "\<exists>status n'. zns_close_zone n i (zone_state n i) = Some (status, n') \<and> zns_inv n'"
proof (cases "is_open_state (zone_state n i)")
  case True
  obtain k where k: "zns_aor_dec_open n = Some (n\<lparr>nr_open_zones := k\<rparr>)"
    "aor_ok (n\<lparr>nr_open_zones := k\<rparr>) (zone_count n is_open_state - 1) (zone_count n is_active_state)"
    using open_to_full_aor [OF inv i True] by blast
  have "zns_inv (zns_assign_zone_state (upd_zone (n\<lparr>nr_open_zones := k\<rparr>) i (\<lambda>z. z)) i NVME_ZONE_STATE_CLOSED)"
    by (rule zns_inv_upd_assign [where k = k and k' = "nr_active_zones n", OF inv i])
      (use k(2) True wp_ok_mono(1) [OF zns_invD(5) [OF inv i]] in simp_all)
  then show ?thesis
    using True by (auto simp: zns_close_zone_def is_open_state_def k(1))
next
  case False
  then show ?thesis
    using inv by (cases "zone_state n i") (auto simp: zns_close_zone_def)
qed

text \<open>Finishing and resetting: the active zone gives up its resources, then both write pointers move
  to the end, or to the start, of the zone.\<close>

lemma release_assign_inv:
  assumes inv: "zns_inv n" and i: "i < length (zone_array n)"
    and st: "\<not> is_active_state st" "wp_ok (wps_to f (zone_array n ! i)) st"
    and g: "\<And>n. g n = Some (h (zns_assign_zone_state (set_wps n i f) i st))"
  shows "is_open_state (zone_state n i) \<Longrightarrow>
      \<exists>n'. zns_aor_dec_open n \<bind> zns_aor_dec_active \<bind> g = Some (h n') \<and> zns_inv n'"
    and "zone_state n i = NVME_ZONE_STATE_CLOSED \<Longrightarrow> \<exists>n'. zns_aor_dec_active n \<bind> g = Some (h n') \<and> zns_inv n'"
    and "\<not> is_active_state (zone_state n i) \<Longrightarrow> \<exists>n'. g n = Some (h n') \<and> zns_inv n'"
proof -
  note D = zns_invD [OF inv]
  have not_open: "\<not> is_open_state st" using st(1) by auto
  have same: "zns_get_zone_state (wps_to f z) = zns_get_zone_state z" for z by (simp add: wps_to_def)
  note step = zns_inv_upd_assign [OF inv i _ same st(2)]
  {
    assume o: "is_open_state (zone_state n i)"
    obtain k k' where k: "zns_aor_dec_open n = Some (n\<lparr>nr_open_zones := k\<rparr>)"
      "zns_aor_dec_active (n\<lparr>nr_open_zones := k\<rparr>) = Some (n\<lparr>nr_open_zones := k, nr_active_zones := k'\<rparr>)"
      "aor_ok (n\<lparr>nr_open_zones := k, nr_active_zones := k'\<rparr>)
        (zone_count n is_open_state - 1) (zone_count n is_active_state - 1)"
      using open_to_full_aor [OF inv i o] by blast
    show "\<exists>n'. zns_aor_dec_open n \<bind> zns_aor_dec_active \<bind> g = Some (h n') \<and> zns_inv n'"
      using step [OF refl, where k = k and k' = k'] k st not_open o by (auto simp: g set_wps_def)
  next
    assume c: "zone_state n i = NVME_ZONE_STATE_CLOSED"
    obtain k where k: "zns_aor_dec_active n = Some (n\<lparr>nr_active_zones := k\<rparr>)"
      "aor_ok (n\<lparr>nr_active_zones := k\<rparr>) (zone_count n is_open_state) (zone_count n is_active_state - 1)"
      using aor_dec_active [OF D(4) zone_count_closed [OF i c]] by blast
    have "n\<lparr>nr_active_zones := k\<rparr> = n\<lparr>nr_open_zones := nr_open_zones n, nr_active_zones := k\<rparr>" by simp
    from step [OF this]
    show "\<exists>n'. zns_aor_dec_active n \<bind> g = Some (h n') \<and> zns_inv n'"
      using k st not_open c by (auto simp: g set_wps_def)
  next
    assume e: "\<not> is_active_state (zone_state n i)"
    then have no: "\<not> is_open_state (zone_state n i)" by auto
    have "n = n\<lparr>nr_open_zones := nr_open_zones n, nr_active_zones := nr_active_zones n\<rparr>" by simp
    from step [OF this]
    show "\<exists>n'. g n = Some (h n') \<and> zns_inv n'"
      using D(4) st not_open e no by (auto simp: g set_wps_def)
  }
qed

lemma zns_finish_zone_inv:
  assumes inv: "zns_inv n" and i: "i < length (zone_array n)"
  shows "\<exists>status n'. zns_finish_zone n i (zone_state n i) = Some (status, n') \<and> zns_inv n'"
proof -
  have "wp_ok (wps_to zns_zone_wr_boundary (zone_array n ! i)) NVME_ZONE_STATE_FULL"
    using zns_invD(5) [OF inv i] unat_wr_boundary [OF zns_invD(5) [OF inv i]]
    by (simp add: wp_ok_def Let_def wps_to_def)
  note R = release_assign_inv [OF inv i _ this refl, where h = "\<lambda>n. (sc NVME_SUCCESS, n)"]
  show ?thesis
    using R inv by (cases "zone_state n i") (auto simp: zns_finish_zone_def Let_def)
qed

lemma zns_reset_zone_inv:
  assumes inv: "zns_inv n" and i: "i < length (zone_array n)"
  shows "\<exists>status n'. zns_reset_zone n i (zone_state n i) = Some (status, n') \<and> zns_inv n'"
proof -
  have "wp_ok (wps_to (\<lambda>z. d_zslba (z_d z)) (zone_array n ! i)) NVME_ZONE_STATE_EMPTY"
    using zns_invD(5) [OF inv i] by (simp add: wp_ok_def Let_def wps_to_def)
  note R = release_assign_inv [OF inv i _ this refl, where h = "\<lambda>n. n"]
  show ?thesis
    using R inv
    by (cases "zone_state n i") (auto simp: zns_reset_zone_def zns_aio_zone_reset_cb_def Let_def)
qed

lemma zns_offline_zone_inv:
  assumes inv: "zns_inv n" and i: "i < length (zone_array n)"
  shows "\<exists>status n'. zns_offline_zone n i (zone_state n i) = Some (status, n') \<and> zns_inv n'"
proof (cases "zone_state n i = NVME_ZONE_STATE_READ_ONLY")
  case True
  have "zns_inv (zns_assign_zone_state (upd_zone n i (\<lambda>z. z)) i NVME_ZONE_STATE_OFFLINE)"
    by (rule zns_inv_upd_assign [where k = "nr_open_zones n" and k' = "nr_active_zones n", OF inv i])
      (use True zns_invD(4) [OF inv] wp_ok_mono(3) [OF zns_invD(5) [OF inv i]] in simp_all)
  then show ?thesis using True by (simp add: zns_offline_zone_def)
next
  case False
  then show ?thesis using inv by (cases "zone_state n i") (simp_all add: zns_offline_zone_def)
qed

subsection \<open>What the operations leave alone\<close>

text \<open>The part of the state no zone operation writes: configuration, and for each zone its start and
  capacity.\<close>

definition static :: "zns \<Rightarrow> zns" where
  "static n = n\<lparr>zone_array := map (\<lambda>z. zns_init_zone (d_zslba (z_d z)) (d_zcap (z_d z))) (zone_array n),
     exp_open_zones := [], imp_open_zones := [], closed_zones := [], full_zones := [],
     nr_open_zones := 0, nr_active_zones := 0\<rparr>"

lemma static_fields:
  assumes "static n' = static n"
  shows "num_zones n' = num_zones n" "zns_nsze n' = zns_nsze n" "zone_size n' = zone_size n"
    "length (zone_array n') = length (zone_array n)" "max_open_zones n' = max_open_zones n"
    "max_active_zones n' = max_active_zones n" "zone_size_log2 n' = zone_size_log2 n"
proof -
  show "num_zones n' = num_zones n" using arg_cong [OF assms, of num_zones] by (simp add: static_def)
  show "zns_nsze n' = zns_nsze n" using arg_cong [OF assms, of zns_nsze] by (simp add: static_def)
  show "zone_size n' = zone_size n" using arg_cong [OF assms, of zone_size] by (simp add: static_def)
  show "length (zone_array n') = length (zone_array n)"
    using arg_cong [OF assms, of "\<lambda>n. length (zone_array n)"] by (simp add: static_def)
  show "max_open_zones n' = max_open_zones n"
    using arg_cong [OF assms, of max_open_zones] by (simp add: static_def)
  show "max_active_zones n' = max_active_zones n"
    using arg_cong [OF assms, of max_active_zones] by (simp add: static_def)
  show "zone_size_log2 n' = zone_size_log2 n"
    using arg_cong [OF assms, of zone_size_log2] by (simp add: static_def)
qed

lemma static_zone_idx:
  assumes "static n' = static n"
  shows "zns_zone_idx n' = zns_zone_idx n" "zns_get_zone_by_slba n' = zns_get_zone_by_slba n"
  using static_fields [OF assms]
  by (simp_all add: zns_zone_idx_def zns_get_zone_by_slba_def fun_eq_iff)

lemma static_simps [simp]:
  "static (n\<lparr>nr_open_zones := k\<rparr>) = static n" "static (n\<lparr>nr_active_zones := k\<rparr>) = static n"
  "static (n\<lparr>exp_open_zones := q\<rparr>) = static n" "static (n\<lparr>imp_open_zones := q\<rparr>) = static n"
  "static (n\<lparr>closed_zones := q\<rparr>) = static n" "static (n\<lparr>full_zones := q\<rparr>) = static n"
  by (simp_all add: static_def)

lemma static_upd_zone:
  assumes "\<And>z. d_zslba (z_d (f z)) = d_zslba (z_d z)" "\<And>z. d_zcap (z_d (f z)) = d_zcap (z_d z)"
  shows "static (upd_zone n i f) = static n"
proof -
  have "map g ((zone_array n)[i := f (zone_array n ! i)]) = map g (zone_array n)"
    if "\<And>z. g (f z) = g z" for g :: "NvmeZone \<Rightarrow> NvmeZone"
    using that by (intro nth_equalityI) (auto simp: nth_list_update_total)
  then show ?thesis
    using assms by (simp add: static_def upd_zone_def)
qed

lemma static_assign [simp]: "static (zns_assign_zone_state n i st) = static n"
proof -
  have "static (upd_zone m i (\<lambda>z. zns_set_zone_state z st)) = static m" for m
    by (rule static_upd_zone) simp_all
  moreover have "static (upd_zone m i (\<lambda>z. z\<lparr>z_d := (z_d z)\<lparr>d_za := 0\<rparr>\<rparr>)) = static m" for m
    by (rule static_upd_zone) simp_all
  ultimately show ?thesis
    by (auto simp: zns_assign_zone_state_def Let_def split: NvmeZoneState.split)
qed

lemma static_set_wps [simp]: "static (set_wps n i f) = static n"
  unfolding set_wps_def by (rule static_upd_zone) (simp_all add: wps_to_def)

lemma static_aor:
  "zns_aor_inc_open n = Some n' \<Longrightarrow> static n' = static n"
  "zns_aor_dec_open n = Some n' \<Longrightarrow> static n' = static n"
  "zns_aor_inc_active n = Some n' \<Longrightarrow> static n' = static n"
  "zns_aor_dec_active n = Some n' \<Longrightarrow> static n' = static n"
  by (auto simp: zns_aor_inc_open_def zns_aor_dec_open_def zns_aor_inc_active_def zns_aor_dec_active_def
        Let_def split: if_splits)

lemma static_ops:
  "zns_open_zone n i st = Some (status, n') \<Longrightarrow> static n' = static n"
  "zns_close_zone n i st = Some (status, n') \<Longrightarrow> static n' = static n"
  "zns_finish_zone n i st = Some (status, n') \<Longrightarrow> static n' = static n"
  "zns_reset_zone n i st = Some (status, n') \<Longrightarrow> static n' = static n"
  "zns_offline_zone n i st = Some (status, n') \<Longrightarrow> static n' = static n"
  by (auto simp: zns_open_zone_def zns_close_zone_def zns_finish_zone_def zns_reset_zone_def
        zns_aio_zone_reset_cb_def zns_offline_zone_def Let_def bind_eq_Some_conv
        split: NvmeZoneState.splits if_splits dest!: static_aor)

subsection \<open>The contract of a zone operation, and what follows for bulk processing\<close>

locale zone_operation =
  fixes op_hndlr :: zone_op
  assumes op_inv: "zns_inv n \<Longrightarrow> i < length (zone_array n) \<Longrightarrow>
      \<exists>status n'. op_hndlr n i (zone_state n i) = Some (status, n') \<and> zns_inv n'"
    and op_static: "op_hndlr n i st = Some (status, n') \<Longrightarrow> static n' = static n"
begin

lemma bulk_inv:
  assumes "zns_inv n" "i < length (zone_array n)"
  shows "\<exists>status n'. zns_bulk_proc_zone proc_mask op_hndlr n i = Some (status, n') \<and> zns_inv n' \<and> static n' = static n"
  using op_inv [OF assms] op_static assms(1) unfolding zns_bulk_proc_zone_def Let_def by fastforce

lemma foreach_inv:
  assumes "zns_inv n" "\<forall>i \<in> set is. i < length (zone_array n)"
  shows "\<exists>r. zns_foreach (zns_bulk_proc_zone proc_mask op_hndlr) is (status, n) = Some r \<and> zns_inv (snd r) \<and>
    static (snd r) = static n"
  using assms
proof (induction "is" arbitrary: status n)
  case (Cons i "is")
  obtain status' n' where b: "zns_bulk_proc_zone proc_mask op_hndlr n i = Some (status', n')" "zns_inv n'"
    "static n' = static n"
    using bulk_inv [OF Cons.prems(1), of i proc_mask] Cons.prems(2) by auto
  have "\<forall>i \<in> set is. i < length (zone_array n')"
    using Cons.prems(2) static_fields(4) [OF b(3)] by simp
  then show ?case
    using Cons.IH [OF b(2), of status'] b Cons.prems(1) by auto
qed auto

lemma do_zone_op_inv:
  assumes inv: "zns_inv n" and z: "zone < length (zone_array n)"
  shows "\<exists>status n'. zns_do_zone_op zone proc_mask op_hndlr n = Some (status, n') \<and> zns_inv n' \<and> static n' = static n"
proof (cases "proc_mask = 0")
  case True
  then show ?thesis using op_inv [OF inv z] op_static by (fastforce simp: zns_do_zone_op_def)
next
  case False
  let ?f = "zns_bulk_proc_zone proc_mask op_hndlr"
  let ?on = "zns_proc_queue proc_mask op_hndlr"
  have on: "\<exists>r'. ?on flag q r = Some r' \<and> zns_inv (snd r') \<and> static (snd r') = static (snd r)"
    if "zns_inv (snd r)" "\<And>n. zns_inv n \<Longrightarrow> \<forall>i \<in> set (q n). i < length (zone_array n)"
    for flag q and r :: "u16 \<times> zns"
    using that foreach_inv [of "snd r" "q (snd r)" proc_mask "fst r"]
    by (cases r) (simp add: zns_proc_queue_def)
  have queue: "\<forall>i \<in> set (closed_zones n). i < length (zone_array n)"
    "\<forall>i \<in> set (imp_open_zones n). i < length (zone_array n)"
    "\<forall>i \<in> set (exp_open_zones n). i < length (zone_array n)"
    "\<forall>i \<in> set (full_zones n). i < length (zone_array n)"
    "\<forall>i \<in> set [0..<unat (num_zones n)]. i < length (zone_array n)" if "zns_inv n" for n
    using that by (auto simp: zns_inv_def queues_ok_def queue_ok_def)
  obtain r1 where r1: "?on NVME_PROC_CLOSED_ZONES closed_zones (sc NVME_SUCCESS, n) = Some r1"
    "zns_inv (snd r1)" "static (snd r1) = static n"
    using on [of "(sc NVME_SUCCESS, n)" closed_zones NVME_PROC_CLOSED_ZONES] queue(1) inv by auto
  obtain r2 where r2: "?on NVME_PROC_OPENED_ZONES imp_open_zones r1 = Some r2" "zns_inv (snd r2)"
    "static (snd r2) = static n"
    using on [OF r1(2) queue(2)] r1(3) by metis
  obtain r3 where r3: "?on NVME_PROC_OPENED_ZONES exp_open_zones r2 = Some r3" "zns_inv (snd r3)"
    "static (snd r3) = static n"
    using on [OF r2(2) queue(3)] r2(3) by metis
  obtain r4 where r4: "?on NVME_PROC_FULL_ZONES full_zones r3 = Some r4" "zns_inv (snd r4)"
    "static (snd r4) = static n"
    using on [OF r3(2) queue(4)] r3(3) by metis
  obtain r5 where r5: "?on NVME_PROC_READ_ONLY_ZONES (\<lambda>n. [0..<unat (num_zones n)]) r4 = Some r5"
    "zns_inv (snd r5)" "static (snd r5) = static n"
    using on [OF r4(2) queue(5)] r4(3) by metis
  have "zns_do_zone_op zone proc_mask op_hndlr n = Some r5"
    using False r1(1) r2(1) r3(1) r4(1) r5(1) by (simp add: zns_do_zone_op_def)
  then show ?thesis using r5 by (cases r5) auto
qed

lemma send_inv:
  assumes "zns_inv (dev_zns d)" "zone < length (zone_array (dev_zns d))"
  shows "\<exists>status n'. send_result d (zns_do_zone_op zone proc_mask op_hndlr (dev_zns d)) =
    Some (status, d\<lparr>dev_zns := n'\<rparr>) \<and> zns_inv n' \<and> static n' = static (dev_zns d)"
  using do_zone_op_inv [OF assms, of proc_mask] by (auto simp: send_result_def)

end

interpretation zone_open: zone_operation zns_open_zone
  by unfold_locales (use zns_open_zone_inv static_ops(1) in auto)

interpretation zone_close: zone_operation zns_close_zone
  by unfold_locales (use zns_close_zone_inv static_ops(2) in auto)

interpretation zone_finish: zone_operation zns_finish_zone
  by unfold_locales (use zns_finish_zone_inv static_ops(3) in auto)

interpretation zone_reset: zone_operation zns_reset_zone
  by unfold_locales (use zns_reset_zone_inv static_ops(4) in auto)

interpretation zone_offline: zone_operation zns_offline_zone
  by unfold_locales (use zns_offline_zone_inv static_ops(5) in auto)

subsection \<open>Writes\<close>

lemma aor_ok_limits: "aor_ok n opn act \<Longrightarrow> 0 \<le> opn \<and> opn \<le> act"
  by (simp add: aor_ok_def)

lemma zns_set_zd_ext_inv:
  assumes inv: "zns_inv n" and i: "i < length (zone_array n)"
  shows "\<exists>status n'. zns_set_zd_ext n i = Some (status, n') \<and> zns_inv n' \<and> static n' = static n"
proof (cases "zone_state n i = NVME_ZONE_STATE_EMPTY \<and> zns_aor_check n 1 0 = sc NVME_SUCCESS")
  case True
  note D = zns_invD [OF inv]
  obtain k where k: "zns_aor_inc_active n = Some (n\<lparr>nr_active_zones := k\<rparr>)"
    "aor_ok (n\<lparr>nr_active_zones := k\<rparr>) (zone_count n is_open_state) (zone_count n is_active_state + 1)"
    using aor_inc_active [OF D(4)] aor_check_ok(1) [OF D(4), of 1 0] True by auto
  let ?f = "\<lambda>z. z\<lparr>z_d := (z_d z)\<lparr>d_za := d_za (z_d z) OR NVME_ZA_ZD_EXT_VALID\<rparr>\<rparr>"
  have "wp_ok (zone_array n ! i) NVME_ZONE_STATE_CLOSED"
    using wp_ok_mono(2) [OF D(5) [OF i]] True by simp
  then have "wp_ok (?f (zone_array n ! i)) NVME_ZONE_STATE_CLOSED"
    by (simp add: wp_ok_def)
  then have "zns_inv (zns_assign_zone_state (upd_zone (n\<lparr>nr_active_zones := k\<rparr>) i ?f) i NVME_ZONE_STATE_CLOSED)"
    by (intro zns_inv_upd_assign [where k = "nr_open_zones n" and k' = k, OF inv i])
      (use k(2) True in simp_all)
  moreover have "static (upd_zone (n\<lparr>nr_active_zones := k\<rparr>) i ?f) = static n"
    by (subst static_upd_zone) simp_all
  ultimately show ?thesis using True k(1) by (simp add: zns_set_zd_ext_def Let_def)
next
  case False
  then show ?thesis using inv by (auto simp: zns_set_zd_ext_def Let_def)
qed

lemma wp_ok_set_state [simp]:
  "wp_ok ((zns_set_zone_state z st)\<lparr>z_d := (z_d (zns_set_zone_state z st))\<lparr>d_za := a\<rparr>\<rparr>) st' = wp_ok z st'"
  by (simp add: wp_ok_def)

lemma aor_dec_open_imp:
  "zns_aor_dec_open (n\<lparr>imp_open_zones := q\<rparr>) = map_option (\<lambda>n. n\<lparr>imp_open_zones := q\<rparr>) (zns_aor_dec_open n)"
  by (simp add: zns_aor_dec_open_def)

lemma zns_auto_transition_inv:
  assumes inv: "zns_inv n"
  shows "\<exists>n'. zns_auto_transition_zone n = Some n' \<and> zns_inv n' \<and> static n' = static n \<and>
    (\<forall>j. \<not> is_open_state (zone_state n j) \<longrightarrow> zone_state n' j = zone_state n j) \<and>
    (\<forall>j st. wp_ok (zone_array n' ! j) st = wp_ok (zone_array n ! j) st) \<and>
    (\<forall>j. j < length (zone_array n) \<longrightarrow> w_ptr (zone_array n' ! j) = w_ptr (zone_array n ! j))"
proof (cases "max_open_zones n \<noteq> 0 \<and> (word_of_int (nr_open_zones n) :: u32) = max_open_zones n \<and>
    imp_open_zones n \<noteq> []")
  case True
  then obtain i q where q: "imp_open_zones n = i # q" by (cases "imp_open_zones n") auto
  note D = zns_invD [OF inv]
  have i: "i < length (zone_array n)" "zone_state n i = NVME_ZONE_STATE_IMPLICITLY_OPEN" and iq: "i \<notin> set q"
    using D(2) q by (auto simp: queues_ok_def queue_ok_def)
  obtain k where k: "zns_aor_dec_open n = Some (n\<lparr>nr_open_zones := k\<rparr>)"
    "aor_ok (n\<lparr>nr_open_zones := k\<rparr>) (zone_count n is_open_state - 1) (zone_count n is_active_state)"
    using open_to_full_aor [OF inv i(1)] i(2) by auto
  have k': "zns_aor_dec_open (n\<lparr>imp_open_zones := q\<rparr>) = Some (n\<lparr>imp_open_zones := q, nr_open_zones := k\<rparr>)"
    by (simp add: aor_dec_open_imp k(1))
  let ?m = "n\<lparr>nr_open_zones := k\<rparr>"
  have iu: "zone_in_use ?m i" using q by (simp add: zone_in_use_def)
  have niu: "\<not> zone_in_use (n\<lparr>imp_open_zones := q, nr_open_zones := k\<rparr>) i"
    using D(2) i iq by (auto simp: zone_in_use_def queues_ok_def queue_ok_def)
  have st: "zone_state ?m i = NVME_ZONE_STATE_IMPLICITLY_OPEN" using i by simp
  have same: "zns_assign_zone_state (n\<lparr>imp_open_zones := q, nr_open_zones := k\<rparr>) i NVME_ZONE_STATE_CLOSED =
        zns_assign_zone_state ?m i NVME_ZONE_STATE_CLOSED"
    using iu niu st q by (simp add: zns_assign_zone_state_def Let_def upd_zone_def)
  have inv': "zns_inv (zns_assign_zone_state (upd_zone ?m i (\<lambda>z. z)) i NVME_ZONE_STATE_CLOSED)"
    by (rule zns_inv_upd_assign [where k = k and k' = "nr_active_zones n", OF inv i(1)])
      (use k(2) i wp_ok_mono(1) [OF D(5) [OF i(1)]] in simp_all)
  obtain za where za: "zone_array (zns_assign_zone_state ?m i NVME_ZONE_STATE_CLOSED) =
      (zone_array n)[i := (let z = zns_set_zone_state (zone_array n ! i) NVME_ZONE_STATE_CLOSED
        in z\<lparr>z_d := (z_d z)\<lparr>d_za := za\<rparr>\<rparr>)]"
    using zone_array_assign_eq [of i ?m NVME_ZONE_STATE_CLOSED] i by auto
  show ?thesis
    using inv' True q k' same i za
    by (auto simp: zns_auto_transition_zone_def zone_array_assign nth_list_update Let_def)
next
  case False
  then show ?thesis using inv by (auto simp: zns_auto_transition_zone_def split: list.splits)
qed

text \<open>Opening a zone for a write: on success the resources it will take are free, and the zone itself
  is as it was.\<close>

lemma zns_auto_open_inv:
  assumes inv: "zns_inv n" and i: "i < length (zone_array n)"
    and w: "zone_state n i \<noteq> NVME_ZONE_STATE_FULL"
  obtains status n' where "zns_auto_open_zone n i = Some (status, n')" "zns_inv n'" "static n' = static n"
    "zone_state n' i = zone_state n i" "\<And>st. wp_ok (zone_array n' ! i) st = wp_ok (zone_array n ! i) st"
    "w_ptr (zone_array n' ! i) = w_ptr (zone_array n ! i)"
    "status = sc NVME_SUCCESS \<Longrightarrow> zone_state n i = NVME_ZONE_STATE_EMPTY \<Longrightarrow> zns_aor_check n' 1 1 = sc NVME_SUCCESS"
    "status = sc NVME_SUCCESS \<Longrightarrow> zone_state n i = NVME_ZONE_STATE_CLOSED \<Longrightarrow> zns_aor_check n' 0 1 = sc NVME_SUCCESS"
proof (cases "zone_state n i = NVME_ZONE_STATE_EMPTY \<or> zone_state n i = NVME_ZONE_STATE_CLOSED")
  case True
  obtain n' where n': "zns_auto_transition_zone n = Some n'" "zns_inv n'" "static n' = static n"
    "\<forall>j. \<not> is_open_state (zone_state n j) \<longrightarrow> zone_state n' j = zone_state n j"
    "\<forall>j st. wp_ok (zone_array n' ! j) st = wp_ok (zone_array n ! j) st"
    "\<forall>j. j < length (zone_array n) \<longrightarrow> w_ptr (zone_array n' ! j) = w_ptr (zone_array n ! j)"
    using zns_auto_transition_inv [OF inv] by blast
  have "zone_state n' i = zone_state n i" using True n'(4) by auto
  then show ?thesis
    using that [of _ n'] n' i True by (auto simp: zns_auto_open_zone_def)
next
  case False
  then show ?thesis using that [of "sc NVME_SUCCESS" n] inv by (auto simp: zns_auto_open_zone_def)
qed

lemma zone_array_static:
  assumes "static n' = static n" "i < length (zone_array n)"
  shows "d_zslba (z_d (zone_array n' ! i)) = d_zslba (z_d (zone_array n ! i))"
    "d_zcap (z_d (zone_array n' ! i)) = d_zcap (z_d (zone_array n ! i))"
proof -
  have l: "length (zone_array n') = length (zone_array n)" using static_fields(4) [OF assms(1)] .
  have "map (\<lambda>z. zns_init_zone (d_zslba (z_d z)) (d_zcap (z_d z))) (zone_array n') =
      map (\<lambda>z. zns_init_zone (d_zslba (z_d z)) (d_zcap (z_d z))) (zone_array n)"
    using arg_cong [OF assms(1), of zone_array] by (simp add: static_def)
  then have "map (\<lambda>z. zns_init_zone (d_zslba (z_d z)) (d_zcap (z_d z))) (zone_array n') ! i =
      map (\<lambda>z. zns_init_zone (d_zslba (z_d z)) (d_zcap (z_d z))) (zone_array n) ! i"
    by simp
  then show "d_zslba (z_d (zone_array n' ! i)) = d_zslba (z_d (zone_array n ! i))"
    "d_zcap (z_d (zone_array n' ! i)) = d_zcap (z_d (zone_array n ! i))"
    using assms(2) l by (simp_all add: zns_init_zone_def)
qed

lemma assign_ptrs:
  assumes "i < length (zone_array n)"
  shows "w_ptr (zone_array (zns_assign_zone_state n i st) ! j) = w_ptr (zone_array n ! j)"
    "d_wp (z_d (zone_array (zns_assign_zone_state n i st) ! j)) = d_wp (z_d (zone_array n ! j))"
proof -
  obtain za where eq: "zone_array (zns_assign_zone_state n i st) =
    (zone_array n)[i := (let z = zns_set_zone_state (zone_array n ! i) st in z\<lparr>z_d := (z_d z)\<lparr>d_za := za\<rparr>\<rparr>)]"
    using zone_array_assign_eq [OF assms] by blast
  show "w_ptr (zone_array (zns_assign_zone_state n i st) ! j) = w_ptr (zone_array n ! j)"
    "d_wp (z_d (zone_array (zns_assign_zone_state n i st) ! j)) = d_wp (z_d (zone_array n ! j))"
    using assms by (simp_all add: eq nth_list_update_if Let_def)
qed

lemma counters_swap:
  "n\<lparr>nr_active_zones := k', nr_open_zones := k\<rparr> = n\<lparr>nr_open_zones := k, nr_active_zones := k'\<rparr>"
  by simp

lemma upd_zone_counters:
  "upd_zone (n\<lparr>nr_open_zones := k\<rparr>) i f = (upd_zone n i f)\<lparr>nr_open_zones := k\<rparr>"
  "upd_zone (n\<lparr>nr_active_zones := k\<rparr>) i f = (upd_zone n i f)\<lparr>nr_active_zones := k\<rparr>"
  by (simp_all add: upd_zone_def)

lemma aor_ok_upd_zone_counters:
  "aor_ok ((upd_zone n i f)\<lparr>nr_open_zones := k\<rparr>) opn act = aor_ok (n\<lparr>nr_open_zones := k\<rparr>) opn act"
  "aor_ok ((upd_zone n i f)\<lparr>nr_active_zones := k'\<rparr>) opn act = aor_ok (n\<lparr>nr_active_zones := k'\<rparr>) opn act"
  "aor_ok ((upd_zone n i f)\<lparr>nr_open_zones := k, nr_active_zones := k'\<rparr>) opn act =
   aor_ok (n\<lparr>nr_open_zones := k, nr_active_zones := k'\<rparr>) opn act"
  by (simp_all add: aor_ok_def)

end
