(* ===== verification/Zns_Write.thy ===== *)
theory Zns_Write
  imports Zns_Inv
begin

text \<open>
  Zoned writes and the invariant: advancing and finalizing the write pointer, \<open>zns_write_zone\<close> and the
  commands built on it.
\<close>

text \<open>Advancing the write pointer inside the zone.  A zone left with \<open>w_ptr\<close> at its end keeps its
  state; the invariant then holds with the pointer of a started write.\<close>

lemma zns_advance_inv:
  assumes inv: "zns_inv n" and i: "i < length (zone_array n)"
    and st: "zone_state n i = NVME_ZONE_STATE_EMPTY \<or> is_active_state (zone_state n i)"
    and fits: "unat (w_ptr (zone_array n ! i)) + unat nlb \<le>
      unat (d_zslba (z_d (zone_array n ! i))) + unat (d_zcap (z_d (zone_array n ! i)))"
    and nlb: "nlb \<noteq> (0::u32)"
    and ce: "zone_state n i = NVME_ZONE_STATE_EMPTY \<Longrightarrow> zns_aor_check n 1 1 = sc NVME_SUCCESS"
    and cc: "zone_state n i = NVME_ZONE_STATE_CLOSED \<Longrightarrow> zns_aor_check n 0 1 = sc NVME_SUCCESS"
  obtains n' where "zns_advance_zone_wp n i nlb = Some (w_ptr (zone_array n ! i), n')" "zns_inv n'"
    "static n' = static n"
    "unat (w_ptr (zone_array n' ! i)) = unat (w_ptr (zone_array n ! i)) + unat nlb"
    "zone_state n' i = NVME_ZONE_STATE_EMPTY \<or> is_active_state (zone_state n' i)"
    "unat (d_wp (z_d (zone_array n' ! i))) + unat nlb \<le> unat (w_ptr (zone_array n' ! i))"
    "zone_state n' i = NVME_ZONE_STATE_EMPTY \<Longrightarrow>
       unat (d_wp (z_d (zone_array n' ! i))) + unat nlb =
       unat (d_zslba (z_d (zone_array n ! i))) + unat (d_zcap (z_d (zone_array n ! i)))"
proof -
  note result = that
  note D = zns_invD [OF inv]
  let ?z = "zone_array n ! i"
  let ?f = "\<lambda>z. z\<lparr>w_ptr := w_ptr z + ucast nlb\<rparr>"
  let ?n = "upd_zone n i ?f"
  let ?o = "zone_count n is_open_state" and ?a = "zone_count n is_active_state"
  note wp = D(5) [OF i]
  have hi: "unat (d_zslba (z_d ?z)) + unat (d_zcap (z_d ?z)) < 2 ^ 64"
    using wp by (simp add: wp_ok_def Let_def)
  have w': "unat (w_ptr ?z + ucast nlb) = unat (w_ptr ?z) + unat nlb"
    using fits hi by (simp add: unat_word_ariths)
  have n0: "0 < unat nlb" using nlb by (simp add: unat_gt_0)
  have U: "zone_state ?n = zone_state n" "queues_ok ?n = queues_ok n" "zone_count ?n = zone_count n"
    by (rule upd_zone_same_state; simp)+
  have sf: "static ?n = static n" by (rule static_upd_zone) simp_all
  have emp: "zone_state n i = NVME_ZONE_STATE_EMPTY \<Longrightarrow>
      unat (d_wp (z_d ?z)) = unat (d_zslba (z_d ?z)) \<and> unat (w_ptr ?z) = unat (d_zslba (z_d ?z))"
    using wp fits n0 by (auto simp: wp_ok_def Let_def)
  have wpw: "unat (d_wp (z_d ?z)) \<le> unat (w_ptr ?z)"
    using wp st emp by (auto simp: wp_ok_def Let_def)
  have act: "wp_ok (?f ?z) st'" if "is_active_state st'" for st'
    using wp st fits w' emp wpw that by (auto simp: wp_ok_def Let_def is_active_state_def is_open_state_def)
  have lt: "w_ptr (zone_array ?n ! i) < zns_zone_wr_boundary (zone_array ?n ! i) \<longleftrightarrow>
      unat (w_ptr ?z) + unat nlb < unat (d_zslba (z_d ?z)) + unat (d_zcap (z_d ?z))"
    using i w' unat_wr_boundary [OF wp]
    by (simp add: nth_upd_zone word_less_nat_alt zns_zone_wr_boundary_def)
  have fz: "w_ptr (zone_array ?n ! i) = w_ptr ?z + ucast nlb" "d_wp (z_d (zone_array ?n ! i)) = d_wp (z_d ?z)"
    using i by (simp_all add: nth_upd_zone)
  have stay: "zns_inv ?n" if "wp_ok (?f ?z) (zone_state n i)"
    using D that i by (auto simp: zns_inv_def U wps_ok_def nth_upd_zone)
  have comm: "?n\<lparr>nr_open_zones := k, nr_active_zones := k'\<rparr> =
      upd_zone (n\<lparr>nr_open_zones := k, nr_active_zones := k'\<rparr>) i ?f" for k k'
    by (simp add: upd_zone_def)
  have open': thesis if adv: "zns_advance_zone_wp n i nlb = Some (w_ptr ?z,
        zns_assign_zone_state (?n\<lparr>nr_open_zones := k, nr_active_zones := k'\<rparr>) i NVME_ZONE_STATE_IMPLICITLY_OPEN)"
      and aor: "aor_ok (n\<lparr>nr_open_zones := k, nr_active_zones := k'\<rparr>) (?o + 1)
        (?a + (if is_active_state (zone_state n i) then 0 else 1))"
      and no: "\<not> is_open_state (zone_state n i)" for k k'
  proof (rule result [OF adv])
    show "zns_inv (zns_assign_zone_state (?n\<lparr>nr_open_zones := k, nr_active_zones := k'\<rparr>) i NVME_ZONE_STATE_IMPLICITLY_OPEN)"
      unfolding comm by (rule zns_inv_upd_assign [OF inv i refl]) (use aor no act in auto)
  qed (use i w' wpw fz sf in \<open>simp_all add: assign_ptrs zone_array_assign\<close>)
  have keep: thesis if adv: "zns_advance_zone_wp n i nlb = Some (w_ptr ?z, ?n)"
      and or: "is_active_state (zone_state n i) \<or> zone_state n i = NVME_ZONE_STATE_EMPTY \<and> \<not> w_ptr (zone_array ?n ! i) < zns_zone_wr_boundary (zone_array ?n ! i)"
  proof (rule result [OF adv])
    have "wp_ok (?f ?z) NVME_ZONE_STATE_EMPTY"
      if "zone_state n i = NVME_ZONE_STATE_EMPTY" "\<not> w_ptr (zone_array ?n ! i) < zns_zone_wr_boundary (zone_array ?n ! i)"
      using that lt emp fits w' hi by (auto simp: wp_ok_def Let_def)
    then show "zns_inv ?n" using or act by (intro stay) auto
    show "unat (d_wp (z_d (zone_array ?n ! i))) + unat nlb =
        unat (d_zslba (z_d ?z)) + unat (d_zcap (z_d ?z))"
      if "zone_state ?n i = NVME_ZONE_STATE_EMPTY"
      using that or lt emp fits fz by (auto simp: U)
  qed (use or w' wpw fz sf in \<open>auto simp: U\<close>)
  show ?thesis
  proof (cases "w_ptr (zone_array ?n ! i) < zns_zone_wr_boundary (zone_array ?n ! i)")
    case False
    then show ?thesis
      using st by (intro keep) (auto simp: zns_advance_zone_wp_def Let_def)
  next
    case inside: True
    show ?thesis
    proof (cases "zone_state n i")
      case NVME_ZONE_STATE_EMPTY
      note c = ce [OF NVME_ZONE_STATE_EMPTY]
      obtain k' where k': "zns_aor_inc_active ?n = Some (?n\<lparr>nr_active_zones := k'\<rparr>)"
        "aor_ok (?n\<lparr>nr_active_zones := k'\<rparr>) ?o (?a + 1)"
        using aor_inc_active [of ?n ?o ?a] D(4) aor_check_ok(1) [OF D(4) _ _ c] by auto
      obtain k where k: "zns_aor_inc_open (?n\<lparr>nr_active_zones := k'\<rparr>) =
          Some (?n\<lparr>nr_active_zones := k', nr_open_zones := k\<rparr>)"
        "aor_ok (?n\<lparr>nr_active_zones := k', nr_open_zones := k\<rparr>) (?o + 1) (?a + 1)"
        using aor_inc_open [OF k'(2)] aor_check_ok(2) [OF D(4) _ _ c] aor_ok_limits [OF D(4)] by auto
      show ?thesis
        by (rule open' [of k' k])
          (use inside NVME_ZONE_STATE_EMPTY k k' in \<open>simp_all add: zns_advance_zone_wp_def Let_def U
             counters_swap aor_ok_upd_zone_counters\<close>)
    next
      case NVME_ZONE_STATE_CLOSED
      note c = cc [OF NVME_ZONE_STATE_CLOSED]
      obtain k where k: "zns_aor_inc_open ?n = Some (?n\<lparr>nr_open_zones := k\<rparr>)"
        "aor_ok (?n\<lparr>nr_open_zones := k\<rparr>) (?o + 1) ?a"
        using aor_inc_open [of ?n ?o ?a] D(4) aor_check_ok(2) [OF D(4) _ _ c]
          zone_count_closed [OF i NVME_ZONE_STATE_CLOSED] by auto
      have "?n\<lparr>nr_open_zones := k, nr_active_zones := nr_active_zones n\<rparr> = ?n\<lparr>nr_open_zones := k\<rparr>"
        by (simp add: upd_zone_def)
      note eq = this
      have eq': "n\<lparr>nr_open_zones := k, nr_active_zones := nr_active_zones n\<rparr> = n\<lparr>nr_open_zones := k\<rparr>"
        by simp
      show ?thesis
        by (rule open' [of "nr_active_zones n" k, unfolded eq eq'])
          (use inside NVME_ZONE_STATE_CLOSED k in \<open>simp_all add: zns_advance_zone_wp_def Let_def U
             aor_ok_upd_zone_counters is_state_simps\<close>)
    qed (use st inside keep in \<open>auto simp: zns_advance_zone_wp_def Let_def U is_active_state_def is_open_state_def\<close>)
  qed
qed

lemma aor_dec_upd_zone:
  "zns_aor_dec_open (upd_zone n i f) = map_option (\<lambda>n. upd_zone n i f) (zns_aor_dec_open n)"
  "zns_aor_dec_active (upd_zone n i f) = map_option (\<lambda>n. upd_zone n i f) (zns_aor_dec_active n)"
  by (simp_all add: zns_aor_dec_open_def zns_aor_dec_active_def upd_zone_def)

text \<open>Finalizing a write that fits between \<open>d.wp\<close> and \<open>w_ptr\<close>: \<open>d.wp\<close> moves on, and the zone becomes
  full exactly when it reaches the end of the writable part.\<close>

lemma zns_finalize_inv:
  assumes inv: "zns_inv n" and i: "zns_get_zone_by_slba n slba = Some i"
    and st: "zone_state n i = NVME_ZONE_STATE_EMPTY \<or> is_active_state (zone_state n i)"
    and fits: "unat (d_wp (z_d (zone_array n ! i))) + unat nlb \<le> unat (w_ptr (zone_array n ! i))"
    and emp: "zone_state n i = NVME_ZONE_STATE_EMPTY \<Longrightarrow>
       unat (d_wp (z_d (zone_array n ! i))) + unat nlb =
       unat (d_zslba (z_d (zone_array n ! i))) + unat (d_zcap (z_d (zone_array n ! i)))"
    and w: "unat (w_ptr (zone_array n ! i)) \<le>
       unat (d_zslba (z_d (zone_array n ! i))) + unat (d_zcap (z_d (zone_array n ! i)))"
  obtains n' where "zns_finalize_zoned_write n slba nlb = Some n'" "zns_inv n'" "static n' = static n"
    "zone_state n' i = (if unat (d_wp (z_d (zone_array n ! i))) + unat nlb =
       unat (d_zslba (z_d (zone_array n ! i))) + unat (d_zcap (z_d (zone_array n ! i)))
       then NVME_ZONE_STATE_FULL else zone_state n i)"
    "unat (d_wp (z_d (zone_array n' ! i))) = unat (d_wp (z_d (zone_array n ! i))) + unat nlb"
    "w_ptr (zone_array n' ! i) = w_ptr (zone_array n ! i)"
proof -
  note result = that
  note D = zns_invD [OF inv]
  let ?z = "zone_array n ! i"
  let ?f = "\<lambda>z. z\<lparr>z_d := (z_d z)\<lparr>d_wp := d_wp (z_d z) + ucast nlb\<rparr>\<rparr>"
  let ?n = "upd_zone n i ?f"
  have il: "i < length (zone_array n)"
    using i D(1) by (auto simp: zns_get_zone_by_slba_def Let_def word_less_nat_alt split: if_splits)
  note wp = D(5) [OF il]
  have hi: "unat (d_zslba (z_d ?z)) + unat (d_zcap (z_d ?z)) < 2 ^ 64"
    using wp by (simp add: wp_ok_def Let_def)
  have d': "unat (d_wp (z_d ?z) + ucast nlb) = unat (d_wp (z_d ?z)) + unat nlb"
    using fits w hi by (simp add: unat_word_ariths)
  have same: "zns_get_zone_state (?f z) = zns_get_zone_state z" for z
    by (rule zns_get_zone_state_upd) simp
  have U: "zone_state ?n = zone_state n" "queues_ok ?n = queues_ok n" "zone_count ?n = zone_count n"
    by (rule upd_zone_same_state; rule same)+
  have sf: "static ?n = static n" by (rule static_upd_zone) simp_all
  have fz: "d_wp (z_d (zone_array ?n ! i)) = d_wp (z_d ?z) + ucast nlb" "w_ptr (zone_array ?n ! i) = w_ptr ?z"
    using il by (simp_all add: nth_upd_zone)
  have full: "d_wp (z_d (zone_array ?n ! i)) = zns_zone_wr_boundary (zone_array ?n ! i) \<longleftrightarrow>
      unat (d_wp (z_d ?z)) + unat nlb = unat (d_zslba (z_d ?z)) + unat (d_zcap (z_d ?z))"
    using il d' unat_wr_boundary [OF wp]
    by (simp add: nth_upd_zone word_unat_eq_iff zns_zone_wr_boundary_def)
  show ?thesis
  proof (cases "unat (d_wp (z_d ?z)) + unat nlb = unat (d_zslba (z_d ?z)) + unat (d_zcap (z_d ?z))")
    case False
    then have act: "is_active_state (zone_state n i)" using st emp by auto
    then have "wp_ok (?f ?z) (zone_state n i)"
      using wp fits d' w by (auto simp: wp_ok_def Let_def is_active_state_def is_open_state_def)
    then have "zns_inv ?n" using D il by (auto simp: zns_inv_def U wps_ok_def nth_upd_zone)
    moreover have "zns_finalize_zoned_write n slba nlb = Some ?n"
      using False full i by (simp add: zns_finalize_zoned_write_def Let_def)
    ultimately show ?thesis using result [of ?n] False sf fz d' by (simp add: U)
  next
    case True
    have FW: "wp_ok (?f ?z) NVME_ZONE_STATE_FULL"
      using wp d' True fits w by (simp add: wp_ok_def Let_def)
    note step = zns_inv_upd_assign [of _ _ _ _ _ ?f, OF inv il _ same FW]
    have fin: thesis if "zns_finalize_zoned_write n slba nlb =
        Some (zns_assign_zone_state (upd_zone m i ?f) i NVME_ZONE_STATE_FULL)"
      and m: "m = n\<lparr>nr_open_zones := k, nr_active_zones := k'\<rparr>"
      and "zns_inv (zns_assign_zone_state (upd_zone m i ?f) i NVME_ZONE_STATE_FULL)" for m k k'
    proof (rule result [OF that(1,3)])
      show "static (zns_assign_zone_state (upd_zone m i ?f) i NVME_ZONE_STATE_FULL) = static n"
        using static_upd_zone [of ?f m i] by (simp add: m)
    qed (use True il d' in \<open>simp_all add: assign_ptrs zone_array_assign nth_upd_zone m\<close>)
    have nc: "n = n\<lparr>nr_open_zones := nr_open_zones n, nr_active_zones := nr_active_zones n\<rparr>" by simp
    consider (o) "is_open_state (zone_state n i)" | (c) "zone_state n i = NVME_ZONE_STATE_CLOSED"
      | (e) "zone_state n i = NVME_ZONE_STATE_EMPTY"
      using st by (auto simp: is_active_state_def)
    then show ?thesis
    proof cases
      case o
      obtain k k' where k: "zns_aor_dec_open n = Some (n\<lparr>nr_open_zones := k\<rparr>)"
        "zns_aor_dec_active (n\<lparr>nr_open_zones := k\<rparr>) = Some (n\<lparr>nr_open_zones := k, nr_active_zones := k'\<rparr>)"
        "aor_ok (n\<lparr>nr_open_zones := k, nr_active_zones := k'\<rparr>)
          (zone_count n is_open_state - 1) (zone_count n is_active_state - 1)"
        using open_to_full_aor [OF inv il o] by blast
      show ?thesis
      proof (rule fin [OF _ refl])
        show "zns_inv (zns_assign_zone_state (upd_zone (n\<lparr>nr_open_zones := k, nr_active_zones := k'\<rparr>) i ?f) i
            NVME_ZONE_STATE_FULL)"
          by (rule step [OF refl]) (use k o in auto)
        show "zns_finalize_zoned_write n slba nlb = Some (zns_assign_zone_state
            (upd_zone (n\<lparr>nr_open_zones := k, nr_active_zones := k'\<rparr>) i ?f) i NVME_ZONE_STATE_FULL)"
          using True full i o k by (auto simp: zns_finalize_zoned_write_def Let_def U is_open_state_def aor_dec_upd_zone)
      qed
    next
      case c
      obtain k where k: "zns_aor_dec_active n = Some (n\<lparr>nr_active_zones := k\<rparr>)"
        "aor_ok (n\<lparr>nr_active_zones := k\<rparr>) (zone_count n is_open_state) (zone_count n is_active_state - 1)"
        using aor_dec_active [OF D(4) zone_count_closed [OF il c]] by blast
      have eq: "n\<lparr>nr_active_zones := k\<rparr> = n\<lparr>nr_open_zones := nr_open_zones n, nr_active_zones := k\<rparr>" by simp
      show ?thesis
      proof (rule fin [OF _ eq])
        show "zns_inv (zns_assign_zone_state (upd_zone (n\<lparr>nr_active_zones := k\<rparr>) i ?f) i NVME_ZONE_STATE_FULL)"
          by (rule step [OF eq]) (use k c in auto)
        show "zns_finalize_zoned_write n slba nlb = Some (zns_assign_zone_state
            (upd_zone (n\<lparr>nr_active_zones := k\<rparr>) i ?f) i NVME_ZONE_STATE_FULL)"
          using True full i c k by (auto simp: zns_finalize_zoned_write_def Let_def U aor_dec_upd_zone)
      qed
    next
      case e
      show ?thesis
      proof (rule fin [OF _ nc])
        show "zns_inv (zns_assign_zone_state (upd_zone n i ?f) i NVME_ZONE_STATE_FULL)"
          by (rule step [OF nc]) (use D(4) e in auto)
        show "zns_finalize_zoned_write n slba nlb = Some (zns_assign_zone_state (upd_zone n i ?f) i NVME_ZONE_STATE_FULL)"
          using True full i e by (auto simp: zns_finalize_zoned_write_def Let_def U)
      qed
    qed
  qed
qed

subsection \<open>Geometry\<close>

definition geom_ok :: "zns \<Rightarrow> bool" where
  "geom_ok n \<longleftrightarrow> zone_size n \<noteq> 0 \<and> unat (zns_nsze n) = unat (num_zones n) * unat (zone_size n) \<and>
     (0 < zone_size_log2 n \<longrightarrow> unat (zone_size n) = 2 ^ unat (zone_size_log2 n)) \<and>
     (\<forall>i < length (zone_array n). unat (d_zslba (z_d (zone_array n ! i))) = i * unat (zone_size n) \<and>
        unat (d_zcap (z_d (zone_array n ! i))) \<le> unat (zone_size n))"

lemma zns_zone_idx_div:
  assumes "geom_ok n" "unat slba < unat (zns_nsze n)"
  shows "unat (zns_zone_idx n slba) = unat slba div unat (zone_size n)"
    and "zns_zone_idx n slba < num_zones n"
proof -
  have q: "unat slba div unat (zone_size n) < unat (num_zones n)"
    using assms by (simp add: geom_ok_def less_mult_imp_div_less)
  moreover have "unat (num_zones n) < 2 ^ 32" using unsigned_less [of "num_zones n"] by simp
  moreover have "unat (drop_bit k slba) = unat slba div 2 ^ k" for k
    by (metis unat_drop_bit_eq drop_bit_eq_div)
  ultimately show eq: "unat (zns_zone_idx n slba) = unat slba div unat (zone_size n)"
    using assms by (auto simp: zns_zone_idx_def geom_ok_def unat_div unat_ucast_less)
  show "zns_zone_idx n slba < num_zones n" using q eq by (simp add: word_less_nat_alt)
qed

lemma zns_get_zone_by_slba_ok:
  assumes "geom_ok n" "unat slba < unat (zns_nsze n)"
  shows "zns_get_zone_by_slba n slba = Some (unat slba div unat (zone_size n))"
    and "unat slba div unat (zone_size n) < unat (num_zones n)"
  using zns_zone_idx_div [OF assms] by (simp_all add: zns_get_zone_by_slba_def word_less_nat_alt)

lemma check_bounds_ok:
  assumes "zns_check_bounds n slba nlb = 0"
  shows "unat slba + unat nlb \<le> unat (zns_nsze n)" "unat slba + unat nlb < 2 ^ 64"
proof -
  have "\<not> NOT 0 - slba < ucast nlb" and le: "\<not> zns_nsze n < slba + ucast nlb"
    using assms by (auto simp: zns_check_bounds_def split: if_splits)
  then have "unat nlb \<le> unat (NOT 0 - slba)" by (simp add: word_less_nat_alt)
  moreover have "unat (NOT 0 - slba) = 2 ^ 64 - 1 - unat slba"
    by (subst unat_sub) (simp_all add: unsigned_minus_1_eq_mask mask_eq_exp_minus_1)
  moreover have "unat slba < 2 ^ 64" using unsigned_less [of slba] by simp
  ultimately show s: "unat slba + unat nlb < 2 ^ 64" by simp
  then have "unat (slba + ucast nlb) = unat slba + unat nlb" by (simp add: unat_word_ariths)
  then show "unat slba + unat nlb \<le> unat (zns_nsze n)" using le by (simp add: word_less_nat_alt)
qed

lemma check_zone_write_ok:
  assumes "wp_ok z (zns_get_zone_state z)"
  shows "\<exists>status. zns_check_zone_write n z slba nlb a = Some status \<and>
    (status = 0 \<longrightarrow> (if a then slba = d_zslba (z_d z) else slba = w_ptr z) \<and>
      slba + ucast nlb \<le> zns_zone_wr_boundary z \<and>
      (zns_get_zone_state z = NVME_ZONE_STATE_EMPTY \<or> is_active_state (zns_get_zone_state z)))"
proof -
  have "zns_get_zone_state z \<noteq> NVME_ZONE_STATE_RESERVED" using assms by (simp add: wp_ok_def Let_def)
  then show ?thesis
    by (cases "zns_get_zone_state z"; cases "zns_zone_wr_boundary z < slba + ucast nlb")
      (auto simp: zns_check_zone_write_def zns_check_zone_state_for_write_def zns_wp_is_valid_def
        is_active_state_def is_open_state_def Let_def not_less)
qed

subsection \<open>A zoned write\<close>

definition zns_dev_ok :: "zns_dev \<Rightarrow> bool" where
  "zns_dev_ok d \<longleftrightarrow> zns_inv (dev_zns d) \<and> geom_ok (dev_zns d) \<and> backend_ok (dev_be d) \<and>
     unat (zns_lbads (dev_zns d)) \<le> 15 \<and> dma_page_size (dev_dma d) \<noteq> 0 \<and>
     unat (zns_nsze (dev_zns d)) * 2 ^ unat (zns_lbads (dev_zns d)) \<le> be_size (dev_be d)"

lemma static_lbads:
  assumes "static n' = static n"
  shows "zns_lbads n' = zns_lbads n"
  using arg_cong [OF assms, of zns_lbads] by (simp add: static_def)

lemma zns_dev_ok_static:
  assumes "zns_dev_ok d" "zns_inv n'" "static n' = static (dev_zns d)"
  shows "zns_dev_ok (d\<lparr>dev_zns := n'\<rparr>)"
  using assms static_fields [OF assms(3)] static_lbads [OF assms(3)] zone_array_static [OF assms(3)]
  by (auto simp: zns_dev_ok_def geom_ok_def)

lemma zns_l2b_fits:
  assumes "zns_dev_ok d" "unat slba + unat nlb \<le> unat (zns_nsze (dev_zns d))"
  shows "unat (zns_l2b (dev_zns d) slba) + unat (zns_l2b (dev_zns d) nlb) \<le> be_size (dev_be d)"
    "unat (zns_l2b (dev_zns d) nlb) = unat nlb * 2 ^ unat (zns_lbads (dev_zns d))"
    "unat (zns_l2b (dev_zns d) slba) = unat slba * 2 ^ unat (zns_lbads (dev_zns d))"
proof -
  let ?p = "(2 :: nat) ^ unat (zns_lbads (dev_zns d))"
  have "(unat slba + unat nlb) * ?p \<le> unat (zns_nsze (dev_zns d)) * ?p" using assms(2) by simp
  then have le: "unat slba * ?p + unat nlb * ?p \<le> be_size (dev_be d)"
    using assms(1) by (simp add: zns_dev_ok_def distrib_right)
  moreover have "be_size (dev_be d) < 2 ^ 63" using assms(1) by (simp add: zns_dev_ok_def backend_ok_def)
  ultimately have "unat nlb * ?p < 2 ^ 64" "unat slba * ?p < 2 ^ 64" by simp_all
  then show e: "unat (zns_l2b (dev_zns d) nlb) = unat nlb * ?p"
    "unat (zns_l2b (dev_zns d) slba) = unat slba * ?p"
    by (simp_all add: zns_l2b_def unat_push_bit_less)
  show "unat (zns_l2b (dev_zns d) slba) + unat (zns_l2b (dev_zns d) nlb) \<le> be_size (dev_be d)"
    using le e by simp
qed

text \<open>A successful mapping describes as many bytes as the transfer has (or none, for a transfer to the
  memory buffer of the controller).\<close>

lemma zns_map_dptr_bytes:
  assumes "zns_dev_ok d" "zns_map_dptr d (zns_l2b (dev_zns d) (ucast nlb)) cmd = (0, sg)"
    "unat (slba :: u64) + unat (nlb :: u32) \<le> unat (zns_nsze (dev_zns d))" "unat nlb \<le> 2 ^ 16"
  shows "sg_bytes sg \<le> unat nlb * 2 ^ unat (zns_lbads (dev_zns d))"
    and "sg \<noteq> [] \<Longrightarrow> sg_bytes sg = unat nlb * 2 ^ unat (zns_lbads (dev_zns d))"
proof -
  let ?len = "zns_l2b (dev_zns d) (ucast nlb)"
  have len: "unat ?len = unat nlb * 2 ^ unat (zns_lbads (dev_zns d))"
    using zns_l2b_fits(2) [OF assms(1), of slba "ucast nlb"] assms(3) by simp
  have "unat nlb * 2 ^ unat (zns_lbads (dev_zns d)) \<le> 2 ^ 16 * 2 ^ 15"
    using assms(1,4) by (intro mult_mono power_increasing) (simp_all add: zns_dev_ok_def)
  then have u: "unat (ucast ?len :: u32) = unat ?len" using len by (intro unat_ucast_less) simp
  obtain cmb sg' where m: "nvme_map_prp (dev_dma d) (dev_host d) (cmd_prp1 cmd) (cmd_prp2 cmd) (ucast ?len) = (0, cmb, sg')"
    "sg = (if cmb then [] else sg')"
    using assms(2) by (auto simp: zns_map_dptr_def split: if_splits prod.splits)
  have "sg_bytes sg' = unat ?len" if "\<not> cmb"
  proof -
    have "dma_page_size (dev_dma d) \<noteq> 0" using assms(1) by (simp add: zns_dev_ok_def)
    from map_prp_covers [OF m(1) that this] show ?thesis using u by auto
  qed
  then show "sg_bytes sg \<le> unat nlb * 2 ^ unat (zns_lbads (dev_zns d))"
    and "sg \<noteq> [] \<Longrightarrow> sg_bytes sg = unat nlb * 2 ^ unat (zns_lbads (dev_zns d))"
    using m(2) len by (auto split: if_splits)
qed

lemma zone_end_in_namespace:
  assumes "geom_ok n" "length (zone_array n) = unat (num_zones n)" "i < length (zone_array n)"
  shows "unat (d_zslba (z_d (zone_array n ! i))) + unat (d_zcap (z_d (zone_array n ! i))) \<le> unat (zns_nsze n)"
proof -
  have "unat (d_zslba (z_d (zone_array n ! i))) + unat (d_zcap (z_d (zone_array n ! i))) \<le>
      i * unat (zone_size n) + unat (zone_size n)"
    using assms by (auto simp: geom_ok_def)
  also have "\<dots> = Suc i * unat (zone_size n)" by simp
  also have "\<dots> \<le> unat (num_zones n) * unat (zone_size n)" using assms by (intro mult_right_mono) simp_all
  finally show ?thesis using assms(1) by (simp add: geom_ok_def)
qed

lemma err_result_nonzero [simp]: "status OR sc NVME_DNR \<noteq> (0 :: u16)"
  by (simp add: or_eq_0_iff)

text \<open>What a completed write did to zone \<open>i\<close>, whose write pointer was \<open>wptr\<close>: both pointers moved by
  the length of the write, the zone became full exactly at the end of its writable part, and the
  command reports the address written.\<close>

definition wrote_zone :: "zns \<Rightarrow> zns \<Rightarrow> nat \<Rightarrow> u32 \<Rightarrow> bool" where
  "wrote_zone n n' i nlb \<longleftrightarrow>
     (let z = zone_array n ! i; z' = zone_array n' ! i
      in unat (w_ptr z') = unat (w_ptr z) + unat nlb \<and>
         unat (d_wp (z_d z')) \<le> unat (w_ptr z') \<and>
         zone_state n' i \<noteq> NVME_ZONE_STATE_EMPTY \<and>
         (zone_state n' i = NVME_ZONE_STATE_FULL \<longrightarrow> unat (w_ptr z') = unat (d_zslba (z_d z)) + unat (d_zcap (z_d z))))"

text \<open>The part of a write that changes zones, for a write the checks let through.\<close>

lemma advance_finalize:
  assumes inv: "zns_inv n" and i: "zns_get_zone_by_slba n slba = Some i"
    and st: "zone_state n i = NVME_ZONE_STATE_EMPTY \<or> is_active_state (zone_state n i)"
    and fits: "unat (w_ptr (zone_array n ! i)) + unat nlb \<le>
      unat (d_zslba (z_d (zone_array n ! i))) + unat (d_zcap (z_d (zone_array n ! i)))"
    and nlb: "nlb \<noteq> (0::u32)"
    and ce: "zone_state n i = NVME_ZONE_STATE_EMPTY \<Longrightarrow> zns_aor_check n 1 1 = sc NVME_SUCCESS"
    and cc: "zone_state n i = NVME_ZONE_STATE_CLOSED \<Longrightarrow> zns_aor_check n 0 1 = sc NVME_SUCCESS"
  obtains n1 n2 where "zns_advance_zone_wp n i nlb = Some (w_ptr (zone_array n ! i), n1)" "zns_inv n1"
    "static n1 = static n" "zns_finalize_zoned_write n1 slba nlb = Some n2" "zns_inv n2" "static n2 = static n"
    "wrote_zone n n2 i nlb"
proof -
  note D = zns_invD [OF inv]
  have il: "i < length (zone_array n)"
    using i D(1) by (auto simp: zns_get_zone_by_slba_def Let_def word_less_nat_alt split: if_splits)
  obtain n1 where n1: "zns_advance_zone_wp n i nlb = Some (w_ptr (zone_array n ! i), n1)" "zns_inv n1"
    "static n1 = static n" "unat (w_ptr (zone_array n1 ! i)) = unat (w_ptr (zone_array n ! i)) + unat nlb"
    "zone_state n1 i = NVME_ZONE_STATE_EMPTY \<or> is_active_state (zone_state n1 i)"
    "unat (d_wp (z_d (zone_array n1 ! i))) + unat nlb \<le> unat (w_ptr (zone_array n1 ! i))"
    "zone_state n1 i = NVME_ZONE_STATE_EMPTY \<Longrightarrow>
       unat (d_wp (z_d (zone_array n1 ! i))) + unat nlb =
       unat (d_zslba (z_d (zone_array n ! i))) + unat (d_zcap (z_d (zone_array n ! i)))"
    using zns_advance_inv [OF inv il st fits nlb ce cc] by blast
  note same = zone_array_static [OF n1(3) il]
  have i1: "zns_get_zone_by_slba n1 slba = Some i" using i static_zone_idx(2) [OF n1(3)] by simp
  obtain n2 where n2: "zns_finalize_zoned_write n1 slba nlb = Some n2" "zns_inv n2" "static n2 = static n1"
    "zone_state n2 i = (if unat (d_wp (z_d (zone_array n1 ! i))) + unat nlb =
       unat (d_zslba (z_d (zone_array n1 ! i))) + unat (d_zcap (z_d (zone_array n1 ! i)))
       then NVME_ZONE_STATE_FULL else zone_state n1 i)"
    "unat (d_wp (z_d (zone_array n2 ! i))) = unat (d_wp (z_d (zone_array n1 ! i))) + unat nlb"
    "w_ptr (zone_array n2 ! i) = w_ptr (zone_array n1 ! i)"
    using zns_finalize_inv [OF n1(2) i1 n1(5,6)] n1(4,7) fits same by auto
  have "wrote_zone n n2 i nlb"
    using n1(4-7) n2(4-6) same fits by (auto simp: wrote_zone_def Let_def split: if_splits)
  then show ?thesis using that n1(1-3) n2(1-3) by simp
qed

definition wr_slba :: "NvmeRequest \<Rightarrow> u64" where
  "wr_slba req = rw_slba (rw_of_cmd (req_cmd req))"

definition wr_nlb :: "NvmeRequest \<Rightarrow> u32" where
  "wr_nlb req = ucast (rw_nlb (rw_of_cmd (req_cmd req))) + 1"

lemma unat_wr_nlb: "unat (wr_nlb req) = unat (rw_nlb (rw_of_cmd (req_cmd req))) + 1"
proof -
  have "unat (rw_nlb (rw_of_cmd (req_cmd req))) < 2 ^ 16"
    using unsigned_less [of "rw_nlb (rw_of_cmd (req_cmd req))"] by simp
  then show ?thesis by (simp add: wr_nlb_def unat_word_ariths)
qed

lemma wr_nlb_range: "wr_nlb req \<noteq> 0" "unat (wr_nlb req) \<le> 2 ^ 16"
proof -
  have "unat (rw_nlb (rw_of_cmd (req_cmd req))) < 2 ^ 16"
    using unsigned_less [of "rw_nlb (rw_of_cmd (req_cmd req))"] by simp
  then show "unat (wr_nlb req) \<le> 2 ^ 16" using unat_wr_nlb [of req] by simp
  show "wr_nlb req \<noteq> 0" using unat_wr_nlb [of req] by auto
qed

lemma zns_map_dptr_zns [simp]: "zns_map_dptr (d\<lparr>dev_zns := n\<rparr>) = zns_map_dptr d"
  by (simp add: zns_map_dptr_def fun_eq_iff)

lemma wrote_zone_static:
  assumes "wrote_zone n1 n2 i nlb" "static n1 = static n" "i < length (zone_array n)"
    "w_ptr (zone_array n1 ! i) = w_ptr (zone_array n ! i)"
  shows "wrote_zone n n2 i nlb"
  using assms zone_array_static [OF assms(2,3)] by (auto simp: wrote_zone_def Let_def)

text \<open>A write returns on every input, keeps the device consistent, and when it succeeds the zone has
  moved on and the data is at the write pointer the zone had.\<close>

lemma zns_write_zone_ok:
  assumes ok: "zns_dev_ok d"
    and app: "\<And>i. a \<Longrightarrow> zns_get_zone_by_slba (dev_zns d) (wr_slba req) = Some i \<Longrightarrow>
      unat (w_ptr (zone_array (dev_zns d) ! i)) + unat (wr_nlb req) \<le>
      unat (d_zslba (z_d (zone_array (dev_zns d) ! i))) + unat (d_zcap (z_d (zone_array (dev_zns d) ! i)))"
  shows "\<exists>status req' d'. zns_write_zone d req a wrz = Some (status, req', d') \<and> zns_dev_ok d' \<and>
    static (dev_zns d') = static (dev_zns d) \<and>
    (status = 0 \<longrightarrow> (\<exists>i. zns_get_zone_by_slba (dev_zns d) (wr_slba req) = Some i \<and>
       wrote_zone (dev_zns d) (dev_zns d') i (wr_nlb req) \<and>
       (\<not> a \<longrightarrow> wr_slba req = w_ptr (zone_array (dev_zns d) ! i)) \<and>
       cqe_res64 (req_cqe req') = w_ptr (zone_array (dev_zns d) ! i) \<and>
       (\<not> wrz \<and> req_is_write req \<noteq> 0 \<longrightarrow>
         dev_be d' = (dev_be d)\<lparr>logical_space := overwrite (logical_space (dev_be d))
           (unat (zns_l2b (dev_zns d) (w_ptr (zone_array (dev_zns d) ! i)))) (sg_data (dev_host d) (req_qsg req'))\<rparr>)))"
    (is "\<exists>status req' d'. _ \<and> _ \<and> _ \<and> (_ \<longrightarrow> ?Q req' d')")
proof -
  let ?n = "dev_zns d" and ?slba = "wr_slba req" and ?nlb = "wr_nlb req"
  note W = zns_write_zone_def Let_def err_result_def wr_slba_def [symmetric] wr_nlb_def [symmetric]
  have inv: "zns_inv ?n" and geo: "geom_ok ?n" using ok by (simp_all add: zns_dev_ok_def)
  note D = zns_invD [OF inv]
  have fail: ?thesis if "zns_write_zone d req a wrz = Some (err_result d' req' status)"
    "zns_dev_ok d'" "static (dev_zns d') = static ?n" for d' req' status
    using that by (auto simp: err_result_def or_eq_0_iff)
  show ?thesis
  proof (cases "zns_check_bounds ?n ?slba ?nlb = 0")
    case False
    then show ?thesis by (intro fail [of d req "zns_check_bounds ?n ?slba ?nlb"]) (simp_all add: W ok)
  next
    case bounds: True
    note cb = check_bounds_ok [OF bounds]
    have "unat ?slba < unat (zns_nsze ?n)" using cb(1) unat_wr_nlb [of req] by simp
    from zns_get_zone_by_slba_ok [OF geo this] obtain i where i: "zns_get_zone_by_slba ?n ?slba = Some i"
      and il: "i < length (zone_array ?n)" using D(1) by auto
    let ?z = "zone_array ?n ! i"
    have wp: "wp_ok ?z (zns_get_zone_state ?z)" using D(5) [OF il] by (simp add: zone_state_def)
    from check_zone_write_ok [OF wp, of ?n ?slba ?nlb a] obtain st
      where st: "zns_check_zone_write ?n ?z ?slba ?nlb a = Some st"
      "st = 0 \<longrightarrow> (if a then ?slba = d_zslba (z_d ?z) else ?slba = w_ptr ?z) \<and>
        ?slba + ucast ?nlb \<le> zns_zone_wr_boundary ?z \<and>
        (zone_state ?n i = NVME_ZONE_STATE_EMPTY \<or> is_active_state (zone_state ?n i))"
      by (auto simp: zone_state_def)
    show ?thesis
    proof (cases "st = 0")
      case False
      then show ?thesis using bounds i st by (intro fail [of d req st]) (simp_all add: W ok)
    next
      case st0: True
      have fits: "unat (w_ptr ?z) + unat ?nlb \<le> unat (d_zslba (z_d ?z)) + unat (d_zcap (z_d ?z))"
      proof (cases a)
        case True then show ?thesis using app i by simp
      next
        case False
        then show ?thesis using st st0 cb(2) unat_wr_boundary [OF wp]
          by (auto simp: word_le_nat_alt unat_word_ariths)
      qed
      have stt: "zone_state ?n i = NVME_ZONE_STATE_EMPTY \<or> is_active_state (zone_state ?n i)"
        using st st0 by simp
      then have nf: "zone_state ?n i \<noteq> NVME_ZONE_STATE_FULL" by auto
      obtain as n1 where n1: "zns_auto_open_zone ?n i = Some (as, n1)" "zns_inv n1" "static n1 = static ?n"
        "zone_state n1 i = zone_state ?n i" "w_ptr (zone_array n1 ! i) = w_ptr ?z"
        "as = sc NVME_SUCCESS \<Longrightarrow> zone_state ?n i = NVME_ZONE_STATE_EMPTY \<Longrightarrow> zns_aor_check n1 1 1 = sc NVME_SUCCESS"
        "as = sc NVME_SUCCESS \<Longrightarrow> zone_state ?n i = NVME_ZONE_STATE_CLOSED \<Longrightarrow> zns_aor_check n1 0 1 = sc NVME_SUCCESS"
        using zns_auto_open_inv [OF inv il nf] by metis
      note s1 = zone_array_static [OF n1(3) il]
      have ok1: "zns_dev_ok (d\<lparr>dev_zns := n1\<rparr>)" by (rule zns_dev_ok_static [OF ok n1(2,3)])
      show ?thesis
      proof (cases "as = 0")
        case False
        then show ?thesis using bounds i st st0 n1(1,3)
          by (intro fail [of "d\<lparr>dev_zns := n1\<rparr>" req as]) (simp_all add: W ok1)
      next
        case as0: True
        have i1: "zns_get_zone_by_slba n1 ?slba = Some i" using i static_zone_idx(2) [OF n1(3)] by simp
        obtain n2 n3 where n2: "zns_advance_zone_wp n1 i ?nlb = Some (w_ptr ?z, n2)" "zns_inv n2"
          "static n2 = static n1" "zns_finalize_zoned_write n2 ?slba ?nlb = Some n3" "zns_inv n3"
          "static n3 = static n1" "wrote_zone n1 n3 i ?nlb"
          using advance_finalize [OF n1(2) i1, of ?nlb] stt fits n1(4-7) as0 wr_nlb_range(1) s1 by auto
        have ok2: "zns_dev_ok (d\<lparr>dev_zns := n2\<rparr>)" and ok3: "zns_dev_ok (d\<lparr>dev_zns := n3\<rparr>)"
          using zns_dev_ok_static [OF ok] n1(3) n2(2,3,5,6) by simp_all
        have wrote: "wrote_zone ?n n3 i ?nlb" by (rule wrote_zone_static [OF n2(7) n1(3) il n1(5)])
        have l2b: "zns_l2b n2 = zns_l2b ?n"
          using static_lbads [of n2 ?n] n1(3) n2(3) by (simp add: zns_l2b_def fun_eq_iff)
        have slba: "\<not> a \<Longrightarrow> ?slba = w_ptr ?z" using st st0 by simp
        note steps = bounds i st(1) st0 n1(1,5) as0 n2(1,4) l2b slba
        show ?thesis
        proof (cases wrz)
          case True
          then show ?thesis using steps n1(3) n2(6) wrote ok3
            by (intro exI [of _ 0] exI [of _ "set_result64 (w_ptr ?z) req"] exI [of _ "d\<lparr>dev_zns := n3\<rparr>"])
              (auto simp: W set_result64_def)
        next
          case False
          obtain ms sg where m: "zns_map_dptr d (zns_l2b ?n (ucast ?nlb)) (req_cmd req) = (ms, sg)" by fastforce
          let ?req = "(set_result64 (w_ptr ?z) req)\<lparr>req_qsg := sg\<rparr>"
          show ?thesis
          proof (cases "ms = 0")
            case False
            then show ?thesis using steps m \<open>\<not> wrz\<close> n1(3) n2(3) ok2
              by (intro fail [of "d\<lparr>dev_zns := n2\<rparr>" ?req ms]) (auto simp: W set_result64_def)
          next
            case True
            have end': "unat (w_ptr ?z) + unat ?nlb \<le> unat (zns_nsze ?n)"
              using zone_end_in_namespace [OF geo D(1) il] fits by simp
            have room: "unat (zns_l2b ?n (w_ptr ?z)) + sg_bytes sg \<le> be_size (dev_be d)"
              using zns_l2b_fits [OF ok, of "w_ptr ?z" "ucast ?nlb"] end'
                zns_map_dptr_bytes(1) [OF ok m [unfolded True] end' wr_nlb_range(2)] by simp
            have be: "backend_ok (dev_be d)" using ok by (simp add: zns_dev_ok_def)
            have off: "zns_l2b n2 (if a then w_ptr (zone_array n1 ! i) else ?slba) = zns_l2b ?n (w_ptr ?z)"
              using slba l2b n1(5) by simp
            obtain be' h' where rw: "backend_rw (dev_be d) (dev_host d) sg [zns_l2b ?n (w_ptr ?z)] (req_is_write req \<noteq> 0) = Some (be', h')"
              "be' = (if req_is_write req \<noteq> 0 then (dev_be d)\<lparr>logical_space := overwrite (logical_space (dev_be d))
                (unat (zns_l2b ?n (w_ptr ?z))) (sg_data (dev_host d) sg)\<rparr> else dev_be d)"
              using backend_write_loop [OF be room] backend_read_loop [OF be room]
              by (cases "req_is_write req = 0") (fastforce simp: backend_rw_def)+
            have be': "backend_ok be'" "be_size be' = be_size (dev_be d)"
              using be rw(2) room by (auto simp: backend_ok_def linear_mode_def)
            have "zns_write_zone d req a wrz = Some (0, ?req, d\<lparr>dev_zns := n3, dev_be := be', dev_host := h'\<rparr>)"
              using steps m True \<open>\<not> wrz\<close> rw(1) off by (auto simp: W set_result64_def)
            moreover have "zns_dev_ok (d\<lparr>dev_zns := n3, dev_be := be', dev_host := h'\<rparr>)"
              using ok3 be' by (simp add: zns_dev_ok_def)
            ultimately show ?thesis
              using n1(3) n2(6) i wrote slba rw(2) by (auto simp: set_result64_def)
          qed
        qed
      qed
    qed
  qed
qed

subsection \<open>Zone management\<close>

lemma static_zd_extensions_inv:
  "zns_inv (n\<lparr>zd_extensions := e\<rparr>) = zns_inv n" "geom_ok (n\<lparr>zd_extensions := e\<rparr>) = geom_ok n"
  by (simp_all add: zns_inv_def queues_ok_def queue_ok_def wps_ok_def zone_count_def aor_ok_def
      zone_state_def geom_ok_def)

lemma mgmt_zone_ok:
  assumes "zns_dev_ok d" "zns_get_mgmt_zone_slba_idx (dev_zns d) cmd = r"
  shows "\<exists>status slba idx. r = Some (status, slba, idx) \<and>
    (status = 0 \<longrightarrow> unat idx < length (zone_array (dev_zns d)))"
  using assms zns_zone_idx_div [of "dev_zns d" "qword (cmd_cdw10 cmd) (cmd_cdw11 cmd)"]
  by (auto simp: zns_get_mgmt_zone_slba_idx_def zns_dev_ok_def zns_inv_def Let_def not_le word_less_nat_alt or_eq_0_iff)

text \<open>Every zone management command keeps the device consistent; only setting a zone descriptor
  extension, which reads host memory, can stop in the DMA layer.\<close>

lemma zns_mgmt_send_ok:
  assumes ok: "zns_dev_ok d" and z: "num_zones (dev_zns d) \<noteq> 0"
  shows "case zns_zone_mgmt_send d cmd of
      None \<Rightarrow> ucast (cmd_cdw13 cmd AND 0xff) = zone_action NVME_ZONE_ACTION_SET_ZD_EXT
    | Some (status, d') \<Rightarrow> zns_dev_ok d'"
proof -
  let ?n = "dev_zns d"
  let ?all = "cmd_cdw13 cmd AND 0x100 \<noteq> 0"
  have inv: "zns_inv ?n" using ok by (simp add: zns_dev_ok_def)
  define r where "r = (if ?all then Some (sc NVME_SUCCESS, 0, 0) else zns_get_mgmt_zone_slba_idx ?n cmd)"
  have "0 < length (zone_array ?n)" using z inv by (simp add: zns_inv_def unat_gt_0)
  then have "\<exists>status slba idx. r = Some (status, slba, idx) \<and> (status = 0 \<longrightarrow> unat idx < length (zone_array ?n))"
    using mgmt_zone_ok [OF ok refl, of cmd] unfolding r_def by (cases ?all) auto
  then obtain status slba idx where r: "r = Some (status, slba, idx)"
    "status = 0 \<Longrightarrow> unat idx < length (zone_array ?n)" by blast
  show ?thesis
  proof (cases "status = 0")
    case False
    then show ?thesis using ok r by (simp add: zns_zone_mgmt_send_def Let_def flip: r_def)
  next
    case True
    note il = r(2) [OF True]
    define good where "good r \<longleftrightarrow> (\<exists>st d'. r = Some (st, d') \<and> zns_dev_ok d')" for r :: "(u16 \<times> zns_dev) option"
    have send: "good (send_result d x)"
      if "\<exists>st n'. x = Some (st, n') \<and> zns_inv n' \<and> static n' = static ?n" for x
      using that zns_dev_ok_static [OF ok] by (auto simp: send_result_def good_def)
    have reset: "good (map_option (\<lambda>(_, n). (0, d\<lparr>dev_zns := n\<rparr>)) x)"
      if "\<exists>st n'. x = Some (st, n') \<and> zns_inv n' \<and> static n' = static ?n" for x
      using that zns_dev_ok_static [OF ok] by (auto simp: good_def)
    have here: "good (Some (st, d))" for st using ok by (simp add: good_def)
    note ops = send [OF zone_open.do_zone_op_inv [OF inv il]] send [OF zone_close.do_zone_op_inv [OF inv il]]
      send [OF zone_finish.do_zone_op_inv [OF inv il]] send [OF zone_offline.do_zone_op_inv [OF inv il]]
      reset [OF zone_reset.do_zone_op_inv [OF inv il]]
    have ext: "good (send_result (d\<lparr>dev_zns := ?n\<lparr>zd_extensions := e\<rparr>\<rparr>) (zns_set_zd_ext (?n\<lparr>zd_extensions := e\<rparr>) (unat idx)))"
      "zns_dev_ok (d\<lparr>dev_zns := ?n\<lparr>zd_extensions := e\<rparr>\<rparr>)" for e
    proof -
      show ok': "zns_dev_ok (d\<lparr>dev_zns := ?n\<lparr>zd_extensions := e\<rparr>\<rparr>)"
        using ok by (simp add: zns_dev_ok_def static_zd_extensions_inv)
      have "\<exists>st n'. zns_set_zd_ext (?n\<lparr>zd_extensions := e\<rparr>) (unat idx) = Some (st, n') \<and> zns_inv n' \<and>
          static n' = static (?n\<lparr>zd_extensions := e\<rparr>)"
        using inv il by (intro zns_set_zd_ext_inv) (simp_all add: static_zd_extensions_inv)
      then show "good (send_result (d\<lparr>dev_zns := ?n\<lparr>zd_extensions := e\<rparr>\<rparr>)
          (zns_set_zd_ext (?n\<lparr>zd_extensions := e\<rparr>) (unat idx)))"
        using zns_dev_ok_static [OF ok'] by (auto simp: send_result_def good_def)
    qed
    let ?act = "ucast (cmd_cdw13 cmd AND 0xff) :: u8"
    have "good (zns_zone_mgmt_send d cmd)" if "?act \<noteq> zone_action NVME_ZONE_ACTION_SET_ZD_EXT"
      using that r True by (auto simp: zns_zone_mgmt_send_def Let_def here ops simp flip: r_def)
    moreover have "good (Some x)"
      if act: "?act = zone_action NVME_ZONE_ACTION_SET_ZD_EXT" and sx: "zns_zone_mgmt_send d cmd = Some x" for x
    proof -
      have ext1: "send_result (d\<lparr>dev_zns := ?n\<lparr>zd_extensions := e\<rparr>\<rparr>)
          (zns_set_zd_ext (?n\<lparr>zd_extensions := e\<rparr>) (unat idx)) = Some y \<Longrightarrow> good (Some y)" for e y
        using ext(1) [of e] by simp
      have ext2: "good (Some (st, d\<lparr>dev_zns := ?n\<lparr>zd_extensions := e\<rparr>\<rparr>))" for st e
        using ext(2) by (simp add: good_def)
      show ?thesis
        using sx act r True ext1 ext2 here
        by (cases x)
          (auto simp: zns_zone_mgmt_send_def Let_def bind_eq_Some_conv simp flip: r_def split: if_splits)
    qed
    ultimately show ?thesis by (cases "zns_zone_mgmt_send d cmd") (auto simp: good_def)
  qed
qed

end
