(* ===== verification/Zns_Props.thy ===== *)
theory Zns_Props
  imports Zns_Write
begin

text \<open>
  Initialisation of the zoned namespace, and the properties of its commands.
\<close>

subsection \<open>Initialisation\<close>

lemma unat_two_power:
  assumes "k < LENGTH('a)"
  shows "unat (2 ^ k :: 'a::len word) = 2 ^ k"
  using assms unat_push_bit_less [of "1 :: 'a word" k] by simp

lemma highest_bit_power:
  assumes "k < LENGTH('a)"
  shows "highest_bit (2 ^ k :: 'a::len word) = k"
proof -
  have "fold (\<lambda>i acc. if bit (2 ^ k :: 'a word) i then i else acc) [0..<m] 0 = (if k < m then k else 0)"
    if "m \<le> LENGTH('a)" for m
    using that by (induction m) (auto simp: bit_exp_iff)
  then show ?thesis using assms by (simp add: highest_bit_def)
qed

lemma nth_init_zones:
  assumes "unat start + k * unat zsize \<le> unat capacity"
  shows "length (zns_init_zones k start zsize capacity cap) = k"
    and "i < k \<Longrightarrow> zns_init_zones k start zsize capacity cap ! i = zns_init_zone (start + of_nat i * zsize) cap"
proof -
  have "zns_init_zones k start zsize capacity cap = map (\<lambda>i. zns_init_zone (start + of_nat i * zsize) cap) [0..<k]"
    using assms
  proof (induction k arbitrary: start)
    case (Suc k)
    have "unat capacity < 2 ^ 64" using unsigned_less [of capacity] by simp
    then have u: "unat (start + zsize) = unat start + unat zsize"
      using Suc.prems by (simp add: unat_word_ariths)
    then have "\<not> capacity < start + zsize" using Suc.prems by (simp add: word_less_nat_alt)
    moreover have "zns_init_zones k (start + zsize) zsize capacity cap =
        map (\<lambda>i. zns_init_zone (start + of_nat (Suc i) * zsize) cap) [0..<k]"
      using Suc u by (subst Suc.IH) (simp_all add: algebra_simps)
    ultimately show ?case by (simp add: upt_conv_Cons map_Suc_upt [symmetric] del: upt_Suc)
  qed simp
  then show "length (zns_init_zones k start zsize capacity cap) = k"
    and "i < k \<Longrightarrow> zns_init_zones k start zsize capacity cap ! i = zns_init_zone (start + of_nat i * zsize) cap"
    by simp_all
qed

lemma zns_init_eq:
  assumes l: "unat (zns_lbads n) \<le> 27"
  defines "k \<equiv> 27 - unat (zns_lbads n)"
  shows "zone_size (zns_init n) = 2 ^ k" "zone_size_log2 (zns_init n) = of_nat k \<or> zone_size_log2 (zns_init n) = 0"
    "zone_capacity (zns_init n) = 2 ^ k"
    "zone_array (zns_init n) = zns_init_zones (unat (num_zones (zns_init n))) 0 (2 ^ k)
      (ucast (num_zones (zns_init n)) * 2 ^ k) (2 ^ k)"
    "zns_nsze (zns_init n) = ucast (num_zones (zns_init n)) * 2 ^ k"
    "num_zones (zns_init n) = ucast (zns_size n div 2 ^ unat (zns_lbads n) div 2 ^ k)"
    "exp_open_zones (zns_init n) = []" "imp_open_zones (zns_init n) = []" "closed_zones (zns_init n) = []"
    "full_zones (zns_init n) = []" "max_open_zones (zns_init n) = 0" "max_active_zones (zns_init n) = 0"
    "nr_open_zones (zns_init n) = nr_open_zones n" "nr_active_zones (zns_init n) = nr_active_zones n"
proof -
  let ?l = "unat (zns_lbads n)"
  let ?b = "2 ^ ?l :: u32"
  have ub: "unat ?b = 2 ^ ?l" using l by (intro unat_two_power) simp
  have cb: "(ucast ?b :: u64) = 2 ^ ?l"
    using ub l by (simp add: word_unat_eq_iff unat_two_power)
  have z: "(0x8000000 :: u64) div ucast ?b = 2 ^ k"
  proof -
    have "(2::nat) ^ 27 div 2 ^ ?l = 2 ^ k" using l by (simp add: k_def power_diff)
    then show ?thesis using ub unat_two_power [where 'a = 64, of k] by (simp add: word_unat_eq_iff unat_div k_def)
  qed
  have nb: "\<not> (0x8000000 :: u64) < ucast ?b"
    using ub power_increasing [OF l, of "2::nat"] by (simp add: word_less_nat_alt)
  have hb: "highest_bit (2 ^ k :: u64) = k" by (rule highest_bit_power) (simp add: k_def)
  have "zns_init n = (let m = n\<lparr>z_zoned := True, zasl_bs := NVME_DEFAULT_MAX_AZ_SIZE, zone_size_bs := NVME_DEFAULT_ZONE_SIZE,
       zone_cap_bs := False, cross_zone_read := False, max_active_zones := 0, max_open_zones := 0,
       zd_extension_size := 0, zone_size := 2 ^ k, zone_capacity := 2 ^ k,
       num_zones := ucast (zns_size n div ucast ?b div 2 ^ k)\<rparr> in zns_init_zone_identify m 0)"
    using nb z by (simp add: zns_init_def zns_init_zone_cap_def zns_init_zone_geometry_def Let_def
        NVME_DEFAULT_ZONE_SIZE_def)
  note E = this [unfolded cb] zns_init_zone_identify_def zns_init_zoned_state_def Let_def hb
  show "zone_size (zns_init n) = 2 ^ k" "zone_size_log2 (zns_init n) = of_nat k \<or> zone_size_log2 (zns_init n) = 0"
    "zone_capacity (zns_init n) = 2 ^ k"
    "zone_array (zns_init n) = zns_init_zones (unat (num_zones (zns_init n))) 0 (2 ^ k)
      (ucast (num_zones (zns_init n)) * 2 ^ k) (2 ^ k)"
    "zns_nsze (zns_init n) = ucast (num_zones (zns_init n)) * 2 ^ k"
    "num_zones (zns_init n) = ucast (zns_size n div 2 ^ unat (zns_lbads n) div 2 ^ k)"
    "exp_open_zones (zns_init n) = []" "imp_open_zones (zns_init n) = []" "closed_zones (zns_init n) = []"
    "full_zones (zns_init n) = []" "max_open_zones (zns_init n) = 0" "max_active_zones (zns_init n) = 0"
    "nr_open_zones (zns_init n) = nr_open_zones n" "nr_active_zones (zns_init n) = nr_active_zones n"
    by (simp_all add: E)
qed

lemma init_zone_simps [simp]:
  "zns_get_zone_state (zns_init_zone start cap) = NVME_ZONE_STATE_EMPTY"
  "d_zslba (z_d (zns_init_zone start cap)) = start" "d_zcap (z_d (zns_init_zone start cap)) = cap"
  "d_wp (z_d (zns_init_zone start cap)) = start" "w_ptr (zns_init_zone start cap) = start"
  using zone_state_of_code_code [of NVME_ZONE_STATE_EMPTY]
  by (simp_all add: zns_init_zone_def zns_get_zone_state_def)

lemma zns_init_ok:
  assumes l: "unat (zns_lbads n) \<le> 27" and c: "nr_open_zones n = 0" "nr_active_zones n = 0"
  shows "zns_inv (zns_init n)" "geom_ok (zns_init n)"
    "i < length (zone_array (zns_init n)) \<Longrightarrow> zone_state (zns_init n) i = NVME_ZONE_STATE_EMPTY"
proof -
  let ?n = "zns_init n"
  define k where "k = 27 - unat (zns_lbads n)"
  note E = zns_init_eq [OF l, folded k_def]
  have k: "k < 64" "k \<le> 27" by (simp_all add: k_def)
  have zs: "unat (2 ^ k :: u64) = 2 ^ k" using k by (intro unat_two_power) simp
  have nz: "unat (num_zones ?n) < 2 ^ 32" using unsigned_less [of "num_zones ?n"] by simp
  then have "unat (num_zones ?n) * 2 ^ k \<le> 2 ^ 32 * 2 ^ 27" using k by (intro mult_mono power_increasing) simp_all
  then have tot: "unat (ucast (num_zones ?n) * 2 ^ k :: u64) = unat (num_zones ?n) * 2 ^ k"
    using zs by (simp add: unat_word_ariths)
  have A: "length (zone_array ?n) = unat (num_zones ?n)"
    "\<And>i. i < unat (num_zones ?n) \<Longrightarrow> zone_array ?n ! i = zns_init_zone (of_nat i * 2 ^ k) (2 ^ k)"
    using nth_init_zones [of 0 "unat (num_zones ?n)" "2 ^ k" "ucast (num_zones ?n) * 2 ^ k"] tot zs
    by (simp_all add: E(4))
  have start: "unat (of_nat i * 2 ^ k :: u64) = i * 2 ^ k" "i * 2 ^ k + 2 ^ k < (2 :: nat) ^ 64"
    if i: "i < unat (num_zones ?n)" for i
  proof -
    have "Suc i * 2 ^ k \<le> 2 ^ 32 * (2 :: nat) ^ 27" using i nz k by (intro mult_mono power_increasing) simp_all
    then show lt: "i * 2 ^ k + 2 ^ k < (2 :: nat) ^ 64" by simp
    have "unat (of_nat i :: u64) = i" using i nz by (simp add: unsigned_of_nat take_bit_nat_eq_self)
    then show "unat (of_nat i * 2 ^ k :: u64) = i * 2 ^ k" using lt zs by (simp add: unat_word_ariths)
  qed
  have st: "zone_state ?n i = NVME_ZONE_STATE_EMPTY" if "i < unat (num_zones ?n)" for i
    using that by (simp add: zone_state_def A)
  then show "i < length (zone_array ?n) \<Longrightarrow> zone_state ?n i = NVME_ZONE_STATE_EMPTY" by (simp add: A)
  have "zone_count ?n is_open_state = 0" "zone_count ?n is_active_state = 0"
    using st by (auto simp: zone_count_def A)
  then show "zns_inv ?n"
    using st start zs by (auto simp: zns_inv_def A queues_ok_def queue_ok_def E(7-14) wps_ok_def wp_ok_def
        aor_ok_def Let_def c)
  show "geom_ok ?n"
    using E(2) A start k zs tot by (auto simp: geom_ok_def E(1,5) unsigned_of_nat take_bit_nat_eq_self)
qed

subsection \<open>Properties\<close>

lemma backend_read_same: "backend_rw_loop sg lbal False b h k off = Some (b', h') \<Longrightarrow> b' = b"
proof (induction sg arbitrary: h k off)
  case (Cons e sg)
  then show ?case
    by (cases "be_femu_mode b = femu_mode_code FEMU_OCSSD_MODE")
      (auto simp: Let_def split: if_splits)
qed simp

lemma zns_read_same:
  assumes "zns_read d req = Some (status, req', d')"
  shows "dev_zns d' = dev_zns d" "dev_be d' = dev_be d" "dev_dma d' = dev_dma d"
  using assms backend_read_same
  by (auto simp: zns_read_def Let_def err_result_def bind_eq_Some_conv backend_rw_def split: if_splits prod.splits)

lemma zns_mgmt_recv_same:
  assumes "zns_zone_mgmt_recv d cmd = Some (status, d')"
  shows "dev_zns d' = dev_zns d" "dev_be d' = dev_be d" "dev_dma d' = dev_dma d"
  using assms by (auto simp: zns_zone_mgmt_recv_def Let_def bind_eq_Some_conv split: if_splits prod.splits)

lemma zns_write_via_zone:
  assumes "z_zoned (dev_zns d)"
  shows "(\<exists>status. zns_write d req = Some (err_result d (req\<lparr>req_is_write := 1\<rparr>) status)) \<or>
    zns_write d req = zns_write_zone d (req\<lparr>req_is_write := 1\<rparr>) False False"
  using assms by (auto simp: zns_write_def Let_def)

lemma wr_is_write [simp]:
  "wr_slba (req\<lparr>req_is_write := k\<rparr>) = wr_slba req" "wr_nlb (req\<lparr>req_is_write := k\<rparr>) = wr_nlb req"
  by (simp_all add: wr_slba_def wr_nlb_def)

text \<open>The zoned namespace set up by \<open>zns_init\<close> satisfies the zone invariant, every zone is empty with
  its write pointer at its start, and the zones tile the namespace without running past the backing
  store, for every block size up to the zone size.\<close>

theorem zns_init_establishes_invariant:
  assumes "unat (zns_lbads n) \<le> 27" "nr_open_zones n = 0" "nr_active_zones n = 0"
  shows "zns_inv (zns_init n) \<and> geom_ok (zns_init n) \<and>
    (\<forall>i < length (zone_array (zns_init n)). zone_state (zns_init n) i = NVME_ZONE_STATE_EMPTY \<and>
       w_ptr (zone_array (zns_init n) ! i) = d_zslba (z_d (zone_array (zns_init n) ! i)))"
proof -
  note I = zns_init_ok [OF assms]
  have "w_ptr (zone_array (zns_init n) ! i) = d_zslba (z_d (zone_array (zns_init n) ! i))"
    if "i < length (zone_array (zns_init n))" for i
  proof -
    have "set (zns_init_zones k start zsize capacity cap) \<subseteq> {z. \<exists>s. z = zns_init_zone s cap}"
      for k start zsize capacity cap
      by (induction k arbitrary: start zsize) (auto simp: Let_def)
    then show ?thesis using that nth_mem [OF that] unfolding zns_init_eq(4) [OF assms(1)] by fastforce
  qed
  then show ?thesis using I by simp
qed


text \<open>C26: Every command of the zoned namespace other than zone append keeps the device consistent: the
  queues agree with the zone states, the open and active counters agree with them and respect their
  limits, and the write pointers stay inside the zones.\<close>

theorem zns_io_cmd_keeps_device:
  assumes "zns_dev_ok d" "z_zoned (dev_zns d)" "num_zones (dev_zns d) \<noteq> 0"
    and "cmd_opcode (req_cmd req) \<noteq> io_opcode NVME_CMD_ZONE_APPEND"
    and "zns_io_cmd d req = Some (status, req', d')"
  shows "zns_dev_ok d'"
proof -
  have same: "zns_dev_ok d'" if "dev_zns d' = dev_zns d" "dev_be d' = dev_be d" "dev_dma d' = dev_dma d" for d'
    using assms(1) that by (simp add: zns_dev_ok_def)
  have wr: "zns_dev_ok d'" if "zns_write d req = Some (status, req', d')"
    using that zns_write_via_zone [OF assms(2), of req] assms(1)
      zns_write_zone_ok [OF assms(1), of False "req\<lparr>req_is_write := 1\<rparr>" False]
    by (auto simp: err_result_def)
  show ?thesis
    using assms(4,5) same zns_read_same zns_mgmt_recv_same wr
      zns_mgmt_send_ok [OF assms(1,3), of "req_cmd req"]
    by (auto simp: zns_io_cmd_def Let_def split: if_splits option.splits)
qed

subsection \<open>A small device\<close>

text \<open>Two zones of four one-byte blocks; zone 0 is implicitly open with three blocks written, zone 1
  is empty.\<close>

definition ex_zns :: zns where
  "ex_zns =
     \<lparr>z_zoned = True, cross_zone_read = False, zone_size_bs = 4, zone_cap_bs = False, max_active_zones = 2,
      max_open_zones = 1, zd_extension_size = 0,
      zone_array = [\<lparr>z_d = \<lparr>d_zt = NVME_ZONE_TYPE_SEQ_WRITE, d_zs = push_bit 4 (zone_state_code NVME_ZONE_STATE_IMPLICITLY_OPEN),
          d_za = 0, d_zcap = 4, d_zslba = 0, d_wp = 3\<rparr>, w_ptr = 3\<rparr>, zns_init_zone 4 4],
      exp_open_zones = [], imp_open_zones = [0], closed_zones = [], full_zones = [], num_zones = 2, zone_size = 4,
      zone_capacity = 4, zone_size_log2 = 2, zd_extensions = [], nr_open_zones = 1, nr_active_zones = 1,
      zasl_bs = 0x20000, zasl = 5, z_csi = 2, id_ns_zoned = None, z_page_size = 4096, z_mdts = 5, z_err_rec = 0,
      zns_size = 8, zns_lbads = 0, zns_nsze = 8, zns_ncap = 8, zns_nuse = 8, zns_npdg = 0, zns_nsfeat = 0\<rparr>"

definition ex_dev :: zns_dev where
  "ex_dev = \<lparr>dev_zns = ex_zns,
     dev_dma = \<lparr>dma_page_size = 4096, dma_page_bits = 12, dma_max_prp_ents = 512, dma_cmbsz = 0, ctrl_mem_addr = 0,
       ctrl_mem_size = 0, dma_cmbuf = []\<rparr>,
     dev_host = (\<lambda>a. ucast a), dev_be = \<lparr>logical_space = replicate 8 0, be_size = 8,
       be_femu_mode = femu_mode_code FEMU_ZNSSD_MODE\<rparr>\<rparr>"

definition ex_cmd :: "NvmeIoCommands \<Rightarrow> u32 \<Rightarrow> u32 \<Rightarrow> NvmeCmd" where
  "ex_cmd opc slba nlb0 = \<lparr>cmd_opcode = io_opcode opc, cmd_fuse = 0, cmd_psdt = 0, cmd_cid = 1, cmd_nsid = 1,
     cmd_res2 = 0, cmd_mptr = 0, cmd_prp1 = 0x1005, cmd_prp2 = 0, cmd_cdw10 = slba, cmd_cdw11 = 0,
     cmd_cdw12 = nlb0, cmd_cdw13 = 0, cmd_cdw14 = 0, cmd_cdw15 = 0\<rparr>"

definition ex_req :: "NvmeCmd \<Rightarrow> NvmeRequest" where
  "ex_req c = \<lparr>req_sq = 1, req_status = 0, req_slba = 0, req_is_write = 1, req_nlb = 0, req_ctrl = 0,
     req_meta_size = 0, req_mptr = 0, req_cmd = c,
     req_cqe = \<lparr>cqe_res64 = 0, cqe_sq_head = 0, cqe_sq_id = 1, cqe_cid = 1, cqe_status = 0\<rparr>,
     req_cmd_opcode = cmd_opcode c, req_qsg = [], req_stime = 0, req_reqlat = 0, req_gcrt = 0,
     req_expire_time = 0, req_predef = 0, req_pos = 0\<rparr>"

lemma ex_states:
  "zone_state ex_zns i = (if i = 0 then NVME_ZONE_STATE_IMPLICITLY_OPEN else if i = 1 then NVME_ZONE_STATE_EMPTY
     else zns_get_zone_state ([] ! (i - 2)))"
  by (auto simp: zone_state_def ex_zns_def zns_get_zone_state_def nth_Cons zns_init_zone_def
      zone_state_of_code_def split: nat.split)

lemma ex_inv: "zns_inv ex_zns"
proof -
  have le: "i < 2 \<longleftrightarrow> i = 0 \<or> i = Suc 0" for i :: nat by auto
  have l: "length (zone_array ex_zns) = 2" by (simp add: ex_zns_def)
  have o: "{i. i < 2 \<and> is_open_state (zone_state ex_zns i)} = {0}"
    "{i. i < 2 \<and> is_active_state (zone_state ex_zns i)} = {0}"
    by (auto simp: le ex_states)
  have c: "zone_count ex_zns is_open_state = 1" "zone_count ex_zns is_active_state = 1"
    by (simp_all only: zone_count_def l o) simp_all
  have q: "queues_ok ex_zns"
    unfolding queues_ok_def queue_ok_def l by (auto simp: le ex_states) (simp_all add: ex_zns_def)
  have w: "wps_ok ex_zns"
    unfolding wps_ok_def l by (auto simp: le ex_states wp_ok_def Let_def) (simp_all add: ex_zns_def)
  have a: "aor_ok ex_zns 1 1" by (simp add: aor_ok_def ex_zns_def)
  show ?thesis using q w a by (simp add: zns_inv_def c l) (simp add: ex_zns_def)
qed

lemma ex_dev_ok: "zns_dev_ok ex_dev"
proof -
  have "geom_ok ex_zns" by (auto simp: geom_ok_def ex_zns_def less_Suc_eq)
  then show ?thesis using ex_inv
    by (simp add: zns_dev_ok_def ex_dev_def backend_ok_def linear_mode_def) (simp add: ex_zns_def)
qed

theorem zns_init_establishes_invariant_witness:
  "zns_inv (zns_init (ex_zns\<lparr>zns_lbads := 12, zns_size := 0x40000000, nr_open_zones := 0, nr_active_zones := 0\<rparr>))"
  using zns_init_establishes_invariant
    [of "ex_zns\<lparr>zns_lbads := 12, zns_size := 0x40000000, nr_open_zones := 0, nr_active_zones := 0\<rparr>"] by simp


theorem zns_io_cmd_keeps_device_witness:
  "\<exists>status req' d'. zns_io_cmd ex_dev (ex_req (ex_cmd NVME_CMD_ZONE_MGMT_SEND 4 0)) = Some (status, req', d') \<and> zns_dev_ok d'"
proof -
  have "zns_io_cmd ex_dev (ex_req (ex_cmd NVME_CMD_ZONE_MGMT_SEND 4 0)) \<noteq> None"
    by code_simp
  then obtain status req' d' where r: "zns_io_cmd ex_dev (ex_req (ex_cmd NVME_CMD_ZONE_MGMT_SEND 4 0)) = Some (status, req', d')"
    by auto
  have "zns_dev_ok d'"
    by (rule zns_io_cmd_keeps_device [OF ex_dev_ok _ _ _ r]) code_simp+
  then show ?thesis using r by blast
qed

text \<open>Zone append looks for room at the start of the zone, not at its write pointer: on a zone of
  four blocks with three written, an append of two blocks succeeds, overwrites the first block of the
  next zone, and leaves the write pointer beyond the capacity with the zone open instead of full.\<close>

theorem zns_append_past_capacity:
  "map_option (\<lambda>(s, r, d). (s, cqe_res64 (req_cqe r), zone_state (dev_zns d) 0, w_ptr (zone_array (dev_zns d) ! 0),
       zns_zone_wr_boundary (zone_array (dev_zns d) ! 0), logical_space (dev_be d)))
     (zns_zone_append ex_dev (ex_req (ex_cmd NVME_CMD_ZONE_APPEND 0 1))) =
   Some (0, 3, NVME_ZONE_STATE_IMPLICITLY_OPEN, 5, 4, [0, 0, 0, 5, 6, 0, 0, 0])"
  by code_simp

end
