(* ===== verification/Ring.thy ===== *)
theory Ring
  imports Femu_Prelude "HOL-Library.Monad_Syntax"
begin

text \<open>
  The rings of \<open>femu/inc/rte_ring.h\<close> and \<open>femu/lib/rte_ring.c\<close> that carry requests between the NVMe
  pollers and the flash translation layer: 32-bit free-running head and tail indices over an array
  whose size is a power of two.  The operations here run one at a time, so the compare-and-set of
  the multi-producer path succeeds at once; waiting for a slower producer that never comes is the
  value \<open>None\<close>.  Slots beyond the header come from \<open>valloc\<close> and hold junk at first.
\<close>



subsection \<open>Data\<close>

datatype rte_ring_queue_behavior = RTE_RING_QUEUE_FIXED | RTE_RING_QUEUE_VARIABLE

datatype femu_ring_type = FEMU_RING_TYPE_SP_SC | FEMU_RING_TYPE_MP_SC | FEMU_RING_TYPE_MP_MC

record rte_ring_headtail =
  ht_head :: u32
  ht_tail :: u32
  ht_single :: u32

record 'a rte_ring =
  rg_flags :: u32
  rg_size :: u32
  rg_mask :: u32
  rg_capacity :: u32
  rg_prod :: rte_ring_headtail
  rg_cons :: rte_ring_headtail
  rg_slots :: "'a list"

definition RING_F_SP_ENQ :: u32 where "RING_F_SP_ENQ = 0x0001"
definition RING_F_SC_DEQ :: u32 where "RING_F_SC_DEQ = 0x0002"
definition RING_F_EXACT_SZ :: u32 where "RING_F_EXACT_SZ = 0x0004"
definition RTE_RING_SZ_MASK :: u32 where "RTE_RING_SZ_MASK = 0x0fffffff"

definition rte_align32pow2 :: "u32 \<Rightarrow> u32" where
  "rte_align32pow2 x0 =
     (let x = x0 - 1;
          x = x OR drop_bit 1 x; x = x OR drop_bit 2 x; x = x OR drop_bit 4 x;
          x = x OR drop_bit 8 x; x = x OR drop_bit 16 x
      in x + 1)"

definition POWEROF2 :: "u32 \<Rightarrow> bool" where
  "POWEROF2 x \<longleftrightarrow> (x - 1) AND x = 0"

subsection \<open>Copying\<close>

text \<open>The unrolled loop of \<open>ENQUEUE_PTRS\<close>: four elements at a time while \<open>i < limit\<close>.\<close>

function enqueue_blocks :: "nat \<Rightarrow> 'a list \<Rightarrow> 'a list \<Rightarrow> nat \<Rightarrow> nat \<Rightarrow> 'a list \<times> nat \<times> nat" where
  "enqueue_blocks limit objs ring i idx =
     (if i < limit
      then enqueue_blocks limit objs
        (ring[idx := objs ! i, idx + 1 := objs ! (i + 1), idx + 2 := objs ! (i + 2), idx + 3 := objs ! (i + 3)])
        (i + 4) (idx + 4)
      else (ring, i, idx))"
  by auto
termination by (relation "measure (\<lambda>(limit, objs, ring, i, idx). limit - i)") auto

text \<open>One element at a time: the cases of the \<open>switch\<close>, and the two loops of the wrapping branch.\<close>

primrec enqueue_each :: "nat \<Rightarrow> 'a list \<Rightarrow> 'a list \<Rightarrow> nat \<Rightarrow> nat \<Rightarrow> 'a list \<times> nat \<times> nat" where
  "enqueue_each 0 objs ring i idx = (ring, i, idx)"
| "enqueue_each (Suc k) objs ring i idx = enqueue_each k objs (ring[idx := objs ! i]) (i + 1) (idx + 1)"

definition ENQUEUE_PTRS :: "'a rte_ring \<Rightarrow> u32 \<Rightarrow> 'a list \<Rightarrow> u32 \<Rightarrow> 'a rte_ring" where
  "ENQUEUE_PTRS r prod_head objs n =
     (let idx = prod_head AND rg_mask r
      in if idx + n < rg_size r
         then (case enqueue_blocks (unat (n AND NOT 3)) objs (rg_slots r) 0 (unat idx) of (ring, i, idx) \<Rightarrow>
               case enqueue_each (unat (n AND 3)) objs ring i idx of (ring, _, _) \<Rightarrow> r\<lparr>rg_slots := ring\<rparr>)
         else (case enqueue_each (unat (rg_size r) - unat idx) objs (rg_slots r) 0 (unat idx) of (ring, i, _) \<Rightarrow>
               case enqueue_each (unat n - i) objs ring i 0 of (ring, _, _) \<Rightarrow> r\<lparr>rg_slots := ring\<rparr>))"

function dequeue_blocks :: "nat \<Rightarrow> 'a list \<Rightarrow> 'a list \<Rightarrow> nat \<Rightarrow> nat \<Rightarrow> 'a list \<times> nat \<times> nat" where
  "dequeue_blocks limit ring obj_table i idx =
     (if i < limit
      then dequeue_blocks limit ring
        (obj_table[i := ring ! idx, i + 1 := ring ! (idx + 1), i + 2 := ring ! (idx + 2), i + 3 := ring ! (idx + 3)])
        (i + 4) (idx + 4)
      else (obj_table, i, idx))"
  by auto
termination by (relation "measure (\<lambda>(limit, ring, objs, i, idx). limit - i)") auto

primrec dequeue_each :: "nat \<Rightarrow> 'a list \<Rightarrow> 'a list \<Rightarrow> nat \<Rightarrow> nat \<Rightarrow> 'a list \<times> nat \<times> nat" where
  "dequeue_each 0 ring obj_table i idx = (obj_table, i, idx)"
| "dequeue_each (Suc k) ring obj_table i idx = dequeue_each k ring (obj_table[i := ring ! idx]) (i + 1) (idx + 1)"

definition DEQUEUE_PTRS :: "'a rte_ring \<Rightarrow> u32 \<Rightarrow> 'a list \<Rightarrow> u32 \<Rightarrow> 'a list" where
  "DEQUEUE_PTRS r cons_head obj_table n =
     (let idx = cons_head AND rg_mask r
      in if idx + n < rg_size r
         then (case dequeue_blocks (unat (n AND NOT 3)) (rg_slots r) obj_table 0 (unat idx) of (objs, i, idx) \<Rightarrow>
               fst (dequeue_each (unat (n AND 3)) (rg_slots r) objs i idx))
         else (case dequeue_each (unat (rg_size r) - unat idx) (rg_slots r) obj_table 0 (unat idx) of (objs, i, _) \<Rightarrow>
               fst (dequeue_each (unat n - i) (rg_slots r) objs i 0)))"

declare enqueue_blocks.simps [simp del] dequeue_blocks.simps [simp del]

subsection \<open>Moving the indices\<close>

definition update_tail :: "rte_ring_headtail \<Rightarrow> u32 \<Rightarrow> u32 \<Rightarrow> u32 \<Rightarrow> rte_ring_headtail option" where
  "update_tail ht old_val new_val single =
     (if single = 0 \<and> ht_tail ht \<noteq> old_val then None else Some (ht\<lparr>ht_tail := new_val\<rparr>))"

text \<open>The number granted, the old and new head, and the free entries; the head moves unless nothing is
  granted.\<close>

definition rte_ring_move_prod_head ::
  "'a rte_ring \<Rightarrow> u32 \<Rightarrow> u32 \<Rightarrow> rte_ring_queue_behavior \<Rightarrow> u32 \<times> u32 \<times> u32 \<times> u32 \<times> 'a rte_ring" where
  "rte_ring_move_prod_head r is_sp n behavior =
     (let old_head = ht_head (rg_prod r);
          free_entries = rg_capacity r + ht_tail (rg_cons r) - old_head;
          n = (if free_entries < n then (if behavior = RTE_RING_QUEUE_FIXED then 0 else free_entries) else n)
      in if n = 0 then (0, old_head, old_head, free_entries, r)
         else (n, old_head, old_head + n, free_entries, r\<lparr>rg_prod := (rg_prod r)\<lparr>ht_head := old_head + n\<rparr>\<rparr>))"

definition rte_ring_move_cons_head ::
  "'a rte_ring \<Rightarrow> u32 \<Rightarrow> u32 \<Rightarrow> rte_ring_queue_behavior \<Rightarrow> u32 \<times> u32 \<times> u32 \<times> u32 \<times> 'a rte_ring" where
  "rte_ring_move_cons_head r is_sc n behavior =
     (let old_head = ht_head (rg_cons r);
          entries = ht_tail (rg_prod r) - old_head;
          n = (if entries < n then (if behavior = RTE_RING_QUEUE_FIXED then 0 else entries) else n)
      in if n = 0 then (0, old_head, old_head, entries, r)
         else (n, old_head, old_head + n, entries, r\<lparr>rg_cons := (rg_cons r)\<lparr>ht_head := old_head + n\<rparr>\<rparr>))"

text \<open>The result: the number of objects, the free space or the remaining entries, the ring.\<close>

definition rte_ring_do_enqueue ::
  "'a rte_ring \<Rightarrow> 'a list \<Rightarrow> u32 \<Rightarrow> rte_ring_queue_behavior \<Rightarrow> u32 \<Rightarrow> (u32 \<times> u32 \<times> 'a rte_ring) option" where
  "rte_ring_do_enqueue r obj_table n behavior is_sp =
     (case rte_ring_move_prod_head r is_sp n behavior of (n, prod_head, prod_next, free_entries, r) \<Rightarrow>
        if n = 0 then Some (0, free_entries, r)
        else do {
          let r = ENQUEUE_PTRS r prod_head obj_table n;
          prod \<leftarrow> update_tail (rg_prod r) prod_head prod_next is_sp;
          Some (n, free_entries - n, r\<lparr>rg_prod := prod\<rparr>)
        })"

definition rte_ring_do_dequeue ::
  "'a rte_ring \<Rightarrow> 'a list \<Rightarrow> u32 \<Rightarrow> rte_ring_queue_behavior \<Rightarrow> u32 \<Rightarrow> (u32 \<times> u32 \<times> 'a list \<times> 'a rte_ring) option" where
  "rte_ring_do_dequeue r obj_table n behavior is_sc =
     (case rte_ring_move_cons_head r is_sc n behavior of (n, cons_head, cons_next, entries, r) \<Rightarrow>
        if n = 0 then Some (0, entries, obj_table, r)
        else do {
          let objs = DEQUEUE_PTRS r cons_head obj_table n;
          cons \<leftarrow> update_tail (rg_cons r) cons_head cons_next is_sc;
          Some (n, entries - n, objs, r\<lparr>rg_cons := cons\<rparr>)
        })"

definition rte_ring_enqueue_bulk :: "'a rte_ring \<Rightarrow> 'a list \<Rightarrow> u32 \<Rightarrow> (u32 \<times> u32 \<times> 'a rte_ring) option" where
  "rte_ring_enqueue_bulk r objs n = rte_ring_do_enqueue r objs n RTE_RING_QUEUE_FIXED (ht_single (rg_prod r))"

definition rte_ring_mp_enqueue_bulk :: "'a rte_ring \<Rightarrow> 'a list \<Rightarrow> u32 \<Rightarrow> (u32 \<times> u32 \<times> 'a rte_ring) option" where
  "rte_ring_mp_enqueue_bulk r objs n = rte_ring_do_enqueue r objs n RTE_RING_QUEUE_FIXED 0"

definition rte_ring_sp_enqueue_bulk :: "'a rte_ring \<Rightarrow> 'a list \<Rightarrow> u32 \<Rightarrow> (u32 \<times> u32 \<times> 'a rte_ring) option" where
  "rte_ring_sp_enqueue_bulk r objs n = rte_ring_do_enqueue r objs n RTE_RING_QUEUE_FIXED 1"

definition rte_ring_enqueue_burst :: "'a rte_ring \<Rightarrow> 'a list \<Rightarrow> u32 \<Rightarrow> (u32 \<times> u32 \<times> 'a rte_ring) option" where
  "rte_ring_enqueue_burst r objs n = rte_ring_do_enqueue r objs n RTE_RING_QUEUE_VARIABLE (ht_single (rg_prod r))"

definition rte_ring_dequeue_bulk ::
  "'a rte_ring \<Rightarrow> 'a list \<Rightarrow> u32 \<Rightarrow> (u32 \<times> u32 \<times> 'a list \<times> 'a rte_ring) option" where
  "rte_ring_dequeue_bulk r objs n = rte_ring_do_dequeue r objs n RTE_RING_QUEUE_FIXED (ht_single (rg_cons r))"

definition rte_ring_dequeue_burst ::
  "'a rte_ring \<Rightarrow> 'a list \<Rightarrow> u32 \<Rightarrow> (u32 \<times> u32 \<times> 'a list \<times> 'a rte_ring) option" where
  "rte_ring_dequeue_burst r objs n = rte_ring_do_dequeue r objs n RTE_RING_QUEUE_VARIABLE (ht_single (rg_cons r))"

definition rte_ring_mp_enqueue_burst :: "'a rte_ring \<Rightarrow> 'a list \<Rightarrow> u32 \<Rightarrow> (u32 \<times> u32 \<times> 'a rte_ring) option" where
  "rte_ring_mp_enqueue_burst r objs n = rte_ring_do_enqueue r objs n RTE_RING_QUEUE_VARIABLE 0"

definition rte_ring_sp_enqueue_burst :: "'a rte_ring \<Rightarrow> 'a list \<Rightarrow> u32 \<Rightarrow> (u32 \<times> u32 \<times> 'a rte_ring) option" where
  "rte_ring_sp_enqueue_burst r objs n = rte_ring_do_enqueue r objs n RTE_RING_QUEUE_VARIABLE 1"

definition rte_ring_mc_dequeue_bulk ::
  "'a rte_ring \<Rightarrow> 'a list \<Rightarrow> u32 \<Rightarrow> (u32 \<times> u32 \<times> 'a list \<times> 'a rte_ring) option" where
  "rte_ring_mc_dequeue_bulk r objs n = rte_ring_do_dequeue r objs n RTE_RING_QUEUE_FIXED 0"

definition rte_ring_mc_dequeue_burst ::
  "'a rte_ring \<Rightarrow> 'a list \<Rightarrow> u32 \<Rightarrow> (u32 \<times> u32 \<times> 'a list \<times> 'a rte_ring) option" where
  "rte_ring_mc_dequeue_burst r objs n = rte_ring_do_dequeue r objs n RTE_RING_QUEUE_VARIABLE 0"

definition rte_ring_sc_dequeue_bulk ::
  "'a rte_ring \<Rightarrow> 'a list \<Rightarrow> u32 \<Rightarrow> (u32 \<times> u32 \<times> 'a list \<times> 'a rte_ring) option" where
  "rte_ring_sc_dequeue_bulk r objs n = rte_ring_do_dequeue r objs n RTE_RING_QUEUE_FIXED 1"

definition rte_ring_sc_dequeue_burst ::
  "'a rte_ring \<Rightarrow> 'a list \<Rightarrow> u32 \<Rightarrow> (u32 \<times> u32 \<times> 'a list \<times> 'a rte_ring) option" where
  "rte_ring_sc_dequeue_burst r objs n = rte_ring_do_dequeue r objs n RTE_RING_QUEUE_VARIABLE 1"

text \<open>One object: 0, or \<open>-ENOBUFS\<close> and \<open>-ENOENT\<close>.\<close>

definition ENOBUFS :: int where "ENOBUFS = 105"
definition ENOENT :: int where "ENOENT = 2"

definition enqueue_code :: "(u32 \<times> u32 \<times> 'a rte_ring) option \<Rightarrow> (int \<times> 'a rte_ring) option" where
  "enqueue_code x = map_option (\<lambda>(n, _, r). (if n \<noteq> 0 then 0 else - ENOBUFS, r)) x"

definition dequeue_code ::
  "(u32 \<times> u32 \<times> 'a list \<times> 'a rte_ring) option \<Rightarrow> (int \<times> 'a \<times> 'a rte_ring) option" where
  "dequeue_code x = map_option (\<lambda>(n, _, objs, r). (if n \<noteq> 0 then 0 else - ENOENT, objs ! 0, r)) x"

definition rte_ring_mp_enqueue :: "'a rte_ring \<Rightarrow> 'a \<Rightarrow> (int \<times> 'a rte_ring) option" where
  "rte_ring_mp_enqueue r obj = enqueue_code (rte_ring_mp_enqueue_bulk r [obj] 1)"

definition rte_ring_sp_enqueue :: "'a rte_ring \<Rightarrow> 'a \<Rightarrow> (int \<times> 'a rte_ring) option" where
  "rte_ring_sp_enqueue r obj = enqueue_code (rte_ring_sp_enqueue_bulk r [obj] 1)"

definition rte_ring_enqueue :: "'a rte_ring \<Rightarrow> 'a \<Rightarrow> (int \<times> 'a rte_ring) option" where
  "rte_ring_enqueue r obj = enqueue_code (rte_ring_enqueue_bulk r [obj] 1)"

definition rte_ring_mc_dequeue :: "'a rte_ring \<Rightarrow> 'a \<Rightarrow> (int \<times> 'a \<times> 'a rte_ring) option" where
  "rte_ring_mc_dequeue r obj = dequeue_code (rte_ring_mc_dequeue_bulk r [obj] 1)"

definition rte_ring_sc_dequeue :: "'a rte_ring \<Rightarrow> 'a \<Rightarrow> (int \<times> 'a \<times> 'a rte_ring) option" where
  "rte_ring_sc_dequeue r obj = dequeue_code (rte_ring_sc_dequeue_bulk r [obj] 1)"

definition rte_ring_dequeue :: "'a rte_ring \<Rightarrow> 'a \<Rightarrow> (int \<times> 'a \<times> 'a rte_ring) option" where
  "rte_ring_dequeue r obj = dequeue_code (rte_ring_dequeue_bulk r [obj] 1)"

subsection \<open>Queries and creation\<close>

definition rte_ring_count :: "'a rte_ring \<Rightarrow> u32" where
  "rte_ring_count r =
     (let cnt = (ht_tail (rg_prod r) - ht_tail (rg_cons r)) AND rg_mask r
      in if rg_capacity r < cnt then rg_capacity r else cnt)"

definition rte_ring_free_count :: "'a rte_ring \<Rightarrow> u32" where
  "rte_ring_free_count r = rg_capacity r - rte_ring_count r"

definition rte_ring_full :: "'a rte_ring \<Rightarrow> bool" where
  "rte_ring_full r \<longleftrightarrow> rte_ring_free_count r = 0"

definition rte_ring_empty :: "'a rte_ring \<Rightarrow> bool" where
  "rte_ring_empty r \<longleftrightarrow> rte_ring_count r = 0"

definition rte_ring_get_size :: "'a rte_ring \<Rightarrow> u32" where "rte_ring_get_size r = rg_size r"
definition rte_ring_get_capacity :: "'a rte_ring \<Rightarrow> u32" where "rte_ring_get_capacity r = rg_capacity r"

text \<open>\<open>None\<close>: \<open>-EINVAL\<close>.\<close>

definition rte_ring_get_memsize :: "u32 \<Rightarrow> nat option" where
  "rte_ring_get_memsize cnt =
     (if \<not> POWEROF2 cnt \<or> RTE_RING_SZ_MASK < cnt then None else Some (unat cnt * 8))"

definition rte_ring_init :: "'a list \<Rightarrow> u32 \<Rightarrow> u32 \<Rightarrow> 'a rte_ring option" where
  "rte_ring_init slots cnt flags =
     (let prod = \<lparr>ht_head = 0, ht_tail = 0, ht_single = (if flags AND RING_F_SP_ENQ \<noteq> 0 then 1 else 0)\<rparr>;
          cons = \<lparr>ht_head = 0, ht_tail = 0, ht_single = (if flags AND RING_F_SC_DEQ \<noteq> 0 then 1 else 0)\<rparr>
      in if flags AND RING_F_EXACT_SZ \<noteq> 0
         then (let size' = rte_align32pow2 (cnt + 1)
               in Some \<lparr>rg_flags = flags, rg_size = size', rg_mask = size' - 1, rg_capacity = cnt,
                        rg_prod = prod, rg_cons = cons, rg_slots = slots\<rparr>)
         else if \<not> POWEROF2 cnt \<or> RTE_RING_SZ_MASK < cnt then None
         else Some \<lparr>rg_flags = flags, rg_size = cnt, rg_mask = cnt - 1, rg_capacity = cnt - 1,
                    rg_prod = prod, rg_cons = cons, rg_slots = slots\<rparr>)"

text \<open>\<open>valloc ok junk\<close>: whether the allocation succeeds, and what the fresh slots hold.\<close>

definition rte_ring_create :: "bool \<Rightarrow> 'a \<Rightarrow> u32 \<Rightarrow> u32 \<Rightarrow> 'a rte_ring option" where
  "rte_ring_create valloc_ok junk requested_count flags =
     (let cnt = (if flags AND RING_F_EXACT_SZ \<noteq> 0 then rte_align32pow2 (requested_count + 1)
                   else requested_count)
      in case rte_ring_get_memsize cnt of
           None \<Rightarrow> None
         | Some _ \<Rightarrow> if valloc_ok then rte_ring_init (replicate (unat cnt) junk) requested_count flags
                     else None)"

definition femu_ring_create :: "bool \<Rightarrow> 'a \<Rightarrow> femu_ring_type \<Rightarrow> u64 \<Rightarrow> 'a rte_ring option" where
  "femu_ring_create valloc_ok junk ty cnt =
     rte_ring_create valloc_ok junk (ucast cnt)
       (case ty of
          FEMU_RING_TYPE_SP_SC \<Rightarrow> RING_F_SP_ENQ OR RING_F_SC_DEQ
        | FEMU_RING_TYPE_MP_SC \<Rightarrow> RING_F_SC_DEQ
        | FEMU_RING_TYPE_MP_MC \<Rightarrow> 0)"

definition femu_ring_count :: "'a rte_ring \<Rightarrow> nat" where
  "femu_ring_count r = unat (rte_ring_count r)"

definition femu_ring_enqueue :: "'a rte_ring \<Rightarrow> 'a list \<Rightarrow> u64 \<Rightarrow> (u64 \<times> 'a rte_ring) option" where
  "femu_ring_enqueue r objs cnt =
     map_option (\<lambda>(n, _, r). (ucast n, r)) (rte_ring_enqueue_bulk r objs (ucast cnt))"

definition femu_ring_dequeue :: "'a rte_ring \<Rightarrow> 'a list \<Rightarrow> u64 \<Rightarrow> (u64 \<times> 'a list \<times> 'a rte_ring) option" where
  "femu_ring_dequeue r objs cnt =
     map_option (\<lambda>(n, _, objs, r). (ucast n, objs, r)) (rte_ring_dequeue_burst r objs (ucast cnt))"

subsection \<open>The unrolled copy is a copy\<close>

lemma enqueue_each_add:
  "enqueue_each (k + m) objs ring i idx =
   (case enqueue_each k objs ring i idx of (ring, i, idx) \<Rightarrow> enqueue_each m objs ring i idx)"
  by (induction k arbitrary: ring i idx) auto

lemma enqueue_each_indices:
  "fst (snd (enqueue_each k objs ring i idx)) = i + k" "snd (snd (enqueue_each k objs ring i idx)) = idx + k"
  by (induction k arbitrary: ring i idx) auto

lemma enqueue_each_4:
  "enqueue_each (4 + m) objs ring i idx = enqueue_each m objs
     (ring[idx := objs ! i, idx + 1 := objs ! (i + 1), idx + 2 := objs ! (i + 2), idx + 3 := objs ! (i + 3)]) (i + 4) (idx + 4)"
  by (simp add: eval_nat_numeral)

lemma enqueue_blocks_each:
  "4 dvd limit - i \<Longrightarrow> enqueue_blocks limit objs ring i idx = enqueue_each (limit - i) objs ring i idx"
proof (induction limit objs ring i idx rule: enqueue_blocks.induct)
  case (1 limit objs ring i idx)
  show ?case
  proof (cases "i < limit")
    case True
    have k: "limit - i = 4 + (limit - (i + 4))" "4 dvd limit - (i + 4)"
      using 1(2) True by presburger+
    have "enqueue_each (limit - i) objs ring i idx = enqueue_each (limit - (i + 4)) objs
        (ring[idx := objs ! i, idx + 1 := objs ! (i + 1), idx + 2 := objs ! (i + 2), idx + 3 := objs ! (i + 3)]) (i + 4) (idx + 4)"
      by (subst k(1)) (rule enqueue_each_4)
    then show ?thesis
      using 1(1) [OF True k(2)] True by (subst enqueue_blocks.simps) simp
  qed (simp add: enqueue_blocks.simps)
qed

lemma enqueue_each_overwrite:
  "i + k \<le> length objs \<Longrightarrow> idx + k \<le> length ring \<Longrightarrow>
   fst (enqueue_each k objs ring i idx) = overwrite ring idx (take k (drop i objs))"
proof (induction k arbitrary: ring i idx)
  case (Suc k)
  have "take (Suc k) (drop i objs) = objs ! i # take k (drop (Suc i) objs)"
    using Suc.prems by (simp add: Cons_nth_drop_Suc [symmetric])
  moreover have "overwrite (ring[idx := objs ! i]) (Suc idx) (take k (drop (Suc i) objs)) =
      overwrite ring idx (objs ! i # take k (drop (Suc i) objs))"
    using Suc.prems by (simp add: overwrite_def take_Suc_conv_app_nth upd_conv_take_nth_drop add.commute)
  ultimately show ?case using Suc by simp
qed simp

lemma dequeue_each_swap: "dequeue_each k ring objs i idx =
   (case enqueue_each k ring objs idx i of (objs, idx, i) \<Rightarrow> (objs, i, idx))"
  by (induction k arbitrary: objs i idx) (auto split: prod.splits)

lemma dequeue_each_add:
  "dequeue_each (k + m) ring objs i idx =
   (case dequeue_each k ring objs i idx of (objs, i, idx) \<Rightarrow> dequeue_each m ring objs i idx)"
  by (induction k arbitrary: objs i idx) auto

lemma dequeue_each_4:
  "dequeue_each (4 + m) ring objs i idx = dequeue_each m ring
     (objs[i := ring ! idx, i + 1 := ring ! (idx + 1), i + 2 := ring ! (idx + 2), i + 3 := ring ! (idx + 3)]) (i + 4) (idx + 4)"
  by (simp add: eval_nat_numeral)

lemma dequeue_blocks_each:
  "4 dvd limit - i \<Longrightarrow> dequeue_blocks limit ring objs i idx = dequeue_each (limit - i) ring objs i idx"
proof (induction limit ring objs i idx rule: dequeue_blocks.induct)
  case (1 limit ring objs i idx)
  show ?case
  proof (cases "i < limit")
    case True
    have k: "limit - i = 4 + (limit - (i + 4))" "4 dvd limit - (i + 4)"
      using 1(2) True by presburger+
    have "dequeue_each (limit - i) ring objs i idx = dequeue_each (limit - (i + 4)) ring
        (objs[i := ring ! idx, i + 1 := ring ! (idx + 1), i + 2 := ring ! (idx + 2), i + 3 := ring ! (idx + 3)]) (i + 4) (idx + 4)"
      by (subst k(1)) (rule dequeue_each_4)
    then show ?thesis
      using 1(1) [OF True k(2)] True by (subst dequeue_blocks.simps) simp
  qed (simp add: dequeue_blocks.simps)
qed

subsection \<open>Where the elements go\<close>

text \<open>A ring of \<open>2 ^ k\<close> slots.\<close>

definition ring_shape :: "nat \<Rightarrow> 'a rte_ring \<Rightarrow> bool" where
  "ring_shape k r \<longleftrightarrow> k \<le> 28 \<and> rg_size r = 2 ^ k \<and> rg_mask r = 2 ^ k - 1 \<and> rg_capacity r < 2 ^ k \<and>
     length (rg_slots r) = 2 ^ k"

lemma ring_shape_sizes:
  assumes "ring_shape k r"
  shows "unat (rg_size r) = 2 ^ k" "unat (rg_capacity r) < 2 ^ k" "unat (x AND rg_mask r) = unat x mod 2 ^ k"
    "(2 :: nat) ^ k \<le> 2 ^ 28"
proof -
  have k: "k \<le> 28" using assms by (simp add: ring_shape_def)
  show "(2 :: nat) ^ k \<le> 2 ^ 28" using k by (intro power_increasing) simp_all
  have u: "unat (2 ^ k :: u32) = 2 ^ k"
    using unat_push_bit_less [of "1 :: u32" k] k \<open>2 ^ k \<le> 2 ^ 28\<close> by simp
  then show "unat (rg_size r) = 2 ^ k" using assms by (simp add: ring_shape_def)
  show "unat (rg_capacity r) < 2 ^ k" using assms u by (simp add: ring_shape_def word_less_nat_alt)
  show "unat (x AND rg_mask r) = unat x mod 2 ^ k" using assms unat_and_mask [of x k] by (simp add: ring_shape_def)
qed

lemma ring_index:
  assumes "a < S" "m < (S :: nat)"
  shows "(a + m) mod S = (if a + m < S then a + m else a + m - S)"
  using assms by (auto simp: mod_if)

lemma ENQUEUE_PTRS_spec:
  fixes h :: u32
  assumes sh: "ring_shape k r" and n: "unat n \<le> 2 ^ k" "unat n \<le> length objs"
  defines "a \<equiv> unat h mod 2 ^ k"
  shows "\<exists>slots. ENQUEUE_PTRS r h objs n = r\<lparr>rg_slots := slots\<rparr> \<and> length slots = 2 ^ k \<and>
    (\<forall>m < 2 ^ k. slots ! ((a + m) mod 2 ^ k) = (if m < unat n then objs ! m else rg_slots r ! ((a + m) mod 2 ^ k)))"
proof -
  note Z = ring_shape_sizes [OF sh]
  let ?S = "(2 :: nat) ^ k" and ?n = "unat n" and ?ring = "rg_slots r"
  have len: "length ?ring = ?S" using sh by (simp add: ring_shape_def)
  have a: "a < ?S" "unat (h AND rg_mask r) = a" using Z(3) by (simp_all add: a_def)
  have lt: "(h AND rg_mask r) + n < rg_size r \<longleftrightarrow> a + ?n < ?S"
    using a n Z(1,4) by (simp add: word_less_nat_alt unat_word_ariths)
  note N = unat_and_not_3 [of n]
  define slots where "slots = (if a + ?n < ?S then overwrite ?ring a (take ?n objs)
    else overwrite (overwrite ?ring a (take (?S - a) objs)) 0 (take (?n - (?S - a)) (drop (?S - a) objs)))"
  have "ENQUEUE_PTRS r h objs n = r\<lparr>rg_slots := slots\<rparr>"
  proof (cases "a + ?n < ?S")
    case True
    have "fst (enqueue_each ?n objs ?ring 0 a) = overwrite ?ring a (take ?n objs)"
      using enqueue_each_overwrite [of 0 ?n objs a ?ring] n True len by simp
    then have f: "fst (case enqueue_each (unat (n AND NOT 3)) objs ?ring 0 a of (ring, i, idx) \<Rightarrow>
        enqueue_each (unat (n AND 3)) objs ring i idx) = overwrite ?ring a (take ?n objs)"
      by (simp only: N(1) enqueue_each_add [symmetric])
    have b: "enqueue_blocks (unat (n AND NOT 3)) objs ?ring 0 a = enqueue_each (unat (n AND NOT 3)) objs ?ring 0 a"
      using enqueue_blocks_each [of "unat (n AND NOT 3)" 0] N(3) by simp
    show ?thesis
      unfolding ENQUEUE_PTRS_def Let_def a(2) b slots_def
      using True lt f by (auto split: prod.splits simp del: of_nat_numeral)
  next
    case False
    then have w: "?S - a \<le> ?n" by simp
    have 1: "enqueue_each (?S - a) objs ?ring 0 a = (overwrite ?ring a (take (?S - a) objs), ?S - a, ?S)"
      using enqueue_each_overwrite [of 0 "?S - a" objs a ?ring] enqueue_each_indices [of "?S - a" objs ?ring 0 a] n w len a
      by (simp add: prod_eq_iff)
    have "fst (enqueue_each (?n - (?S - a)) objs (overwrite ?ring a (take (?S - a) objs)) (?S - a) 0) =
        overwrite (overwrite ?ring a (take (?S - a) objs)) 0 (take (?n - (?S - a)) (drop (?S - a) objs))"
      using n w len a by (intro enqueue_each_overwrite) simp_all
    then show ?thesis
      unfolding ENQUEUE_PTRS_def Let_def a(2) slots_def Z(1) 1
      using False lt by (auto split: prod.splits)
  qed
  moreover have "length slots = ?S" using n len a by (auto simp: slots_def)
  moreover have "slots ! ((a + m) mod ?S) = (if m < ?n then objs ! m else ?ring ! ((a + m) mod ?S))" if m: "m < ?S" for m
  proof (cases "a + ?n < ?S")
    case True
    then show ?thesis using n len a m by (auto simp: slots_def ring_index [OF a(1) m] nth_overwrite)
  next
    case False
    have nth: "slots ! j = (if j < ?n - (?S - a) then objs ! (?S - a + j) else if a \<le> j then objs ! (j - a) else ?ring ! j)"
      if "j < ?S" for j
      using that False n len a by (simp add: slots_def nth_overwrite)
    show ?thesis
    proof (cases "a + m < ?S")
      case True
      then show ?thesis using False n a m by (auto simp: ring_index [OF a(1) m] nth)
    next
      case wrap: False
      then have "?S - a + (a + m - ?S) = m" "a + m - ?S < ?S" "a + m - ?S < a" using a m by auto
      then show ?thesis using False wrap n a m by (auto simp: ring_index [OF a(1) m] nth)
    qed
  qed
  ultimately show ?thesis by blast
qed

lemma dequeue_each_overwrite:
  "idx + k \<le> length ring \<Longrightarrow> i + k \<le> length objs \<Longrightarrow>
   fst (dequeue_each k ring objs i idx) = overwrite objs i (take k (drop idx ring))"
  using enqueue_each_overwrite [of idx k ring i objs]
  by (auto simp: dequeue_each_swap split: prod.splits)

lemma dequeue_each_indices: "fst (snd (dequeue_each k ring objs i idx)) = i + k"
  by (induction k arbitrary: objs i idx) auto

lemma DEQUEUE_PTRS_spec:
  fixes h :: u32
  assumes sh: "ring_shape k r" and n: "unat n \<le> 2 ^ k" "unat n \<le> length objs"
  defines "a \<equiv> unat h mod 2 ^ k"
  shows "length (DEQUEUE_PTRS r h objs n) = length objs"
    "take (unat n) (DEQUEUE_PTRS r h objs n) = map (\<lambda>m. rg_slots r ! ((a + m) mod 2 ^ k)) [0..<unat n]"
proof -
  note Z = ring_shape_sizes [OF sh]
  let ?S = "(2 :: nat) ^ k" and ?n = "unat n" and ?ring = "rg_slots r"
  have len: "length ?ring = ?S" using sh by (simp add: ring_shape_def)
  have a: "a < ?S" "unat (h AND rg_mask r) = a" using Z(3) by (simp_all add: a_def)
  have lt: "(h AND rg_mask r) + n < rg_size r \<longleftrightarrow> a + ?n < ?S"
    using a n Z(1,4) by (simp add: word_less_nat_alt unat_word_ariths)
  note N = unat_and_not_3 [of n]
  define res where "res = (if a + ?n < ?S then overwrite objs 0 (take ?n (drop a ?ring))
    else overwrite (overwrite objs 0 (drop a ?ring)) (?S - a) (take (?n - (?S - a)) ?ring))"
  have "DEQUEUE_PTRS r h objs n = res"
  proof (cases "a + ?n < ?S")
    case True
    have "fst (dequeue_each ?n ?ring objs 0 a) = overwrite objs 0 (take ?n (drop a ?ring))"
      using dequeue_each_overwrite [of a ?n ?ring 0 objs] n True len by simp
    then have f: "fst (case dequeue_each (unat (n AND NOT 3)) ?ring objs 0 a of (objs, i, idx) \<Rightarrow>
        dequeue_each (unat (n AND 3)) ?ring objs i idx) = overwrite objs 0 (take ?n (drop a ?ring))"
      by (simp only: N(1) dequeue_each_add [symmetric])
    have b: "dequeue_blocks (unat (n AND NOT 3)) ?ring objs 0 a = dequeue_each (unat (n AND NOT 3)) ?ring objs 0 a"
      using dequeue_blocks_each [of "unat (n AND NOT 3)" 0] N(3) by simp
    show ?thesis
      unfolding DEQUEUE_PTRS_def Let_def a(2) b res_def
      using True lt f by (auto split: prod.splits)
  next
    case False
    then have w: "?S - a \<le> ?n" by simp
    have 1: "fst (dequeue_each (?S - a) ?ring objs 0 a) = overwrite objs 0 (drop a ?ring)"
      using dequeue_each_overwrite [of a "?S - a" ?ring 0 objs] n w len a by simp
    have 2: "fst (dequeue_each (?n - (?S - a)) ?ring (overwrite objs 0 (drop a ?ring)) (?S - a) 0) =
        overwrite (overwrite objs 0 (drop a ?ring)) (?S - a) (take (?n - (?S - a)) ?ring)"
      using n w len a by (subst dequeue_each_overwrite) simp_all
    show ?thesis
      unfolding DEQUEUE_PTRS_def Let_def a(2) res_def Z(1)
      using False lt 1 2 dequeue_each_indices [of "?S - a" ?ring objs 0 a] by (auto split: prod.splits)
  qed
  moreover have "length res = length objs" using n len a by (auto simp: res_def)
  moreover have "res ! m = ?ring ! ((a + m) mod ?S)" if m: "m < ?n" for m
  proof (cases "a + ?n < ?S")
    case True
    then show ?thesis using n len a m by (auto simp: res_def ring_index [of a ?S m] nth_overwrite)
  next
    case False
    have "res ! m = (if ?S - a \<le> m then ?ring ! (m - (?S - a)) else ?ring ! (a + m))"
      using False n len a m by (simp add: res_def nth_overwrite)
    moreover have "m < ?S" using m n by simp
    moreover have "a + m - ?S = m - (?S - a)" using a by simp
    ultimately show ?thesis using a m by (auto simp: ring_index [OF a(1)])
  qed
  ultimately show "length (DEQUEUE_PTRS r h objs n) = length objs"
    "take (unat n) (DEQUEUE_PTRS r h objs n) = map (\<lambda>m. rg_slots r ! ((a + m) mod 2 ^ k)) [0..<unat n]"
    using n by (auto intro!: nth_equalityI)
qed

subsection \<open>The ring as a queue\<close>

definition ring_used :: "'a rte_ring \<Rightarrow> nat" where
  "ring_used r = unat (ht_tail (rg_prod r) - ht_tail (rg_cons r))"

definition ring_contents :: "'a rte_ring \<Rightarrow> 'a list" where
  "ring_contents r = map (\<lambda>m. rg_slots r ! ((unat (ht_tail (rg_cons r)) + m) mod unat (rg_size r))) [0..<ring_used r]"

text \<open>Between operations: no enqueue or dequeue is in progress, and at most \<open>capacity\<close> slots are used.\<close>

definition ring_ok :: "'a rte_ring \<Rightarrow> bool" where
  "ring_ok r \<longleftrightarrow> (\<exists>k. ring_shape k r) \<and> ht_head (rg_prod r) = ht_tail (rg_prod r) \<and>
     ht_head (rg_cons r) = ht_tail (rg_cons r) \<and> ring_used r \<le> unat (rg_capacity r)"

lemma length_ring_contents [simp]: "length (ring_contents r) = ring_used r"
  by (simp add: ring_contents_def)

lemma ring_count_used:
  assumes "ring_ok r"
  shows "unat (rte_ring_count r) = ring_used r"
proof -
  obtain k where sh: "ring_shape k r" using assms by (auto simp: ring_ok_def)
  note Z = ring_shape_sizes [OF sh]
  have "ring_used r < 2 ^ k" using assms Z(2) by (simp add: ring_ok_def)
  then have "unat ((ht_tail (rg_prod r) - ht_tail (rg_cons r)) AND rg_mask r) = ring_used r"
    by (simp add: Z(3) ring_used_def)
  then show ?thesis using assms by (auto simp: rte_ring_count_def Let_def word_less_nat_alt ring_ok_def)
qed

lemma prod_index:
  assumes "ring_shape k r"
  shows "unat (ht_tail (rg_prod r)) mod 2 ^ k = (unat (ht_tail (rg_cons r)) + ring_used r) mod 2 ^ k"
proof -
  have "k \<le> LENGTH(32)" using assms by (simp add: ring_shape_def)
  then show ?thesis
    using unat_plus_mod [of k "ht_tail (rg_cons r)" "ht_tail (rg_prod r) - ht_tail (rg_cons r)"]
    by (simp add: ring_used_def)
qed

text \<open>How many of \<open>n\<close> objects an operation moves when \<open>m\<close> are possible.\<close>

definition granted :: "rte_ring_queue_behavior \<Rightarrow> nat \<Rightarrow> nat \<Rightarrow> nat" where
  "granted behavior n m = (if n \<le> m then n else if behavior = RTE_RING_QUEUE_FIXED then 0 else m)"

definition wgranted :: "rte_ring_queue_behavior \<Rightarrow> u32 \<Rightarrow> u32 \<Rightarrow> u32" where
  "wgranted behavior n m = (if m < n then (if behavior = RTE_RING_QUEUE_FIXED then 0 else m) else n)"

lemma unat_wgranted: "unat (wgranted behavior n m) = granted behavior (unat n) (unat m)"
  by (simp add: wgranted_def granted_def word_less_nat_alt)

lemma granted_le: "granted behavior n m \<le> n" "granted behavior n m \<le> m"
  by (simp_all add: granted_def)

lemma unat_plus_less: "unat x + unat y < 2 ^ 32 \<Longrightarrow> unat (x + y) = unat x + unat y" for x y :: u32
  by (simp add: unat_word_ariths)

lemma headtail_same [simp]: "ht\<lparr>ht_head := ht_head ht\<rparr> = ht"
  by simp

lemma ring_same [simp]: "r\<lparr>rg_prod := rg_prod r\<rparr> = r" "r\<lparr>rg_cons := rg_cons r\<rparr> = r"
  by simp_all

lemma move_prod_head:
  fixes r :: "'a rte_ring"
  defines "m \<equiv> rg_capacity r + ht_tail (rg_cons r) - ht_head (rg_prod r)"
  shows "rte_ring_move_prod_head r is_sp n behavior =
    (wgranted behavior n m, ht_head (rg_prod r), ht_head (rg_prod r) + wgranted behavior n m, m,
     r\<lparr>rg_prod := (rg_prod r)\<lparr>ht_head := ht_head (rg_prod r) + wgranted behavior n m\<rparr>\<rparr>)"
  by (simp add: rte_ring_move_prod_head_def Let_def wgranted_def m_def)

lemma move_cons_head:
  fixes r :: "'a rte_ring"
  defines "m \<equiv> ht_tail (rg_prod r) - ht_head (rg_cons r)"
  shows "rte_ring_move_cons_head r is_sc n behavior =
    (wgranted behavior n m, ht_head (rg_cons r), ht_head (rg_cons r) + wgranted behavior n m, m,
     r\<lparr>rg_cons := (rg_cons r)\<lparr>ht_head := ht_head (rg_cons r) + wgranted behavior n m\<rparr>\<rparr>)"
  by (simp add: rte_ring_move_cons_head_def Let_def wgranted_def m_def)

text \<open>What a copy of \<open>g\<close> objects at the producer's tail does to the slots, counted from the consumer's tail.\<close>

lemma ENQUEUE_PTRS_positions:
  fixes r :: "'a rte_ring"
  defines "ct \<equiv> unat (ht_tail (rg_cons r))" and "u \<equiv> ring_used r"
  assumes sh: "ring_shape k r" and g: "u + unat g < 2 ^ k" "unat g \<le> length objs"
  shows "\<exists>slots. ENQUEUE_PTRS r (ht_tail (rg_prod r)) objs g = r\<lparr>rg_slots := slots\<rparr> \<and> length slots = 2 ^ k \<and>
    (\<forall>m < u + unat g. slots ! ((ct + m) mod 2 ^ k) = (if m < u then rg_slots r ! ((ct + m) mod 2 ^ k) else objs ! (m - u)))"
proof -
  let ?S = "(2 :: nat) ^ k" and ?a = "unat (ht_tail (rg_prod r)) mod 2 ^ k" and ?g = "unat g"
  have gS: "unat g \<le> ?S" using g by linarith
  obtain slots where E: "ENQUEUE_PTRS r (ht_tail (rg_prod r)) objs g = r\<lparr>rg_slots := slots\<rparr>" "length slots = ?S"
    "\<And>m. m < ?S \<Longrightarrow> slots ! ((?a + m) mod ?S) = (if m < ?g then objs ! m else rg_slots r ! ((?a + m) mod ?S))"
    using ENQUEUE_PTRS_spec [OF sh gS g(2), of "ht_tail (rg_prod r)"] by auto
  have index: "(?a + q) mod ?S = (ct + u + q) mod ?S" for q
    using prod_index [OF sh] unfolding ct_def u_def by (metis mod_add_left_eq)
  have "slots ! ((ct + m) mod ?S) = (if m < u then rg_slots r ! ((ct + m) mod ?S) else objs ! (m - u))"
    if m: "m < u + ?g" for m
  proof (cases "m < u")
    case True
    define q where "q = ?S - u + m"
    have q: "q < ?S" "\<not> q < ?g" "ct + u + q = ct + m + ?S" using True g(1) by (simp_all add: q_def)
    then have "(?a + q) mod ?S = (ct + m) mod ?S" by (simp only: index q(3) mod_add_self2)
    then show ?thesis using E(3) [OF q(1)] True q(2) by simp
  next
    case False
    define q where "q = m - u"
    have q: "q < ?S" "q < ?g" "ct + u + q = ct + m" using False m g(1) by (simp_all add: q_def)
    have "(?a + q) mod ?S = (ct + m) mod ?S" by (simp only: index q(3))
    then show ?thesis using E(3) [OF q(1)] False q(2) by (simp only: q_def [symmetric] if_False if_True)
  qed
  then show ?thesis using E(1,2) by blast
qed

text \<open>Publishing the copied objects appends them to the contents.\<close>

lemma ring_contents_append:
  assumes pos: "\<forall>m < ring_used r + g. rg_slots r' ! ((unat (ht_tail (rg_cons r)) + m) mod unat (rg_size r)) =
      (if m < ring_used r then rg_slots r ! ((unat (ht_tail (rg_cons r)) + m) mod unat (rg_size r)) else objs ! (m - ring_used r))"
    and r': "ring_used r' = ring_used r + g" "ht_tail (rg_cons r') = ht_tail (rg_cons r)" "rg_size r' = rg_size r"
    and g: "g \<le> length objs"
  shows "ring_contents r' = ring_contents r @ take g objs"
proof (rule nth_equalityI)
  show "length (ring_contents r') = length (ring_contents r @ take g objs)" using r'(1) g by simp
  fix i assume "i < length (ring_contents r')"
  then have i: "i < ring_used r + g" using r'(1) by simp
  then have "ring_contents r' ! i = rg_slots r' ! ((unat (ht_tail (rg_cons r)) + i) mod unat (rg_size r))"
    by (simp add: ring_contents_def r')
  also have "\<dots> = (ring_contents r @ take g objs) ! i"
    unfolding pos [rule_format, OF i] using i g by (simp add: nth_append) (simp add: ring_contents_def)
  finally show "ring_contents r' ! i = (ring_contents r @ take g objs) ! i" .
qed

text \<open>Moving the consumer's tail drops the objects in front.\<close>

lemma ring_contents_drop:
  assumes sh: "ring_shape k r"
    and r': "ring_used r' = ring_used r - unat g" "ht_tail (rg_cons r') = ht_tail (rg_cons r) + g"
      "rg_size r' = rg_size r" "rg_slots r' = rg_slots r"
  shows "ring_contents r' = drop (unat g) (ring_contents r)"
proof -
  note Z = ring_shape_sizes [OF sh]
  have "unat (ht_tail (rg_cons r) + g) mod 2 ^ k = (unat (ht_tail (rg_cons r)) + unat g) mod 2 ^ k"
    using unat_plus_mod [of k "ht_tail (rg_cons r)" g] sh by (simp add: ring_shape_def)
  from mod_add_cong [OF this refl]
  have "(unat (ht_tail (rg_cons r) + g) + m) mod 2 ^ k = (unat (ht_tail (rg_cons r)) + (unat g + m)) mod 2 ^ k" for m
    by (simp only: add.assoc)
  then show ?thesis
    using r' Z(1) by (intro nth_equalityI) (simp_all add: ring_contents_def less_diff_conv add.commute)
qed

lemma ring_enqueue:
  fixes behavior :: rte_ring_queue_behavior
  assumes ok: "ring_ok r" and n: "unat n \<le> length objs"
  defines "g \<equiv> granted behavior (unat n) (unat (rg_capacity r) - ring_used r)"
  shows "\<exists>gw fw r'. rte_ring_do_enqueue r objs n behavior is_sp = Some (gw, fw, r') \<and> unat gw = g \<and>
    unat fw = unat (rg_capacity r) - ring_used r - g \<and> ring_ok r' \<and> ring_contents r' = ring_contents r @ take g objs \<and>
    rg_capacity r' = rg_capacity r \<and> ht_single (rg_prod r') = ht_single (rg_prod r) \<and> ht_single (rg_cons r') = ht_single (rg_cons r)"
proof -
  obtain k where sh: "ring_shape k r" using ok by (auto simp: ring_ok_def)
  note Z = ring_shape_sizes [OF sh]
  let ?S = "(2 :: nat) ^ k" and ?pt = "ht_tail (rg_prod r)" and ?ct = "ht_tail (rg_cons r)" and ?u = "ring_used r"
  have heads: "ht_head (rg_prod r) = ?pt" and used: "?u \<le> unat (rg_capacity r)" using ok by (simp_all add: ring_ok_def)
  define free where "free = rg_capacity r + ?ct - ?pt"
  have "free = rg_capacity r - (?pt - ?ct)" by (simp add: free_def)
  then have uf: "unat free = unat (rg_capacity r) - ?u"
    using used by (simp add: ring_used_def unat_sub_le word_le_nat_alt)
  define gw where "gw = wgranted behavior n free"
  have ug: "unat gw = g" using uf by (simp add: gw_def g_def unat_wgranted)
  have mv: "rte_ring_move_prod_head r is_sp n behavior =
      (gw, ?pt, ?pt + gw, free, r\<lparr>rg_prod := (rg_prod r)\<lparr>ht_head := ?pt + gw\<rparr>\<rparr>)"
    unfolding move_prod_head heads gw_def free_def by (rule refl)
  have gf: "g \<le> unat (rg_capacity r) - ?u" and gn: "g \<le> unat n" by (simp_all add: g_def granted_le)
  have ufg: "unat (free - gw) = unat (rg_capacity r) - ?u - g"
    using gf uf ug by (simp add: unat_sub_le word_le_nat_alt)
  show ?thesis
  proof (cases "g = 0")
    case True
    then have "gw = 0" using ug by (simp add: unat_eq_0)
    then have "rte_ring_do_enqueue r objs n behavior is_sp = Some (0, free, r)"
      using heads [symmetric] by (simp add: rte_ring_do_enqueue_def mv)
    then show ?thesis using True ok uf by simp
  next
    case False
    then have gnz: "gw \<noteq> 0" using ug by auto
    let ?r1 = "r\<lparr>rg_prod := (rg_prod r)\<lparr>ht_head := ?pt + gw\<rparr>\<rparr>"
    have sh1: "ring_shape k ?r1" using sh by (simp add: ring_shape_def)
    have gS: "unat gw \<le> length objs" "?u + g < ?S" using ug gf gn n used Z(2) by linarith+
    have u1: "ring_used ?r1 = ?u" by (simp add: ring_used_def)
    obtain slots where E: "ENQUEUE_PTRS ?r1 ?pt objs gw = ?r1\<lparr>rg_slots := slots\<rparr>" "length slots = ?S"
      "\<forall>m < ?u + g. slots ! ((unat ?ct + m) mod ?S) =
         (if m < ?u then rg_slots r ! ((unat ?ct + m) mod ?S) else objs ! (m - ?u))"
      using ENQUEUE_PTRS_positions [OF sh1, of gw objs] gS ug u1 by auto
    let ?r' = "?r1\<lparr>rg_slots := slots, rg_prod := (rg_prod r)\<lparr>ht_head := ?pt + gw, ht_tail := ?pt + gw\<rparr>\<rparr>"
    have eq: "rte_ring_do_enqueue r objs n behavior is_sp = Some (gw, free - gw, ?r')"
      using gnz E(1) by (simp add: rte_ring_do_enqueue_def mv update_tail_def)
    have "ring_used ?r' = unat ((?pt - ?ct) + gw)" by (simp add: ring_used_def add_diff_eq algebra_simps)
    also have "\<dots> = ?u + g"
      using unat_plus_less [of "?pt - ?ct" gw] ug gS(2) Z(4) by (simp add: ring_used_def)
    finally have u': "ring_used ?r' = ?u + g" .
    have sh': "ring_shape k ?r'" using sh E(2) by (simp add: ring_shape_def)
    have ok': "ring_ok ?r'" using ok sh' u' gf used by (auto simp: ring_ok_def)
    have "ring_contents ?r' = ring_contents r @ take g objs"
      using E(3) u' gS(1) ug Z(1) by (intro ring_contents_append) simp_all
    then show ?thesis using eq ug ufg ok' by auto
  qed
qed

lemma ring_dequeue:
  fixes behavior :: rte_ring_queue_behavior
  assumes ok: "ring_ok r" and n: "unat n \<le> length objs"
  defines "g \<equiv> granted behavior (unat n) (ring_used r)"
  shows "\<exists>gw ew objs' r'. rte_ring_do_dequeue r objs n behavior is_sc = Some (gw, ew, objs', r') \<and> unat gw = g \<and>
    unat ew = ring_used r - g \<and> ring_ok r' \<and> length objs' = length objs \<and> take g objs' = take g (ring_contents r) \<and>
    ring_contents r' = drop g (ring_contents r) \<and>
    rg_capacity r' = rg_capacity r \<and> ht_single (rg_prod r') = ht_single (rg_prod r) \<and> ht_single (rg_cons r') = ht_single (rg_cons r)"
proof -
  obtain k where sh: "ring_shape k r" using ok by (auto simp: ring_ok_def)
  note Z = ring_shape_sizes [OF sh]
  let ?S = "(2 :: nat) ^ k" and ?pt = "ht_tail (rg_prod r)" and ?ct = "ht_tail (rg_cons r)" and ?u = "ring_used r"
  have heads: "ht_head (rg_cons r) = ?ct" and used: "?u \<le> unat (rg_capacity r)" using ok by (simp_all add: ring_ok_def)
  define gw where "gw = wgranted behavior n (?pt - ?ct)"
  have ug: "unat gw = g" by (simp add: gw_def g_def unat_wgranted ring_used_def)
  have mv: "rte_ring_move_cons_head r is_sc n behavior =
      (gw, ?ct, ?ct + gw, ?pt - ?ct, r\<lparr>rg_cons := (rg_cons r)\<lparr>ht_head := ?ct + gw\<rparr>\<rparr>)"
    unfolding move_cons_head heads gw_def by (rule refl)
  have gu: "g \<le> ?u" and gn: "g \<le> unat n" by (simp_all add: g_def granted_le)
  have "unat ((?pt - ?ct) - gw) = ?u - g" using gu ug by (simp add: ring_used_def unat_sub_le word_le_nat_alt)
  note ew = this
  show ?thesis
  proof (cases "g = 0")
    case True
    then have "gw = 0" using ug by (simp add: unat_eq_0)
    then have "rte_ring_do_dequeue r objs n behavior is_sc = Some (0, ?pt - ?ct, objs, r)"
      using heads [symmetric] by (simp add: rte_ring_do_dequeue_def mv)
    then show ?thesis using True ok by (simp add: ring_used_def)
  next
    case False
    then have gnz: "gw \<noteq> 0" using ug by auto
    let ?r1 = "r\<lparr>rg_cons := (rg_cons r)\<lparr>ht_head := ?ct + gw\<rparr>\<rparr>"
    have sh1: "ring_shape k ?r1" using sh by (simp add: ring_shape_def)
    have gS: "unat gw \<le> ?S" "unat gw \<le> length objs" using ug gu gn n used Z(2) by linarith+
    define objs' where "objs' = DEQUEUE_PTRS ?r1 ?ct objs gw"
    have D: "length objs' = length objs" "take g objs' = take g (ring_contents r)"
      using DEQUEUE_PTRS_spec [OF sh1 gS, of ?ct] gu Z(1)
      by (simp_all add: objs'_def ug ring_contents_def take_map mod_add_left_eq)
    let ?r' = "r\<lparr>rg_cons := (rg_cons r)\<lparr>ht_head := ?ct + gw, ht_tail := ?ct + gw\<rparr>\<rparr>"
    have eq: "rte_ring_do_dequeue r objs n behavior is_sc = Some (gw, ?pt - ?ct - gw, objs', ?r')"
      using gnz by (simp add: rte_ring_do_dequeue_def mv update_tail_def objs'_def)
    have u': "ring_used ?r' = ?u - g" using ew by (simp add: ring_used_def diff_diff_eq)
    have "ring_shape k ?r'" using sh by (simp add: ring_shape_def)
    then have ok': "ring_ok ?r'" using ok u' used by (auto simp: ring_ok_def)
    have "ring_contents ?r' = drop g (ring_contents r)"
      using ring_contents_drop [OF sh, of ?r' gw] u' ug by simp
    then show ?thesis using eq ug ew ok' D by auto
  qed
qed

subsection \<open>Creation\<close>

lemma power2_and_pred: "k < 32 \<Longrightarrow> POWEROF2 (2 ^ k)"
proof -
  assume k: "k < 32"
  have "unat ((2 ^ k :: u32) AND (2 ^ k - 1)) = unat (2 ^ k :: u32) mod 2 ^ k"
    using unat_and_mask [of "2 ^ k :: u32" k] k by simp
  also have "(unat (2 ^ k :: u32)) = 2 ^ k"
    using unat_push_bit_less [of "1 :: u32" k] k power_strict_increasing [of k 32 "2 :: nat"] by simp
  finally show "POWEROF2 (2 ^ k)" by (simp add: POWEROF2_def unat_eq_0 and.commute)
qed

lemma ring_created:
  fixes ty :: femu_ring_type
  assumes "k \<le> 27"
  shows "\<exists>r. femu_ring_create True junk ty (2 ^ k) = Some r \<and> ring_ok r \<and> ring_contents r = [] \<and> unat (rg_capacity r) = 2 ^ k - 1"
proof -
  define flags where "flags = (case ty of FEMU_RING_TYPE_SP_SC \<Rightarrow> RING_F_SP_ENQ OR RING_F_SC_DEQ
    | FEMU_RING_TYPE_MP_SC \<Rightarrow> RING_F_SC_DEQ | FEMU_RING_TYPE_MP_MC \<Rightarrow> 0)"
  have ex: "flags AND RING_F_EXACT_SZ = 0"
    by (cases ty) (simp_all add: flags_def RING_F_SP_ENQ_def RING_F_SC_DEQ_def RING_F_EXACT_SZ_def)
  have le: "(2 :: nat) ^ k \<le> 2 ^ 27" using assms by (intro power_increasing) simp_all
  have u: "unat (2 ^ k :: u32) = 2 ^ k"
    using unat_push_bit_less [of "1 :: u32" k] assms le by simp
  have c: "(ucast (2 ^ k :: u64) :: u32) = 2 ^ k" by (rule bit_eqI) (simp add: bit_unsigned_iff bit_exp_iff)
  have not_large: "\<not> RTE_RING_SZ_MASK < 2 ^ k" using u le by (simp add: RTE_RING_SZ_MASK_def word_less_nat_alt)
  have p: "POWEROF2 (2 ^ k)" using power2_and_pred assms by simp
  have cap: "unat (2 ^ k - 1 :: u32) = 2 ^ k - 1" using u unat_sub_le [of 1 "2 ^ k :: u32"] by (simp add: word_le_nat_alt)
  show ?thesis
    unfolding femu_ring_create_def flags_def [symmetric] c rte_ring_create_def Let_def
    using ex u p not_large cap assms
    by (auto simp: rte_ring_get_memsize_def rte_ring_init_def ring_ok_def ring_shape_def ring_used_def ring_contents_def
        word_less_nat_alt intro!: exI [of _ k])
qed

subsection \<open>The interface to the rings\<close>

text \<open>Passing one request, as every caller does, and what the caller looks at: whether it was taken, and the
  request obtained (the table is \<open>NULL\<close> before).\<close>

definition ring_send :: "'a rte_ring \<Rightarrow> 'a \<Rightarrow> (bool \<times> 'a rte_ring) option" where
  "ring_send r req = map_option (\<lambda>(rc, r'). (rc = 1, r')) (femu_ring_enqueue r [req] 1)"

definition ring_receive :: "'a \<Rightarrow> 'a rte_ring \<Rightarrow> ('a option \<times> 'a rte_ring) option" where
  "ring_receive null r =
     map_option (\<lambda>(rc, objs, r'). (if rc = 1 then Some (objs ! 0) else None, r')) (femu_ring_dequeue r [null] 1)"

datatype 'a fifo_op = Put 'a | Get
datatype 'a fifo_result = Accepted bool | Got "'a option"

text \<open>A sequence of operations through an interface, and on a bounded list.\<close>

primrec fifo_run ::
  "('r \<Rightarrow> 'a \<Rightarrow> (bool \<times> 'r) option) \<Rightarrow> ('r \<Rightarrow> ('a option \<times> 'r) option) \<Rightarrow> 'a fifo_op list \<Rightarrow> 'r \<Rightarrow>
   ('a fifo_result list \<times> 'r) option" where
  "fifo_run put get [] r = Some ([], r)"
| "fifo_run put get (a # as) r =
     (case (case a of Put x \<Rightarrow> map_option (apfst Accepted) (put r x) | Get \<Rightarrow> map_option (apfst Got) (get r)) of
        None \<Rightarrow> None
      | Some (res, r) \<Rightarrow> map_option (apfst (Cons res)) (fifo_run put get as r))"

primrec bounded_list_run :: "nat \<Rightarrow> 'a fifo_op list \<Rightarrow> 'a list \<Rightarrow> 'a fifo_result list \<times> 'a list" where
  "bounded_list_run bnd [] xs = ([], xs)"
| "bounded_list_run bnd (a # as) xs =
     (case a of
        Put x \<Rightarrow> apfst (Cons (Accepted (length xs < bnd)))
          (bounded_list_run bnd as (if length xs < bnd then xs @ [x] else xs))
      | Get \<Rightarrow> apfst (Cons (Got (if xs = [] then None else Some (hd xs)))) (bounded_list_run bnd as (tl xs)))"

locale fifo =
  fixes ok :: "'r \<Rightarrow> bool" and items :: "'r \<Rightarrow> 'a list" and room :: "'r \<Rightarrow> nat"
    and put :: "'r \<Rightarrow> 'a \<Rightarrow> (bool \<times> 'r) option" and get :: "'r \<Rightarrow> ('a option \<times> 'r) option"
  assumes put_law: "ok r \<Longrightarrow> \<exists>r'. put r x = Some (length (items r) < room r, r') \<and> ok r' \<and> room r' = room r \<and>
      items r' = (if length (items r) < room r then items r @ [x] else items r)"
    and get_law: "ok r \<Longrightarrow> \<exists>r'. get r = Some (if items r = [] then None else Some (hd (items r)), r') \<and> ok r' \<and>
      room r' = room r \<and> items r' = tl (items r)"
begin

lemma run_refines:
  "ok r \<Longrightarrow> \<exists>res r'. fifo_run put get as r = Some (res, r') \<and> ok r' \<and> room r' = room r \<and>
     bounded_list_run (room r) as (items r) = (res, items r')"
proof (induction as arbitrary: r)
  case (Cons a as)
  show ?case
  proof (cases a)
    case (Put x)
    from put_law [OF Cons.prems, of x] obtain r1 where r1: "put r x = Some (length (items r) < room r, r1)" "ok r1"
      "room r1 = room r" "items r1 = (if length (items r) < room r then items r @ [x] else items r)" by blast
    from Cons.IH [OF r1(2)] show ?thesis using Put r1 by auto
  next
    case Get
    from get_law [OF Cons.prems] obtain r1 where r1: "ok r1" "room r1 = room r" "items r1 = tl (items r)"
      "get r = Some (if items r = [] then None else Some (hd (items r)), r1)" by blast
    from Cons.IH [OF r1(1)] show ?thesis using Get r1 by auto
  qed
qed simp

end

lemma widen_eq_1: "u64_of_u32 w = 1 \<longleftrightarrow> unat w = 1"
proof -
  have "u64_of_u32 w = 1 \<longleftrightarrow> unat (u64_of_u32 w) = unat (1 :: u64)" by (rule word_unat_eq_iff)
  moreover have "unat (u64_of_u32 w) = unat w" by transfer simp
  ultimately show ?thesis by simp
qed

lemma ring_send_law:
  assumes "ring_ok r"
  shows "\<exists>r'. ring_send r x = Some (length (ring_contents r) < unat (rg_capacity r), r') \<and> ring_ok r' \<and>
     unat (rg_capacity r') = unat (rg_capacity r) \<and>
     ring_contents r' = (if length (ring_contents r) < unat (rg_capacity r) then ring_contents r @ [x] else ring_contents r)"
proof -
  have "(ucast (1 :: u64) :: u32) = 1" by simp
  with ring_enqueue [OF assms, of 1 "[x]" RTE_RING_QUEUE_FIXED "ht_single (rg_prod r)"] assms show ?thesis
    by (auto simp: ring_send_def femu_ring_enqueue_def rte_ring_enqueue_bulk_def granted_def widen_eq_1 split: if_splits)
qed

lemma ring_receive_law:
  assumes "ring_ok r"
  shows "\<exists>r'. ring_receive null r = Some (if ring_contents r = [] then None else Some (hd (ring_contents r)), r') \<and> ring_ok r' \<and>
     unat (rg_capacity r') = unat (rg_capacity r) \<and> ring_contents r' = tl (ring_contents r)"
proof -
  have "(ucast (1 :: u64) :: u32) = 1" by simp
  with ring_dequeue [OF assms, of 1 "[null]" RTE_RING_QUEUE_VARIABLE "ht_single (rg_cons r)"] obtain gw ew objs' r' where
    R: "rte_ring_do_dequeue r [null] 1 RTE_RING_QUEUE_VARIABLE (ht_single (rg_cons r)) = Some (gw, ew, objs', r')"
      "unat gw = min 1 (ring_used r)" "ring_ok r'" "length objs' = 1" "rg_capacity r' = rg_capacity r"
      "take (min 1 (ring_used r)) objs' = take (min 1 (ring_used r)) (ring_contents r)"
      "ring_contents r' = drop (min 1 (ring_used r)) (ring_contents r)"
    by (auto simp: granted_def min_def split: if_splits)
  have len: "ring_used r = length (ring_contents r)" by simp
  show ?thesis
  proof (cases "ring_contents r")
    case Nil
    then show ?thesis using R len by (simp add: ring_receive_def femu_ring_dequeue_def rte_ring_dequeue_burst_def widen_eq_1)
  next
    case (Cons x xs)
    then have "min 1 (ring_used r) = 1" using len by simp
    moreover obtain y where "objs' = [y]" using R(4) by (cases objs') auto
    ultimately show ?thesis
      using R Cons by (simp add: ring_receive_def femu_ring_dequeue_def rte_ring_dequeue_burst_def widen_eq_1)
  qed
qed

interpretation ring_fifo: fifo ring_ok ring_contents "\<lambda>r. unat (rg_capacity r)" ring_send "ring_receive null"
  by unfold_locales (rule ring_send_law ring_receive_law; assumption)+

end
