(* ===== verification/Ring_Props.thy ===== *)
theory Ring_Props
  imports Ring
begin

text \<open>
  One producer thread and one consumer thread on a ring, as a poller and the FTL thread use them: the
  operations of \<open>rte_ring.h\<close> cut where the threads can interleave (the load of the other side's tail, the
  move of the head, the copy, the store of the tail), an invariant of the configurations, and the
  properties of the rings.
\<close>

subsection \<open>The steps of the two threads\<close>

datatype 'a prod_phase =
    Prod_Idle
  | Prod_Read rte_ring_headtail
  | Prod_Moved "'a list" u32 u32 u32
  | Prod_Copied "'a list" u32 u32 u32

datatype 'a cons_phase =
    Cons_Idle
  | Cons_Read rte_ring_headtail
  | Cons_Moved u32 u32 u32
  | Cons_Copied "'a list" u32 u32 u32

text \<open>The last two fields record what has been published and what has been handed out.\<close>

record 'a ring_conf =
  cf_ring :: "'a rte_ring"
  cf_prod :: "'a prod_phase"
  cf_cons :: "'a cons_phase"
  cf_sent :: "'a list"
  cf_received :: "'a list"

inductive ring_step :: "'a ring_conf \<Rightarrow> 'a ring_conf \<Rightarrow> bool" where
  prod_read: "cf_prod c = Prod_Idle \<Longrightarrow>
    ring_step c (c\<lparr>cf_prod := Prod_Read (rg_cons (cf_ring c))\<rparr>)"
| prod_move: "cf_prod c = Prod_Read ct \<Longrightarrow> unat n \<le> length objs \<Longrightarrow>
    rte_ring_move_prod_head (cf_ring c\<lparr>rg_cons := ct\<rparr>) is_sp n behavior = (g, h, nx, free, r) \<Longrightarrow>
    ring_step c (c\<lparr>cf_prod := (if g = 0 then Prod_Idle else Prod_Moved objs g h nx),
                   cf_ring := cf_ring c\<lparr>rg_prod := rg_prod r\<rparr>\<rparr>)"
| prod_copy: "cf_prod c = Prod_Moved objs g h nx \<Longrightarrow>
    ring_step c (c\<lparr>cf_prod := Prod_Copied objs g h nx, cf_ring := ENQUEUE_PTRS (cf_ring c) h objs g\<rparr>)"
| prod_publish: "cf_prod c = Prod_Copied objs g h nx \<Longrightarrow>
    update_tail (rg_prod (cf_ring c)) h nx is_sp = Some ht \<Longrightarrow>
    ring_step c (c\<lparr>cf_prod := Prod_Idle, cf_ring := cf_ring c\<lparr>rg_prod := ht\<rparr>,
                   cf_sent := cf_sent c @ take (unat g) objs\<rparr>)"
| cons_read: "cf_cons c = Cons_Idle \<Longrightarrow>
    ring_step c (c\<lparr>cf_cons := Cons_Read (rg_prod (cf_ring c))\<rparr>)"
| cons_move: "cf_cons c = Cons_Read pt \<Longrightarrow>
    rte_ring_move_cons_head (cf_ring c\<lparr>rg_prod := pt\<rparr>) is_sc n behavior = (g, h, nx, entries, r) \<Longrightarrow>
    ring_step c (c\<lparr>cf_cons := (if g = 0 then Cons_Idle else Cons_Moved g h nx),
                   cf_ring := cf_ring c\<lparr>rg_cons := rg_cons r\<rparr>\<rparr>)"
| cons_copy: "cf_cons c = Cons_Moved g h nx \<Longrightarrow> unat g \<le> length tbl \<Longrightarrow>
    ring_step c (c\<lparr>cf_cons := Cons_Copied (DEQUEUE_PTRS (cf_ring c) h tbl g) g h nx\<rparr>)"
| cons_publish: "cf_cons c = Cons_Copied objs g h nx \<Longrightarrow>
    update_tail (rg_cons (cf_ring c)) h nx is_sc = Some ht \<Longrightarrow>
    ring_step c (c\<lparr>cf_cons := Cons_Idle, cf_ring := cf_ring c\<lparr>rg_cons := ht\<rparr>,
                   cf_received := cf_received c @ take (unat g) objs\<rparr>)"

inductive_cases ring_stepE: "ring_step c c'"

definition ring_conf_init :: "'a rte_ring \<Rightarrow> 'a ring_conf" where
  "ring_conf_init r = \<lparr>cf_ring = r, cf_prod = Prod_Idle, cf_cons = Cons_Idle, cf_sent = ring_contents r, cf_received = []\<rparr>"

subsection \<open>The invariant\<close>

text \<open>Slots published and not released; slots reserved and not released.\<close>

definition ring_span :: "'a rte_ring \<Rightarrow> nat" where
  "ring_span r = unat (ht_head (rg_prod r) - ht_tail (rg_cons r))"

definition prod_inv :: "nat \<Rightarrow> 'a rte_ring \<Rightarrow> 'a prod_phase \<Rightarrow> bool" where
  "prod_inv k r ph \<longleftrightarrow>
     (case ph of
        Prod_Idle \<Rightarrow> ht_head (rg_prod r) = ht_tail (rg_prod r)
      | Prod_Read ct \<Rightarrow> ht_head (rg_prod r) = ht_tail (rg_prod r) \<and>
          unat (ht_tail (rg_prod r) - ht_tail ct) \<le> unat (rg_capacity r) \<and>
          ring_used r \<le> unat (ht_tail (rg_prod r) - ht_tail ct)
      | Prod_Moved objs g h nx \<Rightarrow> h = ht_tail (rg_prod r) \<and> nx = h + g \<and> ht_head (rg_prod r) = nx \<and>
          ring_span r = ring_used r + unat g \<and> unat g \<le> length objs
      | Prod_Copied objs g h nx \<Rightarrow> h = ht_tail (rg_prod r) \<and> nx = h + g \<and> ht_head (rg_prod r) = nx \<and>
          ring_span r = ring_used r + unat g \<and> unat g \<le> length objs \<and>
          (\<forall>m < unat g. rg_slots r ! ((unat h + m) mod 2 ^ k) = objs ! m))"

definition cons_inv :: "'a rte_ring \<Rightarrow> 'a cons_phase \<Rightarrow> bool" where
  "cons_inv r ph \<longleftrightarrow>
     (case ph of
        Cons_Idle \<Rightarrow> ht_head (rg_cons r) = ht_tail (rg_cons r)
      | Cons_Read pt \<Rightarrow> ht_head (rg_cons r) = ht_tail (rg_cons r) \<and>
          unat (ht_tail pt - ht_tail (rg_cons r)) \<le> ring_used r
      | Cons_Moved g h nx \<Rightarrow> h = ht_tail (rg_cons r) \<and> nx = h + g \<and> ht_head (rg_cons r) = nx \<and> unat g \<le> ring_used r
      | Cons_Copied objs g h nx \<Rightarrow> h = ht_tail (rg_cons r) \<and> nx = h + g \<and> ht_head (rg_cons r) = nx \<and>
          unat g \<le> ring_used r \<and> take (unat g) objs = take (unat g) (ring_contents r))"

definition ring_conf_inv :: "nat \<Rightarrow> 'a ring_conf \<Rightarrow> bool" where
  "ring_conf_inv k c \<longleftrightarrow>
     ring_shape k (cf_ring c) \<and> ring_span (cf_ring c) \<le> unat (rg_capacity (cf_ring c)) \<and>
     ring_used (cf_ring c) \<le> ring_span (cf_ring c) \<and>
     prod_inv k (cf_ring c) (cf_prod c) \<and> cons_inv (cf_ring c) (cf_cons c) \<and>
     cf_sent c = cf_received c @ ring_contents (cf_ring c)"

subsection \<open>Every step keeps the invariant\<close>

lemma ring_move_heads [simp]:
  "ring_used (r\<lparr>rg_prod := (rg_prod r)\<lparr>ht_head := x\<rparr>\<rparr>) = ring_used r"
  "ring_contents (r\<lparr>rg_prod := (rg_prod r)\<lparr>ht_head := x\<rparr>\<rparr>) = ring_contents r"
  "ring_shape k (r\<lparr>rg_prod := p\<rparr>) = ring_shape k r"
  "ring_used (r\<lparr>rg_cons := (rg_cons r)\<lparr>ht_head := x\<rparr>\<rparr>) = ring_used r"
  "ring_contents (r\<lparr>rg_cons := (rg_cons r)\<lparr>ht_head := x\<rparr>\<rparr>) = ring_contents r"
  "ring_span (r\<lparr>rg_cons := (rg_cons r)\<lparr>ht_head := x\<rparr>\<rparr>) = ring_span r"
  "ring_shape k (r\<lparr>rg_cons := q\<rparr>) = ring_shape k r"
  by (simp_all add: ring_used_def ring_contents_def ring_shape_def ring_span_def)

lemma ring_reserve:
  assumes "ring_shape k r" "ht_head (rg_prod r) = ht_tail (rg_prod r)" "ring_used r + unat g \<le> unat (rg_capacity r)"
  shows "ring_span (r\<lparr>rg_prod := (rg_prod r)\<lparr>ht_head := ht_tail (rg_prod r) + g\<rparr>\<rparr>) = ring_used r + unat g"
proof -
  note Z = ring_shape_sizes [OF assms(1)]
  have "unat ((ht_tail (rg_prod r) - ht_tail (rg_cons r)) + g) = ring_used r + unat g"
    using unat_plus_less [of "ht_tail (rg_prod r) - ht_tail (rg_cons r)" g] assms(3) Z(2,4)
    by (simp add: ring_used_def)
  then show ?thesis by (simp add: ring_span_def algebra_simps)
qed

text \<open>The space a producer computes from an old consumer tail is there.\<close>

lemma stale_space:
  assumes "unat (ht_tail (rg_prod r) - t) \<le> unat (rg_capacity r)" "ring_used r \<le> unat (ht_tail (rg_prod r) - t)"
  shows "ring_used r + unat (wgranted b n (rg_capacity r + t - ht_tail (rg_prod r))) \<le> unat (rg_capacity r)"
proof -
  have e: "rg_capacity r + t - ht_tail (rg_prod r) = rg_capacity r - (ht_tail (rg_prod r) - t)" by simp
  have "unat (rg_capacity r + t - ht_tail (rg_prod r)) = unat (rg_capacity r) - unat (ht_tail (rg_prod r) - t)"
    unfolding e using assms(1) by (intro unat_sub_le) (simp add: word_le_nat_alt)
  then show ?thesis
    using assms granted_le(2) [of b "unat n" "unat (rg_capacity r) - unat (ht_tail (rg_prod r) - t)"]
    by (simp add: unat_wgranted)
qed

lemma prod_move_inv:
  assumes inv: "ring_conf_inv k c" and ph: "cf_prod c = Prod_Read ct" and n: "unat n \<le> length objs"
    and mv: "rte_ring_move_prod_head (cf_ring c\<lparr>rg_cons := ct\<rparr>) is_sp n behavior = (g, h, nx, free, r)"
  shows "ring_conf_inv k (c\<lparr>cf_prod := (if g = 0 then Prod_Idle else Prod_Moved objs g h nx),
                   cf_ring := cf_ring c\<lparr>rg_prod := rg_prod r\<rparr>\<rparr>)"
proof -
  let ?r = "cf_ring c"
  have I: "ring_shape k ?r" "ring_used ?r \<le> ring_span ?r" "ht_head (rg_prod ?r) = ht_tail (rg_prod ?r)"
    "unat (ht_tail (rg_prod ?r) - ht_tail ct) \<le> unat (rg_capacity ?r)"
    "ring_used ?r \<le> unat (ht_tail (rg_prod ?r) - ht_tail ct)"
    "cons_inv ?r (cf_cons c)" "cf_sent c = cf_received c @ ring_contents ?r"
    using inv ph by (simp_all add: ring_conf_inv_def prod_inv_def)
  have M: "g = wgranted behavior n (rg_capacity ?r + ht_tail ct - ht_tail (rg_prod ?r))" "h = ht_tail (rg_prod ?r)"
    "nx = ht_tail (rg_prod ?r) + g" "rg_prod r = (rg_prod ?r)\<lparr>ht_head := ht_tail (rg_prod ?r) + g\<rparr>"
    using mv I(3) unfolding move_prod_head by auto
  have room: "ring_used ?r + unat g \<le> unat (rg_capacity ?r)" unfolding M(1) by (rule stale_space [OF I(4,5)])
  have gn: "unat g \<le> length objs" using n granted_le(1) by (simp add: M(1) unat_wgranted) (meson le_trans)
  have c: "cons_inv (?r\<lparr>rg_prod := (rg_prod ?r)\<lparr>ht_head := x\<rparr>\<rparr>) (cf_cons c)" for x
    using I(6) by (auto simp: cons_inv_def split: cons_phase.splits)
  show ?thesis
    using I(1,7) room gn c ring_reserve [OF I(1,3) room]
    by (auto simp: ring_conf_inv_def prod_inv_def M(2-4))
qed

lemma prod_copy_inv:
  assumes inv: "ring_conf_inv k c" and ph: "cf_prod c = Prod_Moved objs g h nx"
  shows "ring_conf_inv k (c\<lparr>cf_prod := Prod_Copied objs g h nx, cf_ring := ENQUEUE_PTRS (cf_ring c) h objs g\<rparr>)"
proof -
  let ?r = "cf_ring c" and ?S = "(2 :: nat) ^ k"
  let ?ct = "unat (ht_tail (rg_cons ?r))"
  have I: "ring_shape k ?r" "ring_used ?r \<le> ring_span ?r" "ring_span ?r \<le> unat (rg_capacity ?r)"
    "h = ht_tail (rg_prod ?r)" "nx = h + g" "ht_head (rg_prod ?r) = nx" "ring_span ?r = ring_used ?r + unat g"
    "unat g \<le> length objs" "cons_inv ?r (cf_cons c)" "cf_sent c = cf_received c @ ring_contents ?r"
    using inv ph by (simp_all add: ring_conf_inv_def prod_inv_def)
  have lt: "ring_used ?r + unat g < ?S" using I(3,7) ring_shape_sizes(2) [OF I(1)] by linarith
  from ENQUEUE_PTRS_positions [OF I(1) lt I(8)]
  obtain slots where E: "ENQUEUE_PTRS ?r h objs g = ?r\<lparr>rg_slots := slots\<rparr>" "length slots = ?S"
    "\<And>m. m < ring_used ?r + unat g \<Longrightarrow> slots ! ((?ct + m) mod ?S) =
       (if m < ring_used ?r then rg_slots ?r ! ((?ct + m) mod ?S) else objs ! (m - ring_used ?r))"
    unfolding I(4) by auto
  let ?r' = "?r\<lparr>rg_slots := slots\<rparr>"
  have sh': "ring_shape k ?r'" using I(1) E(2) by (simp add: ring_shape_def)
  have same: "ring_contents ?r' = ring_contents ?r"
    using E(3) ring_shape_sizes(1) [OF I(1)] by (simp add: ring_contents_def ring_used_def)
  have "slots ! ((unat h + m) mod ?S) = objs ! m" if "m < unat g" for m
  proof -
    have "(unat h + m) mod ?S = (?ct + (ring_used ?r + m)) mod ?S"
      unfolding I(4) using mod_add_cong [OF prod_index [OF I(1)] refl, of m] by (simp only: add.assoc)
    then show ?thesis using E(3) [of "ring_used ?r + m"] that by simp
  qed
  moreover have "cons_inv ?r' (cf_cons c)"
    using I(9) same by (auto simp: cons_inv_def ring_used_def split: cons_phase.splits)
  ultimately show ?thesis
    unfolding E(1) using I sh' same by (simp add: ring_conf_inv_def prod_inv_def ring_span_def ring_used_def)
qed

lemma prod_publish_inv:
  assumes inv: "ring_conf_inv k c" and ph: "cf_prod c = Prod_Copied objs g h nx"
    and ut: "update_tail (rg_prod (cf_ring c)) h nx is_sp = Some ht"
  shows "ring_conf_inv k (c\<lparr>cf_prod := Prod_Idle, cf_ring := cf_ring c\<lparr>rg_prod := ht\<rparr>,
                   cf_sent := cf_sent c @ take (unat g) objs\<rparr>)"
proof -
  let ?r = "cf_ring c" and ?S = "(2 :: nat) ^ k"
  let ?ct = "unat (ht_tail (rg_cons ?r))" and ?r' = "?r\<lparr>rg_prod := ht\<rparr>"
  have I: "ring_shape k ?r" "ring_used ?r \<le> ring_span ?r" "ring_span ?r \<le> unat (rg_capacity ?r)"
    "h = ht_tail (rg_prod ?r)" "nx = h + g" "ht_head (rg_prod ?r) = nx" "ring_span ?r = ring_used ?r + unat g"
    "unat g \<le> length objs" "\<forall>m < unat g. rg_slots ?r ! ((unat h + m) mod ?S) = objs ! m"
    "cons_inv ?r (cf_cons c)" "cf_sent c = cf_received c @ ring_contents ?r"
    using inv unfolding ring_conf_inv_def ph prod_inv_def prod_phase.case by blast+
  have ht: "ht = (rg_prod ?r)\<lparr>ht_tail := nx\<rparr>" using ut by (auto simp: update_tail_def split: if_splits)
  have used: "ring_used ?r' = ring_used ?r + unat g" using I(6,7) by (simp add: ring_used_def ring_span_def ht)
  have pos: "rg_slots ?r ! ((?ct + m) mod ?S) = objs ! (m - ring_used ?r)" if "ring_used ?r \<le> m" "m < ring_used ?r + unat g" for m
  proof -
    have "(unat h + (m - ring_used ?r)) mod ?S = (?ct + m) mod ?S"
      unfolding I(4) using mod_add_cong [OF prod_index [OF I(1)] refl, of "m - ring_used ?r"] that(1)
      by (simp only: add.assoc le_add_diff_inverse)
    then show ?thesis using I(9) [rule_format, of "m - ring_used ?r"] that by simp
  qed
  have app: "ring_contents ?r' = ring_contents ?r @ take (unat g) objs"
    using pos used I(8) ring_shape_sizes(1) [OF I(1)] by (intro ring_contents_append) simp_all
  moreover have "cons_inv ?r' (cf_cons c)"
    using I(10) used app by (auto simp: cons_inv_def split: cons_phase.splits)
  ultimately show ?thesis
    using I used by (simp add: ring_conf_inv_def prod_inv_def ring_span_def ht)
qed

lemma cons_publish_inv:
  assumes inv: "ring_conf_inv k c" and ph: "cf_cons c = Cons_Copied objs g h nx"
    and ut: "update_tail (rg_cons (cf_ring c)) h nx is_sc = Some ht"
  shows "ring_conf_inv k (c\<lparr>cf_cons := Cons_Idle, cf_ring := cf_ring c\<lparr>rg_cons := ht\<rparr>,
                   cf_received := cf_received c @ take (unat g) objs\<rparr>)"
proof -
  let ?r = "cf_ring c" and ?S = "(2 :: nat) ^ k"
  let ?r' = "?r\<lparr>rg_cons := ht\<rparr>"
  have I: "ring_shape k ?r" "ring_used ?r \<le> ring_span ?r" "ring_span ?r \<le> unat (rg_capacity ?r)"
    "h = ht_tail (rg_cons ?r)" "nx = h + g" "ht_head (rg_cons ?r) = nx" "unat g \<le> ring_used ?r"
    "take (unat g) objs = take (unat g) (ring_contents ?r)" "prod_inv k ?r (cf_prod c)"
    "cf_sent c = cf_received c @ ring_contents ?r"
    using inv ph by (simp_all add: ring_conf_inv_def cons_inv_def)
  have ht: "ht = (rg_cons ?r)\<lparr>ht_tail := nx\<rparr>" using ut by (auto simp: update_tail_def split: if_splits)
  have minus: "unat (x - nx) = unat (x - h) - unat g" if "unat g \<le> unat (x - h)" for x
    using that by (simp add: I(5) diff_diff_eq [symmetric] unat_sub_le word_le_nat_alt)
  have used: "ring_used ?r' = ring_used ?r - unat g"
    using minus [of "ht_tail (rg_prod ?r)"] I(7) by (simp add: ring_used_def ht I(4))
  have span: "ring_span ?r' = ring_span ?r - unat g"
    using minus [of "ht_head (rg_prod ?r)"] I(2,7) by (simp add: ring_span_def ht I(4))
  have "ring_contents ?r' = drop (unat g) (ring_contents ?r)"
    using used by (intro ring_contents_drop [OF I(1)]) (simp_all add: ht I(4,5))
  moreover have "prod_inv k ?r' (cf_prod c)"
    using I(2,7,9) used span by (auto simp: prod_inv_def split: prod_phase.splits)
  moreover have "cf_received c @ ring_contents ?r = (cf_received c @ take (unat g) objs) @ drop (unat g) (ring_contents ?r)"
    using I(8) by simp
  ultimately show ?thesis
    using I(1,6,10) used span le_trans [OF diff_le_self I(3)] diff_le_mono [OF I(2)] by (simp add: ring_conf_inv_def cons_inv_def ht)
qed

lemma cons_move_inv:
  assumes inv: "ring_conf_inv k c" and ph: "cf_cons c = Cons_Read pt"
    and mv: "rte_ring_move_cons_head (cf_ring c\<lparr>rg_prod := pt\<rparr>) is_sc n behavior = (g, h, nx, entries, r)"
  shows "ring_conf_inv k (c\<lparr>cf_cons := (if g = 0 then Cons_Idle else Cons_Moved g h nx),
                   cf_ring := cf_ring c\<lparr>rg_cons := rg_cons r\<rparr>\<rparr>)"
proof -
  let ?r = "cf_ring c"
  have I: "ring_shape k ?r" "ring_used ?r \<le> ring_span ?r" "ring_span ?r \<le> unat (rg_capacity ?r)"
    "ht_head (rg_cons ?r) = ht_tail (rg_cons ?r)" "unat (ht_tail pt - ht_tail (rg_cons ?r)) \<le> ring_used ?r"
    "prod_inv k ?r (cf_prod c)" "cf_sent c = cf_received c @ ring_contents ?r"
    using inv ph by (simp_all add: ring_conf_inv_def cons_inv_def)
  have M: "g = wgranted behavior n (ht_tail pt - ht_tail (rg_cons ?r))" "h = ht_tail (rg_cons ?r)"
    "nx = ht_tail (rg_cons ?r) + g" "rg_cons r = (rg_cons ?r)\<lparr>ht_head := ht_tail (rg_cons ?r) + g\<rparr>"
    using mv I(4) unfolding move_cons_head by auto
  have "unat g \<le> ring_used ?r"
    using I(5) granted_le(2) by (simp add: M(1) unat_wgranted) (meson le_trans)
  moreover have "prod_inv k (?r\<lparr>rg_cons := (rg_cons ?r)\<lparr>ht_head := x\<rparr>\<rparr>) (cf_prod c)" for x
    using I(6) by (auto simp: prod_inv_def split: prod_phase.splits)
  ultimately show ?thesis
    using I by (simp add: ring_conf_inv_def cons_inv_def M(2-4))
qed

lemma cons_copy_inv:
  assumes inv: "ring_conf_inv k c" and ph: "cf_cons c = Cons_Moved g h nx" and tbl: "unat g \<le> length tbl"
  shows "ring_conf_inv k (c\<lparr>cf_cons := Cons_Copied (DEQUEUE_PTRS (cf_ring c) h tbl g) g h nx\<rparr>)"
proof -
  let ?r = "cf_ring c"
  have I: "ring_shape k ?r" "ring_used ?r \<le> ring_span ?r" "ring_span ?r \<le> unat (rg_capacity ?r)"
    "h = ht_tail (rg_cons ?r)" "unat g \<le> ring_used ?r"
    using inv ph by (simp_all add: ring_conf_inv_def cons_inv_def)
  note Z = ring_shape_sizes [OF I(1)]
  have "unat g \<le> 2 ^ k" using I(2,3,5) Z(2) by linarith
  from DEQUEUE_PTRS_spec(2) [OF I(1) this tbl, of h]
  have "take (unat g) (DEQUEUE_PTRS ?r h tbl g) = take (unat g) (ring_contents ?r)"
    using I(4,5) Z(1) by (simp add: ring_contents_def take_map mod_add_left_eq)
  then show ?thesis using inv ph by (simp add: ring_conf_inv_def cons_inv_def)
qed

lemma ring_step_inv:
  assumes "ring_step c c'" "ring_conf_inv k c"
  shows "ring_conf_inv k c'"
  using assms
proof (cases rule: ring_step.cases)
  case prod_read
  then show ?thesis using assms(2) by (auto simp: ring_conf_inv_def prod_inv_def ring_used_def ring_span_def)
next
  case cons_read
  then show ?thesis using assms(2) by (auto simp: ring_conf_inv_def cons_inv_def ring_used_def)
next
  case prod_move
  then show ?thesis using assms(2) prod_move_inv by blast
next
  case prod_copy
  then show ?thesis using assms(2) prod_copy_inv by blast
next
  case prod_publish
  then show ?thesis using assms(2) prod_publish_inv by blast
next
  case cons_move
  then show ?thesis using assms(2) cons_move_inv by blast
next
  case cons_copy
  then show ?thesis using assms(2) cons_copy_inv by blast
next
  case cons_publish
  then show ?thesis using assms(2) cons_publish_inv by blast
qed

lemma ring_steps_inv: "ring_step\<^sup>*\<^sup>* c c' \<Longrightarrow> ring_conf_inv k c \<Longrightarrow> ring_conf_inv k c'"
  by (induction rule: rtranclp_induct) (auto intro: ring_step_inv)

lemma ring_conf_init_inv: "ring_ok r \<Longrightarrow> \<exists>k. ring_conf_inv k (ring_conf_init r)"
  by (auto simp: ring_ok_def ring_conf_inv_def ring_conf_init_def prod_inv_def cons_inv_def ring_span_def ring_used_def)

subsection \<open>Properties\<close>

definition ex_ring :: "nat rte_ring" where
  "ex_ring = the (femu_ring_create True 0 FEMU_RING_TYPE_MP_SC 4)"

lemma ex_ring_ok: "ring_ok ex_ring" "ring_contents ex_ring = []" "unat (rg_capacity ex_ring) = 3"
  using ring_created [of 2 "0 :: nat" FEMU_RING_TYPE_MP_SC] by (auto simp: ex_ring_def)

text \<open>C22: a ring created with \<open>2 ^ k\<close> slots behaves, under every sequence of single enqueues and dequeues, as a
  first-in first-out list that holds at most \<open>2 ^ k - 1\<close> requests: the same acceptances, the same requests
  handed out, the same contents, across any number of wrap-arounds of the 32-bit indices.\<close>

theorem ring_refines_bounded_list:
  assumes "k \<le> 27"
  shows "\<exists>r res r'. femu_ring_create True null ty (2 ^ k) = Some r \<and>
    fifo_run ring_send (ring_receive null) ops r = Some (res, r') \<and>
    bounded_list_run (2 ^ k - 1) ops [] = (res, ring_contents r')"
proof -
  obtain r where r: "femu_ring_create True null ty (2 ^ k) = Some r" "ring_ok r" "ring_contents r = []"
    "unat (rg_capacity r) = 2 ^ k - 1" using ring_created [OF assms, of null ty] by (elim exE conjE)
  obtain res r' where R: "fifo_run ring_send (ring_receive null) ops r = Some (res, r')"
    "bounded_list_run (2 ^ k - 1) ops [] = (res, ring_contents r')"
    using ring_fifo.run_refines [OF r(2), of null ops] r(3,4) by auto
  show ?thesis by (intro exI [of _ r] exI [of _ res] exI [of _ r'] conjI r(1) R)
qed

theorem ring_refines_bounded_list_witness:
  "\<exists>r res r'. femu_ring_create True 0 FEMU_RING_TYPE_MP_SC (2 ^ 2) = Some r \<and>
    fifo_run ring_send (ring_receive (0 :: nat)) [Put 7, Put 8, Get, Put 9, Put 10, Put 11, Get] r = Some (res, r') \<and>
    bounded_list_run (2 ^ 2 - 1) [Put 7, Put 8, Get, Put 9, Put 10, Put 11, Get] [] = (res, ring_contents r')"
  by (rule ring_refines_bounded_list) simp

text \<open>C23: with one producer thread and one consumer thread, interleaved in any way between the loads of the
  other side's tail, the moves of the heads, the copies and the stores of the tails, the requests handed
  out are those published, in order, without loss or duplication, and never more than the capacity wait.\<close>

theorem ring_interleaving_safe:
  assumes "ring_ok r" and "ring_step\<^sup>*\<^sup>* (ring_conf_init r) c"
  shows "cf_sent c = cf_received c @ ring_contents (cf_ring c) \<and>
    length (ring_contents (cf_ring c)) \<le> unat (rg_capacity (cf_ring c))"
proof -
  obtain k where "ring_conf_inv k (ring_conf_init r)" using ring_conf_init_inv [OF assms(1)] by blast
  with assms(2) have "ring_conf_inv k c" by (rule ring_steps_inv)
  then show ?thesis by (simp add: ring_conf_inv_def)
qed

definition ex_ring_conf :: "nat ring_conf" where
  "ex_ring_conf = (ring_conf_init ex_ring)\<lparr>cf_prod := Prod_Read (rg_cons ex_ring), cf_cons := Cons_Read (rg_prod ex_ring)\<rparr>"

lemma ex_ring_conf_reachable: "ring_step\<^sup>*\<^sup>* (ring_conf_init ex_ring) ex_ring_conf"
proof -
  let ?c1 = "(ring_conf_init ex_ring)\<lparr>cf_prod := Prod_Read (rg_cons ex_ring)\<rparr>"
  have "ring_step (ring_conf_init ex_ring) ?c1"
    using prod_read [of "ring_conf_init ex_ring"] by (simp add: ring_conf_init_def)
  moreover have "ring_step ?c1 ex_ring_conf"
    using cons_read [of ?c1] by (simp add: ring_conf_init_def ex_ring_conf_def)
  ultimately show ?thesis by auto
qed

theorem ring_interleaving_safe_witness:
  "cf_sent ex_ring_conf = cf_received ex_ring_conf @ ring_contents (cf_ring ex_ring_conf) \<and>
    length (ring_contents (cf_ring ex_ring_conf)) \<le> unat (rg_capacity (cf_ring ex_ring_conf))"
  by (rule ring_interleaving_safe [OF ex_ring_ok(1) ex_ring_conf_reachable])

text \<open>C24: the count of a ring is the number of requests in it, which never passes the capacity although the
  indices wrap at 32 bits, and the free count, the full and the empty test agree with it.\<close>

theorem ring_counts_bounded:
  assumes "ring_ok r"
  shows "femu_ring_count r = length (ring_contents r) \<and> femu_ring_count r \<le> unat (rg_capacity r) \<and>
    unat (rte_ring_free_count r) = unat (rg_capacity r) - length (ring_contents r) \<and>
    (rte_ring_full r \<longleftrightarrow> length (ring_contents r) = unat (rg_capacity r)) \<and>
    (rte_ring_empty r \<longleftrightarrow> ring_contents r = [])"
proof -
  have c: "unat (rte_ring_count r) = ring_used r" by (rule ring_count_used [OF assms])
  have le: "ring_used r \<le> unat (rg_capacity r)" using assms by (simp add: ring_ok_def)
  have f: "unat (rte_ring_free_count r) = unat (rg_capacity r) - ring_used r"
    using c le by (simp add: rte_ring_free_count_def unat_sub_le word_le_nat_alt)
  have "rte_ring_empty r \<longleftrightarrow> ring_used r = 0" by (simp add: rte_ring_empty_def flip: c unat_eq_0)
  moreover have "rte_ring_full r \<longleftrightarrow> ring_used r = unat (rg_capacity r)"
    using f le by (simp add: rte_ring_full_def flip: unat_eq_0) arith
  moreover have "ring_used r = 0 \<longleftrightarrow> ring_contents r = []"
    using length_ring_contents [of r] by (metis length_0_conv)
  ultimately show ?thesis using c le f by (simp add: femu_ring_count_def)
qed

theorem ring_counts_bounded_witness:
  "femu_ring_count ex_ring = length (ring_contents ex_ring) \<and> femu_ring_count ex_ring \<le> unat (rg_capacity ex_ring) \<and>
    unat (rte_ring_free_count ex_ring) = unat (rg_capacity ex_ring) - length (ring_contents ex_ring) \<and>
    (rte_ring_full ex_ring \<longleftrightarrow> length (ring_contents ex_ring) = unat (rg_capacity ex_ring)) \<and>
    (rte_ring_empty ex_ring \<longleftrightarrow> ring_contents ex_ring = [])"
  by (rule ring_counts_bounded [OF ex_ring_ok(1)])

text \<open>a bulk enqueue stores all its objects behind the contents when they fit and none otherwise, and a burst
  dequeue hands out the oldest objects, as many as there are up to the number asked for.\<close>

theorem ring_bulk_and_burst:
  assumes "ring_ok r" and "unat n \<le> length objs"
  shows "\<exists>gw fw r' hw ew tbl r''.
    rte_ring_enqueue_bulk r objs n = Some (gw, fw, r') \<and>
    (if ring_used r + unat n \<le> unat (rg_capacity r)
     then gw = n \<and> ring_contents r' = ring_contents r @ take (unat n) objs
     else gw = 0 \<and> ring_contents r' = ring_contents r) \<and> ring_ok r' \<and>
    rte_ring_dequeue_burst r objs n = Some (hw, ew, tbl, r'') \<and> unat hw = min (unat n) (ring_used r) \<and>
    take (unat hw) tbl = take (unat n) (ring_contents r) \<and> ring_contents r'' = drop (unat n) (ring_contents r) \<and> ring_ok r''"
proof -
  have le: "ring_used r \<le> unat (rg_capacity r)" using assms(1) by (simp add: ring_ok_def)
  obtain gw fw r' where E: "rte_ring_enqueue_bulk r objs n = Some (gw, fw, r')" "ring_ok r'"
    "unat gw = granted RTE_RING_QUEUE_FIXED (unat n) (unat (rg_capacity r) - ring_used r)"
    "ring_contents r' = ring_contents r @ take (unat gw) objs"
    using ring_enqueue [OF assms, of RTE_RING_QUEUE_FIXED "ht_single (rg_prod r)"]
    by (auto simp: rte_ring_enqueue_bulk_def)
  obtain hw ew tbl r'' where D: "rte_ring_dequeue_burst r objs n = Some (hw, ew, tbl, r'')" "ring_ok r''"
    "unat hw = min (unat n) (ring_used r)" "take (unat hw) tbl = take (unat hw) (ring_contents r)"
    "ring_contents r'' = drop (unat hw) (ring_contents r)"
    using ring_dequeue [OF assms, of RTE_RING_QUEUE_VARIABLE "ht_single (rg_cons r)"]
    by (auto simp: rte_ring_dequeue_burst_def granted_def min_def split: if_splits)
  have "take (unat hw) (ring_contents r) = take (unat n) (ring_contents r)"
    "drop (unat hw) (ring_contents r) = drop (unat n) (ring_contents r)" by (simp_all add: D(3) min_def)
  moreover have "if ring_used r + unat n \<le> unat (rg_capacity r)
     then gw = n \<and> ring_contents r' = ring_contents r @ take (unat n) objs
     else gw = 0 \<and> ring_contents r' = ring_contents r"
  proof (cases "ring_used r + unat n \<le> unat (rg_capacity r)")
    case True
    then have "unat gw = unat n" using E(3) by (simp add: granted_def)
    then show ?thesis using True E(4) by (simp add: word_unat_eq_iff)
  next
    case False
    then have "unat gw = 0" using E(3) le by (simp add: granted_def)
    then show ?thesis using False E(4) by (simp add: unat_eq_0)
  qed
  ultimately show ?thesis using E(1,2) D by auto
qed

theorem ring_bulk_and_burst_witness:
  "\<exists>gw fw r' hw ew tbl r''.
    rte_ring_enqueue_bulk ex_ring [4, 5] 2 = Some (gw, fw, r') \<and>
    (if ring_used ex_ring + unat (2 :: u32) \<le> unat (rg_capacity ex_ring)
     then gw = 2 \<and> ring_contents r' = ring_contents ex_ring @ take (unat (2 :: u32)) [4, 5]
     else gw = 0 \<and> ring_contents r' = ring_contents ex_ring) \<and> ring_ok r' \<and>
    rte_ring_dequeue_burst ex_ring [4, 5] 2 = Some (hw, ew, tbl, r'') \<and> unat hw = min (unat (2 :: u32)) (ring_used ex_ring) \<and>
    take (unat hw) tbl = take (unat (2 :: u32)) (ring_contents ex_ring) \<and>
    ring_contents r'' = drop (unat (2 :: u32)) (ring_contents ex_ring) \<and> ring_ok r''"
  by (rule ring_bulk_and_burst [OF ex_ring_ok(1)]) simp

end
