(* ===== verification/Bitmap.thy ===== *)
theory Bitmap
  imports Femu_Prelude "HOL-Library.Monad_Syntax"
begin

text \<open>
  The bitmaps of \<open>qemu-compat/bitmap.c\<close>, \<open>bitmap.h\<close> and \<open>bitops.c\<close> as far as the controller uses them:
  allocation, setting and clearing a range, and the search for the next set bit, word by word as
  the code does it.  A bitmap is its array of \<open>unsigned long\<close>; \<open>None\<close> is a failed \<open>assert\<close> or an access
  outside the array.
\<close>

subsection \<open>Operations\<close>

type_synonym bitmap = "u64 list"

definition BITS_TO_LONGS :: "nat \<Rightarrow> nat" where "BITS_TO_LONGS n = (n + 64 - 1) div 64"
definition BIT_WORD :: "nat \<Rightarrow> nat" where "BIT_WORD n = n div 64"

definition BITMAP_FIRST_WORD_MASK :: "nat \<Rightarrow> u64" where
  "BITMAP_FIRST_WORD_MASK start = push_bit (unat ((of_nat start :: u64) AND (64 - 1))) (NOT 0)"

definition BITMAP_LAST_WORD_MASK :: "nat \<Rightarrow> u64" where
  "BITMAP_LAST_WORD_MASK nbits = drop_bit (unat ((- of_nat nbits :: u64) AND (64 - 1))) (NOT 0)"

definition bitmap_new :: "nat \<Rightarrow> bitmap" where
  "bitmap_new nbits = replicate (BITS_TO_LONGS nbits) 0"

definition bm_read :: "bitmap \<Rightarrow> nat \<Rightarrow> u64 option" where
  "bm_read bm p = (if p < length bm then Some (bm ! p) else None)"

definition bm_modify :: "bitmap \<Rightarrow> nat \<Rightarrow> (u64 \<Rightarrow> u64) \<Rightarrow> bitmap option" where
  "bm_modify bm p f = (if p < length bm then Some (bm[p := f (bm ! p)]) else None)"

text \<open>The loop \<open>bitmap_set\<close> and \<open>bitmap_clear\<close> have in common: whole words while \<open>nr\<close> covers the rest of
  the word, then the bits of the last word.  \<open>f\<close> is the update of a word with a mask.\<close>

function bitmap_range_loop ::
  "(u64 \<Rightarrow> u64 \<Rightarrow> u64) \<Rightarrow> nat \<Rightarrow> nat \<Rightarrow> nat \<Rightarrow> nat \<Rightarrow> u64 \<Rightarrow> bitmap \<Rightarrow> bitmap option" where
  "bitmap_range_loop f size' p nr bits msk bm =
     (if bits = 0 then None
      else if bits \<le> nr
      then bm_modify bm p (f msk) \<bind> bitmap_range_loop f size' (p + 1) (nr - bits) 64 (NOT 0)
      else if nr \<noteq> 0 then bm_modify bm p (f (msk AND BITMAP_LAST_WORD_MASK size'))
      else Some bm)"
  by auto
termination by (relation "measure (\<lambda>(f, s, p, nr, bits, m, bm). nr)") auto

definition bitmap_range :: "(u64 \<Rightarrow> u64 \<Rightarrow> u64) \<Rightarrow> bitmap \<Rightarrow> int \<Rightarrow> int \<Rightarrow> bitmap option" where
  "bitmap_range f bm start nr =
     (if start < 0 \<or> nr < 0 then None
      else bitmap_range_loop f (nat start + nat nr) (BIT_WORD (nat start)) (nat nr) (64 - nat start mod 64)
             (BITMAP_FIRST_WORD_MASK (nat start)) bm)"

definition bitmap_set :: "bitmap \<Rightarrow> int \<Rightarrow> int \<Rightarrow> bitmap option" where
  "bitmap_set bm start nr = bitmap_range (\<lambda>msk w. w OR msk) bm start nr"

definition bitmap_clear :: "bitmap \<Rightarrow> int \<Rightarrow> int \<Rightarrow> bitmap option" where
  "bitmap_clear bm start nr = bitmap_range (\<lambda>msk w. w AND NOT msk) bm start nr"

definition ctz64 :: "u64 \<Rightarrow> nat" where
  "ctz64 w = (if w = 0 then 64 else length (takeWhile (\<lambda>i. \<not> bit w i) [0..<64]))"

text \<open>\<open>find_next_bit\<close>: the labels \<open>found_first\<close> and \<open>found_middle\<close> are functions of the state there; no
  subtraction wraps, since \<open>size\<close> never drops below the bits looked at.\<close>

definition found_middle :: "nat \<Rightarrow> u64 \<Rightarrow> nat option" where
  "found_middle result tmp = Some (result + ctz64 tmp)"

definition found_first :: "nat \<Rightarrow> nat \<Rightarrow> u64 \<Rightarrow> nat option" where
  "found_first result size' tmp =
     (let tmp = tmp AND drop_bit (64 - size') (NOT 0)
      in if tmp = 0 then Some (result + size') else found_middle result tmp)"

function find_word_loop :: "bitmap \<Rightarrow> nat \<Rightarrow> nat \<Rightarrow> nat \<Rightarrow> nat option" where
  "find_word_loop bm p result size' =
     (if 64 \<le> size' then
        bm_read bm p \<bind> (\<lambda>tmp.
          if tmp \<noteq> 0 then found_middle result tmp else find_word_loop bm (p + 1) (result + 64) (size' - 64))
      else if size' = 0 then Some result
      else bm_read bm p \<bind> found_first result size')"
  by auto
termination by (relation "measure (\<lambda>(bm, p, r, s). s)") auto

function find_four_loop :: "bitmap \<Rightarrow> nat \<Rightarrow> nat \<Rightarrow> nat \<Rightarrow> nat option" where
  "find_four_loop bm p result size' =
     (if 4 * 64 \<le> size' then do {
        tmp \<leftarrow> bm_read bm p;
        d1 \<leftarrow> bm_read bm (p + 1);
        d2 \<leftarrow> bm_read bm (p + 2);
        d3 \<leftarrow> bm_read bm (p + 3);
        if tmp \<noteq> 0 then found_middle result tmp
        else if d1 OR d2 OR d3 \<noteq> 0 then find_word_loop bm p result size'
        else find_four_loop bm (p + 4) (result + 4 * 64) (size' - 4 * 64)
      }
      else find_word_loop bm p result size')"
  by auto
termination by (relation "measure (\<lambda>(bm, p, r, s). s)") auto

definition find_next_bit :: "bitmap \<Rightarrow> nat \<Rightarrow> nat \<Rightarrow> nat option" where
  "find_next_bit bm size0 offset0 =
     (let p = BIT_WORD offset0;
          result = offset0 div 64 * 64;
          size' = size0 - result;
          offset = offset0 mod 64
      in if size0 \<le> offset0 then Some size0
         else if offset \<noteq> 0 then
           bm_read bm p \<bind> (\<lambda>w.
             let tmp = w AND push_bit offset (NOT 0)
             in if size' < 64 then found_first result size' tmp
                else if tmp \<noteq> 0 then found_middle result tmp
                else find_four_loop bm (p + 1) (result + 64) (size' - 64))
         else find_four_loop bm p result size')"

declare bitmap_range_loop.simps [simp del] find_word_loop.simps [simp del] find_four_loop.simps [simp del]

subsection \<open>The bits of a bitmap\<close>

definition bm_bit :: "bitmap \<Rightarrow> nat \<Rightarrow> bool" where
  "bm_bit bm i \<longleftrightarrow> i div 64 < length bm \<and> bit (bm ! (i div 64)) (i mod 64)"

lemma unat_and_63: "unat (w AND 63 :: u64) = unat w mod 64"
proof -
  have "unat (w AND (2 ^ 6 - 1)) = unat w mod 2 ^ 6" by (rule unat_and_mask)
  then show ?thesis by simp
qed

lemma bit_first_mask: "bit (BITMAP_FIRST_WORD_MASK start) n \<longleftrightarrow> start mod 64 \<le> n \<and> n < 64"
proof -
  have "unat (of_nat start :: u64) mod 64 = start mod 64"
    by (simp add: unsigned_of_nat take_bit_nat_eq_self_iff take_bit_eq_mod mod_mod_cancel)
  then show ?thesis
    by (auto simp: BITMAP_FIRST_WORD_MASK_def unat_and_63 bit_simps)
qed

lemma neg_mod_64: "unat (- (of_nat k :: u64)) mod 64 = (64 - k mod 64) mod 64"
proof -
  have k: "unat (of_nat k :: u64) mod 2 ^ 6 = k mod 2 ^ 6"
    by (simp add: unsigned_of_nat take_bit_eq_mod mod_mod_cancel)
  have "unat (- (of_nat k :: u64) + of_nat k) mod 2 ^ 6 = (unat (- (of_nat k :: u64)) + unat (of_nat k :: u64)) mod 2 ^ 6"
    by (rule unat_plus_mod) simp
  then have "(unat (- (of_nat k :: u64)) + unat (of_nat k :: u64)) mod 64 = 0" by simp
  moreover have "(unat (- (of_nat k :: u64)) mod 64 + k mod 64) mod 64 =
      (unat (- (of_nat k :: u64)) mod 64 + unat (of_nat k :: u64) mod 64) mod 64" using k by simp
  ultimately have z: "(unat (- (of_nat k :: u64)) mod 64 + k mod 64) mod 64 = 0" by (simp only: mod_add_eq)
  define x where "x = unat (- (of_nat k :: u64)) mod 64"
  define y where "y = k mod 64"
  have xy: "x < 64" "y < 64" "(x + y) mod 64 = 0" using z by (simp_all add: x_def y_def)
  then obtain q where "x + y = 64 * q" by (auto simp: mod_0_imp_dvd dvd_def)
  then have "x + y = 0 \<or> x + y = 64" using xy(1,2) by (cases q; cases "q - 1") auto
  then have "x = (64 - y) mod 64" using xy(1) by auto
  then show ?thesis by (simp add: x_def y_def)
qed

lemma bit_last_mask: "bit (BITMAP_LAST_WORD_MASK k) n \<longleftrightarrow> n < 64 \<and> (k mod 64 = 0 \<or> n < k mod 64)"
proof -
  have "unat ((- of_nat k :: u64) AND (64 - 1)) = (64 - k mod 64) mod 64"
    using unat_and_63 [of "- of_nat k"] neg_mod_64 [of k] by simp
  moreover have "k mod 64 < 64" by simp
  ultimately show ?thesis
    by (cases "k mod 64 = 0") (auto simp: BITMAP_LAST_WORD_MASK_def bit_simps)
qed

lemma bm_bit_update:
  assumes "p < length bm"
  shows "bm_bit (bm[p := w]) i \<longleftrightarrow> (if i div 64 = p then bit w (i mod 64) else bm_bit bm i)"
  using assms by (auto simp: bm_bit_def)

lemma in_word: "i div 64 = p \<Longrightarrow> \<exists>r. i = 64 * p + r \<and> i mod 64 = r \<and> r < 64" for i p :: nat
  by (rule exI [of _ "i mod 64"]) auto

lemma outside_word:
  fixes i p :: nat
  assumes "i div 64 \<noteq> p"
  shows "i < 64 * p \<or> 64 * (p + 1) \<le> i"
proof -
  define q where "q = i div 64"
  obtain r where "i = 64 * q + r" "r < 64" using in_word [OF q_def [symmetric]] by blast
  moreover have "q + 1 \<le> p \<or> p + 1 \<le> q" using assms q_def by auto
  ultimately show ?thesis by (elim disjE) simp_all
qed

subsection \<open>Setting and clearing ranges\<close>

text \<open>An update of a word by a mask that gives the masked bits the value \<open>v\<close>.\<close>

definition puts :: "(u64 \<Rightarrow> u64 \<Rightarrow> u64) \<Rightarrow> bool \<Rightarrow> bool" where
  "puts f v \<longleftrightarrow> (\<forall>m w n. n < 64 \<longrightarrow> bit (f m w) n = (if bit m n then v else bit w n))"

lemma range_loop:
  assumes "puts f v" "0 < bits" "bits \<le> 64" "\<And>n. bit msk n \<longleftrightarrow> 64 - bits \<le> n \<and> n < 64"
    "size' = 64 * p + (64 - bits) + nr" "size' \<le> 64 * length bm"
  shows "\<exists>bm'. bitmap_range_loop f size' p nr bits msk bm = Some bm' \<and> length bm' = length bm \<and>
    (\<forall>i. bm_bit bm' i = (if 64 * p + (64 - bits) \<le> i \<and> i < size' then v else bm_bit bm i))"
  using assms(2-6)
proof (induction nr arbitrary: p bits msk bm rule: less_induct)
  case (less nr)
  let ?s = "64 * p + (64 - bits)"
  have inp: "p < length bm" if "nr \<noteq> 0" using less.prems that by linarith
  have word: "bit (f m (bm ! p)) (i mod 64) = (if bit m (i mod 64) then v else bm_bit bm i)"
    if "i div 64 = p" "p < length bm" for m i
    using assms(1) that by (auto simp: puts_def bm_bit_def)
  show ?case
  proof (cases "bits \<le> nr")
    case True
    then have p: "p < length bm" using less.prems(1) inp by auto
    define bm1 where "bm1 = bm[p := f msk (bm ! p)]"
    have "\<exists>bm'. bitmap_range_loop f size' (p + 1) (nr - bits) 64 (NOT 0) bm1 = Some bm' \<and> length bm' = length bm1 \<and>
        (\<forall>i. bm_bit bm' i = (if 64 * (p + 1) + (64 - 64) \<le> i \<and> i < size' then v else bm_bit bm1 i))"
      using less.prems True by (intro less.IH) (auto simp: bm1_def bit_simps)
    then obtain bm' where bm': "bitmap_range_loop f size' (p + 1) (nr - bits) 64 (NOT 0) bm1 = Some bm'"
      "length bm' = length bm1" "\<And>i. bm_bit bm' i = (if 64 * (p + 1) \<le> i \<and> i < size' then v else bm_bit bm1 i)"
      by auto
    have "bm_bit bm' i = (if ?s \<le> i \<and> i < size' then v else bm_bit bm i)" for i
    proof (cases "i div 64 = p")
      case i: True
      from in_word [OF i] obtain r where r: "i = 64 * p + r" "i mod 64 = r" "r < 64" by blast
      have "\<not> 64 * (p + 1) \<le> i" using r by simp
      moreover have "i < size'" using r less.prems(1,2,4) True by simp
      moreover have "64 - bits \<le> i mod 64 \<longleftrightarrow> ?s \<le> i" unfolding r(2) using r(1) by simp
      ultimately have "\<not> 64 * (p + 1) \<le> i" "i < size'" "64 - bits \<le> i mod 64 \<longleftrightarrow> ?s \<le> i" by blast+
      then show ?thesis
        using bm'(3) [of i] word [OF i p] less.prems(3) p i by (simp add: bm1_def bm_bit_update)
    next
      case i: False
      then have "64 * (p + 1) \<le> i \<longleftrightarrow> ?s \<le> i" using less.prems(1,2) outside_word [OF i] by auto
      then show ?thesis using bm'(3) [of i] p i by (simp add: bm1_def bm_bit_update)
    qed
    then show ?thesis
      using bm' True less.prems(1) p
      by (auto simp: bitmap_range_loop.simps [of f size' p nr] bm_modify_def bm1_def)
  next
    case False
    show ?thesis
    proof (cases "nr = 0")
      case True
      have "bitmap_range_loop f size' p 0 bits msk bm = Some bm"
        using less.prems(1) by (subst bitmap_range_loop.simps) simp
      then show ?thesis using less.prems(4) True by auto
    next
      case nz: False
      define m where "m = msk AND BITMAP_LAST_WORD_MASK size'"
      have p: "p < length bm" using inp nz .
      have "bm_bit (bm[p := f m (bm ! p)]) i = (if ?s \<le> i \<and> i < size' then v else bm_bit bm i)" for i
      proof (cases "i div 64 = p")
        case i: True
        have "size' = 64 * p + (64 - bits + nr)" "64 - bits + nr < 64" using less.prems(1,2,4) False by auto
        then have sm: "size' mod 64 = 64 - bits + nr" by simp
        have "bit m (i mod 64) \<longleftrightarrow> 64 - bits \<le> i mod 64 \<and> i mod 64 < 64 - bits + nr"
          unfolding m_def bit_and_iff less.prems(3) bit_last_mask sm using nz by auto
        also have "\<dots> \<longleftrightarrow> ?s \<le> i \<and> i < size'"
        proof -
          from in_word [OF i] obtain r where r: "i = 64 * p + r" "i mod 64 = r" by blast
          show ?thesis unfolding r(2) using r(1) less.prems(4) by auto
        qed
        finally have "bit m (i mod 64) \<longleftrightarrow> ?s \<le> i \<and> i < size'" .
        then show ?thesis using word [OF i p] p i by (simp add: bm_bit_update)
      next
        case i: False
        have "\<not> (?s \<le> i \<and> i < size')" using outside_word [OF i] less.prems(1,2,4) False by auto
        then show ?thesis using p i by (auto simp: bm_bit_update)
      qed
      then show ?thesis
        using nz False p less.prems(1)
        by (auto simp: bitmap_range_loop.simps [of f size' p nr] bm_modify_def m_def)
    qed
  qed
qed

lemma range_spec:
  assumes "puts f v" "start + nr \<le> 64 * length bm"
  shows "\<exists>bm'. bitmap_range f bm (int start) (int nr) = Some bm' \<and> length bm' = length bm \<and>
    (\<forall>i. bm_bit bm' i = (if start \<le> i \<and> i < start + nr then v else bm_bit bm i))"
proof -
  have s: "64 * (start div 64) + (64 - (64 - start mod 64)) = start" by simp
  show ?thesis
    using range_loop [OF assms(1), of "64 - start mod 64" "BITMAP_FIRST_WORD_MASK start" "start + nr" "start div 64" nr bm]
      assms(2) s
    by (simp add: bitmap_range_def BIT_WORD_def bit_first_mask)
qed

lemma puts_or: "puts (\<lambda>m w. w OR m) True" and puts_andnot: "puts (\<lambda>m w. w AND NOT m) False"
  by (auto simp: puts_def bit_simps)

lemma bitmap_set_ok:
  assumes "start + nr \<le> 64 * length bm"
  shows "\<exists>bm'. bitmap_set bm (int start) (int nr) = Some bm' \<and> length bm' = length bm \<and>
    (\<forall>i. bm_bit bm' i = (start \<le> i \<and> i < start + nr \<or> bm_bit bm i))"
  using range_spec [OF puts_or assms] unfolding bitmap_set_def by force

lemma bitmap_clear_ok:
  assumes "start + nr \<le> 64 * length bm"
  shows "\<exists>bm'. bitmap_clear bm (int start) (int nr) = Some bm' \<and> length bm' = length bm \<and>
    (\<forall>i. bm_bit bm' i = (bm_bit bm i \<and> \<not> (start \<le> i \<and> i < start + nr)))"
  using range_spec [OF puts_andnot assms] unfolding bitmap_clear_def by force

subsection \<open>The next set bit\<close>

definition next_bit :: "bitmap \<Rightarrow> nat \<Rightarrow> nat \<Rightarrow> nat \<Rightarrow> bool" where
  "next_bit bm size' offset r \<longleftrightarrow> offset \<le> r \<and> r \<le> size' \<and>
     (\<forall>i. offset \<le> i \<and> i < r \<longrightarrow> \<not> bm_bit bm i) \<and> (r < size' \<longrightarrow> bm_bit bm r)"

lemma ctz64: 
  assumes "w \<noteq> 0"
  shows "ctz64 w < 64" "bit w (ctz64 w)" "i < ctz64 w \<Longrightarrow> \<not> bit w i"
proof -
  let ?tw = "takeWhile (\<lambda>i. \<not> bit w i) [0..<64]"
  obtain n where n: "bit w n" using assms bit_eq_iff [of w 0] by auto
  then have "n < 64" using bit_imp_le_length [of w n] by simp
  have lt: "length ?tw < 64"
  proof (rule ccontr)
    assume "\<not> length ?tw < 64"
    then have "?tw = [0..<64]"
      using length_takeWhile_le [of "\<lambda>i. \<not> bit w i" "[0..<64]"] by (metis length_upt diff_zero nat_less_le takeWhile_eq_take take_all_iff)
    then have "\<forall>i \<in> set [0..<64]. \<not> bit w i" by (simp only: takeWhile_eq_all_conv)
    with n \<open>n < 64\<close> show False by auto
  qed
  show "ctz64 w < 64" using lt assms by (simp add: ctz64_def)
  show "bit w (ctz64 w)" using nth_length_takeWhile [of "\<lambda>i. \<not> bit w i" "[0..<64]"] lt assms by (simp add: ctz64_def)
  show "\<not> bit w i" if "i < ctz64 w"
  proof -
    have "?tw ! i = [0..<64] ! i" using that assms by (simp add: ctz64_def takeWhile_nth)
    moreover have "?tw ! i \<in> set ?tw" using that assms by (intro nth_mem) (simp add: ctz64_def)
    ultimately show ?thesis using that assms lt set_takeWhileD [of "?tw ! i" "\<lambda>i. \<not> bit w i"]
      by (simp add: ctz64_def)
  qed
qed

text \<open>The word at \<open>p\<close> cut down to the bits from \<open>lo\<close> below \<open>hi\<close>.\<close>

definition word_part :: "bitmap \<Rightarrow> nat \<Rightarrow> nat \<Rightarrow> nat \<Rightarrow> u64 \<Rightarrow> bool" where
  "word_part bm p lo hi w \<longleftrightarrow> (\<forall>n. bit w n \<longleftrightarrow> lo \<le> n \<and> n < hi \<and> bm_bit bm (64 * p + n))"

lemma bit_word_less: "bit (w :: u64) n \<Longrightarrow> n < 64"
  using bit_imp_le_length [of w n] by simp

lemma word_part_whole:
  assumes "p < length bm"
  shows "word_part bm p 0 64 (bm ! p)"
  unfolding word_part_def
proof
  fix n
  show "bit (bm ! p) n \<longleftrightarrow> 0 \<le> n \<and> n < 64 \<and> bm_bit bm (64 * p + n)"
  proof (cases "n < 64")
    case True
    then have "(64 * p + n) div 64 = p" "(64 * p + n) mod 64 = n" by simp_all
    then show ?thesis using assms True by (simp add: bm_bit_def)
  next
    case False
    then show ?thesis using bit_word_less [of "bm ! p" n] by blast
  qed
qed

lemma word_part_from:
  assumes "word_part bm p 0 64 w"
  shows "word_part bm p lo 64 (w AND push_bit lo (NOT 0))"
proof -
  have "bit (w AND push_bit lo (NOT 0)) n \<longleftrightarrow> bit w n \<and> lo \<le> n" for n
    using bit_word_less [of w n] by (auto simp: bit_simps)
  then show ?thesis using assms unfolding word_part_def by blast
qed

lemma word_part_upto:
  assumes "word_part bm p lo 64 w" "hi \<le> 64"
  shows "word_part bm p lo hi (w AND drop_bit (64 - hi) (NOT 0))"
proof -
  have "bit (w AND drop_bit (64 - hi) (NOT 0)) n \<longleftrightarrow> bit w n \<and> n < hi" for n
    using bit_word_less [of w n] assms(2) by (auto simp: bit_simps)
  moreover have "n < 64" if "n < hi" for n using that assms(2) by simp
  ultimately show ?thesis using assms(1) unfolding word_part_def by blast
qed

lemma word_part_empty:
  assumes "word_part bm p lo hi 0" "64 * p + lo \<le> i" "i < 64 * p + hi"
  shows "\<not> bm_bit bm i"
proof -
  have "lo \<le> i - 64 * p" "i - 64 * p < hi" "64 * p + (i - 64 * p) = i" using assms by auto
  then show ?thesis using assms(1) unfolding word_part_def by (metis bit_0_eq bot_apply bot_bool_def)
qed

lemma word_part_first:
  assumes "word_part bm p lo hi w" "w \<noteq> 0" "64 * p + hi \<le> size'"
  shows "next_bit bm size' (64 * p + lo) (64 * p + ctz64 w)"
proof -
  have c: "lo \<le> ctz64 w" "ctz64 w < hi" "bm_bit bm (64 * p + ctz64 w)"
    using assms(1) ctz64(2) [OF assms(2)] by (auto simp: word_part_def)
  have "\<not> bm_bit bm i" if "64 * p + lo \<le> i" "i < 64 * p + ctz64 w" for i
  proof -
    have "\<not> bit w (i - 64 * p)" using that by (intro ctz64(3) [OF assms(2)]) simp
    moreover have "64 * p + (i - 64 * p) = i" "lo \<le> i - 64 * p" "i - 64 * p < hi" using that c by auto
    ultimately show ?thesis using assms(1) unfolding word_part_def by metis
  qed
  then show ?thesis using c assms(3) by (auto simp: next_bit_def)
qed

lemma found_first_ok:
  assumes "word_part bm p lo 64 w" "hi < 64" "lo \<le> hi" "size' = 64 * p + hi"
  shows "\<exists>r. found_first (64 * p) hi w = Some r \<and> next_bit bm size' (64 * p + lo) r"
proof -
  let ?t = "w AND drop_bit (64 - hi) (NOT 0)"
  have part: "word_part bm p lo hi ?t" using assms by (intro word_part_upto) simp_all
  show ?thesis
  proof (cases "?t = 0")
    case True
    then show ?thesis
      using part assms(3,4) word_part_empty [of bm p lo hi] by (auto simp: found_first_def next_bit_def)
  next
    case False
    then show ?thesis
      using word_part_first [OF part False] assms(4) by (simp add: found_first_def found_middle_def Let_def)
  qed
qed

lemma next_bit_skip:
  assumes "next_bit bm size' (64 * p + k) r" "\<And>i. 64 * p \<le> i \<Longrightarrow> lo \<le> i \<Longrightarrow> i < 64 * p + k \<Longrightarrow> \<not> bm_bit bm i"
    "64 * p \<le> lo" "lo \<le> 64 * p + k"
  shows "next_bit bm size' lo r"
  using assms unfolding next_bit_def by (metis le_trans not_le_imp_less)

lemma find_word_loop_ok:
  "size' \<le> 64 * length bm \<Longrightarrow> 64 * p + s = size' \<Longrightarrow>
   \<exists>r. find_word_loop bm p (64 * p) s = Some r \<and> next_bit bm size' (64 * p) r"
proof (induction s arbitrary: p rule: less_induct)
  case (less s)
  show ?case
  proof (cases "64 \<le> s")
    case True
    then have p: "p < length bm" using less.prems by linarith
    show ?thesis
    proof (cases "bm ! p = 0")
      case z: True
      have "\<exists>r. find_word_loop bm (p + 1) (64 * (p + 1)) (s - 64) = Some r \<and> next_bit bm size' (64 * (p + 1)) r"
        using less.prems True by (intro less.IH) auto
      then obtain r where r: "find_word_loop bm (p + 1) (64 * p + 64) (s - 64) = Some r" "next_bit bm size' (64 * p + 64) r"
        by (auto simp: add.commute)
      have "next_bit bm size' (64 * p) r"
        using next_bit_skip [OF r(2), of "64 * p"] word_part_empty [of bm p 0 64] word_part_whole [OF p] z by simp
      then show ?thesis using True r(1) z p by (simp add: find_word_loop.simps [of bm p] bm_read_def)
    next
      case False
      then show ?thesis
        using True p word_part_first [OF word_part_whole [OF p] False, of size'] less.prems
        by (simp add: find_word_loop.simps [of bm p] bm_read_def found_middle_def)
    qed
  next
    case False
    show ?thesis
    proof (cases "s = 0")
      case True
      then show ?thesis using less.prems by (auto simp: find_word_loop.simps [of bm p] next_bit_def)
    next
      case nz: False
      then have p: "p < length bm" using less.prems by linarith
      show ?thesis
        using found_first_ok [OF word_part_whole [OF p], of s size'] False nz less.prems p
        by (simp add: find_word_loop.simps [of bm p] bm_read_def)
    qed
  qed
qed

lemma find_four_loop_ok:
  "size' \<le> 64 * length bm \<Longrightarrow> 64 * p + s = size' \<Longrightarrow>
   \<exists>r. find_four_loop bm p (64 * p) s = Some r \<and> next_bit bm size' (64 * p) r"
proof (induction s arbitrary: p rule: less_induct)
  case (less s)
  note fall = find_word_loop_ok [OF less.prems]
  show ?case
  proof (cases "4 * 64 \<le> s")
    case True
    then have p: "p < length bm" "p + 1 < length bm" "p + 2 < length bm" "p + 3 < length bm"
      using less.prems by linarith+
    consider "bm ! p \<noteq> 0" | "bm ! p = 0" "bm ! (p + 1) OR bm ! (p + 2) OR bm ! (p + 3) \<noteq> 0"
      | "bm ! p = 0" "bm ! (p + 1) = 0" "bm ! (p + 2) = 0" "bm ! (p + 3) = 0"
      by (metis or_eq_0_iff)
    then show ?thesis
    proof cases
      case 1
      then show ?thesis
        using True p word_part_first [OF word_part_whole [OF p(1)] 1, of size'] less.prems
        by (simp add: find_four_loop.simps [of bm p] bm_read_def found_middle_def)
    next
      case 2
      then show ?thesis using True p fall by (simp add: find_four_loop.simps [of bm p] bm_read_def)
    next
      case 3
      have "\<exists>r. find_four_loop bm (p + 4) (64 * (p + 4)) (s - 4 * 64) = Some r \<and> next_bit bm size' (64 * (p + 4)) r"
        using less.prems True by (intro less.IH) auto
      then obtain r where r: "find_four_loop bm (p + 4) (64 * p + 4 * 64) (s - 4 * 64) = Some r"
        "next_bit bm size' (64 * p + 4 * 64) r" by (auto simp: add.commute)
      have empty: "\<not> bm_bit bm i" if "q < length bm" "bm ! q = 0" "64 * q \<le> i" "i < 64 * q + 64" for q i
        using word_part_empty [of bm q 0 64 i] word_part_whole [OF that(1)] that by simp
      have "\<not> bm_bit bm i" if i: "64 * p \<le> i" "i < 64 * p + 4 * 64" for i
      proof -
        consider "i < 64 * p + 64" | "64 * (p + 1) \<le> i" "i < 64 * (p + 1) + 64"
          | "64 * (p + 2) \<le> i" "i < 64 * (p + 2) + 64" | "64 * (p + 3) \<le> i" "i < 64 * (p + 3) + 64"
          using i by force
        then show ?thesis
          using empty [OF p(1) 3(1)] empty [OF p(2) 3(2)] empty [OF p(3) 3(3)] empty [OF p(4) 3(4)] i(1)
          by cases blast+
      qed
      then have "next_bit bm size' (64 * p) r" using next_bit_skip [OF r(2), of "64 * p"] by simp
      then show ?thesis using True r(1) 3 p by (simp add: find_four_loop.simps [of bm p] bm_read_def)
    qed
  next
    case False
    then show ?thesis using fall by (simp add: find_four_loop.simps [of bm p])
  qed
qed

lemma find_next_bit_ok:
  assumes "offset < size'" "size' \<le> 64 * length bm"
  shows "\<exists>r. find_next_bit bm size' offset = Some r \<and> next_bit bm size' offset r"
proof -
  define p where "p = offset div 64"
  obtain k where k: "offset = 64 * p + k" "offset mod 64 = k" "k < 64"
    using in_word [OF p_def [symmetric]] by blast
  have p: "p < length bm" using assms k by linarith
  define s where "s = size' - 64 * p"
  have s: "64 * p + s = size'" "k < s" using assms k by (auto simp: s_def)
  have eq: "find_next_bit bm size' offset =
     (if k \<noteq> 0 then
        let tmp = bm ! p AND push_bit k (NOT 0)
        in if s < 64 then found_first (64 * p) s tmp
           else if tmp \<noteq> 0 then found_middle (64 * p) tmp
           else find_four_loop bm (p + 1) (64 * p + 64) (s - 64)
      else find_four_loop bm p (64 * p) s)"
    using assms(1) p k(2) by (simp add: find_next_bit_def BIT_WORD_def p_def s_def bm_read_def mult.commute Let_def)
  show ?thesis
  proof (cases "k = 0")
    case True
    then show ?thesis using find_four_loop_ok [OF assms(2) s(1)] eq k(1) by simp
  next
    case False
    define tmp where "tmp = bm ! p AND push_bit k (NOT 0)"
    have part: "word_part bm p k 64 tmp"
      unfolding tmp_def by (rule word_part_from [OF word_part_whole [OF p]])
    consider "s < 64" | "64 \<le> s" "tmp \<noteq> 0" | "64 \<le> s" "tmp = 0" by linarith
    then show ?thesis
    proof cases
      case 1
      then show ?thesis using found_first_ok [OF part 1] s eq False k(1) by (simp add: tmp_def)
    next
      case 2
      then show ?thesis
        using word_part_first [OF part 2(2), of size'] s eq False k(1) by (simp add: tmp_def found_middle_def)
    next
      case 3
      have "\<exists>r. find_four_loop bm (p + 1) (64 * (p + 1)) (s - 64) = Some r \<and> next_bit bm size' (64 * (p + 1)) r"
        using s 3 by (intro find_four_loop_ok [OF assms(2)]) auto
      then obtain r where r: "find_four_loop bm (p + 1) (64 * p + 64) (s - 64) = Some r" "next_bit bm size' (64 * p + 64) r"
        by (auto simp: add.commute)
      have "next_bit bm size' offset r"
        using next_bit_skip [OF r(2), of offset] word_part_empty [OF part [unfolded 3(2)]] k by simp
      then show ?thesis using r(1) 3 eq False by (simp add: tmp_def)
    qed
  qed
qed

lemma find_next_bit_past: "size' \<le> offset \<Longrightarrow> find_next_bit bm size' offset = Some size'"
  by (simp add: find_next_bit_def)

lemma bitmap_new_shape: "n \<le> 64 * length (bitmap_new n)" "\<not> bm_bit (bitmap_new n) i"
proof -
  have "n + 63 = 64 * ((n + 63) div 64) + (n + 63) mod 64" "(n + 63) mod 64 < 64" by simp_all
  then show "n \<le> 64 * length (bitmap_new n)" by (simp add: bitmap_new_def BITS_TO_LONGS_def del: mult_div_mod_eq)
  show "\<not> bm_bit (bitmap_new n) i" by (simp add: bm_bit_def bitmap_new_def)
qed

subsection \<open>Bitmaps and sets of block numbers\<close>

datatype range_op = SetRange nat nat | ClearRange nat nat

primrec range_op_fits :: "nat \<Rightarrow> range_op \<Rightarrow> bool" where
  "range_op_fits n (SetRange start nr) = (start + nr \<le> n)"
| "range_op_fits n (ClearRange start nr) = (start + nr \<le> n)"

primrec range_op_bitmap :: "range_op \<Rightarrow> bitmap \<Rightarrow> bitmap option" where
  "range_op_bitmap (SetRange start nr) bm = bitmap_set bm (int start) (int nr)"
| "range_op_bitmap (ClearRange start nr) bm = bitmap_clear bm (int start) (int nr)"

primrec range_op_set :: "range_op \<Rightarrow> nat set \<Rightarrow> nat set" where
  "range_op_set (SetRange start nr) S = S \<union> {start..<start + nr}"
| "range_op_set (ClearRange start nr) S = S - {start..<start + nr}"

primrec range_ops_bitmap :: "range_op list \<Rightarrow> bitmap \<Rightarrow> bitmap option" where
  "range_ops_bitmap [] bm = Some bm"
| "range_ops_bitmap (a # as) bm = range_op_bitmap a bm \<bind> range_ops_bitmap as"

lemma range_op_refines:
  assumes "range_op_fits n a" "n \<le> 64 * length bm"
  shows "\<exists>bm'. range_op_bitmap a bm = Some bm' \<and> length bm' = length bm \<and>
    {i. bm_bit bm' i} = range_op_set a {i. bm_bit bm i}"
proof (cases a)
  case (SetRange start nr)
  then have "start + nr \<le> 64 * length bm" using assms by simp
  from bitmap_set_ok [OF this] show ?thesis using SetRange by fastforce
next
  case (ClearRange start nr)
  then have "start + nr \<le> 64 * length bm" using assms by simp
  from bitmap_clear_ok [OF this] show ?thesis using ClearRange by fastforce
qed

lemma range_ops_refine:
  "\<forall>a \<in> set as. range_op_fits n a \<Longrightarrow> n \<le> 64 * length bm \<Longrightarrow>
   \<exists>bm'. range_ops_bitmap as bm = Some bm' \<and> length bm' = length bm \<and>
     {i. bm_bit bm' i} = fold range_op_set as {i. bm_bit bm i}"
proof (induction as arbitrary: bm)
  case (Cons a as)
  from range_op_refines [of n a bm] Cons.prems obtain bm1 where
    "range_op_bitmap a bm = Some bm1" "length bm1 = length bm" "{i. bm_bit bm1 i} = range_op_set a {i. bm_bit bm i}"
    by auto
  with Cons.IH [of bm1] Cons.prems show ?case by auto
qed simp

text \<open>C37: a bitmap is a set of block numbers: after any sequence of \<open>bitmap_set\<close> and \<open>bitmap_clear\<close> on
  ranges inside a new bitmap of \<open>n\<close> bits, none of which touches a word outside the array,
  \<open>find_next_bit\<close> from any offset below \<open>n\<close>, by whole words and four at a time, returns the least
  member of the set not below the offset, or \<open>n\<close> when there is none.\<close>

theorem bitmap_is_set:
  assumes "\<forall>a \<in> set as. range_op_fits n a" "offset < n"
  shows "\<exists>bm r. range_ops_bitmap as (bitmap_new n) = Some bm \<and> find_next_bit bm n offset = Some r \<and>
    offset \<le> r \<and> r \<le> n \<and> (\<forall>i. offset \<le> i \<and> i < r \<longrightarrow> i \<notin> fold range_op_set as {}) \<and>
    (r < n \<longrightarrow> r \<in> fold range_op_set as {})"
proof -
  from range_ops_refine [OF assms(1) bitmap_new_shape(1)] obtain bm where
    bm: "range_ops_bitmap as (bitmap_new n) = Some bm" "length bm = length (bitmap_new n)"
      "{i. bm_bit bm i} = fold range_op_set as {}"
    by (auto simp: bitmap_new_shape(2))
  have "n \<le> 64 * length bm" using bm(2) bitmap_new_shape(1) [of n] by simp
  from find_next_bit_ok [OF assms(2) this] obtain r where
    "find_next_bit bm n offset = Some r" "next_bit bm n offset r" by blast
  moreover have "bm_bit bm i \<longleftrightarrow> i \<in> fold range_op_set as {}" for i using bm(3) by auto
  ultimately show ?thesis using bm(1) by (auto simp: next_bit_def)
qed

lemma bitmap_is_set_witness:
  "\<exists>bm r. range_ops_bitmap [SetRange 100 300, ClearRange 90 200] (bitmap_new 1000) = Some bm \<and>
     find_next_bit bm 1000 3 = Some r \<and> 3 \<le> r \<and> r \<le> 1000 \<and>
     (\<forall>i. 3 \<le> i \<and> i < r \<longrightarrow> i \<notin> fold range_op_set [SetRange 100 300, ClearRange 90 200] {}) \<and>
     (r < 1000 \<longrightarrow> r \<in> fold range_op_set [SetRange 100 300, ClearRange 90 200] {})"
  by (rule bitmap_is_set) simp_all

end
