(* ===== verification/Nand.thy ===== *)
theory Nand
  imports Femu_Prelude "HOL-Library.Monad_Syntax"
begin

text \<open>
  NAND flash parameters: \<open>femu/nand/nand.h\<close> and \<open>femu/nand/nand.c\<close>.  The header declares the page
  tables and the latency table \<open>static\<close>, so every file that includes it has tables of its own: those
  that \<open>init_nand_flash\<close> fills are the tables of \<open>nand.c\<close>, all others stay zero.  \<open>None\<close> is an abort or
  an access outside a table.
\<close>

subsection \<open>Flash types and latencies\<close>

datatype FlashType = SLC | MLC | TLC | QLC | PLC | MAX_FLASH_TYPE

primrec flash_code :: "FlashType \<Rightarrow> nat" where
  "flash_code SLC = 1"
| "flash_code MLC = 2"
| "flash_code TLC = 3"
| "flash_code QLC = 4"
| "flash_code PLC = 5"
| "flash_code MAX_FLASH_TYPE = 6"

definition MAX_SUPPORTED_PAGES_PER_BLOCK :: nat where "MAX_SUPPORTED_PAGES_PER_BLOCK = 512"

definition SLC_PAGE_READ_LATENCY_NS :: int where "SLC_PAGE_READ_LATENCY_NS = 40000"
definition SLC_PAGE_WRITE_LATENCY_NS :: int where "SLC_PAGE_WRITE_LATENCY_NS = 800000"
definition SLC_BLOCK_ERASE_LATENCY_NS :: int where "SLC_BLOCK_ERASE_LATENCY_NS = 2000000"
definition SLC_CHNL_PAGE_TRANSFER_LATENCY_NS :: int where "SLC_CHNL_PAGE_TRANSFER_LATENCY_NS = 20000"

definition MLC_LOWER_PAGE_READ_LATENCY_NS :: int where "MLC_LOWER_PAGE_READ_LATENCY_NS = 48000"
definition MLC_UPPER_PAGE_READ_LATENCY_NS :: int where "MLC_UPPER_PAGE_READ_LATENCY_NS = 64000"
definition MLC_LOWER_PAGE_WRITE_LATENCY_NS :: int where "MLC_LOWER_PAGE_WRITE_LATENCY_NS = 850000"
definition MLC_UPPER_PAGE_WRITE_LATENCY_NS :: int where "MLC_UPPER_PAGE_WRITE_LATENCY_NS = 2300000"
definition MLC_CHNL_PAGE_TRANSFER_LATENCY_NS :: int where "MLC_CHNL_PAGE_TRANSFER_LATENCY_NS = 52433"
definition MLC_BLOCK_ERASE_LATENCY_NS :: int where "MLC_BLOCK_ERASE_LATENCY_NS = 3000000"

definition TLC_LOWER_PAGE_READ_LATENCY_NS :: int where "TLC_LOWER_PAGE_READ_LATENCY_NS = 56500"
definition TLC_CENTER_PAGE_READ_LATENCY_NS :: int where "TLC_CENTER_PAGE_READ_LATENCY_NS = 77500"
definition TLC_UPPER_PAGE_READ_LATENCY_NS :: int where "TLC_UPPER_PAGE_READ_LATENCY_NS = 106000"
definition TLC_LOWER_PAGE_WRITE_LATENCY_NS :: int where "TLC_LOWER_PAGE_WRITE_LATENCY_NS = 820500"
definition TLC_CENTER_PAGE_WRITE_LATENCY_NS :: int where "TLC_CENTER_PAGE_WRITE_LATENCY_NS = 2225000"
definition TLC_UPPER_PAGE_WRITE_LATENCY_NS :: int where "TLC_UPPER_PAGE_WRITE_LATENCY_NS = 5734000"
definition TLC_CHNL_PAGE_TRANSFER_LATENCY_NS :: int where "TLC_CHNL_PAGE_TRANSFER_LATENCY_NS = 52433"
definition TLC_BLOCK_ERASE_LATENCY_NS :: int where "TLC_BLOCK_ERASE_LATENCY_NS = 3000000"

text \<open>The factors of the QLC numbers are decimal fractions; the products are whole numbers.\<close>

definition QLC_LOWER_PAGE_READ_LATENCY_NS :: int where
  "QLC_LOWER_PAGE_READ_LATENCY_NS = TLC_LOWER_PAGE_READ_LATENCY_NS * 105 div 100"
definition QLC_CENTER_LOWER_PAGE_READ_LATENCY_NS :: int where
  "QLC_CENTER_LOWER_PAGE_READ_LATENCY_NS = TLC_CENTER_PAGE_READ_LATENCY_NS * 11 div 10"
definition QLC_CENTER_UPPER_PAGE_READ_LATENCY_NS :: int where
  "QLC_CENTER_UPPER_PAGE_READ_LATENCY_NS = TLC_UPPER_PAGE_READ_LATENCY_NS * 12 div 10"
definition QLC_UPPER_PAGE_READ_LATENCY_NS :: int where
  "QLC_UPPER_PAGE_READ_LATENCY_NS = TLC_UPPER_PAGE_READ_LATENCY_NS * 16 div 10"
definition QLC_LOWER_PAGE_WRITE_LATENCY_NS :: int where
  "QLC_LOWER_PAGE_WRITE_LATENCY_NS = TLC_LOWER_PAGE_WRITE_LATENCY_NS * 105 div 100"
definition QLC_CENTER_LOWER_PAGE_WRITE_LATENCY_NS :: int where
  "QLC_CENTER_LOWER_PAGE_WRITE_LATENCY_NS = TLC_CENTER_PAGE_WRITE_LATENCY_NS * 11 div 10"
definition QLC_CENTER_UPPER_PAGE_WRITE_LATENCY_NS :: int where
  "QLC_CENTER_UPPER_PAGE_WRITE_LATENCY_NS = TLC_UPPER_PAGE_WRITE_LATENCY_NS * 12 div 10"
definition QLC_UPPER_PAGE_WRITE_LATENCY_NS :: int where
  "QLC_UPPER_PAGE_WRITE_LATENCY_NS = TLC_UPPER_PAGE_WRITE_LATENCY_NS * 16 div 10"
definition QLC_CHNL_PAGE_TRANSFER_LATENCY_NS :: int where "QLC_CHNL_PAGE_TRANSFER_LATENCY_NS = 52433"
definition QLC_BLOCK_ERASE_LATENCY_NS :: int where "QLC_BLOCK_ERASE_LATENCY_NS = 3000000"

text \<open>Positions of the pages of a cell in the latency table.\<close>

definition MLC_LOWER_PAGE :: int where "MLC_LOWER_PAGE = 0"
definition MLC_UPPER_PAGE :: int where "MLC_UPPER_PAGE = 1"
definition TLC_LOWER_PAGE :: int where "TLC_LOWER_PAGE = 0"
definition TLC_CENTER_PAGE :: int where "TLC_CENTER_PAGE = 1"
definition TLC_UPPER_PAGE :: int where "TLC_UPPER_PAGE = 2"
definition QLC_LOWER_PAGE :: int where "QLC_LOWER_PAGE = 0"
definition QLC_LOWER_CENTER_PAGE :: int where "QLC_LOWER_CENTER_PAGE = 1"
definition QLC_UPPER_CENTER_PAGE :: int where "QLC_UPPER_CENTER_PAGE = 2"
definition QLC_UPPER_PAGE :: int where "QLC_UPPER_PAGE = 3"

record NandFlashTiming =
  nft_pg_rd_lat :: "int list list"
  nft_pg_wr_lat :: "int list list"
  nft_blk_er_lat :: "int list"
  nft_chnl_pg_xfer_lat :: "int list"

record nand =
  nand_flash_timing :: NandFlashTiming
  slc_tbl :: "int list"
  mlc_tbl :: "int list"
  tlc_tbl :: "int list"
  qlc_tbl :: "int list"

text \<open>The tables of a file that includes the header, before any assignment.\<close>

definition static_nand :: nand where
  "static_nand =
     \<lparr>nand_flash_timing =
        \<lparr>nft_pg_rd_lat = replicate (flash_code MAX_FLASH_TYPE) (replicate (flash_code MAX_FLASH_TYPE) 0),
         nft_pg_wr_lat = replicate (flash_code MAX_FLASH_TYPE) (replicate (flash_code MAX_FLASH_TYPE) 0),
         nft_blk_er_lat = replicate (flash_code MAX_FLASH_TYPE) 0,
         nft_chnl_pg_xfer_lat = replicate (flash_code MAX_FLASH_TYPE) 0\<rparr>,
      slc_tbl = replicate MAX_SUPPORTED_PAGES_PER_BLOCK 0, mlc_tbl = replicate MAX_SUPPORTED_PAGES_PER_BLOCK 0,
      tlc_tbl = replicate MAX_SUPPORTED_PAGES_PER_BLOCK 0, qlc_tbl = replicate MAX_SUPPORTED_PAGES_PER_BLOCK 0\<rparr>"

subsection \<open>Filling the tables\<close>

definition put_page :: "nat \<Rightarrow> int \<Rightarrow> int list \<Rightarrow> int list option" where
  "put_page i v tbl = (if i < length tbl then Some (tbl[i := v]) else None)"

primrec put_pages :: "nat list \<Rightarrow> int \<Rightarrow> int list \<Rightarrow> int list option" where
  "put_pages [] v tbl = Some tbl"
| "put_pages (i # ps) v tbl = put_page i v tbl \<bind> put_pages ps v"

function mlc_pairs :: "nat \<Rightarrow> int \<Rightarrow> int list \<Rightarrow> int list option" where
  "mlc_pairs i lpflag tbl =
     (if i \<le> MAX_SUPPORTED_PAGES_PER_BLOCK - 12
      then put_pages [i + 1, i] lpflag tbl
             \<bind> mlc_pairs (i + 2) (if lpflag = MLC_LOWER_PAGE then MLC_UPPER_PAGE else MLC_LOWER_PAGE)
      else Some tbl)"
  by pat_completeness auto
termination by (relation "measure (\<lambda>(i, _, _). MAX_SUPPORTED_PAGES_PER_BLOCK - i)")
  (auto simp: MAX_SUPPORTED_PAGES_PER_BLOCK_def)

declare mlc_pairs.simps [simp del]

definition init_mlc_page_pairing :: "nand \<Rightarrow> nand option" where
  "init_mlc_page_pairing n =
     do {
       tbl \<leftarrow> put_pages [0, 1, 2, 3, 4, 5, 7, 8, 502, 503, 506, 507, 509, 510] MLC_LOWER_PAGE (mlc_tbl n);
       tbl \<leftarrow> put_pages [6, 9, 504, 505, 508, 511] MLC_UPPER_PAGE tbl;
       tbl \<leftarrow> mlc_pairs 10 MLC_LOWER_PAGE tbl;
       Some (n\<lparr>mlc_tbl := tbl\<rparr>)
     }"

text \<open>The rows of \<open>init_tlc_page_pairing\<close> and \<open>init_qlc_page_pairing\<close>: pairs of pages with a cell position that
  counts up to \<open>hi\<close> and starts again.\<close>

primrec row_pairs :: "int \<Rightarrow> nat list \<Rightarrow> int \<times> int list \<Rightarrow> (int \<times> int list) option" where
  "row_pairs hi [] s = Some s"
| "row_pairs hi (j # js) s =
     (case s of (lpflag, tbl) \<Rightarrow>
        put_pages [8 + j + 1, 8 + j] lpflag tbl
          \<bind> (\<lambda>tbl. row_pairs hi js (if lpflag = hi then 0 else lpflag + 1, tbl)))"

definition row_starts :: "nat \<Rightarrow> nat \<Rightarrow> nat list" where
  "row_starts rows page_per_row = concat (map (\<lambda>i. map (\<lambda>j. i * page_per_row + 2 * j) [0..<page_per_row div 2]) [0..<rows])"

definition init_tlc_page_pairing :: "nand \<Rightarrow> nand option" where
  "init_tlc_page_pairing n =
     (let rows = (MAX_SUPPORTED_PAGES_PER_BLOCK + 5) div 6
      in do {
        tbl \<leftarrow> put_pages [0, 1, 2, 3, 4, 5] TLC_LOWER_PAGE (tlc_tbl n);
        tbl \<leftarrow> put_pages [6, 7] TLC_CENTER_PAGE tbl;
        (_, tbl) \<leftarrow> row_pairs TLC_UPPER_PAGE (row_starts (rows - 2) 6) (TLC_LOWER_PAGE, tbl);
        Some (n\<lparr>tlc_tbl := tbl\<rparr>)
      })"

text \<open>The rows of the QLC pages go into \<open>tlc_tbl\<close>.\<close>

definition init_qlc_page_pairing :: "nand \<Rightarrow> nand option" where
  "init_qlc_page_pairing n =
     (let rows = (MAX_SUPPORTED_PAGES_PER_BLOCK + 7) div 8
      in do {
        tbl \<leftarrow> put_pages [0, 1, 2, 3, 4, 5, 8, 9] QLC_LOWER_PAGE (qlc_tbl n);
        tbl \<leftarrow> put_pages [6, 7, 10, 11] QLC_LOWER_CENTER_PAGE tbl;
        tbl \<leftarrow> put_pages [12, 13] QLC_UPPER_CENTER_PAGE tbl;
        (_, tlc) \<leftarrow> row_pairs QLC_UPPER_PAGE (row_starts (rows - 3) 8) (QLC_LOWER_PAGE, tlc_tbl n);
        Some (n\<lparr>qlc_tbl := tbl, tlc_tbl := tlc\<rparr>)
      })"

definition init_nand_flash_timing :: "nand \<Rightarrow> nand" where
  "init_nand_flash_timing n = n\<lparr>nand_flash_timing :=
     \<lparr>nft_pg_rd_lat =
        [[0, 0, 0, 0, 0, 0],
         [SLC_PAGE_READ_LATENCY_NS, 0, 0, 0, 0, 0],
         [MLC_LOWER_PAGE_READ_LATENCY_NS, MLC_UPPER_PAGE_READ_LATENCY_NS, 0, 0, 0, 0],
         [TLC_LOWER_PAGE_READ_LATENCY_NS, TLC_CENTER_PAGE_READ_LATENCY_NS, TLC_UPPER_PAGE_READ_LATENCY_NS, 0, 0, 0],
         [QLC_LOWER_PAGE_READ_LATENCY_NS, QLC_CENTER_LOWER_PAGE_READ_LATENCY_NS, QLC_CENTER_UPPER_PAGE_READ_LATENCY_NS,
          QLC_UPPER_PAGE_READ_LATENCY_NS, 0, 0],
         [0, 0, 0, 0, 0, 0]],
      nft_pg_wr_lat =
        [[0, 0, 0, 0, 0, 0],
         [SLC_PAGE_WRITE_LATENCY_NS, 0, 0, 0, 0, 0],
         [MLC_LOWER_PAGE_WRITE_LATENCY_NS, MLC_UPPER_PAGE_WRITE_LATENCY_NS, 0, 0, 0, 0],
         [TLC_LOWER_PAGE_WRITE_LATENCY_NS, TLC_CENTER_PAGE_WRITE_LATENCY_NS, TLC_UPPER_PAGE_WRITE_LATENCY_NS, 0, 0, 0],
         [QLC_LOWER_PAGE_WRITE_LATENCY_NS, QLC_CENTER_LOWER_PAGE_WRITE_LATENCY_NS,
          QLC_CENTER_UPPER_PAGE_WRITE_LATENCY_NS, QLC_UPPER_PAGE_WRITE_LATENCY_NS, 0, 0],
         [0, 0, 0, 0, 0, 0]],
      nft_blk_er_lat = [0, SLC_BLOCK_ERASE_LATENCY_NS, MLC_BLOCK_ERASE_LATENCY_NS, TLC_BLOCK_ERASE_LATENCY_NS,
        QLC_BLOCK_ERASE_LATENCY_NS, 0],
      nft_chnl_pg_xfer_lat = [0, SLC_CHNL_PAGE_TRANSFER_LATENCY_NS, MLC_CHNL_PAGE_TRANSFER_LATENCY_NS,
        TLC_CHNL_PAGE_TRANSFER_LATENCY_NS, QLC_CHNL_PAGE_TRANSFER_LATENCY_NS, 0]\<rparr>\<rparr>"

definition init_nand_flash :: "nand \<Rightarrow> nand option" where
  "init_nand_flash n =
     init_mlc_page_pairing n \<bind> init_tlc_page_pairing \<bind> init_qlc_page_pairing \<bind> (\<lambda>n. Some (init_nand_flash_timing n))"

subsection \<open>Reading the tables\<close>

definition tbl_at :: "'a list \<Rightarrow> int \<Rightarrow> 'a option" where
  "tbl_at tbl i = (if 0 \<le> i \<and> nat i < length tbl then Some (tbl ! nat i) else None)"

definition get_page_type :: "nand \<Rightarrow> int \<Rightarrow> int \<Rightarrow> u8 option" where
  "get_page_type n flash_type pg =
     map_option word_of_int
       (if flash_type = int (flash_code SLC) then tbl_at (slc_tbl n) pg
        else if flash_type = int (flash_code MLC) then tbl_at (mlc_tbl n) pg
        else if flash_type = int (flash_code TLC) then tbl_at (tlc_tbl n) pg
        else if flash_type = int (flash_code QLC) then tbl_at (qlc_tbl n) pg
        else None)"

definition get_page_read_latency :: "nand \<Rightarrow> int \<Rightarrow> int \<Rightarrow> int option" where
  "get_page_read_latency n flash_type page_type =
     tbl_at (nft_pg_rd_lat (nand_flash_timing n)) flash_type \<bind> (\<lambda>row. tbl_at row page_type)"

definition get_page_write_latency :: "nand \<Rightarrow> int \<Rightarrow> int \<Rightarrow> int option" where
  "get_page_write_latency n flash_type page_type =
     tbl_at (nft_pg_wr_lat (nand_flash_timing n)) flash_type \<bind> (\<lambda>row. tbl_at row page_type)"

definition get_blk_erase_latency :: "nand \<Rightarrow> int \<Rightarrow> int option" where
  "get_blk_erase_latency n flash_type = tbl_at (nft_blk_er_lat (nand_flash_timing n)) flash_type"

end
