(* ===== verification/Oc_Types.thy ===== *)
theory Oc_Types
  imports Nvme_Types
begin

text \<open>
  The data of the open-channel modes: \<open>femu/ocssd/oc12.h\<close>, \<open>femu/ocssd/oc20.h\<close> and the parts of
  \<open>femu/nvme.h\<close> they share.  Reserved fields that are always zero are left out, except in the chunk
  descriptors, which the host can overwrite.
\<close>

text \<open>The configured geometry.\<close>

record OcCtrlParams =
  ocp_sec_size :: u16
  ocp_secs_per_pg :: u8
  ocp_pgs_per_blk :: u16
  ocp_max_sec_per_rq :: u8
  ocp_num_ch :: u8
  ocp_num_lun :: u8
  ocp_num_pln :: u8
  ocp_sos :: u16

subsection \<open>Open channel 1.2\<close>

definition OC12_ADM_CMD_IDENTITY :: u8 where "OC12_ADM_CMD_IDENTITY = 0xe2"
definition OC12_ADM_CMD_GET_L2P_TBL :: u8 where "OC12_ADM_CMD_GET_L2P_TBL = 0xea"
definition OC12_ADM_CMD_GET_BB_TBL :: u8 where "OC12_ADM_CMD_GET_BB_TBL = 0xf2"
definition OC12_ADM_CMD_SET_BB_TBL :: u8 where "OC12_ADM_CMD_SET_BB_TBL = 0xf1"

definition OC12_CMD_WRITE :: u8 where "OC12_CMD_WRITE = 0x91"
definition OC12_CMD_READ :: u8 where "OC12_CMD_READ = 0x92"
definition OC12_CMD_ERASE :: u8 where "OC12_CMD_ERASE = 0x90"

definition OC12_SEC_WRITTEN :: u32 where "OC12_SEC_WRITTEN = 0xAC"
definition OC12_SEC_ERASED :: u32 where "OC12_SEC_ERASED = 0xDC"

definition OC12_PBA_UNMAPPED :: u64 where "OC12_PBA_UNMAPPED = - 1"
definition OC12_LBA_UNMAPPED :: u64 where "OC12_LBA_UNMAPPED = - 1"

record Oc12GetL2PTbl =
  l2p_nsid :: u32
  l2p_prp1 :: u64
  l2p_prp2 :: u64
  l2p_slba :: u64
  l2p_nlb :: u32

record Oc12BbtGet =
  bbg_nsid :: u32
  bbg_prp1 :: u64
  bbg_prp2 :: u64
  bbg_spba :: u64

record Oc12BbtSet =
  bbs_nsid :: u32
  bbs_prp1 :: u64
  bbs_prp2 :: u64
  bbs_spba :: u64
  bbs_nlb :: u16
  bbs_value :: u8

record Oc12RwCmd =
  orw_opcode :: u8
  orw_nsid :: u32
  orw_metadata :: u64
  orw_prp1 :: u64
  orw_prp2 :: u64
  orw_spba :: u64
  orw_nlb :: u16

record Oc12IdAddrFormat =
  iaf_ch_offset :: u8
  iaf_ch_len :: u8
  iaf_lun_offset :: u8
  iaf_lun_len :: u8
  iaf_pln_offset :: u8
  iaf_pln_len :: u8
  iaf_blk_offset :: u8
  iaf_blk_len :: u8
  iaf_pg_offset :: u8
  iaf_pg_len :: u8
  iaf_sect_offset :: u8
  iaf_sect_len :: u8

record Oc12AddrF =
  ch_mask :: u64
  lun_mask :: u64
  pln_mask :: u64
  blk_mask :: u64
  pg_mask :: u64
  sec_mask :: u64
  ch_offset :: u8
  lun_offset :: u8
  pln_offset :: u8
  blk_offset :: u8
  pg_offset :: u8
  sec_offset :: u8

record Oc12IdGroup =
  ig_mtype :: u8
  ig_fmtype :: u8
  ig_num_ch :: u8
  ig_num_lun :: u8
  ig_num_pln :: u8
  ig_num_blk :: u16
  ig_num_pg :: u16
  ig_fpg_sz :: u16
  ig_csecs :: u16
  ig_sos :: u16
  ig_trdt :: u32
  ig_trdm :: u32
  ig_tprt :: u32
  ig_tprm :: u32
  ig_tbet :: u32
  ig_tbem :: u32
  ig_mpos :: u32
  ig_mccap :: u32
  ig_cpar :: u16

text \<open>Only the first of the four groups is ever used.\<close>

record Oc12IdCtrl =
  ic12_ver_id :: u8
  ic12_vmnt :: u8
  ic12_cgrps :: u8
  ic12_cap :: u32
  ic12_dom :: u32
  ic12_ppaf :: Oc12IdAddrFormat
  ic12_group :: Oc12IdGroup

record Oc12Bbt =
  bbt_tblid :: "u8 list"
  bbt_verid :: u16
  bbt_tblks :: u32
  bbt_blk :: "u8 list"

record Oc12Params =
  par12_pgs_per_blk :: u16
  par12_sec_size :: u16
  par12_sec_per_pg :: u8
  par12_max_sec_per_rq :: u8
  par12_mtype :: u8
  par12_fmtype :: u8
  par12_num_ch :: u8
  par12_num_pln :: u8
  par12_num_lun :: u8
  par12_sos :: u16
  par12_sec_per_pl :: u32
  par12_sec_per_blk :: u32
  par12_sec_per_lun :: u32
  par12_sec_per_ch :: u32
  par12_total_secs :: u32
  par12_pl_units :: u32
  par12_pg_units :: u32
  par12_blk_units :: u32
  par12_lun_units :: u32
  par12_ch_units :: u32
  par12_total_units :: u32

record Oc12Ctrl =
  oc12_params :: Oc12Params
  oc12_id_ctrl :: Oc12IdCtrl
  oc12_ppaf :: Oc12AddrF
  oc12_meta_buf :: "u8 list"
  oc12_meta_tbytes :: u32 \<comment> \<open>\<open>int\<close>\<close>
  oc12_meta_len :: u32 \<comment> \<open>\<open>int\<close>\<close>
  oc12_int_meta_size :: u8

record AddrBucket =
  ab_ch :: int
  ab_lun :: int
  ab_pg :: int
  ab_page_type :: u8
  ab_cnt :: nat

subsection \<open>Open channel 2.0\<close>

definition OC20_CMD_MAX_LBAS :: nat where "OC20_CMD_MAX_LBAS = 64"

definition OC20_CMD_VECT_ERASE :: u8 where "OC20_CMD_VECT_ERASE = 0x90"
definition OC20_CMD_VECT_WRITE :: u8 where "OC20_CMD_VECT_WRITE = 0x91"
definition OC20_CMD_VECT_READ :: u8 where "OC20_CMD_VECT_READ = 0x92"

definition OC20_ADM_CMD_IDENTIFY :: u8 where "OC20_ADM_CMD_IDENTIFY = 0xe2"
definition OC20_ADM_CMD_SET_LOG_PAGE :: u8 where "OC20_ADM_CMD_SET_LOG_PAGE = 0xc1"

definition OC20_CHUNK_FREE :: u8 where "OC20_CHUNK_FREE = 1"
definition OC20_CHUNK_CLOSED :: u8 where "OC20_CHUNK_CLOSED = 2"
definition OC20_CHUNK_OPEN :: u8 where "OC20_CHUNK_OPEN = 4"
definition OC20_CHUNK_OFFLINE :: u8 where "OC20_CHUNK_OFFLINE = 8"

definition OC20_CHUNK_RESETABLE :: u8 where
  "OC20_CHUNK_RESETABLE = OC20_CHUNK_FREE OR OC20_CHUNK_CLOSED OR OC20_CHUNK_OPEN"

definition OC20_CHUNK_TYPE_SEQ :: u8 where "OC20_CHUNK_TYPE_SEQ = 1"
definition OC20_CHUNK_TYPE_RAN :: u8 where "OC20_CHUNK_TYPE_RAN = 2"

definition OC20_OUT_OF_ORDER_WRITE :: u16 where "OC20_OUT_OF_ORDER_WRITE = 0x2f2"
definition OC20_OFFLINE_CHUNK :: u16 where "OC20_OFFLINE_CHUNK = 0x2c0"
definition OC20_INVALID_RESET :: u16 where "OC20_INVALID_RESET = 0x2c1"

definition OC20_PARAMS_MCCAP_MULTIPLE_RESETS :: u32 where "OC20_PARAMS_MCCAP_MULTIPLE_RESETS = 2"
definition OC20_PARAMS_MCCAP_EARLY_RESET :: u32 where "OC20_PARAMS_MCCAP_EARLY_RESET = 4"

definition OC20_CHUNK_INFO :: u16 where "OC20_CHUNK_INFO = 0xCA"
definition OC20_MAGIC :: u32 where "OC20_MAGIC = 0x4C4E564D"

record Oc20CS =
  cs_state :: u8
  cs_type :: u8
  cs_wear_index :: u8
  cs_rsvd :: "u8 list"
  cs_slba :: u64
  cs_cnlb :: u64
  cs_wp :: u64

record Oc20RwCmd =
  lrw_opcode :: u8
  lrw_nsid :: u32
  lrw_prp1 :: u64
  lrw_prp2 :: u64
  lrw_lbal :: u64
  lrw_nlb :: u16

record Oc20AddrF =
  a20_grp_mask :: u64
  a20_lun_mask :: u64
  a20_chk_mask :: u64
  a20_sec_mask :: u64
  a20_grp_offset :: u8
  a20_lun_offset :: u8
  a20_chk_offset :: u8
  a20_sec_offset :: u8

record Oc20IdGeo =
  geo_num_grp :: u16
  geo_num_lun :: u16
  geo_num_chk :: u32
  geo_clba :: u32

record Oc20IdWrt =
  wrt_ws_min :: u32
  wrt_ws_opt :: u32
  wrt_mw_cunits :: u32
  wrt_max_open_chks :: u32
  wrt_max_open_punits :: u32

record Oc20IdPerf =
  perf_trdt :: u32
  perf_trdm :: u32
  perf_tprt :: u32
  perf_tprm :: u32
  perf_tbet :: u32
  perf_tbem :: u32

record Oc20IdLBAF =
  laf_grp_len :: u8
  laf_lun_len :: u8
  laf_chk_len :: u8
  laf_sec_len :: u8

record Oc20Header =
  hdr_magic :: u32
  hdr_version :: u32
  hdr_num_namespaces :: u32
  hdr_sector_size :: u64
  hdr_md_size :: u32
  hdr_ns_size :: u64

record Oc20NamespaceGeometry =
  ng_ver_major :: u8
  ng_ver_minor :: u8
  ng_lbaf :: Oc20IdLBAF
  ng_mccap :: u32
  ng_wit :: u8
  ng_geo :: Oc20IdGeo
  ng_wrt :: Oc20IdWrt
  ng_perf :: Oc20IdPerf

text \<open>The buffer behind \<open>chunk_info\<close> is a little longer than its entries; the rest is never used.\<close>

record Oc20Namespace =
  lns_id_ctrl :: Oc20NamespaceGeometry
  lns_lbaf :: Oc20AddrF
  lns_resetfail :: "u8 list option"
  lns_writefail :: "u8 list option"
  lns_chks_per_grp :: u32
  lns_chks_total :: u32
  lns_secs_per_chk :: u32
  lns_secs_per_lun :: u32
  lns_secs_per_grp :: u32
  lns_secs_total :: u32
  lns_chunkinfo_size :: u64
  lns_chunk_info :: "Oc20CS list"

text \<open>\<open>params.oc20\<close>; a file name stands for the file: none given, one that cannot be opened, or the lines that
  \<open>fgets\<close> delivers.\<close>

datatype fail_file = No_file | Unreadable | Lines "string list"

record Oc20Params =
  par20_mccap :: u32
  par20_ws_min :: u32
  par20_ws_opt :: u32
  par20_mw_cunits :: u32
  par20_early_reset :: u8
  par20_resetfail_fname :: fail_file
  par20_writefail_fname :: fail_file

end
