(* ===== verification/Femu_State.thy ===== *)
theory Femu_State
  imports Zns Ftl Ring Bitmap Nand Oc_Types
begin

text \<open>
  The state of the controller, \<open>FemuCtrl\<close> of \<open>femu/nvme.h\<close>, with its queues and namespaces, and the
  interrupt state of \<open>qemu-compat/wrapper-qemu.c\<close>.  Submission and completion queues live in the tables \<open>n_sq\<close> and \<open>n_cq\<close>
  under their identifier, a request is named by its queue and its index in \<open>io_req\<close>, and the tail
  queues of the C code are lists of such names.  \<open>dma_memory_map\<close> of the simulator returns \<open>NULL\<close>, so the
  host-virtual doorbell addresses (\<open>_hva\<close>) are always 0 and left out.  Back pointers to the controller
  and fields no modelled function touches are left out too.
\<close>

subsection \<open>Queues, namespaces and the controller\<close>

record NvmeSQueue =
  sq_phys_contig :: u8
  sq_arb_burst :: u8
  sq_sqid :: u16
  sq_cqid :: u16
  sq_head :: u32
  sq_tail :: u32
  sq_size :: u32
  sq_dma_addr :: u64
  sq_completed :: u64
  sq_prp_list :: "u64 list option"
  sq_io_req :: "NvmeRequest list"
  sq_req_list :: "nat list"
  sq_out_req_list :: "nat list"
  sq_db_addr :: u64
  sq_eventidx_addr :: u64
  sq_is_active :: bool

text \<open>A request of a submission queue: the queue and the index in its \<open>io_req\<close>.\<close>

type_synonym req_id = "nat \<times> nat"

record NvmeCQueue =
  cq_phys_contig :: u8
  cq_phase :: u8
  cq_cqid :: u16
  cq_irq_enabled :: u16
  cq_head :: u32
  cq_tail :: u32
  cq_virq :: int
  cq_vector :: u32
  cq_size :: u32
  cq_dma_addr :: u64
  cq_prp_list :: "u64 list option"
  cq_guest_notifier :: bool \<comment> \<open>\<open>event_set\<close> of the notifier\<close>
  cq_sq_list :: "nat list"
  cq_req_list :: "req_id list"
  cq_db_addr :: u64
  cq_eventidx_addr :: u64
  cq_is_active :: bool

record NvmeNamespace =
  ns_id_ns :: NvmeIdNs
  ns_lba_range :: "u8 list" \<comment> \<open>the bytes of the 64 range types\<close>
  ns_util :: bitmap
  ns_uncorrectable :: bitmap
  ns_id :: u32
  ns_size :: u64
  ns_ns_blks :: u64
  ns_start_block :: u64
  ns_tbl_entries :: u32
  ns_tbl :: "u64 list"
  ns_bbtbl :: "Oc12Bbt list"
  ns_blk_begin :: u64
  ns_blk_predef :: u64
  ns_blk_data :: u64
  ns_blk_meta :: u64
  ns_state :: "Oc20Namespace option"

record NvmeIdCtrl =
  ic_vid :: u16
  ic_ssvid :: u16
  ic_sn :: "u8 list"
  ic_mn :: "u8 list"
  ic_fr :: "u8 list"
  ic_rab :: u8
  ic_ieee :: "u8 list"
  ic_cmic :: u8
  ic_mdts :: u8
  ic_ver :: u32
  ic_oacs :: u16
  ic_acl :: u8
  ic_aerl :: u8
  ic_frmw :: u8
  ic_lpa :: u8
  ic_elpe :: u8
  ic_npss :: u8
  ic_sqes :: u8
  ic_cqes :: u8
  ic_nn :: u32
  ic_oncs :: u16
  ic_fuses :: u16
  ic_fna :: u8
  ic_vwc :: u8
  ic_awun :: u16
  ic_awupf :: u16
  ic_subnqn :: "u8 list"
  ic_psd0_mp :: u16
  ic_psd0_enlat :: u32
  ic_psd0_exlat :: u32

text \<open>The configuration of a controller: the fields of \<open>FemuCtrl\<close> set from the device properties,
  which the code never changes.\<close>

record femu_props =
  p_memsz :: u32
  p_num_namespaces :: u32
  p_num_io_queues :: u32
  p_max_q_ents :: u32
  p_multipoller_enabled :: u8
  p_max_cqes :: u8
  p_max_sqes :: u8
  p_db_stride :: u8
  p_aerl :: u8
  p_acl :: u8
  p_elpe :: u8
  p_mdts :: u8
  p_cqr :: u8
  p_vwc :: u8
  p_intc :: u8
  p_intc_thresh :: u8
  p_intc_time :: u8
  p_mpsmin :: u8
  p_mpsmax :: u8
  p_nlbaf :: u8
  p_lba_index :: u8
  p_extended :: u8
  p_dpc :: u8
  p_dps :: u8
  p_mc :: u8
  p_meta :: u8
  p_cmbsz :: u32
  p_cmbloc :: u32
  p_oacs :: u16
  p_oncs :: u16
  p_vid :: u16
  p_did :: u16
  p_femu_mode :: u8
  p_flash_type :: u8
  p_lver :: u8
  p_ms_max :: u8
  p_oc :: OcCtrlParams

text \<open>The latency numbers of the whitebox mode.\<close>

record nand_lat =
  upg_rd_lat_ns :: int
  cpg_rd_lat_ns :: int
  cupg_rd_lat_ns :: int
  clpg_rd_lat_ns :: int
  lpg_rd_lat_ns :: int
  upg_wr_lat_ns :: int
  cpg_wr_lat_ns :: int
  cupg_wr_lat_ns :: int
  clpg_wr_lat_ns :: int
  lpg_wr_lat_ns :: int
  blk_er_lat_ns :: int
  chnl_pg_xfer_lat_ns :: int

text \<open>Interrupts: what the wrapper (\<open>qemu-compat/wrapper-qemu.c\<close>) sends to the host, and its routes from
  virtual interrupts to vectors, newest first.  A route polls the notifier of a completion queue,
  which lives in the queue; \<open>Freed_notifier\<close> is a pointer to the notifier of a freed queue.\<close>

datatype sb_irq = Irq_msix u32 | Irq_msi u32 | Irq_legacy_hi | Irq_legacy_lo

datatype notifier = No_notifier | Notifier_of nat | Freed_notifier

record kvm_vint =
  vi_en :: notifier
  vi_vector :: u32
  vi_id :: int

record irq_state =
  sb_msi_en :: bool
  sb_msix_en :: bool
  irq_vints :: "kvm_vint list"
  irq_sent :: "sb_irq list"
  irq_msix_nvecs :: u16

type_synonym sq_table = "NvmeSQueue option list"

record femu =
  n_cfg :: femu_props
  n_bar :: NvmeBar
  n_dma :: dma_ctx
  n_host :: host_mem
  n_mbe :: SsdDramBackend
  n_cqe_size :: u16
  n_sqe_size :: u16
  n_reg_size :: u32
  n_ns_size :: u64
  n_temperature :: u16
  n_elpes :: "NvmeErrorLog list"
  n_elp_index :: u8
  n_error_count :: u8
  n_num_errors :: u8
  n_temp_warn_issued :: u8
  n_aer_mask :: u8
  n_csi :: u8
  n_namespaces :: "NvmeNamespace list"
  n_sq :: sq_table
  n_cq :: "NvmeCQueue option list"
  n_admin_sq :: NvmeSQueue
  n_admin_cq :: NvmeCQueue
  n_features :: NvmeFeatureVal
  n_id_ctrl :: NvmeIdCtrl
  n_devname :: "u8 list"
  n_dbs_addr :: u64
  n_eis_addr :: u64
  n_dataplane_started :: bool
  n_vector_poll_started :: bool
  n_poller_on :: bool
  n_print_log :: bool
  n_irq :: irq_state
  n_to_ftl :: "req_id rte_ring list"
  n_to_poller :: "req_id rte_ring list"
  n_pq :: "(sq_table, req_id) pqueue list"
  n_should_isr :: "bool list"
  n_num_poller :: u32
  n_nr_tt_ios :: int
  n_nr_tt_late_ios :: int
  n_lat :: nand_lat
  n_zns :: zns
  n_ssd :: "ssd option"
  n_oc12_ctrl :: "Oc12Ctrl option"
  n_oc20_hdr :: Oc20Header \<comment> \<open>\<open>ext_ops.state\<close> of the open-channel 2.0 mode\<close>
  n_params_oc20 :: Oc20Params
  n_chip_next_avail_time :: "u64 list"
  n_chnl_next_avail_time :: "u64 list"
  n_nand :: nand \<comment> \<open>the tables of \<open>nand.c\<close>\<close>
  n_clk :: nat \<comment> \<open>readings of the real-time clock by the pollers so far\<close>

definition OCSSD :: "femu \<Rightarrow> bool" where "OCSSD n \<longleftrightarrow> p_femu_mode (n_cfg n) = femu_mode_code FEMU_OCSSD_MODE"
definition BBSSD :: "femu \<Rightarrow> bool" where "BBSSD n \<longleftrightarrow> p_femu_mode (n_cfg n) = femu_mode_code FEMU_BBSSD_MODE"
definition NOSSD :: "femu \<Rightarrow> bool" where "NOSSD n \<longleftrightarrow> p_femu_mode (n_cfg n) = femu_mode_code FEMU_NOSSD_MODE"
definition ZNSSD :: "femu \<Rightarrow> bool" where "ZNSSD n \<longleftrightarrow> p_femu_mode (n_cfg n) = femu_mode_code FEMU_ZNSSD_MODE"

definition n_page_size :: "femu \<Rightarrow> u16" where "n_page_size n = dma_page_size (n_dma n)"

definition page_unaligned :: "femu \<Rightarrow> u64 \<Rightarrow> bool" where
  "page_unaligned n a \<longleftrightarrow> a AND (ucast (n_page_size n) - 1) \<noteq> 0"

text \<open>The queue behind a pointer of a table: none for \<open>NULL\<close> or an index outside the table.\<close>

definition lookup :: "'a option list \<Rightarrow> nat \<Rightarrow> 'a option" where
  "lookup tab i = (if i < length tab then tab ! i else None)"

definition upd_sq :: "femu \<Rightarrow> nat \<Rightarrow> NvmeSQueue \<Rightarrow> femu" where
  "upd_sq n i q = n\<lparr>n_sq := (n_sq n)[i := Some q]\<rparr>"

definition upd_cq :: "femu \<Rightarrow> nat \<Rightarrow> NvmeCQueue \<Rightarrow> femu" where
  "upd_cq n i q = n\<lparr>n_cq := (n_cq n)[i := Some q]\<rparr>"

text \<open>\<open>nvme_addr_read\<close> and \<open>nvme_addr_write\<close> on the memory of the controller.\<close>

definition addr_read :: "femu \<Rightarrow> u64 \<Rightarrow> nat \<Rightarrow> u8 list" where
  "addr_read n a size' = nvme_addr_read (n_dma n) (n_host n) a size'"

definition addr_write :: "femu \<Rightarrow> u64 \<Rightarrow> u8 list \<Rightarrow> femu" where
  "addr_write n a bs = (case nvme_addr_write (n_dma n) (n_host n) a bs of (d, h) \<Rightarrow> n\<lparr>n_dma := d, n_host := h\<rparr>)"

end
