(* ===== verification/Nvme_Queue.thy ===== *)
theory Nvme_Queue
  imports Femu_State
begin

text \<open>
  The queue helpers of \<open>femu/nvme-util.c\<close> and the inline functions of \<open>femu/nvme.h\<close> they use: ring
  indices and phase, shadow doorbells, creation and release of queues, the error log, and the checks
  of a read or write.  \<open>None\<close> is a failed assertion, a division by zero or an access outside an array.
\<close>

subsection \<open>Identifiers and ring indices\<close>

definition nvme_check_sqid :: "femu \<Rightarrow> u16 \<Rightarrow> bool" where
  "nvme_check_sqid n sqid \<longleftrightarrow>
     ucast sqid \<le> p_num_io_queues (n_cfg n) \<and> lookup (n_sq n) (unat sqid) \<noteq> None"

definition nvme_check_cqid :: "femu \<Rightarrow> u16 \<Rightarrow> bool" where
  "nvme_check_cqid n cqid \<longleftrightarrow>
     ucast cqid \<le> p_num_io_queues (n_cfg n) \<and> lookup (n_cq n) (unat cqid) \<noteq> None"

definition nvme_inc_cq_tail :: "NvmeCQueue \<Rightarrow> NvmeCQueue" where
  "nvme_inc_cq_tail q =
     (let q = q\<lparr>cq_tail := cq_tail q + 1\<rparr>
      in if cq_size q \<le> cq_tail q then q\<lparr>cq_tail := 0, cq_phase := (if cq_phase q = 0 then 1 else 0)\<rparr> else q)"

definition nvme_inc_sq_head :: "NvmeSQueue \<Rightarrow> NvmeSQueue option" where
  "nvme_inc_sq_head q =
     (if sq_size q = 0 then None else Some (q\<lparr>sq_head := (sq_head q + 1) mod sq_size q\<rparr>))"

definition le32_of_bytes :: "u8 list \<Rightarrow> u32" where
  "le32_of_bytes bs = foldr (\<lambda>b acc. push_bit 8 acc OR ucast b) (take 4 bs) 0"

definition nvme_update_sq_tail :: "femu \<Rightarrow> NvmeSQueue \<Rightarrow> NvmeSQueue" where
  "nvme_update_sq_tail n q =
     (if sq_db_addr q \<noteq> 0 then q\<lparr>sq_tail := le32_of_bytes (addr_read n (sq_db_addr q) 4)\<rparr> else q)"

definition nvme_update_cq_head :: "femu \<Rightarrow> NvmeCQueue \<Rightarrow> NvmeCQueue" where
  "nvme_update_cq_head n q =
     (if cq_db_addr q \<noteq> 0 then q\<lparr>cq_head := le32_of_bytes (addr_read n (cq_db_addr q) 4)\<rparr> else q)"

definition nvme_cq_full :: "femu \<Rightarrow> NvmeCQueue \<Rightarrow> (bool \<times> NvmeCQueue) option" where
  "nvme_cq_full n q =
     (let q = nvme_update_cq_head n q
      in if cq_size q = 0 then None else Some ((cq_tail q + 1) mod cq_size q = cq_head q, q))"

definition nvme_sq_empty :: "NvmeSQueue \<Rightarrow> bool" where
  "nvme_sq_empty q \<longleftrightarrow> sq_head q = sq_tail q"

subsection \<open>Discontiguous queues\<close>

text \<open>\<open>nvme_discontig\<close> with its parameters in the order of its declaration; its callers pass the queue
  index for the page size and the page size for the index.\<close>

definition nvme_discontig :: "u64 list \<Rightarrow> u16 \<Rightarrow> u16 \<Rightarrow> u16 \<Rightarrow> u64 option" where
  "nvme_discontig dma_addr page_size queue_idx entry_size =
     (if entry_size = 0 then None
      else
        let entries_per_page = page_size div entry_size
        in if entries_per_page = 0 then None
           else
             let prp_index = unat (queue_idx div entries_per_page);
                 index_in_prp = queue_idx mod entries_per_page
             in if length dma_addr \<le> prp_index then None
                else Some (dma_addr ! prp_index + ucast index_in_prp * ucast entry_size))"

text \<open>The loop of \<open>nvme_setup_discontig\<close>.  It \<^emph>\<open>writes\<close> the uninitialised array \<open>prp\<close> to the guest's list
  page (\<open>nvme_addr_write\<close>) and then takes the entries from that array.\<close>

function setup_discontig_loop ::
  "femu \<Rightarrow> u64 list \<Rightarrow> nat \<Rightarrow> nat \<Rightarrow> nat \<Rightarrow> u64 \<Rightarrow> u64 list \<Rightarrow> u64 list option \<times> femu" where
  "setup_discontig_loop n prp per_page nents i prp_addr prp_list =
     (if nents \<le> i then (Some prp_list, n)
      else
        let next_page = (i mod per_page = 0 \<and> i + 1 < nents);
            bad = (next_page \<and> (prp_addr = 0 \<or> page_unaligned n prp_addr))
        in if bad then (None, n)
           else
             let n' = (if next_page then addr_write n prp_addr (concat (map (le_bytes 8) prp)) else n);
                 prp_addr' = (if next_page then prp ! (per_page - 1) else prp_addr);
                 ent = prp ! (i mod per_page)
             in if ent = 0 \<or> page_unaligned n' ent then (None, n')
                else setup_discontig_loop n' prp per_page nents (i + 1) prp_addr' (prp_list @ [ent]))"
  by auto
termination by (relation "measure (\<lambda>(n, p, pp, k, i, a, l). k - i)") auto

text \<open>\<open>junk\<close> is the content of the stack array.  \<open>DIV_ROUND_UP\<close> works on \<open>int\<close>.\<close>

definition nvme_setup_discontig ::
  "(nat \<Rightarrow> u64) \<Rightarrow> femu \<Rightarrow> u64 \<Rightarrow> u16 \<Rightarrow> u16 \<Rightarrow> (u64 list option \<times> femu) option" where
  "nvme_setup_discontig junk n prp_addr queue_depth entry_size =
     (let ps = unat (n_page_size n);
          prps_per_page = ps div 8
      in if ps = 0 then None
         else
           let total_prps = (unat queue_depth * unat entry_size + ps - 1) div ps mod 2 ^ 16
           in if prps_per_page = 0 then None
              else Some (setup_discontig_loop n (map junk [0..<prps_per_page]) prps_per_page total_prps 0 prp_addr []))"

declare setup_discontig_loop.simps [simp del]

subsection \<open>The error log\<close>

definition nvme_set_error_page ::
  "femu \<Rightarrow> u16 \<Rightarrow> u16 \<Rightarrow> u16 \<Rightarrow> u16 \<Rightarrow> u64 \<Rightarrow> u32 \<Rightarrow> femu option" where
  "nvme_set_error_page n sqid cid status location lba nsid =
     (let i = unat (n_elp_index n);
          elpe = p_elpe (n_cfg n)
      in if length (n_elpes n) \<le> i \<or> elpe = 0 then None
         else Some (n\<lparr>n_elpes := (n_elpes n)[i := \<lparr>el_error_count = ucast (n_error_count n), el_sqid = sqid,
                        el_cid = cid, el_status_field = status, el_param_error_location = location,
                        el_lba = lba, el_nsid = nsid\<rparr>],
                      n_error_count := n_error_count n + 1,
                      n_elp_index := word_of_int ((int i + 1) mod int (unat elpe)),
                      n_num_errors := n_num_errors n + 1\<rparr>))"

definition OFFSET_NLB :: u16 where "OFFSET_NLB = 48"
definition OFFSET_CONTROL :: u16 where "OFFSET_CONTROL = 50"
definition OFFSET_SLBA :: u16 where "OFFSET_SLBA = 40"
definition OFFSET_PRP1 :: u16 where "OFFSET_PRP1 = 24"
definition OFFSET_CDW10 :: u16 where "OFFSET_CDW10 = 40"
definition NVME_RW_PRINFO_PRACT :: u16 where "NVME_RW_PRINFO_PRACT = push_bit 13 1"
definition DPS_TYPE_MASK :: u8 where "DPS_TYPE_MASK = 7"

text \<open>A refused command: an error log entry and the status.\<close>

definition refuse ::
  "femu \<Rightarrow> NvmeRequest \<Rightarrow> NvmeStatusCodes \<Rightarrow> u16 \<Rightarrow> u64 \<Rightarrow> u32 \<Rightarrow> u16 \<Rightarrow> (u16 \<times> femu) option" where
  "refuse n req code location lba nsid status =
     map_option (\<lambda>n. (status, n))
       (nvme_set_error_page n (of_nat (req_sq req)) (cmd_cid (req_cmd req)) (sc code) location lba nsid)"

definition mdts_exceeded :: "femu \<Rightarrow> u64 \<Rightarrow> bool" where
  "mdts_exceeded n data_size \<longleftrightarrow>
     ic_mdts (n_id_ctrl n) \<noteq> 0 \<and> int_shl (n_page_size n) (ic_mdts (n_id_ctrl n)) < data_size"

definition femu_nvme_rw_check_req ::
  "femu \<Rightarrow> NvmeNamespace \<Rightarrow> NvmeRequest \<Rightarrow> u64 \<Rightarrow> u64 \<Rightarrow> u32 \<Rightarrow> u16 \<Rightarrow> u64 \<Rightarrow> u64 \<Rightarrow> (u16 \<times> femu) option" where
  "femu_nvme_rw_check_req n ns req slba elba nlb ctrl data_size meta_size =
     (if idns_nsze (ns_id_ns ns) < elba then
        refuse n req NVME_LBA_RANGE OFFSET_NLB elba (ns_id ns) (dnr NVME_LBA_RANGE)
      else if mdts_exceeded n data_size then
        refuse n req NVME_INVALID_FIELD OFFSET_NLB (ucast nlb) (ns_id ns) (dnr NVME_INVALID_FIELD)
      else if meta_size \<noteq> 0 then
        refuse n req NVME_INVALID_FIELD OFFSET_CONTROL (ucast ctrl) (ns_id ns) (dnr NVME_INVALID_FIELD)
      else if ctrl AND NVME_RW_PRINFO_PRACT \<noteq> 0 \<and> idns_dps (ns_id_ns ns) AND DPS_TYPE_MASK = 0 then
        refuse n req NVME_INVALID_FIELD OFFSET_CONTROL (ucast ctrl) (ns_id ns)
          (if OCSSD n then 0 else dnr NVME_INVALID_FIELD)
      else if req_is_write req \<noteq> 0 then Some (0, n)
      else
        find_next_bit (ns_uncorrectable ns) (unat elba) (unat slba) \<bind> (\<lambda>r.
          if r < unat elba then
            refuse n req NVME_UNRECOVERED_READ OFFSET_SLBA elba (ns_id ns) (sc NVME_UNRECOVERED_READ)
          else Some (0, n)))"

subsection \<open>Creating and releasing queues\<close>

definition zero_cmd :: NvmeCmd where
  "zero_cmd = \<lparr>cmd_opcode = 0, cmd_fuse = 0, cmd_psdt = 0, cmd_cid = 0, cmd_nsid = 0, cmd_res2 = 0, cmd_mptr = 0,
     cmd_prp1 = 0, cmd_prp2 = 0, cmd_cdw10 = 0, cmd_cdw11 = 0, cmd_cdw12 = 0, cmd_cdw13 = 0, cmd_cdw14 = 0,
     cmd_cdw15 = 0\<rparr>"

definition zero_cqe :: NvmeCqe where
  "zero_cqe = \<lparr>cqe_res64 = 0, cqe_sq_head = 0, cqe_sq_id = 0, cqe_cid = 0, cqe_status = 0\<rparr>"

definition zero_req :: "nat \<Rightarrow> NvmeRequest" where
  "zero_req sqid = \<lparr>req_sq = sqid, req_status = 0, req_slba = 0, req_is_write = 0, req_nlb = 0, req_ctrl = 0,
     req_meta_size = 0, req_mptr = 0, req_cmd = zero_cmd, req_cqe = zero_cqe, req_cmd_opcode = 0, req_qsg = [],
     req_stime = 0, req_reqlat = 0, req_gcrt = 0, req_expire_time = 0, req_predef = 0, req_pos = 0\<rparr>"

text \<open>Queues as \<open>g_malloc0\<close> returns them.\<close>

definition zero_sq :: NvmeSQueue where
  "zero_sq = \<lparr>sq_phys_contig = 0, sq_arb_burst = 0, sq_sqid = 0, sq_cqid = 0, sq_head = 0, sq_tail = 0, sq_size = 0,
     sq_dma_addr = 0, sq_completed = 0, sq_prp_list = None, sq_io_req = [], sq_req_list = [], sq_out_req_list = [],
     sq_db_addr = 0, sq_eventidx_addr = 0, sq_is_active = False\<rparr>"

definition zero_cq :: NvmeCQueue where
  "zero_cq = \<lparr>cq_phys_contig = 0, cq_phase = 0, cq_cqid = 0, cq_irq_enabled = 0, cq_head = 0, cq_tail = 0, cq_virq = 0,
     cq_vector = 0, cq_size = 0, cq_dma_addr = 0, cq_prp_list = None, cq_guest_notifier = False, cq_sq_list = [],
     cq_req_list = [], cq_db_addr = 0, cq_eventidx_addr = 0, cq_is_active = False\<rparr>"

text \<open>Queue 0 is the admin queue, embedded in the controller: releasing it keeps its contents there.\<close>

definition nvme_free_sq :: "nat \<Rightarrow> femu \<Rightarrow> femu option" where
  "nvme_free_sq sqid n =
     (case lookup (n_sq n) sqid of
        None \<Rightarrow> None
      | Some q \<Rightarrow>
          Some (n\<lparr>n_sq := (n_sq n)[sqid := None],
                  n_admin_sq := (if sqid = 0 then q\<lparr>sq_io_req := []\<rparr> else n_admin_sq n)\<rparr>))"

definition free_notifier :: "nat \<Rightarrow> irq_state \<Rightarrow> irq_state" where
  "free_notifier cqid s =
     s\<lparr>irq_vints := map (\<lambda>v. if vi_en v = Notifier_of cqid then v\<lparr>vi_en := Freed_notifier\<rparr> else v) (irq_vints s)\<rparr>"

definition nvme_free_cq :: "nat \<Rightarrow> femu \<Rightarrow> femu option" where
  "nvme_free_cq cqid n =
     (case lookup (n_cq n) cqid of
        None \<Rightarrow> None
      | Some q \<Rightarrow>
          Some (if cqid = 0 then n\<lparr>n_cq := (n_cq n)[cqid := None], n_admin_cq := q\<rparr>
                else n\<lparr>n_cq := (n_cq n)[cqid := None], n_irq := free_notifier cqid (n_irq n)\<rparr>))"

definition NVME_ARB_AB :: "u32 \<Rightarrow> u32" where "NVME_ARB_AB arb = arb AND 7"
definition NVME_ARB_LPW :: "u32 \<Rightarrow> u32" where "NVME_ARB_LPW arb = drop_bit 8 arb AND 0xff"
definition NVME_ARB_MPW :: "u32 \<Rightarrow> u32" where "NVME_ARB_MPW arb = drop_bit 16 arb AND 0xff"
definition NVME_ARB_HPW :: "u32 \<Rightarrow> u32" where "NVME_ARB_HPW arb = drop_bit 24 arb AND 0xff"

datatype NvmeQueueFlags = NVME_Q_PRIO_URGENT | NVME_Q_PRIO_HIGH | NVME_Q_PRIO_NORMAL | NVME_Q_PRIO_LOW

definition queue_prio :: "u16 \<Rightarrow> NvmeQueueFlags" where
  "queue_prio w = (if w = 0 then NVME_Q_PRIO_URGENT else if w = 1 then NVME_Q_PRIO_HIGH
     else if w = 2 then NVME_Q_PRIO_NORMAL else NVME_Q_PRIO_LOW)"

definition arb_burst :: "femu \<Rightarrow> NvmeQueueFlags \<Rightarrow> u8" where
  "arb_burst n prio =
     (let arb = feat_arbitration (n_features n)
      in case prio of
           NVME_Q_PRIO_URGENT \<Rightarrow> ucast (push_bit (unat (NVME_ARB_AB arb)) 1 :: u32)
         | NVME_Q_PRIO_HIGH \<Rightarrow> ucast (NVME_ARB_HPW arb + 1)
         | NVME_Q_PRIO_NORMAL \<Rightarrow> ucast (NVME_ARB_MPW arb + 1)
         | NVME_Q_PRIO_LOW \<Rightarrow> ucast (NVME_ARB_LPW arb + 1))"

text \<open>\<open>dbbuf_entry_sz\<close> as an \<open>int\<close> and the offset of slot \<open>k\<close> of a doorbell page.\<close>

definition dbbuf_entry_sz :: "femu \<Rightarrow> u32" where
  "dbbuf_entry_sz n = push_bit (2 + unat (p_db_stride (n_cfg n))) 1"

definition dbbuf_offset :: "femu \<Rightarrow> nat \<Rightarrow> u64" where
  "dbbuf_offset n k = scast (of_nat k * dbbuf_entry_sz n)"

text \<open>The first part of both constructors: a contiguous queue takes its address, the list of pages
  of a discontiguous one is fetched; \<open>None\<close> in the first component means the constructor fails.\<close>

definition queue_memory ::
  "(nat \<Rightarrow> u64) \<Rightarrow> femu \<Rightarrow> u64 \<Rightarrow> u16 \<Rightarrow> u16 \<Rightarrow> bool \<Rightarrow> ((u64 \<times> u64 list option) option \<times> femu) option" where
  "queue_memory junk n dma_addr size' entry_size contig =
     (if contig then Some (Some (dma_addr, None), n)
      else map_option (\<lambda>(prps, n). (map_option (\<lambda>l. (0, Some l)) prps, n))
             (nvme_setup_discontig junk n dma_addr size' entry_size))"

text \<open>The second assignment to \<open>eventidx_addr\<close> overwrites the first (the code means \<open>eventidx_addr_hva\<close>); with
  \<open>eis_addr_hva\<close> 0 it stores 0.\<close>

definition nvme_init_sq ::
  "(nat \<Rightarrow> u64) \<Rightarrow> NvmeSQueue \<Rightarrow> femu \<Rightarrow> u64 \<Rightarrow> u16 \<Rightarrow> u16 \<Rightarrow> u16 \<Rightarrow> NvmeQueueFlags \<Rightarrow> bool \<Rightarrow>
   (u16 \<times> femu) option" where
  "nvme_init_sq junk q n dma_addr sqid cqid size' prio contig =
     do {
       (mem, n) \<leftarrow> queue_memory junk n dma_addr size' (n_sqe_size n) contig;
       (case mem of
          None \<Rightarrow> Some (dnr NVME_INVALID_FIELD, n)
        | Some (addr, prps) \<Rightarrow>
            let db = (sqid \<noteq> 0 \<and> n_dbs_addr n \<noteq> 0 \<and> n_eis_addr n \<noteq> 0);
                q = q\<lparr>sq_sqid := sqid, sq_size := ucast size', sq_cqid := cqid, sq_head := 0, sq_tail := 0,
                      sq_phys_contig := (if contig then 1 else 0),
                      sq_dma_addr := (if contig then addr else sq_dma_addr q),
                      sq_prp_list := (if contig then sq_prp_list q else prps),
                      sq_io_req := replicate (unat size') (zero_req (unat sqid)),
                      sq_req_list := [0..<unat size'], sq_out_req_list := [],
                      sq_arb_burst := arb_burst n prio,
                      sq_db_addr := (if db then n_dbs_addr n + dbbuf_offset n (2 * unat sqid) else sq_db_addr q),
                      sq_eventidx_addr := (if db then 0 else sq_eventidx_addr q)\<rparr>
            in (case lookup (n_cq n) (unat cqid) of
                  None \<Rightarrow> None
                | Some c \<Rightarrow>
                    if length (n_sq n) \<le> unat sqid then None
                    else Some (sc NVME_SUCCESS,
                           upd_sq (upd_cq n (unat cqid) (c\<lparr>cq_sq_list := cq_sq_list c @ [unat sqid]\<rparr>)) (unat sqid) q)))
     }"

definition nvme_init_cq ::
  "(nat \<Rightarrow> u64) \<Rightarrow> NvmeCQueue \<Rightarrow> femu \<Rightarrow> u64 \<Rightarrow> u16 \<Rightarrow> u16 \<Rightarrow> u16 \<Rightarrow> u16 \<Rightarrow> bool \<Rightarrow> (u16 \<times> femu) option" where
  "nvme_init_cq junk q n dma_addr cqid vector size' irq_enabled contig =
     do {
       (mem, n) \<leftarrow> queue_memory junk n dma_addr size' (n_cqe_size n) contig;
       (case mem of
          None \<Rightarrow> Some (dnr NVME_INVALID_FIELD, n)
        | Some (addr, prps) \<Rightarrow>
            let db = (cqid \<noteq> 0 \<and> n_dbs_addr n \<noteq> 0 \<and> n_eis_addr n \<noteq> 0);
                q = q\<lparr>cq_cqid := cqid, cq_size := ucast size', cq_phase := 1, cq_irq_enabled := irq_enabled,
                      cq_vector := ucast vector, cq_head := 0, cq_tail := 0,
                      cq_phys_contig := (if contig then 1 else 0),
                      cq_dma_addr := (if contig then addr else cq_dma_addr q),
                      cq_prp_list := (if contig then cq_prp_list q else prps),
                      cq_req_list := [], cq_sq_list := [],
                      cq_db_addr := (if db then n_dbs_addr n + dbbuf_offset n (2 * unat cqid + 1) else cq_db_addr q),
                      cq_eventidx_addr := (if db then n_eis_addr n + dbbuf_offset n (2 * unat cqid + 1)
                                           else cq_eventidx_addr q)\<rparr>
            in if length (n_cq n) \<le> unat cqid then None
               else Some (sc NVME_SUCCESS, upd_cq n (unat cqid) q))
     }"

subsection \<open>Controller name\<close>

fun decimal :: "nat \<Rightarrow> u8 list" where
  "decimal k = (if k < 10 then [of_nat (48 + k)] else decimal (k div 10) @ [of_nat (48 + k mod 10)])"

declare decimal.simps [simp del]

definition strpadcpy :: "nat \<Rightarrow> u8 list \<Rightarrow> u8 \<Rightarrow> u8 list" where
  "strpadcpy buf_size str pad = take buf_size str @ replicate (buf_size - length str) pad"

definition g_strlcpy :: "u8 list \<Rightarrow> u8 list \<Rightarrow> nat \<Rightarrow> u8 list" where
  "g_strlcpy dest src size' =
     (if size' = 0 then dest
      else let len = (if size' \<le> length src then size' - 1 else length src)
           in overwrite dest 0 (take len src @ [0]))"

definition MN_MAX_LEN :: nat where "MN_MAX_LEN = 64"
definition ID_MAX_LEN :: nat where "ID_MAX_LEN = 4"

text \<open>The strings are the bytes before the terminating 0; \<open>dev_id_str\<close> holds three digits and \<open>serial\<close> 63 characters.\<close>

definition nvme_set_ctrl_name :: "femu \<Rightarrow> u8 list \<Rightarrow> u8 list \<Rightarrow> nat \<Rightarrow> (femu \<times> nat) option" where
  "nvme_set_ctrl_name n mn sn dev_id =
     (let dev_id_str = decimal dev_id;
          serial = sn @ dev_id_str
      in if ID_MAX_LEN \<le> length dev_id_str \<or> MN_MAX_LEN \<le> length serial then None
         else Some (n\<lparr>n_id_ctrl := (n_id_ctrl n)\<lparr>ic_mn := strpadcpy 40 mn 32, ic_sn := strpadcpy 20 serial 32,
                        ic_fr := strpadcpy 8 (map of_nat [49, 46, 48]) 32,
                        ic_subnqn := strpadcpy 256 (map (of_char :: char \<Rightarrow> u8) ''nqn.2021-05.org.femu:'' @ serial) 0\<rparr>,
                      n_devname := g_strlcpy (replicate 64 0) serial MN_MAX_LEN\<rparr>,
                    dev_id + 1))"

definition ns_blks :: "femu \<Rightarrow> NvmeNamespace \<Rightarrow> u8 \<Rightarrow> u64 option" where
  "ns_blks n ns lba_idx =
     (if 16 \<le> lba_idx then None
      else let lba_ds = push_bit (unat (lbaf_lbads (idns_lbaf (ns_id_ns ns) ! unat lba_idx))) 1 :: u32;
               lba_sz = lba_ds + ucast (p_meta (n_cfg n))
           in if lba_sz = 0 then None else Some (n_ns_size n div ucast lba_sz))"

end
