(* ===== verification/Virq.thy ===== *)
theory Virq
  imports Nvme_Queue
begin

text \<open>
  Interrupt delivery: \<open>femu/intr.c\<close> on top of the interrupt routines of \<open>qemu-compat/wrapper-qemu.c\<close>.
  A completion queue signals its event notifier; the main loop of the wrapper polls the notifier of
  every route (\<open>kvm_vint\<close>) and sends the MSI-X message of the route's vector.  Messages to the host are
  the list \<open>irq_sent\<close>, in order.  \<open>None\<close> is \<open>abort()\<close> of a stub or an access to a freed queue.
\<close>

subsection \<open>The wrapper\<close>

definition send_irq :: "sb_irq \<Rightarrow> femu \<Rightarrow> femu" where
  "send_irq m n = n\<lparr>n_irq := (n_irq n)\<lparr>irq_sent := irq_sent (n_irq n) @ [m]\<rparr>\<rparr>"

definition msix_notify :: "femu \<Rightarrow> u32 \<Rightarrow> femu" where "msix_notify n vector = send_irq (Irq_msix vector) n"
definition msi_notify :: "femu \<Rightarrow> u32 \<Rightarrow> femu" where "msi_notify n vector = send_irq (Irq_msi vector) n"

definition pci_irq_pulse :: "femu \<Rightarrow> femu" where
  "pci_irq_pulse n = send_irq Irq_legacy_lo (send_irq Irq_legacy_hi n)"

definition msix_enabled :: "femu \<Rightarrow> bool" where "msix_enabled n \<longleftrightarrow> sb_msix_en (n_irq n)"
definition msi_enabled :: "femu \<Rightarrow> bool" where "msi_enabled n \<longleftrightarrow> sb_msi_en (n_irq n)"

text \<open>The next identifier of a route, \<open>vint_id\<close>, counts the routes made; they are never released.\<close>

definition kvm_irqchip_add_msi_route :: "femu \<Rightarrow> u32 \<Rightarrow> int \<times> femu" where
  "kvm_irqchip_add_msi_route n vector =
     (let s = n_irq n; newid = int (length (irq_vints s)) + 1
      in (newid, n\<lparr>n_irq := s\<lparr>irq_vints := \<lparr>vi_en = No_notifier, vi_vector = vector, vi_id = newid\<rparr> # irq_vints s\<rparr>\<rparr>))"

primrec set_vint_en :: "kvm_vint list \<Rightarrow> int \<Rightarrow> notifier \<Rightarrow> kvm_vint list option" where
  "set_vint_en [] virq en = None"
| "set_vint_en (v # vs) virq en =
     (if vi_id v = virq then Some (v\<lparr>vi_en := en\<rparr> # vs) else map_option (Cons v) (set_vint_en vs virq en))"

definition kvm_irqchip_add_irqfd_notifier_gsi :: "femu \<Rightarrow> nat \<Rightarrow> int \<Rightarrow> int \<times> femu" where
  "kvm_irqchip_add_irqfd_notifier_gsi n cqid virq =
     (case set_vint_en (irq_vints (n_irq n)) virq (Notifier_of cqid) of
        None \<Rightarrow> (- 1, n)
      | Some vs \<Rightarrow> (0, n\<lparr>n_irq := (n_irq n)\<lparr>irq_vints := vs\<rparr>\<rparr>))"

text \<open>One pass of the main loop over the routes: \<open>event_notifier_test_and_clear\<close>, then the message.\<close>

primrec poll_vints :: "kvm_vint list \<Rightarrow> femu \<Rightarrow> femu option" where
  "poll_vints [] n = Some n"
| "poll_vints (v # vs) n =
     (case vi_en v of
        No_notifier \<Rightarrow> poll_vints vs n
      | Freed_notifier \<Rightarrow> None
      | Notifier_of cqid \<Rightarrow>
          (case lookup (n_cq n) cqid of
             None \<Rightarrow> None
           | Some q \<Rightarrow>
               poll_vints vs
                 (if cq_guest_notifier q
                  then msix_notify (upd_cq n cqid (q\<lparr>cq_guest_notifier := False\<rparr>)) (vi_vector v) else n)))"

definition qemu_main_poll :: "femu \<Rightarrow> femu option" where
  "qemu_main_poll n = poll_vints (irq_vints (n_irq n)) n"

subsection \<open>Notification\<close>

definition nvme_isr_notify_legacy :: "femu \<Rightarrow> nat \<Rightarrow> femu option" where
  "nvme_isr_notify_legacy n cqid =
     (case lookup (n_cq n) cqid of
        None \<Rightarrow> None
      | Some q \<Rightarrow>
          Some (if cq_irq_enabled q \<noteq> 0 then
                  (if msix_enabled n then msix_notify n (cq_vector q)
                   else if msi_enabled n then
                     (if bar_intms (n_bar n) AND push_bit (unat (cq_vector q)) 1 = 0
                      then msi_notify n (cq_vector q) else n)
                   else pci_irq_pulse n)
                else n))"

definition nvme_isr_notify_admin :: "femu \<Rightarrow> nat \<Rightarrow> femu option" where
  "nvme_isr_notify_admin n cqid = nvme_isr_notify_legacy n cqid"

definition nvme_isr_notify_io :: "femu \<Rightarrow> nat \<Rightarrow> femu option" where
  "nvme_isr_notify_io n cqid =
     (case lookup (n_cq n) cqid of
        None \<Rightarrow> None
      | Some q \<Rightarrow>
          if cq_irq_enabled q \<noteq> 0 \<and> cq_virq q \<noteq> 0 then Some (upd_cq n cqid (q\<lparr>cq_guest_notifier := True\<rparr>))
          else nvme_isr_notify_legacy n cqid)"

subsection \<open>Virtual interrupts\<close>

definition nvme_add_kvm_msi_virq :: "femu \<Rightarrow> nat \<Rightarrow> (int \<times> femu) option" where
  "nvme_add_kvm_msi_virq n cqid =
     (case lookup (n_cq n) cqid of
        None \<Rightarrow> None
      | Some q \<Rightarrow>
          if \<not> msix_enabled n then Some (- 1, n)
          else
            let (virq, n) = kvm_irqchip_add_msi_route n (cq_vector q)
            in Some (0, upd_cq n cqid (q\<lparr>cq_guest_notifier := False, cq_virq := virq\<rparr>)))"

text \<open>The queue a vector belongs to: the first one from queue 1 on.\<close>

definition cq_of_vector :: "femu \<Rightarrow> u32 \<Rightarrow> nat option" where
  "cq_of_vector n vector =
     find (\<lambda>i. case lookup (n_cq n) i of None \<Rightarrow> False | Some q \<Rightarrow> cq_vector q = vector)
       [1..<unat (p_num_io_queues (n_cfg n)) + 1]"

definition nvme_vector_unmask :: "femu \<Rightarrow> u32 \<Rightarrow> int \<times> femu" where
  "nvme_vector_unmask n vector =
     (case cq_of_vector n vector of
        None \<Rightarrow> (0, n)
      | Some i \<Rightarrow>
          let (ret, n) = kvm_irqchip_add_irqfd_notifier_gsi n i (cq_virq (the (lookup (n_cq n) i)))
          in (if ret < 0 then ret else 0, n))"

text \<open>\<open>nvme_vector_mask\<close> reaches a stub that aborts, when a queue has the vector.\<close>

definition nvme_vector_mask :: "femu \<Rightarrow> u32 \<Rightarrow> femu option" where
  "nvme_vector_mask n vector = (if cq_of_vector n vector = None then Some n else None)"

text \<open>\<open>msix_is_masked\<close> of the wrapper is always false, so the poll function skips every queue.\<close>

definition nvme_vector_poll :: "femu \<Rightarrow> u32 \<Rightarrow> u32 \<Rightarrow> femu" where
  "nvme_vector_poll n vector_start vector_end = n"

definition msix_set_vector_notifiers :: "femu \<Rightarrow> femu" where
  "msix_set_vector_notifiers n =
     (let nvecs = irq_msix_nvecs (n_irq n);
          n = (if sb_msix_en (n_irq n)
               then fold (\<lambda>i n. snd (nvme_vector_unmask n (of_nat i))) [0..<unat nvecs] n else n)
      in nvme_vector_poll n 0 (ucast nvecs))"

definition nvme_setup_virq :: "femu \<Rightarrow> nat \<Rightarrow> (int \<times> femu) option" where
  "nvme_setup_virq n cqid =
     (case lookup (n_cq n) cqid of
        None \<Rightarrow> None
      | Some q \<Rightarrow>
          if cq_irq_enabled q \<noteq> 0 then
            (case nvme_add_kvm_msi_virq n cqid of
               None \<Rightarrow> None
             | Some (ret, n) \<Rightarrow>
                 if ret < 0 then Some (- 1, n)
                 else if n_vector_poll_started n then Some (0, n)
                 else Some (0, msix_set_vector_notifiers (n\<lparr>n_vector_poll_started := True\<rparr>)))
          else Some (0, n))"

text \<open>Clearing stops at the first missing queue; for a queue with interrupts it reaches
  \<open>kvm_irqchip_release_virq\<close>, a stub that aborts.\<close>

primrec clear_guest_loop :: "nat list \<Rightarrow> femu \<Rightarrow> femu option" where
  "clear_guest_loop [] n = Some n"
| "clear_guest_loop (i # is) n =
     (case lookup (n_cq n) i of
        None \<Rightarrow> Some n
      | Some q \<Rightarrow> if cq_irq_enabled q \<noteq> 0 then None else clear_guest_loop is n)"

definition nvme_clear_virq :: "femu \<Rightarrow> femu option" where
  "nvme_clear_virq n =
     map_option (\<lambda>n. n\<lparr>n_vector_poll_started := False\<rparr>)
       (clear_guest_loop [1..<unat (p_num_io_queues (n_cfg n)) + 1] n)"

end
