(* ===== verification/Nvme_Io.thy ===== *)
theory Nvme_Io
  imports Virq
begin

text \<open>
  The I/O path: \<open>femu/nvme-io.c\<close> with the device modes of \<open>femu/bbssd/bb.c\<close> and \<open>femu/nossd/nop.c\<close>, and
  the thread of the flash translation layer (\<open>ftl_thread\<close> of \<open>femu/bbssd/ftl.c\<close>).  A poller fetches
  commands from the submission queues, executes them, and passes the requests over the ring \<open>n_to_ftl\<close>; the
  FTL thread adds the flash latency and passes them on over \<open>n_to_poller\<close>; the poller holds them in the
  priority queue \<open>n_pq\<close> until they expire and posts the completions.  \<open>None\<close> stands for \<open>abort()\<close>, a failed
  assertion, a \<open>NULL\<close> access or a loop that never ends.
\<close>

subsection \<open>Commands and completions in memory\<close>

definition le16_of_bytes :: "u8 list \<Rightarrow> u16" where
  "le16_of_bytes bs = foldr (\<lambda>b acc. push_bit 8 acc OR ucast b) (take 2 bs) 0"

definition cmd_of_bytes :: "u8 list \<Rightarrow> NvmeCmd" where
  "cmd_of_bytes bs =
     \<lparr>cmd_opcode = bs ! 0, cmd_fuse = ucast (bs ! 1), cmd_psdt = ucast (drop_bit 6 (bs ! 1)),
      cmd_cid = le16_of_bytes (drop 2 bs), cmd_nsid = le32_of_bytes (drop 4 bs),
      cmd_res2 = le64_of_bytes (drop 8 bs), cmd_mptr = le64_of_bytes (drop 16 bs),
      cmd_prp1 = le64_of_bytes (drop 24 bs), cmd_prp2 = le64_of_bytes (drop 32 bs),
      cmd_cdw10 = le32_of_bytes (drop 40 bs), cmd_cdw11 = le32_of_bytes (drop 44 bs),
      cmd_cdw12 = le32_of_bytes (drop 48 bs), cmd_cdw13 = le32_of_bytes (drop 52 bs),
      cmd_cdw14 = le32_of_bytes (drop 56 bs), cmd_cdw15 = le32_of_bytes (drop 60 bs)\<rparr>"

definition cqe_bytes :: "NvmeCqe \<Rightarrow> u8 list" where
  "cqe_bytes c =
     le_bytes 8 (cqe_res64 c) @ le_bytes 2 (ucast (cqe_sq_head c)) @ le_bytes 2 (ucast (cqe_sq_id c)) @
     le_bytes 2 (ucast (cqe_cid c)) @ le_bytes 2 (ucast (cqe_status c))"

text \<open>The address of a queue entry; a discontiguous queue passes the arguments of \<open>nvme_discontig\<close> as the
  code does.\<close>

definition queue_entry_addr ::
  "femu \<Rightarrow> u8 \<Rightarrow> u64 \<Rightarrow> u64 list option \<Rightarrow> u32 \<Rightarrow> u16 \<Rightarrow> u64 option" where
  "queue_entry_addr n contig dma_addr prps idx entry_size =
     (if contig \<noteq> 0 then Some (dma_addr + ucast (idx * ucast entry_size))
      else (case prps of
              None \<Rightarrow> None
            | Some l \<Rightarrow> nvme_discontig l (ucast idx) (n_page_size n) entry_size))"

definition sq_entry_addr :: "femu \<Rightarrow> NvmeSQueue \<Rightarrow> u64 option" where
  "sq_entry_addr n q =
     queue_entry_addr n (sq_phys_contig q) (sq_dma_addr q) (sq_prp_list q) (sq_head q) (n_sqe_size n)"

definition cq_entry_addr :: "femu \<Rightarrow> NvmeCQueue \<Rightarrow> u64 option" where
  "cq_entry_addr n q =
     queue_entry_addr n (cq_phys_contig q) (cq_dma_addr q) (cq_prp_list q) (cq_tail q) (n_cqe_size n)"

subsection \<open>Requests\<close>

definition req_at :: "sq_table \<Rightarrow> req_id \<Rightarrow> NvmeRequest option" where
  "req_at tab r =
     (case lookup tab (fst r) of
        None \<Rightarrow> None
      | Some q \<Rightarrow> if snd r < length (sq_io_req q) then Some (sq_io_req q ! snd r) else None)"

definition set_req :: "sq_table \<Rightarrow> req_id \<Rightarrow> NvmeRequest \<Rightarrow> sq_table" where
  "set_req tab r x =
     (case lookup tab (fst r) of
        None \<Rightarrow> tab
      | Some q \<Rightarrow> tab[fst r := Some (q\<lparr>sq_io_req := (sq_io_req q)[snd r := x]\<rparr>)])"

definition upd_req :: "femu \<Rightarrow> req_id \<Rightarrow> NvmeRequest \<Rightarrow> femu" where
  "upd_req n r x = n\<lparr>n_sq := set_req (n_sq n) r x\<rparr>"

text \<open>The callbacks of the completion queue by expire time.  Total: a freed request reads as 0.\<close>

definition cmp_pri :: "u64 \<Rightarrow> u64 \<Rightarrow> bool" where "cmp_pri nxt cur \<longleftrightarrow> nxt > cur"

definition get_pri :: "sq_table \<Rightarrow> req_id \<Rightarrow> u64" where
  "get_pri tab r = (case req_at tab r of None \<Rightarrow> 0 | Some x \<Rightarrow> req_expire_time x)"

definition set_pri :: "sq_table \<Rightarrow> req_id \<Rightarrow> u64 \<Rightarrow> sq_table" where
  "set_pri tab r pri = (case req_at tab r of None \<Rightarrow> tab | Some x \<Rightarrow> set_req tab r (x\<lparr>req_expire_time := pri\<rparr>))"

definition get_pos :: "sq_table \<Rightarrow> req_id \<Rightarrow> nat" where
  "get_pos tab r = (case req_at tab r of None \<Rightarrow> 0 | Some x \<Rightarrow> req_pos x)"

definition set_pos :: "sq_table \<Rightarrow> req_id \<Rightarrow> nat \<Rightarrow> sq_table" where
  "set_pos tab r pos = (case req_at tab r of None \<Rightarrow> tab | Some x \<Rightarrow> set_req tab r (x\<lparr>req_pos := pos\<rparr>))"

definition req_ops :: "(sq_table, req_id) pq_ops" where
  "req_ops = \<lparr>cmppri = cmp_pri, getpri = get_pri, setpri = set_pri, getpos = get_pos, setpos = set_pos\<rparr>"

subsection \<open>Reads and writes\<close>

definition ns_lbaf :: "NvmeNamespace \<Rightarrow> NvmeLBAF" where
  "ns_lbaf ns = idns_lbaf (ns_id_ns ns) ! unat (NVME_ID_NS_FLBAS_INDEX (idns_flbas (ns_id_ns ns)))"

text \<open>The result of a command handler: its status, the request, the controller.\<close>

type_synonym io_result = "(u16 \<times> NvmeRequest \<times> femu) option"

definition with_req :: "NvmeRequest \<Rightarrow> (u16 \<times> femu) option \<Rightarrow> io_result" where
  "with_req req r = map_option (\<lambda>(status, n). (status, req, n)) r"

text \<open>PRPs in the controller memory buffer need I/O vectors, which are stubs that abort.\<close>

definition nvme_rw :: "femu \<Rightarrow> NvmeNamespace \<Rightarrow> NvmeRequest \<Rightarrow> io_result" where
  "nvme_rw n ns req0 =
     (let rw = rw_of_cmd (req_cmd req0);
          ctrl = rw_control rw;
          nlb = ucast (rw_nlb rw) + 1 :: u32;
          slba = rw_slba rw;
          ms = lbaf_ms (ns_lbaf ns);
          data_shift = unat (lbaf_lbads (ns_lbaf ns));
          data_size = push_bit data_shift (ucast nlb) :: u64;
          data_offset = push_bit data_shift slba;
          meta_size = ucast (nlb * ucast ms) :: u64;
          elba = slba + ucast nlb;
          req = req0\<lparr>req_is_write := (if rw_opcode rw = io_opcode NVME_CMD_WRITE then 1 else 0)\<rparr>
      in do {
        (err, n) \<leftarrow> femu_nvme_rw_check_req n ns req slba elba nlb ctrl data_size meta_size;
        if err \<noteq> 0 then Some (err, req, n)
        else
          (case nvme_map_prp (n_dma n) (n_host n) (rw_prp1 rw) (rw_prp2 rw) (ucast data_size) of
             (status, cmb, sg) \<Rightarrow>
               if status \<noteq> 0 then
                 with_req (req\<lparr>req_qsg := []\<rparr>)
                   (refuse n req NVME_INVALID_FIELD OFFSET_PRP1 0 (ns_id ns) (dnr NVME_INVALID_FIELD))
               else if cmb then None
               else if unat (push_bit data_shift nlb) \<noteq> sg_bytes sg then None
               else
                 let req = req\<lparr>req_qsg := sg, req_slba := slba, req_status := sc NVME_SUCCESS, req_nlb := ucast nlb\<rparr>
                 in do {
                   (be, h) \<leftarrow> backend_rw (n_mbe n) (n_host n) sg [data_offset] (req_is_write req \<noteq> 0);
                   Some (sc NVME_SUCCESS, req, n\<lparr>n_mbe := be, n_host := h\<rparr>)
                 })
      })"

definition upd_ns :: "femu \<Rightarrow> nat \<Rightarrow> (NvmeNamespace \<Rightarrow> NvmeNamespace) \<Rightarrow> femu" where
  "upd_ns n i f = n\<lparr>n_namespaces := (n_namespaces n)[i := f (n_namespaces n ! i)]\<rparr>"

definition NVME_DSMGMT_AD :: u32 where "NVME_DSMGMT_AD = 4"

definition dsm_range :: "u8 list \<Rightarrow> nat \<Rightarrow> NvmeDsmRange" where
  "dsm_range bs i =
     (let b = drop (16 * i) bs
      in \<lparr>dsmr_cattr = le32_of_bytes b, dsmr_nlb = le32_of_bytes (drop 4 b), dsmr_slba = le64_of_bytes (drop 8 b)\<rparr>)"

primrec dsm_loop :: "NvmeDsmRange list \<Rightarrow> femu \<Rightarrow> nat \<Rightarrow> NvmeRequest \<Rightarrow> (u16 \<times> femu) option" where
  "dsm_loop [] n i req = Some (sc NVME_SUCCESS, n)"
| "dsm_loop (r # rs) n i req =
     (let ns = n_namespaces n ! i; slba = dsmr_slba r; nlb = dsmr_nlb r
      in if idns_nsze (ns_id_ns ns) < slba + ucast nlb then
           refuse n req NVME_LBA_RANGE OFFSET_CDW10 (slba + ucast nlb) (ns_id ns) (dnr NVME_LBA_RANGE)
         else
           bitmap_clear (ns_util ns) (sint slba) (int (unat nlb)) \<bind> (\<lambda>u.
             dsm_loop rs (upd_ns n i (\<lambda>ns. ns\<lparr>ns_util := u\<rparr>)) i req))"

text \<open>\<open>junk\<close> is the content of the stack buffers before they are written.\<close>

definition nvme_dsm :: "(nat \<Rightarrow> u8) \<Rightarrow> femu \<Rightarrow> nat \<Rightarrow> NvmeRequest \<Rightarrow> io_result" where
  "nvme_dsm junk n i req =
     (let cmd = req_cmd req; ns = n_namespaces n ! i
      in if cmd_cdw11 cmd AND NVME_DSMGMT_AD \<noteq> 0 then
           let nr = unat (cmd_cdw10 cmd AND 0xff) + 1
           in do {
             (status, buf) \<leftarrow>
               dma_write_prp (n_dma n) (n_host n) (map junk [0..<16 * nr]) (cmd_prp1 cmd) (cmd_prp2 cmd);
             if status \<noteq> 0 then
               with_req req (refuse n req NVME_INVALID_FIELD OFFSET_PRP1 0 (ns_id ns) (dnr NVME_INVALID_FIELD))
             else
               with_req (req\<lparr>req_status := sc NVME_SUCCESS\<rparr>) (dsm_loop (map (dsm_range buf) [0..<nr]) n i req)
           }
         else Some (sc NVME_SUCCESS, req, n))"

text \<open>The comparison reads the guest's data into \<open>tmp[1]\<close> and compares it with the uninitialised \<open>tmp[0]\<close>.\<close>

primrec compare_loop :: "(nat \<Rightarrow> u8) \<Rightarrow> femu \<Rightarrow> sg_list \<Rightarrow> u16" where
  "compare_loop junk n [] = sc NVME_SUCCESS"
| "compare_loop junk n (e # sg) =
     (let len = unat (ucast (snd e) :: u32)
      in if map junk [0..<len] \<noteq> addr_read n (fst e) len then sc NVME_CMP_FAILURE else compare_loop junk n sg)"

definition nvme_compare :: "(nat \<Rightarrow> u8) \<Rightarrow> femu \<Rightarrow> nat \<Rightarrow> NvmeRequest \<Rightarrow> io_result" where
  "nvme_compare junk n i req =
     (let ns = n_namespaces n ! i;
          rw = rw_of_cmd (req_cmd req);
          nlb = ucast (rw_nlb rw) + 1 :: u32;
          slba = rw_slba rw;
          elba = slba + ucast nlb;
          data_shift = unat (lbaf_lbads (ns_lbaf ns));
          data_size = ucast (push_bit data_shift nlb) :: u64
      in if idns_nsze (ns_id_ns ns) < slba + ucast nlb then
           with_req req (refuse n req NVME_LBA_RANGE OFFSET_NLB elba (ns_id ns) (dnr NVME_LBA_RANGE))
         else if mdts_exceeded n data_size then
           with_req req (refuse n req NVME_INVALID_FIELD OFFSET_NLB (ucast nlb) (ns_id ns) (dnr NVME_INVALID_FIELD))
         else
           (case nvme_map_prp (n_dma n) (n_host n) (rw_prp1 rw) (rw_prp2 rw) (ucast data_size) of
              (status, cmb, sg) \<Rightarrow>
                if status \<noteq> 0 then
                  with_req (req\<lparr>req_qsg := []\<rparr>)
                    (refuse n req NVME_INVALID_FIELD OFFSET_PRP1 0 (ns_id ns) (dnr NVME_INVALID_FIELD))
                else if cmb then None
                else
                  find_next_bit (ns_uncorrectable ns) (unat elba) (unat slba) \<bind> (\<lambda>r.
                    let req = req\<lparr>req_qsg := sg\<rparr>
                    in if r < unat elba then Some (sc NVME_UNRECOVERED_READ, req, n)
                       else Some (compare_loop junk n sg, req, n))))"

definition nvme_flush :: "femu \<Rightarrow> u16" where "nvme_flush n = sc NVME_SUCCESS"

definition nvme_write_zeros :: "femu \<Rightarrow> nat \<Rightarrow> NvmeRequest \<Rightarrow> io_result" where
  "nvme_write_zeros n i req =
     (let ns = n_namespaces n ! i;
          rw = rw_of_cmd (req_cmd req);
          slba = rw_slba rw;
          nlb = ucast (rw_nlb rw) + 1 :: u32
      in if idns_nsze (ns_id_ns ns) < slba + ucast nlb then
           with_req req (refuse n req NVME_LBA_RANGE OFFSET_NLB (slba + ucast nlb) (ns_id ns) (dnr NVME_LBA_RANGE))
         else Some (sc NVME_SUCCESS, req, n))"

definition nvme_write_uncor :: "femu \<Rightarrow> nat \<Rightarrow> NvmeRequest \<Rightarrow> io_result" where
  "nvme_write_uncor n i req =
     (let ns = n_namespaces n ! i;
          rw = rw_of_cmd (req_cmd req);
          slba = rw_slba rw;
          nlb = ucast (rw_nlb rw) + 1 :: u32
      in if idns_nsze (ns_id_ns ns) < slba + ucast nlb then
           with_req req (refuse n req NVME_LBA_RANGE OFFSET_NLB (slba + ucast nlb) (ns_id ns) (dnr NVME_LBA_RANGE))
         else
           bitmap_set (ns_uncorrectable ns) (sint slba) (int (unat nlb)) \<bind> (\<lambda>u.
             Some (sc NVME_SUCCESS, req, upd_ns n i (\<lambda>ns. ns\<lparr>ns_uncorrectable := u\<rparr>))))"

subsection \<open>Device modes and dispatch\<close>

text \<open>Black-box and no-delay SSDs execute reads and writes alike.\<close>

definition bb_nvme_rw :: "femu \<Rightarrow> nat \<Rightarrow> NvmeRequest \<Rightarrow> io_result" where
  "bb_nvme_rw n i req = nvme_rw n (n_namespaces n ! i) req"

definition bb_io_cmd :: "femu \<Rightarrow> nat \<Rightarrow> NvmeRequest \<Rightarrow> io_result" where
  "bb_io_cmd n i req =
     (let op = cmd_opcode (req_cmd req)
      in if op = io_opcode NVME_CMD_READ \<or> op = io_opcode NVME_CMD_WRITE then bb_nvme_rw n i req
         else Some (dnr NVME_INVALID_OPCODE, req, n))"

definition nop_io_cmd :: "femu \<Rightarrow> nat \<Rightarrow> NvmeRequest \<Rightarrow> io_result" where
  "nop_io_cmd n i req =
     (let op = cmd_opcode (req_cmd req)
      in if op = io_opcode NVME_CMD_READ \<or> op = io_opcode NVME_CMD_WRITE
         then nvme_rw n (n_namespaces n ! i) req
         else Some (dnr NVME_INVALID_OPCODE, req, n))"

text \<open>The zoned handlers work on the part of the controller they read; the fields they share with the
  rest are copied in.\<close>

definition zns_view :: "femu \<Rightarrow> nat \<Rightarrow> zns_dev" where
  "zns_view n i =
     (let ns = n_namespaces n ! i
      in \<lparr>dev_zns = (n_zns n)\<lparr>z_page_size := n_page_size n, z_mdts := p_mdts (n_cfg n),
             z_err_rec := feat_err_rec (n_features n), zns_lbads := lbaf_lbads (ns_lbaf ns),
             zns_nsze := idns_nsze (ns_id_ns ns)\<rparr>,
          dev_dma = n_dma n, dev_host = n_host n, dev_be = n_mbe n\<rparr>)"

definition zns_put :: "zns_dev \<Rightarrow> femu \<Rightarrow> femu" where
  "zns_put d n = n\<lparr>n_zns := dev_zns d, n_dma := dev_dma d, n_host := dev_host d, n_mbe := dev_be d\<rparr>"

definition zns_mode_io_cmd :: "femu \<Rightarrow> nat \<Rightarrow> NvmeRequest \<Rightarrow> io_result" where
  "zns_mode_io_cmd n i req = map_option (\<lambda>(status, req, d). (status, req, zns_put d n)) (zns_io_cmd (zns_view n i) req)"

text \<open>\<open>n->ext_ops.io_cmd\<close> by mode; the open-channel modes are the parameter \<open>oc\<close>.\<close>

definition ext_io_cmd :: "(femu \<Rightarrow> nat \<Rightarrow> NvmeRequest \<Rightarrow> io_result) \<Rightarrow> femu \<Rightarrow> nat \<Rightarrow> NvmeRequest \<Rightarrow> io_result" where
  "ext_io_cmd oc n i req =
     (if OCSSD n then oc n i req
      else if NOSSD n then nop_io_cmd n i req
      else if BBSSD n then bb_io_cmd n i req
      else if ZNSSD n then zns_mode_io_cmd n i req
      else Some (dnr NVME_INVALID_OPCODE, req, n))"

definition nvme_io_cmd ::
  "(nat \<Rightarrow> u8) \<Rightarrow> (femu \<Rightarrow> nat \<Rightarrow> NvmeRequest \<Rightarrow> io_result) \<Rightarrow> femu \<Rightarrow> NvmeRequest \<Rightarrow> io_result" where
  "nvme_io_cmd junk oc n req =
     (let cmd = req_cmd req;
          nsid = cmd_nsid cmd;
          op = cmd_opcode cmd;
          i = unat nsid - 1;
          when = (\<lambda>oncs handler. if oncs_bit oncs AND p_oncs (n_cfg n) \<noteq> 0 then handler
                    else Some (dnr NVME_INVALID_OPCODE, req, n))
      in if nsid = 0 \<or> p_num_namespaces (n_cfg n) < nsid then Some (dnr NVME_INVALID_NSID, req, n)
         else if length (n_namespaces n) \<le> i then None
         else if op = io_opcode NVME_CMD_FLUSH then
           (if ic_vwc (n_id_ctrl n) = 0 \<or> feat_volatile_wc (n_features n) = 0 then Some (sc NVME_SUCCESS, req, n)
            else Some (nvme_flush n, req, n))
         else if op = io_opcode NVME_CMD_DSM then when NVME_ONCS_DSM (nvme_dsm junk n i req)
         else if op = io_opcode NVME_CMD_COMPARE then when NVME_ONCS_COMPARE (nvme_compare junk n i req)
         else if op = io_opcode NVME_CMD_WRITE_ZEROES then when NVME_ONCS_WRITE_ZEROS (nvme_write_zeros n i req)
         else if op = io_opcode NVME_CMD_WRITE_UNCOR then when NVME_ONCS_WRITE_UNCORR (nvme_write_uncor n i req)
         else ext_io_cmd oc n i req)"

subsection \<open>Fetching commands\<close>

definition nvme_update_sq_eventidx :: "femu \<Rightarrow> NvmeSQueue \<Rightarrow> femu" where
  "nvme_update_sq_eventidx n q =
     (if sq_eventidx_addr q \<noteq> 0 then addr_write n (sq_eventidx_addr q) (le_bytes 4 (ucast (sq_tail q))) else n)"

definition ring_at :: "req_id rte_ring list \<Rightarrow> nat \<Rightarrow> req_id rte_ring option" where
  "ring_at rings i = (if i < length rings then Some (rings ! i) else None)"

text \<open>\<open>femu_ring_enqueue(n->to_ftl[p], &req, 1)\<close>; a full ring is reported and the request dropped.\<close>

definition send_to_ftl :: "femu \<Rightarrow> nat \<Rightarrow> req_id \<Rightarrow> femu option" where
  "send_to_ftl n p r =
     do {
       ring \<leftarrow> ring_at (n_to_ftl n) p;
       (sent, ring) \<leftarrow> ring_send ring r;
       Some (n\<lparr>n_to_ftl := (n_to_ftl n)[p := ring]\<rparr>)
     }"

definition fetched_req :: "NvmeRequest \<Rightarrow> NvmeCmd \<Rightarrow> u64 \<Rightarrow> NvmeRequest" where
  "fetched_req req cmd now =
     req\<lparr>req_cqe := zero_cqe\<lparr>cqe_cid := cmd_cid cmd\<rparr>, req_expire_time := now, req_stime := now,
         req_cmd_opcode := cmd_opcode cmd, req_cmd := cmd\<rparr>"

text \<open>One turn of the fetch loop on a non-empty queue: take the next entry and the first free request
  \<open>r\<close>, execute, and hand a successful request to the FTL thread.\<close>

definition process_one_io ::
  "(nat \<Rightarrow> u8) \<Rightarrow> (femu \<Rightarrow> nat \<Rightarrow> NvmeRequest \<Rightarrow> io_result) \<Rightarrow> (nat \<Rightarrow> u64) \<Rightarrow> nat \<Rightarrow> nat \<Rightarrow> nat \<Rightarrow> nat list \<Rightarrow>
   femu \<Rightarrow> femu option" where
  "process_one_io junk oc rt i p r rest n =
     do {
       q \<leftarrow> lookup (n_sq n) i;
       addr \<leftarrow> sq_entry_addr n q;
       let cmd = cmd_of_bytes (addr_read n addr 64);
       q \<leftarrow> nvme_inc_sq_head q;
       let n = upd_sq n i (q\<lparr>sq_req_list := rest\<rparr>);
       req \<leftarrow> req_at (n_sq n) (i, r);
       let req = fetched_req req cmd (rt (n_clk n));
       let n = (upd_req n (i, r) req)\<lparr>n_clk := n_clk n + 1\<rparr>;
       (status, req, n) \<leftarrow> nvme_io_cmd junk oc n req;
       if status = sc NVME_SUCCESS
       then send_to_ftl (upd_req n (i, r) (req\<lparr>req_status := status\<rparr>)) p (i, r)
       else Some (upd_req n (i, r) req)
     }"

text \<open>The loop, over the list of free requests: with none left, \<open>QTAILQ_FIRST\<close> is \<open>NULL\<close> and the next turn
  faults.\<close>

primrec process_sq_loop ::
  "(nat \<Rightarrow> u8) \<Rightarrow> (femu \<Rightarrow> nat \<Rightarrow> NvmeRequest \<Rightarrow> io_result) \<Rightarrow> (nat \<Rightarrow> u64) \<Rightarrow> nat \<Rightarrow> nat \<Rightarrow> nat list \<Rightarrow> nat \<Rightarrow>
   femu \<Rightarrow> (nat \<times> femu) option" where
  "process_sq_loop junk oc rt i p [] processed n =
     lookup (n_sq n) i \<bind> (\<lambda>q. if nvme_sq_empty q then Some (processed, n) else None)"
| "process_sq_loop junk oc rt i p (r # rest) processed n =
     lookup (n_sq n) i \<bind> (\<lambda>q.
       if nvme_sq_empty q then Some (processed, n)
       else process_one_io junk oc rt i p r rest n \<bind> process_sq_loop junk oc rt i p rest (processed + 1))"

definition nvme_process_sq_io ::
  "(nat \<Rightarrow> u8) \<Rightarrow> (femu \<Rightarrow> nat \<Rightarrow> NvmeRequest \<Rightarrow> io_result) \<Rightarrow> (nat \<Rightarrow> u64) \<Rightarrow> nat \<Rightarrow> nat \<Rightarrow> femu \<Rightarrow> femu option" where
  "nvme_process_sq_io junk oc rt i p n =
     do {
       q \<leftarrow> lookup (n_sq n) i;
       (processed, n) \<leftarrow> process_sq_loop junk oc rt i p (sq_req_list q) 0 (upd_sq n i (nvme_update_sq_tail n q));
       q \<leftarrow> lookup (n_sq n) i;
       let n = nvme_update_sq_eventidx n q;
       Some (upd_sq n i (q\<lparr>sq_completed := sq_completed q + of_nat processed\<rparr>))
     }"

subsection \<open>Completions\<close>

definition nvme_post_cqe :: "nat \<Rightarrow> req_id \<Rightarrow> femu \<Rightarrow> femu option" where
  "nvme_post_cqe c r n =
     do {
       cq \<leftarrow> lookup (n_cq n) c;
       req \<leftarrow> req_at (n_sq n) r;
       sq \<leftarrow> lookup (n_sq n) (fst r);
       let cqe = (req_cqe req)\<lparr>cqe_status := push_bit 1 (req_status req) OR ucast (cq_phase cq),
                               cqe_sq_id := sq_sqid sq, cqe_sq_head := ucast (sq_head sq)\<rparr>;
       let n = upd_req n r (req\<lparr>req_cqe := cqe\<rparr>);
       addr \<leftarrow> cq_entry_addr n cq;
       let n = addr_write n addr (cqe_bytes cqe);
       Some (upd_cq n c (nvme_inc_cq_tail cq))
     }"

text \<open>Moving the ring to the priority queue: \<open>k\<close> is the number of requests in the ring.  The ring
  elements are pointers; \<open>null\<close> is any name for \<open>NULL\<close>.  The queue may need memory (\<open>realloc_ok\<close>).\<close>

definition null_req :: req_id where "null_req = (0, 0)"

primrec drain_ring :: "nat \<Rightarrow> bool \<Rightarrow> nat \<Rightarrow> femu \<Rightarrow> req_id rte_ring \<Rightarrow> (req_id rte_ring \<times> femu) option" where
  "drain_ring 0 realloc_ok p n ring = Some (ring, n)"
| "drain_ring (Suc k) realloc_ok p n ring =
     (if length (n_pq n) \<le> p then None
      else
        ring_receive null_req ring \<bind> (\<lambda>(got, ring).
          case got of
            None \<Rightarrow> None
          | Some r \<Rightarrow>
              (case pqueue_insert realloc_ok null_req (n_sq n) (n_pq n ! p) r of
                 (_, tab, pq) \<Rightarrow> drain_ring k realloc_ok p (n\<lparr>n_sq := tab, n_pq := (n_pq n)[p := pq]\<rparr>) ring)))"

text \<open>Posting what has expired: \<open>k\<close> is the number of requests in the queue.  The completion queue is the
  one with the number of the \<^emph>\<open>submission\<close> queue; if it is inactive, the loop never ends.\<close>

primrec complete_loop :: "nat \<Rightarrow> (nat \<Rightarrow> u64) \<Rightarrow> nat \<Rightarrow> nat \<Rightarrow> femu \<Rightarrow> (nat \<times> femu) option" where
  "complete_loop 0 rt p processed n = Some (processed, n)"
| "complete_loop (Suc k) rt p processed n =
     (if length (n_pq n) \<le> p then None
      else
        (case pqueue_peek (n_pq n ! p) of
           None \<Rightarrow> Some (processed, n)
         | Some r \<Rightarrow>
             let now = rt (n_clk n);
                 n = n\<lparr>n_clk := n_clk n + 1\<rparr>
             in do {
               req \<leftarrow> req_at (n_sq n) r;
               if now < req_expire_time req then Some (processed, n)
               else do {
                 cq \<leftarrow> lookup (n_cq n) (fst r);
                 if \<not> cq_is_active cq then None
                 else do {
                   n \<leftarrow> nvme_post_cqe (fst r) r n;
                   sq \<leftarrow> lookup (n_sq n) (fst r);
                   let n = upd_sq n (fst r) (sq\<lparr>sq_req_list := sq_req_list sq @ [snd r]\<rparr>);
                   (case pqueue_pop (n_sq n) (n_pq n ! p) of
                      (_, tab, pq) \<Rightarrow>
                        let late = (20000 \<le> now - req_expire_time req)
                        in complete_loop k rt p (processed + 1)
                             (n\<lparr>n_sq := tab, n_pq := (n_pq n)[p := pq], n_nr_tt_ios := n_nr_tt_ios n + 1,
                                n_nr_tt_late_ios := n_nr_tt_late_ios n + (if late then 1 else 0),
                                n_should_isr := (n_should_isr n)[fst r := True]\<rparr>))
                 }
               }
             }))"

primrec notify_loop :: "nat list \<Rightarrow> femu \<Rightarrow> femu option" where
  "notify_loop [] n = Some n"
| "notify_loop (i # is) n =
     (if length (n_should_isr n) \<le> i then None
      else if n_should_isr n ! i
      then nvme_isr_notify_io n i \<bind> (\<lambda>n. notify_loop is (n\<lparr>n_should_isr := (n_should_isr n)[i := False]\<rparr>))
      else notify_loop is n)"

definition nvme_process_cq_cpl :: "bool \<Rightarrow> (nat \<Rightarrow> u64) \<Rightarrow> nat \<Rightarrow> femu \<Rightarrow> femu option" where
  "nvme_process_cq_cpl realloc_ok rt p n =
     do {
       ring \<leftarrow> ring_at (if BBSSD n then n_to_poller n else n_to_ftl n) p;
       (ring, n) \<leftarrow> drain_ring (femu_ring_count ring) realloc_ok p n ring;
       let n = (if BBSSD n then n\<lparr>n_to_poller := (n_to_poller n)[p := ring]\<rparr>
                else n\<lparr>n_to_ftl := (n_to_ftl n)[p := ring]\<rparr>);
       if length (n_pq n) \<le> p then None
       else do {
         (processed, n) \<leftarrow> complete_loop (pqueue_size (n_pq n ! p)) rt p 0 n;
         if processed = 0 then Some n
         else if p_multipoller_enabled (n_cfg n) = 1 then nvme_isr_notify_io n p
         else notify_loop [1..<unat (p_num_io_queues (n_cfg n)) + 1] n
       }
     }"

text \<open>One turn of a poller.  With one poller (\<open>multipoller_enabled\<close> 0) it serves every queue.\<close>

definition queues_active :: "femu \<Rightarrow> nat \<Rightarrow> bool" where
  "queues_active n i \<longleftrightarrow>
     (case (lookup (n_sq n) i, lookup (n_cq n) i) of
        (Some q, Some c) \<Rightarrow> sq_is_active q \<and> cq_is_active c
      | _ \<Rightarrow> False)"

definition serve_queue ::
  "(nat \<Rightarrow> u8) \<Rightarrow> (femu \<Rightarrow> nat \<Rightarrow> NvmeRequest \<Rightarrow> io_result) \<Rightarrow> (nat \<Rightarrow> u64) \<Rightarrow> nat \<Rightarrow> nat \<Rightarrow> femu \<Rightarrow> femu option" where
  "serve_queue junk oc rt p i n = (if queues_active n i then nvme_process_sq_io junk oc rt i p n else Some n)"

primrec serve_queues ::
  "(nat \<Rightarrow> u8) \<Rightarrow> (femu \<Rightarrow> nat \<Rightarrow> NvmeRequest \<Rightarrow> io_result) \<Rightarrow> (nat \<Rightarrow> u64) \<Rightarrow> nat \<Rightarrow> nat list \<Rightarrow> femu \<Rightarrow> femu option" where
  "serve_queues junk oc rt p [] n = Some n"
| "serve_queues junk oc rt p (i # is) n = serve_queue junk oc rt p i n \<bind> serve_queues junk oc rt p is"

definition nvme_poller ::
  "(nat \<Rightarrow> u8) \<Rightarrow> (femu \<Rightarrow> nat \<Rightarrow> NvmeRequest \<Rightarrow> io_result) \<Rightarrow> bool \<Rightarrow> (nat \<Rightarrow> u64) \<Rightarrow> nat \<Rightarrow> femu \<Rightarrow> femu option" where
  "nvme_poller junk oc realloc_ok rt p n =
     (if \<not> n_dataplane_started n then Some n
      else
        serve_queues junk oc rt p
          (if p_multipoller_enabled (n_cfg n) = 1 then [p] else [1..<unat (p_num_io_queues (n_cfg n)) + 1]) n
        \<bind> nvme_process_cq_cpl realloc_ok rt p)"

text \<open>The completion routine of the deletion of a queue.  It walks \<open>req_list\<close> of the completion queue,
  which it does not shorten and which no code fills; it stops at a full queue or a request not yet
  due.\<close>

primrec post_cqes_loop :: "(nat \<Rightarrow> u64) \<Rightarrow> nat \<Rightarrow> req_id list \<Rightarrow> nat \<Rightarrow> femu \<Rightarrow> (nat \<times> femu) option" where
  "post_cqes_loop rt c [] processed n = Some (processed, n)"
| "post_cqes_loop rt c (r # rs) processed n =
     do {
       cq \<leftarrow> lookup (n_cq n) c;
       (full, cq) \<leftarrow> nvme_cq_full n cq;
       let n = upd_cq n c cq;
       if full then Some (processed, n)
       else do {
         let cur_time = rt (n_clk n);
         let n = n\<lparr>n_clk := n_clk n + 1\<rparr>;
         req \<leftarrow> req_at (n_sq n) r;
         if cq_cqid cq \<noteq> 0 \<and> cur_time <s req_expire_time req then Some (processed, n)
         else nvme_post_cqe c r n \<bind> post_cqes_loop rt c rs (processed + 1)
       }
     }"

definition nvme_post_cqes_io :: "(nat \<Rightarrow> u64) \<Rightarrow> nat \<Rightarrow> femu \<Rightarrow> femu option" where
  "nvme_post_cqes_io rt c n =
     do {
       cq \<leftarrow> lookup (n_cq n) c;
       (processed, n) \<leftarrow> post_cqes_loop rt c (cq_req_list cq) 0 n;
       if 0 < processed then nvme_isr_notify_io n c else Some n
     }"

subsection \<open>Starting the pollers\<close>

definition FEMU_MAX_INF_REQS :: nat where "FEMU_MAX_INF_REQS = 65536"

text \<open>\<open>alloc_ok\<close>: the allocations succeed; otherwise the code aborts.  Slot 0 of the arrays is not used.\<close>

definition new_ring :: "bool \<Rightarrow> req_id rte_ring option" where
  "new_ring alloc_ok = femu_ring_create alloc_ok null_req FEMU_RING_TYPE_MP_SC (of_nat FEMU_MAX_INF_REQS)"

definition nvme_create_poller :: "bool \<Rightarrow> femu \<Rightarrow> femu option" where
  "nvme_create_poller alloc_ok n =
     (let nq = unat (p_num_io_queues (n_cfg n));
          np = (if p_multipoller_enabled (n_cfg n) \<noteq> 0 then nq else 1)
      in do {
        ring \<leftarrow> new_ring alloc_ok;
        pq \<leftarrow> pqueue_init alloc_ok alloc_ok null_req FEMU_MAX_INF_REQS req_ops;
        if \<not> rte_ring_empty ring then None
        else Some (n\<lparr>n_should_isr := replicate (nq + 1) False, n_num_poller := of_nat np,
                     n_to_ftl := replicate (np + 1) ring, n_to_poller := replicate (np + 1) ring,
                     n_pq := replicate (np + 1) pq\<rparr>)
      })"

subsection \<open>The thread of the flash translation layer\<close>

text \<open>The latency of one request; the flag tells that \<open>lat\<close> is kept from the previous request, which
  happens for every opcode but read, write and DSM.\<close>

definition ftl_latency :: "nat \<Rightarrow> (nat \<Rightarrow> u64) \<Rightarrow> ssd \<Rightarrow> NvmeRequest \<Rightarrow> u64 \<Rightarrow> ftl_fault + (ssd \<times> u64)" where
  "ftl_latency fuel rt s req lat =
     (let op = cmd_opcode (req_cmd req)
      in if op = io_opcode NVME_CMD_WRITE then ssd_write fuel rt s req
         else if op = io_opcode NVME_CMD_READ then ssd_read rt s req
         else if op = io_opcode NVME_CMD_DSM then Inr (s, 0)
         else Inr (s, lat))"

text \<open>One turn of the inner loop of \<open>ftl_thread\<close> for poller \<open>p\<close>.  \<open>lat\<close> is the thread's variable, \<open>rt\<close> its clock
  readings.\<close>

definition ftl_step :: "nat \<Rightarrow> (nat \<Rightarrow> u64) \<Rightarrow> nat \<Rightarrow> u64 \<times> femu \<Rightarrow> (u64 \<times> femu) option" where
  "ftl_step fuel rt p st =
     (case st of (lat, n) \<Rightarrow> do {
        s \<leftarrow> n_ssd n;
        ring \<leftarrow> ring_at (n_to_ftl n) p;
        if femu_ring_count ring = 0 then Some (lat, n)
        else do {
          (got, ring) \<leftarrow> ring_receive null_req ring;
          r \<leftarrow> got;
          let n = n\<lparr>n_to_ftl := (n_to_ftl n)[p := ring]\<rparr>;
          req \<leftarrow> req_at (n_sq n) r;
          (case ftl_latency fuel rt s req lat of
             Inl e \<Rightarrow> None
           | Inr (s, lat) \<Rightarrow> do {
               let n = upd_req n r (req\<lparr>req_reqlat := lat, req_expire_time := req_expire_time req + lat\<rparr>);
               out \<leftarrow> ring_at (n_to_poller n) p;
               (sent, out) \<leftarrow> ring_send out r;
               s \<leftarrow> (if should_gc s then map_option snd (do_gc rt s False) else Some s);
               Some (lat, n\<lparr>n_to_poller := (n_to_poller n)[p := out], n_ssd := Some s\<rparr>)
             })
        }
      })"

primrec ftl_round :: "nat \<Rightarrow> (nat \<Rightarrow> u64) \<Rightarrow> nat list \<Rightarrow> u64 \<times> femu \<Rightarrow> (u64 \<times> femu) option" where
  "ftl_round fuel rt [] st = Some st"
| "ftl_round fuel rt (p # ps) st = ftl_step fuel rt p st \<bind> ftl_round fuel rt ps"

definition ftl_thread :: "nat \<Rightarrow> (nat \<Rightarrow> u64) \<Rightarrow> u64 \<times> femu \<Rightarrow> (u64 \<times> femu) option" where
  "ftl_thread fuel rt st =
     (if n_dataplane_started (snd st)
      then ftl_round fuel rt [1..<unat (n_num_poller (snd st)) + 1] st else Some st)"

end
