(* ===== verification/Nvme_Io_Inv.thy ===== *)
theory Nvme_Io_Inv
  imports Nvme_Io
begin

text \<open>
  Where requests are: every request of a submission queue is free, in a ring, or in a priority queue,
  and never in two of these places.  The steps of the poller and of the FTL thread keep this, and with
  it the order of the priority queues, whose nodes are the requests themselves.
\<close>

subsection \<open>Requests in the queue table\<close>

lemma lookup_update: "lookup (tab[i := Some q]) j = (if i = j \<and> i < length tab then Some q else lookup tab j)"
  by (auto simp: lookup_def)

lemma lookup_less: "lookup tab i = Some q \<Longrightarrow> i < length tab"
  by (auto simp: lookup_def split: if_splits)

lemma lookup_set_req:
  "lookup (set_req tab r x) i =
   (if i = fst r then map_option (\<lambda>q. q\<lparr>sq_io_req := (sq_io_req q)[snd r := x]\<rparr>) (lookup tab i) else lookup tab i)"
  by (auto simp: set_req_def lookup_update split: option.split dest: lookup_less)

lemma length_set_req [simp]: "length (set_req tab r x) = length tab"
  by (auto simp: set_req_def split: option.split)

lemma req_at_set_req:
  "req_at (set_req tab r x) r' = (if r' = r \<and> req_at tab r \<noteq> None then Some x else req_at tab r')"
  by (cases r; cases r') (auto simp: req_at_def lookup_set_req nth_list_update split: option.split)

lemma req_at_cong:
  assumes "\<And>q. lookup tab (fst r) = Some q \<Longrightarrow> \<exists>q'. lookup tab' (fst r) = Some q' \<and> sq_io_req q' = sq_io_req q"
    "req_at tab r \<noteq> None"
  shows "req_at tab' r = req_at tab r"
  using assms by (fastforce simp: req_at_def split: option.splits)

interpretation cpl: pq_node req_ops "\<lambda>tab r. req_at tab r \<noteq> None" "\<lambda>_. True"
  by unfold_locales
    (auto simp: req_ops_def cmp_pri_def get_pri_def set_pri_def get_pos_def set_pos_def req_at_set_req split: option.split)

lemma req_ops_simps [simp]:
  "cmppri req_ops = cmp_pri" "getpri req_ops = get_pri" "setpri req_ops = set_pri" "getpos req_ops = get_pos"
  "setpos req_ops = set_pos"
  by (simp_all add: req_ops_def)

abbreviation cpl_wf :: "sq_table \<Rightarrow> (sq_table, req_id) pqueue \<Rightarrow> bool" where
  "cpl_wf tab q \<equiv> pq_wf (\<lambda>tab r. req_at tab r \<noteq> None) tab q \<and> q_ops q = req_ops"

text \<open>Two tables agree on a request: it has the same priority and position, and is there in both.\<close>

definition same_node :: "sq_table \<Rightarrow> sq_table \<Rightarrow> req_id \<Rightarrow> bool" where
  "same_node tab tab' r \<longleftrightarrow> (req_at tab' r = None) = (req_at tab r = None) \<and> get_pri tab' r = get_pri tab r \<and>
     get_pos tab' r = get_pos tab r"

lemma same_node_refl [simp]: "same_node tab tab r"
  by (simp add: same_node_def)

lemma same_node_trans: "same_node a b r \<Longrightarrow> same_node b c r \<Longrightarrow> same_node a c r"
  by (simp add: same_node_def)

lemma same_node_req_at: "req_at tab' r = req_at tab r \<Longrightarrow> same_node tab tab' r"
  by (simp add: same_node_def get_pri_def get_pos_def)

lemma same_node_set_req: "r \<noteq> r' \<Longrightarrow> same_node tab (set_req tab r' x) r"
  by (rule same_node_req_at) (simp add: req_at_set_req)

lemma cpl_wf_same_node:
  assumes "cpl_wf tab q" "\<forall>r \<in> set (pq_elems q). same_node tab tab' r"
  shows "cpl_wf tab' q"
proof -
  have len: "q_size q \<le> length (q_d q)" using assms(1) by (simp add: pq_wf_def pq_shape_def)
  have same: "same_node tab tab' (q_d q ! j)" if "1 \<le> j" "j < q_size q" for j
  proof -
    have "q_d q ! j \<in> set (pq_elems q)" unfolding pq_elems_def set_arr_slice [OF len] using that by blast
    with assms(2) show ?thesis by blast
  qed
  have "pq_pos tab' q" using assms(1) same by (auto simp: pq_wf_def pq_pos_def same_node_def)
  moreover have "pq_heap tab' q"
  proof -
    have "get_pri tab' (q_d q ! j) = get_pri tab (q_d q ! j)" "get_pri tab' (q_d q ! (j div 2)) = get_pri tab (q_d q ! (j div 2))"
      if "2 \<le> j" "j < q_size q" for j
      using that same [of j] same [of "j div 2"] by (auto simp: same_node_def)
    then show ?thesis using assms(1) by (auto simp: pq_wf_def pq_heap_def)
  qed
  moreover have "\<forall>r \<in> set (pq_elems q). req_at tab' r \<noteq> None"
    using assms unfolding pq_wf_def same_node_def by blast
  ultimately show ?thesis using assms(1) by (simp add: pq_wf_def)
qed

text \<open>What the queue callbacks write: a position.\<close>

definition pos_only :: "sq_table \<Rightarrow> sq_table \<Rightarrow> bool" where
  "pos_only tab tab' \<longleftrightarrow> length tab' = length tab \<and>
     (\<forall>i. \<exists>reqs. lookup tab' i = map_option (\<lambda>q. q\<lparr>sq_io_req := reqs\<rparr>) (lookup tab i)) \<and>
     (\<forall>r. \<exists>pos. req_at tab' r = map_option (\<lambda>x. x\<lparr>req_pos := pos\<rparr>) (req_at tab r))"

lemma pos_only_refl: "pos_only tab tab"
  unfolding pos_only_def
proof (intro conjI allI)
  show "\<exists>reqs. lookup tab i = map_option (\<lambda>q. q\<lparr>sq_io_req := reqs\<rparr>) (lookup tab i)" for i
    by (cases "lookup tab i") (auto intro: exI [of _ "sq_io_req (the (lookup tab i))"])
  show "\<exists>pos. req_at tab r = map_option (\<lambda>x. x\<lparr>req_pos := pos\<rparr>) (req_at tab r)" for r
    by (cases "req_at tab r") (auto intro: exI [of _ "req_pos (the (req_at tab r))"])
qed simp

lemma pos_only_set_pos:
  assumes "pos_only tab tab'"
  shows "pos_only tab (set_pos tab' r k)"
proof (cases "req_at tab' r")
  case None
  then show ?thesis using assms by (simp add: set_pos_def)
next
  case (Some x)
  have "\<exists>reqs. lookup (set_pos tab' r k) i = map_option (\<lambda>q. q\<lparr>sq_io_req := reqs\<rparr>) (lookup tab i)" for i
  proof -
    obtain reqs where "lookup tab' i = map_option (\<lambda>q. q\<lparr>sq_io_req := reqs\<rparr>) (lookup tab i)"
      using assms unfolding pos_only_def by blast
    then show ?thesis
      by (cases "i = fst r") (auto simp: set_pos_def Some lookup_set_req option.map_comp comp_def)
  qed
  moreover have "\<exists>pos. req_at (set_pos tab' r k) r' = map_option (\<lambda>x. x\<lparr>req_pos := pos\<rparr>) (req_at tab r')" for r'
  proof -
    obtain pos where "req_at tab' r' = map_option (\<lambda>x. x\<lparr>req_pos := pos\<rparr>) (req_at tab r')"
      using assms unfolding pos_only_def by blast
    then show ?thesis
    proof (cases "r' = r")
      case True
      with \<open>req_at tab' r' = _\<close> Some obtain y where "req_at tab r = Some y" "x = y\<lparr>req_pos := pos\<rparr>"
        by (cases "req_at tab r") auto
      with True Some show ?thesis by (auto simp: set_pos_def req_at_set_req intro: exI [of _ k])
    next
      case False
      with \<open>req_at tab' r' = _\<close> show ?thesis by (auto simp: set_pos_def Some req_at_set_req)
    qed
  qed
  ultimately show ?thesis using assms by (simp add: pos_only_def set_pos_def Some)
qed

lemma pos_only_insert: "q_ops q = req_ops \<Longrightarrow> pos_only tab (fst (snd (pqueue_insert realloc_ok junk tab q e)))"
  by (rule pqueue_insert_store) (simp_all add: pos_only_set_pos pos_only_refl)

lemma pos_only_pop: "q_ops q = req_ops \<Longrightarrow> pos_only tab (fst (snd (pqueue_pop tab q)))"
  by (rule pqueue_pop_store) (simp_all add: pos_only_set_pos pos_only_refl)

subsection \<open>Where requests are\<close>

definition free_at :: "sq_table \<Rightarrow> nat \<Rightarrow> req_id list" where
  "free_at tab i = (case lookup tab i of None \<Rightarrow> [] | Some q \<Rightarrow> map (Pair i) (sq_req_list q))"

definition pool :: "(nat \<Rightarrow> 'a list) \<Rightarrow> nat \<Rightarrow> 'a multiset" where
  "pool g k = (\<Sum>i<k. mset (g i))"

lemma pool_change:
  assumes "i < k" "\<And>j. j < k \<Longrightarrow> j \<noteq> i \<Longrightarrow> g' j = g j"
  shows "pool g' k + mset (g i) = pool g k + mset (g' i)"
proof -
  have "pool h k = mset (h i) + (\<Sum>j\<in>{..<k} - {i}. mset (h j))" for h :: "nat \<Rightarrow> 'a list"
    using assms(1) unfolding pool_def by (intro sum.remove) auto
  moreover have "(\<Sum>j\<in>{..<k} - {i}. mset (g' j)) = (\<Sum>j\<in>{..<k} - {i}. mset (g j))"
    using assms(2) by (intro sum.cong) auto
  ultimately show ?thesis by simp
qed

lemma pool_same: "(\<And>j. j < k \<Longrightarrow> mset (g' j) = mset (g j)) \<Longrightarrow> pool g' k = pool g k"
  unfolding pool_def by (intro sum.cong) auto

lemma mem_pool: "x \<in># pool g k \<longleftrightarrow> (\<exists>j<k. x \<in> set (g j))"
  by (induction k) (auto simp: pool_def lessThan_Suc less_Suc_eq)

definition free_reqs :: "femu \<Rightarrow> req_id multiset" where
  "free_reqs n = pool (free_at (n_sq n)) (length (n_sq n))"

definition rings_reqs :: "req_id rte_ring list \<Rightarrow> req_id multiset" where
  "rings_reqs rings = pool (\<lambda>p. ring_contents (rings ! p)) (length rings)"

definition queued_reqs :: "femu \<Rightarrow> req_id multiset" where
  "queued_reqs n = pool (\<lambda>p. pq_elems (n_pq n ! p)) (length (n_pq n))"

definition io_reqs :: "femu \<Rightarrow> req_id multiset" where
  "io_reqs n = free_reqs n + rings_reqs (n_to_ftl n) + rings_reqs (n_to_poller n) + queued_reqs n"

definition single :: "'a multiset \<Rightarrow> bool" where
  "single M \<longleftrightarrow> (\<forall>x. count M x \<le> 1)"

lemma single_mono: "single M \<Longrightarrow> N \<subseteq># M \<Longrightarrow> single N"
  unfolding single_def by (meson le_trans mset_subset_eq_count)

lemma single_add: "single (add_mset x M) \<Longrightarrow> x \<notin># M"
  unfolding single_def by (metis count_add_mset count_greater_eq_one_iff not_less_eq_eq)

definition io_ok :: "femu \<Rightarrow> bool" where
  "io_ok n \<longleftrightarrow> single (io_reqs n) \<and> (\<forall>r. r \<in># io_reqs n \<longrightarrow> req_at (n_sq n) r \<noteq> None) \<and>
     (\<forall>ring \<in> set (n_to_ftl n) \<union> set (n_to_poller n). ring_ok ring) \<and> (\<forall>q \<in> set (n_pq n). cpl_wf (n_sq n) q)"

lemma rings_update:
  assumes "p < length rings"
  shows "rings_reqs (rings[p := ring]) + mset (ring_contents (rings ! p)) = rings_reqs rings + mset (ring_contents ring)"
  using pool_change [of p "length rings" "\<lambda>j. ring_contents (rings[p := ring] ! j)" "\<lambda>j. ring_contents (rings ! j)"] assms
  by (simp add: rings_reqs_def)

lemma queued_update:
  assumes "p < length pqs"
  shows "pool (\<lambda>j. pq_elems (pqs[p := q] ! j)) (length pqs) + mset (pq_elems (pqs ! p)) =
    pool (\<lambda>j. pq_elems (pqs ! j)) (length pqs) + mset (pq_elems q)"
  using pool_change [of p "length pqs" "\<lambda>j. pq_elems (pqs[p := q] ! j)" "\<lambda>j. pq_elems (pqs ! j)"] assms by simp

lemma free_update:
  assumes "length tab' = length tab" "lookup tab i = Some q" "lookup tab' i = Some q'"
    "\<And>j. j \<noteq> i \<Longrightarrow> map_option sq_req_list (lookup tab' j) = map_option sq_req_list (lookup tab j)"
  shows "pool (free_at tab') (length tab') + image_mset (Pair i) (mset (sq_req_list q)) =
    pool (free_at tab) (length tab) + image_mset (Pair i) (mset (sq_req_list q'))"
proof -
  have "free_at tab' j = free_at tab j" if "j \<noteq> i" for j
    using assms(4) [OF that] by (auto simp: free_at_def split: option.splits)
  then show ?thesis
    using pool_change [of i "length tab" "free_at tab'" "free_at tab"] lookup_less [OF assms(2)] assms(1-3)
    by (simp add: free_at_def)
qed

lemma free_same:
  assumes "length tab' = length tab" "\<And>j. map_option sq_req_list (lookup tab' j) = map_option sq_req_list (lookup tab j)"
  shows "pool (free_at tab') (length tab') = pool (free_at tab) (length tab)"
proof -
  have "free_at tab' j = free_at tab j" for j
    using assms(2) [of j] by (auto simp: free_at_def split: option.splits)
  then have "free_at tab' = free_at tab" by (rule ext)
  then show ?thesis unfolding assms(1) by (rule arg_cong)
qed

lemma ring_send_ok:
  assumes "ring_send ring r = Some (sent, ring')" "ring_ok ring"
  shows "ring_ok ring'" "mset (ring_contents ring') = (if sent then {#r#} else {#}) + mset (ring_contents ring)"
  using ring_fifo.put_law [OF assms(2), of r] assms(1) by (auto split: if_splits)

lemma ring_receive_ok:
  assumes "ring_receive null ring = Some (got, ring')" "ring_ok ring"
  shows "ring_ok ring'"
    "mset (ring_contents ring) = (case got of None \<Rightarrow> {#} | Some r \<Rightarrow> {#r#}) + mset (ring_contents ring')"
proof -
  from ring_fifo.get_law [OF assms(2), of null] obtain r' where
    "ring_receive null ring = Some (if ring_contents ring = [] then None else Some (hd (ring_contents ring)), r')"
    "ring_ok r'" "ring_contents r' = tl (ring_contents ring)" by blast
  then show "ring_ok ring'"
    "mset (ring_contents ring) = (case got of None \<Rightarrow> {#} | Some r \<Rightarrow> {#r#}) + mset (ring_contents ring')"
    using assms(1) by (cases "ring_contents ring"; simp)+
qed

subsection \<open>Command execution leaves requests in their places\<close>

text \<open>What a command handler does not touch.\<close>

definition io_frame :: "femu \<Rightarrow> femu \<Rightarrow> bool" where
  "io_frame n n' \<longleftrightarrow> n_sq n' = n_sq n \<and> n_cq n' = n_cq n \<and> n_to_ftl n' = n_to_ftl n \<and>
     n_to_poller n' = n_to_poller n \<and> n_pq n' = n_pq n \<and> n_cfg n' = n_cfg n \<and> n_clk n' = n_clk n \<and>
     n_should_isr n' = n_should_isr n \<and> n_sqe_size n' = n_sqe_size n \<and> n_irq n' = n_irq n"

lemma io_frame_refl [simp]: "io_frame n n"
  by (simp add: io_frame_def)

lemma io_frame_trans: "io_frame a b \<Longrightarrow> io_frame b c \<Longrightarrow> io_frame a c"
  by (simp add: io_frame_def)

lemma refuse_frame: "refuse n req code loc lba nsid st = Some (s, n') \<Longrightarrow> io_frame n n'"
  by (auto simp: refuse_def nvme_set_error_page_def io_frame_def Let_def split: if_splits)

lemma rw_check_frame:
  "femu_nvme_rw_check_req n ns req slba elba nlb ctrl dsz msz = Some (s, n') \<Longrightarrow> io_frame n n'"
  by (auto simp: femu_nvme_rw_check_req_def split: if_splits bind_splits dest!: refuse_frame)

lemma with_req_Some: "with_req req r = Some (s, req', n') \<longleftrightarrow> req' = req \<and> r = Some (s, n')"
  by (auto simp: with_req_def)

lemma nvme_rw_frame:
  assumes "nvme_rw n ns req = Some (s, req', n')"
  shows "io_frame n n'"
  using assms unfolding nvme_rw_def Let_def
  by (auto simp: with_req_Some io_frame_def split: if_splits bind_splits prod.splits dest!: rw_check_frame refuse_frame)

lemma dsm_loop_frame: "dsm_loop rs n i req = Some (s, n') \<Longrightarrow> io_frame n n'"
proof (induction rs arbitrary: n)
  case (Cons r rs)
  have "io_frame n (upd_ns n i f)" for f by (simp add: upd_ns_def io_frame_def)
  then show ?case using Cons by (auto simp: Let_def split: if_splits bind_splits dest!: refuse_frame intro: io_frame_trans)
qed simp

lemma nvme_dsm_frame: "nvme_dsm junk n i req = Some (s, req', n') \<Longrightarrow> io_frame n n'"
  by (auto simp: nvme_dsm_def Let_def with_req_Some split: if_splits bind_splits dest!: refuse_frame dsm_loop_frame)

lemma nvme_compare_frame: "nvme_compare junk n i req = Some (s, req', n') \<Longrightarrow> io_frame n n'"
  by (auto simp: nvme_compare_def Let_def with_req_Some split: if_splits bind_splits prod.splits dest!: refuse_frame)

lemma nvme_write_zeros_frame: "nvme_write_zeros n i req = Some (s, req', n') \<Longrightarrow> io_frame n n'"
  by (auto simp: nvme_write_zeros_def Let_def with_req_Some split: if_splits dest!: refuse_frame)

lemma nvme_write_uncor_frame: "nvme_write_uncor n i req = Some (s, req', n') \<Longrightarrow> io_frame n n'"
  by (auto simp: nvme_write_uncor_def Let_def with_req_Some upd_ns_def io_frame_def split: if_splits bind_splits
      dest!: refuse_frame)

lemma ext_io_cmd_frame:
  assumes "ext_io_cmd oc n i req = Some (s, req', n')" "\<not> OCSSD n"
  shows "io_frame n n'"
  using assms
  by (auto simp: ext_io_cmd_def nop_io_cmd_def bb_io_cmd_def bb_nvme_rw_def zns_mode_io_cmd_def zns_put_def Let_def
      io_frame_def split: if_splits dest!: nvme_rw_frame)

lemma nvme_io_cmd_frame:
  assumes "nvme_io_cmd junk oc n req = Some (s, req', n')" "\<not> OCSSD n"
  shows "io_frame n n'"
  using assms
  by (auto simp: nvme_io_cmd_def Let_def split: if_splits
      dest!: ext_io_cmd_frame nvme_dsm_frame nvme_compare_frame nvme_write_zeros_frame nvme_write_uncor_frame)

end
