(* ===== verification/Nvme_Io_Steps.thy ===== *)
theory Nvme_Io_Steps
  imports Nvme_Io_Inv
begin

text \<open>
  The steps of the pollers and of the FTL thread keep \<open>io_ok\<close> and make no request appear twice: what
  is held after a step was held before it.
\<close>

subsection \<open>Steps that move requests\<close>

definition moves :: "femu \<Rightarrow> femu \<Rightarrow> bool" where
  "moves n n' \<longleftrightarrow> io_ok n' \<and> io_reqs n' \<subseteq># io_reqs n \<and> n_cfg n' = n_cfg n \<and>
     (\<forall>r. (req_at (n_sq n') r = None) = (req_at (n_sq n) r = None))"

lemma moves_refl: "io_ok n \<Longrightarrow> moves n n"
  by (simp add: moves_def)

lemma moves_trans: "moves a b \<Longrightarrow> moves b c \<Longrightarrow> moves a c"
  unfolding moves_def by (metis subset_mset.trans)

text \<open>The part of the controller the accounting depends on.\<close>

definition io_view :: "femu \<Rightarrow> sq_table \<times> req_id rte_ring list \<times> req_id rte_ring list \<times> (sq_table, req_id) pqueue list" where
  "io_view n = (n_sq n, n_to_ftl n, n_to_poller n, n_pq n)"

lemma io_view_cong:
  assumes "io_view n' = io_view n"
  shows "io_ok n' = io_ok n" "io_reqs n' = io_reqs n" "queued_reqs n' = queued_reqs n"
  using assms by (simp_all add: io_view_def io_ok_def io_reqs_def free_reqs_def queued_reqs_def)

lemma moves_view:
  assumes "moves m n" "io_view n' = io_view n" "n_cfg n' = n_cfg n"
  shows "moves m n'"
  using assms io_view_cong [OF assms(2)] by (simp add: moves_def io_view_def)

lemma moves_from_view:
  assumes "moves n' m" "io_view n' = io_view n" "n_cfg n' = n_cfg n"
  shows "moves n m"
  using assms io_view_cong [OF assms(2)] by (simp add: moves_def io_view_def)

lemma io_frame_view: "io_frame n n' \<Longrightarrow> io_view n' = io_view n \<and> n_cfg n' = n_cfg n"
  by (simp add: io_frame_def io_view_def)

lemma addr_write_view [simp]: "io_view (addr_write n a bs) = io_view n" "n_cfg (addr_write n a bs) = n_cfg n"
  "n_sq (addr_write n a bs) = n_sq n" "n_cq (addr_write n a bs) = n_cq n" "n_pq (addr_write n a bs) = n_pq n"
  by (simp_all add: addr_write_def io_view_def split: prod.split)

lemma upd_cq_view [simp]: "io_view (upd_cq n c q) = io_view n" "n_cfg (upd_cq n c q) = n_cfg n"
  "n_sq (upd_cq n c q) = n_sq n" "n_pq (upd_cq n c q) = n_pq n"
  by (simp_all add: upd_cq_def io_view_def)

lemma mem_queued: "x \<in># queued_reqs n \<longleftrightarrow> (\<exists>q \<in> set (n_pq n). x \<in> set (pq_elems q))"
  unfolding queued_reqs_def mem_pool by (metis in_set_conv_nth)

lemma mem_queuedI: "p < length (n_pq n) \<Longrightarrow> x \<in> set (pq_elems (n_pq n ! p)) \<Longrightarrow> x \<in># queued_reqs n"
  by (auto simp: queued_reqs_def mem_pool)

text \<open>A request outside the priority queues may change.\<close>

lemma upd_req_ok:
  assumes "io_ok n" "r \<notin># queued_reqs n"
  shows "io_ok (upd_req n r x)" "io_reqs (upd_req n r x) = io_reqs n" "moves n (upd_req n r x)"
proof -
  have "free_reqs (upd_req n r x) = free_reqs n"
    unfolding free_reqs_def upd_req_def
    by (rule free_same) (auto simp: lookup_set_req option.map_comp comp_def)
  then show e: "io_reqs (upd_req n r x) = io_reqs n"
    by (simp add: io_reqs_def queued_reqs_def upd_req_def)
  have wf: "cpl_wf (set_req (n_sq n) r x) q" if "q \<in> set (n_pq n)" for q
    by (rule cpl_wf_same_node [of "n_sq n"])
      (use assms that in \<open>auto simp: io_ok_def mem_queued intro!: same_node_set_req\<close>)
  show ok: "io_ok (upd_req n r x)"
    using assms(1) e wf unfolding io_ok_def by (auto simp: upd_req_def req_at_set_req)
  then show "moves n (upd_req n r x)"
    using e by (auto simp: moves_def upd_req_def req_at_set_req)
qed

text \<open>Changing a queue but for its requests: the free list is all that counts.\<close>

lemma req_at_upd_sq:
  assumes "lookup (n_sq n) i = Some q" "sq_io_req q' = sq_io_req q"
  shows "req_at (n_sq (upd_sq n i q')) = req_at (n_sq n)"
  using assms lookup_less [OF assms(1)] by (auto simp: fun_eq_iff req_at_def upd_sq_def lookup_update split: option.split)

lemma cpl_wf_upd_sq:
  assumes "lookup (n_sq n) i = Some q" "sq_io_req q' = sq_io_req q" "cpl_wf (n_sq n) pq"
  shows "cpl_wf (n_sq (upd_sq n i q')) pq"
  by (rule cpl_wf_same_node [OF assms(3)]) (auto intro!: same_node_req_at simp: req_at_upd_sq [OF assms(1,2)])

lemma free_upd_sq:
  assumes "lookup (n_sq n) i = Some q"
  shows "free_reqs (upd_sq n i q') + image_mset (Pair i) (mset (sq_req_list q)) =
    free_reqs n + image_mset (Pair i) (mset (sq_req_list q'))"
  unfolding free_reqs_def
  by (rule free_update [OF _ assms]) (auto simp: upd_sq_def lookup_update lookup_less [OF assms])

lemma upd_sq_ok:
  assumes "io_ok n" "lookup (n_sq n) i = Some q" "sq_io_req q' = sq_io_req q" "sq_req_list q' = sq_req_list q"
  shows "moves n (upd_sq n i q')"
proof -
  have "io_reqs (upd_sq n i q') = io_reqs n"
    using free_upd_sq [OF assms(2), of q'] assms(4) by (simp add: io_reqs_def queued_reqs_def upd_sq_def)
  then show ?thesis
    using assms(1) cpl_wf_upd_sq [OF assms(2,3)] unfolding moves_def io_ok_def req_at_upd_sq [OF assms(2,3)]
    by (simp add: upd_sq_def)
qed

lemma take_free_ok:
  assumes "io_ok n" "lookup (n_sq n) i = Some q" "sq_io_req q' = sq_io_req q" "sq_req_list q = r # sq_req_list q'"
  shows "io_reqs n = add_mset (i, r) (io_reqs (upd_sq n i q'))" "moves n (upd_sq n i q')"
    "(i, r) \<notin># io_reqs (upd_sq n i q')"
proof -
  show e: "io_reqs n = add_mset (i, r) (io_reqs (upd_sq n i q'))"
    using free_upd_sq [OF assms(2), of q'] assms(4) by (simp add: io_reqs_def queued_reqs_def upd_sq_def)
  have s: "single (io_reqs (upd_sq n i q'))"
    by (rule single_mono [of "io_reqs n"]) (use assms(1) e in \<open>simp_all add: io_ok_def\<close>)
  show "(i, r) \<notin># io_reqs (upd_sq n i q')"
    by (rule single_add) (use assms(1) e in \<open>simp add: io_ok_def\<close>)
  have "\<And>x. x \<in># io_reqs (upd_sq n i q') \<Longrightarrow> x \<in># io_reqs n" using e by simp
  then show "moves n (upd_sq n i q')"
    using assms(1) cpl_wf_upd_sq [OF assms(2,3)] e s unfolding moves_def io_ok_def req_at_upd_sq [OF assms(2,3)]
    by (simp add: upd_sq_def)
qed

lemma mem_queued_io: "r \<in># queued_reqs n \<Longrightarrow> r \<in># io_reqs n"
  by (simp add: io_reqs_def)

subsection \<open>Fetching\<close>

lemma send_to_ftl_ok:
  assumes "send_to_ftl n p r = Some n'" "io_ok n" "r \<notin># io_reqs n" "req_at (n_sq n) r \<noteq> None"
  shows "io_ok n'" "io_reqs n' \<subseteq># add_mset r (io_reqs n)" "n_sq n' = n_sq n" "n_cfg n' = n_cfg n"
proof -
  from assms(1) obtain sent ring where p: "p < length (n_to_ftl n)" and s: "ring_send (n_to_ftl n ! p) r = Some (sent, ring)"
    and n': "n' = n\<lparr>n_to_ftl := (n_to_ftl n)[p := ring]\<rparr>"
    by (auto simp: send_to_ftl_def ring_at_def split: if_splits bind_splits)
  have "ring_ok (n_to_ftl n ! p)" using assms(2) p by (simp add: io_ok_def)
  note R = ring_send_ok [OF s this]
  have e: "io_reqs n' = (if sent then {#r#} else {#}) + io_reqs n"
    using rings_update [OF p, of ring] R(2) by (simp add: io_reqs_def n' free_reqs_def queued_reqs_def ac_simps)
  then show "io_reqs n' \<subseteq># add_mset r (io_reqs n)" by simp
  have "single (io_reqs n')"
    using assms(2,3) e by (auto simp: io_ok_def single_def not_in_iff)
  moreover have "\<forall>ring \<in> set (n_to_ftl n') \<union> set (n_to_poller n'). ring_ok ring"
    using assms(2) R(1) by (auto simp: io_ok_def n' dest!: set_update_subset_insert [THEN subsetD])
  ultimately show "io_ok n'"
    using assms(2,4) e unfolding io_ok_def by (auto simp: n' split: if_splits)
  show "n_sq n' = n_sq n" "n_cfg n' = n_cfg n" by (simp_all add: n')
qed

lemma process_one_io_ok:
  assumes "process_one_io junk oc rt i p r rest n = Some n'" "io_ok n" "\<not> OCSSD n"
    "lookup (n_sq n) i = Some q" "sq_req_list q = r # rest"
  shows "moves n n'" "\<exists>q'. lookup (n_sq n') i = Some q' \<and> sq_req_list q' = rest"
proof -
  from assms(1,4) obtain addr q1 req status req' n3 where
    q1: "nvme_inc_sq_head q = Some q1" and
    req: "req_at (n_sq (upd_sq n i (q1\<lparr>sq_req_list := rest\<rparr>))) (i, r) = Some req" and
    io: "nvme_io_cmd junk oc
        ((upd_req (upd_sq n i (q1\<lparr>sq_req_list := rest\<rparr>)) (i, r)
          (fetched_req req (cmd_of_bytes (addr_read n addr 64)) (rt (n_clk n))))\<lparr>n_clk := n_clk n + 1\<rparr>)
        (fetched_req req (cmd_of_bytes (addr_read n addr 64)) (rt (n_clk n))) = Some (status, req', n3)" and
    n': "(if status = sc NVME_SUCCESS then send_to_ftl (upd_req n3 (i, r) (req'\<lparr>req_status := status\<rparr>)) p (i, r)
        else Some (upd_req n3 (i, r) req')) = Some n'"
    unfolding process_one_io_def Let_def
    by (auto simp: upd_sq_def upd_req_def split: bind_splits)
  define n1 where "n1 = upd_sq n i (q1\<lparr>sq_req_list := rest\<rparr>)"
  define n2 where "n2 = (upd_req n1 (i, r)
    (fetched_req req (cmd_of_bytes (addr_read n addr 64)) (rt (n_clk n))))\<lparr>n_clk := n_clk n + 1\<rparr>"
  have q1': "sq_io_req (q1\<lparr>sq_req_list := rest\<rparr>) = sq_io_req q" "sq_req_list q = r # sq_req_list (q1\<lparr>sq_req_list := rest\<rparr>)"
    using q1 assms(5) by (auto simp: nvme_inc_sq_head_def split: if_splits)
  note T = take_free_ok [OF assms(2,4) q1', folded n1_def]
  have ok1: "io_ok n1" using T(2) by (simp add: moves_def)
  have nq: "(i, r) \<notin># queued_reqs n1" using T(3) mem_queued_io by blast
  have m2: "moves n n2"
    by (rule moves_view [OF moves_trans [OF T(2) upd_req_ok(3) [OF ok1 nq]]]) (simp_all add: n2_def io_view_def)
  have e2: "io_reqs n2 = io_reqs n1"
    using upd_req_ok(2) [OF ok1 nq] io_view_cong(2) [of n2 "upd_req n1 (i, r) _"] by (simp add: n2_def io_view_def)
  have "\<not> OCSSD n2" using assms(3) m2 by (simp add: moves_def OCSSD_def)
  then have fr: "io_frame n2 n3" using io nvme_io_cmd_frame unfolding n2_def n1_def by blast
  note v3 = io_frame_view [OF fr]
  have m3: "moves n n3" using moves_view [OF m2] v3 by blast
  have e3: "io_reqs n3 = io_reqs n1" using io_view_cong(2) [of n3 n2] v3 e2 by simp
  have ok3: "io_ok n3" using m3 by (simp add: moves_def)
  have nq3: "(i, r) \<notin># queued_reqs n3" using T(3) e3 mem_queued_io by metis
  have at: "req_at (n_sq n) (i, r) \<noteq> None"
    using assms(2) T(1) by (simp add: io_ok_def)
  have sq3: "n_sq n3 = n_sq n2" using fr by (simp add: io_frame_def)
  have look: "\<exists>q'. lookup (n_sq (upd_req n3 (i, r) x)) i = Some q' \<and> sq_req_list q' = rest" for x
    using lookup_less [OF assms(4)]
    by (simp add: upd_req_def lookup_set_req sq3 n2_def n1_def upd_sq_def lookup_update)
  note U = upd_req_ok [OF ok3 nq3]
  have "moves n n' \<and> (\<exists>q'. lookup (n_sq n') i = Some q' \<and> sq_req_list q' = rest)"
  proof (cases "status = sc NVME_SUCCESS")
    case False
    then show ?thesis using n' moves_trans [OF m3 U(3)] look by auto
  next
    case True
    define n4 where "n4 = upd_req n3 (i, r) (req'\<lparr>req_status := status\<rparr>)"
    have m4: "moves n n4" using moves_trans [OF m3 U(3)] by (simp add: n4_def)
    have e4: "io_reqs n4 = io_reqs n1" using U(2) e3 by (simp add: n4_def)
    have S: "send_to_ftl n4 p (i, r) = Some n'" using n' True by (simp add: n4_def)
    have "(i, r) \<notin># io_reqs n4" "req_at (n_sq n4) (i, r) \<noteq> None" "io_ok n4"
      using T(3) e4 at m4 by (auto simp: moves_def)
    note S' = send_to_ftl_ok [OF S this(3,1,2)]
    have "io_reqs n' \<subseteq># io_reqs n" using S'(2) e4 T(1) by simp
    then show ?thesis using S' m4 look [of "req'\<lparr>req_status := status\<rparr>"] by (auto simp: moves_def n4_def)
  qed
  then show "moves n n'" "\<exists>q'. lookup (n_sq n') i = Some q' \<and> sq_req_list q' = rest" by blast+
qed

lemma moves_OCSSD: "moves n n' \<Longrightarrow> OCSSD n' = OCSSD n"
  by (simp add: moves_def OCSSD_def)

lemma process_sq_loop_ok:
  assumes "process_sq_loop junk oc rt i p rs k n = Some (k', n')" "io_ok n" "\<not> OCSSD n"
    "lookup (n_sq n) i = Some q" "sq_req_list q = rs"
  shows "moves n n'"
  using assms
proof (induction rs arbitrary: k n q)
  case (Cons r rs)
  show ?case
  proof (cases "nvme_sq_empty q")
    case True
    then show ?thesis using Cons.prems by (simp add: moves_refl)
  next
    case False
    with Cons.prems(1,4) obtain n1 where
      n1: "process_one_io junk oc rt i p r rs n = Some n1" "process_sq_loop junk oc rt i p rs (k + 1) n1 = Some (k', n')"
      by (auto split: bind_splits)
    note P = process_one_io_ok [OF n1(1) Cons.prems(2-5)]
    from P(2) obtain q' where q': "lookup (n_sq n1) i = Some q'" "sq_req_list q' = rs" by blast
    have "io_ok n1" "\<not> OCSSD n1" using P(1) moves_OCSSD [OF P(1)] Cons.prems(3) by (simp_all add: moves_def)
    from moves_trans [OF P(1) Cons.IH [OF n1(2) this q']] show ?thesis .
  qed
qed (auto simp: moves_refl split: if_splits)

lemma nvme_process_sq_io_ok:
  assumes "nvme_process_sq_io junk oc rt i p n = Some n'" "io_ok n" "\<not> OCSSD n"
  shows "moves n n'"
proof -
  from assms(1) obtain q k n2 q2 where q: "lookup (n_sq n) i = Some q" and
    l: "process_sq_loop junk oc rt i p (sq_req_list q) 0 (upd_sq n i (nvme_update_sq_tail n q)) = Some (k, n2)" and
    q2: "lookup (n_sq n2) i = Some q2" and
    n': "n' = upd_sq (nvme_update_sq_eventidx n2 q2) i (q2\<lparr>sq_completed := sq_completed q2 + of_nat k\<rparr>)"
    by (auto simp: nvme_process_sq_io_def Let_def split: bind_splits)
  let ?n1 = "upd_sq n i (nvme_update_sq_tail n q)"
  have m1: "moves n ?n1"
    by (rule upd_sq_ok [OF assms(2) q]) (simp_all add: nvme_update_sq_tail_def)
  have ok1: "io_ok ?n1" "\<not> OCSSD ?n1" using m1 moves_OCSSD [OF m1] assms(3) by (simp_all add: moves_def)
  have look1: "lookup (n_sq ?n1) i = Some (nvme_update_sq_tail n q)"
    using lookup_less [OF q] by (simp add: upd_sq_def lookup_update)
  have "moves ?n1 n2" by (rule process_sq_loop_ok [OF l ok1 look1]) (simp add: nvme_update_sq_tail_def)
  with m1 have m2: "moves n n2" by (rule moves_trans)
  let ?n3 = "nvme_update_sq_eventidx n2 q2"
  have v: "io_view ?n3 = io_view n2" "n_cfg ?n3 = n_cfg n2" "n_sq ?n3 = n_sq n2"
    by (simp_all add: nvme_update_sq_eventidx_def)
  have m3: "moves n ?n3" by (rule moves_view [OF m2 v(1,2)])
  have "moves ?n3 n'"
    unfolding n' by (rule upd_sq_ok [where q = q2]) (use m3 q2 v in \<open>simp_all add: moves_def\<close>)
  with m3 show ?thesis by (rule moves_trans)
qed

subsection \<open>Completions\<close>

lemma pos_only_req_at:
  assumes "pos_only tab tab'"
  shows "(req_at tab' r = None) = (req_at tab r = None)" "get_pri tab' r = get_pri tab r"
proof -
  obtain pos where "req_at tab' r = map_option (\<lambda>x. x\<lparr>req_pos := pos\<rparr>) (req_at tab r)"
    using assms unfolding pos_only_def by blast
  then show "(req_at tab' r = None) = (req_at tab r = None)" "get_pri tab' r = get_pri tab r"
    by (cases "req_at tab r"; simp add: get_pri_def)+
qed

lemma pos_only_free: "pos_only tab tab' \<Longrightarrow> pool (free_at tab') (length tab') = pool (free_at tab) (length tab)"
proof (rule free_same)
  fix j assume "pos_only tab tab'"
  then obtain reqs where "lookup tab' j = map_option (\<lambda>q. q\<lparr>sq_io_req := reqs\<rparr>) (lookup tab j)"
    unfolding pos_only_def by blast
  then show "map_option sq_req_list (lookup tab' j) = map_option sq_req_list (lookup tab j)"
    by (simp add: option.map_comp comp_def)
qed (simp add: pos_only_def)

text \<open>What the priority queues need: they are well formed and share no request, so that moving nodes of
  one leaves the positions of the others.\<close>

definition cpl_ok :: "femu \<Rightarrow> bool" where
  "cpl_ok n \<longleftrightarrow> (\<forall>q \<in> set (n_pq n). cpl_wf (n_sq n) q) \<and> single (queued_reqs n)"

lemma io_ok_cpl: "io_ok n \<Longrightarrow> cpl_ok n"
  using single_mono [of "io_reqs n" "queued_reqs n"] unfolding cpl_ok_def io_ok_def by (simp add: io_reqs_def)

lemma queued_disjoint:
  assumes "cpl_ok n" "p < length (n_pq n)" "p' < length (n_pq n)" "p \<noteq> p'"
    "x \<in> set (pq_elems (n_pq n ! p))" "x \<in> set (pq_elems (n_pq n ! p'))"
  shows False
proof -
  let ?g = "\<lambda>p. pq_elems (n_pq n ! p)"
  have "queued_reqs n = mset (?g p) + (\<Sum>j\<in>{..<length (n_pq n)} - {p}. mset (?g j))"
    using assms(2) unfolding queued_reqs_def pool_def by (intro sum.remove) auto
  also have "(\<Sum>j\<in>{..<length (n_pq n)} - {p}. mset (?g j)) =
    mset (?g p') + (\<Sum>j\<in>{..<length (n_pq n)} - {p} - {p'}. mset (?g j))"
    using assms(3,4) by (intro sum.remove) auto
  finally have "Multiset.count (mset (?g p)) x + Multiset.count (mset (?g p')) x \<le> Multiset.count (queued_reqs n) x"
    by simp
  moreover have "1 \<le> Multiset.count (mset (?g p)) x" "1 \<le> Multiset.count (mset (?g p')) x"
    using assms(5,6) by (simp_all add: Suc_le_eq)
  moreover have "Multiset.count (queued_reqs n) x \<le> 1" using assms(1) unfolding cpl_ok_def single_def by blast
  ultimately show False by linarith
qed

text \<open>A step on priority queue \<open>p\<close>: its elements change, and positions of old and new elements.\<close>

lemma pq_step_wf:
  assumes "cpl_ok n" "p < length (n_pq n)" "cpl_wf tab' pq'" "cpl.framed (n_sq n) tab' E"
    "\<And>p' x. p' < length (n_pq n) \<Longrightarrow> p' \<noteq> p \<Longrightarrow> x \<in> set (pq_elems (n_pq n ! p')) \<Longrightarrow> x \<notin> E"
  shows "\<forall>q \<in> set ((n_pq n)[p := pq']). cpl_wf tab' q"
proof
  fix q assume "q \<in> set ((n_pq n)[p := pq'])"
  then obtain p' where p': "p' < length (n_pq n)" "q = (n_pq n)[p := pq'] ! p'"
    by (auto simp: in_set_conv_nth)
  show "cpl_wf tab' q"
  proof (cases "p' = p")
    case True
    then show ?thesis using p' assms(3) by simp
  next
    case False
    have "cpl_wf (n_sq n) (n_pq n ! p')" using assms(1) p'(1) by (simp add: cpl_ok_def)
    moreover have "same_node (n_sq n) tab' r" if "r \<in> set (pq_elems (n_pq n ! p'))" for r
      using assms(4) assms(5) [OF p'(1) False that] unfolding cpl.framed_def same_node_def req_ops_simps by blast
    ultimately show ?thesis using False p' cpl_wf_same_node by (metis nth_list_update_neq)
  qed
qed

text \<open>Inserting a request that is in no other place.\<close>

lemma insert_ok:
  assumes ok: "io_ok n" and p: "p < length (n_pq n)" and r: "r \<notin># io_reqs n" "req_at (n_sq n) r \<noteq> None"
    and eq: "pqueue_insert realloc_ok null_req (n_sq n) (n_pq n ! p) r = (rc, tab, pq)"
    and n': "n' = n\<lparr>n_sq := tab, n_pq := (n_pq n)[p := pq]\<rparr>"
  shows "io_ok n'" "io_reqs n' \<subseteq># add_mset r (io_reqs n)" "\<And>x. (req_at (n_sq n') x = None) = (req_at (n_sq n) x = None)"
    "n_to_ftl n' = n_to_ftl n" "n_to_poller n' = n_to_poller n" "n_cfg n' = n_cfg n" "length (n_pq n') = length (n_pq n)"
proof -
  let ?q = "n_pq n ! p"
  have wf: "cpl_wf (n_sq n) ?q" using ok p by (simp add: io_ok_def)
  have po: "pos_only (n_sq n) tab"
    using pos_only_insert [where q = ?q and tab = "n_sq n" and realloc_ok = realloc_ok and junk = null_req and e = r] wf eq
    by simp
  have rq: "r \<notin> set (pq_elems ?q)" "\<And>p' x. p' < length (n_pq n) \<Longrightarrow> x \<in> set (pq_elems (n_pq n ! p')) \<Longrightarrow> x \<noteq> r"
    using r(1) mem_queuedI [OF p] mem_queuedI mem_queued_io by blast+
  show at: "\<And>x. (req_at (n_sq n') x = None) = (req_at (n_sq n) x = None)"
    using pos_only_req_at(1) [OF po] by (simp add: n')
  have free: "free_reqs n' = free_reqs n"
    using pos_only_free [OF po] unfolding n' free_reqs_def by simp
  have main: "queued_reqs n' \<subseteq># add_mset r (queued_reqs n) \<and> (\<forall>q \<in> set (n_pq n'). cpl_wf tab q)"
  proof (cases "q_size ?q < q_avail ?q \<or> realloc_ok")
    case True
    note I = cpl.insert_wf [OF _ _ r(2) rq(1) True eq]
    have "\<forall>q \<in> set ((n_pq n)[p := pq]). cpl_wf tab q"
      by (rule pq_step_wf [OF io_ok_cpl [OF ok] p]) (use wf I rq(2) queued_disjoint [OF io_ok_cpl [OF ok] p] in blast)+
    moreover have "queued_reqs n' = add_mset r (queued_reqs n)"
      using queued_update [OF p, of pq] I(3) wf by (simp add: queued_reqs_def n')
    ultimately show ?thesis by (simp add: n')
  next
    case False
    then have "tab = n_sq n" "pq = ?q" using eq wf by (auto simp: pqueue_insert_def pq_wf_def pq_shape_def)
    then show ?thesis using ok p by (simp add: n' io_ok_def queued_reqs_def)
  qed
  have e: "io_reqs n' \<subseteq># add_mset r (io_reqs n)"
  proof -
    have "io_reqs n' = queued_reqs n' + (free_reqs n + rings_reqs (n_to_ftl n) + rings_reqs (n_to_poller n))"
      using free by (simp add: io_reqs_def n')
    moreover have "add_mset r (io_reqs n) = add_mset r (queued_reqs n) + (free_reqs n + rings_reqs (n_to_ftl n) + rings_reqs (n_to_poller n))"
      by (simp add: io_reqs_def)
    ultimately show ?thesis using main by (metis subset_mset.add_right_mono)
  qed
  then show "io_reqs n' \<subseteq># add_mset r (io_reqs n)" .
  have "single (add_mset r (io_reqs n))" using ok r(1) by (auto simp: io_ok_def single_def not_in_iff)
  then have s: "single (io_reqs n')" using e by (rule single_mono)
  have "req_at (n_sq n') x \<noteq> None" if "x \<in># io_reqs n'" for x
  proof -
    have "x = r \<or> x \<in># io_reqs n" using mset_subset_eqD [OF e that] by auto
    then show ?thesis using ok r(2) unfolding at io_ok_def by blast
  qed
  moreover have "\<forall>ring \<in> set (n_to_ftl n') \<union> set (n_to_poller n'). ring_ok ring" "n_sq n' = tab"
    using ok by (simp_all add: n' io_ok_def)
  ultimately show "io_ok n'" using s main unfolding io_ok_def by blast
qed (simp_all add: n')

text \<open>Taking the first of a queue.\<close>

lemma pop_ok:
  assumes ok: "cpl_ok n" and p: "p < length (n_pq n)"
    and eq: "pqueue_pop (n_sq n) (n_pq n ! p) = (Some r, tab, pq)"
    and n': "n' = n\<lparr>n_sq := tab, n_pq := (n_pq n)[p := pq]\<rparr>"
  shows "pos_only (n_sq n) tab" "\<forall>q \<in> set (n_pq n'). cpl_wf tab q" "queued_reqs n = add_mset r (queued_reqs n')"
proof -
  let ?q = "n_pq n ! p"
  have wf: "cpl_wf (n_sq n) ?q" using ok p by (simp add: cpl_ok_def)
  show "pos_only (n_sq n) tab" using pos_only_pop [of ?q "n_sq n"] wf eq by simp
  note P = cpl.pop_wf [OF _ _ eq]
  show "\<forall>q \<in> set (n_pq n'). cpl_wf tab q"
  proof -
    have "\<forall>q \<in> set ((n_pq n)[p := pq]). cpl_wf tab q"
      by (rule pq_step_wf [OF ok p]) (use wf P queued_disjoint [OF ok p] in blast)+
    then show ?thesis by (simp add: n')
  qed
  have "pool (\<lambda>j. pq_elems ((n_pq n)[p := pq] ! j)) (length (n_pq n)) + add_mset r (mset (pq_elems pq)) =
    queued_reqs n + mset (pq_elems pq)"
    using queued_update [OF p, of pq] P(2) wf by (simp add: queued_reqs_def)
  then show "queued_reqs n = add_mset r (queued_reqs n')" by (simp add: queued_reqs_def n')
qed

text \<open>Posting a completion writes the request's completion entry, which no queue orders by.\<close>

lemma post_cqe_ok:
  assumes "nvme_post_cqe c r n = Some n'" "io_ok n"
  shows "moves n n'" "io_reqs n' = io_reqs n" "n_pq n' = n_pq n" "n_to_ftl n' = n_to_ftl n" "n_to_poller n' = n_to_poller n"
    "\<And>x. get_pri (n_sq n') x = get_pri (n_sq n) x"
proof -
  from assms(1) obtain req cqe where req: "req_at (n_sq n) r = Some req" and
    n': "n_sq n' = set_req (n_sq n) r (req\<lparr>req_cqe := cqe\<rparr>)" "n_pq n' = n_pq n" "n_to_ftl n' = n_to_ftl n"
    "n_to_poller n' = n_to_poller n" "n_cfg n' = n_cfg n"
    by (auto simp: nvme_post_cqe_def Let_def upd_req_def upd_cq_def addr_write_def split: bind_splits prod.splits)
  show "n_pq n' = n_pq n" "n_to_ftl n' = n_to_ftl n" "n_to_poller n' = n_to_poller n" by (rule n')+
  have same: "same_node (n_sq n) (n_sq n') x" for x
    using req by (auto simp: n' same_node_def get_pri_def get_pos_def req_at_set_req)
  then show "\<And>x. get_pri (n_sq n') x = get_pri (n_sq n) x" by (simp add: same_node_def)
  have "free_reqs n' = free_reqs n"
    unfolding free_reqs_def n' by (rule free_same) (auto simp: lookup_set_req option.map_comp comp_def)
  then show e: "io_reqs n' = io_reqs n" by (simp add: io_reqs_def queued_reqs_def n')
  have "cpl_wf (n_sq n') q" if "q \<in> set (n_pq n')" for q
    using cpl_wf_same_node [OF _ ballI [OF same]] assms(2) that unfolding n'(2) io_ok_def by blast
  moreover have "(req_at (n_sq n') x = None) = (req_at (n_sq n) x = None)" for x
    using same unfolding same_node_def by blast
  ultimately show "moves n n'" using assms(2) unfolding moves_def io_ok_def e n'(3-5) by blast
qed

lemma peek_pop:
  assumes "pqueue_peek q = Some r"
  obtains tab' q' where "pqueue_pop tab q = (Some r, tab', q')"
  using assms that by (cases "percolate_down tab (q\<lparr>q_size := q_size q - 1, q_d := (q_d q)[1 := q_d q ! (q_size q - 1)]\<rparr>) 1")
    (auto simp: pqueue_peek_def pqueue_pop_def Let_def split: if_splits)

text \<open>Returning the first of a queue to the free list.\<close>

lemma complete_one_ok:
  assumes ok: "io_ok n" and p: "p < length (n_pq n)" and sq: "lookup (n_sq n) (fst r) = Some sq"
    and eq: "pqueue_pop (n_sq (upd_sq n (fst r) (sq\<lparr>sq_req_list := sq_req_list sq @ [snd r]\<rparr>))) (n_pq n ! p) = (Some r, tab, pq)"
    and n': "io_view n' = (tab, n_to_ftl n, n_to_poller n, (n_pq n)[p := pq])" "n_cfg n' = n_cfg n"
  shows "moves n n'"
proof -
  let ?q' = "sq\<lparr>sq_req_list := sq_req_list sq @ [snd r]\<rparr>"
  define n2 where "n2 = upd_sq n (fst r) ?q'"
  define n3 where "n3 = n2\<lparr>n_sq := tab, n_pq := (n_pq n2)[p := pq]\<rparr>"
  have pq2: "n_pq n2 = n_pq n" "n_to_ftl n2 = n_to_ftl n" "n_to_poller n2 = n_to_poller n" by (simp_all add: n2_def upd_sq_def)
  have at2: "req_at (n_sq n2) = req_at (n_sq n)" unfolding n2_def by (rule req_at_upd_sq [OF sq]) simp
  have "cpl_ok n2"
    using io_ok_cpl [OF ok] cpl_wf_upd_sq [OF sq, of ?q'] unfolding cpl_ok_def n2_def
    by (simp add: queued_reqs_def upd_sq_def)
  note P = pop_ok [OF this _ _ n3_def, unfolded pq2, OF p eq [folded n2_def]]
  have free2: "free_reqs n2 = add_mset r (free_reqs n)"
    using free_upd_sq [OF sq, of ?q'] by (simp add: n2_def)
  have "free_reqs n3 = free_reqs n2"
    using pos_only_free [OF P(1)] unfolding free_reqs_def n3_def by simp
  moreover have "queued_reqs n2 = queued_reqs n" by (simp add: queued_reqs_def pq2)
  moreover have "n_to_ftl n3 = n_to_ftl n" "n_to_poller n3 = n_to_poller n" by (simp_all add: n3_def pq2)
  ultimately have e3: "io_reqs n3 = io_reqs n" using free2 P(3) by (simp add: io_reqs_def)
  have v: "io_view n' = io_view n3" using n' by (simp add: io_view_def n3_def pq2)
  have at: "(req_at (n_sq n3) x = None) = (req_at (n_sq n) x = None)" for x
    using pos_only_req_at(1) [OF P(1)] at2 by (simp add: n3_def)
  have "io_ok n3"
    using ok P(2) e3 at unfolding io_ok_def by (simp add: n3_def pq2)
  then show ?thesis
    using e3 at io_view_cong [OF v] n'(2) v by (simp add: moves_def io_view_def)
qed

lemma pop_size: "pqueue_pop tab q = (Some r, tab', q') \<Longrightarrow> q_size q' = q_size q - 1"
  by (auto simp: pqueue_pop_def percolate_down_def Let_def split: if_splits prod.splits)

lemma length_pq_elems: "cpl_wf tab q \<Longrightarrow> length (pq_elems q) = q_size q - 1"
  by (simp add: pq_wf_def pq_shape_def pq_elems_def)

text \<open>A turn of the loop: the queue is empty, its first request is not due, or the request is completed.\<close>

lemma complete_loop_Suc:
  assumes "complete_loop (Suc k) rt p d n = Some (d', n')" "io_ok n"
  obtains (Empty) "p < length (n_pq n)" "pqueue_peek (n_pq n ! p) = None" "n' = n"
  | (Later) r where "p < length (n_pq n)" "pqueue_peek (n_pq n ! p) = Some r" "rt (n_clk n) < get_pri (n_sq n) r"
      "n' = n\<lparr>n_clk := n_clk n + 1\<rparr>"
  | (Post) r n3 where "p < length (n_pq n)" "pqueue_peek (n_pq n ! p) = Some r" "moves n n3" "n_clk n3 = n_clk n + 1"
      "q_size (n_pq n3 ! p) = q_size (n_pq n ! p) - 1" "p < length (n_pq n3)"
      "complete_loop k rt p (d + 1) n3 = Some (d', n')"
proof -
  have p: "p < length (n_pq n)" using assms(1) by (auto split: if_splits)
  show ?thesis
  proof (cases "pqueue_peek (n_pq n ! p)")
    case None
    then show ?thesis using Empty p assms(1) by simp
  next
    case (Some r)
    define n1 where "n1 = n\<lparr>n_clk := n_clk n + 1\<rparr>"
    have m1: "moves n n1" by (rule moves_view [OF moves_refl [OF assms(2)]]) (simp_all add: n1_def io_view_def)
    from assms(1) Some p obtain req where req: "req_at (n_sq n) r = Some req"
      by (auto simp: Let_def split: bind_splits)
    show ?thesis
    proof (cases "rt (n_clk n) < req_expire_time req")
      case True
      then show ?thesis using Later [OF p Some] assms(1) Some p req by (simp add: get_pri_def Let_def)
    next
      case False
      from assms(1) Some p req False obtain n2 sq where n2: "nvme_post_cqe (fst r) r n1 = Some n2"
        and sq: "lookup (n_sq n2) (fst r) = Some sq"
        by (auto simp: Let_def n1_def split: bind_splits if_splits)
      have ok1: "io_ok n1" using m1 by (simp add: moves_def)
      note C = post_cqe_ok [OF n2 ok1]
      have ok2: "io_ok n2" using C(1) by (simp add: moves_def)
      have pq2: "n_pq n2 = n_pq n" using C(3) by (simp add: n1_def)
      have clk2: "n_clk n2 = n_clk n + 1"
        using n2 by (auto simp: nvme_post_cqe_def n1_def Let_def upd_req_def upd_cq_def addr_write_def split: bind_splits prod.splits)
      let ?n = "upd_sq n2 (fst r) (sq\<lparr>sq_req_list := sq_req_list sq @ [snd r]\<rparr>)"
      obtain tab pq where P: "pqueue_pop (n_sq ?n) (n_pq n ! p) = (Some r, tab, pq)"
        using peek_pop [OF Some] by blast
      define n3 where "n3 = ?n\<lparr>n_sq := tab, n_pq := (n_pq ?n)[p := pq], n_nr_tt_ios := n_nr_tt_ios ?n + 1,
        n_nr_tt_late_ios := n_nr_tt_late_ios ?n + (if 20000 \<le> rt (n_clk n) - req_expire_time req then 1 else 0),
        n_should_isr := (n_should_isr ?n)[fst r := True]\<rparr>"
      have loop: "complete_loop k rt p (d + 1) n3 = Some (d', n')"
        using assms(1) Some p req False n2 sq P pq2
        by (auto simp: Let_def n1_def n3_def upd_sq_def split: bind_splits if_splits)
      have "moves n2 n3"
        by (rule complete_one_ok [OF ok2 _ sq P [folded pq2]])
          (simp_all add: p pq2 n3_def io_view_def upd_sq_def)
      from moves_trans [OF moves_trans [OF m1 C(1)] this] have m3: "moves n n3" .
      have "n_clk n3 = n_clk n + 1" "q_size (n_pq n3 ! p) = q_size (n_pq n ! p) - 1" "p < length (n_pq n3)"
        using clk2 pop_size [OF P] p by (simp_all add: n3_def upd_sq_def pq2)
      then show ?thesis using Post [OF p Some m3] loop by blast
    qed
  qed
qed

lemma complete_loop_ok:
  assumes "complete_loop k rt p d n = Some (d', n')" "io_ok n"
  shows "moves n n'"
  using assms
proof (induction k arbitrary: d n)
  case (Suc k)
  from Suc.prems show ?case
  proof (cases rule: complete_loop_Suc)
    case Empty
    then show ?thesis using Suc.prems(2) by (simp add: moves_refl)
  next
    case (Later r)
    then show ?thesis by (intro moves_view [OF moves_refl [OF Suc.prems(2)]]) (simp_all add: io_view_def)
  next
    case (Post r n3)
    then have "io_ok n3" by (simp add: moves_def)
    from moves_trans [OF Post(3) Suc.IH [OF Post(7) this]] show ?thesis .
  qed
qed (simp add: moves_refl)

text \<open>What the loop leaves in the queue was not due when it began, if the clock does not run backwards.\<close>

lemma peek_first:
  assumes "cpl_wf tab q" "pqueue_peek q = Some r" "x \<in> set (pq_elems q)"
  shows "get_pri tab r \<le> get_pri tab x"
proof -
  obtain tab' q' where "pqueue_pop tab q = (Some r, tab', q')" using peek_pop [OF assms(2)] by blast
  from cpl.pop_wf(5) [OF _ _ this] assms(1,3) show ?thesis by (auto simp: cpl.le_def cmp_pri_def)
qed

lemma complete_loop_due:
  assumes "complete_loop k rt p d n = Some (d', n')" "io_ok n" "mono rt" "q_size (n_pq n ! p) - 1 \<le> k" "p < length (n_pq n)"
    "r \<in> set (pq_elems (n_pq n' ! p))"
  shows "rt (n_clk n) < get_pri (n_sq n') r"
  using assms
proof (induction k arbitrary: d n)
  case 0
  then have "cpl_wf (n_sq n) (n_pq n ! p)" by (simp add: io_ok_def)
  from length_pq_elems [OF this] 0 show ?case by simp
next
  case (Suc k)
  have wf: "cpl_wf (n_sq n) (n_pq n ! p)" using Suc.prems(2,5) by (simp add: io_ok_def)
  from Suc.prems(1,2) show ?case
  proof (cases rule: complete_loop_Suc)
    case Empty
    then show ?thesis using length_pq_elems [OF wf] Suc.prems(6) by (auto simp: pqueue_peek_def split: if_splits)
  next
    case (Later r')
    then show ?thesis using peek_first [OF wf Later(2), of r] Suc.prems(6) by simp
  next
    case (Post r' n3)
    then have "io_ok n3" by (simp add: moves_def)
    moreover have "q_size (n_pq n3 ! p) - 1 \<le> k" using Post(5) Suc.prems(4) by simp
    ultimately have "rt (n_clk n3) < get_pri (n_sq n') r"
      using Suc.IH [OF Post(7) _ Suc.prems(3) _ Post(6) Suc.prems(6)] by blast
    moreover have "rt (n_clk n) \<le> rt (n_clk n3)" using Suc.prems(3) Post(4) by (simp add: mono_def)
    ultimately show ?thesis by simp
  qed
qed

text \<open>Taking a request from a ring.  \<open>in_poller\<close> tells which of the two arrays of rings.\<close>

definition put_ring :: "bool \<Rightarrow> nat \<Rightarrow> req_id rte_ring \<Rightarrow> femu \<Rightarrow> femu" where
  "put_ring in_poller p ring n =
     (if in_poller then n\<lparr>n_to_poller := (n_to_poller n)[p := ring]\<rparr> else n\<lparr>n_to_ftl := (n_to_ftl n)[p := ring]\<rparr>)"

definition the_ring :: "bool \<Rightarrow> nat \<Rightarrow> femu \<Rightarrow> req_id rte_ring" where
  "the_ring in_poller p n = (if in_poller then n_to_poller n else n_to_ftl n) ! p"

definition has_ring :: "bool \<Rightarrow> nat \<Rightarrow> femu \<Rightarrow> bool" where
  "has_ring in_poller p n \<longleftrightarrow> p < length (if in_poller then n_to_poller n else n_to_ftl n)"

lemma put_ring_simps [simp]:
  "n_sq (put_ring b p ring n) = n_sq n" "n_pq (put_ring b p ring n) = n_pq n" "n_cfg (put_ring b p ring n) = n_cfg n"
  "put_ring b p ring (put_ring b p ring' n) = put_ring b p ring n" "has_ring b p (put_ring b p' ring n) = has_ring b p n"
  "has_ring b p n \<Longrightarrow> the_ring b p (put_ring b p ring n) = ring"
  by (auto simp: put_ring_def has_ring_def the_ring_def)

lemma put_ring_reqs:
  assumes "has_ring b p n"
  shows "io_reqs (put_ring b p ring n) + mset (ring_contents (the_ring b p n)) = io_reqs n + mset (ring_contents ring)"
  using rings_update [of p "if b then n_to_poller n else n_to_ftl n" ring] assms
  by (auto simp: put_ring_def has_ring_def the_ring_def io_reqs_def free_reqs_def queued_reqs_def ac_simps)

lemma put_ring_ok:
  assumes "io_ok n" "io_reqs (put_ring b p ring n) \<subseteq># io_reqs n" "ring_ok ring"
  shows "io_ok (put_ring b p ring n)"
proof -
  have "\<forall>x \<in> set (n_to_ftl (put_ring b p ring n)) \<union> set (n_to_poller (put_ring b p ring n)). ring_ok x"
    using assms(1,3) by (auto simp: io_ok_def put_ring_def dest!: set_update_subset_insert [THEN subsetD])
  moreover have "single (io_reqs (put_ring b p ring n))"
    using assms(1,2) single_mono unfolding io_ok_def by blast
  ultimately show ?thesis
    using assms(1) mset_subset_eqD [OF assms(2)] unfolding io_ok_def by simp
qed

lemma receive_ok:
  assumes "io_ok n" "has_ring b p n" "ring_receive null (the_ring b p n) = Some (Some r, ring)"
  shows "io_ok (put_ring b p ring n)" "io_reqs n = add_mset r (io_reqs (put_ring b p ring n))"
    "r \<notin># io_reqs (put_ring b p ring n)" "req_at (n_sq n) r \<noteq> None"
proof -
  have "ring_ok (the_ring b p n)" using assms(1,2) by (auto simp: io_ok_def has_ring_def the_ring_def)
  note R = ring_receive_ok [OF assms(3) this]
  show e: "io_reqs n = add_mset r (io_reqs (put_ring b p ring n))"
    using put_ring_reqs [OF assms(2), of ring] R(2) by simp
  then show "io_ok (put_ring b p ring n)" using put_ring_ok [OF assms(1) _ R(1)] by simp
  show "r \<notin># io_reqs (put_ring b p ring n)" using assms(1) e single_add unfolding io_ok_def by metis
  have "r \<in># io_reqs n" unfolding e by simp
  then show "req_at (n_sq n) r \<noteq> None" using assms(1) unfolding io_ok_def by blast
qed

lemma drain_ring_ok:
  assumes "drain_ring k realloc_ok p n ring = Some (ring', n')" "io_ok (put_ring b p ring n)" "has_ring b p n"
  shows "moves (put_ring b p ring n) (put_ring b p ring' n')" "length (n_pq n') = length (n_pq n)"
proof -
  have "moves (put_ring b p ring n) (put_ring b p ring' n') \<and> length (n_pq n') = length (n_pq n)"
    using assms
  proof (induction k arbitrary: n ring)
    case (Suc k)
    let ?n = "put_ring b p ring n"
    from Suc.prems(1) obtain r ring1 rc tab pq where p: "p < length (n_pq n)" and
      rr: "ring_receive null_req ring = Some (Some r, ring1)" and
      ins: "pqueue_insert realloc_ok null_req (n_sq n) (n_pq n ! p) r = (rc, tab, pq)" and
      rest: "drain_ring k realloc_ok p (n\<lparr>n_sq := tab, n_pq := (n_pq n)[p := pq]\<rparr>) ring1 = Some (ring', n')"
      by (auto split: if_splits bind_splits option.splits prod.splits)
    let ?n1 = "n\<lparr>n_sq := tab, n_pq := (n_pq n)[p := pq]\<rparr>"
    have rr': "ring_receive null_req (the_ring b p ?n) = Some (Some r, ring1)" using rr Suc.prems(3) by simp
    have hr: "has_ring b p ?n" using Suc.prems(3) by simp
    note R = receive_ok [OF Suc.prems(2) hr rr', simplified]
    have eq: "put_ring b p ring1 ?n1 =
      (put_ring b p ring1 n)\<lparr>n_sq := tab, n_pq := (n_pq (put_ring b p ring1 n))[p := pq]\<rparr>"
      by (simp add: put_ring_def)
    have "p < length (n_pq (put_ring b p ring1 n))" "req_at (n_sq (put_ring b p ring1 n)) r \<noteq> None"
      "pqueue_insert realloc_ok null_req (n_sq (put_ring b p ring1 n)) (n_pq (put_ring b p ring1 n) ! p) r = (rc, tab, pq)"
      using R(4) p ins by simp_all
    note I = insert_ok [OF R(1) this(1) R(3) this(2,3) eq]
    have hr1: "has_ring b p ?n1" using Suc.prems(3) by (cases b) (simp_all add: has_ring_def)
    have "io_reqs (put_ring b p ring1 ?n1) \<subseteq># io_reqs ?n" using I(2) R(2) by simp
    then have m: "moves ?n (put_ring b p ring1 ?n1)"
      using I(1,3) unfolding moves_def by simp
    have "moves (put_ring b p ring1 ?n1) (put_ring b p ring' n') \<and> length (n_pq n') = length (n_pq ?n1)"
      by (rule Suc.IH [OF rest I(1) hr1])
    then show ?case using moves_trans [OF m] by simp
  qed (simp add: moves_refl)
  then show "moves (put_ring b p ring n) (put_ring b p ring' n')" "length (n_pq n') = length (n_pq n)" by blast+
qed

lemma notify_view:
  "nvme_isr_notify_io n c = Some n' \<Longrightarrow> io_view n' = io_view n \<and> n_cfg n' = n_cfg n"
  by (auto simp: nvme_isr_notify_io_def nvme_isr_notify_legacy_def msix_notify_def msi_notify_def pci_irq_pulse_def
      send_irq_def io_view_def upd_cq_def split: option.splits if_splits)

lemma notify_loop_view: "notify_loop is n = Some n' \<Longrightarrow> io_view n' = io_view n \<and> n_cfg n' = n_cfg n"
proof (induction "is" arbitrary: n)
  case (Cons i "is")
  then show ?case by (auto simp: io_view_def split: if_splits bind_splits dest!: notify_view)
qed simp

lemma nvme_process_cq_cpl_ok:
  assumes "nvme_process_cq_cpl realloc_ok rt p n = Some n'" "io_ok n"
  shows "moves n n'"
proof -
  define b where "b = BBSSD n"
  from assms(1) obtain ring n1 d n2 where hr: "has_ring b p n" and
    dr: "drain_ring (femu_ring_count (the_ring b p n)) realloc_ok p n (the_ring b p n) = Some (ring, n1)" and
    cl: "complete_loop (pqueue_size (n_pq (put_ring (BBSSD n1) p ring n1) ! p)) rt p 0 (put_ring (BBSSD n1) p ring n1) = Some (d, n2)" and
    n': "(if d = 0 then Some n2 else if p_multipoller_enabled (n_cfg n2) = 1 then nvme_isr_notify_io n2 p
        else notify_loop [1..<unat (p_num_io_queues (n_cfg n2)) + 1] n2) = Some n'"
    unfolding nvme_process_cq_cpl_def ring_at_def b_def has_ring_def the_ring_def put_ring_def Let_def
    by (auto split: if_splits bind_splits)
  have same: "put_ring b p (the_ring b p n) n = n" by (simp add: put_ring_def the_ring_def)
  note D = drain_ring_ok [OF dr, where b = b, unfolded same, OF assms(2) hr]
  have "BBSSD n1 = b" using D(1) by (simp add: moves_def b_def BBSSD_def)
  with cl have "moves (put_ring b p ring n1) n2" using complete_loop_ok D(1) by (auto simp: moves_def)
  with D(1) have m: "moves n n2" by (rule moves_trans)
  have "io_view n' = io_view n2 \<and> n_cfg n' = n_cfg n2"
    using n' notify_view notify_loop_view by (auto split: if_splits)
  with m show ?thesis using moves_view by blast
qed

subsection \<open>The thread of the flash translation layer\<close>

lemma ftl_step_ok:
  assumes "ftl_step fuel rt p (lat, n) = Some (lat', n')" "io_ok n"
  shows "moves n n'"
proof (cases "n' = n")
  case True
  then show ?thesis using assms(2) by (simp add: moves_refl)
next
  case False
  with assms(1) obtain r ring req out lat1 sent s where hr: "has_ring False p n" and
    rr: "ring_receive null_req (the_ring False p n) = Some (Some r, ring)" and
    req: "req_at (n_sq n) r = Some req" and
    po: "p < length (n_to_poller n)" "ring_send (n_to_poller n ! p) r = Some (sent, out)" and
    n': "n' = (upd_req (put_ring False p ring n) r
        (req\<lparr>req_reqlat := lat1, req_expire_time := req_expire_time req + lat1\<rparr>))
        \<lparr>n_to_poller := (n_to_poller n)[p := out], n_ssd := Some s\<rparr>"
    unfolding ftl_step_def ring_at_def has_ring_def the_ring_def put_ring_def Let_def
    by (auto simp: upd_req_def split: if_splits bind_splits sum.splits)
  let ?n1 = "put_ring False p ring n"
  note R = receive_ok [OF assms(2) hr rr]
  have nq: "r \<notin># queued_reqs ?n1" using R(3) mem_queued_io by blast
  define n2 where "n2 = upd_req ?n1 r (req\<lparr>req_reqlat := lat1, req_expire_time := req_expire_time req + lat1\<rparr>)"
  note U = upd_req_ok [OF R(1) nq, of "req\<lparr>req_reqlat := lat1, req_expire_time := req_expire_time req + lat1\<rparr>", folded n2_def]
  have tp: "n_to_poller n2 = n_to_poller n" by (simp add: n2_def upd_req_def put_ring_def)
  have v: "io_view n' = io_view (put_ring True p out n2)"
    by (simp add: n' n2_def io_view_def put_ring_def upd_req_def)
  have ok: "ring_ok (n_to_poller n ! p)" using assms(2) po(1) by (simp add: io_ok_def)
  note S = ring_send_ok [OF po(2) ok]
  have hr2: "has_ring True p n2" using po(1) by (simp add: has_ring_def tp)
  have e: "io_reqs (put_ring True p out n2) = (if sent then {#r#} else {#}) + io_reqs ?n1"
    using put_ring_reqs [OF hr2, of out] S(2) U(2) by (simp add: the_ring_def tp ac_simps)
  then have sub: "io_reqs (put_ring True p out n2) \<subseteq># io_reqs n" using R(2) by simp
  have "single (io_reqs (put_ring True p out n2))" using single_mono [OF _ sub] assms(2) by (simp add: io_ok_def)
  moreover have "req_at (n_sq n2) x \<noteq> None" if "x \<in># io_reqs n" for x
    using assms(2) that U(3) unfolding io_ok_def moves_def put_ring_simps by blast
  moreover have "\<forall>x \<in> set (n_to_ftl (put_ring True p out n2)) \<union> set (n_to_poller (put_ring True p out n2)). ring_ok x"
    using U(1) S(1) by (auto simp: io_ok_def put_ring_def dest!: set_update_subset_insert [THEN subsetD])
  moreover have "\<forall>q \<in> set (n_pq n2). cpl_wf (n_sq n2) q" using U(1) by (simp add: io_ok_def)
  ultimately have "io_ok (put_ring True p out n2)"
    using mset_subset_eqD [OF sub] unfolding io_ok_def put_ring_simps by blast
  moreover have "(req_at (n_sq n2) x = None) = (req_at (n_sq n) x = None)" for x
    using U(3) unfolding moves_def put_ring_simps by blast
  ultimately show ?thesis
    using sub io_view_cong [OF v] v by (simp add: moves_def io_view_def n' n2_def upd_req_def)
qed

end
