(* ===== verification/Femu_Init.thy ===== *)
theory Femu_Init
  imports Nvme_Io
begin

text \<open>
  Bringing the controller up and down: \<open>femu/femu.c\<close> without the doorbells.  A device starts as zeroed
  memory with its properties (\<open>calloc_femu\<close>), \<open>femu_realize\<close> builds controller and namespace, a host
  enables it through the registers (\<open>nvme_write_bar\<close>, \<open>nvme_start_ctrl\<close>) and disables it again
  (\<open>nvme_clear_ctrl\<close>).  \<open>None\<close> is a failed assertion, an abort or an access outside an array.
\<close>

subsection \<open>Zeroed memory and device properties\<close>

definition zero_bar :: NvmeBar where
  "zero_bar = \<lparr>bar_cap = 0, bar_vs = 0, bar_intms = 0, bar_intmc = 0, bar_cc = 0, bar_csts = 0, bar_nssrc = 0,
     bar_aqa = 0, bar_asq = 0, bar_acq = 0, bar_cmbloc = 0, bar_cmbsz = 0\<rparr>"

definition zero_features :: NvmeFeatureVal where
  "zero_features = \<lparr>feat_arbitration = 0, feat_power_mgmt = 0, feat_temp_thresh = 0, feat_err_rec = 0,
     feat_volatile_wc = 0, feat_num_io_queues = 0, feat_int_coalescing = 0, feat_int_vector_config = [],
     feat_write_atomicity = 0, feat_async_config = 0, feat_sw_prog_marker = 0\<rparr>"

definition zero_id_ctrl :: NvmeIdCtrl where
  "zero_id_ctrl = \<lparr>ic_vid = 0, ic_ssvid = 0, ic_sn = replicate 20 0, ic_mn = replicate 40 0, ic_fr = replicate 8 0,
     ic_rab = 0, ic_ieee = replicate 3 0, ic_cmic = 0, ic_mdts = 0, ic_ver = 0, ic_oacs = 0, ic_acl = 0, ic_aerl = 0,
     ic_frmw = 0, ic_lpa = 0, ic_elpe = 0, ic_npss = 0, ic_sqes = 0, ic_cqes = 0, ic_nn = 0, ic_oncs = 0,
     ic_fuses = 0, ic_fna = 0, ic_vwc = 0, ic_awun = 0, ic_awupf = 0, ic_subnqn = replicate 256 0, ic_psd0_mp = 0,
     ic_psd0_enlat = 0, ic_psd0_exlat = 0\<rparr>"

definition zero_id_ns :: NvmeIdNs where
  "zero_id_ns = \<lparr>idns_nsze = 0, idns_ncap = 0, idns_nuse = 0, idns_nsfeat = 0, idns_nlbaf = 0, idns_flbas = 0,
     idns_mc = 0, idns_dpc = 0, idns_dps = 0, idns_nmic = 0, idns_rescap = 0, idns_fpi = 0, idns_dlfeat = 0,
     idns_nawun = 0, idns_nawupf = 0, idns_nacwu = 0, idns_nabsn = 0, idns_nabo = 0, idns_nabspf = 0, idns_noiob = 0,
     idns_nvmcap = replicate 16 0, idns_npwg = 0, idns_npwa = 0, idns_npdg = 0, idns_npda = 0, idns_nows = 0,
     idns_nguid = replicate 16 0, idns_eui64 = 0,
     idns_lbaf = replicate 16 \<lparr>lbaf_ms = 0, lbaf_lbads = 0, lbaf_rp = 0\<rparr>, idns_vs = 0\<rparr>"

definition zero_ns :: NvmeNamespace where
  "zero_ns = \<lparr>ns_id_ns = zero_id_ns, ns_lba_range = replicate 4096 0, ns_util = [], ns_uncorrectable = [], ns_id = 0,
     ns_size = 0, ns_ns_blks = 0, ns_start_block = 0, ns_tbl_entries = 0, ns_tbl = [], ns_bbtbl = [], ns_blk_begin = 0,
     ns_blk_predef = 0, ns_blk_data = 0, ns_blk_meta = 0, ns_state = None\<rparr>"

definition zero_error_log :: NvmeErrorLog where
  "zero_error_log = \<lparr>el_error_count = 0, el_sqid = 0, el_cid = 0, el_status_field = 0, el_param_error_location = 0,
     el_lba = 0, el_nsid = 0\<rparr>"

definition zero_lat :: nand_lat where
  "zero_lat = \<lparr>upg_rd_lat_ns = 0, cpg_rd_lat_ns = 0, cupg_rd_lat_ns = 0, clpg_rd_lat_ns = 0, lpg_rd_lat_ns = 0,
     upg_wr_lat_ns = 0, cpg_wr_lat_ns = 0, cupg_wr_lat_ns = 0, clpg_wr_lat_ns = 0, lpg_wr_lat_ns = 0,
     blk_er_lat_ns = 0, chnl_pg_xfer_lat_ns = 0\<rparr>"

definition zero_zns :: zns where
  "zero_zns = \<lparr>z_zoned = False, cross_zone_read = False, zone_size_bs = 0, zone_cap_bs = False, max_active_zones = 0,
     max_open_zones = 0, zd_extension_size = 0, zone_array = [], exp_open_zones = [], imp_open_zones = [],
     closed_zones = [], full_zones = [], num_zones = 0, zone_size = 0, zone_capacity = 0, zone_size_log2 = 0,
     zd_extensions = [], nr_open_zones = 0, nr_active_zones = 0, zasl_bs = 0, zasl = 0, z_csi = 0,
     id_ns_zoned = None, z_page_size = 0, z_mdts = 0, z_err_rec = 0, zns_size = 0, zns_lbads = 0, zns_nsze = 0,
     zns_ncap = 0, zns_nuse = 0, zns_npdg = 0, zns_nsfeat = 0\<rparr>"

definition zero_oc20_hdr :: Oc20Header where
  "zero_oc20_hdr = \<lparr>hdr_magic = 0, hdr_version = 0, hdr_num_namespaces = 0, hdr_sector_size = 0, hdr_md_size = 0,
     hdr_ns_size = 0\<rparr>"

definition zero_oc20_params :: Oc20Params where
  "zero_oc20_params = \<lparr>par20_mccap = 0, par20_ws_min = 0, par20_ws_opt = 0, par20_mw_cunits = 0, par20_early_reset = 0,
     par20_resetfail_fname = No_file, par20_writefail_fname = No_file\<rparr>"

definition zero_dma :: dma_ctx where
  "zero_dma = \<lparr>dma_page_size = 0, dma_page_bits = 0, dma_max_prp_ents = 0, dma_cmbsz = 0, ctrl_mem_addr = 0,
     ctrl_mem_size = 0, dma_cmbuf = []\<rparr>"

text \<open>The defaults of the property list.\<close>

definition default_props :: femu_props where
  "default_props = \<lparr>p_memsz = 1024, p_num_namespaces = 1, p_num_io_queues = 8, p_max_q_ents = 0x7ff,
     p_multipoller_enabled = 0, p_max_cqes = 4, p_max_sqes = 6, p_db_stride = 0, p_aerl = 3, p_acl = 3, p_elpe = 3,
     p_mdts = 10, p_cqr = 1, p_vwc = 0, p_intc = 0, p_intc_thresh = 0, p_intc_time = 0, p_mpsmin = 0, p_mpsmax = 0,
     p_nlbaf = 5, p_lba_index = 0, p_extended = 0, p_dpc = 0, p_dps = 0, p_mc = 0, p_meta = 0, p_cmbsz = 0,
     p_cmbloc = 0, p_oacs = oacs_bit NVME_OACS_FORMAT, p_oncs = oncs_bit NVME_ONCS_DSM, p_vid = 0x1d1d,
     p_did = 0x1f1f, p_femu_mode = femu_mode_code FEMU_NOSSD_MODE, p_flash_type = 2, p_lver = 2, p_ms_max = 64,
     p_oc = \<lparr>ocp_sec_size = 4096, ocp_secs_per_pg = 4, ocp_pgs_per_blk = 512, ocp_max_sec_per_rq = 64, ocp_num_ch = 2,
       ocp_num_lun = 8, ocp_num_pln = 2, ocp_sos = 16\<rparr>\<rparr>"

text \<open>The device after \<open>calloc\<close> and \<open>props_init\<close>: the memory of the host and the interrupt state of the
  simulator are what they are.\<close>

definition calloc_femu :: "femu_props \<Rightarrow> host_mem \<Rightarrow> irq_state \<Rightarrow> femu" where
  "calloc_femu cfg h irq =
     \<lparr>n_cfg = cfg, n_bar = zero_bar, n_dma = zero_dma, n_host = h,
      n_mbe = \<lparr>logical_space = [], be_size = 0, be_femu_mode = 0\<rparr>, n_cqe_size = 0, n_sqe_size = 0, n_reg_size = 0,
      n_ns_size = 0, n_temperature = 0, n_elpes = [], n_elp_index = 0, n_error_count = 0, n_num_errors = 0,
      n_temp_warn_issued = 0, n_aer_mask = 0, n_csi = 0, n_namespaces = [], n_sq = [], n_cq = [],
      n_admin_sq = zero_sq, n_admin_cq = zero_cq, n_features = zero_features, n_id_ctrl = zero_id_ctrl,
      n_devname = replicate 64 0, n_dbs_addr = 0, n_eis_addr = 0, n_dataplane_started = False,
      n_vector_poll_started = False, n_poller_on = False, n_print_log = False, n_irq = irq, n_to_ftl = [],
      n_to_poller = [], n_pq = [], n_should_isr = [], n_num_poller = 0, n_nr_tt_ios = 0, n_nr_tt_late_ios = 0,
      n_lat = zero_lat, n_zns = zero_zns, n_ssd = None, n_oc12_ctrl = None, n_oc20_hdr = zero_oc20_hdr,
      n_params_oc20 = zero_oc20_params, n_chip_next_avail_time = replicate 128 0, n_chnl_next_avail_time = replicate 32 0,
      n_nand = static_nand, n_clk = 0\<rparr>"

subsection \<open>Checks of the configuration\<close>

definition NVME_MAX_QS :: u32 where "NVME_MAX_QS = 0x7ff"
definition NVME_MAX_STRIDE :: u8 where "NVME_MAX_STRIDE = 12"
definition NVME_MAX_NUM_NAMESPACES :: u32 where "NVME_MAX_NUM_NAMESPACES = 256"
definition NVME_MAX_QUEUE_ES :: u8 where "NVME_MAX_QUEUE_ES = 0xf"
definition NVME_MIN_CQUEUE_ES :: u8 where "NVME_MIN_CQUEUE_ES = 4"
definition NVME_MIN_SQUEUE_ES :: u8 where "NVME_MIN_SQUEUE_ES = 6"
definition DPS_FIRST_EIGHT :: u8 where "DPS_FIRST_EIGHT = 8"

definition NVME_ID_NS_MC_SEPARATE :: "u8 \<Rightarrow> u8" where "NVME_ID_NS_MC_SEPARATE mc = drop_bit 1 mc AND 1"
definition NVME_ID_NS_MC_EXTENDED :: "u8 \<Rightarrow> u8" where "NVME_ID_NS_MC_EXTENDED mc = mc AND 1"
definition NVME_ID_NS_DPC_LAST_EIGHT :: "u8 \<Rightarrow> u8" where "NVME_ID_NS_DPC_LAST_EIGHT dpc = drop_bit 4 dpc AND 1"
definition NVME_ID_NS_DPC_FIRST_EIGHT :: "u8 \<Rightarrow> u8" where "NVME_ID_NS_DPC_FIRST_EIGHT dpc = drop_bit 3 dpc AND 1"

text \<open>Does the configuration pass?\<close>

definition nvme_check_constraints :: "femu_props \<Rightarrow> bool" where
  "nvme_check_constraints c \<longleftrightarrow>
     \<not> ((p_num_namespaces c = 0 \<or> NVME_MAX_NUM_NAMESPACES < p_num_namespaces c)
        \<or> (p_num_io_queues c < 1 \<or> NVME_MAX_QS < p_num_io_queues c)
        \<or> NVME_MAX_STRIDE < p_db_stride c
        \<or> p_max_q_ents c < 1
        \<or> (NVME_MAX_QUEUE_ES < p_max_sqes c \<or> NVME_MAX_QUEUE_ES < p_max_cqes c \<or> p_max_sqes c < NVME_MIN_SQUEUE_ES
           \<or> p_max_cqes c < NVME_MIN_CQUEUE_ES)
        \<or> (1 < p_vwc c \<or> 1 < p_intc c \<or> 1 < p_cqr c \<or> 1 < p_extended c)
        \<or> 16 < p_nlbaf c
        \<or> p_nlbaf c \<le> p_lba_index c
        \<or> (p_meta c \<noteq> 0 \<and> p_mc c = 0)
        \<or> (p_extended c \<noteq> 0 \<and> NVME_ID_NS_MC_EXTENDED (p_mc c) = 0)
        \<or> (p_extended c = 0 \<and> p_meta c \<noteq> 0 \<and> NVME_ID_NS_MC_SEPARATE (p_mc c) = 0)
        \<or> (p_dps c \<noteq> 0 \<and> p_meta c < 8)
        \<or> (p_dps c \<noteq> 0 \<and> p_dps c AND DPS_FIRST_EIGHT \<noteq> 0 \<and> NVME_ID_NS_DPC_FIRST_EIGHT (p_dpc c) = 0)
        \<or> (p_dps c \<noteq> 0 \<and> p_dps c AND DPS_FIRST_EIGHT = 0 \<and> NVME_ID_NS_DPC_LAST_EIGHT (p_dpc c) = 0)
        \<or> (p_dps c AND DPS_TYPE_MASK \<noteq> 0 \<and>
           (p_dpc c AND NVME_ID_NS_DPC_TYPE_MASK) AND push_bit (unat (p_dps c AND DPS_TYPE_MASK) - 1) 1 = 0)
        \<or> (0xf < p_mpsmax c \<or> p_mpsmin c < p_mpsmax c)
        \<or> p_oacs c AND NOT (oacs_bit NVME_OACS_FORMAT) \<noteq> 0
        \<or> p_oncs c AND NOT (oncs_bit NVME_ONCS_COMPARE OR oncs_bit NVME_ONCS_WRITE_UNCORR OR oncs_bit NVME_ONCS_DSM
             OR oncs_bit NVME_ONCS_WRITE_ZEROS) \<noteq> 0)"

subsection \<open>Namespaces\<close>

definition BDRV_SECTOR_BITS :: u8 where "BDRV_SECTOR_BITS = 9"

definition nvme_ns_init_identify :: "femu_props \<Rightarrow> NvmeIdNs \<Rightarrow> NvmeIdNs option" where
  "nvme_ns_init_identify c id_ns =
     (if 16 < p_nlbaf c then None
      else Some (id_ns\<lparr>idns_nsfeat := idns_nsfeat id_ns OR (0x4 OR 0x10), idns_nlbaf := p_nlbaf c - 1,
        idns_flbas := p_lba_index c OR push_bit 4 (p_extended c), idns_mc := p_mc c, idns_dpc := p_dpc c,
        idns_dps := p_dps c, idns_dlfeat := 9, idns_npda := 0, idns_npdg := 0,
        idns_lbaf :=
          map (\<lambda>i. if i < unat (p_nlbaf c)
                   then (idns_lbaf id_ns ! i)\<lparr>lbaf_lbads := BDRV_SECTOR_BITS + of_nat i, lbaf_ms := ucast (p_meta c)\<rparr>
                   else if i = 0 then (idns_lbaf id_ns ! i)\<lparr>lbaf_lbads := 9, lbaf_ms := 0\<rparr>
                   else idns_lbaf id_ns ! i) [0..<16]\<rparr>))"

definition set_nsze :: "u64 \<Rightarrow> NvmeIdNs \<Rightarrow> NvmeIdNs" where
  "set_nsze k id_ns = id_ns\<lparr>idns_nsze := k, idns_ncap := k, idns_nuse := k\<rparr>"

definition nvme_init_namespace :: "femu \<Rightarrow> NvmeNamespace \<Rightarrow> (NvmeNamespace \<times> femu) option" where
  "nvme_init_namespace n ns =
     do {
       id_ns \<leftarrow> nvme_ns_init_identify (n_cfg n) (ns_id_ns ns);
       let lba_index = NVME_ID_NS_FLBAS_INDEX (idns_flbas id_ns);
       let num_blks = n_ns_size n div scast (push_bit (unat (lbaf_lbads (idns_lbaf id_ns ! unat lba_index))) 1 :: u32);
       let ns = ns\<lparr>ns_id_ns := set_nsze num_blks id_ns\<rparr>;
       blks \<leftarrow> ns_blks n ns lba_index;
       Some (ns\<lparr>ns_ns_blks := blks, ns_util := bitmap_new (unat num_blks), ns_uncorrectable := bitmap_new (unat num_blks)\<rparr>,
             n\<lparr>n_csi := csi_code NVME_CSI_NVM\<rparr>)
     }"

text \<open>The assertion leaves exactly one namespace.\<close>

definition nvme_init_namespaces :: "femu \<Rightarrow> femu option" where
  "nvme_init_namespaces n =
     (if p_num_namespaces (n_cfg n) \<noteq> 1 \<or> n_namespaces n = [] then None
      else
        nvme_init_namespace n ((n_namespaces n ! 0)\<lparr>ns_size := n_ns_size n, ns_start_block := 0, ns_id := 1\<rparr>)
        \<bind> (\<lambda>(ns, n). Some (n\<lparr>n_namespaces := (n_namespaces n)[0 := ns]\<rparr>)))"

subsection \<open>The controller\<close>

definition NVME_SPEC_VER :: u32 where "NVME_SPEC_VER = 0x00010400"
definition NVME_TEMPERATURE :: u16 where "NVME_TEMPERATURE = 0x143"

definition init_cap :: "femu_props \<Rightarrow> u64" where
  "init_cap c =
     NVME_CAP_SET_MPSMAX (NVME_CAP_SET_MPSMIN (NVME_CAP_SET_CSS (NVME_CAP_SET_CSS (NVME_CAP_SET_CSS
       (NVME_CAP_SET_NSSRS (NVME_CAP_SET_DSTRD (NVME_CAP_SET_TO (NVME_CAP_SET_AMS (NVME_CAP_SET_CQR
         (NVME_CAP_SET_MQES 0 (ucast (p_max_q_ents c))) (ucast (p_cqr c))) 1) 0xf) (ucast (p_db_stride c))) 0) 1)
       (cap_css NVME_CAP_CSS_CSI_SUPP)) (cap_css NVME_CAP_CSS_ADMIN_ONLY)) (ucast (p_mpsmin c))) (ucast (p_mpsmax c))"

text \<open>The serial number of this build is the null pointer, which \<open>vasprintf\<close> prints as \<open>(null)\<close>; the vendor
  identifiers are read back from the configuration space, where \<open>nvme_init_pci\<close> put the first.\<close>

definition nvme_init_ctrl :: "femu \<Rightarrow> femu" where
  "nvme_init_ctrl n =
     (let c = n_cfg n; q = p_num_io_queues c - 1
      in n\<lparr>n_id_ctrl := (n_id_ctrl n)\<lparr>ic_vid := p_vid c, ic_ssvid := 0, ic_rab := 6, ic_ieee := [0, 2, 0xb3], ic_cmic := 0,
             ic_mdts := p_mdts c, ic_ver := 0x00010300, ic_oacs := p_oacs c OR oacs_bit NVME_OACS_DBBUF,
             ic_acl := p_acl c, ic_aerl := p_aerl c, ic_frmw := push_bit 1 7 OR 1, ic_lpa := 7, ic_elpe := p_elpe c,
             ic_npss := 0, ic_sqes := push_bit 4 (p_max_sqes c) OR 6, ic_cqes := push_bit 4 (p_max_cqes c) OR 4,
             ic_nn := p_num_namespaces c, ic_oncs := p_oncs c,
             ic_subnqn := strpadcpy 256 (map (of_char :: char \<Rightarrow> u8) ''nqn.2019-08.org.qemu:(null)'') 0,
             ic_fuses := 0, ic_fna := 0, ic_vwc := p_vwc c, ic_awun := 0, ic_awupf := 0, ic_psd0_mp := 0x9c4,
             ic_psd0_enlat := 0x10, ic_psd0_exlat := 4\<rparr>,
           n_features := (n_features n)\<lparr>feat_arbitration := 0x1f0f0706, feat_power_mgmt := 0, feat_temp_thresh := 0x14d,
             feat_err_rec := 0, feat_volatile_wc := ucast (p_vwc c), feat_num_io_queues := q OR push_bit 16 q,
             feat_int_coalescing := ucast (p_intc_thresh c) OR push_bit 8 (ucast (p_intc_time c)),
             feat_write_atomicity := 0, feat_async_config := 0, feat_sw_prog_marker := 0,
             feat_int_vector_config :=
               map (\<lambda>i. of_nat i OR push_bit 16 (ucast (p_intc c))) [0..<unat (p_num_io_queues c) + 1]\<rparr>,
           n_bar := (n_bar n)\<lparr>bar_cap := init_cap c, bar_vs := NVME_SPEC_VER, bar_intmc := 0, bar_intms := 0\<rparr>,
           n_temperature := NVME_TEMPERATURE\<rparr>)"

subsection \<open>PCI\<close>

definition NVME_CMBSZ_SZ :: "u32 \<Rightarrow> u32" where "NVME_CMBSZ_SZ cmbsz = drop_bit 12 cmbsz AND 0xfffff"
definition NVME_CMBSZ_SZU :: "u32 \<Rightarrow> u32" where "NVME_CMBSZ_SZU cmbsz = drop_bit 8 cmbsz AND 0xf"

definition NVME_CMBSZ_GETSIZE :: "u32 \<Rightarrow> u32" where
  "NVME_CMBSZ_GETSIZE cmbsz = NVME_CMBSZ_SZ cmbsz * push_bit (12 + 4 * unat (NVME_CMBSZ_SZU cmbsz)) 1"

text \<open>Where the simulator puts the memory regions of the device: one after the other from this address.\<close>

definition MR_HW_ADDR :: u64 where "MR_HW_ADDR = 0xf00000000000"

definition nvme_init_cmb :: "femu \<Rightarrow> femu" where
  "nvme_init_cmb n =
     (let c = n_cfg n; size' = NVME_CMBSZ_GETSIZE (p_cmbsz c)
      in n\<lparr>n_bar := (n_bar n)\<lparr>bar_cmbloc := p_cmbloc c, bar_cmbsz := p_cmbsz c\<rparr>,
           n_dma := (n_dma n)\<lparr>dma_cmbsz := p_cmbsz c, dma_cmbuf := replicate (unat size') 0,
             ctrl_mem_addr := MR_HW_ADDR + ucast (n_reg_size n), ctrl_mem_size := ucast size'\<rparr>\<rparr>)"

definition nvme_init_pci :: "femu \<Rightarrow> femu" where
  "nvme_init_pci n =
     (let n = n\<lparr>n_irq := (n_irq n)\<lparr>irq_msix_nvecs := ucast (p_num_io_queues (n_cfg n) + 1)\<rparr>\<rparr>
      in if p_cmbsz (n_cfg n) \<noteq> 0 then nvme_init_cmb n else n)"

text \<open>\<open>pow2ceil\<close> of \<open>bitops.h\<close>; \<open>clz64\<close> is 63 minus the highest bit.\<close>

definition pow2ceil :: "u64 \<Rightarrow> u64" where
  "pow2ceil value =
     (let v = value - 1; clz = (if v = 0 then 64 else 63 - highest_bit v)
      in if clz = 0 then (if value = 0 then 1 else 0) else drop_bit (clz - 1) 0x8000000000000000)"

subsection \<open>Device modes\<close>

definition c_string :: "string \<Rightarrow> u8 list" where "c_string s = map of_char s"

definition bb_init :: "femu \<Rightarrow> femu option" where
  "bb_init n =
     nvme_set_ctrl_name n (c_string ''FEMU BlackBox-SSD Controller'') (c_string ''vSSD'') 0
     \<bind> (\<lambda>(n, _). Some (n\<lparr>n_ssd := Some ssd_init\<rparr>))"

definition nop_init :: "femu \<Rightarrow> femu option" where
  "nop_init n =
     map_option fst (nvme_set_ctrl_name n (c_string ''FEMU NoSSD NVMe Controller'') (c_string ''vNoSSD'') 0)"

text \<open>The zoned mode works on the fields of the first namespace, copied in and out.\<close>

definition zns_init_view :: "femu \<Rightarrow> zns" where
  "zns_init_view n =
     (let ns = n_namespaces n ! 0; id = ns_id_ns ns
      in (dev_zns (zns_view n 0))\<lparr>z_csi := n_csi n, zns_size := ns_size ns, zns_ncap := idns_ncap id,
           zns_nuse := idns_nuse id, zns_npdg := idns_npdg id, zns_nsfeat := idns_nsfeat id\<rparr>)"

definition zns_init_put :: "zns \<Rightarrow> femu \<Rightarrow> femu" where
  "zns_init_put z n =
     n\<lparr>n_zns := z, n_csi := z_csi z,
       n_namespaces := (n_namespaces n)[0 := (n_namespaces n ! 0)\<lparr>ns_id_ns :=
         (ns_id_ns (n_namespaces n ! 0))\<lparr>idns_nsze := zns_nsze z, idns_ncap := zns_ncap z, idns_nuse := zns_nuse z,
           idns_nsfeat := zns_nsfeat z\<rparr>\<rparr>]\<rparr>"

definition zns_mode_init :: "femu \<Rightarrow> femu option" where
  "zns_mode_init n =
     map_option (\<lambda>(n, _). zns_init_put (zns_init (zns_init_view n)) n)
       (nvme_set_ctrl_name n (c_string ''FEMU ZNS-SSD Controller'') (c_string ''vZNSSD'') 0)"

text \<open>\<open>nvme_register_extensions\<close> with the \<open>init\<close> of the mode; \<open>oc_init\<close> stands for the open-channel modes.\<close>

definition ext_init :: "(femu \<Rightarrow> femu option) \<Rightarrow> femu \<Rightarrow> femu option" where
  "ext_init oc_init n =
     (if OCSSD n then oc_init n
      else if NOSSD n then nop_init n
      else if BBSSD n then bb_init n
      else if ZNSSD n then zns_mode_init n
      else Some n)"

definition femu_realize :: "(femu \<Rightarrow> femu option) \<Rightarrow> femu \<Rightarrow> femu option" where
  "femu_realize oc_init n =
     (let c = n_cfg n;
          bs_size = unat (p_memsz c) * 1024 * 1024;
          nq = unat (p_num_io_queues c)
      in if \<not> nvme_check_constraints c then Some n
         else
           let n = n\<lparr>n_mbe := init_dram_backend (p_femu_mode c) bs_size,
                     n_reg_size := ucast (pow2ceil (ucast (0x1004 + 2 * (p_num_io_queues c + 1) * 4))),
                     n_ns_size := of_nat bs_size div ucast (p_num_namespaces c),
                     n_sq := replicate (nq + 1) None, n_cq := replicate (nq + 1) None,
                     n_namespaces := replicate (unat (p_num_namespaces c)) zero_ns,
                     n_elpes := replicate (unat (p_elpe c) + 1) zero_error_log,
                     n_features := (n_features n)\<lparr>feat_int_vector_config := replicate (nq + 1) 0\<rparr>\<rparr>
           in nvme_init_namespaces (nvme_init_ctrl (nvme_init_pci n)) \<bind> ext_init oc_init)"

subsection \<open>Start and reset\<close>

primrec free_sqs :: "nat list \<Rightarrow> femu \<Rightarrow> femu option" where
  "free_sqs [] n = Some n"
| "free_sqs (i # is) n = (if lookup (n_sq n) i \<noteq> None then nvme_free_sq i n else Some n) \<bind> free_sqs is"

primrec free_cqs :: "nat list \<Rightarrow> femu \<Rightarrow> femu option" where
  "free_cqs [] n = Some n"
| "free_cqs (i # is) n = (if lookup (n_cq n) i \<noteq> None then nvme_free_cq i n else Some n) \<bind> free_cqs is"

definition nvme_clear_ctrl :: "bool \<Rightarrow> femu \<Rightarrow> femu option" where
  "nvme_clear_ctrl shutdown n =
     (let queues = [0..<unat (p_num_io_queues (n_cfg n)) + 1]
      in do {
        n \<leftarrow> (if shutdown then nvme_clear_virq (n\<lparr>n_dataplane_started := False\<rparr>)
              else Some (n\<lparr>n_dataplane_started := False\<rparr>));
        n \<leftarrow> free_sqs queues n;
        n \<leftarrow> free_cqs queues n;
        Some (n\<lparr>n_bar := (n_bar n)\<lparr>bar_cc := 0\<rparr>, n_features := (n_features n)\<lparr>feat_temp_thresh := 0x14d\<rparr>,
                n_temp_warn_issued := 0, n_dbs_addr := 0, n_eis_addr := 0\<rparr>)
      })"

definition NVME_CTRL_ES_MIN :: "u8 \<Rightarrow> u32" where "NVME_CTRL_ES_MIN es = ucast (es AND 0xf)"
definition NVME_CTRL_ES_MAX :: "u8 \<Rightarrow> u32" where "NVME_CTRL_ES_MAX es = ucast (drop_bit 4 es AND 0xf)"

text \<open>Do the registers ask for a queue configuration the controller has?\<close>

definition start_refused :: "femu \<Rightarrow> bool" where
  "start_refused n \<longleftrightarrow>
     (let bar = n_bar n; cc = bar_cc bar;
          page_size = push_bit (unat (NVME_CC_MPS cc) + 12) 1 :: u32;
          unaligned = (\<lambda>a :: u64. a AND ucast (page_size - 1) \<noteq> 0)
      in lookup (n_cq n) 0 \<noteq> None \<or> lookup (n_sq n) 0 \<noteq> None \<or> bar_asq bar = 0 \<or> bar_acq bar = 0
         \<or> unaligned (bar_asq bar) \<or> unaligned (bar_acq bar)
         \<or> ucast (NVME_CC_MPS cc) < NVME_CAP_MPSMIN (bar_cap bar) \<or> NVME_CAP_MPSMAX (bar_cap bar) < ucast (NVME_CC_MPS cc)
         \<or> NVME_CC_IOCQES cc < NVME_CTRL_ES_MIN (ic_cqes (n_id_ctrl n))
         \<or> NVME_CTRL_ES_MAX (ic_cqes (n_id_ctrl n)) < NVME_CC_IOCQES cc
         \<or> NVME_CC_IOSQES cc < NVME_CTRL_ES_MIN (ic_sqes (n_id_ctrl n))
         \<or> NVME_CTRL_ES_MAX (ic_sqes (n_id_ctrl n)) < NVME_CC_IOSQES cc
         \<or> NVME_AQA_ASQS (bar_aqa bar) = 0 \<or> 4095 < NVME_AQA_ASQS (bar_aqa bar)
         \<or> NVME_AQA_ACQS (bar_aqa bar) = 0 \<or> 4095 < NVME_AQA_ACQS (bar_aqa bar))"

text \<open>\<open>page_size\<close> is a \<open>uint16_t\<close>: pages of 64 KiB become 0.  The results of the queue constructors and of
  \<open>start_ctrl\<close> are ignored.\<close>

definition nvme_start_ctrl :: "(nat \<Rightarrow> u64) \<Rightarrow> femu \<Rightarrow> (int \<times> femu) option" where
  "nvme_start_ctrl junk n =
     (if start_refused n then Some (- 1, n)
      else
        let bar = n_bar n; cc = bar_cc bar;
            page_bits = NVME_CC_MPS cc + 12;
            page_size = ucast (push_bit (unat page_bits) 1 :: u32) :: u16;
            n = n\<lparr>n_dma := (n_dma n)\<lparr>dma_page_bits := ucast page_bits, dma_page_size := page_size,
                    dma_max_prp_ents := page_size div 8\<rparr>,
                  n_cqe_size := push_bit (unat (NVME_CC_IOCQES cc)) 1,
                  n_sqe_size := push_bit (unat (NVME_CC_IOSQES cc)) 1\<rparr>
        in do {
          (_, n) \<leftarrow> nvme_init_cq junk (n_admin_cq n) n (bar_acq bar) 0 0 (ucast (NVME_AQA_ACQS (bar_aqa bar) + 1)) 1 True;
          (_, n) \<leftarrow> nvme_init_sq junk (n_admin_sq n) n (bar_asq bar) 0 0 (ucast (NVME_AQA_ASQS (bar_aqa bar) + 1))
                      NVME_Q_PRIO_HIGH True;
          n \<leftarrow> (if ZNSSD n
                then map_option (\<lambda>(_, z). n\<lparr>n_zns := z\<rparr>) (zns_start_ctrl (dev_zns (zns_view n 0)))
                else Some n);
          Some (0, n)
        })"

subsection \<open>Registers\<close>

definition nvme_write_bar :: "(nat \<Rightarrow> u64) \<Rightarrow> femu \<Rightarrow> u64 \<Rightarrow> u64 \<Rightarrow> femu option" where
  "nvme_write_bar junk n offset data =
     (let bar = n_bar n; lo = ucast data :: u32
      in if offset = 0xc then
           let ms = bar_intms bar OR lo in Some (n\<lparr>n_bar := bar\<lparr>bar_intms := ms, bar_intmc := ms\<rparr>\<rparr>)
         else if offset = 0x10 then
           let ms = bar_intms bar AND NOT lo in Some (n\<lparr>n_bar := bar\<lparr>bar_intms := ms, bar_intmc := ms\<rparr>\<rparr>)
         else if offset = 0x14 then do {
           n \<leftarrow>
             (if NVME_CC_EN lo \<noteq> 0 \<and> NVME_CC_EN (bar_cc bar) = 0 then do {
                (r, n) \<leftarrow> nvme_start_ctrl junk (n\<lparr>n_bar := bar\<lparr>bar_cc := lo\<rparr>\<rparr>);
                Some (n\<lparr>n_bar := (n_bar n)\<lparr>bar_csts := csts_bit (if r \<noteq> 0 then NVME_CSTS_FAILED else NVME_CSTS_READY)\<rparr>\<rparr>)
              }
              else if NVME_CC_EN lo = 0 \<and> NVME_CC_EN (bar_cc bar) \<noteq> 0 then do {
                n \<leftarrow> nvme_clear_ctrl False n;
                Some (n\<lparr>n_bar := (n_bar n)\<lparr>bar_csts := bar_csts (n_bar n) AND NOT (csts_bit NVME_CSTS_READY)\<rparr>\<rparr>)
              }
              else Some n);
           if NVME_CC_SHN lo \<noteq> 0 \<and> NVME_CC_SHN (bar_cc (n_bar n)) = 0 then do {
             n \<leftarrow> nvme_clear_ctrl True n;
             Some (n\<lparr>n_bar := (n_bar n)\<lparr>bar_cc := lo, bar_csts := bar_csts (n_bar n) OR csts_bit NVME_CSTS_SHST_COMPLETE\<rparr>\<rparr>)
           }
           else if NVME_CC_SHN lo = 0 \<and> NVME_CC_SHN (bar_cc (n_bar n)) \<noteq> 0 then
             Some (n\<lparr>n_bar := (n_bar n)\<lparr>bar_csts := bar_csts (n_bar n) AND NOT (csts_bit NVME_CSTS_SHST_COMPLETE), bar_cc := lo\<rparr>\<rparr>)
           else Some n
         }
         else if offset = 0x24 then Some (n\<lparr>n_bar := bar\<lparr>bar_aqa := lo\<rparr>\<rparr>)
         else if offset = 0x28 then Some (n\<lparr>n_bar := bar\<lparr>bar_asq := data\<rparr>\<rparr>)
         else if offset = 0x2c then Some (n\<lparr>n_bar := bar\<lparr>bar_asq := bar_asq bar OR push_bit 32 data\<rparr>\<rparr>)
         else if offset = 0x30 then Some (n\<lparr>n_bar := bar\<lparr>bar_acq := data\<rparr>\<rparr>)
         else if offset = 0x34 then Some (n\<lparr>n_bar := bar\<lparr>bar_acq := bar_acq bar OR push_bit 32 data\<rparr>\<rparr>)
         else Some n)"

definition bar_bytes :: "NvmeBar \<Rightarrow> u8 list" where
  "bar_bytes b =
     le_bytes 8 (bar_cap b) @ le_bytes 4 (ucast (bar_vs b)) @ le_bytes 4 (ucast (bar_intms b)) @
     le_bytes 4 (ucast (bar_intmc b)) @ le_bytes 4 (ucast (bar_cc b)) @ le_bytes 4 0 @ le_bytes 4 (ucast (bar_csts b)) @
     le_bytes 4 (ucast (bar_nssrc b)) @ le_bytes 4 (ucast (bar_aqa b)) @ le_bytes 8 (bar_asq b) @ le_bytes 8 (bar_acq b) @
     le_bytes 4 (ucast (bar_cmbloc b)) @ le_bytes 4 (ucast (bar_cmbsz b))"

text \<open>A read may run past the registers into the fields of the controller that follow, here \<open>after\<close>.\<close>

definition nvme_mmio_read :: "(nat \<Rightarrow> u8) \<Rightarrow> femu \<Rightarrow> u64 \<Rightarrow> nat \<Rightarrow> u64 option" where
  "nvme_mmio_read after n addr size' =
     (if 8 < size' then None
      else if addr < 64
      then Some (le64_of_bytes (take size' (drop (unat addr) (bar_bytes (n_bar n) @ map after [0..<8])) @ replicate (8 - size') 0))
      else Some 0)"

text \<open>The controller memory buffer as a memory region; the unread bytes of \<open>val\<close> are stack contents.\<close>

definition nvme_cmb_write :: "femu \<Rightarrow> u64 \<Rightarrow> u64 \<Rightarrow> nat \<Rightarrow> femu option" where
  "nvme_cmb_write n addr data size' =
     (let buf = dma_cmbuf (n_dma n)
      in if 8 < size' \<or> length buf < unat addr + size' then None
         else Some (n\<lparr>n_dma := (n_dma n)\<lparr>dma_cmbuf := overwrite buf (unat addr) (take size' (le_bytes 8 data))\<rparr>\<rparr>))"

definition nvme_cmb_read :: "(nat \<Rightarrow> u8) \<Rightarrow> femu \<Rightarrow> u64 \<Rightarrow> nat \<Rightarrow> u64 option" where
  "nvme_cmb_read junk n addr size' =
     (let buf = dma_cmbuf (n_dma n)
      in if 8 < size' \<or> length buf < unat addr + size' then None
         else Some (le64_of_bytes (take size' (drop (unat addr) buf) @ map junk [size'..<8])))"

end
