(* ===== verification/Nvme_Rw.thy ===== *)
theory Nvme_Rw
  imports Femu_Init Dma_Props
begin

text \<open>
  What reads and writes do: a command that passes the checks moves its blocks between the guest's pages
  and the backend, at the place its first block gives, and nothing else.
\<close>

subsection \<open>Reading into disjoint pages\<close>

definition sg_addrs :: "sg_list \<Rightarrow> u64 list" where
  "sg_addrs sg = concat (map (\<lambda>e. map (\<lambda>i. fst e + of_nat i) [0..<unat (snd e)]) sg)"

lemma sg_addrs_simps [simp]:
  "sg_addrs [] = []" "sg_addrs (e # sg) = map (\<lambda>i. fst e + of_nat i) [0..<unat (snd e)] @ sg_addrs sg"
  by (simp_all add: sg_addrs_def)

lemma pci_dma_read_cong: "(\<And>i. i < k \<Longrightarrow> h' (a + of_nat i) = h (a + of_nat i)) \<Longrightarrow> pci_dma_read h' a k = pci_dma_read h a k"
  by (simp add: pci_dma_read_def)

lemma backend_read_data:
  assumes "backend_ok b" "unat off + sg_bytes sg \<le> be_size b" "distinct (sg_addrs sg)"
  shows "\<exists>h'. backend_rw_loop sg lbal False b h idx off = Some (b, h') \<and>
    sg_data h' sg = take (sg_bytes sg) (drop (unat off) (logical_space b)) \<and>
    (\<forall>a. a \<notin> set (sg_addrs sg) \<longrightarrow> h' a = h a)"
  using assms
proof (induction sg arbitrary: h idx off)
  case (Cons e sg)
  let ?k = "unat (snd e)"
  let ?bs = "take ?k (drop (unat off) (logical_space b))"
  let ?h = "pci_dma_write h (fst e) ?bs"
  have fits: "unat off + ?k < 2 ^ 64" "unat off + ?k \<le> be_size b"
    using Cons.prems by (simp_all add: backend_ok_def)
  then have off: "unat (off + snd e) = unat off + ?k"
    by (simp add: unat_word_ariths)
  have len: "length ?bs = ?k" using Cons.prems(1) fits by (simp add: backend_ok_def)
  from Cons.IH [of "off + snd e" ?h "Suc idx"] Cons.prems off obtain h' where
    h': "backend_rw_loop sg lbal False b ?h (Suc idx) (off + snd e) = Some (b, h')"
    "sg_data h' sg = take (sg_bytes sg) (drop (unat off + ?k) (logical_space b))"
    "\<And>a. a \<notin> set (sg_addrs sg) \<Longrightarrow> h' a = ?h a" by auto
  have "pci_dma_read h' (fst e) ?k = pci_dma_read ?h (fst e) ?k"
    by (rule pci_dma_read_cong, rule h'(3)) (use Cons.prems(3) in \<open>force simp: disjoint_iff\<close>)
  also have "\<dots> = ?bs" using pci_dma_read_write [of ?bs h "fst e"] len unsigned_less [of "snd e", where 'a = nat] by simp
  finally have data: "sg_data h' (e # sg) = take (sg_bytes (e # sg)) (drop (unat off) (logical_space b))"
    using h'(2) by (simp add: take_add add.commute [of "unat off"])
  have "length ?bs \<le> 2 ^ 64" using len unsigned_less [of "snd e", where 'a = nat] by simp
  then have "?h a = h a" if "a \<notin> set (sg_addrs (e # sg))" for a
    by (rule pci_dma_write_other) (use that len in \<open>auto simp: image_iff\<close>)
  then have frame: "\<forall>a. a \<notin> set (sg_addrs (e # sg)) \<longrightarrow> h' a = h a" using h'(3) by auto
  have "backend_rw_loop (e # sg) lbal False b h idx off = Some (b, h')"
    using h'(1) Cons.prems(1) fits by (auto simp: backend_ok_def linear_mode_def Let_def)
  with data frame show ?case by blast
qed simp

subsection \<open>Commands that pass the checks\<close>

definition rw_blocks :: "NvmeCmd \<Rightarrow> nat" where "rw_blocks cmd = unat (rw_nlb (rw_of_cmd cmd)) + 1"
definition rw_first :: "NvmeCmd \<Rightarrow> nat" where "rw_first cmd = unat (rw_slba (rw_of_cmd cmd))"
definition ns_shift :: "NvmeNamespace \<Rightarrow> nat" where "ns_shift ns = unat (lbaf_lbads (ns_lbaf ns))"

text \<open>The blocks are in the namespace and in the backend, the transfer is small enough, there is no metadata
  and no protection information, and the pages of the command are \<open>sg\<close>.\<close>

definition rw_admissible :: "femu \<Rightarrow> NvmeNamespace \<Rightarrow> NvmeCmd \<Rightarrow> sg_list \<Rightarrow> bool" where
  "rw_admissible n ns cmd sg \<longleftrightarrow>
     (let bytes = rw_blocks cmd * 2 ^ ns_shift ns; rw = rw_of_cmd cmd
      in rw_first cmd + rw_blocks cmd \<le> unat (idns_nsze (ns_id_ns ns))
         \<and> (rw_first cmd + rw_blocks cmd) * 2 ^ ns_shift ns \<le> be_size (n_mbe n)
         \<and> bytes < 2 ^ 32 \<and> \<not> mdts_exceeded n (of_nat bytes)
         \<and> lbaf_ms (ns_lbaf ns) = 0 \<and> rw_control rw AND NVME_RW_PRINFO_PRACT = 0
         \<and> nvme_map_prp (n_dma n) (n_host n) (rw_prp1 rw) (rw_prp2 rw) (of_nat bytes) = (0, False, sg))"

definition readable :: "NvmeNamespace \<Rightarrow> NvmeCmd \<Rightarrow> bool" where
  "readable ns cmd \<longleftrightarrow> unat (idns_nsze (ns_id_ns ns)) \<le> 64 * length (ns_uncorrectable ns) \<and>
     (\<forall>i < rw_blocks cmd. \<not> bm_bit (ns_uncorrectable ns) (rw_first cmd + i))"

lemma ucast_push_bit_up: "(ucast (push_bit k (ucast (w :: u32) :: u64)) :: u32) = push_bit k w"
  by (rule bit_word_eqI) (auto simp: bit_simps)

lemma word_of_unat: "unat w = m \<Longrightarrow> w = of_nat m" for w :: "'a::len word"
  by auto

text \<open>The quantities of \<open>nvme_rw\<close> as numbers.\<close>

lemma rw_quantities:
  assumes "rw_admissible n ns cmd sg" "backend_ok (n_mbe n)"
  defines "nlb \<equiv> ucast (rw_nlb (rw_of_cmd cmd)) + 1 :: u32" and "slba \<equiv> rw_slba (rw_of_cmd cmd)"
  shows "unat nlb = rw_blocks cmd" "push_bit (ns_shift ns) nlb = of_nat (rw_blocks cmd * 2 ^ ns_shift ns)"
    "unat (push_bit (ns_shift ns) nlb) = rw_blocks cmd * 2 ^ ns_shift ns"
    "push_bit (ns_shift ns) (ucast nlb :: u64) = of_nat (rw_blocks cmd * 2 ^ ns_shift ns)"
    "unat (push_bit (ns_shift ns) slba) = rw_first cmd * 2 ^ ns_shift ns"
    "unat (slba + ucast nlb) = rw_first cmd + rw_blocks cmd"
    "slba + ucast nlb \<le> idns_nsze (ns_id_ns ns)"
proof -
  have k: "rw_blocks cmd \<le> 65536"
    using unsigned_less [of "rw_nlb (rw_of_cmd cmd)", where 'a = nat] by (simp add: rw_blocks_def)
  show nlb: "unat nlb = rw_blocks cmd"
    using k by (simp add: nlb_def rw_blocks_def unat_word_ariths)
  have b: "rw_blocks cmd * 2 ^ ns_shift ns < 2 ^ 32" using assms(1) by (simp add: rw_admissible_def Let_def)
  show n1: "unat (push_bit (ns_shift ns) nlb) = rw_blocks cmd * 2 ^ ns_shift ns"
    using b nlb by (subst unat_push_bit_less) simp_all
  show "push_bit (ns_shift ns) nlb = of_nat (rw_blocks cmd * 2 ^ ns_shift ns)"
    using n1 by (rule word_of_unat)
  have "unat (push_bit (ns_shift ns) (ucast nlb :: u64)) = rw_blocks cmd * 2 ^ ns_shift ns"
    using b nlb by (subst unat_push_bit_less) simp_all
  then show "push_bit (ns_shift ns) (ucast nlb :: u64) = of_nat (rw_blocks cmd * 2 ^ ns_shift ns)"
    by (rule word_of_unat)
  have z: "rw_first cmd + rw_blocks cmd \<le> unat (idns_nsze (ns_id_ns ns))"
    "(rw_first cmd + rw_blocks cmd) * 2 ^ ns_shift ns \<le> be_size (n_mbe n)"
    using assms(1) by (simp_all add: rw_admissible_def Let_def)
  have "rw_first cmd * 2 ^ ns_shift ns < 2 ^ 64"
    using z(2) assms(2) by (simp add: backend_ok_def algebra_simps)
  then show "unat (push_bit (ns_shift ns) slba) = rw_first cmd * 2 ^ ns_shift ns"
    by (subst unat_push_bit_less) (simp_all add: rw_first_def slba_def)
  have "rw_first cmd + rw_blocks cmd < 2 ^ 64" using z(1) unsigned_less [of "idns_nsze (ns_id_ns ns)", where 'a = nat] by simp
  then show e: "unat (slba + ucast nlb) = rw_first cmd + rw_blocks cmd"
    using nlb by (simp add: unat_word_ariths rw_first_def slba_def)
  show "slba + ucast nlb \<le> idns_nsze (ns_id_ns ns)" using z(1) e by (simp add: word_le_nat_alt)
qed

lemma nvme_rw_runs:
  assumes adm: "rw_admissible n ns (req_cmd req) sg" and be: "backend_ok (n_mbe n)" and ps: "dma_page_size (n_dma n) \<noteq> 0"
    and op: "cmd_opcode (req_cmd req) = io_opcode NVME_CMD_WRITE \<or> readable ns (req_cmd req)"
  defines "w \<equiv> cmd_opcode (req_cmd req) = io_opcode NVME_CMD_WRITE"
  shows "\<exists>req'. nvme_rw n ns req = map_option (\<lambda>(be, h). (sc NVME_SUCCESS, req', n\<lparr>n_mbe := be, n_host := h\<rparr>))
    (backend_rw (n_mbe n) (n_host n) sg [push_bit (ns_shift ns) (rw_slba (rw_of_cmd (req_cmd req)))] w)"
    "sg_bytes sg = rw_blocks (req_cmd req) * 2 ^ ns_shift ns"
proof -
  let ?rw = "rw_of_cmd (req_cmd req)"
  define nlb where "nlb = (ucast (rw_nlb ?rw) + 1 :: u32)"
  define slba where "slba = rw_slba ?rw"
  note Q = rw_quantities [OF adm be, folded nlb_def slba_def]
  have ds: "unat (lbaf_lbads (ns_lbaf ns)) = ns_shift ns" by (simp add: ns_shift_def)
  have A: "\<not> mdts_exceeded n (push_bit (ns_shift ns) (ucast nlb))" "lbaf_ms (ns_lbaf ns) = 0"
    "rw_control ?rw AND NVME_RW_PRINFO_PRACT = 0"
    "nvme_map_prp (n_dma n) (n_host n) (rw_prp1 ?rw) (rw_prp2 ?rw) (push_bit (ns_shift ns) nlb) = (0, False, sg)"
    using adm unfolding rw_admissible_def Let_def Q(2,4) by auto
  from map_prp_covers [OF A(4) _ ps] show sgb: "sg_bytes sg = rw_blocks (req_cmd req) * 2 ^ ns_shift ns"
    using Q(3) by auto
  have opc: "rw_opcode ?rw = cmd_opcode (req_cmd req)" by (simp add: rw_of_cmd_def)
  have check: "femu_nvme_rw_check_req n ns r slba (slba + ucast nlb) nlb (rw_control ?rw)
      (push_bit (ns_shift ns) (ucast nlb)) (ucast (nlb * ucast (lbaf_ms (ns_lbaf ns)))) = Some (0, n)"
    if r: "req_is_write r = (if w then 1 else 0)" for r
  proof (cases w)
    case True
    then show ?thesis using Q(7) A r unfolding femu_nvme_rw_check_req_def by (simp add: linorder_not_less [symmetric])
  next
    case False
    then have rd: "readable ns (req_cmd req)" using op by (simp add: w_def)
    have lt: "unat slba < unat (slba + ucast nlb)" using Q(6) by (simp add: slba_def rw_first_def rw_blocks_def)
    have le: "unat (slba + ucast nlb) \<le> 64 * length (ns_uncorrectable ns)"
      using rd Q(7) unfolding readable_def word_le_nat_alt by linarith
    obtain f where f: "find_next_bit (ns_uncorrectable ns) (unat (slba + ucast nlb)) (unat slba) = Some f"
      "next_bit (ns_uncorrectable ns) (unat (slba + ucast nlb)) (unat slba) f"
      using find_next_bit_ok [OF lt le] by blast
    have "\<not> f < unat (slba + ucast nlb)"
    proof
      assume l: "f < unat (slba + ucast nlb)"
      then have "bm_bit (ns_uncorrectable ns) f" "unat slba \<le> f" using f(2) by (simp_all add: next_bit_def)
      moreover have "f - unat slba < rw_blocks (req_cmd req)"
        using l Q(6) \<open>unat slba \<le> f\<close> by (simp add: slba_def rw_first_def)
      ultimately show False using rd unfolding readable_def rw_first_def slba_def by (metis le_add_diff_inverse)
    qed
    then show ?thesis
      using Q(7) A False r f(1) unfolding femu_nvme_rw_check_req_def by (simp add: linorder_not_less [symmetric])
  qed
  show "\<exists>req'. nvme_rw n ns req = map_option (\<lambda>(be, h). (sc NVME_SUCCESS, req', n\<lparr>n_mbe := be, n_host := h\<rparr>))
    (backend_rw (n_mbe n) (n_host n) sg [push_bit (ns_shift ns) (rw_slba (rw_of_cmd (req_cmd req)))] w)"
    using check A(4) sgb Q(3)
    unfolding nvme_rw_def Let_def ds opc w_def [symmetric] nlb_def [symmetric] slba_def [symmetric]
    by (auto simp: ucast_push_bit_up split: Option.bind_splits)
qed

subsection \<open>Reading back what was written\<close>

text \<open>A command for a namespace of a device whose reads and writes are plain.\<close>

definition plain_cmd :: "femu \<Rightarrow> NvmeCmd \<Rightarrow> bool" where
  "plain_cmd n cmd \<longleftrightarrow> (BBSSD n \<or> NOSSD n) \<and> cmd_nsid cmd \<noteq> 0 \<and> cmd_nsid cmd \<le> p_num_namespaces (n_cfg n) \<and>
     unat (cmd_nsid cmd) \<le> length (n_namespaces n)"

definition cmd_ns :: "femu \<Rightarrow> NvmeCmd \<Rightarrow> NvmeNamespace" where
  "cmd_ns n cmd = n_namespaces n ! (unat (cmd_nsid cmd) - 1)"

lemma io_cmd_rw:
  assumes "plain_cmd n (req_cmd req)"
    "cmd_opcode (req_cmd req) = io_opcode NVME_CMD_WRITE \<or> cmd_opcode (req_cmd req) = io_opcode NVME_CMD_READ"
  shows "nvme_io_cmd junk oc n req = nvme_rw n (cmd_ns n (req_cmd req)) req"
proof -
  have "unat (cmd_nsid (req_cmd req)) \<noteq> 0" using assms(1) by (simp add: plain_cmd_def unat_eq_0)
  then have "\<not> length (n_namespaces n) \<le> unat (cmd_nsid (req_cmd req)) - 1"
    using assms(1) unfolding plain_cmd_def by linarith
  moreover have "ext_io_cmd oc n i req = nvme_rw n (n_namespaces n ! i) req" for i
  proof -
    have "ext_io_cmd oc n i req = (if NOSSD n then nop_io_cmd n i req else bb_io_cmd n i req)"
      using assms(1) by (auto simp: ext_io_cmd_def plain_cmd_def OCSSD_def BBSSD_def NOSSD_def)
    then show ?thesis
      using assms(2) by (auto simp: bb_io_cmd_def bb_nvme_rw_def nop_io_cmd_def Let_def)
  qed
  moreover have "\<not> (cmd_nsid (req_cmd req) = 0 \<or> p_num_namespaces (n_cfg n) < cmd_nsid (req_cmd req))"
    using assms(1) by (simp add: plain_cmd_def linorder_not_less)
  ultimately show ?thesis
    using assms(2) unfolding nvme_io_cmd_def Let_def cmd_ns_def by (elim disjE) simp_all
qed

lemma nvme_write_effect:
  assumes "rw_admissible n ns (req_cmd req) sg" "backend_ok (n_mbe n)" "dma_page_size (n_dma n) \<noteq> 0"
    "cmd_opcode (req_cmd req) = io_opcode NVME_CMD_WRITE"
  defines "off \<equiv> rw_first (req_cmd req) * 2 ^ ns_shift ns"
  shows "\<exists>req'. nvme_rw n ns req = Some (sc NVME_SUCCESS, req',
    n\<lparr>n_mbe := (n_mbe n)\<lparr>logical_space := overwrite (logical_space (n_mbe n)) off (sg_data (n_host n) sg)\<rparr>\<rparr>)"
    "off + sg_bytes sg \<le> length (logical_space (n_mbe n))" "sg_bytes sg = rw_blocks (req_cmd req) * 2 ^ ns_shift ns"
proof -
  note R = nvme_rw_runs [OF assms(1-3) disjI1 [OF assms(4)]]
  note Q = rw_quantities(5) [OF assms(1,2), folded off_def]
  have fits: "off + sg_bytes sg \<le> be_size (n_mbe n)"
    using assms(1) R(2) by (simp add: rw_admissible_def Let_def off_def algebra_simps)
  then show "off + sg_bytes sg \<le> length (logical_space (n_mbe n))" using assms(2) by (simp add: backend_ok_def)
  show "sg_bytes sg = rw_blocks (req_cmd req) * 2 ^ ns_shift ns" by (rule R(2))
  show "\<exists>req'. nvme_rw n ns req = Some (sc NVME_SUCCESS, req',
    n\<lparr>n_mbe := (n_mbe n)\<lparr>logical_space := overwrite (logical_space (n_mbe n)) off (sg_data (n_host n) sg)\<rparr>\<rparr>)"
    using R(1) assms(4) backend_write_loop [OF assms(2), of "push_bit (ns_shift ns) (rw_slba (rw_of_cmd (req_cmd req)))" sg]
      fits Q by (auto simp: backend_rw_def)
qed

lemma nvme_read_effect:
  assumes "rw_admissible n ns (req_cmd req) sg" "backend_ok (n_mbe n)" "dma_page_size (n_dma n) \<noteq> 0"
    "cmd_opcode (req_cmd req) = io_opcode NVME_CMD_READ" "readable ns (req_cmd req)" "distinct (sg_addrs sg)"
  defines "off \<equiv> rw_first (req_cmd req) * 2 ^ ns_shift ns"
  shows "\<exists>req' h. nvme_rw n ns req = Some (sc NVME_SUCCESS, req', n\<lparr>n_host := h\<rparr>) \<and>
    sg_data h sg = take (rw_blocks (req_cmd req) * 2 ^ ns_shift ns) (drop off (logical_space (n_mbe n))) \<and>
    (\<forall>a. a \<notin> set (sg_addrs sg) \<longrightarrow> h a = n_host n a)"
proof -
  note R = nvme_rw_runs [OF assms(1-3) disjI2 [OF assms(5)]]
  note Q = rw_quantities(5) [OF assms(1,2), folded off_def]
  let ?o = "push_bit (ns_shift ns) (rw_slba (rw_of_cmd (req_cmd req)))"
  have fits: "unat ?o + sg_bytes sg \<le> be_size (n_mbe n)"
    using assms(1) R(2) Q by (simp add: rw_admissible_def Let_def off_def algebra_simps)
  have op: "cmd_opcode (req_cmd req) \<noteq> io_opcode NVME_CMD_WRITE" using assms(4) by simp
  from backend_read_data [OF assms(2) fits assms(6)] obtain h where
    h: "backend_rw (n_mbe n) (n_host n) sg [?o] False = Some (n_mbe n, h)"
    "sg_data h sg = take (sg_bytes sg) (drop (unat ?o) (logical_space (n_mbe n)))"
    "\<forall>a. a \<notin> set (sg_addrs sg) \<longrightarrow> h a = n_host n a" unfolding backend_rw_def nth_Cons_0 by blast
  from R(1) op h(1) obtain req' where
    "nvme_rw n ns req = Some (sc NVME_SUCCESS, req', n\<lparr>n_mbe := n_mbe n, n_host := h\<rparr>)" by auto
  moreover have "n\<lparr>n_mbe := n_mbe n, n_host := h\<rparr> = n\<lparr>n_host := h\<rparr>" by simp
  ultimately show ?thesis using h(2,3) R(2) Q by auto
qed

text \<open>C10: A read returns what the last write of these blocks stored, in the modes without zones, whatever
  pages the guest uses for either and whatever it did to its memory in between; and the read changes no
  other byte of the guest's memory.\<close>

theorem write_then_read:
  assumes "plain_cmd n (req_cmd wr)" "cmd_opcode (req_cmd wr) = io_opcode NVME_CMD_WRITE"
    "rw_admissible n (cmd_ns n (req_cmd wr)) (req_cmd wr) sg" "backend_ok (n_mbe n)" "dma_page_size (n_dma n) \<noteq> 0"
  shows "\<exists>wr' b. nvme_io_cmd junk oc n wr = Some (sc NVME_SUCCESS, wr', n\<lparr>n_mbe := b\<rparr>) \<and> be_size b = be_size (n_mbe n) \<and>
    (\<forall>h rd sg2. let m = n\<lparr>n_mbe := b, n_host := h\<rparr>; cmd = req_cmd rd; ns = cmd_ns m cmd
      in cmd_opcode cmd = io_opcode NVME_CMD_READ \<and> cmd_nsid cmd = cmd_nsid (req_cmd wr) \<and>
         rw_first cmd = rw_first (req_cmd wr) \<and> rw_blocks cmd = rw_blocks (req_cmd wr) \<and>
         rw_admissible m ns cmd sg2 \<and> readable ns cmd \<and> distinct (sg_addrs sg2) \<longrightarrow>
         (\<exists>rd' n2. nvme_io_cmd junk oc m rd = Some (sc NVME_SUCCESS, rd', n2) \<and>
            sg_data (n_host n2) sg2 = sg_data (n_host n) sg \<and>
            (\<forall>a. a \<notin> set (sg_addrs sg2) \<longrightarrow> n_host n2 a = h a)))"
proof -
  let ?ns = "cmd_ns n (req_cmd wr)"
  let ?off = "rw_first (req_cmd wr) * 2 ^ ns_shift ?ns"
  let ?n = "n\<lparr>n_mbe := (n_mbe n)\<lparr>logical_space := overwrite (logical_space (n_mbe n)) ?off (sg_data (n_host n) sg)\<rparr>\<rparr>"
  note W = nvme_write_effect [OF assms(3,4,5,2)]
  from W(1) io_cmd_rw [OF assms(1)] assms(2) obtain wr' where
    wr': "nvme_io_cmd junk oc n wr = Some (sc NVME_SUCCESS, wr', ?n)" by auto
  have be: "backend_ok (n_mbe ?n)" using assms(4) W(2) by (simp add: backend_ok_def linear_mode_def)
  have "\<exists>rd' n2. nvme_io_cmd junk oc (?n\<lparr>n_host := h\<rparr>) rd = Some (sc NVME_SUCCESS, rd', n2) \<and>
      sg_data (n_host n2) sg2 = sg_data (n_host n) sg \<and> (\<forall>a. a \<notin> set (sg_addrs sg2) \<longrightarrow> n_host n2 a = h a)"
    if rd: "cmd_opcode (req_cmd rd) = io_opcode NVME_CMD_READ" "cmd_nsid (req_cmd rd) = cmd_nsid (req_cmd wr)"
      "rw_first (req_cmd rd) = rw_first (req_cmd wr)" "rw_blocks (req_cmd rd) = rw_blocks (req_cmd wr)"
      "rw_admissible (?n\<lparr>n_host := h\<rparr>) (cmd_ns (?n\<lparr>n_host := h\<rparr>) (req_cmd rd)) (req_cmd rd) sg2"
      "readable (cmd_ns (?n\<lparr>n_host := h\<rparr>) (req_cmd rd)) (req_cmd rd)" "distinct (sg_addrs sg2)" for h rd sg2
  proof -
    let ?m = "?n\<lparr>n_host := h\<rparr>"
    have ns: "cmd_ns ?m (req_cmd rd) = ?ns" using rd(2) by (simp add: cmd_ns_def)
    have pc: "plain_cmd ?m (req_cmd rd)" using assms(1) rd(2) by (simp add: plain_cmd_def BBSSD_def NOSSD_def)
    have "backend_ok (n_mbe ?m)" "dma_page_size (n_dma ?m) \<noteq> 0" using be assms(5) by simp_all
    from nvme_read_effect [OF rd(5) this rd(1,6,7), unfolded ns rd(3,4)] obtain rd' h2 where
      R: "nvme_rw ?m ?ns rd = Some (sc NVME_SUCCESS, rd', ?m\<lparr>n_host := h2\<rparr>)"
      "sg_data h2 sg2 = take (rw_blocks (req_cmd wr) * 2 ^ ns_shift ?ns) (drop ?off (logical_space (n_mbe ?m)))"
      "\<forall>a. a \<notin> set (sg_addrs sg2) \<longrightarrow> h2 a = n_host ?m a" by blast
    have "sg_data h2 sg2 = sg_data (n_host n) sg"
      using R(2) W(2,3) take_drop_overwrite [of ?off "sg_data (n_host n) sg" "logical_space (n_mbe n)"] by simp
    moreover have "nvme_io_cmd junk oc ?m rd = Some (sc NVME_SUCCESS, rd', ?m\<lparr>n_host := h2\<rparr>)"
      using io_cmd_rw [OF pc] rd(1) R(1) ns by simp
    ultimately show ?thesis using R(3) by auto
  qed
  then show ?thesis using wr' unfolding Let_def by (intro exI [of _ wr'] exI [of _ "n_mbe ?n"]) simp
qed

subsection \<open>Uncorrectable blocks\<close>

lemma sint_small:
  fixes w :: u64
  assumes "unat w = k" "k < 2 ^ 63"
  shows "sint w = int k"
proof -
  have "uint w = int k" using assms(1) by (metis uint_nat)
  then show ?thesis using assms(2) by (simp add: sint_uint signed_take_bit_int_eq_self)
qed

lemma nvme_rw_unreadable:
  assumes adm: "rw_admissible n ns (req_cmd req) sg" and be: "backend_ok (n_mbe n)"
    and op: "cmd_opcode (req_cmd req) = io_opcode NVME_CMD_READ"
    and ns: "unat (idns_nsze (ns_id_ns ns)) \<le> 64 * length (ns_uncorrectable ns)" "\<not> readable ns (req_cmd req)"
    and log: "unat (n_elp_index n) < length (n_elpes n)" "p_elpe (n_cfg n) \<noteq> 0"
  shows "\<exists>req' n'. nvme_rw n ns req = Some (sc NVME_UNRECOVERED_READ, req', n') \<and> n_mbe n' = n_mbe n \<and> n_host n' = n_host n"
proof -
  let ?rw = "rw_of_cmd (req_cmd req)"
  define nlb where "nlb = (ucast (rw_nlb ?rw) + 1 :: u32)"
  define slba where "slba = rw_slba ?rw"
  note Q = rw_quantities [OF adm be, folded nlb_def slba_def]
  have ds: "unat (lbaf_lbads (ns_lbaf ns)) = ns_shift ns" by (simp add: ns_shift_def)
  have A: "\<not> mdts_exceeded n (push_bit (ns_shift ns) (ucast nlb))" "lbaf_ms (ns_lbaf ns) = 0"
    "rw_control ?rw AND NVME_RW_PRINFO_PRACT = 0"
    using adm unfolding rw_admissible_def Let_def Q(2,4) by auto
  have opc: "rw_opcode ?rw \<noteq> io_opcode NVME_CMD_WRITE" using op by (simp add: rw_of_cmd_def)
  have lt: "unat slba < unat (slba + ucast nlb)" using Q(6) by (simp add: slba_def rw_first_def rw_blocks_def)
  have le: "unat (slba + ucast nlb) \<le> 64 * length (ns_uncorrectable ns)"
    using ns(1) Q(7) unfolding word_le_nat_alt by linarith
  obtain f where f: "find_next_bit (ns_uncorrectable ns) (unat (slba + ucast nlb)) (unat slba) = Some f"
    "next_bit (ns_uncorrectable ns) (unat (slba + ucast nlb)) (unat slba) f"
    using find_next_bit_ok [OF lt le] by blast
  from ns obtain i where i: "i < rw_blocks (req_cmd req)" "bm_bit (ns_uncorrectable ns) (rw_first (req_cmd req) + i)"
    by (auto simp: readable_def)
  have "f < unat (slba + ucast nlb)"
  proof (rule ccontr)
    assume "\<not> f < unat (slba + ucast nlb)"
    then have "\<forall>j. unat slba \<le> j \<and> j < unat (slba + ucast nlb) \<longrightarrow> \<not> bm_bit (ns_uncorrectable ns) j"
      using f(2) by (auto simp: next_bit_def)
    then show False using i Q(6) by (auto simp: slba_def rw_first_def)
  qed
  moreover have "\<not> idns_nsze (ns_id_ns ns) < slba + ucast nlb" using Q(7) by (simp add: linorder_not_less)
  moreover have "sc NVME_UNRECOVERED_READ \<noteq> 0" by simp
  ultimately show ?thesis
    using A f(1) log opc
    unfolding nvme_rw_def Let_def ds nlb_def [symmetric] slba_def [symmetric] femu_nvme_rw_check_req_def
    by (auto simp: refuse_def nvme_set_error_page_def Let_def)
qed

lemma write_uncor_marks:
  assumes ns: "unat (idns_nsze (ns_id_ns (n_namespaces n ! i))) \<le> 64 * length (ns_uncorrectable (n_namespaces n ! i))"
    "unat (idns_nsze (ns_id_ns (n_namespaces n ! i))) < 2 ^ 63"
    and range: "rw_first (req_cmd req) + rw_blocks (req_cmd req) \<le> unat (idns_nsze (ns_id_ns (n_namespaces n ! i)))"
  shows "\<exists>u. nvme_write_uncor n i req = Some (sc NVME_SUCCESS, req, upd_ns n i (\<lambda>ns. ns\<lparr>ns_uncorrectable := u\<rparr>)) \<and>
    length u = length (ns_uncorrectable (n_namespaces n ! i)) \<and>
    (\<forall>j. bm_bit u j = (rw_first (req_cmd req) \<le> j \<and> j < rw_first (req_cmd req) + rw_blocks (req_cmd req) \<or>
       bm_bit (ns_uncorrectable (n_namespaces n ! i)) j))"
proof -
  let ?ns = "n_namespaces n ! i"
  define nlb where "nlb = (ucast (rw_nlb (rw_of_cmd (req_cmd req))) + 1 :: u32)"
  define slba where "slba = rw_slba (rw_of_cmd (req_cmd req))"
  have nlb: "unat nlb = rw_blocks (req_cmd req)"
    using unsigned_less [of "rw_nlb (rw_of_cmd (req_cmd req))", where 'a = nat]
    by (simp add: nlb_def rw_blocks_def unat_word_ariths)
  have slba: "unat slba = rw_first (req_cmd req)" by (simp add: slba_def rw_first_def)
  have "unat (slba + ucast nlb) = rw_first (req_cmd req) + rw_blocks (req_cmd req)"
    using range ns(2) slba nlb by (simp add: unat_word_ariths)
  then have fits: "\<not> idns_nsze (ns_id_ns ?ns) < slba + ucast nlb"
    using range by (simp add: word_less_nat_alt)
  have "sint slba = int (rw_first (req_cmd req))" using sint_small [OF slba] range ns(2) by simp
  moreover obtain u where "bitmap_set (ns_uncorrectable ?ns) (int (rw_first (req_cmd req))) (int (rw_blocks (req_cmd req))) = Some u"
    "length u = length (ns_uncorrectable ?ns)"
    "\<forall>j. bm_bit u j = (rw_first (req_cmd req) \<le> j \<and> j < rw_first (req_cmd req) + rw_blocks (req_cmd req) \<or>
       bm_bit (ns_uncorrectable ?ns) j)"
    using bitmap_set_ok [of "rw_first (req_cmd req)" "rw_blocks (req_cmd req)"] range ns(1) by (meson order_trans)
  ultimately show ?thesis
    using fits nlb unfolding nvme_write_uncor_def Let_def nlb_def [symmetric] slba_def [symmetric] by auto
qed

definition blocks_overlap :: "NvmeCmd \<Rightarrow> NvmeCmd \<Rightarrow> bool" where
  "blocks_overlap a b \<longleftrightarrow> rw_first a < rw_first b + rw_blocks b \<and> rw_first b < rw_first a + rw_blocks a"

text \<open>A command on the namespace whose uncorrectable blocks have become \<open>u\<close> sees the rest of the controller unchanged.\<close>

lemma rw_after_marking:
  fixes n :: femu
  defines "mark i u \<equiv> upd_ns n i (\<lambda>ns. ns\<lparr>ns_uncorrectable := u\<rparr>)"
  assumes "plain_cmd n c" "i = unat (cmd_nsid c) - 1" "i < length (n_namespaces n)" "rw_admissible n (cmd_ns n c) c sg"
  shows "plain_cmd (mark i u) c" "cmd_ns (mark i u) c = (cmd_ns n c)\<lparr>ns_uncorrectable := u\<rparr>"
    "rw_admissible (mark i u) (cmd_ns (mark i u) c) c sg" "n_mbe (mark i u) = n_mbe n" "n_host (mark i u) = n_host n"
    "n_dma (mark i u) = n_dma n" "n_cfg (mark i u) = n_cfg n" "n_elpes (mark i u) = n_elpes n"
    "n_elp_index (mark i u) = n_elp_index n"
proof -
  show *: "n_mbe (mark i u) = n_mbe n" "n_host (mark i u) = n_host n"
    "n_dma (mark i u) = n_dma n" "n_cfg (mark i u) = n_cfg n" "n_elpes (mark i u) = n_elpes n"
    "n_elp_index (mark i u) = n_elp_index n"
    by (simp_all add: mark_def upd_ns_def)
  have **: "length (n_namespaces (mark i u)) = length (n_namespaces n)" "mdts_exceeded (mark i u) = mdts_exceeded n"
    by (simp_all add: mark_def upd_ns_def mdts_exceeded_def fun_eq_iff n_page_size_def)
  show "plain_cmd (mark i u) c" using assms(2) * ** by (simp add: plain_cmd_def BBSSD_def NOSSD_def)
  show ns: "cmd_ns (mark i u) c = (cmd_ns n c)\<lparr>ns_uncorrectable := u\<rparr>"
    using assms(3,4) by (simp add: cmd_ns_def mark_def upd_ns_def)
  show "rw_admissible (mark i u) (cmd_ns (mark i u) c) c sg"
    using assms(5) * ** unfolding ns rw_admissible_def ns_shift_def ns_lbaf_def Let_def by simp
qed

lemma readable_after_marking:
  assumes "\<And>j. bm_bit u j = (rw_first c \<le> j \<and> j < rw_first c + rw_blocks c \<or> bm_bit (ns_uncorrectable ns) j)"
    "readable ns d" "unat (idns_nsze (ns_id_ns ns)) \<le> 64 * length u"
  shows "readable (ns\<lparr>ns_uncorrectable := u\<rparr>) d \<longleftrightarrow> \<not> blocks_overlap d c"
proof
  assume r: "readable (ns\<lparr>ns_uncorrectable := u\<rparr>) d"
  show "\<not> blocks_overlap d c"
  proof
    assume o: "blocks_overlap d c"
    define j where "j = max (rw_first d) (rw_first c) - rw_first d"
    have "j < rw_blocks d" "bm_bit u (rw_first d + j)"
      using o by (auto simp: blocks_overlap_def j_def assms(1) rw_blocks_def)
    then show False using r by (auto simp: readable_def)
  qed
next
  assume "\<not> blocks_overlap d c"
  then show "readable (ns\<lparr>ns_uncorrectable := u\<rparr>) d"
    using assms(2,3) by (auto simp: readable_def assms(1) blocks_overlap_def)
qed

text \<open>A read by whether its blocks are readable.\<close>

lemma read_by_readability:
  assumes "plain_cmd n (req_cmd rd)" "rw_admissible n (cmd_ns n (req_cmd rd)) (req_cmd rd) sg"
    "cmd_opcode (req_cmd rd) = io_opcode NVME_CMD_READ" "backend_ok (n_mbe n)" "dma_page_size (n_dma n) \<noteq> 0"
    "unat (idns_nsze (ns_id_ns (cmd_ns n (req_cmd rd)))) \<le> 64 * length (ns_uncorrectable (cmd_ns n (req_cmd rd)))"
    "unat (n_elp_index n) < length (n_elpes n)" "p_elpe (n_cfg n) \<noteq> 0"
  shows "\<exists>rd' n2. nvme_io_cmd junk oc n rd =
      Some (if readable (cmd_ns n (req_cmd rd)) (req_cmd rd) then sc NVME_SUCCESS else sc NVME_UNRECOVERED_READ, rd', n2) \<and>
    n_mbe n2 = n_mbe n \<and> (\<not> readable (cmd_ns n (req_cmd rd)) (req_cmd rd) \<longrightarrow> n_host n2 = n_host n)"
proof -
  let ?m = "cmd_ns n (req_cmd rd)"
  have io: "nvme_io_cmd junk oc n rd = nvme_rw n ?m rd" using io_cmd_rw [OF assms(1)] assms(3) by simp
  show ?thesis
  proof (cases "readable ?m (req_cmd rd)")
    case False
    then show ?thesis using nvme_rw_unreadable [OF assms(2,4,3,6)] assms(7,8) io by auto
  next
    case True
    note R = nvme_rw_runs [OF assms(2,4,5) disjI2 [OF True]]
    let ?o = "push_bit (ns_shift ?m) (rw_slba (rw_of_cmd (req_cmd rd)))"
    have "unat ?o + sg_bytes sg \<le> be_size (n_mbe n)"
      using assms(2) R(2) rw_quantities(5) [OF assms(2,4)] by (simp add: rw_admissible_def Let_def algebra_simps)
    from backend_read_loop [OF assms(4) this] obtain h where
      "backend_rw (n_mbe n) (n_host n) sg [?o] False = Some (n_mbe n, h)"
      unfolding backend_rw_def nth_Cons_0 by blast
    then show ?thesis using R(1) io assms(3) True by auto
  qed
qed

text \<open>C27: After a Write Uncorrectable command, a read fails with Unrecovered Read Error when it touches one of
  its blocks, changing neither backend nor memory, and any other read that could be done before is
  still done.\<close>

theorem write_uncor_then_read:
  assumes "plain_cmd n (req_cmd wu)" "cmd_opcode (req_cmd wu) = io_opcode NVME_CMD_WRITE_UNCOR"
    "oncs_bit NVME_ONCS_WRITE_UNCORR AND p_oncs (n_cfg n) \<noteq> 0"
    "rw_first (req_cmd wu) + rw_blocks (req_cmd wu) \<le> unat (idns_nsze (ns_id_ns (cmd_ns n (req_cmd wu))))"
    "unat (idns_nsze (ns_id_ns (cmd_ns n (req_cmd wu)))) \<le> 64 * length (ns_uncorrectable (cmd_ns n (req_cmd wu)))"
    "unat (idns_nsze (ns_id_ns (cmd_ns n (req_cmd wu)))) < 2 ^ 63"
    "backend_ok (n_mbe n)" "dma_page_size (n_dma n) \<noteq> 0"
    "unat (n_elp_index n) < length (n_elpes n)" "p_elpe (n_cfg n) \<noteq> 0"
  shows "\<exists>n'. nvme_io_cmd junk oc n wu = Some (sc NVME_SUCCESS, wu, n') \<and>
    (\<forall>rd sg. cmd_opcode (req_cmd rd) = io_opcode NVME_CMD_READ \<and> cmd_nsid (req_cmd rd) = cmd_nsid (req_cmd wu) \<and>
       rw_admissible n (cmd_ns n (req_cmd rd)) (req_cmd rd) sg \<and> readable (cmd_ns n (req_cmd rd)) (req_cmd rd) \<longrightarrow>
       (\<exists>rd' n2. nvme_io_cmd junk oc n' rd =
            Some (if blocks_overlap (req_cmd rd) (req_cmd wu) then sc NVME_UNRECOVERED_READ else sc NVME_SUCCESS, rd', n2) \<and>
          n_mbe n2 = n_mbe n \<and> (blocks_overlap (req_cmd rd) (req_cmd wu) \<longrightarrow> n_host n2 = n_host n)))"
proof -
  let ?ns = "cmd_ns n (req_cmd wu)"
  let ?i = "unat (cmd_nsid (req_cmd wu)) - 1"
  note U = write_uncor_marks [of n ?i wu, folded cmd_ns_def [of n "req_cmd wu"], OF assms(5,6,4)]
  obtain u where u: "nvme_write_uncor n ?i wu = Some (sc NVME_SUCCESS, wu, upd_ns n ?i (\<lambda>ns. ns\<lparr>ns_uncorrectable := u\<rparr>))"
    "length u = length (ns_uncorrectable ?ns)"
    "\<And>j. bm_bit u j = (rw_first (req_cmd wu) \<le> j \<and> j < rw_first (req_cmd wu) + rw_blocks (req_cmd wu) \<or>
       bm_bit (ns_uncorrectable ?ns) j)"
    using U by blast
  let ?n = "upd_ns n ?i (\<lambda>ns. ns\<lparr>ns_uncorrectable := u\<rparr>)"
  have nz: "unat (cmd_nsid (req_cmd wu)) \<noteq> 0" using assms(1) by (simp add: plain_cmd_def unat_eq_0)
  then have i: "?i < length (n_namespaces n)" using assms(1) unfolding plain_cmd_def by linarith
  have "\<not> (cmd_nsid (req_cmd wu) = 0 \<or> p_num_namespaces (n_cfg n) < cmd_nsid (req_cmd wu))"
    using assms(1) by (simp add: plain_cmd_def linorder_not_less)
  then have wu: "nvme_io_cmd junk oc n wu = Some (sc NVME_SUCCESS, wu, ?n)"
    using u(1) i assms(2,3) unfolding nvme_io_cmd_def Let_def by (simp add: and.commute)
  have "\<exists>rd' n2. nvme_io_cmd junk oc ?n rd =
      Some (if blocks_overlap (req_cmd rd) (req_cmd wu) then sc NVME_UNRECOVERED_READ else sc NVME_SUCCESS, rd', n2) \<and>
      n_mbe n2 = n_mbe n \<and> (blocks_overlap (req_cmd rd) (req_cmd wu) \<longrightarrow> n_host n2 = n_host n)"
    if rd: "cmd_opcode (req_cmd rd) = io_opcode NVME_CMD_READ" "cmd_nsid (req_cmd rd) = cmd_nsid (req_cmd wu)"
      "rw_admissible n (cmd_ns n (req_cmd rd)) (req_cmd rd) sg" "readable (cmd_ns n (req_cmd rd)) (req_cmd rd)" for rd sg
  proof -
    have cn: "cmd_ns n (req_cmd rd) = ?ns" using rd(2) by (simp add: cmd_ns_def)
    have "plain_cmd n (req_cmd rd)" using assms(1) rd(2) by (simp add: plain_cmd_def)
    note M = rw_after_marking [OF this _ i rd(3), of u, unfolded rd(2), OF refl]
    have over: "readable (cmd_ns ?n (req_cmd rd)) (req_cmd rd) \<longleftrightarrow> \<not> blocks_overlap (req_cmd rd) (req_cmd wu)"
      unfolding M(2) cn by (rule readable_after_marking [OF u(3) rd(4) [unfolded cn]]) (use assms(5) u(2) in simp)
    have "backend_ok (n_mbe ?n)" "dma_page_size (n_dma ?n) \<noteq> 0" "unat (n_elp_index ?n) < length (n_elpes ?n)" "p_elpe (n_cfg ?n) \<noteq> 0"
      unfolding M(4-9) by (rule assms(7-10))+
    moreover have "unat (idns_nsze (ns_id_ns (cmd_ns ?n (req_cmd rd)))) \<le> 64 * length (ns_uncorrectable (cmd_ns ?n (req_cmd rd)))"
      unfolding M(2) cn using assms(5) u(2) by simp
    ultimately show ?thesis
      using read_by_readability [OF M(1,3) rd(1), of junk oc] unfolding over M(4,5)
      by (cases "blocks_overlap (req_cmd rd) (req_cmd wu)") simp_all
  qed
  then show ?thesis using wu by blast
qed

subsection \<open>A small device\<close>

definition ex_irq :: irq_state where
  "ex_irq = \<lparr>sb_msi_en = False, sb_msix_en = True, irq_vints = [], irq_sent = [], irq_msix_nvecs = 3\<rparr>"

text \<open>One namespace of eight blocks of 512 bytes, with a host whose memory holds the low byte of each address.\<close>

definition ex_ns :: NvmeNamespace where
  "ex_ns = zero_ns\<lparr>ns_id := 1,
     ns_id_ns := (set_nsze 8 zero_id_ns)\<lparr>idns_lbaf := replicate 16 \<lparr>lbaf_ms = 0, lbaf_lbads = 9, lbaf_rp = 0\<rparr>\<rparr>,
     ns_util := [0], ns_uncorrectable := [0]\<rparr>"

definition ex_cfg :: femu_props where
  "ex_cfg = default_props\<lparr>p_oncs := oncs_bit NVME_ONCS_WRITE_UNCORR OR oncs_bit NVME_ONCS_DSM, p_num_io_queues := 2\<rparr>"

definition ex_ctrl :: femu where
  "ex_ctrl = (calloc_femu ex_cfg (\<lambda>a. ucast a) ex_irq)\<lparr>n_dma := ex_ctx,
     n_mbe := init_dram_backend (femu_mode_code FEMU_NOSSD_MODE) 4096, n_namespaces := [ex_ns],
     n_elpes := replicate 4 zero_error_log\<rparr>"

definition ex_cmd :: "NvmeIoCommands \<Rightarrow> u32 \<Rightarrow> u64 \<Rightarrow> NvmeCmd" where
  "ex_cmd op slba page = zero_cmd\<lparr>cmd_opcode := io_opcode op, cmd_nsid := 1, cmd_prp1 := page, cmd_cdw10 := slba\<rparr>"

definition ex_req :: "NvmeCmd \<Rightarrow> NvmeRequest" where "ex_req cmd = (zero_req 1)\<lparr>req_cmd := cmd\<rparr>"

lemma ex_req_cmd [simp]: "req_cmd (ex_req cmd) = cmd"
  by (simp add: ex_req_def)

lemma ex_ctrl_simps:
  "n_dma ex_ctrl = ex_ctx" "n_host ex_ctrl = (\<lambda>a. ucast a)" "n_namespaces ex_ctrl = [ex_ns]" "n_cfg ex_ctrl = ex_cfg"
  "be_size (n_mbe ex_ctrl) = 4096" "backend_ok (n_mbe ex_ctrl)" "ic_mdts (n_id_ctrl ex_ctrl) = 0"
  "n_elp_index ex_ctrl = 0" "length (n_elpes ex_ctrl) = 4" "p_elpe ex_cfg = 3" "dma_page_size ex_ctx = 4096"
  by (simp_all add: ex_ctrl_def calloc_femu_def ex_cfg_def default_props_def init_dram_backend_def backend_ok_def
      linear_mode_def zero_id_ctrl_def ex_ctx_def)

lemma ex_cmd_plain: "n_cfg m = ex_cfg \<Longrightarrow> length (n_namespaces m) = 1 \<Longrightarrow> plain_cmd m (ex_cmd op slba page)"
  by (simp add: plain_cmd_def ex_cmd_def NOSSD_def BBSSD_def ex_cfg_def default_props_def)

lemma ex_cmd_fields: "cmd_opcode (ex_cmd op slba page) = io_opcode op" "cmd_nsid (ex_cmd op slba page) = 1"
  by (simp_all add: ex_cmd_def)

lemma ex_cmd_range: "rw_first (ex_cmd op slba page) = unat slba" "rw_blocks (ex_cmd op slba page) = 1"
  by (simp_all add: rw_first_def rw_blocks_def ex_cmd_def rw_of_cmd_def zero_cmd_def qword_def lo16_def)

lemma ex_cmd_ns: "n_namespaces m = [ex_ns] \<Longrightarrow> cmd_ns m (ex_cmd op slba page) = ex_ns"
  by (simp add: cmd_ns_def ex_cmd_def)

lemma ex_map: "nvme_map_prp ex_ctx h 0x10000 0 512 = (0, False, [(0x10000, 512)])"
  "nvme_map_prp ex_ctx h 0x20000 0 512 = (0, False, [(0x20000, 512)])"
  by code_simp+

lemma ex_admissible:
  assumes "n_dma m = ex_ctx" "be_size (n_mbe m) = 4096" "ic_mdts (n_id_ctrl m) = 0" "unat slba < 8" "page \<in> {0x10000, 0x20000}"
  shows "rw_admissible m ex_ns (ex_cmd op slba page) [(page, 512)]"
proof -
  have s: "ns_shift ex_ns = 9" "lbaf_ms (ns_lbaf ex_ns) = 0" "unat (idns_nsze (ns_id_ns ex_ns)) = 8"
    by (simp_all add: ns_shift_def ns_lbaf_def ex_ns_def zero_ns_def set_nsze_def zero_id_ns_def NVME_ID_NS_FLBAS_INDEX_def)
  have c: "rw_prp1 (rw_of_cmd (ex_cmd op slba page)) = page" "rw_prp2 (rw_of_cmd (ex_cmd op slba page)) = 0"
    "rw_control (rw_of_cmd (ex_cmd op slba page)) = 0"
    by (simp_all add: ex_cmd_def rw_of_cmd_def zero_cmd_def hi16_def)
  show ?thesis
    using assms ex_map unfolding rw_admissible_def Let_def ex_cmd_range s c
    by (auto simp: mdts_exceeded_def)
qed

theorem write_uncor_then_read_witness:
  "\<exists>n' rd1 n1 rd2 n2. nvme_io_cmd (\<lambda>_. 0) (\<lambda>_ _ _. None) ex_ctrl (ex_req (ex_cmd NVME_CMD_WRITE_UNCOR 3 0)) =
       Some (0, ex_req (ex_cmd NVME_CMD_WRITE_UNCOR 3 0), n') \<and>
     nvme_io_cmd (\<lambda>_. 0) (\<lambda>_ _ _. None) n' (ex_req (ex_cmd NVME_CMD_READ 3 0x10000)) = Some (sc NVME_UNRECOVERED_READ, rd1, n1) \<and>
     nvme_io_cmd (\<lambda>_. 0) (\<lambda>_ _ _. None) n' (ex_req (ex_cmd NVME_CMD_READ 4 0x10000)) = Some (0, rd2, n2)"
proof -
  let ?wu = "ex_req (ex_cmd NVME_CMD_WRITE_UNCOR 3 0)"
  have size': "idns_nsze (ns_id_ns ex_ns) = 8" "length (ns_uncorrectable ex_ns) = 1"
    by (simp_all add: ex_ns_def zero_ns_def set_nsze_def)
  have cn: "cmd_ns ex_ctrl (ex_cmd op slba page) = ex_ns" for op slba page by (simp add: ex_cmd_ns ex_ctrl_simps)
  have "plain_cmd ex_ctrl (req_cmd ?wu)" by (simp add: ex_cmd_plain ex_ctrl_simps)
  moreover have "cmd_opcode (req_cmd ?wu) = io_opcode NVME_CMD_WRITE_UNCOR" by (simp add: ex_cmd_def)
  moreover have "oncs_bit NVME_ONCS_WRITE_UNCORR AND p_oncs (n_cfg ex_ctrl) \<noteq> 0"
    by (simp add: ex_ctrl_simps ex_cfg_def)
  moreover have "rw_first (req_cmd ?wu) + rw_blocks (req_cmd ?wu) \<le> unat (idns_nsze (ns_id_ns (cmd_ns ex_ctrl (req_cmd ?wu))))"
    "unat (idns_nsze (ns_id_ns (cmd_ns ex_ctrl (req_cmd ?wu)))) \<le> 64 * length (ns_uncorrectable (cmd_ns ex_ctrl (req_cmd ?wu)))"
    "unat (idns_nsze (ns_id_ns (cmd_ns ex_ctrl (req_cmd ?wu)))) < 2 ^ 63"
    by (simp_all add: cn size' ex_cmd_range)
  moreover have "backend_ok (n_mbe ex_ctrl)" "dma_page_size (n_dma ex_ctrl) \<noteq> 0"
    "unat (n_elp_index ex_ctrl) < length (n_elpes ex_ctrl)" "p_elpe (n_cfg ex_ctrl) \<noteq> 0"
    by (simp_all add: ex_ctrl_simps)
  ultimately obtain n' where W: "nvme_io_cmd (\<lambda>_. 0) (\<lambda>_ _ _. None) ex_ctrl ?wu = Some (sc NVME_SUCCESS, ?wu, n')"
    "\<And>rd sg. cmd_opcode (req_cmd rd) = io_opcode NVME_CMD_READ \<and> cmd_nsid (req_cmd rd) = cmd_nsid (req_cmd ?wu) \<and>
       rw_admissible ex_ctrl (cmd_ns ex_ctrl (req_cmd rd)) (req_cmd rd) sg \<and> readable (cmd_ns ex_ctrl (req_cmd rd)) (req_cmd rd) \<Longrightarrow>
       (\<exists>rd' n2. nvme_io_cmd (\<lambda>_. 0) (\<lambda>_ _ _. None) n' rd =
            Some (if blocks_overlap (req_cmd rd) (req_cmd ?wu) then sc NVME_UNRECOVERED_READ else sc NVME_SUCCESS, rd', n2) \<and>
          n_mbe n2 = n_mbe ex_ctrl \<and> (blocks_overlap (req_cmd rd) (req_cmd ?wu) \<longrightarrow> n_host n2 = n_host ex_ctrl))"
    using write_uncor_then_read [where n = ex_ctrl and wu = ?wu and junk = "\<lambda>_. 0" and oc = "\<lambda>_ _ _. None"] by blast
  have rd: "cmd_opcode (req_cmd r) = io_opcode NVME_CMD_READ \<and> cmd_nsid (req_cmd r) = cmd_nsid (req_cmd ?wu) \<and>
       rw_admissible ex_ctrl (cmd_ns ex_ctrl (req_cmd r)) (req_cmd r) [(0x10000, 512)] \<and>
       readable (cmd_ns ex_ctrl (req_cmd r)) (req_cmd r)"
    if r: "r = ex_req (ex_cmd NVME_CMD_READ slba 0x10000)" "unat slba < 8" for slba r
  proof -
    have "rw_admissible ex_ctrl ex_ns (ex_cmd NVME_CMD_READ slba 0x10000) [(0x10000, 512)]"
      by (rule ex_admissible) (use r(2) in \<open>simp_all add: ex_ctrl_simps\<close>)
    moreover have "readable ex_ns (ex_cmd NVME_CMD_READ slba 0x10000)"
      by (simp add: readable_def size' bm_bit_def ex_cmd_range) (auto simp: ex_ns_def)
    ultimately show ?thesis by (simp add: r(1) cn) (simp add: ex_cmd_def)
  qed
  show ?thesis
    using W(1) W(2) [OF rd [OF refl, of 3]] W(2) [OF rd [OF refl, of 4]]
    by (simp add: blocks_overlap_def ex_cmd_range) blast
qed

lemma distinct_one_entry: "distinct (sg_addrs [(a, k)])"
proof -
  have "inj_on (\<lambda>i. a + of_nat i) {0..<unat k}"
  proof (rule inj_onI)
    fix i j assume ij: "i \<in> {0..<unat k}" "j \<in> {0..<unat k}" "a + of_nat i = a + of_nat j"
    then have "i < 2 ^ 64" "j < 2 ^ 64" using unsigned_less [of k, where 'a = nat] by simp_all
    with ij(3) show "i = j" by (simp add: word_of_nat_eq_iff take_bit_nat_eq_self)
  qed
  then show ?thesis by (simp add: distinct_map)
qed

theorem write_then_read_witness:
  "\<exists>b wr' rd' n2. nvme_io_cmd (\<lambda>_. 0) (\<lambda>_ _ _. None) ex_ctrl (ex_req (ex_cmd NVME_CMD_WRITE 3 0x10000)) =
       Some (0, wr', ex_ctrl\<lparr>n_mbe := b\<rparr>) \<and>
     nvme_io_cmd (\<lambda>_. 0) (\<lambda>_ _ _. None) (ex_ctrl\<lparr>n_mbe := b, n_host := \<lambda>_. 9\<rparr>) (ex_req (ex_cmd NVME_CMD_READ 3 0x20000)) =
       Some (0, rd', n2) \<and>
     sg_data (n_host n2) [(0x20000, 512)] = sg_data (\<lambda>a. ucast a) [(0x10000, 512)] \<and> n_host n2 0x30000 = 9"
proof -
  let ?wr = "ex_req (ex_cmd NVME_CMD_WRITE 3 0x10000)" and ?rd = "ex_req (ex_cmd NVME_CMD_READ 3 0x20000)"
  have "plain_cmd ex_ctrl (req_cmd ?wr)" by (simp add: ex_cmd_plain ex_ctrl_simps)
  moreover have "cmd_opcode (req_cmd ?wr) = io_opcode NVME_CMD_WRITE" by (simp add: ex_cmd_def)
  moreover have "rw_admissible ex_ctrl (cmd_ns ex_ctrl (req_cmd ?wr)) (req_cmd ?wr) [(0x10000, 512)]"
    by (simp add: ex_cmd_ns ex_ctrl_simps ex_admissible)
  moreover have "backend_ok (n_mbe ex_ctrl)" "dma_page_size (n_dma ex_ctrl) \<noteq> 0" by (simp_all add: ex_ctrl_simps)
  ultimately obtain wr' b where W: "nvme_io_cmd (\<lambda>_. 0) (\<lambda>_ _ _. None) ex_ctrl ?wr = Some (sc NVME_SUCCESS, wr', ex_ctrl\<lparr>n_mbe := b\<rparr>)"
    "be_size b = be_size (n_mbe ex_ctrl)"
    "\<And>h rd pgs. let m = ex_ctrl\<lparr>n_mbe := b, n_host := h\<rparr>; cmd = req_cmd rd; ns = cmd_ns m cmd
      in cmd_opcode cmd = io_opcode NVME_CMD_READ \<and> cmd_nsid cmd = cmd_nsid (req_cmd ?wr) \<and>
         rw_first cmd = rw_first (req_cmd ?wr) \<and> rw_blocks cmd = rw_blocks (req_cmd ?wr) \<and>
         rw_admissible m ns cmd pgs \<and> readable ns cmd \<and> distinct (sg_addrs pgs) \<longrightarrow>
         (\<exists>rd' n2. nvme_io_cmd (\<lambda>_. 0) (\<lambda>_ _ _. None) m rd = Some (sc NVME_SUCCESS, rd', n2) \<and>
            sg_data (n_host n2) pgs = sg_data (n_host ex_ctrl) [(0x10000, 512)] \<and>
            (\<forall>a. a \<notin> set (sg_addrs pgs) \<longrightarrow> n_host n2 a = h a))"
    using write_then_read [where n = ex_ctrl and wr = ?wr and sg = "[(0x10000, 512)]" and junk = "\<lambda>_. 0" and oc = "\<lambda>_ _ _. None"] by blast
  let ?m = "ex_ctrl\<lparr>n_mbe := b, n_host := \<lambda>_. 9\<rparr>"
  have m: "cmd_ns ?m (req_cmd ?rd) = ex_ns" "rw_admissible ?m ex_ns (req_cmd ?rd) [(0x20000, 512)]"
    "readable ex_ns (req_cmd ?rd)"
    by (simp_all add: ex_cmd_ns ex_ctrl_simps ex_admissible W(2) ex_cmd_range readable_def bm_bit_def)
      (simp add: ex_ns_def zero_ns_def set_nsze_def)
  have "0x30000 \<notin> set (sg_addrs [(0x20000, 512)])"
  proof
    assume "0x30000 \<in> set (sg_addrs [(0x20000, 512)])"
    then obtain i :: nat where "i < 512" "(0x30000 :: u64) = 0x20000 + of_nat i" by auto
    then have "(of_nat i :: u64) = of_nat 0x10000" by (simp add: algebra_simps)
    with \<open>i < 512\<close> show False by (simp only: word_of_nat_eq_iff) (simp add: take_bit_nat_eq_self)
  qed
  then have out: "a = 0x30000 \<Longrightarrow> a \<notin> set (sg_addrs [(0x20000, 512)])" for a by blast
  obtain rd' n2 where R: "nvme_io_cmd (\<lambda>_. 0) (\<lambda>_ _ _. None) ?m ?rd = Some (sc NVME_SUCCESS, rd', n2)"
    "sg_data (n_host n2) [(0x20000, 512)] = sg_data (n_host ex_ctrl) [(0x10000, 512)]"
    "\<forall>a. a \<notin> set (sg_addrs [(0x20000, 512)]) \<longrightarrow> n_host n2 a = 9"
    using W(3) [where h = "\<lambda>_. 9" and rd = ?rd and pgs = "[(0x20000, 512)]", unfolded Let_def m(1)] m(2,3)
      distinct_one_entry [of "0x20000" 512]
    by (simp add: ex_cmd_range ex_cmd_fields del: sg_addrs_simps sg_data_simps) blast
  from R(3) out have "n_host n2 0x30000 = 9" by blast
  then show ?thesis using W(1) R(1,2) unfolding ex_ctrl_simps(2) by (auto simp del: sg_data_simps)
qed

end
