(* ===== verification/Nvme_Io_Props.thy ===== *)
theory Nvme_Io_Props
  imports Nvme_Io_Steps Nvme_Rw
begin

text \<open>
  Properties of the I/O path: where requests are in any interleaving of host, poller and FTL thread,
  what reads and writes do to the backend, the uncorrectable blocks, the completion queue, and the
  expiry of requests.
\<close>

subsection \<open>Interleavings of host, pollers and FTL thread\<close>

inductive io_step :: "(nat \<Rightarrow> u8) \<Rightarrow> (femu \<Rightarrow> nat \<Rightarrow> NvmeRequest \<Rightarrow> io_result) \<Rightarrow> femu \<Rightarrow> femu \<Rightarrow> bool"
  for junk :: "nat \<Rightarrow> u8" and oc :: "femu \<Rightarrow> nat \<Rightarrow> NvmeRequest \<Rightarrow> io_result" where
  Fetch: "nvme_process_sq_io junk oc rt i p n = Some n' \<Longrightarrow> io_step junk oc n n'"
| Complete: "nvme_process_cq_cpl realloc_ok rt p n = Some n' \<Longrightarrow> io_step junk oc n n'"
| Translate: "ftl_step fuel rt p (lat, n) = Some (lat', n') \<Longrightarrow> io_step junk oc n n'"
| Host_memory: "io_step junk oc n (n\<lparr>n_host := h\<rparr>)"
| Host_sq: "lookup (n_sq n) i = Some q \<Longrightarrow> io_step junk oc n (upd_sq n i (q\<lparr>sq_tail := t\<rparr>))"
| Host_cq: "lookup (n_cq n) c = Some cq \<Longrightarrow> io_step junk oc n (upd_cq n c (cq\<lparr>cq_head := h\<rparr>))"

lemma io_step_moves:
  assumes "io_step junk oc n n'" "io_ok n" "\<not> OCSSD n"
  shows "moves n n'"
  using assms
proof (induction rule: io_step.induct)
  case (Fetch rt i p n n')
  then show ?case by (rule nvme_process_sq_io_ok)
next
  case (Complete realloc_ok rt p n n')
  then show ?case using nvme_process_cq_cpl_ok by blast
next
  case (Translate fuel rt p lat n lat' n')
  then show ?case using ftl_step_ok by blast
next
  case (Host_memory n h)
  then show ?case by (intro moves_view [OF moves_refl]) (simp_all add: io_view_def)
next
  case (Host_sq n i q t)
  then show ?case by (intro upd_sq_ok) simp_all
next
  case (Host_cq n c cq h)
  then show ?case by (intro moves_view [OF moves_refl]) simp_all
qed

lemma io_steps_move:
  assumes "(io_step junk oc)\<^sup>*\<^sup>* n n'" "io_ok n" "\<not> OCSSD n"
  shows "moves n n'"
  using assms(1)
proof (induction rule: rtranclp_induct)
  case (step a b)
  then have "io_ok a" "\<not> OCSSD a" using moves_OCSSD [OF step.IH] assms(3) by (simp_all add: moves_def)
  from moves_trans [OF step.IH io_step_moves [OF step.hyps(2) this]] show ?case .
qed (rule moves_refl [OF assms(2)])

text \<open>The queues as \<open>nvme_init_sq\<close> leaves them: the free list names requests of the queue, each once.\<close>

definition queues_fresh :: "femu \<Rightarrow> bool" where
  "queues_fresh n \<longleftrightarrow> (\<forall>q \<in> set (n_sq n). case q of None \<Rightarrow> True
     | Some q \<Rightarrow> distinct (sq_req_list q) \<and> set (sq_req_list q) \<subseteq> {..<length (sq_io_req q)})"

lemma queues_freshD:
  assumes "queues_fresh n" "lookup (n_sq n) i = Some q"
  shows "distinct (sq_req_list q)" "\<And>k. k \<in> set (sq_req_list q) \<Longrightarrow> k < length (sq_io_req q)"
proof -
  have "Some q \<in> set (n_sq n)" using assms(2) by (auto simp: lookup_def split: if_splits) (metis nth_mem)
  with assms(1) show "distinct (sq_req_list q)" "\<And>k. k \<in> set (sq_req_list q) \<Longrightarrow> k < length (sq_io_req q)"
    unfolding queues_fresh_def by fastforce+
qed

lemma pool_count: "Multiset.count (pool g k) x = (\<Sum>i<k. Multiset.count (mset (g i)) x)"
  by (induction k) (simp_all add: pool_def lessThan_Suc)

lemma fresh_free:
  assumes "queues_fresh n"
  shows "single (free_reqs n)" "r \<in># free_reqs n \<Longrightarrow> req_at (n_sq n) r \<noteq> None"
proof -
  have own: "Multiset.count (mset (free_at (n_sq n) i)) r \<le> (if i = fst r then 1 else 0)" for i r
  proof (cases "lookup (n_sq n) i")
    case (Some q)
    then have "distinct (free_at (n_sq n) i)" "i \<noteq> fst r \<Longrightarrow> r \<notin> set (free_at (n_sq n) i)"
      using queues_freshD(1) [OF assms Some] by (auto simp: free_at_def distinct_map inj_on_def)
    then show ?thesis by (cases "i = fst r") (simp_all add: distinct_count_atmost_1 count_mset_0_iff del: split_paired_All)
  qed (simp add: free_at_def)
  have "Multiset.count (free_reqs n) r \<le> 1" for r
  proof -
    have "Multiset.count (free_reqs n) r \<le> (\<Sum>i<length (n_sq n). if i = fst r then 1 else 0)"
      unfolding free_reqs_def pool_count by (rule sum_mono) (rule own)
    also have "\<dots> \<le> 1" by (simp add: sum.delta)
    finally show ?thesis .
  qed
  then show "single (free_reqs n)" by (simp add: single_def)
  show "req_at (n_sq n) r \<noteq> None" if "r \<in># free_reqs n"
  proof -
    from that obtain i where "r \<in> set (free_at (n_sq n) i)" by (auto simp: free_reqs_def mem_pool)
    then obtain q k where "lookup (n_sq n) i = Some q" "k \<in> set (sq_req_list q)" "r = (i, k)"
      by (cases "lookup (n_sq n) i") (auto simp: free_at_def)
    then show ?thesis using queues_freshD(2) [OF assms] by (auto simp: req_at_def)
  qed
qed

lemma pool_empty: "(\<And>i. i < k \<Longrightarrow> g i = []) \<Longrightarrow> pool g k = {#}"
  by (simp add: pool_def)

lemma new_ring_ok: "\<exists>r. new_ring True = Some r \<and> ring_ok r \<and> ring_contents r = [] \<and> rte_ring_empty r"
proof -
  have "(of_nat FEMU_MAX_INF_REQS :: u64) = 2 ^ 16" by (simp add: FEMU_MAX_INF_REQS_def)
  with ring_created [of 16 null_req FEMU_RING_TYPE_MP_SC] obtain r where
    r: "new_ring True = Some r" "ring_ok r" "ring_contents r = []"
    unfolding new_ring_def by (metis numeral_le_iff semiring_norm(68,69,71,72,73,76,78))
  have "ring_used r = 0" using r(3) length_ring_contents [of r] by simp
  then have "unat (rte_ring_count r) = 0" using ring_count_used [OF r(2)] by simp
  with r show ?thesis by (auto simp: rte_ring_empty_def unat_eq_0)
qed

definition new_pq :: "(sq_table, req_id) pqueue" where
  "new_pq = the (pqueue_init True True null_req FEMU_MAX_INF_REQS req_ops)"

lemma new_pq_ok:
  "pqueue_init True True null_req FEMU_MAX_INF_REQS req_ops = Some new_pq" "pq_elems new_pq = []"
  "cpl_wf tab new_pq"
  by (simp_all add: new_pq_def pqueue_init_def pq_elems_def arr_slice_def pq_wf_def pq_shape_def pq_pos_def pq_heap_def)

lemma pollers_created:
  assumes "nvme_create_poller True n = Some n'" "queues_fresh n"
  shows "io_ok n'" "n_cfg n' = n_cfg n"
proof -
  obtain ring where r: "new_ring True = Some ring" "ring_ok ring" "ring_contents ring = []"
    using new_ring_ok by blast
  define k where "k = (if p_multipoller_enabled (n_cfg n) \<noteq> 0 then unat (p_num_io_queues (n_cfg n)) else 1) + 1"
  have n': "n_sq n' = n_sq n" "n_cfg n' = n_cfg n" "n_to_ftl n' = replicate k ring"
    "n_to_poller n' = replicate k ring" "n_pq n' = replicate k new_pq"
    using assms(1) r(1) new_pq_ok(1) unfolding nvme_create_poller_def Let_def k_def by (auto split: if_splits)
  show "n_cfg n' = n_cfg n" by (rule n')
  have "rings_reqs (replicate k ring) = {#}"
    unfolding rings_reqs_def by (rule pool_empty) (simp add: r(3))
  moreover have "queued_reqs n' = {#}"
    unfolding queued_reqs_def n' by (rule pool_empty) (simp add: new_pq_ok(2))
  moreover have "free_reqs n' = free_reqs n" by (simp add: free_reqs_def n')
  ultimately have e: "io_reqs n' = free_reqs n" by (simp add: io_reqs_def n')
  show "io_ok n'"
    using fresh_free [OF assms(2)] r(2) new_pq_ok(3) unfolding io_ok_def e by (auto simp: n')
qed


subsection \<open>Expiry\<close>

lemma drain_ring_clk: "drain_ring k realloc_ok p n ring = Some (ring', n') \<Longrightarrow> n_clk n' = n_clk n \<and> length (n_pq n') = length (n_pq n)"
  by (induction k arbitrary: n ring) (fastforce split: if_splits bind_splits option.splits prod.splits)+

text \<open>C16: After a poller's completion sweep, no request that was due when the sweep began is still waiting: it
  has been completed.  The hypothesis on the clock is that it does not run backwards.\<close>

theorem no_due_request_waits:
  assumes "nvme_process_cq_cpl realloc_ok rt p n = Some n'" "io_ok n" "mono rt" "r \<in> set (pq_elems (n_pq n' ! p))"
  shows "rt (n_clk n) < get_pri (n_sq n') r"
proof -
  define b where "b = BBSSD n"
  from assms(1) obtain ring n1 d n2 where hr: "has_ring b p n" and
    dr: "drain_ring (femu_ring_count (the_ring b p n)) realloc_ok p n (the_ring b p n) = Some (ring, n1)" and
    p: "p < length (n_pq (put_ring (BBSSD n1) p ring n1))" and
    cl: "complete_loop (pqueue_size (n_pq (put_ring (BBSSD n1) p ring n1) ! p)) rt p 0 (put_ring (BBSSD n1) p ring n1) = Some (d, n2)" and
    n': "(if d = 0 then Some n2 else if p_multipoller_enabled (n_cfg n2) = 1 then nvme_isr_notify_io n2 p
        else notify_loop [1..<unat (p_num_io_queues (n_cfg n2)) + 1] n2) = Some n'"
    unfolding nvme_process_cq_cpl_def ring_at_def b_def has_ring_def the_ring_def put_ring_def Let_def
    by (auto split: if_splits bind_splits)
  have same: "put_ring b p (the_ring b p n) n = n" by (simp add: put_ring_def the_ring_def)
  note D = drain_ring_ok [OF dr, where b = b, unfolded same, OF assms(2) hr]
  have b1: "BBSSD n1 = b" using D(1) by (simp add: moves_def b_def BBSSD_def)
  let ?m = "put_ring b p ring n1"
  have v: "n_sq n' = n_sq n2" "n_pq n' = n_pq n2"
    using n' notify_view notify_loop_view unfolding io_view_def by (auto split: if_splits)
  have "n_clk ?m = n_clk n" using drain_ring_clk [OF dr] by (simp add: put_ring_def)
  moreover have "rt (n_clk ?m) < get_pri (n_sq n2) r"
    by (rule complete_loop_due [OF cl [unfolded b1]])
      (use D(1) assms(3,4) p v in \<open>simp_all add: b1 moves_def pqueue_size_def\<close>)
  ultimately show ?thesis using v by simp
qed

subsection \<open>The completion queue\<close>

text \<open>The phase tag of entry \<open>j\<close> as the host sees it, and the rule by which it knows new entries: the entries before
  the tail carry the current phase, the others the opposite one.\<close>

definition cqe_tag :: "femu \<Rightarrow> NvmeCQueue \<Rightarrow> nat \<Rightarrow> bool" where
  "cqe_tag n q j = bit (n_host n (cq_dma_addr q + of_nat (16 * j + 14))) 0"

definition cq_ring_ok :: "NvmeCQueue \<Rightarrow> bool" where
  "cq_ring_ok q \<longleftrightarrow> cq_phys_contig q \<noteq> 0 \<and> unat (cq_size q) \<le> 65536 \<and> unat (cq_tail q) < unat (cq_size q) \<and>
     (cq_phase q = 0 \<or> cq_phase q = 1)"

definition phase_tags :: "femu \<Rightarrow> NvmeCQueue \<Rightarrow> bool" where
  "phase_tags n q \<longleftrightarrow> (\<forall>j < unat (cq_size q). cqe_tag n q j = (if j < unat (cq_tail q) then cq_phase q = 1 else cq_phase q = 0))"

lemma tag_address:
  assumes "j < 65536" "t < 65536" "i < 16" "a + of_nat (16 * j + 14) = (a :: u64) + of_nat (16 * t) + of_nat i"
  shows "j = t" "i = 14"
proof -
  have "(of_nat (16 * j + 14) :: u64) = of_nat (16 * t + i)" using assms(4) by (simp add: algebra_simps)
  then have "16 * j + 14 = 16 * t + i"
    using assms(1-3) unfolding word_of_nat_eq_iff by (simp add: take_bit_nat_eq_self)
  then show "j = t" "i = 14" using assms(3) by presburger+
qed

lemma cqe_bytes_tag: "length (cqe_bytes c) = 16" "bit (cqe_bytes c ! 14) 0 = bit (cqe_status c) 0"
  by (simp_all add: cqe_bytes_def le_bytes_def nth_append upt_rec bit_simps)

text \<open>What posting a completion does to the host's memory: one entry of sixteen bytes, with the current phase.\<close>

lemma post_cqe_writes:
  assumes "nvme_post_cqe c r n = Some n'" "lookup (n_cq n) c = Some q" "cq_ring_ok q" "n_cqe_size n = 16"
    "dma_cmbsz (n_dma n) = 0"
  obtains bs where "length bs = 16" "bit (bs ! 14) 0 = (cq_phase q = 1)"
    "n_host n' = pci_dma_write (n_host n) (cq_dma_addr q + of_nat (16 * unat (cq_tail q))) bs"
    "n_cq n' = (n_cq n)[c := Some (nvme_inc_cq_tail q)]"
proof -
  let ?t = "unat (cq_tail q)"
  from assms(1,2) obtain req sq where rs: "req_at (n_sq n) r = Some req" "lookup (n_sq n) (fst r) = Some sq"
    by (auto simp: nvme_post_cqe_def split: bind_splits)
  define cqe where "cqe = (req_cqe req)\<lparr>cqe_status := push_bit 1 (req_status req) OR ucast (cq_phase q),
    cqe_sq_id := sq_sqid sq, cqe_sq_head := ucast (sq_head sq)\<rparr>"
  have "cq_entry_addr (upd_req n r x) q = cq_entry_addr n q" for x
    by (simp add: cq_entry_addr_def queue_entry_addr_def upd_req_def n_page_size_def cong: option.case_cong)
  with assms(1,2) rs obtain addr where addr: "cq_entry_addr n q = Some addr" and
    n'_def: "n' = upd_cq (addr_write (upd_req n r (req\<lparr>req_cqe := cqe\<rparr>)) addr (cqe_bytes cqe)) c (nvme_inc_cq_tail q)"
    by (auto simp: nvme_post_cqe_def Let_def cqe_def split: bind_splits)
  have n': "n_host n' = snd (nvme_addr_write (n_dma n) (n_host n) addr (cqe_bytes cqe))"
    "n_cq n' = (n_cq n)[c := Some (nvme_inc_cq_tail q)]"
    by (simp_all add: n'_def upd_cq_def addr_write_def upd_req_def split: prod.split)
  have cqe: "cqe_status cqe = push_bit 1 (req_status req) OR ucast (cq_phase q)" by (simp add: cqe_def)
  have t: "?t < unat (cq_size q)" "unat (cq_size q) \<le> 65536" using assms(3) by (simp_all add: cq_ring_ok_def)
  have "unat (cq_tail q * 16) = 16 * ?t" using t by (simp add: unat_word_ariths)
  then have "(ucast (cq_tail q * 16) :: u64) = of_nat (16 * ?t)" by (intro word_of_unat) simp
  then have "addr = cq_dma_addr q + of_nat (16 * ?t)"
    using addr assms(3,4) by (simp add: cq_entry_addr_def queue_entry_addr_def cq_ring_ok_def)
  then have "n_host n' = pci_dma_write (n_host n) (cq_dma_addr q + of_nat (16 * ?t)) (cqe_bytes cqe)"
    using assms(5) by (simp add: n' nvme_addr_write_def in_cmb_def)
  moreover have "bit (cqe_bytes cqe ! 14) 0 = (cq_phase q = 1)"
    using assms(3) unfolding cqe_bytes_tag(2) cqe bit_or_iff bit_push_bit_iff by (auto simp: cq_ring_ok_def bit_unsigned_iff)
  ultimately show ?thesis using that cqe_bytes_tag(1) n'(2) by blast
qed

lemma inc_cq_tail_ring:
  assumes "cq_ring_ok q"
  shows "cq_dma_addr (nvme_inc_cq_tail q) = cq_dma_addr q" "cq_size (nvme_inc_cq_tail q) = cq_size q"
    "cqe_tag m (nvme_inc_cq_tail q) = cqe_tag m q"
    "unat (cq_tail (nvme_inc_cq_tail q)) = (if unat (cq_tail q) + 1 = unat (cq_size q) then 0 else unat (cq_tail q) + 1)"
    "cq_phase (nvme_inc_cq_tail q) =
       (if unat (cq_tail q) + 1 = unat (cq_size q) then if cq_phase q = 0 then 1 else 0 else cq_phase q)"
    "cq_ring_ok (nvme_inc_cq_tail q)"
proof -
  have t: "unat (cq_tail q) < unat (cq_size q)" "unat (cq_size q) \<le> 65536" using assms by (simp_all add: cq_ring_ok_def)
  then have t1: "unat (cq_tail q + 1) = unat (cq_tail q) + 1" by (simp add: unat_word_ariths)
  show *: "cq_dma_addr (nvme_inc_cq_tail q) = cq_dma_addr q" "cq_size (nvme_inc_cq_tail q) = cq_size q"
    by (simp_all add: nvme_inc_cq_tail_def Let_def)
  then show "cqe_tag m (nvme_inc_cq_tail q) = cqe_tag m q" by (simp add: cqe_tag_def fun_eq_iff)
  show tail: "unat (cq_tail (nvme_inc_cq_tail q)) = (if unat (cq_tail q) + 1 = unat (cq_size q) then 0 else unat (cq_tail q) + 1)"
    "cq_phase (nvme_inc_cq_tail q) =
       (if unat (cq_tail q) + 1 = unat (cq_size q) then if cq_phase q = 0 then 1 else 0 else cq_phase q)"
    using t t1 by (auto simp: nvme_inc_cq_tail_def Let_def word_le_nat_alt)
  have "cq_phys_contig (nvme_inc_cq_tail q) = cq_phys_contig q" by (simp add: nvme_inc_cq_tail_def Let_def)
  then show "cq_ring_ok (nvme_inc_cq_tail q)" using assms t * tail by (auto simp: cq_ring_ok_def)
qed

text \<open>C15: Posting a completion keeps this rule, changes the tag of exactly the entry at the tail, and moves the
  tail on: the host finds every completion once, also when the queue wraps.\<close>

theorem completion_changes_one_tag:
  assumes "nvme_post_cqe c r n = Some n'" "lookup (n_cq n) c = Some q" "cq_ring_ok q" "phase_tags n q"
    "n_cqe_size n = 16" "dma_cmbsz (n_dma n) = 0"
  shows "\<exists>q'. lookup (n_cq n') c = Some q' \<and> q' = nvme_inc_cq_tail q \<and> cq_ring_ok q' \<and> phase_tags n' q' \<and>
    (\<forall>j < unat (cq_size q). cqe_tag n' q' j = (if j = unat (cq_tail q) then \<not> cqe_tag n q j else cqe_tag n q j))"
proof -
  let ?a = "cq_dma_addr q" and ?t = "unat (cq_tail q)"
  obtain bs where bs: "length bs = 16" "bit (bs ! 14) 0 = (cq_phase q = 1)" and
    h: "n_host n' = pci_dma_write (n_host n) (?a + of_nat (16 * ?t)) bs" and
    cq: "n_cq n' = (n_cq n)[c := Some (nvme_inc_cq_tail q)]"
    by (rule post_cqe_writes [OF assms(1,2,3,5,6)])
  note I = inc_cq_tail_ring [OF assms(3)]
  have t: "?t < unat (cq_size q)" "unat (cq_size q) \<le> 65536" and ph: "cq_phase q = 0 \<or> cq_phase q = 1"
    using assms(3) by (simp_all add: cq_ring_ok_def)
  have new: "cqe_tag n' q ?t = (cq_phase q = 1)"
    using pci_dma_write_nth [of bs 14 "n_host n" "?a + of_nat (16 * ?t)"] bs by (simp add: cqe_tag_def h add.assoc)
  have old: "cqe_tag n' q j = cqe_tag n q j" if "j < unat (cq_size q)" "j \<noteq> ?t" for j
  proof -
    have "?a + of_nat (16 * j + 14) \<noteq> ?a + of_nat (16 * ?t) + of_nat i" if "i < length bs" for i
      using tag_address [of j ?t i ?a] that t \<open>j \<noteq> ?t\<close> \<open>j < unat (cq_size q)\<close> unfolding bs(1) by linarith
    then show ?thesis unfolding cqe_tag_def h by (subst pci_dma_write_other) (simp_all add: bs(1))
  qed
  have flip: "cqe_tag n q ?t = (cq_phase q = 0)" using assms(4) t(1) ph by (auto simp: phase_tags_def)
  have "cqe_tag n' q j = (if j < unat (cq_tail (nvme_inc_cq_tail q)) then cq_phase (nvme_inc_cq_tail q) = 1
      else cq_phase (nvme_inc_cq_tail q) = 0)" if j: "j < unat (cq_size q)" for j
  proof (cases "j = ?t")
    case True
    then show ?thesis using new I(4,5) j ph by auto
  next
    case False
    then show ?thesis using old [OF j False] assms(4) j I(4,5) t(1) ph unfolding phase_tags_def by auto
  qed
  then have "phase_tags n' (nvme_inc_cq_tail q)" by (simp add: phase_tags_def I(2,3))
  moreover have "cqe_tag n' q ?t = (\<not> cqe_tag n q ?t)" using new flip ph by auto
  ultimately show ?thesis
    using cq old lookup_less [OF assms(2)] I(6) by (auto simp: lookup_update I(3))
qed

subsection \<open>What is never answered\<close>

text \<open>The fetch of a command for a namespace that does not exist.\<close>

lemma process_refused:
  assumes "lookup (n_sq n) i = Some q" "sq_req_list q = r # rest" "sq_entry_addr n q = Some a" "sq_size q \<noteq> 0"
    "req_at (n_sq n) (i, r) = Some req"
    "cmd_nsid (cmd_of_bytes (addr_read n a 64)) = 0 \<or> p_num_namespaces (n_cfg n) < cmd_nsid (cmd_of_bytes (addr_read n a 64))"
  obtains q' x m where "q' = q\<lparr>sq_head := (sq_head q + 1) mod sq_size q, sq_req_list := rest\<rparr>"
    "process_one_io junk oc rt i p r rest n = Some m" "io_view m = io_view (upd_req (upd_sq n i q') (i, r) x)"
    "n_cfg m = n_cfg n"
proof -
  let ?q = "q\<lparr>sq_head := (sq_head q + 1) mod sq_size q, sq_req_list := rest\<rparr>"
  let ?cmd = "cmd_of_bytes (addr_read n a 64)"
  let ?req = "fetched_req req ?cmd (rt (n_clk n))"
  let ?m = "upd_req ((upd_req (upd_sq n i ?q) (i, r) ?req)\<lparr>n_clk := n_clk n + 1\<rparr>) (i, r) ?req"
  have inc: "nvme_inc_sq_head q = Some (q\<lparr>sq_head := (sq_head q + 1) mod sq_size q\<rparr>)"
    using assms(4) by (simp add: nvme_inc_sq_head_def)
  have at: "req_at (n_sq (upd_sq n i ?q)) (i, r) = Some req"
    using assms(5) req_at_upd_sq [OF assms(1), of ?q] by simp
  have "nvme_io_cmd junk oc m ?req = Some (dnr NVME_INVALID_NSID, ?req, m)" if "n_cfg m = n_cfg n" for m
    using assms(6) that by (auto simp: nvme_io_cmd_def Let_def fetched_req_def)
  then have "process_one_io junk oc rt i p r rest n = Some ?m"
    using assms(1,3) inc at
    by (simp add: process_one_io_def Let_def upd_req_def upd_sq_def)
  moreover have "set_req (set_req tab x y) x y = set_req tab x y" for tab x y
    by (auto simp: set_req_def lookup_update split: option.split dest: lookup_less)
  then have "io_view ?m = io_view (upd_req (upd_sq n i ?q) (i, r) ?req)" "n_cfg ?m = n_cfg n"
    by (simp_all add: io_view_def upd_req_def upd_sq_def)
  ultimately show ?thesis by (intro that [OF refl])
qed

text \<open>C31: A command for a namespace that does not exist is never answered: its request leaves the free list when
  the command is fetched, and is in no list, ring or queue afterwards, whatever happens later.\<close>

theorem refused_command_never_answered:
  assumes "io_ok n" "\<not> OCSSD n" "lookup (n_sq n) i = Some q" "sq_req_list q = r # rest" "sq_size q \<noteq> 0"
    "sq_entry_addr n q = Some a"
    "cmd_nsid (cmd_of_bytes (addr_read n a 64)) = 0 \<or> p_num_namespaces (n_cfg n) < cmd_nsid (cmd_of_bytes (addr_read n a 64))"
  shows "(i, r) \<in># io_reqs n \<and> (\<exists>n1. process_one_io junk oc rt i p r rest n = Some n1 \<and>
    (\<forall>n2. (io_step junk oc)\<^sup>*\<^sup>* n1 n2 \<longrightarrow> (i, r) \<notin># io_reqs n2))"
proof -
  have "i < length (n_sq n)" by (rule lookup_less [OF assms(3)])
  then have "(i, r) \<in># free_reqs n"
    using assms(3,4) by (auto simp: free_reqs_def mem_pool free_at_def)
  then have mem: "(i, r) \<in># io_reqs n" by (simp add: io_reqs_def)
  then obtain req where req: "req_at (n_sq n) (i, r) = Some req" using assms(1) unfolding io_ok_def by blast
  obtain q' x n1 where n1: "q' = q\<lparr>sq_head := (sq_head q + 1) mod sq_size q, sq_req_list := rest\<rparr>"
    "process_one_io junk oc rt i p r rest n = Some n1" "io_view n1 = io_view (upd_req (upd_sq n i q') (i, r) x)"
    "n_cfg n1 = n_cfg n"
    by (rule process_refused [OF assms(3,4,6,5) req assms(7)])
  have q': "sq_io_req q' = sq_io_req q" "sq_req_list q = r # sq_req_list q'" by (simp_all add: n1(1) assms(4))
  note T = take_free_ok [OF assms(1,3) q']
  have "(i, r) \<notin># queued_reqs (upd_sq n i q')" using T(3) mem_queued_io by blast
  then have "io_reqs n1 = io_reqs (upd_sq n i q')"
    using upd_req_ok(2) [of "upd_sq n i q'" "(i, r)" x] T(2) io_view_cong(2) [OF n1(3)] by (simp add: moves_def)
  then have out: "(i, r) \<notin># io_reqs n1" using T(3) by simp
  have "moves n n1" by (rule process_one_io_ok(1) [OF n1(2) assms(1-4)])
  then have ok: "io_ok n1" "\<not> OCSSD n1" using moves_OCSSD assms(2) by (auto simp: moves_def)
  have "(i, r) \<notin># io_reqs n2" if "(io_step junk oc)\<^sup>*\<^sup>* n1 n2" for n2
    using io_steps_move [OF that ok] out unfolding moves_def by (meson mset_subset_eqD)
  then show ?thesis using mem n1(2) by blast
qed

lemma poll_vints_other:
  assumes "poll_vints vs n = Some n'" "\<forall>v \<in> set vs. vi_en v \<noteq> Notifier_of c"
  shows "lookup (n_cq n') c = lookup (n_cq n) c"
  using assms
proof (induction vs arbitrary: n)
  case (Cons v vs)
  then show ?case
    by (fastforce simp: msix_notify_def send_irq_def upd_cq_def lookup_update split: notifier.splits option.splits if_splits)
qed simp


text \<open>The pages of a discontiguous queue are not what the guest listed: they are the uninitialised contents of
  the stack array, whatever the guest's memory holds.\<close>

theorem discontiguous_pages_from_stack:
  assumes "nvme_setup_discontig junk n prp_addr depth entry_size = Some (Some pages, n')"
  shows "set pages \<subseteq> junk ` {..<unat (n_page_size n) div 8}"
proof -
  have loop: "setup_discontig_loop n prp per k i a l = (Some pages, n') \<Longrightarrow> per = length prp \<Longrightarrow> per \<noteq> 0 \<Longrightarrow>
      set l \<subseteq> set prp \<Longrightarrow> set pages \<subseteq> set prp" for n prp per k i a l
  proof (induction n prp per k i a l rule: setup_discontig_loop.induct)
    case (1 n prp per k i a l)
    have "i mod per < length prp" using 1(3,4) by simp
    then have "prp ! (i mod per) \<in> set prp" by (rule nth_mem)
    then show ?case using 1 by (subst (asm) (2) setup_discontig_loop.simps) (auto simp: Let_def split: if_splits)
  qed
  let ?per = "unat (n_page_size n) div 8"
  have "?per \<noteq> 0" "setup_discontig_loop n (map junk [0..<?per]) ?per
      ((unat depth * unat entry_size + unat (n_page_size n) - 1) div unat (n_page_size n) mod 2 ^ 16) 0 prp_addr [] = (Some pages, n')"
    using assms by (auto simp: nvme_setup_discontig_def Let_def split: if_splits)
  from loop [OF this(2) _ this(1)] show ?thesis by (auto simp: atLeast0LessThan)
qed

subsection \<open>A device with one pair of queues\<close>

text \<open>Queue 1 has four entries at \<open>0x1000\<close>, where the host's memory is the low byte of each address, and a
  completion queue at \<open>0x2000\<close>.\<close>

definition ex_sq :: NvmeSQueue where
  "ex_sq = zero_sq\<lparr>sq_phys_contig := 1, sq_sqid := 1, sq_cqid := 1, sq_size := 4, sq_dma_addr := 0x1000,
     sq_io_req := replicate 4 (zero_req 1), sq_req_list := [0, 1, 2, 3]\<rparr>"

definition ex_cq :: NvmeCQueue where
  "ex_cq = zero_cq\<lparr>cq_phys_contig := 1, cq_cqid := 1, cq_size := 4, cq_phase := 1, cq_dma_addr := 0x2000,
     cq_irq_enabled := 1, cq_vector := 1\<rparr>"

definition ex_queues :: femu where
  "ex_queues = ex_ctrl\<lparr>n_sq := [None, Some ex_sq], n_cq := [None, Some ex_cq], n_sqe_size := 64, n_cqe_size := 16\<rparr>"

lemma ex_queues_simps:
  "n_sq ex_queues = [None, Some ex_sq]" "n_cq ex_queues = [None, Some ex_cq]" "n_sqe_size ex_queues = 64"
  "n_cqe_size ex_queues = 16" "n_host ex_queues = (\<lambda>a. ucast a)" "n_cfg ex_queues = ex_cfg" "n_dma ex_queues = ex_ctx"
  "n_irq ex_queues = ex_irq" "\<not> OCSSD ex_queues" "\<not> BBSSD ex_queues"
  by (simp_all add: ex_queues_def ex_ctrl_simps ex_ctrl_def calloc_femu_def OCSSD_def BBSSD_def ex_cfg_def default_props_def)

lemma ex_queues_fresh: "queues_fresh ex_queues"
  by (simp add: queues_fresh_def ex_queues_simps ex_sq_def)

lemma io_ok_fresh:
  assumes "queues_fresh n" "n_to_ftl n = []" "n_to_poller n = []" "n_pq n = []"
  shows "io_ok n"
proof -
  have "io_reqs n = free_reqs n"
    using assms(2-4) by (simp add: io_reqs_def rings_reqs_def queued_reqs_def pool_def)
  then show ?thesis using fresh_free [OF assms(1)] assms(2-4) unfolding io_ok_def by simp
qed

lemma ex_queues_ok: "io_ok ex_queues"
  by (rule io_ok_fresh [OF ex_queues_fresh]) (simp_all add: ex_queues_def ex_ctrl_def calloc_femu_def)


text \<open>The entry of this host's memory names namespace \<open>0x07060504\<close>.\<close>

lemma ex_fetched:
  "sq_entry_addr ex_queues ex_sq = Some 0x1000" "cmd_nsid (cmd_of_bytes (addr_read ex_queues 0x1000 64)) = 0x07060504"
proof -
  show "sq_entry_addr ex_queues ex_sq = Some 0x1000"
    by (simp add: sq_entry_addr_def queue_entry_addr_def ex_sq_def zero_sq_def)
  have "addr_read ex_queues 0x1000 64 = pci_dma_read (\<lambda>a. ucast a) 0x1000 64"
    by (simp add: addr_read_def nvme_addr_read_def in_cmb_def ex_queues_simps ex_ctx_def)
  moreover have "cmd_nsid (cmd_of_bytes (pci_dma_read (\<lambda>a. ucast a) 0x1000 64)) = 0x07060504"
    by code_simp
  ultimately show "cmd_nsid (cmd_of_bytes (addr_read ex_queues 0x1000 64)) = 0x07060504" by simp
qed

theorem refused_command_never_answered_witness:
  "(1, 0) \<in># io_reqs ex_queues \<and>
   (\<exists>n1. process_one_io (\<lambda>_. 0) (\<lambda>_ _ _. None) (\<lambda>_. 0) 1 1 0 [1, 2, 3] ex_queues = Some n1 \<and> (1, 0) \<notin># io_reqs n1)"
proof -
  have q: "lookup (n_sq ex_queues) 1 = Some ex_sq" "sq_req_list ex_sq = 0 # [1, 2, 3]" "sq_size ex_sq \<noteq> 0"
    by (simp_all add: ex_queues_simps lookup_def ex_sq_def)
  have "cmd_nsid (cmd_of_bytes (addr_read ex_queues 0x1000 64)) = 0 \<or>
      p_num_namespaces (n_cfg ex_queues) < cmd_nsid (cmd_of_bytes (addr_read ex_queues 0x1000 64))"
    by (simp add: ex_fetched ex_queues_simps ex_cfg_def default_props_def)
  from refused_command_never_answered [OF ex_queues_ok ex_queues_simps(9) q ex_fetched(1) this] show ?thesis by blast
qed

theorem completion_changes_one_tag_witness:
  "\<exists>n'. nvme_post_cqe 1 (1, 0) ex_queues = Some n' \<and> cqe_tag n' ex_cq 0 \<and> \<not> cqe_tag ex_queues ex_cq 0"
proof -
  have q: "lookup (n_cq ex_queues) 1 = Some ex_cq" "lookup (n_sq ex_queues) 1 = Some ex_sq"
    "req_at (n_sq ex_queues) (1, 0) = Some (zero_req 1)"
    by (simp_all add: ex_queues_simps lookup_def req_at_def ex_sq_def)
  have "cq_entry_addr n ex_cq = Some 0x2000" for n
    by (simp add: cq_entry_addr_def queue_entry_addr_def ex_cq_def zero_cq_def)
  with q obtain n' where n': "nvme_post_cqe 1 (1, 0) ex_queues = Some n'"
    by (simp add: nvme_post_cqe_def Let_def)
  have tags: "phase_tags ex_queues ex_cq"
  proof -
    have "j = 0 \<or> j = 1 \<or> j = 2 \<or> j = 3" if "j < 4" for j :: nat using that by linarith
    then show ?thesis
      by (fastforce simp: phase_tags_def cqe_tag_def ex_queues_simps ex_cq_def zero_cq_def bit_0)
  qed
  have "cq_ring_ok ex_cq" by (simp add: cq_ring_ok_def ex_cq_def zero_cq_def)
  from completion_changes_one_tag [OF n' q(1) this tags] obtain q' where
    "q' = nvme_inc_cq_tail ex_cq" "\<forall>j<4. cqe_tag n' q' j = (if j = 0 then \<not> cqe_tag ex_queues ex_cq j else cqe_tag ex_queues ex_cq j)"
    by (auto simp: ex_queues_simps ex_ctx_def ex_cq_def zero_cq_def)
  moreover have "\<not> cqe_tag ex_queues ex_cq 0"
    using tags by (simp add: phase_tags_def ex_cq_def zero_cq_def)
  moreover have "cqe_tag n' (nvme_inc_cq_tail ex_cq) 0 = cqe_tag n' ex_cq 0"
    by (simp add: cqe_tag_def nvme_inc_cq_tail_def Let_def)
  ultimately show ?thesis using n' by auto
qed

theorem discontiguous_pages_from_stack_witness:
  "nvme_setup_discontig (\<lambda>_. 0x5000) ex_queues 0x8000 1 64 = Some (Some [0x5000], ex_queues) \<and>
   set [0x5000 :: u64] \<subseteq> (\<lambda>_. 0x5000) ` {..<unat (n_page_size ex_queues) div 8}"
proof -
  have ps: "n_page_size ex_queues = 4096" by (simp add: n_page_size_def ex_queues_simps ex_ctx_def)
  have "setup_discontig_loop ex_queues (map (\<lambda>_. 0x5000) [0..<512]) 512 1 0 0x8000 [] = (Some [0x5000], ex_queues)"
    by (simp add: setup_discontig_loop.simps Let_def page_unaligned_def ps)
  then have "nvme_setup_discontig (\<lambda>_. 0x5000) ex_queues 0x8000 1 64 = Some (Some [0x5000], ex_queues)"
    by (simp add: nvme_setup_discontig_def Let_def ps)
  from discontiguous_pages_from_stack [OF this] this show ?thesis by blast
qed


text \<open>A request that expires at 100, seen at time 7.\<close>

definition ex_waiting :: femu where
  "ex_waiting = ex_queues\<lparr>n_sq := [None, Some (ex_sq\<lparr>sq_io_req := (zero_req 1)\<lparr>req_expire_time := 100, req_pos := 1\<rparr>
       # replicate 3 (zero_req 1), sq_req_list := [1, 2, 3]\<rparr>)],
     n_to_ftl := [the (femu_ring_create True null_req FEMU_RING_TYPE_MP_SC 4)],
     n_pq := [\<lparr>q_size = 2, q_avail = 2, q_step = 1, q_ops = req_ops, q_d = [null_req, (1, 0)]\<rparr>]\<rparr>"

lemma ex_waiting_ok: "io_ok ex_waiting" "ring_contents (n_to_ftl ex_waiting ! 0) = []" "ring_ok (n_to_ftl ex_waiting ! 0)"
proof -
  obtain ring :: "req_id rte_ring" where ring: "femu_ring_create True null_req FEMU_RING_TYPE_MP_SC 4 = Some ring" "ring_ok ring" "ring_contents ring = []"
    using ring_created [of 2 null_req FEMU_RING_TYPE_MP_SC] by auto
  then show "ring_contents (n_to_ftl ex_waiting ! 0) = []" "ring_ok (n_to_ftl ex_waiting ! 0)" by (simp_all add: ex_waiting_def)
  have "queues_fresh ex_waiting" by (simp add: queues_fresh_def ex_waiting_def ex_sq_def)
  note F = fresh_free [OF this]
  have free: "free_reqs ex_waiting = {#(1, 1), (1, 2), (1, 3)#}"
    by (simp add: free_reqs_def pool_def free_at_def lookup_def ex_waiting_def lessThan_Suc)
  have "queued_reqs ex_waiting = {#(1, 0)#}" by (simp add: queued_reqs_def pool_def ex_waiting_def pq_elems_def arr_slice_def)
  moreover have "rings_reqs (n_to_ftl ex_waiting) = {#}" "n_to_poller ex_waiting = []"
    using ring by (simp_all add: rings_reqs_def pool_def ex_waiting_def ex_queues_def ex_ctrl_def calloc_femu_def)
  ultimately have e: "io_reqs ex_waiting = {#(1, 0), (1, 1), (1, 2), (1, 3)#}"
    using free by (simp add: io_reqs_def rings_reqs_def pool_def)
  have at: "req_at (n_sq ex_waiting) (1, k) \<noteq> None" if "k < 4" for k
    using that by (simp add: req_at_def lookup_def ex_waiting_def)
  then have "\<forall>r. r \<in># io_reqs ex_waiting \<longrightarrow> req_at (n_sq ex_waiting) r \<noteq> None"
    unfolding e using at [of 0] at [of 1] at [of 2] at [of 3] by auto
  moreover have "single (io_reqs ex_waiting)" unfolding e single_def by simp
  moreover have "\<forall>q \<in> set (n_pq ex_waiting). cpl_wf (n_sq ex_waiting) q"
    using at [of 0]
    by (simp add: ex_waiting_def pq_wf_def pq_shape_def pq_pos_def pq_heap_def pq_elems_def arr_slice_def get_pos_def)
      (auto simp: req_at_def lookup_def)
  ultimately show "io_ok ex_waiting"
    using ring unfolding io_ok_def by (simp add: ex_waiting_def ex_queues_def ex_ctrl_def calloc_femu_def)
qed

theorem no_due_request_waits_witness:
  "\<exists>n'. nvme_process_cq_cpl True (\<lambda>_. 7) 0 ex_waiting = Some n' \<and> (1, 0) \<in> set (pq_elems (n_pq n' ! 0)) \<and>
     7 < get_pri (n_sq n') (1, 0)"
proof -
  have cnt: "femu_ring_count (n_to_ftl ex_waiting ! 0) = 0"
    using ring_count_used [OF ex_waiting_ok(3)] length_ring_contents [of "n_to_ftl ex_waiting ! 0"] ex_waiting_ok(2)
    by (simp add: femu_ring_count_def)
  have st: "\<not> BBSSD ex_waiting" "n_to_ftl ex_waiting \<noteq> []" "n_pq ex_waiting \<noteq> []"
    "pqueue_peek (n_pq ex_waiting ! 0) = Some (1, 0)" "pqueue_size (n_pq ex_waiting ! 0) = 1"
    "req_at (n_sq ex_waiting) (1, 0) = Some ((zero_req 1)\<lparr>req_expire_time := 100, req_pos := 1\<rparr>)"
    "pq_elems (n_pq ex_waiting ! 0) = [(1, 0)]"
    by (simp_all add: ex_waiting_def BBSSD_def ex_queues_simps ex_cfg_def default_props_def pqueue_peek_def pqueue_size_def
        req_at_def lookup_def pq_elems_def arr_slice_def)
  have same: "ex_waiting\<lparr>n_to_ftl := (n_to_ftl ex_waiting)[0 := n_to_ftl ex_waiting ! 0]\<rparr> = ex_waiting" by simp
  have "nvme_process_cq_cpl True (\<lambda>_. 7) 0 ex_waiting = Some (ex_waiting\<lparr>n_clk := n_clk ex_waiting + 1\<rparr>)"
    using st cnt same by (simp add: nvme_process_cq_cpl_def ring_at_def Let_def)
  moreover have "mono (\<lambda>_ :: nat. 7 :: u64)" by (simp add: mono_def)
  moreover have "(1, 0) \<in> set (pq_elems (n_pq (ex_waiting\<lparr>n_clk := n_clk ex_waiting + 1\<rparr>) ! 0))" by (simp add: st(7))
  ultimately show ?thesis using no_due_request_waits [OF _ ex_waiting_ok(1)] by blast
qed

end
