(* ===== verification/Nvme_Admin.thy ===== *)
theory Nvme_Admin
  imports Femu_Init "HOL-Library.Signed_Division"
begin

text \<open>
  Admin commands: \<open>femu/nvme-admin.c\<close> and the admin commands of the black-box mode
  (\<open>femu/bbssd/bb.c\<close>).  \<open>None\<close> is a failed assertion, an abort, an access outside an object or a loop
  that does not end.
\<close>

subsection \<open>What the commands use from outside\<close>

text \<open>Uninitialised memory (the stack array of \<open>nvme_setup_discontig\<close>, the firmware log), the clocks, whether
  allocation succeeds, and the admin commands and logs of the open-channel modes.\<close>

record admin_env =
  env_stack :: "nat \<Rightarrow> u64"
  env_fw_log :: "nat \<Rightarrow> u8"
  env_clock :: "nat \<Rightarrow> u64"
  env_seconds :: u64 \<comment> \<open>since \<open>start_time\<close>\<close>
  env_alloc :: bool
  env_admin :: "femu \<Rightarrow> NvmeCmd \<Rightarrow> (u16 \<times> femu) option"
  env_get_log :: "femu \<Rightarrow> NvmeCmd \<Rightarrow> (u16 \<times> femu) option"

type_synonym admin_result = "(u16 \<times> femu) option"

definition answer :: "NvmeStatusCodes \<Rightarrow> femu \<Rightarrow> admin_result" where
  "answer code n = Some (dnr code, n)"

definition success :: "femu \<Rightarrow> admin_result" where
  "success n = Some (sc NVME_SUCCESS, n)"

text \<open>Data to the host through the command's PRPs, padded with zeros to a page of identify data.\<close>

definition send_data :: "femu \<Rightarrow> NvmeCmd \<Rightarrow> u8 list \<Rightarrow> admin_result" where
  "send_data n cmd bytes =
     map_option (\<lambda>(status, h). (status, n\<lparr>n_host := h\<rparr>))
       (dma_read_prp (n_dma n) (n_host n) bytes (cmd_prp1 cmd) (cmd_prp2 cmd))"

definition NVME_IDENTIFY_DATA_SIZE :: nat where "NVME_IDENTIFY_DATA_SIZE = 4096"

definition identify_page :: "u8 list \<Rightarrow> u8 list" where
  "identify_page bs = bs @ replicate (NVME_IDENTIFY_DATA_SIZE - length bs) 0"

abbreviation le2 :: "u16 \<Rightarrow> u8 list" where "le2 w \<equiv> le_bytes 2 (ucast w)"
abbreviation le4 :: "u32 \<Rightarrow> u8 list" where "le4 w \<equiv> le_bytes 4 (ucast w)"
abbreviation zeros :: "nat \<Rightarrow> u8 list" where "zeros k \<equiv> replicate k 0"

subsection \<open>Queues\<close>

text \<open>The requests of the deleted queue that wait in the completion queue go back to its list; then they are freed
  with it.\<close>

definition nvme_del_sq :: "admin_env \<Rightarrow> femu \<Rightarrow> NvmeCmd \<Rightarrow> admin_result" where
  "nvme_del_sq env n cmd =
     (let qid = delq_qid (delq_of_cmd cmd); i = unat qid
      in if qid = 0 \<or> \<not> nvme_check_sqid n qid then answer NVME_INVALID_QID n
         else
           let sq = the (lookup (n_sq n) i)
           in if \<not> sq_is_active sq then None
              else
                let n = upd_sq n i (sq\<lparr>sq_is_active := False\<rparr>); c = unat (sq_cqid sq)
                in do {
                  n \<leftarrow>
                    (if nvme_check_cqid n (sq_cqid sq) then do {
                       cq \<leftarrow> lookup (n_cq n) c;
                       n \<leftarrow> nvme_post_cqes_io (env_clock env) c (upd_cq n c (cq\<lparr>cq_sq_list := remove1 i (cq_sq_list cq)\<rparr>));
                       cq \<leftarrow> lookup (n_cq n) c;
                       sq \<leftarrow> lookup (n_sq n) i;
                       Some (upd_sq (upd_cq n c (cq\<lparr>cq_req_list := filter (\<lambda>r. fst r \<noteq> i) (cq_req_list cq)\<rparr>)) i
                         (sq\<lparr>sq_req_list := sq_req_list sq @ map snd (filter (\<lambda>r. fst r = i) (cq_req_list cq))\<rparr>))
                     }
                     else Some n);
                  n \<leftarrow> nvme_free_sq i n;
                  success n
                })"

text \<open>\<open>nvme_check_sqid\<close> also fails for numbers past the last queue, which are therefore not refused.\<close>

definition nvme_create_sq :: "admin_env \<Rightarrow> femu \<Rightarrow> NvmeCmd \<Rightarrow> admin_result" where
  "nvme_create_sq env n cmd =
     (let c = csq_of_cmd cmd; cqid = csq_cqid c; sqid = csq_sqid c; qsize = csq_qsize c; qflags = csq_sq_flags c;
          prp1 = csq_prp1 c; contig = (NVME_SQ_FLAGS_PC qflags \<noteq> 0)
      in if cqid = 0 \<or> \<not> nvme_check_cqid n cqid then answer NVME_INVALID_CQID n
         else if sqid = 0 \<or> nvme_check_sqid n sqid then answer NVME_INVALID_QID n
         else if qsize = 0 \<or> NVME_CAP_MQES (bar_cap (n_bar n)) < ucast qsize then answer NVME_MAX_QSIZE_EXCEEDED n
         else if prp1 = 0 \<or> page_unaligned n prp1 then answer NVME_INVALID_FIELD n
         else if \<not> contig \<and> NVME_CAP_CQR (bar_cap (n_bar n)) \<noteq> 0 then answer NVME_INVALID_FIELD n
         else do {
           (status, n) \<leftarrow> nvme_init_sq (env_stack env) zero_sq n prp1 sqid cqid (qsize + 1)
                            (queue_prio (NVME_SQ_FLAGS_QPRIO qflags)) contig;
           if status \<noteq> 0 then answer NVME_INVALID_FIELD n
           else do {
             sq \<leftarrow> lookup (n_sq n) (unat sqid);
             if sq_is_active sq then None else success (upd_sq n (unat sqid) (sq\<lparr>sq_is_active := True\<rparr>))
           }
         })"

text \<open>The result of \<open>nvme_setup_virq\<close> is ignored.\<close>

definition nvme_create_cq :: "admin_env \<Rightarrow> femu \<Rightarrow> NvmeCmd \<Rightarrow> admin_result" where
  "nvme_create_cq env n cmd =
     (let c = ccq_of_cmd cmd; cqid = ccq_cqid c; i = unat cqid; vector = ccq_irq_vector c; qsize = ccq_qsize c;
          qflags = ccq_cq_flags c; prp1 = ccq_prp1 c; contig = (NVME_CQ_FLAGS_PC qflags \<noteq> 0)
      in if cqid = 0 \<or> nvme_check_cqid n cqid then answer NVME_INVALID_CQID n
         else if qsize = 0 \<or> NVME_CAP_MQES (bar_cap (n_bar n)) < ucast qsize then answer NVME_MAX_QSIZE_EXCEEDED n
         else if prp1 = 0 then answer NVME_INVALID_FIELD n
         else if p_num_io_queues (n_cfg n) < ucast vector then answer NVME_INVALID_IRQ_VECTOR n
         else if \<not> contig \<and> NVME_CAP_CQR (bar_cap (n_bar n)) \<noteq> 0 then answer NVME_INVALID_FIELD n
         else if length (n_cq n) \<le> i then None
         else do {
           n \<leftarrow> (if lookup (n_cq n) i \<noteq> None then nvme_free_cq i n else Some n);
           (status, n) \<leftarrow> nvme_init_cq (env_stack env) zero_cq n prp1 cqid vector (qsize + 1) (NVME_CQ_FLAGS_IEN qflags) contig;
           if status \<noteq> 0 then answer NVME_INVALID_FIELD n
           else do {
             (_, n) \<leftarrow> nvme_setup_virq n i;
             cq \<leftarrow> lookup (n_cq n) i;
             if cq_is_active cq then None else success (upd_cq n i (cq\<lparr>cq_is_active := True\<rparr>))
           }
         })"

text \<open>A queue that is still in use is refused, but already inactive.\<close>

definition nvme_del_cq :: "femu \<Rightarrow> NvmeCmd \<Rightarrow> admin_result" where
  "nvme_del_cq n cmd =
     (let qid = delq_qid (delq_of_cmd cmd); i = unat qid
      in if qid = 0 \<or> \<not> nvme_check_cqid n qid then answer NVME_INVALID_CQID n
         else
           let cq = the (lookup (n_cq n) i)
           in if \<not> cq_is_active cq then None
              else
                let n = upd_cq n i (cq\<lparr>cq_is_active := False\<rparr>)
                in if cq_sq_list cq \<noteq> [] then Some (sc NVME_INVALID_QUEUE_DEL, n)
                   else nvme_free_cq i n \<bind> success)"

definition set_db_queue :: "u64 \<Rightarrow> u64 \<Rightarrow> femu \<Rightarrow> nat \<Rightarrow> femu" where
  "set_db_queue dbs eis n i =
     (let n = (case lookup (n_sq n) i of
                 None \<Rightarrow> n
               | Some sq \<Rightarrow> upd_sq n i (sq\<lparr>sq_db_addr := dbs + dbbuf_offset n (2 * i),
                                        sq_eventidx_addr := eis + dbbuf_offset n (2 * i)\<rparr>))
      in case lookup (n_cq n) i of
           None \<Rightarrow> n
         | Some cq \<Rightarrow> upd_cq n i (cq\<lparr>cq_db_addr := dbs + dbbuf_offset n (2 * i + 1),
                                  cq_eventidx_addr := eis + dbbuf_offset n (2 * i + 1)\<rparr>))"

definition nvme_set_db_memory :: "admin_env \<Rightarrow> femu \<Rightarrow> NvmeCmd \<Rightarrow> admin_result" where
  "nvme_set_db_memory env n cmd =
     (let dbs = cmd_prp1 cmd; eis = cmd_prp2 cmd
      in if dbs = 0 \<or> page_unaligned n dbs \<or> eis = 0 \<or> page_unaligned n eis then answer NVME_INVALID_FIELD n
         else
           let n = foldl (set_db_queue dbs eis) (n\<lparr>n_dbs_addr := dbs, n_eis_addr := eis\<rparr>)
                     [1..<unat (p_num_io_queues (n_cfg n)) + 1]
           in if n_dataplane_started n then None
              else do {
                n \<leftarrow> (if n_poller_on n then Some n
                      else map_option (\<lambda>n. n\<lparr>n_poller_on := True\<rparr>) (nvme_create_poller (env_alloc env) n));
                success (n\<lparr>n_dataplane_started := True\<rparr>)
              })"

subsection \<open>Identify\<close>

definition nvme_nsid_valid :: "femu \<Rightarrow> u32 \<Rightarrow> bool" where
  "nvme_nsid_valid n nsid \<longleftrightarrow> nsid \<noteq> 0 \<and> (nsid = NVME_NSID_BROADCAST \<or> nsid \<le> p_num_namespaces (n_cfg n))"

text \<open>The index of a namespace.\<close>

definition nvme_ns :: "femu \<Rightarrow> u32 \<Rightarrow> nat option" where
  "nvme_ns n nsid = (if nsid = 0 \<or> p_num_namespaces (n_cfg n) < nsid then None else Some (unat nsid - 1))"

definition nvme_rpt_empty_id_struct :: "femu \<Rightarrow> NvmeCmd \<Rightarrow> admin_result" where
  "nvme_rpt_empty_id_struct n cmd = send_data n cmd (identify_page [])"

definition nvme_csi_has_nvm_support :: "femu \<Rightarrow> bool" where
  "nvme_csi_has_nvm_support n \<longleftrightarrow> n_csi n = csi_code NVME_CSI_NVM \<or> n_csi n = csi_code NVME_CSI_ZONED"

definition id_ns_bytes :: "NvmeIdNs \<Rightarrow> u8 list" where
  "id_ns_bytes d =
     le_bytes 8 (idns_nsze d) @ le_bytes 8 (idns_ncap d) @ le_bytes 8 (idns_nuse d) @
     [idns_nsfeat d, idns_nlbaf d, idns_flbas d, idns_mc d, idns_dpc d, idns_dps d, idns_nmic d, idns_rescap d,
      idns_fpi d, idns_dlfeat d] @
     concat (map le2 [idns_nawun d, idns_nawupf d, idns_nacwu d, idns_nabsn d, idns_nabo d, idns_nabspf d, idns_noiob d]) @
     idns_nvmcap d @
     concat (map le2 [idns_npwg d, idns_npwa d, idns_npdg d, idns_npda d, idns_nows d]) @ zeros 30 @
     idns_nguid d @ le_bytes 8 (idns_eui64 d) @
     concat (map (\<lambda>f. le2 (lbaf_ms f) @ [lbaf_lbads f, lbaf_rp f]) (idns_lbaf d)) @ zeros 192 @ [idns_vs d]"

definition id_ctrl_bytes :: "NvmeIdCtrl \<Rightarrow> u8 list" where
  "id_ctrl_bytes d =
     le2 (ic_vid d) @ le2 (ic_ssvid d) @ ic_sn d @ ic_mn d @ ic_fr d @ [ic_rab d] @ ic_ieee d @
     [ic_cmic d, ic_mdts d] @ le2 0 @ le4 (ic_ver d) @ zeros 172 @
     le2 (ic_oacs d) @ [ic_acl d, ic_aerl d, ic_frmw d, ic_lpa d, ic_elpe d, ic_npss d] @ zeros 248 @
     [ic_sqes d, ic_cqes d] @ le2 0 @ le4 (ic_nn d) @ le2 (ic_oncs d) @ le2 (ic_fuses d) @ [ic_fna d, ic_vwc d] @
     le2 (ic_awun d) @ le2 (ic_awupf d) @ zeros 238 @ ic_subnqn d @ zeros 1024 @
     le2 (ic_psd0_mp d) @ le2 0 @ le4 (ic_psd0_enlat d) @ le4 (ic_psd0_exlat d)"

definition id_ns_zoned_bytes :: "NvmeIdNsZoned \<Rightarrow> u8 list" where
  "id_ns_zoned_bytes d =
     le2 (idz_zoc d) @ le2 (idz_ozcs d) @ le4 (idz_mar d) @ le4 (idz_mor d) @ le4 (idz_rrl d) @ le4 (idz_frl d) @
     zeros 2796 @ concat (map (\<lambda>(zsze, zdes). le_bytes 8 zsze @ [zdes] @ zeros 7) (idz_lbafe d))"

definition nvme_identify_ns :: "femu \<Rightarrow> NvmeCmd \<Rightarrow> admin_result" where
  "nvme_identify_ns n cmd =
     (let c = idn_of_cmd cmd; nsid = idn_nsid c
      in if \<not> nvme_nsid_valid n nsid \<or> nsid = NVME_NSID_BROADCAST then answer NVME_INVALID_NSID n
         else
           (case nvme_ns n nsid of
              None \<Rightarrow> nvme_rpt_empty_id_struct n cmd
            | Some i \<Rightarrow>
                if idn_csi c = csi_code NVME_CSI_NVM \<and> nvme_csi_has_nvm_support n
                then (if length (n_namespaces n) \<le> i then None
                      else send_data n cmd (identify_page (id_ns_bytes (ns_id_ns (n_namespaces n ! i)))))
                else answer NVME_INVALID_CMD_SET n))"

text \<open>The zoned structure is sent with the length of a memory page.\<close>

definition nvme_identify_ns_csi :: "femu \<Rightarrow> NvmeCmd \<Rightarrow> admin_result" where
  "nvme_identify_ns_csi n cmd =
     (let c = idn_of_cmd cmd; nsid = idn_nsid c; pgsz = unat (n_page_size n)
      in if \<not> nvme_nsid_valid n nsid \<or> nsid = NVME_NSID_BROADCAST then answer NVME_INVALID_NSID n
         else
           (case nvme_ns n nsid of
              None \<Rightarrow> nvme_rpt_empty_id_struct n cmd
            | Some i \<Rightarrow>
                if idn_csi c = csi_code NVME_CSI_NVM \<and> nvme_csi_has_nvm_support n then nvme_rpt_empty_id_struct n cmd
                else if idn_csi c = csi_code NVME_CSI_ZONED \<and> n_csi n = csi_code NVME_CSI_ZONED
                then (case id_ns_zoned (n_zns n) of
                        None \<Rightarrow> None
                      | Some d \<Rightarrow> if NVME_IDENTIFY_DATA_SIZE < pgsz then None
                                 else send_data n cmd (take pgsz (identify_page (id_ns_zoned_bytes d))))
                else answer NVME_INVALID_FIELD n))"

definition nvme_identify_ctrl :: "femu \<Rightarrow> NvmeCmd \<Rightarrow> admin_result" where
  "nvme_identify_ctrl n cmd = send_data n cmd (identify_page (id_ctrl_bytes (n_id_ctrl n)))"

definition nvme_identify_ctrl_csi :: "femu \<Rightarrow> NvmeCmd \<Rightarrow> admin_result" where
  "nvme_identify_ctrl_csi n cmd =
     (let csi = idn_csi (idn_of_cmd cmd)
      in if csi = csi_code NVME_CSI_NVM then nvme_rpt_empty_id_struct n cmd
         else if csi = csi_code NVME_CSI_ZONED
         then send_data n cmd (identify_page [if zasl_bs (n_zns n) \<noteq> 0 then zasl (n_zns n) else 0])
         else answer NVME_INVALID_FIELD n)"

text \<open>The identifiers listed: those above the one in the command, at most a page of them.\<close>

definition ns_ids_above :: "femu \<Rightarrow> u32 \<Rightarrow> u32 list" where
  "ns_ids_above n min_nsid =
     take (NVME_IDENTIFY_DATA_SIZE div 4)
       (filter (\<lambda>k. min_nsid < k) (map ns_id (take (unat (p_num_namespaces (n_cfg n))) (n_namespaces n))))"

definition nvme_identify_nslist :: "femu \<Rightarrow> NvmeCmd \<Rightarrow> admin_result" where
  "nvme_identify_nslist n cmd =
     (let min_nsid = idn_nsid (idn_of_cmd cmd)
      in if NVME_NSID_BROADCAST - 1 \<le> min_nsid then answer NVME_INVALID_NSID n
         else if length (n_namespaces n) < unat (p_num_namespaces (n_cfg n)) then None
         else send_data n cmd (identify_page (concat (map le4 (ns_ids_above n min_nsid)))))"

definition nvme_identify_nslist_csi :: "femu \<Rightarrow> NvmeCmd \<Rightarrow> admin_result" where
  "nvme_identify_nslist_csi n cmd =
     (let c = idn_of_cmd cmd; min_nsid = idn_nsid c
      in if NVME_NSID_BROADCAST - 1 \<le> min_nsid then answer NVME_INVALID_NSID n
         else if idn_csi c \<noteq> csi_code NVME_CSI_NVM \<and> idn_csi c \<noteq> csi_code NVME_CSI_ZONED then answer NVME_INVALID_FIELD n
         else if length (n_namespaces n) < unat (p_num_namespaces (n_cfg n)) then None
         else send_data n cmd (identify_page (concat (map le4 (if idn_csi c = n_csi n then ns_ids_above n min_nsid else [])))))"

definition NVME_NIDT_UUID :: u8 where "NVME_NIDT_UUID = 3"
definition NVME_NIDL_UUID :: u8 where "NVME_NIDL_UUID = 16"
definition NVME_NIDT_CSI :: u8 where "NVME_NIDT_CSI = 4"
definition NVME_NIDL_CSI :: u8 where "NVME_NIDL_CSI = 1"

text \<open>No code sets the UUID of the controller: it is zero.\<close>

definition nvme_identify_ns_descr_list :: "femu \<Rightarrow> NvmeCmd \<Rightarrow> admin_result" where
  "nvme_identify_ns_descr_list n cmd =
     (let nsid = idn_nsid (idn_of_cmd cmd)
      in if \<not> nvme_nsid_valid n nsid \<or> nsid = NVME_NSID_BROADCAST then answer NVME_INVALID_NSID n
         else if nvme_ns n nsid = None then answer NVME_INVALID_FIELD n
         else send_data n cmd (identify_page
           ([NVME_NIDT_UUID, NVME_NIDL_UUID, 0, 0] @ zeros 16 @ [NVME_NIDT_CSI, NVME_NIDL_CSI, 0, 0, n_csi n])))"

definition NVME_SET_CSI :: "u8 \<Rightarrow> u8 \<Rightarrow> u8" where
  "NVME_SET_CSI vec csi = vec OR push_bit (unat csi) 1"

definition nvme_identify_cmd_set :: "femu \<Rightarrow> NvmeCmd \<Rightarrow> admin_result" where
  "nvme_identify_cmd_set n cmd =
     send_data n cmd (identify_page [NVME_SET_CSI (NVME_SET_CSI 0 (csi_code NVME_CSI_NVM)) (csi_code NVME_CSI_ZONED)])"

definition nvme_identify :: "femu \<Rightarrow> NvmeCmd \<Rightarrow> admin_result" where
  "nvme_identify n cmd =
     (let cns = idn_cns (idn_of_cmd cmd); sel = (\<lambda>c. cns = cns_code c)
      in if sel NVME_ID_CNS_NS \<or> sel NVME_ID_CNS_NS_PRESENT then nvme_identify_ns n cmd
         else if sel NVME_ID_CNS_CS_NS \<or> sel NVME_ID_CNS_CS_NS_PRESENT then nvme_identify_ns_csi n cmd
         else if sel NVME_ID_CNS_CTRL then nvme_identify_ctrl n cmd
         else if sel NVME_ID_CNS_CS_CTRL then nvme_identify_ctrl_csi n cmd
         else if sel NVME_ID_CNS_NS_ACTIVE_LIST \<or> sel NVME_ID_CNS_NS_PRESENT_LIST then nvme_identify_nslist n cmd
         else if sel NVME_ID_CNS_CS_NS_ACTIVE_LIST \<or> sel NVME_ID_CNS_CS_NS_PRESENT_LIST then nvme_identify_nslist_csi n cmd
         else if sel NVME_ID_CNS_NS_DESCR_LIST then nvme_identify_ns_descr_list n cmd
         else if sel NVME_ID_CNS_IO_COMMAND_SET then nvme_identify_cmd_set n cmd
         else answer NVME_INVALID_FIELD n)"

subsection \<open>Features\<close>

text \<open>The result of a command that writes the completion's result field.\<close>

type_synonym feature_result = "(u16 \<times> NvmeCqe \<times> femu) option"

definition with_cqe :: "NvmeCqe \<Rightarrow> admin_result \<Rightarrow> feature_result" where
  "with_cqe cqe r = map_option (\<lambda>(status, n). (status, cqe, n)) r"

definition LBA_RANGE_SIZE :: nat where "LBA_RANGE_SIZE = 64"

text \<open>The bytes of a range type command: at most one entry of 64.\<close>

definition range_len :: "u32 \<Rightarrow> nat" where
  "range_len dw11 = min LBA_RANGE_SIZE (unat (dw11 AND 0x3f) * LBA_RANGE_SIZE)"

definition io_queue_count :: "femu \<Rightarrow> u32" where
  "io_queue_count n = (p_num_io_queues (n_cfg n) - 1) OR push_bit 16 (p_num_io_queues (n_cfg n) - 1)"

definition nvme_get_feature :: "femu \<Rightarrow> NvmeCmd \<Rightarrow> NvmeCqe \<Rightarrow> feature_result" where
  "nvme_get_feature n cmd cqe =
     (let dw10 = cmd_cdw10 cmd; dw11 = cmd_cdw11 cmd; nsid = cmd_nsid cmd; f = n_features n;
          sel = (\<lambda>k. dw10 = feature_id k);
          give = (\<lambda>v. Some (sc NVME_SUCCESS, set_cqe_result v cqe, n))
      in if sel NVME_ARBITRATION then give (feat_arbitration f)
         else if sel NVME_POWER_MANAGEMENT then give (feat_power_mgmt f)
         else if sel NVME_LBA_RANGE_TYPE then
           (if nsid = 0 \<or> p_num_namespaces (n_cfg n) < nsid then with_cqe cqe (answer NVME_INVALID_NSID n)
            else if length (n_namespaces n) < unat nsid then None
            else with_cqe cqe (send_data n cmd (take (range_len dw11) (ns_lba_range (n_namespaces n ! (unat nsid - 1))))))
         else if sel NVME_NUMBER_OF_QUEUES then give (io_queue_count n)
         else if sel NVME_TEMPERATURE_THRESHOLD then give (feat_temp_thresh f)
         else if sel NVME_ERROR_RECOVERY then give (feat_err_rec f)
         else if sel NVME_VOLATILE_WRITE_CACHE then give (feat_volatile_wc f)
         else if sel NVME_INTERRUPT_COALESCING then give (feat_int_coalescing f)
         else if sel NVME_INTERRUPT_VECTOR_CONF then
           (if p_num_io_queues (n_cfg n) < dw11 AND 0xffff then with_cqe cqe (answer NVME_INVALID_FIELD n)
            else if length (feat_int_vector_config f) \<le> unat (dw11 AND 0xffff) then None
            else give (feat_int_vector_config f ! unat (dw11 AND 0xffff)))
         else if sel NVME_WRITE_ATOMICITY then give (feat_write_atomicity f)
         else if sel NVME_ASYNCHRONOUS_EVENT_CONF then give (feat_async_config f)
         else if sel NVME_SOFTWARE_PROGRESS_MARKER then give (feat_sw_prog_marker f)
         else with_cqe cqe (answer NVME_INVALID_FIELD n))"

definition upd_features :: "(NvmeFeatureVal \<Rightarrow> NvmeFeatureVal) \<Rightarrow> femu \<Rightarrow> femu" where
  "upd_features g n = n\<lparr>n_features := g (n_features n)\<rparr>"

definition set_temp_thresh :: "u32 \<Rightarrow> femu \<Rightarrow> femu" where
  "set_temp_thresh v n =
     (let n = upd_features (\<lambda>f. f\<lparr>feat_temp_thresh := v\<rparr>) n
      in if v \<le> ucast (n_temperature n) \<and> n_temp_warn_issued n = 0 then n\<lparr>n_temp_warn_issued := 1\<rparr>
         else if ucast (n_temperature n) < v \<and> n_aer_mask n AND push_bit (unat (aer_code NVME_AER_TYPE_SMART)) 1 = 0
         then n\<lparr>n_temp_warn_issued := 0\<rparr> else n)"

definition nvme_set_feature :: "femu \<Rightarrow> NvmeCmd \<Rightarrow> NvmeCqe \<Rightarrow> feature_result" where
  "nvme_set_feature n cmd cqe =
     (let dw10 = cmd_cdw10 cmd; dw11 = cmd_cdw11 cmd; nsid = cmd_nsid cmd;
          sel = (\<lambda>k. dw10 = feature_id k);
          store = (\<lambda>g. Some (sc NVME_SUCCESS, cqe, upd_features g n))
      in if sel NVME_ARBITRATION then
           Some (sc NVME_SUCCESS, set_cqe_result (feat_arbitration (n_features n)) cqe,
                 upd_features (\<lambda>f. f\<lparr>feat_arbitration := dw11\<rparr>) n)
         else if sel NVME_POWER_MANAGEMENT then store (\<lambda>f. f\<lparr>feat_power_mgmt := dw11\<rparr>)
         else if sel NVME_LBA_RANGE_TYPE then
           (if nsid = 0 \<or> p_num_namespaces (n_cfg n) < nsid then with_cqe cqe (answer NVME_INVALID_NSID n)
            else if length (n_namespaces n) < unat nsid then None
            else
              let i = unat nsid - 1; rt = ns_lba_range (n_namespaces n ! i); k = range_len dw11
              in map_option
                   (\<lambda>(status, bs). (status, cqe, upd_ns n i (\<lambda>ns. ns\<lparr>ns_lba_range := overwrite rt 0 bs\<rparr>)))
                   (dma_write_prp (n_dma n) (n_host n) (take k rt) (cmd_prp1 cmd) (cmd_prp2 cmd)))
         else if sel NVME_NUMBER_OF_QUEUES then Some (sc NVME_SUCCESS, set_cqe_result (io_queue_count n) cqe, n)
         else if sel NVME_TEMPERATURE_THRESHOLD then Some (sc NVME_SUCCESS, cqe, set_temp_thresh dw11 n)
         else if sel NVME_ERROR_RECOVERY then store (\<lambda>f. f\<lparr>feat_err_rec := dw11\<rparr>)
         else if sel NVME_VOLATILE_WRITE_CACHE then store (\<lambda>f. f\<lparr>feat_volatile_wc := dw11\<rparr>)
         else if sel NVME_INTERRUPT_COALESCING then store (\<lambda>f. f\<lparr>feat_int_coalescing := dw11\<rparr>)
         else if sel NVME_INTERRUPT_VECTOR_CONF then
           (if p_num_io_queues (n_cfg n) < dw11 AND 0xffff then with_cqe cqe (answer NVME_INVALID_FIELD n)
            else if length (feat_int_vector_config (n_features n)) \<le> unat (dw11 AND 0xffff) then None
            else store (\<lambda>f. f\<lparr>feat_int_vector_config :=
                   (feat_int_vector_config f)[unat (dw11 AND 0xffff) := dw11 AND 0x1ffff]\<rparr>))
         else if sel NVME_WRITE_ATOMICITY then store (\<lambda>f. f\<lparr>feat_write_atomicity := dw11\<rparr>)
         else if sel NVME_ASYNCHRONOUS_EVENT_CONF then store (\<lambda>f. f\<lparr>feat_async_config := dw11\<rparr>)
         else if sel NVME_SOFTWARE_PROGRESS_MARKER then store (\<lambda>f. f\<lparr>feat_sw_prog_marker := dw11\<rparr>)
         else with_cqe cqe (answer NVME_INVALID_FIELD n))"

subsection \<open>Log pages\<close>

text \<open>The firmware log is sent from an uninitialised structure.\<close>

definition nvme_fw_log_info :: "admin_env \<Rightarrow> femu \<Rightarrow> NvmeCmd \<Rightarrow> u32 \<Rightarrow> admin_result" where
  "nvme_fw_log_info env n cmd buf_len = send_data n cmd (map (env_fw_log env) [0..<min 512 (unat buf_len)])"

definition error_log_bytes :: "NvmeErrorLog \<Rightarrow> u8 list" where
  "error_log_bytes e =
     le_bytes 8 (el_error_count e) @ le2 (el_sqid e) @ le2 (el_cid e) @ le2 (el_status_field e) @
     le2 (el_param_error_location e) @ le_bytes 8 (el_lba e) @ le4 (el_nsid e) @ zeros 36"

definition clear_aer :: "NvmeAsyncEventRequest \<Rightarrow> femu \<Rightarrow> femu" where
  "clear_aer t n = n\<lparr>n_aer_mask := n_aer_mask n AND NOT (push_bit (unat (aer_code t)) 1)\<rparr>"

definition nvme_error_log_info :: "femu \<Rightarrow> NvmeCmd \<Rightarrow> u32 \<Rightarrow> admin_result" where
  "nvme_error_log_info n cmd buf_len =
     (let trans_len = min (64 * unat (p_elpe (n_cfg n))) (unat buf_len);
          bytes = concat (map error_log_bytes (n_elpes n))
      in if length bytes < trans_len then None
         else send_data (clear_aer NVME_AER_TYPE_ERROR n) cmd (take trans_len bytes))"

definition NVME_SPARE_THRESHOLD :: u8 where "NVME_SPARE_THRESHOLD = 20"

text \<open>The spare is 0, so the spare warning is always given; \<open>seconds\<close> is the time since the start.\<close>

definition smart_log_bytes :: "femu \<Rightarrow> u64 \<Rightarrow> u8 list" where
  "smart_log_bytes n seconds =
     [smart_warn NVME_SMART_SPARE OR
        (if feat_temp_thresh (n_features n) \<le> ucast (n_temperature n) then smart_warn NVME_SMART_TEMPERATURE else 0)] @
     le2 (n_temperature n) @ [0, NVME_SPARE_THRESHOLD, 0] @ zeros 26 @ zeros 96 @
     le_bytes 8 (word_of_int ((sint seconds sdiv 60) sdiv 60)) @ zeros 8 @ zeros 32 @
     le_bytes 8 (ucast (n_num_errors n)) @ zeros 8 @ zeros 320"

definition nvme_smart_info :: "admin_env \<Rightarrow> femu \<Rightarrow> NvmeCmd \<Rightarrow> u32 \<Rightarrow> admin_result" where
  "nvme_smart_info env n cmd buf_len =
     send_data (clear_aer NVME_AER_TYPE_SMART n) cmd (take (min 512 (unat buf_len)) (smart_log_bytes n (env_seconds env)))"

definition effects_table :: "(u8 \<times> u32) list \<Rightarrow> u32 list" where
  "effects_table es = map (\<lambda>i. case map_of es (of_nat i) of None \<Rightarrow> 0 | Some v \<Rightarrow> v) [0..<256]"

definition nvme_cse_acs :: "u32 list" where
  "nvme_cse_acs = effects_table (map (\<lambda>c. (adm_opcode c, cmd_eff NVME_CMD_EFF_CSUPP))
     [NVME_ADM_CMD_DELETE_SQ, NVME_ADM_CMD_CREATE_SQ, NVME_ADM_CMD_GET_LOG_PAGE, NVME_ADM_CMD_DELETE_CQ,
      NVME_ADM_CMD_CREATE_CQ, NVME_ADM_CMD_IDENTIFY, NVME_ADM_CMD_ABORT, NVME_ADM_CMD_SET_FEATURES,
      NVME_ADM_CMD_GET_FEATURES, NVME_ADM_CMD_ASYNC_EV_REQ])"

abbreviation (input) supp_lbcc :: u32 where "supp_lbcc \<equiv> cmd_eff NVME_CMD_EFF_CSUPP OR cmd_eff NVME_CMD_EFF_LBCC"
abbreviation (input) supp :: u32 where "supp \<equiv> cmd_eff NVME_CMD_EFF_CSUPP"

definition nvm_effects :: "(u8 \<times> u32) list" where
  "nvm_effects =
     [(io_opcode NVME_CMD_FLUSH, supp_lbcc), (io_opcode NVME_CMD_WRITE_ZEROES, supp_lbcc),
      (io_opcode NVME_CMD_WRITE, supp_lbcc), (io_opcode NVME_CMD_READ, supp), (io_opcode NVME_CMD_DSM, supp_lbcc),
      (io_opcode NVME_CMD_COMPARE, supp)]"

definition nvme_cse_iocs_nvm :: "u32 list" where "nvme_cse_iocs_nvm = effects_table nvm_effects"

definition nvme_cse_iocs_zoned :: "u32 list" where
  "nvme_cse_iocs_zoned = effects_table (nvm_effects @
     [(io_opcode NVME_CMD_ZONE_APPEND, supp_lbcc), (io_opcode NVME_CMD_ZONE_MGMT_SEND, supp_lbcc),
      (io_opcode NVME_CMD_ZONE_MGMT_RECV, supp)])"

text \<open>The command set of \<open>CC.CSS\<close> decides the I/O half of the log.\<close>

definition src_iocs :: "u32 \<Rightarrow> u8 \<Rightarrow> u32 list" where
  "src_iocs css csi =
     (if css = cc_css NVME_CC_CSS_NVM then nvme_cse_iocs_nvm
      else if css = cc_css NVME_CC_CSS_CSI \<and> csi = csi_code NVME_CSI_NVM then nvme_cse_iocs_nvm
      else if css = cc_css NVME_CC_CSS_CSI \<and> csi = csi_code NVME_CSI_ZONED then nvme_cse_iocs_zoned
      else replicate 256 0)"

definition nvme_cmd_effects :: "femu \<Rightarrow> NvmeCmd \<Rightarrow> u8 \<Rightarrow> u32 \<Rightarrow> u64 \<Rightarrow> admin_result" where
  "nvme_cmd_effects n cmd csi buf_len off =
     (if 4096 \<le> off then answer NVME_INVALID_FIELD n
      else
        let log = concat (map le4 nvme_cse_acs) @ concat (map le4 (src_iocs (NVME_CC_CSS (bar_cc (n_bar n))) csi)) @ zeros 2048
        in send_data n cmd (take (min (4096 - unat off) (unat buf_len)) (drop (unat off) log)))"

definition nvme_get_log :: "admin_env \<Rightarrow> femu \<Rightarrow> NvmeCmd \<Rightarrow> admin_result" where
  "nvme_get_log env n cmd =
     (let dw10 = cmd_cdw10 cmd; dw11 = cmd_cdw11 cmd;
          lid = lo16 dw10;
          csi = ucast (drop_bit 24 (cmd_cdw14 cmd)) :: u8;
          numdl = drop_bit 16 dw10; numdu = dw11 AND 0xffff;
          len = push_bit 2 ((push_bit 16 numdu OR numdl) + 1) :: u32;
          off = push_bit 32 (ucast (cmd_cdw13 cmd)) OR ucast (cmd_cdw12 cmd) :: u64;
          status = nvme_check_mdts (ic_mdts (n_id_ctrl n)) (n_page_size n) (ucast len)
      in if off AND 3 \<noteq> 0 then answer NVME_INVALID_FIELD n
         else if status \<noteq> 0 then Some (status, n)
         else if lid = log_id NVME_LOG_ERROR_INFO then nvme_error_log_info n cmd len
         else if lid = log_id NVME_LOG_SMART_INFO then nvme_smart_info env n cmd len
         else if lid = log_id NVME_LOG_FW_SLOT_INFO then nvme_fw_log_info env n cmd len
         else if lid = log_id NVME_LOG_CMD_EFFECTS then nvme_cmd_effects n cmd csi len off
         else if OCSSD n then env_get_log env n cmd
         else answer NVME_INVALID_LOG_ID n)"

subsection \<open>Abort\<close>

definition NVME_OP_ABORTED :: u8 where "NVME_OP_ABORTED = 0xff"

text \<open>The search for the command among the entries from head to tail.  Each of \<open>size\<close> turns looks at another
  entry; if the tail is not found by then, it never is.\<close>

primrec abort_loop :: "nat \<Rightarrow> u32 \<Rightarrow> femu \<Rightarrow> nat \<Rightarrow> u16 \<Rightarrow> (u32 \<times> femu) option" where
  "abort_loop 0 index n i cid = None"
| "abort_loop (Suc k) index n i cid =
     do {
       sq \<leftarrow> lookup (n_sq n) i;
       let slot = (sq_head sq + index) mod sq_size sq;
       if sq_size sq = 0 then None
       else if slot = sq_tail sq then Some (1, n)
       else do {
         addr \<leftarrow> sq_entry_addr n (sq\<lparr>sq_head := slot\<rparr>);
         let bytes = addr_read n addr 64;
         if cmd_cid (cmd_of_bytes bytes) = cid then
           (case sq_req_list sq of
              [] \<Rightarrow> None
            | r # rest \<Rightarrow> do {
                req \<leftarrow> req_at (n_sq n) (i, r);
                let n = upd_sq n i (sq\<lparr>sq_req_list := rest, sq_out_req_list := sq_out_req_list sq @ [r]\<rparr>);
                let n = upd_req n (i, r) (req\<lparr>req_cqe := zero_cqe\<lparr>cqe_cid := cid\<rparr>, req_status := sc NVME_CMD_ABORT_REQ\<rparr>);
                Some (0, addr_write n addr (bytes[0 := NVME_OP_ABORTED]))
              })
         else abort_loop k (index + 1) n i cid
       }
     }"

definition nvme_abort_req :: "femu \<Rightarrow> NvmeCmd \<Rightarrow> (u16 \<times> u32 \<times> femu) option" where
  "nvme_abort_req n cmd =
     (let sqid = lo16 (cmd_cdw10 cmd); cid = hi16 (cmd_cdw10 cmd)
      in if \<not> nvme_check_sqid n sqid then Some (sc NVME_SUCCESS, 1, n)
         else
           let k = unat (sq_size (the (lookup (n_sq n) (unat sqid))))
           in map_option (\<lambda>(result, n). (sc NVME_SUCCESS, result, n)) (abort_loop k 0 n (unat sqid) cid))"

subsection \<open>Format\<close>

definition format_refused :: "NvmeIdNs \<Rightarrow> u8 \<Rightarrow> u8 \<Rightarrow> u8 \<Rightarrow> u8 \<Rightarrow> bool" where
  "format_refused d lba_idx meta_loc pil prot \<longleftrightarrow>
     (let ms = lbaf_ms (idns_lbaf d ! unat lba_idx)
      in idns_nlbaf d < lba_idx
         \<or> (prot \<noteq> 0 \<and> ((pil \<noteq> 0 \<and> NVME_ID_NS_DPC_LAST_EIGHT (idns_dpc d) = 0)
              \<or> (pil = 0 \<and> NVME_ID_NS_DPC_FIRST_EIGHT (idns_dpc d) = 0)
              \<or> (idns_dpc d AND 7) AND push_bit (unat prot - 1) 1 = 0))
         \<or> (meta_loc \<noteq> 0 \<and> ms \<noteq> 0 \<and> NVME_ID_NS_MC_EXTENDED (idns_mc d) = 0)
         \<or> (meta_loc = 0 \<and> ms \<noteq> 0 \<and> NVME_ID_NS_MC_SEPARATE (idns_mc d) = 0))"

text \<open>The number of blocks changes, the bitmaps of the namespace do not.\<close>

definition nvme_format_namespace :: "femu \<Rightarrow> nat \<Rightarrow> u8 \<Rightarrow> u8 \<Rightarrow> u8 \<Rightarrow> u8 \<Rightarrow> admin_result" where
  "nvme_format_namespace n i lba_idx meta_loc pil prot =
     (let ns = n_namespaces n ! i; d = ns_id_ns ns
      in if length (n_namespaces n) \<le> i \<or> length (idns_lbaf d) \<le> unat lba_idx then None
         else if format_refused d lba_idx meta_loc pil prot then answer NVME_INVALID_FORMAT n
         else
           let ns = ns\<lparr>ns_id_ns := d\<lparr>idns_flbas := lba_idx OR meta_loc, idns_dps := pil OR prot\<rparr>\<rparr>
           in ns_blks n ns lba_idx \<bind> (\<lambda>blks.
                success (upd_ns n i (\<lambda>_. ns\<lparr>ns_ns_blks := blks, ns_id_ns := set_nsze blks (ns_id_ns ns)\<rparr>))))"

primrec format_all :: "nat list \<Rightarrow> u8 \<Rightarrow> u8 \<Rightarrow> u8 \<Rightarrow> u8 \<Rightarrow> femu \<Rightarrow> admin_result" where
  "format_all [] lba_idx meta_loc pil prot n = success n"
| "format_all (i # is) lba_idx meta_loc pil prot n =
     nvme_format_namespace n i lba_idx meta_loc pil prot \<bind> (\<lambda>(status, n).
       if status \<noteq> sc NVME_SUCCESS then Some (status, n) else format_all is lba_idx meta_loc pil prot n)"

definition nvme_format :: "femu \<Rightarrow> NvmeCmd \<Rightarrow> admin_result" where
  "nvme_format n cmd =
     (let dw10 = cmd_cdw10 cmd; nsid = cmd_nsid cmd;
          lba_idx = ucast (dw10 AND 0xf); meta_loc = ucast (dw10 AND 0x10);
          pil = ucast (drop_bit 5 dw10 AND 8); prot = ucast (drop_bit 5 dw10 AND 7)
      in if nsid = 0xffffffff then format_all [0..<unat (p_num_namespaces (n_cfg n))] lba_idx meta_loc pil prot n
         else if nsid = 0 \<or> p_num_namespaces (n_cfg n) < nsid then answer NVME_INVALID_NSID n
         else nvme_format_namespace n (unat nsid - 1) lba_idx meta_loc pil prot)"

subsection \<open>Dispatch\<close>

datatype femu_flip = FEMU_ENABLE_GC_DELAY | FEMU_DISABLE_GC_DELAY | FEMU_ENABLE_DELAY_EMU | FEMU_DISABLE_DELAY_EMU
  | FEMU_RESET_ACCT | FEMU_ENABLE_LOG | FEMU_DISABLE_LOG

primrec flip_code :: "femu_flip \<Rightarrow> u32" where
  "flip_code FEMU_ENABLE_GC_DELAY = 1"
| "flip_code FEMU_DISABLE_GC_DELAY = 2"
| "flip_code FEMU_ENABLE_DELAY_EMU = 3"
| "flip_code FEMU_DISABLE_DELAY_EMU = 4"
| "flip_code FEMU_RESET_ACCT = 5"
| "flip_code FEMU_ENABLE_LOG = 6"
| "flip_code FEMU_DISABLE_LOG = 7"

definition upd_ssdparams :: "(ssdparams \<Rightarrow> ssdparams) \<Rightarrow> femu \<Rightarrow> femu option" where
  "upd_ssdparams g n = map_option (\<lambda>s. n\<lparr>n_ssd := Some (s\<lparr>ssd_sp := g (ssd_sp s)\<rparr>)\<rparr>) (n_ssd n)"

text \<open>Unknown codes are only reported.\<close>

definition bb_flip :: "femu \<Rightarrow> NvmeCmd \<Rightarrow> femu option" where
  "bb_flip n cmd =
     (let cdw10 = cmd_cdw10 cmd; sel = (\<lambda>c. cdw10 = flip_code c)
      in if sel FEMU_ENABLE_GC_DELAY then upd_ssdparams (\<lambda>sp. sp\<lparr>enable_gc_delay := True\<rparr>) n
         else if sel FEMU_DISABLE_GC_DELAY then upd_ssdparams (\<lambda>sp. sp\<lparr>enable_gc_delay := False\<rparr>) n
         else if sel FEMU_ENABLE_DELAY_EMU then
           upd_ssdparams (\<lambda>sp. sp\<lparr>pg_rd_lat := NAND_READ_LATENCY, pg_wr_lat := NAND_PROG_LATENCY,
             blk_er_lat := NAND_ERASE_LATENCY, ch_xfer_lat := 0\<rparr>) n
         else if sel FEMU_DISABLE_DELAY_EMU then
           upd_ssdparams (\<lambda>sp. sp\<lparr>pg_rd_lat := 0, pg_wr_lat := 0, blk_er_lat := 0, ch_xfer_lat := 0\<rparr>) n
         else if sel FEMU_RESET_ACCT then Some (n\<lparr>n_nr_tt_ios := 0, n_nr_tt_late_ios := 0\<rparr>)
         else if sel FEMU_ENABLE_LOG then Some (n\<lparr>n_print_log := True\<rparr>)
         else if sel FEMU_DISABLE_LOG then Some (n\<lparr>n_print_log := False\<rparr>)
         else Some n)"

definition bb_admin_cmd :: "femu \<Rightarrow> NvmeCmd \<Rightarrow> admin_result" where
  "bb_admin_cmd n cmd =
     (if cmd_opcode cmd = adm_opcode NVME_ADM_CMD_FEMU_FLIP then bb_flip n cmd \<bind> success
      else answer NVME_INVALID_OPCODE n)"

definition zns_admin_cmd :: "femu \<Rightarrow> NvmeCmd \<Rightarrow> admin_result" where
  "zns_admin_cmd n cmd = answer NVME_INVALID_OPCODE n"

definition ext_admin_cmd :: "admin_env \<Rightarrow> femu \<Rightarrow> NvmeCmd \<Rightarrow> admin_result" where
  "ext_admin_cmd env n cmd =
     (if OCSSD n then env_admin env n cmd
      else if BBSSD n then bb_admin_cmd n cmd
      else if ZNSSD n then zns_admin_cmd n cmd
      else answer NVME_INVALID_OPCODE n)"

definition set_latencies :: "femu \<Rightarrow> NvmeCmd \<Rightarrow> femu" where
  "set_latencies n cmd =
     n\<lparr>n_lat := (n_lat n)\<lparr>upg_rd_lat_ns := uint (cmd_cdw10 cmd), lpg_rd_lat_ns := uint (cmd_cdw11 cmd),
       upg_wr_lat_ns := uint (cmd_cdw12 cmd), lpg_wr_lat_ns := uint (cmd_cdw13 cmd),
       blk_er_lat_ns := uint (cmd_cdw14 cmd), chnl_pg_xfer_lat_ns := uint (cmd_cdw15 cmd)\<rparr>\<rparr>"

definition nvme_admin_cmd :: "admin_env \<Rightarrow> femu \<Rightarrow> NvmeCmd \<Rightarrow> NvmeCqe \<Rightarrow> feature_result" where
  "nvme_admin_cmd env n cmd cqe =
     (let op = cmd_opcode cmd; sel = (\<lambda>c. op = adm_opcode c); plain = with_cqe cqe
      in if sel NVME_ADM_CMD_FEMU_DEBUG then plain (success (set_latencies n cmd))
         else if sel NVME_ADM_CMD_DELETE_SQ then plain (nvme_del_sq env n cmd)
         else if sel NVME_ADM_CMD_CREATE_SQ then plain (nvme_create_sq env n cmd)
         else if sel NVME_ADM_CMD_DELETE_CQ then plain (nvme_del_cq n cmd)
         else if sel NVME_ADM_CMD_CREATE_CQ then plain (nvme_create_cq env n cmd)
         else if sel NVME_ADM_CMD_IDENTIFY then plain (nvme_identify n cmd)
         else if sel NVME_ADM_CMD_SET_FEATURES then nvme_set_feature n cmd cqe
         else if sel NVME_ADM_CMD_GET_FEATURES then nvme_get_feature n cmd cqe
         else if sel NVME_ADM_CMD_GET_LOG_PAGE then plain (nvme_get_log env n cmd)
         else if sel NVME_ADM_CMD_ABORT then
           map_option (\<lambda>(status, result, n). (status, set_cqe_result result cqe, n)) (nvme_abort_req n cmd)
         else if sel NVME_ADM_CMD_FORMAT_NVM then
           plain (if oacs_bit NVME_OACS_FORMAT AND p_oacs (n_cfg n) \<noteq> 0 then nvme_format n cmd else answer NVME_INVALID_OPCODE n)
         else if sel NVME_ADM_CMD_SET_DB_MEMORY then plain (nvme_set_db_memory env n cmd)
         else if sel NVME_ADM_CMD_ACTIVATE_FW \<or> sel NVME_ADM_CMD_DOWNLOAD_FW \<or> sel NVME_ADM_CMD_SECURITY_SEND \<or>
           sel NVME_ADM_CMD_SECURITY_RECV then plain (answer NVME_INVALID_OPCODE n)
         else plain (ext_admin_cmd env n cmd))"

subsection \<open>The admin queue\<close>

definition process_one_admin :: "admin_env \<Rightarrow> nat \<Rightarrow> femu \<Rightarrow> femu option" where
  "process_one_admin env i n =
     do {
       sq \<leftarrow> lookup (n_sq n) i;
       addr \<leftarrow> sq_entry_addr n sq;
       let cmd = cmd_of_bytes (addr_read n addr 64);
       sq \<leftarrow> nvme_inc_sq_head sq;
       (status, cqe, n) \<leftarrow> nvme_admin_cmd env (upd_sq n i sq) cmd zero_cqe;
       sq \<leftarrow> lookup (n_sq n) i;
       cq \<leftarrow> lookup (n_cq n) (unat (sq_cqid sq));
       let cqe = cqe\<lparr>cqe_cid := cmd_cid cmd, cqe_status := push_bit 1 status OR ucast (cq_phase cq),
                     cqe_sq_id := sq_sqid sq, cqe_sq_head := ucast (sq_head sq)\<rparr>;
       addr \<leftarrow> cq_entry_addr n cq;
       let n = upd_cq (addr_write n addr (cqe_bytes cqe)) (unat (sq_cqid sq)) (nvme_inc_cq_tail cq);
       nvme_isr_notify_admin n (unat (sq_cqid sq))
     }"

text \<open>Every turn advances the head by one: after \<open>size\<close> turns a tail not met never is.\<close>

primrec process_admin_loop :: "nat \<Rightarrow> admin_env \<Rightarrow> nat \<Rightarrow> femu \<Rightarrow> femu option" where
  "process_admin_loop 0 env i n = lookup (n_sq n) i \<bind> (\<lambda>sq. if nvme_sq_empty sq then Some n else None)"
| "process_admin_loop (Suc k) env i n =
     lookup (n_sq n) i \<bind> (\<lambda>sq.
       if nvme_sq_empty sq then Some n else process_one_admin env i n \<bind> process_admin_loop k env i)"

definition nvme_process_sq_admin :: "admin_env \<Rightarrow> nat \<Rightarrow> femu \<Rightarrow> femu option" where
  "nvme_process_sq_admin env i n =
     lookup (n_sq n) i \<bind> (\<lambda>sq. process_admin_loop (unat (sq_size sq)) env i n)"

end
