(* ===== verification/Femu_Ctrl.thy ===== *)
theory Femu_Ctrl
  imports Nvme_Admin
begin

text \<open>
  Doorbells and memory-mapped accesses: the rest of \<open>femu/femu.c\<close> and the main loop of
  \<open>qemu-compat/wrapper-qemu.c\<close>, which hands the accesses of the host to the device and its answers and
  interrupts back.
\<close>

subsection \<open>Doorbells\<close>

definition is_cq_db :: "femu \<Rightarrow> u64 \<Rightarrow> bool" where
  "is_cq_db n addr \<longleftrightarrow> drop_bit (2 + unat (p_db_stride (n_cfg n))) (addr - 0x1000) AND 1 \<noteq> 0"

definition cq_db_qid :: "femu \<Rightarrow> u64 \<Rightarrow> u32" where
  "cq_db_qid n addr =
     (let s = unat (p_db_stride (n_cfg n))
      in ucast (drop_bit (3 + s) (addr - scast (0x1000 + push_bit (2 + s) 1 :: u32))))"

definition sq_db_qid :: "femu \<Rightarrow> u64 \<Rightarrow> u32" where
  "sq_db_qid n addr = ucast (drop_bit (3 + unat (p_db_stride (n_cfg n))) (addr - 0x1000))"

text \<open>The checks take a 16-bit queue number, the access after them all 32 bits.\<close>

definition nvme_process_db_admin :: "admin_env \<Rightarrow> femu \<Rightarrow> u64 \<Rightarrow> u64 \<Rightarrow> femu option" where
  "nvme_process_db_admin env n addr val =
     (let new_val = ucast val :: u16
      in if is_cq_db n addr then
           (let qid = cq_db_qid n addr; i = unat qid
            in if \<not> nvme_check_cqid n (ucast qid) then Some n
               else
                 lookup (n_cq n) i \<bind> (\<lambda>cq.
                   if cq_size cq \<le> ucast new_val then Some n
                   else
                     let n = upd_cq n i (cq\<lparr>cq_head := ucast new_val\<rparr>)
                     in if cq_tail cq \<noteq> ucast new_val then nvme_isr_notify_admin n i else Some n))
         else
           (let qid = sq_db_qid n addr; i = unat qid
            in if \<not> nvme_check_sqid n (ucast qid) then Some n
               else
                 lookup (n_sq n) i \<bind> (\<lambda>sq.
                   if sq_size sq \<le> ucast new_val then Some n
                   else nvme_process_sq_admin env i (upd_sq n i (sq\<lparr>sq_tail := ucast new_val\<rparr>)))))"

definition nvme_process_db_io :: "femu \<Rightarrow> u64 \<Rightarrow> u64 \<Rightarrow> femu option" where
  "nvme_process_db_io n addr val =
     (let new_val = ucast val :: u16; s = unat (p_db_stride (n_cfg n))
      in if n_dataplane_started n then Some n
         else if addr AND scast (push_bit (2 + s) 1 - 1 :: u32) \<noteq> 0 then Some n
         else if is_cq_db n addr then
           (let qid = cq_db_qid n addr; i = unat qid
            in if \<not> nvme_check_cqid n (ucast qid) then Some n
               else
                 lookup (n_cq n) i \<bind> (\<lambda>cq.
                   if cq_size cq \<le> ucast new_val then Some n
                   else
                     let cq = (if cq_db_addr cq = 0 then cq\<lparr>cq_head := ucast new_val\<rparr> else cq);
                         n = upd_cq n i cq
                     in if cq_tail cq \<noteq> cq_head cq then nvme_isr_notify_io n i else Some n))
         else
           (let qid = sq_db_qid n addr; i = unat qid
            in if \<not> nvme_check_sqid n (ucast qid) then Some n
               else
                 lookup (n_sq n) i \<bind> (\<lambda>sq.
                   if sq_size sq \<le> ucast new_val then Some n
                   else Some (if sq_db_addr sq = 0 then upd_sq n i (sq\<lparr>sq_tail := ucast new_val\<rparr>) else n))))"

definition nvme_mmio_write :: "admin_env \<Rightarrow> femu \<Rightarrow> u64 \<Rightarrow> u64 \<Rightarrow> femu option" where
  "nvme_mmio_write env n addr data =
     (if addr < 64 then nvme_write_bar (env_stack env) n addr data
      else if 0x1000 \<le> addr \<and> addr < 0x1008 then nvme_process_db_admin env n addr data
      else nvme_process_db_io n addr data)"

subsection \<open>The main loop of the wrapper\<close>

text \<open>Messages from the simulator: the base address register, the offset, the length.\<close>

datatype sb2qemu = SB2Q_MMIO_READ u8 u64 u8 u64 | SB2Q_MMIO_WRITE u8 u64 u8 u64

text \<open>Register 0 is the controller, the one \<open>cmbloc\<close> names is the controller memory buffer; an access to
  another one has no region to go to.  \<open>mem\<close> is the memory behind the object that is read.\<close>

definition CMB_BAR :: "femu \<Rightarrow> u8" where "CMB_BAR n = ucast (p_cmbloc (n_cfg n) AND 7)"

definition has_cmb :: "femu \<Rightarrow> bool" where "has_cmb n \<longleftrightarrow> p_cmbsz (n_cfg n) \<noteq> 0"

definition mmio_read :: "(nat \<Rightarrow> u8) \<Rightarrow> femu \<Rightarrow> u8 \<Rightarrow> u64 \<Rightarrow> u8 \<Rightarrow> u64 option" where
  "mmio_read mem n bar addr len =
     (if has_cmb n \<and> bar = CMB_BAR n then nvme_cmb_read mem n addr (unat len)
      else if bar = 0 then nvme_mmio_read mem n addr (unat len)
      else None)"

definition mmio_write :: "admin_env \<Rightarrow> femu \<Rightarrow> u8 \<Rightarrow> u64 \<Rightarrow> u64 \<Rightarrow> u8 \<Rightarrow> femu option" where
  "mmio_write env n bar addr data len =
     (if has_cmb n \<and> bar = CMB_BAR n then nvme_cmb_write n addr data (unat len)
      else if bar = 0 then nvme_mmio_write env n addr data
      else None)"

text \<open>One turn of the loop: at most one message, answered when it is a read (its identifier and the data), and a
  pass over the interrupt routes.\<close>

definition qemu_main_turn ::
  "admin_env \<Rightarrow> (nat \<Rightarrow> u8) \<Rightarrow> sb2qemu option \<Rightarrow> femu \<Rightarrow> ((u64 \<times> u64) option \<times> femu) option" where
  "qemu_main_turn env mem msg n =
     do {
       (out, n) \<leftarrow>
         (case msg of
            None \<Rightarrow> Some (None, n)
          | Some (SB2Q_MMIO_READ bar addr len req_id) \<Rightarrow> map_option (\<lambda>d. (Some (req_id, d), n)) (mmio_read mem n bar addr len)
          | Some (SB2Q_MMIO_WRITE bar addr len data) \<Rightarrow> map_option (Pair None) (mmio_write env n bar addr data len));
       n \<leftarrow> qemu_main_poll n;
       Some (out, n)
     }"

end
