(* ===== verification/Queue_Inv.thy ===== *)
theory Queue_Inv
  imports Femu_Ctrl Nvme_Io_Inv
begin

text \<open>
  The queue tables: every queue sits under its own number, its indices are in range, and submission and
  completion queues refer to each other.  Every access of the host keeps this.
\<close>

subsection \<open>Well-formed queue tables\<close>

definition sq_shape :: "nat \<Rightarrow> NvmeSQueue \<Rightarrow> bool" where
  "sq_shape i q \<longleftrightarrow> unat (sq_sqid q) = i \<and> sq_head q < sq_size q \<and> length (sq_io_req q) = unat (sq_size q) \<and>
     distinct (sq_req_list q @ sq_out_req_list q) \<and>
     set (sq_req_list q @ sq_out_req_list q) \<subseteq> {..<unat (sq_size q)}"

definition cq_shape :: "nat \<Rightarrow> NvmeCQueue \<Rightarrow> bool" where
  "cq_shape c q \<longleftrightarrow> unat (cq_cqid q) = c \<and> cq_tail q < cq_size q \<and> (cq_phase q = 0 \<or> cq_phase q = 1) \<and>
     distinct (cq_sq_list q) \<and> cq_req_list q = []"

text \<open>The completion queue a submission queue names, and the submission queues a completion queue lists.\<close>

definition cqid_of :: "sq_table \<Rightarrow> nat \<Rightarrow> nat option" where
  "cqid_of sqs i = map_option (\<lambda>q. unat (sq_cqid q)) (lookup sqs i)"

definition sqs_of :: "NvmeCQueue option list \<Rightarrow> nat \<Rightarrow> nat set" where
  "sqs_of cqs c = (case lookup cqs c of None \<Rightarrow> {} | Some q \<Rightarrow> set (cq_sq_list q))"

definition linked :: "sq_table \<Rightarrow> NvmeCQueue option list \<Rightarrow> bool" where
  "linked sqs cqs \<longleftrightarrow> (\<forall>i c. cqid_of sqs i = Some c \<longleftrightarrow> i \<in> sqs_of cqs c)"

lemma lookup_list_update: "lookup (tab[i := x]) j = (if i = j \<and> i < length tab then x else lookup tab j)"
  by (auto simp: lookup_def)

lemma cqid_of_update:
  "i < length sqs \<Longrightarrow> cqid_of (sqs[i := x]) j = (if j = i then map_option (\<lambda>q. unat (sq_cqid q)) x else cqid_of sqs j)"
  by (simp add: cqid_of_def lookup_list_update)

lemma sqs_of_update:
  "c < length cqs \<Longrightarrow> sqs_of (cqs[c := x]) d =
    (if d = c then (case x of None \<Rightarrow> {} | Some q \<Rightarrow> set (cq_sq_list q)) else sqs_of cqs d)"
  by (simp add: sqs_of_def lookup_list_update)

definition tables_ok :: "nat \<Rightarrow> sq_table \<Rightarrow> NvmeCQueue option list \<Rightarrow> bool" where
  "tables_ok k sqs cqs \<longleftrightarrow> length sqs = k \<and> length cqs = k \<and> linked sqs cqs \<and>
     (\<forall>i q. lookup sqs i = Some q \<longrightarrow> sq_shape i q) \<and> (\<forall>c q. lookup cqs c = Some q \<longrightarrow> cq_shape c q)"

text \<open>The capabilities announce queues of fewer than 65536 entries; the size of a queue is a 16-bit number.\<close>

definition queues_ok :: "femu \<Rightarrow> bool" where
  "queues_ok n \<longleftrightarrow> tables_ok (unat (p_num_io_queues (n_cfg n)) + 1) (n_sq n) (n_cq n) \<and>
     NVME_CAP_MQES (bar_cap (n_bar n)) < 65535"

definition queue_view :: "femu \<Rightarrow> sq_table \<times> NvmeCQueue option list \<times> femu_props \<times> u64" where
  "queue_view n = (n_sq n, n_cq n, n_cfg n, bar_cap (n_bar n))"

lemma queues_ok_view: "queue_view n' = queue_view n \<Longrightarrow> queues_ok n' = queues_ok n"
  by (simp add: queue_view_def queues_ok_def)

lemma queue_view_parts:
  assumes "queue_view n' = queue_view n"
  shows "n_sq n' = n_sq n" "n_cq n' = n_cq n" "n_cfg n' = n_cfg n" "bar_cap (n_bar n') = bar_cap (n_bar n)"
  using assms by (simp_all add: queue_view_def)

lemma sq_shape_upd:
  "sq_shape i q \<Longrightarrow> sq_sqid q' = sq_sqid q \<Longrightarrow> sq_head q' < sq_size q' \<Longrightarrow> sq_size q' = sq_size q \<Longrightarrow>
   length (sq_io_req q') = length (sq_io_req q) \<Longrightarrow> mset (sq_req_list q' @ sq_out_req_list q') = mset (sq_req_list q @ sq_out_req_list q) \<Longrightarrow>
   sq_shape i q'"
  unfolding sq_shape_def by (metis mset_eq_imp_distinct_iff mset_eq_setD)

text \<open>Changing a queue in place.\<close>

lemma tables_upd_sq:
  assumes "tables_ok k sqs cqs" "lookup sqs i = Some q" "sq_cqid q' = sq_cqid q" "sq_shape i q'"
  shows "tables_ok k (sqs[i := Some q']) cqs"
proof -
  have "cqid_of (sqs[i := Some q']) = cqid_of sqs"
    using assms(2,3) lookup_less [OF assms(2)] by (auto simp: fun_eq_iff cqid_of_update) (simp add: cqid_of_def)
  then show ?thesis using assms(1,4) unfolding tables_ok_def linked_def lookup_list_update by simp
qed

lemma tables_upd_cq:
  assumes "tables_ok k sqs cqs" "lookup cqs c = Some q" "cq_sq_list q' = cq_sq_list q" "cq_shape c q'"
  shows "tables_ok k sqs (cqs[c := Some q'])"
proof -
  have "sqs_of (cqs[c := Some q']) = sqs_of cqs"
    using assms(2,3) lookup_less [OF assms(2)] by (auto simp: fun_eq_iff sqs_of_update) (simp_all add: sqs_of_def)
  then show ?thesis using assms(1,4) unfolding tables_ok_def linked_def lookup_list_update by simp
qed

lemma queues_upd_sq:
  "queues_ok n \<Longrightarrow> lookup (n_sq n) i = Some q \<Longrightarrow> sq_cqid q' = sq_cqid q \<Longrightarrow> sq_shape i q' \<Longrightarrow> queues_ok (upd_sq n i q')"
  using tables_upd_sq by (simp add: queues_ok_def upd_sq_def)

lemma queues_upd_cq:
  "queues_ok n \<Longrightarrow> lookup (n_cq n) c = Some q \<Longrightarrow> cq_sq_list q' = cq_sq_list q \<Longrightarrow> cq_shape c q' \<Longrightarrow> queues_ok (upd_cq n c q')"
  using tables_upd_cq by (simp add: queues_ok_def upd_cq_def)

lemma queues_sq_shape: "queues_ok n \<Longrightarrow> lookup (n_sq n) i = Some q \<Longrightarrow> sq_shape i q"
  and queues_cq_shape: "queues_ok n \<Longrightarrow> lookup (n_cq n) c = Some cq \<Longrightarrow> cq_shape c cq"
  by (simp_all add: queues_ok_def tables_ok_def)

text \<open>Adding and removing queues.\<close>

lemma tables_add_sq:
  assumes ok: "tables_ok k sqs cqs" and i: "i < k" "lookup sqs i = None"
    and c: "lookup cqs c = Some cq" "cq' = cq\<lparr>cq_sq_list := cq_sq_list cq @ [i]\<rparr>"
    and q: "sq_shape i q" "unat (sq_cqid q) = c"
  shows "tables_ok k (sqs[i := Some q]) (cqs[c := Some cq'])"
proof -
  have len: "i < length sqs" "c < length cqs" using ok i(1) lookup_less [OF c(1)] by (simp_all add: tables_ok_def)
  have l: "linked sqs cqs" using ok by (simp add: tables_ok_def)
  have out: "i \<notin> sqs_of cqs d" for d using l i(2) unfolding linked_def by (metis cqid_of_def option.simps(3,8))
  have sc: "sqs_of cqs c = set (cq_sq_list cq)" using c(1) by (simp add: sqs_of_def)
  have "linked (sqs[i := Some q]) (cqs[c := Some cq'])"
    using l out q(2) c(2) sc unfolding linked_def cqid_of_update [OF len(1)] sqs_of_update [OF len(2)] by auto
  moreover have "cq_shape c cq'" using ok c out [of c] sc by (auto simp: tables_ok_def cq_shape_def)
  ultimately show ?thesis using ok q(1) len unfolding tables_ok_def lookup_list_update by simp
qed

lemma tables_remove_sq:
  assumes ok: "tables_ok k sqs cqs" and q: "lookup sqs i = Some q" and c: "lookup cqs (unat (sq_cqid q)) = Some cq"
  shows "tables_ok k (sqs[i := None]) (cqs[unat (sq_cqid q) := Some (cq\<lparr>cq_sq_list := remove1 i (cq_sq_list cq)\<rparr>)])"
proof -
  let ?c = "unat (sq_cqid q)" and ?cq = "cq\<lparr>cq_sq_list := remove1 i (cq_sq_list cq)\<rparr>"
  have len: "i < length sqs" "?c < length cqs" by (rule lookup_less [OF q], rule lookup_less [OF c])
  have l: "linked sqs cqs" and d: "distinct (cq_sq_list cq)"
    using ok c unfolding tables_ok_def cq_shape_def by auto
  have ic: "cqid_of sqs i = Some ?c" using q by (simp add: cqid_of_def)
  have sc: "sqs_of cqs ?c = set (cq_sq_list cq)" using c(1) by (simp add: sqs_of_def)
  have only: "i \<in> sqs_of cqs e \<longleftrightarrow> e = ?c" for e using l ic unfolding linked_def by (metis option.inject)
  have "linked (sqs[i := None]) (cqs[?c := Some ?cq])"
    using l sc only d unfolding linked_def cqid_of_update [OF len(1)] sqs_of_update [OF len(2)] by auto
  moreover have "cq_shape ?c ?cq" using ok c by (auto simp: tables_ok_def cq_shape_def)
  ultimately show ?thesis using ok len unfolding tables_ok_def lookup_list_update by simp
qed

lemma tables_add_cq:
  assumes "tables_ok k sqs cqs" "c < k" "lookup cqs c = None" "cq_shape c q" "cq_sq_list q = []"
  shows "tables_ok k sqs (cqs[c := Some q])"
proof -
  have "c < length cqs" using assms(1,2) by (simp add: tables_ok_def)
  moreover have "sqs_of cqs c = {}" using assms(3) by (simp add: sqs_of_def)
  ultimately have "sqs_of (cqs[c := Some q]) = sqs_of cqs" using assms(5) by (auto simp: fun_eq_iff sqs_of_update)
  then show ?thesis using assms(1,4) unfolding tables_ok_def linked_def lookup_list_update by simp
qed

lemma tables_remove_cq:
  assumes "tables_ok k sqs cqs" "lookup cqs c = Some q" "cq_sq_list q = []"
  shows "tables_ok k sqs (cqs[c := None])"
proof -
  have "sqs_of cqs c = {}" using assms(2,3) by (simp add: sqs_of_def)
  then have "sqs_of (cqs[c := None]) = sqs_of cqs"
    using lookup_less [OF assms(2)] by (auto simp: fun_eq_iff sqs_of_update)
  then show ?thesis using assms(1) unfolding tables_ok_def linked_def lookup_list_update by simp
qed

lemma tables_empty:
  "length sqs = k \<Longrightarrow> length cqs = k \<Longrightarrow> (\<And>i. lookup sqs i = None) \<Longrightarrow> (\<And>i. lookup cqs i = None) \<Longrightarrow> tables_ok k sqs cqs"
  by (simp add: tables_ok_def linked_def cqid_of_def sqs_of_def)

subsection \<open>Steps that leave the tables alone\<close>

lemma view_trans: "queue_view b = queue_view a \<Longrightarrow> queue_view c = queue_view b \<Longrightarrow> queue_view c = queue_view a"
  by simp

lemma addr_write_queue_view [simp]: "queue_view (addr_write n a bs) = queue_view n"
  by (simp add: addr_write_def queue_view_def split: prod.split)

lemma send_data_view: "send_data n cmd bs = Some (st, n') \<Longrightarrow> queue_view n' = queue_view n"
  by (auto simp: send_data_def queue_view_def)

lemma upd_ns_view [simp]: "queue_view (upd_ns n i f) = queue_view n"
  by (simp add: upd_ns_def queue_view_def)

lemma answer_view: "answer code n = Some (st, n') \<Longrightarrow> n' = n"
  and success_view: "success n = Some (st, n') \<Longrightarrow> n' = n"
  by (simp_all add: answer_def success_def)

lemma setup_discontig_loop_view:
  "setup_discontig_loop n prp per k i a l = (r, n') \<Longrightarrow> queue_view n' = queue_view n"
proof (induction n prp per k i a l rule: setup_discontig_loop.induct)
  case (1 n prp per k i a l)
  then show ?case
    by (subst (asm) (2) setup_discontig_loop.simps) (force simp: Let_def split: if_splits)
qed

lemma queue_memory_view: "queue_memory junk n a sz e c = Some (r, n') \<Longrightarrow> queue_view n' = queue_view n"
  by (auto simp: queue_memory_def nvme_setup_discontig_def Let_def split: if_splits dest: setup_discontig_loop_view)

lemma create_poller_view: "nvme_create_poller ok n = Some n' \<Longrightarrow> queue_view n' = queue_view n"
  by (auto simp: nvme_create_poller_def Let_def queue_view_def split: bind_splits if_splits)

lemma send_irq_view [simp]: "queue_view (send_irq m n) = queue_view n"
  by (simp add: send_irq_def queue_view_def)

lemma notify_legacy_view: "nvme_isr_notify_legacy n c = Some n' \<Longrightarrow> queue_view n' = queue_view n"
  by (auto simp: nvme_isr_notify_legacy_def msix_notify_def msi_notify_def pci_irq_pulse_def split: option.splits if_splits)

lemma unmask_view: "queue_view (snd (nvme_vector_unmask n v)) = queue_view n"
  by (auto simp: nvme_vector_unmask_def kvm_irqchip_add_irqfd_notifier_gsi_def queue_view_def Let_def
      split: option.splits prod.splits)

lemma set_notifiers_view: "queue_view (msix_set_vector_notifiers n) = queue_view n"
proof -
  have "queue_view (fold (\<lambda>i n. snd (nvme_vector_unmask n (of_nat i))) xs m) = queue_view m" for xs m
    by (induction xs arbitrary: m) (simp_all add: unmask_view)
  then show ?thesis by (simp add: msix_set_vector_notifiers_def nvme_vector_poll_def Let_def)
qed

subsection \<open>Queue commands\<close>

lemma queues_okI:
  assumes "queues_ok n" "n_cfg n' = n_cfg n" "bar_cap (n_bar n') = bar_cap (n_bar n)"
    "tables_ok (unat (p_num_io_queues (n_cfg n)) + 1) (n_sq n') (n_cq n')"
  shows "queues_ok n'"
  using assms by (simp add: queues_ok_def)

lemma queues_tables: "queues_ok n \<Longrightarrow> tables_ok (unat (p_num_io_queues (n_cfg n)) + 1) (n_sq n) (n_cq n)"
  by (simp add: queues_ok_def)

lemma init_sq_ok:
  assumes "nvme_init_sq junk q n a sqid cqid sz prio contig = Some (st, n')" "queues_ok n"
    "lookup (n_sq n) (unat sqid) = None" "sz \<noteq> 0"
  shows "queues_ok n'" "st = 0 \<Longrightarrow> lookup (n_sq n') (unat sqid) \<noteq> None"
proof -
  from assms(1) obtain m mem where mem: "queue_memory junk n a sz (n_sqe_size n) contig = Some (mem, m)"
    by (auto simp: nvme_init_sq_def split: bind_splits)
  have v: "queue_view m = queue_view n" by (rule queue_memory_view [OF mem])
  note V = queue_view_parts [OF v]
  have ok: "queues_ok m" using queues_ok_view [OF v] assms(2) by simp
  have "queues_ok n' \<and> (st = 0 \<longrightarrow> lookup (n_sq n') (unat sqid) \<noteq> None)"
  proof (cases mem)
    case None
    then show ?thesis using assms(1) mem ok by (auto simp: nvme_init_sq_def)
  next
    case (Some ap)
    from assms(1) mem Some obtain c q' where c: "lookup (n_cq m) (unat cqid) = Some c" and i: "unat sqid < length (n_sq m)"
      and n': "n' = upd_sq (upd_cq m (unat cqid) (c\<lparr>cq_sq_list := cq_sq_list c @ [unat sqid]\<rparr>)) (unat sqid) q'"
      and q': "sq_sqid q' = sqid" "sq_size q' = ucast sz" "sq_cqid q' = cqid" "sq_head q' = 0"
        "sq_io_req q' = replicate (unat sz) (zero_req (unat sqid))" "sq_req_list q' = [0..<unat sz]" "sq_out_req_list q' = []"
      by (cases ap) (auto simp: nvme_init_sq_def Let_def split: option.splits if_splits)
    have "unat sz \<noteq> 0" using assms(4) by (simp add: unat_eq_0)
    then have sh: "sq_shape (unat sqid) q'"
      unfolding sq_shape_def q' by (simp add: word_less_nat_alt lessThan_atLeast0)
    have k: "unat sqid < unat (p_num_io_queues (n_cfg m)) + 1" using i ok by (simp add: queues_ok_def tables_ok_def)
    have "tables_ok (unat (p_num_io_queues (n_cfg m)) + 1) (n_sq n') (n_cq n')"
      unfolding n' upd_sq_def upd_cq_def
      using tables_add_sq [OF queues_tables [OF ok] k _ c refl sh] assms(3) q'(3) V(1) by simp
    then have "queues_ok n'" by (rule queues_okI [OF ok, rotated 2]) (simp_all add: n' upd_sq_def upd_cq_def)
    moreover have "lookup (n_sq n') (unat sqid) = Some q'"
      using i by (simp add: n' upd_sq_def upd_cq_def lookup_list_update)
    ultimately show ?thesis by simp
  qed
  then show "queues_ok n'" "st = 0 \<Longrightarrow> lookup (n_sq n') (unat sqid) \<noteq> None" by blast+
qed

lemma init_cq_ok:
  assumes "nvme_init_cq junk q n a cqid vec sz ien contig = Some (st, n')" "queues_ok n"
    "lookup (n_cq n) (unat cqid) = None" "sz \<noteq> 0"
  shows "queues_ok n'" "st = 0 \<Longrightarrow> lookup (n_cq n') (unat cqid) \<noteq> None" "n_sq n' = n_sq n"
proof -
  from assms(1) obtain m mem where mem: "queue_memory junk n a sz (n_cqe_size n) contig = Some (mem, m)"
    by (auto simp: nvme_init_cq_def split: bind_splits)
  have v: "queue_view m = queue_view n" by (rule queue_memory_view [OF mem])
  note V = queue_view_parts [OF v]
  have ok: "queues_ok m" using queues_ok_view [OF v] assms(2) by simp
  have "queues_ok n' \<and> (st = 0 \<longrightarrow> lookup (n_cq n') (unat cqid) \<noteq> None) \<and> n_sq n' = n_sq n"
  proof (cases mem)
    case None
    then show ?thesis using assms(1) mem ok V by (auto simp: nvme_init_cq_def)
  next
    case (Some ap)
    from assms(1) mem Some obtain q' where i: "unat cqid < length (n_cq m)" and n': "n' = upd_cq m (unat cqid) q'"
      and q': "cq_cqid q' = cqid" "cq_size q' = ucast sz" "cq_tail q' = 0" "cq_phase q' = 1" "cq_sq_list q' = []" "cq_req_list q' = []"
      by (cases ap) (auto simp: nvme_init_cq_def Let_def split: option.splits if_splits)
    have "unat sz \<noteq> 0" using assms(4) by (simp add: unat_eq_0)
    then have sh: "cq_shape (unat cqid) q'" unfolding cq_shape_def q' by (simp add: word_less_nat_alt)
    have k: "unat cqid < unat (p_num_io_queues (n_cfg m)) + 1" using i ok by (simp add: queues_ok_def tables_ok_def)
    have "tables_ok (unat (p_num_io_queues (n_cfg m)) + 1) (n_sq n') (n_cq n')"
      unfolding n' upd_cq_def
      using tables_add_cq [OF queues_tables [OF ok] k _ sh q'(5)] assms(3) V(2) by simp
    then have "queues_ok n'" by (rule queues_okI [OF ok, rotated 2]) (simp_all add: n' upd_cq_def)
    then show ?thesis using i V by (simp add: n' upd_cq_def lookup_list_update)
  qed
  then show "queues_ok n'" "st = 0 \<Longrightarrow> lookup (n_cq n') (unat cqid) \<noteq> None" "n_sq n' = n_sq n" by blast+
qed

text \<open>Changes of a completion queue that no part of the tables depends on.\<close>

lemma cq_flags_ok:
  assumes "queues_ok n" "lookup (n_cq n) c = Some q" "cq_cqid q' = cq_cqid q" "cq_tail q' = cq_tail q" "cq_size q' = cq_size q"
    "cq_phase q' = cq_phase q" "cq_sq_list q' = cq_sq_list q" "cq_req_list q' = cq_req_list q"
  shows "queues_ok (upd_cq n c q')"
  by (rule queues_upd_cq [OF assms(1,2)]) (use queues_cq_shape [OF assms(1,2)] assms(3-) in \<open>simp_all add: cq_shape_def\<close>)

lemma add_route_view: "kvm_irqchip_add_msi_route n v = (i, m) \<Longrightarrow> queue_view m = queue_view n"
  by (auto simp: kvm_irqchip_add_msi_route_def queue_view_def Let_def)

lemma setup_virq_ok:
  assumes "nvme_setup_virq n c = Some (r, n')" "queues_ok n"
  shows "queues_ok n'" "n_sq n' = n_sq n"
proof -
  have add: "queues_ok m \<and> n_sq m = n_sq n" if eq: "nvme_add_kvm_msi_virq n c = Some (x, m)" for x m
  proof (cases "msix_enabled n")
    case True
    with eq obtain q i k where q: "lookup (n_cq n) c = Some q" and k: "kvm_irqchip_add_msi_route n (cq_vector q) = (i, k)"
      and m: "m = upd_cq k c (q\<lparr>cq_guest_notifier := False, cq_virq := i\<rparr>)"
      by (auto simp: nvme_add_kvm_msi_virq_def Let_def split: option.splits prod.splits)
    note V = add_route_view [OF k]
    have "lookup (n_cq k) c = Some q" using q queue_view_parts(2) [OF V] by simp
    then have "queues_ok m"
      unfolding m by (rule cq_flags_ok [rotated]) (use queues_ok_view [OF V] assms(2) in simp_all)
    then show ?thesis using queue_view_parts(1) [OF V] by (simp add: m upd_cq_def)
  next
    case False
    then show ?thesis using eq assms(2) by (auto simp: nvme_add_kvm_msi_virq_def split: option.splits)
  qed
  have v: "queue_view (msix_set_vector_notifiers (m\<lparr>n_vector_poll_started := True\<rparr>)) = queue_view m" for m
    by (rule view_trans [OF _ set_notifiers_view]) (simp add: queue_view_def)
  from assms(1) have "queues_ok n' \<and> n_sq n' = n_sq n"
    using add assms(2) queues_ok_view [OF v] queue_view_parts(1) [OF v]
    unfolding nvme_setup_virq_def by (auto split: option.splits if_splits)
  then show "queues_ok n'" "n_sq n' = n_sq n" by blast+
qed

end
