(* ===== verification/Ctrl_Inv.thy ===== *)
theory Ctrl_Inv
  imports Queue_Inv
begin

text \<open>
  Every access of the host keeps the queue tables well formed: admin commands, doorbells, registers, and a turn of
  the wrapper's main loop.
\<close>

subsection \<open>Interrupts and posting\<close>

lemma notify_io_ok:
  assumes "nvme_isr_notify_io n c = Some n'" "queues_ok n"
  shows "queues_ok n'"
proof (cases "lookup (n_cq n) c")
  case (Some q)
  show ?thesis
  proof (cases "cq_irq_enabled q \<noteq> 0 \<and> cq_virq q \<noteq> 0")
    case True
    then have "n' = upd_cq n c (q\<lparr>cq_guest_notifier := True\<rparr>)" using assms(1) Some by (simp add: nvme_isr_notify_io_def)
    then show ?thesis using cq_flags_ok [OF assms(2) Some] by simp
  next
    case False
    then have "nvme_isr_notify_legacy n c = Some n'" using assms(1) Some by (auto simp: nvme_isr_notify_io_def)
    then show ?thesis using queues_ok_view [OF notify_legacy_view] assms(2) by simp
  qed
qed (use assms(1) in \<open>simp add: nvme_isr_notify_io_def\<close>)

lemma notify_admin_ok: "nvme_isr_notify_admin n c = Some n' \<Longrightarrow> queues_ok n \<Longrightarrow> queues_ok n'"
  using queues_ok_view [OF notify_legacy_view] by (simp add: nvme_isr_notify_admin_def)

lemma poll_vints_ok: "poll_vints vs n = Some n' \<Longrightarrow> queues_ok n \<Longrightarrow> queues_ok n'"
proof (induction vs arbitrary: n)
  case (Cons v vs)
  show ?case
  proof (cases "vi_en v")
    case (Notifier_of c)
    then obtain q where q: "lookup (n_cq n) c = Some q" using Cons.prems(1) by (auto split: option.splits)
    let ?n = "upd_cq n c (q\<lparr>cq_guest_notifier := False\<rparr>)"
    have "queues_ok ?n" by (rule cq_flags_ok [OF Cons.prems(2) q]) simp_all
    then have "queues_ok (msix_notify ?n (vi_vector v))"
      using queues_ok_view [OF send_irq_view] by (simp add: msix_notify_def)
    then show ?thesis using Cons q Notifier_of by (auto split: if_splits)
  qed (use Cons in auto)
qed simp

lemma main_poll_ok: "qemu_main_poll n = Some n' \<Longrightarrow> queues_ok n \<Longrightarrow> queues_ok n'"
  unfolding qemu_main_poll_def by (rule poll_vints_ok)

text \<open>No request ever waits in a completion queue itself.\<close>

lemma post_cqes_none: "lookup (n_cq n) c = Some q \<Longrightarrow> cq_req_list q = [] \<Longrightarrow> nvme_post_cqes_io rt c n = Some n"
  by (simp add: nvme_post_cqes_io_def)

subsection \<open>Deleting and creating queues\<close>

lemma linked_cq:
  assumes "queues_ok n" "lookup (n_sq n) i = Some q"
  obtains c where "lookup (n_cq n) (unat (sq_cqid q)) = Some c" "i \<in> set (cq_sq_list c)"
proof -
  have "cqid_of (n_sq n) i = Some (unat (sq_cqid q))" using assms(2) by (simp add: cqid_of_def)
  then have "i \<in> sqs_of (n_cq n) (unat (sq_cqid q))" using assms(1) by (simp add: queues_ok_def tables_ok_def linked_def)
  then show thesis using that by (auto simp: sqs_of_def split: option.splits)
qed

lemma table_index:
  assumes "queues_ok n"
  shows "lookup (n_sq n) i = Some q \<Longrightarrow> i < unat (p_num_io_queues (n_cfg n)) + 1"
    "lookup (n_cq n) c = Some cq \<Longrightarrow> c < unat (p_num_io_queues (n_cfg n)) + 1"
  using assms lookup_less by (fastforce simp: queues_ok_def tables_ok_def)+

lemma check_cqid_lookup:
  assumes "queues_ok n"
  shows "nvme_check_cqid n q \<longleftrightarrow> lookup (n_cq n) (unat q) \<noteq> None"
  using table_index(2) [OF assms, of "unat q"] by (auto simp: nvme_check_cqid_def word_le_nat_alt)

lemma check_sqid_lookup:
  assumes "queues_ok n"
  shows "nvme_check_sqid n q \<longleftrightarrow> lookup (n_sq n) (unat q) \<noteq> None"
  using table_index(1) [OF assms, of "unat q"] by (auto simp: nvme_check_sqid_def word_le_nat_alt)


lemma free_sq_tables: "nvme_free_sq i n = Some n' \<Longrightarrow> n_sq n' = (n_sq n)[i := None] \<and> n_cq n' = n_cq n \<and>
    n_cfg n' = n_cfg n \<and> n_bar n' = n_bar n \<and> n_to_ftl n' = n_to_ftl n \<and> n_ssd n' = n_ssd n"
  by (auto simp: nvme_free_sq_def split: option.splits)

lemma free_cq_tables: "nvme_free_cq c n = Some n' \<Longrightarrow> n_cq n' = (n_cq n)[c := None] \<and> n_sq n' = n_sq n \<and>
    n_cfg n' = n_cfg n \<and> n_bar n' = n_bar n"
  by (auto simp: nvme_free_cq_def split: option.splits if_splits)

lemma del_sq_effect:
  assumes "nvme_del_sq env n cmd = Some (st, n')" "queues_ok n"
  obtains "n' = n" "st \<noteq> 0"
  | q c where "delq_qid (delq_of_cmd cmd) \<noteq> 0" "lookup (n_sq n) (unat (delq_qid (delq_of_cmd cmd))) = Some q"
      "lookup (n_cq n) (unat (sq_cqid q)) = Some c"
      "n_sq n' = (n_sq n)[unat (delq_qid (delq_of_cmd cmd)) := None]"
      "n_cq n' = (n_cq n)[unat (sq_cqid q) := Some (c\<lparr>cq_sq_list := remove1 (unat (delq_qid (delq_of_cmd cmd))) (cq_sq_list c)\<rparr>)]"
      "n_cfg n' = n_cfg n" "n_bar n' = n_bar n" "n_to_ftl n' = n_to_ftl n" "n_ssd n' = n_ssd n" "st = 0"
proof -
  define qid where "qid = delq_qid (delq_of_cmd cmd)"
  let ?i = "unat qid"
  show thesis
  proof (cases "qid = 0 \<or> \<not> nvme_check_sqid n qid")
    case True
    then have "n' = n" "st = dnr NVME_INVALID_QID" using assms by (auto simp: nvme_del_sq_def Let_def qid_def answer_def)
    then show thesis using that(1) by simp
  next
    case False
    then obtain q where q: "lookup (n_sq n) ?i = Some q" by (auto simp: nvme_check_sqid_def)
    obtain c where c: "lookup (n_cq n) (unat (sq_cqid q)) = Some c" using linked_cq [OF assms(2) q] by blast
    have i: "?i < length (n_sq n)" and cl: "unat (sq_cqid q) < length (n_cq n)" by (rule lookup_less [OF q], rule lookup_less [OF c])
    have e: "cq_req_list c = []" using queues_cq_shape [OF assms(2) c] by (simp add: cq_shape_def)
    let ?c = "unat (sq_cqid q)" and ?cq = "c\<lparr>cq_sq_list := remove1 ?i (cq_sq_list c)\<rparr>" and ?q = "q\<lparr>sq_is_active := False\<rparr>"
    let ?m = "upd_cq (upd_sq n ?i ?q) ?c ?cq"
    have chk: "nvme_check_cqid (upd_sq n ?i ?q) (sq_cqid q)"
      using check_cqid_lookup [OF assms(2), of "sq_cqid q"] c by (simp add: nvme_check_cqid_def upd_sq_def)
    have lc: "lookup (n_cq ?m) ?c = Some ?cq" using cl by (simp add: upd_cq_def upd_sq_def lookup_list_update)
    have post: "nvme_post_cqes_io rt ?c ?m = Some ?m" for rt by (rule post_cqes_none [OF lc]) (simp add: e)
    have lq: "lookup (n_sq ?m) ?i = Some ?q" using i by (simp add: upd_cq_def upd_sq_def lookup_list_update)
    have lc0: "lookup (n_cq (upd_sq n ?i ?q)) ?c = Some c" by (simp add: upd_sq_def c)
    have "nvme_del_sq env n cmd =
        (if sq_is_active q then nvme_free_sq ?i (upd_sq (upd_cq ?m ?c (?cq\<lparr>cq_req_list := []\<rparr>)) ?i (?q\<lparr>sq_req_list := sq_req_list q\<rparr>)) \<bind> success else None)"
      unfolding nvme_del_sq_def Let_def qid_def [symmetric]
      using False by (simp add: q chk lc0 post lc lq e)
    then have st: "st = 0" and free: "nvme_free_sq ?i (upd_sq (upd_cq ?m ?c (?cq\<lparr>cq_req_list := []\<rparr>)) ?i (?q\<lparr>sq_req_list := sq_req_list q\<rparr>)) = Some n'"
      using assms(1) by (simp_all add: success_def split: if_splits bind_splits)
    note F = free_sq_tables [OF free]
    have same: "?cq\<lparr>cq_req_list := []\<rparr> = ?cq" using e by (cases c) simp
    have "n_sq n' = (n_sq n)[?i := None]" "n_cq n' = (n_cq n)[?c := Some ?cq]" "n_cfg n' = n_cfg n" "n_bar n' = n_bar n"
      "n_to_ftl n' = n_to_ftl n" "n_ssd n' = n_ssd n"
      using F same by (simp_all add: upd_sq_def upd_cq_def)
    moreover have "qid \<noteq> 0" using False by simp
    ultimately show thesis using that(2) q c st by (simp add: qid_def)
  qed
qed

lemma del_sq_ok:
  assumes "nvme_del_sq env n cmd = Some (st, n')" "queues_ok n"
  shows "queues_ok n'"
  by (rule del_sq_effect [OF assms])
    (use assms(2) tables_remove_sq [OF queues_tables [OF assms(2)]] in \<open>simp_all add: queues_okI [OF assms(2)]\<close>)

lemma del_cq_ok:
  assumes "nvme_del_cq n cmd = Some (st, n')" "queues_ok n"
  shows "queues_ok n'"
proof -
  define qid where "qid = delq_qid (delq_of_cmd cmd)"
  let ?i = "unat qid"
  show ?thesis
  proof (cases "qid = 0 \<or> \<not> nvme_check_cqid n qid")
    case True
    then show ?thesis using assms by (auto simp: nvme_del_cq_def Let_def qid_def answer_def)
  next
    case False
    then obtain q where q: "lookup (n_cq n) ?i = Some q" by (auto simp: nvme_check_cqid_def)
    let ?m = "upd_cq n ?i (q\<lparr>cq_is_active := False\<rparr>)"
    have m: "queues_ok ?m" by (rule cq_flags_ok [OF assms(2) q]) simp_all
    have l: "lookup (n_cq ?m) ?i = Some (q\<lparr>cq_is_active := False\<rparr>)"
      using lookup_less [OF q] by (simp add: upd_cq_def lookup_list_update)
    show ?thesis
    proof (cases "cq_sq_list q = []")
      case True
      then have "nvme_free_cq ?i ?m = Some n'"
        using assms(1) False q by (auto simp: nvme_del_cq_def Let_def qid_def [symmetric] success_def split: if_splits bind_splits)
      note F = free_cq_tables [OF this]
      show ?thesis
        using queues_okI [OF m, of n'] tables_remove_cq [OF queues_tables [OF m] l] True F by simp
    next
      case notempty: False
      then have "n' = ?m"
        using assms(1) False q by (auto simp: nvme_del_cq_def Let_def qid_def [symmetric] split: if_splits)
      then show ?thesis using m by simp
    qed
  qed
qed

lemma qsize_suc: "qsize \<noteq> 0 \<Longrightarrow> ucast qsize \<le> NVME_CAP_MQES cap \<Longrightarrow> NVME_CAP_MQES cap < 65535 \<Longrightarrow> qsize + 1 \<noteq> (0 :: u16)"
proof -
  assume "ucast qsize \<le> NVME_CAP_MQES cap" "NVME_CAP_MQES cap < 65535"
  then have "unat qsize < 65535" by (auto simp: word_le_nat_alt word_less_nat_alt)
  then show "qsize + 1 \<noteq> 0" by (auto simp: word_eq_iff_unsigned simp flip: unat_eq_0 simp: unat_word_ariths)
qed


lemma create_sq_steps:
  assumes "nvme_create_sq env n cmd = Some (st, n')"
  obtains "n' = n" "st \<noteq> 0"
  | r m where "csq_sqid (csq_of_cmd cmd) \<noteq> 0" "\<not> nvme_check_sqid n (csq_sqid (csq_of_cmd cmd))"
      "csq_qsize (csq_of_cmd cmd) \<noteq> 0" "ucast (csq_qsize (csq_of_cmd cmd)) \<le> NVME_CAP_MQES (bar_cap (n_bar n))"
      "nvme_init_sq (env_stack env) zero_sq n (csq_prp1 (csq_of_cmd cmd)) (csq_sqid (csq_of_cmd cmd)) (csq_cqid (csq_of_cmd cmd))
         (csq_qsize (csq_of_cmd cmd) + 1) (queue_prio (NVME_SQ_FLAGS_QPRIO (csq_sq_flags (csq_of_cmd cmd))))
         (NVME_SQ_FLAGS_PC (csq_sq_flags (csq_of_cmd cmd)) \<noteq> 0) = Some (r, m)"
      "n' = m \<and> r \<noteq> 0 \<or> r = 0 \<and> (\<exists>q. lookup (n_sq m) (unat (csq_sqid (csq_of_cmd cmd))) = Some q \<and>
         n' = upd_sq m (unat (csq_sqid (csq_of_cmd cmd))) (q\<lparr>sq_is_active := True\<rparr>))"
proof -
  define sqid qsize cqid a flags where "sqid = csq_sqid (csq_of_cmd cmd)" "qsize = csq_qsize (csq_of_cmd cmd)"
    "cqid = csq_cqid (csq_of_cmd cmd)" "a = csq_prp1 (csq_of_cmd cmd)" "flags = csq_sq_flags (csq_of_cmd cmd)"
  note D = this
  let ?init = "nvme_init_sq (env_stack env) zero_sq n a sqid cqid (qsize + 1) (queue_prio (NVME_SQ_FLAGS_QPRIO flags))
    (NVME_SQ_FLAGS_PC flags \<noteq> 0)"
  show thesis
  proof (cases "n' = n \<and> st \<noteq> 0")
    case False
    with assms obtain r m where chk: "sqid \<noteq> 0" "\<not> nvme_check_sqid n sqid" "qsize \<noteq> 0" "ucast qsize \<le> NVME_CAP_MQES (bar_cap (n_bar n))"
      and init: "?init = Some (r, m)"
      and n': "(if r \<noteq> 0 then answer NVME_INVALID_FIELD m
        else lookup (n_sq m) (unat sqid) \<bind> (\<lambda>sq. if sq_is_active sq then None else
          success (upd_sq m (unat sqid) (sq\<lparr>sq_is_active := True\<rparr>)))) = Some (st, n')"
      unfolding nvme_create_sq_def Let_def D [symmetric] answer_def by (simp split: if_splits bind_splits) (auto simp: not_less)
    have "n' = m \<and> r \<noteq> 0 \<or> r = 0 \<and> (\<exists>q. lookup (n_sq m) (unat sqid) = Some q \<and> n' = upd_sq m (unat sqid) (q\<lparr>sq_is_active := True\<rparr>))"
      using n' by (auto simp: answer_def success_def split: bind_splits if_splits)
    then show thesis using that(2) chk init unfolding D by blast
  qed (use that(1) in blast)
qed

lemma create_sq_ok:
  assumes "nvme_create_sq env n cmd = Some (st, n')" "queues_ok n"
  shows "queues_ok n'"
proof (rule create_sq_steps [OF assms(1)])
  fix r m
  let ?s = "csq_sqid (csq_of_cmd cmd)" and ?k = "csq_qsize (csq_of_cmd cmd)"
  assume chk: "\<not> nvme_check_sqid n ?s" "?k \<noteq> 0" "ucast ?k \<le> NVME_CAP_MQES (bar_cap (n_bar n))"
    and init: "nvme_init_sq (env_stack env) zero_sq n (csq_prp1 (csq_of_cmd cmd)) ?s (csq_cqid (csq_of_cmd cmd))
      (?k + 1) (queue_prio (NVME_SQ_FLAGS_QPRIO (csq_sq_flags (csq_of_cmd cmd)))) (NVME_SQ_FLAGS_PC (csq_sq_flags (csq_of_cmd cmd)) \<noteq> 0) = Some (r, m)"
    and n': "n' = m \<and> r \<noteq> 0 \<or> r = 0 \<and> (\<exists>q. lookup (n_sq m) (unat ?s) = Some q \<and> n' = upd_sq m (unat ?s) (q\<lparr>sq_is_active := True\<rparr>))"
  have m: "queues_ok m"
    by (rule init_sq_ok [OF init assms(2)])
       (use chk check_sqid_lookup [OF assms(2)] qsize_suc [OF chk(2,3)] assms(2) in \<open>auto simp: queues_ok_def\<close>)
  have "queues_ok (upd_sq m (unat ?s) (q\<lparr>sq_is_active := True\<rparr>))" if q: "lookup (n_sq m) (unat ?s) = Some q" for q
    by (rule queues_upd_sq [OF m q]) (use queues_sq_shape [OF m q] in \<open>simp_all add: sq_shape_def\<close>)
  then show ?thesis using n' m by blast
qed (use assms(2) in simp)

lemma create_cq_steps:
  assumes "nvme_create_cq env n cmd = Some (st, n')" "queues_ok n"
  obtains "n' = n" "st \<noteq> 0"
  | r m where "ccq_cqid (ccq_of_cmd cmd) \<noteq> 0" "lookup (n_cq n) (unat (ccq_cqid (ccq_of_cmd cmd))) = None"
      "ccq_qsize (ccq_of_cmd cmd) \<noteq> 0" "ucast (ccq_qsize (ccq_of_cmd cmd)) \<le> NVME_CAP_MQES (bar_cap (n_bar n))"
      "nvme_init_cq (env_stack env) zero_cq n (ccq_prp1 (ccq_of_cmd cmd)) (ccq_cqid (ccq_of_cmd cmd)) (ccq_irq_vector (ccq_of_cmd cmd))
         (ccq_qsize (ccq_of_cmd cmd) + 1) (NVME_CQ_FLAGS_IEN (ccq_cq_flags (ccq_of_cmd cmd)))
         (NVME_CQ_FLAGS_PC (ccq_cq_flags (ccq_of_cmd cmd)) \<noteq> 0) = Some (r, m)"
      "n' = m \<and> r \<noteq> 0 \<or> r = 0 \<and> (\<exists>x k q. nvme_setup_virq m (unat (ccq_cqid (ccq_of_cmd cmd))) = Some (x, k) \<and>
         lookup (n_cq k) (unat (ccq_cqid (ccq_of_cmd cmd))) = Some q \<and>
         n' = upd_cq k (unat (ccq_cqid (ccq_of_cmd cmd))) (q\<lparr>cq_is_active := True\<rparr>))"
proof -
  define cqid qsize a flags v where "cqid = ccq_cqid (ccq_of_cmd cmd)" "qsize = ccq_qsize (ccq_of_cmd cmd)"
    "a = ccq_prp1 (ccq_of_cmd cmd)" "flags = ccq_cq_flags (ccq_of_cmd cmd)" "v = ccq_irq_vector (ccq_of_cmd cmd)"
  note D = this
  let ?init = "\<lambda>n. nvme_init_cq (env_stack env) zero_cq n a cqid v (qsize + 1) (NVME_CQ_FLAGS_IEN flags)
    (NVME_CQ_FLAGS_PC flags \<noteq> 0)"
  show thesis
  proof (cases "n' = n \<and> st \<noteq> 0")
    case False
    with assms(1) obtain n0 r m where chk: "cqid \<noteq> 0" "\<not> nvme_check_cqid n cqid" "qsize \<noteq> 0" "ucast qsize \<le> NVME_CAP_MQES (bar_cap (n_bar n))"
      and n0: "(if lookup (n_cq n) (unat cqid) \<noteq> None then nvme_free_cq (unat cqid) n else Some n) = Some n0"
      and init: "?init n0 = Some (r, m)"
      and n': "(if r \<noteq> 0 then answer NVME_INVALID_FIELD m
        else nvme_setup_virq m (unat cqid) \<bind> (\<lambda>(x, m). lookup (n_cq m) (unat cqid) \<bind> (\<lambda>cq. if cq_is_active cq then None else
          success (upd_cq m (unat cqid) (cq\<lparr>cq_is_active := True\<rparr>))))) = Some (st, n')"
      unfolding nvme_create_cq_def Let_def D [symmetric] answer_def by (simp split: if_splits bind_splits) (auto simp: not_less)
    have none: "lookup (n_cq n) (unat cqid) = None" using chk(2) check_cqid_lookup [OF assms(2)] by simp
    then have "n0 = n" using n0 by simp
    moreover have "n' = m \<and> r \<noteq> 0 \<or> r = 0 \<and> (\<exists>x k q. nvme_setup_virq m (unat cqid) = Some (x, k) \<and>
        lookup (n_cq k) (unat cqid) = Some q \<and> n' = upd_cq k (unat cqid) (q\<lparr>cq_is_active := True\<rparr>))"
      using n' by (auto simp: answer_def success_def split: bind_splits if_splits)
    ultimately show thesis using that(2) none chk(1,3,4) init unfolding D by blast
  qed (use that(1) in blast)
qed

lemma create_cq_ok:
  assumes "nvme_create_cq env n cmd = Some (st, n')" "queues_ok n"
  shows "queues_ok n'"
proof (rule create_cq_steps [OF assms])
  fix r m
  let ?c = "ccq_cqid (ccq_of_cmd cmd)" and ?k = "ccq_qsize (ccq_of_cmd cmd)"
  assume chk: "lookup (n_cq n) (unat ?c) = None" "?k \<noteq> 0" "ucast ?k \<le> NVME_CAP_MQES (bar_cap (n_bar n))"
    and init: "nvme_init_cq (env_stack env) zero_cq n (ccq_prp1 (ccq_of_cmd cmd)) ?c (ccq_irq_vector (ccq_of_cmd cmd))
         (?k + 1) (NVME_CQ_FLAGS_IEN (ccq_cq_flags (ccq_of_cmd cmd))) (NVME_CQ_FLAGS_PC (ccq_cq_flags (ccq_of_cmd cmd)) \<noteq> 0) = Some (r, m)"
    and n': "n' = m \<and> r \<noteq> 0 \<or> r = 0 \<and> (\<exists>x k q. nvme_setup_virq m (unat ?c) = Some (x, k) \<and>
         lookup (n_cq k) (unat ?c) = Some q \<and> n' = upd_cq k (unat ?c) (q\<lparr>cq_is_active := True\<rparr>))"
  have m: "queues_ok m"
    by (rule init_cq_ok [OF init assms(2) chk(1)]) (use qsize_suc [OF chk(2,3)] assms(2) in \<open>auto simp: queues_ok_def\<close>)
  have "queues_ok (upd_cq k (unat ?c) (q\<lparr>cq_is_active := True\<rparr>))"
    if "nvme_setup_virq m (unat ?c) = Some (x, k)" "lookup (n_cq k) (unat ?c) = Some q" for x k q
    by (rule cq_flags_ok [OF setup_virq_ok(1) [OF that(1) m] that(2)]) simp_all
  then show ?thesis using n' m by blast
qed (use assms(2) in simp)

lemma set_db_queue_ok: "queues_ok n \<Longrightarrow> queues_ok (set_db_queue dbs eis n i)"
proof -
  assume ok: "queues_ok n"
  define m where "m = (case lookup (n_sq n) i of None \<Rightarrow> n
     | Some sq \<Rightarrow> upd_sq n i (sq\<lparr>sq_db_addr := dbs + dbbuf_offset n (2 * i), sq_eventidx_addr := eis + dbbuf_offset n (2 * i)\<rparr>))"
  have m: "queues_ok m"
  proof (cases "lookup (n_sq n) i")
    case (Some q)
    show ?thesis unfolding m_def Some option.case
      by (rule queues_upd_sq [OF ok Some]) (use queues_sq_shape [OF ok Some] in \<open>simp_all add: sq_shape_def\<close>)
  qed (use ok in \<open>simp add: m_def\<close>)
  have "set_db_queue dbs eis n i = (case lookup (n_cq m) i of None \<Rightarrow> m
     | Some cq \<Rightarrow> upd_cq m i (cq\<lparr>cq_db_addr := dbs + dbbuf_offset m (2 * i + 1), cq_eventidx_addr := eis + dbbuf_offset m (2 * i + 1)\<rparr>))"
    unfolding set_db_queue_def Let_def m_def [symmetric] by (rule refl)
  then show ?thesis using m cq_flags_ok [OF m] by (cases "lookup (n_cq m) i") simp_all
qed

lemma start_poller_view:
  assumes "(if n_poller_on m then Some m else map_option (\<lambda>n. n\<lparr>n_poller_on := True\<rparr>) (nvme_create_poller a m)) = Some k"
  shows "queue_view k = queue_view m"
proof (cases "n_poller_on m")
  case False
  with assms obtain j where j: "nvme_create_poller a m = Some j" "k = j\<lparr>n_poller_on := True\<rparr>" by auto
  have "queue_view k = queue_view j" unfolding j(2) by (simp add: queue_view_def)
  also have "\<dots> = queue_view m" by (rule create_poller_view [OF j(1)])
  finally show ?thesis .
qed (use assms in simp)

lemma set_db_memory_ok:
  assumes "nvme_set_db_memory env n cmd = Some (st, n')" "queues_ok n"
  shows "queues_ok n'"
proof (cases "n' = n")
  case False
  have fold: "queues_ok m \<Longrightarrow> queues_ok (foldl (set_db_queue d e) m xs)" for d e m xs
    by (induction xs arbitrary: m) (simp_all add: set_db_queue_ok)
  let ?m = "foldl (set_db_queue (cmd_prp1 cmd) (cmd_prp2 cmd)) (n\<lparr>n_dbs_addr := cmd_prp1 cmd, n_eis_addr := cmd_prp2 cmd\<rparr>)
              [1..<unat (p_num_io_queues (n_cfg n)) + 1]"
  have m: "queues_ok ?m"
    by (rule fold) (use queues_ok_view [of "n\<lparr>n_dbs_addr := cmd_prp1 cmd, n_eis_addr := cmd_prp2 cmd\<rparr>" n] assms(2) in \<open>simp add: queue_view_def\<close>)
  from assms(1) False obtain k where
    k: "(if n_poller_on ?m then Some ?m else map_option (\<lambda>n. n\<lparr>n_poller_on := True\<rparr>) (nvme_create_poller (env_alloc env) ?m)) = Some k"
    and n': "n' = k\<lparr>n_dataplane_started := True\<rparr>"
    unfolding nvme_set_db_memory_def Let_def answer_def success_def by (simp split: if_splits bind_splits)
  have "queue_view n' = queue_view k" unfolding n' by (simp add: queue_view_def)
  also have "\<dots> = queue_view ?m" by (rule start_poller_view [OF k])
  finally have "queues_ok n' = queues_ok ?m" by (rule queues_ok_view)
  then show ?thesis using m by simp
qed (use assms(2) in simp)


subsection \<open>Identify, features, logs, format\<close>

lemma identify_views:
  "nvme_identify_ns n cmd = Some (st, n') \<Longrightarrow> queue_view n' = queue_view n"
  "nvme_identify_ns_csi n cmd = Some (st, n') \<Longrightarrow> queue_view n' = queue_view n"
  "nvme_identify_ctrl n cmd = Some (st, n') \<Longrightarrow> queue_view n' = queue_view n"
  "nvme_identify_ctrl_csi n cmd = Some (st, n') \<Longrightarrow> queue_view n' = queue_view n"
  "nvme_identify_nslist n cmd = Some (st, n') \<Longrightarrow> queue_view n' = queue_view n"
  "nvme_identify_nslist_csi n cmd = Some (st, n') \<Longrightarrow> queue_view n' = queue_view n"
  "nvme_identify_ns_descr_list n cmd = Some (st, n') \<Longrightarrow> queue_view n' = queue_view n"
  "nvme_identify_cmd_set n cmd = Some (st, n') \<Longrightarrow> queue_view n' = queue_view n"
  by (auto simp: nvme_identify_ns_def nvme_identify_ns_csi_def nvme_identify_ctrl_def nvme_identify_ctrl_csi_def
      nvme_identify_nslist_def nvme_identify_nslist_csi_def nvme_identify_ns_descr_list_def nvme_identify_cmd_set_def
      nvme_rpt_empty_id_struct_def Let_def split: if_splits option.splits dest: send_data_view answer_view)

lemma identify_view: "nvme_identify n cmd = Some (st, n') \<Longrightarrow> queue_view n' = queue_view n"
  unfolding nvme_identify_def Let_def
  by (auto split: if_splits dest: identify_views answer_view)

lemma with_cqe_view: "with_cqe cqe r = Some (st, cqe', n') \<Longrightarrow> r = Some (st, n') \<and> cqe' = cqe"
  by (auto simp: with_cqe_def)

lemma upd_features_view [simp]: "queue_view (upd_features g n) = queue_view n"
  by (simp add: upd_features_def queue_view_def)

lemma temp_thresh_view [simp]: "queue_view (set_temp_thresh v n) = queue_view n"
  by (simp add: set_temp_thresh_def Let_def upd_features_def queue_view_def)

lemma get_feature_view: "nvme_get_feature n cmd cqe = Some (st, cqe', n') \<Longrightarrow> queue_view n' = queue_view n"
  unfolding nvme_get_feature_def Let_def
  by (auto split: if_splits dest!: with_cqe_view dest: send_data_view answer_view)

lemma set_feature_view: "nvme_set_feature n cmd cqe = Some (st, cqe', n') \<Longrightarrow> queue_view n' = queue_view n"
  unfolding nvme_set_feature_def Let_def
  by (auto split: if_splits dest!: with_cqe_view dest: answer_view)

lemma clear_aer_view [simp]: "queue_view (clear_aer t n) = queue_view n"
  by (simp add: clear_aer_def queue_view_def)

text \<open>The open-channel modes are parameters; they answer without touching queues or configuration.\<close>

definition oc_keeps_queues :: "admin_env \<Rightarrow> bool" where
  "oc_keeps_queues env \<longleftrightarrow> (\<forall>n cmd st n'.
     env_admin env n cmd = Some (st, n') \<or> env_get_log env n cmd = Some (st, n') \<longrightarrow> queue_view n' = queue_view n)"

lemma get_log_view:
  "nvme_get_log env n cmd = Some (st, n') \<Longrightarrow> oc_keeps_queues env \<Longrightarrow> queue_view n' = queue_view n"
  unfolding nvme_get_log_def Let_def
  by (auto simp: nvme_error_log_info_def nvme_smart_info_def nvme_fw_log_info_def nvme_cmd_effects_def Let_def oc_keeps_queues_def
      split: if_splits dest!: send_data_view answer_view)

lemma format_namespace_view: "nvme_format_namespace n i a b c d = Some (st, n') \<Longrightarrow> queue_view n' = queue_view n"
  unfolding nvme_format_namespace_def Let_def
  by (auto simp: success_def split: if_splits bind_splits dest: answer_view)

lemma format_all_view: "format_all xs a b c d n = Some (st, n') \<Longrightarrow> queue_view n' = queue_view n"
proof (induction xs arbitrary: n)
  case (Cons i xs)
  then obtain s m where m: "nvme_format_namespace n i a b c d = Some (s, m)" by (auto split: bind_splits)
  note v = format_namespace_view [OF m]
  from Cons.prems m have "m = n' \<or> format_all xs a b c d m = Some (st, n')" by (auto split: if_splits)
  then show ?case using Cons.IH v by auto
qed (simp add: success_def)

lemma format_view: "nvme_format n cmd = Some (st, n') \<Longrightarrow> queue_view n' = queue_view n"
  unfolding nvme_format_def Let_def
  by (auto split: if_splits dest: format_all_view format_namespace_view answer_view)

lemma ext_admin_view:
  "ext_admin_cmd env n cmd = Some (st, n') \<Longrightarrow> oc_keeps_queues env \<Longrightarrow> queue_view n' = queue_view n"
  by (auto simp: ext_admin_cmd_def bb_admin_cmd_def zns_admin_cmd_def bb_flip_def upd_ssdparams_def Let_def success_def
      oc_keeps_queues_def queue_view_def answer_def split: if_splits bind_splits)

subsection \<open>Abort\<close>

lemma queues_upd_req: "queues_ok n \<Longrightarrow> queues_ok (upd_req n r x)"
proof (cases "lookup (n_sq n) (fst r)")
  case (Some q)
  assume ok: "queues_ok n"
  have "queues_ok (upd_sq n (fst r) (q\<lparr>sq_io_req := (sq_io_req q)[snd r := x]\<rparr>))"
    by (rule queues_upd_sq [OF ok Some]) (use queues_sq_shape [OF ok Some] in \<open>simp_all add: sq_shape_def\<close>)
  then show ?thesis by (simp add: upd_req_def upd_sq_def set_req_def Some)
qed (simp add: upd_req_def set_req_def)

lemma abort_loop_ok: "abort_loop k index n i cid = Some (r, n') \<Longrightarrow> queues_ok n \<Longrightarrow> queues_ok n'"
proof (induction k arbitrary: index)
  case (Suc k)
  from Suc.prems(1) obtain q where q: "lookup (n_sq n) i = Some q" by (auto split: bind_splits)
  show ?case
  proof (cases "n' = n \<or> abort_loop k (index + 1) n i cid = Some (r, n')")
    case False
    with Suc.prems(1) q obtain x xs y a bs where x: "sq_req_list q = x # xs"
      and n': "n' = addr_write (upd_req (upd_sq n i (q\<lparr>sq_req_list := xs, sq_out_req_list := sq_out_req_list q @ [x]\<rparr>)) (i, x) y) a bs"
      by (auto simp: Let_def split: if_splits bind_splits list.splits)
    have "queues_ok (upd_sq n i (q\<lparr>sq_req_list := xs, sq_out_req_list := sq_out_req_list q @ [x]\<rparr>))"
      by (rule queues_upd_sq [OF Suc.prems(2) q]) (use queues_sq_shape [OF Suc.prems(2) q] x in \<open>auto simp: sq_shape_def\<close>)
    from queues_upd_req [OF this] have "queues_ok (upd_req (upd_sq n i (q\<lparr>sq_req_list := xs, sq_out_req_list := sq_out_req_list q @ [x]\<rparr>)) (i, x) y)" .
    then show ?thesis unfolding n' using queues_ok_view [OF addr_write_queue_view] by blast
  qed (use Suc in auto)
qed simp

lemma abort_ok: "nvme_abort_req n cmd = Some (st, r, n') \<Longrightarrow> queues_ok n \<Longrightarrow> queues_ok n'"
  by (auto simp: nvme_abort_req_def Let_def split: if_splits dest: abort_loop_ok)


subsection \<open>The admin queue and the doorbells\<close>

lemma set_latencies_view [simp]: "queue_view (set_latencies n cmd) = queue_view n"
  by (simp add: set_latencies_def queue_view_def)

lemma kept_by_view: "queue_view n' = queue_view n \<Longrightarrow> queues_ok n \<Longrightarrow> queues_ok n'"
  using queues_ok_view by blast

lemma admin_cmd_ok:
  assumes "nvme_admin_cmd env n cmd cqe = Some (st, cqe', n')" "queues_ok n" "oc_keeps_queues env"
  shows "queues_ok n'"
  using assms unfolding nvme_admin_cmd_def Let_def
  by (auto simp: success_def split: if_splits dest!: with_cqe_view
      dest: del_sq_ok create_sq_ok del_cq_ok create_cq_ok set_db_memory_ok abort_ok kept_by_view [OF identify_view]
        kept_by_view [OF set_feature_view] kept_by_view [OF get_feature_view] kept_by_view [OF get_log_view]
        kept_by_view [OF format_view] kept_by_view [OF ext_admin_view] answer_view intro: kept_by_view [OF set_latencies_view])

lemma inc_head_shape: "nvme_inc_sq_head q = Some q' \<Longrightarrow> sq_shape i q \<Longrightarrow> sq_shape i q' \<and> sq_cqid q' = sq_cqid q"
  by (auto simp: nvme_inc_sq_head_def sq_shape_def word_mod_less_divisor word_gt_0 split: if_splits)

lemma inc_tail_shape: "cq_shape c q \<Longrightarrow> cq_shape c (nvme_inc_cq_tail q)"
  by (auto simp: nvme_inc_cq_tail_def cq_shape_def Let_def not_le word_gt_0)

lemma process_one_admin_ok:
  assumes "process_one_admin env i n = Some n'" "queues_ok n" "oc_keeps_queues env"
  shows "queues_ok n'"
proof -
  from assms(1) obtain q addr q' st cqe m p c addr' cqe' where q: "lookup (n_sq n) i = Some q" "nvme_inc_sq_head q = Some q'"
    and m: "nvme_admin_cmd env (upd_sq n i q') (cmd_of_bytes (addr_read n addr 64)) zero_cqe = Some (st, cqe, m)"
    and p: "lookup (n_sq m) i = Some p" "lookup (n_cq m) (unat (sq_cqid p)) = Some c"
    and n': "nvme_isr_notify_admin (upd_cq (addr_write m addr' (cqe_bytes cqe')) (unat (sq_cqid p)) (nvme_inc_cq_tail c))
      (unat (sq_cqid p)) = Some n'"
    unfolding process_one_admin_def Let_def by (auto split: bind_splits)
  have "queues_ok (upd_sq n i q')"
    using queues_upd_sq [OF assms(2) q(1)] inc_head_shape [OF q(2) queues_sq_shape [OF assms(2) q(1)]] by simp
  then have m': "queues_ok m" by (rule admin_cmd_ok [OF m _ assms(3)])
  let ?k = "addr_write m addr' (cqe_bytes cqe')"
  have k: "queues_ok ?k" by (rule kept_by_view [OF addr_write_queue_view m'])
  have lk: "lookup (n_cq ?k) (unat (sq_cqid p)) = Some c" using p(2) queue_view_parts(2) [OF addr_write_queue_view] by simp
  have "queues_ok (upd_cq ?k (unat (sq_cqid p)) (nvme_inc_cq_tail c))"
    by (rule queues_upd_cq [OF k lk _ inc_tail_shape [OF queues_cq_shape [OF k lk]]]) (simp add: nvme_inc_cq_tail_def Let_def)
  then show ?thesis by (rule notify_admin_ok [OF n'])
qed

lemma process_admin_loop_ok:
  "process_admin_loop k env i n = Some n' \<Longrightarrow> queues_ok n \<Longrightarrow> oc_keeps_queues env \<Longrightarrow> queues_ok n'"
  by (induction k arbitrary: n) (auto split: bind_splits if_splits dest: process_one_admin_ok)

lemma process_sq_admin_ok:
  "nvme_process_sq_admin env i n = Some n' \<Longrightarrow> queues_ok n \<Longrightarrow> oc_keeps_queues env \<Longrightarrow> queues_ok n'"
  by (auto simp: nvme_process_sq_admin_def split: bind_splits dest: process_admin_loop_ok)

lemma db_admin_ok:
  assumes "nvme_process_db_admin env n addr val = Some n'" "queues_ok n" "oc_keeps_queues env"
  shows "queues_ok n'"
proof (cases "n' = n")
  case False
  show ?thesis
  proof (cases "is_cq_db n addr")
    case True
    let ?i = "unat (cq_db_qid n addr)"
    from assms(1) False True obtain q where q: "lookup (n_cq n) ?i = Some q"
      and n': "nvme_isr_notify_admin (upd_cq n ?i (q\<lparr>cq_head := ucast (ucast val :: u16)\<rparr>)) ?i = Some n'
        \<or> n' = upd_cq n ?i (q\<lparr>cq_head := ucast (ucast val :: u16)\<rparr>)"
      unfolding nvme_process_db_admin_def Let_def by (auto split: if_splits bind_splits)
    have "queues_ok (upd_cq n ?i (q\<lparr>cq_head := ucast (ucast val :: u16)\<rparr>))" by (rule cq_flags_ok [OF assms(2) q]) simp_all
    then show ?thesis using n' notify_admin_ok by blast
  next
    case sq: False
    let ?i = "unat (sq_db_qid n addr)"
    from assms(1) False sq obtain q where q: "lookup (n_sq n) ?i = Some q"
      and n': "nvme_process_sq_admin env ?i (upd_sq n ?i (q\<lparr>sq_tail := ucast (ucast val :: u16)\<rparr>)) = Some n'"
      unfolding nvme_process_db_admin_def Let_def by (auto split: if_splits bind_splits)
    have "queues_ok (upd_sq n ?i (q\<lparr>sq_tail := ucast (ucast val :: u16)\<rparr>))"
      by (rule queues_upd_sq [OF assms(2) q]) (use queues_sq_shape [OF assms(2) q] in \<open>simp_all add: sq_shape_def\<close>)
    then show ?thesis by (rule process_sq_admin_ok [OF n' _ assms(3)])
  qed
qed (use assms(2) in simp)

lemma db_io_ok:
  assumes "nvme_process_db_io n addr val = Some n'" "queues_ok n"
  shows "queues_ok n'"
proof (cases "n' = n")
  case False
  show ?thesis
  proof (cases "is_cq_db n addr")
    case True
    let ?i = "unat (cq_db_qid n addr)"
    let ?u = "\<lambda>q. if cq_db_addr q = 0 then q\<lparr>cq_head := ucast (ucast val :: u16)\<rparr> else q"
    from assms(1) False True obtain q where q: "lookup (n_cq n) ?i = Some q"
      and n': "nvme_isr_notify_io (upd_cq n ?i (?u q)) ?i = Some n' \<or> n' = upd_cq n ?i (?u q)"
      unfolding nvme_process_db_io_def Let_def by (simp split: if_splits bind_splits)
    have "queues_ok (upd_cq n ?i (?u q))" by (rule cq_flags_ok [OF assms(2) q]) simp_all
    then show ?thesis using n' notify_io_ok by blast
  next
    case sq: False
    let ?i = "unat (sq_db_qid n addr)"
    from assms(1) False sq obtain q where q: "lookup (n_sq n) ?i = Some q"
      and n': "n' = upd_sq n ?i (q\<lparr>sq_tail := ucast (ucast val :: u16)\<rparr>)"
      unfolding nvme_process_db_io_def Let_def by (simp split: if_splits bind_splits)
    show ?thesis unfolding n'
      by (rule queues_upd_sq [OF assms(2) q]) (use queues_sq_shape [OF assms(2) q] in \<open>simp_all add: sq_shape_def\<close>)
  qed
qed (use assms(2) in simp)


subsection \<open>Registers\<close>

lemma free_sqs_tables:
  "free_sqs xs n = Some n' \<Longrightarrow> length (n_sq n') = length (n_sq n) \<and> n_cq n' = n_cq n \<and> n_cfg n' = n_cfg n \<and> n_bar n' = n_bar n \<and>
     (\<forall>i. lookup (n_sq n') i = (if i \<in> set xs then None else lookup (n_sq n) i))"
proof (induction xs arbitrary: n)
  case (Cons x xs)
  from Cons.prems obtain m where m: "(if lookup (n_sq n) x \<noteq> None then nvme_free_sq x n else Some n) = Some m" "free_sqs xs m = Some n'"
    by (auto split: bind_splits)
  have "length (n_sq m) = length (n_sq n) \<and> n_cq m = n_cq n \<and> n_cfg m = n_cfg n \<and> n_bar m = n_bar n \<and>
      (\<forall>i. lookup (n_sq m) i = (if i = x then None else lookup (n_sq n) i))"
  proof (cases "lookup (n_sq n) x")
    case (Some q)
    then have f: "nvme_free_sq x n = Some m" using m(1) by simp
    show ?thesis using free_sq_tables [OF f] lookup_less [OF Some] by (auto simp: lookup_list_update)
  qed (use m(1) in auto)
  then show ?case using Cons.IH [OF m(2)] by auto
qed simp

lemma free_cqs_tables:
  "free_cqs xs n = Some n' \<Longrightarrow> length (n_cq n') = length (n_cq n) \<and> n_sq n' = n_sq n \<and> n_cfg n' = n_cfg n \<and> n_bar n' = n_bar n \<and>
     (\<forall>i. lookup (n_cq n') i = (if i \<in> set xs then None else lookup (n_cq n) i))"
proof (induction xs arbitrary: n)
  case (Cons x xs)
  from Cons.prems obtain m where m: "(if lookup (n_cq n) x \<noteq> None then nvme_free_cq x n else Some n) = Some m" "free_cqs xs m = Some n'"
    by (auto split: bind_splits)
  have "length (n_cq m) = length (n_cq n) \<and> n_sq m = n_sq n \<and> n_cfg m = n_cfg n \<and> n_bar m = n_bar n \<and>
      (\<forall>i. lookup (n_cq m) i = (if i = x then None else lookup (n_cq n) i))"
  proof (cases "lookup (n_cq n) x")
    case (Some q)
    then have f: "nvme_free_cq x n = Some m" using m(1) by simp
    show ?thesis using free_cq_tables [OF f] lookup_less [OF Some] by (auto simp: lookup_list_update)
  qed (use m(1) in auto)
  then show ?case using Cons.IH [OF m(2)] by auto
qed simp

lemma clear_virq_view: "nvme_clear_virq n = Some n' \<Longrightarrow> queue_view n' = queue_view n"
proof -
  assume n': "nvme_clear_virq n = Some n'"
  have loop: "clear_guest_loop xs n = Some m \<Longrightarrow> m = n" for xs m by (induction xs) (auto split: option.splits if_splits)
  show ?thesis using n' by (auto simp: nvme_clear_virq_def queue_view_def dest!: loop)
qed

lemma clear_ctrl_ok:
  assumes "nvme_clear_ctrl s n = Some n'" "queues_ok n"
  shows "queues_ok n'" "\<forall>i. lookup (n_sq n') i = None" "\<forall>c. lookup (n_cq n') c = None"
proof -
  let ?xs = "[0..<unat (p_num_io_queues (n_cfg n)) + 1]"
  from assms(1) obtain m k j where m: "(if s then nvme_clear_virq (n\<lparr>n_dataplane_started := False\<rparr>)
      else Some (n\<lparr>n_dataplane_started := False\<rparr>)) = Some m"
    and k: "free_sqs ?xs m = Some k" and j: "free_cqs ?xs k = Some j"
    and n': "n' = j\<lparr>n_bar := (n_bar j)\<lparr>bar_cc := 0\<rparr>, n_features := (n_features j)\<lparr>feat_temp_thresh := 0x14d\<rparr>,
                n_temp_warn_issued := 0, n_dbs_addr := 0, n_eis_addr := 0\<rparr>"
    unfolding nvme_clear_ctrl_def Let_def by (auto split: bind_splits if_splits)
  have "queue_view m = queue_view (n\<lparr>n_dataplane_started := False\<rparr>)"
    using m clear_virq_view by (auto split: if_splits)
  also have "\<dots> = queue_view n" by (simp add: queue_view_def)
  finally have V: "queue_view m = queue_view n" .
  note V = queue_view_parts [OF this] and K = free_sqs_tables [OF k] and J = free_cqs_tables [OF j]
  have len: "length (n_sq n) = unat (p_num_io_queues (n_cfg n)) + 1" "length (n_cq n) = unat (p_num_io_queues (n_cfg n)) + 1"
    using assms(2) by (simp_all add: queues_ok_def tables_ok_def)
  have out: "lookup (n_sq n) i = None \<and> lookup (n_cq n) i = None" if "i \<notin> set ?xs" for i
    using that len by (simp add: lookup_def)
  have none: "lookup (n_sq n') i = None" "lookup (n_cq n') i = None" for i
    using K J V out [of i] unfolding n' by (cases "i \<in> set ?xs"; simp)+
  then show "\<forall>i. lookup (n_sq n') i = None" "\<forall>c. lookup (n_cq n') c = None" by simp_all
  have "tables_ok (unat (p_num_io_queues (n_cfg n)) + 1) (n_sq n') (n_cq n')"
    by (rule tables_empty [OF _ _ none]) (use K J V len n' in simp_all)
  then show "queues_ok n'" by (rule queues_okI [OF assms(2), rotated 2]) (use K J V n' in simp_all)
qed

lemma aqa_size: "x \<noteq> 0 \<Longrightarrow> \<not> 4095 < x \<Longrightarrow> (ucast ((x :: u32) + 1) :: u16) \<noteq> 0"
proof -
  assume "x \<noteq> 0" "\<not> 4095 < x"
  then have "unat x \<le> 4095" by (simp add: word_le_nat_alt not_less)
  then have "unat (ucast (x + 1) :: u16) = unat x + 1" by (simp add: unsigned_ucast_eq take_bit_eq_mod unat_word_ariths)
  then show ?thesis by auto
qed

lemma start_ctrl_ok:
  assumes "nvme_start_ctrl junk n = Some (r, n')" "queues_ok n"
  shows "queues_ok n'"
proof (cases "start_refused n")
  case False
  let ?bar = "n_bar n"
  from assms(1) False obtain d c s m k x y where
    m: "nvme_init_cq junk (n_admin_cq n) (n\<lparr>n_dma := d, n_cqe_size := c, n_sqe_size := s\<rparr>) (bar_acq ?bar) 0 0
         (ucast (NVME_AQA_ACQS (bar_aqa ?bar) + 1)) 1 True = Some (x, m)"
    and k: "nvme_init_sq junk (n_admin_sq m) m (bar_asq ?bar) 0 0 (ucast (NVME_AQA_ASQS (bar_aqa ?bar) + 1)) NVME_Q_PRIO_HIGH True = Some (y, k)"
    and n': "\<exists>z. n' = k\<lparr>n_zns := z\<rparr> \<or> n' = k"
    unfolding nvme_start_ctrl_def Let_def by (simp split: if_splits bind_splits prod.splits) blast+
  let ?n = "n\<lparr>n_dma := d, n_cqe_size := c, n_sqe_size := s\<rparr>"
  have ok: "queues_ok ?n" by (rule kept_by_view [OF _ assms(2)]) (simp add: queue_view_def)
  note R = False [unfolded start_refused_def Let_def]
  have none: "lookup (n_cq ?n) (unat (0 :: u16)) = None" "lookup (n_sq ?n) (unat (0 :: u16)) = None" using R by simp_all
  have sz: "(ucast (NVME_AQA_ACQS (bar_aqa ?bar) + 1) :: u16) \<noteq> 0" "(ucast (NVME_AQA_ASQS (bar_aqa ?bar) + 1) :: u16) \<noteq> 0"
    by (rule aqa_size; use R in simp)+
  have mok: "queues_ok m" and ms: "n_sq m = n_sq ?n"
    by (rule init_cq_ok(1) [OF m ok none(1) sz(1)], rule init_cq_ok(3) [OF m ok none(1) sz(1)])
  have "queues_ok k" by (rule init_sq_ok(1) [OF k mok _ sz(2)]) (use ms none in simp)
  then show ?thesis using n' by (auto intro: kept_by_view [rotated] simp: queue_view_def)
qed (use assms in \<open>simp add: nvme_start_ctrl_def\<close>)


lemma write_bar_ok:
  assumes "nvme_write_bar junk n offset data = Some n'" "queues_ok n"
  shows "queues_ok n'"
proof -
  have bar: "queues_ok m \<Longrightarrow> bar_cap b = bar_cap (n_bar m) \<Longrightarrow> queues_ok (m\<lparr>n_bar := b\<rparr>)" for m b
    by (erule kept_by_view [rotated]) (simp add: queue_view_def)
  let ?lo = "ucast data :: u32"
  let ?mid = "if NVME_CC_EN ?lo \<noteq> 0 \<and> NVME_CC_EN (bar_cc (n_bar n)) = 0 then
      nvme_start_ctrl junk (n\<lparr>n_bar := (n_bar n)\<lparr>bar_cc := ?lo\<rparr>\<rparr>) \<bind> (\<lambda>(r, n).
        Some (n\<lparr>n_bar := (n_bar n)\<lparr>bar_csts := csts_bit (if r \<noteq> 0 then NVME_CSTS_FAILED else NVME_CSTS_READY)\<rparr>\<rparr>))
    else if NVME_CC_EN ?lo = 0 \<and> NVME_CC_EN (bar_cc (n_bar n)) \<noteq> 0 then
      nvme_clear_ctrl False n \<bind> (\<lambda>n. Some (n\<lparr>n_bar := (n_bar n)\<lparr>bar_csts := bar_csts (n_bar n) AND NOT (csts_bit NVME_CSTS_READY)\<rparr>\<rparr>))
    else Some n"
  have mid: "queues_ok m" if "?mid = Some m" for m
    using that assms(2)
    by (auto split: if_splits bind_splits intro!: bar dest: clear_ctrl_ok(1) start_ctrl_ok)
  show ?thesis
  proof (cases "offset = 0x14")
    case True
    with assms(1) obtain m where m: "?mid = Some m" and
      n': "(if NVME_CC_SHN ?lo \<noteq> 0 \<and> NVME_CC_SHN (bar_cc (n_bar m)) = 0 then
             nvme_clear_ctrl True m \<bind> (\<lambda>n. Some (n\<lparr>n_bar := (n_bar n)\<lparr>bar_cc := ?lo, bar_csts := bar_csts (n_bar n) OR csts_bit NVME_CSTS_SHST_COMPLETE\<rparr>\<rparr>))
           else if NVME_CC_SHN ?lo = 0 \<and> NVME_CC_SHN (bar_cc (n_bar m)) \<noteq> 0 then
             Some (m\<lparr>n_bar := (n_bar m)\<lparr>bar_csts := bar_csts (n_bar m) AND NOT (csts_bit NVME_CSTS_SHST_COMPLETE), bar_cc := ?lo\<rparr>\<rparr>)
           else Some m) = Some n'"
      unfolding nvme_write_bar_def Let_def by (simp split: bind_splits)
    show ?thesis using n' mid [OF m] by (auto split: if_splits bind_splits intro!: bar dest: clear_ctrl_ok(1))
  qed (use assms bar in \<open>auto simp: nvme_write_bar_def Let_def split: if_splits\<close>)
qed

lemma mmio_write_ok:
  assumes "nvme_mmio_write env n addr data = Some n'" "queues_ok n" "oc_keeps_queues env"
  shows "queues_ok n'"
  using assms by (auto simp: nvme_mmio_write_def split: if_splits dest: write_bar_ok db_admin_ok db_io_ok)

lemma main_turn_ok:
  assumes "qemu_main_turn env mem msg n = Some (out, n')" "queues_ok n" "oc_keeps_queues env"
  shows "queues_ok n'"
proof -
  have cmb: "nvme_cmb_write n a d l = Some m \<Longrightarrow> queue_view m = queue_view n" for a d l m
    by (auto simp: nvme_cmb_write_def Let_def queue_view_def split: if_splits)
  from assms(1) obtain m where poll: "qemu_main_poll m = Some n'" and
    m: "m = n \<or> (\<exists>bar addr d l. mmio_write env n bar addr d l = Some m)"
    unfolding qemu_main_turn_def by (auto split: bind_splits option.splits sb2qemu.splits) blast
  from m have "queues_ok m"
    using assms(2,3) kept_by_view [OF cmb] by (auto simp: mmio_write_def split: if_splits dest: mmio_write_ok)
  then show ?thesis by (rule main_poll_ok [OF poll])
qed

end
