(* ===== verification/Admin_Queue.thy ===== *)
theory Admin_Queue
  imports Ctrl_Inv Nvme_Rw
begin

text \<open>
  The admin queue under its own commands: no admin command moves the indices of queue 0, so a doorbell serves
  exactly the entries between head and tail, each with one completion.
\<close>

subsection \<open>What no admin command changes\<close>

text \<open>Head, tail, size and completion queue of submission queue 0; tail, size and phase of completion queue 0.\<close>

definition sq_core :: "NvmeSQueue \<Rightarrow> u32 \<times> u32 \<times> u32 \<times> u16" where
  "sq_core q = (sq_head q, sq_tail q, sq_size q, sq_cqid q)"

definition cq_core :: "NvmeCQueue \<Rightarrow> u32 \<times> u32 \<times> u8" where
  "cq_core c = (cq_tail c, cq_size c, cq_phase c)"

definition admin_core :: "femu \<Rightarrow> (u32 \<times> u32 \<times> u32 \<times> u16) option \<times> (u32 \<times> u32 \<times> u8) option" where
  "admin_core n = (map_option sq_core (lookup (n_sq n) 0), map_option cq_core (lookup (n_cq n) 0))"

lemma core_view: "queue_view n' = queue_view n \<Longrightarrow> admin_core n' = admin_core n"
  by (simp add: admin_core_def queue_view_def)

lemma core_other_sq [simp]: "i \<noteq> 0 \<Longrightarrow> admin_core (upd_sq n i q) = admin_core n"
  by (simp add: admin_core_def upd_sq_def lookup_list_update)

lemma core_same_sq: "lookup (n_sq n) i = Some q \<Longrightarrow> sq_core q' = sq_core q \<Longrightarrow> admin_core (upd_sq n i q') = admin_core n"
  by (auto simp: admin_core_def upd_sq_def lookup_list_update)

lemma core_other_cq [simp]: "c \<noteq> 0 \<Longrightarrow> admin_core (upd_cq n c q) = admin_core n"
  by (simp add: admin_core_def upd_cq_def lookup_list_update)

lemma core_same_cq: "lookup (n_cq n) c = Some q \<Longrightarrow> cq_core q' = cq_core q \<Longrightarrow> admin_core (upd_cq n c q') = admin_core n"
  by (auto simp: admin_core_def upd_cq_def lookup_list_update)

lemma core_tables:
  assumes "lookup (n_sq n') 0 = lookup (n_sq n) 0" "map_option cq_core (lookup (n_cq n') 0) = map_option cq_core (lookup (n_cq n) 0)"
  shows "admin_core n' = admin_core n"
  using assms by (simp add: admin_core_def)

lemma del_sq_core:
  assumes "nvme_del_sq env n cmd = Some (st, n')" "queues_ok n"
  shows "admin_core n' = admin_core n"
proof (rule del_sq_effect [OF assms])
  fix q c
  assume "delq_qid (delq_of_cmd cmd) \<noteq> 0" "lookup (n_cq n) (unat (sq_cqid q)) = Some c"
    "n_sq n' = (n_sq n)[unat (delq_qid (delq_of_cmd cmd)) := None]"
    "n_cq n' = (n_cq n)[unat (sq_cqid q) := Some (c\<lparr>cq_sq_list := remove1 (unat (delq_qid (delq_of_cmd cmd))) (cq_sq_list c)\<rparr>)]"
  then show ?thesis
    by (intro core_tables) (auto simp: lookup_list_update cq_core_def unat_eq_0)
qed simp

lemma init_sq_core:
  assumes "nvme_init_sq junk q n a sqid cqid sz prio contig = Some (st, n')" "sqid \<noteq> 0"
  shows "admin_core n' = admin_core n"
proof -
  from assms(1) obtain m mem where mem: "queue_memory junk n a sz (n_sqe_size n) contig = Some (mem, m)"
    by (auto simp: nvme_init_sq_def split: bind_splits)
  have v: "admin_core m = admin_core n" by (rule core_view [OF queue_memory_view [OF mem]])
  show ?thesis
  proof (cases mem)
    case None
    then show ?thesis using assms(1) mem v by (auto simp: nvme_init_sq_def)
  next
    case (Some ap)
    from assms(1) mem Some obtain c q' where c: "lookup (n_cq m) (unat cqid) = Some c"
      and n': "n' = upd_sq (upd_cq m (unat cqid) (c\<lparr>cq_sq_list := cq_sq_list c @ [unat sqid]\<rparr>)) (unat sqid) q'"
      by (cases ap) (auto simp: nvme_init_sq_def Let_def split: option.splits if_splits)
    show ?thesis unfolding n' using assms(2) v core_same_cq [OF c] by (simp add: cq_core_def unat_eq_0)
  qed
qed

lemma init_cq_core:
  assumes "nvme_init_cq junk q n a cqid vec sz ien contig = Some (st, n')" "cqid \<noteq> 0"
  shows "admin_core n' = admin_core n"
proof -
  from assms(1) obtain m mem where mem: "queue_memory junk n a sz (n_cqe_size n) contig = Some (mem, m)"
    by (auto simp: nvme_init_cq_def split: bind_splits)
  have v: "admin_core m = admin_core n" by (rule core_view [OF queue_memory_view [OF mem]])
  show ?thesis
  proof (cases mem)
    case None
    then show ?thesis using assms(1) mem v by (auto simp: nvme_init_cq_def)
  next
    case (Some ap)
    from assms(1) mem Some obtain q' where "n' = upd_cq m (unat cqid) q'"
      by (cases ap) (auto simp: nvme_init_cq_def Let_def split: option.splits if_splits)
    then show ?thesis using assms(2) v by (simp add: unat_eq_0)
  qed
qed

lemma setup_virq_core:
  assumes "nvme_setup_virq n c = Some (r, n')"
  shows "admin_core n' = admin_core n"
proof -
  have add: "admin_core m = admin_core n" if eq: "nvme_add_kvm_msi_virq n c = Some (x, m)" for x m
  proof (cases "msix_enabled n")
    case True
    with eq obtain q i k where q: "lookup (n_cq n) c = Some q" and k: "kvm_irqchip_add_msi_route n (cq_vector q) = (i, k)"
      and m: "m = upd_cq k c (q\<lparr>cq_guest_notifier := False, cq_virq := i\<rparr>)"
      by (auto simp: nvme_add_kvm_msi_virq_def Let_def split: option.splits prod.splits)
    have "lookup (n_cq k) c = Some q" using q queue_view_parts(2) [OF add_route_view [OF k]] by simp
    from core_same_cq [OF this] show ?thesis unfolding m using core_view [OF add_route_view [OF k]] by (simp add: cq_core_def)
  qed (use eq in \<open>auto simp: nvme_add_kvm_msi_virq_def split: option.splits\<close>)
  have v: "admin_core (msix_set_vector_notifiers (m\<lparr>n_vector_poll_started := True\<rparr>)) = admin_core m" for m
    using core_view [OF set_notifiers_view] by (simp add: admin_core_def)
  show ?thesis
    using assms add v unfolding nvme_setup_virq_def by (auto split: option.splits if_splits)
qed


lemma create_sq_core:
  assumes "nvme_create_sq env n cmd = Some (st, n')"
  shows "admin_core n' = admin_core n"
proof (rule create_sq_steps [OF assms])
  fix r m
  let ?s = "csq_sqid (csq_of_cmd cmd)" and ?k = "csq_qsize (csq_of_cmd cmd)"
  assume s: "?s \<noteq> 0"
    and init: "nvme_init_sq (env_stack env) zero_sq n (csq_prp1 (csq_of_cmd cmd)) ?s (csq_cqid (csq_of_cmd cmd))
      (?k + 1) (queue_prio (NVME_SQ_FLAGS_QPRIO (csq_sq_flags (csq_of_cmd cmd)))) (NVME_SQ_FLAGS_PC (csq_sq_flags (csq_of_cmd cmd)) \<noteq> 0) = Some (r, m)"
    and n': "n' = m \<and> r \<noteq> 0 \<or> r = 0 \<and> (\<exists>q. lookup (n_sq m) (unat ?s) = Some q \<and> n' = upd_sq m (unat ?s) (q\<lparr>sq_is_active := True\<rparr>))"
  show ?thesis using init_sq_core [OF init s] n' s by (auto simp: unat_eq_0)
qed simp

lemma create_cq_core:
  assumes "nvme_create_cq env n cmd = Some (st, n')" "queues_ok n"
  shows "admin_core n' = admin_core n"
proof (rule create_cq_steps [OF assms])
  fix r m
  let ?c = "ccq_cqid (ccq_of_cmd cmd)" and ?k = "ccq_qsize (ccq_of_cmd cmd)"
  assume c: "?c \<noteq> 0"
    and init: "nvme_init_cq (env_stack env) zero_cq n (ccq_prp1 (ccq_of_cmd cmd)) ?c (ccq_irq_vector (ccq_of_cmd cmd))
         (?k + 1) (NVME_CQ_FLAGS_IEN (ccq_cq_flags (ccq_of_cmd cmd))) (NVME_CQ_FLAGS_PC (ccq_cq_flags (ccq_of_cmd cmd)) \<noteq> 0) = Some (r, m)"
    and n': "n' = m \<and> r \<noteq> 0 \<or> r = 0 \<and> (\<exists>x k q. nvme_setup_virq m (unat ?c) = Some (x, k) \<and>
         lookup (n_cq k) (unat ?c) = Some q \<and> n' = upd_cq k (unat ?c) (q\<lparr>cq_is_active := True\<rparr>))"
  show ?thesis using init_cq_core [OF init c] n' c setup_virq_core by (auto simp: unat_eq_0)
qed simp

lemma del_cq_core: "nvme_del_cq n cmd = Some (st, n') \<Longrightarrow> admin_core n' = admin_core n"
  by (auto simp: nvme_del_cq_def nvme_free_cq_def Let_def answer_def success_def admin_core_def upd_cq_def lookup_list_update unat_eq_0
      split: if_splits bind_splits option.splits)

lemma set_db_queue_core: "i \<noteq> 0 \<Longrightarrow> admin_core (set_db_queue dbs eis n i) = admin_core n"
  by (simp add: set_db_queue_def Let_def split: option.split)

lemma set_db_memory_core:
  assumes "nvme_set_db_memory env n cmd = Some (st, n')"
  shows "admin_core n' = admin_core n"
proof (cases "n' = n")
  case False
  have fold: "0 \<notin> set xs \<Longrightarrow> admin_core (foldl (set_db_queue d e) m xs) = admin_core m" for d e m xs
    by (induction xs arbitrary: m) (simp_all add: set_db_queue_core)
  let ?n = "n\<lparr>n_dbs_addr := cmd_prp1 cmd, n_eis_addr := cmd_prp2 cmd\<rparr>"
  let ?m = "foldl (set_db_queue (cmd_prp1 cmd) (cmd_prp2 cmd)) ?n [1..<unat (p_num_io_queues (n_cfg n)) + 1]"
  have "admin_core ?m = admin_core ?n" by (rule fold) simp
  also have "\<dots> = admin_core n" by (simp add: admin_core_def)
  finally have m: "admin_core ?m = admin_core n" .
  from assms False obtain k where
    k: "(if n_poller_on ?m then Some ?m else map_option (\<lambda>n. n\<lparr>n_poller_on := True\<rparr>) (nvme_create_poller (env_alloc env) ?m)) = Some k"
    and n': "n' = k\<lparr>n_dataplane_started := True\<rparr>"
    unfolding nvme_set_db_memory_def Let_def answer_def success_def by (simp split: if_splits bind_splits)
  have "admin_core n' = admin_core k" unfolding n' by (simp add: admin_core_def)
  then show ?thesis using core_view [OF start_poller_view [OF k]] m by simp
qed simp

lemma core_upd_req [simp]: "admin_core (upd_req n r x) = admin_core n"
  by (auto simp: admin_core_def upd_req_def lookup_set_req sq_core_def [abs_def] option.map_comp comp_def)

lemma abort_loop_core: "abort_loop k index n i cid = Some (r, n') \<Longrightarrow> admin_core n' = admin_core n"
proof (induction k arbitrary: index)
  case (Suc k)
  from Suc.prems obtain q where q: "lookup (n_sq n) i = Some q" by (auto split: bind_splits)
  show ?case
  proof (cases "n' = n \<or> abort_loop k (index + 1) n i cid = Some (r, n')")
    case False
    with Suc.prems q obtain x xs y a bs where
      n': "n' = addr_write (upd_req (upd_sq n i (q\<lparr>sq_req_list := xs, sq_out_req_list := sq_out_req_list q @ [x]\<rparr>)) (i, x) y) a bs"
      by (auto simp: Let_def split: if_splits bind_splits list.splits)
    show ?thesis unfolding n' using core_view [OF addr_write_queue_view] core_same_sq [OF q] by (simp add: sq_core_def)
  qed (use Suc in auto)
qed simp

lemma abort_core: "nvme_abort_req n cmd = Some (st, r, n') \<Longrightarrow> admin_core n' = admin_core n"
  by (auto simp: nvme_abort_req_def Let_def split: if_splits dest: abort_loop_core)

lemma admin_cmd_core:
  assumes "nvme_admin_cmd env n cmd cqe = Some (st, cqe', n')" "queues_ok n" "oc_keeps_queues env"
  shows "admin_core n' = admin_core n"
  using assms unfolding nvme_admin_cmd_def Let_def
  by (auto simp: success_def split: if_splits dest!: with_cqe_view
      dest: del_sq_core create_sq_core del_cq_core create_cq_core set_db_memory_core abort_core core_view [OF identify_view]
        core_view [OF set_feature_view] core_view [OF get_feature_view] core_view [OF get_log_view]
        core_view [OF format_view] core_view [OF ext_admin_view] answer_view intro: core_view [OF set_latencies_view])


subsection \<open>Serving the admin queue\<close>

text \<open>Entries between head and tail; tail and phase after \<open>k\<close> completions.\<close>

definition waiting :: "u32 \<Rightarrow> u32 \<Rightarrow> u32 \<Rightarrow> nat" where
  "waiting head tail size' = (if head \<le> tail then unat tail - unat head else unat tail + unat size' - unat head)"

definition posted :: "nat \<Rightarrow> u32 \<times> u32 \<times> u8 \<Rightarrow> u32 \<times> u32 \<times> u8 \<Rightarrow> bool" where
  "posted k c c' \<longleftrightarrow> (case (c, c') of ((t, s, p), (t', s', p')) \<Rightarrow>
     s' = s \<and> unat t' = (unat t + k) mod unat s \<and> p' = (if even ((unat t + k) div unat s) then p else 1 - p))"

lemma posted_0: "t < s \<Longrightarrow> posted 0 (t, s, p) (t, s, p)"
  by (simp add: posted_def word_less_nat_alt)

lemma cq_core_inc:
  assumes "cq_core q = (t, s, p)" "t < s" "p = 0 \<or> p = 1"
  shows "cq_core (nvme_inc_cq_tail q) = (if t + 1 = s then (0, s, 1 - p) else (t + 1, s, p))"
proof -
  have "unat t + 1 < 2 ^ 32" using assms(2) unsigned_less [of s, where 'a = nat] by (simp add: word_less_nat_alt)
  then have "unat (t + 1) = unat t + 1" by (simp add: unat_word_ariths)
  then have "s \<le> t + 1 \<longleftrightarrow> t + 1 = s" using assms(2) by (auto simp: word_le_nat_alt word_less_nat_alt word_eq_iff_unsigned [where 'a = nat])
  then show ?thesis using assms by (auto simp: cq_core_def nvme_inc_cq_tail_def Let_def)
qed

lemma posted_Suc:
  assumes "posted k (if t + 1 = s then (0, s, 1 - p) else (t + 1, s, p)) c" "t < s" "p = 0 \<or> p = 1"
  shows "posted (Suc k) (t, s, p) c"
proof -
  have lt: "unat t < unat s" using assms(2) by (simp add: word_less_nat_alt)
  have "unat t + 1 < 2 ^ 32" using lt unsigned_less [of s, where 'a = nat] by simp
  then have t1: "unat (t + 1) = unat t + 1" by (simp add: unat_word_ariths)
  show ?thesis
  proof (cases "t + 1 = s")
    case True
    then have "unat s = unat t + 1" using t1 by simp
    then have s: "unat t + Suc k = unat s + k" by simp
    have z: "unat s \<noteq> 0" using lt by simp
    have e: "(unat t + Suc k) mod unat s = k mod unat s" "(unat t + Suc k) div unat s = Suc (k div unat s)"
      unfolding s using z by simp_all
    have "posted k (0, s, 1 - p) c" using assms(1) True by simp
    then show ?thesis using assms(3) by (cases c) (auto simp: posted_def e [unfolded add_Suc_right])
  next
    case False
    then show ?thesis using assms(1) t1 by (auto simp: posted_def split: prod.splits)
  qed
qed

lemma waiting_step:
  assumes "h < s" "t < s" "h \<noteq> t"
  shows "waiting h t s = Suc (waiting ((h + 1) mod s) t s)" "(h + 1) mod s < s"
proof -
  have lt: "unat h < unat s" "unat t < unat s" "unat h \<noteq> unat t"
    using assms by (simp_all add: word_less_nat_alt word_eq_iff_unsigned [where 'a = nat])
  have "unat h + 1 < 2 ^ 32" using lt unsigned_less [of s, where 'a = nat] by simp
  then have "unat (h + 1) = unat h + 1" by (simp add: unat_word_ariths)
  then have "unat ((h + 1) mod s) = (unat h + 1) mod unat s" by (simp add: unat_mod_distrib)
  also have "\<dots> = (if unat h + 1 = unat s then 0 else unat h + 1)" using lt by (simp add: mod_if)
  finally have m: "unat ((h + 1) mod s) = (if unat h + 1 = unat s then 0 else unat h + 1)" .
  show "(h + 1) mod s < s" using m lt by (simp add: word_less_nat_alt)
  show "waiting h t s = Suc (waiting ((h + 1) mod s) t s)"
    unfolding waiting_def word_le_nat_alt m using lt by auto
qed

lemma process_one_admin_core:
  assumes "process_one_admin env 0 n = Some n'" "queues_ok n" "oc_keeps_queues env"
    "admin_core n = (Some (h, t, s, 0), Some (ct, cs, p))"
  shows "admin_core n' = (Some ((h + 1) mod s, t, s, 0), Some (if ct + 1 = cs then (0, cs, 1 - p) else (ct + 1, cs, p)))"
    "queues_ok n'"
proof -
  from assms(1) obtain q q' st cqe m pq c addr' cqe' where q: "lookup (n_sq n) 0 = Some q" "nvme_inc_sq_head q = Some q'"
    and m: "nvme_admin_cmd env (upd_sq n 0 q') (cmd_of_bytes (addr_read n (the (sq_entry_addr n q)) 64)) zero_cqe = Some (st, cqe, m)"
    and pq: "lookup (n_sq m) 0 = Some pq" "lookup (n_cq m) (unat (sq_cqid pq)) = Some c"
    and n': "nvme_isr_notify_admin (upd_cq (addr_write m addr' (cqe_bytes cqe')) (unat (sq_cqid pq)) (nvme_inc_cq_tail c))
      (unat (sq_cqid pq)) = Some n'"
    unfolding process_one_admin_def Let_def by (auto split: bind_splits)
  show "queues_ok n'" by (rule process_one_admin_ok [OF assms(1-3)])
  have up: "queues_ok (upd_sq n 0 q')"
    using queues_upd_sq [OF assms(2) q(1)] inc_head_shape [OF q(2) queues_sq_shape [OF assms(2) q(1)]] by simp
  have "sq_core q = (h, t, s, 0)" using assms(4) q(1) by (simp add: admin_core_def)
  then have q': "sq_core q' = ((h + 1) mod s, t, s, 0)"
    using q(2) by (auto simp: nvme_inc_sq_head_def sq_core_def split: if_splits)
  have "admin_core m = admin_core (upd_sq n 0 q')" by (rule admin_cmd_core [OF m up assms(3)])
  also have "\<dots> = (Some ((h + 1) mod s, t, s, 0), Some (ct, cs, p))"
    using assms(4) q' lookup_less [OF q(1)] by (simp add: admin_core_def upd_sq_def lookup_list_update)
  finally have mc: "admin_core m = (Some ((h + 1) mod s, t, s, 0), Some (ct, cs, p))" .
  then have "sq_cqid pq = 0" using pq(1) by (simp add: admin_core_def sq_core_def)
  then have c: "lookup (n_cq m) 0 = Some c" and n': "nvme_isr_notify_admin (upd_cq (addr_write m addr' (cqe_bytes cqe')) 0 (nvme_inc_cq_tail c)) 0 = Some n'"
    using pq(2) n' by simp_all
  have cc: "cq_core c = (ct, cs, p)" using mc c by (simp add: admin_core_def)
  have mok: "queues_ok m" by (rule admin_cmd_ok [OF m up assms(3)])
  have "ct < cs" "p = 0 \<or> p = 1" using queues_cq_shape [OF mok c] cc by (auto simp: cq_shape_def cq_core_def)
  note inc = cq_core_inc [OF cc this]
  let ?k = "addr_write m addr' (cqe_bytes cqe')"
  have "admin_core n' = admin_core (upd_cq ?k 0 (nvme_inc_cq_tail c))"
    using n' by (intro core_view notify_legacy_view) (simp add: nvme_isr_notify_admin_def)
  also have "\<dots> = (fst (admin_core ?k), Some (cq_core (nvme_inc_cq_tail c)))"
    using lookup_less [OF c] queue_view_parts(2) [OF addr_write_queue_view] by (simp add: admin_core_def upd_cq_def lookup_list_update)
  also have "\<dots> = (Some ((h + 1) mod s, t, s, 0), Some (if ct + 1 = cs then (0, cs, 1 - p) else (ct + 1, cs, p)))"
    using mc core_view [OF addr_write_queue_view] inc by simp
  finally show "admin_core n' = (Some ((h + 1) mod s, t, s, 0), Some (if ct + 1 = cs then (0, cs, 1 - p) else (ct + 1, cs, p)))" .
qed

lemma process_admin_loop_core:
  assumes "process_admin_loop k env 0 n = Some n'" "queues_ok n" "oc_keeps_queues env"
    "admin_core n = (Some (h, t, s, 0), Some (ct, cs, p))" "t < s"
  shows "\<exists>c. admin_core n' = (Some (t, t, s, 0), Some c) \<and> posted (waiting h t s) (ct, cs, p) c"
  using assms(1,2,4)
proof (induction k arbitrary: n h ct p)
  have facts: "(\<exists>q. lookup (n_sq n) 0 = Some q \<and> sq_head q = h \<and> sq_tail q = t) \<and> h < s \<and> ct < cs \<and> (p = 0 \<or> p = 1)"
    if "queues_ok n" "admin_core n = (Some (h, t, s, 0), Some (ct, cs, p))" for n h ct p
  proof -
    from that(2) obtain q c where q: "lookup (n_sq n) 0 = Some q" "sq_core q = (h, t, s, 0)"
      "lookup (n_cq n) 0 = Some c" "cq_core c = (ct, cs, p)" by (auto simp: admin_core_def)
    then show ?thesis using queues_sq_shape [OF that(1) q(1)] queues_cq_shape [OF that(1) q(3)]
      by (auto simp: sq_shape_def cq_shape_def sq_core_def cq_core_def)
  qed
  {
    case 0
    then show ?case using facts [OF 0(2,3)] by (auto simp: nvme_sq_empty_def waiting_def posted_0 split: if_splits)
  next
    case (Suc k)
    note F = facts [OF Suc.prems(2,3)]
    show ?case
    proof (cases "h = t")
      case True
      then have "n' = n" using Suc.prems(1) F by (auto simp: nvme_sq_empty_def)
      then show ?thesis using Suc.prems(3) True F by (simp add: waiting_def posted_0)
    next
      case False
      then obtain m where m: "process_one_admin env 0 n = Some m" "process_admin_loop k env 0 m = Some n'"
        using Suc.prems(1) F by (auto simp: nvme_sq_empty_def split: bind_splits)
      note M = process_one_admin_core [OF m(1) Suc.prems(2) assms(3) Suc.prems(3)]
      let ?c = "if ct + 1 = cs then (0, cs, 1 - p) else (ct + 1, cs, p)"
      obtain ct1 p1 where c1: "?c = (ct1, cs, p1)" by (cases "ct + 1 = cs") auto
      from Suc.IH [OF m(2) M(2)] M(1) c1 obtain c where
        c: "admin_core n' = (Some (t, t, s, 0), Some c)" "posted (waiting ((h + 1) mod s) t s) ?c c" by auto
      then show ?thesis using posted_Suc [OF c(2)] F waiting_step(1) [OF _ assms(5) False] by auto
    qed
  }
qed



text \<open>A device whose host memory is zero: the command fetched deletes queue 0, which is refused.\<close>

definition ex_admin :: femu where
  "ex_admin = ex_ctrl\<lparr>n_host := \<lambda>_. 0, n_sqe_size := 64, n_cqe_size := 16,
     n_sq := [Some (zero_sq\<lparr>sq_phys_contig := 1, sq_size := 4, sq_dma_addr := 0x10000, sq_io_req := replicate 4 (zero_req 0),
       sq_req_list := [0..<4]\<rparr>), None, None],
     n_cq := [Some (zero_cq\<lparr>cq_phys_contig := 1, cq_size := 4, cq_phase := 1, cq_dma_addr := 0x20000, cq_sq_list := [0]\<rparr>), None, None]\<rparr>"

definition ex_env :: admin_env where
  "ex_env = \<lparr>env_stack = (\<lambda>_. 0), env_fw_log = (\<lambda>_. 0), env_clock = (\<lambda>_. 0), env_seconds = 0, env_alloc = True,
     env_admin = (\<lambda>_ _. None), env_get_log = (\<lambda>_ _. None)\<rparr>"

lemma ex_env_keeps: "oc_keeps_queues ex_env"
  by (simp add: oc_keeps_queues_def ex_env_def)

lemma ex_admin_ok: "queues_ok ex_admin"
proof -
  have l: "lookup (x # xs) i = (if i = 0 then x else lookup xs (i - 1))" for x xs and i :: nat by (cases i) (simp_all add: lookup_def)
  have e: "lookup [] i = None" for i by (simp add: lookup_def)
  have "tables_ok 3 (n_sq ex_admin) (n_cq ex_admin)"
    by (auto simp: ex_admin_def tables_ok_def linked_def cqid_of_def sqs_of_def l e sq_shape_def cq_shape_def zero_sq_def zero_cq_def
        split: if_splits option.splits)
  then show ?thesis
    by (simp add: queues_ok_def ex_admin_def ex_ctrl_def calloc_femu_def ex_cfg_def zero_bar_def NVME_CAP_MQES_def)
qed

lemma ex_admin_zero: "addr_read (upd_sq ex_admin 0 q) a 64 = replicate 64 0"
  by (simp add: addr_read_def upd_sq_def nvme_addr_read_def in_cmb_def pci_dma_read_def ex_admin_def ex_ctrl_simps ex_ctx_def map_replicate_const)

lemma ex_zero_cmd: "nvme_admin_cmd env n (cmd_of_bytes (replicate 64 0)) cqe = Some (dnr NVME_INVALID_QID, cqe, n)"
proof -
  have z: "lo16 (le32_of_bytes (replicate 24 0)) = 0" by code_simp
  show ?thesis
    by (simp add: nvme_admin_cmd_def cmd_of_bytes_def nvme_del_sq_def delq_of_cmd_def Let_def with_cqe_def answer_def z)
qed

lemma notify_disabled: "c < length (n_cq n) \<Longrightarrow> cq_irq_enabled q = 0 \<Longrightarrow> nvme_isr_notify_admin (upd_cq n c q) c = Some (upd_cq n c q)"
  by (simp add: nvme_isr_notify_admin_def nvme_isr_notify_legacy_def upd_cq_def lookup_list_update)


end
