(* ===== verification/Timing.thy ===== *)
theory Timing
  imports Femu_State
begin

text \<open>
  The timing model of the open-channel modes, \<open>femu/timing-model/timing.c\<close>.  Times are \<open>int64_t\<close>, kept
  as 64-bit words.  The file includes \<open>nand.h\<close> and so has flash tables of its own, which nothing fills.
\<close>

definition set_latency :: "femu \<Rightarrow> femu" where
  "set_latency n =
     (let ft = unat (p_flash_type (n_cfg n))
      in if ft = flash_code TLC then
           n\<lparr>n_lat := (n_lat n)\<lparr>upg_rd_lat_ns := TLC_UPPER_PAGE_READ_LATENCY_NS, cpg_rd_lat_ns := TLC_CENTER_PAGE_READ_LATENCY_NS,
               lpg_rd_lat_ns := TLC_LOWER_PAGE_READ_LATENCY_NS, upg_wr_lat_ns := TLC_UPPER_PAGE_WRITE_LATENCY_NS,
               cpg_wr_lat_ns := TLC_CENTER_PAGE_WRITE_LATENCY_NS, lpg_wr_lat_ns := TLC_LOWER_PAGE_WRITE_LATENCY_NS,
               blk_er_lat_ns := TLC_BLOCK_ERASE_LATENCY_NS, chnl_pg_xfer_lat_ns := TLC_CHNL_PAGE_TRANSFER_LATENCY_NS\<rparr>\<rparr>
         else if ft = flash_code QLC then
           n\<lparr>n_lat := (n_lat n)\<lparr>upg_rd_lat_ns := QLC_UPPER_PAGE_READ_LATENCY_NS,
               cupg_rd_lat_ns := QLC_CENTER_UPPER_PAGE_READ_LATENCY_NS, clpg_rd_lat_ns := QLC_CENTER_LOWER_PAGE_READ_LATENCY_NS,
               lpg_rd_lat_ns := QLC_LOWER_PAGE_READ_LATENCY_NS, upg_wr_lat_ns := QLC_UPPER_PAGE_WRITE_LATENCY_NS,
               cupg_wr_lat_ns := QLC_CENTER_UPPER_PAGE_WRITE_LATENCY_NS, clpg_wr_lat_ns := QLC_CENTER_LOWER_PAGE_WRITE_LATENCY_NS,
               lpg_wr_lat_ns := QLC_LOWER_PAGE_WRITE_LATENCY_NS,
               blk_er_lat_ns := QLC_BLOCK_ERASE_LATENCY_NS, chnl_pg_xfer_lat_ns := QLC_CHNL_PAGE_TRANSFER_LATENCY_NS\<rparr>\<rparr>
         else if ft = flash_code MLC then
           n\<lparr>n_lat := (n_lat n)\<lparr>upg_rd_lat_ns := MLC_UPPER_PAGE_READ_LATENCY_NS, lpg_rd_lat_ns := MLC_LOWER_PAGE_READ_LATENCY_NS,
               upg_wr_lat_ns := MLC_UPPER_PAGE_WRITE_LATENCY_NS, lpg_wr_lat_ns := MLC_LOWER_PAGE_WRITE_LATENCY_NS,
               blk_er_lat_ns := MLC_BLOCK_ERASE_LATENCY_NS, chnl_pg_xfer_lat_ns := MLC_CHNL_PAGE_TRANSFER_LATENCY_NS\<rparr>\<rparr>
         else n)"

text \<open>The function returns before it looks at the channel.\<close>

definition advance_channel_timestamp :: "femu \<Rightarrow> int \<Rightarrow> u64 \<Rightarrow> u8 \<Rightarrow> u64" where
  "advance_channel_timestamp n ch now opcode = now"

definition chip_latency :: "femu \<Rightarrow> u8 \<Rightarrow> u8 \<Rightarrow> int option" where
  "chip_latency n opcode page_type =
     (let ft = uint (p_flash_type (n_cfg n)); pt = uint page_type
      in if opcode = io_opcode NVME_CMD_OC_READ \<or> opcode = io_opcode NVME_CMD_READ then get_page_read_latency static_nand ft pt
         else if opcode = io_opcode NVME_CMD_OC_WRITE \<or> opcode = io_opcode NVME_CMD_WRITE then get_page_write_latency static_nand ft pt
         else if opcode = io_opcode NVME_CMD_OC_ERASE then get_blk_erase_latency static_nand ft
         else None)"

definition advance_chip_timestamp :: "femu \<Rightarrow> int \<Rightarrow> u64 \<Rightarrow> u8 \<Rightarrow> u8 \<Rightarrow> (u64 \<times> femu) option" where
  "advance_chip_timestamp n lunid now opcode page_type =
     do {
       lat \<leftarrow> chip_latency n opcode page_type;
       avail \<leftarrow> tbl_at (n_chip_next_avail_time n) lunid;
       let t = (if now < avail then avail else now) + word_of_int lat;
       Some (t, n\<lparr>n_chip_next_avail_time := (n_chip_next_avail_time n)[nat lunid := t]\<rparr>)
     }"

text \<open>Arithmetic of type \<open>int\<close>.\<close>

definition c_int :: "int \<Rightarrow> int" where "c_int i = sint (word_of_int i :: u32)"

subsection \<open>The model adds no delay\<close>

lemma static_latencies:
  "get_page_read_latency static_nand ft pt = Some lat \<Longrightarrow> lat = 0"
  "get_page_write_latency static_nand ft pt = Some lat \<Longrightarrow> lat = 0"
  "get_blk_erase_latency static_nand ft = Some lat \<Longrightarrow> lat = 0"
  by (auto simp: get_page_read_latency_def get_page_write_latency_def get_blk_erase_latency_def static_nand_def tbl_at_def
      split: if_splits)

lemma chip_latency_zero: "chip_latency n opcode page_type = Some lat \<Longrightarrow> lat = 0"
  using static_latencies by (auto simp: chip_latency_def Let_def split: if_splits)

lemma advance_chip_steps:
  assumes "advance_chip_timestamp n lunid now opcode page_type = Some (t, n')"
  obtains "0 \<le> lunid" "nat lunid < length (n_chip_next_avail_time n)"
    "t = max now (n_chip_next_avail_time n ! nat lunid)"
    "n' = n\<lparr>n_chip_next_avail_time := (n_chip_next_avail_time n)[nat lunid := t]\<rparr>"
  using assms chip_latency_zero
  by (fastforce simp: advance_chip_timestamp_def tbl_at_def Let_def max_def split: bind_splits if_splits)

end
