(* ===== verification/Oc20.thy ===== *)
theory Oc20
  imports Nvme_Admin Timing
begin

text \<open>
  The open-channel 2.0 mode, \<open>femu/ocssd/oc20.c\<close> and \<open>femu/ocssd/oc20.h\<close>: a namespace of chunks that the host
  writes sequentially and resets.  \<open>None\<close> is an abort, a failed assertion, an access outside an object or
  an undefined shift or division.  The array of addresses that a command allocates is a list; the
  address it had stays in \<open>slba\<close> of the request.  \<open>predef\<close> of a request is never read and left out of the
  vector commands.
\<close>

text \<open>What comes from outside: the address \<open>malloc\<close> returns, \<open>rand()\<close>, and the variables \<open>sscanf\<close> did not assign.\<close>

record oc_env =
  oe_malloc :: "femu \<Rightarrow> u64"
  oe_rand :: "femu \<Rightarrow> u32"
  oe_junk :: "nat \<Rightarrow> u32"
  oe_stack :: "nat \<Rightarrow> u64"

subsection \<open>Addresses and chunks\<close>

definition OC20_LBA_GET_SECTR :: "Oc20AddrF \<Rightarrow> u64 \<Rightarrow> u64" where
  "OC20_LBA_GET_SECTR f lba = drop_bit (unat (a20_sec_offset f)) (lba AND a20_sec_mask f)"
definition OC20_LBA_GET_CHUNK :: "Oc20AddrF \<Rightarrow> u64 \<Rightarrow> u64" where
  "OC20_LBA_GET_CHUNK f lba = drop_bit (unat (a20_chk_offset f)) (lba AND a20_chk_mask f)"
definition OC20_LBA_GET_PUNIT :: "Oc20AddrF \<Rightarrow> u64 \<Rightarrow> u64" where
  "OC20_LBA_GET_PUNIT f lba = drop_bit (unat (a20_lun_offset f)) (lba AND a20_lun_mask f)"
definition OC20_LBA_GET_GROUP :: "Oc20AddrF \<Rightarrow> u64 \<Rightarrow> u64" where
  "OC20_LBA_GET_GROUP f lba = drop_bit (unat (a20_grp_offset f)) lba"

text \<open>The parts are \<open>unsigned int\<close>s.\<close>

definition OC20_LBA :: "Oc20AddrF \<Rightarrow> u32 \<Rightarrow> u32 \<Rightarrow> u32 \<Rightarrow> u32 \<Rightarrow> u64" where
  "OC20_LBA f grp punit chunk sectr =
     ucast (push_bit (unat (a20_sec_offset f)) sectr OR push_bit (unat (a20_chk_offset f)) chunk OR
       push_bit (unat (a20_lun_offset f)) punit OR push_bit (unat (a20_grp_offset f)) grp)"

definition oc20_lba_valid :: "Oc20Namespace \<Rightarrow> u64 \<Rightarrow> bool" where
  "oc20_lba_valid lns lba \<longleftrightarrow>
     (let geo = ng_geo (lns_id_ctrl lns); f = lns_lbaf lns
      in OC20_LBA_GET_SECTR f lba < ucast (geo_clba geo) \<and> OC20_LBA_GET_CHUNK f lba < ucast (geo_num_chk geo) \<and>
         OC20_LBA_GET_PUNIT f lba < ucast (geo_num_lun geo) \<and> OC20_LBA_GET_GROUP f lba < ucast (geo_num_grp geo))"

definition oc20_lba_to_chunk_index :: "Oc20Namespace \<Rightarrow> u64 \<Rightarrow> u64" where
  "oc20_lba_to_chunk_index lns lba =
     (let geo = ng_geo (lns_id_ctrl lns); f = lns_lbaf lns
      in OC20_LBA_GET_CHUNK f lba + OC20_LBA_GET_PUNIT f lba * ucast (geo_num_chk geo) +
         OC20_LBA_GET_GROUP f lba * ucast (lns_chks_per_grp lns))"

definition oc20_lba_to_sector_index :: "Oc20Namespace \<Rightarrow> u64 \<Rightarrow> u64" where
  "oc20_lba_to_sector_index lns lba =
     (let f = lns_lbaf lns
      in OC20_LBA_GET_SECTR f lba + OC20_LBA_GET_CHUNK f lba * ucast (lns_secs_per_chk lns) +
         OC20_LBA_GET_PUNIT f lba * ucast (lns_secs_per_lun lns) + OC20_LBA_GET_GROUP f lba * ucast (lns_secs_per_grp lns))"

definition lns_of :: "femu \<Rightarrow> nat \<Rightarrow> Oc20Namespace option" where
  "lns_of n i = (if i < length (n_namespaces n) then ns_state (n_namespaces n ! i) else None)"

definition put_lns :: "femu \<Rightarrow> nat \<Rightarrow> Oc20Namespace \<Rightarrow> femu" where
  "put_lns n i lns = upd_ns n i (\<lambda>ns. ns\<lparr>ns_state := Some lns\<rparr>)"

definition put_chunk :: "femu \<Rightarrow> nat \<Rightarrow> Oc20Namespace \<Rightarrow> nat \<Rightarrow> Oc20CS \<Rightarrow> femu" where
  "put_chunk n i lns k cs = put_lns n i (lns\<lparr>lns_chunk_info := (lns_chunk_info lns)[k := cs]\<rparr>)"

text \<open>The chunk of an address: its position and descriptor, or \<open>NULL\<close> for an address that is not valid.\<close>

definition oc20_chunk_get_state :: "Oc20Namespace \<Rightarrow> u64 \<Rightarrow> (nat \<times> Oc20CS) option option" where
  "oc20_chunk_get_state lns lba =
     (if \<not> oc20_lba_valid lns lba then Some None
      else let k = unat (oc20_lba_to_chunk_index lns lba)
           in if k < length (lns_chunk_info lns) then Some (Some (k, lns_chunk_info lns ! k)) else None)"

definition oc20_init_chunk_info :: "Oc20Namespace \<Rightarrow> Oc20CS list" where
  "oc20_init_chunk_info lns =
     (let geo = ng_geo (lns_id_ctrl lns); chunks = geo_num_chk geo; punits = ucast (geo_num_lun geo); f = lns_lbaf lns
      in map (\<lambda>k. let i = of_nat k :: u32
                  in \<lparr>cs_state = OC20_CHUNK_FREE, cs_type = OC20_CHUNK_TYPE_SEQ, cs_wear_index = 0, cs_rsvd = replicate 5 0,
                      cs_slba = scast (push_bit (unat (a20_grp_offset f)) (i div (chunks * punits)) OR
                        push_bit (unat (a20_lun_offset f)) (i mod (chunks * punits) div chunks) OR
                        push_bit (unat (a20_chk_offset f)) (i mod chunks)),
                      cs_cnlb = scast (geo_clba geo), cs_wp = 0\<rparr>)
           [0..<unat (lns_chks_total lns)])"

text \<open>The descriptor in memory.\<close>

definition cs_bytes :: "Oc20CS \<Rightarrow> u8 list" where
  "cs_bytes cs =
     [cs_state cs, cs_type cs, cs_wear_index cs] @ cs_rsvd cs @ le_bytes 8 (cs_slba cs) @ le_bytes 8 (cs_cnlb cs) @
     le_bytes 8 (cs_wp cs)"

definition CS_SIZE :: nat where "CS_SIZE = 32"

definition cs_of_bytes :: "u8 list \<Rightarrow> Oc20CS" where
  "cs_of_bytes bs =
     \<lparr>cs_state = bs ! 0, cs_type = bs ! 1, cs_wear_index = bs ! 2, cs_rsvd = take 5 (drop 3 bs),
      cs_slba = le64_of_bytes (drop 8 bs), cs_cnlb = le64_of_bytes (drop 16 bs), cs_wp = le64_of_bytes (drop 24 bs)\<rparr>"

subsection \<open>The write pointer\<close>

text \<open>The type is checked first: random chunks keep state and pointer.\<close>

definition oc20_advance_wp :: "femu \<Rightarrow> nat \<Rightarrow> u64 \<Rightarrow> u16 \<Rightarrow> (u16 \<times> femu) option" where
  "oc20_advance_wp n i lba nlb =
     do {
       lns \<leftarrow> lns_of n i;
       c \<leftarrow> oc20_chunk_get_state lns lba;
       (case c of
          None \<Rightarrow> Some (dnr NVME_INTERNAL_DEV_ERROR, n)
        | Some (k, cs) \<Rightarrow>
            if cs_type cs = OC20_CHUNK_TYPE_RAN then Some (sc NVME_SUCCESS, n)
            else
              let cs = (if cs_state cs = OC20_CHUNK_FREE then cs\<lparr>cs_state := OC20_CHUNK_OPEN\<rparr> else cs)
              in if cs_state cs \<noteq> OC20_CHUNK_OPEN then Some (dnr NVME_INTERNAL_DEV_ERROR, put_chunk n i lns k cs)
                 else
                   let cs = cs\<lparr>cs_wp := cs_wp cs + ucast nlb\<rparr>;
                       cs = (if cs_wp cs = cs_cnlb cs then cs\<lparr>cs_state := OC20_CHUNK_CLOSED\<rparr> else cs)
                   in Some (sc NVME_SUCCESS, put_chunk n i lns k cs))
     }"

subsection \<open>Emulated time\<close>

text \<open>Runs of addresses in the same page, in an array of 64 entries.\<close>

primrec oc20_parse_loop :: "Oc20AddrF \<Rightarrow> u64 list \<Rightarrow> u64 \<Rightarrow> AddrBucket list \<Rightarrow> AddrBucket list option" where
  "oc20_parse_loop f [] prev bucket = Some bucket"
| "oc20_parse_loop f (lba # lbas) prev bucket =
     (let cur = lba AND NOT (a20_sec_mask f)
      in if cur = prev then
           (if bucket = [] then None
            else oc20_parse_loop f lbas prev (butlast bucket @ [(last bucket)\<lparr>ab_cnt := Suc (ab_cnt (last bucket))\<rparr>]))
         else if OC20_CMD_MAX_LBAS \<le> length bucket then None
         else oc20_parse_loop f lbas cur (bucket @
                [\<lparr>ab_ch = c_int_of_u64 (OC20_LBA_GET_GROUP f lba), ab_lun = c_int_of_u64 (OC20_LBA_GET_PUNIT f lba),
                  ab_pg = c_int_of_u64 (OC20_LBA_GET_SECTR f lba), ab_page_type = 0, ab_cnt = 1\<rparr>]))"

definition oc20_parse_lba_list :: "Oc20AddrF \<Rightarrow> u64 list \<Rightarrow> AddrBucket list option" where
  "oc20_parse_lba_list f lbas = oc20_parse_loop f lbas (- 1) []"

text \<open>The page accesses of a read or write, one after the other; \<open>so_far\<close> is the longest time so far.\<close>

primrec oc_bucket_times ::
  "(AddrBucket \<Rightarrow> int) \<Rightarrow> bool \<Rightarrow> u64 \<Rightarrow> u8 \<Rightarrow> AddrBucket list \<Rightarrow> u64 \<Rightarrow> femu \<Rightarrow> (u64 \<times> femu) option" where
  "oc_bucket_times lunid is_write now opcode [] so_far n = Some (so_far, n)"
| "oc_bucket_times lunid is_write now opcode (b # bs) so_far n =
     do {
       (io_done_ts, n) \<leftarrow>
         (if is_write then
            advance_chip_timestamp n (lunid b) (advance_channel_timestamp n (ab_ch b) now opcode) opcode (ab_page_type b)
          else do {
            (chip_end_ts, n) \<leftarrow> advance_chip_timestamp n (lunid b) now opcode (ab_page_type b);
            Some (advance_channel_timestamp n (ab_ch b) chip_end_ts opcode, n)
          });
       let cur = io_done_ts - now;
       oc_bucket_times lunid is_write now opcode bs (if sint so_far < sint cur then cur else so_far) n
     }"

primrec oc20_erase_times ::
  "Oc20Namespace \<Rightarrow> u8 \<Rightarrow> u64 list \<Rightarrow> NvmeRequest \<Rightarrow> femu \<Rightarrow> (NvmeRequest \<times> femu) option" where
  "oc20_erase_times lns opcode [] req n = Some (req, n)"
| "oc20_erase_times lns opcode (lba # lbas) req n =
     do {
       let f = lns_lbaf lns;
       let ch = c_int_of_u64 (OC20_LBA_GET_GROUP f lba);
       let lun = c_int_of_u64 (OC20_LBA_GET_PUNIT f lba);
       let lunid = c_int (ch * sint (geo_num_chk (ng_geo (lns_id_ctrl lns))) + lun);
       (ts, n) \<leftarrow> advance_chip_timestamp n lunid (req_stime req) opcode 0;
       oc20_erase_times lns opcode lbas
         (if sint (req_expire_time req) < sint ts then req\<lparr>req_expire_time := ts\<rparr> else req) n
     }"

definition oc20_advance_status :: "femu \<Rightarrow> Oc20Namespace \<Rightarrow> NvmeRequest \<Rightarrow> u64 list \<Rightarrow> (NvmeRequest \<times> femu) option" where
  "oc20_advance_status n lns req lbas =
     (let opcode = cmd_opcode (req_cmd req); now = req_stime req;
          lunid = (\<lambda>b. c_int (ab_ch b * int (unat (geo_num_lun (ng_geo (lns_id_ctrl lns)))) + ab_lun b))
      in if opcode = OC20_CMD_VECT_ERASE then oc20_erase_times lns opcode lbas req n
         else do {
           bucket \<leftarrow> oc20_parse_lba_list (lns_lbaf lns) lbas;
           if \<not> (opcode = io_opcode NVME_CMD_READ \<or> opcode = OC20_CMD_VECT_READ \<or>
                 opcode = io_opcode NVME_CMD_WRITE \<or> opcode = OC20_CMD_VECT_WRITE) then None
           else if bucket = [] then None
           else do {
             (spent, n) \<leftarrow> oc_bucket_times lunid (req_is_write req \<noteq> 0) now opcode bucket 0 n;
             Some (req\<lparr>req_expire_time := now + spent\<rparr>, n)
           }
         })"

subsection \<open>Checks\<close>

definition oc20_rw_check_chunk_write :: "Oc20Namespace \<Rightarrow> u64 \<Rightarrow> u32 \<Rightarrow> u16 option" where
  "oc20_rw_check_chunk_write lns lba ws =
     oc20_chunk_get_state lns lba \<bind> (\<lambda>c.
       (case c of
          None \<Rightarrow> Some (dnr NVME_WRITE_FAULT)
        | Some (k, cnk) \<Rightarrow>
            let start_sectr = ucast (lba AND a20_sec_mask (lns_lbaf lns)) :: u32; end_sectr = start_sectr + ws
            in Some (if cs_state cnk AND OC20_CHUNK_OFFLINE \<noteq> 0 \<or> cs_state cnk AND OC20_CHUNK_CLOSED \<noteq> 0 then dnr NVME_WRITE_FAULT
                     else if cs_cnlb cnk < ucast end_sectr then dnr NVME_WRITE_FAULT
                     else if cs_type cnk = OC20_CHUNK_TYPE_RAN then
                       (if cs_state cnk \<noteq> OC20_CHUNK_OPEN then dnr NVME_WRITE_FAULT else sc NVME_SUCCESS)
                     else if ucast start_sectr \<noteq> cs_wp cnk then OC20_OUT_OF_ORDER_WRITE OR sc NVME_DNR
                     else sc NVME_SUCCESS)))"

text \<open>The loop over the addresses after the first: the current run starts at \<open>lba\<close> and has \<open>ws\<close> sectors.\<close>

primrec oc20_check_writes :: "Oc20Namespace \<Rightarrow> u64 list \<Rightarrow> u64 \<Rightarrow> u64 \<Rightarrow> u32 \<Rightarrow> u16 \<Rightarrow> u16 option" where
  "oc20_check_writes lns [] lba cidx sectr ws = oc20_rw_check_chunk_write lns lba (ucast ws)"
| "oc20_check_writes lns (next_lba # lbas) lba cidx sectr ws =
     (let next_cidx = oc20_lba_to_chunk_index lns next_lba; next_sectr = OC20_LBA_GET_SECTR (lns_lbaf lns) next_lba
      in if cidx \<noteq> next_cidx then
           oc20_rw_check_chunk_write lns lba (ucast ws) \<bind> (\<lambda>err.
             if err \<noteq> 0 then Some err
             else oc20_check_writes lns lbas next_lba next_cidx (ucast next_sectr) 1)
         else if ucast (sectr + 1) \<noteq> next_sectr then Some (OC20_OUT_OF_ORDER_WRITE OR sc NVME_DNR)
         else oc20_check_writes lns lbas lba cidx (sectr + 1) (ws + 1))"

definition oc20_rw_check_write_req :: "Oc20Namespace \<Rightarrow> u64 list \<Rightarrow> u16 option" where
  "oc20_rw_check_write_req lns lbas =
     (case lbas of
        [] \<Rightarrow> None
      | lba # rest \<Rightarrow>
          oc20_check_writes lns rest lba (oc20_lba_to_chunk_index lns lba)
            (ucast (OC20_LBA_GET_SECTR (lns_lbaf lns) lba)) 1)"

definition oc20_rw_check_chunk_read :: "Oc20Params \<Rightarrow> Oc20Namespace \<Rightarrow> u64 \<Rightarrow> u16 option" where
  "oc20_rw_check_chunk_read params lns lba =
     oc20_chunk_get_state lns lba \<bind> (\<lambda>c.
       (case c of
          None \<Rightarrow> Some (sc NVME_DULB)
        | Some (k, cnk) \<Rightarrow>
            let sectr = OC20_LBA_GET_SECTR (lns_lbaf lns) lba; mw_cunits = ucast (par20_mw_cunits params);
                wp = cs_wp cnk; state = cs_state cnk
            in Some (if cs_type cnk = OC20_CHUNK_TYPE_RAN then
                       (if state \<noteq> OC20_CHUNK_OPEN \<or> cs_cnlb cnk \<le> sectr then sc NVME_DULB else sc NVME_SUCCESS)
                     else if state = OC20_CHUNK_CLOSED \<and> sectr < wp then sc NVME_SUCCESS
                     else if state = OC20_CHUNK_OPEN \<and> \<not> wp < mw_cunits \<and> sectr < wp - mw_cunits then sc NVME_SUCCESS
                     else sc NVME_DULB)))"

text \<open>Sectors that were not written do not make a read fail; they are only marked in \<open>predef\<close>.\<close>

primrec oc20_rw_check_read_req :: "Oc20Params \<Rightarrow> Oc20Namespace \<Rightarrow> u64 list \<Rightarrow> u16 option" where
  "oc20_rw_check_read_req params lns [] = Some (sc NVME_SUCCESS)"
| "oc20_rw_check_read_req params lns (lba # lbas) =
     oc20_rw_check_chunk_read params lns lba \<bind> (\<lambda>err.
       if err = 0 \<or> err AND sc NVME_DULB \<noteq> 0 then oc20_rw_check_read_req params lns lbas else Some err)"

definition oc20_rw_check_vector_req :: "Oc20Params \<Rightarrow> Oc20Namespace \<Rightarrow> bool \<Rightarrow> u64 list \<Rightarrow> u16 option" where
  "oc20_rw_check_vector_req params lns is_write lbas =
     (if is_write then oc20_rw_check_write_req lns lbas else oc20_rw_check_read_req params lns lbas)"

subsection \<open>Reset of a chunk\<close>

definition oc20_chunk_set_free :: "oc_env \<Rightarrow> femu \<Rightarrow> nat \<Rightarrow> u64 \<Rightarrow> u64 \<Rightarrow> (u16 \<times> femu) option" where
  "oc20_chunk_set_free env n i lba mptr =
     do {
       lns \<leftarrow> lns_of n i;
       c \<leftarrow> oc20_chunk_get_state lns lba;
       (case c of
          None \<Rightarrow> Some (OC20_INVALID_RESET OR sc NVME_DNR, n)
        | Some (k, cs) \<Rightarrow> do {
            prob \<leftarrow> (case lns_resetfail lns of None \<Rightarrow> Some 0 | Some tbl \<Rightarrow> if k < length tbl then Some (tbl ! k) else None);
            let mccap = par20_mccap (n_params_oc20 n);
            if prob \<noteq> 0 \<and> oe_rand env n mod 100 < ucast prob then
              Some (OC20_INVALID_RESET OR sc NVME_DNR, put_chunk n i lns k (cs\<lparr>cs_state := OC20_CHUNK_OFFLINE, cs_wp := 0xffff\<rparr>))
            else if cs_state cs AND OC20_CHUNK_RESETABLE = 0 then Some (sc NVME_DNR OR OC20_OFFLINE_CHUNK, n)
            else if cs_state cs = OC20_CHUNK_FREE \<and> mccap AND OC20_PARAMS_MCCAP_MULTIPLE_RESETS = 0 \<or>
                    cs_state cs = OC20_CHUNK_OPEN \<and> mccap AND OC20_PARAMS_MCCAP_EARLY_RESET = 0 then
              Some (OC20_INVALID_RESET OR sc NVME_DNR, n)
            else
              let cs = cs\<lparr>cs_state := OC20_CHUNK_FREE, cs_wear_index := cs_wear_index cs + 1, cs_wp := 0\<rparr>;
                  n = put_chunk n i lns k cs
              in Some (sc NVME_SUCCESS, if mptr \<noteq> 0 then addr_write n mptr (cs_bytes cs) else n)
          })
     }"

primrec oc20_erase_loop :: "oc_env \<Rightarrow> femu \<Rightarrow> nat \<Rightarrow> u64 \<Rightarrow> u64 list \<Rightarrow> (u16 \<times> femu) option" where
  "oc20_erase_loop env n i mptr [] = Some (sc NVME_SUCCESS, n)"
| "oc20_erase_loop env n i mptr (lba # lbas) =
     do {
       lns \<leftarrow> lns_of n i;
       c \<leftarrow> oc20_chunk_get_state lns lba;
       if c = None then Some (OC20_INVALID_RESET, n)
       else do {
         (err, n) \<leftarrow> oc20_chunk_set_free env n i lba mptr;
         if err \<noteq> 0 then Some (err, n)
         else oc20_erase_loop env n i (if mptr \<noteq> 0 then mptr + of_nat CS_SIZE else mptr) lbas
       }
     }"

text \<open>The \<open>rw_check_req\<close> operation, which nothing calls.\<close>

primrec oc20_predef_loop :: "femu \<Rightarrow> Oc20Namespace \<Rightarrow> NvmeRequest \<Rightarrow> u64 list \<Rightarrow> (u16 \<times> NvmeRequest) option" where
  "oc20_predef_loop n lns req [] = Some (sc NVME_SUCCESS, req)"
| "oc20_predef_loop n lns req (lba # lbas) =
     oc20_rw_check_chunk_read (n_params_oc20 n) lns lba \<bind> (\<lambda>err.
       if err = 0 then oc20_predef_loop n lns req lbas
       else if err AND sc NVME_DULB \<noteq> 0 then
         Some (if NVME_ERR_REC_DULBE (feat_err_rec (n_features n)) \<noteq> 0 then dnr NVME_DULB else sc NVME_SUCCESS,
           req\<lparr>req_predef := lba\<rparr>)
       else Some (err, req))"

definition lrw_of_cmd :: "NvmeCmd \<Rightarrow> Oc20RwCmd" where
  "lrw_of_cmd c =
     \<lparr>lrw_opcode = cmd_opcode c, lrw_nsid = cmd_nsid c, lrw_prp1 = cmd_prp1 c, lrw_prp2 = cmd_prp2 c,
      lrw_lbal = qword (cmd_cdw10 c) (cmd_cdw11 c), lrw_nlb = lo16 (cmd_cdw12 c)\<rparr>"

definition oc20_rw_check_req :: "femu \<Rightarrow> nat \<Rightarrow> NvmeRequest \<Rightarrow> (u16 \<times> NvmeRequest) option" where
  "oc20_rw_check_req n i req =
     (let rw = lrw_of_cmd (req_cmd req); nlb = lrw_nlb rw + 1; slba = lrw_lbal rw; params = n_params_oc20 n
      in lns_of n i \<bind> (\<lambda>lns.
        if lrw_opcode rw = io_opcode NVME_CMD_WRITE then
          (if ucast nlb < par20_ws_min params then Some (dnr NVME_INVALID_FIELD, req)
           else if par20_ws_min params = 0 then None
           else if ucast nlb mod par20_ws_min params \<noteq> 0 then Some (dnr NVME_INVALID_FIELD, req)
           else map_option (\<lambda>err. (err, req)) (oc20_rw_check_chunk_write lns slba (ucast nlb)))
        else if lrw_opcode rw = io_opcode NVME_CMD_READ then
          oc20_predef_loop n lns req (map (\<lambda>k. slba + of_nat k) [0..<unat nlb])
        else Some (sc NVME_SUCCESS, req)))"

subsection \<open>Files of failure probabilities\<close>

text \<open>\<open>strstr\<close> followed by the length of the key.\<close>

fun strstr_after :: "string \<Rightarrow> string \<Rightarrow> string option" where
  "strstr_after key s =
     (if take (length key) s = key then Some (drop (length key) s)
      else case s of [] \<Rightarrow> None | _ # t \<Rightarrow> strstr_after key t)"

declare strstr_after.simps [simp del]

text \<open>\<open>sscanf\<close> with \<open>%u\<close>: -1 at the end of the string, 0 without a number, 1 with one.  Overflow saturates the
  \<open>unsigned long\<close> that is then truncated.\<close>

datatype scan = Scan_eof | Scan_none | Scanned u32

definition is_digit :: "char \<Rightarrow> bool" where "is_digit c \<longleftrightarrow> (48::nat) \<le> of_char c \<and> of_char c \<le> (57::nat)"
definition is_space :: "char \<Rightarrow> bool" where
  "is_space c \<longleftrightarrow> of_char c = (32::nat) \<or> (9::nat) \<le> of_char c \<and> of_char c \<le> (13::nat)"

definition digits_value :: "string \<Rightarrow> nat" where
  "digits_value = foldl (\<lambda>v c. v * 10 + (of_char c - 48)) 0"

definition strtoul :: "bool \<Rightarrow> nat \<Rightarrow> u32" where
  "strtoul neg v = (if 2 ^ 64 \<le> v then - 1 else if neg then - of_nat v else of_nat v)"

definition scan_unsigned :: "string \<Rightarrow> scan" where
  "scan_unsigned s =
     (case dropWhile is_space s of
        [] \<Rightarrow> Scan_eof
      | c # t \<Rightarrow>
          let signed = (c = CHR ''+'' \<or> c = CHR ''-''); ds = takeWhile is_digit (if signed then t else c # t)
          in if ds = [] then Scan_none else Scanned (strtoul (c = CHR ''-'') (digits_value ds)))"

text \<open>The value of a key, \<open>None\<close> when the function returns 0.  The result -1 of \<open>sscanf\<close> counts as success and leaves
  the variable unassigned.\<close>

definition get_unsigned :: "u32 \<Rightarrow> string \<Rightarrow> string \<Rightarrow> u32 option" where
  "get_unsigned unassigned string key =
     strstr_after key string \<bind> (\<lambda>rest.
       (case scan_unsigned rest of Scan_eof \<Rightarrow> Some unassigned | Scan_none \<Rightarrow> None | Scanned v \<Rightarrow> Some v))"

definition get_ch_lun_chk :: "oc_env \<Rightarrow> string \<Rightarrow> (u32 \<times> u32 \<times> u32) option" where
  "get_ch_lun_chk env chunkinfo =
     do {
       grp \<leftarrow> get_unsigned (oe_junk env 0) chunkinfo ''grp='';
       lun \<leftarrow> get_unsigned (oe_junk env 1) chunkinfo ''pu='';
       chk \<leftarrow> get_unsigned (oe_junk env 2) chunkinfo ''chk='';
       Some (grp, lun, chk)
     }"

definition get_chunk_meta_index :: "Oc20Namespace \<Rightarrow> u32 \<Rightarrow> u32 \<Rightarrow> u32 \<Rightarrow> int" where
  "get_chunk_meta_index lns grp lun chk =
     (let geo = ng_geo (lns_id_ctrl lns)
      in if geo_num_chk geo \<le> chk \<or> ucast (geo_num_lun geo) \<le> lun \<or> ucast (geo_num_grp geo) \<le> grp then - 1
         else sint (geo_num_chk geo * (grp * ucast (geo_num_lun geo) + lun) + chk))"

text \<open>The outer \<open>None\<close> is an access outside the table, the inner one a line that is refused.\<close>

definition set_resetfail_chunk :: "oc_env \<Rightarrow> Oc20Namespace \<Rightarrow> string \<Rightarrow> Oc20Namespace option option" where
  "set_resetfail_chunk env lns chunkinfo =
     (case (get_ch_lun_chk env chunkinfo, get_unsigned (oe_junk env 3) chunkinfo ''resetfail_prob='') of
        (Some (ch, lun, chk), Some prob) \<Rightarrow>
          let i = get_chunk_meta_index lns ch lun chk
          in if 100 < prob \<or> i < 0 then Some None
             else lns_resetfail lns \<bind> (\<lambda>tbl.
               if nat i < length tbl then Some (Some (lns\<lparr>lns_resetfail := Some (tbl[nat i := ucast prob])\<rparr>)) else None)
      | _ \<Rightarrow> Some None)"

definition set_writefail_sector :: "oc_env \<Rightarrow> Oc20Namespace \<Rightarrow> string \<Rightarrow> Oc20Namespace option option" where
  "set_writefail_sector env lns secinfo =
     (case (get_ch_lun_chk env secinfo, get_unsigned (oe_junk env 4) secinfo ''sec='',
            get_unsigned (oe_junk env 3) secinfo ''writefail_prob='') of
        (Some (ch, lun, chk), Some sec, Some prob) \<Rightarrow>
          if geo_clba (ng_geo (lns_id_ctrl lns)) \<le> sec \<or> 100 < prob then Some None
          else
            let k = unat (oc20_lba_to_sector_index lns (OC20_LBA (lns_lbaf lns) ch lun chk sec))
            in lns_writefail lns \<bind> (\<lambda>tbl.
              if k < length tbl then Some (Some (lns\<lparr>lns_writefail := Some (tbl[k := ucast prob])\<rparr>)) else None)
      | _ \<Rightarrow> Some None)"

primrec load_lines ::
  "(Oc20Namespace \<Rightarrow> string \<Rightarrow> Oc20Namespace option option) \<Rightarrow> string list \<Rightarrow> Oc20Namespace \<Rightarrow> (bool \<times> Oc20Namespace) option" where
  "load_lines set_line [] lns = Some (True, lns)"
| "load_lines set_line (l # ls) lns =
     set_line lns l \<bind> (\<lambda>r. case r of None \<Rightarrow> Some (False, lns) | Some lns \<Rightarrow> load_lines set_line ls lns)"

definition load_file ::
  "(Oc20Namespace \<Rightarrow> string \<Rightarrow> Oc20Namespace option option) \<Rightarrow> fail_file \<Rightarrow> Oc20Namespace \<Rightarrow> (bool \<times> Oc20Namespace) option" where
  "load_file set_line file lns =
     (case file of No_file \<Rightarrow> Some (True, lns) | Unreadable \<Rightarrow> Some (False, lns) | Lines ls \<Rightarrow> load_lines set_line ls lns)"

definition oc20_resetfail_load :: "oc_env \<Rightarrow> femu \<Rightarrow> Oc20Namespace \<Rightarrow> (bool \<times> Oc20Namespace) option" where
  "oc20_resetfail_load env n lns = load_file (set_resetfail_chunk env) (par20_resetfail_fname (n_params_oc20 n)) lns"

definition oc20_writefail_load :: "oc_env \<Rightarrow> femu \<Rightarrow> Oc20Namespace \<Rightarrow> (bool \<times> Oc20Namespace) option" where
  "oc20_writefail_load env n lns = load_file (set_writefail_sector env) (par20_writefail_fname (n_params_oc20 n)) lns"

subsection \<open>I/O commands\<close>

definition oc20_rw_is_write :: "NvmeRequest \<Rightarrow> bool" where
  "oc20_rw_is_write req \<longleftrightarrow> req_cmd_opcode req = io_opcode NVME_CMD_WRITE \<or> req_cmd_opcode req = OC20_CMD_VECT_WRITE"

text \<open>The addresses of a command: a list in memory, one address, or consecutive ones.\<close>

definition oc20_lba_list :: "femu \<Rightarrow> bool \<Rightarrow> u64 \<Rightarrow> nat \<Rightarrow> u64 list" where
  "oc20_lba_list n vector lbal nlb =
     (if vector then (if 1 < nlb then le64s_of_bytes nlb (addr_read n lbal (nlb * 8)) else [lbal])
      else map (\<lambda>k. lbal + of_nat k) [0..<nlb])"

definition OFFSET_LBAL :: u16 where "OFFSET_LBAL = 40"

definition oc20_rw :: "oc_env \<Rightarrow> femu \<Rightarrow> nat \<Rightarrow> NvmeRequest \<Rightarrow> bool \<Rightarrow> io_result" where
  "oc20_rw env n i req vector =
     (let lrw = lrw_of_cmd (req_cmd req); nlb = ucast (lrw_nlb lrw) + 1 :: u32; ns = n_namespaces n ! i;
          lbads = unat (lbaf_lbads (ns_lbaf ns))
      in if of_nat OC20_CMD_MAX_LBAS < nlb then
           with_req req (refuse n req NVME_INVALID_FIELD OFFSET_LBAL 0 (ns_id ns) (dnr NVME_INVALID_FIELD))
         else
           let is_write = oc20_rw_is_write req;
               req = req\<lparr>req_predef := 0, req_nlb := ucast nlb, req_slba := oe_malloc env n,
                       req_is_write := (if is_write then 1 else 0)\<rparr>;
               lbas = oc20_lba_list n vector (lrw_lbal lrw) (unat nlb)
           in do {
             lns \<leftarrow> lns_of n i;
             err \<leftarrow> oc20_rw_check_vector_req (n_params_oc20 n) lns is_write lbas;
             if err \<noteq> 0 then Some (err, req, n)
             else
               (case nvme_map_prp (n_dma n) (n_host n) (lrw_prp1 lrw) (lrw_prp2 lrw) (push_bit lbads nlb) of
                  (status, cmb, sg) \<Rightarrow>
                    if status \<noteq> 0 then Some (dnr NVME_INVALID_FIELD, req\<lparr>req_qsg := []\<rparr>, n)
                    else if cmb then None
                    else do {
                      (be, h) \<leftarrow> backend_rw (n_mbe n) (n_host n) sg (map (push_bit lbads) lbas) is_write;
                      (req, n) \<leftarrow> oc20_advance_status (n\<lparr>n_mbe := be, n_host := h\<rparr>) lns (req\<lparr>req_qsg := []\<rparr>) lbas;
                      n \<leftarrow> (if is_write then map_option snd (oc20_advance_wp n i (lbas ! 0) (ucast nlb)) else Some n);
                      Some (sc NVME_SUCCESS, req, n)
                    })
           })"

definition oc20_erase :: "oc_env \<Rightarrow> femu \<Rightarrow> nat \<Rightarrow> NvmeRequest \<Rightarrow> io_result" where
  "oc20_erase env n i req =
     (let cmd = req_cmd req; lrw = lrw_of_cmd cmd; nlb = ucast (lrw_nlb lrw) + 1 :: u32
      in with_req (req\<lparr>req_nlb := ucast nlb, req_slba := oe_malloc env n\<rparr>)
           (oc20_erase_loop env n i (cmd_mptr cmd) (oc20_lba_list n True (lrw_lbal lrw) (unat nlb))))"

definition oc20_io_cmd :: "oc_env \<Rightarrow> femu \<Rightarrow> nat \<Rightarrow> NvmeRequest \<Rightarrow> io_result" where
  "oc20_io_cmd env n i req =
     (let op = cmd_opcode (req_cmd req)
      in if op = io_opcode NVME_CMD_READ \<or> op = io_opcode NVME_CMD_WRITE then oc20_rw env n i req False
         else if op = OC20_CMD_VECT_READ \<or> op = OC20_CMD_VECT_WRITE then oc20_rw env n i req True
         else if op = OC20_CMD_VECT_ERASE then oc20_erase env n i req
         else Some (dnr NVME_INVALID_OPCODE, req, n))"

end
