(* ===== verification/Oc20_Ctrl.thy ===== *)
theory Oc20_Ctrl
  imports Oc20
begin

text \<open>
  Admin commands, log pages and initialisation of the open-channel 2.0 mode (\<open>femu/ocssd/oc20.c\<close>).
\<close>

subsection \<open>Identify and the chunk log\<close>

definition oc20_geometry_bytes :: "Oc20NamespaceGeometry \<Rightarrow> u8 list" where
  "oc20_geometry_bytes g =
     (let l = ng_lbaf g; geo = ng_geo g; w = ng_wrt g; p = ng_perf g
      in [ng_ver_major g, ng_ver_minor g] @ zeros 6 @
         [laf_grp_len l, laf_lun_len l, laf_chk_len l, laf_sec_len l] @ zeros 4 @ le4 (ng_mccap g) @ zeros 12 @
         [ng_wit g] @ zeros 31 @
         le2 (geo_num_grp geo) @ le2 (geo_num_lun geo) @ le4 (geo_num_chk geo) @ le4 (geo_clba geo) @ zeros 52 @
         le4 (wrt_ws_min w) @ le4 (wrt_ws_opt w) @ le4 (wrt_mw_cunits w) @ le4 (wrt_max_open_chks w) @
         le4 (wrt_max_open_punits w) @ zeros 44 @
         le4 (perf_trdt p) @ le4 (perf_trdm p) @ le4 (perf_tprt p) @ le4 (perf_tprm p) @ le4 (perf_tbet p) @
         le4 (perf_tbem p) @ zeros 40 @ zeros 3840)"

definition oc20_identify :: "femu \<Rightarrow> NvmeCmd \<Rightarrow> admin_result" where
  "oc20_identify n cmd =
     (let nsid = cmd_nsid cmd
      in if nsid = 0 \<or> p_num_namespaces (n_cfg n) < nsid then answer NVME_INVALID_NSID n
         else lns_of n (unat nsid - 1) \<bind> (\<lambda>lns. send_data n cmd (oc20_geometry_bytes (lns_id_ctrl lns))))"

text \<open>The descriptors as the bytes of the log and back.\<close>

definition chunk_log :: "Oc20CS list \<Rightarrow> u8 list" where "chunk_log cs = concat (map cs_bytes cs)"

definition chunks_of_log :: "u8 list \<Rightarrow> Oc20CS list" where
  "chunks_of_log bs = map (\<lambda>k. cs_of_bytes (take CS_SIZE (drop (CS_SIZE * k) bs))) [0..<length bs div CS_SIZE]"

text \<open>\<open>off + buf_len\<close> wraps around.\<close>

definition oc20_chunk_info :: "femu \<Rightarrow> NvmeCmd \<Rightarrow> u32 \<Rightarrow> u64 \<Rightarrow> admin_result" where
  "oc20_chunk_info n cmd buf_len off =
     (let nsid = cmd_nsid cmd; i = unat nsid - 1
      in if nsid = 0 \<or> p_num_namespaces (n_cfg n) < nsid then None
         else do {
           lns \<leftarrow> lns_of n i;
           let log_len = lns_chks_total lns * of_nat CS_SIZE;
           let trans_len = unat (min log_len buf_len);
           let log = chunk_log (lns_chunk_info lns);
           if ucast log_len < off + ucast buf_len \<or> length log < unat off + trans_len then None
           else if cmd_opcode cmd = adm_opcode NVME_ADM_CMD_GET_LOG_PAGE then
             send_data n cmd (take trans_len (drop (unat off) log))
           else do {
             (status, buf) \<leftarrow> dma_write_prp (n_dma n) (n_host n) (take trans_len (drop (unat off) log)) (cmd_prp1 cmd) (cmd_prp2 cmd);
             if status \<noteq> 0 then Some (status, n)
             else success (put_lns n i (lns\<lparr>lns_chunk_info := chunks_of_log (overwrite log (unat off) buf)\<rparr>))
           }
         })"

definition oc20_log_page :: "femu \<Rightarrow> NvmeCmd \<Rightarrow> admin_result" where
  "oc20_log_page n cmd =
     (let dw10 = cmd_cdw10 cmd; dw11 = cmd_cdw11 cmd;
          lid = ucast (dw10 AND 0xff) :: u16;
          numdl = drop_bit 16 dw10; numdu = dw11 AND 0xffff;
          len = push_bit 2 ((push_bit 16 numdu OR numdl) + 1) :: u32;
          off = push_bit 32 (ucast (cmd_cdw13 cmd)) OR ucast (cmd_cdw12 cmd) :: u64
      in if lid = OC20_CHUNK_INFO then oc20_chunk_info n cmd len off else answer NVME_INVALID_LOG_ID n)"

definition oc20_get_log :: "femu \<Rightarrow> NvmeCmd \<Rightarrow> admin_result" where "oc20_get_log n cmd = oc20_log_page n cmd"

definition oc20_set_log :: "femu \<Rightarrow> NvmeCmd \<Rightarrow> admin_result" where "oc20_set_log n cmd = oc20_log_page n cmd"

definition oc20_admin_cmd :: "femu \<Rightarrow> NvmeCmd \<Rightarrow> admin_result" where
  "oc20_admin_cmd n cmd =
     (if cmd_opcode cmd = OC20_ADM_CMD_IDENTIFY then oc20_identify n cmd
      else if cmd_opcode cmd = OC20_ADM_CMD_SET_LOG_PAGE then oc20_set_log n cmd
      else answer NVME_INVALID_OPCODE n)"

subsection \<open>Initialisation\<close>

text \<open>The metadata formats; \<open>ms_min\<close> starts at 8 and never equals \<open>params->ms\<close>, which is 0.\<close>

primrec oc20_lbaf_loop :: "u8 \<Rightarrow> nat list \<Rightarrow> u16 \<Rightarrow> NvmeIdNs \<Rightarrow> NvmeIdNs" where
  "oc20_lbaf_loop ms_max [] ms_min d = d"
| "oc20_lbaf_loop ms_max (i # js) ms_min d =
     (if ucast ms_max < ms_min then d
      else oc20_lbaf_loop ms_max js (ms_min * 2)
             (d\<lparr>idns_lbaf := (idns_lbaf d)[i := (idns_lbaf d ! i)\<lparr>lbaf_lbads := 12, lbaf_ms := ms_min\<rparr>],
                idns_nlbaf := idns_nlbaf d + 1\<rparr>))"

definition oc20_nvme_ns_init_identify :: "femu \<Rightarrow> NvmeIdNs \<Rightarrow> NvmeIdNs" where
  "oc20_nvme_ns_init_identify n d =
     oc20_lbaf_loop (p_ms_max (n_cfg n)) [1..<16] 8
       (d\<lparr>idns_nsfeat := 4, idns_nlbaf := 0, idns_flbas := 0, idns_vs := 1,
          idns_lbaf := (idns_lbaf d)[0 := (idns_lbaf d ! 0)\<lparr>lbaf_lbads := 12, lbaf_ms := 0\<rparr>]\<rparr>)"

text \<open>Blocks of the namespace with their metadata; the divisor is an \<open>int\<close>.\<close>

definition nvme_ns_calc_blks :: "femu \<Rightarrow> NvmeNamespace \<Rightarrow> u64 option" where
  "nvme_ns_calc_blks n ns =
     (let f = ns_lbaf ns; divisor = scast (push_bit (unat (lbaf_lbads f)) 1 + ucast (lbaf_ms f) :: u32) :: u64
      in if divisor = 0 then None else Some (n_ns_size n div divisor))"

text \<open>\<open>32 - clz32(v)\<close>.\<close>

definition bit_length32 :: "u32 \<Rightarrow> u8" where
  "bit_length32 v = (if v = 0 then 0 else of_nat (highest_bit v) + 1)"

definition femu_oc20_init_id_ctrl :: "femu \<Rightarrow> NvmeNamespace \<Rightarrow> Oc20NamespaceGeometry option" where
  "femu_oc20_init_id_ctrl n ns =
     (let p = p_oc (n_cfg n); num_secs = ucast (ocp_secs_per_pg p) * ucast (ocp_pgs_per_blk p) * ucast (ocp_num_pln p) :: u32;
          divisor = scast (ucast (ocp_secs_per_pg p) * ucast (ocp_pgs_per_blk p) * ucast (ocp_num_ch p) *
            ucast (ocp_num_lun p) * ucast (ocp_num_pln p) :: u32) :: u64;
          num_chunks = ucast (ns_ns_blks ns div divisor) :: u32
      in if divisor = 0 then None
         else Some
           \<lparr>ng_ver_major = 2, ng_ver_minor = 0,
            ng_lbaf = \<lparr>laf_grp_len = bit_length32 (ucast (ocp_num_ch p) - 1),
                       laf_lun_len = bit_length32 (ucast (ocp_num_lun p) - 1),
                       laf_chk_len = bit_length32 (num_chunks - 1), laf_sec_len = bit_length32 (num_secs - 1)\<rparr>,
            ng_mccap = 0, ng_wit = 0,
            ng_geo = \<lparr>geo_num_grp = ucast (ocp_num_ch p), geo_num_lun = ucast (ocp_num_lun p), geo_num_chk = num_chunks,
                      geo_clba = num_secs\<rparr>,
            ng_wrt = \<lparr>wrt_ws_min = 4, wrt_ws_opt = 8, wrt_mw_cunits = 24, wrt_max_open_chks = 0, wrt_max_open_punits = 0\<rparr>,
            ng_perf = \<lparr>perf_trdt = 70000, perf_trdm = 100000, perf_tprt = 1900000, perf_tprm = 3500000, perf_tbet = 3000000,
                       perf_tbem = 3000000\<rparr>\<rparr>)"

text \<open>\<open>((1 << len) - 1) << offset\<close> on \<open>int\<close>; a shift by 32 or more is undefined.\<close>

definition int_mask :: "u8 \<Rightarrow> u8 \<Rightarrow> u64 option" where
  "int_mask len offset' =
     (if 32 \<le> len \<or> 32 \<le> offset' then None
      else Some (scast (push_bit (unat offset') (push_bit (unat len) 1 - 1) :: u32)))"

definition oc20_addr_format :: "Oc20IdLBAF \<Rightarrow> Oc20AddrF option" where
  "oc20_addr_format l =
     (let chk = laf_sec_len l; lun = laf_sec_len l + laf_chk_len l; grp = laf_sec_len l + laf_chk_len l + laf_lun_len l
      in do {
        gm \<leftarrow> int_mask (laf_grp_len l) grp;
        lm \<leftarrow> int_mask (laf_lun_len l) lun;
        cm \<leftarrow> int_mask (laf_chk_len l) chk;
        sm \<leftarrow> int_mask (laf_sec_len l) 0;
        Some \<lparr>a20_grp_mask = gm, a20_lun_mask = lm, a20_chk_mask = cm, a20_sec_mask = sm, a20_grp_offset = grp,
              a20_lun_offset = lun, a20_chk_offset = chk, a20_sec_offset = 0\<rparr>
      })"

definition GEOMETRY_SIZE :: u64 where "GEOMETRY_SIZE = 4096"

text \<open>A fresh namespace state of the given geometry.\<close>

definition oc20_new_lns :: "Oc20NamespaceGeometry \<Rightarrow> u32 \<Rightarrow> u64 \<Rightarrow> Oc20AddrF \<Rightarrow> Oc20Namespace" where
  "oc20_new_lns id_ctrl mccap chunkinfo_size f =
     (let geo = ng_geo id_ctrl; chks_per_grp = geo_num_chk geo * ucast (geo_num_lun geo);
          secs_per_lun = geo_clba geo * geo_num_chk geo; secs_per_grp = secs_per_lun * ucast (geo_num_lun geo);
          lns = \<lparr>lns_id_ctrl = id_ctrl\<lparr>ng_mccap := mccap\<rparr>, lns_lbaf = f, lns_resetfail = None, lns_writefail = None,
                 lns_chks_per_grp = chks_per_grp, lns_chks_total = chks_per_grp * ucast (geo_num_grp geo),
                 lns_secs_per_chk = geo_clba geo, lns_secs_per_lun = secs_per_lun, lns_secs_per_grp = secs_per_grp,
                 lns_secs_total = secs_per_grp * geo_clba geo, lns_chunkinfo_size = chunkinfo_size, lns_chunk_info = []\<rparr>
      in lns\<lparr>lns_chunk_info := oc20_init_chunk_info lns\<rparr>)"

text \<open>The places of the parts of the namespace; nothing uses them.  Its own buffer of predefined data is filled and
  forgotten.\<close>

definition oc20_place_ns :: "femu \<Rightarrow> NvmeNamespace \<Rightarrow> u64 \<Rightarrow> NvmeNamespace option" where
  "oc20_place_ns n ns chunkinfo_size =
     (let bytes = scast (push_bit (unat (lbaf_lbads (ns_lbaf ns))) 1 :: u32) :: u64;
          data = ns_blk_begin ns + 2 * bytes + chunkinfo_size
      in nvme_ns_calc_blks n ns \<bind> (\<lambda>blks.
        if bytes = 0 then None
        else
          let nblks = blks - (2 + chunkinfo_size div bytes)
          in Some (ns\<lparr>ns_ns_blks := nblks, ns_blk_predef := ns_blk_begin ns + GEOMETRY_SIZE + chunkinfo_size + bytes,
               ns_blk_data := data, ns_blk_meta := data + bytes * nblks\<rparr>)))"

definition oc20_set_sizes :: "Oc20IdLBAF \<Rightarrow> NvmeIdNs \<Rightarrow> NvmeIdNs option" where
  "oc20_set_sizes l d =
     (let bits = unat (laf_sec_len l) + unat (laf_chk_len l) + unat (laf_lun_len l) + unat (laf_grp_len l);
          size' = push_bit bits 1
      in if 64 \<le> bits then None else Some (d\<lparr>idns_nsze := size', idns_ncap := size', idns_nuse := size'\<rparr>))"

text \<open>The failure files.  A file of write failures aborts.\<close>

definition oc20_load_failures :: "oc_env \<Rightarrow> femu \<Rightarrow> Oc20Namespace \<Rightarrow> (bool \<times> Oc20Namespace) option" where
  "oc20_load_failures env n lns =
     do {
       (loaded, lns) \<leftarrow>
         (if par20_resetfail_fname (n_params_oc20 n) = No_file then Some (True, lns)
          else oc20_resetfail_load env n (lns\<lparr>lns_resetfail := Some (replicate (unat (lns_chks_total lns)) 0)\<rparr>));
       if loaded \<and> par20_writefail_fname (n_params_oc20 n) \<noteq> No_file then None else Some (loaded, lns)
     }"

definition oc20_init_namespace :: "oc_env \<Rightarrow> femu \<Rightarrow> nat \<Rightarrow> (bool \<times> femu) option" where
  "oc20_init_namespace env n i =
     (let ns = n_namespaces n ! i; id_ns = oc20_nvme_ns_init_identify n (ns_id_ns ns); hdr = n_oc20_hdr n
      in do {
        id_ctrl \<leftarrow> femu_oc20_init_id_ctrl n ns;
        let params = (n_params_oc20 n)\<lparr>par20_mccap := ng_mccap id_ctrl, par20_ws_min := wrt_ws_min (ng_wrt id_ctrl),
                        par20_ws_opt := wrt_ws_opt (ng_wrt id_ctrl), par20_mw_cunits := wrt_mw_cunits (ng_wrt id_ctrl)\<rparr>;
        let id_ns = id_ns\<lparr>idns_lbaf := (idns_lbaf id_ns)[0 := (idns_lbaf id_ns ! 0)\<lparr>
                       lbaf_lbads := of_nat (highest_bit (hdr_sector_size hdr)), lbaf_ms := ucast (hdr_md_size hdr)\<rparr>],
                     idns_nlbaf := 0, idns_flbas := 0\<rparr>;
        let geo = ng_geo id_ctrl;
        let chks_total = (ucast (ucast (geo_num_grp geo) * ucast (geo_num_lun geo) * geo_num_chk geo) :: u64);
        if hdr_sector_size hdr = 0 then None
        else do {
          let size' = (chks_total * of_nat CS_SIZE + hdr_sector_size hdr - 1) div hdr_sector_size hdr * hdr_sector_size hdr;
          ns \<leftarrow> oc20_place_ns n (ns\<lparr>ns_id_ns := id_ns\<rparr>) size';
          let params = (if par20_early_reset params \<noteq> 0
                        then params\<lparr>par20_mccap := par20_mccap params OR OC20_PARAMS_MCCAP_EARLY_RESET\<rparr> else params);
          f \<leftarrow> oc20_addr_format (ng_lbaf id_ctrl);
          id_ns \<leftarrow> oc20_set_sizes (ng_lbaf id_ctrl) (ns_id_ns ns);
          let n = n\<lparr>n_params_oc20 := params\<rparr>;
          (loaded, lns) \<leftarrow> oc20_load_failures env n (oc20_new_lns id_ctrl (par20_mccap params) size' f);
          Some (loaded, upd_ns n i (\<lambda>_. ns\<lparr>ns_id_ns := id_ns, ns_state := Some lns\<rparr>))
        }
      })"

primrec oc20_init_loop :: "oc_env \<Rightarrow> nat list \<Rightarrow> femu \<Rightarrow> femu option" where
  "oc20_init_loop env [] n = Some n"
| "oc20_init_loop env (i # js) n =
     do {
       let n = upd_ns n i (\<lambda>ns. ns\<lparr>ns_id_ns := (ns_id_ns ns)\<lparr>idns_vs := 1\<rparr>,
                 ns_blk_begin := hdr_sector_size (n_oc20_hdr n) + of_nat i * hdr_ns_size (n_oc20_hdr n)\<rparr>);
       (loaded, n) \<leftarrow> oc20_init_namespace env n i;
       if loaded then oc20_init_loop env js n else Some n
     }"

definition oc20_init_namespaces :: "oc_env \<Rightarrow> femu \<Rightarrow> femu option" where
  "oc20_init_namespaces env n =
     (let n = n\<lparr>n_oc20_hdr := \<lparr>hdr_magic = OC20_MAGIC, hdr_version = 1, hdr_num_namespaces = 1, hdr_sector_size = 4096,
                  hdr_md_size = 16, hdr_ns_size = n_ns_size n\<rparr>\<rparr>
      in oc20_init_loop env [0..<length (n_namespaces n)] n)"

text \<open>Latencies and idle flash; the locks have no state of their own here.\<close>

definition oc_init_misc :: "femu \<Rightarrow> femu" where
  "oc_init_misc n =
     (set_latency n)\<lparr>n_chnl_next_avail_time := map (\<lambda>_. 0) (n_chnl_next_avail_time n),
       n_chip_next_avail_time := map (\<lambda>_. 0) (n_chip_next_avail_time n)\<rparr>"

definition set_cap_oc :: "femu \<Rightarrow> femu" where
  "set_cap_oc n = n\<lparr>n_bar := (n_bar n)\<lparr>bar_cap := NVME_CAP_SET_OC (bar_cap (n_bar n)) 1\<rparr>\<rparr>"

definition oc20_set_ctrl_str :: "femu \<Rightarrow> femu option" where
  "oc20_set_ctrl_str n =
     map_option fst (nvme_set_ctrl_name n (c_string ''FEMU OpenChannel-SSD Controller (v2.0)'') (c_string ''vOCSSD'') 0)"

definition oc20_init :: "oc_env \<Rightarrow> femu \<Rightarrow> femu option" where
  "oc20_init env n = oc20_set_ctrl_str (set_cap_oc n) \<bind> oc20_init_namespaces env \<bind> (\<lambda>n. Some (oc_init_misc n))"

end
