(* ===== verification/Oc12.thy ===== *)
theory Oc12
  imports Oc20_Ctrl
begin

text \<open>
  The open-channel 1.2 mode, \<open>femu/ocssd/oc12.c\<close> and \<open>femu/ocssd/oc12.h\<close>: physical addresses in
  commands, out-of-band metadata per sector and tables of bad blocks.  \<open>None\<close> is an abort, a failed assertion,
  an access outside an object or an undefined shift or division.
\<close>

subsection \<open>Physical addresses\<close>

definition PPA_CH :: "Oc12AddrF \<Rightarrow> u64 \<Rightarrow> u64" where "PPA_CH f ppa = drop_bit (unat (ch_offset f)) (ppa AND ch_mask f)"
definition PPA_LUN :: "Oc12AddrF \<Rightarrow> u64 \<Rightarrow> u64" where "PPA_LUN f ppa = drop_bit (unat (lun_offset f)) (ppa AND lun_mask f)"
definition PPA_PLN :: "Oc12AddrF \<Rightarrow> u64 \<Rightarrow> u64" where "PPA_PLN f ppa = drop_bit (unat (pln_offset f)) (ppa AND pln_mask f)"
definition PPA_BLK :: "Oc12AddrF \<Rightarrow> u64 \<Rightarrow> u64" where "PPA_BLK f ppa = drop_bit (unat (blk_offset f)) (ppa AND blk_mask f)"
definition PPA_PG :: "Oc12AddrF \<Rightarrow> u64 \<Rightarrow> u64" where "PPA_PG f ppa = drop_bit (unat (pg_offset f)) (ppa AND pg_mask f)"
definition PPA_SEC :: "Oc12AddrF \<Rightarrow> u64 \<Rightarrow> u64" where "PPA_SEC f ppa = drop_bit (unat (sec_offset f)) (ppa AND sec_mask f)"

text \<open>Each part of the address is multiplied by its own count.\<close>

definition ppa2secidx :: "Oc12Ctrl \<Rightarrow> u64 \<Rightarrow> u64" where
  "ppa2secidx oc ppa =
     (let c = ic12_group (oc12_id_ctrl oc); f = oc12_ppaf oc;
          r = PPA_SEC f ppa + PPA_CH f ppa * ucast (ig_num_ch c) + PPA_LUN f ppa * ucast (ig_num_lun c) +
              PPA_PLN f ppa * ucast (ig_num_pln c) + PPA_BLK f ppa * ucast (ig_num_blk c) + PPA_PG f ppa * ucast (ig_num_pg c)
      in if ucast (par12_total_units (oc12_params oc)) < r then - 1 else r)"

subsection \<open>Metadata\<close>

definition oc12_oob_offset :: "Oc12Ctrl \<Rightarrow> u64 \<Rightarrow> u64" where
  "oc12_oob_offset oc ppa = ppa2secidx oc ppa * scast (oc12_meta_len oc) + ucast (oc12_int_meta_size oc)"

text \<open>The assertion before an access of \<open>len\<close> bytes, and whether the bytes are in the buffer.\<close>

definition meta_access :: "Oc12Ctrl \<Rightarrow> u64 \<Rightarrow> u64 \<Rightarrow> nat \<Rightarrow> bool" where
  "meta_access oc oft guard len \<longleftrightarrow>
     oft + guard < scast (oc12_meta_tbytes oc) \<and> unat oft + len \<le> length (oc12_meta_buf oc)"

definition oc12_write_oob_meta :: "Oc12Ctrl \<Rightarrow> u64 \<Rightarrow> u8 list \<Rightarrow> Oc12Ctrl option" where
  "oc12_write_oob_meta oc ppa meta =
     (let oft = oc12_oob_offset oc ppa; sos = par12_sos (oc12_params oc)
      in if meta_access oc oft (ucast sos) (unat sos)
         then Some (oc\<lparr>oc12_meta_buf := overwrite (oc12_meta_buf oc) (unat oft) (take (unat sos) meta)\<rparr>) else None)"

definition oc12_read_oob_meta :: "Oc12Ctrl \<Rightarrow> u64 \<Rightarrow> u8 list option" where
  "oc12_read_oob_meta oc ppa =
     (let oft = oc12_oob_offset oc ppa; sos = par12_sos (oc12_params oc)
      in if meta_access oc oft (ucast sos) (unat sos) then Some (take (unat sos) (drop (unat oft) (oc12_meta_buf oc))) else None)"

definition oc12_meta_state_get :: "Oc12Ctrl \<Rightarrow> u64 \<Rightarrow> u8 list option" where
  "oc12_meta_state_get oc ppa =
     (let oft = ppa2secidx oc ppa * scast (oc12_meta_len oc); len = unat (oc12_int_meta_size oc)
      in if meta_access oc oft (scast (oc12_meta_len oc)) len then Some (take len (drop (unat oft) (oc12_meta_buf oc))) else None)"

definition oc12_meta_state_set_written :: "Oc12Ctrl \<Rightarrow> u64 \<Rightarrow> Oc12Ctrl option" where
  "oc12_meta_state_set_written oc ppa =
     (let oft = ppa2secidx oc ppa * scast (oc12_meta_len oc); len = unat (oc12_int_meta_size oc)
      in if meta_access oc oft (scast (oc12_meta_len oc)) len
         then Some (oc\<lparr>oc12_meta_buf := overwrite (oc12_meta_buf oc) (unat oft) (take len (le4 OC12_SEC_WRITTEN))\<rparr>) else None)"

text \<open>Erased blocks are not tracked: the function returns at once.\<close>

definition oc12_meta_blk_set_erased :: "Oc12Ctrl \<Rightarrow> u64 list \<Rightarrow> Oc12Ctrl" where
  "oc12_meta_blk_set_erased oc psl = oc"

subsection \<open>Commands and checks\<close>

definition orw_of_cmd :: "NvmeCmd \<Rightarrow> Oc12RwCmd" where
  "orw_of_cmd c =
     \<lparr>orw_opcode = cmd_opcode c, orw_nsid = cmd_nsid c, orw_metadata = cmd_mptr c, orw_prp1 = cmd_prp1 c,
      orw_prp2 = cmd_prp2 c, orw_spba = qword (cmd_cdw10 c) (cmd_cdw11 c), orw_nlb = lo16 (cmd_cdw12 c)\<rparr>"

text \<open>Into an array of \<open>room\<close> entries.\<close>

definition oc12_read_ppa_list :: "femu \<Rightarrow> Oc12RwCmd \<Rightarrow> nat \<Rightarrow> u64 list option" where
  "oc12_read_ppa_list n cmd room =
     (let nlb = unat (ucast (orw_nlb cmd) + 1 :: u32)
      in if room < nlb then None
         else Some (if 1 < nlb then le64s_of_bytes nlb (addr_read n (orw_spba cmd) (nlb * 8)) else [orw_spba cmd]))"

definition oc12_rw_check_req ::
  "femu \<Rightarrow> Oc12Ctrl \<Rightarrow> NvmeNamespace \<Rightarrow> NvmeRequest \<Rightarrow> u64 list \<Rightarrow> u64 \<Rightarrow> u64 \<Rightarrow> u16 option" where
  "oc12_rw_check_req n oc ns req psl data_size meta_size =
     (let ocrw = orw_of_cmd (req_cmd req); nlb = length psl; slba = psl ! 0; elba = psl ! (nlb - 1);
          is_write = (orw_opcode ocrw = OC12_CMD_WRITE)
      in if unat (par12_max_sec_per_rq (oc12_params oc)) < nlb then Some (dnr NVME_INVALID_FIELD)
         else if is_write \<and> nlb < unat (par12_sec_per_pl (oc12_params oc)) then Some (dnr NVME_INVALID_FIELD)
         else if orw_spba ocrw = OC12_PBA_UNMAPPED then Some (dnr NVME_INVALID_FIELD)
         else if list_ex (\<lambda>ppa. idns_nsze (ns_id_ns ns) < ppa) psl then Some (dnr NVME_LBA_RANGE)
         else if mdts_exceeded n data_size then Some (dnr NVME_INVALID_FIELD)
         else if meta_size \<noteq> 0 then Some (dnr NVME_INVALID_FIELD)
         else if req_is_write req \<noteq> 0 then Some (sc NVME_SUCCESS)
         else find_next_bit (ns_uncorrectable ns) (unat elba) (unat slba) \<bind> (\<lambda>r.
           Some (if r < unat elba then sc NVME_UNRECOVERED_READ else sc NVME_SUCCESS)))"

subsection \<open>Emulated time\<close>

text \<open>The page tables of this file are never filled.\<close>

primrec parse_ppa_loop ::
  "u8 \<Rightarrow> nat \<Rightarrow> Oc12AddrF \<Rightarrow> u64 list \<Rightarrow> u64 \<Rightarrow> AddrBucket list \<Rightarrow> AddrBucket list option" where
  "parse_ppa_loop ft room f [] prev bucket = Some bucket"
| "parse_ppa_loop ft room f (ppa # ppas) prev bucket =
     (let cur = ppa AND NOT (sec_mask f) AND NOT (pln_mask f); pg = c_int_of_u64 (PPA_PG f ppa)
      in if cur = prev then
           (if bucket = [] then None
            else parse_ppa_loop ft room f ppas prev (butlast bucket @ [(last bucket)\<lparr>ab_cnt := Suc (ab_cnt (last bucket))\<rparr>]))
         else if room \<le> length bucket then None
         else get_page_type static_nand (uint ft) pg \<bind> (\<lambda>page_type.
           parse_ppa_loop ft room f ppas cur (bucket @
             [\<lparr>ab_ch = c_int_of_u64 (PPA_CH f ppa), ab_lun = c_int_of_u64 (PPA_LUN f ppa), ab_pg = pg,
               ab_page_type = page_type, ab_cnt = 1\<rparr>])))"

definition parse_ppa_list :: "femu \<Rightarrow> Oc12Ctrl \<Rightarrow> u64 list \<Rightarrow> AddrBucket list option" where
  "parse_ppa_list n oc ppas =
     parse_ppa_loop (p_flash_type (n_cfg n)) (unat (par12_max_sec_per_rq (oc12_params oc))) (oc12_ppaf oc) ppas (- 1) []"

text \<open>An erase takes its address from \<open>slba\<close>, which still holds the address of an earlier command's list.  The
  assertion on a page comes before its time; here it comes before all times, since nothing is kept when it fails.\<close>

definition oc12_advance_status :: "femu \<Rightarrow> Oc12Ctrl \<Rightarrow> NvmeRequest \<Rightarrow> u64 list \<Rightarrow> (NvmeRequest \<times> femu) option" where
  "oc12_advance_status n oc req ppas =
     (let opcode = cmd_opcode (req_cmd req); now = req_stime req; c = ic12_group (oc12_id_ctrl oc); f = oc12_ppaf oc
      in if opcode = OC12_CMD_ERASE then
           let ch = c_int_of_u64 (PPA_CH f (req_slba req)); lun = c_int_of_u64 (PPA_LUN f (req_slba req))
           in advance_chip_timestamp n (c_int (ch * int (unat (ig_num_ch c)) + lun)) now opcode 0 \<bind> (\<lambda>(t, n).
                Some (req\<lparr>req_expire_time := t\<rparr>, n))
         else do {
           bucket \<leftarrow> parse_ppa_list n oc ppas;
           if \<not> (opcode = OC12_CMD_READ \<or> opcode = OC12_CMD_WRITE) \<or> bucket = [] \<or>
              list_ex (\<lambda>b. \<not> (ab_ch b < int (unat (ig_num_ch c)) \<and> ab_lun b < int (unat (ig_num_lun c)))) bucket then None
           else do {
             (spent, n) \<leftarrow> oc_bucket_times (\<lambda>b. c_int (ab_ch b * int (unat (ig_num_lun c)) + ab_lun b))
                             (req_is_write req \<noteq> 0) now opcode bucket 0 n;
             Some (req\<lparr>req_expire_time := now + spent\<rparr>, n)
           }
         })"

subsection \<open>Reads, writes and erases\<close>

text \<open>The out-of-band data of all sectors of a read: the assertion on the state of each, then its metadata.\<close>

primrec oc12_read_metas :: "Oc12Ctrl \<Rightarrow> bool \<Rightarrow> u64 list \<Rightarrow> u8 list option" where
  "oc12_read_metas oc meta [] = Some []"
| "oc12_read_metas oc meta (ppa # ppas) =
     do {
       _ \<leftarrow> oc12_meta_state_get oc ppa;
       m \<leftarrow> (if meta then oc12_read_oob_meta oc ppa else Some (replicate (unat (par12_sos (oc12_params oc))) 0));
       ms \<leftarrow> oc12_read_metas oc meta ppas;
       Some (m @ ms)
     }"

primrec oc12_write_metas :: "Oc12Ctrl \<Rightarrow> bool \<Rightarrow> u8 list \<Rightarrow> u64 list \<Rightarrow> Oc12Ctrl option" where
  "oc12_write_metas oc meta msl [] = Some oc"
| "oc12_write_metas oc meta msl (ppa # ppas) =
     do {
       oc \<leftarrow> oc12_meta_state_set_written oc ppa;
       oc \<leftarrow> (if meta then oc12_write_oob_meta oc ppa msl else Some oc);
       oc12_write_metas oc meta (drop (unat (par12_sos (oc12_params oc))) msl) ppas
     }"

text \<open>The transfer at the end of both commands; the addresses have become positions in the backend.\<close>

definition oc12_transfer :: "femu \<Rightarrow> Oc12Ctrl \<Rightarrow> NvmeRequest \<Rightarrow> u64 \<Rightarrow> u64 list \<Rightarrow> io_result" where
  "oc12_transfer n oc req data_size psl =
     (let ocrw = orw_of_cmd (req_cmd req)
      in (case nvme_map_prp (n_dma n) (n_host n) (orw_prp1 ocrw) (orw_prp2 ocrw) (ucast data_size) of
            (status, cmb, sg) \<Rightarrow>
              if status \<noteq> 0 then Some (dnr NVME_INVALID_FIELD, req\<lparr>req_qsg := []\<rparr>, n)
              else if cmb then None
              else do {
                (be, h) \<leftarrow> backend_rw (n_mbe n) (n_host n) sg psl (req_is_write req \<noteq> 0);
                (req, n) \<leftarrow> oc12_advance_status (n\<lparr>n_mbe := be, n_host := h\<rparr>) oc (req\<lparr>req_qsg := []\<rparr>) psl;
                Some (sc NVME_SUCCESS, req, n)
              }))"

text \<open>\<open>nlb\<close> is a \<open>uint16_t\<close> here, 0 for the largest value of the command, and counts the entries of the list.\<close>

definition oc12_rw :: "bool \<Rightarrow> oc_env \<Rightarrow> femu \<Rightarrow> nat \<Rightarrow> NvmeRequest \<Rightarrow> io_result" where
  "oc12_rw is_write env n i req =
     (let ocrw = orw_of_cmd (req_cmd req); nlb = orw_nlb ocrw + 1; meta = orw_metadata ocrw; ns = n_namespaces n ! i;
          lbads = unat (lbaf_lbads (ns_lbaf ns));
          data_size = scast (push_bit lbads (ucast nlb :: u32)) :: u64;
          meta_size = scast (ucast nlb * ucast (lbaf_ms (ns_lbaf ns)) :: u32) :: u64;
          req = req\<lparr>req_is_write := (if is_write then 1 else 0), req_slba := oe_malloc env n\<rparr>
      in do {
        oc \<leftarrow> n_oc12_ctrl n;
        ppas \<leftarrow> oc12_read_ppa_list n ocrw (unat nlb);
        err \<leftarrow> oc12_rw_check_req n oc ns req ppas data_size meta_size;
        if err \<noteq> 0 then Some (err, req, n)
        else do {
          let msl_len = unat nlb * unat (par12_sos (oc12_params oc));
          (oc, msl) \<leftarrow>
            (if is_write then
               let msl = (if meta \<noteq> 0 then addr_read n meta msl_len else replicate msl_len 0)
               in map_option (\<lambda>oc. (oc, msl)) (oc12_write_metas oc (meta \<noteq> 0) msl ppas)
             else map_option (\<lambda>msl. (oc, msl)) (oc12_read_metas oc (meta \<noteq> 0) ppas));
          let n = n\<lparr>n_oc12_ctrl := Some oc\<rparr>;
          let n = (if meta \<noteq> 0 then addr_write n meta msl else n);
          oc12_transfer n oc req data_size (map (\<lambda>ppa. ns_start_block ns + push_bit lbads ppa) ppas)
        }
      })"

definition oc12_read :: "oc_env \<Rightarrow> femu \<Rightarrow> nat \<Rightarrow> NvmeRequest \<Rightarrow> io_result" where "oc12_read = oc12_rw False"
definition oc12_write :: "oc_env \<Rightarrow> femu \<Rightarrow> nat \<Rightarrow> NvmeRequest \<Rightarrow> io_result" where "oc12_write = oc12_rw True"

definition oc12_erase_async :: "femu \<Rightarrow> nat \<Rightarrow> NvmeRequest \<Rightarrow> io_result" where
  "oc12_erase_async n i req =
     do {
       oc \<leftarrow> n_oc12_ctrl n;
       psl \<leftarrow> oc12_read_ppa_list n (orw_of_cmd (req_cmd req)) (unat (par12_max_sec_per_rq (oc12_params oc)));
       let oc = oc12_meta_blk_set_erased oc psl;
       (req, n) \<leftarrow> oc12_advance_status (n\<lparr>n_oc12_ctrl := Some oc\<rparr>) oc req psl;
       Some (sc NVME_SUCCESS, req, n)
     }"

text \<open>Plain reads and writes are not served; the status is the bare do-not-retry bit.\<close>

definition oc12_nvme_rw :: "femu \<Rightarrow> NvmeRequest \<Rightarrow> io_result" where
  "oc12_nvme_rw n req = Some (sc NVME_DNR, req, n)"

definition oc12_io_cmd :: "oc_env \<Rightarrow> femu \<Rightarrow> nat \<Rightarrow> NvmeRequest \<Rightarrow> io_result" where
  "oc12_io_cmd env n i req =
     (let op = cmd_opcode (req_cmd req)
      in if op = io_opcode NVME_CMD_READ \<or> op = io_opcode NVME_CMD_WRITE then oc12_nvme_rw n req
         else if op = OC12_CMD_READ then oc12_read env n i req
         else if op = OC12_CMD_WRITE then oc12_write env n i req
         else if op = OC12_CMD_ERASE then oc12_erase_async n i req
         else Some (dnr NVME_INVALID_OPCODE, req, n))"

end
