(* ===== verification/Oc12_Ctrl.thy ===== *)
theory Oc12_Ctrl
  imports Oc12
begin

text \<open>
  Admin commands and initialisation of the open-channel 1.2 mode (\<open>femu/ocssd/oc12.c\<close>), and the open-channel
  operations of the controller by version (\<open>nvme_register_extensions\<close> of \<open>femu/femu.c\<close>).
\<close>

subsection \<open>Identity, mapping table and bad blocks\<close>

definition oc12_group_bytes :: "Oc12IdGroup \<Rightarrow> u8 list" where
  "oc12_group_bytes g =
     [ig_mtype g, ig_fmtype g, 0, 0, ig_num_ch g, ig_num_lun g, ig_num_pln g, 0] @
     concat (map le2 [ig_num_blk g, ig_num_pg g, ig_fpg_sz g, ig_csecs g, ig_sos g, 0]) @
     concat (map le4 [ig_trdt g, ig_trdm g, ig_tprt g, ig_tprm g, ig_tbet g, ig_tbem g, ig_mpos g, ig_mccap g]) @
     le2 (ig_cpar g) @ zeros 906"

definition oc12_id_bytes :: "Oc12IdCtrl \<Rightarrow> u8 list" where
  "oc12_id_bytes d =
     (let p = ic12_ppaf d
      in [ic12_ver_id d, ic12_vmnt d, ic12_cgrps d, 0] @ le4 (ic12_cap d) @ le4 (ic12_dom d) @
         [iaf_ch_offset p, iaf_ch_len p, iaf_lun_offset p, iaf_lun_len p, iaf_pln_offset p, iaf_pln_len p,
          iaf_blk_offset p, iaf_blk_len p, iaf_pg_offset p, iaf_pg_len p, iaf_sect_offset p, iaf_sect_len p] @ zeros 4 @
         zeros 228 @ oc12_group_bytes (ic12_group d) @ zeros (3 * 960))"

definition oc12_identity :: "femu \<Rightarrow> NvmeCmd \<Rightarrow> admin_result" where
  "oc12_identity n cmd =
     (let nsid = cmd_nsid cmd
      in if nsid = 0 \<or> p_num_namespaces (n_cfg n) < nsid then answer NVME_INVALID_NSID n
         else n_oc12_ctrl n \<bind> (\<lambda>oc. send_data n cmd (oc12_id_bytes (oc12_id_ctrl oc))))"

definition l2p_of_cmd :: "NvmeCmd \<Rightarrow> Oc12GetL2PTbl" where
  "l2p_of_cmd c = \<lparr>l2p_nsid = cmd_nsid c, l2p_prp1 = cmd_prp1 c, l2p_prp2 = cmd_prp2 c,
     l2p_slba = qword (cmd_cdw10 c) (cmd_cdw11 c), l2p_nlb = cmd_cdw12 c\<rparr>"

text \<open>The length of the transfer is cut to 32 bits.\<close>

definition oc12_get_l2p_tbl :: "femu \<Rightarrow> NvmeCmd \<Rightarrow> admin_result" where
  "oc12_get_l2p_tbl n cmd =
     (let gtbl = l2p_of_cmd cmd; slba = l2p_slba gtbl; nlb = l2p_nlb gtbl; nsid = l2p_nsid gtbl; i = unat nsid - 1
      in if nsid = 0 \<or> p_num_namespaces (n_cfg n) < nsid then answer NVME_INVALID_NSID n
         else if length (n_namespaces n) \<le> i then None
         else
           let ns = n_namespaces n ! i
           in if ucast (ns_tbl_entries ns) \<le> slba \<or> ucast (ns_tbl_entries ns) < slba + ucast nlb then answer NVME_INVALID_FIELD n
              else
                let bytes = concat (map (le_bytes 8) (take (unat nlb) (drop (unat slba) (ns_tbl ns))))
                in send_data n cmd (take (unat nlb * 8 mod 2 ^ 32) bytes) \<bind> (\<lambda>(status, n).
                  if status \<noteq> 0 then answer NVME_INVALID_FIELD n else success n))"

definition bbg_of_cmd :: "NvmeCmd \<Rightarrow> Oc12BbtGet" where
  "bbg_of_cmd c = \<lparr>bbg_nsid = cmd_nsid c, bbg_prp1 = cmd_prp1 c, bbg_prp2 = cmd_prp2 c,
     bbg_spba = qword (cmd_cdw10 c) (cmd_cdw11 c)\<rparr>"

definition bbs_of_cmd :: "NvmeCmd \<Rightarrow> Oc12BbtSet" where
  "bbs_of_cmd c = \<lparr>bbs_nsid = cmd_nsid c, bbs_prp1 = cmd_prp1 c, bbs_prp2 = cmd_prp2 c,
     bbs_spba = qword (cmd_cdw10 c) (cmd_cdw11 c), bbs_nlb = lo16 (cmd_cdw12 c),
     bbs_value = ucast (drop_bit 16 (cmd_cdw12 c))\<rparr>"

definition bbt_bytes :: "Oc12Bbt \<Rightarrow> u8 list" where
  "bbt_bytes b = bbt_tblid b @ le2 (bbt_verid b) @ zeros 6 @ le4 (bbt_tblks b) @ zeros 48 @ bbt_blk b"

text \<open>The table of the chip of an address.\<close>

definition oc12_lunid :: "Oc12Ctrl \<Rightarrow> u64 \<Rightarrow> int" where
  "oc12_lunid oc ppa =
     (let f = oc12_ppaf oc
      in c_int (c_int_of_u64 (PPA_CH f ppa) * int (unat (ig_num_lun (ic12_group (oc12_id_ctrl oc)))) + c_int_of_u64 (PPA_LUN f ppa)))"

definition oc12_bbt_get :: "femu \<Rightarrow> NvmeCmd \<Rightarrow> admin_result" where
  "oc12_bbt_get n cmd =
     (let c = bbg_of_cmd cmd; nsid = bbg_nsid c; i = unat nsid - 1
      in if nsid = 0 \<or> p_num_namespaces (n_cfg n) < nsid then answer NVME_INVALID_NSID n
         else if length (n_namespaces n) \<le> i then None
         else do {
           oc \<leftarrow> n_oc12_ctrl n;
           bbt \<leftarrow> tbl_at (ns_bbtbl (n_namespaces n ! i)) (oc12_lunid oc (bbg_spba c));
           (status, n) \<leftarrow> send_data n cmd (bbt_bytes bbt);
           if status \<noteq> 0 then answer NVME_INVALID_FIELD n else success n
         })"

definition bbt_mark :: "Oc12Ctrl \<Rightarrow> u8 \<Rightarrow> u64 \<Rightarrow> Oc12Bbt list \<Rightarrow> Oc12Bbt list option" where
  "bbt_mark oc value ppa bbtbl =
     (let lunid = oc12_lunid oc ppa; blk = c_int_of_u64 (PPA_BLK (oc12_ppaf oc) ppa)
      in do {
        bbt \<leftarrow> tbl_at bbtbl lunid;
        _ \<leftarrow> tbl_at (bbt_blk bbt) blk;
        Some (bbtbl[nat lunid := bbt\<lparr>bbt_blk := (bbt_blk bbt)[nat blk := value]\<rparr>])
      })"

primrec bbt_marks :: "Oc12Ctrl \<Rightarrow> u8 \<Rightarrow> u64 list \<Rightarrow> Oc12Bbt list \<Rightarrow> Oc12Bbt list option" where
  "bbt_marks oc value [] bbtbl = Some bbtbl"
| "bbt_marks oc value (ppa # ppas) bbtbl = bbt_mark oc value ppa bbtbl \<bind> bbt_marks oc value ppas"

text \<open>A list of addresses is read through the PRPs \<open>spba\<close> and \<open>prp2\<close> into an array of \<open>max_sec_per_rq\<close> entries, whatever
  its length.\<close>

definition oc12_bbt_set :: "oc_env \<Rightarrow> femu \<Rightarrow> NvmeCmd \<Rightarrow> admin_result" where
  "oc12_bbt_set env n cmd =
     (let c = bbs_of_cmd cmd; nsid = bbs_nsid c; nlb = unat (bbs_nlb c) + 1; i = unat nsid - 1
      in n_oc12_ctrl n \<bind> (\<lambda>oc.
        let room = unat (par12_max_sec_per_rq (oc12_params oc));
            finish = (\<lambda>ppas. bbt_marks oc (bbs_value c) ppas (ns_bbtbl (n_namespaces n ! i)) \<bind> (\<lambda>tbl.
              success (upd_ns n i (\<lambda>ns. ns\<lparr>ns_bbtbl := tbl\<rparr>))))
        in if nsid = 0 \<or> p_num_namespaces (n_cfg n) < nsid then answer NVME_INVALID_NSID n
           else if length (n_namespaces n) \<le> i then None
           else if nlb = 1 then (if room = 0 then None else finish [bbs_spba c])
           else
             dma_write_prp (n_dma n) (n_host n) (concat (map (\<lambda>k. le_bytes 8 (oe_stack env k)) [0..<nlb])) (bbs_spba c) (bbs_prp2 c)
             \<bind> (\<lambda>(status, buf).
               if status \<noteq> 0 then answer NVME_INVALID_FIELD n
               else if room < nlb then None
               else finish (le64s_of_bytes nlb buf))))"

definition oc12_admin_cmd :: "oc_env \<Rightarrow> femu \<Rightarrow> NvmeCmd \<Rightarrow> admin_result" where
  "oc12_admin_cmd env n cmd =
     (let op = cmd_opcode cmd
      in if op = OC12_ADM_CMD_IDENTITY then oc12_identity n cmd
         else if op = OC12_ADM_CMD_GET_L2P_TBL then oc12_get_l2p_tbl n cmd
         else if op = OC12_ADM_CMD_GET_BB_TBL then oc12_bbt_get n cmd
         else if op = OC12_ADM_CMD_SET_BB_TBL then oc12_bbt_set env n cmd
         else answer NVME_INVALID_OPCODE n)"

subsection \<open>Initialisation\<close>

definition zero_oc12_group :: Oc12IdGroup where
  "zero_oc12_group = \<lparr>ig_mtype = 0, ig_fmtype = 0, ig_num_ch = 0, ig_num_lun = 0, ig_num_pln = 0, ig_num_blk = 0,
     ig_num_pg = 0, ig_fpg_sz = 0, ig_csecs = 0, ig_sos = 0, ig_trdt = 0, ig_trdm = 0, ig_tprt = 0, ig_tprm = 0,
     ig_tbet = 0, ig_tbem = 0, ig_mpos = 0, ig_mccap = 0, ig_cpar = 0\<rparr>"

definition zero_oc12_ctrl :: Oc12Ctrl where
  "zero_oc12_ctrl =
     \<lparr>oc12_params = \<lparr>par12_pgs_per_blk = 0, par12_sec_size = 0, par12_sec_per_pg = 0, par12_max_sec_per_rq = 0,
        par12_mtype = 0, par12_fmtype = 0, par12_num_ch = 0, par12_num_pln = 0, par12_num_lun = 0, par12_sos = 0,
        par12_sec_per_pl = 0, par12_sec_per_blk = 0, par12_sec_per_lun = 0, par12_sec_per_ch = 0, par12_total_secs = 0,
        par12_pl_units = 0, par12_pg_units = 0, par12_blk_units = 0, par12_lun_units = 0, par12_ch_units = 0,
        par12_total_units = 0\<rparr>,
      oc12_id_ctrl = \<lparr>ic12_ver_id = 0, ic12_vmnt = 0, ic12_cgrps = 0, ic12_cap = 0, ic12_dom = 0,
        ic12_ppaf = \<lparr>iaf_ch_offset = 0, iaf_ch_len = 0, iaf_lun_offset = 0, iaf_lun_len = 0, iaf_pln_offset = 0,
          iaf_pln_len = 0, iaf_blk_offset = 0, iaf_blk_len = 0, iaf_pg_offset = 0, iaf_pg_len = 0,
          iaf_sect_offset = 0, iaf_sect_len = 0\<rparr>,
        ic12_group = zero_oc12_group\<rparr>,
      oc12_ppaf = \<lparr>ch_mask = 0, lun_mask = 0, pln_mask = 0, blk_mask = 0, pg_mask = 0, sec_mask = 0, ch_offset = 0,
        lun_offset = 0, pln_offset = 0, blk_offset = 0, pg_offset = 0, sec_offset = 0\<rparr>,
      oc12_meta_buf = [], oc12_meta_tbytes = 0, oc12_meta_len = 0, oc12_int_meta_size = 0\<rparr>"

definition oc12_init_params :: "OcCtrlParams \<Rightarrow> Oc12Params \<Rightarrow> Oc12Params" where
  "oc12_init_params p lps =
     lps\<lparr>par12_sec_size := ocp_sec_size p, par12_sec_per_pg := ocp_secs_per_pg p, par12_pgs_per_blk := ocp_pgs_per_blk p,
         par12_max_sec_per_rq := ocp_max_sec_per_rq p, par12_num_ch := ocp_num_ch p, par12_num_lun := ocp_num_lun p,
         par12_num_pln := ocp_num_pln p, par12_sos := ocp_sos p\<rparr>"

definition oc12_init_id_ctrl :: "Oc12Params \<Rightarrow> Oc12IdCtrl \<Rightarrow> Oc12IdCtrl" where
  "oc12_init_id_ctrl lps d =
     (let fls = (\<lambda>v :: u16. bit_length32 (ucast v - 1));
          sect_len = fls (ucast (par12_sec_per_pg lps));
          pln_offset = sect_len; pln_len = fls (ucast (par12_num_pln lps));
          pg_offset = pln_offset + pln_len; pg_len = fls (par12_pgs_per_blk lps);
          blk_offset = pg_offset + pg_len; blk_len = fls (ig_num_blk (ic12_group d));
          lun_offset = blk_offset + blk_len; lun_len = fls (ucast (par12_num_lun lps));
          ch_offset = lun_offset + lun_len; ch_len = fls (ucast (par12_num_ch lps))
      in d\<lparr>ic12_ver_id := 1, ic12_dom := 0, ic12_vmnt := 0, ic12_cgrps := 1, ic12_cap := 3,
           ic12_ppaf := \<lparr>iaf_ch_offset = ch_offset, iaf_ch_len = ch_len, iaf_lun_offset = lun_offset, iaf_lun_len = lun_len,
             iaf_pln_offset = pln_offset, iaf_pln_len = pln_len, iaf_blk_offset = blk_offset, iaf_blk_len = blk_len,
             iaf_pg_offset = pg_offset, iaf_pg_len = pg_len, iaf_sect_offset = 0, iaf_sect_len = sect_len\<rparr>\<rparr>)"

definition oc12_addr_format :: "Oc12IdAddrFormat \<Rightarrow> Oc12AddrF option" where
  "oc12_addr_format p =
     do {
       cm \<leftarrow> int_mask (iaf_ch_len p) (iaf_ch_offset p);
       lm \<leftarrow> int_mask (iaf_lun_len p) (iaf_lun_offset p);
       plm \<leftarrow> int_mask (iaf_pln_len p) (iaf_pln_offset p);
       bm \<leftarrow> int_mask (iaf_blk_len p) (iaf_blk_offset p);
       pm \<leftarrow> int_mask (iaf_pg_len p) (iaf_pg_offset p);
       sm \<leftarrow> int_mask (iaf_sect_len p) (iaf_sect_offset p);
       Some \<lparr>ch_mask = cm, lun_mask = lm, pln_mask = plm, blk_mask = bm, pg_mask = pm, sec_mask = sm,
             ch_offset = iaf_ch_offset p, lun_offset = iaf_lun_offset p, pln_offset = iaf_pln_offset p,
             blk_offset = iaf_blk_offset p, pg_offset = iaf_pg_offset p, sec_offset = iaf_sect_offset p\<rparr>
     }"

definition oc12_init_meta :: "Oc12Ctrl \<Rightarrow> Oc12Ctrl" where
  "oc12_init_meta oc =
     (let meta_len = 4 + ucast (par12_sos (oc12_params oc)); tbytes = meta_len * par12_total_secs (oc12_params oc)
      in oc\<lparr>oc12_int_meta_size := 4, oc12_meta_len := meta_len, oc12_meta_tbytes := tbytes,
            oc12_meta_buf := replicate (unat tbytes) 0\<rparr>)"

definition oc12_init_bbtbl :: "Oc12IdGroup \<Rightarrow> Oc12Bbt list" where
  "oc12_init_bbtbl c =
     (let blks_per_lun = unat (ig_num_blk c) * unat (ig_num_pln c)
      in replicate (unat (ig_num_ch c) * unat (ig_num_lun c))
           \<lparr>bbt_tblid = map of_char ''BBLT'', bbt_verid = 1, bbt_tblks = of_nat blks_per_lun,
            bbt_blk = replicate blks_per_lun 0\<rparr>)"

definition oc12_group :: "Oc12Params \<Rightarrow> u64 \<Rightarrow> Oc12IdGroup \<Rightarrow> Oc12IdGroup option" where
  "oc12_group lps chnl_blks c =
     (let luns = uint (par12_num_lun lps) * uint (par12_num_pln lps)
      in if 32 < par12_num_ch lps \<or> 128 < par12_num_lun lps \<or> luns = 0 then None
         else Some (c\<lparr>ig_mtype := par12_mtype lps, ig_fmtype := par12_fmtype lps, ig_num_ch := par12_num_ch lps,
           ig_num_lun := par12_num_lun lps, ig_num_pln := par12_num_pln lps,
           ig_num_blk := word_of_int (uint (ucast chnl_blks :: u16) div luns), ig_num_pg := par12_pgs_per_blk lps,
           ig_csecs := par12_sec_size lps, ig_fpg_sz := par12_sec_size lps * ucast (par12_sec_per_pg lps),
           ig_sos := par12_sos lps, ig_trdt := 40000, ig_trdm := 80000, ig_tprt := 1500000, ig_tprm := 3700000,
           ig_tbet := 6000000, ig_tbem := 20000000\<rparr>))"

definition oc12_units :: "Oc12IdGroup \<Rightarrow> Oc12Params \<Rightarrow> Oc12Params" where
  "oc12_units c lps =
     (let per_pg = ucast (par12_sec_per_pg lps); pln = ucast (ig_num_pln c); pgs = ucast (par12_pgs_per_blk lps);
          blk = ucast (ig_num_blk c); lun = ucast (ig_num_lun c); ch = ucast (ig_num_ch c);
          per_pl = per_pg * pln; per_blk = per_pl * pgs; per_lun = per_blk * blk; per_ch = per_lun * lun
      in lps\<lparr>par12_sec_per_pl := per_pl, par12_sec_per_blk := per_blk, par12_sec_per_lun := per_lun,
             par12_sec_per_ch := per_ch, par12_total_secs := per_ch * ch,
             par12_pl_units := per_pg, par12_pg_units := per_pl, par12_blk_units := per_blk, par12_lun_units := per_lun,
             par12_ch_units := per_ch, par12_total_units := per_ch * ch\<rparr>)"

text \<open>One namespace; \<open>False\<close> is the error for an unsupported number of planes.  The size of the mapping table is cut to
  32 bits when it is allocated, not when it is filled.\<close>

definition oc12_init_namespace :: "femu \<Rightarrow> nat \<Rightarrow> (bool \<times> femu) option" where
  "oc12_init_namespace n i =
     (let ns = n_namespaces n ! i
      in n_oc12_ctrl n \<bind> (\<lambda>oc.
        let lps = oc12_params oc;
            divisor = scast (ucast (par12_sec_per_pg lps) * ucast (par12_pgs_per_blk lps) * ucast (par12_num_ch lps) :: u32) :: u64
        in if divisor = 0 then None
           else do {
             c \<leftarrow> oc12_group lps (ns_ns_blks ns div divisor) (ic12_group (oc12_id_ctrl oc));
             let with_c = (\<lambda>oc c. oc\<lparr>oc12_id_ctrl := (oc12_id_ctrl oc)\<lparr>ic12_group := c\<rparr>\<rparr>);
             if ig_num_pln c \<noteq> 1 \<and> ig_num_pln c \<noteq> 2 \<and> ig_num_pln c \<noteq> 4 then Some (False, n\<lparr>n_oc12_ctrl := Some (with_c oc c)\<rparr>)
             else do {
               let mpos = (if ig_num_pln c = 1 then 0x10101 else if ig_num_pln c = 2 then 0x20202 else 0x40404);
               let c = c\<lparr>ig_mpos := mpos, ig_cpar := 0, ig_mccap := 1\<rparr>;
               let lps = oc12_units c lps;
               let id_ctrl = oc12_init_id_ctrl lps ((oc12_id_ctrl oc)\<lparr>ic12_group := c\<rparr>);
               f \<leftarrow> oc12_addr_format (ic12_ppaf id_ctrl);
               let entries = (ucast (ns_ns_blks ns) :: u32);
               if 2 ^ 32 \<le> unat entries * 8 then None
               else Some (True, upd_ns (n\<lparr>n_oc12_ctrl := Some (oc\<lparr>oc12_params := lps, oc12_id_ctrl := id_ctrl, oc12_ppaf := f\<rparr>)\<rparr>) i
                 (\<lambda>ns. ns\<lparr>ns_bbtbl := oc12_init_bbtbl c, ns_tbl_entries := entries,
                           ns_tbl := replicate (unat entries) OC12_LBA_UNMAPPED\<rparr>))
             }
           }))"

primrec oc12_init_loop :: "nat list \<Rightarrow> femu \<Rightarrow> (bool \<times> femu) option" where
  "oc12_init_loop [] n = Some (True, n)"
| "oc12_init_loop (i # js) n =
     oc12_init_namespace n i \<bind> (\<lambda>(fine, n). if fine then oc12_init_loop js n else Some (False, n))"

text \<open>\<open>read_l2p_tbl\<close> is never set, so no table is read.\<close>

definition oc12_init_more :: "femu \<Rightarrow> femu option" where
  "oc12_init_more n =
     (let oc = zero_oc12_ctrl\<lparr>oc12_params := oc12_init_params (p_oc (n_cfg n)) (oc12_params zero_oc12_ctrl)\<rparr>;
          n = oc_init_misc (n\<lparr>n_oc12_ctrl := Some oc\<rparr>)
      in do {
        (fine, n) \<leftarrow> oc12_init_loop [0..<length (n_namespaces n)] n;
        if \<not> fine then Some n
        else do {
          tbls \<leftarrow> init_nand_flash (n_nand n);
          oc \<leftarrow> n_oc12_ctrl n;
          Some (n\<lparr>n_nand := tbls, n_oc12_ctrl := Some (oc12_init_meta oc)\<rparr>)
        }
      })"

definition oc12_set_ctrl_str :: "femu \<Rightarrow> femu option" where
  "oc12_set_ctrl_str n =
     map_option fst (nvme_set_ctrl_name n (c_string ''FEMU OpenChannel-SSD Controller (v1.2)'') (c_string ''vOCSSD'') 0)"

definition oc12_init :: "femu \<Rightarrow> femu option" where
  "oc12_init n =
     oc12_set_ctrl_str (set_cap_oc n) \<bind> (\<lambda>n.
       oc12_init_more (n\<lparr>n_namespaces := map (\<lambda>ns. ns\<lparr>ns_id_ns := (ns_id_ns ns)\<lparr>idns_vs := 1\<rparr>\<rparr>) (n_namespaces n)\<rparr>))"

subsection \<open>The open-channel operations by version\<close>

definition OCSSD12 :: u8 where "OCSSD12 = 1"
definition OCSSD20 :: u8 where "OCSSD20 = 2"

definition oc_io_cmd :: "oc_env \<Rightarrow> femu \<Rightarrow> nat \<Rightarrow> NvmeRequest \<Rightarrow> io_result" where
  "oc_io_cmd env n i req =
     (if p_lver (n_cfg n) = OCSSD12 then oc12_io_cmd env n i req
      else if p_lver (n_cfg n) = OCSSD20 then oc20_io_cmd env n i req
      else Some (dnr NVME_INVALID_OPCODE, req, n))"

definition oc_admin_cmd :: "oc_env \<Rightarrow> femu \<Rightarrow> NvmeCmd \<Rightarrow> admin_result" where
  "oc_admin_cmd env n cmd =
     (if p_lver (n_cfg n) = OCSSD12 then oc12_admin_cmd env n cmd
      else if p_lver (n_cfg n) = OCSSD20 then oc20_admin_cmd n cmd
      else answer NVME_INVALID_OPCODE n)"

definition oc_get_log :: "femu \<Rightarrow> NvmeCmd \<Rightarrow> admin_result" where
  "oc_get_log n cmd = (if p_lver (n_cfg n) = OCSSD20 then oc20_get_log n cmd else answer NVME_INVALID_LOG_ID n)"

definition oc_init :: "oc_env \<Rightarrow> femu \<Rightarrow> femu option" where
  "oc_init env n =
     (if p_lver (n_cfg n) = OCSSD12 then oc12_init n
      else if p_lver (n_cfg n) = OCSSD20 then oc20_init env n
      else Some n)"

text \<open>Admin commands with the open-channel operations in place.\<close>

definition with_oc :: "oc_env \<Rightarrow> admin_env \<Rightarrow> admin_env" where
  "with_oc oce env = env\<lparr>env_admin := oc_admin_cmd oce, env_get_log := oc_get_log\<rparr>"

end
