(* ===== verification/Oc_Views.thy ===== *)
theory Oc_Views
  imports Oc12_Ctrl Ctrl_Inv
begin

text \<open>
  What the open-channel commands leave alone: queues, configuration and capabilities.
\<close>

lemma put_lns_view [simp]: "queue_view (put_lns n i lns) = queue_view n" "queue_view (put_chunk n i lns k cs) = queue_view n"
  by (simp_all add: put_lns_def put_chunk_def)

lemma backing_view [simp]:
  "queue_view (n\<lparr>n_chip_next_avail_time := t\<rparr>) = queue_view n" "queue_view (n\<lparr>n_mbe := be, n_host := h\<rparr>) = queue_view n"
  "queue_view (n\<lparr>n_oc12_ctrl := oc\<rparr>) = queue_view n" "queue_view (n\<lparr>n_nand := t'\<rparr>) = queue_view n"
  by (simp_all add: queue_view_def)

lemma advance_chip_view: "advance_chip_timestamp n lunid now op pt = Some (t, n') \<Longrightarrow> queue_view n' = queue_view n"
  by (erule advance_chip_steps) simp

lemma bucket_times_view:
  "oc_bucket_times lunid w now op bs t n = Some (t', n') \<Longrightarrow> queue_view n' = queue_view n"
  by (induction bs arbitrary: t n) (fastforce simp: Let_def split: if_splits bind_splits dest: advance_chip_view)+

subsection \<open>Admin commands\<close>

lemma oc20_admin_view:
  "oc20_admin_cmd n cmd = Some (st, n') \<Longrightarrow> queue_view n' = queue_view n"
  "oc20_get_log n cmd = Some (st, n') \<Longrightarrow> queue_view n' = queue_view n"
proof -
  have info: "oc20_chunk_info n cmd len off = Some (st, n') \<Longrightarrow> queue_view n' = queue_view n" for len off
    by (auto simp: oc20_chunk_info_def Let_def success_def split: if_splits bind_splits dest: send_data_view)
  then show "oc20_get_log n cmd = Some (st, n') \<Longrightarrow> queue_view n' = queue_view n"
    by (auto simp: oc20_get_log_def oc20_log_page_def Let_def split: if_splits dest: answer_view)
  show "oc20_admin_cmd n cmd = Some (st, n') \<Longrightarrow> queue_view n' = queue_view n"
    using info
    by (auto simp: oc20_admin_cmd_def oc20_identify_def oc20_set_log_def oc20_log_page_def Let_def
        split: if_splits bind_splits dest: answer_view send_data_view)
qed

lemma oc12_admin_view: "oc12_admin_cmd oce n cmd = Some (st, n') \<Longrightarrow> queue_view n' = queue_view n"
  by (auto simp: oc12_admin_cmd_def oc12_identity_def oc12_get_l2p_tbl_def oc12_bbt_get_def oc12_bbt_set_def Let_def
      split: if_splits bind_splits dest!: answer_view success_view send_data_view)

text \<open>The open-channel operations satisfy the interface that the controller's invariant asks of them.\<close>

lemma with_oc_keeps_queues: "oc_keeps_queues (with_oc oce env)"
  unfolding oc_keeps_queues_def with_oc_def oc_admin_cmd_def oc_get_log_def
  by (auto split: if_splits dest: oc12_admin_view oc20_admin_view answer_view)

subsection \<open>Initialisation\<close>

text \<open>Initialisation sets one bit of the capabilities, far from the queue size.\<close>

definition init_view :: "femu \<Rightarrow> sq_table \<times> NvmeCQueue option list \<times> femu_props \<times> u64" where
  "init_view n = (n_sq n, n_cq n, n_cfg n, NVME_CAP_MQES (bar_cap (n_bar n)))"

lemma queue_init_view: "queue_view n' = queue_view n \<Longrightarrow> init_view n' = init_view n"
  by (simp add: queue_view_def init_view_def)

lemma queues_ok_init_view: "init_view n' = init_view n \<Longrightarrow> queues_ok n' = queues_ok n"
  by (simp add: init_view_def queues_ok_def)

lemma set_cap_oc_view [simp]: "init_view (set_cap_oc n) = init_view n"
proof -
  have "NVME_CAP_MQES (NVME_CAP_SET_OC c 1) = NVME_CAP_MQES c" for c :: u64
    by (simp add: NVME_CAP_MQES_def NVME_CAP_SET_OC_def bit.conj_disj_distrib2)
  then show ?thesis by (simp add: init_view_def set_cap_oc_def)
qed

lemma set_latency_view [simp]: "queue_view (set_latency n) = queue_view n"
  by (simp add: set_latency_def Let_def queue_view_def)

lemma init_misc_view [simp]: "queue_view (oc_init_misc n) = queue_view n"
  by (simp add: oc_init_misc_def queue_view_def set_latency_def Let_def)

lemma ctrl_name_view: "nvme_set_ctrl_name n a b d = Some (n', d') \<Longrightarrow> queue_view n' = queue_view n"
  by (auto simp: nvme_set_ctrl_name_def Let_def queue_view_def split: if_splits)

lemma oc20_init_ns_view: "oc20_init_namespace oce n i = Some (r, n') \<Longrightarrow> queue_view n' = queue_view n"
  by (auto simp: oc20_init_namespace_def Let_def queue_view_def upd_ns_def split: if_splits bind_splits)

lemma oc20_init_loop_view: "oc20_init_loop oce js n = Some n' \<Longrightarrow> queue_view n' = queue_view n"
proof (induction js arbitrary: n)
  case (Cons i js)
  then obtain r m where m: "oc20_init_namespace oce (upd_ns n i (\<lambda>ns. ns\<lparr>ns_id_ns := (ns_id_ns ns)\<lparr>idns_vs := 1\<rparr>,
      ns_blk_begin := hdr_sector_size (n_oc20_hdr n) + of_nat i * hdr_ns_size (n_oc20_hdr n)\<rparr>)) i = Some (r, m)"
    "(if r then oc20_init_loop oce js m else Some m) = Some n'"
    by (auto simp: Let_def split: bind_splits)
  show ?case using oc20_init_ns_view [OF m(1)] m(2) Cons.IH [of m] by (auto split: if_splits)
qed simp

lemma oc12_init_ns_view: "oc12_init_namespace n i = Some (r, n') \<Longrightarrow> queue_view n' = queue_view n"
  by (auto simp: oc12_init_namespace_def Let_def queue_view_def upd_ns_def split: if_splits bind_splits)

lemma oc12_init_loop_view: "oc12_init_loop js n = Some (r, n') \<Longrightarrow> queue_view n' = queue_view n"
proof (induction js arbitrary: n)
  case (Cons i js)
  then obtain b m where m: "oc12_init_namespace n i = Some (b, m)" "(if b then oc12_init_loop js m else Some (False, m)) = Some (r, n')"
    by (auto split: bind_splits)
  show ?case using oc12_init_ns_view [OF m(1)] m(2) Cons.IH [of m] by (auto split: if_splits)
qed simp

lemma oc20_init_view: "oc20_init oce n = Some n' \<Longrightarrow> init_view n' = init_view n"
proof -
  assume "oc20_init oce n = Some n'"
  then obtain m d k where m: "nvme_set_ctrl_name (set_cap_oc n) (c_string ''FEMU OpenChannel-SSD Controller (v2.0)'') (c_string ''vOCSSD'') 0 = Some (m, d)"
    and k: "oc20_init_namespaces oce m = Some k" "n' = oc_init_misc k"
    by (auto simp: oc20_init_def oc20_set_ctrl_str_def split: bind_splits)
  have "queue_view k = queue_view m"
    using k(1) by (auto simp: oc20_init_namespaces_def Let_def queue_view_def dest!: oc20_init_loop_view)
  then show ?thesis
    using queue_init_view [OF ctrl_name_view [OF m]] queue_init_view k(2) by (metis init_misc_view set_cap_oc_view)
qed

lemma oc12_init_view: "oc12_init n = Some n' \<Longrightarrow> init_view n' = init_view n"
proof -
  assume a: "oc12_init n = Some n'"
  then obtain m d where m: "nvme_set_ctrl_name (set_cap_oc n) (c_string ''FEMU OpenChannel-SSD Controller (v1.2)'') (c_string ''vOCSSD'') 0 = Some (m, d)"
    and k: "oc12_init_more (m\<lparr>n_namespaces := map (\<lambda>ns. ns\<lparr>ns_id_ns := (ns_id_ns ns)\<lparr>idns_vs := 1\<rparr>\<rparr>) (n_namespaces m)\<rparr>) = Some n'"
    by (auto simp: oc12_init_def oc12_set_ctrl_str_def split: bind_splits)
  have "queue_view n' = queue_view m"
    using k unfolding oc12_init_more_def Let_def
    by (auto simp: queue_view_def oc_init_misc_def set_latency_def Let_def split: bind_splits if_splits dest!: oc12_init_loop_view)
  then show ?thesis using queue_init_view [OF ctrl_name_view [OF m]] queue_init_view by (metis set_cap_oc_view)
qed

lemma oc_init_view: "oc_init oce n = Some n' \<Longrightarrow> init_view n' = init_view n"
  by (auto simp: oc_init_def split: if_splits dest: oc12_init_view oc20_init_view)

end
