(* ===== verification/Ctrl_Props.thy ===== *)
theory Ctrl_Props
  imports Admin_Queue Oc_Views
begin

text \<open>
  Properties of the controller as the host drives it: the queue tables stay well formed, and what the admin commands
  do to queues that do not exist, are in use or hold requests.
\<close>

subsection \<open>From realisation on\<close>

lemma take_16_field: "16 \<le> k \<Longrightarrow> take_bit 16 (a OR push_bit k b) = take_bit 16 (a :: u64)"
  by (simp add: take_bit_push_bit)

lemma and_ffff: "(a :: u64) AND 0xffff = take_bit 16 a"
  by (simp add: take_bit_eq_mask mask_eq_exp_minus_1)

lemma cap_mqes_init: "NVME_CAP_MQES (init_cap c) = take_bit 16 (ucast (p_max_q_ents c))"
  by (simp add: NVME_CAP_MQES_def init_cap_def NVME_CAP_SET_MPSMAX_def NVME_CAP_SET_MPSMIN_def NVME_CAP_SET_CSS_def
    NVME_CAP_SET_NSSRS_def NVME_CAP_SET_DSTRD_def NVME_CAP_SET_TO_def NVME_CAP_SET_AMS_def NVME_CAP_SET_CQR_def
    NVME_CAP_SET_MQES_def and_ffff take_16_field take_bit_or)

lemma mqes_bound:
  assumes "take_bit 16 (m :: u32) \<noteq> 0xffff"
  shows "take_bit 16 (ucast m :: u64) < 65535"
proof -
  have "unat (take_bit 16 (ucast m :: u64)) = unat (take_bit 16 m)"
    by (simp add: unsigned_take_bit_eq)
  moreover have "unat (take_bit 16 m) < 2 ^ 16"
    unfolding unsigned_take_bit_eq by (rule take_bit_nat_less_exp)
  moreover have "unat (take_bit 16 m) \<noteq> 65535"
    using assms by (simp add: word_eq_iff_unsigned [where 'a = nat])
  ultimately show ?thesis by (simp add: word_less_nat_alt)
qed

lemma init_namespaces_view: "nvme_init_namespaces n = Some n' \<Longrightarrow> queue_view n' = queue_view n"
  by (auto simp: nvme_init_namespaces_def nvme_init_namespace_def Let_def queue_view_def split: if_splits bind_splits)

lemma ext_init_view: "ext_init (oc_init oce) n = Some n' \<Longrightarrow> init_view n' = init_view n"
  by (auto simp: ext_init_def nop_init_def bb_init_def zns_mode_init_def zns_init_put_def queue_view_def init_view_def
      split: if_splits bind_splits dest!: ctrl_name_view dest: oc_init_view)

lemma realize_steps:
  assumes "nvme_check_constraints (n_cfg n)"
  obtains x where "n_sq x = replicate (unat (p_num_io_queues (n_cfg n)) + 1) None"
    "n_cq x = replicate (unat (p_num_io_queues (n_cfg n)) + 1) None" "n_cfg x = n_cfg n"
    "n_ns_size x = of_nat (unat (p_memsz (n_cfg n)) * 1024 * 1024) div ucast (p_num_namespaces (n_cfg n))"
    "n_namespaces x = replicate (unat (p_num_namespaces (n_cfg n))) zero_ns" "n_bar x = n_bar n" "n_irq x = n_irq n"
    "femu_realize oc n = nvme_init_namespaces (nvme_init_ctrl (nvme_init_pci x)) \<bind> ext_init oc"
proof -
  have "\<not> \<not> nvme_check_constraints (n_cfg n)" using assms by simp
  note E = femu_realize_def [of oc n, unfolded Let_def if_not_P [OF this]]
  show thesis by (rule that [OF _ _ _ _ _ _ _ E]) simp_all
qed

lemma init_ctrl_parts:
  "n_sq (nvme_init_ctrl (nvme_init_pci x)) = n_sq x" "n_cq (nvme_init_ctrl (nvme_init_pci x)) = n_cq x"
  "n_cfg (nvme_init_ctrl (nvme_init_pci x)) = n_cfg x" "bar_cap (n_bar (nvme_init_ctrl (nvme_init_pci x))) = init_cap (n_cfg x)"
  "n_ns_size (nvme_init_ctrl (nvme_init_pci x)) = n_ns_size x" "n_namespaces (nvme_init_ctrl (nvme_init_pci x)) = n_namespaces x"
  by (simp_all add: nvme_init_ctrl_def nvme_init_pci_def nvme_init_cmb_def Let_def)

lemma realize_ok:
  assumes "femu_realize (oc_init oce) n = Some n'" "nvme_check_constraints (n_cfg n)"
    "take_bit 16 (p_max_q_ents (n_cfg n)) \<noteq> 0xffff"
  shows "queues_ok n'"
proof -
  let ?nq = "unat (p_num_io_queues (n_cfg n))"
  obtain x where x: "n_sq x = replicate (?nq + 1) None" "n_cq x = replicate (?nq + 1) None" "n_cfg x = n_cfg n"
      and E: "femu_realize (oc_init oce) n = nvme_init_namespaces (nvme_init_ctrl (nvme_init_pci x)) \<bind> ext_init (oc_init oce)"
    using realize_steps [OF assms(2)] by metis
  let ?m = "nvme_init_ctrl (nvme_init_pci x)"
  note m = init_ctrl_parts [of x]
  from E assms(1) obtain k where k: "nvme_init_namespaces ?m = Some k" "ext_init (oc_init oce) k = Some n'" by (auto split: bind_splits)
  have none: "lookup (replicate j None) i = None" for j i by (simp add: lookup_def)
  have "tables_ok (?nq + 1) (replicate (?nq + 1) None) (replicate (?nq + 1) None)"
    by (rule tables_empty) (simp_all only: length_replicate none)
  then have "queues_ok ?m"
    using m x mqes_bound [OF assms(3)] by (simp add: queues_ok_def cap_mqes_init)
  then show ?thesis
    using queues_ok_view [OF init_namespaces_view [OF k(1)]] queues_ok_init_view [OF ext_init_view [OF k(2)]] by simp
qed

primrec run_turns :: "(nat \<Rightarrow> u8) \<Rightarrow> (admin_env \<times> sb2qemu option) list \<Rightarrow> femu \<Rightarrow> femu option" where
  "run_turns mem [] n = Some n"
| "run_turns mem (t # ts) n = qemu_main_turn (fst t) mem (snd t) n \<bind> (\<lambda>(out, n). run_turns mem ts n)"

lemma run_turns_ok:
  "run_turns mem ts n = Some n' \<Longrightarrow> queues_ok n \<Longrightarrow> \<forall>t \<in> set ts. oc_keeps_queues (fst t) \<Longrightarrow> queues_ok n'"
  by (induction ts arbitrary: n) (auto split: bind_splits dest: main_turn_ok)

subsection \<open>The queue tables\<close>


text \<open>A small device without memory, enabled by the host.\<close>

definition ex_small :: femu_props where
  "ex_small = default_props\<lparr>p_memsz := 0, p_num_io_queues := 2\<rparr>"

definition ex_oce :: oc_env where
  "ex_oce = \<lparr>oe_malloc = (\<lambda>_. 0), oe_rand = (\<lambda>_. 0), oe_junk = (\<lambda>_. 0), oe_stack = (\<lambda>_. 0)\<rparr>"

definition ex_enable :: "(admin_env \<times> sb2qemu option) list" where
  "ex_enable = map (\<lambda>(a, v). (ex_env, Some (SB2Q_MMIO_WRITE 0 a 4 v)))
     [(0x24, 0x30003), (0x28, 0x10000), (0x30, 0x20000), (0x14, 0x460001)]"

lemma ex_small_checked: "nvme_check_constraints ex_small"
  by code_simp

lemma ex_small_fields: "p_num_io_queues ex_small = 2" "p_num_namespaces ex_small = 1" "p_memsz ex_small = 0"
  "p_nlbaf ex_small = 5" "p_lba_index ex_small = 0" "p_extended ex_small = 0" "p_meta ex_small = 0"
  "p_femu_mode ex_small = femu_mode_code FEMU_NOSSD_MODE" "p_max_q_ents ex_small = 0x7ff"
  by (simp_all add: ex_small_def default_props_def)

text \<open>What is known of the realised device.\<close>

definition fresh_ctrl :: "femu \<Rightarrow> bool" where
  "fresh_ctrl n \<longleftrightarrow> n_cfg n = ex_small \<and> n_bar n = zero_bar\<lparr>bar_cap := init_cap ex_small, bar_vs := NVME_SPEC_VER\<rparr> \<and>
     irq_vints (n_irq n) = [] \<and> ic_cqes (n_id_ctrl n) = 0x44 \<and> ic_sqes (n_id_ctrl n) = 0x66 \<and>
     n_sq n = [None, None, None] \<and> n_cq n = [None, None, None]"

lemma fresh_more:
  "nvme_init_namespaces n = Some n' \<Longrightarrow> fresh_ctrl n \<Longrightarrow> fresh_ctrl n'"
  "nop_init n = Some n' \<Longrightarrow> fresh_ctrl n \<Longrightarrow> fresh_ctrl n'"
  by (auto simp: nvme_init_namespaces_def nvme_init_namespace_def nop_init_def nvme_set_ctrl_name_def fresh_ctrl_def Let_def
      split: if_splits bind_splits)

lemma ex_realize:
  obtains n0 where "femu_realize (oc_init ex_oce) (calloc_femu ex_small (\<lambda>_. 0) ex_irq) = Some n0" "fresh_ctrl n0"
proof -
  let ?n = "calloc_femu ex_small (\<lambda>_. 0) ex_irq"
  have parts: "n_cfg ?n = ex_small" "n_bar ?n = zero_bar" "irq_vints (n_irq ?n) = []" by (simp_all add: calloc_femu_def ex_irq_def)
  have rep2: "replicate 3 None = [None, None, None]" by (simp add: numeral_3_eq_3)
  obtain x where x: "n_cfg x = ex_small" "n_ns_size x = 0" "n_namespaces x = [zero_ns]" "n_bar x = zero_bar"
      "irq_vints (n_irq x) = []" "n_sq x = [None, None, None]" "n_cq x = [None, None, None]"
    and E: "femu_realize (oc_init ex_oce) ?n = nvme_init_namespaces (nvme_init_ctrl (nvme_init_pci x)) \<bind> ext_init (oc_init ex_oce)"
    by (rule realize_steps [of ?n "oc_init ex_oce"]) (auto simp: parts ex_small_checked ex_small_fields rep2)
  note m = init_ctrl_parts [of x]
  have f: "fresh_ctrl (nvme_init_ctrl (nvme_init_pci x))"
    by (simp add: fresh_ctrl_def nvme_init_ctrl_def nvme_init_pci_def Let_def x zero_bar_def ex_small_def default_props_def)
  obtain k where k: "nvme_init_namespaces (nvme_init_ctrl (nvme_init_pci x)) = Some k" "n_cfg k = ex_small"
    by (simp add: nvme_init_namespaces_def nvme_init_namespace_def nvme_ns_init_identify_def ns_blks_def m x ex_small_fields Let_def
        NVME_ID_NS_FLBAS_INDEX_def zero_ns_def zero_id_ns_def set_nsze_def BDRV_SECTOR_BITS_def)
  obtain j where j: "nop_init k = Some j"
    by (simp add: nop_init_def nvme_set_ctrl_name_def Let_def decimal.simps c_string_def ID_MAX_LEN_def MN_MAX_LEN_def)
  have "ext_init (oc_init ex_oce) k = Some j" by (simp add: ext_init_def OCSSD_def NOSSD_def k ex_small_fields j)
  then show thesis using that E k fresh_more(2) [OF j fresh_more(1) [OF k(1) f]] by auto
qed

lemma ex_caps: "NVME_CAP_MPSMIN (init_cap ex_small) = 0" "NVME_CAP_MPSMAX (init_cap ex_small) = 0"
  by code_simp+

lemma ex_bar_fields: "NVME_CC_EN 0x460001 = 1" "NVME_CC_SHN 0x460001 = 0" "NVME_CC_MPS 0x460001 = 0" "NVME_CC_IOSQES 0x460001 = 6"
  "NVME_CC_IOCQES 0x460001 = 4" "NVME_AQA_ASQS 0x30003 = 3" "NVME_AQA_ACQS 0x30003 = 3" "NVME_CC_EN 0 = 0" "NVME_CC_SHN 0 = 0"
  "NVME_CTRL_ES_MIN 0x44 = 4" "NVME_CTRL_ES_MAX 0x44 = 4" "NVME_CTRL_ES_MIN 0x66 = 6" "NVME_CTRL_ES_MAX 0x66 = 6"
  by code_simp+

definition ex_ready :: "femu \<Rightarrow> bool" where
  "ex_ready n \<longleftrightarrow> n_cfg n = ex_small \<and> irq_vints (n_irq n) = [] \<and> NVME_CC_SHN (bar_cc (n_bar n)) = 0 \<and>
     (\<exists>q c. lookup (n_sq n) 0 = Some q \<and> lookup (n_cq n) 0 = Some c \<and> sq_size q = 4 \<and> cq_size c = 4)"

lemma ex_start:
  assumes "fresh_ctrl n"
  obtains n' where "nvme_start_ctrl j (n\<lparr>n_bar := (n_bar n)\<lparr>bar_aqa := 0x30003, bar_asq := 0x10000, bar_acq := 0x20000, bar_cc := 0x460001\<rparr>\<rparr>)
     = Some (0, n')" "ex_ready n'"
proof -
  let ?n = "n\<lparr>n_bar := (n_bar n)\<lparr>bar_aqa := 0x30003, bar_asq := 0x10000, bar_acq := 0x20000, bar_cc := 0x460001\<rparr>\<rparr>"
  note F = assms [unfolded fresh_ctrl_def]
  have "\<not> start_refused ?n"
    using F by (simp add: start_refused_def Let_def ex_caps ex_bar_fields lookup_def)
  moreover have "\<not> ZNSSD ?n" using F by (simp add: ZNSSD_def ex_small_fields)
  ultimately show thesis
    using F that by (simp add: nvme_start_ctrl_def Let_def nvme_init_cq_def nvme_init_sq_def queue_memory_def lookup_def upd_cq_def upd_sq_def
      ex_bar_fields ZNSSD_def ex_ready_def)
qed

lemma ex_enabled:
  assumes "fresh_ctrl n"
  obtains n' where "run_turns (\<lambda>_. 0) (map (apfst (with_oc ex_oce)) ex_enable) n = Some n'" "ex_ready n'"
proof -
  note F = assms [unfolded fresh_ctrl_def]
  obtain m where m: "nvme_start_ctrl (\<lambda>_. 0) (n\<lparr>n_bar := (n_bar n)\<lparr>bar_aqa := 0x30003, bar_asq := 0x10000, bar_acq := 0x20000, bar_cc := 0x460001\<rparr>\<rparr>)
     = Some (0, m)" "ex_ready m" by (rule ex_start [OF assms])
  have no_cmb: "p_cmbsz ex_small = 0" by (simp add: ex_small_def default_props_def)
  show thesis
    by (rule that [of "m\<lparr>n_bar := (n_bar m)\<lparr>bar_csts := csts_bit NVME_CSTS_READY\<rparr>\<rparr>"])
       (use F m no_cmb in \<open>simp_all add: ex_enable_def qemu_main_turn_def mmio_write_def has_cmb_def nvme_mmio_write_def nvme_write_bar_def
      qemu_main_poll_def Let_def ex_bar_fields zero_bar_def ex_env_def with_oc_def ex_ready_def\<close>)
qed



subsection \<open>Creating a submission queue\<close>

text \<open>C32: A request to create a contiguous submission queue with a fresh number, an existing completion queue and
  an admissible size and address makes exactly that queue when the number is one of the configured queues.  A
  number past the last queue is not refused: the constructor stores the queue outside the table.\<close>

theorem create_sq_by_number:
  assumes "queues_ok n" "c = csq_of_cmd cmd" "csq_cqid c \<noteq> 0" "lookup (n_cq n) (unat (csq_cqid c)) = Some cq"
    "csq_sqid c \<noteq> 0" "lookup (n_sq n) (unat (csq_sqid c)) = None"
    "csq_qsize c \<noteq> 0" "ucast (csq_qsize c) \<le> NVME_CAP_MQES (bar_cap (n_bar n))"
    "csq_prp1 c \<noteq> 0" "\<not> page_unaligned n (csq_prp1 c)" "NVME_SQ_FLAGS_PC (csq_sq_flags c) \<noteq> 0"
  shows "if unat (csq_sqid c) \<le> unat (p_num_io_queues (n_cfg n))
     then \<exists>n' q. nvme_create_sq env n cmd = Some (sc NVME_SUCCESS, n') \<and> lookup (n_sq n') (unat (csq_sqid c)) = Some q \<and>
       sq_is_active q \<and> sq_sqid q = csq_sqid c \<and> sq_cqid q = csq_cqid c \<and> sq_size q = ucast (csq_qsize c) + 1 \<and>
       sq_dma_addr q = csq_prp1 c \<and> sq_head q = 0 \<and> sq_tail q = 0 \<and> sq_req_list q = [0..<unat (csq_qsize c) + 1]
     else nvme_create_sq env n cmd = None"
proof -
  have len: "length (n_sq n) = unat (p_num_io_queues (n_cfg n)) + 1" using assms(1) by (simp add: queues_ok_def tables_ok_def)
  have chk: "nvme_check_cqid n (csq_cqid c)" "\<not> nvme_check_sqid n (csq_sqid c)"
    using check_cqid_lookup [OF assms(1)] check_sqid_lookup [OF assms(1)] assms(4,6) by simp_all
  have "unat (csq_qsize c) < 65535"
    using assms(1,8) by (auto simp: queues_ok_def word_le_nat_alt word_less_nat_alt)
  then have sz: "unat (csq_qsize c + 1) = unat (csq_qsize c) + 1" by (simp add: unat_word_ariths)
  then have sz32: "(ucast (csq_qsize c + 1) :: u32) = ucast (csq_qsize c) + 1"
    using \<open>unat (csq_qsize c) < 65535\<close> by (simp add: word_eq_iff_unsigned [where 'a = nat] unat_word_ariths)
  let ?s = "csq_sqid c" and ?db = "csq_sqid c \<noteq> 0 \<and> n_dbs_addr n \<noteq> 0 \<and> n_eis_addr n \<noteq> 0"
  define qa where "qa = zero_sq\<lparr>sq_sqid := ?s, sq_size := ucast (csq_qsize c + 1), sq_cqid := csq_cqid c, sq_head := 0, sq_tail := 0,
    sq_phys_contig := 1, sq_dma_addr := csq_prp1 c, sq_prp_list := sq_prp_list zero_sq,
    sq_io_req := replicate (unat (csq_qsize c + 1)) (zero_req (unat ?s)), sq_req_list := [0..<unat (csq_qsize c + 1)], sq_out_req_list := [],
    sq_arb_burst := arb_burst n (queue_prio (NVME_SQ_FLAGS_QPRIO (csq_sq_flags c))),
    sq_db_addr := (if ?db then n_dbs_addr n + dbbuf_offset n (2 * unat ?s) else sq_db_addr zero_sq),
    sq_eventidx_addr := (if ?db then 0 else sq_eventidx_addr zero_sq)\<rparr>"
  have init: "nvme_init_sq (env_stack env) zero_sq n (csq_prp1 c) (csq_sqid c) (csq_cqid c) (csq_qsize c + 1)
      (queue_prio (NVME_SQ_FLAGS_QPRIO (csq_sq_flags c))) True =
      (if length (n_sq n) \<le> unat (csq_sqid c) then None
       else Some (sc NVME_SUCCESS, upd_sq (upd_cq n (unat (csq_cqid c)) (cq\<lparr>cq_sq_list := cq_sq_list cq @ [unat (csq_sqid c)]\<rparr>))
         (unat (csq_sqid c)) qa))"
    by (simp add: nvme_init_sq_def queue_memory_def Let_def assms(4) qa_def)
  have qa: "\<not> sq_is_active qa" "sq_sqid qa = csq_sqid c" "sq_cqid qa = csq_cqid c" "sq_size qa = ucast (csq_qsize c) + 1"
       "sq_dma_addr qa = csq_prp1 c" "sq_head qa = 0" "sq_tail qa = 0" "sq_req_list qa = [0..<unat (csq_qsize c) + 1]"
    by (simp_all add: qa_def sz sz32) (simp_all add: zero_sq_def)
  have E: "nvme_create_sq env n cmd =
      (if length (n_sq n) \<le> unat (csq_sqid c) then None
       else Some (sc NVME_SUCCESS, upd_sq (upd_sq (upd_cq n (unat (csq_cqid c)) (cq\<lparr>cq_sq_list := cq_sq_list cq @ [unat (csq_sqid c)]\<rparr>))
         (unat (csq_sqid c)) qa) (unat (csq_sqid c)) (qa\<lparr>sq_is_active := True\<rparr>)))"
    unfolding nvme_create_sq_def Let_def assms(2) [symmetric]
    using assms(3,5,7,9-11) assms(8) [folded not_less] chk init qa(1)
    by (simp add: success_def) (simp add: upd_sq_def upd_cq_def lookup_list_update success_def)
  show ?thesis
  proof (cases "length (n_sq n) \<le> unat (csq_sqid c)")
    case False
    then show ?thesis using len qa E by (simp add: upd_sq_def upd_cq_def lookup_list_update)
  qed (use E len in simp)
qed

text \<open>The example device with a completion queue 1.\<close>

definition ex_cq1 :: NvmeCQueue where
  "ex_cq1 = zero_cq\<lparr>cq_cqid := 1, cq_phys_contig := 1, cq_size := 4, cq_phase := 1, cq_dma_addr := 0x30000, cq_is_active := True\<rparr>"

definition ex_dev :: femu where
  "ex_dev = ex_admin\<lparr>n_bar := zero_bar\<lparr>bar_cap := 0x7ff\<rparr>, n_cq := (n_cq ex_admin)[1 := Some ex_cq1]\<rparr>"

definition ex_create :: "u16 \<Rightarrow> NvmeCmd" where
  "ex_create sqid = zero_cmd\<lparr>cmd_prp1 := 0x40000, cmd_cdw10 := push_bit 16 3 OR ucast sqid, cmd_cdw11 := 0x10001\<rparr>"

lemma ex_host_dev_ok: "queues_ok ex_dev"
proof -
  have "cq_shape 1 ex_cq1" "cq_sq_list ex_cq1 = []" by (simp_all add: cq_shape_def ex_cq1_def zero_cq_def)
  moreover have "lookup (n_cq ex_admin) 1 = None" by (simp add: ex_admin_def lookup_def)
  moreover have "n_cfg ex_dev = ex_cfg" "n_cfg ex_admin = ex_cfg" "unat (p_num_io_queues ex_cfg) = 2"
    by (simp_all add: ex_dev_def ex_admin_def ex_ctrl_simps ex_cfg_def)
  ultimately have "tables_ok 3 (n_sq ex_admin) ((n_cq ex_admin)[1 := Some ex_cq1])"
    using tables_add_cq [OF queues_tables [OF ex_admin_ok], of 1 ex_cq1] by simp
  then show ?thesis
    using \<open>n_cfg ex_dev = ex_cfg\<close> \<open>unat (p_num_io_queues ex_cfg) = 2\<close>
    by (simp add: queues_ok_def ex_dev_def NVME_CAP_MQES_def)
qed

lemma create_sq_by_number_witness:
  "(\<exists>n' q. nvme_create_sq ex_env ex_dev (ex_create 2) = Some (sc NVME_SUCCESS, n') \<and> lookup (n_sq n') 2 = Some q \<and> sq_size q = 4) \<and>
   nvme_create_sq ex_env ex_dev (ex_create 3) = None"
proof -
  have fields: "csq_sqid (csq_of_cmd (ex_create 2)) = 2" "csq_sqid (csq_of_cmd (ex_create 3)) = 3"
    "csq_cqid (csq_of_cmd (ex_create k)) = 1" "csq_qsize (csq_of_cmd (ex_create 2)) = 3" "csq_qsize (csq_of_cmd (ex_create 3)) = 3"
    "csq_prp1 (csq_of_cmd (ex_create k)) = 0x40000" "csq_sq_flags (csq_of_cmd (ex_create k)) = 1" for k
    by (simp_all add: csq_of_cmd_def ex_create_def zero_cmd_def lo16_def hi16_def)
  have dev: "lookup (n_cq ex_dev) 1 = Some ex_cq1" "lookup (n_sq ex_dev) 2 = None" "lookup (n_sq ex_dev) 3 = None"
    "NVME_CAP_MQES (bar_cap (n_bar ex_dev)) = 0x7ff" "n_page_size ex_dev = 4096" "unat (p_num_io_queues (n_cfg ex_dev)) = 2"
    by (simp_all add: ex_dev_def ex_admin_def lookup_def NVME_CAP_MQES_def n_page_size_def ex_ctrl_simps ex_cfg_def)
  show ?thesis
    using create_sq_by_number [OF ex_host_dev_ok refl, of "ex_create 2" ex_cq1 ex_env] create_sq_by_number [OF ex_host_dev_ok refl, of "ex_create 3" ex_cq1 ex_env]
    by (simp add: fields dev [unfolded One_nat_def] page_unaligned_def NVME_SQ_FLAGS_PC_def) blast
qed


subsection \<open>Deleting queues\<close>

lemma del_cq_inactive:
  "queues_ok n \<Longrightarrow> lookup (n_cq n) (unat (delq_qid (delq_of_cmd cmd))) = Some c \<Longrightarrow> \<not> cq_is_active c \<Longrightarrow>
   delq_qid (delq_of_cmd cmd) \<noteq> 0 \<Longrightarrow> nvme_del_cq n cmd = None"
  by (simp add: nvme_del_cq_def Let_def check_cqid_lookup)


text \<open>The example device with submission queue 1 on completion queue 1.\<close>

definition ex_sq1 :: NvmeSQueue where
  "ex_sq1 = zero_sq\<lparr>sq_sqid := 1, sq_cqid := 1, sq_size := 4, sq_io_req := replicate 4 (zero_req 1), sq_req_list := [1, 2, 3],
     sq_out_req_list := [0], sq_is_active := True\<rparr>"

definition ex_used :: femu where
  "ex_used = ex_dev\<lparr>n_sq := (n_sq ex_dev)[1 := Some ex_sq1], n_cq := (n_cq ex_dev)[1 := Some (ex_cq1\<lparr>cq_sq_list := [1]\<rparr>)]\<rparr>"

lemma ex_used_parts: "lookup (n_sq ex_used) 1 = Some ex_sq1" "lookup (n_cq ex_used) 1 = Some (ex_cq1\<lparr>cq_sq_list := [1]\<rparr>)"
  "cq_is_active ex_cq1"
  by (simp_all add: ex_used_def ex_dev_def ex_admin_def lookup_def ex_cq1_def)

lemma ex_used_ok: "queues_ok ex_used"
proof (rule queues_okI [OF ex_host_dev_ok])
  have l: "lookup (n_sq ex_dev) 1 = None" "lookup (n_cq ex_dev) 1 = Some ex_cq1" and k: "unat (p_num_io_queues (n_cfg ex_dev)) = 2"
    by (simp_all add: ex_dev_def ex_admin_def lookup_def ex_ctrl_simps ex_cfg_def)
  have e: "cq_sq_list ex_cq1 = []" by (simp add: ex_cq1_def zero_cq_def)
  have sh: "sq_shape 1 ex_sq1" "unat (sq_cqid ex_sq1) = 1" by (auto simp: sq_shape_def ex_sq1_def zero_sq_def)
  show "tables_ok (unat (p_num_io_queues (n_cfg ex_dev)) + 1) (n_sq ex_used) (n_cq ex_used)"
    using tables_add_sq [OF queues_tables [OF ex_host_dev_ok] _ l refl sh] by (simp add: k e ex_used_def)
qed (simp_all add: ex_used_def)

definition ex_del :: NvmeCmd where "ex_del = zero_cmd\<lparr>cmd_cdw10 := 1\<rparr>"

lemma ex_del_qid: "delq_qid (delq_of_cmd ex_del) = 1"
  by (simp add: ex_del_def delq_of_cmd_def lo16_def)


text \<open>C33: Deleting a submission queue frees its requests even when they are on their way: when the thread of the
  flash translation layer takes such a request from its ring next, it reads freed memory.\<close>

theorem deleted_queue_request_faults:
  assumes "queues_ok n" "nvme_del_sq env n cmd = Some (sc NVME_SUCCESS, n')"
    "ring_at (n_to_ftl n) p = Some ring" "ring_ok ring" "ring_contents ring = r # rs"
    "fst r = unat (delq_qid (delq_of_cmd cmd))"
  shows "ftl_step fuel rt p (lat, n') = None"
proof (rule del_sq_effect [OF assms(2,1)])
  fix q c
  assume *: "lookup (n_sq n) (unat (delq_qid (delq_of_cmd cmd))) = Some q"
    "n_sq n' = (n_sq n)[unat (delq_qid (delq_of_cmd cmd)) := None]" "n_to_ftl n' = n_to_ftl n"
  then have "req_at (n_sq n') r = None"
    using lookup_less [OF *(1)] assms(6) by (simp add: req_at_def lookup_list_update)
  moreover obtain ring' where "ring_receive null_req ring = Some (Some r, ring')"
    using ring_fifo.get_law [OF assms(4), of null_req] assms(5) by auto
  moreover have "femu_ring_count ring \<noteq> 0"
    using ring_count_used [OF assms(4)] length_ring_contents [of ring] assms(5) by (simp add: femu_ring_count_def)
  ultimately show ?thesis using *(3) assms(3) by (simp add: ftl_step_def Let_def split: option.split)
qed simp


lemma deleted_queue_request_faults_witness:
  "\<exists>ring n'. ring_contents ring = [(1, 0)] \<and>
     nvme_del_sq ex_env (ex_used\<lparr>n_to_ftl := [ring], n_ssd := Some ssd_init\<rparr>) ex_del = Some (sc NVME_SUCCESS, n') \<and>
     ftl_step 1 (\<lambda>_. 0) 0 (0, n') = None"
proof -
  obtain r0 :: "req_id rte_ring" where r0: "ring_ok r0" "ring_contents r0 = []" "unat (rg_capacity r0) = 3"
    using ring_created [of 2 null_req FEMU_RING_TYPE_MP_SC] by auto
  obtain ring :: "req_id rte_ring" where ring: "ring_ok ring" "ring_contents ring = [(1, 0)]"
    using ring_fifo.put_law [OF r0(1), of "(1 :: nat, 0 :: nat)"] r0 by (simp del: One_nat_def) blast
  let ?n = "ex_used\<lparr>n_to_ftl := [ring], n_ssd := Some ssd_init\<rparr>"
  have ok: "queues_ok ?n" by (rule kept_by_view [OF _ ex_used_ok]) (simp add: queue_view_def)
  have chk: "nvme_check_sqid ?n 1" "nvme_check_cqid (upd_sq ?n 1 q) 1" for q
    using check_sqid_lookup [OF ok, of 1] check_cqid_lookup [OF ok, of 1] ex_used_parts
    by (simp_all add: nvme_check_cqid_def upd_sq_def)
  have fields: "sq_is_active ex_sq1" "sq_cqid ex_sq1 = 1" "cq_req_list ex_cq1 = []" "length (n_sq ex_used) = 3" "length (n_cq ex_used) = 3"
    by (simp_all add: ex_sq1_def ex_cq1_def zero_cq_def ex_used_def ex_dev_def ex_admin_def)
  obtain n' where n': "nvme_del_sq ex_env ?n ex_del = Some (sc NVME_SUCCESS, n')"
    using chk fields ex_used_parts
    by (simp add: nvme_del_sq_def ex_del_qid Let_def nvme_post_cqes_io_def upd_sq_def upd_cq_def lookup_list_update nvme_free_sq_def success_def)
  have "ftl_step 1 (\<lambda>_. 0) 0 (0, n') = None"
    by (rule deleted_queue_request_faults [OF ok n' _ ring]) (simp_all add: ring_at_def ex_del_qid)
  then show ?thesis using n' ring by blast
qed

end
