(* ===== verification/Oc20_Inv.thy ===== *)
theory Oc20_Inv
  imports Oc_Views
begin

text \<open>
  Chunks of the open-channel 2.0 mode as numbers: well-formed namespaces, the parts of an address, and what
  the checks, the write pointer and a reset do to the state of one chunk, stated against an abstract chunk that
  is free, open at a position or closed.
\<close>

subsection \<open>Well-formed namespaces\<close>

definition sec_bits :: "Oc20Namespace \<Rightarrow> nat" where "sec_bits lns = unat (laf_sec_len (ng_lbaf (lns_id_ctrl lns)))"
definition chk_bits :: "Oc20Namespace \<Rightarrow> nat" where "chk_bits lns = unat (laf_chk_len (ng_lbaf (lns_id_ctrl lns)))"
definition lun_bits :: "Oc20Namespace \<Rightarrow> nat" where "lun_bits lns = unat (laf_lun_len (ng_lbaf (lns_id_ctrl lns)))"

definition n_clba :: "Oc20Namespace \<Rightarrow> nat" where "n_clba lns = unat (geo_clba (ng_geo (lns_id_ctrl lns)))"
definition n_chk :: "Oc20Namespace \<Rightarrow> nat" where "n_chk lns = unat (geo_num_chk (ng_geo (lns_id_ctrl lns)))"
definition n_lun :: "Oc20Namespace \<Rightarrow> nat" where "n_lun lns = unat (geo_num_lun (ng_geo (lns_id_ctrl lns)))"
definition n_grp :: "Oc20Namespace \<Rightarrow> nat" where "n_grp lns = unat (geo_num_grp (ng_geo (lns_id_ctrl lns)))"

text \<open>Every chunk is sequential, has the size of the geometry, and its state fits its write pointer.\<close>

definition chunk_ok :: "nat \<Rightarrow> Oc20CS \<Rightarrow> bool" where
  "chunk_ok size' cs \<longleftrightarrow> cs_type cs = OC20_CHUNK_TYPE_SEQ \<and> unat (cs_cnlb cs) = size' \<and>
     (cs_state cs = OC20_CHUNK_FREE \<and> cs_wp cs = 0 \<or>
      cs_state cs = OC20_CHUNK_OPEN \<and> cs_wp cs \<noteq> 0 \<and> cs_wp cs < cs_cnlb cs \<or>
      cs_state cs = OC20_CHUNK_CLOSED \<and> cs_wp cs = cs_cnlb cs)"

definition format_ok :: "Oc20Namespace \<Rightarrow> bool" where
  "format_ok lns \<longleftrightarrow>
     (let s = sec_bits lns; c = chk_bits lns; u = lun_bits lns; f = lns_lbaf lns
      in unat (a20_sec_offset f) = 0 \<and> unat (a20_chk_offset f) = s \<and> unat (a20_lun_offset f) = s + c \<and>
         unat (a20_grp_offset f) = s + c + u \<and> s + c + u < 32 \<and>
         a20_sec_mask f = mask s \<and> a20_chk_mask f = push_bit s (mask c) \<and> a20_lun_mask f = push_bit (s + c) (mask u) \<and>
         n_clba lns \<le> 2 ^ s \<and> n_chk lns \<le> 2 ^ c \<and> n_lun lns \<le> 2 ^ u)"

definition oc20_ns_ok :: "Oc20Namespace \<Rightarrow> bool" where
  "oc20_ns_ok lns \<longleftrightarrow>
     format_ok lns \<and> 0 < n_clba lns \<and> unat (lns_chks_per_grp lns) = n_lun lns * n_chk lns \<and>
     length (lns_chunk_info lns) = n_grp lns * (n_lun lns * n_chk lns) \<and> n_grp lns * (n_lun lns * n_chk lns) < 2 ^ 32 \<and>
     lns_resetfail lns = None \<and> (\<forall>cs \<in> set (lns_chunk_info lns). chunk_ok (n_clba lns) cs)"

subsection \<open>Addresses\<close>

definition lba_sectr :: "Oc20Namespace \<Rightarrow> u64 \<Rightarrow> nat" where "lba_sectr lns lba = unat lba mod 2 ^ sec_bits lns"
definition lba_chk :: "Oc20Namespace \<Rightarrow> u64 \<Rightarrow> nat" where "lba_chk lns lba = unat lba div 2 ^ sec_bits lns mod 2 ^ chk_bits lns"
definition lba_lun :: "Oc20Namespace \<Rightarrow> u64 \<Rightarrow> nat" where
  "lba_lun lns lba = unat lba div 2 ^ (sec_bits lns + chk_bits lns) mod 2 ^ lun_bits lns"
definition lba_grp :: "Oc20Namespace \<Rightarrow> u64 \<Rightarrow> nat" where
  "lba_grp lns lba = unat lba div 2 ^ (sec_bits lns + chk_bits lns + lun_bits lns)"

text \<open>The position of the chunk of an address.\<close>

definition chunk_of :: "Oc20Namespace \<Rightarrow> u64 \<Rightarrow> nat" where
  "chunk_of lns lba = (lba_grp lns lba * n_lun lns + lba_lun lns lba) * n_chk lns + lba_chk lns lba"

lemma drop_and_mask: "drop_bit k (w AND push_bit k (mask c)) = take_bit c (drop_bit k (w :: u64))"
  by (rule bit_word_eqI) (auto simp: bit_simps dest: bit_imp_le_length)

lemma and_mask: "w AND mask c = take_bit c (w :: u64)"
  by (simp add: take_bit_eq_mask)

lemma unat_take: "unat (take_bit c (w :: u64)) = unat w mod 2 ^ c"
  using unsigned_take_bit_eq [where 'a = nat, of c w] by (simp only: take_bit_eq_mod)

lemma unat_drop: "unat (drop_bit k (w :: u64)) = unat w div 2 ^ k"
  using unat_drop_bit_eq [of k w] by (simp only: drop_bit_eq_div)

lemma lba_parts:
  assumes "format_ok lns"
  shows "unat (OC20_LBA_GET_SECTR (lns_lbaf lns) lba) = lba_sectr lns lba"
    "unat (OC20_LBA_GET_CHUNK (lns_lbaf lns) lba) = lba_chk lns lba"
    "unat (OC20_LBA_GET_PUNIT (lns_lbaf lns) lba) = lba_lun lns lba"
    "unat (OC20_LBA_GET_GROUP (lns_lbaf lns) lba) = lba_grp lns lba"
    "unat (lba AND a20_sec_mask (lns_lbaf lns)) = lba_sectr lns lba"
  using assms
  by (simp_all add: format_ok_def Let_def OC20_LBA_GET_SECTR_def OC20_LBA_GET_CHUNK_def OC20_LBA_GET_PUNIT_def
      OC20_LBA_GET_GROUP_def drop_and_mask and_mask unat_take unat_drop lba_sectr_def lba_chk_def lba_lun_def lba_grp_def
      del: drop_bit_and)

lemma valid_parts:
  assumes "format_ok lns"
  shows "oc20_lba_valid lns lba \<longleftrightarrow>
    lba_sectr lns lba < n_clba lns \<and> lba_chk lns lba < n_chk lns \<and> lba_lun lns lba < n_lun lns \<and> lba_grp lns lba < n_grp lns"
proof -
  have "unat (ucast (x :: u32) :: u64) = unat x" "unat (ucast (y :: u16) :: u64) = unat y" for x y by simp_all
  then show ?thesis
    by (simp add: oc20_lba_valid_def Let_def word_less_nat_alt lba_parts [OF assms] n_clba_def n_chk_def n_lun_def n_grp_def)
qed

lemma chunk_of_less:
  assumes "oc20_ns_ok lns" "oc20_lba_valid lns lba"
  shows "chunk_of lns lba < length (lns_chunk_info lns)"
proof -
  have ok: "format_ok lns" using assms(1) by (simp add: oc20_ns_ok_def)
  note v = assms(2) [unfolded valid_parts [OF ok]]
  have "lba_grp lns lba * n_lun lns + lba_lun lns lba < n_grp lns * n_lun lns" using v by (intro two_digits_less) auto
  then have "chunk_of lns lba < n_grp lns * n_lun lns * n_chk lns" unfolding chunk_of_def using v by (intro two_digits_less) auto
  then show ?thesis using assms(1) by (simp add: oc20_ns_ok_def mult.assoc)
qed

lemma chunk_index:
  assumes "oc20_ns_ok lns" "oc20_lba_valid lns lba"
  shows "unat (oc20_lba_to_chunk_index lns lba) = chunk_of lns lba"
proof -
  have ok: "format_ok lns" using assms(1) by (simp add: oc20_ns_ok_def)
  have less: "chunk_of lns lba < 2 ^ 32" using chunk_of_less [OF assms] assms(1) by (simp add: oc20_ns_ok_def)
  have eq: "chunk_of lns lba = lba_chk lns lba + lba_lun lns lba * n_chk lns + lba_grp lns lba * (n_lun lns * n_chk lns)"
    by (simp add: chunk_of_def algebra_simps)
  have "unat (lns_chks_per_grp lns) = n_lun lns * n_chk lns" using assms(1) by (simp add: oc20_ns_ok_def)
  moreover have "unat (ucast (x :: u32) :: u64) = unat x" for x by simp
  ultimately show ?thesis
    using less lba_parts [OF ok, of lba] unfolding eq oc20_lba_to_chunk_index_def Let_def
    by (simp add: unat_word_ariths n_chk_def [symmetric])
qed

text \<open>The chunk and the sector determine a valid address.\<close>

lemma lba_of_parts:
  "unat lba = lba_sectr lns lba + 2 ^ sec_bits lns * (lba_chk lns lba + 2 ^ chk_bits lns * (lba_lun lns lba + 2 ^ lun_bits lns * lba_grp lns lba))"
proof -
  have split: "(x :: nat) = x mod 2 ^ k + 2 ^ k * (x div 2 ^ k)" for x k by simp
  have d: "x div 2 ^ a div 2 ^ b = x div 2 ^ (a + b)" for x :: nat and a b by (simp add: div_mult2_eq power_add)
  let ?x = "unat lba" and ?s = "sec_bits lns" and ?c = "chk_bits lns" and ?u = "lun_bits lns"
  have "?x = lba_sectr lns lba + 2 ^ ?s * (?x div 2 ^ ?s)" unfolding lba_sectr_def by (rule split)
  moreover have "?x div 2 ^ ?s = lba_chk lns lba + 2 ^ ?c * (?x div 2 ^ (?s + ?c))"
    unfolding lba_chk_def d [symmetric] by (rule split)
  moreover have "?x div 2 ^ (?s + ?c) = lba_lun lns lba + 2 ^ ?u * lba_grp lns lba"
    unfolding lba_lun_def lba_grp_def d [symmetric] by (rule split)
  ultimately show ?thesis by simp
qed

lemma valid_lba_inj:
  assumes "oc20_ns_ok lns" "oc20_lba_valid lns a" "oc20_lba_valid lns b" "chunk_of lns a = chunk_of lns b"
  shows "lba_chk lns a = lba_chk lns b" "lba_lun lns a = lba_lun lns b" "lba_grp lns a = lba_grp lns b"
proof -
  have ok: "format_ok lns" using assms(1) by (simp add: oc20_ns_ok_def)
  note v = assms(2,3) [unfolded valid_parts [OF ok]]
  show "lba_chk lns a = lba_chk lns b" "lba_lun lns a = lba_lun lns b" "lba_grp lns a = lba_grp lns b"
    using assms(4) v unfolding chunk_of_def by (simp_all add: two_digits_eq)
qed

lemma lba_in_chunk:
  assumes "oc20_ns_ok lns" "oc20_lba_valid lns a" "oc20_lba_valid lns b" "chunk_of lns a = chunk_of lns b"
  shows "unat a - lba_sectr lns a = unat b - lba_sectr lns b"
  using valid_lba_inj [OF assms] lba_of_parts [of a lns] lba_of_parts [of b lns] by simp

subsection \<open>An abstract chunk\<close>

datatype chunk = Chunk_free | Chunk_open nat | Chunk_closed

definition chunk_abs :: "Oc20CS \<Rightarrow> chunk" where
  "chunk_abs cs =
     (if cs_state cs = OC20_CHUNK_FREE then Chunk_free else if cs_state cs = OC20_CHUNK_OPEN then Chunk_open (unat (cs_wp cs))
      else Chunk_closed)"

text \<open>Where the next write has to start, and a chunk that is written up to a position.\<close>

primrec chunk_pos :: "nat \<Rightarrow> chunk \<Rightarrow> nat" where
  "chunk_pos size' Chunk_free = 0"
| "chunk_pos size' (Chunk_open p) = p"
| "chunk_pos size' Chunk_closed = size'"

definition chunk_at :: "nat \<Rightarrow> nat \<Rightarrow> chunk" where
  "chunk_at size' p = (if p = size' then Chunk_closed else if p = 0 then Chunk_free else Chunk_open p)"

text \<open>What a write of a list of sectors, and a reset, must do to a chunk.\<close>

definition spec_write :: "nat \<Rightarrow> nat list \<Rightarrow> chunk \<Rightarrow> u16 \<times> chunk" where
  "spec_write size' sectors c =
     (let start = sectors ! 0; end' = start + length sectors
      in if sectors \<noteq> [start..<end'] then (OC20_OUT_OF_ORDER_WRITE OR sc NVME_DNR, c)
         else if c = Chunk_closed \<or> size' < end' then (dnr NVME_WRITE_FAULT, c)
         else if start \<noteq> chunk_pos size' c then (OC20_OUT_OF_ORDER_WRITE OR sc NVME_DNR, c)
         else (sc NVME_SUCCESS, chunk_at size' end'))"

definition spec_reset :: "u32 \<Rightarrow> chunk \<Rightarrow> u16 \<times> chunk" where
  "spec_reset mccap c =
     (let allowed = (case c of
          Chunk_free \<Rightarrow> mccap AND OC20_PARAMS_MCCAP_MULTIPLE_RESETS \<noteq> 0
        | Chunk_open p \<Rightarrow> mccap AND OC20_PARAMS_MCCAP_EARLY_RESET \<noteq> 0
        | Chunk_closed \<Rightarrow> True)
      in if allowed then (sc NVME_SUCCESS, Chunk_free) else (OC20_INVALID_RESET OR sc NVME_DNR, c))"

text \<open>An erase resets the chunks of a list, where an address may have none, until one fails.\<close>

primrec spec_erase :: "u32 \<Rightarrow> nat option list \<Rightarrow> chunk list \<Rightarrow> u16 \<times> chunk list" where
  "spec_erase mccap [] cks = (sc NVME_SUCCESS, cks)"
| "spec_erase mccap (k # ks) cks =
     (case k of
        None \<Rightarrow> (OC20_INVALID_RESET, cks)
      | Some k \<Rightarrow> (case spec_reset mccap (cks ! k) of
          (st, c) \<Rightarrow> if st \<noteq> 0 then (st, cks) else spec_erase mccap ks (cks[k := c])))"

abbreviation chunks_of :: "Oc20Namespace \<Rightarrow> chunk list" where "chunks_of lns \<equiv> map chunk_abs (lns_chunk_info lns)"

lemmas chunk_state_defs = OC20_CHUNK_FREE_def OC20_CHUNK_OPEN_def OC20_CHUNK_CLOSED_def OC20_CHUNK_OFFLINE_def
  OC20_CHUNK_RESETABLE_def OC20_CHUNK_TYPE_SEQ_def OC20_CHUNK_TYPE_RAN_def

text \<open>The three kinds of well-formed descriptors.\<close>

lemma chunk_ok_cases:
  assumes "chunk_ok size' cs"
  obtains (free) "cs_state cs = OC20_CHUNK_FREE" "cs_wp cs = 0" "chunk_abs cs = Chunk_free"
    | (opened) "cs_state cs = OC20_CHUNK_OPEN" "0 < unat (cs_wp cs)" "unat (cs_wp cs) < size'"
        "chunk_abs cs = Chunk_open (unat (cs_wp cs))"
    | (closed) "cs_state cs = OC20_CHUNK_CLOSED" "unat (cs_wp cs) = size'" "chunk_abs cs = Chunk_closed"
  using assms by (auto simp: chunk_ok_def chunk_abs_def chunk_state_defs word_less_nat_alt unat_gt_0)

lemma chunk_ok_size: "chunk_ok size' cs \<Longrightarrow> unat (cs_cnlb cs) = size'"
  by (simp add: chunk_ok_def)

lemma chunk_ok_seq: "chunk_ok size' cs \<Longrightarrow> cs_type cs = OC20_CHUNK_TYPE_SEQ"
  by (simp add: chunk_ok_def)

lemma chunk_ok_wp: "chunk_ok size' cs \<Longrightarrow> unat (cs_wp cs) = chunk_pos size' (chunk_abs cs)"
  by (erule chunk_ok_cases) simp_all

subsection \<open>The code on one chunk\<close>

lemma ns_okD:
  assumes "oc20_ns_ok lns"
  shows "format_ok lns" "0 < n_clba lns" "n_clba lns \<le> 2 ^ sec_bits lns" "sec_bits lns < 32" "lns_resetfail lns = None"
    "k < length (lns_chunk_info lns) \<Longrightarrow> chunk_ok (n_clba lns) (lns_chunk_info lns ! k)"
  using assms by (auto simp: oc20_ns_ok_def format_ok_def Let_def)

lemma get_state:
  assumes "oc20_ns_ok lns"
  shows "oc20_chunk_get_state lns lba =
    Some (if oc20_lba_valid lns lba then Some (chunk_of lns lba, lns_chunk_info lns ! chunk_of lns lba) else None)"
  using chunk_index [OF assms] chunk_of_less [OF assms] by (simp add: oc20_chunk_get_state_def Let_def)

lemma put_chunk_ok:
  assumes "oc20_ns_ok lns" "chunk_ok (n_clba lns) cs"
  shows "oc20_ns_ok (lns\<lparr>lns_chunk_info := (lns_chunk_info lns)[k := cs]\<rparr>)"
proof -
  have f: "format_ok (lns\<lparr>lns_chunk_info := c\<rparr>) = format_ok lns" "n_clba (lns\<lparr>lns_chunk_info := c\<rparr>) = n_clba lns"
    "n_lun (lns\<lparr>lns_chunk_info := c\<rparr>) = n_lun lns" "n_chk (lns\<lparr>lns_chunk_info := c\<rparr>) = n_chk lns"
    "n_grp (lns\<lparr>lns_chunk_info := c\<rparr>) = n_grp lns" for c
    by (simp_all add: format_ok_def sec_bits_def chk_bits_def lun_bits_def n_clba_def n_lun_def n_chk_def n_grp_def)
  show ?thesis
    using assms set_update_subset_insert [of "lns_chunk_info lns" k cs] by (auto simp: oc20_ns_ok_def f)
qed

lemma lns_of_put:
  assumes "lns_of n i = Some lns"
  shows "lns_of (put_lns n i lns') i = Some lns'"
    "lns_of (put_chunk n i lns k cs) i = Some (lns\<lparr>lns_chunk_info := (lns_chunk_info lns)[k := cs]\<rparr>)"
  using assms by (auto simp: lns_of_def put_chunk_def put_lns_def upd_ns_def split: if_splits)

lemma start_sector:
  assumes "oc20_ns_ok lns" "oc20_lba_valid lns lba"
  shows "lba_sectr lns lba < n_clba lns" "lba_sectr lns lba < 2 ^ 31"
    "unat (ucast (lba AND a20_sec_mask (lns_lbaf lns)) :: u32) = lba_sectr lns lba"
proof -
  have f: "format_ok lns" by (rule ns_okD(1) [OF assms(1)])
  show l: "lba_sectr lns lba < n_clba lns" using assms(2) valid_parts [OF f] by blast
  have "(2 :: nat) ^ sec_bits lns \<le> 2 ^ 31" using ns_okD(4) [OF assms(1)] by (intro power_increasing) auto
  then show l2: "lba_sectr lns lba < 2 ^ 31" using l ns_okD(3) [OF assms(1)] by linarith
  then show "unat (ucast (lba AND a20_sec_mask (lns_lbaf lns)) :: u32) = lba_sectr lns lba"
    using lba_parts(5) [OF f, of lba] by (subst unat_ucast_less) simp_all
qed

lemma check_chunk_write_spec:
  assumes "oc20_ns_ok lns" "oc20_lba_valid lns lba" "unat ws \<le> 2 ^ 16"
  defines "c \<equiv> chunk_abs (lns_chunk_info lns ! chunk_of lns lba)" and "start \<equiv> lba_sectr lns lba"
  shows "oc20_rw_check_chunk_write lns lba ws =
    Some (if c = Chunk_closed \<or> n_clba lns < start + unat ws then dnr NVME_WRITE_FAULT
          else if start \<noteq> chunk_pos (n_clba lns) c then OC20_OUT_OF_ORDER_WRITE OR sc NVME_DNR else sc NVME_SUCCESS)"
proof -
  let ?cs = "lns_chunk_info lns ! chunk_of lns lba" and ?s = "ucast (lba AND a20_sec_mask (lns_lbaf lns)) :: u32"
  have ok: "chunk_ok (n_clba lns) ?cs" by (rule ns_okD(6) [OF assms(1) chunk_of_less [OF assms(1,2)]])
  have s: "unat ?s = start" "start < 2 ^ 31" using start_sector [OF assms(1,2)] by (simp_all add: start_def)
  have "unat (?s + ws) = start + unat ws" using s assms(3) by (subst unat_add_lem [THEN iffD1]) simp_all
  then have e: "cs_cnlb ?cs < ucast (?s + ws) \<longleftrightarrow> n_clba lns < start + unat ws"
    using chunk_ok_size [OF ok] by (simp add: word_less_nat_alt)
  have w: "ucast ?s = cs_wp ?cs \<longleftrightarrow> start = chunk_pos (n_clba lns) c"
    using s(1) chunk_ok_wp [OF ok] unfolding c_def word_unat_eq_iff by simp
  have st: "cs_state ?cs AND OC20_CHUNK_OFFLINE \<noteq> 0 \<or> cs_state ?cs AND OC20_CHUNK_CLOSED \<noteq> 0 \<longleftrightarrow> c = Chunk_closed"
    using ok unfolding c_def by (cases rule: chunk_ok_cases) (simp_all add: chunk_state_defs)
  show ?thesis
    using chunk_ok_seq [OF ok] e w st assms(2)
    by (simp add: oc20_rw_check_chunk_write_def get_state [OF assms(1)] Let_def OC20_CHUNK_TYPE_SEQ_def OC20_CHUNK_TYPE_RAN_def)
qed

text \<open>The loop over the addresses of a write that stays in the chunk it starts in.\<close>

lemma check_writes_one_chunk:
  assumes "\<forall>x \<in> set lbas. oc20_lba_to_chunk_index lns x = cidx" "unat sectr + length lbas < 2 ^ 32"
  shows "oc20_check_writes lns lbas lba cidx sectr ws =
    (if map (\<lambda>x. unat (OC20_LBA_GET_SECTR (lns_lbaf lns) x)) lbas = [unat sectr + 1..<unat sectr + 1 + length lbas]
     then oc20_rw_check_chunk_write lns lba (ucast (ws + of_nat (length lbas)))
     else Some (OC20_OUT_OF_ORDER_WRITE OR sc NVME_DNR))"
  using assms
proof (induction lbas arbitrary: sectr ws)
  case (Cons x lbas)
  have u: "unat (sectr + 1) = unat sectr + 1" using Cons.prems(2) by (subst unat_add_lem [THEN iffD1]) simp_all
  have e: "ucast (sectr + 1) = OC20_LBA_GET_SECTR (lns_lbaf lns) x \<longleftrightarrow>
      unat (OC20_LBA_GET_SECTR (lns_lbaf lns) x) = unat sectr + 1"
    unfolding word_unat_eq_iff using u by auto
  have r: "[unat sectr + 1..<unat sectr + 1 + length (x # lbas)] =
      (unat sectr + 1) # [unat (sectr + 1) + 1..<unat (sectr + 1) + 1 + length lbas]"
    using u by (subst upt_conv_Cons) (simp_all del: upt_Suc)
  show ?case
    using Cons.IH [of "sectr + 1" "ws + 1"] Cons.prems u e unfolding r
    by (simp add: Let_def ac_simps del: upt_Suc)
qed simp

lemma write_check_spec:
  assumes "oc20_ns_ok lns" "lbas \<noteq> []" "oc20_lba_valid lns (lbas ! 0)" "length lbas \<le> 64"
    "\<forall>x \<in> set lbas. oc20_lba_to_chunk_index lns x = oc20_lba_to_chunk_index lns (lbas ! 0)"
  shows "oc20_rw_check_write_req lns lbas =
    Some (fst (spec_write (n_clba lns) (map (lba_sectr lns) lbas) (chunk_abs (lns_chunk_info lns ! chunk_of lns (lbas ! 0)))))"
proof -
  obtain x xs where l: "lbas = x # xs" using assms(2) by (cases lbas) auto
  have f: "format_ok lns" by (rule ns_okD(1) [OF assms(1)])
  have v: "oc20_lba_valid lns x" using assms(3) l by simp
  have sec: "OC20_LBA_GET_SECTR (lns_lbaf lns) x = x AND a20_sec_mask (lns_lbaf lns)"
    using f by (simp add: OC20_LBA_GET_SECTR_def format_ok_def Let_def)
  let ?s = "ucast (OC20_LBA_GET_SECTR (lns_lbaf lns) x) :: u32"
  have s: "unat ?s = lba_sectr lns x" "lba_sectr lns x < 2 ^ 31" using start_sector [OF assms(1) v] by (simp_all add: sec)
  have n: "length xs < 64" using assms(4) l by simp
  then have ws: "unat (ucast (1 + of_nat (length xs) :: u16) :: u32) = length lbas"
    using l by (simp add: unat_word_ariths unat_of_nat)
  have up: "map (lba_sectr lns) lbas = [lba_sectr lns x..<lba_sectr lns x + length lbas] \<longleftrightarrow>
      map (\<lambda>y. unat (OC20_LBA_GET_SECTR (lns_lbaf lns) y)) xs = [unat ?s + 1..<unat ?s + 1 + length xs]"
    by (simp add: l s lba_parts(1) [OF f] upt_conv_Cons del: upt_Suc)
  have "oc20_rw_check_write_req lns lbas =
      (if map (lba_sectr lns) lbas = [lba_sectr lns x..<lba_sectr lns x + length lbas]
       then oc20_rw_check_chunk_write lns x (ucast (1 + of_nat (length xs) :: u16)) else Some (OC20_OUT_OF_ORDER_WRITE OR sc NVME_DNR))"
    using assms(5) s n unfolding up by (simp add: oc20_rw_check_write_req_def l check_writes_one_chunk)
  also have "\<dots> = Some (fst (spec_write (n_clba lns) (map (lba_sectr lns) lbas) (chunk_abs (lns_chunk_info lns ! chunk_of lns x))))"
    using ws n by (simp add: check_chunk_write_spec [OF assms(1) v] spec_write_def Let_def l)
  finally show ?thesis by (simp add: l)
qed

text \<open>A successful write moves the write pointer of the chunk of its first address.\<close>

lemma advance_wp_open:
  assumes "lns_of n i = Some lns" "oc20_ns_ok lns" "oc20_lba_valid lns lba"
    "chunk_abs (lns_chunk_info lns ! chunk_of lns lba) \<noteq> Chunk_closed"
  obtains cs where "oc20_advance_wp n i lba nlb = Some (sc NVME_SUCCESS, put_chunk n i lns (chunk_of lns lba) cs)"
    "cs_type cs = OC20_CHUNK_TYPE_SEQ" "unat (cs_cnlb cs) = n_clba lns"
    "cs_wp cs = cs_wp (lns_chunk_info lns ! chunk_of lns lba) + ucast nlb"
    "cs_state cs = (if cs_wp cs = cs_cnlb cs then OC20_CHUNK_CLOSED else OC20_CHUNK_OPEN)"
proof -
  let ?cs = "lns_chunk_info lns ! chunk_of lns lba"
  define cs1 where "cs1 = (if cs_state ?cs = OC20_CHUNK_FREE then ?cs\<lparr>cs_state := OC20_CHUNK_OPEN\<rparr> else ?cs)"
  define cs2 where "cs2 = cs1\<lparr>cs_wp := cs_wp cs1 + ucast nlb\<rparr>"
  define cs where "cs = (if cs_wp cs2 = cs_cnlb cs2 then cs2\<lparr>cs_state := OC20_CHUNK_CLOSED\<rparr> else cs2)"
  have ok: "chunk_ok (n_clba lns) ?cs" by (rule ns_okD(6) [OF assms(2) chunk_of_less [OF assms(2,3)]])
  have o: "cs_state cs1 = OC20_CHUNK_OPEN" "cs_wp cs1 = cs_wp ?cs" "cs_cnlb cs1 = cs_cnlb ?cs" "cs_type cs1 = cs_type ?cs"
    using ok assms(4) by (cases rule: chunk_ok_cases; simp add: cs1_def chunk_state_defs)+
  have "oc20_advance_wp n i lba nlb =
      (if cs_type ?cs = OC20_CHUNK_TYPE_RAN then Some (sc NVME_SUCCESS, n)
       else if cs_state cs1 \<noteq> OC20_CHUNK_OPEN then Some (dnr NVME_INTERNAL_DEV_ERROR, put_chunk n i lns (chunk_of lns lba) cs1)
       else Some (sc NVME_SUCCESS, put_chunk n i lns (chunk_of lns lba) cs))"
    unfolding oc20_advance_wp_def cs_def cs2_def cs1_def by (simp add: assms(1,3) get_state [OF assms(2)] Let_def)
  then have "oc20_advance_wp n i lba nlb = Some (sc NVME_SUCCESS, put_chunk n i lns (chunk_of lns lba) cs)"
    using o(1) chunk_ok_seq [OF ok] by (simp add: OC20_CHUNK_TYPE_SEQ_def OC20_CHUNK_TYPE_RAN_def)
  moreover have "cs_type cs = OC20_CHUNK_TYPE_SEQ" "unat (cs_cnlb cs) = n_clba lns" "cs_wp cs = cs_wp ?cs + ucast nlb"
    "cs_state cs = (if cs_wp cs = cs_cnlb cs then OC20_CHUNK_CLOSED else OC20_CHUNK_OPEN)"
    using o chunk_ok_seq [OF ok] chunk_ok_size [OF ok] by (simp_all add: cs_def cs2_def)
  ultimately show thesis by (rule that)
qed

lemma advance_wp_spec:
  assumes "lns_of n i = Some lns" "oc20_ns_ok lns" "oc20_lba_valid lns lba" "0 < unat nlb"
    "chunk_abs (lns_chunk_info lns ! chunk_of lns lba) \<noteq> Chunk_closed" "lba_sectr lns lba + unat nlb \<le> n_clba lns"
    "lba_sectr lns lba = chunk_pos (n_clba lns) (chunk_abs (lns_chunk_info lns ! chunk_of lns lba))"
  obtains cs where "oc20_advance_wp n i lba nlb = Some (sc NVME_SUCCESS, put_chunk n i lns (chunk_of lns lba) cs)"
    "chunk_ok (n_clba lns) cs" "chunk_abs cs = chunk_at (n_clba lns) (lba_sectr lns lba + unat nlb)"
proof -
  let ?cs = "lns_chunk_info lns ! chunk_of lns lba" and ?e = "lba_sectr lns lba + unat nlb"
  obtain cs where adv: "oc20_advance_wp n i lba nlb = Some (sc NVME_SUCCESS, put_chunk n i lns (chunk_of lns lba) cs)"
    and c: "cs_type cs = OC20_CHUNK_TYPE_SEQ" "unat (cs_cnlb cs) = n_clba lns" "cs_wp cs = cs_wp ?cs + ucast nlb"
      "cs_state cs = (if cs_wp cs = cs_cnlb cs then OC20_CHUNK_CLOSED else OC20_CHUNK_OPEN)"
    by (rule advance_wp_open [OF assms(1-3,5)])
  have ok: "chunk_ok (n_clba lns) ?cs" by (rule ns_okD(6) [OF assms(2) chunk_of_less [OF assms(2,3)]])
  have wp: "unat (cs_wp ?cs) = lba_sectr lns lba" using chunk_ok_wp [OF ok] assms(7) by simp
  have "lba_sectr lns lba < 2 ^ 31" "unat nlb < 2 ^ 16" using start_sector(2) [OF assms(2,3)] unsigned_less [of nlb] by simp_all
  then have u: "unat (cs_wp cs) = ?e" using wp unfolding c(3) by (subst unat_add_lem [THEN iffD1]) simp_all
  then have z: "cs_wp cs = cs_cnlb cs \<longleftrightarrow> ?e = n_clba lns" "cs_wp cs < cs_cnlb cs \<longleftrightarrow> ?e < n_clba lns" "cs_wp cs \<noteq> 0"
    using c(2) assms(4) unfolding word_unat_eq_iff word_less_nat_alt by auto
  have "chunk_ok (n_clba lns) cs" using c(1,2,4) z assms(6) by (simp add: chunk_ok_def)
  moreover have "chunk_abs cs = chunk_at (n_clba lns) ?e"
    using c(4) u z assms(4) by (auto simp: chunk_abs_def chunk_at_def chunk_state_defs)
  ultimately show thesis using adv that by blast
qed

subsection \<open>Resets\<close>

lemma chunk_info_irrelevant [simp]:
  "oc20_lba_valid (lns\<lparr>lns_chunk_info := c\<rparr>) lba = oc20_lba_valid lns lba"
  "chunk_of (lns\<lparr>lns_chunk_info := c\<rparr>) lba = chunk_of lns lba"
  by (simp_all add: oc20_lba_valid_def chunk_of_def lba_grp_def lba_lun_def lba_chk_def n_lun_def n_chk_def sec_bits_def
      chk_bits_def lun_bits_def)

lemma addr_write_ns [simp]:
  "lns_of (addr_write n a bs) i = lns_of n i" "n_params_oc20 (addr_write n a bs) = n_params_oc20 n"
  by (auto simp: addr_write_def lns_of_def split: prod.splits)

lemma put_chunk_params [simp]: "n_params_oc20 (put_chunk n i lns k cs) = n_params_oc20 n"
  by (simp add: put_chunk_def put_lns_def upd_ns_def)

definition erase_target :: "Oc20Namespace \<Rightarrow> u64 \<Rightarrow> nat option" where
  "erase_target lns lba = (if oc20_lba_valid lns lba then Some (chunk_of lns lba) else None)"

lemma set_free_spec:
  assumes "lns_of n i = Some lns" "oc20_ns_ok lns" "oc20_lba_valid lns lba"
    "spec_reset (par20_mccap (n_params_oc20 n)) (chunks_of lns ! chunk_of lns lba) = (st, c)"
  obtains (fails) "st \<noteq> 0" "oc20_chunk_set_free env n i lba mptr = Some (st, n)"
    | (resets) n' cks where "st = 0" "oc20_chunk_set_free env n i lba mptr = Some (0, n')"
        "lns_of n' i = Some (lns\<lparr>lns_chunk_info := cks\<rparr>)" "oc20_ns_ok (lns\<lparr>lns_chunk_info := cks\<rparr>)"
        "map chunk_abs cks = (chunks_of lns)[chunk_of lns lba := c]" "n_params_oc20 n' = n_params_oc20 n"
proof -
  let ?k = "chunk_of lns lba"
  let ?cs = "lns_chunk_info lns ! ?k" and ?m = "par20_mccap (n_params_oc20 n)"
  define bad where "bad \<longleftrightarrow> cs_state ?cs = OC20_CHUNK_FREE \<and> ?m AND OC20_PARAMS_MCCAP_MULTIPLE_RESETS = 0 \<or>
    cs_state ?cs = OC20_CHUNK_OPEN \<and> ?m AND OC20_PARAMS_MCCAP_EARLY_RESET = 0"
  define cs where "cs = ?cs\<lparr>cs_state := OC20_CHUNK_FREE, cs_wear_index := cs_wear_index ?cs + 1, cs_wp := 0\<rparr>"
  have k: "?k < length (lns_chunk_info lns)" by (rule chunk_of_less [OF assms(2,3)])
  have ok: "chunk_ok (n_clba lns) ?cs" by (rule ns_okD(6) [OF assms(2) k])
  have r: "cs_state ?cs AND OC20_CHUNK_RESETABLE \<noteq> 0"
    using ok by (cases rule: chunk_ok_cases) (simp_all add: chunk_state_defs)
  have spec: "(st, c) = (if bad then (OC20_INVALID_RESET OR sc NVME_DNR, chunk_abs ?cs) else (sc NVME_SUCCESS, Chunk_free))"
    unfolding assms(4) [symmetric] spec_reset_def nth_map [OF k] bad_def
    using ok by (cases rule: chunk_ok_cases) (simp_all add: chunk_state_defs)
  have run: "oc20_chunk_set_free env n i lba mptr =
      (if bad then Some (OC20_INVALID_RESET OR sc NVME_DNR, n)
       else let n = put_chunk n i lns ?k cs in Some (sc NVME_SUCCESS, if mptr \<noteq> 0 then addr_write n mptr (cs_bytes cs) else n))"
    using r ns_okD(5) [OF assms(2)]
    by (simp add: oc20_chunk_set_free_def assms(1,3) get_state [OF assms(2)] Let_def bad_def cs_def)
  show thesis
  proof (cases bad)
    case True
    then have "st = OC20_INVALID_RESET OR sc NVME_DNR" using spec by simp
    moreover from this have "st \<noteq> 0" by (simp add: OC20_INVALID_RESET_def)
    ultimately show thesis using True run fails by simp
  next
    case False
    then have st: "st = 0" "c = Chunk_free" using spec by simp_all
    have "chunk_ok (n_clba lns) cs" "chunk_abs cs = Chunk_free"
      using ok by (simp_all add: cs_def chunk_ok_def chunk_abs_def)
    then show thesis
      using False run st put_chunk_ok [OF assms(2), of cs ?k] lns_of_put(2) [OF assms(1), of ?k cs]
      by (intro resets [of "if mptr \<noteq> 0 then addr_write (put_chunk n i lns ?k cs) mptr (cs_bytes cs) else put_chunk n i lns ?k cs" "(lns_chunk_info lns)[?k := cs]"]) (simp_all add: Let_def map_update)
  qed
qed

lemma erase_loop_spec:
  assumes "lns_of n i = Some lns" "oc20_ns_ok lns"
  shows "\<exists>n' cks. oc20_erase_loop env n i mptr lbas =
      Some (fst (spec_erase (par20_mccap (n_params_oc20 n)) (map (erase_target lns) lbas) (chunks_of lns)), n') \<and>
    lns_of n' i = Some (lns\<lparr>lns_chunk_info := cks\<rparr>) \<and> oc20_ns_ok (lns\<lparr>lns_chunk_info := cks\<rparr>) \<and>
    map chunk_abs cks = snd (spec_erase (par20_mccap (n_params_oc20 n)) (map (erase_target lns) lbas) (chunks_of lns))"
  using assms
proof (induction lbas arbitrary: n lns mptr)
  case Nil
  then show ?case by (intro exI [of _ n] exI [of _ "lns_chunk_info lns"]) simp
next
  case (Cons lba lbas)
  note step = Cons.prems
  let ?m = "par20_mccap (n_params_oc20 n)" and ?k = "chunk_of lns lba"
  show ?case
  proof (cases "oc20_lba_valid lns lba")
    case False
    then show ?thesis
      using step by (intro exI [of _ n] exI [of _ "lns_chunk_info lns"]) (simp add: get_state erase_target_def)
  next
    case True
    obtain st c where spec: "spec_reset ?m (chunks_of lns ! ?k) = (st, c)" by (cases "spec_reset ?m (chunks_of lns ! ?k)")
    from step True spec show ?thesis
    proof (cases rule: set_free_spec [where env = env and mptr = mptr, case_names fails resets])
      case fails
      then show ?thesis
        using step True spec
        by (intro exI [of _ n] exI [of _ "lns_chunk_info lns"]) (simp add: get_state erase_target_def)
    next
      case (resets n1 cks)
      have t: "erase_target (lns\<lparr>lns_chunk_info := cks\<rparr>) = erase_target lns" by (rule ext) (simp add: erase_target_def)
      show ?thesis
        using Cons.IH [OF resets(3,4), of "if mptr \<noteq> 0 then mptr + of_nat CS_SIZE else mptr"] resets step True spec
        by (simp add: get_state erase_target_def [of lns lba] t)
    qed
  qed
qed

end
