(* ===== verification/Oc20_Reach.thy ===== *)
theory Oc20_Reach
  imports Oc20_Inv
begin

text \<open>
  The namespaces that initialisation sets up are well formed: address formats, geometry and chunks of
  \<open>oc20_init_namespace\<close>.
\<close>

subsection \<open>Address formats\<close>

lemma int_mask_eq:
  assumes "int_mask l off = Some m" "unat l + unat off < 32"
  shows "m = push_bit (unat off) (mask (unat l))"
proof -
  have e: "push_bit (unat l) 1 - 1 = (mask (unat l) :: u32)" by (simp add: mask_eq_exp_minus_1 push_bit_eq_mult)
  have "m = scast (push_bit (unat off) (mask (unat l)) :: u32)"
    using assms(1) e by (auto simp: int_mask_def split: if_splits)
  also have "\<dots> = push_bit (unat off) (mask (unat l))"
    using assms(2) by (intro bit_word_eqI) (auto simp: bit_simps)
  finally show ?thesis .
qed

lemma highest_bit_fold:
  "(\<forall>i < m. bit v i \<longrightarrow> i \<le> fold (\<lambda>i acc. if bit v i then i else acc) [0..<m] 0) \<and>
   (fold (\<lambda>i acc. if bit v i then i else acc) [0..<m] 0 < m \<or> m = 0)"
  by (induction m) (auto simp: less_Suc_eq)

lemma highest_bit_bounds: "bit (v :: 'a::len word) i \<Longrightarrow> i \<le> highest_bit v" "highest_bit (v :: 'a::len word) < LENGTH('a)"
  using highest_bit_fold [of "LENGTH('a)" v] bit_imp_le_length [of v i] by (auto simp: highest_bit_def)

lemma bit_length_bounds:
  shows "unat (bit_length32 v) \<le> 32" "unat v < 2 ^ unat (bit_length32 v)"
proof -
  have h: "highest_bit v < 32" using highest_bit_bounds(2) [of v] by simp
  have u: "unat (bit_length32 v) = (if v = 0 then 0 else highest_bit v + 1)"
    using h by (simp add: bit_length32_def unat_word_ariths unat_of_nat)
  then show "unat (bit_length32 v) \<le> 32" using h by simp
  have "take_bit (highest_bit v + 1) v = v"
    by (rule bit_word_eqI) (auto simp: bit_simps dest: highest_bit_bounds(1))
  then have "unat v = unat v mod 2 ^ (highest_bit v + 1)"
    using unsigned_take_bit_eq [where 'a = nat, of "highest_bit v + 1" v] by (simp add: take_bit_eq_mod)
  also have "\<dots> < 2 ^ (highest_bit v + 1)" by simp
  finally show "unat v < 2 ^ unat (bit_length32 v)" using u by (auto split: if_splits)
qed

lemma count_fits: "0 < unat v \<Longrightarrow> unat v \<le> 2 ^ unat (bit_length32 (v - 1))"
proof -
  assume v: "0 < unat v"
  then have "unat (v - 1) = unat v - 1" by (subst unat_sub) (auto simp: word_le_nat_alt)
  then show ?thesis using bit_length_bounds(2) [of "v - 1"] v by simp
qed

text \<open>The geometry must have chunks of sectors in every group, no more than the 32-bit counters can count.\<close>

definition geometry_ok :: "Oc20IdGeo \<Rightarrow> bool" where
  "geometry_ok g \<longleftrightarrow> 0 < unat (geo_clba g) \<and> unat (geo_clba g) < 2 ^ 31 \<and> 0 < unat (geo_num_chk g) \<and>
     0 < unat (geo_num_lun g) \<and> 0 < unat (geo_num_grp g) \<and>
     unat (geo_num_grp g) * (unat (geo_num_lun g) * unat (geo_num_chk g)) < 2 ^ 32"

text \<open>The lengths of the parts of an address are those of the geometry.\<close>

definition lengths_ok :: "Oc20NamespaceGeometry \<Rightarrow> bool" where
  "lengths_ok g \<longleftrightarrow>
     (let l = ng_lbaf g; geo = ng_geo g
      in unat (laf_grp_len l) \<le> 32 \<and> unat (laf_lun_len l) \<le> 32 \<and> unat (laf_chk_len l) \<le> 32 \<and> unat (laf_sec_len l) \<le> 32 \<and>
         unat (geo_clba geo) \<le> 2 ^ unat (laf_sec_len l) \<and> unat (geo_num_chk geo) \<le> 2 ^ unat (laf_chk_len l) \<and>
         unat (geo_num_lun geo) \<le> 2 ^ unat (laf_lun_len l))"

lemma init_id_ctrl_lengths:
  assumes "femu_oc20_init_id_ctrl n ns = Some g" "geometry_ok (ng_geo g)"
  shows "lengths_ok g"
proof -
  have up: "unat (ucast (v :: u8) :: u16) = unat v" "unat (ucast (v :: u8) :: u32) = unat v" for v by (simp_all add: unat_ucast_up)
  have "unat (v :: u8) \<le> 2 ^ unat (bit_length32 (ucast v - 1))" if "0 < unat v" for v
    using count_fits [of "ucast v"] that by (simp add: up)
  then show ?thesis
    using assms by (auto simp: femu_oc20_init_id_ctrl_def Let_def lengths_ok_def geometry_ok_def bit_length_bounds(1) count_fits up
        split: if_splits)
qed

lemma new_lns_simps [simp]:
  "lns_id_ctrl (oc20_new_lns g m size' f) = g\<lparr>ng_mccap := m\<rparr>" "lns_lbaf (oc20_new_lns g m size' f) = f"
  "lns_resetfail (oc20_new_lns g m size' f) = None"
  by (simp_all add: oc20_new_lns_def Let_def)

lemma new_lns_format:
  assumes "lengths_ok g" "oc20_addr_format (ng_lbaf g) = Some f"
  shows "format_ok (oc20_new_lns g m size' f)"
proof -
  let ?l = "ng_lbaf g"
  let ?s = "laf_sec_len ?l" and ?c = "laf_chk_len ?l" and ?u = "laf_lun_len ?l"
  have b: "unat ?s \<le> 32" "unat ?c \<le> 32" "unat ?u \<le> 32" using assms(1) by (simp_all add: lengths_ok_def Let_def)
  have o: "unat (?s + ?c) = unat ?s + unat ?c" using b by (subst unat_add_lem [THEN iffD1]) simp_all
  have o2: "unat (?s + ?c + ?u) = unat ?s + unat ?c + unat ?u" using b o by (subst unat_add_lem [THEN iffD1]) simp_all
  obtain gm lm cm sm where i: "int_mask (laf_grp_len ?l) (?s + ?c + ?u) = Some gm" "int_mask ?u (?s + ?c) = Some lm"
    "int_mask ?c ?s = Some cm" "int_mask ?s 0 = Some sm" and f:
    "f = \<lparr>a20_grp_mask = gm, a20_lun_mask = lm, a20_chk_mask = cm, a20_sec_mask = sm, a20_grp_offset = ?s + ?c + ?u,
        a20_lun_offset = ?s + ?c, a20_chk_offset = ?s, a20_sec_offset = 0\<rparr>"
    using assms(2) by (auto simp: oc20_addr_format_def Let_def bind_eq_Some_conv)
  have "?s + ?c + ?u < 32" using i(1) by (auto simp: int_mask_def split: if_splits)
  then have l: "unat ?s + unat ?c + unat ?u < 32" unfolding word_less_nat_alt o2 by simp
  have "lm = push_bit (unat ?s + unat ?c) (mask (unat ?u))" "cm = push_bit (unat ?s) (mask (unat ?c))" "sm = mask (unat ?s)"
    using int_mask_eq [OF i(2)] int_mask_eq [OF i(3)] int_mask_eq [OF i(4)] l o by simp_all
  then show ?thesis
    using assms(1) l o o2
    by (simp add: format_ok_def Let_def f sec_bits_def chk_bits_def lun_bits_def n_clba_def n_chk_def n_lun_def lengths_ok_def)
qed

lemma scast_positive:
  assumes "unat (w :: u32) < 2 ^ 31"
  shows "unat (scast w :: u64) = unat w"
proof -
  have "w < 2 ^ 31" using assms by (simp add: word_less_nat_alt)
  then have "uint w < 2 ^ 31" by (simp add: word_less_def)
  then have "sint w = uint w" by (simp add: sint_uint signed_take_bit_int_eq_self_iff order_trans [OF _ uint_ge_0])
  then have "scast w = (ucast w :: u64)" by (simp only: scast_eq ucast_eq)
  then show ?thesis by simp
qed

lemma new_lns_ok:
  assumes "lengths_ok g" "geometry_ok (ng_geo g)" "oc20_addr_format (ng_lbaf g) = Some f"
  shows "oc20_ns_ok (oc20_new_lns g m size' f)"
proof -
  let ?geo = "ng_geo g" and ?lns = "oc20_new_lns g m size' f"
  let ?cpg = "geo_num_chk ?geo * ucast (geo_num_lun ?geo)"
  have g: "0 < unat (geo_clba ?geo)" "unat (geo_clba ?geo) < 2 ^ 31" "0 < unat (geo_num_grp ?geo)"
    "unat (geo_num_grp ?geo) * (unat (geo_num_lun ?geo) * unat (geo_num_chk ?geo)) < 2 ^ 32"
    using assms(2) by (simp_all add: geometry_ok_def)
  have "unat (geo_num_lun ?geo) * unat (geo_num_chk ?geo) \<le> unat (geo_num_grp ?geo) * (unat (geo_num_lun ?geo) * unat (geo_num_chk ?geo))"
    using g(3) by simp
  then have cpg: "unat ?cpg = unat (geo_num_lun ?geo) * unat (geo_num_chk ?geo)"
    using le_less_trans [OF _ g(4)] by (subst unat_mult_lem [THEN iffD1]) (simp_all add: mult.commute)
  then have tot: "unat (?cpg * ucast (geo_num_grp ?geo)) = unat (geo_num_grp ?geo) * (unat (geo_num_lun ?geo) * unat (geo_num_chk ?geo))"
    using g(4) by (subst unat_mult_lem [THEN iffD1]) (simp_all add: mult.commute)
  have ch: "lns_chks_per_grp ?lns = ?cpg" "lns_chks_total ?lns = ?cpg * ucast (geo_num_grp ?geo)"
    "lns_chunk_info ?lns = oc20_init_chunk_info ?lns"
    by (simp_all add: oc20_new_lns_def oc20_init_chunk_info_def Let_def)
  have n: "n_clba ?lns = unat (geo_clba ?geo)" "n_lun ?lns = unat (geo_num_lun ?geo)" "n_chk ?lns = unat (geo_num_chk ?geo)"
    "n_grp ?lns = unat (geo_num_grp ?geo)"
    by (simp_all add: n_clba_def n_lun_def n_chk_def n_grp_def)
  have "\<forall>cs \<in> set (oc20_init_chunk_info ?lns). chunk_ok (n_clba ?lns) cs"
    using scast_positive [OF g(2)] by (auto simp: oc20_init_chunk_info_def Let_def chunk_ok_def n(1) chunk_state_defs)
  moreover have "length (oc20_init_chunk_info ?lns) = unat (lns_chks_total ?lns)" by (simp add: oc20_init_chunk_info_def Let_def)
  ultimately show ?thesis
    using new_lns_format [OF assms(1,3)] g cpg tot unfolding oc20_ns_ok_def ch n by simp
qed

text \<open>A namespace that initialisation accepts, without a file of failure probabilities.\<close>

lemma init_namespace_ok:
  assumes "oc20_init_namespace env n i = Some (True, n')" "i < length (n_namespaces n)"
    "par20_resetfail_fname (n_params_oc20 n) = No_file"
    "femu_oc20_init_id_ctrl n (n_namespaces n ! i) = Some g" "geometry_ok (ng_geo g)"
  obtains lns where "lns_of n' i = Some lns" "oc20_ns_ok lns"
proof -
  have l: "lengths_ok g" by (rule init_id_ctrl_lengths [OF assms(4,5)])
  obtain ns f d lns P m size' where f: "oc20_addr_format (ng_lbaf g) = Some f"
    and lns: "oc20_load_failures env (n\<lparr>n_params_oc20 := P\<rparr>) (oc20_new_lns g m size' f) = Some (True, lns)"
    and P: "par20_resetfail_fname P = No_file"
    and n': "n_namespaces n' = (n_namespaces n)[i := ns\<lparr>ns_id_ns := d, ns_state := Some lns\<rparr>]"
    using assms(1,3) by (auto simp: oc20_init_namespace_def assms(4) Let_def upd_ns_def bind_eq_Some_conv split: if_splits)
  have "lns = oc20_new_lns g m size' f" using lns P by (auto simp: oc20_load_failures_def split: if_splits)
  then have "lns_of n' i = Some (oc20_new_lns g m size' f)" using n' assms(2) by (simp add: lns_of_def)
  then show thesis using that new_lns_ok [OF l assms(5) f] by blast
qed

end
