(* ===== verification/Oc20_Props.thy ===== *)
theory Oc20_Props
  imports Oc20_Reach Dma_Props
begin

text \<open>
  Properties of the open-channel 2.0 I/O commands: writes and erases of whole commands against the abstract chunk,
  the namespaces that initialisation and commands produce, and what goes wrong when one write covers two chunks.
\<close>

subsection \<open>Whole commands\<close>

definition oc20_len :: "NvmeRequest \<Rightarrow> nat" where "oc20_len req = unat (lrw_nlb (lrw_of_cmd (req_cmd req))) + 1"

definition oc20_vector :: "NvmeRequest \<Rightarrow> bool" where
  "oc20_vector req \<longleftrightarrow> cmd_opcode (req_cmd req) = OC20_CMD_VECT_READ \<or> cmd_opcode (req_cmd req) = OC20_CMD_VECT_WRITE"

definition oc20_lbas :: "femu \<Rightarrow> NvmeRequest \<Rightarrow> u64 list" where
  "oc20_lbas n req = oc20_lba_list n (oc20_vector req) (lrw_lbal (lrw_of_cmd (req_cmd req))) (oc20_len req)"

definition oc20_read_or_write :: "NvmeRequest \<Rightarrow> bool" where
  "oc20_read_or_write req \<longleftrightarrow>
     cmd_opcode (req_cmd req) \<in> {io_opcode NVME_CMD_READ, io_opcode NVME_CMD_WRITE, OC20_CMD_VECT_READ, OC20_CMD_VECT_WRITE}"

lemma oc20_io_cmd_rw: "oc20_read_or_write req \<Longrightarrow> oc20_io_cmd env n i req = oc20_rw env n i req (oc20_vector req)"
  by (auto simp: oc20_read_or_write_def oc20_io_cmd_def oc20_vector_def Let_def OC20_CMD_VECT_READ_def OC20_CMD_VECT_WRITE_def)

lemma length_lba_list: "0 < k \<Longrightarrow> length (oc20_lba_list n v lbal k) = k"
  by (auto simp: oc20_lba_list_def)

lemma length_lbas [simp]: "length (oc20_lbas n req) = oc20_len req"
  by (simp add: oc20_lbas_def length_lba_list oc20_len_def)

lemma lbas_nonempty [simp]: "oc20_lbas n req \<noteq> []"
  by (simp add: oc20_len_def flip: length_greater_0_conv)

lemma nlb_word: "unat (ucast (nlb :: u16) + 1 :: u32) = unat nlb + 1"
proof -
  have "unat nlb < 2 ^ 16" using unsigned_less [of nlb] by simp
  then show ?thesis by (subst unat_add_lem [THEN iffD1]) simp_all
qed

lemma advance_chip_ns: "advance_chip_timestamp n lunid now op pt = Some (t, n') \<Longrightarrow> n_namespaces n' = n_namespaces n"
  by (erule advance_chip_steps) simp

lemma bucket_times_ns: "oc_bucket_times lunid w now opcode bs t n = Some (t', n') \<Longrightarrow> n_namespaces n' = n_namespaces n"
  by (induction bs arbitrary: t n) (fastforce simp: Let_def split: if_splits bind_splits dest: advance_chip_ns)+

lemma erase_times_ns: "oc20_erase_times lns opcode lbas req n = Some (req', n') \<Longrightarrow> n_namespaces n' = n_namespaces n"
  by (induction lbas arbitrary: req n) (fastforce simp: Let_def split: bind_splits dest: advance_chip_ns)+

lemma error_page_ns:
  "refuse n req code loc lba nsid status = Some (st, n') \<Longrightarrow> st = status \<and> n_namespaces n' = n_namespaces n"
  by (auto simp: refuse_def nvme_set_error_page_def Let_def split: if_splits)

lemma advance_status_ns: "oc20_advance_status n lns req lbas = Some (req', n') \<Longrightarrow> n_namespaces n' = n_namespaces n"
  by (auto simp: oc20_advance_status_def Let_def dest: bucket_times_ns erase_times_ns split: if_splits bind_splits)

lemma lns_of_cong: "n_namespaces n' = n_namespaces n \<Longrightarrow> lns_of n' i = lns_of n i"
  by (simp add: lns_of_def)

text \<open>The ways a read or write can end.\<close>

lemma oc20_rw_cases:
  assumes "oc20_rw env n i req (oc20_vector req) = Some (status, req', n')" "lns_of n i = Some lns"
  obtains (long) "64 < oc20_len req" "status \<noteq> 0" "n_namespaces n' = n_namespaces n"
    | (refused) "oc20_len req \<le> 64" "status \<noteq> 0" "n' = n"
        "oc20_rw_check_vector_req (n_params_oc20 n) lns (oc20_rw_is_write req) (oc20_lbas n req) = Some status"
    | (unmapped) "oc20_len req \<le> 64" "status = dnr NVME_INVALID_FIELD" "n' = n"
        "oc20_rw_check_vector_req (n_params_oc20 n) lns (oc20_rw_is_write req) (oc20_lbas n req) = Some 0"
    | (moved) n1 x where "oc20_len req \<le> 64" "status = sc NVME_SUCCESS" "n_namespaces n1 = n_namespaces n"
        "oc20_rw_check_vector_req (n_params_oc20 n) lns (oc20_rw_is_write req) (oc20_lbas n req) = Some 0"
        "if oc20_rw_is_write req then oc20_advance_wp n1 i (oc20_lbas n req ! 0) (of_nat (oc20_len req)) = Some (x, n') else n' = n1"
proof -
  let ?lrw = "lrw_of_cmd (req_cmd req)"
  let ?nlb = "ucast (lrw_nlb ?lrw) + 1 :: u32"
  have u: "unat ?nlb = oc20_len req" by (simp add: nlb_word oc20_len_def)
  have l: "of_nat OC20_CMD_MAX_LBAS < ?nlb \<longleftrightarrow> 64 < oc20_len req"
    unfolding word_less_nat_alt u by (simp add: OC20_CMD_MAX_LBAS_def)
  have wd: "ucast ?nlb = (of_nat (oc20_len req) :: u16)" unfolding u [symmetric] by simp
  show thesis
  proof (cases "64 < oc20_len req")
    case True
    then show thesis
      using assms(1) l by (intro long) (auto simp: oc20_rw_def Let_def with_req_def dest: error_page_ns split: prod.splits)
  next
    case False
    define lbas where "lbas = oc20_lbas n req"
    have lb: "oc20_lba_list n (oc20_vector req) (lrw_lbal ?lrw) (unat ?nlb) = lbas"
      unfolding u lbas_def oc20_lbas_def by (rule refl)
    let ?lbads = "unat (lbaf_lbads (ns_lbaf (n_namespaces n ! i)))"
    define w where "w = oc20_rw_is_write req"
    define req1 where "req1 = req\<lparr>req_predef := 0, req_nlb := of_nat (oc20_len req), req_slba := oe_malloc env n,
      req_is_write := (if w then 1 else 0)\<rparr>"
    have "oc20_rw_check_vector_req (n_params_oc20 n) lns w lbas \<bind> (\<lambda>err.
        if err \<noteq> 0 then Some (err, req1, n)
        else (case nvme_map_prp (n_dma n) (n_host n) (lrw_prp1 ?lrw) (lrw_prp2 ?lrw) (push_bit ?lbads ?nlb) of
            (status, cmb, sg) \<Rightarrow>
              if status \<noteq> 0 then Some (dnr NVME_INVALID_FIELD, req1\<lparr>req_qsg := []\<rparr>, n)
              else if cmb then None
              else backend_rw (n_mbe n) (n_host n) sg (map (push_bit ?lbads) lbas) w \<bind> (\<lambda>(be, h).
                oc20_advance_status (n\<lparr>n_mbe := be, n_host := h\<rparr>) lns (req1\<lparr>req_qsg := []\<rparr>) lbas \<bind> (\<lambda>(rq, n).
                (if w then map_option snd (oc20_advance_wp n i (lbas ! 0) (of_nat (oc20_len req))) else Some n) \<bind> (\<lambda>n.
                Some (sc NVME_SUCCESS, rq, n)))))) = Some (status, req', n')"
      using assms(1) unfolding oc20_rw_def Let_def l if_not_P [OF False] lb assms(2) wd w_def [symmetric] req1_def
      by (simp only: bind.bind_lunit)
    then obtain e where e: "oc20_rw_check_vector_req (n_params_oc20 n) lns w lbas = Some e"
      and run: "(if e \<noteq> 0 then Some (e, req1, n)
        else (case nvme_map_prp (n_dma n) (n_host n) (lrw_prp1 ?lrw) (lrw_prp2 ?lrw) (push_bit ?lbads ?nlb) of
            (status, cmb, sg) \<Rightarrow>
              if status \<noteq> 0 then Some (dnr NVME_INVALID_FIELD, req1\<lparr>req_qsg := []\<rparr>, n)
              else if cmb then None
              else backend_rw (n_mbe n) (n_host n) sg (map (push_bit ?lbads) lbas) w \<bind> (\<lambda>(be, h).
                oc20_advance_status (n\<lparr>n_mbe := be, n_host := h\<rparr>) lns (req1\<lparr>req_qsg := []\<rparr>) lbas \<bind> (\<lambda>(rq, n).
                (if w then map_option snd (oc20_advance_wp n i (lbas ! 0) (of_nat (oc20_len req))) else Some n) \<bind> (\<lambda>n.
                Some (sc NVME_SUCCESS, rq, n)))))) = Some (status, req', n')"
      by (auto simp: bind_eq_Some_conv)
    obtain st cmb sg where m: "nvme_map_prp (n_dma n) (n_host n) (lrw_prp1 ?lrw) (lrw_prp2 ?lrw) (push_bit ?lbads ?nlb) = (st, cmb, sg)"
      by (metis prod_cases3)
    note e = e [unfolded w_def lbas_def]
    have len: "oc20_len req \<le> 64" using False by simp
    show thesis
    proof (cases "e = 0 \<and> st = 0")
      case True
      from run [unfolded m] True obtain be h req2 n1 where
        adv: "oc20_advance_status (n\<lparr>n_mbe := be, n_host := h\<rparr>) lns (req1\<lparr>req_qsg := []\<rparr>) lbas = Some (req2, n1)"
        and fin: "(if w then map_option snd (oc20_advance_wp n1 i (lbas ! 0) (of_nat (oc20_len req))) else Some n1) = Some n'"
          "status = sc NVME_SUCCESS"
        by (auto simp: bind_eq_Some_conv split: if_splits prod.splits)
      then show thesis
        using True e len advance_status_ns [OF adv]
        by (cases w) (auto simp: w_def lbas_def intro: moved)
    next
      case no: False
      then have "e \<noteq> 0 \<and> status = e \<and> n' = n \<or> e = 0 \<and> status = dnr NVME_INVALID_FIELD \<and> n' = n"
        using run [unfolded m] by (auto split: if_splits)
      then show thesis using e len by (auto intro: refused unmapped)
    qed
  qed
qed

subsection \<open>Writes and erases refine the abstract chunk\<close>

definition oc20_write_cmd :: "NvmeRequest \<Rightarrow> bool" where
  "oc20_write_cmd req \<longleftrightarrow>
     cmd_opcode (req_cmd req) \<in> {io_opcode NVME_CMD_WRITE, OC20_CMD_VECT_WRITE} \<and> req_cmd_opcode req = cmd_opcode (req_cmd req)"

lemma write_cmd: "oc20_write_cmd req \<Longrightarrow> oc20_read_or_write req \<and> oc20_rw_is_write req"
  by (auto simp: oc20_write_cmd_def oc20_read_or_write_def oc20_rw_is_write_def)

text \<open>Every address of the command names the chunk of the first one.\<close>

definition oc20_one_chunk :: "Oc20Namespace \<Rightarrow> u64 list \<Rightarrow> bool" where
  "oc20_one_chunk lns lbas \<longleftrightarrow> (\<forall>x \<in> set lbas. oc20_lba_to_chunk_index lns x = oc20_lba_to_chunk_index lns (lbas ! 0))"

lemma spec_write_success:
  assumes "spec_write size' sectors c = (0, c')"
  shows "c \<noteq> Chunk_closed" "sectors ! 0 + length sectors \<le> size'" "sectors ! 0 = chunk_pos size' c"
    "c' = chunk_at size' (sectors ! 0 + length sectors)"
  using assms by (auto simp: spec_write_def Let_def OC20_OUT_OF_ORDER_WRITE_def split: if_splits)

lemma spec_write_refused: "spec_write size' sectors c = (st, c') \<Longrightarrow> st \<noteq> 0 \<Longrightarrow> c' = c"
  by (auto simp: spec_write_def Let_def split: if_splits)

lemma spec_write_status: "fst (spec_write size' sectors c) \<noteq> dnr NVME_INVALID_FIELD"
  by (auto simp: spec_write_def Let_def OC20_OUT_OF_ORDER_WRITE_def)

lemma check_writes_first:
  "oc20_check_writes lns lbas lba cidx sectr ws = Some 0 \<Longrightarrow> \<exists>ws'. oc20_rw_check_chunk_write lns lba ws' = Some 0"
proof (induction lbas arbitrary: sectr ws)
  case (Cons x lbas)
  then show ?case
    by (auto simp: Let_def bind_eq_Some_conv OC20_OUT_OF_ORDER_WRITE_def split: if_splits)
qed auto

lemma check_chunk_write_accepts:
  assumes "oc20_ns_ok lns" "oc20_rw_check_chunk_write lns lba ws = Some 0"
  shows "oc20_lba_valid lns lba" "chunk_abs (lns_chunk_info lns ! chunk_of lns lba) \<noteq> Chunk_closed"
    "unat (cs_wp (lns_chunk_info lns ! chunk_of lns lba)) = lba_sectr lns lba"
proof -
  let ?cs = "lns_chunk_info lns ! chunk_of lns lba"
  show v: "oc20_lba_valid lns lba"
    using assms(2) by (auto simp: oc20_rw_check_chunk_write_def get_state [OF assms(1)] split: if_splits)
  have ok: "chunk_ok (n_clba lns) ?cs" by (rule ns_okD(6) [OF assms(1) chunk_of_less [OF assms(1) v]])
  have a: "cs_state ?cs AND OC20_CHUNK_CLOSED = 0"
    "ucast (ucast (lba AND a20_sec_mask (lns_lbaf lns)) :: u32) = cs_wp ?cs"
    using assms(2) v chunk_ok_seq [OF ok]
    by (auto simp: oc20_rw_check_chunk_write_def get_state [OF assms(1)] Let_def OC20_CHUNK_TYPE_SEQ_def
        OC20_CHUNK_TYPE_RAN_def OC20_OUT_OF_ORDER_WRITE_def split: if_splits)
  show "chunk_abs ?cs \<noteq> Chunk_closed" using ok a(1) by (cases rule: chunk_ok_cases) (simp_all add: chunk_state_defs)
  show "unat (cs_wp ?cs) = lba_sectr lns lba"
    using start_sector(3) [OF assms(1) v] unfolding a(2) [symmetric] by simp
qed

text \<open>A write that the checks accept, in one chunk.\<close>

lemma one_chunk_write:
  assumes "lns_of n1 i = Some lns" "oc20_ns_ok lns" "lbas \<noteq> []" "length lbas \<le> 64" "oc20_one_chunk lns lbas"
    "oc20_rw_check_write_req lns lbas = Some 0"
  obtains cs where "oc20_advance_wp n1 i (lbas ! 0) (of_nat (length lbas)) = Some (0, put_chunk n1 i lns (chunk_of lns (lbas ! 0)) cs)"
    "chunk_ok (n_clba lns) cs"
    "spec_write (n_clba lns) (map (lba_sectr lns) lbas) (chunk_abs (lns_chunk_info lns ! chunk_of lns (lbas ! 0))) = (0, chunk_abs cs)"
proof -
  let ?c = "chunk_abs (lns_chunk_info lns ! chunk_of lns (lbas ! 0))"
  obtain x xs where l: "lbas = x # xs" using assms(3) by (cases lbas) auto
  obtain ws where "oc20_rw_check_chunk_write lns (lbas ! 0) ws = Some 0"
    using assms(6) check_writes_first unfolding oc20_rw_check_write_req_def l by fastforce
  then have v: "oc20_lba_valid lns (lbas ! 0)" by (rule check_chunk_write_accepts [OF assms(2)])
  obtain c where spec: "spec_write (n_clba lns) (map (lba_sectr lns) lbas) ?c = (0, c)"
    using write_check_spec [OF assms(2,3) v assms(4)] assms(5,6)
    by (cases "spec_write (n_clba lns) (map (lba_sectr lns) lbas) ?c") (simp add: oc20_one_chunk_def)
  have ok: "?c \<noteq> Chunk_closed" "lba_sectr lns (lbas ! 0) + length lbas \<le> n_clba lns"
    "lba_sectr lns (lbas ! 0) = chunk_pos (n_clba lns) ?c" "c = chunk_at (n_clba lns) (lba_sectr lns (lbas ! 0) + length lbas)"
    using spec_write_success [OF spec] by (simp_all add: l)
  have u: "unat (of_nat (length lbas) :: u16) = length lbas" using assms(4) by (simp add: unat_of_nat)
  show thesis
    by (rule advance_wp_spec [OF assms(1,2) v, of "of_nat (length lbas)"])
      (use ok u l that spec in simp_all)
qed


text \<open>C28: An erase command resets the chunks of its addresses one by one.  It stops at the first address that is
  not valid, or whose chunk may not be reset: a free one without the capability of multiple resets, an open one
  without that of early resets; the chunks before it stay reset, and the namespace stays well formed.\<close>

theorem oc20_erase_refines_chunks:
  assumes "lns_of n i = Some lns" "oc20_ns_ok lns" "cmd_opcode (req_cmd req) = OC20_CMD_VECT_ERASE"
  defines "lbas \<equiv> oc20_lba_list n True (lrw_lbal (lrw_of_cmd (req_cmd req))) (oc20_len req)"
  defines "r \<equiv> spec_erase (par20_mccap (n_params_oc20 n)) (map (erase_target lns) lbas) (chunks_of lns)"
  shows "\<exists>req' n' lns'. oc20_io_cmd env n i req = Some (fst r, req', n') \<and> lns_of n' i = Some lns' \<and> oc20_ns_ok lns' \<and>
    chunks_of lns' = snd r"
proof -
  have u: "unat (ucast (lrw_nlb (lrw_of_cmd (req_cmd req))) + 1 :: u32) = oc20_len req" by (simp add: nlb_word oc20_len_def)
  obtain n' cks where "oc20_erase_loop env n i (cmd_mptr (req_cmd req)) lbas = Some (fst r, n')"
    "lns_of n' i = Some (lns\<lparr>lns_chunk_info := cks\<rparr>)" "oc20_ns_ok (lns\<lparr>lns_chunk_info := cks\<rparr>)" "map chunk_abs cks = snd r"
    using erase_loop_spec [OF assms(1,2)] unfolding r_def by blast
  moreover have "oc20_io_cmd env n i req = oc20_erase env n i req"
    using assms(3) by (simp add: oc20_io_cmd_def Let_def OC20_CMD_VECT_ERASE_def OC20_CMD_VECT_READ_def OC20_CMD_VECT_WRITE_def)
  ultimately show ?thesis
    by (simp add: oc20_erase_def Let_def with_req_def u lbas_def [symmetric])
qed

subsection \<open>Writes to two chunks\<close>

text \<open>C29: A write command that succeeds moves the write pointer of the chunk of its first address by the length of the whole
  command, and touches no other chunk.  When it covers more than one chunk, the first pointer therefore ends up past the
  sectors that were written, possibly past the end of the chunk, which is then neither closed nor well formed, and
  the chunks of the other addresses do not know that they were written.\<close>

theorem oc20_write_advances_first_chunk_only:
  assumes "lns_of n i = Some lns" "oc20_ns_ok lns" "oc20_write_cmd req"
    "oc20_io_cmd env n i req = Some (sc NVME_SUCCESS, req', n')"
  defines "lba \<equiv> oc20_lbas n req ! 0"
  shows "\<exists>cs. lns_of n' i = Some (lns\<lparr>lns_chunk_info := (lns_chunk_info lns)[chunk_of lns lba := cs]\<rparr>) \<and>
    unat (cs_wp cs) = lba_sectr lns lba + oc20_len req \<and>
    (n_clba lns < lba_sectr lns lba + oc20_len req \<longrightarrow> cs_state cs = OC20_CHUNK_OPEN \<and> \<not> chunk_ok (n_clba lns) cs)"
proof -
  let ?lbas = "oc20_lbas n req" and ?cs = "lns_chunk_info lns ! chunk_of lns lba"
  have w: "oc20_read_or_write req" "oc20_rw_is_write req" using write_cmd [OF assms(3)] by simp_all
  have run: "oc20_rw env n i req (oc20_vector req) = Some (sc NVME_SUCCESS, req', n')"
    using assms(4) oc20_io_cmd_rw [OF w(1)] by simp
  show ?thesis
  proof (cases rule: oc20_rw_cases [OF run assms(1), case_names long refused unmapped moved])
    case (moved n1 x)
    obtain lbas where l: "?lbas = lba # lbas" using lbas_nonempty [of n req] unfolding lba_def by (cases ?lbas) auto
    then obtain ws where ws: "oc20_rw_check_chunk_write lns lba ws = Some 0"
      using moved(4) w
      by (auto simp: oc20_rw_check_vector_req_def oc20_rw_check_write_req_def dest: check_writes_first)
    note acc = check_chunk_write_accepts [OF assms(2) ws]
    have lns: "lns_of n1 i = Some lns" using lns_of_cong [OF moved(3)] assms(1) by simp
    obtain cs where adv: "oc20_advance_wp n1 i lba (of_nat (oc20_len req)) = Some (sc NVME_SUCCESS, put_chunk n1 i lns (chunk_of lns lba) cs)"
      and cs: "unat (cs_cnlb cs) = n_clba lns" "cs_wp cs = cs_wp ?cs + ucast (of_nat (oc20_len req) :: u16)"
        "cs_state cs = (if cs_wp cs = cs_cnlb cs then OC20_CHUNK_CLOSED else OC20_CHUNK_OPEN)"
      using advance_wp_open [OF lns assms(2) acc(1,2)] by metis
    have n: "unat (of_nat (oc20_len req) :: u16) = oc20_len req" using moved(1) by (simp add: unat_of_nat)
    then have wp: "unat (cs_wp cs) = lba_sectr lns lba + oc20_len req"
      using acc(3) start_sector(2) [OF assms(2) acc(1)] moved(1) unfolding cs(2) by (subst unat_add_lem [THEN iffD1]) simp_all
    have "n' = put_chunk n1 i lns (chunk_of lns lba) cs" using moved(5) adv w by (simp add: lba_def)
    moreover have "cs_state cs = OC20_CHUNK_OPEN \<and> \<not> chunk_ok (n_clba lns) cs" if "n_clba lns < lba_sectr lns lba + oc20_len req"
      using that wp cs(1,3) by (auto simp: chunk_ok_def chunk_state_defs word_less_nat_alt)
    ultimately show ?thesis using lns_of_put(2) [OF lns] wp by (intro exI [of _ cs]) simp
  qed simp_all
qed

subsection \<open>Commands on an initialised namespace\<close>

text \<open>Any commands to a namespace, and anything else that leaves it alone; writes stay in one chunk.\<close>

inductive oc20_steps :: "oc_env \<Rightarrow> nat \<Rightarrow> femu \<Rightarrow> femu \<Rightarrow> bool" for env i where
  start: "oc20_steps env i n n"
| command: "oc20_steps env i n n1 \<Longrightarrow> lns_of n1 i = Some lns \<Longrightarrow> oc20_io_cmd env n1 i req = Some (status, req', n2) \<Longrightarrow>
    (oc20_read_or_write req \<and> oc20_rw_is_write req \<longrightarrow> oc20_one_chunk lns (oc20_lbas n1 req)) \<Longrightarrow> oc20_steps env i n n2"
| other: "oc20_steps env i n n1 \<Longrightarrow> lns_of n2 i = lns_of n1 i \<Longrightarrow> oc20_steps env i n n2"

lemma oc20_io_cmd_keeps_ok:
  assumes "lns_of n i = Some lns" "oc20_ns_ok lns" "oc20_io_cmd env n i req = Some (status, req', n')"
    "oc20_read_or_write req \<and> oc20_rw_is_write req \<longrightarrow> oc20_one_chunk lns (oc20_lbas n req)"
  shows "\<exists>lns'. lns_of n' i = Some lns' \<and> oc20_ns_ok lns'"
proof (cases "oc20_read_or_write req")
  case rw: True
  then have run: "oc20_rw env n i req (oc20_vector req) = Some (status, req', n')"
    using assms(3) oc20_io_cmd_rw by simp
  show ?thesis
  proof (cases rule: oc20_rw_cases [OF run assms(1), case_names long refused unmapped moved])
    case (moved n1 x)
    have lns: "lns_of n1 i = Some lns" using lns_of_cong [OF moved(3)] assms(1) by simp
    show ?thesis
    proof (cases "oc20_rw_is_write req")
      case True
      then obtain cs where "n' = put_chunk n1 i lns (chunk_of lns (oc20_lbas n req ! 0)) cs" "chunk_ok (n_clba lns) cs"
        using one_chunk_write [OF lns assms(2) lbas_nonempty, of n req] moved(1,4,5) assms(4) rw
        by (auto simp: oc20_rw_check_vector_req_def)
      then show ?thesis using lns_of_put(2) [OF lns] put_chunk_ok [OF assms(2)] by simp
    next
      case False
      then show ?thesis using moved(5) lns assms(2) by simp
    qed
  next
    case long
    then show ?thesis using lns_of_cong [OF long(3)] assms(1,2) by simp
  qed (use assms(1,2) in auto)
next
  case False
  then have "n' = n \<or> (\<exists>lbas. oc20_erase_loop env n i (cmd_mptr (req_cmd req)) lbas = Some (status, n'))"
    using assms(3)
    by (auto simp: oc20_io_cmd_def Let_def oc20_read_or_write_def oc20_erase_def with_req_def split: if_splits)
  then show ?thesis
  proof
    assume "\<exists>lbas. oc20_erase_loop env n i (cmd_mptr (req_cmd req)) lbas = Some (status, n')"
    then obtain lbas where e: "oc20_erase_loop env n i (cmd_mptr (req_cmd req)) lbas = Some (status, n')" by blast
    show ?thesis using erase_loop_spec [OF assms(1,2), of env "cmd_mptr (req_cmd req)" lbas] unfolding e by auto
  qed (use assms(1,2) in simp)
qed

lemma oc20_steps_keep_ok:
  assumes "oc20_steps env i n n'" "lns_of n i = Some lns" "oc20_ns_ok lns"
  shows "\<exists>lns'. lns_of n' i = Some lns' \<and> oc20_ns_ok lns'"
  using assms
proof (induction rule: oc20_steps.induct)
  case (command n n1 lns1 req status req' n2)
  then show ?case using oc20_io_cmd_keeps_ok [OF _ _ command(3)] by auto
qed auto


subsection \<open>A small namespace\<close>

text \<open>Two chunks of four sectors of four bytes.\<close>

definition ex_oc20_oce :: oc_env where
  "ex_oc20_oce = \<lparr>oe_malloc = (\<lambda>_. 0), oe_rand = (\<lambda>_. 0), oe_junk = (\<lambda>_. 0), oe_stack = (\<lambda>_. 0)\<rparr>"

definition ex_oc20_props :: femu_props where
  "ex_oc20_props = default_props\<lparr>p_oc := \<lparr>ocp_sec_size = 4, ocp_secs_per_pg = 1, ocp_pgs_per_blk = 4, ocp_max_sec_per_rq = 64,
     ocp_num_ch = 1, ocp_num_lun = 1, ocp_num_pln = 1, ocp_sos = 0\<rparr>\<rparr>"

definition ex_oc20_raw :: femu where
  "ex_oc20_raw = (calloc_femu ex_oc20_props (\<lambda>a. ucast a) \<lparr>sb_msi_en = False, sb_msix_en = True, irq_vints = [], irq_sent = [],
       irq_msix_nvecs = 3\<rparr>)
     \<lparr>n_dma := ex_ctx, n_mbe := init_dram_backend (femu_mode_code FEMU_OCSSD_MODE) 64, n_ns_size := 2000,
      n_namespaces := [zero_ns\<lparr>ns_id := 1, ns_ns_blks := 8\<rparr>],
      n_oc20_hdr := \<lparr>hdr_magic = OC20_MAGIC, hdr_version = 1, hdr_num_namespaces = 1, hdr_sector_size = 4, hdr_md_size = 16,
        hdr_ns_size = 2000\<rparr>\<rparr>"

definition ex_oc20_dev :: femu where
  "ex_oc20_dev = (case oc20_init_namespace ex_oc20_oce ex_oc20_raw 0 of Some (_, n) \<Rightarrow> n | None \<Rightarrow> ex_oc20_raw)"

definition ex_oc20_geo :: Oc20NamespaceGeometry where
  "ex_oc20_geo =
     \<lparr>ng_ver_major = 2, ng_ver_minor = 0, ng_lbaf = \<lparr>laf_grp_len = 0, laf_lun_len = 0, laf_chk_len = 1, laf_sec_len = 2\<rparr>,
      ng_mccap = 0, ng_wit = 0, ng_geo = \<lparr>geo_num_grp = 1, geo_num_lun = 1, geo_num_chk = 2, geo_clba = 4\<rparr>,
      ng_wrt = \<lparr>wrt_ws_min = 4, wrt_ws_opt = 8, wrt_mw_cunits = 24, wrt_max_open_chks = 0, wrt_max_open_punits = 0\<rparr>,
      ng_perf = \<lparr>perf_trdt = 70000, perf_trdm = 100000, perf_tprt = 1900000, perf_tprm = 3500000, perf_tbet = 3000000,
        perf_tbem = 3000000\<rparr>\<rparr>"

definition ex_oc20_lns :: Oc20Namespace where
  "ex_oc20_lns = oc20_new_lns ex_oc20_geo 0 64
     \<lparr>a20_grp_mask = 0, a20_lun_mask = 0, a20_chk_mask = 4, a20_sec_mask = 3, a20_grp_offset = 3, a20_lun_offset = 3,
      a20_chk_offset = 2, a20_sec_offset = 0\<rparr>"

definition ex_oc20_req :: "u8 \<Rightarrow> u32 \<Rightarrow> u32 \<Rightarrow> NvmeRequest" where
  "ex_oc20_req op slba nlb = (zero_req 1)\<lparr>req_cmd_opcode := op,
     req_cmd := zero_cmd\<lparr>cmd_opcode := op, cmd_nsid := 1, cmd_prp1 := 0x10000, cmd_cdw10 := slba, cmd_cdw12 := nlb\<rparr>\<rparr>"

lemma ex_oc20_init: "\<exists>n. oc20_init_namespace ex_oc20_oce ex_oc20_raw 0 = Some (True, n) \<and> ex_oc20_dev = n"
proof -
  have "case oc20_init_namespace ex_oc20_oce ex_oc20_raw 0 of Some (b, n) \<Rightarrow> b | None \<Rightarrow> False" by code_simp
  then show ?thesis by (auto simp: ex_oc20_dev_def split: option.splits prod.splits)
qed

lemma ex_oc20_geometry: "femu_oc20_init_id_ctrl ex_oc20_raw (n_namespaces ex_oc20_raw ! 0) = Some ex_oc20_geo"
  by code_simp

lemma ex_oc20_geometry_ok: "geometry_ok (ng_geo ex_oc20_geo)"
  by (simp add: geometry_ok_def ex_oc20_geo_def)

lemma ex_oc20_raw_facts: "0 < length (n_namespaces ex_oc20_raw)" "par20_resetfail_fname (n_params_oc20 ex_oc20_raw) = No_file"
  by (simp_all add: ex_oc20_raw_def calloc_femu_def zero_oc20_params_def)

lemma ex_oc20_state: "lns_of ex_oc20_dev 0 = Some ex_oc20_lns"
  by code_simp

lemma ex_oc20_ok: "oc20_ns_ok ex_oc20_lns"
proof -
  obtain lns where "lns_of ex_oc20_dev 0 = Some lns" "oc20_ns_ok lns"
    using ex_oc20_init init_namespace_ok ex_oc20_raw_facts ex_oc20_geometry ex_oc20_geometry_ok by metis
  then show ?thesis using ex_oc20_state by simp
qed

definition ex_oc20_write :: "u32 \<Rightarrow> u32 \<Rightarrow> NvmeRequest" where
  "ex_oc20_write slba nlb = ex_oc20_req (io_opcode NVME_CMD_WRITE) slba nlb"

lemma ex_oc20_lns_facts: "n_clba ex_oc20_lns = 4" "chunks_of ex_oc20_lns = [Chunk_free, Chunk_free]"
  "chunk_of ex_oc20_lns 4 = 1" "chunk_of ex_oc20_lns 0 = 0" "oc20_lba_valid ex_oc20_lns 4"
  "lba_sectr ex_oc20_lns 4 = 0" "lba_sectr ex_oc20_lns 5 = 1" "lba_sectr ex_oc20_lns 0 = 0"
  by code_simp+

lemma ex_oc20_requests: "oc20_write_cmd (ex_oc20_write 4 1)" "oc20_write_cmd (ex_oc20_write 0 5)"
  "oc20_lbas ex_oc20_dev (ex_oc20_write 4 1) = [4, 5]" "oc20_len (ex_oc20_write 4 1) = 2" "oc20_len (ex_oc20_write 0 5) = 6"
  "oc20_lbas ex_oc20_dev (ex_oc20_write 0 5) = [0, 1, 2, 3, 4, 5]" "oc20_one_chunk ex_oc20_lns [4, 5]"
  by code_simp+

lemma ex_oc20_answers:
  "\<exists>rq n'. oc20_io_cmd ex_oc20_oce ex_oc20_dev 0 (ex_oc20_write 4 1) = Some (0, rq, n')"
  "\<exists>rq n'. oc20_io_cmd ex_oc20_oce ex_oc20_dev 0 (ex_oc20_write 0 5) = Some (0, rq, n')"
proof -
  have "case oc20_io_cmd ex_oc20_oce ex_oc20_dev 0 (ex_oc20_write 4 1) of Some (st, _) \<Rightarrow> st = 0 | None \<Rightarrow> False"
    "case oc20_io_cmd ex_oc20_oce ex_oc20_dev 0 (ex_oc20_write 0 5) of Some (st, _) \<Rightarrow> st = 0 | None \<Rightarrow> False"
    by code_simp+
  then show "\<exists>rq n'. oc20_io_cmd ex_oc20_oce ex_oc20_dev 0 (ex_oc20_write 4 1) = Some (0, rq, n')"
    "\<exists>rq n'. oc20_io_cmd ex_oc20_oce ex_oc20_dev 0 (ex_oc20_write 0 5) = Some (0, rq, n')"
    by (auto split: option.splits prod.splits)
qed


text \<open>The second chunk is free, and multiple resets are not offered; the second address is not even looked at.\<close>

theorem oc20_erase_refines_chunks_witness:
  "\<exists>rq n'. oc20_io_cmd ex_oc20_oce ex_oc20_dev 0 (ex_oc20_req OC20_CMD_VECT_ERASE 4 0) =
     Some (OC20_INVALID_RESET OR sc NVME_DNR, rq, n')"
proof -
  have op: "cmd_opcode (req_cmd (ex_oc20_req OC20_CMD_VECT_ERASE 4 0)) = OC20_CMD_VECT_ERASE" by code_simp
  have spec: "fst (spec_erase (par20_mccap (n_params_oc20 ex_oc20_dev))
      (map (erase_target ex_oc20_lns) (oc20_lba_list ex_oc20_dev True
         (lrw_lbal (lrw_of_cmd (req_cmd (ex_oc20_req OC20_CMD_VECT_ERASE 4 0)))) (oc20_len (ex_oc20_req OC20_CMD_VECT_ERASE 4 0))))
      (chunks_of ex_oc20_lns)) = OC20_INVALID_RESET OR sc NVME_DNR"
    by code_simp
  show ?thesis
    using oc20_erase_refines_chunks [OF ex_oc20_state ex_oc20_ok op, of ex_oc20_oce] unfolding spec by blast
qed

text \<open>Six sectors from the start: the first chunk has four.\<close>

theorem oc20_write_advances_first_chunk_only_witness:
  "\<exists>rq n' lns' cs. oc20_io_cmd ex_oc20_oce ex_oc20_dev 0 (ex_oc20_write 0 5) = Some (0, rq, n') \<and>
     lns_of n' 0 = Some lns' \<and> lns_chunk_info lns' = [cs, lns_chunk_info ex_oc20_lns ! 1] \<and> unat (cs_wp cs) = 6 \<and>
     cs_state cs = OC20_CHUNK_OPEN \<and> \<not> chunk_ok 4 cs"
proof -
  obtain rq n' where cmd: "oc20_io_cmd ex_oc20_oce ex_oc20_dev 0 (ex_oc20_write 0 5) = Some (0, rq, n')"
    using ex_oc20_answers(2) by blast
  have "length (lns_chunk_info ex_oc20_lns) = 2" by code_simp
  then obtain c0 c1 where "lns_chunk_info ex_oc20_lns = [c0, c1]" by (auto simp: numeral_2_eq_2 length_Suc_conv)
  then show ?thesis
    using oc20_write_advances_first_chunk_only [OF ex_oc20_state ex_oc20_ok ex_oc20_requests(2), of ex_oc20_oce] cmd
    by (fastforce simp: ex_oc20_requests ex_oc20_lns_facts)
qed


end
