(* ===== verification/Oc12_Props.thy ===== *)
theory Oc12_Props
  imports Oc_Views Oc20_Reach
begin

text \<open>
  The out-of-band metadata of the open-channel 1.2 mode: what is stored for a sector is what a later read of any
  address with the same index returns.
\<close>

lemma overwrite_same: "o' + length d \<le> length bs \<Longrightarrow> take (length d) (drop o' (overwrite bs o' d)) = d"
  by (simp add: overwrite_def)

lemma overwrite_disjoint:
  assumes "o' + length d \<le> length bs" "a + k \<le> o' \<or> o' + length d \<le> a" "a + k \<le> length bs"
  shows "take k (drop a (overwrite bs o' d)) = take k (drop a bs)"
  using assms by (intro nth_equalityI) (auto simp: overwrite_def nth_append)

text \<open>The metadata of a sector: its state and \<open>sos\<close> bytes of the host.\<close>

definition meta_layout :: "Oc12Ctrl \<Rightarrow> bool" where
  "meta_layout oc \<longleftrightarrow>
     unat (oc12_meta_len oc) = unat (oc12_int_meta_size oc) + unat (par12_sos (oc12_params oc)) \<and>
     unat (oc12_meta_len oc) < 2 ^ 31"

lemma secidx_range: "ppa2secidx oc ppa = - 1 \<or> unat (ppa2secidx oc ppa) < 2 ^ 32"
proof -
  let ?t = "ucast (par12_total_units (oc12_params oc)) :: u64"
  have "ppa2secidx oc ppa = - 1 \<or> unat (ppa2secidx oc ppa) \<le> unat ?t"
    by (simp add: ppa2secidx_def Let_def not_less word_le_nat_alt del: unat_u64_of_u32)
  moreover have "unat ?t < 2 ^ 32" using unsigned_less [of "par12_total_units (oc12_params oc)"] by simp
  ultimately show ?thesis by linarith
qed

text \<open>An access that succeeds is inside the buffer, so its index is not the invalid one and nothing wraps.\<close>

lemma oob_offset:
  assumes "meta_layout oc" "length (oc12_meta_buf oc) < 2 ^ 63" "0 < unat (par12_sos (oc12_params oc))"
    "meta_access oc (oc12_oob_offset oc ppa) g (unat (par12_sos (oc12_params oc)))"
  shows "unat (oc12_oob_offset oc ppa) = unat (ppa2secidx oc ppa) * unat (oc12_meta_len oc) + unat (oc12_int_meta_size oc)"
proof -
  let ?l = "oc12_meta_len oc" and ?i = "ppa2secidx oc ppa" and ?s = "unat (par12_sos (oc12_params oc))"
  let ?m = "ucast (oc12_int_meta_size oc) :: u64"
  have l: "unat (scast ?l :: u64) = unat ?l" using assms(1) by (intro scast_positive) (simp add: meta_layout_def)
  have m: "unat ?m = unat (oc12_int_meta_size oc)" by (simp add: unat_ucast_up)
  have fits: "unat (oc12_oob_offset oc ppa) + ?s < 2 ^ 63" using assms(2,4) by (simp add: meta_access_def)
  have idx: "unat ?i < 2 ^ 32"
  proof (rule ccontr)
    assume "\<not> unat ?i < 2 ^ 32"
    then have "?i = - 1" using secidx_range by blast
    then have o: "oc12_oob_offset oc ppa = - scast ?l + ?m" by (simp add: oc12_oob_offset_def)
    have "oc12_oob_offset oc ppa + of_nat ?s = 0"
    proof -
      have "scast ?l = (of_nat (unat ?l) :: u64)" unfolding l [symmetric] by simp
      then have "scast ?l = (of_nat (unat (oc12_int_meta_size oc) + ?s) :: u64)" using assms(1) by (simp only: meta_layout_def)
      moreover have "?m = of_nat (unat (oc12_int_meta_size oc))" unfolding m [symmetric] by simp
      ultimately have e: "scast ?l = ?m + (of_nat ?s :: u64)" by (simp only: of_nat_add)
      show ?thesis unfolding o e by (simp only: add.assoc ab_left_minus)
    qed
    moreover have "unat (oc12_oob_offset oc ppa + of_nat ?s) = unat (oc12_oob_offset oc ppa) + ?s"
      using fits by (subst unat_add_lem [THEN iffD1]) (simp_all add: unat_of_nat)
    ultimately show False using assms(3) by simp
  qed
  have "unat ?i * unat ?l \<le> 2 ^ 32 * 2 ^ 31"
    using idx assms(1) by (intro mult_le_mono) (simp_all add: meta_layout_def)
  then have b: "unat ?i * unat ?l \<le> 2 ^ 63" by simp
  then have "unat (?i * scast ?l) = unat ?i * unat ?l"
    by (subst unat_mult_lem [THEN iffD1]) (simp_all add: l)
  moreover note b
  moreover have "unat ?m < 2 ^ 8" using m unsigned_less [of "oc12_int_meta_size oc"] by simp
  ultimately show ?thesis
    unfolding oc12_oob_offset_def by (subst unat_add_lem [THEN iffD1]) (simp_all add: m)
qed

text \<open>C30: Metadata written for one address is what a read of any address with the same index returns, and metadata of
  every other index stays as it was.  The index is not one-to-one: it weighs each part of an address with the
  number of that part instead of the sizes below it, so different sectors share their metadata.\<close>

theorem oc12_metadata_roundtrip:
  assumes "meta_layout oc" "length (oc12_meta_buf oc) < 2 ^ 63" "0 < unat (par12_sos (oc12_params oc))"
    "unat (par12_sos (oc12_params oc)) \<le> length m" "oc12_write_oob_meta oc p m = Some oc'"
    "oc12_read_oob_meta oc q = Some old"
  shows "oc12_read_oob_meta oc' q =
    Some (if ppa2secidx oc q = ppa2secidx oc p then take (unat (par12_sos (oc12_params oc))) m else old)"
proof -
  let ?s = "unat (par12_sos (oc12_params oc))" and ?o = "oc12_oob_offset oc" and ?b = "oc12_meta_buf oc"
  have acc: "meta_access oc (?o p) (ucast (par12_sos (oc12_params oc))) ?s" "meta_access oc (?o q) (ucast (par12_sos (oc12_params oc))) ?s"
    and old: "old = take ?s (drop (unat (?o q)) ?b)"
    and oc': "oc' = oc\<lparr>oc12_meta_buf := overwrite ?b (unat (?o p)) (take ?s m)\<rparr>"
    using assms(5,6) by (auto simp: oc12_write_oob_meta_def oc12_read_oob_meta_def Let_def split: if_splits)
  have fits: "unat (?o p) + ?s \<le> length ?b" "unat (?o q) + ?s \<le> length ?b" using acc by (simp_all add: meta_access_def)
  have len: "length (take ?s m) = ?s" using assms(4) by simp
  have same: "oc12_oob_offset oc' q = ?o q" by (simp add: oc' oc12_oob_offset_def ppa2secidx_def)
  have read: "oc12_read_oob_meta oc' q = Some (take ?s (drop (unat (?o q)) (overwrite ?b (unat (?o p)) (take ?s m))))"
    using acc(2) fits len by (simp add: oc12_read_oob_meta_def Let_def same) (simp add: oc' meta_access_def overwrite_def)
  show ?thesis
  proof (cases "ppa2secidx oc q = ppa2secidx oc p")
    case True
    then have "?o q = ?o p" by (simp add: oc12_oob_offset_def)
    then show ?thesis using read overwrite_same [of "unat (?o p)" "take ?s m" ?b] fits len True by simp
  next
    case False
    define i where "i = unat (ppa2secidx oc q)"
    define j where "j = unat (ppa2secidx oc p)"
    have off: "unat (?o q) = i * unat (oc12_meta_len oc) + unat (oc12_int_meta_size oc)"
      "unat (?o p) = j * unat (oc12_meta_len oc) + unat (oc12_int_meta_size oc)"
      unfolding i_def j_def by (rule oob_offset [OF assms(1-3) acc(2)], rule oob_offset [OF assms(1-3) acc(1)])
    have "i + 1 \<le> j \<or> j + 1 \<le> i" using False by (auto simp: i_def j_def word_unat_eq_iff)
    then have "unat (?o q) + ?s \<le> unat (?o p) \<or> unat (?o p) + ?s \<le> unat (?o q)"
    proof
      assume "i + 1 \<le> j"
      then have "(i + 1) * unat (oc12_meta_len oc) \<le> j * unat (oc12_meta_len oc)" by (rule mult_le_mono1)
      then show ?thesis using off assms(1) by (simp add: meta_layout_def)
    next
      assume "j + 1 \<le> i"
      then have "(j + 1) * unat (oc12_meta_len oc) \<le> i * unat (oc12_meta_len oc)" by (rule mult_le_mono1)
      then show ?thesis using off assms(1) by (simp add: meta_layout_def)
    qed
    then show ?thesis
      using read overwrite_disjoint [of "unat (?o p)" "take ?s m" ?b "unat (?o q)" ?s] fits len old False by simp
  qed
qed

subsection \<open>Two sectors with the same metadata\<close>

text \<open>Two channels of one unit with two planes: the first sector of the second channel and that of the second plane
  of the first channel.\<close>

definition ex_oc12_group :: Oc12IdGroup where
  "ex_oc12_group = zero_oc12_group\<lparr>ig_num_ch := 2, ig_num_lun := 1, ig_num_pln := 2, ig_num_blk := 1, ig_num_pg := 2\<rparr>"

definition ex_oc12_params :: Oc12Params where
  "ex_oc12_params = oc12_units ex_oc12_group (oc12_init_params
     \<lparr>ocp_sec_size = 512, ocp_secs_per_pg = 1, ocp_pgs_per_blk = 2, ocp_max_sec_per_rq = 4, ocp_num_ch = 2, ocp_num_lun = 1,
      ocp_num_pln = 2, ocp_sos = 2\<rparr> (oc12_params zero_oc12_ctrl))"

definition ex_oc12 :: Oc12Ctrl where
  "ex_oc12 =
     (let d = oc12_init_id_ctrl ex_oc12_params ((oc12_id_ctrl zero_oc12_ctrl)\<lparr>ic12_group := ex_oc12_group\<rparr>)
      in case oc12_addr_format (ic12_ppaf d) of
           Some f \<Rightarrow> oc12_init_meta (zero_oc12_ctrl\<lparr>oc12_params := ex_oc12_params, oc12_id_ctrl := d, oc12_ppaf := f\<rparr>)
         | None \<Rightarrow> zero_oc12_ctrl)"

text \<open>Planes are bit 0 of an address, pages bit 1, channels bit 2.\<close>

lemma ex_oc12_facts: "PPA_CH (oc12_ppaf ex_oc12) 4 = 1" "PPA_PLN (oc12_ppaf ex_oc12) 4 = 0"
  "PPA_CH (oc12_ppaf ex_oc12) 1 = 0" "PPA_PLN (oc12_ppaf ex_oc12) 1 = 1"
  "ppa2secidx ex_oc12 4 = ppa2secidx ex_oc12 1" "length (oc12_meta_buf ex_oc12) = 48"
  "unat (par12_sos (oc12_params ex_oc12)) = 2" "unat (oc12_meta_len ex_oc12) = 6" "unat (oc12_int_meta_size ex_oc12) = 4"
  "oc12_read_oob_meta ex_oc12 4 = Some [0, 0]" "oc12_write_oob_meta ex_oc12 1 [7, 9] \<noteq> None"
  by code_simp+

theorem oc12_metadata_roundtrip_witness:
  "\<exists>oc'. oc12_write_oob_meta ex_oc12 1 [7, 9] = Some oc' \<and> oc12_read_oob_meta ex_oc12 4 = Some [0, 0] \<and>
     oc12_read_oob_meta oc' 4 = Some [7, 9]"
proof -
  obtain oc' where w: "oc12_write_oob_meta ex_oc12 1 [7, 9] = Some oc'" using ex_oc12_facts(11) by blast
  have "meta_layout ex_oc12" by (simp add: meta_layout_def ex_oc12_facts)
  then have "oc12_read_oob_meta oc' 4 = Some [7, 9]"
    using oc12_metadata_roundtrip [OF _ _ _ _ w ex_oc12_facts(10)] by (simp add: ex_oc12_facts)
  then show ?thesis using w ex_oc12_facts(10) by blast
qed

end
