(* ===== verification/Tailq.thy ===== *)
theory Tailq
  imports Femu_Prelude "HOL-Library.Monad_Syntax"
begin

text \<open>
  The tail queues of \<open>qemu-compat/queue.h\<close>, which hold the requests of submission queues, the queues of a
  completion queue, the lines of the translation layer and the zones.  The other theories model such a queue as a list;
  here the macros are modelled on a store of links and proved to implement lists.  The head of a queue and the entry in
  an element are the same union, so both are a \<open>QTailQLink\<close>; a pointer to an element is a number, and a pointer
  to a link is the head of a queue or the entry of an element.  \<open>None\<close> is an access through \<open>NULL\<close> or to memory
  that is not a link.
\<close>

subsection \<open>Links\<close>

datatype link = Hd nat | El nat

record QTailQLink =
  tql_next :: "nat option"
  tql_prev :: "link option"

type_synonym links = "link \<rightharpoonup> QTailQLink"

definition get_next :: "links \<Rightarrow> link \<Rightarrow> nat option option" where "get_next s r = map_option tql_next (s r)"
definition get_prev :: "links \<Rightarrow> link \<Rightarrow> link option option" where "get_prev s r = map_option tql_prev (s r)"

definition put_next :: "links \<Rightarrow> link \<Rightarrow> nat option \<Rightarrow> links option" where
  "put_next s r v = map_option (\<lambda>l. s(r \<mapsto> l\<lparr>tql_next := v\<rparr>)) (s r)"
definition put_prev :: "links \<Rightarrow> link \<Rightarrow> link option \<Rightarrow> links option" where
  "put_prev s r v = map_option (\<lambda>l. s(r \<mapsto> l\<lparr>tql_prev := v\<rparr>)) (s r)"

subsection \<open>The macros\<close>

definition QTAILQ_INIT :: "links \<Rightarrow> nat \<Rightarrow> links option" where
  "QTAILQ_INIT s h = do { s \<leftarrow> put_next s (Hd h) None; put_prev s (Hd h) (Some (Hd h)) }"

definition QTAILQ_INSERT_HEAD :: "links \<Rightarrow> nat \<Rightarrow> nat \<Rightarrow> links option" where
  "QTAILQ_INSERT_HEAD s h e =
     do {
       first \<leftarrow> get_next s (Hd h);
       s \<leftarrow> put_next s (El e) first;
       s \<leftarrow> (case first of Some f \<Rightarrow> put_prev s (El f) (Some (El e)) | None \<Rightarrow> put_prev s (Hd h) (Some (El e)));
       s \<leftarrow> put_next s (Hd h) (Some e);
       put_prev s (El e) (Some (Hd h))
     }"

definition QTAILQ_INSERT_TAIL :: "links \<Rightarrow> nat \<Rightarrow> nat \<Rightarrow> links option" where
  "QTAILQ_INSERT_TAIL s h e =
     do {
       s \<leftarrow> put_next s (El e) None;
       prev \<leftarrow> get_prev s (Hd h);
       s \<leftarrow> put_prev s (El e) prev;
       prev \<leftarrow> get_prev s (Hd h);
       r \<leftarrow> prev;
       s \<leftarrow> put_next s r (Some e);
       put_prev s (Hd h) (Some (El e))
     }"

definition QTAILQ_INSERT_AFTER :: "links \<Rightarrow> nat \<Rightarrow> nat \<Rightarrow> nat \<Rightarrow> links option" where
  "QTAILQ_INSERT_AFTER s h l e =
     do {
       next \<leftarrow> get_next s (El l);
       s \<leftarrow> put_next s (El e) next;
       s \<leftarrow> (case next of Some f \<Rightarrow> put_prev s (El f) (Some (El e)) | None \<Rightarrow> put_prev s (Hd h) (Some (El e)));
       s \<leftarrow> put_next s (El l) (Some e);
       put_prev s (El e) (Some (El l))
     }"

definition QTAILQ_INSERT_BEFORE :: "links \<Rightarrow> nat \<Rightarrow> nat \<Rightarrow> links option" where
  "QTAILQ_INSERT_BEFORE s l e =
     do {
       prev \<leftarrow> get_prev s (El l);
       s \<leftarrow> put_prev s (El e) prev;
       s \<leftarrow> put_next s (El e) (Some l);
       prev \<leftarrow> get_prev s (El l);
       r \<leftarrow> prev;
       s \<leftarrow> put_next s r (Some e);
       put_prev s (El l) (Some (El e))
     }"

definition QTAILQ_REMOVE :: "links \<Rightarrow> nat \<Rightarrow> nat \<Rightarrow> links option" where
  "QTAILQ_REMOVE s h e =
     do {
       next \<leftarrow> get_next s (El e);
       prev \<leftarrow> get_prev s (El e);
       s \<leftarrow> (case next of Some f \<Rightarrow> put_prev s (El f) prev | None \<Rightarrow> put_prev s (Hd h) prev);
       prev \<leftarrow> get_prev s (El e);
       next \<leftarrow> get_next s (El e);
       r \<leftarrow> prev;
       s \<leftarrow> put_next s r next;
       s \<leftarrow> put_prev s (El e) None;
       put_next s (El e) None
     }"

text \<open>The elements from \<open>left\<close> to \<open>right\<close>, whose own links are left as they are.\<close>

definition QTAILQ_REMOVE_SEVERAL :: "links \<Rightarrow> nat \<Rightarrow> nat \<Rightarrow> nat \<Rightarrow> links option" where
  "QTAILQ_REMOVE_SEVERAL s h left' right' =
     do {
       next \<leftarrow> get_next s (El right');
       prev \<leftarrow> get_prev s (El left');
       s \<leftarrow> (case next of Some f \<Rightarrow> put_prev s (El f) prev | None \<Rightarrow> put_prev s (Hd h) prev);
       prev \<leftarrow> get_prev s (El left');
       next \<leftarrow> get_next s (El right');
       r \<leftarrow> prev;
       put_next s r next
     }"

definition QTAILQ_EMPTY :: "links \<Rightarrow> nat \<Rightarrow> bool option" where "QTAILQ_EMPTY s h = map_option (\<lambda>v. v = None) (get_next s (Hd h))"
definition QTAILQ_FIRST :: "links \<Rightarrow> nat \<Rightarrow> nat option option" where "QTAILQ_FIRST s h = get_next s (Hd h)"
definition QTAILQ_NEXT :: "links \<Rightarrow> nat \<Rightarrow> nat option option" where "QTAILQ_NEXT s e = get_next s (El e)"
definition QTAILQ_IN_USE :: "links \<Rightarrow> nat \<Rightarrow> bool option" where
  "QTAILQ_IN_USE s e = map_option (\<lambda>v. v \<noteq> None) (get_prev s (El e))"

definition QTAILQ_LINK_PREV :: "links \<Rightarrow> link \<Rightarrow> nat option option" where
  "QTAILQ_LINK_PREV s r =
     do { p \<leftarrow> get_prev s r; a \<leftarrow> p; q \<leftarrow> get_prev s a; b \<leftarrow> q; get_next s b }"

definition QTAILQ_LAST :: "links \<Rightarrow> nat \<Rightarrow> nat option option" where "QTAILQ_LAST s h = QTAILQ_LINK_PREV s (Hd h)"
definition QTAILQ_PREV :: "links \<Rightarrow> nat \<Rightarrow> nat option option" where "QTAILQ_PREV s e = QTAILQ_LINK_PREV s (El e)"

text \<open>The elements that a loop over a queue visits when its body leaves the links alone, at most \<open>fuel\<close> of them: the
  inner \<open>None\<close> stands for a loop that goes on.\<close>

primrec foreach_from :: "(nat \<Rightarrow> nat option option) \<Rightarrow> nat \<Rightarrow> nat option \<Rightarrow> nat list option option" where
  "foreach_from step 0 v = Some (if v = None then Some [] else None)"
| "foreach_from step (Suc k) v =
     (case v of
        None \<Rightarrow> Some (Some [])
      | Some e \<Rightarrow> do { v' \<leftarrow> step e; map_option (map_option (\<lambda>es. e # es)) (foreach_from step k v') })"

definition QTAILQ_FOREACH :: "links \<Rightarrow> nat \<Rightarrow> nat \<Rightarrow> nat list option option" where
  "QTAILQ_FOREACH s h fuel = QTAILQ_FIRST s h \<bind> foreach_from (QTAILQ_NEXT s) fuel"

definition QTAILQ_FOREACH_REVERSE :: "links \<Rightarrow> nat \<Rightarrow> nat \<Rightarrow> nat list option option" where
  "QTAILQ_FOREACH_REVERSE s h fuel = QTAILQ_LAST s h \<bind> foreach_from (QTAILQ_PREV s) fuel"

subsection \<open>Stores as two functions\<close>

definition nx :: "links \<Rightarrow> link \<Rightarrow> nat option" where "nx s r = tql_next (the (s r))"
definition pv :: "links \<Rightarrow> link \<Rightarrow> link option" where "pv s r = tql_prev (the (s r))"

definition upd_next :: "links \<Rightarrow> link \<Rightarrow> nat option \<Rightarrow> links" where "upd_next s r v = s(r \<mapsto> (the (s r))\<lparr>tql_next := v\<rparr>)"
definition upd_prev :: "links \<Rightarrow> link \<Rightarrow> link option \<Rightarrow> links" where "upd_prev s r v = s(r \<mapsto> (the (s r))\<lparr>tql_prev := v\<rparr>)"

lemma access_simps:
  "r \<in> dom s \<Longrightarrow> get_next s r = Some (nx s r)" "r \<in> dom s \<Longrightarrow> get_prev s r = Some (pv s r)"
  "r \<in> dom s \<Longrightarrow> put_next s r v = Some (upd_next s r v)" "r \<in> dom s \<Longrightarrow> put_prev s r p = Some (upd_prev s r p)"
  by (auto simp: get_next_def get_prev_def put_next_def put_prev_def nx_def pv_def upd_next_def upd_prev_def)

lemma upd_simps [simp]:
  "nx (upd_next s r v) q = (if q = r then v else nx s q)" "nx (upd_prev s r p) q = nx s q"
  "pv (upd_next s r v) q = pv s q" "pv (upd_prev s r p) q = (if q = r then p else pv s q)"
  "dom (upd_next s r v) = insert r (dom s)" "dom (upd_prev s r p) = insert r (dom s)"
  by (auto simp: nx_def pv_def upd_next_def upd_prev_def)

lemma upd_other: "q \<noteq> r \<Longrightarrow> upd_next s r v q = s q" "q \<noteq> r \<Longrightarrow> upd_prev s r p q = s q"
  by (simp_all add: upd_next_def upd_prev_def)

subsection \<open>A queue that holds a list\<close>

definition endp :: "link \<Rightarrow> nat list \<Rightarrow> link" where "endp p xs = (if xs = [] then p else El (last xs))"

primrec seg :: "links \<Rightarrow> link \<Rightarrow> nat list \<Rightarrow> bool" where
  "seg s p [] \<longleftrightarrow> True"
| "seg s p (x # xs) \<longleftrightarrow> nx s p = Some x \<and> pv s (El x) = Some p \<and> seg s (El x) xs"

definition tailq :: "links \<Rightarrow> nat \<Rightarrow> nat list \<Rightarrow> bool" where
  "tailq s h xs \<longleftrightarrow> distinct xs \<and> insert (Hd h) (El ` set xs) \<subseteq> dom s \<and> seg s (Hd h) xs \<and>
     nx s (endp (Hd h) xs) = None \<and> pv s (Hd h) = Some (endp (Hd h) xs)"

lemma endp_simps [simp]: "endp p [] = p" "endp p (x # xs) = endp (El x) xs" "endp p (xs @ [x]) = El x"
  "endp p (xs @ ys) = endp (endp p xs) ys"
  by (auto simp: endp_def)

lemma endp_in: "endp p xs \<in> insert p (El ` set xs)"
  by (simp add: endp_def)

lemma seg_append [simp]: "seg s p (xs @ ys) \<longleftrightarrow> seg s p xs \<and> seg s (endp p xs) ys"
  by (induction xs arbitrary: p) auto

text \<open>What a segment depends on.\<close>

lemma seg_frame:
  assumes "xs \<noteq> [] \<Longrightarrow> nx s' p = nx s p" "\<And>x. x \<in> set (butlast xs) \<Longrightarrow> nx s' (El x) = nx s (El x)"
    "\<And>x. x \<in> set xs \<Longrightarrow> pv s' (El x) = pv s (El x)"
  shows "seg s' p xs = seg s p xs"
  using assms
proof (induction xs arbitrary: p)
  case (Cons x xs)
  have "seg s' (El x) xs = seg s (El x) xs"
  proof (rule Cons.IH)
    show "nx s' (El x) = nx s (El x)" if "xs \<noteq> []" using Cons.prems(2) [of x] that by simp
    show "nx s' (El y) = nx s (El y)" if "y \<in> set (butlast xs)" for y
      using Cons.prems(2) [of y] that by (cases xs) auto
  qed (use Cons.prems in simp)
  then show ?case using Cons.prems by simp
qed simp

lemma tailq_frame:
  assumes "\<And>q. q \<in> insert (Hd h) (El ` set xs) \<Longrightarrow> s' q = s q"
  shows "tailq s' h xs = tailq s h xs"
proof -
  have n: "nx s' q = nx s q" "pv s' q = pv s q" if "q \<in> insert (Hd h) (El ` set xs)" for q
    using assms [OF that] by (simp_all add: nx_def pv_def)
  have d: "insert (Hd h) (El ` set xs) \<subseteq> dom s' \<longleftrightarrow> insert (Hd h) (El ` set xs) \<subseteq> dom s"
    unfolding dom_def subset_iff mem_Collect_eq using assms by metis
  have "seg s' (Hd h) xs = seg s (Hd h) xs" using n by (intro seg_frame) (auto dest: in_set_butlastD)
  then show ?thesis unfolding tailq_def d using n(1) [OF endp_in [of "Hd h" xs]] n(2) [of "Hd h"] by simp
qed

lemma seg_in_use: "seg s p xs \<Longrightarrow> e \<in> set xs \<Longrightarrow> pv s (El e) \<noteq> None"
  by (induction xs arbitrary: p) auto

lemma store_ext: "dom s' = dom s \<Longrightarrow> nx s' q = nx s q \<Longrightarrow> pv s' q = pv s q \<Longrightarrow> s' q = s q"
  by (cases "s q"; cases "s' q") (auto simp: nx_def pv_def intro: QTailQLink.equality)

lemma butlast_not_endp: "distinct xs \<Longrightarrow> x \<in> set (butlast xs) \<Longrightarrow> El x \<noteq> endp p xs"
  by (cases xs rule: rev_cases) auto

abbreviation refs :: "nat \<Rightarrow> nat list \<Rightarrow> link set" where "refs h xs \<equiv> insert (Hd h) (El ` set xs)"

lemma endp_mem: "endp (Hd h) xs \<in> refs h xs"
  using endp_in [of "Hd h" xs] by simp

text \<open>The link that points back to the end of a prefix, by what follows the prefix.\<close>

definition succ :: "nat \<Rightarrow> nat list \<Rightarrow> link" where "succ h zs = (case zs of [] \<Rightarrow> Hd h | z # _ \<Rightarrow> El z)"

lemma succ_simps [simp]: "succ h [] = Hd h" "succ h (z # zs) = El z"
  by (simp_all add: succ_def)

lemma succ_mem: "succ h zs \<in> refs h zs"
  by (cases zs) simp_all

lemma tailq_split:
  assumes "tailq s h (ys @ zs)"
  shows "nx s (endp (Hd h) ys) = (case zs of [] \<Rightarrow> None | z # _ \<Rightarrow> Some z)" "pv s (succ h zs) = Some (endp (Hd h) ys)"
    "refs h (ys @ zs) \<subseteq> dom s" "seg s (Hd h) ys"
  using assms by (cases zs; simp add: tailq_def)+

text \<open>Cutting out the part between two segments, and putting an element between them.\<close>

lemma cut_ok:
  assumes q: "tailq s h (ys @ ms @ zs)" and d: "dom s' = dom s"
    and n: "nx s' (endp (Hd h) ys) = nx s (endp (Hd h) (ys @ ms))"
      "\<And>x. x \<notin> insert (endp (Hd h) ys) (El ` set ms) \<Longrightarrow> nx s' x = nx s x"
    and p: "pv s' (succ h zs) = Some (endp (Hd h) ys)" "\<And>x. x \<notin> insert (succ h zs) (El ` set ms) \<Longrightarrow> pv s' x = pv s x"
  shows "tailq s' h (ys @ zs)"
proof -
  have D: "distinct (ys @ ms @ zs)" using q by (simp add: tailq_def)
  have "seg s' (Hd h) ys = seg s (Hd h) ys"
  proof (rule seg_frame)
    show "nx s' (Hd h) = nx s (Hd h)" if "ys \<noteq> []" using that by (intro n(2)) (auto simp: endp_def)
    show "nx s' (El x) = nx s (El x)" if "x \<in> set (butlast ys)" for x
      using butlast_not_endp [of ys x "Hd h"] D that by (intro n(2)) (auto dest: in_set_butlastD)
    show "pv s' (El x) = pv s (El x)" if "x \<in> set ys" for x
      using D that by (intro p(2)) (cases zs; auto)
  qed
  then have 1: "seg s' (Hd h) ys" using q by (simp add: tailq_def)
  show ?thesis
  proof (cases zs)
    case Nil
    then show ?thesis using q d 1 n(1) p(1) D by (auto simp: tailq_def)
  next
    case (Cons z zs')
    have "seg s' (El z) zs' = seg s (El z) zs'"
    proof (rule seg_frame)
      show "nx s' (El z) = nx s (El z)" using D Cons endp_mem [of h ys] by (intro n(2)) auto
      show "nx s' (El x) = nx s (El x)" if "x \<in> set (butlast zs')" for x
        using D Cons in_set_butlastD [OF that] endp_mem [of h ys] by (intro n(2)) auto
      show "pv s' (El x) = pv s (El x)" if "x \<in> set zs'" for x using D Cons that by (intro p(2)) auto
    qed
    moreover have "nx s' (endp (El z) zs') = nx s (endp (El z) zs')"
      using D Cons endp_mem [of h ys] endp_in [of "El z" zs'] by (intro n(2)) auto
    moreover have "pv s' (Hd h) = pv s (Hd h)" using Cons by (intro p(2)) auto
    moreover have "nx s' (endp (Hd h) ys) = Some z" using n(1) q Cons by (simp add: tailq_def)
    ultimately show ?thesis using q d 1 p(1) D Cons by (auto simp: tailq_def)
  qed
qed

lemma link_ok:
  assumes q: "tailq s h (ys @ zs)" and e: "El e \<in> dom s" "e \<notin> set (ys @ zs)" and d: "dom s' = dom s"
    and n: "nx s' = (nx s)(endp (Hd h) ys := Some e, El e := nx s (endp (Hd h) ys))"
    and p: "pv s' = (pv s)(succ h zs := Some (El e), El e := Some (endp (Hd h) ys))"
  shows "tailq s' h (ys @ e # zs)"
proof -
  have D: "distinct (ys @ zs)" using q by (simp add: tailq_def)
  have ne: "endp (Hd h) ys \<noteq> El e" using e(2) endp_mem [of h ys] by auto
  have ne2: "succ h zs \<noteq> El e" using e(2) succ_mem [of h zs] by auto
  have "seg s' (Hd h) ys = seg s (Hd h) ys"
  proof (rule seg_frame)
    show "nx s' (Hd h) = nx s (Hd h)" if "ys \<noteq> []" using that by (auto simp: n endp_def)
    show "nx s' (El x) = nx s (El x)" if "x \<in> set (butlast ys)" for x
      using butlast_not_endp [of ys x "Hd h"] D e(2) that by (auto simp: n dest: in_set_butlastD)
    show "pv s' (El x) = pv s (El x)" if "x \<in> set ys" for x
      using D e(2) that by (cases zs) (auto simp: p)
  qed
  then have 1: "seg s' (Hd h) ys" using q by (simp add: tailq_def)
  show ?thesis
  proof (cases zs)
    case Nil
    then show ?thesis using q d 1 e ne ne2 D by (auto simp: tailq_def n p)
  next
    case (Cons z zs')
    have z: "z \<noteq> e" "El z \<noteq> endp (Hd h) ys" using e(2) D Cons endp_mem [of h ys] by auto
    have "seg s' (El z) zs' = seg s (El z) zs'"
      using D Cons e(2) endp_mem [of h ys] by (intro seg_frame) (auto simp: n p dest!: in_set_butlastD)
    moreover have "nx s' (endp (El z) zs') = nx s (endp (El z) zs')"
      using D Cons e(2) endp_mem [of h ys] endp_in [of "El z" zs'] by (auto simp: n)
    ultimately show ?thesis using q d 1 e ne ne2 D Cons z by (auto simp: tailq_def n p)
  qed
qed

subsection \<open>Each macro on a list\<close>

text \<open>An operation changes the head and the elements of one queue only.\<close>

definition only_changes :: "links \<Rightarrow> links \<Rightarrow> link set \<Rightarrow> bool" where
  "only_changes s s' R \<longleftrightarrow> dom s' = dom s \<and> (\<forall>q. q \<notin> R \<longrightarrow> s' q = s q)"

lemma only_changesI: "dom s' = dom s \<Longrightarrow> (\<And>q. q \<notin> R \<Longrightarrow> nx s' q = nx s q \<and> pv s' q = pv s q) \<Longrightarrow> only_changes s s' R"
  by (auto simp: only_changes_def intro: store_ext)

definition implements :: "links \<Rightarrow> links option \<Rightarrow> nat \<Rightarrow> nat list \<Rightarrow> link set \<Rightarrow> bool" where
  "implements s r h xs' R \<longleftrightarrow> (\<exists>s'. r = Some s' \<and> tailq s' h xs' \<and> only_changes s s' R)"

lemma init_ok:
  assumes "Hd h \<in> dom s"
  shows "implements s (QTAILQ_INIT s h) h [] (refs h [])"
proof -
  define s1 where "s1 = upd_prev (upd_next s (Hd h) None) (Hd h) (Some (Hd h))"
  have "QTAILQ_INIT s h = Some s1" using assms by (simp add: QTAILQ_INIT_def access_simps s1_def)
  moreover have "dom s1 = dom s" using assms by (simp add: s1_def insert_absorb)
  moreover from this have "only_changes s s1 (refs h [])" by (intro only_changesI) (auto simp: s1_def)
  moreover have "tailq s1 h []" using assms by (simp add: tailq_def s1_def)
  ultimately show ?thesis by (auto simp: implements_def)
qed

lemma link_implements:
  assumes "tailq s h (ys @ zs)" "El e \<in> dom s" "e \<notin> set (ys @ zs)" "r = Some s'" "dom s' = dom s"
    "nx s' = (nx s)(endp (Hd h) ys := Some e, El e := nx s (endp (Hd h) ys))"
    "pv s' = (pv s)(succ h zs := Some (El e), El e := Some (endp (Hd h) ys))"
  shows "implements s r h (ys @ e # zs) (refs h (ys @ e # zs))"
proof -
  have "only_changes s s' (refs h (ys @ e # zs))"
    using endp_mem [of h ys] succ_mem [of h zs] assms(5-7) by (intro only_changesI) auto
  then show ?thesis unfolding implements_def using link_ok [OF assms(1-3,5-7)] assms(4) by blast
qed

lemma in_dom:
  assumes "tailq s h (ys @ zs)"
  shows "Hd h \<in> dom s" "endp (Hd h) ys \<in> dom s" "succ h zs \<in> dom s" "x \<in> set (ys @ zs) \<Longrightarrow> El x \<in> dom s"
  using tailq_split(3) [OF assms] endp_mem [of h ys] succ_mem [of h zs] by auto

lemma insert_tail_ok:
  assumes "tailq s h xs" "El e \<in> dom s" "e \<notin> set xs"
  shows "implements s (QTAILQ_INSERT_TAIL s h e) h (xs @ [e]) (refs h (xs @ [e]))"
proof -
  have q: "tailq s h (xs @ [])" using assms(1) by simp
  have ne: "endp (Hd h) xs \<noteq> El e" using assms(3) endp_mem [of h xs] by auto
  note d = in_dom [OF q]
  define s1 where "s1 = upd_prev (upd_next (upd_prev (upd_next s (El e) None) (El e) (Some (endp (Hd h) xs)))
    (endp (Hd h) xs) (Some e)) (Hd h) (Some (El e))"
  have "QTAILQ_INSERT_TAIL s h e = Some s1"
    using d assms(2) tailq_split(2) [OF q] by (simp add: QTAILQ_INSERT_TAIL_def access_simps s1_def)
  moreover have "dom s1 = dom s" using d assms(2) by (auto simp: s1_def)
  ultimately show ?thesis
    using tailq_split(1) [OF q] ne assms by (intro link_implements [OF q, of e _ s1]) (auto simp: s1_def)
qed

lemma insert_head_ok:
  assumes "tailq s h xs" "El e \<in> dom s" "e \<notin> set xs"
  shows "implements s (QTAILQ_INSERT_HEAD s h e) h (e # xs) (refs h (e # xs))"
proof -
  have q: "tailq s h ([] @ xs)" using assms(1) by simp
  note d = in_dom [OF q]
  define s1 where "s1 = upd_prev (upd_next (upd_prev (upd_next s (El e) (nx s (Hd h))) (succ h xs) (Some (El e)))
    (Hd h) (Some e)) (El e) (Some (Hd h))"
  have "QTAILQ_INSERT_HEAD s h e = Some s1"
    using d assms(2) tailq_split(1) [OF q] by (cases xs) (simp_all add: QTAILQ_INSERT_HEAD_def access_simps s1_def)
  moreover have "dom s1 = dom s" using d assms(2) by (auto simp: s1_def)
  ultimately show ?thesis
    using assms link_implements [OF q, of e _ s1] by (auto simp: s1_def fun_eq_iff)
qed

lemma insert_after_ok:
  assumes "tailq s h (ys @ l # zs)" "El e \<in> dom s" "e \<notin> set (ys @ l # zs)"
  shows "implements s (QTAILQ_INSERT_AFTER s h l e) h (ys @ l # e # zs) (refs h (ys @ l # e # zs))"
proof -
  have q: "tailq s h ((ys @ [l]) @ zs)" using assms(1) by simp
  note d = in_dom [OF q]
  define s1 where "s1 = upd_prev (upd_next (upd_prev (upd_next s (El e) (nx s (El l))) (succ h zs) (Some (El e)))
    (El l) (Some e)) (El e) (Some (El l))"
  have "QTAILQ_INSERT_AFTER s h l e = Some s1"
    using d assms(2) tailq_split(1) [OF q] by (cases zs) (simp_all add: QTAILQ_INSERT_AFTER_def access_simps s1_def)
  moreover have "dom s1 = dom s" using d assms(2) by (auto simp: s1_def)
  ultimately show ?thesis
    using assms link_implements [OF q, of e _ s1] by (auto simp: s1_def fun_eq_iff)
qed

lemma insert_before_ok:
  assumes "tailq s h (ys @ l # zs)" "El e \<in> dom s" "e \<notin> set (ys @ l # zs)"
  shows "implements s (QTAILQ_INSERT_BEFORE s l e) h (ys @ e # l # zs) (refs h (ys @ e # l # zs))"
proof -
  note q = assms(1)
  note d = in_dom [OF q]
  have ne: "endp (Hd h) ys \<noteq> El e" "l \<noteq> e" using assms(3) endp_mem [of h ys] by auto
  define s1 where "s1 = upd_prev (upd_next (upd_next (upd_prev s (El e) (Some (endp (Hd h) ys))) (El e) (Some l))
    (endp (Hd h) ys) (Some e)) (El l) (Some (El e))"
  have "QTAILQ_INSERT_BEFORE s l e = Some s1"
    using d assms(2) ne tailq_split(2) [OF q] by (simp add: QTAILQ_INSERT_BEFORE_def access_simps s1_def)
  moreover have "dom s1 = dom s" using d assms(2) by (auto simp: s1_def)
  ultimately show ?thesis
    using tailq_split(1) [OF q] ne assms by (intro link_implements [OF q, of e _ s1]) (auto simp: s1_def)
qed

lemma remove_several_ok:
  assumes "tailq s h (ys @ ms @ zs)" "ms \<noteq> []"
  shows "implements s (QTAILQ_REMOVE_SEVERAL s h (ms ! 0) (last ms)) h (ys @ zs) (insert (endp (Hd h) ys) {succ h zs})"
proof -
  have q: "tailq s h ((ys @ ms) @ zs)" using assms(1) by simp
  obtain m ms' where ms: "ms = m # ms'" using assms(2) by (cases ms) auto
  have r: "El (last ms) = endp (Hd h) (ys @ ms)" using assms(2) by (simp add: endp_def)
  note d = in_dom [OF q] in_dom [OF assms(1)]
  have D: "distinct (ys @ ms @ zs)" using assms(1) by (simp add: tailq_def)
  have pm: "pv s (El m) = Some (endp (Hd h) ys)" using tailq_split(2) [OF assms(1)] ms by simp
  have ne: "succ h zs \<noteq> El m" using D ms succ_mem [of h zs] by auto
  define s1 where "s1 = upd_next (upd_prev s (succ h zs) (Some (endp (Hd h) ys))) (endp (Hd h) ys) (nx s (El (last ms)))"
  have "QTAILQ_REMOVE_SEVERAL s h (ms ! 0) (last ms) = Some s1"
    using d pm ne tailq_split(1) [OF q] ms unfolding r [symmetric]
    by (cases zs) (simp_all add: QTAILQ_REMOVE_SEVERAL_def access_simps s1_def del: last.simps)
  moreover have "dom s1 = dom s" using d by (auto simp: s1_def)
  moreover have "tailq s1 h (ys @ zs)"
    using \<open>dom s1 = dom s\<close> by (intro cut_ok [OF assms(1)]) (auto simp: s1_def r)
  moreover have "only_changes s s1 (insert (endp (Hd h) ys) {succ h zs})"
    using \<open>dom s1 = dom s\<close> by (intro only_changesI) (auto simp: s1_def)
  ultimately show ?thesis by (auto simp: implements_def)
qed

text \<open>A removed element is marked as not in use.\<close>

lemma remove_ok:
  assumes "tailq s h (ys @ e # zs)"
  shows "implements s (QTAILQ_REMOVE s h e) h (ys @ zs) (refs h (ys @ e # zs))"
    "QTAILQ_REMOVE s h e = Some s' \<Longrightarrow> pv s' (El e) = None"
proof -
  have q: "tailq s h ((ys @ [e]) @ zs)" "tailq s h (ys @ [e] @ zs)" using assms by simp_all
  note d = in_dom [OF q(1)] in_dom [OF assms]
  have D: "distinct (ys @ e # zs)" using assms by (simp add: tailq_def)
  have pe: "pv s (El e) = Some (endp (Hd h) ys)" using tailq_split(2) [OF assms] by simp
  have ne: "succ h zs \<noteq> El e" "endp (Hd h) ys \<noteq> El e" using D succ_mem [of h zs] endp_mem [of h ys] by auto
  define s1 where "s1 = upd_next (upd_prev (upd_next (upd_prev s (succ h zs) (Some (endp (Hd h) ys))) (endp (Hd h) ys) (nx s (El e)))
    (El e) None) (El e) None"
  have run: "QTAILQ_REMOVE s h e = Some s1"
    using d pe ne tailq_split(1) [OF q(1)] by (cases zs) (simp_all add: QTAILQ_REMOVE_def access_simps s1_def)
  have "dom s1 = dom s" using d by (auto simp: s1_def)
  moreover from this have "tailq s1 h (ys @ zs)"
    using ne by (intro cut_ok [OF q(2)]) (auto simp: s1_def)
  moreover from calculation(1) have "only_changes s s1 (refs h (ys @ e # zs))"
    using endp_mem [of h ys] succ_mem [of h zs] by (intro only_changesI) (auto simp: s1_def)
  ultimately show "implements s (QTAILQ_REMOVE s h e) h (ys @ zs) (refs h (ys @ e # zs))"
    using run by (auto simp: implements_def)
  show "pv s' (El e) = None" if "QTAILQ_REMOVE s h e = Some s'" using that run by (auto simp: s1_def)
qed

end
