(* ===== verification/Tailq_Props.thy ===== *)
theory Tailq_Props
  imports Tailq
begin

text \<open>
  The tail queues of \<open>qemu-compat/queue.h\<close> refine lists: any sequence of operations on any number of queues
  computes the lists that the rest of the development uses in their place.
\<close>

subsection \<open>Walking through a queue\<close>

lemma foreach_ok:
  assumes "seg s p xs" "nx s (endp p xs) = None" "El ` set xs \<subseteq> dom s"
  shows "foreach_from (QTAILQ_NEXT s) (length xs) (nx s p) = Some (Some xs)"
  using assms
proof (induction xs arbitrary: p)
  case (Cons x xs)
  have "foreach_from (QTAILQ_NEXT s) (length xs) (nx s (El x)) = Some (Some xs)" using Cons.prems by (intro Cons.IH) auto
  moreover have "QTAILQ_NEXT s x = Some (nx s (El x))" using Cons.prems by (simp add: QTAILQ_NEXT_def access_simps)
  ultimately show ?case using Cons.prems by simp
qed simp

lemma link_prev_ok:
  assumes "tailq s h (ys @ zs)"
  shows "QTAILQ_LINK_PREV s (succ h zs) = Some (if ys = [] then None else Some (last ys))"
proof -
  note d = in_dom [OF assms]
  show ?thesis
  proof (cases ys rule: rev_cases)
    case Nil
    have q: "tailq s h zs" using assms Nil by simp
    then have e: "endp (Hd h) zs \<in> dom s" using endp_mem [of h zs] by (auto simp: tailq_def)
    show ?thesis
      using q d e tailq_split(2) [OF assms] Nil by (simp add: QTAILQ_LINK_PREV_def access_simps tailq_def)
  next
    case (snoc ys' y)
    have q: "tailq s h (ys' @ y # zs)" using assms snoc by simp
    show ?thesis
      using d in_dom [OF q] tailq_split(2) [OF assms] tailq_split(1,2) [OF q] snoc
      by (simp add: QTAILQ_LINK_PREV_def access_simps)
  qed
qed

lemma foreach_reverse_ok:
  "tailq s h (ys @ zs) \<Longrightarrow>
   foreach_from (QTAILQ_PREV s) (length ys) (if ys = [] then None else Some (last ys)) = Some (Some (rev ys))"
proof (induction ys arbitrary: zs rule: rev_induct)
  case (snoc y ys)
  have q: "tailq s h (ys @ y # zs)" using snoc.prems by simp
  then have "QTAILQ_PREV s y = Some (if ys = [] then None else Some (last ys))"
    using link_prev_ok [OF q] by (simp add: QTAILQ_PREV_def)
  then show ?case using snoc.IH [OF q] by simp
qed simp

subsection \<open>Sequences of operations\<close>

datatype tq_op =
    Op_init nat
  | Op_insert_head nat nat
  | Op_insert_tail nat nat
  | Op_insert_after nat nat nat
  | Op_insert_before nat nat nat
  | Op_remove nat nat

primrec tq_do :: "tq_op \<Rightarrow> links \<Rightarrow> links option" where
  "tq_do (Op_init h) s = QTAILQ_INIT s h"
| "tq_do (Op_insert_head h e) s = QTAILQ_INSERT_HEAD s h e"
| "tq_do (Op_insert_tail h e) s = QTAILQ_INSERT_TAIL s h e"
| "tq_do (Op_insert_after h l e) s = QTAILQ_INSERT_AFTER s h l e"
| "tq_do (Op_insert_before h l e) s = QTAILQ_INSERT_BEFORE s l e"
| "tq_do (Op_remove h e) s = QTAILQ_REMOVE s h e"

primrec tq_run :: "tq_op list \<Rightarrow> links \<Rightarrow> links option" where
  "tq_run [] s = Some s"
| "tq_run (x # xs) s = tq_do x s \<bind> tq_run xs"

text \<open>The head and the new element of an operation are links in memory.\<close>

primrec tq_allocated :: "links \<Rightarrow> tq_op \<Rightarrow> bool" where
  "tq_allocated s (Op_init h) \<longleftrightarrow> Hd h \<in> dom s"
| "tq_allocated s (Op_insert_head h e) \<longleftrightarrow> El e \<in> dom s"
| "tq_allocated s (Op_insert_tail h e) \<longleftrightarrow> El e \<in> dom s"
| "tq_allocated s (Op_insert_after h l e) \<longleftrightarrow> El e \<in> dom s"
| "tq_allocated s (Op_insert_before h l e) \<longleftrightarrow> El e \<in> dom s"
| "tq_allocated s (Op_remove h e) \<longleftrightarrow> True"

text \<open>The queues as lists, and what an operation may be applied to: a new element is in no queue, a removed one in the
  queue it is removed from.\<close>

type_synonym queues = "nat \<rightharpoonup> nat list"

definition fresh :: "queues \<Rightarrow> nat \<Rightarrow> bool" where "fresh Q e \<longleftrightarrow> (\<forall>h xs. Q h = Some xs \<longrightarrow> e \<notin> set xs)"

inductive tq_spec :: "tq_op \<Rightarrow> queues \<Rightarrow> queues \<Rightarrow> bool" where
  init: "Q h = None \<Longrightarrow> tq_spec (Op_init h) Q (Q(h \<mapsto> []))"
| insert_head: "Q h = Some xs \<Longrightarrow> fresh Q e \<Longrightarrow> tq_spec (Op_insert_head h e) Q (Q(h \<mapsto> e # xs))"
| insert_tail: "Q h = Some xs \<Longrightarrow> fresh Q e \<Longrightarrow> tq_spec (Op_insert_tail h e) Q (Q(h \<mapsto> xs @ [e]))"
| insert_after: "Q h = Some (ys @ l # zs) \<Longrightarrow> fresh Q e \<Longrightarrow> tq_spec (Op_insert_after h l e) Q (Q(h \<mapsto> ys @ l # e # zs))"
| insert_before: "Q h = Some (ys @ l # zs) \<Longrightarrow> fresh Q e \<Longrightarrow> tq_spec (Op_insert_before h l e) Q (Q(h \<mapsto> ys @ e # l # zs))"
| remove: "Q h = Some (ys @ e # zs) \<Longrightarrow> tq_spec (Op_remove h e) Q (Q(h \<mapsto> ys @ zs))"

inductive tq_specs :: "tq_op list \<Rightarrow> queues \<Rightarrow> queues \<Rightarrow> bool" where
  stop: "tq_specs [] Q Q"
| step: "tq_spec x Q Q1 \<Longrightarrow> tq_specs xs Q1 Q2 \<Longrightarrow> tq_specs (x # xs) Q Q2"

text \<open>A store that holds a family of disjoint queues, in which exactly their elements are in use.\<close>

definition tailqs :: "links \<Rightarrow> queues \<Rightarrow> bool" where
  "tailqs s Q \<longleftrightarrow> (\<forall>h xs. Q h = Some xs \<longrightarrow> tailq s h xs) \<and>
     (\<forall>h h' xs xs'. Q h = Some xs \<longrightarrow> Q h' = Some xs' \<longrightarrow> h \<noteq> h' \<longrightarrow> set xs \<inter> set xs' = {}) \<and>
     (\<forall>e. El e \<in> dom s \<longrightarrow> (pv s (El e) \<noteq> None) = (\<not> fresh Q e))"

lemma tailqs_step:
  assumes q: "tailqs s Q" and impl: "implements s r h xs' (refs h ws)"
    and others: "\<And>h' ys. h' \<noteq> h \<Longrightarrow> Q h' = Some ys \<Longrightarrow> set ws \<inter> set ys = {}"
    and old: "\<And>xs. Q h = Some xs \<Longrightarrow> set xs \<subseteq> set ws" and new: "set xs' \<subseteq> set ws"
    and gone: "\<And>s' e. r = Some s' \<Longrightarrow> e \<in> set ws \<Longrightarrow> e \<notin> set xs' \<Longrightarrow> pv s' (El e) = None"
  shows "\<exists>s'. r = Some s' \<and> tailqs s' (Q(h \<mapsto> xs')) \<and> dom s' = dom s"
proof -
  obtain s' where s': "r = Some s'" "tailq s' h xs'" "dom s' = dom s" "\<And>x. x \<notin> refs h ws \<Longrightarrow> s' x = s x"
    using impl by (auto simp: implements_def only_changes_def)
  have "tailq s' h' ys" if "h' \<noteq> h" "Q h' = Some ys" for h' ys
  proof -
    have "tailq s h' ys" using q that by (auto simp: tailqs_def)
    moreover have "tailq s' h' ys = tailq s h' ys" using others [OF that] that(1) by (intro tailq_frame s'(4)) auto
    ultimately show ?thesis by simp
  qed
  moreover have "(pv s' (El e) \<noteq> None) = (\<not> fresh (Q(h \<mapsto> xs')) e)" if e: "El e \<in> dom s'" for e
  proof -
    consider (inside) "e \<in> set xs'" | (removed) "e \<in> set ws" "e \<notin> set xs'" | (outside) "e \<notin> set ws" by blast
    then show ?thesis
    proof cases
      case inside
      then have "pv s' (El e) \<noteq> None" using s'(2) seg_in_use by (auto simp: tailq_def)
      then show ?thesis using inside by (auto simp: fresh_def)
    next
      case removed
      then have "fresh (Q(h \<mapsto> xs')) e" using others by (auto simp: fresh_def)
      then show ?thesis using gone [OF s'(1)] removed by simp
    next
      case outside
      then have "e \<notin> set xs'" "\<And>xs. Q h = Some xs \<Longrightarrow> e \<notin> set xs" using old new by blast+
      then have "fresh (Q(h \<mapsto> xs')) e = fresh Q e" unfolding fresh_def by (metis fun_upd_apply option.inject)
      moreover have "pv s' (El e) = pv s (El e)" using s'(4) [of "El e"] outside by (auto simp: pv_def image_iff)
      ultimately show ?thesis using q e s'(3) by (simp add: tailqs_def)
    qed
  qed
  moreover have "set ys \<inter> set xs' = {}" if "h' \<noteq> h" "Q h' = Some ys" for h' ys using others [OF that] new by blast
  ultimately have "tailqs s' (Q(h \<mapsto> xs'))"
    using q s'(2) unfolding tailqs_def by (auto split: if_splits) blast+
  then show ?thesis using s'(1,3) by blast
qed

lemma tq_do_ok:
  assumes "tq_spec x Q Q'" "tailqs s Q" "tq_allocated s x"
  shows "\<exists>s'. tq_do x s = Some s' \<and> tailqs s' Q' \<and> dom s' = dom s"
proof -
  have t: "tailq s h xs" if "Q h = Some xs" for h xs using assms(2) that by (simp add: tailqs_def)
  have disj: "set xs \<inter> set ys = {}" if "Q h = Some xs" "h' \<noteq> h" "Q h' = Some ys" for h h' xs ys
    using assms(2) that unfolding tailqs_def by metis
  have f: "e \<notin> set ys" if "fresh Q e" "Q h = Some ys" for e h ys using that by (simp add: fresh_def)
  show ?thesis
    using assms(1)
  proof cases
    case (init h)
    then show ?thesis
      using tailqs_step [OF assms(2) init_ok [of h s], of] assms(3) by simp
  next
    case (insert_head h xs e)
    then show ?thesis
      using tailqs_step [OF assms(2) insert_head_ok [OF t [OF insert_head(3)] _ f [OF insert_head(4,3)]]] insert_head assms(3)
        disj [OF insert_head(3)] f
      by auto
  next
    case (insert_tail h xs e)
    show ?thesis
      using tailqs_step [OF assms(2) insert_tail_ok [OF t [OF insert_tail(3)] _ f [OF insert_tail(4,3)]]] insert_tail assms(3)
        disj [OF insert_tail(3)] f
      by auto
  next
    case (insert_after h ys l zs e)
    show ?thesis
      using tailqs_step [OF assms(2) insert_after_ok [OF t [OF insert_after(3)] _ f [OF insert_after(4,3)]]] insert_after assms(3)
        disj [OF insert_after(3)] f
      by auto
  next
    case (insert_before h ys l zs e)
    show ?thesis
      using tailqs_step [OF assms(2) insert_before_ok [OF t [OF insert_before(3)] _ f [OF insert_before(4,3)]]] insert_before assms(3)
        disj [OF insert_before(3)] f
      by auto
  next
    case (remove h ys e zs)
    show ?thesis
      using tailqs_step [OF assms(2) remove_ok(1) [OF t [OF remove(3)]]] remove remove_ok(2) [OF t [OF remove(3)]]
        disj [OF remove(3)]
      by auto
  qed
qed

lemma tq_run_ok:
  assumes "tq_specs xs Q Q'" "tailqs s Q" "\<forall>x \<in> set xs. tq_allocated s x"
  shows "\<exists>s'. tq_run xs s = Some s' \<and> tailqs s' Q' \<and> dom s' = dom s"
  using assms
proof (induction arbitrary: s rule: tq_specs.induct)
  case (step x Q Q1 xs Q2)
  obtain s1 where s1: "tq_do x s = Some s1" "tailqs s1 Q1" "dom s1 = dom s"
    using tq_do_ok [OF step.hyps(1) step.prems(1)] step.prems(2) by auto
  have "tq_allocated s1 y = tq_allocated s y" for y using s1(3) by (cases y) simp_all
  then show ?case using step.IH [OF s1(2)] step.prems(2) s1 by auto
qed auto

text \<open>C18: Tail queues implement lists: any sequence of initialisations, insertions and removals that puts only new elements
  into queues and removes elements from their own queue succeeds, and afterwards every queue holds, forwards and
  backwards, exactly the list that the same operations on lists give; an element is marked as in use exactly when
  it is in a queue.\<close>

theorem tailq_refines_lists:
  assumes "tq_specs ops Q Q'" "tailqs s Q" "\<forall>x \<in> set ops. tq_allocated s x"
  shows "\<exists>s'. tq_run ops s = Some s' \<and> tailqs s' Q' \<and>
    (\<forall>h xs. Q' h = Some xs \<longrightarrow>
       QTAILQ_FOREACH s' h (length xs) = Some (Some xs) \<and> QTAILQ_FOREACH_REVERSE s' h (length xs) = Some (Some (rev xs)) \<and>
       QTAILQ_EMPTY s' h = Some (xs = [])) \<and>
    (\<forall>e. El e \<in> dom s \<longrightarrow> QTAILQ_IN_USE s' e = Some (\<not> fresh Q' e))"
proof -
  obtain s' where s': "tq_run ops s = Some s'" "tailqs s' Q'" "dom s' = dom s" using tq_run_ok [OF assms] by blast
  have "QTAILQ_FOREACH s' h (length xs) = Some (Some xs) \<and> QTAILQ_FOREACH_REVERSE s' h (length xs) = Some (Some (rev xs)) \<and>
      QTAILQ_EMPTY s' h = Some (xs = [])" if "Q' h = Some xs" for h xs
  proof -
    have q: "tailq s' h (xs @ [])" "tailq s' h ([] @ xs)" using s'(2) that by (simp_all add: tailqs_def)
    have "QTAILQ_FOREACH s' h (length xs) = Some (Some xs)"
      using foreach_ok [of s' "Hd h" xs] q(1) by (simp add: QTAILQ_FOREACH_def QTAILQ_FIRST_def access_simps tailq_def)
    moreover have "QTAILQ_FOREACH_REVERSE s' h (length xs) = Some (Some (rev xs))"
      using foreach_reverse_ok [OF q(1)] link_prev_ok [OF q(1)] by (simp add: QTAILQ_FOREACH_REVERSE_def QTAILQ_LAST_def)
    moreover have "QTAILQ_EMPTY s' h = Some (xs = [])"
      using tailq_split(1) [OF q(2)] in_dom(1) [OF q(2)] by (cases xs) (simp_all add: QTAILQ_EMPTY_def access_simps)
    ultimately show ?thesis by blast
  qed
  moreover have "QTAILQ_IN_USE s' e = Some (\<not> fresh Q' e)" if "El e \<in> dom s" for e
    using s'(2,3) that by (simp add: QTAILQ_IN_USE_def access_simps tailqs_def)
  ultimately show ?thesis using s' by blast
qed

text \<open>Two queues and three elements in zeroed memory; one element moves from the first queue to the second.\<close>

definition ex_tq_memory :: links where
  "ex_tq_memory =
     map_of (map (\<lambda>r. (r, \<lparr>tql_next = None, tql_prev = None\<rparr>)) [Hd 0, Hd 1, El 5, El 6, El 7])"

definition ex_tq_ops :: "tq_op list" where
  "ex_tq_ops = [Op_init 0, Op_init 1, Op_insert_tail 0 5, Op_insert_tail 0 6, Op_insert_head 0 7, Op_remove 0 5, Op_insert_tail 1 5]"

theorem tailq_refines_lists_witness:
  "\<exists>s'. tq_run ex_tq_ops ex_tq_memory = Some s' \<and> QTAILQ_FOREACH s' 0 2 = Some (Some [7, 6]) \<and>
     QTAILQ_FOREACH_REVERSE s' 0 2 = Some (Some [6, 7]) \<and> QTAILQ_FOREACH s' 1 1 = Some (Some [5])"
proof -
  define Q1 :: queues where "Q1 = Map.empty(0 \<mapsto> [])"
  define Q2 where "Q2 = Q1(1 \<mapsto> [])"
  define Q3 where "Q3 = Q2(0 \<mapsto> [] @ [5])"
  define Q4 where "Q4 = Q3(0 \<mapsto> [5] @ [6])"
  define Q5 where "Q5 = Q4(0 \<mapsto> 7 # [5, 6])"
  define Q6 where "Q6 = Q5(0 \<mapsto> [7] @ [6])"
  define Q7 where "Q7 = Q6(1 \<mapsto> [] @ [5])"
  note Qs = Q1_def Q2_def Q3_def Q4_def Q5_def Q6_def Q7_def
  have "tq_spec (Op_init 0) Map.empty Q1" "tq_spec (Op_init 1) Q1 Q2"
    unfolding Q1_def Q2_def by (rule tq_spec.init; simp)+
  moreover have "tq_spec (Op_insert_tail 0 5) Q2 Q3"
    unfolding Q3_def by (rule tq_spec.insert_tail) (simp_all add: Qs fresh_def)
  moreover have "tq_spec (Op_insert_tail 0 6) Q3 Q4"
    unfolding Q4_def by (rule tq_spec.insert_tail) (simp_all add: Qs fresh_def)
  moreover have "tq_spec (Op_insert_head 0 7) Q4 Q5"
    unfolding Q5_def by (rule tq_spec.insert_head) (simp_all add: Qs fresh_def)
  moreover have "tq_spec (Op_remove 0 5) Q5 Q6"
    unfolding Q6_def by (rule tq_spec.remove) (simp add: Qs)
  moreover have "tq_spec (Op_insert_tail 1 5) Q6 Q7"
    unfolding Q7_def by (rule tq_spec.insert_tail) (simp_all add: Qs fresh_def)
  ultimately have "tq_specs ex_tq_ops Map.empty Q7"
    unfolding ex_tq_ops_def by (blast intro: tq_specs.intros)
  moreover have "Q7 0 = Some [7, 6]" "Q7 1 = Some [5]" by (simp_all add: Qs)
  ultimately obtain Q' where Q': "tq_specs ex_tq_ops Map.empty Q'" "Q' 0 = Some [7, 6]" "Q' 1 = Some [5]" by blast
  have "tailqs ex_tq_memory Map.empty" by (auto simp: tailqs_def fresh_def ex_tq_memory_def pv_def)
  moreover have "\<forall>x \<in> set ex_tq_ops. tq_allocated ex_tq_memory x" by (auto simp: ex_tq_ops_def ex_tq_memory_def)
  ultimately obtain s' where run: "tq_run ex_tq_ops ex_tq_memory = Some s'" and
    walk: "\<And>h xs. Q' h = Some xs \<Longrightarrow> QTAILQ_FOREACH s' h (length xs) = Some (Some xs) \<and>
      QTAILQ_FOREACH_REVERSE s' h (length xs) = Some (Some (rev xs))"
    using tailq_refines_lists [OF Q'(1)] by blast
  show ?thesis using run walk [OF Q'(2)] walk [OF Q'(3)] by (simp add: eval_nat_numeral)
qed

end
