(* ===== verification/Bitmap_Ops.thy ===== *)
theory Bitmap_Ops
  imports Bitmap
begin

text \<open>
  The rest of \<open>qemu-compat/bitmap.c\<close>, \<open>bitmap.h\<close> and \<open>bitops.c\<close>: predicates on whole bitmaps, boolean operations,
  counting, the variants with atomic words, copies at an offset, and the searches for a clear bit, for the last set bit
  and for a clear area.  The atomic operations are whole steps on a word.  Lengths are natural numbers; the destination
  of an operation is an array of its own, or one of its sources.  On the little-endian target \<open>bitmap_to_le\<close> and
  \<open>bitmap_from_le\<close> copy words.
\<close>

subsection \<open>Predicates\<close>

text \<open>A loop over the whole words that stops at the first word that is not as wanted, and the last, partial word.\<close>

primrec word_scan :: "(nat \<Rightarrow> bool option) \<Rightarrow> nat list \<Rightarrow> bool option" where
  "word_scan wanted [] = Some True"
| "word_scan wanted (k # ks) = wanted k \<bind> (\<lambda>b. if b then word_scan wanted ks else Some False)"

definition scan_bitmap :: "(nat \<Rightarrow> bool option) \<Rightarrow> (nat \<Rightarrow> bool option) \<Rightarrow> nat \<Rightarrow> bool option" where
  "scan_bitmap wanted last_wanted bits =
     word_scan wanted [0..<bits div 64] \<bind> (\<lambda>b.
       if \<not> b then Some False else if bits mod 64 \<noteq> 0 then last_wanted (bits div 64) else Some True)"

definition slow_bitmap_empty :: "bitmap \<Rightarrow> nat \<Rightarrow> bool option" where
  "slow_bitmap_empty bm bits =
     scan_bitmap (\<lambda>k. map_option (\<lambda>w. w = 0) (bm_read bm k))
       (\<lambda>k. map_option (\<lambda>w. w AND BITMAP_LAST_WORD_MASK bits = 0) (bm_read bm k)) bits"

definition slow_bitmap_full :: "bitmap \<Rightarrow> nat \<Rightarrow> bool option" where
  "slow_bitmap_full bm bits =
     scan_bitmap (\<lambda>k. map_option (\<lambda>w. NOT w = 0) (bm_read bm k))
       (\<lambda>k. map_option (\<lambda>w. NOT w AND BITMAP_LAST_WORD_MASK bits = 0) (bm_read bm k)) bits"

definition slow_bitmap_equal :: "bitmap \<Rightarrow> bitmap \<Rightarrow> nat \<Rightarrow> bool option" where
  "slow_bitmap_equal bm1 bm2 bits =
     scan_bitmap (\<lambda>k. do { v \<leftarrow> bm_read bm1 k; w \<leftarrow> bm_read bm2 k; Some (v = w) })
       (\<lambda>k. do { v \<leftarrow> bm_read bm1 k; w \<leftarrow> bm_read bm2 k; Some ((v XOR w) AND BITMAP_LAST_WORD_MASK bits = 0) }) bits"

definition slow_bitmap_intersects :: "bitmap \<Rightarrow> bitmap \<Rightarrow> nat \<Rightarrow> bool option" where
  "slow_bitmap_intersects bm1 bm2 bits =
     map_option Not (scan_bitmap (\<lambda>k. do { v \<leftarrow> bm_read bm1 k; w \<leftarrow> bm_read bm2 k; Some (v AND w = 0) })
       (\<lambda>k. do { v \<leftarrow> bm_read bm1 k; w \<leftarrow> bm_read bm2 k; Some ((v AND w) AND BITMAP_LAST_WORD_MASK bits = 0) }) bits)"

definition ctpop64 :: "u64 \<Rightarrow> nat" where "ctpop64 w = length (filter (bit w) [0..<64])"

primrec count_words :: "bitmap \<Rightarrow> nat list \<Rightarrow> nat \<Rightarrow> nat option" where
  "count_words bm [] result = Some result"
| "count_words bm (k # ks) result = bm_read bm k \<bind> (\<lambda>w. count_words bm ks (result + ctpop64 w))"

definition slow_bitmap_count_one :: "bitmap \<Rightarrow> nat \<Rightarrow> nat option" where
  "slow_bitmap_count_one bm nbits =
     do {
       result \<leftarrow> count_words bm [0..<nbits div 64] 0;
       if nbits mod 64 \<noteq> 0
       then map_option (\<lambda>w. result + ctpop64 (w AND BITMAP_LAST_WORD_MASK nbits)) (bm_read bm (nbits div 64))
       else Some result
     }"

subsection \<open>Boolean operations\<close>

text \<open>A loop that stores a word computed from the words of the sources.\<close>

primrec put_words :: "(nat \<Rightarrow> u64 option) \<Rightarrow> nat list \<Rightarrow> bitmap \<Rightarrow> bitmap option" where
  "put_words f [] dst = Some dst"
| "put_words f (k # ks) dst = do { w \<leftarrow> f k; dst \<leftarrow> bm_modify dst k (\<lambda>_. w); put_words f ks dst }"

definition both :: "(u64 \<Rightarrow> u64 \<Rightarrow> u64) \<Rightarrow> bitmap \<Rightarrow> bitmap \<Rightarrow> nat \<Rightarrow> u64 option" where
  "both f bm1 bm2 k = do { v \<leftarrow> bm_read bm1 k; w \<leftarrow> bm_read bm2 k; Some (f v w) }"

definition slow_bitmap_complement :: "bitmap \<Rightarrow> bitmap \<Rightarrow> nat \<Rightarrow> bitmap option" where
  "slow_bitmap_complement dst src bits =
     do {
       dst \<leftarrow> put_words (\<lambda>k. map_option (NOT) (bm_read src k)) [0..<bits div 64] dst;
       if bits mod 64 \<noteq> 0
       then do {
         w \<leftarrow> bm_read src (bits div 64);
         bm_modify dst (bits div 64) (\<lambda>_. NOT w AND BITMAP_LAST_WORD_MASK bits)
       }
       else Some dst
     }"

text \<open>Whether a bit of the words of the result is set.\<close>

definition any_word :: "bitmap \<Rightarrow> nat \<Rightarrow> bool" where
  "any_word dst nr \<longleftrightarrow> fold (\<lambda>w result. result OR w) (take nr dst) 0 \<noteq> 0"

definition slow_bitmap_and :: "bitmap \<Rightarrow> bitmap \<Rightarrow> bitmap \<Rightarrow> nat \<Rightarrow> (bool \<times> bitmap) option" where
  "slow_bitmap_and dst bm1 bm2 bits =
     map_option (\<lambda>dst. (any_word dst (BITS_TO_LONGS bits), dst)) (put_words (both (AND) bm1 bm2) [0..<BITS_TO_LONGS bits] dst)"

definition slow_bitmap_or :: "bitmap \<Rightarrow> bitmap \<Rightarrow> bitmap \<Rightarrow> nat \<Rightarrow> bitmap option" where
  "slow_bitmap_or dst bm1 bm2 bits = put_words (both (OR) bm1 bm2) [0..<BITS_TO_LONGS bits] dst"

definition slow_bitmap_xor :: "bitmap \<Rightarrow> bitmap \<Rightarrow> bitmap \<Rightarrow> nat \<Rightarrow> bitmap option" where
  "slow_bitmap_xor dst bm1 bm2 bits = put_words (both (XOR) bm1 bm2) [0..<BITS_TO_LONGS bits] dst"

definition slow_bitmap_andnot :: "bitmap \<Rightarrow> bitmap \<Rightarrow> bitmap \<Rightarrow> nat \<Rightarrow> (bool \<times> bitmap) option" where
  "slow_bitmap_andnot dst bm1 bm2 bits =
     map_option (\<lambda>dst. (any_word dst (BITS_TO_LONGS bits), dst))
       (put_words (both (\<lambda>v w. v AND NOT w) bm1 bm2) [0..<BITS_TO_LONGS bits] dst)"

subsection \<open>Small bitmaps\<close>

text \<open>The inline versions treat up to 64 bits as one word, also when there are no bits at all.\<close>

definition small_nbits :: "nat \<Rightarrow> bool" where "small_nbits nbits \<longleftrightarrow> nbits \<le> 64"

definition bitmap_zero :: "bitmap \<Rightarrow> nat \<Rightarrow> bitmap option" where
  "bitmap_zero dst nbits =
     (if small_nbits nbits then bm_modify dst 0 (\<lambda>_. 0)
      else if BITS_TO_LONGS nbits \<le> length dst
      then Some (replicate (BITS_TO_LONGS nbits) 0 @ drop (BITS_TO_LONGS nbits) dst) else None)"

definition bitmap_fill :: "bitmap \<Rightarrow> nat \<Rightarrow> bitmap option" where
  "bitmap_fill dst nbits =
     (let nlongs = BITS_TO_LONGS nbits
      in do {
        dst \<leftarrow> (if \<not> small_nbits nbits
               then if nlongs - 1 \<le> length dst then Some (replicate (nlongs - 1) (- 1) @ drop (nlongs - 1) dst) else None
               else Some dst);
        if nlongs = 0 then None else bm_modify dst (nlongs - 1) (\<lambda>_. BITMAP_LAST_WORD_MASK nbits)
      })"

definition bitmap_copy :: "bitmap \<Rightarrow> bitmap \<Rightarrow> nat \<Rightarrow> bitmap option" where
  "bitmap_copy dst src nbits =
     (if small_nbits nbits then bm_read src 0 \<bind> (\<lambda>w. bm_modify dst 0 (\<lambda>_. w))
      else if BITS_TO_LONGS nbits \<le> length dst \<and> BITS_TO_LONGS nbits \<le> length src
      then Some (take (BITS_TO_LONGS nbits) src @ drop (BITS_TO_LONGS nbits) dst) else None)"

definition bitmap_and :: "bitmap \<Rightarrow> bitmap \<Rightarrow> bitmap \<Rightarrow> nat \<Rightarrow> (bool \<times> bitmap) option" where
  "bitmap_and dst bm1 bm2 nbits =
     (if small_nbits nbits then both (AND) bm1 bm2 0 \<bind> (\<lambda>w. map_option (\<lambda>dst. (w \<noteq> 0, dst)) (bm_modify dst 0 (\<lambda>_. w)))
      else slow_bitmap_and dst bm1 bm2 nbits)"

definition bitmap_or :: "bitmap \<Rightarrow> bitmap \<Rightarrow> bitmap \<Rightarrow> nat \<Rightarrow> bitmap option" where
  "bitmap_or dst bm1 bm2 nbits =
     (if small_nbits nbits then both (OR) bm1 bm2 0 \<bind> (\<lambda>w. bm_modify dst 0 (\<lambda>_. w)) else slow_bitmap_or dst bm1 bm2 nbits)"

definition bitmap_xor :: "bitmap \<Rightarrow> bitmap \<Rightarrow> bitmap \<Rightarrow> nat \<Rightarrow> bitmap option" where
  "bitmap_xor dst bm1 bm2 nbits =
     (if small_nbits nbits then both (XOR) bm1 bm2 0 \<bind> (\<lambda>w. bm_modify dst 0 (\<lambda>_. w)) else slow_bitmap_xor dst bm1 bm2 nbits)"

definition bitmap_andnot :: "bitmap \<Rightarrow> bitmap \<Rightarrow> bitmap \<Rightarrow> nat \<Rightarrow> (bool \<times> bitmap) option" where
  "bitmap_andnot dst bm1 bm2 nbits =
     (if small_nbits nbits
      then both (\<lambda>v w. v AND NOT w) bm1 bm2 0 \<bind> (\<lambda>w. map_option (\<lambda>dst. (w \<noteq> 0, dst)) (bm_modify dst 0 (\<lambda>_. w)))
      else slow_bitmap_andnot dst bm1 bm2 nbits)"

definition bitmap_complement :: "bitmap \<Rightarrow> bitmap \<Rightarrow> nat \<Rightarrow> bitmap option" where
  "bitmap_complement dst src nbits =
     (if small_nbits nbits then bm_read src 0 \<bind> (\<lambda>w. bm_modify dst 0 (\<lambda>_. NOT w AND BITMAP_LAST_WORD_MASK nbits))
      else slow_bitmap_complement dst src nbits)"

definition bitmap_equal :: "bitmap \<Rightarrow> bitmap \<Rightarrow> nat \<Rightarrow> bool option" where
  "bitmap_equal bm1 bm2 nbits =
     (if small_nbits nbits then map_option (\<lambda>w. w AND BITMAP_LAST_WORD_MASK nbits = 0) (both (XOR) bm1 bm2 0)
      else slow_bitmap_equal bm1 bm2 nbits)"

definition bitmap_empty :: "bitmap \<Rightarrow> nat \<Rightarrow> bool option" where
  "bitmap_empty bm nbits =
     (if small_nbits nbits then map_option (\<lambda>w. w AND BITMAP_LAST_WORD_MASK nbits = 0) (bm_read bm 0)
      else slow_bitmap_empty bm nbits)"

definition bitmap_full :: "bitmap \<Rightarrow> nat \<Rightarrow> bool option" where
  "bitmap_full bm nbits =
     (if small_nbits nbits then map_option (\<lambda>w. NOT w AND BITMAP_LAST_WORD_MASK nbits = 0) (bm_read bm 0)
      else slow_bitmap_full bm nbits)"

definition bitmap_intersects :: "bitmap \<Rightarrow> bitmap \<Rightarrow> nat \<Rightarrow> bool option" where
  "bitmap_intersects bm1 bm2 nbits =
     (if small_nbits nbits then map_option (\<lambda>w. w AND BITMAP_LAST_WORD_MASK nbits \<noteq> 0) (both (AND) bm1 bm2 0)
      else slow_bitmap_intersects bm1 bm2 nbits)"

definition bitmap_count_one :: "bitmap \<Rightarrow> nat \<Rightarrow> nat option" where
  "bitmap_count_one bm nbits =
     (if nbits = 0 then Some 0
      else if small_nbits nbits then map_option (\<lambda>w. ctpop64 (w AND BITMAP_LAST_WORD_MASK nbits)) (bm_read bm 0)
      else slow_bitmap_count_one bm nbits)"

definition bitmap_count_one_with_offset :: "bitmap \<Rightarrow> nat \<Rightarrow> nat \<Rightarrow> int option" where
  "bitmap_count_one_with_offset bm offset nbits =
     (let aligned_offset = offset div 64 * 64; redundant_bits = offset - aligned_offset; bits_to_count = nbits + redundant_bits;
          start = drop (aligned_offset div 64) bm
      in do {
        a \<leftarrow> bitmap_count_one start bits_to_count;
        b \<leftarrow> bitmap_count_one start redundant_bits;
        Some (int a - int b)
      })"

subsection \<open>Atomic words\<close>

function set_full_words :: "nat \<Rightarrow> nat \<Rightarrow> bitmap \<Rightarrow> (nat \<times> nat \<times> bitmap) option" where
  "set_full_words p nr bm =
     (if 64 \<le> nr then bm_modify bm p (\<lambda>_. NOT 0) \<bind> set_full_words (p + 1) (nr - 64) else Some (p, nr, bm))"
  by auto
termination by (relation "measure (\<lambda>(p, nr, bm). nr)") auto

definition bitmap_set_atomic :: "bitmap \<Rightarrow> int \<Rightarrow> int \<Rightarrow> bitmap option" where
  "bitmap_set_atomic bm start nr =
     (if start < 0 \<or> nr < 0 then None
      else
        let p = BIT_WORD (nat start); size' = nat start + nat nr; bits_to_set = 64 - nat start mod 64;
            mask_to_set = BITMAP_FIRST_WORD_MASK (nat start); nr = nat nr
        in do {
          (p, nr, bits_to_set, mask_to_set, bm) \<leftarrow>
            (if bits_to_set < nr
             then map_option (\<lambda>bm. (p + 1, nr - bits_to_set, 64, NOT 0, bm)) (bm_modify bm p (\<lambda>w. w OR mask_to_set))
             else Some (p, nr, bits_to_set, mask_to_set, bm));
          (p, nr, bm) \<leftarrow> (if bits_to_set = 64 then set_full_words p nr bm else Some (p, nr, bm));
          if nr \<noteq> 0 then bm_modify bm p (\<lambda>w. w OR (mask_to_set AND BITMAP_LAST_WORD_MASK size')) else Some bm
        })"

text \<open>The bits of the mask that were set are collected in \<open>dirty\<close>.\<close>

definition clear_word :: "u64 \<Rightarrow> nat \<Rightarrow> u64 \<times> bitmap \<Rightarrow> (u64 \<times> bitmap) option" where
  "clear_word msk p = (\<lambda>(dirty, bm).
     do { old \<leftarrow> bm_read bm p; bm \<leftarrow> bm_modify bm p (\<lambda>w. w AND NOT msk); Some (dirty OR (old AND msk), bm) })"

function clear_full_words :: "nat \<Rightarrow> nat \<Rightarrow> u64 \<times> bitmap \<Rightarrow> (nat \<times> nat \<times> u64 \<times> bitmap) option" where
  "clear_full_words p nr s =
     (if 64 \<le> nr then
        bm_read (snd s) p \<bind> (\<lambda>w.
          (if w \<noteq> 0 then map_option (\<lambda>bm. (fst s OR w, bm)) (bm_modify (snd s) p (\<lambda>_. 0)) else Some s)
          \<bind> clear_full_words (p + 1) (nr - 64))
      else Some (p, nr, s))"
  by auto
termination by (relation "measure (\<lambda>(p, nr, s). nr)") auto

definition bitmap_test_and_clear_atomic :: "bitmap \<Rightarrow> int \<Rightarrow> int \<Rightarrow> (bool \<times> bitmap) option" where
  "bitmap_test_and_clear_atomic bm start nr =
     (if start < 0 \<or> nr < 0 then None
      else
        let p = BIT_WORD (nat start); size' = nat start + nat nr; bits_to_clear = 64 - nat start mod 64;
            mask_to_clear = BITMAP_FIRST_WORD_MASK (nat start); nr = nat nr
        in do {
          (p, nr, bits_to_clear, mask_to_clear, s) \<leftarrow>
            (if bits_to_clear < nr
             then map_option (\<lambda>s. (p + 1, nr - bits_to_clear, 64, NOT 0, s)) (clear_word mask_to_clear p (0, bm))
             else Some (p, nr, bits_to_clear, mask_to_clear, 0, bm));
          (p, nr, s) \<leftarrow> (if bits_to_clear = 64 then clear_full_words p nr s else Some (p, nr, s));
          (dirty, bm) \<leftarrow> (if nr \<noteq> 0 then clear_word (mask_to_clear AND BITMAP_LAST_WORD_MASK size') p s else Some s);
          Some (dirty \<noteq> 0, bm)
        })"

function copy_and_clear_loop :: "nat \<Rightarrow> nat \<Rightarrow> bitmap \<times> bitmap \<Rightarrow> (bitmap \<times> bitmap) option" where
  "copy_and_clear_loop p nr s =
     (if 0 < nr then do {
        w \<leftarrow> bm_read (snd s) p;
        src \<leftarrow> bm_modify (snd s) p (\<lambda>_. 0);
        dst \<leftarrow> bm_modify (fst s) p (\<lambda>_. w);
        copy_and_clear_loop (p + 1) (nr - 64) (dst, src)
      }
      else Some s)"
  by auto
termination by (relation "measure (\<lambda>(p, nr, s). nr)") auto

definition bitmap_copy_and_clear_atomic :: "bitmap \<Rightarrow> bitmap \<Rightarrow> nat \<Rightarrow> (bitmap \<times> bitmap) option" where
  "bitmap_copy_and_clear_atomic dst src nr = copy_and_clear_loop 0 nr (dst, src)"

subsection \<open>Copies at an offset\<close>

text \<open>\<open>shift\<close> is between 1 and 63 in both loops, so no shift is undefined.\<close>

function copy_src_loop :: "nat \<Rightarrow> bitmap \<Rightarrow> nat \<Rightarrow> nat \<Rightarrow> nat \<Rightarrow> bitmap \<Rightarrow> bitmap option" where
  "copy_src_loop shift src p q nbits dst =
     (let right_mask = push_bit shift 1 - 1 :: u64; left_mask = NOT right_mask
      in if 64 \<le> nbits then do {
           v \<leftarrow> bm_read src q;
           w \<leftarrow> bm_read src (q + 1);
           dst \<leftarrow> bm_modify dst p (\<lambda>_. drop_bit shift (v AND left_mask) OR push_bit (64 - shift) (w AND right_mask));
           copy_src_loop shift src (p + 1) (q + 1) (nbits - 64) dst
         }
         else if 64 - shift < nbits then do {
           v \<leftarrow> bm_read src q;
           w \<leftarrow> bm_read src (q + 1);
           let last_mask = (push_bit (nbits - (64 - shift)) 1 - 1 :: u64);
           bm_modify dst p (\<lambda>_. drop_bit shift (v AND left_mask) OR push_bit (64 - shift) (w AND last_mask))
         }
         else if nbits \<noteq> 0 then do {
           v \<leftarrow> bm_read src q;
           let last_mask = (push_bit nbits 1 - 1 :: u64);
           bm_modify dst p (\<lambda>_. drop_bit shift v AND last_mask)
         }
         else Some dst)"
  by auto
termination by (relation "measure (\<lambda>(sh, src, p, q, nbits, dst). nbits)") auto

definition bitmap_copy_with_src_offset :: "bitmap \<Rightarrow> bitmap \<Rightarrow> nat \<Rightarrow> nat \<Rightarrow> bitmap option" where
  "bitmap_copy_with_src_offset dst src shift nbits =
     (if shift mod 64 = 0 then bitmap_copy dst (drop (BIT_WORD shift) src) nbits
      else copy_src_loop (shift mod 64) src 0 (BIT_WORD shift) nbits dst)"

function copy_dst_loop :: "nat \<Rightarrow> bitmap \<Rightarrow> nat \<Rightarrow> nat \<Rightarrow> nat \<Rightarrow> bitmap \<Rightarrow> bitmap option" where
  "copy_dst_loop shift src p q nbits dst =
     (let right_mask = push_bit (64 - shift) 1 - 1 :: u64; left_mask = NOT right_mask
      in if 64 \<le> nbits then do {
           w \<leftarrow> bm_read src q;
           dst \<leftarrow> bm_modify dst p (\<lambda>v. v OR push_bit shift (w AND right_mask));
           dst \<leftarrow> bm_modify dst (p + 1) (\<lambda>_. drop_bit (64 - shift) (w AND left_mask));
           copy_dst_loop shift src (p + 1) (q + 1) (nbits - 64) dst
         }
         else if 64 - shift < nbits then do {
           w \<leftarrow> bm_read src q;
           dst \<leftarrow> bm_modify dst p (\<lambda>v. v OR push_bit shift (w AND right_mask));
           let last_mask = push_bit (64 - shift) (push_bit (nbits - (64 - shift)) 1 - 1 :: u64);
           bm_modify dst (p + 1) (\<lambda>_. drop_bit (64 - shift) (w AND last_mask))
         }
         else if nbits \<noteq> 0 then do {
           w \<leftarrow> bm_read src q;
           let last_mask = (push_bit nbits 1 - 1 :: u64);
           bm_modify dst p (\<lambda>v. v OR push_bit shift (w AND last_mask))
         }
         else Some dst)"
  by auto
termination by (relation "measure (\<lambda>(sh, src, p, q, nbits, dst). nbits)") auto

definition bitmap_copy_with_dst_offset :: "bitmap \<Rightarrow> bitmap \<Rightarrow> nat \<Rightarrow> nat \<Rightarrow> bitmap option" where
  "bitmap_copy_with_dst_offset dst src shift nbits =
     (if shift mod 64 = 0 then
        map_option (\<lambda>d. take (BIT_WORD shift) dst @ d) (bitmap_copy (drop (BIT_WORD shift) dst) src nbits)
      else
        bm_modify dst (BIT_WORD shift) (\<lambda>w. w AND (push_bit (shift mod 64) 1 - 1))
        \<bind> copy_dst_loop (shift mod 64) src (BIT_WORD shift) 0 nbits)"

text \<open>The little-endian target copies the words.\<close>

definition bitmap_to_from_le :: "bitmap \<Rightarrow> bitmap \<Rightarrow> nat \<Rightarrow> bitmap option" where
  "bitmap_to_from_le dst src nbits =
     (if BITS_TO_LONGS nbits \<le> length dst \<and> BITS_TO_LONGS nbits \<le> length src
      then Some (take (BITS_TO_LONGS nbits) src @ drop (BITS_TO_LONGS nbits) dst) else None)"

definition bitmap_from_le :: "bitmap \<Rightarrow> bitmap \<Rightarrow> nat \<Rightarrow> bitmap option" where "bitmap_from_le = bitmap_to_from_le"
definition bitmap_to_le :: "bitmap \<Rightarrow> bitmap \<Rightarrow> nat \<Rightarrow> bitmap option" where "bitmap_to_le = bitmap_to_from_le"

subsection \<open>Searches\<close>

definition zero_found_first :: "nat \<Rightarrow> nat \<Rightarrow> u64 \<Rightarrow> nat option" where
  "zero_found_first result size' tmp =
     (let tmp = tmp OR push_bit size' (NOT 0)
      in if tmp = NOT 0 then Some (result + size') else Some (result + ctz64 (NOT tmp)))"

function find_zero_loop :: "bitmap \<Rightarrow> nat \<Rightarrow> nat \<Rightarrow> nat \<Rightarrow> nat option" where
  "find_zero_loop bm p result size' =
     (if 64 \<le> size' then
        bm_read bm p \<bind> (\<lambda>tmp.
          if NOT tmp \<noteq> 0 then Some (result + ctz64 (NOT tmp)) else find_zero_loop bm (p + 1) (result + 64) (size' - 64))
      else if size' = 0 then Some result
      else bm_read bm p \<bind> zero_found_first result size')"
  by auto
termination by (relation "measure (\<lambda>(bm, p, r, s). s)") auto

definition find_next_zero_bit :: "bitmap \<Rightarrow> nat \<Rightarrow> nat \<Rightarrow> nat option" where
  "find_next_zero_bit bm size0 offset0 =
     (let p = BIT_WORD offset0; result = offset0 div 64 * 64; size' = size0 - result; offset = offset0 mod 64
      in if size0 \<le> offset0 then Some size0
         else if offset \<noteq> 0 then
           bm_read bm p \<bind> (\<lambda>w.
             let tmp = w OR drop_bit (64 - offset) (NOT 0)
             in if size' < 64 then zero_found_first result size' tmp
                else if NOT tmp \<noteq> 0 then Some (result + ctz64 (NOT tmp))
                else find_zero_loop bm (p + 1) (result + 64) (size' - 64))
         else find_zero_loop bm p result size')"

text \<open>\<open>63 - clzl(tmp)\<close> is the position of the highest bit.\<close>

definition clz64 :: "u64 \<Rightarrow> nat" where
  "clz64 w = (if w = 0 then 64 else length (takeWhile (\<lambda>i. \<not> bit w (63 - i)) [0..<64]))"

primrec find_last_loop :: "bitmap \<Rightarrow> nat \<Rightarrow> nat \<Rightarrow> nat option" where
  "find_last_loop bm size' 0 = Some size'"
| "find_last_loop bm size' (Suc words) =
     bm_read bm words \<bind> (\<lambda>tmp.
       if tmp \<noteq> 0 then Some (words * 64 + 64 - 1 - clz64 tmp) else find_last_loop bm size' words)"

definition find_last_bit :: "bitmap \<Rightarrow> nat \<Rightarrow> nat option" where
  "find_last_bit bm size' =
     (let words = size' div 64
      in if size' mod 64 \<noteq> 0 then
           bm_read bm words \<bind> (\<lambda>w.
             let tmp = w AND drop_bit (64 - size' mod 64) (NOT 0)
             in if tmp \<noteq> 0 then Some (words * 64 + 64 - 1 - clz64 tmp) else find_last_loop bm size' words)
         else find_last_loop bm size' words)"

text \<open>A clear area: positions are \<open>unsigned long\<close>s here, since the alignment and the end can wrap around.  The inner
  \<open>None\<close> is a search that has used up its rounds.\<close>

definition ALIGN_MASK :: "u64 \<Rightarrow> u64 \<Rightarrow> u64" where "ALIGN_MASK x msk = (x + msk) AND NOT msk"

primrec bitmap_find_next_zero_area :: "nat \<Rightarrow> bitmap \<Rightarrow> u64 \<Rightarrow> u64 \<Rightarrow> u64 \<Rightarrow> u64 \<Rightarrow> u64 option option" where
  "bitmap_find_next_zero_area 0 bm size' start nr align_mask = Some None"
| "bitmap_find_next_zero_area (Suc rounds) bm size' start nr align_mask =
     find_next_zero_bit bm (unat size') (unat start) \<bind> (\<lambda>z.
       let index = ALIGN_MASK (of_nat z) align_mask; end' = index + nr
       in if size' < end' then Some (Some end')
          else find_next_bit bm (unat end') (unat index) \<bind> (\<lambda>i.
            if i < unat end' then bitmap_find_next_zero_area rounds bm size' (of_nat i + 1) nr align_mask
            else Some (Some index)))"

subsection \<open>Single bits and growing bitmaps\<close>

definition BIT_MASK :: "nat \<Rightarrow> u64" where "BIT_MASK nr = push_bit (nr mod 64) 1"

definition set_bit_at :: "nat \<Rightarrow> bitmap \<Rightarrow> bitmap option" where
  "set_bit_at nr bm = bm_modify bm (BIT_WORD nr) (\<lambda>w. w OR BIT_MASK nr)"

definition is_power_of_2 :: "u64 \<Rightarrow> bool" where
  "is_power_of_2 value \<longleftrightarrow> value \<noteq> 0 \<and> value AND (value - 1) = 0"

definition bitmap_try_new :: "nat \<Rightarrow> bitmap" where "bitmap_try_new nbits = replicate (BITS_TO_LONGS nbits) 0"

text \<open>\<open>junk\<close> is the content of the words that \<open>g_realloc\<close> adds.\<close>

definition bitmap_zero_extend :: "(nat \<Rightarrow> u64) \<Rightarrow> bitmap \<Rightarrow> nat \<Rightarrow> nat \<Rightarrow> bitmap option" where
  "bitmap_zero_extend junk old old_nbits new_nbits =
     bitmap_clear (map (\<lambda>k. if k < length old then old ! k else junk k) [0..<BITS_TO_LONGS new_nbits])
       (int old_nbits) (int new_nbits - int old_nbits)"

declare set_full_words.simps [simp del] clear_full_words.simps [simp del] copy_and_clear_loop.simps [simp del]
  copy_src_loop.simps [simp del] copy_dst_loop.simps [simp del] find_zero_loop.simps [simp del]

end
