(* ===== verification/Bitmap_Sets.thy ===== *)
theory Bitmap_Sets
  imports Bitmap_Ops
begin

text \<open>
  The bitmap operations as operations on sets of bit numbers.
\<close>

subsection \<open>Words and their bits\<close>

definition bits_of :: "nat \<Rightarrow> bitmap \<Rightarrow> nat set" where "bits_of n bm = {i. i < n \<and> bm_bit bm i}"

lemma bm_bit_word: "k < length bm \<Longrightarrow> n < 64 \<Longrightarrow> bm_bit bm (64 * k + n) = bit (bm ! k) n"
  by (simp add: bm_bit_def)

lemma word_zero: "(w :: u64) = 0 \<longleftrightarrow> (\<forall>n<64. \<not> bit w n)"
  by (auto simp: bit_eq_iff dest: bit_word_less)

lemma last_word_zero:
  "n mod 64 \<noteq> 0 \<Longrightarrow> w AND BITMAP_LAST_WORD_MASK n = 0 \<longleftrightarrow> (\<forall>i < n mod 64. \<not> bit w i)"
  unfolding word_zero by (auto simp: bit_and_iff bit_last_mask) (meson less_trans mod_less_divisor zero_less_numeral)

lemma in_blocks:
  fixes n :: nat
  shows "(\<forall>i<n. P i) \<longleftrightarrow> (\<forall>k < n div 64. \<forall>j<64. P (64 * k + j)) \<and> (n mod 64 \<noteq> 0 \<longrightarrow> (\<forall>j < n mod 64. P (64 * (n div 64) + j)))"
proof (intro iffI conjI allI impI)
  define q where "q = n div 64"
  define r where "r = n mod 64"
  have n: "n = 64 * q + r" "r < 64" by (simp_all add: q_def r_def)
  show "P (64 * k + j)" if "\<forall>i<n. P i" "k < n div 64" "j < 64" for k j
    using that(2,3) n unfolding q_def [symmetric] by (intro that(1) [rule_format]) linarith
  show "P (64 * (n div 64) + j)" if "\<forall>i<n. P i" "j < n mod 64" for j
    using that(2) n unfolding q_def [symmetric] r_def [symmetric] by (intro that(1) [rule_format]) linarith
  fix i assume a: "(\<forall>k < n div 64. \<forall>j<64. P (64 * k + j)) \<and> (n mod 64 \<noteq> 0 \<longrightarrow> (\<forall>j < n mod 64. P (64 * (n div 64) + j)))" "i < n"
  define k where "k = i div 64"
  define j where "j = i mod 64"
  have i: "i = 64 * k + j" "j < 64" by (simp_all add: k_def j_def)
  show "P i"
  proof (cases "k < q")
    case True
    then show ?thesis using a(1) i by (simp add: q_def)
  next
    case False
    then have "k = q" "j < r" using a(2) i n by linarith+
    then show ?thesis using a(1) i by (simp add: q_def r_def)
  qed
qed

subsection \<open>Predicates\<close>

lemma word_scan_ok: "(\<And>k. k \<in> set ks \<Longrightarrow> wanted k = Some (Q k)) \<Longrightarrow> word_scan wanted ks = Some (\<forall>k \<in> set ks. Q k)"
  by (induction ks) auto

lemma scan_bitmap_ok:
  assumes "\<And>k. k < n div 64 \<Longrightarrow> wanted k = Some (\<forall>j<64. P (64 * k + j))"
    "n mod 64 \<noteq> 0 \<Longrightarrow> last_wanted (n div 64) = Some (\<forall>j < n mod 64. P (64 * (n div 64) + j))"
  shows "scan_bitmap wanted last_wanted n = Some (\<forall>i<n. P i)"
  unfolding in_blocks [of n P] scan_bitmap_def
  using word_scan_ok [of "[0..<n div 64]" wanted "\<lambda>k. \<forall>j<64. P (64 * k + j)"] assms by auto

lemma words_inside:
  fixes n :: nat
  assumes "n \<le> 64 * length bm"
  shows "k < n div 64 \<Longrightarrow> k < length bm" "n mod 64 \<noteq> 0 \<Longrightarrow> n div 64 < length bm"
proof -
  define q where "q = n div 64"
  have n: "n = 64 * q + n mod 64" by (simp add: q_def)
  show "k < length bm" if "k < n div 64" using that n assms unfolding q_def [symmetric] by linarith
  show "n div 64 < length bm" if "n mod 64 \<noteq> 0" using that n assms unfolding q_def [symmetric] by linarith
qed

lemma slow_empty_ok:
  assumes "n \<le> 64 * length bm"
  shows "slow_bitmap_empty bm n = Some (bits_of n bm = {})"
proof -
  have "slow_bitmap_empty bm n = Some (\<forall>i<n. \<not> bm_bit bm i)"
    unfolding slow_bitmap_empty_def using words_inside [OF assms]
    by (intro scan_bitmap_ok) (simp_all add: bm_read_def word_zero [of "bm ! _"] last_word_zero bm_bit_word)
  then show ?thesis by (auto simp: bits_of_def)
qed

lemma slow_full_ok:
  assumes "n \<le> 64 * length bm"
  shows "slow_bitmap_full bm n = Some (bits_of n bm = {..<n})"
proof -
  have "slow_bitmap_full bm n = Some (\<forall>i<n. bm_bit bm i)"
    unfolding slow_bitmap_full_def using words_inside [OF assms]
    by (intro scan_bitmap_ok)
      (auto simp: bm_read_def word_zero [of "NOT _"] last_word_zero bm_bit_word bit_not_iff)
  then show ?thesis by (auto simp: bits_of_def)
qed

lemma slow_equal_ok:
  assumes "n \<le> 64 * length bm1" "n \<le> 64 * length bm2"
  shows "slow_bitmap_equal bm1 bm2 n = Some (bits_of n bm1 = bits_of n bm2)"
proof -
  have eq: "v = w \<longleftrightarrow> (\<forall>j<64. bit v j = bit w j)" for v w :: u64
    unfolding bit_eq_iff by auto
  have "slow_bitmap_equal bm1 bm2 n = Some (\<forall>i<n. bm_bit bm1 i = bm_bit bm2 i)"
    unfolding slow_bitmap_equal_def using words_inside [OF assms(1)] words_inside [OF assms(2)]
    by (intro scan_bitmap_ok) (auto simp: bm_read_def eq [of "bm1 ! _"] last_word_zero bm_bit_word bit_xor_iff)
  then show ?thesis by (auto simp: bits_of_def set_eq_iff)
qed

lemma slow_intersects_ok:
  assumes "n \<le> 64 * length bm1" "n \<le> 64 * length bm2"
  shows "slow_bitmap_intersects bm1 bm2 n = Some (bits_of n bm1 \<inter> bits_of n bm2 \<noteq> {})"
proof -
  have "slow_bitmap_intersects bm1 bm2 n = map_option Not (Some (\<forall>i<n. \<not> (bm_bit bm1 i \<and> bm_bit bm2 i)))"
    unfolding slow_bitmap_intersects_def using words_inside [OF assms(1)] words_inside [OF assms(2)]
    by (intro arg_cong [where f = "map_option Not"] scan_bitmap_ok)
      (auto simp: bm_read_def word_zero [of "bm1 ! _ AND bm2 ! _"] last_word_zero bm_bit_word bit_and_iff)
  then show ?thesis by (auto simp: bits_of_def)
qed

text \<open>Up to 64 bits the inline version does what the loop would do.\<close>

lemma small_cases:
  assumes "0 < n" "n \<le> 64"
  obtains "n div 64 = 0" "n mod 64 = n" "n mod 64 \<noteq> 0" "BITS_TO_LONGS n = 1" | "n = 64" "BITMAP_LAST_WORD_MASK 64 = NOT 0"
proof -
  have "BITMAP_LAST_WORD_MASK 64 = NOT 0" by (rule bit_word_eqI) (simp add: bit_last_mask)
  moreover have "n < 64 \<Longrightarrow> BITS_TO_LONGS n = 1"
    using assms(1) by (simp add: BITS_TO_LONGS_def div_nat_eqI)
  ultimately show thesis using that assms by (cases "n = 64") auto
qed

lemma inline_predicates:
  assumes "0 < n"
  shows "bitmap_empty bm n = slow_bitmap_empty bm n" "bitmap_full bm n = slow_bitmap_full bm n"
    "bitmap_equal bm bm' n = slow_bitmap_equal bm bm' n" "bitmap_intersects bm bm' n = slow_bitmap_intersects bm bm' n"
proof -
  have x: "v XOR w = 0 \<longleftrightarrow> v = w" for v w :: u64 by (auto simp: bit_eq_iff bit_xor_iff)
  have s: "w AND NOT (0 :: u64) = w" for w by simp
  have "bitmap_empty bm n = slow_bitmap_empty bm n \<and> bitmap_full bm n = slow_bitmap_full bm n \<and>
      bitmap_equal bm bm' n = slow_bitmap_equal bm bm' n \<and> bitmap_intersects bm bm' n = slow_bitmap_intersects bm bm' n"
  proof (cases "n \<le> 64")
    case True
    from assms True show ?thesis
    proof (cases rule: small_cases)
      case 1
      then show ?thesis
        using True by (cases "bm_read bm 0"; cases "bm_read bm' 0")
          (simp_all add: bitmap_empty_def bitmap_full_def bitmap_equal_def bitmap_intersects_def small_nbits_def
            slow_bitmap_empty_def slow_bitmap_full_def slow_bitmap_equal_def slow_bitmap_intersects_def scan_bitmap_def both_def)
    next
      case 2
      then show ?thesis
        by (auto simp: bitmap_empty_def bitmap_full_def bitmap_equal_def bitmap_intersects_def small_nbits_def x
          slow_bitmap_empty_def slow_bitmap_full_def slow_bitmap_equal_def slow_bitmap_intersects_def scan_bitmap_def both_def
          bm_read_def)
    qed
  qed (simp add: bitmap_empty_def bitmap_full_def bitmap_equal_def bitmap_intersects_def small_nbits_def)
  then show "bitmap_empty bm n = slow_bitmap_empty bm n" "bitmap_full bm n = slow_bitmap_full bm n"
    "bitmap_equal bm bm' n = slow_bitmap_equal bm bm' n" "bitmap_intersects bm bm' n = slow_bitmap_intersects bm bm' n"
    by blast+
qed

subsection \<open>Boolean operations\<close>

lemma put_words_upto:
  assumes "\<And>k. k < m \<Longrightarrow> f k = Some (g k)" "m \<le> length dst"
  shows "put_words f [a..<m] dst = Some (take a dst @ map g [a..<m] @ drop (max a m) dst)"
  using assms
proof (induction "m - a" arbitrary: a dst)
  case 0
  then show ?case by simp
next
  case (Suc d)
  then have a: "a < m" "[a..<m] = a # [Suc a..<m]" by (simp_all add: upt_conv_Cons)
  have "put_words f [Suc a..<m] (dst[a := g a]) =
      Some (take (Suc a) (dst[a := g a]) @ map g [Suc a..<m] @ drop (max (Suc a) m) (dst[a := g a]))"
    using Suc by (intro Suc.hyps) auto
  moreover have "take (Suc a) (dst[a := g a]) = take a dst @ [g a]" using a Suc.prems by (simp add: take_Suc_conv_app_nth)
  moreover have "drop m (dst[a := g a]) = drop m dst" using a by simp
  ultimately show ?case using a Suc.prems by (simp add: bm_modify_def max_def)
qed

lemma put_words_bits:
  assumes "\<And>k. k < m \<Longrightarrow> f k = Some (g k)" "m \<le> length dst"
  shows "\<exists>d. put_words f [0..<m] dst = Some d \<and> length d = length dst \<and>
    (\<forall>k<m. d ! k = g k) \<and> (\<forall>k. m \<le> k \<longrightarrow> k < length dst \<longrightarrow> d ! k = dst ! k)"
  using put_words_upto [where f = f and g = g and a = 0, OF assms] assms(2) by (auto simp: nth_append)

text \<open>The bits below \<open>n\<close> of an array, word by word.\<close>

lemma words_of_bits:
  fixes n :: nat
  assumes "i < n" "n \<le> 64 * length bm"
  shows "i div 64 < BITS_TO_LONGS n" "BITS_TO_LONGS n \<le> length bm"
proof -
  define q where "q = i div 64"
  define t where "t = (n + 63) div 64"
  have i: "i = 64 * q + i mod 64" and t: "n + 63 = 64 * t + (n + 63) mod 64" "(n + 63) mod 64 < 64"
    by (simp_all add: q_def t_def)
  have "64 * q < 64 * t" using i t assms(1) by linarith
  then show "i div 64 < BITS_TO_LONGS n" by (simp add: q_def t_def BITS_TO_LONGS_def)
  have "64 * t \<le> n + 63" unfolding t_def by simp
  then have "64 * t < 64 * (length bm + 1)" using assms(2) by simp
  then have "t \<le> length bm" by simp
  then show "BITS_TO_LONGS n \<le> length bm" by (simp add: t_def BITS_TO_LONGS_def)
qed

lemma both_ok:
  assumes "0 < n" "n \<le> 64 * length bm1" "n \<le> 64 * length bm2" "n \<le> 64 * length dst"
    "\<And>v w j. j < 64 \<Longrightarrow> bit (f v w) j = b (bit v j) (bit w j)"
  shows "\<exists>d. put_words (both f bm1 bm2) [0..<BITS_TO_LONGS n] dst = Some d \<and> length d = length dst \<and>
    (\<forall>i<n. bm_bit d i = b (bm_bit bm1 i) (bm_bit bm2 i))"
proof -
  let ?m = "BITS_TO_LONGS n"
  have m: "?m \<le> length bm1" "?m \<le> length bm2" "?m \<le> length dst"
    by (rule words_of_bits(2) [OF assms(1,2)], rule words_of_bits(2) [OF assms(1,3)], rule words_of_bits(2) [OF assms(1,4)])
  have "\<exists>d. put_words (both f bm1 bm2) [0..<?m] dst = Some d \<and> length d = length dst \<and>
      (\<forall>k < ?m. d ! k = f (bm1 ! k) (bm2 ! k)) \<and> (\<forall>k. ?m \<le> k \<longrightarrow> k < length dst \<longrightarrow> d ! k = dst ! k)"
    using m by (intro put_words_bits) (simp_all add: both_def bm_read_def)
  then obtain d where d: "put_words (both f bm1 bm2) [0..<?m] dst = Some d" "length d = length dst"
    "\<And>k. k < ?m \<Longrightarrow> d ! k = f (bm1 ! k) (bm2 ! k)" by blast
  have "bm_bit d i = b (bm_bit bm1 i) (bm_bit bm2 i)" if "i < n" for i
    using words_of_bits(1) [OF that assms(2)] m d(2) d(3) [of "i div 64"] assms(5) by (simp add: bm_bit_def)
  then show ?thesis using d by blast
qed

lemma inline_operations:
  assumes "0 < n"
  shows "bitmap_or dst bm1 bm2 n = slow_bitmap_or dst bm1 bm2 n" "bitmap_xor dst bm1 bm2 n = slow_bitmap_xor dst bm1 bm2 n"
    "bitmap_and dst bm1 bm2 n = slow_bitmap_and dst bm1 bm2 n" "bitmap_andnot dst bm1 bm2 n = slow_bitmap_andnot dst bm1 bm2 n"
proof -
  have one: "BITS_TO_LONGS n = 1" if "n \<le> 64" using assms that by (simp add: BITS_TO_LONGS_def div_nat_eqI)
  have any: "any_word (dst[0 := w]) 1 \<longleftrightarrow> w \<noteq> 0" if "dst \<noteq> []" for w using that by (cases dst) (simp_all add: any_word_def)
  show "bitmap_or dst bm1 bm2 n = slow_bitmap_or dst bm1 bm2 n" "bitmap_xor dst bm1 bm2 n = slow_bitmap_xor dst bm1 bm2 n"
    "bitmap_and dst bm1 bm2 n = slow_bitmap_and dst bm1 bm2 n" "bitmap_andnot dst bm1 bm2 n = slow_bitmap_andnot dst bm1 bm2 n"
    using one any
    by (cases "n \<le> 64"; cases "dst = []"; cases "bm_read bm1 0"; cases "bm_read bm2 0";
        simp add: bitmap_or_def bitmap_xor_def bitmap_and_def bitmap_andnot_def slow_bitmap_or_def slow_bitmap_xor_def
          slow_bitmap_and_def slow_bitmap_andnot_def small_nbits_def both_def bm_modify_def)+
qed

lemma complement_ok:
  assumes "0 < n" "n \<le> 64 * length src" "n \<le> 64 * length dst"
  shows "\<exists>d. bitmap_complement dst src n = Some d \<and> length d = length dst \<and> (\<forall>i<n. bm_bit d i = (\<not> bm_bit src i))"
proof -
  have small: "bitmap_complement dst src n = slow_bitmap_complement dst src n" if "n \<le> 64"
  proof -
    have "src \<noteq> []" "dst \<noteq> []" using assms by auto
    with assms(1) that show ?thesis
      by (cases rule: small_cases)
        (auto simp: bitmap_complement_def slow_bitmap_complement_def small_nbits_def bm_read_def bm_modify_def)
  qed
  have "\<exists>d. put_words (\<lambda>k. map_option (NOT) (bm_read src k)) [0..<n div 64] dst = Some d \<and> length d = length dst \<and>
      (\<forall>k < n div 64. d ! k = NOT (src ! k)) \<and> (\<forall>k. n div 64 \<le> k \<longrightarrow> k < length dst \<longrightarrow> d ! k = dst ! k)"
    using words_inside(1) [OF assms(2)] assms(3) by (intro put_words_bits) (auto simp: bm_read_def)
  then obtain d where d: "put_words (\<lambda>k. map_option (NOT) (bm_read src k)) [0..<n div 64] dst = Some d" "length d = length dst"
    "\<And>k. k < n div 64 \<Longrightarrow> d ! k = NOT (src ! k)" by blast
  define d' where "d' = (if n mod 64 \<noteq> 0 then d[n div 64 := NOT (src ! (n div 64)) AND BITMAP_LAST_WORD_MASK n] else d)"
  have "slow_bitmap_complement dst src n = Some d'"
    using d words_inside(2) [OF assms(2)] words_inside(2) [OF assms(3)]
    by (auto simp: slow_bitmap_complement_def d'_def bm_read_def bm_modify_def)
  moreover have "\<forall>i<n. bm_bit d' i = (\<not> bm_bit src i)"
    unfolding in_blocks [of n "\<lambda>i. bm_bit d' i = (\<not> bm_bit src i)"]
    using d words_inside [OF assms(2)] words_inside [OF assms(3)]
    by (auto simp: d'_def bm_bit_word bit_not_iff bit_and_iff bit_last_mask nth_list_update)
  ultimately show ?thesis using small d(2) by (cases "n \<le> 64") (auto simp: bitmap_complement_def small_nbits_def d'_def)
qed

subsection \<open>Counting\<close>

lemma card_split: "card {i. i < a + c \<and> P i} = card {i. i < a \<and> P i} + card {j. j < c \<and> P (a + j)}" for a c :: nat
proof -
  have e: "{i. i < a + c \<and> P i} = {i. i < a \<and> P i} \<union> (\<lambda>j. a + j) ` {j. j < c \<and> P (a + j)}"
  proof (intro equalityI subsetI)
    fix i assume i: "i \<in> {i. i < a + c \<and> P i}"
    show "i \<in> {i. i < a \<and> P i} \<union> (\<lambda>j. a + j) ` {j. j < c \<and> P (a + j)}"
      using i by (cases "i < a") (auto intro!: image_eqI [where x = "i - a"])
  qed auto
  have "card ((\<lambda>j. a + j) ` {j. j < c \<and> P (a + j)}) = card {j. j < c \<and> P (a + j)}" by (intro card_image) (simp add: inj_on_def)
  then show ?thesis unfolding e by (subst card_Un_disjoint) auto
qed

lemma ctpop_card: "ctpop64 w = card {j. j < 64 \<and> bit w j}"
proof -
  have "ctpop64 w = card ({j. bit w j} \<inter> set [0..<64])" unfolding ctpop64_def by (rule distinct_length_filter) simp
  also have "{j. bit w j} \<inter> set [0..<64] = {j. j < 64 \<and> bit w j}" by auto
  finally show ?thesis .
qed

lemma count_words_ok:
  "(\<And>k. k < m \<Longrightarrow> k < length bm) \<Longrightarrow> a \<le> m \<Longrightarrow>
   count_words bm [a..<m] (card {i. i < 64 * a \<and> bm_bit bm i}) = Some (card {i. i < 64 * m \<and> bm_bit bm i})"
proof (induction "m - a" arbitrary: a)
  case (Suc d)
  then have a: "a < m" "[a..<m] = a # [Suc a..<m]" by (simp_all add: upt_conv_Cons)
  have "{j. j < 64 \<and> bm_bit bm (64 * a + j)} = {j. j < 64 \<and> bit (bm ! a) j}"
    using bm_bit_word [of a bm] Suc.prems(1) [OF a(1)] by auto
  then have "card {i. i < 64 * Suc a \<and> bm_bit bm i} = card {i. i < 64 * a \<and> bm_bit bm i} + ctpop64 (bm ! a)"
    using card_split [of "64 * a" 64 "bm_bit bm"] by (simp add: ctpop_card add.commute)
  moreover have "count_words bm [Suc a..<m] (card {i. i < 64 * Suc a \<and> bm_bit bm i}) =
      Some (card {i. i < 64 * m \<and> bm_bit bm i})"
    using Suc a by (intro Suc.hyps) auto
  ultimately show ?case using Suc.prems(1) [OF a(1)] unfolding a(2) by (simp add: bm_read_def del: mult_Suc_right)
qed simp

lemma count_last:
  assumes "n mod 64 \<noteq> 0" "k < length bm"
  shows "ctpop64 (bm ! k AND BITMAP_LAST_WORD_MASK n) = card {j. j < n mod 64 \<and> bm_bit bm (64 * k + j)}"
proof -
  have "n mod 64 < 64" by simp
  then have "{j. j < 64 \<and> bit (bm ! k AND BITMAP_LAST_WORD_MASK n) j} = {j. j < n mod 64 \<and> bm_bit bm (64 * k + j)}"
    using assms bm_bit_word [OF assms(2)] by (auto simp: bit_and_iff bit_last_mask)
  then show ?thesis by (simp add: ctpop_card)
qed

lemma count_ok:
  assumes "n \<le> 64 * length bm"
  shows "bitmap_count_one bm n = Some (card (bits_of n bm))"
proof -
  have slow: "slow_bitmap_count_one bm n = Some (card (bits_of n bm))"
  proof -
    have "count_words bm [0..<n div 64] 0 = Some (card {i. i < 64 * (n div 64) \<and> bm_bit bm i})"
      using count_words_ok [of "n div 64" bm 0] words_inside(1) [OF assms] by simp
    moreover have "card (bits_of n bm) = card {i. i < 64 * (n div 64) \<and> bm_bit bm i} +
        card {j. j < n mod 64 \<and> bm_bit bm (64 * (n div 64) + j)}"
      using card_split [of "64 * (n div 64)" "n mod 64" "bm_bit bm"] by (simp add: bits_of_def)
    ultimately show ?thesis
      using count_last [of n "n div 64" bm] words_inside(2) [OF assms] by (auto simp: slow_bitmap_count_one_def bm_read_def)
  qed
  show ?thesis
  proof (cases "0 < n \<and> n \<le> 64")
    case True
    then have "bm \<noteq> []" using assms by auto
    moreover have "0 < n" "n \<le> 64" using True by simp_all
    then have "bitmap_count_one bm n = slow_bitmap_count_one bm n"
      using \<open>bm \<noteq> []\<close>
      by (cases rule: small_cases) (auto simp: bitmap_count_one_def slow_bitmap_count_one_def small_nbits_def bm_read_def)
    ultimately show ?thesis using slow by simp
  qed (use slow in \<open>auto simp: bitmap_count_one_def small_nbits_def bits_of_def\<close>)
qed

text \<open>C38: The bitmap operations are set operations on the numbers below the length: tests for empty, full, equal and
  intersecting bitmaps and the number of set bits, word by word with a mask for the last word, agree with the sets, and
  the boolean operations compute intersection, union, symmetric difference, difference and complement.\<close>

theorem bitmap_operations_on_sets:
  assumes "0 < n" "n \<le> 64 * length a" "n \<le> 64 * length b" "n \<le> 64 * length d"
  shows "bitmap_empty a n = Some (bits_of n a = {}) \<and> bitmap_full a n = Some (bits_of n a = {..<n}) \<and>
    bitmap_equal a b n = Some (bits_of n a = bits_of n b) \<and>
    bitmap_intersects a b n = Some (bits_of n a \<inter> bits_of n b \<noteq> {}) \<and>
    bitmap_count_one a n = Some (card (bits_of n a)) \<and>
    (\<exists>r d'. bitmap_and d a b n = Some (r, d') \<and> length d' = length d \<and> bits_of n d' = bits_of n a \<inter> bits_of n b) \<and>
    (\<exists>r d'. bitmap_andnot d a b n = Some (r, d') \<and> length d' = length d \<and> bits_of n d' = bits_of n a - bits_of n b) \<and>
    (\<exists>d'. bitmap_or d a b n = Some d' \<and> length d' = length d \<and> bits_of n d' = bits_of n a \<union> bits_of n b) \<and>
    (\<exists>d'. bitmap_xor d a b n = Some d' \<and> length d' = length d \<and>
       bits_of n d' = (bits_of n a - bits_of n b) \<union> (bits_of n b - bits_of n a)) \<and>
    (\<exists>d'. bitmap_complement d a n = Some d' \<and> length d' = length d \<and> bits_of n d' = {..<n} - bits_of n a)"
proof (intro conjI)
  note op = both_ok [OF assms]
  note defs = inline_operations [OF assms(1)] slow_bitmap_and_def slow_bitmap_andnot_def slow_bitmap_or_def slow_bitmap_xor_def
  show "\<exists>r d'. bitmap_and d a b n = Some (r, d') \<and> length d' = length d \<and> bits_of n d' = bits_of n a \<inter> bits_of n b"
    using op [of "(AND)" "(\<and>)"] by (auto simp: defs bit_and_iff bits_of_def)
  show "\<exists>r d'. bitmap_andnot d a b n = Some (r, d') \<and> length d' = length d \<and> bits_of n d' = bits_of n a - bits_of n b"
    using op [of "\<lambda>v w. v AND NOT w" "\<lambda>v w. v \<and> \<not> w"] by (auto simp: defs bit_and_iff bit_not_iff bits_of_def)
  show "\<exists>d'. bitmap_or d a b n = Some d' \<and> length d' = length d \<and> bits_of n d' = bits_of n a \<union> bits_of n b"
    using op [of "(OR)" "(\<or>)"] by (auto simp: defs bit_or_iff bits_of_def)
  show "\<exists>d'. bitmap_xor d a b n = Some d' \<and> length d' = length d \<and>
      bits_of n d' = (bits_of n a - bits_of n b) \<union> (bits_of n b - bits_of n a)"
    using op [of "(XOR)" "(\<noteq>)"] by (auto simp: defs bit_xor_iff bits_of_def)
  show "\<exists>d'. bitmap_complement d a n = Some d' \<and> length d' = length d \<and> bits_of n d' = {..<n} - bits_of n a"
    using complement_ok [OF assms(1,2,4)] by (auto simp: bits_of_def)
qed (simp_all add: inline_predicates [OF assms(1)] slow_empty_ok [OF assms(2)] slow_full_ok [OF assms(2)]
    slow_equal_ok [OF assms(2,3)] slow_intersects_ok [OF assms(2,3)] count_ok [OF assms(2)])

theorem bitmap_operations_on_sets_witness:
  "bitmap_count_one [5, 3, 1] 130 = Some (card (bits_of 130 [5, 3, 1])) \<and>
   bitmap_intersects [5, 3, 1] [8, 8, 8] 130 = Some (bits_of 130 [5, 3, 1] \<inter> bits_of 130 [8, 8, 8] \<noteq> {})"
  using bitmap_operations_on_sets [of 130 "[5, 3, 1]" "[8, 8, 8]" "[0, 0, 0]"] by simp

end
