(* ===== verification/Bitmap_Atomic.thy ===== *)
theory Bitmap_Atomic
  imports Bitmap_Sets
begin

text \<open>
  The atomic range operations compute what the plain ones compute; growing a bitmap and setting a single bit.
\<close>

subsection \<open>Ranges with atomic words\<close>

lemma full_last_mask: "k mod 64 = 0 \<Longrightarrow> BITMAP_LAST_WORD_MASK k = NOT 0"
  by (rule bit_word_eqI) (simp add: bit_last_mask)

lemma first_mask_aligned: "k mod 64 = 0 \<Longrightarrow> BITMAP_FIRST_WORD_MASK k = NOT 0"
  by (rule bit_word_eqI) (simp add: bit_first_mask)

definition end_of_range :: "(u64 \<Rightarrow> u64 \<Rightarrow> u64) \<Rightarrow> nat \<Rightarrow> nat \<Rightarrow> nat \<Rightarrow> u64 \<Rightarrow> bitmap \<Rightarrow> bitmap option" where
  "end_of_range f size' p nr msk bm =
     (if nr \<noteq> 0 then bm_modify bm p (f (msk AND BITMAP_LAST_WORD_MASK size')) else Some bm)"

text \<open>The plain loop in the shape of the atomic one: a first partial word, whole words, the rest.\<close>

lemma range_loop_first:
  assumes "0 < bits" "bits < nr"
  shows "bitmap_range_loop f size' p nr bits msk bm =
    bm_modify bm p (f msk) \<bind> bitmap_range_loop f size' (p + 1) (nr - bits) 64 (NOT 0)"
  using assms by (subst bitmap_range_loop.simps) simp

lemma range_loop_short:
  assumes "0 < bits" "bits < 64" "nr \<le> bits" "(64 - bits + nr) mod 64 = size' mod 64"
  shows "bitmap_range_loop f size' p nr bits msk bm = end_of_range f size' p nr msk bm"
proof (cases "nr = bits")
  case True
  then have "BITMAP_LAST_WORD_MASK size' = NOT 0" using assms by (intro full_last_mask) simp
  then show ?thesis
    using True assms(1) by (subst bitmap_range_loop.simps) (auto simp: end_of_range_def bm_modify_def bitmap_range_loop.simps [of _ _ _ 0])
next
  case False
  then show ?thesis using assms(1,3) by (subst bitmap_range_loop.simps) (simp add: end_of_range_def)
qed

lemma range_loop_words:
  "bitmap_range_loop f size' p nr 64 (NOT 0) bm =
     (if 64 \<le> nr then bm_modify bm p (f (NOT 0)) \<bind> bitmap_range_loop f size' (p + 1) (nr - 64) 64 (NOT 0)
      else end_of_range f size' p nr (NOT 0) bm)"
  by (subst bitmap_range_loop.simps) (simp add: end_of_range_def)

lemma set_full_words_ok:
  "bitmap_range_loop (\<lambda>msk w. w OR msk) size' p nr 64 (NOT 0) bm =
     set_full_words p nr bm \<bind> (\<lambda>(p, nr, bm). end_of_range (\<lambda>msk w. w OR msk) size' p nr (NOT 0) bm)"
proof (induction p nr bm rule: set_full_words.induct)
  case (1 p nr bm)
  show ?case
  proof (cases "64 \<le> nr")
    case True
    then show ?thesis
      using 1 by (subst range_loop_words, subst set_full_words.simps) (auto simp: bm_modify_def)
  next
    case False
    then show ?thesis by (subst range_loop_words, subst set_full_words.simps) simp
  qed
qed

lemma bitmap_set_atomic_same: "bitmap_set_atomic bm start nr = bitmap_set bm start nr"
proof (cases "start < 0 \<or> nr < 0")
  case False
  define s where "s = nat start"
  define k where "k = nat nr"
  define bits where "bits = 64 - s mod 64"
  let ?f = "\<lambda>msk w :: u64. w OR msk"
  have b: "0 < bits" "bits \<le> 64" "bits = 64 \<longleftrightarrow> s mod 64 = 0" by (auto simp: bits_def)
  have plain: "bitmap_set bm start nr = bitmap_range_loop ?f (s + k) (BIT_WORD s) k bits (BITMAP_FIRST_WORD_MASK s) bm"
    using False by (simp add: bitmap_set_def bitmap_range_def s_def k_def bits_def)
  have atomic: "bitmap_set_atomic bm start nr =
      (if bits < k
       then map_option (\<lambda>bm. (BIT_WORD s + 1, k - bits, 64, NOT 0, bm)) (bm_modify bm (BIT_WORD s) (\<lambda>w. w OR BITMAP_FIRST_WORD_MASK s))
       else Some (BIT_WORD s, k, bits, BITMAP_FIRST_WORD_MASK s, bm)) \<bind> (\<lambda>(p, nr, bits_to_set, mask_to_set, bm).
        (if bits_to_set = 64 then set_full_words p nr bm else Some (p, nr, bm)) \<bind> (\<lambda>(p, nr, bm).
          end_of_range ?f (s + k) p nr mask_to_set bm))"
    using False by (simp add: bitmap_set_atomic_def s_def k_def bits_def end_of_range_def Let_def)
  show ?thesis
  proof (cases "bits < k")
    case True
    show ?thesis
      unfolding plain atomic range_loop_first [OF b(1) True] using True
      by (cases "bm_modify bm (BIT_WORD s) (\<lambda>w. w OR BITMAP_FIRST_WORD_MASK s)") (simp_all add: set_full_words_ok [simplified])
  next
    case no: False
    show ?thesis
    proof (cases "bits = 64")
      case True
      then show ?thesis using no b(3) unfolding plain atomic by (simp add: first_mask_aligned set_full_words_ok [simplified])
    next
      case False
      have "(64 - bits + k) mod 64 = (s + k) mod 64" using b by (simp add: bits_def mod_add_left_eq)
      then show ?thesis
        using no False b unfolding plain atomic by (simp add: range_loop_short)
    qed
  qed
qed (auto simp: bitmap_set_atomic_def bitmap_set_def bitmap_range_def)

text \<open>The collected bits are zero exactly when nothing has changed.\<close>

definition clear_inv :: "bitmap \<Rightarrow> nat \<Rightarrow> u64 \<times> bitmap \<Rightarrow> bool" where
  "clear_inv bm0 p s \<longleftrightarrow> length (snd s) = length bm0 \<and> (\<forall>q. p \<le> q \<longrightarrow> q < length bm0 \<longrightarrow> snd s ! q = bm0 ! q) \<and>
     (fst s \<noteq> 0 \<longleftrightarrow> snd s \<noteq> bm0)"

lemma clear_word_ok:
  assumes "clear_inv bm0 p s"
  shows "map_option snd (clear_word msk p s) = bm_modify (snd s) p (\<lambda>w. w AND NOT msk)"
    "clear_word msk p s = Some s' \<Longrightarrow> clear_inv bm0 (p + 1) s'"
proof -
  obtain dirty b where s: "s = (dirty, b)" by (cases s)
  show "map_option snd (clear_word msk p s) = bm_modify (snd s) p (\<lambda>w. w AND NOT msk)"
    by (simp add: s clear_word_def bm_read_def bm_modify_def)
  assume "clear_word msk p s = Some s'"
  then have p: "p < length b" and s': "s' = (dirty OR (b ! p AND msk), b[p := b ! p AND NOT msk])"
    by (auto simp: s clear_word_def bm_read_def bm_modify_def split: if_splits)
  have i: "length b = length bm0" "\<And>q. p \<le> q \<Longrightarrow> q < length bm0 \<Longrightarrow> b ! q = bm0 ! q" "dirty \<noteq> 0 \<longleftrightarrow> b \<noteq> bm0"
    using assms by (auto simp: clear_inv_def s)
  have c: "b ! p AND msk = 0 \<longleftrightarrow> b ! p AND NOT msk = b ! p"
    by (auto simp: bit_eq_iff bit_and_iff bit_not_iff dest: bit_word_less)
  have "b[p := b ! p AND NOT msk] = bm0 \<longleftrightarrow> b = bm0 \<and> b ! p AND NOT msk = b ! p"
  proof
    assume e: "b[p := b ! p AND NOT msk] = bm0"
    then have "b ! p AND NOT msk = b ! p" using i(1) i(2) [of p] p by (metis nth_list_update_eq order_refl)
    moreover from this have "b = bm0" using e by (metis list_update_id)
    ultimately show "b = bm0 \<and> b ! p AND NOT msk = b ! p" by blast
  next
    assume "b = bm0 \<and> b ! p AND NOT msk = b ! p"
    then show "b[p := b ! p AND NOT msk] = bm0" by (metis list_update_id)
  qed
  then have "dirty OR (b ! p AND msk) \<noteq> 0 \<longleftrightarrow> b[p := b ! p AND NOT msk] \<noteq> bm0"
    using i(3) c by (metis or_eq_0_iff)
  then show "clear_inv bm0 (p + 1) s'" using i(1,2) by (simp add: clear_inv_def s')
qed

lemma clear_full_step:
  "clear_full_words p nr s =
     (if 64 \<le> nr then clear_word (NOT 0) p s \<bind> clear_full_words (p + 1) (nr - 64) else Some (p, nr, s))"
proof -
  have "bm_read (snd s) p \<bind> (\<lambda>w.
      (if w \<noteq> 0 then map_option (\<lambda>bm. (fst s OR w, bm)) (bm_modify (snd s) p (\<lambda>_. 0)) else Some s) \<bind> g) =
      clear_word (NOT 0) p s \<bind> g" for g :: "u64 \<times> bitmap \<Rightarrow> (nat \<times> nat \<times> u64 \<times> bitmap) option"
    by (cases s) (auto simp: clear_word_def bm_read_def bm_modify_def, metis list_update_id)
  then show ?thesis by (subst clear_full_words.simps) simp
qed

lemma clear_full_words_ok:
  "clear_inv bm0 p s \<Longrightarrow>
   bitmap_range_loop (\<lambda>msk w. w AND NOT msk) size' p nr 64 (NOT 0) (snd s) =
     clear_full_words p nr s \<bind> (\<lambda>(p, nr, s). end_of_range (\<lambda>msk w. w AND NOT msk) size' p nr (NOT 0) (snd s)) \<and>
   (\<forall>p' nr' s'. clear_full_words p nr s = Some (p', nr', s') \<longrightarrow> clear_inv bm0 p' s')"
proof (induction nr arbitrary: p s rule: less_induct)
  case (less nr)
  show ?case
  proof (cases "64 \<le> nr")
    case True
    note word = clear_word_ok(1) [OF less.prems, of "NOT 0"]
    show ?thesis
    proof (cases "clear_word (NOT 0) p s")
      case None
      then show ?thesis using True word by (simp add: range_loop_words [of _ _ _ nr, simplified] clear_full_step [of _ nr, simplified])
    next
      case (Some s1)
      have "clear_inv bm0 (p + 1) s1" by (rule clear_word_ok(2) [OF less.prems Some])
      moreover have "bm_modify (snd s) p (\<lambda>_. 0) = Some (snd s1)" using word Some by simp
      ultimately show ?thesis
        using less.IH [of "nr - 64" "p + 1" s1] True Some
        by (simp add: range_loop_words [of _ _ _ nr, simplified] clear_full_step [of _ nr, simplified])
    qed
  next
    case False
    then show ?thesis using less.prems by (cases s) (simp add: range_loop_words [of _ _ _ nr, simplified] clear_full_step [of _ nr, simplified])
  qed
qed

lemma clear_end_ok:
  assumes "clear_inv bm0 p s"
  shows "(if nr \<noteq> 0 then clear_word (msk AND BITMAP_LAST_WORD_MASK size') p s else Some s) \<bind> (\<lambda>(dirty, bm). Some (dirty \<noteq> 0, bm)) =
    map_option (\<lambda>bm. (bm \<noteq> bm0, bm)) (end_of_range (\<lambda>msk w. w AND NOT msk) size' p nr msk (snd s))"
proof (cases "nr = 0")
  case True
  then show ?thesis using assms by (cases s) (simp add: end_of_range_def clear_inv_def)
next
  case False
  define m where "m = msk AND BITMAP_LAST_WORD_MASK size'"
  note c = clear_word_ok [OF assms, of m]
  show ?thesis
  proof (cases "clear_word m p s")
    case None
    then show ?thesis using False c(1) by (simp add: end_of_range_def m_def [symmetric])
  next
    case (Some s')
    obtain d b where s': "s' = (d, b)" by (cases s')
    have "end_of_range (\<lambda>msk w. w AND NOT msk) size' p nr msk (snd s) = Some b"
      using False c(1) Some by (simp add: end_of_range_def m_def [symmetric] s')
    then show ?thesis using c(2) [OF Some] False Some by (simp add: m_def [symmetric] s' clear_inv_def)
  qed
qed

lemma bitmap_test_and_clear_same:
  "bitmap_test_and_clear_atomic bm start nr = map_option (\<lambda>bm'. (bm' \<noteq> bm, bm')) (bitmap_clear bm start nr)"
proof (cases "start < 0 \<or> nr < 0")
  case False
  define s where "s = nat start"
  define k where "k = nat nr"
  define bits where "bits = 64 - s mod 64"
  let ?f = "\<lambda>msk w :: u64. w AND NOT msk" and ?m = "BITMAP_FIRST_WORD_MASK s" and ?p = "BIT_WORD s"
  have b: "0 < bits" "bits \<le> 64" "bits = 64 \<longleftrightarrow> s mod 64 = 0" by (auto simp: bits_def)
  have plain: "bitmap_clear bm start nr = bitmap_range_loop ?f (s + k) ?p k bits ?m bm"
    using False by (simp add: bitmap_clear_def bitmap_range_def s_def k_def bits_def)
  have atomic: "bitmap_test_and_clear_atomic bm start nr =
      (if bits < k then map_option (\<lambda>s'. (?p + 1, k - bits, 64, NOT 0, s')) (clear_word ?m ?p (0, bm))
       else Some (?p, k, bits, ?m, 0, bm)) \<bind> (\<lambda>(p, nr, bits_to_clear, msk, t).
        (if bits_to_clear = 64 then clear_full_words p nr t else Some (p, nr, t)) \<bind> (\<lambda>(p, nr, t).
          (if nr \<noteq> 0 then clear_word (msk AND BITMAP_LAST_WORD_MASK (s + k)) p t else Some t) \<bind> (\<lambda>(dirty, bm). Some (dirty \<noteq> 0, bm))))"
    unfolding bitmap_test_and_clear_atomic_def Let_def s_def k_def bits_def using False by simp
  have i: "clear_inv bm ?p (0, bm)" by (simp add: clear_inv_def)
  have words: "clear_full_words p nr' t \<bind> (\<lambda>(p, nr, t).
        (if nr \<noteq> 0 then clear_word (- 1 AND BITMAP_LAST_WORD_MASK (s + k)) p t else Some t) \<bind> (\<lambda>(dirty, bm). Some (dirty \<noteq> 0, bm))) =
      map_option (\<lambda>bm'. (bm' \<noteq> bm, bm')) (bitmap_range_loop ?f (s + k) p nr' 64 (NOT 0) (snd t))"
    if t: "clear_inv bm p t" for p nr' t
  proof -
    note w = clear_full_words_ok [OF t, of "s + k" nr']
    show ?thesis
    proof (cases "clear_full_words p nr' t")
      case None
      then show ?thesis using w by simp
    next
      case (Some r)
      obtain p' nr'' t' where r: "r = (p', nr'', t')" by (cases r)
      have "clear_inv bm p' t'" using w Some r by (cases t') simp
      from clear_end_ok [OF this, of nr'' "- 1" "s + k"] w Some r show ?thesis by simp
    qed
  qed
  show ?thesis
  proof (cases "bits < k")
    case True
    note first = clear_word_ok [OF i, of ?m]
    show ?thesis
    proof (cases "clear_word ?m ?p (0, bm)")
      case None
      then show ?thesis using first(1) True unfolding plain atomic range_loop_first [OF b(1) True] by simp
    next
      case (Some t)
      then show ?thesis
        using first(1) True words [OF first(2) [OF Some], of "k - bits"] unfolding plain atomic range_loop_first [OF b(1) True]
        by (auto simp: bm_modify_def split: if_splits)
    qed
  next
    case no: False
    show ?thesis
    proof (cases "bits = 64")
      case True
      then show ?thesis using no b(3) words [OF i] unfolding plain atomic by (simp add: first_mask_aligned)
    next
      case False
      have "(64 - bits + k) mod 64 = (s + k) mod 64" using b by (simp add: bits_def mod_add_left_eq)
      then show ?thesis
        using no False b clear_end_ok [OF i, of k ?m "s + k"] unfolding plain atomic by (simp add: range_loop_short)
    qed
  qed
qed (auto simp: bitmap_test_and_clear_atomic_def bitmap_clear_def bitmap_range_def)

subsection \<open>Growing and setting single bits\<close>

lemma zero_extend_bits:
  assumes "old_nbits \<le> new_nbits" "old_nbits \<le> 64 * length old" "length old \<le> BITS_TO_LONGS new_nbits"
  shows "\<exists>bm. bitmap_zero_extend junk old old_nbits new_nbits = Some bm \<and>
    (\<forall>i < new_nbits. bm_bit bm i \<longleftrightarrow> i < old_nbits \<and> bm_bit old i)"
proof -
  let ?new = "map (\<lambda>k. if k < length old then old ! k else junk k) [0..<BITS_TO_LONGS new_nbits]"
  have "new_nbits \<le> 64 * length ?new" using bitmap_new_shape(1) [of new_nbits] by (simp add: bitmap_new_def)
  then have "old_nbits + (new_nbits - old_nbits) \<le> 64 * length ?new" using assms(1) by simp
  from bitmap_clear_ok [OF this] obtain bm where bm: "bitmap_clear ?new (int old_nbits) (int (new_nbits - old_nbits)) = Some bm"
    "\<forall>i. bm_bit bm i = (bm_bit ?new i \<and> \<not> (old_nbits \<le> i \<and> i < old_nbits + (new_nbits - old_nbits)))" by blast
  have "bm_bit ?new i = bm_bit old i" if "i < old_nbits" for i
  proof -
    have "i div 64 < length old" using that assms(2) by (intro less_mult_imp_div_less) simp
    then show ?thesis using assms(3) by (simp add: bm_bit_def)
  qed
  then have "\<forall>i < new_nbits. bm_bit bm i \<longleftrightarrow> i < old_nbits \<and> bm_bit old i" using bm(2) assms(1) by auto
  then show ?thesis using bm(1) assms(1) by (simp add: bitmap_zero_extend_def of_nat_diff)
qed

lemma set_bit_at_bits:
  assumes "nr < 64 * length bm"
  shows "\<exists>bm'. set_bit_at nr bm = Some bm' \<and> length bm' = length bm \<and> (\<forall>i. bm_bit bm' i \<longleftrightarrow> i = nr \<or> bm_bit bm i)"
proof -
  have p: "nr div 64 < length bm" using assms by (intro less_mult_imp_div_less) simp
  have "bm_bit (bm[nr div 64 := bm ! (nr div 64) OR push_bit (nr mod 64) 1]) i \<longleftrightarrow> i = nr \<or> bm_bit bm i" for i
  proof (cases "i div 64 = nr div 64")
    case True
    have "i mod 64 = nr mod 64 \<longleftrightarrow> i = nr" using True by (metis div_mult_mod_eq)
    then show ?thesis using p True by (auto simp: bm_bit_def bit_or_iff bit_exp_iff possible_bit_def)
  next
    case False
    then show ?thesis by (auto simp: bm_bit_def nth_list_update)
  qed
  then show ?thesis using p by (simp add: set_bit_at_def bm_modify_def BIT_WORD_def BIT_MASK_def)
qed

subsection \<open>The property\<close>

text \<open>The atomic versions of the range operations are the plain ones, also where those fault: \<open>bitmap_set_atomic\<close> leaves the bitmap that \<open>bitmap_set\<close> leaves, and \<open>bitmap_test_and_clear_atomic\<close> leaves the one of \<open>bitmap_clear\<close> and returns whether any word has changed. Their loops split the range into a first partial word, whole words and a last partial word; the plain loop treats all words alike.\<close>

theorem bitmap_atomic_as_plain:
  "bitmap_set_atomic bm start nr = bitmap_set bm start nr \<and>
   bitmap_test_and_clear_atomic bm start nr = map_option (\<lambda>bm'. (bm' \<noteq> bm, bm')) (bitmap_clear bm start nr)"
  by (rule conjI [OF bitmap_set_atomic_same bitmap_test_and_clear_same])

end
