(* ===== verification/Bitmap_Search.thy ===== *)
theory Bitmap_Search
  imports Bitmap_Atomic
begin

text \<open>
  The searches for a clear bit and for a clear, aligned area: the first is the search for a set bit in the complement,
  and the second ends with the first area that fits, or past the end when there is none.
\<close>

subsection \<open>Clear bits\<close>

lemma read_complement: "bm_read (map (NOT) bm) p = map_option (NOT) (bm_read bm p)" for bm :: bitmap
  by (simp add: bm_read_def)

lemma low_bits: "n \<le> 64 \<Longrightarrow> drop_bit (64 - n) (NOT 0 :: u64) = NOT (push_bit n (NOT 0))"
  by (rule bit_word_eqI) (auto simp: bit_simps)

lemma complement_zero: "w = NOT 0 \<longleftrightarrow> NOT w = 0" for w :: u64
  by (metis bit.double_compl)

lemma zero_found_first_eq:
  assumes "n < 64"
  shows "zero_found_first result n w = found_first result n (NOT w)"
proof -
  have "NOT (w OR push_bit n (NOT 0)) = NOT w AND drop_bit (64 - n) (NOT 0)"
    unfolding bit.de_Morgan_disj by (subst low_bits) (use assms in simp_all)
  then show ?thesis unfolding zero_found_first_def found_first_def found_middle_def Let_def complement_zero by simp
qed

lemma find_zero_loop_eq: "find_zero_loop bm p result s = find_word_loop (map (NOT) bm) p result s"
proof (induction bm p result s rule: find_zero_loop.induct)
  case (1 bm p result s)
  then show ?case
    by (cases "bm_read bm p")
       (simp_all add: find_zero_loop.simps [of bm p] find_word_loop.simps [of _ p] read_complement zero_found_first_eq found_middle_def)
qed

lemma next_bit_unique: "next_bit bm n offset r \<Longrightarrow> next_bit bm n offset r' \<Longrightarrow> r = r'"
  unfolding next_bit_def by (metis linorder_neqE_nat order_less_le_trans)

lemma four_is_word:
  assumes "64 * p + s \<le> 64 * length bm"
  shows "find_four_loop bm p (64 * p) s = find_word_loop bm p (64 * p) s"
  using find_four_loop_ok [OF assms refl] find_word_loop_ok [OF assms refl] next_bit_unique by fastforce

lemma find_next_zero_bit_eq:
  assumes "n \<le> 64 * length bm"
  shows "find_next_zero_bit bm n offset = find_next_bit (map (NOT) bm) n offset"
proof (cases "n \<le> offset")
  case False
  define p where "p = offset div 64"
  define k where "k = offset mod 64"
  have o: "offset = 64 * p + k" "k < 64" by (simp_all add: p_def k_def)
  have four: "find_four_loop (map (NOT) bm) p' (64 * p') (n - 64 * p') = find_zero_loop bm p' (64 * p') (n - 64 * p')" if "64 * p' \<le> n" for p'
    using that assms by (simp add: four_is_word find_zero_loop_eq)
  have mask: "NOT (w OR drop_bit (64 - k) (NOT 0)) = NOT w AND push_bit k (NOT 0)" for w :: u64
    unfolding bit.de_Morgan_disj by (subst low_bits) (use o in \<open>simp_all add: bit.double_compl\<close>)
  have ge: "64 * p \<le> n" "n - 64 * p \<ge> 64 \<Longrightarrow> 64 * (p + 1) \<le> n" using False o by auto
  show ?thesis
  proof (cases "k = 0")
    case True
    then show ?thesis
      using False four [OF ge(1)] by (simp add: find_next_zero_bit_def find_next_bit_def Let_def BIT_WORD_def p_def k_def mult.commute)
  next
    case k: False
    have "64 - (64 - k) = k" using o(2) by simp
    moreover have "find_four_loop (map (NOT) bm) (Suc p) (64 * p + 64) (n - (64 * p + 64)) =
        find_zero_loop bm (Suc p) (64 * p + 64) (n - (64 * p + 64))" if "64 \<le> n - 64 * p"
      using four [OF ge(2) [OF that]] by (simp add: add.commute)
    ultimately show ?thesis
      using False k
      by (cases "bm_read bm p")
         (simp_all add: find_next_zero_bit_def find_next_bit_def Let_def BIT_WORD_def read_complement zero_found_first_eq mask
            p_def [symmetric] k_def [symmetric] found_middle_def mult.commute [of p 64])
  qed
qed (simp add: find_next_zero_bit_def find_next_bit_past)

lemma complement_bit: "i < 64 * length bm \<Longrightarrow> bm_bit (map (NOT) bm) i \<longleftrightarrow> \<not> bm_bit bm i"
proof -
  assume "i < 64 * length bm"
  then have "i div 64 < length bm" by (intro less_mult_imp_div_less) simp
  then show ?thesis by (simp add: bm_bit_def bit_not_iff)
qed

text \<open>The first clear bit from \<open>offset\<close> on, or the size.\<close>

lemma find_next_zero_bit_ok:
  assumes "offset < n" "n \<le> 64 * length bm"
  shows "\<exists>r. find_next_zero_bit bm n offset = Some r \<and> offset \<le> r \<and> r \<le> n \<and> (\<forall>i. offset \<le> i \<longrightarrow> i < r \<longrightarrow> bm_bit bm i) \<and>
    (r < n \<longrightarrow> \<not> bm_bit bm r)"
proof -
  obtain r where "find_next_bit (map (NOT) bm) n offset = Some r" "next_bit (map (NOT) bm) n offset r"
    using find_next_bit_ok [OF assms(1), of "map (NOT) bm"] assms(2) by auto
  then show ?thesis
    using assms complement_bit [of _ bm] by (auto simp: find_next_zero_bit_eq next_bit_def)
qed

subsection \<open>Clear areas\<close>

definition aligned_up :: "nat \<Rightarrow> nat \<Rightarrow> nat" where "aligned_up k z = (z + 2 ^ k - 1) div 2 ^ k * 2 ^ k"

lemma aligned_up_bounds: "z \<le> aligned_up k z" "aligned_up k z < z + 2 ^ k" "2 ^ k dvd aligned_up k z"
proof -
  define d :: nat where "d = 2 ^ k"
  have d: "0 < d" by (simp add: d_def)
  have e: "(z + d - 1) div d * d + (z + d - 1) mod d = z + d - 1" "(z + d - 1) mod d < d" using d by simp_all
  show "z \<le> aligned_up k z" "aligned_up k z < z + 2 ^ k" using e d unfolding aligned_up_def d_def [symmetric] by linarith+
  show "2 ^ k dvd aligned_up k z" by (simp add: aligned_up_def)
qed

lemma aligned_up_least:
  assumes "2 ^ k dvd a" "z \<le> a"
  shows "aligned_up k z \<le> a"
proof -
  obtain c where c: "a = 2 ^ k * c" using assms(1) by (auto elim: dvdE)
  have "z + 2 ^ k - 1 < z + 2 ^ k" by simp
  also have "\<dots> \<le> 2 ^ k * (c + 1)" using assms(2) c by simp
  finally have "z + 2 ^ k - 1 < 2 ^ k * (c + 1)" .
  then have "(z + 2 ^ k - 1) div 2 ^ k < c + 1" by (simp add: less_mult_imp_div_less mult.commute)
  then show ?thesis by (simp add: aligned_up_def c mult.commute)
qed

lemma unat_align_mask:
  assumes "k < 64" "z + 2 ^ k \<le> 2 ^ 64"
  shows "unat (ALIGN_MASK (of_nat z) (mask k)) = aligned_up k z"
proof -
  define w :: u64 where "w = of_nat z + mask k"
  have "(2 :: nat) ^ k \<le> 2 ^ 64" using assms(1) by (intro power_increasing) simp_all
  then have "(2 :: nat) ^ k - 1 < 2 ^ LENGTH(64)" by (simp add: less_le_trans [of _ "2 ^ k"])
  moreover have "(mask k :: u64) = of_nat (2 ^ k - 1)" by (simp add: mask_eq_exp_minus_1 of_nat_diff)
  ultimately have m: "unat (mask k :: u64) = 2 ^ k - 1" by (simp only: unat_of_nat mod_less)
  have z: "unat (of_nat z :: u64) = z" using assms(2) by (simp add: unat_of_nat less_le_trans [of z "z + 2 ^ k"])
  have w: "unat w = z + 2 ^ k - 1" using assms(2) z m by (simp add: w_def unat_word_ariths)
  have "w AND NOT (mask k) = push_bit k (drop_bit k w)" by (rule bit_word_eqI) (auto simp: bit_simps)
  moreover have "unat (push_bit k (drop_bit k w)) = (z + 2 ^ k - 1) div 2 ^ k * 2 ^ k"
  proof -
    have "(z + 2 ^ k - 1) div 2 ^ k * 2 ^ k \<le> z + 2 ^ k - 1" by simp
    then have "(z + 2 ^ k - 1) div 2 ^ k * 2 ^ k < 2 ^ 64" using assms(2) by (meson diff_less less_le_trans le_less_trans not_less add_gr_0 zero_less_numeral zero_less_power zero_less_one)
    then show ?thesis
      using assms(2) unfolding unsigned_push_bit_eq unsigned_drop_bit_eq w
      by (simp add: push_bit_eq_mult drop_bit_eq_div take_bit_nat_eq_self)
  qed
  ultimately show ?thesis by (simp add: ALIGN_MASK_def aligned_up_def w_def)
qed

definition clear_area :: "bitmap \<Rightarrow> nat \<Rightarrow> nat \<Rightarrow> nat \<Rightarrow> nat \<Rightarrow> nat \<Rightarrow> bool" where
  "clear_area bm n start nr k a \<longleftrightarrow> start \<le> a \<and> 2 ^ k dvd a \<and> a + nr \<le> n \<and> (\<forall>i. a \<le> i \<longrightarrow> i < a + nr \<longrightarrow> \<not> bm_bit bm i)"

lemma find_area:
  assumes "k < 64" "0 < nr" "unat n \<le> 64 * length bm" "unat n + 2 ^ k + unat nr \<le> 2 ^ 64" "unat n - unat start < rounds"
  shows "\<exists>r. bitmap_find_next_zero_area rounds bm n start nr (mask k) = Some (Some r) \<and>
    (if unat r \<le> unat n
     then clear_area bm (unat n) (unat start) (unat nr) k (unat r) \<and> (\<forall>a. clear_area bm (unat n) (unat start) (unat nr) k a \<longrightarrow> unat r \<le> a)
     else \<forall>a. \<not> clear_area bm (unat n) (unat start) (unat nr) k a)"
  using assms(5)
proof (induction rounds arbitrary: start)
  case (Suc rounds)
  let ?n = "unat n" and ?s = "unat start" and ?m = "unat nr"
  have m: "0 < ?m" using assms(2) by (simp add: word_less_nat_alt)
  obtain z where z: "find_next_zero_bit bm ?n ?s = Some z" "z \<le> ?n" "\<And>a. clear_area bm ?n ?s ?m k a \<Longrightarrow> z \<le> a" "?s < ?n \<Longrightarrow> ?s \<le> z"
    "?n \<le> ?s \<Longrightarrow> z = ?n"
  proof (cases "?n \<le> ?s")
    case True
    then show thesis using m by (intro that [of ?n]) (auto simp: find_next_zero_bit_def clear_area_def)
  next
    case False
    then obtain r where r: "find_next_zero_bit bm ?n ?s = Some r" "?s \<le> r" "r \<le> ?n" "\<forall>i. ?s \<le> i \<longrightarrow> i < r \<longrightarrow> bm_bit bm i"
      using find_next_zero_bit_ok [OF _ assms(3), of ?s] by auto
    have "r \<le> a" if "clear_area bm ?n ?s ?m k a" for a
      using that r(4) m unfolding clear_area_def by (metis less_add_same_cancel1 not_le_imp_less order_refl)
    then show thesis using that [of r] r False by blast
  qed
  define ix where "ix = aligned_up k z"
  note up = aligned_up_bounds [where z = z and k = k, folded ix_def]
  have "unat (ALIGN_MASK (of_nat z) (mask k)) = ix" unfolding ix_def by (rule unat_align_mask) (use assms(1,4) z(2) in simp_all)
  then obtain index where index: "ALIGN_MASK (of_nat z) (mask k) = index" "unat index = ix" by simp
  have last: "unat (index + nr) = ix + ?m" using index(2) up(2) z(2) assms(4) by (simp add: unat_word_ariths)
  have least: "ix \<le> a" if "clear_area bm ?n ?s ?m k a" for a
    using aligned_up_least [of k a z] z(3) [OF that] that by (simp add: clear_area_def ix_def)
  show ?case
  proof (cases "n < index + nr")
    case True
    then have "?n < ix + ?m" using last by (simp add: word_less_nat_alt)
    then have "\<not> clear_area bm ?n ?s ?m k a" for a using least [of a] by (auto simp: clear_area_def)
    then show ?thesis using True z(1) index(1) last \<open>?n < ix + ?m\<close> by (simp add: Let_def)
  next
    case False
    then have fits: "ix + ?m \<le> ?n" using last by (simp add: word_less_nat_alt)
    have s1: "?s < ?n"
    proof (rule ccontr)
      assume "\<not> ?s < ?n"
      then have "?n \<le> ix" using z(5) up(1) by simp
      then show False using fits m by simp
    qed
    then have s: "?s < ?n" "?s \<le> ix" using z(4) up(1) by simp_all
    have "\<exists>i. find_next_bit bm (ix + ?m) ix = Some i \<and> next_bit bm (ix + ?m) ix i"
      by (rule find_next_bit_ok) (use m fits assms(3) in auto)
    then obtain i where i: "find_next_bit bm (ix + ?m) ix = Some i" "next_bit bm (ix + ?m) ix i" by blast
    show ?thesis
    proof (cases "i < ix + ?m")
      case True
      then have bit: "bm_bit bm i" "ix \<le> i" using i(2) by (auto simp: next_bit_def)
      have "unat (of_nat i + 1 :: u64) = i + 1"
      proof -
        have "?n < 2 ^ LENGTH(64)" by (rule unsigned_less)
        then have "i + 1 < 2 ^ LENGTH(64)" using True fits by linarith
        then have "unat (of_nat (i + 1) :: u64) = i + 1" by (simp only: unat_of_nat mod_less)
        moreover have "(of_nat i + 1 :: u64) = of_nat (i + 1)" by (simp only: of_nat_add of_nat_1)
        ultimately show ?thesis by (simp only:)
      qed
      then obtain start' where start': "of_nat i + 1 = start'" "unat (start' :: u64) = i + 1" by simp
      have same: "clear_area bm ?n ?s ?m k a \<longleftrightarrow> clear_area bm ?n (i + 1) ?m k a" for a
      proof
        assume c: "clear_area bm ?n ?s ?m k a"
        have "i < a"
        proof (rule ccontr)
          assume "\<not> i < a"
          then have "a \<le> i" "i < a + ?m" using True least [OF c] by auto
          then show False using c bit(1) by (simp add: clear_area_def)
        qed
        then show "clear_area bm ?n (i + 1) ?m k a" using c by (simp add: clear_area_def)
      qed (use bit(2) s(2) in \<open>auto simp: clear_area_def\<close>)
      have "?n - unat start' < rounds" using Suc.prems start'(2) bit(2) s by linarith
      note ih = Suc.IH [OF this, unfolded start'(2)]
      have "bitmap_find_next_zero_area (Suc rounds) bm n start nr (mask k) = bitmap_find_next_zero_area rounds bm n start' nr (mask k)"
        using False z(1) index last i(1) True start'(1) by (simp add: Let_def)
      with ih show ?thesis by (simp only: same)
    next
      case no: False
      then have "clear_area bm ?n ?s ?m k ix" using i(2) fits s(2) up(3) by (auto simp: clear_area_def next_bit_def)
      then show ?thesis using False z(1) index last i(1) no least fits by (simp add: Let_def)
    qed
  qed
qed simp

text \<open>C39: The search for a clear area always ends, within one round per bit, and finds the first one: if it returns a position within the bitmap, that is the least aligned position from the start on at which an area of the requested length is clear; otherwise there is no such position.  The alignment is a power of two and the size leaves room for one more area.\<close>

theorem find_zero_area_least:
  assumes "k < 64" "0 < nr" "unat n \<le> 64 * length bm" "unat n + 2 ^ k + unat nr \<le> 2 ^ 64"
  shows "\<exists>r. bitmap_find_next_zero_area (unat n + 1) bm n start nr (mask k) = Some (Some r) \<and>
    (if unat r \<le> unat n
     then clear_area bm (unat n) (unat start) (unat nr) k (unat r) \<and> (\<forall>a. clear_area bm (unat n) (unat start) (unat nr) k a \<longrightarrow> unat r \<le> a)
     else \<forall>a. \<not> clear_area bm (unat n) (unat start) (unat nr) k a)"
  by (rule find_area [OF assms]) simp

text \<open>Bits 0 and 6 are set: the first clear area of four bits at a multiple of 4 starts at 8.\<close>

theorem find_zero_area_least_witness:
  "\<exists>r. bitmap_find_next_zero_area (unat (128 :: u64) + 1) [0x41, 0] 128 0 4 (mask 2) = Some (Some r) \<and>
    (if unat r \<le> unat (128 :: u64)
     then clear_area [0x41, 0] (unat (128 :: u64)) (unat (0 :: u64)) (unat (4 :: u64)) 2 (unat r) \<and>
       (\<forall>a. clear_area [0x41, 0] (unat (128 :: u64)) (unat (0 :: u64)) (unat (4 :: u64)) 2 a \<longrightarrow> unat r \<le> a)
     else \<forall>a. \<not> clear_area [0x41, 0] (unat (128 :: u64)) (unat (0 :: u64)) (unat (4 :: u64)) 2 a)"
  by (rule find_zero_area_least) simp_all

end
