(* ===== verification/Sb_Queue.thy ===== *)
theory Sb_Queue
  imports Femu_Ctrl
begin

text \<open>
  The two message queues between the threads of the device and the thread that talks to the simulator
  (\<open>qemu-compat/wrapper-main.c\<close>, \<open>wrapper-qemu.c\<close>, \<open>wrapper.h\<close>): \<open>q2sb_q\<close> carries DMA requests, interrupts and
  answers to reads, \<open>sb2q_q\<close> the register accesses of the host.  Every step of the model is a piece of one thread that
  touches shared memory once; a run is any sequence of steps.  The other theories take a DMA transfer and an interrupt
  as one operation, which is what the properties of \<open>Sb_Props\<close> justify.

  The messages of the simulator's protocol come from its own headers; here they are the values that the code puts in
  and takes out.  \<open>out_elen\<close> is the size of an element of its outgoing queue.
\<close>

subsection \<open>State\<close>

definition Q2SB_SZ :: nat where "Q2SB_SZ = 128"
definition SB2Q_SZ :: nat where "SB2Q_SZ = 128"

record 'a slot =
  sl_ready :: bool
  sl_msg :: 'a

text \<open>A DMA operation lives on the stack of the thread that waits for it, so its address is the number of the thread.\<close>

record dma_op =
  op_data :: "u8 list"
  op_len :: nat
  op_hwaddr :: u64
  op_ready :: bool

datatype qemu2sb = Q2SB_MMIO_READ_COMP u64 u64 | Q2SB_DMA_WRITE nat | Q2SB_DMA_READ nat | Q2SB_INT sb_irq

datatype d2h = D2H_readcomp u64 u64 | D2H_read nat u64 nat | D2H_write u64 "u8 list" | D2H_interrupt sb_irq
  | D2H_writecomp u64

datatype h2d = H2D_read u64 u8 u64 u8 | H2D_write u64 u8 u64 "u8 list" | H2D_devctrl bool bool bool
  | H2D_readcomp nat "u8 list" | H2D_writecomp u64 | H2D_unknown u8

text \<open>What a thread asks of the wrapper, and where it stands in \<open>sb_op_alloc\<close> and after it.  The numbers are slots.\<close>

datatype sb_call = Call_read_comp u64 | Call_dma_read u64 nat | Call_dma_write u64 "u8 list" | Call_irq sb_irq

datatype sb_pc = Idle | Waiting nat sb_call | Writing nat sb_call | Written nat sb_call | Awaiting

text \<open>The main thread (thread 0) polls \<open>sb2q_q\<close>, or is in \<open>mmio_read\<close> before or after its answer, or in \<open>mmio_write\<close>.\<close>

datatype main_pc = Polling | Reading u64 | Read_done | In_write

text \<open>The simulator's thread takes a message, waits for a slot of \<open>sb2q_q\<close>, looks at \<open>q2sb_q\<close>, or gives a slot back.\<close>

datatype sbt_pc = Sbt_poll | Sbt_spin sb2qemu | Sbt_queue | Sbt_release

record sb =
  q2sb_q :: "qemu2sb slot list"
  q2sb_tail :: nat
  q2sb_head :: nat
  sb2q_q :: "sb2qemu slot list"
  sb2q_tail :: nat
  sb2q_head :: nat
  sb_ops :: "nat \<rightharpoonup> dma_op"
  sb_bufs :: "nat \<Rightarrow> u8 list"
  sb_pcs :: "nat \<Rightarrow> sb_pc"
  sb_main :: main_pc
  sb_sbt :: sbt_pc
  sb_intx_en :: bool
  sb_msi_en' :: bool
  sb_msix_en' :: bool
  d2h_sent :: "d2h list"

text \<open>A step can be one the thread cannot take now, undefined behaviour or a failed assertion, or lead to a new state.\<close>

datatype 'a outcome = Blocked | Fault | Next 'a

definition sb_init :: sb where
  "sb_init =
     \<lparr>q2sb_q = replicate Q2SB_SZ \<lparr>sl_ready = False, sl_msg = Q2SB_MMIO_READ_COMP 0 0\<rparr>, q2sb_tail = 0, q2sb_head = 0,
      sb2q_q = replicate SB2Q_SZ \<lparr>sl_ready = False, sl_msg = SB2Q_MMIO_READ 0 0 0 0\<rparr>, sb2q_tail = 0, sb2q_head = 0,
      sb_ops = Map.empty, sb_bufs = (\<lambda>_. []), sb_pcs = (\<lambda>_. Idle), sb_main = Polling, sb_sbt = Sbt_poll,
      sb_intx_en = False, sb_msi_en' = False, sb_msix_en' = False, d2h_sent = []\<rparr>"

subsection \<open>Threads of the device\<close>

definition set_pc :: "nat \<Rightarrow> sb_pc \<Rightarrow> sb \<Rightarrow> sb" where "set_pc t pc s = s\<lparr>sb_pcs := (sb_pcs s)(t := pc)\<rparr>"

text \<open>Which calls a thread makes: answers are given by the main thread in \<open>mmio_read\<close>; in its loop it only sends
  interrupts; in \<open>mmio_write\<close> and on the other threads anything but an answer can happen.\<close>

definition may_call :: "nat \<Rightarrow> sb_call \<Rightarrow> sb \<Rightarrow> bool" where
  "may_call t c s \<longleftrightarrow>
     (case c of
        Call_read_comp req \<Rightarrow> t = 0 \<and> sb_main s = Reading req
      | Call_irq i \<Rightarrow> t \<noteq> 0 \<or> sb_main s = Polling \<or> sb_main s = In_write
      | _ \<Rightarrow> t \<noteq> 0 \<or> sb_main s = In_write)"

text \<open>\<open>sb_op_alloc\<close>: the slot is taken under the lock, then the thread waits until it is not ready.\<close>

definition sb_take :: "nat \<Rightarrow> sb_call \<Rightarrow> sb \<Rightarrow> sb outcome" where
  "sb_take t c s =
     (if sb_pcs s t = Idle \<and> may_call t c s
      then Next (set_pc t (Waiting (q2sb_tail s) c) (s\<lparr>q2sb_tail := (q2sb_tail s + 1) mod Q2SB_SZ\<rparr>))
      else Blocked)"

definition sb_wait :: "nat \<Rightarrow> sb \<Rightarrow> sb outcome" where
  "sb_wait t s =
     (case sb_pcs s t of
        Waiting i c \<Rightarrow> if sl_ready (q2sb_q s ! i) then Blocked else Next (set_pc t (Writing i c) s)
      | _ \<Rightarrow> Blocked)"

definition is_dma :: "sb_call \<Rightarrow> bool" where
  "is_dma c = (case c of Call_dma_read _ _ \<Rightarrow> True | Call_dma_write _ _ \<Rightarrow> True | _ \<Rightarrow> False)"

text \<open>\<open>mmio_read\<close>, \<open>pci_dma_read\<close>, \<open>pci_dma_write\<close>, \<open>msix_notify\<close>, \<open>msi_notify\<close> and \<open>pci_irq_pulse\<close> fill in the message;
  \<open>d\<close> is the value that a read returns.\<close>

definition q2sb_msg :: "nat \<Rightarrow> sb_call \<Rightarrow> u64 \<Rightarrow> qemu2sb" where
  "q2sb_msg t c d =
     (case c of
        Call_read_comp req \<Rightarrow> Q2SB_MMIO_READ_COMP req d
      | Call_dma_read _ _ \<Rightarrow> Q2SB_DMA_READ t
      | Call_dma_write _ _ \<Rightarrow> Q2SB_DMA_WRITE t
      | Call_irq i \<Rightarrow> Q2SB_INT i)"

definition new_op :: "sb_call \<Rightarrow> u8 list \<Rightarrow> dma_op" where
  "new_op c buf =
     (case c of
        Call_dma_read a len \<Rightarrow> \<lparr>op_data = buf, op_len = len, op_hwaddr = a, op_ready = False\<rparr>
      | Call_dma_write a bs \<Rightarrow> \<lparr>op_data = bs, op_len = length bs, op_hwaddr = a, op_ready = False\<rparr>
      | _ \<Rightarrow> \<lparr>op_data = [], op_len = 0, op_hwaddr = 0, op_ready = False\<rparr>)"

definition sb_fill :: "nat \<Rightarrow> u64 \<Rightarrow> sb \<Rightarrow> sb outcome" where
  "sb_fill t d s =
     (case sb_pcs s t of
        Writing i c \<Rightarrow>
          Next (set_pc t (Written i c)
            (s\<lparr>q2sb_q := (q2sb_q s)[i := (q2sb_q s ! i)\<lparr>sl_msg := q2sb_msg t c d\<rparr>],
               sb_ops := (if is_dma c then (sb_ops s)(t \<mapsto> new_op c (sb_bufs s t)) else sb_ops s)\<rparr>))
      | _ \<Rightarrow> Blocked)"

definition sb_publish :: "nat \<Rightarrow> sb \<Rightarrow> sb outcome" where
  "sb_publish t s =
     (case sb_pcs s t of
        Written i c \<Rightarrow>
          Next (set_pc t (if is_dma c then Awaiting else Idle)
            (s\<lparr>q2sb_q := (q2sb_q s)[i := (q2sb_q s ! i)\<lparr>sl_ready := True\<rparr>],
               sb_main := (case c of Call_read_comp _ \<Rightarrow> Read_done | _ \<Rightarrow> sb_main s)\<rparr>))
      | _ \<Rightarrow> Blocked)"

text \<open>The end of a DMA call: the operation leaves the stack; the buffer holds what was read.\<close>

definition dma_return :: "nat \<Rightarrow> sb \<Rightarrow> sb outcome" where
  "dma_return t s =
     (if sb_pcs s t \<noteq> Awaiting then Blocked
      else
        case sb_ops s t of
          None \<Rightarrow> Fault
        | Some op \<Rightarrow>
            if op_ready op
            then Next (set_pc t Idle (s\<lparr>sb_ops := (sb_ops s)(t := None), sb_bufs := (sb_bufs s)(t := op_data op)\<rparr>))
            else Blocked)"

subsection \<open>The main thread\<close>

definition main_start :: "sb \<Rightarrow> sb outcome" where
  "main_start s =
     (if sb_main s = Polling \<and> sb_pcs s 0 = Idle \<and> sl_ready (sb2q_q s ! sb2q_head s)
      then Next (s\<lparr>sb_main := (case sl_msg (sb2q_q s ! sb2q_head s) of
                                SB2Q_MMIO_READ bar addr len req \<Rightarrow> Reading req
                              | SB2Q_MMIO_WRITE bar addr len data \<Rightarrow> In_write)\<rparr>)
      else Blocked)"

definition main_finish :: "sb \<Rightarrow> sb outcome" where
  "main_finish s =
     (if (sb_main s = Read_done \<or> sb_main s = In_write) \<and> sb_pcs s 0 = Idle
      then Next (s\<lparr>sb2q_q := (sb2q_q s)[sb2q_head s := (sb2q_q s ! sb2q_head s)\<lparr>sl_ready := False\<rparr>],
                   sb2q_head := (sb2q_head s + 1) mod SB2Q_SZ, sb_main := Polling\<rparr>)
      else Blocked)"

subsection \<open>The thread of the simulator\<close>

definition send :: "d2h \<Rightarrow> sb \<Rightarrow> sb" where "send m s = s\<lparr>d2h_sent := d2h_sent s @ [m]\<rparr>"

definition le_value :: "u8 list \<Rightarrow> u64" where
  "le_value bs = of_nat (foldr (\<lambda>b v. unat b + 256 * v) bs 0)"

text \<open>\<open>mmio_read\<close> and \<open>mmio_write\<close> of \<open>wrapper-main.c\<close> up to the wait for a slot; a write is answered at once.  The
  assertion on the length comes after the wait, but its outcome does not depend on it.\<close>

definition dma_read_comp :: "nat \<Rightarrow> u8 list \<Rightarrow> sb \<Rightarrow> sb outcome" where
  "dma_read_comp p bs s =
     (case sb_ops s p of
        None \<Rightarrow> Fault
      | Some op \<Rightarrow>
          if length bs < op_len op then Fault
          else Next (s\<lparr>sb_ops := (sb_ops s)(p \<mapsto> op\<lparr>op_data := take (op_len op) bs, op_ready := True\<rparr>),
                       sb_sbt := Sbt_queue\<rparr>))"

definition sbt_message :: "h2d \<Rightarrow> sb \<Rightarrow> sb outcome" where
  "sbt_message m s =
     (if sb_sbt s \<noteq> Sbt_poll then Blocked
      else
        case m of
          H2D_read req bar offset len \<Rightarrow> Next (s\<lparr>sb_sbt := Sbt_spin (SB2Q_MMIO_READ bar offset len req)\<rparr>)
        | H2D_write req bar offset bs \<Rightarrow>
            if 8 < length bs then Fault
            else Next ((send (D2H_writecomp req) s)
                   \<lparr>sb_sbt := Sbt_spin (SB2Q_MMIO_WRITE bar offset (of_nat (length bs)) (le_value bs))\<rparr>)
        | H2D_devctrl intx msi msix \<Rightarrow>
            Next (s\<lparr>sb_intx_en := intx, sb_msi_en' := msi, sb_msix_en' := msix, sb_sbt := Sbt_queue\<rparr>)
        | H2D_readcomp p bs \<Rightarrow> dma_read_comp p bs s
        | H2D_writecomp req \<Rightarrow> Next (s\<lparr>sb_sbt := Sbt_queue\<rparr>)
        | H2D_unknown ty \<Rightarrow> Next (s\<lparr>sb_sbt := Sbt_queue\<rparr>))"

definition sbt_no_message :: "sb \<Rightarrow> sb outcome" where
  "sbt_no_message s = (if sb_sbt s = Sbt_poll then Next (s\<lparr>sb_sbt := Sbt_queue\<rparr>) else Blocked)"

definition sbt_enqueue :: "sb \<Rightarrow> sb outcome" where
  "sbt_enqueue s =
     (case sb_sbt s of
        Sbt_spin m \<Rightarrow>
          if sl_ready (sb2q_q s ! sb2q_tail s) then Blocked
          else Next (s\<lparr>sb2q_q := (sb2q_q s)[sb2q_tail s := \<lparr>sl_ready = True, sl_msg = m\<rparr>],
                       sb2q_tail := (sb2q_tail s + 1) mod SB2Q_SZ, sb_sbt := Sbt_queue\<rparr>)
      | _ \<Rightarrow> Blocked)"

text \<open>The second half of the loop of \<open>simbricks_thread\<close>.  A DMA write is marked as done once its bytes are in the message.
  The assertion adds the size of a pointer, not of the message.\<close>

definition sbt_send :: "nat \<Rightarrow> sb \<Rightarrow> sb outcome" where
  "sbt_send out_elen s =
     (if sb_sbt s \<noteq> Sbt_queue then Blocked
      else if \<not> sl_ready (q2sb_q s ! q2sb_head s) then Blocked
      else
        let s = s\<lparr>sb_sbt := Sbt_release\<rparr>
        in case sl_msg (q2sb_q s ! q2sb_head s) of
             Q2SB_MMIO_READ_COMP req d \<Rightarrow> Next (send (D2H_readcomp req d) s)
           | Q2SB_DMA_READ p \<Rightarrow>
               (case sb_ops s p of
                  None \<Rightarrow> Fault
                | Some op \<Rightarrow> Next (send (D2H_read p (op_hwaddr op) (op_len op)) s))
           | Q2SB_DMA_WRITE p \<Rightarrow>
               (case sb_ops s p of
                  None \<Rightarrow> Fault
                | Some op \<Rightarrow>
                    if out_elen < 8 + op_len op then Fault
                    else Next (send (D2H_write (op_hwaddr op) (op_data op))
                           (s\<lparr>sb_ops := (sb_ops s)(p \<mapsto> op\<lparr>op_ready := True\<rparr>)\<rparr>)))
           | Q2SB_INT i \<Rightarrow> Next (send (D2H_interrupt i) s))"

definition sbt_nothing :: "sb \<Rightarrow> sb outcome" where
  "sbt_nothing s =
     (if sb_sbt s = Sbt_queue \<and> \<not> sl_ready (q2sb_q s ! q2sb_head s) then Next (s\<lparr>sb_sbt := Sbt_poll\<rparr>) else Blocked)"

definition sbt_release :: "sb \<Rightarrow> sb outcome" where
  "sbt_release s =
     (if sb_sbt s = Sbt_release
      then Next (s\<lparr>q2sb_q := (q2sb_q s)[q2sb_head s := (q2sb_q s ! q2sb_head s)\<lparr>sl_ready := False\<rparr>],
                   q2sb_head := (q2sb_head s + 1) mod Q2SB_SZ, sb_sbt := Sbt_poll\<rparr>)
      else Blocked)"

subsection \<open>Runs\<close>

datatype sb_event = Take nat sb_call | Wait nat | Fill nat u64 | Publish nat | Return nat | Main_start | Main_finish
  | Message h2d | No_message | Enqueue | Send | Nothing | Release

fun sb_step :: "nat \<Rightarrow> sb_event \<Rightarrow> sb \<Rightarrow> sb outcome" where
  "sb_step out_elen (Take t c) s = sb_take t c s"
| "sb_step out_elen (Wait t) s = sb_wait t s"
| "sb_step out_elen (Fill t d) s = sb_fill t d s"
| "sb_step out_elen (Publish t) s = sb_publish t s"
| "sb_step out_elen (Return t) s = dma_return t s"
| "sb_step out_elen Main_start s = main_start s"
| "sb_step out_elen Main_finish s = main_finish s"
| "sb_step out_elen (Message m) s = sbt_message m s"
| "sb_step out_elen No_message s = sbt_no_message s"
| "sb_step out_elen Enqueue s = sbt_enqueue s"
| "sb_step out_elen Send s = sbt_send out_elen s"
| "sb_step out_elen Nothing s = sbt_nothing s"
| "sb_step out_elen Release s = sbt_release s"

primrec sb_run :: "nat \<Rightarrow> sb_event list \<Rightarrow> sb \<Rightarrow> sb outcome" where
  "sb_run out_elen [] s = Next s"
| "sb_run out_elen (e # es) s =
     (case sb_step out_elen e s of Blocked \<Rightarrow> Blocked | Fault \<Rightarrow> Fault | Next s \<Rightarrow> sb_run out_elen es s)"

end
