(* ===== verification/Sb_Ring.thy ===== *)
theory Sb_Ring
  imports Sb_Queue
begin

text \<open>
  The tickets of a run of \<open>Sb_Queue\<close>: who has taken a slot of \<open>q2sb_q\<close>, in which order, for which call and how far it
  has come.  The array of slots holds a window of the tickets; the lemmas say what each step does to that agreement.
\<close>

subsection \<open>Tickets\<close>

datatype stage = T_wait | T_write | T_written | T_done

record ticket =
  tk_thread :: nat
  tk_call :: sb_call
  tk_data :: u64
  tk_stage :: stage

definition tk_msg :: "ticket \<Rightarrow> qemu2sb" where "tk_msg e = q2sb_msg (tk_thread e) (tk_call e) (tk_data e)"

text \<open>A thread has at most one ticket that is not done.\<close>

definition upd_ticket :: "nat \<Rightarrow> (ticket \<Rightarrow> ticket) \<Rightarrow> ticket list \<Rightarrow> ticket list" where
  "upd_ticket t f h = map (\<lambda>e. if tk_thread e = t \<and> tk_stage e \<noteq> T_done then f e else e) h"

lemma upd_ticket_at:
  assumes "k < length h" "tk_thread (h ! k) = t" "tk_stage (h ! k) \<noteq> T_done"
    "\<And>j. j < length h \<Longrightarrow> tk_thread (h ! j) = t \<Longrightarrow> tk_stage (h ! j) \<noteq> T_done \<Longrightarrow> j = k"
  shows "upd_ticket t f h = h[k := f (h ! k)]"
proof (rule nth_equalityI)
  fix j
  assume j: "j < length (upd_ticket t f h)"
  show "upd_ticket t f h ! j = h[k := f (h ! k)] ! j"
  proof (cases "j = k")
    case True
    then show ?thesis using assms(1-3) by (simp add: upd_ticket_def)
  next
    case False
    then have "tk_thread (h ! j) \<noteq> t \<or> tk_stage (h ! j) = T_done" using assms(4) [of j] j by (auto simp: upd_ticket_def)
    then show ?thesis using False j by (auto simp: upd_ticket_def)
  qed
qed (simp add: upd_ticket_def)

subsection \<open>The window\<close>

lemma window_mod_inj:
  assumes "j mod (128 :: nat) = k mod 128" "b \<le> j" "j < b + 128" "b \<le> k" "k < b + 128"
  shows "j = k"
proof -
  have "j = k" if "j \<le> k" "j mod 128 = k mod 128" "k < j + 128" for j k :: nat
  proof -
    have "128 dvd k - j" using that(1,2) by (simp add: mod_eq_dvd_iff_nat [symmetric])
    moreover have "k - j < 128" using that by simp
    ultimately show ?thesis using that(1) by (auto dest: nat_dvd_not_less)
  qed
  from this [of j k] this [of k j] assms show ?thesis by (cases "j \<le> k") auto
qed

definition slot_ok :: "ticket \<Rightarrow> qemu2sb slot \<Rightarrow> bool" where
  "slot_ok e sl \<longleftrightarrow> (sl_ready sl \<longleftrightarrow> tk_stage e = T_done) \<and> (tk_stage e = T_written \<or> tk_stage e = T_done \<longrightarrow> sl_msg sl = tk_msg e)"

definition window_ok :: "qemu2sb slot list \<Rightarrow> nat \<Rightarrow> nat \<Rightarrow> ticket list \<Rightarrow> nat \<Rightarrow> bool" where
  "window_ok q hd' tl' h b \<longleftrightarrow>
     length q = 128 \<and> hd' = b mod 128 \<and> tl' = length h mod 128 \<and> b \<le> length h \<and>
     (\<forall>k < b. tk_stage (h ! k) = T_done) \<and>
     (\<forall>k. b \<le> k \<longrightarrow> k < b + 128 \<longrightarrow> k < length h \<longrightarrow> slot_ok (h ! k) (q ! (k mod 128))) \<and>
     (\<forall>k. length h \<le> k \<longrightarrow> k < b + 128 \<longrightarrow> \<not> sl_ready (q ! (k mod 128))) \<and>
     (\<forall>k. b + 128 \<le> k \<longrightarrow> k < length h \<longrightarrow> tk_stage (h ! k) = T_wait) \<and>
     (\<forall>k. k + 128 < length h \<longrightarrow> tk_stage (h ! k) = T_done)"

definition not_lapped :: "ticket list \<Rightarrow> bool" where
  "not_lapped h \<longleftrightarrow> length h < 128 \<or> tk_stage (h ! (length h - 128)) = T_done"

lemma ring_init: "window_ok (q2sb_q sb_init) 0 0 [] 0"
  by (auto simp: window_ok_def sb_init_def Q2SB_SZ_def)

lemma ring_take:
  assumes "window_ok q hd' tl' h b" "not_lapped h" "tk_stage e = T_wait"
  shows "window_ok q hd' ((tl' + 1) mod Q2SB_SZ) (h @ [e]) b"
proof -
  have "slot_ok ((h @ [e]) ! k) (q ! (k mod 128))" if "b \<le> k" "k < b + 128" "k < length (h @ [e])" for k
    using assms that by (cases "k = length h") (auto simp: window_ok_def slot_ok_def nth_append)
  moreover have "tk_stage ((h @ [e]) ! k) = T_wait" if "b + 128 \<le> k" "k < length (h @ [e])" for k
    using assms that by (cases "k = length h") (auto simp: window_ok_def nth_append)
  moreover have "tk_stage ((h @ [e]) ! k) = T_done" if "k + 128 < length (h @ [e])" for k
  proof (cases "k + 128 = length h")
    case True
    then have "k = length h - 128" "\<not> length h < 128" by auto
    moreover from this have "k < length h" by simp
    ultimately show ?thesis using assms(2) by (simp add: not_lapped_def nth_append)
  next
    case False
    then show ?thesis using assms(1) that by (simp add: window_ok_def nth_append)
  qed
  moreover have "tk_stage ((h @ [e]) ! k) = T_done" if "k < b" for k
    using assms(1) that by (simp add: window_ok_def nth_append)
  ultimately show ?thesis using assms(1) unfolding window_ok_def by (simp add: Q2SB_SZ_def mod_Suc_eq)
qed

lemma ring_window:
  assumes "window_ok q hd' tl' h b" "k < length h" "tk_stage (h ! k) \<noteq> T_done"
  shows "b \<le> k" and "tk_stage (h ! k) \<noteq> T_wait \<or> \<not> sl_ready (q ! (k mod 128)) \<Longrightarrow> k < b + 128"
proof -
  have "\<forall>k < b. tk_stage (h ! k) = T_done" using assms(1) by (simp add: window_ok_def)
  then show b: "b \<le> k" using assms(3) by (meson not_le)
  assume c: "tk_stage (h ! k) \<noteq> T_wait \<or> \<not> sl_ready (q ! (k mod 128))"
  show "k < b + 128"
  proof (rule ccontr)
    assume ge: "\<not> k < b + 128"
    then have w: "tk_stage (h ! k) = T_wait" using assms(1,2) by (simp add: window_ok_def)
    define j where "j = k - 128"
    have j: "k = j + 128" "b \<le> j" using ge by (auto simp: j_def)
    have d: "tk_stage (h ! j) = T_done" using assms(1,2) j(1) by (simp add: window_ok_def)
    have "j < b + 128"
    proof (rule ccontr)
      assume "\<not> j < b + 128"
      then have "tk_stage (h ! j) = T_wait" using assms(1,2) j(1) by (simp add: window_ok_def)
      then show False using d by simp
    qed
    then have "slot_ok (h ! j) (q ! (j mod 128))" using assms(1,2) j by (simp add: window_ok_def)
    then have "sl_ready (q ! (k mod 128))" using d j(1) by (simp add: slot_ok_def)
    then show False using c w by simp
  qed
qed

lemma ring_update:
  assumes "window_ok q hd' tl' h b" "b \<le> k" "k < b + 128" "k < length h" "tk_stage (h ! k) \<noteq> T_done" "slot_ok e sl"
  shows "window_ok (q[k mod 128 := sl]) hd' tl' (h[k := e]) b"
proof -
  have len: "length q = 128" using assms(1) by (simp add: window_ok_def)
  have "slot_ok (h[k := e] ! j) (q[k mod 128 := sl] ! (j mod 128))" if "b \<le> j" "j < b + 128" "j < length h" for j
  proof (cases "j = k")
    case True
    then show ?thesis using assms(4,6) len by simp
  next
    case False
    then have "j mod 128 \<noteq> k mod 128" using window_mod_inj [of j k b] that assms(2,3) by auto
    then show ?thesis using assms(1) that False by (simp add: window_ok_def)
  qed
  moreover have "\<not> sl_ready (q[k mod 128 := sl] ! (j mod 128))" if "length h \<le> j" "j < b + 128" for j
  proof -
    have "j mod 128 \<noteq> k mod 128" using window_mod_inj [of j k b] that assms(2-4) by auto
    then show ?thesis using assms(1) that by (simp add: window_ok_def)
  qed
  moreover have "tk_stage (h[k := e] ! j) = T_done" if "j < b \<or> j + 128 < length h" for j
    using assms(1,2,4,5) that by (cases "j = k") (auto simp: window_ok_def)
  moreover have "tk_stage (h[k := e] ! j) = T_wait" if "b + 128 \<le> j" "j < length h" for j
    using assms(1,3) that by (simp add: window_ok_def)
  ultimately show ?thesis using assms(1) by (simp add: window_ok_def)
qed

lemma ring_release:
  assumes "window_ok q hd' tl' h b" "b < length h" "tk_stage (h ! b) = T_done"
  shows "window_ok (q[hd' := (q ! hd')\<lparr>sl_ready := False\<rparr>]) ((hd' + 1) mod Q2SB_SZ) tl' h (b + 1)"
proof -
  let ?q = "q[hd' := (q ! hd')\<lparr>sl_ready := False\<rparr>]"
  have len: "length q = 128" and hd': "hd' = b mod 128" using assms(1) by (auto simp: window_ok_def)
  have same: "?q ! (k mod 128) = q ! (k mod 128)" if "b < k" "k < b + 128" for k
  proof -
    have "b mod 128 \<noteq> k mod 128" using window_mod_inj [of b k b] that by auto
    then show ?thesis unfolding hd' by (rule nth_list_update_neq)
  qed
  have new: "\<not> sl_ready (?q ! ((b + 128) mod 128))" using len hd' by simp
  have "slot_ok (h ! k) (?q ! (k mod 128))" if "b + 1 \<le> k" "k < b + 1 + 128" "k < length h" for k
  proof (cases "k = b + 128")
    case True
    then have "tk_stage (h ! k) = T_wait" using assms(1) that by (simp add: window_ok_def)
    then show ?thesis using new True by (simp add: slot_ok_def)
  next
    case False
    then show ?thesis using assms(1) that same [of k] by (simp add: window_ok_def)
  qed
  moreover have "\<not> sl_ready (?q ! (k mod 128))" if "length h \<le> k" "k < b + 1 + 128" for k
  proof (cases "k = b + 128")
    case True
    then show ?thesis using new by simp
  next
    case False
    then show ?thesis using assms(1,2) that same [of k] by (simp add: window_ok_def)
  qed
  moreover have "tk_stage (h ! k) = T_done" if "k < b + 1" for k
    using assms(1,3) that by (cases "k = b") (auto simp: window_ok_def)
  ultimately show ?thesis using assms(1,2) hd' by (simp add: window_ok_def Q2SB_SZ_def mod_Suc_eq)
qed

end
