(* ===== verification/Sb_Inv.thy ===== *)
theory Sb_Inv
  imports Sb_Ring
begin

text \<open>
  The invariant of the runs of \<open>Sb_Queue\<close>: the threads stand where their tickets say, a DMA operation exists as long
  as a message points to it, and the messages to the simulator are those of the tickets, in order.
\<close>

subsection \<open>Traces\<close>

record sb_trace =
  tr_tickets :: "ticket list"
  tr_sent :: nat
  tr_reads :: "nat \<rightharpoonup> nat"

definition tr_init :: sb_trace where "tr_init = \<lparr>tr_tickets = [], tr_sent = 0, tr_reads = Map.empty\<rparr>"

definition read_length :: "sb_call \<Rightarrow> nat option" where
  "read_length c = (case c of Call_dma_read a len \<Rightarrow> Some len | _ \<Rightarrow> None)"

definition upd_trace :: "nat \<Rightarrow> (ticket \<Rightarrow> ticket) \<Rightarrow> sb_trace \<Rightarrow> sb_trace" where
  "upd_trace t f tr = tr\<lparr>tr_tickets := upd_ticket t f (tr_tickets tr)\<rparr>"

fun note_event :: "sb_event \<Rightarrow> sb_trace \<Rightarrow> sb_trace" where
  "note_event (Take t c) tr =
     tr\<lparr>tr_tickets := tr_tickets tr @ [\<lparr>tk_thread = t, tk_call = c, tk_data = 0, tk_stage = T_wait\<rparr>]\<rparr>"
| "note_event (Wait t) tr = upd_trace t (\<lambda>e. e\<lparr>tk_stage := T_write\<rparr>) tr"
| "note_event (Fill t d) tr = upd_trace t (\<lambda>e. e\<lparr>tk_data := d, tk_stage := T_written\<rparr>) tr"
| "note_event (Publish t) tr = upd_trace t (\<lambda>e. e\<lparr>tk_stage := T_done\<rparr>) tr"
| "note_event Send tr =
     (let e = tr_tickets tr ! tr_sent tr
      in tr\<lparr>tr_sent := tr_sent tr + 1,
            tr_reads := (case read_length (tk_call e) of None \<Rightarrow> tr_reads tr | Some len \<Rightarrow> (tr_reads tr)(tk_thread e \<mapsto> len))\<rparr>)"
| "note_event (Message m) tr =
     (case m of H2D_readcomp p bs \<Rightarrow> tr\<lparr>tr_reads := (tr_reads tr)(p := None)\<rparr> | _ \<Rightarrow> tr)"
| "note_event _ tr = tr"

definition trace_of :: "sb_event list \<Rightarrow> sb_trace" where "trace_of evs = fold note_event evs tr_init"

text \<open>A run in which no ticket is taken while the one 128 before it is unfinished, the host answers the DMA reads it was
  sent, once and in full, writes at most 8 bytes to a register, and the device's own writes fit in a message.\<close>

fun orderly_event :: "nat \<Rightarrow> sb_event \<Rightarrow> sb_trace \<Rightarrow> bool" where
  "orderly_event out_elen (Take t c) tr \<longleftrightarrow>
     not_lapped (tr_tickets tr) \<and> (case c of Call_dma_write a bs \<Rightarrow> 8 + length bs \<le> out_elen | _ \<Rightarrow> True)"
| "orderly_event out_elen (Message m) tr \<longleftrightarrow>
     (case m of
        H2D_write req bar offset bs \<Rightarrow> length bs \<le> 8
      | H2D_readcomp p bs \<Rightarrow> (case tr_reads tr p of None \<Rightarrow> False | Some len \<Rightarrow> len \<le> length bs)
      | _ \<Rightarrow> True)"
| "orderly_event out_elen _ tr \<longleftrightarrow> True"

primrec orderly_from :: "nat \<Rightarrow> sb_event list \<Rightarrow> sb_trace \<Rightarrow> bool" where
  "orderly_from out_elen [] tr \<longleftrightarrow> True"
| "orderly_from out_elen (e # es) tr \<longleftrightarrow> orderly_event out_elen e tr \<and> orderly_from out_elen es (note_event e tr)"

subsection \<open>The invariant\<close>

text \<open>What the simulator is sent for a ticket, and which of its messages come from the queue.\<close>

definition d2h_of :: "ticket \<Rightarrow> d2h" where
  "d2h_of e =
     (case tk_call e of
        Call_read_comp req \<Rightarrow> D2H_readcomp req (tk_data e)
      | Call_dma_read a len \<Rightarrow> D2H_read (tk_thread e) a len
      | Call_dma_write a bs \<Rightarrow> D2H_write a bs
      | Call_irq i \<Rightarrow> D2H_interrupt i)"

definition from_queue :: "d2h \<Rightarrow> bool" where "from_queue m = (case m of D2H_writecomp _ \<Rightarrow> False | _ \<Rightarrow> True)"

definition pc_of :: "nat \<Rightarrow> ticket \<Rightarrow> sb_pc" where
  "pc_of k e =
     (case tk_stage e of
        T_wait \<Rightarrow> Waiting (k mod 128) (tk_call e)
      | T_write \<Rightarrow> Writing (k mod 128) (tk_call e)
      | T_written \<Rightarrow> Written (k mod 128) (tk_call e)
      | T_done \<Rightarrow> Idle)"

definition in_alloc :: "sb_pc \<Rightarrow> bool" where
  "in_alloc pc = (case pc of Idle \<Rightarrow> False | Awaiting \<Rightarrow> False | _ \<Rightarrow> True)"

definition threads_ok :: "(nat \<Rightarrow> sb_pc) \<Rightarrow> ticket list \<Rightarrow> nat \<Rightarrow> bool" where
  "threads_ok pcs h n \<longleftrightarrow>
     (\<forall>k < length h. tk_stage (h ! k) \<noteq> T_done \<longrightarrow> pcs (tk_thread (h ! k)) = pc_of k (h ! k)) \<and>
     (\<forall>t. in_alloc (pcs t) \<longrightarrow> (\<exists>k < length h. tk_thread (h ! k) = t \<and> tk_stage (h ! k) \<noteq> T_done)) \<and>
     (\<forall>j k. j < k \<longrightarrow> k < length h \<longrightarrow> tk_thread (h ! j) = tk_thread (h ! k) \<longrightarrow>
        tk_stage (h ! j) = T_done \<and> (is_dma (tk_call (h ! j)) \<longrightarrow> j < n)) \<and>
     (\<forall>k < length h. n \<le> k \<longrightarrow> tk_stage (h ! k) = T_done \<longrightarrow> is_dma (tk_call (h ! k)) \<longrightarrow> pcs (tk_thread (h ! k)) = Awaiting)"

definition ops_ok :: "(nat \<rightharpoonup> dma_op) \<Rightarrow> (nat \<Rightarrow> sb_pc) \<Rightarrow> ticket list \<Rightarrow> nat \<Rightarrow> (nat \<rightharpoonup> nat) \<Rightarrow> bool" where
  "ops_ok ops pcs h n reads \<longleftrightarrow>
     (\<forall>k < length h. is_dma (tk_call (h ! k)) \<longrightarrow> tk_stage (h ! k) = T_written \<or> tk_stage (h ! k) = T_done \<and> n \<le> k \<longrightarrow>
        (\<exists>buf. ops (tk_thread (h ! k)) = Some (new_op (tk_call (h ! k)) buf))) \<and>
     (\<forall>t. pcs t = Awaiting \<longrightarrow> ops t \<noteq> None) \<and>
     (\<forall>p len. reads p = Some len \<longrightarrow> pcs p = Awaiting \<and> (\<exists>op. ops p = Some op \<and> \<not> op_ready op \<and> op_len op = len) \<and>
        (\<forall>k < length h. n \<le> k \<longrightarrow> tk_thread (h ! k) \<noteq> p))"

definition sent_ok :: "nat \<Rightarrow> d2h list \<Rightarrow> ticket list \<Rightarrow> nat \<Rightarrow> bool" where
  "sent_ok out_elen out h n \<longleftrightarrow>
     n \<le> length h \<and> (\<forall>k < n. tk_stage (h ! k) = T_done) \<and> filter from_queue out = map d2h_of (take n h) \<and>
     (\<forall>k < length h. case tk_call (h ! k) of Call_dma_write a bs \<Rightarrow> 8 + length bs \<le> out_elen | _ \<Rightarrow> True)"

definition released :: "sb \<Rightarrow> sb_trace \<Rightarrow> nat" where
  "released s tr = (if sb_sbt s = Sbt_release then tr_sent tr - 1 else tr_sent tr)"

definition q2sb_ok :: "nat \<Rightarrow> sb \<Rightarrow> sb_trace \<Rightarrow> bool" where
  "q2sb_ok out_elen s tr \<longleftrightarrow>
     (sb_sbt s = Sbt_release \<longrightarrow> 0 < tr_sent tr) \<and>
     window_ok (q2sb_q s) (q2sb_head s) (q2sb_tail s) (tr_tickets tr) (released s tr) \<and>
     threads_ok (sb_pcs s) (tr_tickets tr) (tr_sent tr) \<and>
     ops_ok (sb_ops s) (sb_pcs s) (tr_tickets tr) (tr_sent tr) (tr_reads tr) \<and>
     sent_ok out_elen (d2h_sent s) (tr_tickets tr) (tr_sent tr)"

lemma q2sb_ok_init: "q2sb_ok out_elen sb_init tr_init"
  using ring_init by (simp add: q2sb_ok_def released_def tr_init_def threads_ok_def ops_ok_def sent_ok_def sb_init_def in_alloc_def)

lemma unfinished_unique:
  assumes "threads_ok pcs h n" "k < length h" "tk_stage (h ! k) \<noteq> T_done"
    "j < length h" "tk_thread (h ! j) = tk_thread (h ! k)" "tk_stage (h ! j) \<noteq> T_done"
  shows "j = k"
proof -
  have "tk_stage (h ! i) = T_done" if "i < l" "l < length h" "tk_thread (h ! i) = tk_thread (h ! l)" for i l
    using assms(1) that unfolding threads_ok_def by blast
  then show ?thesis using assms(2-6) by (metis linorder_neqE_nat)
qed

text \<open>The ticket of a thread that is in \<open>sb_op_alloc\<close> or fills in its message.\<close>

lemma thread_ticket:
  assumes "threads_ok pcs h n" "in_alloc (pcs t)"
  obtains k where "k < length h" "tk_thread (h ! k) = t" "tk_stage (h ! k) \<noteq> T_done" "pcs t = pc_of k (h ! k)"
    "\<And>f. upd_ticket t f h = h[k := f (h ! k)]"
proof -
  obtain k where k: "k < length h" "tk_thread (h ! k) = t" "tk_stage (h ! k) \<noteq> T_done"
    using assms unfolding threads_ok_def by blast
  moreover have "pcs t = pc_of k (h ! k)" using assms(1) k unfolding threads_ok_def by blast
  moreover have "upd_ticket t f h = h[k := f (h ! k)]" for f
    by (rule upd_ticket_at [OF k]) (use unfinished_unique [OF assms(1) k(1,3)] k(2) in auto)
  ultimately show thesis by (rule that)
qed

end
