(* ===== verification/Sb_Steps.thy ===== *)
theory Sb_Steps
  imports Sb_Inv
begin

text \<open>Every step of an orderly run keeps the invariant of \<open>Sb_Inv\<close> and has defined behaviour.\<close>

subsection \<open>The parts of the invariant\<close>

lemma pc_of_alloc: "tk_stage e \<noteq> T_done \<Longrightarrow> pc_of k e \<noteq> Idle \<and> pc_of k e \<noteq> Awaiting \<and> in_alloc (pc_of k e)"
  by (cases "tk_stage e") (auto simp: pc_of_def in_alloc_def)

lemma threads_unfinished:
  "threads_ok pcs h n \<Longrightarrow> k < length h \<Longrightarrow> tk_stage (h ! k) \<noteq> T_done \<Longrightarrow> pcs (tk_thread (h ! k)) = pc_of k (h ! k)"
  unfolding threads_ok_def by blast

lemma threads_order:
  "threads_ok pcs h n \<Longrightarrow> j < k \<Longrightarrow> k < length h \<Longrightarrow> tk_thread (h ! j) = tk_thread (h ! k) \<Longrightarrow>
   tk_stage (h ! j) = T_done \<and> (is_dma (tk_call (h ! j)) \<longrightarrow> j < n)"
  unfolding threads_ok_def by blast

lemma threads_awaiting:
  "threads_ok pcs h n \<Longrightarrow> k < length h \<Longrightarrow> n \<le> k \<Longrightarrow> tk_stage (h ! k) = T_done \<Longrightarrow> is_dma (tk_call (h ! k)) \<Longrightarrow>
   pcs (tk_thread (h ! k)) = Awaiting"
  unfolding threads_ok_def by blast

lemma ops_of_ticket:
  "ops_ok ops pcs h n reads \<Longrightarrow> k < length h \<Longrightarrow> is_dma (tk_call (h ! k)) \<Longrightarrow>
   tk_stage (h ! k) = T_written \<or> tk_stage (h ! k) = T_done \<and> n \<le> k \<Longrightarrow>
   \<exists>buf. ops (tk_thread (h ! k)) = Some (new_op (tk_call (h ! k)) buf)"
  unfolding ops_ok_def by blast

lemma ops_of_read:
  "ops_ok ops pcs h n reads \<Longrightarrow> reads p = Some len \<Longrightarrow>
   pcs p = Awaiting \<and> (\<exists>op. ops p = Some op \<and> \<not> op_ready op \<and> op_len op = len) \<and> (\<forall>k < length h. n \<le> k \<longrightarrow> tk_thread (h ! k) \<noteq> p)"
  unfolding ops_ok_def by blast

lemma new_op_not_ready [simp]: "\<not> op_ready (new_op c buf)"
  by (simp add: new_op_def split: sb_call.split)

lemma sent_done: "sent_ok out_elen out h n \<Longrightarrow> k < length h \<Longrightarrow> tk_stage (h ! k) \<noteq> T_done \<Longrightarrow> n \<le> k"
  unfolding sent_ok_def by (meson not_le)

subsection \<open>Taking a ticket\<close>

lemma threads_take:
  assumes T: "threads_ok pcs h n" and "pcs t = Idle" "tk_thread e = t" "tk_stage e = T_wait"
  shows "threads_ok (pcs(t := Waiting (length h mod 128) (tk_call e))) (h @ [e]) n"
proof -
  have other: "tk_thread (h ! k) \<noteq> t" if "k < length h" "tk_stage (h ! k) \<noteq> T_done" for k
    using threads_unfinished [OF T that] pc_of_alloc [OF that(2), of k] assms(2) by auto
  have past: "tk_stage (h ! j) = T_done \<and> (is_dma (tk_call (h ! j)) \<longrightarrow> j < n)" if "j < length h" "tk_thread (h ! j) = t" for j
  proof -
    have d: "tk_stage (h ! j) = T_done" using other [OF that(1)] that(2) by auto
    moreover have "j < n" if "is_dma (tk_call (h ! j))"
      using threads_awaiting [OF T \<open>j < length h\<close> _ d that] \<open>tk_thread (h ! j) = t\<close> assms(2) by (cases "n \<le> j") auto
    ultimately show ?thesis by blast
  qed
  have "(pcs(t := Waiting (length h mod 128) (tk_call e))) (tk_thread ((h @ [e]) ! k)) = pc_of k ((h @ [e]) ! k)"
    if "k < length (h @ [e])" "tk_stage ((h @ [e]) ! k) \<noteq> T_done" for k
    using that assms(3,4) threads_unfinished [OF T] other by (cases "k = length h") (auto simp: nth_append pc_of_def)
  moreover have "\<exists>k < length (h @ [e]). tk_thread ((h @ [e]) ! k) = u \<and> tk_stage ((h @ [e]) ! k) \<noteq> T_done"
    if a: "in_alloc ((pcs(t := Waiting (length h mod 128) (tk_call e))) u)" for u
  proof (cases "u = t")
    case True
    then show ?thesis using assms(3,4) by (intro exI [of _ "length h"]) simp
  next
    case False
    then obtain k where "k < length h" "tk_thread (h ! k) = u" "tk_stage (h ! k) \<noteq> T_done"
      using a T unfolding threads_ok_def by auto
    then show ?thesis by (intro exI [of _ k]) (simp add: nth_append)
  qed
  moreover have "tk_stage ((h @ [e]) ! j) = T_done \<and> (is_dma (tk_call ((h @ [e]) ! j)) \<longrightarrow> j < n)"
    if "j < k" "k < length (h @ [e])" "tk_thread ((h @ [e]) ! j) = tk_thread ((h @ [e]) ! k)" for j k
    using that past [of j] threads_order [OF T, of j k] assms(3) by (cases "k = length h") (auto simp: nth_append)
  moreover have "(pcs(t := Waiting (length h mod 128) (tk_call e))) (tk_thread ((h @ [e]) ! k)) = Awaiting"
    if "k < length (h @ [e])" "n \<le> k" "tk_stage ((h @ [e]) ! k) = T_done" "is_dma (tk_call ((h @ [e]) ! k))" for k
    using that threads_awaiting [OF T, of k] assms(2,4) by (cases "k = length h") (auto simp: nth_append)
  ultimately show ?thesis unfolding threads_ok_def by blast
qed

lemma ops_take:
  assumes "ops_ok ops pcs h n reads" "pcs t = Idle" "tk_thread e = t" "tk_stage e = T_wait"
  shows "ops_ok ops (pcs(t := Waiting i c)) (h @ [e]) n reads"
proof -
  have "\<exists>buf. ops (tk_thread ((h @ [e]) ! k)) = Some (new_op (tk_call ((h @ [e]) ! k)) buf)"
    if "k < length (h @ [e])" "is_dma (tk_call ((h @ [e]) ! k))"
      "tk_stage ((h @ [e]) ! k) = T_written \<or> tk_stage ((h @ [e]) ! k) = T_done \<and> n \<le> k" for k
    using that ops_of_ticket [OF assms(1), of k] assms(4) by (cases "k = length h") (auto simp: nth_append)
  moreover have "(pcs(t := Waiting i c)) p = Awaiting \<and> (\<exists>op. ops p = Some op \<and> \<not> op_ready op \<and> op_len op = len) \<and>
      (\<forall>k < length (h @ [e]). n \<le> k \<longrightarrow> tk_thread ((h @ [e]) ! k) \<noteq> p)" if "reads p = Some len" for p len
    using ops_of_read [OF assms(1) that] assms(2,3) by (auto simp: nth_append)
  ultimately show ?thesis using assms(1,2) unfolding ops_ok_def by auto
qed

subsection \<open>Moving on a ticket\<close>

lemma threads_update:
  assumes T: "threads_ok pcs h n" and k: "k < length h" "tk_thread (h ! k) = t" "tk_stage (h ! k) \<noteq> T_done"
    and e: "tk_thread e = t" "tk_call e = tk_call (h ! k)"
    and pc: "pc = (if tk_stage e \<noteq> T_done then pc_of k e else if is_dma (tk_call e) then Awaiting else Idle)"
  shows "threads_ok (pcs(t := pc)) (h[k := e]) n"
proof -
  have t: "pcs t = pc_of k (h ! k)" using threads_unfinished [OF T k(1,3)] k(2) by simp
  have "(pcs(t := pc)) (tk_thread (h[k := e] ! j)) = pc_of j (h[k := e] ! j)"
    if "j < length (h[k := e])" "tk_stage (h[k := e] ! j) \<noteq> T_done" for j
    using that k(1) e(1) pc threads_unfinished [OF T, of j] unfinished_unique [OF T k(1,3), of j] k(2)
    by (cases "j = k") auto
  moreover have "\<exists>j < length (h[k := e]). tk_thread (h[k := e] ! j) = u \<and> tk_stage (h[k := e] ! j) \<noteq> T_done"
    if a: "in_alloc ((pcs(t := pc)) u)" for u
  proof (cases "u = t")
    case True
    then have "tk_stage e \<noteq> T_done" using a pc by (auto simp: in_alloc_def split: if_splits)
    then show ?thesis using True k(1) e(1) by (intro exI [of _ k]) simp
  next
    case False
    then obtain j where j: "j < length h" "tk_thread (h ! j) = u" "tk_stage (h ! j) \<noteq> T_done"
      using a T unfolding threads_ok_def by auto
    moreover from this have "j \<noteq> k" using False k(2) by auto
    ultimately show ?thesis by (intro exI [of _ j]) simp
  qed
  moreover have "tk_stage (h[k := e] ! i) = T_done \<and> (is_dma (tk_call (h[k := e] ! i)) \<longrightarrow> i < n)"
    if "i < j" "j < length (h[k := e])" "tk_thread (h[k := e] ! i) = tk_thread (h[k := e] ! j)" for i j
  proof -
    have same: "tk_thread (h[k := e] ! l) = tk_thread (h ! l)" for l
      using k(1,2) e(1) by (cases "l = k") auto
    have "tk_stage (h ! i) = T_done \<and> (is_dma (tk_call (h ! i)) \<longrightarrow> i < n)"
      using threads_order [OF T, of i j] that same by simp
    moreover from this have "i \<noteq> k" using k(3) by auto
    ultimately show ?thesis by simp
  qed
  moreover have "(pcs(t := pc)) (tk_thread (h[k := e] ! j)) = Awaiting"
    if "j < length (h[k := e])" "n \<le> j" "tk_stage (h[k := e] ! j) = T_done" "is_dma (tk_call (h[k := e] ! j))" for j
    using that k(1) e(1) pc threads_awaiting [OF T, of j] t pc_of_alloc [OF k(3), of k] by (cases "j = k") auto
  ultimately show ?thesis unfolding threads_ok_def by blast
qed

lemma ops_update:
  assumes O: "ops_ok ops pcs h n reads" and T: "threads_ok pcs h n"
    and k: "k < length h" "tk_thread (h ! k) = t" "tk_stage (h ! k) \<noteq> T_done"
    and e: "tk_thread e = t" "tk_call e = tk_call (h ! k)"
    and ops': "ops' = ops \<or> is_dma (tk_call e) \<and> (\<exists>op. ops' = ops(t \<mapsto> op))"
    and new: "is_dma (tk_call e) \<Longrightarrow> tk_stage e = T_written \<or> tk_stage e = T_done \<Longrightarrow> \<exists>buf. ops' t = Some (new_op (tk_call e) buf)"
    and pc: "pc = Awaiting \<Longrightarrow> is_dma (tk_call e) \<and> tk_stage e = T_done"
  shows "ops_ok ops' (pcs(t := pc)) (h[k := e]) n reads"
proof -
  have t: "pcs t \<noteq> Awaiting" using threads_unfinished [OF T k(1,3)] pc_of_alloc [OF k(3), of k] k(2) by simp
  have elsewhere: "ops' u = ops u" if "u \<noteq> t" for u using ops' that by auto
  have same: "tk_thread (h[k := e] ! j) = tk_thread (h ! j)" for j using k(1,2) e(1) by (cases "j = k") auto
  have "\<exists>buf. ops' (tk_thread (h[k := e] ! j)) = Some (new_op (tk_call (h[k := e] ! j)) buf)"
    if j: "j < length (h[k := e])" "is_dma (tk_call (h[k := e] ! j))"
      "tk_stage (h[k := e] ! j) = T_written \<or> tk_stage (h[k := e] ! j) = T_done \<and> n \<le> j" for j
  proof (cases "j = k")
    case True
    then show ?thesis using j e(1) new k(1) by auto
  next
    case False
    then have j': "j < length h" "is_dma (tk_call (h ! j))" "tk_stage (h ! j) = T_written \<or> tk_stage (h ! j) = T_done \<and> n \<le> j"
      using j by auto
    have "tk_thread (h ! j) \<noteq> t"
    proof
      assume jt: "tk_thread (h ! j) = t"
      have "tk_stage (h ! j) = T_done" using unfinished_unique [OF T k(1,3), of j] False j'(1) jt k(2) by auto
      then have "pcs t = Awaiting" using threads_awaiting [OF T j'(1)] j'(2,3) jt by auto
      then show False using t by simp
    qed
    then show ?thesis using ops_of_ticket [OF O j'] False elsewhere by simp
  qed
  moreover have "ops' u \<noteq> None" if u: "(pcs(t := pc)) u = Awaiting" for u
  proof (cases "u = t")
    case True
    then show ?thesis using u new pc by fastforce
  next
    case False
    then show ?thesis using u O elsewhere unfolding ops_ok_def by auto
  qed
  moreover have "(pcs(t := pc)) p = Awaiting \<and> (\<exists>op. ops' p = Some op \<and> \<not> op_ready op \<and> op_len op = len) \<and>
      (\<forall>j < length (h[k := e]). n \<le> j \<longrightarrow> tk_thread (h[k := e] ! j) \<noteq> p)" if r: "reads p = Some len" for p len
  proof -
    have "p \<noteq> t" using ops_of_read [OF O r] t by auto
    then show ?thesis using ops_of_read [OF O r] elsewhere same by simp
  qed
  ultimately show ?thesis unfolding ops_ok_def by blast
qed

lemma sent_update:
  assumes "sent_ok out_elen out h n" "k < length h" "tk_stage (h ! k) \<noteq> T_done" "tk_call e = tk_call (h ! k)"
  shows "sent_ok out_elen out (h[k := e]) n"
proof -
  have k: "n \<le> k" by (rule sent_done [OF assms(1-3)])
  have "case tk_call (h[k := e] ! j) of Call_dma_write a bs \<Rightarrow> 8 + length bs \<le> out_elen | _ \<Rightarrow> True" if "j < length h" for j
    using assms that unfolding sent_ok_def by (cases "j = k") auto
  then show ?thesis using assms(1) k unfolding sent_ok_def by simp
qed

subsection \<open>The steps\<close>

lemma q2sb_take:
  assumes "q2sb_ok out_elen s tr" "orderly_event out_elen (Take t c) tr" "sb_take t c s = Next s'"
  shows "q2sb_ok out_elen s' (note_event (Take t c) tr)"
proof -
  define e where "e = \<lparr>tk_thread = t, tk_call = c, tk_data = 0, tk_stage = T_wait\<rparr>"
  let ?h = "tr_tickets tr" and ?n = "tr_sent tr"
  have idle: "sb_pcs s t = Idle"
    and s': "s' = set_pc t (Waiting (q2sb_tail s) c) (s\<lparr>q2sb_tail := (q2sb_tail s + 1) mod Q2SB_SZ\<rparr>)"
    using assms(3) by (auto simp: sb_take_def split: if_splits)
  have ring: "window_ok (q2sb_q s) (q2sb_head s) (q2sb_tail s) ?h (released s tr)"
    and T: "threads_ok (sb_pcs s) ?h ?n" and O: "ops_ok (sb_ops s) (sb_pcs s) ?h ?n (tr_reads tr)"
    and out: "sent_ok out_elen (d2h_sent s) ?h ?n"
    using assms(1) by (auto simp: q2sb_ok_def)
  have tl': "q2sb_tail s = length ?h mod 128" using ring by (simp add: window_ok_def)
  have "sent_ok out_elen (d2h_sent s) (?h @ [e]) ?n"
    using out assms(2) unfolding sent_ok_def by (auto simp: nth_append e_def)
  moreover have "window_ok (q2sb_q s) (q2sb_head s) ((q2sb_tail s + 1) mod Q2SB_SZ) (?h @ [e]) (released s tr)"
    by (rule ring_take [OF ring]) (use assms(2) in \<open>simp_all add: e_def\<close>)
  moreover have "threads_ok ((sb_pcs s)(t := Waiting (q2sb_tail s) c)) (?h @ [e]) ?n"
    using threads_take [OF T idle, of e] tl' by (simp add: e_def)
  moreover have "ops_ok (sb_ops s) ((sb_pcs s)(t := Waiting (q2sb_tail s) c)) (?h @ [e]) ?n (tr_reads tr)"
    by (rule ops_take [OF O idle]) (simp_all add: e_def)
  moreover have "released s' (note_event (Take t c) tr) = released s tr" by (simp add: released_def s' set_pc_def)
  ultimately show ?thesis
    using assms(1) by (simp add: q2sb_ok_def s' set_pc_def e_def [symmetric])
qed

text \<open>The common part of the next three steps: the ticket of the thread changes, and its slot with it.\<close>

lemma q2sb_update:
  assumes I: "q2sb_ok out_elen s tr" and a: "in_alloc (sb_pcs s t)"
    and k: "k < length (tr_tickets tr)" "tk_thread (tr_tickets tr ! k) = t" "tk_stage (tr_tickets tr ! k) \<noteq> T_done"
    and f: "f (tr_tickets tr ! k) = e" and e: "tk_thread e = t" "tk_call e = tk_call (tr_tickets tr ! k)"
    and win: "k < released s tr + 128" and slot: "slot_ok e sl"
    and pc: "pc = (if tk_stage e \<noteq> T_done then pc_of k e else if is_dma (tk_call e) then Awaiting else Idle)"
    and ops': "ops' = sb_ops s \<or> is_dma (tk_call e) \<and> (\<exists>op. ops' = (sb_ops s)(t \<mapsto> op))"
    and new: "is_dma (tk_call e) \<Longrightarrow> tk_stage e = T_written \<or> tk_stage e = T_done \<Longrightarrow> \<exists>buf. ops' t = Some (new_op (tk_call e) buf)"
    and s': "sb_pcs s' = (sb_pcs s)(t := pc)" "q2sb_q s' = (q2sb_q s)[k mod 128 := sl]" "sb_ops s' = ops'"
      "q2sb_head s' = q2sb_head s" "q2sb_tail s' = q2sb_tail s" "d2h_sent s' = d2h_sent s" "sb_sbt s' = sb_sbt s"
  shows "q2sb_ok out_elen s' (upd_trace t f tr)"
proof -
  let ?h = "tr_tickets tr" and ?n = "tr_sent tr"
  have ring: "window_ok (q2sb_q s) (q2sb_head s) (q2sb_tail s) ?h (released s tr)"
    and T: "threads_ok (sb_pcs s) ?h ?n" and O: "ops_ok (sb_ops s) (sb_pcs s) ?h ?n (tr_reads tr)"
    and out: "sent_ok out_elen (d2h_sent s) ?h ?n"
    using I by (auto simp: q2sb_ok_def)
  have upd: "upd_ticket t f ?h = ?h[k := e]"
    by (rule upd_ticket_at [OF k, of f, unfolded f]) (use unfinished_unique [OF T k(1,3)] k(2) in auto)
  have "window_ok ((q2sb_q s)[k mod 128 := sl]) (q2sb_head s) (q2sb_tail s) (?h[k := e]) (released s tr)"
    by (rule ring_update [OF ring ring_window(1) [OF ring k(1,3)] win k(1,3) slot])
  moreover have "threads_ok ((sb_pcs s)(t := pc)) (?h[k := e]) ?n"
    by (rule threads_update [OF T k e pc])
  moreover have "ops_ok ops' ((sb_pcs s)(t := pc)) (?h[k := e]) ?n (tr_reads tr)"
    by (rule ops_update [OF O T k e ops' new]) (use pc pc_of_alloc [of e k] in \<open>auto split: if_splits\<close>)
  moreover have "sent_ok out_elen (d2h_sent s) (?h[k := e]) ?n"
    by (rule sent_update [OF out k(1,3) e(2)])
  moreover have "released s' (upd_trace t f tr) = released s tr" by (simp add: released_def upd_trace_def s')
  ultimately show ?thesis
    using I by (simp add: q2sb_ok_def s' upd_trace_def upd)
qed

lemma q2sb_thread:
  assumes "q2sb_ok out_elen s tr" "in_alloc (sb_pcs s t)"
  obtains k where "k < length (tr_tickets tr)" "tk_thread (tr_tickets tr ! k) = t" "tk_stage (tr_tickets tr ! k) \<noteq> T_done"
    "sb_pcs s t = pc_of k (tr_tickets tr ! k)"
proof -
  have T: "threads_ok (sb_pcs s) (tr_tickets tr) (tr_sent tr)" using assms(1) by (simp add: q2sb_ok_def)
  show thesis by (rule thread_ticket [OF T assms(2)]) (rule that)
qed

lemma q2sb_window:
  assumes "q2sb_ok out_elen s tr" "k < length (tr_tickets tr)" "tk_stage (tr_tickets tr ! k) \<noteq> T_done"
    "tk_stage (tr_tickets tr ! k) \<noteq> T_wait \<or> \<not> sl_ready (q2sb_q s ! (k mod 128))"
  shows "k < released s tr + 128" "slot_ok (tr_tickets tr ! k) (q2sb_q s ! (k mod 128))"
proof -
  have ring: "window_ok (q2sb_q s) (q2sb_head s) (q2sb_tail s) (tr_tickets tr) (released s tr)"
    using assms(1) by (simp add: q2sb_ok_def)
  show "k < released s tr + 128" by (rule ring_window(2) [OF ring assms(2-4)])
  then show "slot_ok (tr_tickets tr ! k) (q2sb_q s ! (k mod 128))"
    using ring_window(1) [OF ring assms(2,3)] ring assms(2) unfolding window_ok_def by blast
qed

lemma pc_of_inv:
  "pc_of k e = Waiting i c \<longleftrightarrow> tk_stage e = T_wait \<and> i = k mod 128 \<and> c = tk_call e"
  "pc_of k e = Writing i c \<longleftrightarrow> tk_stage e = T_write \<and> i = k mod 128 \<and> c = tk_call e"
  "pc_of k e = Written i c \<longleftrightarrow> tk_stage e = T_written \<and> i = k mod 128 \<and> c = tk_call e"
  by (auto simp: pc_of_def split: stage.splits)

lemma q2sb_wait:
  assumes "q2sb_ok out_elen s tr" "sb_wait t s = Next s'"
  shows "q2sb_ok out_elen s' (note_event (Wait t) tr)"
proof -
  obtain i c where pc: "sb_pcs s t = Waiting i c" "\<not> sl_ready (q2sb_q s ! i)" and s': "s' = set_pc t (Writing i c) s"
    using assms(2) by (auto simp: sb_wait_def split: sb_pc.splits if_splits)
  then have a: "in_alloc (sb_pcs s t)" by (simp add: in_alloc_def)
  obtain k where k: "k < length (tr_tickets tr)" "tk_thread (tr_tickets tr ! k) = t" "tk_stage (tr_tickets tr ! k) \<noteq> T_done"
    "sb_pcs s t = pc_of k (tr_tickets tr ! k)"
    by (rule q2sb_thread [OF assms(1) a])
  have i: "tk_stage (tr_tickets tr ! k) = T_wait" "i = k mod 128" "c = tk_call (tr_tickets tr ! k)"
    using k(4) [unfolded pc(1), symmetric] by (simp_all add: pc_of_inv)
  note w = q2sb_window [OF assms(1) k(1,3) disjI2 [OF pc(2) [unfolded i(2)]]]
  show ?thesis
    unfolding note_event.simps
    by (rule q2sb_update [OF assms(1) a k(1-3) refl _ _ w(1), where sl = "q2sb_q s ! (k mod 128)" and ops' = "sb_ops s" and pc = "Writing i c"])
       (use i k(2) w(2) in \<open>auto simp: s' set_pc_def slot_ok_def pc_of_def\<close>)
qed

lemma q2sb_fill:
  assumes "q2sb_ok out_elen s tr" "sb_fill t d s = Next s'"
  shows "q2sb_ok out_elen s' (note_event (Fill t d) tr)"
proof -
  obtain i c where pc: "sb_pcs s t = Writing i c" and s': "s' = set_pc t (Written i c)
      (s\<lparr>q2sb_q := (q2sb_q s)[i := (q2sb_q s ! i)\<lparr>sl_msg := q2sb_msg t c d\<rparr>],
         sb_ops := (if is_dma c then (sb_ops s)(t \<mapsto> new_op c (sb_bufs s t)) else sb_ops s)\<rparr>)"
    using assms(2) by (auto simp: sb_fill_def split: sb_pc.splits)
  then have a: "in_alloc (sb_pcs s t)" by (simp add: in_alloc_def)
  obtain k where k: "k < length (tr_tickets tr)" "tk_thread (tr_tickets tr ! k) = t" "tk_stage (tr_tickets tr ! k) \<noteq> T_done"
    "sb_pcs s t = pc_of k (tr_tickets tr ! k)"
    by (rule q2sb_thread [OF assms(1) a])
  have i: "tk_stage (tr_tickets tr ! k) = T_write" "i = k mod 128" "c = tk_call (tr_tickets tr ! k)"
    using k(4) [unfolded pc, symmetric] by (simp_all add: pc_of_inv)
  have "tk_stage (tr_tickets tr ! k) \<noteq> T_wait" using i(1) by simp
  note w = q2sb_window [OF assms(1) k(1,3) disjI1 [OF this]]
  show ?thesis
    unfolding note_event.simps
    by (rule q2sb_update [OF assms(1) a k(1-3) refl _ _ w(1), where sl = "(q2sb_q s ! (k mod 128))\<lparr>sl_msg := q2sb_msg t c d\<rparr>"
          and ops' = "if is_dma c then (sb_ops s)(t \<mapsto> new_op c (sb_bufs s t)) else sb_ops s" and pc = "Written i c"])
       (use i k(2) w(2) in \<open>auto simp: s' set_pc_def slot_ok_def pc_of_def tk_msg_def\<close>)
qed

lemma q2sb_publish:
  assumes "q2sb_ok out_elen s tr" "sb_publish t s = Next s'"
  shows "q2sb_ok out_elen s' (note_event (Publish t) tr)"
proof -
  obtain i c where pc: "sb_pcs s t = Written i c" and s': "s' = set_pc t (if is_dma c then Awaiting else Idle)
      (s\<lparr>q2sb_q := (q2sb_q s)[i := (q2sb_q s ! i)\<lparr>sl_ready := True\<rparr>],
         sb_main := (case c of Call_read_comp _ \<Rightarrow> Read_done | _ \<Rightarrow> sb_main s)\<rparr>)"
    using assms(2) by (auto simp: sb_publish_def split: sb_pc.splits)
  then have a: "in_alloc (sb_pcs s t)" by (simp add: in_alloc_def)
  obtain k where k: "k < length (tr_tickets tr)" "tk_thread (tr_tickets tr ! k) = t" "tk_stage (tr_tickets tr ! k) \<noteq> T_done"
    "sb_pcs s t = pc_of k (tr_tickets tr ! k)"
    by (rule q2sb_thread [OF assms(1) a])
  have i: "tk_stage (tr_tickets tr ! k) = T_written" "i = k mod 128" "c = tk_call (tr_tickets tr ! k)"
    using k(4) [unfolded pc, symmetric] by (simp_all add: pc_of_inv)
  have "tk_stage (tr_tickets tr ! k) \<noteq> T_wait" using i(1) by simp
  note w = q2sb_window [OF assms(1) k(1,3) disjI1 [OF this]]
  have O: "ops_ok (sb_ops s) (sb_pcs s) (tr_tickets tr) (tr_sent tr) (tr_reads tr)"
    using assms(1) by (auto simp: q2sb_ok_def)
  show ?thesis
    unfolding note_event.simps
    by (rule q2sb_update [OF assms(1) a k(1-3) refl _ _ w(1), where sl = "(q2sb_q s ! (k mod 128))\<lparr>sl_ready := True\<rparr>"
          and ops' = "sb_ops s" and pc = "if is_dma c then Awaiting else Idle"])
       (use i k(2) w(2) ops_of_ticket [OF O k(1)] in \<open>auto simp: s' set_pc_def slot_ok_def pc_of_def tk_msg_def\<close>)
qed

end
