(* ===== verification/Sb_Run.thy ===== *)
theory Sb_Run
  imports Sb_Steps
begin

text \<open>The steps of the simulator's thread and the end of a DMA call, and whole runs.\<close>

subsection \<open>The end of a DMA call\<close>

lemma q2sb_return:
  assumes "q2sb_ok out_elen s tr"
  shows "dma_return t s \<noteq> Fault" and "dma_return t s = Next s' \<Longrightarrow> q2sb_ok out_elen s' tr"
proof -
  let ?h = "tr_tickets tr" and ?n = "tr_sent tr"
  have T: "threads_ok (sb_pcs s) ?h ?n" and O: "ops_ok (sb_ops s) (sb_pcs s) ?h ?n (tr_reads tr)"
    using assms by (auto simp: q2sb_ok_def)
  show "dma_return t s \<noteq> Fault"
    using O unfolding ops_ok_def dma_return_def by (auto split: option.splits)
  assume "dma_return t s = Next s'"
  then obtain op where pc: "sb_pcs s t = Awaiting" and op: "sb_ops s t = Some op" "op_ready op"
    and s': "s' = set_pc t Idle (s\<lparr>sb_ops := (sb_ops s)(t := None), sb_bufs := (sb_bufs s)(t := op_data op)\<rparr>)"
    by (auto simp: dma_return_def split: if_splits option.splits)
  have unfinished: "tk_thread (?h ! k) \<noteq> t" if "k < length ?h" "tk_stage (?h ! k) \<noteq> T_done" for k
    using threads_unfinished [OF T that] pc_of_alloc [OF that(2), of k] pc by auto
  have pending: "tk_thread (?h ! k) \<noteq> t"
    if "k < length ?h" "is_dma (tk_call (?h ! k))" "tk_stage (?h ! k) = T_written \<or> tk_stage (?h ! k) = T_done \<and> ?n \<le> k" for k
    using ops_of_ticket [OF O that] op by auto
  have "threads_ok ((sb_pcs s)(t := Idle)) ?h ?n"
    unfolding threads_ok_def
  proof (intro conjI allI impI)
    fix k
    assume "k < length ?h" "tk_stage (?h ! k) \<noteq> T_done"
    then show "((sb_pcs s)(t := Idle)) (tk_thread (?h ! k)) = pc_of k (?h ! k)"
      using unfinished threads_unfinished [OF T] by simp
  next
    fix u
    assume "in_alloc (((sb_pcs s)(t := Idle)) u)"
    then have "in_alloc (sb_pcs s u)" by (auto simp: in_alloc_def split: if_splits)
    then show "\<exists>k < length ?h. tk_thread (?h ! k) = u \<and> tk_stage (?h ! k) \<noteq> T_done" using T unfolding threads_ok_def by blast
  next
    fix k
    assume "k < length ?h" "?n \<le> k" "tk_stage (?h ! k) = T_done" "is_dma (tk_call (?h ! k))"
    then show "((sb_pcs s)(t := Idle)) (tk_thread (?h ! k)) = Awaiting"
      using threads_awaiting [OF T, of k] pending [of k] by simp
  qed (use threads_order [OF T] in blast)+
  moreover have "ops_ok ((sb_ops s)(t := None)) ((sb_pcs s)(t := Idle)) ?h ?n (tr_reads tr)"
    unfolding ops_ok_def
  proof (intro conjI allI impI)
    fix k
    assume "k < length ?h" "is_dma (tk_call (?h ! k))" "tk_stage (?h ! k) = T_written \<or> tk_stage (?h ! k) = T_done \<and> ?n \<le> k"
    then show "\<exists>buf. ((sb_ops s)(t := None)) (tk_thread (?h ! k)) = Some (new_op (tk_call (?h ! k)) buf)"
      using pending [of k] ops_of_ticket [OF O, of k] by simp
  next
    fix u
    assume "((sb_pcs s)(t := Idle)) u = Awaiting"
    then have "u \<noteq> t" "sb_pcs s u = Awaiting" by (auto split: if_splits)
    then show "((sb_ops s)(t := None)) u \<noteq> None" using O unfolding ops_ok_def by auto
  next
    fix p len
    assume r: "tr_reads tr p = Some len"
    then have "p \<noteq> t" using ops_of_read [OF O r] op by auto
    then show "((sb_pcs s)(t := Idle)) p = Awaiting"
      "\<exists>op. ((sb_ops s)(t := None)) p = Some op \<and> \<not> op_ready op \<and> op_len op = len"
      using ops_of_read [OF O r] by auto
  qed (use ops_of_read [OF O] in blast)
  ultimately show "q2sb_ok out_elen s' tr"
    using assms by (simp add: q2sb_ok_def s' set_pc_def released_def)
qed

subsection \<open>Sending\<close>

lemma sent_append:
  assumes "sent_ok out_elen out h n" "n < length h" "tk_stage (h ! n) = T_done" "m = d2h_of (h ! n)"
  shows "sent_ok out_elen (out @ [m]) h (n + 1)"
proof -
  have "from_queue m" by (simp add: assms(4) d2h_of_def from_queue_def split: sb_call.split)
  then have "filter from_queue (out @ [m]) = map d2h_of (take (n + 1) h)"
    using assms unfolding sent_ok_def by (simp add: take_Suc_conv_app_nth)
  moreover have "tk_stage (h ! k) = T_done" if "k < n + 1" for k
    using that assms(1,3) unfolding sent_ok_def by (cases "k = n") auto
  ultimately show ?thesis using assms(1,2) unfolding sent_ok_def by auto
qed

lemma threads_send: "threads_ok pcs h n \<Longrightarrow> threads_ok pcs h (n + 1)"
  unfolding threads_ok_def by (meson add_lessD1 le_add1 le_trans less_add_one less_trans)

text \<open>A thread whose DMA request is next has no other ticket.\<close>

lemma ops_send:
  assumes O: "ops_ok ops pcs h n reads" and T: "threads_ok pcs h n" and n: "n < length h" "tk_stage (h ! n) = T_done"
    and ops': "ops' = ops \<or> is_dma (tk_call (h ! n)) \<and> (\<exists>op. ops' = ops(tk_thread (h ! n) \<mapsto> op))"
    and reads: "reads' = reads \<or> is_dma (tk_call (h ! n)) \<and> ops' = ops \<and>
      (\<exists>len buf. reads' = reads(tk_thread (h ! n) \<mapsto> len) \<and> op_len (new_op (tk_call (h ! n)) buf) = len \<and>
         ops (tk_thread (h ! n)) = Some (new_op (tk_call (h ! n)) buf))"
  shows "ops_ok ops' pcs h (n + 1) reads'"
proof -
  let ?t = "tk_thread (h ! n)"
  have no_later: "tk_thread (h ! k) \<noteq> ?t" if "is_dma (tk_call (h ! n))" "n < k" "k < length h" for k
    using threads_order [OF T that(2,3)] that(1) by auto
  have elsewhere: "ops' u = ops u" if "\<not> is_dma (tk_call (h ! n)) \<or> u \<noteq> ?t" for u using ops' that by auto
  show ?thesis
    unfolding ops_ok_def
  proof (intro conjI allI impI)
    fix k
    assume k: "k < length h" "is_dma (tk_call (h ! k))" "tk_stage (h ! k) = T_written \<or> tk_stage (h ! k) = T_done \<and> n + 1 \<le> k"
    have "\<not> is_dma (tk_call (h ! n)) \<or> tk_thread (h ! k) \<noteq> ?t"
    proof (cases "n < k")
      case True
      then show ?thesis using no_later k(1) by blast
    next
      case False
      then have "tk_stage (h ! k) = T_written" "k \<noteq> n" using k(3) n(2) by auto
      then show ?thesis using threads_order [OF T, of k n] n(1) False by auto
    qed
    moreover have "\<exists>buf. ops (tk_thread (h ! k)) = Some (new_op (tk_call (h ! k)) buf)"
      by (rule ops_of_ticket [OF O k(1,2)]) (use k(3) in auto)
    ultimately show "\<exists>buf. ops' (tk_thread (h ! k)) = Some (new_op (tk_call (h ! k)) buf)"
      using elsewhere by metis
  next
    fix u
    assume "pcs u = Awaiting"
    then have "ops u \<noteq> None" using O unfolding ops_ok_def by blast
    then show "ops' u \<noteq> None" using ops' by auto
  next
    fix p len
    assume r: "reads' p = Some len"
    have "pcs p = Awaiting \<and> (\<exists>op. ops' p = Some op \<and> \<not> op_ready op \<and> op_len op = len) \<and> (\<forall>k < length h. n + 1 \<le> k \<longrightarrow> tk_thread (h ! k) \<noteq> p)"
    proof (cases "reads p = Some len")
      case True
      note old = ops_of_read [OF O True]
      then have "p \<noteq> ?t" using n(1) by auto
      then show ?thesis using old elsewhere by auto
    next
      case False
      then obtain len' buf where new: "is_dma (tk_call (h ! n))" "ops' = ops" "reads' = reads(?t \<mapsto> len')"
        "op_len (new_op (tk_call (h ! n)) buf) = len'" "ops ?t = Some (new_op (tk_call (h ! n)) buf)"
        using reads r by auto
      then have "p = ?t" "len' = len" using r False by (auto split: if_splits)
      then show ?thesis using new threads_awaiting [OF T n(1) _ n(2)] no_later by auto
    qed
    then show "pcs p = Awaiting" "\<exists>op. ops' p = Some op \<and> \<not> op_ready op \<and> op_len op = len"
      "\<And>k. k < length h \<Longrightarrow> n + 1 \<le> k \<Longrightarrow> tk_thread (h ! k) \<noteq> p" by auto
  qed
qed

lemma q2sb_send:
  assumes "q2sb_ok out_elen s tr" "sb_sbt s = Sbt_queue" "sl_ready (q2sb_q s ! q2sb_head s)"
  obtains s' where "sbt_send out_elen s = Next s'" "q2sb_ok out_elen s' (note_event Send tr)"
proof -
  let ?h = "tr_tickets tr" and ?n = "tr_sent tr"
  define e where "e = ?h ! ?n"
  have ring: "window_ok (q2sb_q s) (q2sb_head s) (q2sb_tail s) ?h ?n"
    and T: "threads_ok (sb_pcs s) ?h ?n" and O: "ops_ok (sb_ops s) (sb_pcs s) ?h ?n (tr_reads tr)"
    and out: "sent_ok out_elen (d2h_sent s) ?h ?n"
    using assms(1,2) by (auto simp: q2sb_ok_def released_def)
  have head: "q2sb_head s = ?n mod 128" using ring by (simp add: window_ok_def)
  have n: "?n < length ?h"
  proof (rule ccontr)
    assume "\<not> ?n < length ?h"
    then have "\<not> sl_ready (q2sb_q s ! (?n mod 128))" using ring by (simp add: window_ok_def)
    then show False using assms(3) head by simp
  qed
  then have slot: "slot_ok e (q2sb_q s ! q2sb_head s)" using ring head by (simp add: window_ok_def e_def)
  then have e: "tk_stage e = T_done" "sl_msg (q2sb_q s ! q2sb_head s) = tk_msg e" using assms(3) by (auto simp: slot_ok_def)
  have op: "\<exists>buf. sb_ops s (tk_thread e) = Some (new_op (tk_call e) buf)" if "is_dma (tk_call e)"
    using ops_of_ticket [OF O n] that e(1) by (simp add: e_def)
  define reads' where "reads' = (case read_length (tk_call e) of None \<Rightarrow> tr_reads tr | Some len \<Rightarrow> (tr_reads tr)(tk_thread e \<mapsto> len))"
  have note_tr: "note_event Send tr = tr\<lparr>tr_sent := ?n + 1, tr_reads := reads'\<rparr>" unfolding note_event.simps Let_def reads'_def e_def by simp
  have len: "case tk_call e of Call_dma_write a bs \<Rightarrow> 8 + length bs \<le> out_elen | _ \<Rightarrow> True"
    using out n unfolding sent_ok_def e_def by blast
  have ok: "q2sb_ok out_elen s' (note_event Send tr)"
    if s': "s' = (send (d2h_of e) (s\<lparr>sb_sbt := Sbt_release, sb_ops := ops'\<rparr>))"
      and ops': "ops' = sb_ops s \<or> is_dma (tk_call e) \<and> (\<exists>op. ops' = (sb_ops s)(tk_thread e \<mapsto> op))"
      and reads: "reads' = tr_reads tr \<or> is_dma (tk_call e) \<and> ops' = sb_ops s \<and>
        (\<exists>len buf. reads' = (tr_reads tr)(tk_thread e \<mapsto> len) \<and> op_len (new_op (tk_call e) buf) = len \<and>
           sb_ops s (tk_thread e) = Some (new_op (tk_call e) buf))" for s' ops'
  proof -
    have "sent_ok out_elen (d2h_sent s @ [d2h_of e]) ?h (?n + 1)"
      by (rule sent_append [OF out n]) (use e(1) in \<open>simp_all add: e_def\<close>)
    moreover have "ops_ok ops' (sb_pcs s) ?h (?n + 1) reads'"
      by (rule ops_send [OF O T n]) (use e(1) ops' reads in \<open>simp_all add: e_def\<close>)
    moreover have "threads_ok (sb_pcs s) ?h (?n + 1)" by (rule threads_send [OF T])
    ultimately show ?thesis using ring by (simp add: note_tr q2sb_ok_def released_def s' send_def del: note_event.simps)
  qed
  show thesis
  proof (cases "tk_call e")
    case (Call_dma_read a l)
    then obtain buf where "sb_ops s (tk_thread e) = Some (new_op (tk_call e) buf)" using op by (auto simp: is_dma_def)
    then show thesis
      using Call_dma_read e(2) assms(2,3)
      by (intro that [OF _ ok [OF refl, of "sb_ops s"]])
         (auto simp: sbt_send_def Let_def tk_msg_def q2sb_msg_def new_op_def d2h_of_def is_dma_def reads'_def read_length_def)
  next
    case (Call_dma_write a bs)
    then obtain buf where b: "sb_ops s (tk_thread e) = Some (new_op (tk_call e) buf)" using op by (auto simp: is_dma_def)
    then show thesis
      using Call_dma_write e(2) assms(2,3) len
      by (intro that [OF _ ok [OF refl, of "(sb_ops s)(tk_thread e \<mapsto> (new_op (tk_call e) buf)\<lparr>op_ready := True\<rparr>)"]])
         (auto simp: sbt_send_def Let_def tk_msg_def q2sb_msg_def new_op_def d2h_of_def is_dma_def reads'_def read_length_def)
  next
    case (Call_read_comp req)
    then show thesis
      using e(2) assms(2,3)
      by (intro that [OF _ ok [OF refl, of "sb_ops s"]])
         (auto simp: sbt_send_def Let_def tk_msg_def q2sb_msg_def d2h_of_def is_dma_def reads'_def read_length_def)
  next
    case (Call_irq i)
    then show thesis
      using e(2) assms(2,3)
      by (intro that [OF _ ok [OF refl, of "sb_ops s"]])
         (auto simp: sbt_send_def Let_def tk_msg_def q2sb_msg_def d2h_of_def is_dma_def reads'_def read_length_def)
  qed
qed

lemma q2sb_release:
  assumes "q2sb_ok out_elen s tr" "sbt_release s = Next s'"
  shows "q2sb_ok out_elen s' tr"
proof -
  have rel: "sb_sbt s = Sbt_release" and s': "s' = s\<lparr>q2sb_q := (q2sb_q s)[q2sb_head s := (q2sb_q s ! q2sb_head s)\<lparr>sl_ready := False\<rparr>],
                   q2sb_head := (q2sb_head s + 1) mod Q2SB_SZ, sb_sbt := Sbt_poll\<rparr>"
    using assms(2) by (auto simp: sbt_release_def split: if_splits)
  then have ring: "window_ok (q2sb_q s) (q2sb_head s) (q2sb_tail s) (tr_tickets tr) (tr_sent tr - 1)" and n: "0 < tr_sent tr"
    and out: "sent_ok out_elen (d2h_sent s) (tr_tickets tr) (tr_sent tr)"
    using assms(1) by (auto simp: q2sb_ok_def released_def)
  have "tr_sent tr - 1 < length (tr_tickets tr)" "tk_stage (tr_tickets tr ! (tr_sent tr - 1)) = T_done"
    using out n unfolding sent_ok_def by auto
  from ring_release [OF ring this] n show ?thesis
    using assms(1) by (simp add: q2sb_ok_def released_def s')
qed

subsection \<open>Messages of the host\<close>

lemma q2sb_quiet:
  assumes "q2sb_ok out_elen s tr" "q2sb_q s' = q2sb_q s" "q2sb_head s' = q2sb_head s" "q2sb_tail s' = q2sb_tail s" "sb_pcs s' = sb_pcs s"
    "sb_ops s' = sb_ops s" "filter from_queue (d2h_sent s') = filter from_queue (d2h_sent s)"
    "sb_sbt s' = sb_sbt s \<or> sb_sbt s \<noteq> Sbt_release \<and> sb_sbt s' \<noteq> Sbt_release"
  shows "q2sb_ok out_elen s' tr"
  using assms by (auto simp: q2sb_ok_def released_def sent_ok_def)

lemma q2sb_read_comp:
  assumes I: "q2sb_ok out_elen s tr" "sb_sbt s = Sbt_poll" and r: "tr_reads tr p = Some len" "len \<le> length bs"
  obtains s' where "dma_read_comp p bs s = Next s'" "q2sb_ok out_elen s' (tr\<lparr>tr_reads := (tr_reads tr)(p := None)\<rparr>)"
proof -
  let ?h = "tr_tickets tr" and ?n = "tr_sent tr"
  have T: "threads_ok (sb_pcs s) ?h ?n" and O: "ops_ok (sb_ops s) (sb_pcs s) ?h ?n (tr_reads tr)" 
    and out: "sent_ok out_elen (d2h_sent s) ?h ?n"
    using I(1) by (auto simp: q2sb_ok_def)
  obtain op where op: "sb_ops s p = Some op" "op_len op = len" and p: "sb_pcs s p = Awaiting"
    and none: "\<And>k. k < length ?h \<Longrightarrow> ?n \<le> k \<Longrightarrow> tk_thread (?h ! k) \<noteq> p"
    using ops_of_read [OF O r(1)] by auto
  define op' where "op' = op\<lparr>op_data := take len bs, op_ready := True\<rparr>"
  have "ops_ok ((sb_ops s)(p \<mapsto> op')) (sb_pcs s) ?h ?n ((tr_reads tr)(p := None))"
    unfolding ops_ok_def
  proof (intro conjI allI impI)
    fix k
    assume k: "k < length ?h" "is_dma (tk_call (?h ! k))" "tk_stage (?h ! k) = T_written \<or> tk_stage (?h ! k) = T_done \<and> ?n \<le> k"
    have "?n \<le> k" using k(3) sent_done [OF out k(1)] by (cases "tk_stage (?h ! k) = T_done") auto
    then show "\<exists>buf. ((sb_ops s)(p \<mapsto> op')) (tk_thread (?h ! k)) = Some (new_op (tk_call (?h ! k)) buf)"
      using none [OF k(1)] ops_of_ticket [OF O k] by simp
  next
    fix u
    assume "sb_pcs s u = Awaiting"
    then show "((sb_ops s)(p \<mapsto> op')) u \<noteq> None" using O unfolding ops_ok_def by auto
  next
    fix q len'
    assume "((tr_reads tr)(p := None)) q = Some len'"
    then have q: "q \<noteq> p" "tr_reads tr q = Some len'" by (auto split: if_splits)
    from ops_of_read [OF O q(2)] q(1)
    show "sb_pcs s q = Awaiting" "\<exists>op. ((sb_ops s)(p \<mapsto> op')) q = Some op \<and> \<not> op_ready op \<and> op_len op = len'"
      "\<And>k. k < length ?h \<Longrightarrow> ?n \<le> k \<Longrightarrow> tk_thread (?h ! k) \<noteq> q" by auto
  qed
  then have "q2sb_ok out_elen (s\<lparr>sb_ops := (sb_ops s)(p \<mapsto> op'), sb_sbt := Sbt_queue\<rparr>) (tr\<lparr>tr_reads := (tr_reads tr)(p := None)\<rparr>)"
    using I by (simp add: q2sb_ok_def released_def)
  then show thesis using that op r(2) by (simp add: dma_read_comp_def op'_def)
qed

subsection \<open>Runs\<close>

lemma q2sb_step:
  assumes I: "q2sb_ok out_elen s tr" and E: "orderly_event out_elen ev tr"
  shows "sb_step out_elen ev s \<noteq> Fault \<and> (\<forall>s'. sb_step out_elen ev s = Next s' \<longrightarrow> q2sb_ok out_elen s' (note_event ev tr))"
proof (cases ev)
  case (Take t c)
  then show ?thesis using q2sb_take [OF I] E by (auto simp: sb_take_def simp del: note_event.simps orderly_event.simps)
next
  case (Wait t)
  then show ?thesis using q2sb_wait [OF I] by (auto simp: sb_wait_def simp del: note_event.simps split: sb_pc.splits)
next
  case (Fill t d)
  then show ?thesis using q2sb_fill [OF I] by (auto simp: sb_fill_def simp del: note_event.simps split: sb_pc.splits)
next
  case (Publish t)
  then show ?thesis using q2sb_publish [OF I] by (auto simp: sb_publish_def simp del: note_event.simps split: sb_pc.splits)
next
  case (Return t)
  then show ?thesis using q2sb_return [OF I] by simp
next
  case Main_start
  then show ?thesis by (auto simp: main_start_def split: if_splits intro!: q2sb_quiet [OF I])
next
  case Main_finish
  then show ?thesis by (auto simp: main_finish_def split: if_splits intro!: q2sb_quiet [OF I])
next
  case No_message
  then show ?thesis by (auto simp: sbt_no_message_def intro!: q2sb_quiet [OF I])
next
  case Enqueue
  then show ?thesis by (auto simp: sbt_enqueue_def split: sbt_pc.splits intro!: q2sb_quiet [OF I])
next
  case Nothing
  then show ?thesis by (auto simp: sbt_nothing_def intro!: q2sb_quiet [OF I])
next
  case Release
  then show ?thesis using q2sb_release [OF I] by (auto simp: sbt_release_def split: if_splits)
next
  case Send
  show ?thesis
  proof (cases "sb_sbt s = Sbt_queue \<and> sl_ready (q2sb_q s ! q2sb_head s)")
    case True
    then obtain s' where "sbt_send out_elen s = Next s'" "q2sb_ok out_elen s' (note_event Send tr)"
      using q2sb_send [OF I] by blast
    then show ?thesis by (simp add: Send del: note_event.simps)
  next
    case False
    then have "sbt_send out_elen s = Blocked" by (auto simp: sbt_send_def)
    then show ?thesis by (simp add: Send)
  qed
next
  case (Message m)
  show ?thesis
  proof (cases "sb_sbt s = Sbt_poll")
    case poll: True
    show ?thesis
    proof (cases m)
      case (H2D_readcomp p bs)
      then obtain len where "tr_reads tr p = Some len" "len \<le> length bs"
        using E Message by (auto split: option.splits)
      then obtain s' where "dma_read_comp p bs s = Next s'" "q2sb_ok out_elen s' (tr\<lparr>tr_reads := (tr_reads tr)(p := None)\<rparr>)"
        by (rule q2sb_read_comp [OF I poll])
      then show ?thesis by (simp add: Message H2D_readcomp sbt_message_def poll)
    qed (use poll Message E in \<open>auto simp: sbt_message_def send_def from_queue_def intro!: q2sb_quiet [OF I]\<close>)
  qed (simp add: Message sbt_message_def)
qed

lemma sb_run_ok:
  "q2sb_ok out_elen s tr \<Longrightarrow> orderly_from out_elen evs tr \<Longrightarrow>
   sb_run out_elen evs s \<noteq> Fault \<and> (\<forall>s'. sb_run out_elen evs s = Next s' \<longrightarrow> q2sb_ok out_elen s' (fold note_event evs tr))"
proof (induction evs arbitrary: s tr)
  case (Cons e es)
  then show ?case using q2sb_step [OF Cons.prems(1), of e] by (auto split: outcome.split)
qed simp

end
