(* ===== verification/Sb_Mmio.thy ===== *)
theory Sb_Mmio
  imports Sb_Run "HOL-Library.Sublist"
begin

text \<open>
  Register accesses of the host: \<open>sb2q_q\<close> hands them to the main thread in order, and the main thread answers the reads
  in that order.
\<close>

subsection \<open>Traces of register accesses\<close>

record mmio_trace =
  mt_host :: "sb2qemu list"
  mt_queued :: nat
  mt_done :: nat

definition mt_init :: mmio_trace where "mt_init = \<lparr>mt_host = [], mt_queued = 0, mt_done = 0\<rparr>"

text \<open>The access that a message of the host asks for.\<close>

definition host_access :: "h2d \<Rightarrow> sb2qemu list" where
  "host_access m =
     (case m of
        H2D_read req bar offset len \<Rightarrow> [SB2Q_MMIO_READ bar offset len req]
      | H2D_write req bar offset bs \<Rightarrow> [SB2Q_MMIO_WRITE bar offset (of_nat (length bs)) (le_value bs)]
      | _ \<Rightarrow> [])"

fun note_mmio :: "sb_event \<Rightarrow> mmio_trace \<Rightarrow> mmio_trace" where
  "note_mmio (Message m) mt = mt\<lparr>mt_host := mt_host mt @ host_access m\<rparr>"
| "note_mmio Enqueue mt = mt\<lparr>mt_queued := mt_queued mt + 1\<rparr>"
| "note_mmio Main_finish mt = mt\<lparr>mt_done := mt_done mt + 1\<rparr>"
| "note_mmio _ mt = mt"

definition read_ids :: "sb2qemu list \<Rightarrow> u64 list" where
  "read_ids ms = concat (map (\<lambda>m. case m of SB2Q_MMIO_READ bar addr len req \<Rightarrow> [req] | _ \<Rightarrow> []) ms)"

definition answers :: "sb_call list \<Rightarrow> u64 list" where
  "answers cs = concat (map (\<lambda>c. case c of Call_read_comp req \<Rightarrow> [req] | _ \<Rightarrow> []) cs)"

definition answered :: "d2h list \<Rightarrow> u64 list" where
  "answered ms = concat (map (\<lambda>m. case m of D2H_readcomp req d \<Rightarrow> [req] | _ \<Rightarrow> []) ms)"

subsection \<open>The invariant\<close>

definition mmio_window :: "sb2qemu slot list \<Rightarrow> nat \<Rightarrow> nat \<Rightarrow> sb2qemu list \<Rightarrow> nat \<Rightarrow> nat \<Rightarrow> bool" where
  "mmio_window q hd' tl' host queued fin \<longleftrightarrow>
     length q = 128 \<and> hd' = fin mod 128 \<and> tl' = queued mod 128 \<and> fin \<le> queued \<and> queued \<le> fin + 128 \<and> queued \<le> length host \<and>
     (\<forall>k. fin \<le> k \<longrightarrow> k < queued \<longrightarrow> sl_ready (q ! (k mod 128)) \<and> sl_msg (q ! (k mod 128)) = host ! k) \<and>
     (\<forall>k. queued \<le> k \<longrightarrow> k < fin + 128 \<longrightarrow> \<not> sl_ready (q ! (k mod 128)))"

definition sbt_ok :: "sbt_pc \<Rightarrow> sb2qemu list \<Rightarrow> nat \<Rightarrow> bool" where
  "sbt_ok pc host queued \<longleftrightarrow>
     (case pc of Sbt_spin m \<Rightarrow> length host = queued + 1 \<and> host ! queued = m | _ \<Rightarrow> length host = queued)"

definition pc_call :: "sb_pc \<Rightarrow> sb_call option" where
  "pc_call pc = (case pc of Waiting i c \<Rightarrow> Some c | Writing i c \<Rightarrow> Some c | Written i c \<Rightarrow> Some c | _ \<Rightarrow> None)"

definition main_ok :: "main_pc \<Rightarrow> (nat \<Rightarrow> sb_pc) \<Rightarrow> sb2qemu list \<Rightarrow> nat \<Rightarrow> nat \<Rightarrow> bool" where
  "main_ok m pcs host queued fin \<longleftrightarrow>
     (m \<noteq> Polling \<longrightarrow> fin < queued) \<and>
     (\<forall>req. m = Reading req \<longrightarrow> read_ids [host ! fin] = [req] \<and> pcs 0 \<noteq> Awaiting \<and>
        (pcs 0 = Idle \<or> pc_call (pcs 0) = Some (Call_read_comp req))) \<and>
     (m = Read_done \<longrightarrow> pcs 0 = Idle) \<and>
     (m = In_write \<longrightarrow> read_ids [host ! fin] = []) \<and>
     (\<forall>t req. pc_call (pcs t) = Some (Call_read_comp req) \<longrightarrow> t = 0 \<and> m = Reading req)"

definition pending_answer :: "main_pc \<Rightarrow> sb_pc \<Rightarrow> sb2qemu \<Rightarrow> u64 list" where
  "pending_answer m pc cur =
     (case m of Read_done \<Rightarrow> read_ids [cur] | Reading req \<Rightarrow> if pc = Idle then [] else [req] | _ \<Rightarrow> [])"

definition mmio_ok :: "sb \<Rightarrow> sb_call list \<Rightarrow> mmio_trace \<Rightarrow> bool" where
  "mmio_ok s cs mt \<longleftrightarrow>
     mmio_window (sb2q_q s) (sb2q_head s) (sb2q_tail s) (mt_host mt) (mt_queued mt) (mt_done mt) \<and>
     sbt_ok (sb_sbt s) (mt_host mt) (mt_queued mt) \<and>
     main_ok (sb_main s) (sb_pcs s) (mt_host mt) (mt_queued mt) (mt_done mt) \<and>
     answers cs = read_ids (take (mt_done mt) (mt_host mt)) @ pending_answer (sb_main s) (sb_pcs s 0) (mt_host mt ! mt_done mt)"

lemma mmio_ok_init: "mmio_ok sb_init [] mt_init"
  by (auto simp: mmio_ok_def mmio_window_def sbt_ok_def main_ok_def pending_answer_def answers_def read_ids_def sb_init_def mt_init_def
      pc_call_def SB2Q_SZ_def)

lemma read_ids_append [simp]: "read_ids (xs @ ys) = read_ids xs @ read_ids ys" by (simp add: read_ids_def)
lemma read_ids_Nil [simp]: "read_ids [] = []" by (simp add: read_ids_def)
lemma answers_append [simp]: "answers (xs @ ys) = answers xs @ answers ys" by (simp add: answers_def)
lemma answers_single: "answers [c] = (case c of Call_read_comp req \<Rightarrow> [req] | _ \<Rightarrow> [])"
  by (simp add: answers_def split: sb_call.split)

subsection \<open>The steps\<close>

lemma mmio_take:
  assumes "mmio_ok s cs mt" "sb_take t c s = Next s'"
  shows "mmio_ok s' (cs @ [c]) mt"
proof -
  have idle: "sb_pcs s t = Idle" and may: "may_call t c s"
    and s': "s' = set_pc t (Waiting (q2sb_tail s) c) (s\<lparr>q2sb_tail := (q2sb_tail s + 1) mod Q2SB_SZ\<rparr>)"
    using assms(2) by (auto simp: sb_take_def split: if_splits)
  have "main_ok (sb_main s) ((sb_pcs s)(t := Waiting (q2sb_tail s) c)) (mt_host mt) (mt_queued mt) (mt_done mt)"
    using assms(1) idle may
    by (cases c) (auto simp: mmio_ok_def main_ok_def may_call_def pc_call_def split: if_splits)
  moreover have "answers (cs @ [c]) = read_ids (take (mt_done mt) (mt_host mt)) @
      pending_answer (sb_main s) (((sb_pcs s)(t := Waiting (q2sb_tail s) c)) 0) (mt_host mt ! mt_done mt)"
    using assms(1) idle may
    by (cases c) (auto simp: mmio_ok_def may_call_def answers_single pending_answer_def split: main_pc.splits)
  ultimately show ?thesis using assms(1) by (simp add: mmio_ok_def s' set_pc_def)
qed

text \<open>A thread goes on in its call.\<close>

lemma mmio_go_on:
  assumes "mmio_ok s cs mt" "pc_call (sb_pcs s t) = Some c" "pc_call pc = Some c"
    "sb_pcs s' = (sb_pcs s)(t := pc)" "sb_main s' = sb_main s" "sb_sbt s' = sb_sbt s"
    "sb2q_q s' = sb2q_q s" "sb2q_head s' = sb2q_head s" "sb2q_tail s' = sb2q_tail s"
  shows "mmio_ok s' cs mt"
proof -
  have ne: "sb_pcs s t \<noteq> Idle" "sb_pcs s t \<noteq> Awaiting" "pc \<noteq> Idle" "pc \<noteq> Awaiting" using assms(2,3) by (auto simp: pc_call_def)
  have same: "pc_call (((sb_pcs s)(t := pc)) u) = pc_call (sb_pcs s u)" "((sb_pcs s)(t := pc)) u = Idle \<longleftrightarrow> sb_pcs s u = Idle"
    "((sb_pcs s)(t := pc)) u = Awaiting \<longleftrightarrow> sb_pcs s u = Awaiting" for u
    using assms(2,3) ne by simp_all
  have "main_ok (sb_main s) ((sb_pcs s)(t := pc)) (mt_host mt) (mt_queued mt) (mt_done mt) \<longleftrightarrow>
      main_ok (sb_main s) (sb_pcs s) (mt_host mt) (mt_queued mt) (mt_done mt)"
    unfolding main_ok_def same ..
  moreover have "pending_answer (sb_main s) (((sb_pcs s)(t := pc)) 0) cur = pending_answer (sb_main s) (sb_pcs s 0) cur" for cur
    unfolding pending_answer_def same ..
  ultimately show ?thesis using assms(1) by (simp add: mmio_ok_def assms(4-))
qed

lemma mmio_publish:
  assumes "mmio_ok s cs mt" "sb_publish t s = Next s'"
  shows "mmio_ok s' cs mt"
proof -
  obtain i c where pc: "sb_pcs s t = Written i c" and s': "s' = set_pc t (if is_dma c then Awaiting else Idle)
      (s\<lparr>q2sb_q := (q2sb_q s)[i := (q2sb_q s ! i)\<lparr>sl_ready := True\<rparr>],
         sb_main := (case c of Call_read_comp _ \<Rightarrow> Read_done | _ \<Rightarrow> sb_main s)\<rparr>)"
    using assms(2) by (auto simp: sb_publish_def split: sb_pc.splits)
  then have c: "pc_call (sb_pcs s t) = Some c" by (simp add: pc_call_def)
  have M: "main_ok (sb_main s) (sb_pcs s) (mt_host mt) (mt_queued mt) (mt_done mt)" using assms(1) by (simp add: mmio_ok_def)
  show ?thesis
  proof (cases "\<exists>req. c = Call_read_comp req")
    case True
    then obtain req where req: "c = Call_read_comp req" by blast
    then have t: "t = 0" "sb_main s = Reading req" using M c by (auto simp: main_ok_def)
    have unique: "pc_call (sb_pcs s u) \<noteq> Some (Call_read_comp r)" if "u \<noteq> 0" for u r using M that by (auto simp: main_ok_def)
    have "main_ok Read_done ((sb_pcs s)(0 := Idle)) (mt_host mt) (mt_queued mt) (mt_done mt)"
      using M t unique by (auto simp: main_ok_def pc_call_def [of Idle])
    moreover have "pending_answer Read_done Idle cur = read_ids [cur]" for cur by (simp add: pending_answer_def)
    moreover have "pending_answer (sb_main s) (sb_pcs s 0) (mt_host mt ! mt_done mt) = read_ids [mt_host mt ! mt_done mt]"
      using M t pc by (auto simp: pending_answer_def main_ok_def)
    ultimately show ?thesis using assms(1) t req by (simp add: mmio_ok_def s' set_pc_def is_dma_def)
  next
    case False
    then have main: "sb_main s' = sb_main s" by (auto simp: s' set_pc_def split: sb_call.split)
    have "t \<noteq> 0 \<or> (\<forall>req. sb_main s \<noteq> Reading req) \<and> sb_main s \<noteq> Read_done"
      using M c False pc by (auto simp: main_ok_def)
    moreover have "pc_call (if is_dma c then Awaiting else Idle) = None" by (simp add: pc_call_def)
    ultimately have "main_ok (sb_main s) ((sb_pcs s)(t := if is_dma c then Awaiting else Idle)) (mt_host mt) (mt_queued mt) (mt_done mt)"
      and "pending_answer (sb_main s) (((sb_pcs s)(t := if is_dma c then Awaiting else Idle)) 0) cur = pending_answer (sb_main s) (sb_pcs s 0) cur" for cur
      using M by (auto simp: main_ok_def pending_answer_def split: main_pc.splits)
    then show ?thesis using assms(1) main by (simp add: mmio_ok_def s' set_pc_def)
  qed
qed

lemma mmio_return:
  assumes "mmio_ok s cs mt" "dma_return t s = Next s'"
  shows "mmio_ok s' cs mt"
proof -
  have pc: "sb_pcs s t = Awaiting" and s': "sb_pcs s' = (sb_pcs s)(t := Idle)" "sb_main s' = sb_main s" "sb_sbt s' = sb_sbt s"
    "sb2q_q s' = sb2q_q s" "sb2q_head s' = sb2q_head s" "sb2q_tail s' = sb2q_tail s"
    using assms(2) by (auto simp: dma_return_def set_pc_def split: if_splits option.splits)
  have M: "main_ok (sb_main s) (sb_pcs s) (mt_host mt) (mt_queued mt) (mt_done mt)" using assms(1) by (simp add: mmio_ok_def)
  have "t \<noteq> 0 \<or> (\<forall>req. sb_main s \<noteq> Reading req) \<and> sb_main s \<noteq> Read_done" using M pc by (auto simp: main_ok_def)
  then have "main_ok (sb_main s) ((sb_pcs s)(t := Idle)) (mt_host mt) (mt_queued mt) (mt_done mt)"
    and "pending_answer (sb_main s) (((sb_pcs s)(t := Idle)) 0) cur = pending_answer (sb_main s) (sb_pcs s 0) cur" for cur
    using M by (auto simp: main_ok_def pc_call_def [of Idle] pending_answer_def split: main_pc.splits)
  then show ?thesis using assms(1) by (simp add: mmio_ok_def s')
qed

lemma mmio_start:
  assumes "mmio_ok s cs mt" "main_start s = Next s'"
  shows "mmio_ok s' cs mt"
proof -
  have idle: "sb_main s = Polling" "sb_pcs s 0 = Idle" "sl_ready (sb2q_q s ! sb2q_head s)"
    and s': "s' = s\<lparr>sb_main := (case sl_msg (sb2q_q s ! sb2q_head s) of
        SB2Q_MMIO_READ bar addr len req \<Rightarrow> Reading req | SB2Q_MMIO_WRITE bar addr len data \<Rightarrow> In_write)\<rparr>"
    using assms(2) by (auto simp: main_start_def split: if_splits)
  have W: "mmio_window (sb2q_q s) (sb2q_head s) (sb2q_tail s) (mt_host mt) (mt_queued mt) (mt_done mt)"
    using assms(1) by (simp add: mmio_ok_def)
  have q: "mt_done mt < mt_queued mt"
  proof (rule ccontr)
    assume "\<not> mt_done mt < mt_queued mt"
    then have "\<not> sl_ready (sb2q_q s ! (mt_done mt mod 128))" using W by (simp add: mmio_window_def)
    then show False using idle(3) W by (simp add: mmio_window_def)
  qed
  then have msg: "sl_msg (sb2q_q s ! sb2q_head s) = mt_host mt ! mt_done mt" using W by (simp add: mmio_window_def)
  show ?thesis
    using assms(1) idle q
    by (cases "mt_host mt ! mt_done mt")
       (auto simp: mmio_ok_def s' msg main_ok_def pending_answer_def read_ids_def pc_call_def [of Idle])
qed

lemma mmio_finish:
  assumes "mmio_ok s cs mt" "main_finish s = Next s'"
  shows "mmio_ok s' cs (note_mmio Main_finish mt)"
proof -
  let ?q = "(sb2q_q s)[sb2q_head s := (sb2q_q s ! sb2q_head s)\<lparr>sl_ready := False\<rparr>]" and ?fin = "mt_done mt"
  have main: "sb_main s = Read_done \<or> sb_main s = In_write" "sb_pcs s 0 = Idle"
    and s': "s' = s\<lparr>sb2q_q := ?q, sb2q_head := (sb2q_head s + 1) mod SB2Q_SZ, sb_main := Polling\<rparr>"
    using assms(2) by (auto simp: main_finish_def split: if_splits)
  have W: "mmio_window (sb2q_q s) (sb2q_head s) (sb2q_tail s) (mt_host mt) (mt_queued mt) ?fin"
    and M: "main_ok (sb_main s) (sb_pcs s) (mt_host mt) (mt_queued mt) ?fin"
    using assms(1) by (auto simp: mmio_ok_def)
  have q: "?fin < mt_queued mt" using M main by (auto simp: main_ok_def)
  have head: "sb2q_head s = ?fin mod 128" "length (sb2q_q s) = 128" using W by (auto simp: mmio_window_def)
  have same: "?q ! (k mod 128) = sb2q_q s ! (k mod 128)" if "?fin < k" "k < ?fin + 128" for k
  proof -
    have "?fin mod 128 \<noteq> k mod 128" using window_mod_inj [of ?fin k ?fin] that by auto
    then show ?thesis unfolding head(1) by (rule nth_list_update_neq)
  qed
  have "\<not> sl_ready (?q ! (k mod 128))" if k: "mt_queued mt \<le> k" "k < ?fin + 1 + 128" for k
  proof (cases "k = ?fin + 128")
    case True
    then show ?thesis using head by simp
  next
    case False
    then have "\<not> sl_ready (sb2q_q s ! (k mod 128))" using k W by (simp add: mmio_window_def)
    then show ?thesis using same [of k] k q False by simp
  qed
  moreover have "sl_ready (?q ! (k mod 128)) \<and> sl_msg (?q ! (k mod 128)) = mt_host mt ! k" if k: "?fin + 1 \<le> k" "k < mt_queued mt" for k
  proof -
    have "k < ?fin + 128" "sl_ready (sb2q_q s ! (k mod 128)) \<and> sl_msg (sb2q_q s ! (k mod 128)) = mt_host mt ! k"
      using W k by (auto simp: mmio_window_def)
    then show ?thesis using same [of k] k by simp
  qed
  ultimately have "mmio_window ?q ((sb2q_head s + 1) mod SB2Q_SZ) (sb2q_tail s) (mt_host mt) (mt_queued mt) (?fin + 1)"
    using W q by (simp add: mmio_window_def SB2Q_SZ_def mod_Suc_eq)
  moreover have "main_ok Polling (sb_pcs s) (mt_host mt) (mt_queued mt) (?fin + 1)"
    using M main by (auto simp: main_ok_def)
  moreover have "?fin < length (mt_host mt)" using W q by (simp add: mmio_window_def)
  then have "read_ids (take (?fin + 1) (mt_host mt)) = read_ids (take ?fin (mt_host mt)) @ read_ids [mt_host mt ! ?fin]"
    by (simp add: take_Suc_conv_app_nth)
  moreover have "pending_answer (sb_main s) (sb_pcs s 0) (mt_host mt ! ?fin) = read_ids [mt_host mt ! ?fin]"
    using main M by (auto simp: pending_answer_def main_ok_def)
  ultimately show ?thesis
    using assms(1) by (simp add: mmio_ok_def s' pending_answer_def [of Polling])
qed

lemma mmio_enqueue:
  assumes "mmio_ok s cs mt" "sbt_enqueue s = Next s'"
  shows "mmio_ok s' cs (note_mmio Enqueue mt)"
proof -
  obtain m where m: "sb_sbt s = Sbt_spin m" "\<not> sl_ready (sb2q_q s ! sb2q_tail s)"
    and s': "s' = s\<lparr>sb2q_q := (sb2q_q s)[sb2q_tail s := \<lparr>sl_ready = True, sl_msg = m\<rparr>],
                     sb2q_tail := (sb2q_tail s + 1) mod SB2Q_SZ, sb_sbt := Sbt_queue\<rparr>"
    using assms(2) by (auto simp: sbt_enqueue_def split: sbt_pc.splits if_splits)
  let ?q = "(sb2q_q s)[sb2q_tail s := \<lparr>sl_ready = True, sl_msg = m\<rparr>]" and ?fin = "mt_done mt" and ?n = "mt_queued mt"
  have W: "mmio_window (sb2q_q s) (sb2q_head s) (sb2q_tail s) (mt_host mt) ?n ?fin"
    and host: "length (mt_host mt) = ?n + 1" "mt_host mt ! ?n = m"
    using assms(1) m(1) by (auto simp: mmio_ok_def sbt_ok_def)
  have tail: "sb2q_tail s = ?n mod 128" "length (sb2q_q s) = 128" "?fin \<le> ?n" "?n \<le> ?fin + 128" using W by (auto simp: mmio_window_def)
  have room: "?n < ?fin + 128"
  proof (rule ccontr)
    assume "\<not> ?n < ?fin + 128"
    then have "?n = ?fin + 128" using tail(4) by simp
    moreover from this have "sl_ready (sb2q_q s ! (?fin mod 128))" using W by (simp add: mmio_window_def)
    ultimately show False using m(2) tail(1) by simp
  qed
  have same: "?q ! (k mod 128) = sb2q_q s ! (k mod 128)" if "?fin \<le> k" "k < ?fin + 128" "k \<noteq> ?n" for k
  proof -
    have "?n mod 128 \<noteq> k mod 128" using window_mod_inj [of ?n k ?fin] that room tail(3) by auto
    then show ?thesis unfolding tail(1) by (rule nth_list_update_neq)
  qed
  have "sl_ready (?q ! (k mod 128)) \<and> sl_msg (?q ! (k mod 128)) = mt_host mt ! k" if k: "?fin \<le> k" "k < ?n + 1" for k
  proof (cases "k = ?n")
    case True
    then show ?thesis using tail host by simp
  next
    case False
    then have "k < ?fin + 128" "sl_ready (sb2q_q s ! (k mod 128)) \<and> sl_msg (sb2q_q s ! (k mod 128)) = mt_host mt ! k"
      using W k room by (auto simp: mmio_window_def)
    then show ?thesis using same [of k] k False by simp
  qed
  moreover have "\<not> sl_ready (?q ! (k mod 128))" if "?n + 1 \<le> k" "k < ?fin + 128" for k
    using same [of k] that W tail(3) by (simp add: mmio_window_def)
  ultimately have "mmio_window ?q (sb2q_head s) ((sb2q_tail s + 1) mod SB2Q_SZ) (mt_host mt) (?n + 1) ?fin"
    using W room host by (simp add: mmio_window_def SB2Q_SZ_def mod_Suc_eq)
  moreover have "main_ok (sb_main s) (sb_pcs s) (mt_host mt) (?n + 1) ?fin" using assms(1) by (auto simp: mmio_ok_def main_ok_def)
  ultimately show ?thesis using assms(1) host by (simp add: mmio_ok_def s' sbt_ok_def)
qed

lemma mmio_message:
  assumes "mmio_ok s cs mt" "sbt_message m s = Next s'"
  shows "mmio_ok s' cs (note_mmio (Message m) mt)"
proof -
  have poll: "sb_sbt s = Sbt_poll" and host: "length (mt_host mt) = mt_queued mt"
    using assms by (auto simp: sbt_message_def mmio_ok_def sbt_ok_def split: if_splits)
  have s': "sb_pcs s' = sb_pcs s" "sb_main s' = sb_main s" "sb2q_q s' = sb2q_q s" "sb2q_head s' = sb2q_head s" "sb2q_tail s' = sb2q_tail s"
    "sb_sbt s' = (case host_access m of [] \<Rightarrow> Sbt_queue | a # _ \<Rightarrow> Sbt_spin a)"
    using assms(2) poll by (auto simp: sbt_message_def send_def dma_read_comp_def host_access_def split: h2d.splits if_splits option.splits)
  have W: "mmio_window (sb2q_q s) (sb2q_head s) (sb2q_tail s) (mt_host mt) (mt_queued mt) (mt_done mt)"
    and M: "main_ok (sb_main s) (sb_pcs s) (mt_host mt) (mt_queued mt) (mt_done mt)"
    using assms(1) by (auto simp: mmio_ok_def)
  have le: "mt_done mt \<le> length (mt_host mt)" using W by (simp add: mmio_window_def)
  have "mmio_window (sb2q_q s) (sb2q_head s) (sb2q_tail s) (mt_host mt @ host_access m) (mt_queued mt) (mt_done mt)"
    using W host by (simp add: mmio_window_def nth_append)
  moreover have "sbt_ok (sb_sbt s') (mt_host mt @ host_access m) (mt_queued mt)"
    using host by (cases m) (auto simp: sbt_ok_def s'(6) host_access_def nth_append)
  moreover have "main_ok (sb_main s) (sb_pcs s) (mt_host mt @ host_access m) (mt_queued mt) (mt_done mt)"
    using M host by (auto simp: main_ok_def nth_append)
  moreover have "pending_answer (sb_main s) (sb_pcs s 0) ((mt_host mt @ host_access m) ! mt_done mt) =
      pending_answer (sb_main s) (sb_pcs s 0) (mt_host mt ! mt_done mt)"
    using M host by (auto simp: pending_answer_def main_ok_def nth_append split: main_pc.split)
  ultimately show ?thesis using assms(1) le by (simp add: mmio_ok_def s'(1-5))
qed

lemma mmio_quiet:
  assumes "mmio_ok s cs mt" "sb_pcs s' = sb_pcs s" "sb_main s' = sb_main s" "sb2q_q s' = sb2q_q s" "sb2q_head s' = sb2q_head s"
    "sb2q_tail s' = sb2q_tail s" "\<And>m. sb_sbt s \<noteq> Sbt_spin m" "\<And>m. sb_sbt s' \<noteq> Sbt_spin m"
  shows "mmio_ok s' cs mt"
proof -
  have "sbt_ok (sb_sbt s') host q = sbt_ok (sb_sbt s) host q" for host q
    using assms(7,8) by (auto simp: sbt_ok_def split: sbt_pc.split)
  then show ?thesis using assms(1) by (simp add: mmio_ok_def assms(2-6))
qed

end
