(* ===== verification/Sb_Props.thy ===== *)
theory Sb_Props
  imports Sb_Mmio
begin

text \<open>Properties of the message queues between the device and the simulator.\<close>

subsection \<open>Whole runs\<close>

lemma calls_upd: "(\<And>e. tk_call (f e) = tk_call e) \<Longrightarrow> map tk_call (upd_ticket t f h) = map tk_call h"
  by (simp add: upd_ticket_def)

lemma mmio_step:
  assumes I: "mmio_ok s (map tk_call (tr_tickets tr)) mt" and "sb_step out_elen e s = Next s'"
  shows "mmio_ok s' (map tk_call (tr_tickets (note_event e tr))) (note_mmio e mt)"
proof (cases e)
  case (Take t c)
  then show ?thesis using mmio_take [OF I] assms(2) by simp
next
  case (Wait t)
  then obtain i c where "sb_pcs s t = Waiting i c" and s': "s' = set_pc t (Writing i c) s"
    using assms(2) by (auto simp: sb_wait_def split: sb_pc.splits if_splits)
  then have "mmio_ok s' (map tk_call (tr_tickets tr)) mt"
    by (intro mmio_go_on [OF I, of t c "Writing i c"]) (simp_all add: pc_call_def set_pc_def)
  then show ?thesis by (simp add: Wait upd_trace_def calls_upd)
next
  case (Fill t d)
  then obtain i c where "sb_pcs s t = Writing i c" and s': "s' = set_pc t (Written i c)
      (s\<lparr>q2sb_q := (q2sb_q s)[i := (q2sb_q s ! i)\<lparr>sl_msg := q2sb_msg t c d\<rparr>],
         sb_ops := (if is_dma c then (sb_ops s)(t \<mapsto> new_op c (sb_bufs s t)) else sb_ops s)\<rparr>)"
    using assms(2) by (auto simp: sb_fill_def split: sb_pc.splits)
  then have "mmio_ok s' (map tk_call (tr_tickets tr)) mt"
    by (intro mmio_go_on [OF I, of t c "Written i c"]) (simp_all add: pc_call_def set_pc_def)
  then show ?thesis by (simp add: Fill upd_trace_def calls_upd)
next
  case (Publish t)
  then show ?thesis using mmio_publish [OF I] assms(2) by (simp add: upd_trace_def calls_upd)
next
  case (Return t)
  then show ?thesis using mmio_return [OF I] assms(2) by simp
next
  case Main_start
  then show ?thesis using mmio_start [OF I] assms(2) by simp
next
  case Main_finish
  then show ?thesis using mmio_finish [OF I] assms(2) by simp
next
  case (Message m)
  then have "mmio_ok s' (map tk_call (tr_tickets tr)) (note_mmio (Message m) mt)" using mmio_message [OF I] assms(2) by simp
  moreover have "tr_tickets (note_event (Message m) tr) = tr_tickets tr" by (cases m) simp_all
  ultimately show ?thesis by (simp add: Message del: note_mmio.simps)
next
  case Enqueue
  then show ?thesis using mmio_enqueue [OF I] assms(2) by simp
next
  case No_message
  then show ?thesis using assms(2) by (auto simp: sbt_no_message_def split: if_splits intro!: mmio_quiet [OF I])
next
  case Send
  then have "sb_sbt s = Sbt_queue" using assms(2) by (auto simp: sbt_send_def split: if_splits)
  moreover have "sb_pcs s' = sb_pcs s" "sb_main s' = sb_main s" "sb2q_q s' = sb2q_q s" "sb2q_head s' = sb2q_head s"
    "sb2q_tail s' = sb2q_tail s" "sb_sbt s' = Sbt_release"
    using assms(2) Send by (auto simp: sbt_send_def send_def Let_def split: if_splits qemu2sb.splits option.splits)
  ultimately have "mmio_ok s' (map tk_call (tr_tickets tr)) mt" by (intro mmio_quiet [OF I]) simp_all
  then show ?thesis by (simp add: Send Let_def)
next
  case Nothing
  then show ?thesis using assms(2) by (auto simp: sbt_nothing_def split: if_splits intro!: mmio_quiet [OF I])
next
  case Release
  then show ?thesis using assms(2) by (auto simp: sbt_release_def split: if_splits intro!: mmio_quiet [OF I])
qed

lemma mmio_run:
  "mmio_ok s (map tk_call (tr_tickets tr)) mt \<Longrightarrow> sb_run out_elen evs s = Next s' \<Longrightarrow>
   mmio_ok s' (map tk_call (tr_tickets (fold note_event evs tr))) (fold note_mmio evs mt)"
proof (induction evs arbitrary: s tr mt)
  case (Cons e es)
  then obtain s1 where "sb_step out_elen e s = Next s1" "sb_run out_elen es s1 = Next s'"
    by (auto split: outcome.splits)
  then show ?case using Cons.IH [OF mmio_step [OF Cons.prems(1)]] by simp
qed simp

text \<open>A run of one register read and one DMA write, as the witness of the first two properties.\<close>

definition ex_sb_run :: "sb_event list" where
  "ex_sb_run =
     [Message (H2D_read 7 0 0x1C 4), Take 1 (Call_dma_write 0x2000 [1, 2, 3]), Enqueue, Main_start, Take 0 (Call_read_comp 7),
      Wait 0, Fill 0 42, Publish 0, Main_finish, Nothing, Wait 1, Fill 1 0, Publish 1, No_message, Send, Release, No_message, Send,
      Release, Return 1]"

lemmas ex_sb_simps = ex_sb_run_def sb_init_def Q2SB_SZ_def SB2Q_SZ_def sbt_message_def sb_take_def may_call_def set_pc_def sbt_enqueue_def
  main_start_def sb_wait_def sb_fill_def q2sb_msg_def is_dma_def sb_publish_def main_finish_def sbt_nothing_def new_op_def
  sbt_no_message_def sbt_send_def send_def sbt_release_def dma_return_def

lemma ex_sb_ends:
  "\<exists>s. sb_run 64 ex_sb_run sb_init = Next s \<and> d2h_sent s = [D2H_write 0x2000 [1, 2, 3], D2H_readcomp 7 42] \<and> sb_pcs s 1 = Idle"
  by (simp add: ex_sb_simps)

lemma ex_sb_orderly: "orderly_from 64 ex_sb_run tr_init"
  by (simp add: ex_sb_run_def tr_init_def not_lapped_def upd_trace_def upd_ticket_def)

subsection \<open>The properties\<close>



text \<open>C19: Reads of registers are answered in the order of the host's requests, each with its own identifier: in every orderly run the identifiers of the answers sent are a prefix of those of the reads that the host sent, whatever writes, DMA transfers and interrupts come between.\<close>

theorem mmio_reads_answered_in_order:
  assumes "orderly_from out_elen evs tr_init" "sb_run out_elen evs sb_init = Next s"
  shows "prefix (answered (d2h_sent s)) (read_ids (mt_host (fold note_mmio evs mt_init)))"
proof -
  define h where "h = tr_tickets (fold note_event evs tr_init)"
  define mt where "mt = fold note_mmio evs mt_init"
  have "q2sb_ok out_elen s (fold note_event evs tr_init)"
    using sb_run_ok [OF q2sb_ok_init assms(1)] assms(2) by simp
  then obtain n where sent: "filter from_queue (d2h_sent s) = map d2h_of (take n h)" unfolding q2sb_ok_def sent_ok_def h_def by blast
  have I: "mmio_ok s (map tk_call h) mt"
    using mmio_run [of sb_init tr_init mt_init, OF _ assms(2)] mmio_ok_init by (simp add: h_def mt_def tr_init_def)
  have "answered ms = answered (filter from_queue ms)" for ms
    by (induction ms) (auto simp: answered_def from_queue_def split: d2h.splits)
  moreover have "answered (map d2h_of es) = answers (map tk_call es)" for es
    by (induction es) (auto simp: answered_def answers_def d2h_of_def split: sb_call.splits)
  ultimately have "answered (d2h_sent s) = answers (map tk_call (take n h))" using sent by metis
  moreover have "answers (map tk_call h) = answers (map tk_call (take n h)) @ answers (map tk_call (drop n h))"
    by (metis answers_append append_take_drop_id map_append)
  ultimately have "prefix (answered (d2h_sent s)) (answers (map tk_call h))" by simp
  moreover have "prefix (answers (map tk_call h)) (read_ids (mt_host mt))"
  proof -
    let ?fin = "mt_done mt"
    have a: "answers (map tk_call h) = read_ids (take ?fin (mt_host mt)) @ pending_answer (sb_main s) (sb_pcs s 0) (mt_host mt ! ?fin)"
      and M: "main_ok (sb_main s) (sb_pcs s) (mt_host mt) (mt_queued mt) ?fin"
      and W: "mmio_window (sb2q_q s) (sb2q_head s) (sb2q_tail s) (mt_host mt) (mt_queued mt) ?fin"
      using I by (auto simp: mmio_ok_def)
    show ?thesis
    proof (cases "sb_main s = Polling")
      case True
      then have "answers (map tk_call h) = read_ids (take ?fin (mt_host mt))" using a by (simp add: pending_answer_def)
      then show ?thesis by (metis append_take_drop_id prefixI read_ids_append)
    next
      case False
      then have "?fin < length (mt_host mt)" using M W by (auto simp: main_ok_def mmio_window_def)
      then have host: "mt_host mt = take ?fin (mt_host mt) @ [mt_host mt ! ?fin] @ drop (Suc ?fin) (mt_host mt)"
        by (simp add: id_take_nth_drop)
      have "prefix (pending_answer (sb_main s) (sb_pcs s 0) (mt_host mt ! ?fin)) (read_ids [mt_host mt ! ?fin])"
        using M by (auto simp: pending_answer_def main_ok_def split: main_pc.split)
      moreover have "read_ids (mt_host mt) =
          read_ids (take ?fin (mt_host mt)) @ read_ids [mt_host mt ! ?fin] @ read_ids (drop (Suc ?fin) (mt_host mt))"
        by (subst host) (simp only: read_ids_append)
      ultimately show ?thesis unfolding a by (auto simp: prefix_def)
    qed
  qed
  ultimately show ?thesis unfolding mt_def by (rule prefix_order.trans)
qed

theorem mmio_reads_answered_in_order_witness:
  "\<exists>s. sb_run 64 ex_sb_run sb_init = Next s \<and> answered (d2h_sent s) = [7] \<and>
     prefix (answered (d2h_sent s)) (read_ids (mt_host (fold note_mmio ex_sb_run mt_init)))"
proof -
  obtain s where s: "sb_run 64 ex_sb_run sb_init = Next s" "d2h_sent s = [D2H_write 0x2000 [1, 2, 3], D2H_readcomp 7 42]"
    using ex_sb_ends by blast
  with mmio_reads_answered_in_order [OF ex_sb_orderly s(1)] show ?thesis by (auto simp: answered_def)
qed

subsection \<open>A ticket that is lapped\<close>

definition irq_call :: "nat \<Rightarrow> sb_irq \<Rightarrow> sb_event list" where
  "irq_call t i = [Take t (Call_irq i), Wait t, Fill t 0, Publish t]"

definition forward :: "sb_event list" where "forward = [No_message, Send, Release]"

text \<open>Thread 1 is stopped before it fills in its message while thread 2 sends 128 interrupts; then it goes on.\<close>

definition lap_run :: "sb_event list" where
  "lap_run =
     [Take 1 (Call_irq (Irq_msix 1)), Wait 1] @ concat (replicate 128 (irq_call 2 (Irq_msix 2))) @ [Fill 1 0, Publish 1]"

lemma sb_run_append:
  "sb_run out_elen (xs @ ys) s =
     (case sb_run out_elen xs s of Blocked \<Rightarrow> Blocked | Fault \<Rightarrow> Fault | Next s \<Rightarrow> sb_run out_elen ys s)"
  by (induction xs arbitrary: s) (auto split: outcome.split)

lemma sb_run_three:
  "sb_run out_elen xs s0 = Next s1 \<Longrightarrow> sb_run out_elen ys s1 = Next s2 \<Longrightarrow> sb_run out_elen zs s2 = Next s3 \<Longrightarrow>
   sb_run out_elen (xs @ ys @ zs) s0 = Next s3"
  by (simp add: sb_run_append)

lemma slot_full [simp]: "sl\<lparr>sl_msg := m, sl_ready := r\<rparr> = \<lparr>sl_ready = r, sl_msg = m\<rparr>" for sl :: "'a slot"
  by (cases sl) simp

lemma irq_call_run:
  assumes "sb_pcs s t = Idle" "t \<noteq> 0" "q2sb_tail s < length (q2sb_q s)" "\<not> sl_ready (q2sb_q s ! q2sb_tail s)"
  shows "sb_run out_elen (irq_call t i) s =
    Next (s\<lparr>q2sb_tail := (q2sb_tail s + 1) mod 128, q2sb_q := (q2sb_q s)[q2sb_tail s := \<lparr>sl_ready = True, sl_msg = Q2SB_INT i\<rparr>]\<rparr>)"
proof -
  have "(sb_pcs s)(t := Idle) = sb_pcs s" using assms(1) by (rule fun_upd_idem)
  then show ?thesis
    using assms
    by (simp add: irq_call_def sb_take_def may_call_def set_pc_def sb_wait_def sb_fill_def q2sb_msg_def is_dma_def sb_publish_def Q2SB_SZ_def)
qed

lemma irq_calls_run:
  assumes "sb_pcs s t = Idle" "t \<noteq> 0" "q2sb_tail s = j" "j < 128" "j + k \<le> 128" "length (q2sb_q s) = 128"
    "\<And>l. j \<le> l \<Longrightarrow> l < j + k \<Longrightarrow> \<not> sl_ready (q2sb_q s ! l)"
  shows "sb_run out_elen (concat (replicate k (irq_call t i))) s =
    Next (s\<lparr>q2sb_tail := (j + k) mod 128,
            q2sb_q := take j (q2sb_q s) @ replicate k \<lparr>sl_ready = True, sl_msg = Q2SB_INT i\<rparr> @ drop (j + k) (q2sb_q s)\<rparr>)"
  using assms
proof (induction k arbitrary: s j)
  case 0
  then show ?case by simp
next
  case (Suc k)
  let ?x = "\<lparr>sl_ready = True, sl_msg = Q2SB_INT i\<rparr>"
  let ?s = "s\<lparr>q2sb_tail := (j + 1) mod 128, q2sb_q := (q2sb_q s)[j := ?x]\<rparr>"
  have one: "sb_run out_elen (irq_call t i) s = Next ?s" using irq_call_run [of s t] Suc.prems by simp
  show ?case
  proof (cases "k = 0")
    case True
    have "take j (q2sb_q s) @ ?x # drop (Suc j) (q2sb_q s) = (q2sb_q s)[j := ?x]"
      using Suc.prems(4-6) by (simp add: upd_conv_take_nth_drop)
    then show ?thesis using one True by simp
  next
    case False
    have "(q2sb_q s)[j := ?x] ! l = q2sb_q s ! l" if "j + 1 \<le> l" for l using that by simp
    then have "sb_run out_elen (concat (replicate k (irq_call t i))) ?s =
        Next (?s\<lparr>q2sb_tail := (j + 1 + k) mod 128, q2sb_q := take (j + 1) (q2sb_q ?s) @ replicate k ?x @ drop (j + 1 + k) (q2sb_q ?s)\<rparr>)"
      using Suc.prems False by (intro Suc.IH) auto
    moreover have "take (j + 1) ((q2sb_q s)[j := ?x]) = take j (q2sb_q s) @ [?x]"
      using Suc.prems(4-6) by (simp add: take_Suc_conv_app_nth)
    ultimately show ?thesis using one by (simp add: sb_run_append)
  qed
qed

lemma forward_run:
  assumes "sb_sbt s = Sbt_poll" "q2sb_head s < length (q2sb_q s)" "q2sb_q s ! q2sb_head s = \<lparr>sl_ready = True, sl_msg = Q2SB_INT i\<rparr>"
  shows "sb_run out_elen forward s =
    Next (s\<lparr>q2sb_q := (q2sb_q s)[q2sb_head s := \<lparr>sl_ready = False, sl_msg = Q2SB_INT i\<rparr>], q2sb_head := (q2sb_head s + 1) mod 128,
            d2h_sent := d2h_sent s @ [D2H_interrupt i]\<rparr>)"
  using assms by (simp add: forward_def sbt_no_message_def sbt_send_def send_def sbt_release_def Q2SB_SZ_def)

lemma forwards_run:
  assumes "sb_sbt s = Sbt_poll" "q2sb_head s = j" "j < 128" "length (q2sb_q s) = 128" "j + length is' \<le> 128"
    "drop j (q2sb_q s) = map (\<lambda>i. \<lparr>sl_ready = True, sl_msg = Q2SB_INT i\<rparr>) is' @ rest"
  shows "\<exists>s'. sb_run out_elen (concat (replicate (length is') forward)) s = Next s' \<and> d2h_sent s' = d2h_sent s @ map D2H_interrupt is' \<and>
    sb_sbt s' = Sbt_poll \<and> q2sb_head s' = (j + length is') mod 128 \<and> q2sb_tail s' = q2sb_tail s \<and> sb_pcs s' = sb_pcs s \<and>
    q2sb_q s' = take j (q2sb_q s) @ map (\<lambda>i. \<lparr>sl_ready = False, sl_msg = Q2SB_INT i\<rparr>) is' @ rest"
  using assms
proof (induction is' arbitrary: s j)
  case Nil
  then have "q2sb_q s = take j (q2sb_q s) @ rest" by (metis append_Nil append_take_drop_id list.simps(8))
  then show ?case using Nil by auto
next
  case (Cons i is')
  let ?r = "\<lparr>sl_ready = True, sl_msg = Q2SB_INT i\<rparr>" and ?f = "\<lparr>sl_ready = False, sl_msg = Q2SB_INT i\<rparr>"
  let ?s = "s\<lparr>q2sb_q := (q2sb_q s)[j := ?f], q2sb_head := (j + 1) mod 128, d2h_sent := d2h_sent s @ [D2H_interrupt i]\<rparr>"
  have j: "j < 128" using Cons.prems(3) .
  have "q2sb_q s ! j # drop (Suc j) (q2sb_q s) = drop j (q2sb_q s)" using Cons.prems(4) j by (simp add: Cons_nth_drop_Suc)
  then have at: "q2sb_q s ! j = ?r"
    and rest: "drop (Suc j) (q2sb_q s) = map (\<lambda>i. \<lparr>sl_ready = True, sl_msg = Q2SB_INT i\<rparr>) is' @ rest"
    using Cons.prems(6) by simp_all
  have one: "sb_run out_elen forward s = Next ?s" using forward_run [of s i] Cons.prems(1,2,4) at j by simp
  have q: "take (Suc j) ((q2sb_q s)[j := ?f]) = take j (q2sb_q s) @ [?f]" using Cons.prems(4) j by (simp add: take_Suc_conv_app_nth)
  show ?case
  proof (cases "is' = []")
    case True
    have "(q2sb_q s)[j := ?f] = take j (q2sb_q s) @ ?f # rest"
      using rest True Cons.prems(4) j by (simp add: upd_conv_take_nth_drop)
    then show ?thesis using one True Cons.prems(1) by simp
  next
    case False
    then have "j + 1 < 128" using Cons.prems(5) by (cases is') auto
    then have "\<exists>s'. sb_run out_elen (concat (replicate (length is') forward)) ?s = Next s' \<and> d2h_sent s' = d2h_sent ?s @ map D2H_interrupt is' \<and>
        sb_sbt s' = Sbt_poll \<and> q2sb_head s' = (j + 1 + length is') mod 128 \<and> q2sb_tail s' = q2sb_tail ?s \<and> sb_pcs s' = sb_pcs ?s \<and>
        q2sb_q s' = take (j + 1) (q2sb_q ?s) @ map (\<lambda>i. \<lparr>sl_ready = False, sl_msg = Q2SB_INT i\<rparr>) is' @ rest"
      using Cons.prems rest by (intro Cons.IH) auto
    then show ?thesis using one q by (auto simp: sb_run_append)
  qed
qed

text \<open>C21: \<open>sb_op_alloc\<close> waits only for slots that are ready, not for those another thread has taken and not filled in.  If one thread is stopped between taking its slot and filling it in while the others send 128 messages, the last of these shares its slot: of the 129 interrupts only 128 reach the host, the overwritten one of the second thread is lost, the stopped thread's comes first, and the queue is out of step for good, its head at slot 0 and its tail at slot 1.\<close>

theorem lapped_ticket_loses_interrupt:
  "\<exists>s. sb_run out_elen (lap_run @ concat (replicate 128 forward)) sb_init = Next s \<and>
     d2h_sent s = D2H_interrupt (Irq_msix 1) # replicate 127 (D2H_interrupt (Irq_msix 2)) \<and>
     sb_run out_elen [No_message, Send] s = Blocked \<and> q2sb_head s = 0 \<and> q2sb_tail s = 1 \<and> sb_pcs s 1 = Idle \<and> sb_pcs s 2 = Idle"
proof -
  let ?x = "\<lparr>sl_ready = True, sl_msg = Q2SB_INT (Irq_msix 2)\<rparr>" and ?y = "\<lparr>sl_ready = True, sl_msg = Q2SB_INT (Irq_msix 1)\<rparr>"
    and ?e = "\<lparr>sl_ready = False, sl_msg = Q2SB_MMIO_READ_COMP 0 0\<rparr>" and ?i = "Irq_msix 2" and ?pc = "Writing 0 (Call_irq (Irq_msix 1))"
  define s1 where "s1 = sb_init\<lparr>q2sb_tail := 1, sb_pcs := (sb_pcs sb_init)(1 := ?pc)\<rparr>"
  have 1: "sb_run out_elen [Take 1 (Call_irq (Irq_msix 1)), Wait 1] sb_init = Next s1"
    by (simp add: s1_def sb_init_def sb_take_def may_call_def set_pc_def sb_wait_def Q2SB_SZ_def)
  define s2 where "s2 = s1\<lparr>q2sb_tail := 0, q2sb_q := ?e # replicate 127 ?x\<rparr>"
  have "sb_run out_elen (concat (replicate 127 (irq_call 2 ?i))) s1 =
      Next (s1\<lparr>q2sb_tail := (1 + 127) mod 128, q2sb_q := take 1 (q2sb_q s1) @ replicate 127 ?x @ drop (1 + 127) (q2sb_q s1)\<rparr>)"
    by (rule irq_calls_run) (simp_all add: s1_def sb_init_def Q2SB_SZ_def)
  moreover have "take 1 (q2sb_q s1) = [?e]" "drop (1 + 127) (q2sb_q s1) = []"
    by (simp_all add: s1_def sb_init_def Q2SB_SZ_def take_replicate)
  ultimately have 2: "sb_run out_elen (concat (replicate 127 (irq_call 2 ?i))) s1 = Next s2" by (simp add: s2_def)
  define s3 where "s3 = s2\<lparr>q2sb_tail := 1, q2sb_q := ?x # replicate 127 ?x\<rparr>"
  have 3: "sb_run out_elen (irq_call 2 ?i) s2 = Next s3"
    using irq_call_run [of s2 2 out_elen ?i] by (simp add: s3_def s2_def s1_def sb_init_def)
  define s4 where "s4 = s3\<lparr>q2sb_q := ?y # replicate 127 ?x, sb_pcs := (sb_pcs s3)(1 := Idle)\<rparr>"
  have 4: "sb_run out_elen [Fill 1 0, Publish 1] s3 = Next s4"
    by (simp add: s4_def s3_def s2_def s1_def sb_init_def sb_fill_def sb_publish_def set_pc_def q2sb_msg_def is_dma_def)
  have "replicate 128 (irq_call 2 ?i) = replicate 127 (irq_call 2 ?i) @ [irq_call 2 ?i]"
    by (metis Suc_numeral replicate_append_same replicate_Suc semiring_norm(5) semiring_norm(8) semiring_norm(2))
  then have lap: "lap_run = [Take 1 (Call_irq (Irq_msix 1)), Wait 1] @ (concat (replicate 127 (irq_call 2 ?i)) @ irq_call 2 ?i) @ [Fill 1 0, Publish 1]"
    by (simp add: lap_run_def)
  have run: "sb_run out_elen lap_run sb_init = Next s4" unfolding lap sb_run_append 1 outcome.case 2 3 4 ..
  let ?is = "Irq_msix 1 # replicate 127 ?i"
  have len: "length ?is = 128" by simp
  obtain s where s: "sb_run out_elen (concat (replicate (length ?is) forward)) s4 = Next s \<and> d2h_sent s = d2h_sent s4 @ map D2H_interrupt ?is \<and>
      sb_sbt s = Sbt_poll \<and> q2sb_head s = (0 + length ?is) mod 128 \<and> q2sb_tail s = q2sb_tail s4 \<and> sb_pcs s = sb_pcs s4 \<and>
      q2sb_q s = take 0 (q2sb_q s4) @ map (\<lambda>i. \<lparr>sl_ready = False, sl_msg = Q2SB_INT i\<rparr>) ?is @ []"
    using forwards_run [of s4 0 ?is "[]" out_elen] by (auto simp: s4_def s3_def s2_def s1_def sb_init_def)
  have s4: "d2h_sent s4 = []" "q2sb_tail s4 = 1" "sb_pcs s4 1 = Idle" "sb_pcs s4 2 = Idle"
    by (simp_all add: s4_def s3_def s2_def s1_def sb_init_def)
  have "\<not> sl_ready (q2sb_q s ! q2sb_head s)" using s by simp
  then have "sb_run out_elen [No_message, Send] s = Blocked" using s by (simp add: sbt_no_message_def sbt_send_def)
  moreover have "sb_run out_elen (lap_run @ concat (replicate 128 forward)) sb_init = Next s" using s by (simp add: sb_run_append run)
  ultimately show ?thesis using s s4 by (intro exI [of _ s]) simp
qed

subsection \<open>A burst of writes\<close>

text \<open>The host writes a doorbell; the main thread is about to read the command while 128 more writes arrive.\<close>

definition doorbell :: h2d where "doorbell = H2D_write 0 0 0x1000 [1]"

definition burst_run :: "sb_event list" where
  "burst_run =
     [Message doorbell, Enqueue, Nothing, Main_start] @ concat (replicate 127 [Message doorbell, Enqueue, Nothing]) @
     [Message doorbell, Take 0 (Call_dma_read 0x2000 64), Wait 0, Fill 0 0, Publish 0]"

text \<open>The simulator's thread waits for a slot that only the main thread can free, and the main thread for a message
  that only the simulator's thread can send.\<close>

definition deadlocked :: "sb \<Rightarrow> bool" where
  "deadlocked s \<longleftrightarrow>
     (case sb_sbt s of Sbt_spin m \<Rightarrow> sl_ready (sb2q_q s ! sb2q_tail s) | _ \<Rightarrow> False) \<and> sb_main s = In_write \<and> sb_pcs s 0 = Awaiting \<and>
     (case sb_ops s 0 of Some op \<Rightarrow> \<not> op_ready op | None \<Rightarrow> False) \<and>
     (\<forall>t req. pc_call (sb_pcs s t) \<noteq> Some (Call_read_comp req))"

lemma deadlocked_step:
  assumes "deadlocked s" "sb_step out_elen e s = Next s'"
  shows "deadlocked s' \<and> d2h_sent s' = d2h_sent s"
proof -
  obtain m op where d: "sb_sbt s = Sbt_spin m" "sl_ready (sb2q_q s ! sb2q_tail s)" "sb_main s = In_write" "sb_pcs s 0 = Awaiting"
    "sb_ops s 0 = Some op" "\<not> op_ready op" "\<And>t req. pc_call (sb_pcs s t) \<noteq> Some (Call_read_comp req)"
    using assms(1) by (auto simp: deadlocked_def split: sbt_pc.splits option.splits)
  show ?thesis
  proof (cases e)
    case (Take t c)
    then have "sb_pcs s t = Idle" "may_call t c s" and s': "s' = set_pc t (Waiting (q2sb_tail s) c) (s\<lparr>q2sb_tail := (q2sb_tail s + 1) mod Q2SB_SZ\<rparr>)"
      using assms(2) by (auto simp: sb_take_def split: if_splits)
    moreover from this have "\<And>req. c \<noteq> Call_read_comp req" using d(3) by (auto simp: may_call_def)
    moreover have "t \<noteq> 0" using \<open>sb_pcs s t = Idle\<close> d(4) by (cases "t = 0") auto
    ultimately show ?thesis using d by (auto simp: deadlocked_def set_pc_def pc_call_def [of "Waiting i c" for i c])
  next
    case (Wait t)
    then obtain i c where pc: "sb_pcs s t = Waiting i c" and s': "s' = set_pc t (Writing i c) s"
      using assms(2) by (auto simp: sb_wait_def split: sb_pc.splits if_splits)
    then have "\<And>req. pc_call (Writing i c) \<noteq> Some (Call_read_comp req)" using d(7) [of t] by (auto simp: pc_call_def)
    moreover have "t \<noteq> 0" using pc d(4) by (cases "t = 0") auto
    ultimately show ?thesis using d by (simp add: deadlocked_def set_pc_def s')
  next
    case (Fill t v)
    then obtain i c where pc: "sb_pcs s t = Writing i c" and s': "s' = set_pc t (Written i c)
        (s\<lparr>q2sb_q := (q2sb_q s)[i := (q2sb_q s ! i)\<lparr>sl_msg := q2sb_msg t c v\<rparr>],
           sb_ops := (if is_dma c then (sb_ops s)(t \<mapsto> new_op c (sb_bufs s t)) else sb_ops s)\<rparr>)"
      using assms(2) by (auto simp: sb_fill_def split: sb_pc.splits)
    then have "\<And>req. pc_call (Written i c) \<noteq> Some (Call_read_comp req)" using d(7) [of t] by (auto simp: pc_call_def)
    moreover have "t \<noteq> 0" using pc d(4) by (cases "t = 0") auto
    ultimately show ?thesis using d by (simp add: deadlocked_def set_pc_def s')
  next
    case (Publish t)
    then obtain i c where pc: "sb_pcs s t = Written i c" and s': "s' = set_pc t (if is_dma c then Awaiting else Idle)
        (s\<lparr>q2sb_q := (q2sb_q s)[i := (q2sb_q s ! i)\<lparr>sl_ready := True\<rparr>],
           sb_main := (case c of Call_read_comp _ \<Rightarrow> Read_done | _ \<Rightarrow> sb_main s)\<rparr>)"
      using assms(2) by (auto simp: sb_publish_def split: sb_pc.splits)
    then have "\<And>req. c \<noteq> Call_read_comp req" using d(7) [of t] by (auto simp: pc_call_def)
    moreover have "t \<noteq> 0" using pc d(4) by (cases "t = 0") auto
    ultimately show ?thesis
      using d by (auto simp: deadlocked_def set_pc_def s' pc_call_def [of Idle] pc_call_def [of Awaiting] split: sb_call.split)
  next
    case (Return t)
    then obtain op' where "sb_ops s t = Some op'" "op_ready op'"
      and s': "s' = set_pc t Idle (s\<lparr>sb_ops := (sb_ops s)(t := None), sb_bufs := (sb_bufs s)(t := op_data op')\<rparr>)"
      using assms(2) by (auto simp: dma_return_def split: if_splits option.splits)
    moreover from this have "t \<noteq> 0" using d(5,6) by (cases "t = 0") auto
    ultimately show ?thesis using d by (simp add: deadlocked_def set_pc_def pc_call_def [of Idle])
  qed (use assms(2) d in \<open>auto simp: main_start_def main_finish_def sbt_message_def sbt_no_message_def sbt_enqueue_def sbt_send_def
         sbt_nothing_def sbt_release_def\<close>)
qed

lemma deadlocked_run:
  "deadlocked s \<Longrightarrow> case sb_run out_elen evs s of Next s' \<Rightarrow> deadlocked s' \<and> d2h_sent s' = d2h_sent s | _ \<Rightarrow> True"
proof (induction evs arbitrary: s)
  case (Cons e es)
  show ?case
  proof (cases "sb_step out_elen e s")
    case (Next s1)
    then show ?thesis using Cons.IH [of s1] deadlocked_step [OF Cons.prems Next] by (auto split: outcome.splits)
  qed simp_all
qed simp

lemma doorbell_run:
  assumes "sb_sbt s = Sbt_poll" "sb2q_tail s = j" "\<not> sl_ready (sb2q_q s ! j)" "\<not> sl_ready (q2sb_q s ! q2sb_head s)"
  shows "sb_run out_elen [Message doorbell, Enqueue, Nothing] s =
    Next (s\<lparr>sb2q_tail := (j + 1) mod 128, sb2q_q := (sb2q_q s)[j := \<lparr>sl_ready = True, sl_msg = SB2Q_MMIO_WRITE 0 0x1000 1 1\<rparr>],
            d2h_sent := d2h_sent s @ [D2H_writecomp 0]\<rparr>)"
  using assms by (simp add: doorbell_def sbt_message_def sbt_enqueue_def send_def sbt_nothing_def SB2Q_SZ_def le_value_def)

lemma doorbells_run:
  assumes "sb_sbt s = Sbt_poll" "sb2q_tail s = j" "j < 128" "j + k \<le> 128" "length (sb2q_q s) = 128"
    "\<And>l. j \<le> l \<Longrightarrow> l < j + k \<Longrightarrow> \<not> sl_ready (sb2q_q s ! l)" "\<not> sl_ready (q2sb_q s ! q2sb_head s)"
  shows "sb_run out_elen (concat (replicate k [Message doorbell, Enqueue, Nothing])) s =
    Next (s\<lparr>sb2q_tail := (j + k) mod 128,
            sb2q_q := take j (sb2q_q s) @ replicate k \<lparr>sl_ready = True, sl_msg = SB2Q_MMIO_WRITE 0 0x1000 1 1\<rparr> @ drop (j + k) (sb2q_q s),
            d2h_sent := d2h_sent s @ replicate k (D2H_writecomp 0)\<rparr>)"
  using assms
proof (induction k arbitrary: s j)
  case 0
  then show ?case by simp
next
  case (Suc k)
  let ?x = "\<lparr>sl_ready = True, sl_msg = SB2Q_MMIO_WRITE 0 0x1000 1 1\<rparr>"
  let ?s = "s\<lparr>sb2q_tail := (j + 1) mod 128, sb2q_q := (sb2q_q s)[j := ?x], d2h_sent := d2h_sent s @ [D2H_writecomp 0]\<rparr>"
  have one: "sb_run out_elen [Message doorbell, Enqueue, Nothing] s = Next ?s" by (rule doorbell_run) (use Suc.prems in simp_all)
  show ?case
  proof (cases "k = 0")
    case True
    have "take j (sb2q_q s) @ ?x # drop (Suc j) (sb2q_q s) = (sb2q_q s)[j := ?x]"
      using Suc.prems(3-5) by (simp add: upd_conv_take_nth_drop)
    then show ?thesis using one True by simp
  next
    case False
    have "sb_run out_elen (concat (replicate k [Message doorbell, Enqueue, Nothing])) ?s =
        Next (?s\<lparr>sb2q_tail := (j + 1 + k) mod 128, sb2q_q := take (j + 1) (sb2q_q ?s) @ replicate k ?x @ drop (j + 1 + k) (sb2q_q ?s),
                 d2h_sent := d2h_sent ?s @ replicate k (D2H_writecomp 0)\<rparr>)"
      using Suc.prems False by (intro Suc.IH) auto
    moreover have "take (j + 1) ((sb2q_q s)[j := ?x]) = take j (sb2q_q s) @ [?x]"
      using Suc.prems(3-5) by (simp add: take_Suc_conv_app_nth)
    moreover have "concat (replicate (Suc k) [Message doorbell, Enqueue, Nothing]) =
        [Message doorbell, Enqueue, Nothing] @ concat (replicate k [Message doorbell, Enqueue, Nothing])" by simp
    ultimately show ?thesis using one by (simp only: sb_run_append outcome.case) simp
  qed
qed

text \<open>C20: A burst of register writes deadlocks the device.  Writes are acknowledged before the device has seen them; the simulator's thread then spins until \<open>sb2q_q\<close> has a free slot, and while it spins it sends nothing.  When 128 further writes arrive while the main thread handles a doorbell whose command it has to read by DMA, the two threads wait for each other: whatever any thread does from then on, the main thread never returns from its DMA call and nothing is sent to the simulator any more, although all 129 writes were acknowledged.\<close>

theorem mmio_burst_deadlocks:
  "\<exists>s. sb_run out_elen burst_run sb_init = Next s \<and> d2h_sent s = replicate 129 (D2H_writecomp 0) \<and>
     (\<forall>evs. case sb_run out_elen evs s of
        Next s' \<Rightarrow> sb_pcs s' 0 = Awaiting \<and> sb_main s' = In_write \<and> d2h_sent s' = d2h_sent s
      | _ \<Rightarrow> True)"
proof -
  let ?w = "[Message doorbell, Enqueue, Nothing]" and ?x = "\<lparr>sl_ready = True, sl_msg = SB2Q_MMIO_WRITE 0 0x1000 1 1\<rparr>"
    and ?e = "\<lparr>sl_ready = False, sl_msg = SB2Q_MMIO_READ 0 0 0 0\<rparr>"
  define s1 where "s1 = sb_init\<lparr>sb2q_tail := 1, sb2q_q := ?x # replicate 127 ?e, d2h_sent := [D2H_writecomp 0], sb_main := In_write\<rparr>"
  have "replicate 128 ?e = ?e # replicate 127 ?e" by (metis Suc_numeral replicate_Suc semiring_norm(5) semiring_norm(8) semiring_norm(2))
  then have "(replicate 128 ?e)[0 := ?x] = ?x # replicate 127 ?e" by simp
  moreover have "sb_run out_elen ?w sb_init = Next (sb_init\<lparr>sb2q_tail := (0 + 1) mod 128, sb2q_q := (sb2q_q sb_init)[0 := ?x],
      d2h_sent := d2h_sent sb_init @ [D2H_writecomp 0]\<rparr>)"
    by (rule doorbell_run) (simp_all add: sb_init_def Q2SB_SZ_def SB2Q_SZ_def)
  ultimately have 1: "sb_run out_elen (?w @ [Main_start]) sb_init = Next s1"
    unfolding sb_run_append by (simp add: s1_def sb_init_def SB2Q_SZ_def main_start_def)
  define s2 where "s2 = s1\<lparr>sb2q_tail := 0, sb2q_q := ?x # replicate 127 ?x, d2h_sent := replicate 128 (D2H_writecomp 0)\<rparr>"
  have "sb_run out_elen (concat (replicate 127 ?w)) s1 =
    Next (s1\<lparr>sb2q_tail := (1 + 127) mod 128, sb2q_q := take 1 (sb2q_q s1) @ replicate 127 ?x @ drop (1 + 127) (sb2q_q s1),
            d2h_sent := d2h_sent s1 @ replicate 127 (D2H_writecomp 0)\<rparr>)"
    by (rule doorbells_run) (auto simp: s1_def sb_init_def Q2SB_SZ_def nth_Cons')
  moreover have "[D2H_writecomp 0] @ replicate 127 (D2H_writecomp 0) = replicate 128 (D2H_writecomp 0)"
    by (metis Suc_numeral append_Cons append_Nil replicate_Suc semiring_norm(5) semiring_norm(8) semiring_norm(2))
  ultimately have 2: "sb_run out_elen (concat (replicate 127 ?w)) s1 = Next s2" by (simp add: s2_def s1_def)
  let ?last = "[Message doorbell, Take 0 (Call_dma_read 0x2000 64), Wait 0, Fill 0 0, Publish 0]"
  obtain s where s: "sb_run out_elen ?last s2 = Next s" "d2h_sent s = replicate 128 (D2H_writecomp 0) @ [D2H_writecomp 0]" "deadlocked s"
    by (simp add: s2_def s1_def sb_init_def doorbell_def sbt_message_def sb_take_def may_call_def set_pc_def sb_wait_def sb_fill_def sb_publish_def
        q2sb_msg_def is_dma_def new_op_def send_def Q2SB_SZ_def SB2Q_SZ_def deadlocked_def pc_call_def)
  have "burst_run = (?w @ [Main_start]) @ concat (replicate 127 ?w) @ ?last" by (simp add: burst_run_def)
  then have "sb_run out_elen burst_run sb_init = Next s" using sb_run_three [OF 1 2 s(1)] by (simp only:)
  moreover have "d2h_sent s = replicate 129 (D2H_writecomp 0)"
    using s(2) by (metis Suc_numeral replicate_append_same replicate_Suc semiring_norm(5) semiring_norm(8) semiring_norm(2))
  moreover have "case sb_run out_elen evs s of Next s' \<Rightarrow> sb_pcs s' 0 = Awaiting \<and> sb_main s' = In_write \<and> d2h_sent s' = d2h_sent s | _ \<Rightarrow> True" for evs
    using deadlocked_run [OF s(3), of out_elen evs] by (auto simp: deadlocked_def split: outcome.splits)
  ultimately show ?thesis by blast
qed

end
