(* ===== verification/Pci_Intro.thy ===== *)
theory Pci_Intro
  imports Femu_Ctrl
begin

text \<open>
  What the device announces to the simulator: the configuration space that \<open>nvme_init_pci\<close> of \<open>femu.c\<close> fills in through
  the PCI routines of \<open>qemu-compat/wrapper-qemu.c\<close>, and \<open>dev_intro\<close>, which \<open>translate_dev_intro\<close> of \<open>wrapper-main.c\<close>
  completes from it.  The structure of the announcement comes from the simulator's headers; the model has the values that
  the code stores, at the width of the expression stored.  \<open>None\<close> is a store outside an array.
\<close>

subsection \<open>Configuration space\<close>

definition PCI_CFG_SPACE_EXP_SIZE :: nat where "PCI_CFG_SPACE_EXP_SIZE = 4096"
definition PCI_STD_NUM_BARS :: nat where "PCI_STD_NUM_BARS = 6"
definition PCI_VENDOR_ID :: nat where "PCI_VENDOR_ID = 0x00"
definition PCI_DEVICE_ID :: nat where "PCI_DEVICE_ID = 0x02"
definition PCI_REVISION_ID :: nat where "PCI_REVISION_ID = 0x08"
definition PCI_CLASS_PROG :: nat where "PCI_CLASS_PROG = 0x09"
definition PCI_CLASS_DEVICE :: nat where "PCI_CLASS_DEVICE = 0x0a"
definition PCI_INTERRUPT_PIN :: nat where "PCI_INTERRUPT_PIN = 0x3d"
definition PCI_CLASS_STORAGE_EXPRESS :: u16 where "PCI_CLASS_STORAGE_EXPRESS = 0x0108"

definition pci_set_byte :: "u8 list \<Rightarrow> nat \<Rightarrow> u8 \<Rightarrow> u8 list" where "pci_set_byte config off val = config[off := val]"

definition pci_set_word :: "u8 list \<Rightarrow> nat \<Rightarrow> u16 \<Rightarrow> u8 list" where
  "pci_set_word config off val = config[off := ucast val, off + 1 := ucast (drop_bit 8 val)]"

definition pci_get_word :: "u8 list \<Rightarrow> nat \<Rightarrow> u16" where
  "pci_get_word config off = ucast (config ! off) OR push_bit 8 (ucast (config ! (off + 1)))"

definition pci_config_set_vendor_id :: "u8 list \<Rightarrow> u16 \<Rightarrow> u8 list" where
  "pci_config_set_vendor_id config val = pci_set_word config PCI_VENDOR_ID val"
definition pci_config_set_device_id :: "u8 list \<Rightarrow> u16 \<Rightarrow> u8 list" where
  "pci_config_set_device_id config val = pci_set_word config PCI_DEVICE_ID val"
definition pci_config_set_class :: "u8 list \<Rightarrow> u16 \<Rightarrow> u8 list" where
  "pci_config_set_class config val = pci_set_word config PCI_CLASS_DEVICE val"
definition pci_config_set_prog_interface :: "u8 list \<Rightarrow> u8 \<Rightarrow> u8 list" where
  "pci_config_set_prog_interface config val = pci_set_byte config PCI_CLASS_PROG val"

definition init_config :: "u16 \<Rightarrow> u16 \<Rightarrow> u8 list" where
  "init_config vid did =
     (let config = pci_set_byte (replicate PCI_CFG_SPACE_EXP_SIZE 0) PCI_INTERRUPT_PIN 1;
          config = pci_config_set_prog_interface config 2;
          config = pci_config_set_vendor_id config vid;
          config = pci_config_set_device_id config did
      in pci_config_set_class config PCI_CLASS_STORAGE_EXPRESS)"

subsection \<open>The announcement\<close>

record intro_bar =
  ib_len :: u64
  ib_dummy :: bool

record dev_intro =
  pci_vendor_id :: u16
  pci_device_id :: u16
  pci_class :: u8
  pci_subclass :: u8
  pci_revision :: u8
  pci_progif :: u8
  pci_msi_nvecs :: u32
  pci_msix_nvecs :: u16
  pci_msix_table_bar :: u8
  pci_msix_pba_bar :: u8
  pci_msix_table_offset :: u64
  pci_msix_pba_offset :: u64
  intro_bars :: "intro_bar option list"

definition no_intro :: dev_intro where
  "no_intro =
     \<lparr>pci_vendor_id = 0, pci_device_id = 0, pci_class = 0, pci_subclass = 0, pci_revision = 0, pci_progif = 0, pci_msi_nvecs = 0,
      pci_msix_nvecs = 0, pci_msix_table_bar = 0, pci_msix_pba_bar = 0, pci_msix_table_offset = 0, pci_msix_pba_offset = 0,
      intro_bars = replicate PCI_STD_NUM_BARS None\<rparr>"

definition pci_register_bar :: "dev_intro \<Rightarrow> nat \<Rightarrow> u64 \<Rightarrow> dev_intro option" where
  "pci_register_bar i region_num size' =
     (if region_num < PCI_STD_NUM_BARS
      then Some (i\<lparr>intro_bars := (intro_bars i)[region_num := Some \<lparr>ib_len = size', ib_dummy = False\<rparr>]\<rparr>) else None)"

definition msix_init_exclusive_bar :: "dev_intro \<Rightarrow> u16 \<Rightarrow> u8 \<Rightarrow> dev_intro option" where
  "msix_init_exclusive_bar i nentries bar_nr =
     (let bar_size = 4096
      in if unat bar_nr < PCI_STD_NUM_BARS
         then Some (i\<lparr>pci_msix_nvecs := nentries, pci_msix_table_bar := bar_nr, pci_msix_pba_bar := bar_nr,
                      pci_msix_table_offset := 0, pci_msix_pba_offset := bar_size div 2,
                      intro_bars := (intro_bars i)[unat bar_nr := Some \<lparr>ib_len = bar_size, ib_dummy = True\<rparr>]\<rparr>)
         else None)"

definition msi_init :: "dev_intro \<Rightarrow> u32 \<Rightarrow> dev_intro" where "msi_init i nr_vectors = i\<lparr>pci_msi_nvecs := nr_vectors\<rparr>"

text \<open>The part of \<open>nvme_init_pci\<close> and \<open>nvme_init_cmb\<close> that announces the device; the part that sets up the
  controller itself is in \<open>Femu_Init\<close>.\<close>

definition announce_pci :: "femu \<Rightarrow> dev_intro option" where
  "announce_pci n =
     do {
       i \<leftarrow> pci_register_bar no_intro 0 (ucast (n_reg_size n));
       i \<leftarrow> msix_init_exclusive_bar i (ucast (p_num_io_queues (n_cfg n) + 1)) 4;
       let i = msi_init i 32;
       if p_cmbsz (n_cfg n) \<noteq> 0
       then pci_register_bar i (unat (CMB_BAR n)) (ucast (NVME_CMBSZ_GETSIZE (p_cmbsz (n_cfg n))))
       else Some i
     }"

definition translate_dev_intro :: "u8 list \<Rightarrow> dev_intro \<Rightarrow> dev_intro" where
  "translate_dev_intro config i =
     i\<lparr>pci_vendor_id := pci_get_word config PCI_VENDOR_ID, pci_device_id := pci_get_word config PCI_DEVICE_ID,
       pci_class := config ! (PCI_CLASS_DEVICE + 1), pci_subclass := config ! PCI_CLASS_DEVICE,
       pci_revision := config ! PCI_REVISION_ID, pci_progif := config ! PCI_CLASS_PROG\<rparr>"

subsection \<open>Properties\<close>

lemma word_of_bytes: "ucast (ucast w :: u8) OR push_bit 8 (ucast (ucast (drop_bit 8 w) :: u8)) = w" for w :: u16
  by (rule bit_word_eqI) (auto simp: bit_simps)

lemma init_config_bytes:
  "pci_get_word (init_config vid did) PCI_VENDOR_ID = vid" "pci_get_word (init_config vid did) PCI_DEVICE_ID = did"
  "init_config vid did ! PCI_CLASS_DEVICE = 8" "init_config vid did ! (PCI_CLASS_DEVICE + 1) = 1"
  "init_config vid did ! PCI_CLASS_PROG = 2" "init_config vid did ! PCI_REVISION_ID = 0"
  by (simp_all add: init_config_def Let_def pci_config_set_vendor_id_def pci_config_set_device_id_def pci_config_set_class_def
      pci_config_set_prog_interface_def pci_set_word_def pci_set_byte_def pci_get_word_def PCI_CFG_SPACE_EXP_SIZE_def PCI_VENDOR_ID_def
      PCI_DEVICE_ID_def PCI_CLASS_DEVICE_def PCI_CLASS_PROG_def PCI_REVISION_ID_def PCI_INTERRUPT_PIN_def
      PCI_CLASS_STORAGE_EXPRESS_def word_of_bytes nth_list_update)

text \<open>The simulator sees the configured identifiers, an NVMe controller, the register file in BAR 0 and as many MSI-X
  vectors as there are queues.  A controller memory buffer has to name a BAR that exists and is neither of those in use: any other is not refused.\<close>

theorem announced_device:
  assumes "announce_pci n = Some i" "p_cmbsz (n_cfg n) = 0 \<or> unat (CMB_BAR n) \<notin> {0, 4}"
  defines "d \<equiv> translate_dev_intro (init_config (p_vid (n_cfg n)) (p_did (n_cfg n))) i"
  shows "pci_vendor_id d = p_vid (n_cfg n)" "pci_device_id d = p_did (n_cfg n)" "pci_class d = 1" "pci_subclass d = 8" "pci_progif d = 2"
    "pci_revision d = 0" "intro_bars d ! 0 = Some \<lparr>ib_len = ucast (n_reg_size n), ib_dummy = False\<rparr>"
    "pci_msix_nvecs d = ucast (p_num_io_queues (n_cfg n) + 1)" "intro_bars d ! 4 = Some \<lparr>ib_len = 4096, ib_dummy = True\<rparr>"
proof -
  show "pci_vendor_id d = p_vid (n_cfg n)" "pci_device_id d = p_did (n_cfg n)" "pci_class d = 1" "pci_subclass d = 8" "pci_progif d = 2"
    "pci_revision d = 0"
    by (simp_all add: d_def translate_dev_intro_def init_config_bytes [simplified])
  have "pci_msix_nvecs i = ucast (p_num_io_queues (n_cfg n) + 1)"
    "intro_bars i ! 0 = Some \<lparr>ib_len = ucast (n_reg_size n), ib_dummy = False\<rparr>" "intro_bars i ! 4 = Some \<lparr>ib_len = 4096, ib_dummy = True\<rparr>"
    using assms(1,2)
    by (auto simp: announce_pci_def pci_register_bar_def msix_init_exclusive_bar_def msi_init_def no_intro_def PCI_STD_NUM_BARS_def
        Let_def split: if_splits)
  then show "pci_msix_nvecs d = ucast (p_num_io_queues (n_cfg n) + 1)"
    "intro_bars d ! 0 = Some \<lparr>ib_len = ucast (n_reg_size n), ib_dummy = False\<rparr>" "intro_bars d ! 4 = Some \<lparr>ib_len = 4096, ib_dummy = True\<rparr>"
    by (simp_all add: d_def translate_dev_intro_def)
qed

end
