(* ===== verification/Spec2Isabelle.thy ===== *)
theory Spec2Isabelle
  imports Dma_Props Ftl_Props Zns_Props Ring_Props Nvme_Io_Props Ctrl_Props Oc20_Props Oc12_Props Tailq_Props Bitmap_Search Sb_Props Pci_Intro
begin

text \<open>
  A verification library of FEMU, the NVMe solid state drive emulator, in the version that runs as a device model of
  the SimBricks simulator.  The theories are read beside the C sources; paths below are relative to \<open>src/\<close>.

  \<^bold>\<open>The program.\<close>  A host reaches the device through registers, doorbells and DMA.  \<open>qemu-compat/wrapper-main.c\<close>
  and \<open>wrapper-qemu.c\<close> stand in for QEMU: one thread speaks to the simulator, the main thread runs the register
  accesses, and two message queues of 128 slots connect them.  \<open>femu/femu.c\<close> realises the controller, decodes registers and
  doorbells and, for the admin queue, runs the commands of \<open>femu/nvme-admin.c\<close> at once.  I/O submission queues are
  served by pollers (\<open>femu/nvme-io.c\<close>), which fetch commands, execute them on the DRAM backend and, in the black-box mode,
  send each request through a ring (\<open>femu/inc/rte_ring.h\<close>) to the thread of the flash translation layer
  (\<open>femu/bbssd/ftl.c\<close>) and take it back through a second ring.  That thread gives the request its latency; a priority
  queue (\<open>femu/lib/pqueue.c\<close>) holds requests until they are due, and then a completion is posted and the host
  is interrupted (\<open>femu/intr.c\<close>).  The other device modes are the zoned namespace (\<open>femu/zns\<close>), the open-channel
  versions 1.2 and 2.0 (\<open>femu/ocssd\<close>) and a mode without a drive (\<open>femu/nossd\<close>).

  \<^bold>\<open>How the code is modelled.\<close>
  \<^item> A \<open>uintN_t\<close> is a word of its width and wraps; an \<open>int\<close> whose overflow would be undefined is an \<open>int\<close>, and
    where the code compares or shifts signed with unsigned values the conversion is written out.
  \<^item> A structure is a record, an enumeration a datatype with a function to its codes, an array a list.  The state of the
    controller, \<open>FemuCtrl\<close>, is the record \<open>femu\<close> of \<open>Femu_State\<close>; queues and namespaces are in tables, and a
    pointer to a request is the queue and the position that name it.
  \<^item> A statement that stops the process (\<open>abort\<close>, a failed \<open>assert\<close>), an access out of range, through
    \<open>NULL\<close> or to freed memory, and a division by zero is the value \<open>None\<close> (\<open>Fault\<close> for a step of a thread, a sum with the reason in \<open>Ftl\<close>).  An NVMe error is a
    status word, as in the code.
  \<^item> Memory that the code leaves uninitialised has arbitrary contents, given as an argument (\<open>junk\<close>).
  \<^item> Threads are sequences of steps.  A step of the pollers and the FTL thread is one iteration of their loops;
    in \<open>Ring_Props\<close> and \<open>Sb_Queue\<close> a step is one access to the shared memory.  Memory is sequentially consistent.
  \<^item> Host memory is a function from addresses to bytes.  The time of the host's clock is an argument.  What the C library returns
    (addresses of \<open>malloc\<close>, \<open>rand\<close>, clocks, whether allocation succeeds) is in the environments \<open>oc_env\<close> and \<open>admin_env\<close>.
  \<^item> The operations of the open-channel modes enter the I/O path (\<open>ext_io_cmd\<close>) and the admin commands (\<open>admin_env\<close>)
    as arguments; \<open>oc_io_cmd\<close> and \<open>with_oc\<close> of \<open>Oc12_Ctrl\<close> are the modelled ones.  The size \<open>out_elen\<close> of an element of
    the simulator's queue comes from a library that is not under \<open>src/\<close> and is a parameter.

  \<^bold>\<open>The theories, by the part they model.\<close>
  \<^item> \<open>Femu_Prelude\<close>: word types, C conversions, lemmas on lists and words, collections of rewrite rules.
  \<^item> \<open>Pqueue\<close> (\<open>femu/lib/pqueue.c\<close>): the binary heap over an abstract store of nodes, reached through the callbacks.
    The locale \<open>pq_order\<close> is the contract of the comparison, \<open>pq_node\<close> adds that of the node fields; every operation is proved once
    inside: the heap stays ordered, the positions stay right, the contents change as a multiset, and peek is least.  \<open>Ftl\<close>
    interprets it on lines (\<open>victim\<close>) and \<open>Nvme_Io_Inv\<close> on requests (\<open>cpl\<close>).
  \<^item> \<open>Nvme_Types\<close>, \<open>Oc_Types\<close>, \<open>Femu_State\<close> (\<open>femu/nvme.h\<close>, \<open>ocssd/oc12.h\<close>, \<open>ocssd/oc20.h\<close>): codes, bit fields,
    commands, registers, and the controller.
  \<^item> \<open>Dma\<close>, \<open>Dma_Props\<close> (\<open>femu/dma.c\<close>, \<open>backend/dram.c\<close>): PRP lists, scatter-gather transfers, the controller memory
    buffer; a translation covers exactly the transfer.
  \<^item> \<open>Bitmap\<close>, \<open>Bitmap_Ops\<close>, \<open>Bitmap_Sets\<close>, \<open>Bitmap_Atomic\<close>, \<open>Bitmap_Search\<close> (\<open>qemu-compat/bitmap.c\<close>, \<open>bitmap.h\<close>,
    \<open>bitops.c\<close>, \<open>bitops.h\<close>): word-wise operations against sets of bit numbers; the searches find the least position.
  \<^item> \<open>Tailq\<close>, \<open>Tailq_Props\<close> (\<open>qemu-compat/queue.h\<close>): the tail queue macros on a store of links refine lists.  This
    is why the other theories take such a queue as a list.
  \<^item> \<open>Ring\<close>, \<open>Ring_Props\<close> (\<open>femu/inc/rte_ring.h\<close>, \<open>lib/rte_ring.c\<close>): the locale \<open>fifo\<close> states what a bounded queue
    promises to its client and is interpreted on the ring (\<open>ring_fifo\<close>); one producer and one consumer are interleaved at their memory accesses.
  \<^item> \<open>Ftl\<close> (\<open>bbssd/ftl.c\<close>, \<open>ftl.h\<close>), with \<open>Ftl_Inv\<close> (mapping table, reverse map and page states agree),
    \<open>Ftl_Lines\<close> (line sets, counters, write pointer), \<open>Ftl_Gc\<close> (collection and the write path) and \<open>Ftl_Props\<close>: no logical page is lost by
    a write or a collection, collection ends, and how much spare space makes every write succeed.
  \<^item> \<open>Nvme_Queue\<close>, \<open>Virq\<close> (\<open>nvme-util.c\<close>, \<open>intr.c\<close>), \<open>Nvme_Io\<close> (\<open>nvme-io.c\<close>, \<open>bbssd/bb.c\<close>, \<open>nossd/nop.c\<close>, the FTL
    thread), with \<open>Nvme_Io_Inv\<close>, \<open>Nvme_Io_Steps\<close> (each request is in one place under every interleaving),
    \<open>Nvme_Rw\<close> (what reads and writes do to host memory and backend) and \<open>Nvme_Io_Props\<close> (phase tags, expiry, errors).
  \<^item> \<open>Femu_Init\<close>, \<open>Nvme_Admin\<close>, \<open>Femu_Ctrl\<close> (\<open>femu.c\<close>, \<open>nvme-admin.c\<close>, the main loop of \<open>wrapper-main.c\<close>), with
    \<open>Queue_Inv\<close>, \<open>Ctrl_Inv\<close> (the queue tables stay well formed under every access of the host), \<open>Admin_Queue\<close> (a
    doorbell serves the admin queue) and \<open>Ctrl_Props\<close> (queue creation and deletion, with their errors).  \<open>Pci_Intro\<close> is the device's
    announcement to the simulator.
  \<^item> \<open>Sb_Queue\<close> (\<open>wrapper-main.c\<close>, \<open>wrapper-qemu.c\<close>, \<open>wrapper.h\<close>), with \<open>Sb_Ring\<close> (tickets as the history of a run),
    \<open>Sb_Inv\<close>, \<open>Sb_Steps\<close>, \<open>Sb_Run\<close>, \<open>Sb_Mmio\<close> and \<open>Sb_Props\<close>: the message queues deliver in ticket order and register
    reads are answered in order; two runs show where they fail.
  \<^item> \<open>Zns\<close> (\<open>femu/zns/zns.c\<close>), with \<open>Zns_Inv\<close> (the locale \<open>zone_operation\<close>, interpreted on opening, closing,
    finishing, resetting and taking a zone offline), \<open>Zns_Write\<close> and \<open>Zns_Props\<close>.
  \<^item> \<open>Nand\<close>, \<open>Timing\<close> (\<open>femu/nand\<close>, \<open>femu/timing-model\<close>): latency and page tables, channel and chip times.
  \<^item> \<open>Oc20\<close>, \<open>Oc20_Ctrl\<close> (\<open>ocssd/oc20.c\<close>), with \<open>Oc20_Inv\<close> (an abstract chunk that is free, open at a position or
    closed), \<open>Oc20_Reach\<close> (initialisation) and \<open>Oc20_Props\<close>; \<open>Oc12\<close>, \<open>Oc12_Ctrl\<close> (\<open>ocssd/oc12.c\<close>) and
    \<open>Oc12_Props\<close>; \<open>Oc_Views\<close> shows what neither mode touches.

  \<^bold>\<open>Bounds.\<close>  The loop of \<open>ssd_write\<close> that collects while space is short has as many rounds of fuel as the device has
  pages; each round gains a free page, and \<open>Ftl_Props\<close> proves that the fuel is never used up.  The search for a clear
  area of a bitmap gets one round more than there are bits, proved enough in \<open>Bitmap_Search\<close>.  \<open>QTAILQ_FOREACH\<close> has the number of
  steps it may take as an argument, and the length of the list is enough.  The waits of \<open>wrapper-qemu.c\<close>
  are steps that are not enabled until their condition holds.  The runs of \<open>Sb_Props\<close> are orderly: no
  slot is taken while the ticket 128 before is unfinished, the host answers each DMA read once and in full, and messages fit; without the
  first the order is lost, as one theorem shows.

  \<^bold>\<open>What is not modelled.\<close>  Start-up and arguments of the process and the exchange of messages with the simulator's
  library, except for the order in which they happen; release of memory, locks and threads at exit; debug and statistics printers;
  the type registration with QEMU; the parts of \<open>queue.h\<close> whose operations no file uses (\<open>QLIST\<close>, \<open>QSLIST\<close>, \<open>QSIMPLEQ\<close>);
  \<open>atomic.h\<close>, of which a step is an access; \<open>rte_ring_generic.h\<close>, which no file includes; \<open>int128.h\<close>; and the tables of PCI
  constants beyond those that the modelled code uses.  A DMA transfer of the controller is one step outside the theories on the
  message queues, and always succeeds, as the wrapper's does.
\<close>

end
